(* ===== verification/Prelude.thy ===== *)
theory Prelude
  imports Complex_Main
begin

text \<open>
  The prelude of the development: the Python values that every component uses and the
  generic lemmas about them.

  \<^item> \<open>exn\<close> lists the exceptions the modelled code raises or catches, \<open>'a res\<close> is the result
    of a call that may raise, and \<open>('s, 'a) eff\<close> is a call that also changes a state: the
    state is returned in both cases, because Python keeps the effects a call had before it
    raised.
  \<^item> \<open>pyfloat\<close> is a Python float.  Finite values are exact reals (rounding and overflow to
    infinity are idealised away), infinities and NaN are kept with their IEEE behaviour:
    they propagate through arithmetic and every comparison with NaN is false.
  \<^item> \<open>json\<close> is what \<open>json.loads\<close> returns and \<open>jtext\<close> is a text that the code passes to the
    \<open>json\<close> module, seen up to formatting: either a text that parses (to the given object or
    array) or some other text.  \<open>json.loads (json.dumps j) = j\<close> holds by construction.
  \<^item> a dictionary whose order matters is an association list; \<open>dset\<close> is \<open>d[k] = v\<close> and
    \<open>dupdate\<close> is \<open>d.update(e)\<close>.
\<close>

section \<open>Collections of rewrite rules\<close>

named_theorems pyfloat_simps \<open>arithmetic and comparisons of Python floats\<close>
named_theorems eff_simps \<open>sequencing of calls that may raise\<close>
named_theorems dict_simps \<open>dictionary updates\<close>
named_theorems db_simps \<open>database tables and their statements\<close>

section \<open>Exceptions, results and effects\<close>

datatype exn =
    ValueError string
  | TypeError
  | AttributeError
  | KeyError string
  | ZeroDivisionError
  | OverflowError
  | JSONDecodeError
  | IndexError
  | IntegrityError string
  | OperationalError string
  | RedisError

type_synonym 'a res = "exn + 'a"

type_synonym ('s, 'a) eff = "'s \<Rightarrow> 'a res \<times> 's"

definition res_bind :: "'a res \<Rightarrow> ('a \<Rightarrow> 'b res) \<Rightarrow> 'b res" where
  "res_bind r k = (case r of Inl e \<Rightarrow> Inl e | Inr x \<Rightarrow> k x)"

fun res_map :: "('a \<Rightarrow> 'b res) \<Rightarrow> 'a list \<Rightarrow> 'b list res" where
  "res_map f [] = Inr []"
| "res_map f (x # xs) = res_bind (f x) (\<lambda>y. res_bind (res_map f xs) (\<lambda>ys. Inr (y # ys)))"

definition ret :: "'a \<Rightarrow> ('s, 'a) eff" where
  "ret x = (\<lambda>s. (Inr x, s))"

definition throw :: "exn \<Rightarrow> ('s, 'a) eff" where
  "throw e = (\<lambda>s. (Inl e, s))"

definition lift_res :: "'a res \<Rightarrow> ('s, 'a) eff" where
  "lift_res r = (\<lambda>s. (r, s))"

definition bind :: "('s, 'a) eff \<Rightarrow> ('a \<Rightarrow> ('s, 'b) eff) \<Rightarrow> ('s, 'b) eff" where
  "bind m k = (\<lambda>s. case m s of (Inl e, s') \<Rightarrow> (Inl e, s') | (Inr x, s') \<Rightarrow> k x s')"

definition then_do :: "('s, 'a) eff \<Rightarrow> ('s, 'b) eff \<Rightarrow> ('s, 'b) eff" where
  "then_do m n = bind m (\<lambda>_. n)"

definition get_state :: "('s, 's) eff" where
  "get_state = (\<lambda>s. (Inr s, s))"

definition modify :: "('s \<Rightarrow> 's) \<Rightarrow> ('s, unit) eff" where
  "modify f = (\<lambda>s. (Inr (), f s))"

text \<open>\<open>except Exception\<close> around a call: the handler runs in the state the call left.\<close>

definition catch :: "('s, 'a) eff \<Rightarrow> (exn \<Rightarrow> ('s, 'a) eff) \<Rightarrow> ('s, 'a) eff" where
  "catch m h = (\<lambda>s. case m s of (Inl e, s') \<Rightarrow> h e s' | (Inr x, s') \<Rightarrow> (Inr x, s'))"

fun for_each :: "('a \<Rightarrow> ('s, unit) eff) \<Rightarrow> 'a list \<Rightarrow> ('s, unit) eff" where
  "for_each f [] = ret ()"
| "for_each f (x # xs) = then_do (f x) (for_each f xs)"

lemma res_bind_simps [simp, eff_simps]:
  "res_bind (Inl e) k = Inl e"
  "res_bind (Inr x) k = k x"
  by (simp_all add: res_bind_def)

lemma res_bind_Inr_iff:
  "res_bind r k = Inr y \<longleftrightarrow> (\<exists>x. r = Inr x \<and> k x = Inr y)"
  by (cases r) auto

lemma res_bind_Inl_iff:
  "res_bind r k = Inl e \<longleftrightarrow> r = Inl e \<or> (\<exists>x. r = Inr x \<and> k x = Inl e)"
  by (cases r) auto

lemma ret_apply [simp, eff_simps]: "ret x s = (Inr x, s)"
  by (simp add: ret_def)

lemma throw_apply [simp, eff_simps]: "throw e s = (Inl e, s)"
  by (simp add: throw_def)

lemma lift_res_apply [simp, eff_simps]: "lift_res r s = (r, s)"
  by (simp add: lift_res_def)

lemma get_state_apply [simp, eff_simps]: "get_state s = (Inr s, s)"
  by (simp add: get_state_def)

lemma modify_apply [simp, eff_simps]: "modify f s = (Inr (), f s)"
  by (simp add: modify_def)

lemma bind_apply [eff_simps]:
  "bind m k s = (case m s of (Inl e, s') \<Rightarrow> (Inl e, s') | (Inr x, s') \<Rightarrow> k x s')"
  by (simp add: bind_def)

lemma bind_Inr: "m s = (Inr x, s') \<Longrightarrow> bind m k s = k x s'"
  by (simp add: bind_def)

lemma bind_Inl: "m s = (Inl e, s') \<Longrightarrow> bind m k s = (Inl e, s')"
  by (simp add: bind_def)

lemma then_do_apply [eff_simps]:
  "then_do m n s = (case m s of (Inl e, s') \<Rightarrow> (Inl e, s') | (Inr x, s') \<Rightarrow> n s')"
  by (simp add: then_do_def bind_def)

lemma bind_ret_apply [simp]: "bind (ret x) k s = k x s"
  by (simp add: bind_def)

lemma bind_throw_apply [simp]: "bind (throw e) k s = (Inl e, s)"
  by (simp add: bind_def)

lemma bind_get_state_apply [simp]: "bind get_state k s = k s s"
  by (simp add: bind_def)

lemma bind_lift_Inr_apply [simp]: "bind (lift_res (Inr x)) k s = k x s"
  by (simp add: bind_def)

lemma bind_lift_Inl_apply [simp]: "bind (lift_res (Inl e)) k s = (Inl e, s)"
  by (simp add: bind_def)

lemma then_modify_apply [simp]: "then_do (modify f) n s = n (f s)"
  by (simp add: then_do_def bind_def)

text \<open>An operation that keeps a predicate of the state, whether it returns or raises.\<close>

definition keeps :: "('s \<Rightarrow> bool) \<Rightarrow> ('s, 'a) eff \<Rightarrow> bool" where
  "keeps P m \<longleftrightarrow> (\<forall>s. P s \<longrightarrow> P (snd (m s)))"

lemma keepsI [intro]: "(\<And>s. P s \<Longrightarrow> P (snd (m s))) \<Longrightarrow> keeps P m"
  by (simp add: keeps_def)

lemma keepsD: "keeps P m \<Longrightarrow> P s \<Longrightarrow> P (snd (m s))"
  by (simp add: keeps_def)

lemma keeps_ret [simp]: "keeps P (ret x)"
  by (simp add: keeps_def)

lemma keeps_throw [simp]: "keeps P (throw e)"
  by (simp add: keeps_def)

lemma keeps_lift_res [simp]: "keeps P (lift_res r)"
  by (simp add: keeps_def)

lemma keeps_get_state [simp]: "keeps P get_state"
  by (simp add: keeps_def)

lemma keeps_modify: "(\<And>s. P s \<Longrightarrow> P (f s)) \<Longrightarrow> keeps P (modify f)"
  by (simp add: keeps_def)

lemma keeps_bind: "keeps P m \<Longrightarrow> (\<And>x. keeps P (k x)) \<Longrightarrow> keeps P (bind m k)"
  by (fastforce simp: keeps_def bind_def split: prod.splits sum.splits)

lemma keeps_then_do: "keeps P m \<Longrightarrow> keeps P n \<Longrightarrow> keeps P (then_do m n)"
  by (simp add: then_do_def keeps_bind)

lemma keeps_for_each: "(\<And>x. x \<in> set xs \<Longrightarrow> keeps P (f x)) \<Longrightarrow> keeps P (for_each f xs)"
  by (induction xs) (auto intro: keeps_then_do)

lemmas keeps_intros = keeps_bind keeps_then_do keeps_for_each keeps_modify

section \<open>Python floats\<close>

datatype pyfloat = Fin real | PInf | NInf | NaN

fun fadd :: "pyfloat \<Rightarrow> pyfloat \<Rightarrow> pyfloat" where
  "fadd (Fin a) (Fin b) = Fin (a + b)"
| "fadd NaN _ = NaN"
| "fadd _ NaN = NaN"
| "fadd PInf NInf = NaN"
| "fadd NInf PInf = NaN"
| "fadd PInf _ = PInf"
| "fadd _ PInf = PInf"
| "fadd NInf _ = NInf"
| "fadd _ NInf = NInf"

fun fneg :: "pyfloat \<Rightarrow> pyfloat" where
  "fneg (Fin a) = Fin (- a)"
| "fneg PInf = NInf"
| "fneg NInf = PInf"
| "fneg NaN = NaN"

fun fsign :: "pyfloat \<Rightarrow> real" where
  "fsign (Fin a) = sgn a"
| "fsign PInf = 1"
| "fsign NInf = -1"
| "fsign NaN = 0"

fun fmul :: "pyfloat \<Rightarrow> pyfloat \<Rightarrow> pyfloat" where
  "fmul (Fin a) (Fin b) = Fin (a * b)"
| "fmul NaN _ = NaN"
| "fmul _ NaN = NaN"
| "fmul a b = (if fsign a * fsign b > 0 then PInf
               else if fsign a * fsign b < 0 then NInf else NaN)"

fun flt :: "pyfloat \<Rightarrow> pyfloat \<Rightarrow> bool" where
  "flt (Fin a) (Fin b) \<longleftrightarrow> a < b"
| "flt NaN _ \<longleftrightarrow> False"
| "flt _ NaN \<longleftrightarrow> False"
| "flt PInf _ \<longleftrightarrow> False"
| "flt _ NInf \<longleftrightarrow> False"
| "flt _ _ \<longleftrightarrow> True"

definition fle :: "pyfloat \<Rightarrow> pyfloat \<Rightarrow> bool" where
  "fle a b \<longleftrightarrow> flt a b \<or> (a = b \<and> a \<noteq> NaN)"

instantiation pyfloat :: "{plus, minus, uminus, times, ord}"
begin

definition plus_pyfloat :: "pyfloat \<Rightarrow> pyfloat \<Rightarrow> pyfloat" where
  "plus_pyfloat a b = fadd a b"

definition uminus_pyfloat :: "pyfloat \<Rightarrow> pyfloat" where
  "uminus_pyfloat a = fneg a"

definition minus_pyfloat :: "pyfloat \<Rightarrow> pyfloat \<Rightarrow> pyfloat" where
  "minus_pyfloat a b = fadd a (fneg b)"

definition times_pyfloat :: "pyfloat \<Rightarrow> pyfloat \<Rightarrow> pyfloat" where
  "times_pyfloat a b = fmul a b"

definition less_pyfloat :: "pyfloat \<Rightarrow> pyfloat \<Rightarrow> bool" where
  "less_pyfloat a b = flt a b"

definition less_eq_pyfloat :: "pyfloat \<Rightarrow> pyfloat \<Rightarrow> bool" where
  "less_eq_pyfloat a b = fle a b"

instance ..

end

lemma pyfloat_Fin [simp, pyfloat_simps]:
  "Fin a + Fin b = Fin (a + b)"
  "Fin a - Fin b = Fin (a - b)"
  "- Fin a = Fin (- a)"
  "Fin a * Fin b = Fin (a * b)"
  "(Fin a < Fin b) = (a < b)"
  "(Fin a \<le> Fin b) = (a \<le> b)"
  by (auto simp: plus_pyfloat_def minus_pyfloat_def uminus_pyfloat_def times_pyfloat_def
      less_pyfloat_def less_eq_pyfloat_def fle_def)

lemma pyfloat_NaN [simp, pyfloat_simps]:
  "NaN + x = NaN" "x + NaN = NaN" "NaN - x = NaN" "x - NaN = NaN"
  "NaN * x = NaN" "x * NaN = NaN" "- NaN = NaN"
  "\<not> NaN < x" "\<not> x < NaN" "\<not> NaN \<le> x" "\<not> x \<le> NaN"
  by (cases x; simp add: plus_pyfloat_def minus_pyfloat_def uminus_pyfloat_def
      times_pyfloat_def less_pyfloat_def less_eq_pyfloat_def fle_def)+

lemma pyfloat_less_inf [simp, pyfloat_simps]:
  "Fin a < PInf" "NInf < Fin a" "\<not> PInf < x" "\<not> x < NInf" "\<not> Fin a < NInf" "\<not> PInf < Fin a"
  "Fin a \<le> PInf" "\<not> PInf \<le> Fin a" "NInf \<le> Fin a" "\<not> Fin a \<le> NInf"
  by (cases x; simp add: less_pyfloat_def less_eq_pyfloat_def fle_def)+

lemma pyfloat_less_le: "(a :: pyfloat) < b \<Longrightarrow> a \<le> b"
  by (simp add: less_eq_pyfloat_def less_pyfloat_def fle_def)

text \<open>Division raises on a zero divisor, whatever the dividend is.\<close>

definition fdiv :: "pyfloat \<Rightarrow> pyfloat \<Rightarrow> pyfloat res" where
  "fdiv a b =
     (if b = Fin 0 then Inl ZeroDivisionError
      else Inr (case (a, b) of
          (Fin x, Fin y) \<Rightarrow> Fin (x / y)
        | (NaN, _) \<Rightarrow> NaN
        | (_, NaN) \<Rightarrow> NaN
        | (Fin x, _) \<Rightarrow> Fin 0
        | (_, Fin y) \<Rightarrow> (if fsign a * sgn y > 0 then PInf else NInf)
        | (_, _) \<Rightarrow> NaN))"

lemma fdiv_Fin [simp, pyfloat_simps]:
  "y \<noteq> 0 \<Longrightarrow> fdiv (Fin x) (Fin y) = Inr (Fin (x / y))"
  by (simp add: fdiv_def)

lemma fdiv_zero [simp, pyfloat_simps]: "fdiv a (Fin 0) = Inl ZeroDivisionError"
  by (simp add: fdiv_def)

text \<open>The literal conversions and the built-in functions on floats.\<close>

definition isfinite :: "pyfloat \<Rightarrow> bool" where
  "isfinite x \<longleftrightarrow> (case x of Fin _ \<Rightarrow> True | _ \<Rightarrow> False)"

definition truthy :: "pyfloat \<Rightarrow> bool" where
  "truthy x \<longleftrightarrow> x \<noteq> Fin 0"

definition pymax :: "pyfloat \<Rightarrow> pyfloat \<Rightarrow> pyfloat" where
  "pymax a b = (if b > a then b else a)"

definition pymin :: "pyfloat \<Rightarrow> pyfloat \<Rightarrow> pyfloat" where
  "pymin a b = (if b < a then b else a)"

definition fabs :: "pyfloat \<Rightarrow> pyfloat" where
  "fabs x = (case x of Fin a \<Rightarrow> Fin \<bar>a\<bar> | PInf \<Rightarrow> PInf | NInf \<Rightarrow> PInf | NaN \<Rightarrow> NaN)"

fun the_real :: "pyfloat \<Rightarrow> real" where
  "the_real (Fin a) = a"
| "the_real _ = 0"

lemma isfinite_simps [simp, pyfloat_simps]:
  "isfinite (Fin a)" "\<not> isfinite PInf" "\<not> isfinite NInf" "\<not> isfinite NaN"
  by (simp_all add: isfinite_def)

lemma isfinite_iff: "isfinite x \<longleftrightarrow> (\<exists>a. x = Fin a)"
  by (cases x) auto

lemma isfiniteE [elim]:
  assumes "isfinite x"
  obtains a where "x = Fin a"
  using assms by (auto simp: isfinite_iff)

lemma isfinite_arith [simp]:
  "isfinite x \<Longrightarrow> isfinite y \<Longrightarrow> isfinite (x + y)"
  "isfinite x \<Longrightarrow> isfinite y \<Longrightarrow> isfinite (x - y)"
  "isfinite x \<Longrightarrow> isfinite y \<Longrightarrow> isfinite (x * y)"
  by (auto elim!: isfiniteE)

lemma truthy_simps [simp, pyfloat_simps]:
  "truthy (Fin a) \<longleftrightarrow> a \<noteq> 0" "truthy NaN" "truthy PInf" "truthy NInf"
  by (simp_all add: truthy_def)

lemma pymax_Fin [simp, pyfloat_simps]: "pymax (Fin a) (Fin b) = Fin (max a b)"
  by (simp add: pymax_def max_def)

lemma pymin_Fin [simp, pyfloat_simps]: "pymin (Fin a) (Fin b) = Fin (min a b)"
  by (simp add: pymin_def min_def)

text \<open>\<open>sum(xs)\<close>.\<close>

definition fsum :: "pyfloat list \<Rightarrow> pyfloat" where
  "fsum xs = foldl (+) (Fin 0) xs"

lemma fabs_Fin [simp, pyfloat_simps]: "fabs (Fin a) = Fin \<bar>a\<bar>"
  by (simp add: fabs_def)

section \<open>Dictionaries\<close>

type_synonym ('k, 'v) dict = "('k \<times> 'v) list"

fun dset :: "'k \<Rightarrow> 'v \<Rightarrow> ('k, 'v) dict \<Rightarrow> ('k, 'v) dict" where
  "dset k v [] = [(k, v)]"
| "dset k v ((k', v') # d) = (if k' = k then (k, v) # d else (k', v') # dset k v d)"

definition ddel :: "'k \<Rightarrow> ('k, 'v) dict \<Rightarrow> ('k, 'v) dict" where
  "ddel k d = filter (\<lambda>p. fst p \<noteq> k) d"

definition dupdate :: "('k, 'v) dict \<Rightarrow> ('k, 'v) dict \<Rightarrow> ('k, 'v) dict" where
  "dupdate d e = fold (\<lambda>(k, v). dset k v) e d"

definition dget :: "('k, 'v) dict \<Rightarrow> 'k \<Rightarrow> 'v \<Rightarrow> 'v" where
  "dget d k v = (case map_of d k of None \<Rightarrow> v | Some w \<Rightarrow> w)"

definition keys :: "('k, 'v) dict \<Rightarrow> 'k list" where
  "keys d = map fst d"

abbreviation dict_ok :: "('k, 'v) dict \<Rightarrow> bool" where
  "dict_ok d \<equiv> distinct (map fst d)"

lemma map_of_dset [simp, dict_simps]: "map_of (dset k v d) = (map_of d)(k \<mapsto> v)"
  by (induction d) (auto simp: fun_eq_iff)

lemma map_of_ddel [simp, dict_simps]: "map_of (ddel k d) = (map_of d)(k := None)"
  by (induction d) (auto simp: ddel_def fun_eq_iff)

lemma fst_set_dset [simp]: "fst ` set (dset k v d) = insert k (fst ` set d)"
  by (simp flip: dom_map_of_conv_image_fst)

lemma fst_set_ddel [simp]: "fst ` set (ddel k d) = fst ` set d - {k}"
  by (simp flip: dom_map_of_conv_image_fst)

lemma dict_ok_dset [simp]: "dict_ok d \<Longrightarrow> dict_ok (dset k v d)"
proof (induction d)
  case Nil
  then show ?case by simp
next
  case (Cons p d)
  then show ?case
    by (cases p) auto
qed

lemma dict_ok_ddel [simp]: "dict_ok d \<Longrightarrow> dict_ok (ddel k d)"
  by (simp add: ddel_def distinct_map_filter)

lemma set_dset_subset: "set (dset k v d) \<subseteq> insert (k, v) (set d)"
  by (induction d) (auto split: if_splits)

lemma dset_fresh: "k \<notin> set (keys d) \<Longrightarrow> dset k v d = d @ [(k, v)]"
  by (induction d) (auto simp: keys_def)

lemma dupdate_simps [simp, dict_simps]:
  "dupdate d [] = d"
  "dupdate d ((k, v) # e) = dupdate (dset k v d) e"
  by (simp_all add: dupdate_def)

lemma dict_ok_dupdate [simp]: "dict_ok d \<Longrightarrow> dict_ok (dupdate d e)"
  by (induction e arbitrary: d) auto

lemma map_of_dupdate: "dict_ok e \<Longrightarrow> map_of (dupdate d e) = map_of d ++ map_of e"
proof (induction e arbitrary: d)
  case Nil
  then show ?case by simp
next
  case (Cons p e)
  obtain k v where p: "p = (k, v)" by (cases p)
  with Cons.prems have "map_of e k = None" by (auto simp: map_of_eq_None_iff)
  with Cons p show ?case
    by (auto simp: fun_eq_iff map_add_def split: option.splits)
qed

lemma dget_simps [simp, dict_simps]:
  "dget (dset k v d) k w = v"
  "k \<noteq> k' \<Longrightarrow> dget (dset k v d) k' w = dget d k' w"
  by (simp_all add: dget_def)

section \<open>JSON values and the texts that hold them\<close>

datatype json =
    JNull
  | JBool bool
  | JInt int
  | JNum pyfloat
  | JStr string
  | JArr "json list"
  | JObj "(string \<times> json) list"

datatype jtext = JText json | Raw string

fun jloads :: "jtext \<Rightarrow> json res" where
  "jloads (JText j) = Inr j"
| "jloads (Raw s) = Inl JSONDecodeError"

definition jdumps :: "json \<Rightarrow> jtext" where
  "jdumps j = JText j"

text \<open>\<open>raw or "{}"\<close>: a missing or empty text stands for the empty object.\<close>

definition or_empty_obj :: "jtext option \<Rightarrow> jtext" where
  "or_empty_obj t = (case t of None \<Rightarrow> JText (JObj [])
                     | Some (Raw s) \<Rightarrow> (if s = '''' then JText (JObj []) else Raw s)
                     | Some (JText j) \<Rightarrow> JText j)"

text \<open>
  The recurring idiom "parse, on an error or a non-object take the empty object".
\<close>

definition obj_or_empty :: "jtext option \<Rightarrow> (string, json) dict" where
  "obj_or_empty t =
     (case jloads (or_empty_obj t) of Inr (JObj d) \<Rightarrow> d | _ \<Rightarrow> [])"

fun json_truthy :: "json \<Rightarrow> bool" where
  "json_truthy JNull = False"
| "json_truthy (JBool b) = b"
| "json_truthy (JInt i) = (i \<noteq> 0)"
| "json_truthy (JNum x) = truthy x"
| "json_truthy (JStr s) = (s \<noteq> '''')"
| "json_truthy (JArr xs) = (xs \<noteq> [])"
| "json_truthy (JObj d) = (d \<noteq> [])"

definition jopt :: "('a \<Rightarrow> json) \<Rightarrow> 'a option \<Rightarrow> json" where
  "jopt f x = (case x of None \<Rightarrow> JNull | Some y \<Rightarrow> f y)"

lemma jloads_jdumps [simp]: "jloads (jdumps j) = Inr j"
  by (simp add: jdumps_def)

lemma or_empty_obj_simps [simp]:
  "or_empty_obj None = JText (JObj [])"
  "or_empty_obj (Some (JText j)) = JText j"
  "or_empty_obj (Some (jdumps j)) = JText j"
  by (simp_all add: or_empty_obj_def jdumps_def)

lemma obj_or_empty_simps [simp]:
  "obj_or_empty None = []"
  "obj_or_empty (Some (JText (JObj d))) = d"
  "obj_or_empty (Some (jdumps (JObj d))) = d"
  "obj_or_empty (Some (Raw s)) = []"
  by (simp_all add: obj_or_empty_def jdumps_def or_empty_obj_def)

section \<open>Lists\<close>

lemma sum_list_filter_split:
  "sum_list (map f xs) = sum_list (map f (filter P xs)) + sum_list (map f (filter (\<lambda>x. \<not> P x) xs))"
  for f :: "'a \<Rightarrow> 'b::comm_monoid_add"
  by (induction xs) (auto simp: ac_simps)

lemma sum_list_Fin: "foldl (+) (Fin a) (map Fin xs) = Fin (a + sum_list xs)"
  by (induction xs arbitrary: a) (auto simp: ac_simps)

lemma fsum_finite: "\<forall>x \<in> set xs. isfinite x \<Longrightarrow> fsum xs = Fin (sum_list (map the_real xs))"
proof -
  assume "\<forall>x \<in> set xs. isfinite x"
  then have "xs = map Fin (map the_real xs)" by (induction xs) auto
  then have "fsum xs = foldl (+) (Fin 0) (map Fin (map the_real xs))" by (simp add: fsum_def)
  then show ?thesis by (simp only: sum_list_Fin) simp
qed

lemma find_Some_iff_distinct:
  "distinct (map f xs) \<Longrightarrow> find (\<lambda>x. f x = k) xs = Some x \<longleftrightarrow> x \<in> set xs \<and> f x = k"
  by (induction xs) (auto simp: image_iff)

lemma find_None_iff': "find P xs = None \<longleftrightarrow> (\<forall>x \<in> set xs. \<not> P x)"
  by (auto simp: find_None_iff)

text \<open>The last elements of a list: \<open>xs[-d:]\<close> for a positive \<open>d\<close>.\<close>

definition last_n :: "nat \<Rightarrow> 'a list \<Rightarrow> 'a list" where
  "last_n d xs = drop (length xs - d) xs"

lemma last_n_short [simp]: "length xs \<le> d \<Longrightarrow> last_n d xs = xs"
  by (simp add: last_n_def)

lemma length_last_n [simp]: "length (last_n d xs) = min d (length xs)"
  by (simp add: last_n_def)

lemma last_n_append_short: "length xs < d \<Longrightarrow> last_n d (xs @ [x]) = xs @ [x]"
  by (simp add: last_n_def)

lemma last_n_append_full:
  "0 < d \<Longrightarrow> d \<le> length xs \<Longrightarrow> last_n d (xs @ [x]) = tl (last_n d xs) @ [x]"
  by (simp add: last_n_def drop_Suc [symmetric] Suc_diff_le tl_drop drop_Suc flip: drop_Suc)

lemma last_n_last_n_append: "0 < n \<Longrightarrow> last_n n (last_n n xs @ [x]) = last_n n (xs @ [x])"
  by (cases "length xs < n") (simp_all add: last_n_def Suc_diff_le)

lemma last_n_last_n: "last_n a (last_n b xs) = last_n (min a b) xs"
  by (cases "a \<le> b"; cases "b \<le> length xs") (auto simp: last_n_def min_def)

lemma map_last_n: "map f (last_n n xs) = last_n n (map f xs)"
  by (simp add: last_n_def drop_map)

end
