(* ===== verification/Models.thy ===== *)
theory Models
  imports Prelude
begin

text \<open>
  \<^verbatim>\<open>worker/app/models.py\<close>: the four signals an alpha can send and \<open>parse_signal\<close>, the trust
  boundary between the Redis stream and the executor.

  A stream entry is a dictionary from strings to strings.  It is split here by what the code
  does with a value: \<open>w_fields\<close> holds the plain texts, \<open>w_json\<close> the two keys whose text is
  handed to the \<open>json\<close> module (\<^verbatim>\<open>metadata\<close> and \<^verbatim>\<open>columns\<close>) and \<open>w_time\<close> the key whose text
  is handed to \<open>datetime.fromisoformat\<close> (\<^verbatim>\<open>timestamp\<close>).  \<open>py_float\<close> is Python's \<open>float(str)\<close>
  on decimal literals, \<^verbatim>\<open>nan\<close> and \<^verbatim>\<open>inf\<close>, with the exact value of the decimal.
\<close>

section \<open>Timestamps as texts\<close>

text \<open>
  A \<open>datetime\<close>: microseconds of its wall clock since 1970-01-01T00:00, and the offset of its
  zone from UTC in microseconds (\<open>None\<close> for a naive datetime).  \<open>isotext\<close> is a text by what
  \<open>datetime.fromisoformat(text.replace("Z", "+00:00"))\<close> makes of it.
\<close>

record datetime =
  wall :: int
  utcoff :: "int option"

datatype isotext = IsoText datetime | NotIso string

fun fromisoformat :: "isotext \<Rightarrow> datetime res" where
  "fromisoformat (IsoText d) = Inr d"
| "fromisoformat (NotIso s) = Inl (ValueError ''Invalid isoformat string'')"

section \<open>float(str)\<close>

definition is_digit :: "char \<Rightarrow> bool" where
  "is_digit c \<longleftrightarrow> 48 \<le> (of_char c :: nat) \<and> (of_char c :: nat) \<le> 57"

definition is_space :: "char \<Rightarrow> bool" where
  "is_space c \<longleftrightarrow> (of_char c :: nat) = 32 \<or> (9 \<le> (of_char c :: nat) \<and> (of_char c :: nat) \<le> 13)"

definition lower_char :: "char \<Rightarrow> char" where
  "lower_char c = (let n = (of_char c :: nat) in if 65 \<le> n \<and> n \<le> 90 then char_of (n + 32) else c)"

definition lower :: "string \<Rightarrow> string" where
  "lower s = map lower_char s"

definition upper_char :: "char \<Rightarrow> char" where
  "upper_char c = (let n = (of_char c :: nat) in if 97 \<le> n \<and> n \<le> 122 then char_of (n - 32) else c)"

definition upper :: "string \<Rightarrow> string" where
  "upper s = map upper_char s"

definition strip :: "string \<Rightarrow> string" where
  "strip s = rev (dropWhile is_space (rev (dropWhile is_space s)))"

text \<open>Digits, with the single underscores Python allows between two digits.\<close>

fun py_digits :: "bool \<Rightarrow> string \<Rightarrow> string \<times> string" where
  "py_digits prev [] = ([], [])"
| "py_digits prev (c # cs) =
     (if is_digit c then (let (d, r) = py_digits True cs in (c # d, r))
      else if c = CHR ''_'' \<and> prev \<and> cs \<noteq> [] \<and> is_digit (hd cs) then py_digits False cs
      else ([], c # cs))"

definition digits_value :: "string \<Rightarrow> nat" where
  "digits_value ds = foldl (\<lambda>n c. 10 * n + (of_char c - 48)) 0 ds"

definition split_sign :: "string \<Rightarrow> bool \<times> string" where
  "split_sign s = (case s of [] \<Rightarrow> (False, [])
     | c # cs \<Rightarrow> if c = CHR ''-'' then (True, cs) else if c = CHR ''+'' then (False, cs) else (False, s))"

definition py_exponent :: "string \<Rightarrow> int option" where
  "py_exponent s = (case s of [] \<Rightarrow> Some 0
     | c # cs \<Rightarrow>
         (if lower_char c = CHR ''e'' then
            (let (neg, t) = split_sign cs; (ds, r) = py_digits False t
             in if ds = [] \<or> r \<noteq> [] then None
                else Some (if neg then - int (digits_value ds) else int (digits_value ds)))
          else None))"

definition py_decimal :: "string \<Rightarrow> real option" where
  "py_decimal s =
     (let (i, r) = py_digits False s;
          (f, r2) = (if r \<noteq> [] \<and> hd r = CHR ''.'' then py_digits False (tl r) else ([], r))
      in if i = [] \<and> f = [] then None
         else case py_exponent r2 of
             None \<Rightarrow> None
           | Some e \<Rightarrow>
               (let m = real (digits_value (i @ f)); k = e - int (length f)
                in Some (if 0 \<le> k then m * 10 ^ nat k else m / 10 ^ nat (- k))))"

definition py_float :: "string \<Rightarrow> pyfloat res" where
  "py_float s =
     (let (neg, t) = split_sign (strip s)
      in if lower t = ''nan'' then Inr NaN
         else if lower t = ''inf'' \<or> lower t = ''infinity'' then Inr (if neg then NInf else PInf)
         else case py_decimal t of
             None \<Rightarrow> Inl (ValueError ''could not convert string to float'')
           | Some x \<Rightarrow> Inr (Fin (if neg then - x else x)))"

definition py_int_of_float :: "pyfloat \<Rightarrow> int res" where
  "py_int_of_float x = (case x of
       Fin r \<Rightarrow> Inr (if 0 \<le> r then \<lfloor>r\<rfloor> else \<lceil>r\<rceil>)
     | NaN \<Rightarrow> Inl (ValueError ''cannot convert float NaN to integer'')
     | _ \<Rightarrow> Inl OverflowError)"

text \<open>Decimal digits of an integer.\<close>

fun show_nat :: "nat \<Rightarrow> string" where
  "show_nat n = (if n < 10 then [char_of (48 + n)]
                 else show_nat (n div 10) @ [char_of (48 + n mod 10)])"

declare show_nat.simps [simp del]

definition show_int :: "int \<Rightarrow> string" where
  "show_int i = (if i < 0 then CHR ''-'' # show_nat (nat (- i)) else show_nat (nat i))"

text \<open>
  \<open>float(v)\<close> and \<open>str(v)\<close> on a parsed JSON value (the rendering of a float, an array or an
  object is left open).
\<close>

fun jfloat :: "json \<Rightarrow> pyfloat res" where
  "jfloat (JNum x) = Inr x"
| "jfloat (JInt i) = Inr (Fin (of_int i))"
| "jfloat (JBool b) = Inr (Fin (if b then 1 else 0))"
| "jfloat (JStr s) = py_float s"
| "jfloat _ = Inl TypeError"

fun jstr :: "json \<Rightarrow> string" where
  "jstr (JStr s) = s"
| "jstr (JInt i) = show_int i"
| "jstr (JBool b) = (if b then ''True'' else ''False'')"
| "jstr JNull = ''None''"
| "jstr _ = ''<json>''"

text \<open>\<open>int(v)\<close> on a parsed JSON value.\<close>

definition py_int_str :: "string \<Rightarrow> int res" where
  "py_int_str s =
     (let (neg, t) = split_sign (strip s); (ds, r) = py_digits False t
      in if ds = [] \<or> r \<noteq> [] then Inl (ValueError ''invalid literal for int()'')
         else Inr (if neg then - int (digits_value ds) else int (digits_value ds)))"

fun py_int :: "json \<Rightarrow> int res" where
  "py_int (JInt i) = Inr i"
| "py_int (JBool b) = Inr (if b then 1 else 0)"
| "py_int (JNum x) = py_int_of_float x"
| "py_int (JStr s) = py_int_str s"
| "py_int _ = Inl TypeError"

section \<open>The signals\<close>
section \<open>The signals\<close>

datatype signal_type = OPEN | MODIFY | CLOSE | REGISTER_COLUMNS

record open_signal =
  o_alpha_id :: string
  o_signal_id :: string
  o_symbol :: string
  o_side :: string
  o_entry :: pyfloat
  o_qty :: pyfloat
  o_timestamp :: isotext
  o_tp :: "pyfloat option"
  o_sl :: "pyfloat option"
  o_leverage :: int
  o_metadata :: jtext
  o_position_id :: string
  o_exchange :: string
  o_fee_pct :: pyfloat

record modify_signal =
  m_alpha_id :: string
  m_signal_id :: string
  m_position_id :: string
  m_timestamp :: isotext
  m_tp :: "pyfloat option"
  m_sl :: "pyfloat option"
  m_metadata :: jtext

record close_signal =
  c_alpha_id :: string
  c_signal_id :: string
  c_position_id :: string
  c_reason :: string
  c_timestamp :: isotext
  c_exit_price :: "pyfloat option"
  c_qty :: "pyfloat option"
  c_metadata :: jtext

record register_columns_signal =
  r_alpha_id :: string
  r_signal_id :: string
  r_columns :: jtext

datatype signal =
    OpenSignal open_signal
  | ModifySignal modify_signal
  | CloseSignal close_signal
  | RegisterColumnsSignal register_columns_signal

fun signal_type_of :: "signal \<Rightarrow> signal_type" where
  "signal_type_of (OpenSignal s) = OPEN"
| "signal_type_of (ModifySignal s) = MODIFY"
| "signal_type_of (CloseSignal s) = CLOSE"
| "signal_type_of (RegisterColumnsSignal s) = REGISTER_COLUMNS"

fun signal_alpha :: "signal \<Rightarrow> string" where
  "signal_alpha (OpenSignal s) = o_alpha_id s"
| "signal_alpha (ModifySignal s) = m_alpha_id s"
| "signal_alpha (CloseSignal s) = c_alpha_id s"
| "signal_alpha (RegisterColumnsSignal s) = r_alpha_id s"

section \<open>Parsing a stream entry\<close>

record wire =
  w_fields :: "(string, string) dict"
  w_json :: "(string, jtext) dict"
  w_time :: "isotext option"

text \<open>\<open>data[key]\<close>, \<open>data.get(key, default)\<close> and the typed readers.\<close>

definition field :: "wire \<Rightarrow> string \<Rightarrow> string res" where
  "field w k = (case map_of (w_fields w) k of None \<Rightarrow> Inl (KeyError k) | Some v \<Rightarrow> Inr v)"

definition field_or :: "wire \<Rightarrow> string \<Rightarrow> string \<Rightarrow> string" where
  "field_or w k d = dget (w_fields w) k d"

definition json_or :: "wire \<Rightarrow> string \<Rightarrow> json \<Rightarrow> jtext" where
  "json_or w k d = dget (w_json w) k (JText d)"

definition timestamp_or :: "wire \<Rightarrow> isotext" where
  "timestamp_or w = (case w_time w of None \<Rightarrow> NotIso '''' | Some t \<Rightarrow> t)"

definition to_float :: "wire \<Rightarrow> string \<Rightarrow> pyfloat option res" where
  "to_float w k = (case map_of (w_fields w) k of
       None \<Rightarrow> Inr None
     | Some v \<Rightarrow> if v = '''' then Inr None else res_bind (py_float v) (\<lambda>x. Inr (Some x)))"

definition to_finite_float :: "wire \<Rightarrow> string \<Rightarrow> pyfloat option res" where
  "to_finite_float w k = res_bind (to_float w k) (\<lambda>v. case v of
       None \<Rightarrow> Inr None
     | Some x \<Rightarrow> if isfinite x then Inr (Some x) else Inl (ValueError ''non-finite''))"

definition to_int :: "wire \<Rightarrow> string \<Rightarrow> int \<Rightarrow> int res" where
  "to_int w k d = (case map_of (w_fields w) k of
       None \<Rightarrow> Inr d
     | Some v \<Rightarrow> if v = '''' then Inr d else res_bind (py_float v) py_int_of_float)"

definition or_zero :: "pyfloat option \<Rightarrow> pyfloat" where
  "or_zero v = (case v of None \<Rightarrow> Fin 0 | Some x \<Rightarrow> if truthy x then x else Fin 0)"

definition parse_fee_pct :: "wire \<Rightarrow> pyfloat res" where
  "parse_fee_pct w = (let v = field_or w ''fee_pct'' '''' in
     if v = '''' then Inr (Fin 0) else py_float v)"

definition parse_open :: "wire \<Rightarrow> open_signal res" where
  "parse_open w =
     res_bind (field w ''symbol'') (\<lambda>symbol.
     res_bind (field w ''alpha_id'') (\<lambda>alpha_id.
     res_bind (field w ''signal_id'') (\<lambda>signal_id.
     res_bind (field w ''side'') (\<lambda>side.
     res_bind (to_finite_float w ''entry'') (\<lambda>entry.
     res_bind (to_finite_float w ''qty'') (\<lambda>qty.
     res_bind (to_float w ''tp'') (\<lambda>tp.
     res_bind (to_float w ''sl'') (\<lambda>sl.
     res_bind (to_int w ''leverage'' 1) (\<lambda>leverage.
     res_bind (parse_fee_pct w) (\<lambda>fee_pct.
     Inr \<lparr>o_alpha_id = alpha_id, o_signal_id = signal_id, o_symbol = symbol, o_side = side,
          o_entry = or_zero entry, o_qty = or_zero qty, o_timestamp = timestamp_or w,
          o_tp = tp, o_sl = sl, o_leverage = leverage,
          o_metadata = json_or w ''metadata'' (JObj []),
          o_position_id = field_or w ''position_id'' '''',
          o_exchange = field_or w ''exchange'' ''binance'', o_fee_pct = fee_pct\<rparr>))))))))))"

definition parse_modify :: "wire \<Rightarrow> modify_signal res" where
  "parse_modify w =
     res_bind (field w ''alpha_id'') (\<lambda>alpha_id.
     res_bind (field w ''signal_id'') (\<lambda>signal_id.
     res_bind (to_float w ''tp'') (\<lambda>tp.
     res_bind (to_float w ''sl'') (\<lambda>sl.
     Inr \<lparr>m_alpha_id = alpha_id, m_signal_id = signal_id,
          m_position_id = field_or w ''position_id'' '''', m_timestamp = timestamp_or w,
          m_tp = tp, m_sl = sl, m_metadata = json_or w ''metadata'' (JObj [])\<rparr>))))"

definition parse_close :: "wire \<Rightarrow> close_signal res" where
  "parse_close w =
     res_bind (field w ''alpha_id'') (\<lambda>alpha_id.
     res_bind (field w ''signal_id'') (\<lambda>signal_id.
     res_bind (to_float w ''exit_price'') (\<lambda>exit_price.
     res_bind (to_finite_float w ''qty'') (\<lambda>qty.
     Inr \<lparr>c_alpha_id = alpha_id, c_signal_id = signal_id,
          c_position_id = field_or w ''position_id'' '''',
          c_reason = field_or w ''reason'' ''SIGNAL'', c_timestamp = timestamp_or w,
          c_exit_price = exit_price, c_qty = qty,
          c_metadata = json_or w ''metadata'' (JObj [])\<rparr>))))"

definition parse_register_columns :: "wire \<Rightarrow> register_columns_signal res" where
  "parse_register_columns w =
     res_bind (field w ''alpha_id'') (\<lambda>alpha_id.
     Inr \<lparr>r_alpha_id = alpha_id, r_signal_id = field_or w ''signal_id'' '''',
          r_columns = json_or w ''columns'' (JArr [])\<rparr>)"

definition signal_type_value :: "string \<Rightarrow> signal_type option" where
  "signal_type_value s =
     (if s = ''OPEN'' then Some OPEN else if s = ''MODIFY'' then Some MODIFY
      else if s = ''CLOSE'' then Some CLOSE
      else if s = ''REGISTER_COLUMNS'' then Some REGISTER_COLUMNS else None)"

definition parse_signal :: "wire \<Rightarrow> signal res" where
  "parse_signal w = (case signal_type_value (field_or w ''type'' '''') of
       None \<Rightarrow> Inl (ValueError ''Unknown signal type'')
     | Some OPEN \<Rightarrow> res_bind (parse_open w) (\<lambda>s. Inr (OpenSignal s))
     | Some MODIFY \<Rightarrow> res_bind (parse_modify w) (\<lambda>s. Inr (ModifySignal s))
     | Some CLOSE \<Rightarrow> res_bind (parse_close w) (\<lambda>s. Inr (CloseSignal s))
     | Some REGISTER_COLUMNS \<Rightarrow>
         res_bind (parse_register_columns w) (\<lambda>s. Inr (RegisterColumnsSignal s)))"

section \<open>What a parsed signal promises\<close>

text \<open>
  The trust boundary: whatever the texts are, a parsed OPEN carries a finite entry price and
  quantity and a parsed CLOSE a finite quantity if any.  Nothing of the kind holds for the
  take-profit, the stop, the fee and the exit price.
\<close>

fun wf_signal :: "signal \<Rightarrow> bool" where
  "wf_signal (OpenSignal s) \<longleftrightarrow> isfinite (o_entry s) \<and> isfinite (o_qty s)"
| "wf_signal (CloseSignal s) \<longleftrightarrow> (\<forall>q. c_qty s = Some q \<longrightarrow> isfinite q)"
| "wf_signal _ \<longleftrightarrow> True"

lemma to_finite_float_finite:
  "to_finite_float w k = Inr (Some x) \<Longrightarrow> isfinite x"
  by (auto simp: to_finite_float_def res_bind_Inr_iff split: option.splits if_splits)

lemma or_zero_finite: "to_finite_float w k = Inr v \<Longrightarrow> isfinite (or_zero v)"
  by (cases v) (auto simp: or_zero_def dest: to_finite_float_finite)

lemma parse_open_wf: "parse_open w = Inr s \<Longrightarrow> isfinite (o_entry s) \<and> isfinite (o_qty s)"
  by (auto simp: parse_open_def res_bind_Inr_iff intro: or_zero_finite)

lemma parse_close_wf: "parse_close w = Inr s \<Longrightarrow> c_qty s = Some q \<Longrightarrow> isfinite q"
  by (auto simp: parse_close_def res_bind_Inr_iff intro: to_finite_float_finite)

lemma parse_signal_wf: "parse_signal w = Inr s \<Longrightarrow> wf_signal s"
  by (auto simp: parse_signal_def res_bind_Inr_iff dest: parse_open_wf parse_close_wf
      split: option.splits signal_type.splits)

lemma signal_type_value_cases:
  "parse_signal w = Inr s \<Longrightarrow>
     signal_type_value (field_or w ''type'' '''') = Some (signal_type_of s)"
  by (auto simp: parse_signal_def res_bind_Inr_iff split: option.splits signal_type.splits)

end
