(* ===== verification/TradeClock.thy ===== *)
theory TradeClock
  imports Models
begin

text \<open>
  The holding time of a trade, \<^verbatim>\<open>worker/app/db.py\<close>: \<open>active_session_seconds\<close> walks from the
  opening to the closing instant and adds up the parts that lie inside the two VN derivative
  sessions; \<open>trade_duration_hours\<close> uses it for the exchange \<^verbatim>\<open>tcbs\<close> and wall-clock time
  elsewhere.

  Instants are integers, microseconds since 1970-01-01T00:00 on the wall clock the code reads
  (the resolution of \<open>datetime\<close>); that day is a Thursday.  The walk of the code is proved to be
  the measure of a set: the number of microseconds between the two instants that are inside a
  session.
\<close>

section \<open>Calendar arithmetic\<close>

abbreviation minute_us :: int where "minute_us \<equiv> 60000000"
abbreviation day_us :: int where "day_us \<equiv> 86400000000"

definition weekday :: "int \<Rightarrow> int" where
  "weekday t = (t div day_us + 3) mod 7"

definition minute_of_day :: "int \<Rightarrow> int" where
  "minute_of_day t = (t mod day_us) div minute_us"

text \<open>\<open>replace(hour = m // 60, minute = m % 60, second = 0, microsecond = 0)\<close>.\<close>

definition at_minute :: "int \<Rightarrow> int \<Rightarrow> int" where
  "at_minute t m = t div day_us * day_us + m * minute_us"

definition session_windows_utc :: "(int \<times> int) list" where
  "session_windows_utc = [(1 * 60 + 45, 4 * 60 + 30), (6 * 60, 7 * 60 + 45)]"

definition next_weekday_midnight :: "int \<Rightarrow> int" where
  "next_weekday_midnight t =
     (let days = (7 - weekday t) mod 7; days = (if days = 0 then 7 else days)
      in at_minute t 0 + days * day_us)"

definition next_session_start :: "int \<Rightarrow> int" where
  "next_session_start t = t div minute_us * minute_us + minute_us"

section \<open>The walk\<close>

text \<open>The first window that contains the minute of the cursor, as the \<open>for\<close> loop finds it.\<close>

definition window_at :: "int \<Rightarrow> (int \<times> int) option" where
  "window_at m = find (\<lambda>(start, stop). m < stop \<and> start \<le> m) session_windows_utc"

lemma window_at_Some:
  "window_at m = Some (a, b) \<longleftrightarrow>
     (105 \<le> m \<and> m < 270 \<and> a = 105 \<and> b = 270) \<or> (360 \<le> m \<and> m < 465 \<and> a = 360 \<and> b = 465)"
  by (auto simp: window_at_def session_windows_utc_def)

lemma window_at_None: "window_at m = None \<longleftrightarrow> \<not> (105 \<le> m \<and> m < 270) \<and> \<not> (360 \<le> m \<and> m < 465)"
  by (auto simp: window_at_def session_windows_utc_def)

lemma weekday_bounds: "0 \<le> weekday t" "weekday t < 7"
  by (simp_all add: weekday_def)

lemma at_minute_gt:
  assumes "minute_of_day t < m"
  shows "t < at_minute t m"
proof -
  have "t mod day_us < m * minute_us"
  proof -
    from assms have "(t mod day_us) div minute_us < m" by (simp add: minute_of_day_def)
    then show ?thesis by (simp add: div_less_iff_less_mult)
  qed
  then show ?thesis by (simp add: at_minute_def) (metis add_less_cancel_left div_mult_mod_eq)
qed

lemma next_weekday_midnight_gt: "t < next_weekday_midnight t"
proof -
  define d where "d = (if (7 - weekday t) mod 7 = 0 then 7 else (7 - weekday t) mod 7)"
  have "0 \<le> (7 - weekday t) mod 7" by simp
  then have "1 \<le> d" unfolding d_def by (cases "(7 - weekday t) mod 7 = 0") auto
  moreover have "t < t div day_us * day_us + day_us"
    using div_mult_mod_eq [of t day_us] pos_mod_bound [of day_us t] by linarith
  moreover have "next_weekday_midnight t = t div day_us * day_us + d * day_us"
    unfolding next_weekday_midnight_def at_minute_def d_def Let_def by simp
  ultimately show ?thesis by linarith
qed

lemma next_session_start_gt: "t < next_session_start t"
  using div_mult_mod_eq [of t minute_us] pos_mod_bound [of minute_us t]
  by (simp add: next_session_start_def)

text \<open>The loop of \<open>active_session_seconds\<close>, with the total in microseconds.\<close>

function session_walk :: "int \<Rightarrow> int \<Rightarrow> int" where
  "session_walk cursor clsd =
     (if cursor < clsd then
        (if 5 \<le> weekday cursor then session_walk (next_weekday_midnight cursor) clsd
         else case window_at (minute_of_day cursor) of
             Some (start, stop) \<Rightarrow>
               (let segment_end = min clsd (at_minute cursor stop)
                in (if cursor < segment_end then segment_end - cursor else 0)
                   + session_walk segment_end clsd)
           | None \<Rightarrow> session_walk (next_session_start cursor) clsd)
      else 0)"
  by pat_completeness auto

termination
proof (relation "measure (\<lambda>(cursor, clsd). nat (clsd - cursor))", goal_cases)
  case 1
  show ?case by simp
next
  case (2 cursor clsd)
  then show ?case using next_weekday_midnight_gt [of cursor] by simp
next
  case (3 cursor clsd)
  then show ?case using next_session_start_gt [of cursor] by simp
next
  case (4 cursor clsd w start stop e)
  then have "cursor < at_minute cursor stop"
    by (intro at_minute_gt) (auto simp: window_at_Some)
  with 4 show ?case by (simp add: min_def split: if_splits)
qed

declare session_walk.simps [simp del]

definition active_session_us :: "int \<Rightarrow> int \<Rightarrow> int" where
  "active_session_us opened clsd =
     (if clsd \<le> opened then 0 else session_walk opened clsd)"

section \<open>The specification: time inside a session\<close>

definition in_session :: "int \<Rightarrow> bool" where
  "in_session t \<longleftrightarrow> weekday t < 5 \<and> window_at (minute_of_day t) \<noteq> None"

definition session_time :: "int \<Rightarrow> int \<Rightarrow> int" where
  "session_time a b = int (card ({a..<b} \<inter> Collect in_session))"

lemma session_time_split:
  assumes "a \<le> b" and "b \<le> c"
  shows "session_time a c = session_time a b + session_time b c"
proof -
  have "{a..<c} \<inter> Collect in_session =
        ({a..<b} \<inter> Collect in_session) \<union> ({b..<c} \<inter> Collect in_session)"
    using assms by auto
  moreover have "({a..<b} \<inter> Collect in_session) \<inter> ({b..<c} \<inter> Collect in_session) = {}"
    by auto
  ultimately show ?thesis
    by (simp add: session_time_def card_Un_disjoint)
qed

lemma session_time_all:
  assumes "\<And>t. a \<le> t \<Longrightarrow> t < b \<Longrightarrow> in_session t" and "a \<le> b"
  shows "session_time a b = b - a"
proof -
  have "{a..<b} \<inter> Collect in_session = {a..<b}" using assms(1) by auto
  with assms(2) show ?thesis by (simp add: session_time_def)
qed

lemma session_time_none:
  assumes "\<And>t. a \<le> t \<Longrightarrow> t < b \<Longrightarrow> \<not> in_session t"
  shows "session_time a b = 0"
proof -
  have "{a..<b} \<inter> Collect in_session = {}" using assms by auto
  then show ?thesis by (simp add: session_time_def)
qed

lemma session_time_empty: "b \<le> a \<Longrightarrow> session_time a b = 0"
  by (rule session_time_none) auto

lemma session_time_nonneg: "0 \<le> session_time a b"
  by (simp add: session_time_def)

lemma session_time_le: "a \<le> b \<Longrightarrow> session_time a b \<le> b - a"
  using card_mono [of "{a..<b}" "{a..<b} \<inter> Collect in_session"] by (simp add: session_time_def)

section \<open>Where the days and minutes of an interval lie\<close>

lemma day_of_minute: "t div day_us = t div minute_us div 1440"
  by (simp add: zdiv_zmult2_eq [symmetric])

lemma minute_of_day_alt: "minute_of_day t = t div minute_us mod 1440"
proof -
  have "t mod (minute_us * 1440) = minute_us * (t div minute_us mod 1440) + t mod minute_us"
    by (rule zmod_zmult2_eq) simp
  then show ?thesis by (simp add: minute_of_day_def)
qed

lemma weekend_not_in_session:
  assumes "5 \<le> weekday c" and "c \<le> t" and "t < next_weekday_midnight c"
  shows "\<not> in_session t"
proof -
  define d where "d = c div day_us"
  have w: "weekday c = 5 \<or> weekday c = 6"
    using assms(1) weekday_bounds(2) [of c] by linarith
  have n: "next_weekday_midnight c = (d + (7 - weekday c)) * day_us"
    using w by (auto simp: next_weekday_midnight_def at_minute_def d_def Let_def algebra_simps)
  have lo: "d \<le> t div day_us" unfolding d_def using assms(2) by (rule zdiv_mono1) simp
  have "t div day_us < d + (7 - weekday c)"
    using assms(3) n by (simp add: div_less_iff_less_mult)
  with lo w have "(t div day_us = d) \<or> (weekday c = 5 \<and> t div day_us = d + 1)"
    by linarith
  moreover have "(d + 3) mod 7 = weekday c" by (simp add: weekday_def d_def)
  moreover have "(e + 1) mod 7 = 6" if "e mod 7 = 5" for e :: int
    using that by presburger
  note this [of "d + 3"]
  ultimately have "5 \<le> weekday t"
    using w by (auto simp: weekday_def algebra_simps)
  then show ?thesis by (simp add: in_session_def)
qed

lemma same_minute:
  assumes "c \<le> t" and "t < next_session_start c"
  shows "weekday t = weekday c" and "minute_of_day t = minute_of_day c"
proof -
  have "t div minute_us = c div minute_us"
  proof (rule antisym)
    from assms(2) have "t < (c div minute_us + 1) * minute_us"
      by (simp add: next_session_start_def algebra_simps)
    then have "t div minute_us < c div minute_us + 1"
      by (simp add: div_less_iff_less_mult)
    then show "t div minute_us \<le> c div minute_us" by simp
    from assms(1) show "c div minute_us \<le> t div minute_us" by (rule zdiv_mono1) simp
  qed
  then show "weekday t = weekday c" and "minute_of_day t = minute_of_day c"
    by (simp_all add: weekday_def day_of_minute minute_of_day_alt)
qed

lemma until_minute:
  assumes "c \<le> t" and "t < at_minute c m" and "m \<le> 1440"
  shows "t div day_us = c div day_us" and "minute_of_day c \<le> minute_of_day t"
    and "minute_of_day t < m"
proof -
  define d where "d = c div day_us"
  have "at_minute c m \<le> (d + 1) * day_us"
    using assms(3) by (simp add: at_minute_def d_def algebra_simps)
  with assms(2) have "t div day_us < d + 1" by (simp add: div_less_iff_less_mult)
  moreover have "d \<le> t div day_us" unfolding d_def using assms(1) by (rule zdiv_mono1) simp
  ultimately show same: "t div day_us = c div day_us" by (simp add: d_def)
  have t: "t = d * day_us + t mod day_us" and c: "c = d * day_us + c mod day_us"
    using div_mult_mod_eq [of t day_us] div_mult_mod_eq [of c day_us] same
    by (simp_all add: d_def)
  have "c mod day_us \<le> t mod day_us" using assms(1) t c by linarith
  then show "minute_of_day c \<le> minute_of_day t"
    unfolding minute_of_day_def by (rule zdiv_mono1) simp
  have "t mod day_us < m * minute_us"
    using assms(2) t by (simp add: at_minute_def d_def)
  then show "minute_of_day t < m" by (simp add: minute_of_day_def div_less_iff_less_mult)
qed

section \<open>The walk computes the specification\<close>

lemma session_walk_spec: "session_walk cursor clsd = session_time cursor clsd"
proof (induction cursor clsd rule: session_walk.induct)
  case (1 cursor clsd)
  show ?case
  proof (cases "cursor < clsd")
    case False
    then show ?thesis by (simp add: session_walk.simps [of cursor] session_time_empty)
  next
    case open_: True
    have skip: "session_time n clsd = session_time cursor clsd"
      if n: "cursor < n" "\<And>t. cursor \<le> t \<Longrightarrow> t < n \<Longrightarrow> \<not> in_session t" for n
    proof (cases "n \<le> clsd")
      case True
      with n session_time_none [of cursor n] show ?thesis
        using session_time_split [of cursor n clsd] by simp
    next
      case False
      then show ?thesis
        using n(2) session_time_none [of cursor clsd] by (simp add: session_time_empty)
    qed
    show ?thesis
    proof (cases "5 \<le> weekday cursor")
      case True
      with open_ "1.IH"(1) show ?thesis
        using skip [OF next_weekday_midnight_gt weekend_not_in_session [OF True]]
        by (simp add: session_walk.simps [of cursor])
    next
      case wd: False
      show ?thesis
      proof (cases "window_at (minute_of_day cursor)")
        case None
        then have "\<not> in_session t" if "cursor \<le> t" "t < next_session_start cursor" for t
          using same_minute [OF that] by (simp add: in_session_def)
        with open_ wd None "1.IH"(2) show ?thesis
          using skip [OF next_session_start_gt] by (simp add: session_walk.simps [of cursor])
      next
        case (Some w)
        then obtain a b where w: "window_at (minute_of_day cursor) = Some (a, b)" by (cases w) auto
        then have ab: "a \<le> minute_of_day cursor" "minute_of_day cursor < b" "b \<le> 1440"
          and win: "\<And>m. a \<le> m \<Longrightarrow> m < b \<Longrightarrow> window_at m \<noteq> None"
          by (auto simp: window_at_Some window_at_None)
        define e where "e = min clsd (at_minute cursor b)"
        have e: "cursor < e" "e \<le> clsd"
          using open_ at_minute_gt [OF ab(2)] by (simp_all add: e_def)
        have "in_session t" if "cursor \<le> t" "t < e" for t
        proof -
          from that have "t < at_minute cursor b" by (simp add: e_def)
          from until_minute [OF that(1) this ab(3)] ab(1) win wd show ?thesis
            by (simp add: in_session_def weekday_def)
        qed
        then have "session_time cursor e = e - cursor"
          using e by (intro session_time_all) auto
        then have "session_time cursor clsd = e - cursor + session_time e clsd"
          using session_time_split [of cursor e clsd] e by simp
        moreover have "session_walk e clsd = session_time e clsd"
          using "1.IH"(3) [OF open_ wd w refl refl] by (simp add: e_def)
        moreover have "session_walk cursor clsd = e - cursor + session_walk e clsd"
          using open_ wd w e(1) at_minute_gt [OF ab(2)]
          by (subst session_walk.simps) (simp add: Let_def flip: e_def)
        ultimately show ?thesis by simp
      qed
    qed
  qed
qed

lemma active_session_spec: "active_session_us opened clsd = session_time opened clsd"
  by (simp add: active_session_us_def session_walk_spec session_time_empty)

section \<open>trade_duration_hours\<close>

text \<open>
  \<open>clsd - opened\<close> and \<open>clsd <= opened\<close> compare two aware datetimes by their UTC instants and two
  naive ones by their wall clocks, and raise on a mixture.  The walk itself reads the wall clock
  of the opening datetime (\<open>cursor.hour\<close>, \<open>cursor.weekday()\<close>), whatever its zone is.
\<close>

definition us_between :: "datetime \<Rightarrow> datetime \<Rightarrow> int res" where
  "us_between a b = (case (utcoff a, utcoff b) of
       (None, None) \<Rightarrow> Inr (wall b - wall a)
     | (Some x, Some y) \<Rightarrow> Inr ((wall b - y) - (wall a - x))
     | _ \<Rightarrow> Inl TypeError)"

definition active_session_seconds :: "datetime \<Rightarrow> datetime \<Rightarrow> real res" where
  "active_session_seconds opened clsd =
     res_bind (us_between opened clsd) (\<lambda>d.
     Inr (real_of_int (active_session_us (wall opened) (wall opened + d)) / 1000000))"

definition trade_duration_hours :: "datetime \<Rightarrow> datetime \<Rightarrow> string \<Rightarrow> real res" where
  "trade_duration_hours opened clsd exchange =
     (if exchange \<noteq> '''' \<and> lower exchange = ''tcbs''
      then res_bind (active_session_seconds opened clsd) (\<lambda>s. Inr (s / 3600))
      else res_bind (us_between opened clsd) (\<lambda>d.
           Inr (max (real_of_int d / 1000000) 0 / 3600)))"

lemma active_session_bounds:
  "active_session_us a b \<le> max (b - a) 0" "0 \<le> active_session_us a b"
  using session_time_le [of a b] session_time_empty [of b a]
  by (auto simp: active_session_spec session_time_nonneg max_def)

lemma trade_duration_bounds:
  assumes "us_between opened clsd = Inr d" and "trade_duration_hours opened clsd ex = Inr h"
  shows "0 \<le> h" and "h \<le> max (real_of_int d / 3600000000) 0"
  using assms active_session_bounds [of "wall opened" "wall opened + d"]
  by (auto simp: trade_duration_hours_def active_session_seconds_def max_def split: if_splits)

lemma trade_duration_raises:
  "(\<exists>h. trade_duration_hours opened clsd ex = Inr h) \<longleftrightarrow>
     (utcoff opened = None) = (utcoff clsd = None)"
proof -
  have "(\<exists>h. x = Inr h) \<longleftrightarrow> isl x = False" for x :: "real res"
    by (cases x) auto
  then show ?thesis
    by (auto simp: trade_duration_hours_def active_session_seconds_def us_between_def
        split: option.splits)
qed

end
