(* ===== verification/Database.thy ===== *)
theory Database
  imports TradeClock
begin

text \<open>
  \<^verbatim>\<open>worker/app/db.py\<close>: the tables of the paper-trading database and the methods of \<open>Database\<close>
  the executor and the consumer call, statement by statement.

  A table is the list of its rows in rowid order: an INSERT appends and raises
  \<open>IntegrityError\<close> on a taken primary key, an UPDATE maps, a DELETE filters, \<open>fetchone\<close> is
  \<open>find\<close>.  SQLite stores a NaN in a REAL column as NULL (\<open>sql_real\<close>), so such a column is an
  \<open>option\<close>; computing with a NULL that was read back is a \<open>TypeError\<close> (\<open>need\<close>).  A method that
  raises keeps the rows it wrote before: only \<open>transaction\<close> rolls back.  The random ids of
  \<open>uuid4\<close> and the readings of the clock are arguments.
\<close>

section \<open>Rows and tables\<close>

record alpha_row =
  a_id :: string
  a_name :: string
  a_created :: isotext
  a_status :: string

record position =
  p_id :: string
  p_alpha :: string
  p_signal :: string
  p_symbol :: string
  p_side :: string
  p_entry :: "pyfloat option"
  p_qty :: "pyfloat option"
  p_tp :: "pyfloat option"
  p_sl :: "pyfloat option"
  p_leverage :: int
  p_opened :: isotext
  p_metadata :: "jtext option"
  p_exchange :: string
  p_fee_pct :: "pyfloat option"

record trade =
  t_id :: string
  t_position :: string
  t_alpha :: string
  t_signal :: string
  t_symbol :: string
  t_side :: string
  t_entry :: "pyfloat option"
  t_exit :: "pyfloat option"
  t_qty :: "pyfloat option"
  t_pnl :: "pyfloat option"
  t_pnl_percent :: "pyfloat option"
  t_leverage :: int
  t_tp :: "pyfloat option"
  t_sl :: "pyfloat option"
  t_reason :: string
  t_hours :: "pyfloat option"
  t_opened :: isotext
  t_closed :: isotext
  t_metadata :: jtext
  t_fee :: "pyfloat option"
  t_exchange :: string

record signal_row =
  g_seq :: nat
  g_signal :: string
  g_alpha :: string
  g_type :: string
  g_payload :: wire
  g_received :: isotext
  g_processed :: bool
  g_error :: "exn option"

text \<open>A value bound to a column without a fixed Python type.\<close>

datatype sqlval = SText string | SInt int | SReal pyfloat | SNull

record column_row =
  l_alpha :: string
  l_key :: sqlval
  l_label :: sqlval
  l_type :: sqlval
  l_decimals :: sqlval
  l_order :: nat

record virtual_event =
  e_id :: string
  e_alpha :: string
  e_type :: string
  e_payload :: json

record db =
  alphas :: "alpha_row list"
  positions :: "position list"
  trades :: "trade list"
  signals :: "signal_row list"
  alpha_columns :: "column_row list"
  virtual_positions :: "position list"
  virtual_trades :: "trade list"
  virtual_events :: "virtual_event list"
  next_seq :: nat

definition empty_db :: db where
  "empty_db = \<lparr>alphas = [], positions = [], trades = [], signals = [], alpha_columns = [],
     virtual_positions = [], virtual_trades = [], virtual_events = [], next_seq = 1\<rparr>"

section \<open>Values at the border of SQLite\<close>

fun sql_real :: "pyfloat \<Rightarrow> pyfloat option" where
  "sql_real NaN = None"
| "sql_real x = Some x"

definition sql_opt :: "pyfloat option \<Rightarrow> pyfloat option" where
  "sql_opt v = Option.bind v sql_real"

definition sql_int :: "int \<Rightarrow> int res" where
  "sql_int i = (if - (2 ^ 63) \<le> i \<and> i < 2 ^ 63 then Inr i else Inl OverflowError)"

fun sql_value :: "json \<Rightarrow> sqlval res" where
  "sql_value JNull = Inr SNull"
| "sql_value (JBool b) = Inr (SInt (if b then 1 else 0))"
| "sql_value (JInt i) = res_bind (sql_int i) (\<lambda>i. Inr (SInt i))"
| "sql_value (JNum x) = Inr (case sql_real x of None \<Rightarrow> SNull | Some y \<Rightarrow> SReal y)"
| "sql_value (JStr s) = Inr (SText s)"
| "sql_value _ = Inl (OperationalError ''type is not supported'')"

definition need :: "pyfloat option \<Rightarrow> pyfloat res" where
  "need v = (case v of None \<Rightarrow> Inl TypeError | Some x \<Rightarrow> Inr x)"

lemma sql_real_Fin [simp, db_simps]: "isfinite x \<Longrightarrow> sql_real x = Some x"
  by (cases x) auto

lemma sql_real_None [simp]: "sql_real x = None \<longleftrightarrow> x = NaN"
  by (cases x) auto

lemma sql_opt_simps [simp, db_simps]: "sql_opt None = None" "sql_opt (Some x) = sql_real x"
  by (simp_all add: sql_opt_def)

lemma need_simps [simp, db_simps]: "need None = Inl TypeError" "need (Some x) = Inr x"
  by (simp_all add: need_def)

section \<open>Transactions\<close>

text \<open>
  The outermost \<open>transaction()\<close>: \<open>BEGIN IMMEDIATE\<close> may find the database locked, the final
  \<open>COMMIT\<close> may fail, and an exception of the body rolls everything back.  Outside a transaction
  every method commits its own statements.
\<close>

datatype tx_outcome = TxOk | BeginLocked | CommitFails

definition transaction :: "tx_outcome \<Rightarrow> ('s, 'a) eff \<Rightarrow> ('s, 'a) eff" where
  "transaction tx m = (\<lambda>s.
     if tx = BeginLocked then (Inl (OperationalError ''database is locked''), s)
     else case m s of
         (Inl e, _) \<Rightarrow> (Inl e, s)
       | (Inr x, s') \<Rightarrow>
           if tx = CommitFails then (Inl (OperationalError ''commit failed''), s)
           else (Inr x, s'))"

lemma transaction_raises_unchanged: "transaction tx m s = (Inl e, s') \<Longrightarrow> s' = s"
  by (auto simp: transaction_def split: if_splits prod.splits sum.splits)

lemma transaction_returns:
  "transaction tx m s = (Inr x, s') \<longleftrightarrow> tx = TxOk \<and> m s = (Inr x, s')"
  by (cases tx) (auto simp: transaction_def split: prod.splits sum.splits)

lemma keeps_transaction:
  assumes "keeps P m"
  shows "keeps P (transaction tx m)"
proof (rule keepsI)
  fix s
  assume "P s"
  moreover from this have "P (snd (m s))" using assms by (rule keepsD [rotated])
  ultimately show "P (snd (transaction tx m s))"
    by (cases "m s"; cases "fst (m s)") (simp_all add: transaction_def)
qed

section \<open>Metadata\<close>

text \<open>\<open>if text:\<close> on an optional text.\<close>

fun given :: "jtext option \<Rightarrow> jtext option" where
  "given None = None"
| "given (Some (Raw [])) = None"
| "given (Some t) = Some t"

text \<open>The text itself as a JSON string; the rendering of a parsed text is left open.\<close>

fun raw_json :: "jtext \<Rightarrow> json" where
  "raw_json (Raw s) = JStr s"
| "raw_json (JText j) = JStr ''<json>''"

definition merge_trade_metadata :: "jtext option \<Rightarrow> jtext option \<Rightarrow> jtext" where
  "merge_trade_metadata open_metadata close_metadata =
     (let result = (case given open_metadata of
            None \<Rightarrow> []
          | Some t \<Rightarrow> (case jloads t of Inr (JObj d) \<Rightarrow> dupdate [] d
                      | _ \<Rightarrow> dset ''open_raw'' (raw_json t) []));
          result = (case given close_metadata of
            None \<Rightarrow> result
          | Some t \<Rightarrow> (case jloads t of Inr (JObj d) \<Rightarrow> dset ''close'' (JObj d) result
                      | _ \<Rightarrow> dset ''close_raw'' (raw_json t) result))
      in jdumps (JObj result))"

definition merge_position_runtime_metadata ::
  "jtext option \<Rightarrow> jtext option \<Rightarrow> jtext res" where
  "merge_position_runtime_metadata current update =
     (let base = obj_or_empty current; incoming = obj_or_empty update
      in case map_of incoming ''strategy_runtime'' of
           Some (JObj runtime) \<Rightarrow>
             (let existing = (case map_of base ''strategy_runtime'' of
                                Some (JObj e) \<Rightarrow> e | _ \<Rightarrow> []);
                  base = dset ''strategy_runtime'' (JObj (dupdate existing runtime)) base
              in res_bind (py_int (dget incoming ''strategy_runtime_version''
                                     (dget base ''strategy_runtime_version'' (JInt 1)))) (\<lambda>v.
                 Inr (jdumps (JObj (dset ''strategy_runtime_version'' (JInt v) base)))))
         | _ \<Rightarrow> Inr (jdumps (JObj base)))"

text \<open>The open keys stay at the top level, the close audit is nested under \<^verbatim>\<open>close\<close>.\<close>

lemma merge_trade_metadata_objects:
  assumes "dict_ok d"
  shows "\<exists>r. merge_trade_metadata (Some (JText (JObj d))) (Some (JText (JObj c))) = JText (JObj r) \<and>
           map_of r ''close'' = Some (JObj c) \<and>
           (\<forall>k. k \<noteq> ''close'' \<longrightarrow> map_of r k = map_of d k)"
  using assms by (auto simp: merge_trade_metadata_def jdumps_def map_of_dupdate)

text \<open>
  A runtime merge leaves every other key of the position's metadata alone, keeps the runtime
  keys that are not sent and takes the ones that are.
\<close>

lemma merge_runtime_other_keys:
  assumes "merge_position_runtime_metadata cur upd = Inr t"
    and "k \<noteq> ''strategy_runtime''" and "k \<noteq> ''strategy_runtime_version''"
  shows "map_of (obj_or_empty (Some t)) k = map_of (obj_or_empty cur) k"
  using assms
  by (auto simp: merge_position_runtime_metadata_def res_bind_Inr_iff Let_def
      split: option.splits json.splits)

section \<open>Alphas\<close>

definition register_alpha :: "isotext \<Rightarrow> string \<Rightarrow> string option \<Rightarrow> (db, unit) eff" where
  "register_alpha now alpha_id display_name = modify (\<lambda>d.
     if \<exists>a \<in> set (alphas d). a_id a = alpha_id then d
     else d\<lparr>alphas := alphas d @
       [\<lparr>a_id = alpha_id,
         a_name = (case display_name of None \<Rightarrow> alpha_id
                   | Some n \<Rightarrow> if n = '''' then alpha_id else n),
         a_created = now, a_status = ''active''\<rparr>]\<rparr>)"

definition get_alpha :: "db \<Rightarrow> string \<Rightarrow> alpha_row option" where
  "get_alpha d alpha_id = find (\<lambda>a. a_id a = alpha_id) (alphas d)"

section \<open>Positions\<close>

definition insert_position :: "position \<Rightarrow> (db, unit) eff" where
  "insert_position p = (\<lambda>d.
     if \<exists>q \<in> set (positions d). p_id q = p_id p
     then (Inl (IntegrityError ''UNIQUE constraint failed: positions.position_id''), d)
     else (Inr (), d\<lparr>positions := positions d @ [p]\<rparr>))"

definition create_position ::
  "string \<Rightarrow> string \<Rightarrow> string \<Rightarrow> string \<Rightarrow> string \<Rightarrow> pyfloat \<Rightarrow> pyfloat \<Rightarrow> isotext
     \<Rightarrow> pyfloat option \<Rightarrow> pyfloat option \<Rightarrow> int \<Rightarrow> jtext \<Rightarrow> string \<Rightarrow> pyfloat
     \<Rightarrow> (db, string) eff" where
  "create_position position_id alpha_id signal_id symbol side entry_price qty opened_at
     tp sl leverage metadata exchange fee_pct =
     bind (lift_res (sql_int leverage)) (\<lambda>leverage.
     then_do (insert_position
       \<lparr>p_id = position_id, p_alpha = alpha_id, p_signal = signal_id, p_symbol = symbol,
        p_side = side, p_entry = sql_real entry_price, p_qty = sql_real qty,
        p_tp = sql_opt tp, p_sl = sql_opt sl, p_leverage = leverage, p_opened = opened_at,
        p_metadata = Some metadata, p_exchange = exchange, p_fee_pct = sql_real fee_pct\<rparr>)
     (ret position_id))"

definition get_position :: "db \<Rightarrow> string \<Rightarrow> position option" where
  "get_position d position_id = find (\<lambda>p. p_id p = position_id) (positions d)"

definition get_open_position_by_alpha_symbol :: "db \<Rightarrow> string \<Rightarrow> string \<Rightarrow> position option" where
  "get_open_position_by_alpha_symbol d alpha_id symbol =
     find (\<lambda>p. p_alpha p = alpha_id \<and> p_symbol p = symbol) (positions d)"

definition update_positions :: "string \<Rightarrow> (position \<Rightarrow> position) \<Rightarrow> (db, unit) eff" where
  "update_positions position_id f = modify (\<lambda>d.
     d\<lparr>positions := map (\<lambda>p. if p_id p = position_id then f p else p) (positions d)\<rparr>)"

definition delete_position :: "string \<Rightarrow> (db, unit) eff" where
  "delete_position position_id = modify (\<lambda>d.
     d\<lparr>positions := filter (\<lambda>p. p_id p \<noteq> position_id) (positions d)\<rparr>)"

text \<open>
  \<open>modify_position\<close>: only the columns that are given are written, in one UPDATE; the metadata
  is the merge of the stored text and the new one, unless that is empty or \<^verbatim>\<open>{}\<close>.
\<close>

definition modify_position ::
  "string \<Rightarrow> pyfloat option \<Rightarrow> pyfloat option \<Rightarrow> jtext option \<Rightarrow> (db, unit) eff" where
  "modify_position position_id tp sl metadata = bind get_state (\<lambda>d.
     bind (case given metadata of
         None \<Rightarrow> ret None
       | Some m \<Rightarrow>
           if m = JText (JObj []) then ret None
           else bind (lift_res (merge_position_runtime_metadata
                       (Option.bind (get_position d position_id) p_metadata) (Some m)))
                  (\<lambda>t. ret (Some t))) (\<lambda>merged.
     if tp = None \<and> sl = None \<and> merged = None then ret ()
     else update_positions position_id (\<lambda>p.
       p\<lparr>p_tp := (case tp of None \<Rightarrow> p_tp p | Some x \<Rightarrow> sql_real x),
         p_sl := (case sl of None \<Rightarrow> p_sl p | Some x \<Rightarrow> sql_real x),
         p_metadata := (case merged of None \<Rightarrow> p_metadata p | Some t \<Rightarrow> Some t)\<rparr>)))"

definition get_positions_with_tpsl :: "db \<Rightarrow> position list" where
  "get_positions_with_tpsl d = filter (\<lambda>p. p_tp p \<noteq> None \<or> p_sl p \<noteq> None) (positions d)"

definition get_symbols_with_open_positions :: "db \<Rightarrow> string list" where
  "get_symbols_with_open_positions d = remdups (map p_symbol (positions d))"

definition exchange_or_binance :: "position \<Rightarrow> string" where
  "exchange_or_binance p = (if p_exchange p = '''' then ''binance'' else p_exchange p)"

definition get_open_symbols_by_exchange :: "db \<Rightarrow> (string, string set) dict" where
  "get_open_symbols_by_exchange d =
     fold (\<lambda>p r. let e = lower (exchange_or_binance p)
                 in dset e (insert (p_symbol p) (dget r e {})) r) (positions d) []"

text \<open>The rows of an alpha, or of all when none is given; the order of the result is not modelled.\<close>

definition get_all_open_positions :: "db \<Rightarrow> string option \<Rightarrow> position list" where
  "get_all_open_positions d alpha_id = (case alpha_id of
       None \<Rightarrow> positions d
     | Some a \<Rightarrow> if a = '''' then positions d else filter (\<lambda>p. p_alpha p = a) (positions d))"

section \<open>Closing a position\<close>

abbreviation dust :: real where
  "dust \<equiv> 1 / 10 ^ 12"

text \<open>The quantity that is closed and the one that stays open; \<open>None\<close> when nothing is closed.\<close>

definition close_quantities :: "pyfloat \<Rightarrow> pyfloat option \<Rightarrow> (pyfloat \<times> pyfloat) option" where
  "close_quantities open_qty qty =
     (let close_qty = (case qty of None \<Rightarrow> open_qty | Some q \<Rightarrow> pymin q open_qty)
      in if close_qty \<le> Fin 0 then None
         else Some (close_qty, pymax (open_qty - close_qty) (Fin 0)))"

record close_figures =
  f_fee :: pyfloat
  f_pnl :: pyfloat
  f_pnl_percent :: pyfloat

definition close_figures_of ::
  "string \<Rightarrow> pyfloat \<Rightarrow> pyfloat \<Rightarrow> pyfloat \<Rightarrow> pyfloat \<Rightarrow> close_figures res" where
  "close_figures_of side entry exit_price close_qty fee_pct =
     (let direction = (if side = ''LONG'' then Fin 1 else Fin (- 1));
          gross_pnl = (exit_price - entry) * close_qty * direction;
          fee = (entry + exit_price) * close_qty * fee_pct;
          pnl = gross_pnl - fee;
          capital = entry * close_qty
      in res_bind (if truthy capital then res_bind (fdiv pnl capital) (\<lambda>x. Inr (x * Fin 100))
                   else Inr (Fin 0)) (\<lambda>pct.
         Inr \<lparr>f_fee = fee, f_pnl = pnl, f_pnl_percent = pct\<rparr>))"

definition insert_trade :: "trade \<Rightarrow> (db, unit) eff" where
  "insert_trade t = (\<lambda>d.
     if \<exists>u \<in> set (trades d). t_id u = t_id t
     then (Inl (IntegrityError ''UNIQUE constraint failed: trades.trade_id''), d)
     else (Inr (), d\<lparr>trades := trades d @ [t]\<rparr>))"

definition fee_or_zero :: "position \<Rightarrow> pyfloat" where
  "fee_or_zero p = or_zero (p_fee_pct p)"

text \<open>Everything the closing computes before its first statement.\<close>

definition closing_trade ::
  "string \<Rightarrow> position \<Rightarrow> pyfloat \<Rightarrow> string \<Rightarrow> isotext \<Rightarrow> jtext option \<Rightarrow> pyfloat option
     \<Rightarrow> (trade \<times> pyfloat) option res" where
  "closing_trade uuid pos exit_price reason closed_at close_metadata qty =
     res_bind (need (p_qty pos)) (\<lambda>open_qty.
     case close_quantities open_qty qty of
       None \<Rightarrow> Inr None
     | Some (close_qty, remaining_qty) \<Rightarrow>
         res_bind (need (p_entry pos)) (\<lambda>entry.
         res_bind (close_figures_of (p_side pos) entry exit_price close_qty (fee_or_zero pos)) (\<lambda>f.
         res_bind (fromisoformat (p_opened pos)) (\<lambda>opened.
         res_bind (fromisoformat closed_at) (\<lambda>clsd.
         res_bind (trade_duration_hours opened clsd (exchange_or_binance pos)) (\<lambda>hours.
         Inr (Some
           (\<lparr>t_id = (if remaining_qty \<le> Fin dust then p_id pos else uuid), t_position = p_id pos,
             t_alpha = p_alpha pos, t_signal = p_signal pos, t_symbol = p_symbol pos,
             t_side = p_side pos, t_entry = p_entry pos, t_exit = sql_real exit_price,
             t_qty = sql_real close_qty, t_pnl = sql_real (f_pnl f),
             t_pnl_percent = sql_real (f_pnl_percent f), t_leverage = p_leverage pos,
             t_tp = p_tp pos, t_sl = p_sl pos, t_reason = reason, t_hours = Some (Fin hours),
             t_opened = p_opened pos, t_closed = closed_at,
             t_metadata = merge_trade_metadata (p_metadata pos) close_metadata,
             t_fee = sql_real (f_fee f), t_exchange = exchange_or_binance pos\<rparr>,
            remaining_qty))))))))"

definition close_position ::
  "string \<Rightarrow> string \<Rightarrow> pyfloat \<Rightarrow> string \<Rightarrow> isotext \<Rightarrow> jtext option \<Rightarrow> pyfloat option
     \<Rightarrow> (db, unit) eff" where
  "close_position uuid position_id exit_price reason closed_at close_metadata qty =
     bind get_state (\<lambda>d. case get_position d position_id of
       None \<Rightarrow> ret ()
     | Some pos \<Rightarrow>
         bind (lift_res (closing_trade uuid pos exit_price reason closed_at close_metadata qty))
           (\<lambda>r. case r of
             None \<Rightarrow> ret ()
           | Some (t, remaining_qty) \<Rightarrow>
               then_do (insert_trade t)
               (if remaining_qty \<le> Fin dust then delete_position position_id
                else bind (lift_res (merge_position_runtime_metadata (p_metadata pos)
                                       close_metadata)) (\<lambda>m.
                     update_positions position_id (\<lambda>p.
                       p\<lparr>p_qty := sql_real remaining_qty, p_metadata := Some m\<rparr>)))))"

definition get_trade :: "db \<Rightarrow> string \<Rightarrow> trade option" where
  "get_trade d position_id = find (\<lambda>t. t_position t = position_id) (trades d)"

section \<open>The signal log\<close>

definition log_signal :: "isotext \<Rightarrow> string \<Rightarrow> string \<Rightarrow> string \<Rightarrow> wire \<Rightarrow> (db, unit) eff" where
  "log_signal now signal_id alpha_id signal_type payload = modify (\<lambda>d.
     d\<lparr>signals := signals d @
         [\<lparr>g_seq = next_seq d, g_signal = signal_id, g_alpha = alpha_id, g_type = signal_type,
           g_payload = payload, g_received = now, g_processed = False, g_error = None\<rparr>],
       next_seq := next_seq d + 1\<rparr>)"

definition mark_signal_processed :: "string \<Rightarrow> exn option \<Rightarrow> (db, unit) eff" where
  "mark_signal_processed signal_id err = modify (\<lambda>d.
     d\<lparr>signals := map (\<lambda>g. if g_signal g = signal_id
                             then g\<lparr>g_processed := True, g_error := err\<rparr> else g) (signals d)\<rparr>)"

definition signal_processed :: "db \<Rightarrow> string \<Rightarrow> bool" where
  "signal_processed d signal_id \<longleftrightarrow>
     (\<exists>g \<in> set (signals d). g_signal g = signal_id \<and> g_processed g)"

section \<open>Display columns\<close>

text \<open>\<open>col[k]\<close> and \<open>col.get(k, default)\<close> on a JSON value.\<close>

fun json_item :: "json \<Rightarrow> string \<Rightarrow> json res" where
  "json_item (JObj d) k = (case map_of d k of None \<Rightarrow> Inl (KeyError k) | Some v \<Rightarrow> Inr v)"
| "json_item _ k = Inl TypeError"

fun json_get :: "json \<Rightarrow> string \<Rightarrow> json \<Rightarrow> json" where
  "json_get (JObj d) k v = dget d k v"
| "json_get _ k v = v"

definition insert_column :: "string \<Rightarrow> nat \<Rightarrow> json \<Rightarrow> (db, unit) eff" where
  "insert_column alpha_id i col =
     bind (lift_res (json_item col ''key'')) (\<lambda>key.
     bind (lift_res (sql_value key)) (\<lambda>k.
     bind (lift_res (sql_value (json_get col ''label'' key))) (\<lambda>lbl.
     bind (lift_res (sql_value (json_get col ''type'' (JStr ''text'')))) (\<lambda>ty.
     bind (lift_res (sql_value (json_get col ''decimals'' (JInt 0)))) (\<lambda>dec. (\<lambda>d.
       if k = SNull \<or> lbl = SNull \<or> ty = SNull
       then (Inl (IntegrityError ''NOT NULL constraint failed: alpha_columns''), d)
       else if \<exists>c \<in> set (alpha_columns d). l_alpha c = alpha_id \<and> l_key c = k
       then (Inl (IntegrityError ''UNIQUE constraint failed: alpha_columns''), d)
       else (Inr (), d\<lparr>alpha_columns := alpha_columns d @
              [\<lparr>l_alpha = alpha_id, l_key = k, l_label = lbl, l_type = ty, l_decimals = dec,
                l_order = i\<rparr>]\<rparr>)))))))"

definition delete_columns :: "string \<Rightarrow> (db, unit) eff" where
  "delete_columns alpha_id = modify (\<lambda>d.
     d\<lparr>alpha_columns := filter (\<lambda>c. l_alpha c \<noteq> alpha_id) (alpha_columns d)\<rparr>)"

definition register_alpha_columns :: "string \<Rightarrow> json list \<Rightarrow> (db, unit) eff" where
  "register_alpha_columns alpha_id columns =
     then_do (delete_columns alpha_id)
       (for_each (\<lambda>(i, col). insert_column alpha_id i col) (enumerate 0 columns))"

definition get_alpha_columns :: "db \<Rightarrow> string \<Rightarrow> column_row list" where
  "get_alpha_columns d alpha_id =
     sort_key l_order (filter (\<lambda>c. l_alpha c = alpha_id) (alpha_columns d))"

end
