(* ===== verification/Ledger.thy ===== *)
theory Ledger
  imports Database
begin

text \<open>
  What the methods of \<open>Database\<close> keep and promise: the invariant of the tables, the finiteness
  of the stored numbers, and the accounting of \<open>close_position\<close> - which rows it writes, that it
  neither loses nor invents quantity, and what it realises.
\<close>

section \<open>The invariant of the tables\<close>

definition wf_db :: "db \<Rightarrow> bool" where
  "wf_db d \<longleftrightarrow>
     distinct (map a_id (alphas d)) \<and> distinct (map p_id (positions d))
     \<and> distinct (map t_id (trades d))
     \<and> distinct (map (\<lambda>c. (l_alpha c, l_key c)) (alpha_columns d))
     \<and> distinct (map g_seq (signals d)) \<and> (\<forall>g \<in> set (signals d). g_seq g < next_seq d)
     \<and> p_alpha ` set (positions d) \<subseteq> a_id ` set (alphas d)"

lemma wf_empty_db [simp]: "wf_db empty_db"
  by (simp add: wf_db_def empty_db_def)

lemma keeps_register_alpha [simp]: "keeps wf_db (register_alpha now a n)"
  unfolding register_alpha_def
  by (rule keeps_modify) (auto simp: wf_db_def image_iff)

lemma registered_after_register_alpha:
  "a \<in> a_id ` set (alphas (snd (register_alpha now a n d)))"
  by (auto simp: register_alpha_def)

lemma register_alpha_Inr [simp]: "fst (register_alpha now a n d) = Inr ()"
  by (simp add: register_alpha_def)

lemma register_alpha_frame [simp]:
  "positions (snd (register_alpha now a n d)) = positions d"
  "trades (snd (register_alpha now a n d)) = trades d"
  "signals (snd (register_alpha now a n d)) = signals d"
  by (simp_all add: register_alpha_def)

lemma insert_position_wf:
  "wf_db d \<Longrightarrow> p_alpha p \<in> a_id ` set (alphas d) \<Longrightarrow> wf_db (snd (insert_position p d))"
  by (auto simp: insert_position_def wf_db_def)

lemma map_update_field:
  "(\<And>x. f (g x) = f x) \<Longrightarrow> map f (map (\<lambda>x. if P x then g x else x) xs) = map f xs"
  by (induction xs) auto

lemma image_update_field:
  "(\<And>x. f (g x) = f x) \<Longrightarrow> f ` set (map (\<lambda>x. if P x then g x else x) xs) = f ` set xs"
  by (metis map_update_field set_map)

lemma update_positions_wf:
  assumes "\<And>p. p_id (f p) = p_id p" and "\<And>p. p_alpha (f p) = p_alpha p"
  shows "keeps wf_db (update_positions k f)"
  unfolding update_positions_def
proof (rule keeps_modify)
  fix d
  assume "wf_db d"
  with map_update_field [of p_id f, OF assms(1)] image_update_field [of p_alpha f, OF assms(2)]
  show "wf_db (d\<lparr>positions := map (\<lambda>p. if p_id p = k then f p else p) (positions d)\<rparr>)"
    by (simp add: wf_db_def del: map_map set_map)
qed

lemma delete_position_wf [simp]: "keeps wf_db (delete_position k)"
  unfolding delete_position_def
  by (rule keeps_modify) (auto simp: wf_db_def distinct_map_filter)

lemma insert_trade_wf [simp]: "keeps wf_db (insert_trade t)"
  by (auto simp: keeps_def insert_trade_def wf_db_def)

lemma log_signal_wf [simp]: "keeps wf_db (log_signal now s a ty w)"
  unfolding log_signal_def
  by (rule keeps_modify) (auto simp: wf_db_def less_Suc_eq)

lemma mark_signal_processed_wf [simp]: "keeps wf_db (mark_signal_processed s err)"
  unfolding mark_signal_processed_def
proof (rule keeps_modify)
  fix d
  assume "wf_db d"
  then show "wf_db (d\<lparr>signals := map (\<lambda>g. if g_signal g = s
      then g\<lparr>g_processed := True, g_error := err\<rparr> else g) (signals d)\<rparr>)"
    by (auto simp: wf_db_def map_update_field simp del: map_map)
qed

lemma keeps_case_option:
  "keeps P m \<Longrightarrow> (\<And>x. v = Some x \<Longrightarrow> keeps P (n x)) \<Longrightarrow>
     keeps P (case v of None \<Rightarrow> m | Some x \<Rightarrow> n x)"
  by (cases v) auto

lemma keeps_if: "keeps P m \<Longrightarrow> keeps P n \<Longrightarrow> keeps P (if b then m else n)"
  by simp

lemmas db_keeps = keeps_intros keeps_case_option keeps_if update_positions_wf

lemma modify_position_wf [simp]: "keeps wf_db (modify_position k tp sl m)"
  unfolding modify_position_def by (intro db_keeps) simp_all

lemma close_position_wf [simp]: "keeps wf_db (close_position u k x r c m q)"
  unfolding close_position_def
  by (intro db_keeps) (auto intro!: db_keeps split: option.splits)

lemma insert_column_wf [simp]: "keeps wf_db (insert_column a i c)"
  unfolding insert_column_def
  by (intro db_keeps) (auto simp: keeps_def wf_db_def)

lemma register_alpha_columns_wf [simp]: "keeps wf_db (register_alpha_columns a cs)"
  unfolding register_alpha_columns_def delete_columns_def
  by (intro db_keeps) (auto simp: wf_db_def distinct_map_filter)

section \<open>Finiteness of the stored numbers\<close>

definition finite_position :: "position \<Rightarrow> bool" where
  "finite_position p \<longleftrightarrow> (\<exists>e q. p_entry p = Some (Fin e) \<and> p_qty p = Some (Fin q))"

definition finite_db :: "db \<Rightarrow> bool" where
  "finite_db d \<longleftrightarrow> (\<forall>p \<in> set (positions d). finite_position p)"

lemma get_position_Some:
  "get_position d k = Some p \<Longrightarrow> p \<in> set (positions d) \<and> p_id p = k"
  by (auto simp: get_position_def find_Some_iff)

lemma get_position_iff:
  "wf_db d \<Longrightarrow> get_position d k = Some p \<longleftrightarrow> p \<in> set (positions d) \<and> p_id p = k"
  by (simp add: get_position_def find_Some_iff_distinct wf_db_def)

lemma get_position_None: "get_position d k = None \<longleftrightarrow> (\<forall>p \<in> set (positions d). p_id p \<noteq> k)"
  by (simp add: get_position_def find_None_iff')

lemma find_update_same:
  assumes "find (\<lambda>p. i p = k) xs = Some x" and "\<And>y. i (f y) = i y"
  shows "find (\<lambda>p. i p = k) (map (\<lambda>p. if i p = k then f p else p) xs) = Some (f x)"
  using assms by (induction xs) (auto split: if_splits)

lemma get_position_updated:
  assumes "get_position d k = Some p" and "\<And>y. p_id (f y) = p_id y"
  shows "get_position (snd (update_positions k f d)) k = Some (f p)"
  using find_update_same [of p_id k "positions d" p f] assms
  by (simp add: get_position_def update_positions_def)

lemma get_position_deleted [simp]: "get_position (snd (delete_position k d)) k = None"
  by (auto simp: get_position_None delete_position_def)

lemma get_position_insert_trade [simp]: "get_position (snd (insert_trade t d)) k = get_position d k"
  by (simp add: insert_trade_def get_position_def)

section \<open>modify_position: what it writes\<close>

definition merged_metadata :: "db \<Rightarrow> string \<Rightarrow> jtext option \<Rightarrow> jtext option res" where
  "merged_metadata d k metadata = (case given metadata of
       None \<Rightarrow> Inr None
     | Some m \<Rightarrow>
         if m = JText (JObj []) then Inr None
         else res_bind (merge_position_runtime_metadata
                (Option.bind (get_position d k) p_metadata) (Some m)) (\<lambda>t. Inr (Some t)))"

definition modified ::
  "pyfloat option \<Rightarrow> pyfloat option \<Rightarrow> jtext option \<Rightarrow> position \<Rightarrow> position" where
  "modified tp sl merged p =
     p\<lparr>p_tp := (case tp of None \<Rightarrow> p_tp p | Some x \<Rightarrow> sql_real x),
       p_sl := (case sl of None \<Rightarrow> p_sl p | Some x \<Rightarrow> sql_real x),
       p_metadata := (case merged of None \<Rightarrow> p_metadata p | Some t \<Rightarrow> Some t)\<rparr>"

lemma modify_position_unfold:
  "modify_position k tp sl metadata d = (case merged_metadata d k metadata of
       Inl e \<Rightarrow> (Inl e, d)
     | Inr merged \<Rightarrow>
         if tp = None \<and> sl = None \<and> merged = None then (Inr (), d)
         else update_positions k (modified tp sl merged) d)"
proof (cases "given metadata")
  case None
  then show ?thesis by (simp add: modify_position_def merged_metadata_def modified_def [abs_def])
next
  case (Some m)
  let ?g = "merge_position_runtime_metadata (Option.bind (get_position d k) p_metadata) (Some m)"
  from Some show ?thesis
    by (cases "m = JText (JObj [])"; cases ?g)
      (simp_all add: modify_position_def merged_metadata_def modified_def [abs_def] bind_def lift_res_def)
qed

section \<open>close_position: what it writes\<close>

lemma close_position_missing:
  "get_position d k = None \<Longrightarrow> close_position u k x r c m q d = (Inr (), d)"
  by (simp add: close_position_def)

lemma close_position_unfold:
  assumes "get_position d k = Some p" and "closing_trade u p x r c m q = Inr (Some (t, rem))"
    and "\<forall>v \<in> set (trades d). t_id v \<noteq> t_id t"
  shows "close_position u k x r c m q d =
    (if rem \<le> Fin dust
     then (Inr (), d\<lparr>trades := trades d @ [t], positions := filter (\<lambda>p. p_id p \<noteq> k) (positions d)\<rparr>)
     else case merge_position_runtime_metadata (p_metadata p) m of
         Inl e \<Rightarrow> (Inl e, d\<lparr>trades := trades d @ [t]\<rparr>)
       | Inr md \<Rightarrow> (Inr (), d\<lparr>trades := trades d @ [t],
           positions := map (\<lambda>p. if p_id p = k
             then p\<lparr>p_qty := sql_real rem, p_metadata := Some md\<rparr> else p) (positions d)\<rparr>))"
  using assms
  by (auto simp: close_position_def then_do_apply insert_trade_def delete_position_def
      update_positions_def modify_def bind_def split: sum.splits)

lemma close_position_returns:
  assumes "close_position u k x r c m q d = (Inr (), d')" and "get_position d k = Some p"
  shows "(closing_trade u p x r c m q = Inr None \<and> d' = d) \<or>
    (\<exists>t rem. closing_trade u p x r c m q = Inr (Some (t, rem)) \<and>
       (\<forall>v \<in> set (trades d). t_id v \<noteq> t_id t))"
proof (cases "closing_trade u p x r c m q")
  case (Inl e)
  with assms show ?thesis by (simp add: close_position_def)
next
  case (Inr v)
  show ?thesis
  proof (cases v)
    case None
    with assms Inr show ?thesis by (simp add: close_position_def)
  next
    case (Some w)
    with assms Inr show ?thesis
      by (cases w) (auto simp: close_position_def then_do_apply insert_trade_def split: if_splits)
  qed
qed

text \<open>The quantities of a closing of a finite position.\<close>

lemma close_quantities_Fin:
  "close_quantities (Fin a) None = (if a \<le> 0 then None else Some (Fin a, Fin 0))"
  "close_quantities (Fin a) (Some (Fin q)) =
     (if min q a \<le> 0 then None else Some (Fin (min q a), Fin (max (a - min q a) 0)))"
  by (simp_all add: close_quantities_def)

lemma close_figures_Fin:
  "close_figures_of side (Fin e) (Fin x) (Fin c) (Fin f) =
     (let dir = (if side = ''LONG'' then 1 else -1);
          pnl = (x - e) * c * dir - (e + x) * c * f
      in Inr \<lparr>f_fee = Fin ((e + x) * c * f), f_pnl = Fin pnl,
              f_pnl_percent = Fin (if e * c = 0 then 0 else pnl / (e * c) * 100)\<rparr>)"
  by (auto simp: close_figures_of_def Let_def)

lemma closing_trade_SomeD:
  assumes "closing_trade u p x r c m q = Inr (Some (t, rem))"
  obtains a cq e f h o1 o2 where "p_qty p = Some a" "close_quantities a q = Some (cq, rem)"
    "p_entry p = Some e" "close_figures_of (p_side p) e x cq (fee_or_zero p) = Inr f"
    "fromisoformat (p_opened p) = Inr o1" "fromisoformat c = Inr o2"
    "trade_duration_hours o1 o2 (exchange_or_binance p) = Inr h"
    "t_id t = (if rem \<le> Fin dust then p_id p else u)" "t_position t = p_id p"
    "t_qty t = sql_real cq" "t_pnl t = sql_real (f_pnl f)" "t_fee t = sql_real (f_fee f)"
    "t_pnl_percent t = sql_real (f_pnl_percent f)" "t_hours t = Some (Fin h)"
    "t_exit t = sql_real x" "t_entry t = p_entry p" "t_alpha t = p_alpha p" "t_reason t = r"
  using assms
  by (auto simp: closing_trade_def res_bind_Inr_iff need_def
      split: option.splits if_splits)

lemma closing_trade_qty:
  assumes "closing_trade u p x r c m q = Inr (Some (t, rem))" and "p_qty p = Some a"
  obtains cq where "close_quantities a q = Some (cq, rem)" "t_qty t = sql_real cq"
    "t_position t = p_id p"
  using assms(1) by (rule closing_trade_SomeD) (auto simp: assms(2) intro: that)

lemma closing_trade_NoneD:
  "closing_trade u p x r c m q = Inr None \<Longrightarrow>
     \<exists>a. p_qty p = Some a \<and> close_quantities a q = None"
  by (auto simp: closing_trade_def res_bind_Inr_iff need_def split: option.splits)

section \<open>Accounting\<close>

definition num :: "pyfloat option \<Rightarrow> real" where
  "num v = (case v of None \<Rightarrow> 0 | Some x \<Rightarrow> the_real x)"

lemma num_simps [simp]: "num (Some (Fin x)) = x" "num None = 0" "num (sql_real (Fin x)) = x"
  by (simp_all add: num_def)

definition trade_total :: "(trade \<Rightarrow> pyfloat option) \<Rightarrow> db \<Rightarrow> string \<Rightarrow> real" where
  "trade_total f d k = sum_list (map (num \<circ> f) (filter (\<lambda>t. t_position t = k) (trades d)))"

abbreviation closed_qty :: "db \<Rightarrow> string \<Rightarrow> real" where
  "closed_qty \<equiv> trade_total t_qty"

abbreviation realised_pnl :: "db \<Rightarrow> string \<Rightarrow> real" where
  "realised_pnl \<equiv> trade_total t_pnl"

definition open_qty :: "db \<Rightarrow> string \<Rightarrow> real" where
  "open_qty d k = (case get_position d k of None \<Rightarrow> 0 | Some p \<Rightarrow> num (p_qty p))"

lemma trade_total_append:
  "trades d' = trades d @ [t] \<Longrightarrow>
     trade_total f d' k = trade_total f d k + (if t_position t = k then num (f t) else 0)"
  by (simp add: trade_total_def)

text \<open>
  A closing that returns either writes nothing, or appends one trade of the closed quantity and
  leaves the rest open; what is dropped is at most the dust the code ignores.
\<close>

lemma close_position_effect:
  assumes "close_position u k x r c m q d = (Inr (), d')"
    and p: "get_position d k = Some p" and a: "p_qty p = Some (Fin a)"
  obtains "d' = d" "close_quantities (Fin a) q = None"
  | t cq rem where "closing_trade u p x r c m q = Inr (Some (t, rem))"
      "close_quantities (Fin a) q = Some (cq, rem)" "rem \<le> Fin dust"
      "d' = d\<lparr>trades := trades d @ [t], positions := filter (\<lambda>p. p_id p \<noteq> k) (positions d)\<rparr>"
  | t cq rem md where "closing_trade u p x r c m q = Inr (Some (t, rem))"
      "close_quantities (Fin a) q = Some (cq, rem)" "\<not> rem \<le> Fin dust"
      "merge_position_runtime_metadata (p_metadata p) m = Inr md"
      "d' = d\<lparr>trades := trades d @ [t], positions := map (\<lambda>p. if p_id p = k
             then p\<lparr>p_qty := sql_real rem, p_metadata := Some md\<rparr> else p) (positions d)\<rparr>"
proof -
  from close_position_returns [OF assms(1) p] consider
      "closing_trade u p x r c m q = Inr None" "d' = d"
    | t rem where "closing_trade u p x r c m q = Inr (Some (t, rem))"
        "\<forall>v \<in> set (trades d). t_id v \<noteq> t_id t"
    by blast
  then show thesis
  proof cases
    case 1
    with a closing_trade_NoneD [OF 1(1)] show thesis by (auto intro: that(1))
  next
    case 2
    obtain cq where cq: "close_quantities (Fin a) q = Some (cq, rem)"
      using 2(1) a by (rule closing_trade_qty)
    show thesis
    proof (cases "rem \<le> Fin dust")
      case True
      with close_position_unfold [OF p 2] assms(1) show thesis
        by (intro that(2) [OF 2(1) cq True]) simp
    next
      case False
      with close_position_unfold [OF p 2] assms(1) obtain md where
        "merge_position_runtime_metadata (p_metadata p) m = Inr md"
        by (cases "merge_position_runtime_metadata (p_metadata p) m") auto
      with False close_position_unfold [OF p 2] assms(1) show thesis
        by (intro that(3) [OF 2(1) cq False]) simp_all
    qed
  qed
qed

lemma close_position_conserves:
  assumes "close_position u k x r c m q d = (Inr (), d')"
    and p: "get_position d k = Some p" and a: "p_qty p = Some (Fin a)"
    and q: "\<And>v. q = Some v \<Longrightarrow> isfinite v"
  shows "\<exists>lost. 0 \<le> lost \<and> lost \<le> dust \<and>
           closed_qty d' k + open_qty d' k + lost = closed_qty d k + a"
  using assms(1) p a
proof (cases rule: close_position_effect)
  case 1
  with p a show ?thesis by (intro exI [of _ 0]) (simp add: open_qty_def)
next
  case (2 t cq rem)
  from q have "q = None \<or> (\<exists>z. q = Some (Fin z))" by (cases q) (auto simp: isfinite_iff)
  with 2(2,3) obtain z where z: "cq = Fin z" "rem = Fin (max (a - z) 0)" "z \<le> a" "max (a - z) 0 \<le> dust"
    by (auto simp: close_quantities_Fin split: if_splits)
  have "get_position d' k = None" using 2(4) by (simp add: get_position_None)
  moreover have "t_qty t = Some (Fin z)" "t_position t = k"
    using closing_trade_qty [OF 2(1) a] 2(2) z(1) get_position_Some [OF p] by auto
  ultimately show ?thesis
    using 2(4) z trade_total_append [of d' d t t_qty k]
    by (intro exI [of _ "a - z"]) (simp add: open_qty_def)
next
  case (3 t cq rem md)
  from q have "q = None \<or> (\<exists>z. q = Some (Fin z))" by (cases q) (auto simp: isfinite_iff)
  with 3(2,3) obtain z where z: "cq = Fin z" "rem = Fin (a - z)"
    by (auto simp: close_quantities_Fin max_def split: if_splits)
  let ?f = "\<lambda>p. p\<lparr>p_qty := sql_real rem, p_metadata := Some md\<rparr>"
  have "get_position d' k = Some (?f p)"
    using 3(5) find_update_same [of p_id k "positions d" p ?f] p by (simp add: get_position_def)
  moreover have "t_qty t = Some (Fin z)" "t_position t = k"
    using closing_trade_qty [OF 3(1) a] 3(2) z(1) get_position_Some [OF p] by auto
  ultimately show ?thesis
    using 3(5) z trade_total_append [of d' d t t_qty k]
    by (intro exI [of _ 0]) (simp add: open_qty_def)
qed

text \<open>What one closing of a finite position realises.\<close>

definition pnl_of :: "string \<Rightarrow> real \<Rightarrow> real \<Rightarrow> real \<Rightarrow> real \<Rightarrow> real" where
  "pnl_of side e x f c = (x - e) * c * (if side = ''LONG'' then 1 else -1) - (e + x) * c * f"

lemma pnl_of_add: "pnl_of side e x f (a + b) = pnl_of side e x f a + pnl_of side e x f b"
  by (simp add: pnl_of_def algebra_simps)

lemma closing_trade_pnl:
  assumes "closing_trade u p (Fin x) r c m q = Inr (Some (t, rem))"
    and "p_qty p = Some (Fin a)" "p_entry p = Some (Fin e)" "fee_or_zero p = Fin f"
    and "close_quantities (Fin a) q = Some (Fin z, rem)"
  shows "t_pnl t = Some (Fin (pnl_of (p_side p) e x f z))"
  using assms(1)
  by (rule closing_trade_SomeD) (auto simp: assms(2-5) close_figures_Fin Let_def pnl_of_def)

lemma close_position_realises:
  assumes "close_position u k (Fin x) r c m q d = (Inr (), d')"
    and p: "get_position d k = Some p" and a: "p_qty p = Some (Fin a)" and e: "p_entry p = Some (Fin e)"
    and f: "fee_or_zero p = Fin f" and q: "\<And>v. q = Some v \<Longrightarrow> isfinite v"
    and z: "close_quantities (Fin a) q = Some (Fin z, rem)"
  shows "realised_pnl d' k = realised_pnl d k + pnl_of (p_side p) e x f z"
proof -
  obtain t where t: "closing_trade u p (Fin x) r c m q = Inr (Some (t, rem))"
    and d': "trades d' = trades d @ [t]"
    using assms(1) p a by (cases rule: close_position_effect) (auto simp: z)
  have "t_position t = k"
    using closing_trade_qty [OF t a] get_position_Some [OF p] by auto
  with closing_trade_pnl [OF t a e f z] trade_total_append [OF d', of t_pnl k] show ?thesis
    by simp
qed

section \<open>Closing in parts\<close>

lemma partial_close_leaves:
  assumes "close_position u k x r c m (Some (Fin b)) d = (Inr (), d')"
    and p: "get_position d k = Some p" and a: "p_qty p = Some (Fin a)"
    and "0 < b" and "b + dust < a"
  shows "\<exists>md. get_position d' k = Some (p\<lparr>p_qty := Some (Fin (a - b)), p_metadata := md\<rparr>)"
  using assms(1) p a
proof (cases rule: close_position_effect)
  case 1
  with assms(4,5) show ?thesis by (auto simp: close_quantities_Fin)
next
  case (2 t cq rem)
  with assms(4,5) show ?thesis by (auto simp: close_quantities_Fin split: if_splits)
next
  case (3 t cq rem md)
  with assms(4,5) have "rem = Fin (a - b)"
    by (auto simp: close_quantities_Fin split: if_splits)
  then show ?thesis
    using 3(5) find_update_same [of p_id k "positions d" p
        "\<lambda>p. p\<lparr>p_qty := sql_real rem, p_metadata := Some md\<rparr>"] p
    by (auto simp: get_position_def)
qed

lemma close_in_two_realises:
  assumes "close_position u k (Fin x) r c m (Some (Fin b)) d = (Inr (), d1)"
    and "close_position u2 k (Fin x) r2 c2 m2 None d1 = (Inr (), d2)"
    and p: "get_position d k = Some p" and a: "p_qty p = Some (Fin a)"
    and e: "p_entry p = Some (Fin e)" and f: "fee_or_zero p = Fin f"
    and b: "0 < b" "b + dust < a"
  shows "realised_pnl d2 k = realised_pnl d k + pnl_of (p_side p) e x f a"
proof -
  have "min b a = b" "0 < a" using b by simp_all
  then have q: "close_quantities (Fin a) (Some (Fin b)) = Some (Fin b, Fin (max (a - b) 0))"
    "close_quantities (Fin (a - b)) None = Some (Fin (a - b), Fin 0)"
    using b by (simp_all add: close_quantities_Fin)
  obtain md where p1: "get_position d1 k = Some (p\<lparr>p_qty := Some (Fin (a - b)), p_metadata := md\<rparr>)"
    using partial_close_leaves [OF assms(1) p a b] by blast
  have "realised_pnl d1 k = realised_pnl d k + pnl_of (p_side p) e x f b"
    by (rule close_position_realises [OF assms(1) p a e f _ q(1)]) simp
  moreover have "realised_pnl d2 k = realised_pnl d1 k + pnl_of (p_side p) e x f (a - b)"
    using close_position_realises [OF assms(2) p1 _ _ _ _ q(2)] e f
    by (simp add: fee_or_zero_def)
  ultimately show ?thesis using pnl_of_add [of "p_side p" e x f b "a - b"] by simp
qed

text \<open>
  The one way a closing writes a trade without touching the position: the metadata of a partial
  close carries a runtime version that is not a number.
\<close>

lemma partial_close_unmerged:
  assumes "get_position d k = Some p" and "closing_trade u p x r c m q = Inr (Some (t, rem))"
    and "\<forall>v \<in> set (trades d). t_id v \<noteq> t_id t" and "\<not> rem \<le> Fin dust"
    and "merge_position_runtime_metadata (p_metadata p) m = Inl e"
  shows "close_position u k x r c m q d = (Inl e, d\<lparr>trades := trades d @ [t]\<rparr>)"
  using close_position_unfold [OF assms(1-3)] assms(4,5) by simp

end
