(* ===== verification/Fill.thy ===== *)
theory Fill
  imports Models
begin

text \<open>
  \<^verbatim>\<open>worker/app/fill.py\<close>, \<^verbatim>\<open>worker/app/execution_model.py\<close> and the data of
  \<^verbatim>\<open>worker/app/slippage_client.py\<close>: the fixed-percentage slippage model, the blend of an order
  book walk with it, the order side a position change is executed on and the record of a fill
  (\<open>FillResolution\<close>).  The lemmas say that every price the model produces is adverse and lies
  between the two prices it was made from.
\<close>

section \<open>Slippage\<close>

abbreviation eps :: pyfloat where
  "eps \<equiv> Fin (1 / 10 ^ 12)"

text \<open>\<open>x / c\<close> for a literal \<open>c\<close> that is not zero.\<close>

definition fdivc :: "pyfloat \<Rightarrow> real \<Rightarrow> pyfloat" where
  "fdivc x c = x * Fin (1 / c)"

lemma fdivc_Fin [simp, pyfloat_simps]: "fdivc (Fin x) c = Fin (x / c)"
  by (simp add: fdivc_def)

definition is_long :: "string \<Rightarrow> bool" where
  "is_long side \<longleftrightarrow> upper side = ''LONG''"

definition fixed_pct_fill :: "pyfloat \<Rightarrow> string \<Rightarrow> pyfloat \<Rightarrow> bool \<Rightarrow> pyfloat" where
  "fixed_pct_fill price position_side slippage_pct is_close =
     (let slip = price * fdivc slippage_pct 1000
      in if is_long position_side
         then (if is_close then price - slip else price + slip)
         else (if is_close then price + slip else price - slip))"

definition order_side_for :: "string \<Rightarrow> bool \<Rightarrow> string" where
  "order_side_for position_side is_close =
     (let l = is_long position_side; l = (if is_close then \<not> l else l)
      in if l then ''BUY'' else ''SELL'')"

definition adverse_price :: "string \<Rightarrow> pyfloat \<Rightarrow> pyfloat \<Rightarrow> pyfloat" where
  "adverse_price order_side initial delayed =
     (if upper order_side = ''BUY'' then pymax initial delayed else pymin initial delayed)"

section \<open>The answer of the slippage service\<close>

type_synonym resp = "(string, json) dict"

definition resp_float :: "resp \<Rightarrow> string \<Rightarrow> pyfloat res" where
  "resp_float r k = (case map_of r k of None \<Rightarrow> Inr (Fin 0) | Some v \<Rightarrow> jfloat v)"

definition fallback_used :: "resp \<Rightarrow> bool" where
  "fallback_used r = (case map_of r ''fallback_used'' of None \<Rightarrow> False | Some v \<Rightarrow> json_truthy v)"

definition resolve_fill_price ::
  "resp option \<Rightarrow> pyfloat \<Rightarrow> string \<Rightarrow> bool \<Rightarrow> pyfloat \<Rightarrow> bool \<Rightarrow> pyfloat res" where
  "resolve_fill_price resp ref_price position_side is_close slippage_pct ref_is_executable =
     (let fallback = (if ref_is_executable then ref_price
                      else fixed_pct_fill ref_price position_side slippage_pct is_close)
      in case resp of
           None \<Rightarrow> Inr fallback
         | Some r \<Rightarrow>
             if fallback_used r then Inr fallback
             else res_bind (resp_float r ''filled_qty'') (\<lambda>filled.
                  res_bind (resp_float r ''requested_qty'') (\<lambda>requested.
                  res_bind (resp_float r ''avg_exec_price'') (\<lambda>avg.
                  if filled \<le> eps \<or> avg \<le> Fin 0 then Inr fallback
                  else if requested - eps \<le> filled then Inr avg
                  else fdiv (filled * avg + (requested - filled) * fallback) requested))))"

section \<open>The record of a fill\<close>

record fill_resolution =
  final_price :: pyfloat
  order_side :: string
  initial_price :: pyfloat
  delayed_price :: "pyfloat option"
  initial_source :: string
  delayed_source :: "string option"
  initial_book_state :: json
  delayed_book_state :: json
  initial_snapshot_timestamp :: "int option"
  delayed_snapshot_timestamp :: "int option"
  initial_snapshot_age_ms :: "pyfloat option"
  delayed_snapshot_age_ms :: "pyfloat option"
  requested_qty :: pyfloat
  filled_qty :: pyfloat
  model_latency_ms :: pyfloat
  adverse_movement_bps :: pyfloat
  book_slippage_bps :: "pyfloat option"
  fallback_reason :: "string option"
  pre_subscribe_outcome :: "string option"

text \<open>The dataclass defaults, for the two positional arguments every caller gives.\<close>

definition new_fill :: "pyfloat \<Rightarrow> string \<Rightarrow> pyfloat \<Rightarrow> fill_resolution" where
  "new_fill final side initial =
     \<lparr>final_price = final, order_side = side, initial_price = initial, delayed_price = None,
      initial_source = ''fixed_pct'', delayed_source = None, initial_book_state = JNull,
      delayed_book_state = JNull, initial_snapshot_timestamp = None,
      delayed_snapshot_timestamp = None, initial_snapshot_age_ms = None,
      delayed_snapshot_age_ms = None, requested_qty = Fin 0, filled_qty = Fin 0,
      model_latency_ms = Fin 0, adverse_movement_bps = Fin 0, book_slippage_bps = None,
      fallback_reason = None, pre_subscribe_outcome = None\<rparr>"

definition fill_metadata :: "fill_resolution \<Rightarrow> json" where
  "fill_metadata f = JObj
     [(''final_price'', JNum (final_price f)),
      (''order_side'', JStr (order_side f)),
      (''initial_price'', JNum (initial_price f)),
      (''delayed_price'', jopt JNum (delayed_price f)),
      (''initial_source'', JStr (initial_source f)),
      (''delayed_source'', jopt JStr (delayed_source f)),
      (''initial_book_state'', initial_book_state f),
      (''delayed_book_state'', delayed_book_state f),
      (''initial_snapshot_timestamp'', jopt (\<lambda>i. JStr (show_int i)) (initial_snapshot_timestamp f)),
      (''delayed_snapshot_timestamp'', jopt (\<lambda>i. JStr (show_int i)) (delayed_snapshot_timestamp f)),
      (''initial_snapshot_age_ms'', jopt JNum (initial_snapshot_age_ms f)),
      (''delayed_snapshot_age_ms'', jopt JNum (delayed_snapshot_age_ms f)),
      (''requested_qty'', JNum (requested_qty f)),
      (''filled_qty'', JNum (filled_qty f)),
      (''model_latency_ms'', JNum (model_latency_ms f)),
      (''adverse_movement_bps'', JNum (adverse_movement_bps f)),
      (''book_slippage_bps'', jopt JNum (book_slippage_bps f)),
      (''fallback_reason'', jopt JStr (fallback_reason f)),
      (''pre_subscribe_outcome'', jopt JStr (pre_subscribe_outcome f))]"

section \<open>Lemmas\<close>

lemma fixed_pct_fill_Fin:
  "fixed_pct_fill (Fin p) side (Fin s) is_close =
     Fin (if is_long side \<noteq> is_close then p + p * s / 1000 else p - p * s / 1000)"
  by (auto simp: fixed_pct_fill_def)

lemma fixed_pct_fill_finite:
  "isfinite p \<Longrightarrow> isfinite s \<Longrightarrow> isfinite (fixed_pct_fill p side s is_close)"
  by (auto simp: fixed_pct_fill_Fin elim!: isfiniteE)

lemma order_side_for_cases:
  "order_side_for side is_close = (if is_long side \<noteq> is_close then ''BUY'' else ''SELL'')"
  by (auto simp: order_side_for_def)

lemma order_side_for_flip: "order_side_for side (\<not> is_close) \<noteq> order_side_for side is_close"
  by (simp add: order_side_for_cases)

text \<open>A buy pays at least the reference price, a sell gets at most it.\<close>

definition adverse_to :: "string \<Rightarrow> pyfloat \<Rightarrow> pyfloat \<Rightarrow> bool" where
  "adverse_to side ref p \<longleftrightarrow> (if side = ''BUY'' then ref \<le> p else p \<le> ref)"

lemma adverse_to_Fin:
  "adverse_to side (Fin r) (Fin p) \<longleftrightarrow> (if side = ''BUY'' then r \<le> p else p \<le> r)"
  by (simp add: adverse_to_def)

lemma adverse_to_refl: "isfinite p \<Longrightarrow> adverse_to side p p"
  by (auto simp: adverse_to_Fin elim!: isfiniteE)

lemma fixed_pct_fill_adverse:
  assumes "0 \<le> p" and "0 \<le> s"
  shows "adverse_to (order_side_for side is_close) (Fin p)
           (fixed_pct_fill (Fin p) side (Fin s) is_close)"
  using assms by (simp add: adverse_to_Fin fixed_pct_fill_Fin order_side_for_cases)

lemma upper_BUY [simp]: "upper ''BUY'' = ''BUY''"
  by code_simp

lemma upper_SELL [simp]: "upper ''SELL'' = ''SELL''"
  by code_simp

lemma is_long_simps [simp]: "is_long ''LONG''" "\<not> is_long ''SHORT''"
  by (code_simp, code_simp)

lemma adverse_price_Fin:
  "adverse_price side (Fin a) (Fin b) = Fin (if upper side = ''BUY'' then max a b else min a b)"
  by (simp add: adverse_price_def)

lemma adverse_price_finite: "isfinite a \<Longrightarrow> isfinite b \<Longrightarrow> isfinite (adverse_price side a b)"
  by (auto simp: adverse_price_Fin elim!: isfiniteE)

lemma adverse_price_adverse:
  assumes "side = ''BUY'' \<or> side = ''SELL''" and "isfinite a" and "isfinite b"
  shows "adverse_to side a (adverse_price side a b)" and "adverse_to side b (adverse_price side a b)"
  using assms by (auto simp: adverse_price_Fin adverse_to_Fin elim!: isfiniteE)

lemma adverse_to_trans:
  "isfinite a \<Longrightarrow> isfinite b \<Longrightarrow> isfinite c \<Longrightarrow>
     adverse_to side a b \<Longrightarrow> adverse_to side b c \<Longrightarrow> adverse_to side a c"
  by (auto simp: adverse_to_Fin elim!: isfiniteE split: if_splits)

text \<open>
  A response the client accepted: the three quantities of the book walk are finite and not
  negative.
\<close>

definition valid_resp :: "resp \<Rightarrow> bool" where
  "valid_resp r \<longleftrightarrow>
     (\<forall>k \<in> {''avg_exec_price'', ''filled_qty'', ''requested_qty''}.
        \<exists>x\<ge>0. resp_float r k = Inr (Fin x))"

lemma valid_respE:
  assumes "valid_resp r"
  obtains a f q where "resp_float r ''avg_exec_price'' = Inr (Fin a)" "0 \<le> a"
    and "resp_float r ''filled_qty'' = Inr (Fin f)" "0 \<le> f"
    and "resp_float r ''requested_qty'' = Inr (Fin q)" "0 \<le> q"
  using assms by (auto simp: valid_resp_def)

lemma blend_between:
  fixes f q a b :: real
  assumes "0 < f" and "f < q"
  shows "min a b \<le> (f * a + (q - f) * b) / q" and "(f * a + (q - f) * b) / q \<le> max a b"
proof -
  have "q * min a b = f * min a b + (q - f) * min a b" by (simp add: algebra_simps)
  also have "\<dots> \<le> f * a + (q - f) * b"
    using assms by (intro add_mono mult_left_mono) auto
  finally show "min a b \<le> (f * a + (q - f) * b) / q"
    using assms by (simp add: pos_le_divide_eq mult.commute)
  have "f * a + (q - f) * b \<le> f * max a b + (q - f) * max a b"
    using assms by (intro add_mono mult_left_mono) auto
  also have "\<dots> = q * max a b" by (simp add: algebra_simps)
  finally show "(f * a + (q - f) * b) / q \<le> max a b"
    using assms by (simp add: pos_divide_le_eq mult.commute)
qed

lemma resolve_fill_price_fallback:
  "resp = None \<or> (\<exists>r. resp = Some r \<and> fallback_used r) \<Longrightarrow>
     resolve_fill_price resp ref side is_close s ex =
       Inr (if ex then ref else fixed_pct_fill ref side s is_close)"
  by (auto simp: resolve_fill_price_def)

text \<open>
  On an accepted response the blend never divides by zero and lies between the book average
  and the fallback price.
\<close>

lemma resolve_fill_price_between:
  assumes "valid_resp r" and "isfinite ref" and "isfinite s"
    and avg: "resp_float r ''avg_exec_price'' = Inr (Fin a)"
    and fb: "(if ex then ref else fixed_pct_fill ref side s is_close) = Fin b"
  shows "\<exists>p. resolve_fill_price (Some r) ref side is_close s ex = Inr (Fin p) \<and>
           min a b \<le> p \<and> p \<le> max a b"
proof -
  obtain f q where f: "resp_float r ''filled_qty'' = Inr (Fin f)"
    and q: "resp_float r ''requested_qty'' = Inr (Fin q)"
    using assms(1) by (auto elim!: valid_respE)
  show ?thesis
  proof (cases "fallback_used r \<or> f \<le> 1 / 10 ^ 12 \<or> a \<le> 0 \<or> q - 1 / 10 ^ 12 \<le> f")
    case True
    then show ?thesis
      by (auto simp: resolve_fill_price_def Let_def fb avg f q)
  next
    case False
    then have fq: "0 < f" "f < q" by auto
    with False show ?thesis
      using blend_between [OF fq, of a b]
      by (auto simp: resolve_fill_price_def Let_def fb avg f q)
  qed
qed

lemma resolve_fill_price_finite:
  assumes "\<And>r. resp = Some r \<Longrightarrow> valid_resp r" and "isfinite ref" and "isfinite s"
  shows "\<exists>p. resolve_fill_price resp ref side is_close s ex = Inr (Fin p)"
proof -
  obtain b where b: "(if ex then ref else fixed_pct_fill ref side s is_close) = Fin b"
    using assms(2,3) by (cases ex) (auto simp: isfinite_iff fixed_pct_fill_Fin)
  show ?thesis
  proof (cases resp)
    case None
    with b show ?thesis by (simp add: resolve_fill_price_def)
  next
    case (Some r)
    with assms(1) have v: "valid_resp r" by simp
    then obtain a where "resp_float r ''avg_exec_price'' = Inr (Fin a)"
      by (auto elim!: valid_respE)
    from resolve_fill_price_between [OF v assms(2,3) this b] Some show ?thesis by auto
  qed
qed

end
