(* ===== verification/SlippageClient.thy ===== *)
theory SlippageClient
  imports Fill
begin

text \<open>
  \<^verbatim>\<open>worker/app/slippage_client.py\<close>: the client of the market-data slippage RPC with its circuit
  breaker, and \<open>FillService.resolve\<close>, which turns one or two answers into a fill.

  Redis and the clocks are outside: a query is given the outcome of the RPC (\<open>RpcError\<close> for an
  exception, \<open>RpcTimeout\<close> for an empty BLPOP, \<open>RpcItem\<close> for an answer text) and the readings of
  the monotonic clock at the breaker check and at the recording of a failure.
\<close>

section \<open>The circuit breaker\<close>

record breaker_cfg =
  failure_threshold :: nat
  cooldown_sec :: real

record client_state =
  failures :: nat
  breaker_open_until :: "real option"

definition new_client :: client_state where
  "new_client = \<lparr>failures = 0, breaker_open_until = None\<rparr>"

definition breaker_open :: "real \<Rightarrow> client_state \<Rightarrow> bool \<times> client_state" where
  "breaker_open now c = (case breaker_open_until c of
       None \<Rightarrow> (False, c)
     | Some t \<Rightarrow> if t \<le> now then (False, c\<lparr>breaker_open_until := None\<rparr>) else (True, c))"

definition record_failure :: "breaker_cfg \<Rightarrow> real \<Rightarrow> client_state \<Rightarrow> client_state" where
  "record_failure cfg now c =
     (let c = c\<lparr>failures := failures c + 1\<rparr>
      in if failure_threshold cfg \<le> failures c
         then c\<lparr>breaker_open_until := Some (now + cooldown_sec cfg)\<rparr> else c)"

definition record_success :: "client_state \<Rightarrow> client_state" where
  "record_success c = c\<lparr>failures := 0, breaker_open_until := None\<rparr>"

section \<open>One query\<close>

datatype rpc_outcome = RpcError | RpcTimeout | RpcItem jtext

record rpc_env =
  check_at :: real
  outcome :: rpc_outcome
  fail_at :: real

text \<open>The checks of an answer: an object, for this request, with usable quantities.\<close>

definition nonneg_field :: "resp \<Rightarrow> string \<Rightarrow> bool" where
  "nonneg_field r k = (case resp_float r k of
       Inl _ \<Rightarrow> False | Inr x \<Rightarrow> isfinite x \<and> \<not> x < Fin 0)"

definition check_response :: "string \<Rightarrow> jtext \<Rightarrow> resp option" where
  "check_response rid raw = (case jloads raw of
       Inr (JObj r) \<Rightarrow>
         (if (case map_of r ''request_id'' of None \<Rightarrow> True | Some v \<Rightarrow> v = JNull \<or> v = JStr rid)
             \<and> list_all (nonneg_field r) [''avg_exec_price'', ''filled_qty'', ''requested_qty'']
          then Some r else None)
     | _ \<Rightarrow> None)"

definition query ::
  "breaker_cfg \<Rightarrow> string \<Rightarrow> rpc_env \<Rightarrow> client_state \<Rightarrow> resp option \<times> client_state" where
  "query cfg rid env c =
     (let (opn, c) = breaker_open (check_at env) c
      in if opn then (None, c)
         else case outcome env of
             RpcItem raw \<Rightarrow>
               (case check_response rid raw of
                  Some r \<Rightarrow> (Some r, record_success c)
                | None \<Rightarrow> (None, record_failure cfg (fail_at env) c))
           | _ \<Rightarrow> (None, record_failure cfg (fail_at env) c))"

text \<open>Whether the call puts a request on the queue of the service.\<close>

definition enqueues :: "rpc_env \<Rightarrow> client_state \<Rightarrow> bool" where
  "enqueues env c \<longleftrightarrow> \<not> fst (breaker_open (check_at env) c)"

section \<open>Resolving a fill\<close>

record fill_cfg =
  slippage_pct :: pyfloat
  supported_exchanges :: "string list"
  latency_model_enabled :: bool
  latency_ms :: pyfloat
  min_adverse_bps :: pyfloat

record fill_env =
  first_query :: rpc_env
  second_query :: rpc_env
  first_id :: string
  second_id :: string
  first_ms :: pyfloat
  second_ms :: pyfloat

definition snapshot_of :: "pyfloat \<Rightarrow> pyfloat \<Rightarrow> (int option \<times> pyfloat option) res" where
  "snapshot_of now_ms ts =
     (if Fin 0 < ts
      then res_bind (py_int_of_float ts) (\<lambda>i. Inr (Some i, Some (pymax (Fin 0) (now_ms - ts))))
      else Inr (None, None))"

definition source_of :: "resp \<Rightarrow> string" where
  "source_of r = (case map_of r ''source'' of None \<Rightarrow> ''unknown'' | Some v \<Rightarrow> jstr v)"

definition json_of :: "resp \<Rightarrow> string \<Rightarrow> json" where
  "json_of r k = dget r k JNull"

definition fill_source :: "bool \<Rightarrow> bool \<Rightarrow> resp option \<Rightarrow> string \<times> string option" where
  "fill_source supported ref_is_executable resp =
     (if \<not> supported then (''fixed_pct'', Some ''unsupported_exchange'')
      else case resp of
          None \<Rightarrow> (if ref_is_executable then ''executable_ref'' else ''fixed_pct'',
                   Some ''rpc_unavailable'')
        | Some r \<Rightarrow>
            if fallback_used r
            then (''fixed_pct'',
                  Some (case map_of r ''fallback_reason'' of
                      None \<Rightarrow> ''mds_fallback''
                    | Some v \<Rightarrow> if json_truthy v then jstr v else ''mds_fallback''))
            else (if r = [] then ''fixed_pct'' else source_of r, None))"

definition initial_fill ::
  "fill_cfg \<Rightarrow> bool \<Rightarrow> resp option \<Rightarrow> pyfloat \<Rightarrow> string \<Rightarrow> pyfloat \<Rightarrow> pyfloat \<Rightarrow> bool \<Rightarrow> bool
     \<Rightarrow> fill_resolution res" where
  "initial_fill cfg supported resp now_ms position_side qty ref_price is_close ref_is_executable =
     res_bind (resolve_fill_price resp ref_price position_side is_close (slippage_pct cfg)
                 ref_is_executable) (\<lambda>initial.
     res_bind (case resp of None \<Rightarrow> Inr (Fin 0) | Some r \<Rightarrow> resp_float r ''snapshot_ts'') (\<lambda>ts.
     res_bind (snapshot_of now_ms ts) (\<lambda>(stamp, age).
     res_bind (case resp of None \<Rightarrow> Inr (Fin 0) | Some r \<Rightarrow> resp_float r ''filled_qty'') (\<lambda>filled.
     let (source, reason) = fill_source supported ref_is_executable resp;
         fill = (new_fill initial (order_side_for position_side is_close) initial)
           \<lparr>initial_source := source, requested_qty := qty, filled_qty := filled,
            fallback_reason := reason,
            initial_book_state := (case resp of None \<Rightarrow> JNull | Some r \<Rightarrow> json_of r ''book_state''),
            initial_snapshot_timestamp := stamp, initial_snapshot_age_ms := age\<rparr>
     in Inr (case resp of
          None \<Rightarrow> fill
        | Some r \<Rightarrow>
            if fallback_used r then fill
            else fill\<lparr>book_slippage_bps :=
                (case map_of r ''slippage_bps'' of
                   None \<Rightarrow> None
                 | Some v \<Rightarrow> (case jfloat v of Inl _ \<Rightarrow> None | Inr x \<Rightarrow> Some x))\<rparr>)))))"

text \<open>The second quote, taken after the modelled latency.\<close>

definition delayed_fill ::
  "fill_cfg \<Rightarrow> resp option \<Rightarrow> pyfloat \<Rightarrow> string \<Rightarrow> pyfloat \<Rightarrow> bool \<Rightarrow> bool
     \<Rightarrow> fill_resolution \<Rightarrow> fill_resolution res" where
  "delayed_fill cfg resp now_ms position_side ref_price is_close ref_is_executable fill =
     (case resp of
        Some r \<Rightarrow>
          (if fallback_used r
           then Inr (fill\<lparr>delayed_source := Some ''failed'',
                          fallback_reason := Some ''delayed_quote_failed''\<rparr>)
           else
             res_bind (resolve_fill_price resp ref_price position_side is_close
                         (slippage_pct cfg) ref_is_executable) (\<lambda>delayed.
             res_bind (resp_float r ''snapshot_ts'') (\<lambda>ts.
             res_bind (snapshot_of now_ms ts) (\<lambda>(stamp, age).
             Inr (fill\<lparr>delayed_price := Some delayed, delayed_source := Some (source_of r),
                       delayed_book_state := json_of r ''book_state'',
                       delayed_snapshot_timestamp := stamp, delayed_snapshot_age_ms := age,
                       final_price :=
                         adverse_price (order_side fill) (initial_price fill) delayed\<rparr>)))))
      | None \<Rightarrow> Inr (fill\<lparr>delayed_source := Some ''failed'',
                          fallback_reason := Some ''delayed_quote_failed''\<rparr>))"

text \<open>The minimum adverse movement and the movement that was realised.\<close>

definition adverse_floor :: "fill_cfg \<Rightarrow> fill_resolution \<Rightarrow> fill_resolution" where
  "adverse_floor cfg fill =
     (let initial = initial_price fill;
          floor = fdivc (initial * min_adverse_bps cfg) 10000
      in if Fin 0 < floor
         then fill\<lparr>final_price := adverse_price (order_side fill) (final_price fill)
                     (if order_side fill = ''BUY'' then initial + floor else initial - floor)\<rparr>
         else fill)"

definition movement :: "fill_cfg \<Rightarrow> fill_resolution \<Rightarrow> fill_resolution res" where
  "movement cfg fill =
     (let fill = fill\<lparr>model_latency_ms := latency_ms cfg\<rparr>; initial = initial_price fill;
          direction = (if order_side fill = ''BUY'' then Fin 1 else Fin (- 1))
      in if truthy initial
         then res_bind (fdiv (direction * (final_price fill - initial)) initial) (\<lambda>m.
              Inr (fill\<lparr>adverse_movement_bps := pymax (Fin 0) (m * Fin 10000)\<rparr>))
         else Inr fill)"

definition resolve ::
  "breaker_cfg \<Rightarrow> fill_cfg \<Rightarrow> fill_env \<Rightarrow> string \<Rightarrow> string \<Rightarrow> pyfloat \<Rightarrow> pyfloat \<Rightarrow> bool \<Rightarrow> bool
     \<Rightarrow> (client_state, fill_resolution) eff" where
  "resolve bcfg cfg env exchange position_side qty ref_price is_close ref_is_executable c =
     (let supported = lower exchange \<in> set (map lower (supported_exchanges cfg));
          (resp, c) = (if supported then query bcfg (first_id env) (first_query env) c
                       else (None, c))
      in case initial_fill cfg supported resp (first_ms env) position_side qty ref_price is_close
                ref_is_executable of
           Inl e \<Rightarrow> (Inl e, c)
         | Inr fill \<Rightarrow>
             if \<not> latency_model_enabled cfg \<or> resp = None
                \<or> (\<exists>r \<in> set_option resp. fallback_used r)
             then (Inr fill, c)
             else
               (let (resp2, c) = query bcfg (second_id env) (second_query env) c
                in (res_bind (delayed_fill cfg resp2 (second_ms env) position_side ref_price
                                is_close ref_is_executable fill)
                      (\<lambda>fill. movement cfg (adverse_floor cfg fill)), c)))"

section \<open>The breaker\<close>

lemma breaker_closed_check: "breaker_open_until c = None \<Longrightarrow> breaker_open now c = (False, c)"
  by (simp add: breaker_open_def)

text \<open>While the cooldown runs no request is enqueued and nothing changes.\<close>

lemma query_while_open:
  assumes "breaker_open_until c = Some t" and "check_at env < t"
  shows "query cfg rid env c = (None, c)" and "\<not> enqueues env c"
  using assms by (auto simp: query_def breaker_open_def enqueues_def)

lemma query_success_resets:
  "query cfg rid env c = (Some r, c') \<Longrightarrow> failures c' = 0 \<and> breaker_open_until c' = None"
  by (auto simp: query_def record_success_def record_failure_def Let_def
      split: prod.splits if_splits rpc_outcome.splits option.splits)

lemma query_failure_counts:
  assumes "enqueues env c" and "fst (query cfg rid env c) = None"
  shows "failures (snd (query cfg rid env c)) = failures c + 1"
  using assms
  by (auto simp: query_def enqueues_def breaker_open_def record_failure_def Let_def
      split: prod.splits if_splits rpc_outcome.splits option.splits)

lemma query_failure_opens:
  assumes "enqueues env c" and "fst (query cfg rid env c) = None"
    and "failure_threshold cfg \<le> failures c + 1"
  shows "breaker_open_until (snd (query cfg rid env c)) = Some (fail_at env + cooldown_sec cfg)"
  using assms
  by (auto simp: query_def enqueues_def breaker_open_def record_failure_def Let_def
      split: prod.splits if_splits rpc_outcome.splits option.splits)

text \<open>
  The invariant of the breaker: an open breaker has reached its threshold, and fewer failures
  than the threshold mean a closed one.
\<close>

definition breaker_inv :: "breaker_cfg \<Rightarrow> client_state \<Rightarrow> bool" where
  "breaker_inv cfg c \<longleftrightarrow>
     (breaker_open_until c \<noteq> None \<longrightarrow> failure_threshold cfg \<le> failures c)"

lemma breaker_inv_query: "breaker_inv cfg c \<Longrightarrow> breaker_inv cfg (snd (query cfg rid env c))"
  by (auto simp: breaker_inv_def query_def breaker_open_def record_failure_def
      record_success_def Let_def
      split: prod.splits if_splits rpc_outcome.splits option.splits)

section \<open>Validation and finiteness\<close>

lemma nonneg_field_iff: "nonneg_field r k \<longleftrightarrow> (\<exists>x\<ge>0. resp_float r k = Inr (Fin x))"
  by (auto simp: nonneg_field_def isfinite_iff not_less split: sum.splits)

lemma check_response_valid: "check_response rid raw = Some r \<Longrightarrow> valid_resp r"
  by (auto simp: check_response_def valid_resp_def nonneg_field_iff
      split: sum.splits json.splits if_splits)

lemma query_valid: "query cfg rid env c = (Some r, c') \<Longrightarrow> valid_resp r"
  by (auto simp: query_def dest!: check_response_valid
      split: prod.splits if_splits rpc_outcome.splits option.splits)

section \<open>What a resolved fill promises\<close>

text \<open>
  The contract every consumer of a fill relies on: finite prices, on the right side of the
  book, and a final price that is no better than the initial one.
\<close>

definition good_fill :: "string \<Rightarrow> bool \<Rightarrow> fill_resolution \<Rightarrow> bool" where
  "good_fill position_side is_close f \<longleftrightarrow>
     isfinite (initial_price f) \<and> isfinite (final_price f)
     \<and> order_side f = order_side_for position_side is_close
     \<and> adverse_to (order_side f) (initial_price f) (final_price f)"

lemma order_side_for_BUY_SELL:
  "order_side_for side is_close = ''BUY'' \<or> order_side_for side is_close = ''SELL''"
  by (simp add: order_side_for_cases)

lemma initial_fill_good:
  assumes "\<And>r. resp = Some r \<Longrightarrow> valid_resp r" and "isfinite ref" and "isfinite (slippage_pct cfg)"
    and "initial_fill cfg supd resp now side qty ref is_close ex = Inr f"
  shows "good_fill side is_close f"
proof -
  obtain p where "resolve_fill_price resp ref side is_close (slippage_pct cfg) ex = Inr (Fin p)"
    using resolve_fill_price_finite [OF assms(1-3)] by blast
  with assms(4) show ?thesis
    by (cases "fill_source supd ex resp")
       (auto simp: initial_fill_def res_bind_Inr_iff good_fill_def new_fill_def Let_def
         adverse_to_refl split: prod.splits option.splits)
qed

lemma initial_fill_price:
  "initial_fill cfg supd resp now side qty ref is_close ex = Inr f \<Longrightarrow>
     resolve_fill_price resp ref side is_close (slippage_pct cfg) ex = Inr (initial_price f)"
  by (cases "fill_source supd ex resp")
     (auto simp: initial_fill_def res_bind_Inr_iff new_fill_def Let_def
       split: prod.splits option.splits)

lemma delayed_fill_good:
  assumes "\<And>r. resp = Some r \<Longrightarrow> valid_resp r" and "isfinite ref" and "isfinite (slippage_pct cfg)"
    and g: "good_fill side is_close f"
    and d: "delayed_fill cfg resp now side ref is_close ex f = Inr f'"
  shows "good_fill side is_close f' \<and> initial_price f' = initial_price f"
proof (cases "\<exists>r. resp = Some r \<and> \<not> fallback_used r")
  case False
  with d g show ?thesis
    by (auto simp: delayed_fill_def good_fill_def split: option.splits if_splits)
next
  case True
  obtain p where p: "resolve_fill_price resp ref side is_close (slippage_pct cfg) ex = Inr (Fin p)"
    using resolve_fill_price_finite [OF assms(1-3)] by blast
  from g have adv: "isfinite (adverse_price (order_side f) (initial_price f) (Fin p))"
    "adverse_to (order_side f) (initial_price f) (adverse_price (order_side f) (initial_price f) (Fin p))"
    using order_side_for_BUY_SELL [of side is_close]
    by (auto simp: good_fill_def intro: adverse_price_finite adverse_price_adverse)
  from True d p g adv show ?thesis
    by (auto simp: delayed_fill_def good_fill_def res_bind_Inr_iff split: option.splits if_splits)
qed

lemma adverse_floor_good:
  assumes g: "good_fill side is_close f" and "isfinite (min_adverse_bps cfg)"
  shows "good_fill side is_close (adverse_floor cfg f) \<and>
         initial_price (adverse_floor cfg f) = initial_price f"
proof -
  from g assms(2) obtain i p b where
    v: "initial_price f = Fin i" "final_price f = Fin p" "min_adverse_bps cfg = Fin b"
    by (auto simp: good_fill_def isfinite_iff)
  from g v show ?thesis
    using order_side_for_BUY_SELL [of side is_close]
    by (auto simp: adverse_floor_def Let_def good_fill_def adverse_price_Fin adverse_to_Fin)
qed

lemma movement_good:
  "movement cfg f = Inr f' \<Longrightarrow> good_fill side is_close f \<Longrightarrow>
     good_fill side is_close f' \<and> initial_price f' = initial_price f"
  by (auto simp: movement_def Let_def good_fill_def res_bind_Inr_iff split: if_splits)

lemma resolve_good:
  assumes "isfinite ref" and "isfinite (slippage_pct cfg)" and "isfinite (min_adverse_bps cfg)"
    and r: "resolve bcfg cfg env exch side qty ref is_close ex c = (Inr f, c')"
  shows "good_fill side is_close f"
proof -
  define supd where "supd = (lower exch \<in> set (map lower (supported_exchanges cfg)))"
  obtain resp c1 where q:
    "(if supd then query bcfg (first_id env) (first_query env) c else (None, c)) = (resp, c1)"
    by (cases "if supd then query bcfg (first_id env) (first_query env) c else (None, c)") auto
  then have val: "\<And>r. resp = Some r \<Longrightarrow> valid_resp r"
    by (auto split: if_splits dest: query_valid)
  obtain f0 where f0: "initial_fill cfg supd resp (first_ms env) side qty ref is_close ex = Inr f0"
    using r q by (auto simp: resolve_def supd_def Let_def split: sum.splits prod.splits if_splits)
  have g0: "good_fill side is_close f0"
    using initial_fill_good [OF val assms(1,2) f0] .
  obtain resp2 c2 where q2: "query bcfg (second_id env) (second_query env) c1 = (resp2, c2)"
    by (cases "query bcfg (second_id env) (second_query env) c1") auto
  then have val2: "\<And>r. resp2 = Some r \<Longrightarrow> valid_resp r"
    by (auto dest: query_valid)
  show ?thesis
  proof (cases "f = f0")
    case True
    with g0 show ?thesis by simp
  next
    case False
    with r q q2 f0 obtain f1 where
      f1: "delayed_fill cfg resp2 (second_ms env) side ref is_close ex f0 = Inr f1"
      and m: "movement cfg (adverse_floor cfg f1) = Inr f"
      by (auto simp: resolve_def supd_def Let_def res_bind_Inr_iff
          split: sum.splits prod.splits if_splits)
    from delayed_fill_good [OF val2 assms(1,2) g0 f1] adverse_floor_good [OF _ assms(3)] m
    show ?thesis by (blast dest: movement_good)
  qed
qed

end
