(* ===== verification/PriceCaches.thy ===== *)
theory PriceCaches
  imports SlippageClient
begin

text \<open>
  The three places the worker reads a price from: \<open>TickerPriceCache\<close> and \<open>TickFillService\<close> of
  \<^verbatim>\<open>worker/app/main.py\<close>, \<open>ObExecCache\<close> and \<open>make_exit_price_fn\<close> of \<^verbatim>\<open>worker/app/ob_exec.py\<close>.
  The monotonic clock is a parameter \<open>now\<close> of every call that reads it.

  The locale \<open>price_source\<close> is the contract the take-profit / stop-loss pass relies on: a
  served price is never zero or negative.
\<close>

record price_quote =
  price :: pyfloat
  quote_source :: string
  is_executable :: bool

section \<open>TickerPriceCache\<close>

record ticker_cache =
  ticker_prices :: "string \<rightharpoonup> pyfloat \<times> real"
  ticker_staleness_sec :: real

definition new_ticker_cache :: "real \<Rightarrow> ticker_cache" where
  "new_ticker_cache s = \<lparr>ticker_prices = Map.empty, ticker_staleness_sec = s\<rparr>"

definition update_price :: "real \<Rightarrow> string \<Rightarrow> pyfloat \<Rightarrow> ticker_cache \<Rightarrow> ticker_cache" where
  "update_price now symbol p c =
     (if p > Fin 0 then c\<lparr>ticker_prices := (ticker_prices c)(symbol \<mapsto> (p, now))\<rparr> else c)"

definition get_quote :: "real \<Rightarrow> ticker_cache \<Rightarrow> string \<Rightarrow> price_quote option" where
  "get_quote now c symbol = (case ticker_prices c symbol of
       None \<Rightarrow> None
     | Some (p, ts) \<Rightarrow>
         if now - ts > ticker_staleness_sec c then None
         else Some \<lparr>price = p, quote_source = ''ticker_mid'', is_executable = False\<rparr>)"

definition get_price :: "real \<Rightarrow> ticker_cache \<Rightarrow> string \<Rightarrow> pyfloat option" where
  "get_price now c symbol = map_option price (get_quote now c symbol)"

definition get_last_price :: "ticker_cache \<Rightarrow> string \<Rightarrow> pyfloat option" where
  "get_last_price c symbol = map_option fst (ticker_prices c symbol)"

text \<open>\<open>get_prices\<close> for a given list of symbols, in the order of the list.\<close>

definition get_prices :: "real \<Rightarrow> ticker_cache \<Rightarrow> string list \<Rightarrow> (string, pyfloat) dict" where
  "get_prices now c symbols =
     fold (\<lambda>s d. case get_quote now c s of None \<Rightarrow> d | Some q \<Rightarrow> dset s (price q) d) symbols []"

definition ticker_ok :: "ticker_cache \<Rightarrow> bool" where
  "ticker_ok c \<longleftrightarrow> (\<forall>s p ts. ticker_prices c s = Some (p, ts) \<longrightarrow> p > Fin 0)"

lemma ticker_ok_new [simp]: "ticker_ok (new_ticker_cache s)"
  by (simp add: ticker_ok_def new_ticker_cache_def)

lemma ticker_ok_update [simp]: "ticker_ok c \<Longrightarrow> ticker_ok (update_price now s p c)"
  by (auto simp: ticker_ok_def update_price_def)

lemma get_quote_fresh:
  "get_quote now c s = Some q \<Longrightarrow>
     \<exists>ts. ticker_prices c s = Some (price q, ts) \<and> now - ts \<le> ticker_staleness_sec c
          \<and> \<not> is_executable q"
  by (auto simp: get_quote_def split: option.splits if_splits)

section \<open>ObExecCache\<close>

type_synonym book_key = "string \<times> string"

record book_entry =
  best_bid :: pyfloat
  best_ask :: pyfloat
  book_state :: string
  book_ts :: real

text \<open>
  The futures of \<open>wait_ready\<close> are numbered; \<open>waiters\<close> holds the pending ones of every key and
  \<open>woken\<close> the ones whose result was set.
\<close>

record ob_cache =
  book :: "book_key \<rightharpoonup> book_entry"
  waiters :: "book_key \<rightharpoonup> nat set"
  woken :: "nat set"
  ob_staleness_sec :: real

definition book_key :: "string \<Rightarrow> string \<Rightarrow> book_key" where
  "book_key exchange symbol = (lower exchange, symbol)"

definition is_ready :: "real \<Rightarrow> ob_cache \<Rightarrow> string \<Rightarrow> string \<Rightarrow> bool" where
  "is_ready now c exchange symbol = (case book c (book_key exchange symbol) of
       None \<Rightarrow> False
     | Some e \<Rightarrow> book_state e = ''READY'' \<and> best_bid e > Fin 0 \<and> best_ask e > Fin 0
                 \<and> now - book_ts e \<le> ob_staleness_sec c)"

definition ob_update ::
  "real \<Rightarrow> real \<Rightarrow> string \<Rightarrow> pyfloat \<Rightarrow> pyfloat \<Rightarrow> string \<Rightarrow> string \<Rightarrow> ob_cache \<Rightarrow> ob_cache" where
  "ob_update now now' symbol bid ask state exchange c =
     (let key = book_key exchange symbol;
          c = c\<lparr>book := (book c)(key \<mapsto>
                 \<lparr>best_bid = bid, best_ask = ask, book_state = state, book_ts = now\<rparr>)\<rparr>
      in if is_ready now' c exchange symbol
         then c\<lparr>waiters := (waiters c)(key := None),
                woken := woken c \<union> (case waiters c key of None \<Rightarrow> {} | Some ws \<Rightarrow> ws)\<rparr>
         else c)"

definition side_quote :: "real \<Rightarrow> ob_cache \<Rightarrow> string \<Rightarrow> string \<Rightarrow> string \<Rightarrow> price_quote option" where
  "side_quote now c symbol position_side exchange =
     (case book c (book_key exchange symbol) of
        None \<Rightarrow> None
      | Some e \<Rightarrow>
          if book_state e \<noteq> ''READY'' then None
          else if now - book_ts e > ob_staleness_sec c then None
          else let p = (if is_long position_side then best_bid e else best_ask e)
               in if \<not> truthy p \<or> p \<le> Fin 0 then None
                  else Some \<lparr>price = p, quote_source = ''ob_exec'', is_executable = True\<rparr>)"

text \<open>
  \<open>wait_ready\<close> is a coroutine: it returns at once when the book is ready, else it registers a
  future and suspends; it resumes when an update has set the result or when the timeout is over,
  and in both cases the \<open>finally\<close> block removes its future.
\<close>

definition wait_begin :: "real \<Rightarrow> string \<Rightarrow> string \<Rightarrow> nat \<Rightarrow> ob_cache \<Rightarrow> string option \<times> ob_cache" where
  "wait_begin now exchange symbol fut c =
     (if is_ready now c exchange symbol then (Some ''already_ready'', c)
      else let key = book_key exchange symbol
           in (None, c\<lparr>waiters := (waiters c)(key \<mapsto>
                 insert fut (case waiters c key of None \<Rightarrow> {} | Some ws \<Rightarrow> ws))\<rparr>))"

definition wait_end :: "string \<Rightarrow> string \<Rightarrow> nat \<Rightarrow> ob_cache \<Rightarrow> string \<times> ob_cache" where
  "wait_end exchange symbol fut c =
     (let key = book_key exchange symbol;
          res = (if fut \<in> woken c then ''became_ready'' else ''timed_out'')
      in case waiters c key of
           None \<Rightarrow> (res, c)
         | Some ws \<Rightarrow>
             (let ws = ws - {fut}
              in (res, c\<lparr>waiters := (waiters c)(key := (if ws = {} then None else Some ws))\<rparr>)))"

lemma side_quote_positive: "side_quote now c s side ex = Some q \<Longrightarrow> \<not> price q \<le> Fin 0"
  by (auto simp: side_quote_def Let_def split: option.splits if_splits)

lemma side_quote_executable: "side_quote now c s side ex = Some q \<Longrightarrow> is_executable q"
  by (auto simp: side_quote_def Let_def split: option.splits if_splits)

lemma is_ready_quotes:
  assumes "is_ready now c ex s"
  shows "\<exists>q. side_quote now c s side ex = Some q"
proof -
  from assms obtain e where e: "book c (book_key ex s) = Some e" "book_state e = ''READY''"
    "best_bid e > Fin 0" "best_ask e > Fin 0" "now - book_ts e \<le> ob_staleness_sec c"
    by (auto simp: is_ready_def split: option.splits)
  have pos: "truthy p \<and> \<not> p \<le> Fin 0" if "p > Fin 0" for p
    using that by (cases p) auto
  from e pos show ?thesis by (auto simp: side_quote_def Let_def)
qed

text \<open>An update that makes the book ready wakes every waiter of the key and keeps none.\<close>

lemma ob_update_wakes:
  assumes "is_ready now' (ob_update now now' s bid ask st ex c) ex s"
    and "waiters c (book_key ex s) = Some ws"
  shows "waiters (ob_update now now' s bid ask st ex c) (book_key ex s) = None \<and>
         ws \<subseteq> woken (ob_update now now' s bid ask st ex c)"
  using assms by (auto simp: ob_update_def Let_def is_ready_def split: if_splits)

lemma wait_end_forgets:
  "waiters (snd (wait_end ex s fut c)) (book_key ex s) = Some ws \<Longrightarrow> fut \<notin> ws \<and> ws \<noteq> {}"
  by (auto simp: wait_end_def Let_def split: option.splits if_splits)

section \<open>The exit price: the book when it is ready, else the ticker\<close>

definition exit_price_fn ::
  "real \<Rightarrow> ob_cache \<Rightarrow> ticker_cache \<Rightarrow> string \<Rightarrow> string \<Rightarrow> price_quote option" where
  "exit_price_fn now ob tick symbol position_side =
     (case side_quote now ob symbol position_side ''binance'' of
        Some q \<Rightarrow> Some q
      | None \<Rightarrow> get_quote now tick symbol)"

section \<open>TickFillService\<close>

definition tick_resolve ::
  "real \<Rightarrow> ticker_cache \<Rightarrow> pyfloat \<Rightarrow> string \<Rightarrow> string \<Rightarrow> pyfloat \<Rightarrow> pyfloat \<Rightarrow> bool \<Rightarrow> bool
     \<Rightarrow> fill_resolution" where
  "tick_resolve now cache slip symbol position_side qty ref_price is_close ref_is_executable =
     (let side = order_side_for position_side is_close
      in case get_quote now cache symbol of
           Some q \<Rightarrow> (new_fill (price q) side (price q))
             \<lparr>initial_source := quote_source q, requested_qty := qty, filled_qty := qty\<rparr>
         | None \<Rightarrow>
             (let p = (if ref_is_executable then ref_price
                       else fixed_pct_fill ref_price position_side slip is_close)
              in (new_fill p side p)
                   \<lparr>initial_source := (if ref_is_executable then ''executable_ref''
                                       else ''fixed_pct''),
                    requested_qty := qty, filled_qty := Fin 0,
                    fallback_reason := Some ''ticker_unavailable''\<rparr>))"

text \<open>On a cache of finite prices a tick fill keeps the contract of \<open>FillService.resolve\<close>.\<close>

definition ticker_finite :: "ticker_cache \<Rightarrow> bool" where
  "ticker_finite c \<longleftrightarrow> (\<forall>s p ts. ticker_prices c s = Some (p, ts) \<longrightarrow> isfinite p)"

lemma tick_resolve_good:
  assumes "ticker_finite c" and "isfinite ref" and "isfinite slip"
  shows "good_fill side is_close (tick_resolve now c slip s side qty ref is_close ex)"
proof (cases "get_quote now c s")
  case None
  with assms fixed_pct_fill_finite [OF assms(2,3)] show ?thesis
    by (auto simp: tick_resolve_def good_fill_def new_fill_def Let_def adverse_to_refl)
next
  case (Some q)
  with assms(1) have "isfinite (price q)"
    by (auto simp: ticker_finite_def dest!: get_quote_fresh)
  with Some show ?thesis
    by (simp add: tick_resolve_def good_fill_def new_fill_def Let_def adverse_to_refl)
qed

section \<open>The contract of a price source\<close>

locale price_source =
  fixes quote :: "'s \<Rightarrow> string \<Rightarrow> string \<Rightarrow> price_quote option"
    and ok :: "'s \<Rightarrow> bool"
  assumes quote_positive: "ok s \<Longrightarrow> quote s smb side = Some q \<Longrightarrow> \<not> price q \<le> Fin 0"
begin

lemma finite_quote_positive:
  "ok s \<Longrightarrow> quote s smb side = Some q \<Longrightarrow> price q = Fin p \<Longrightarrow> 0 < p"
  using quote_positive by fastforce

end

interpretation ob: price_source
  "\<lambda>(now, c) smb side. side_quote now c smb side ''binance''" "\<lambda>_. True"
  by unfold_locales (auto dest: side_quote_positive)

lemma pos_not_le: "Fin 0 < p \<Longrightarrow> \<not> p \<le> Fin 0"
  by (cases p) auto

interpretation tick: price_source "\<lambda>(now, c) smb side. get_quote now c smb" "\<lambda>(now, c). ticker_ok c"
  by unfold_locales (auto simp: ticker_ok_def dest!: get_quote_fresh dest: pos_not_le)

interpretation exit_src: price_source
  "\<lambda>(now, ob, c) smb side. exit_price_fn now ob c smb side" "\<lambda>(now, ob, c). ticker_ok c"
proof
  fix s :: "real \<times> ob_cache \<times> ticker_cache" and smb side q
  obtain now ob c where s: "s = (now, ob, c)" by (cases s)
  assume "case s of (now, ob, c) \<Rightarrow> ticker_ok c"
    and "(case s of (now, ob, c) \<Rightarrow> exit_price_fn now ob c) smb side = Some q"
  with s show "\<not> price q \<le> Fin 0"
    using ob.quote_positive [of "(now, ob)" smb side q] tick.quote_positive [of "(now, c)" smb side q]
    by (auto simp: exit_price_fn_def split: option.splits)
qed

end
