(* ===== verification/Executor.thy ===== *)
theory Executor
  imports Ledger PriceCaches
begin

text \<open>
  \<^verbatim>\<open>worker/app/executor.py\<close>: what an OPEN, MODIFY, CLOSE or REGISTER_COLUMNS signal does to the
  database, and the take-profit / stop-loss pass \<open>check_tpsl_hits\<close>.

  A fill that is handed in is either a resolved one (\<open>Resolved\<close>) or a bare price (\<open>Price\<close>).  The
  price source and the fill resolver of the pass are arguments: functions from what the code
  hands them to what they answer.
\<close>

record exec_cfg =
  x_slippage_pct :: pyfloat
  x_duplicate_policy :: string

datatype fill_arg = Price pyfloat | Resolved fill_resolution

fun fill_value :: "fill_arg \<Rightarrow> pyfloat" where
  "fill_value (Price p) = p"
| "fill_value (Resolved f) = final_price f"

fun execution_metadata :: "fill_arg \<Rightarrow> (string, json) dict" where
  "execution_metadata (Price p) = []"
| "execution_metadata (Resolved f) = [(''execution'', fill_metadata f)]"

definition merge_metadata :: "jtext option \<Rightarrow> (string, json) dict \<Rightarrow> jtext" where
  "merge_metadata raw extra = jdumps (JObj (dupdate (obj_or_empty raw) extra))"

definition metadata_flag :: "jtext \<Rightarrow> string \<Rightarrow> bool" where
  "metadata_flag raw k = json_truthy (dget (obj_or_empty (Some raw)) k JNull)"

definition apply_slippage :: "exec_cfg \<Rightarrow> pyfloat \<Rightarrow> string \<Rightarrow> bool \<Rightarrow> pyfloat" where
  "apply_slippage x p side is_close = fixed_pct_fill p side (x_slippage_pct x) is_close"

section \<open>OPEN\<close>

definition allows_duplicate_position :: "open_signal \<Rightarrow> bool" where
  "allows_duplicate_position s = metadata_flag (o_metadata s) ''allow_duplicate_position''"

definition process_open ::
  "exec_cfg \<Rightarrow> isotext \<Rightarrow> string \<Rightarrow> open_signal \<Rightarrow> fill_arg option
     \<Rightarrow> (db, string \<times> pyfloat) eff" where
  "process_open x now uuid s fill_price =
     then_do (register_alpha now (o_alpha_id s) None)
     (bind get_state (\<lambda>d.
        if get_open_position_by_alpha_symbol d (o_alpha_id s) (o_symbol s) \<noteq> None
           \<and> x_duplicate_policy x = ''reject'' \<and> \<not> allows_duplicate_position s
        then throw (ValueError ''Alpha already has an open position'')
        else
          (let fill = (case fill_price of
                 Some f \<Rightarrow> f
               | None \<Rightarrow> Price (apply_slippage x (o_entry s) (o_side s) False));
               p = fill_value fill;
               position_id = (if o_position_id s = '''' then uuid else o_position_id s)
           in then_do (create_position position_id (o_alpha_id s) (o_signal_id s) (o_symbol s)
                         (o_side s) p (o_qty s) (o_timestamp s) (o_tp s) (o_sl s) (o_leverage s)
                         (merge_metadata (Some (o_metadata s))
                            ([(''decision_price'', JNum (o_entry s)),
                              (''recorded_fill_price'', JNum p)] @ execution_metadata fill))
                         (o_exchange s) (o_fee_pct s))
                (ret (position_id, p)))))"

section \<open>MODIFY\<close>

text \<open>The guard of the trailing stop: it may not move against the position.\<close>

definition against_position :: "string \<Rightarrow> pyfloat \<Rightarrow> pyfloat \<Rightarrow> bool" where
  "against_position side new_sl old_sl \<longleftrightarrow>
     (side = ''LONG'' \<and> new_sl < old_sl) \<or> (side = ''SHORT'' \<and> new_sl > old_sl)"

definition process_modify :: "modify_signal \<Rightarrow> (db, string) eff" where
  "process_modify s = bind get_state (\<lambda>d.
     case get_position d (m_position_id s) of
       None \<Rightarrow> throw (ValueError ''Position not found'')
     | Some pos \<Rightarrow>
         if (case (m_sl s, p_sl pos) of
               (Some new_sl, Some old_sl) \<Rightarrow> against_position (p_side pos) new_sl old_sl
             | _ \<Rightarrow> False)
         then throw (ValueError ''Trailing SL cannot move against position'')
         else then_do (modify_position (m_position_id s) (m_tp s) (m_sl s) (Some (m_metadata s)))
                (ret (m_position_id s)))"

section \<open>CLOSE\<close>

definition close_ref_price :: "close_signal \<Rightarrow> position \<Rightarrow> pyfloat option" where
  "close_ref_price s pos = (case c_exit_price s of
       None \<Rightarrow> p_entry pos
     | Some x \<Rightarrow> if truthy x then Some x else p_entry pos)"

definition close_ref_is_executable :: "close_signal \<Rightarrow> bool" where
  "close_ref_is_executable s = metadata_flag (c_metadata s) ''ref_is_executable''"

record close_result =
  cr_position_id :: string
  cr_exit_price :: pyfloat
  cr_closed :: bool
  cr_closed_qty :: pyfloat
  cr_remaining_qty :: pyfloat

text \<open>The quantity a CLOSE asks for, with the two guards on it.\<close>

definition checked_close_qty :: "close_signal \<Rightarrow> position \<Rightarrow> (pyfloat \<times> pyfloat) res" where
  "checked_close_qty s pos =
     res_bind (case c_qty s of None \<Rightarrow> need (p_qty pos) | Some q \<Rightarrow> Inr q) (\<lambda>close_qty.
     if close_qty \<le> Fin 0 then Inl (ValueError ''Close qty must be positive'')
     else res_bind (need (p_qty pos)) (\<lambda>open_qty.
       if close_qty > open_qty + Fin dust then Inl (ValueError ''Close qty exceeds open qty'')
       else Inr (close_qty, open_qty)))"

definition close_fill ::
  "exec_cfg \<Rightarrow> close_signal \<Rightarrow> position \<Rightarrow> fill_arg option \<Rightarrow> fill_arg res" where
  "close_fill x s pos fill_price = (case fill_price of
       Some f \<Rightarrow> Inr f
     | None \<Rightarrow> res_bind (need (close_ref_price s pos)) (\<lambda>raw_exit.
         Inr (Price (if close_ref_is_executable s then raw_exit
                     else apply_slippage x raw_exit (p_side pos) True))))"

definition process_close ::
  "exec_cfg \<Rightarrow> string \<Rightarrow> close_signal \<Rightarrow> fill_arg option \<Rightarrow> (db, close_result) eff" where
  "process_close x uuid s fill_price = bind get_state (\<lambda>d.
     case get_position d (c_position_id s) of
       None \<Rightarrow> throw (ValueError ''Position not found'')
     | Some pos \<Rightarrow>
         bind (lift_res (checked_close_qty s pos)) (\<lambda>(close_qty, open_qty).
         bind (lift_res (close_fill x s pos fill_price)) (\<lambda>fill.
         let p = fill_value fill;
             remaining_qty = pymax (open_qty - close_qty) (Fin 0)
         in then_do (close_position uuid (c_position_id s) p (c_reason s) (c_timestamp s)
                (Some (merge_metadata (Some (c_metadata s))
                   ([(''decision_price'', jopt JNum (close_ref_price s pos)),
                     (''recorded_fill_price'', JNum p), (''fill_price'', JNum p)]
                    @ execution_metadata fill)))
                (Some close_qty))
            (ret \<lparr>cr_position_id = c_position_id s, cr_exit_price = p,
                  cr_closed = (remaining_qty \<le> Fin dust), cr_closed_qty = close_qty,
                  cr_remaining_qty = remaining_qty\<rparr>))))"

section \<open>REGISTER_COLUMNS\<close>

definition process_register_columns ::
  "isotext \<Rightarrow> register_columns_signal \<Rightarrow> (db, string \<times> nat) eff" where
  "process_register_columns now s = (case jloads (r_columns s) of
       Inl _ \<Rightarrow> throw (ValueError ''Invalid columns JSON'')
     | Inr (JArr columns) \<Rightarrow>
         then_do (register_alpha now (r_alpha_id s) None)
         (then_do (register_alpha_columns (r_alpha_id s) columns)
            (ret (r_alpha_id s, length columns)))
     | Inr _ \<Rightarrow> throw (ValueError ''columns must be a JSON array''))"

section \<open>The take-profit / stop-loss pass\<close>

definition tpsl_trigger :: "position \<Rightarrow> pyfloat \<Rightarrow> (string \<times> pyfloat) option" where
  "tpsl_trigger pos current_price =
     (let hit = (\<lambda>level cmp. case level of Some l \<Rightarrow> cmp l | None \<Rightarrow> False);
          above = (\<lambda>l. current_price \<ge> l); below = (\<lambda>l. current_price \<le> l)
      in if p_side pos = ''LONG'' then
           (if hit (p_tp pos) above then Some (''TP_HIT'', the (p_tp pos))
            else if hit (p_sl pos) below then Some (''SL_HIT'', the (p_sl pos)) else None)
         else if p_side pos = ''SHORT'' then
           (if hit (p_tp pos) below then Some (''TP_HIT'', the (p_tp pos))
            else if hit (p_sl pos) above then Some (''SL_HIT'', the (p_sl pos)) else None)
         else None)"

record tpsl_env =
  te_price :: "string \<Rightarrow> string \<Rightarrow> price_quote option"
  te_resolver :: "(position \<Rightarrow> pyfloat \<Rightarrow> bool \<Rightarrow> fill_arg res) option"
  te_now :: "position \<Rightarrow> isotext"
  te_uuid :: "position \<Rightarrow> string"

record tpsl_hit =
  h_position_id :: string
  h_reason :: string
  h_exit_price :: pyfloat

text \<open>A failing resolver must not abort the pass: it falls back to the fixed percentage.\<close>

definition tpsl_fill :: "exec_cfg \<Rightarrow> tpsl_env \<Rightarrow> position \<Rightarrow> price_quote \<Rightarrow> fill_arg" where
  "tpsl_fill x env pos q =
     (let fixed = Price (apply_slippage x (price q) (p_side pos) True)
      in case te_resolver env of
           None \<Rightarrow> fixed
         | Some resolver \<Rightarrow>
             (case resolver pos (price q) (is_executable q) of Inl _ \<Rightarrow> fixed | Inr f \<Rightarrow> f))"

definition tpsl_metadata ::
  "string \<Rightarrow> pyfloat \<Rightarrow> price_quote \<Rightarrow> fill_arg \<Rightarrow> jtext" where
  "tpsl_metadata reason stop_price q fill = jdumps (JObj (dupdate
     [(''close_model'', JStr ''worker_tpsl_auto''), (''reason'', JStr reason),
      (''stop_price'', JNum stop_price), (''trigger_price'', JNum (price q)),
      (''raw_fill_price'', JNum (price q)), (''fill_price'', JNum (fill_value fill)),
      (''fill_reference_source'', JStr (quote_source q)),
      (''ref_is_executable'', JBool (is_executable q))]
     (execution_metadata fill)))"

definition tpsl_step :: "exec_cfg \<Rightarrow> tpsl_env \<Rightarrow> position \<Rightarrow> (db, tpsl_hit option) eff" where
  "tpsl_step x env pos = (case te_price env (p_symbol pos) (p_side pos) of
       None \<Rightarrow> ret None
     | Some q \<Rightarrow> (case tpsl_trigger pos (price q) of
         None \<Rightarrow> ret None
       | Some (reason, stop_price) \<Rightarrow>
           (let fill = tpsl_fill x env pos q
            in then_do (close_position (te_uuid env pos) (p_id pos) (fill_value fill) reason
                          (te_now env pos) (Some (tpsl_metadata reason stop_price q fill)) None)
                 (ret (Some \<lparr>h_position_id = p_id pos, h_reason = reason,
                             h_exit_price = fill_value fill\<rparr>)))))"

fun tpsl_pass :: "exec_cfg \<Rightarrow> tpsl_env \<Rightarrow> position list \<Rightarrow> (db, tpsl_hit list) eff" where
  "tpsl_pass x env [] = ret []"
| "tpsl_pass x env (p # ps) =
     bind (tpsl_step x env p) (\<lambda>h.
     bind (tpsl_pass x env ps) (\<lambda>hs.
     ret (case h of None \<Rightarrow> hs | Some hit \<Rightarrow> hit # hs)))"

definition check_tpsl_hits :: "exec_cfg \<Rightarrow> tpsl_env \<Rightarrow> (db, tpsl_hit list) eff" where
  "check_tpsl_hits x env = bind get_state (\<lambda>d. tpsl_pass x env (get_positions_with_tpsl d))"

section \<open>The invariants of the database are kept\<close>

lemma keeps_let: "keeps P (m v) \<Longrightarrow> keeps P (let y = v in m y)"
  by simp

lemma process_modify_wf [simp]: "keeps wf_db (process_modify s)"
  unfolding process_modify_def by (intro db_keeps) (auto intro!: db_keeps)

lemma process_close_wf [simp]: "keeps wf_db (process_close x u s f)"
  unfolding process_close_def
  by (intro db_keeps) (auto intro!: db_keeps simp: Let_def)

lemma process_register_columns_wf [simp]: "keeps wf_db (process_register_columns now s)"
  unfolding process_register_columns_def
  by (auto intro!: db_keeps split: sum.splits json.splits)

lemma tpsl_step_wf [simp]: "keeps wf_db (tpsl_step x env p)"
  unfolding tpsl_step_def
  by (intro db_keeps) (auto intro!: db_keeps simp: Let_def)

lemma tpsl_pass_wf [simp]: "keeps wf_db (tpsl_pass x env ps)"
  by (induction ps) (auto intro!: db_keeps)

lemma check_tpsl_hits_wf [simp]: "keeps wf_db (check_tpsl_hits x env)"
  unfolding check_tpsl_hits_def by (intro db_keeps) simp_all

lemma create_position_wf:
  assumes "wf_db d" and "a \<in> a_id ` set (alphas d)"
  shows "wf_db (snd (create_position k a g s side e q t tp sl l m ex f d))"
  using assms
  by (cases "sql_int l") (auto simp: create_position_def then_do_apply insert_position_def wf_db_def
      split: prod.splits sum.splits)

lemma process_open_wf [simp]: "keeps wf_db (process_open x now u s f)"
proof (rule keepsI)
  fix d
  assume wf: "wf_db d"
  define d1 where "d1 = snd (register_alpha now (o_alpha_id s) None d)"
  have r: "register_alpha now (o_alpha_id s) None d = (Inr (), d1)"
    by (simp add: d1_def register_alpha_def)
  have "wf_db d1" using keepsD [OF keeps_register_alpha wf] by (simp add: d1_def)
  moreover have "o_alpha_id s \<in> a_id ` set (alphas d1)"
    unfolding d1_def by (rule registered_after_register_alpha)
  ultimately show "wf_db (snd (process_open x now u s f d))"
    using create_position_wf [of d1 "o_alpha_id s"]
    by (auto simp: process_open_def then_do_apply r Let_def split: prod.splits sum.splits)
       (metis snd_conv)+
qed

end
