(* ===== verification/Lifecycle.thy ===== *)
theory Lifecycle
  imports Executor
begin

text \<open>
  What the executor guarantees of a position from its OPEN to its last CLOSE: the duplicate
  policy, the finiteness of what is stored, the trailing stop, the accounting of partial closes
  and the automatic closes.
\<close>

section \<open>OPEN\<close>

lemma process_open_rejects:
  assumes "get_open_position_by_alpha_symbol d (o_alpha_id s) (o_symbol s) = Some p"
    and "x_duplicate_policy x = ''reject''" and "\<not> allows_duplicate_position s"
  shows "fst (process_open x now u s f d) =
           Inl (ValueError ''Alpha already has an open position'')"
    and "positions (snd (process_open x now u s f d)) = positions d"
  using assms
  by (simp_all add: process_open_def then_do_apply register_alpha_def bind_def
      get_open_position_by_alpha_symbol_def)

text \<open>Whatever happens, an OPEN leaves the open positions alone or appends one row.\<close>

definition opened_row ::
  "open_signal \<Rightarrow> string \<Rightarrow> pyfloat \<Rightarrow> position \<Rightarrow> bool" where
  "opened_row s k fp p \<longleftrightarrow>
     p_id p = k \<and> p_alpha p = o_alpha_id s \<and> p_signal p = o_signal_id s
     \<and> p_symbol p = o_symbol s \<and> p_side p = o_side s \<and> p_entry p = sql_real fp
     \<and> p_qty p = sql_real (o_qty s) \<and> p_tp p = sql_opt (o_tp s) \<and> p_sl p = sql_opt (o_sl s)
     \<and> p_leverage p = o_leverage s \<and> p_opened p = o_timestamp s
     \<and> p_exchange p = o_exchange s \<and> p_fee_pct p = sql_real (o_fee_pct s)"

definition open_price :: "exec_cfg \<Rightarrow> open_signal \<Rightarrow> fill_arg option \<Rightarrow> pyfloat" where
  "open_price x s f = (case f of
       Some g \<Rightarrow> fill_value g
     | None \<Rightarrow> fixed_pct_fill (o_entry s) (o_side s) (x_slippage_pct x) False)"

definition open_id :: "string \<Rightarrow> open_signal \<Rightarrow> string" where
  "open_id u s = (if o_position_id s = '''' then u else o_position_id s)"

definition duplicate_blocked :: "exec_cfg \<Rightarrow> db \<Rightarrow> open_signal \<Rightarrow> bool" where
  "duplicate_blocked x d s \<longleftrightarrow>
     get_open_position_by_alpha_symbol d (o_alpha_id s) (o_symbol s) \<noteq> None
     \<and> x_duplicate_policy x = ''reject'' \<and> \<not> allows_duplicate_position s"

lemma process_open_cases:
  obtains e where "fst (process_open x now u s f d) = Inl e"
    "positions (snd (process_open x now u s f d)) = positions d"
  | p where "fst (process_open x now u s f d) = Inr (open_id u s, open_price x s f)"
    "positions (snd (process_open x now u s f d)) = positions d @ [p]"
    "opened_row s (open_id u s) (open_price x s f) p"
    "\<not> duplicate_blocked x d s" "\<forall>q \<in> set (positions d). p_id q \<noteq> open_id u s"
proof -
  define d1 where "d1 = snd (register_alpha now (o_alpha_id s) None d)"
  have r: "register_alpha now (o_alpha_id s) None d = (Inr (), d1)"
    by (simp add: d1_def register_alpha_def)
  have pd: "positions d1 = positions d" by (simp add: d1_def)
  have g: "get_open_position_by_alpha_symbol d1 = get_open_position_by_alpha_symbol d"
    by (simp add: get_open_position_by_alpha_symbol_def pd fun_eq_iff)
  consider "duplicate_blocked x d s"
    | "\<not> duplicate_blocked x d s" "sql_int (o_leverage s) = Inl OverflowError"
    | "\<not> duplicate_blocked x d s" "sql_int (o_leverage s) = Inr (o_leverage s)"
    by (cases "duplicate_blocked x d s"; cases "- (2 ^ 63) \<le> o_leverage s \<and> o_leverage s < 2 ^ 63")
      (simp_all add: sql_int_def)
  then show thesis
  proof cases
    case 1
    then show thesis
      by (intro that(1))
        (auto simp: process_open_def then_do_apply r g pd duplicate_blocked_def)
  next
    case 2
    then show thesis
      by (intro that(1) [of OverflowError])
        (auto simp: process_open_def then_do_apply r g pd duplicate_blocked_def
          create_position_def Let_def)
  next
    case 3
    then show thesis
    proof (cases "\<exists>q \<in> set (positions d). p_id q = open_id u s")
      case True
      with 3 show thesis
        by (intro that(1))
          (auto simp: process_open_def then_do_apply r g pd duplicate_blocked_def open_id_def
            create_position_def insert_position_def Let_def)
    next
      case False
      with 3 show thesis
        by (intro that(2))
          (auto simp: process_open_def then_do_apply r g pd duplicate_blocked_def open_id_def
            create_position_def insert_position_def Let_def opened_row_def open_price_def
            apply_slippage_def split: option.splits)
    qed
  qed
qed

text \<open>The metadata of the new row: what the signal brought and three keys of the execution.\<close>

definition execution_keys :: "string list" where
  "execution_keys = [''decision_price'', ''recorded_fill_price'', ''execution'']"

lemma process_open_metadata:
  assumes "process_open x now u s f d = (Inr r, d')"
  obtains p extra where "positions d' = positions d @ [p]" "opened_row s (open_id u s) (open_price x s f) p"
    "p_metadata p = Some (merge_metadata (Some (o_metadata s)) extra)" "set (keys extra) \<subseteq> set execution_keys"
proof -
  define extra where "extra = [(''decision_price'', JNum (o_entry s)), (''recorded_fill_price'', JNum (open_price x s f))]
    @ execution_metadata (case f of Some g \<Rightarrow> g | None \<Rightarrow> Price (open_price x s f))"
  have "set (keys extra) \<subseteq> set execution_keys"
    by (cases "case f of Some g \<Rightarrow> g | None \<Rightarrow> Price (open_price x s f)") (auto simp: extra_def execution_keys_def keys_def)
  moreover have "p_metadata (List.last (positions d')) = Some (merge_metadata (Some (o_metadata s)) extra)"
    using assms
    by (cases f) (auto simp: process_open_def create_position_def insert_position_def then_do_apply bind_def Let_def
        extra_def open_price_def apply_slippage_def register_alpha_def split: sum.splits if_splits)
  ultimately show thesis
    using assms by (cases rule: process_open_cases [of x now u s f d]) (auto intro: that)
qed

section \<open>One position per alpha and symbol\<close>

definition leg :: "position \<Rightarrow> string \<times> string" where
  "leg p = (p_alpha p, p_symbol p)"

definition single_leg :: "db \<Rightarrow> bool" where
  "single_leg d \<longleftrightarrow> distinct (map leg (positions d))"

lemma get_open_position_None:
  "get_open_position_by_alpha_symbol d a s = None \<longleftrightarrow> (a, s) \<notin> leg ` set (positions d)"
  by (auto simp: get_open_position_by_alpha_symbol_def find_None_iff' leg_def)

lemma process_open_single_leg:
  assumes "single_leg d" and "x_duplicate_policy x = ''reject''"
    and "\<not> allows_duplicate_position s"
  shows "single_leg (snd (process_open x now u s f d))"
proof (cases rule: process_open_cases [of x now u s f d])
  case (1 e)
  with assms(1) show ?thesis by (simp add: single_leg_def)
next
  case (2 p)
  from 2(4) assms(2,3) have "(o_alpha_id s, o_symbol s) \<notin> leg ` set (positions d)"
    by (simp add: duplicate_blocked_def get_open_position_None)
  moreover have "leg p = (o_alpha_id s, o_symbol s)"
    using 2(3) by (simp add: opened_row_def leg_def)
  ultimately show ?thesis using assms(1) 2(2) by (simp add: single_leg_def)
qed

lemma keeps_update_leg:
  assumes "\<And>p. leg (f p) = leg p"
  shows "keeps single_leg (update_positions k f)"
  unfolding update_positions_def
  by (rule keeps_modify) (simp add: single_leg_def map_update_field assms del: map_map)

lemma keeps_leg_simps [simp]:
  "keeps single_leg (delete_position k)" "keeps single_leg (insert_trade t)"
  by (auto simp: keeps_def single_leg_def delete_position_def insert_trade_def
      distinct_map_filter)

lemma modify_position_single_leg [simp]: "keeps single_leg (modify_position k tp sl m)"
  unfolding modify_position_def
  by (intro keeps_intros keeps_case_option keeps_if keeps_update_leg) (simp_all add: leg_def)

lemma close_position_single_leg [simp]: "keeps single_leg (close_position u k x r c m q)"
  unfolding close_position_def
  by (intro keeps_intros keeps_case_option)
    (auto intro!: keeps_intros keeps_case_option keeps_update_leg simp: leg_def split: option.splits)

lemma process_modify_single_leg [simp]: "keeps single_leg (process_modify s)"
  unfolding process_modify_def
  by (intro keeps_intros keeps_case_option) (auto intro!: keeps_intros keeps_case_option)

lemma process_close_single_leg [simp]: "keeps single_leg (process_close x u s f)"
  unfolding process_close_def
  by (intro keeps_intros keeps_case_option)
    (auto intro!: keeps_intros keeps_case_option simp: Let_def)

section \<open>Only finite prices and quantities are stored\<close>

definition finite_fill :: "fill_arg \<Rightarrow> bool" where
  "finite_fill f \<longleftrightarrow> isfinite (fill_value f)"

lemma open_price_finite:
  assumes "wf_signal (OpenSignal s)" and "isfinite (x_slippage_pct x)"
    and "\<And>g. f = Some g \<Longrightarrow> finite_fill g"
  shows "isfinite (open_price x s f)"
  using assms by (cases f) (auto simp: open_price_def finite_fill_def fixed_pct_fill_finite)

lemma process_open_finite:
  assumes "finite_db d" and "wf_signal (OpenSignal s)" and "isfinite (x_slippage_pct x)"
    and "\<And>g. f = Some g \<Longrightarrow> finite_fill g"
  shows "finite_db (snd (process_open x now u s f d))"
proof (cases rule: process_open_cases [of x now u s f d])
  case (1 e)
  with assms(1) show ?thesis by (simp add: finite_db_def)
next
  case (2 p)
  obtain a where "open_price x s f = Fin a"
    using open_price_finite [OF assms(2-4)] by auto
  moreover obtain b where "o_qty s = Fin b" using assms(2) by auto
  ultimately have "finite_position p"
    using 2(3) by (simp add: opened_row_def finite_position_def)
  with 2(2) assms(1) show ?thesis by (auto simp: finite_db_def)
qed

lemma keeps_update_finite:
  assumes "\<And>p. finite_position p \<Longrightarrow> finite_position (f p)"
  shows "keeps finite_db (update_positions k f)"
  unfolding update_positions_def
  by (rule keeps_modify) (auto simp: finite_db_def assms)

lemma keeps_finite_simps [simp]:
  "keeps finite_db (delete_position k)" "keeps finite_db (insert_trade t)"
  by (auto simp: keeps_def finite_db_def delete_position_def insert_trade_def)

lemma modify_position_finite [simp]: "keeps finite_db (modify_position k tp sl m)"
  unfolding modify_position_def
  by (intro keeps_intros keeps_case_option keeps_if keeps_update_finite)
    (simp_all add: finite_position_def)

lemma process_modify_finite [simp]: "keeps finite_db (process_modify s)"
  unfolding process_modify_def
  by (intro keeps_intros keeps_case_option) (auto intro!: keeps_intros keeps_case_option)

text \<open>A partial close writes back the rest of a finite quantity, whatever was asked for.\<close>

lemma close_quantities_finite:
  assumes "close_quantities (Fin a) q = Some (cq, rem)" and "q \<noteq> Some NaN"
  shows "isfinite cq" and "isfinite rem"
  using assms
  by (cases q; cases "the q"; auto simp: close_quantities_def pymin_def Let_def split: if_splits)+

lemma close_position_finite:
  assumes "finite_db d" and "\<And>v. q = Some v \<Longrightarrow> isfinite v"
  shows "finite_db (snd (close_position u k x r c m q d))"
proof (cases "get_position d k")
  case None
  with assms(1) show ?thesis by (simp add: close_position_missing)
next
  case (Some p)
  then have "finite_position p" using assms(1) get_position_Some by (auto simp: finite_db_def)
  then obtain a where a: "p_qty p = Some (Fin a)" by (auto simp: finite_position_def)
  have nan: "q \<noteq> Some NaN" using assms(2) by force
  show ?thesis
  proof (cases "closing_trade u p x r c m q")
    case (Inl e)
    with Some assms(1) show ?thesis by (simp add: close_position_def)
  next
    case (Inr v)
    have "isfinite rem" if "v = Some (t, rem)" for t rem
      using closing_trade_qty [of u p x r c m q t rem, OF _ a] Inr that
        close_quantities_finite(2) [OF _ nan] by metis
    then have "keeps finite_db
        (case v of None \<Rightarrow> ret () | Some (t, rem) \<Rightarrow> then_do (insert_trade t)
          (if rem \<le> Fin dust then delete_position k
           else bind (lift_res (merge_position_runtime_metadata (p_metadata p) m)) (\<lambda>md.
             update_positions k (\<lambda>p. p\<lparr>p_qty := sql_real rem, p_metadata := Some md\<rparr>))))"
      by (intro keeps_case_option)
        (auto intro!: keeps_intros keeps_update_finite simp: finite_position_def isfinite_iff
          split: prod.splits)
    from keepsD [OF this assms(1)] Some Inr show ?thesis
      by (simp only: close_position_def bind_get_state_apply option.case bind_lift_Inr_apply)
  qed
qed

lemma process_close_finite:
  assumes "finite_db d" and "wf_signal (CloseSignal s)"
  shows "finite_db (snd (process_close x u s f d))"
proof (cases "get_position d (c_position_id s)")
  case None
  with assms(1) show ?thesis by (simp add: process_close_def)
next
  case (Some p)
  then have "finite_position p" using assms(1) get_position_Some by (auto simp: finite_db_def)
  then have "isfinite cq" if "checked_close_qty s p = Inr (cq, oq)" for cq oq
    using that assms(2)
    by (auto simp: checked_close_qty_def res_bind_Inr_iff finite_position_def need_def
        split: option.splits if_splits)
  with Some close_position_finite [OF assms(1)] assms(1) show ?thesis
    by (auto simp: process_close_def bind_def then_do_apply Let_def lift_res_def
        split: prod.splits sum.splits) (metis option.inject snd_conv)+
qed

lemma tpsl_step_finite [simp]: "keeps finite_db (tpsl_step x env p)"
proof -
  have "keeps finite_db (close_position u k y r c m None)" for u k y r c m
    by (intro keepsI close_position_finite) simp_all
  then show ?thesis
    unfolding tpsl_step_def
    by (intro keeps_case_option) (auto intro!: keeps_intros simp: Let_def)
qed

lemma tpsl_pass_finite [simp]: "keeps finite_db (tpsl_pass x env ps)"
  by (induction ps) (auto intro!: keeps_intros)

section \<open>MODIFY: the trailing stop\<close>

definition tightened :: "string \<Rightarrow> real \<Rightarrow> real \<Rightarrow> bool" where
  "tightened side old new \<longleftrightarrow>
     (side = ''LONG'' \<longrightarrow> old \<le> new) \<and> (side = ''SHORT'' \<longrightarrow> new \<le> old)"

lemma process_modify_position:
  assumes "get_position d (m_position_id s) = Some pos"
  obtains e where "process_modify s d = (Inl e, d)"
  | md where "get_position (snd (process_modify s d)) (m_position_id s) =
      Some (pos\<lparr>p_tp := (case m_tp s of None \<Rightarrow> p_tp pos | Some y \<Rightarrow> sql_real y),
                p_sl := (case m_sl s of None \<Rightarrow> p_sl pos | Some y \<Rightarrow> sql_real y),
                p_metadata := md\<rparr>)"
    "fst (process_modify s d) = Inr (m_position_id s)"
    "\<And>new old. m_sl s = Some new \<Longrightarrow> p_sl pos = Some old \<Longrightarrow>
       \<not> against_position (p_side pos) new old"
proof (cases "\<exists>new old. m_sl s = Some new \<and> p_sl pos = Some old \<and>
    against_position (p_side pos) new old")
  case True
  with assms obtain e where "process_modify s d = (Inl e, d)" by (auto simp: process_modify_def)
  then show thesis by (rule that(1))
next
  case False
  then have g: "(case (m_sl s, p_sl pos) of (Some a, Some b) \<Rightarrow> against_position (p_side pos) a b
      | _ \<Rightarrow> False) = False"
    by (auto split: option.splits)
  let ?M = "modify_position (m_position_id s) (m_tp s) (m_sl s) (Some (m_metadata s))"
  have m: "process_modify s d = then_do ?M (ret (m_position_id s)) d"
    using assms g by (simp add: process_modify_def)
  show thesis
  proof (cases "merged_metadata d (m_position_id s) (Some (m_metadata s))")
    case (Inl e)
    with m have "process_modify s d = (Inl e, d)"
      by (simp add: then_do_apply modify_position_unfold)
    then show thesis by (rule that(1))
  next
    case (Inr v)
    show thesis
    proof (cases "m_tp s = None \<and> m_sl s = None \<and> v = None")
      case True
      with Inr m assms show thesis
        by (intro that(2) [of "p_metadata pos"]) (simp_all add: then_do_apply modify_position_unfold)
    next
      case c: False
      let ?f = "modified (m_tp s) (m_sl s) v"
      have u: "?M d = (Inr (), snd (update_positions (m_position_id s) ?f d))"
        using Inr c by (auto simp: modify_position_unfold update_positions_def)
      have "get_position (snd (update_positions (m_position_id s) ?f d)) (m_position_id s) =
          Some (?f pos)"
        by (rule get_position_updated [OF assms]) (simp add: modified_def)
      with u m False show thesis
        by (intro that(2)) (auto simp: then_do_apply modified_def)
    qed
  qed
qed

lemma process_modify_tightens:
  assumes "get_position d (m_position_id s) = Some pos" and "p_sl pos = Some (Fin old)"
    and "\<And>y. m_sl s = Some y \<Longrightarrow> isfinite y"
  shows "\<exists>p new. get_position (snd (process_modify s d)) (m_position_id s) = Some p \<and>
           p_sl p = Some (Fin new) \<and> tightened (p_side pos) old new"
  using assms(1)
proof (cases rule: process_modify_position)
  case 1
  with assms show ?thesis by (simp add: tightened_def)
next
  case (2 md)
  show ?thesis
  proof (cases "m_sl s")
    case None
    with 2 assms show ?thesis by (simp add: tightened_def)
  next
    case (Some y)
    with assms(3) obtain new where y: "y = Fin new" by auto
    with 2(3) [OF Some assms(2)] have "tightened (p_side pos) old new"
      by (auto simp: against_position_def tightened_def)
    with 2(1) Some y show ?thesis by simp
  qed
qed

section \<open>The automatic closes\<close>

definition fired :: "tpsl_env \<Rightarrow> position \<Rightarrow> bool" where
  "fired env p \<longleftrightarrow> (case te_price env (p_symbol p) (p_side p) of
       None \<Rightarrow> False | Some q \<Rightarrow> tpsl_trigger p (price q) \<noteq> None)"

definition positive_qty :: "position \<Rightarrow> bool" where
  "positive_qty p \<longleftrightarrow> (case p_qty p of Some (Fin a) \<Rightarrow> 0 < a | _ \<Rightarrow> False)"

lemma fired_has_level: "fired env p \<Longrightarrow> p_tp p \<noteq> None \<or> p_sl p \<noteq> None"
  by (auto simp: fired_def tpsl_trigger_def Let_def split: option.splits if_splits)

lemma full_close_positions:
  assumes "close_position u k x r c m None d = (Inr (), d')"
    and "get_position d k = Some p" and "finite_position p"
  shows "positions d' =
    (if positive_qty p then filter (\<lambda>p. p_id p \<noteq> k) (positions d) else positions d)"
proof -
  from assms(3) obtain a where a: "p_qty p = Some (Fin a)" by (auto simp: finite_position_def)
  from assms(1,2) a show ?thesis
    by (cases rule: close_position_effect)
      (auto simp: a positive_qty_def close_quantities_Fin split: if_splits)
qed

lemma tpsl_step_positions:
  assumes "tpsl_step x env p d = (Inr h, d')" and "get_position d (p_id p) = Some p"
    and "finite_position p"
  shows "positions d' = (if fired env p \<and> positive_qty p
           then filter (\<lambda>q. p_id q \<noteq> p_id p) (positions d) else positions d)"
    and "(h = None) = (\<not> fired env p)" and "\<And>y. h = Some y \<Longrightarrow> h_position_id y = p_id p"
  using assms full_close_positions [OF _ assms(2,3)]
  by (auto simp: tpsl_step_def fired_def then_do_apply Let_def
      split: option.splits prod.splits sum.splits)

lemma tpsl_pass_positions:
  assumes "tpsl_pass x env ps d = (Inr hs, d')" and "wf_db d" and "finite_db d"
    and "distinct (map p_id ps)" and "set ps \<subseteq> set (positions d)"
  shows "positions d' = filter (\<lambda>p. \<not> (p \<in> set ps \<and> fired env p \<and> positive_qty p)) (positions d)
    \<and> map h_position_id hs = map p_id (filter (fired env) ps)"
  using assms
proof (induction ps arbitrary: d hs)
  case Nil
  then show ?case by simp
next
  case (Cons p ps)
  from Cons.prems(1) obtain h d1 hs1 where s: "tpsl_step x env p d = (Inr h, d1)"
    and r: "tpsl_pass x env ps d1 = (Inr hs1, d')"
    and hs: "hs = (case h of None \<Rightarrow> hs1 | Some y \<Rightarrow> y # hs1)"
    by (auto simp: bind_def split: prod.splits sum.splits)
  have p: "p \<in> set (positions d)" using Cons.prems(5) by simp
  have g: "get_position d (p_id p) = Some p" using Cons.prems(2) p by (simp add: get_position_iff)
  have fp: "finite_position p" using Cons.prems(3) p by (simp add: finite_db_def)
  note st = tpsl_step_positions [OF s g fp]
  have "wf_db d1" using keepsD [OF tpsl_step_wf Cons.prems(2), of x env p] s by simp
  moreover have "finite_db d1" using keepsD [OF tpsl_step_finite Cons.prems(3), of x env p] s by simp
  moreover have "set ps \<subseteq> set (positions d1)"
  proof
    fix q
    assume "q \<in> set ps"
    then have "p_id q \<in> p_id ` set ps" by (rule imageI)
    with Cons.prems(4) have "p_id q \<noteq> p_id p" by auto
    moreover have "q \<in> set (positions d)" using \<open>q \<in> set ps\<close> Cons.prems(5) by auto
    ultimately
    show "q \<in> set (positions d1)" by (simp add: st(1))
  qed
  ultimately have IH: "positions d' =
      filter (\<lambda>p. \<not> (p \<in> set ps \<and> fired env p \<and> positive_qty p)) (positions d1)"
    "map h_position_id hs1 = map p_id (filter (fired env) ps)"
    using Cons.IH [OF r] Cons.prems(4) by auto
  have "q = p" if "q \<in> set (positions d)" "p_id q = p_id p" for q
    using that p Cons.prems(2) by (auto simp: wf_db_def distinct_map dest: inj_onD)
  then have "positions d' =
      filter (\<lambda>q. \<not> (q \<in> set (p # ps) \<and> fired env q \<and> positive_qty q)) (positions d)"
    unfolding IH(1) st(1) by (auto intro!: filter_cong)
  moreover have "map h_position_id hs = map p_id (filter (fired env) (p # ps))"
    using hs IH(2) st(2,3) by (auto split: option.splits)
  ultimately show ?case by simp
qed

text \<open>The pass removes exactly the positions whose level was reached, and reports those.\<close>

lemma check_tpsl_exact:
  assumes "check_tpsl_hits x env d = (Inr hs, d')" and "wf_db d" and "finite_db d"
  shows "positions d' = filter (\<lambda>p. \<not> (fired env p \<and> positive_qty p)) (positions d)"
    and "map h_position_id hs = map p_id (filter (fired env) (positions d))"
proof -
  have d: "distinct (map p_id (get_positions_with_tpsl d))"
    using assms(2) by (simp add: get_positions_with_tpsl_def wf_db_def distinct_map_filter)
  have "positions d' = filter (\<lambda>p. \<not> (p \<in> set (get_positions_with_tpsl d) \<and> fired env p \<and> positive_qty p)) (positions d)
    \<and> map h_position_id hs = map p_id (filter (fired env) (get_positions_with_tpsl d))"
    using assms d by (intro tpsl_pass_positions)
      (auto simp: check_tpsl_hits_def get_positions_with_tpsl_def)
  then show "positions d' = filter (\<lambda>p. \<not> (fired env p \<and> positive_qty p)) (positions d)"
    and "map h_position_id hs = map p_id (filter (fired env) (positions d))"
    by (auto simp: get_positions_with_tpsl_def intro!: filter_cong dest: fired_has_level
        intro: arg_cong [where f = "map p_id"])
qed

section \<open>CLOSE\<close>

lemma process_close_runs:
  assumes "process_close x u s f d = (Inr r, d')"
  obtains p cq oq pr m where "get_position d (c_position_id s) = Some p"
    "checked_close_qty s p = Inr (cq, oq)"
    "close_position u (c_position_id s) pr (c_reason s) (c_timestamp s) (Some m) (Some cq) d = (Inr (), d')"
    "cr_exit_price r = pr" "cr_closed_qty r = cq" "cr_remaining_qty r = pymax (oq - cq) (Fin 0)"
    "cr_closed r = (cr_remaining_qty r \<le> Fin dust)"
  using assms
  by (auto simp: process_close_def then_do_apply Let_def bind_def lift_res_def
      split: option.splits prod.splits sum.splits)

lemma checked_close_qty_Fin:
  assumes "p_qty p = Some (Fin a)" and "checked_close_qty s p = Inr (cq, oq)"
    and "\<And>v. c_qty s = Some v \<Longrightarrow> isfinite v"
  shows "oq = Fin a" and "\<exists>b. cq = Fin b \<and> 0 < b \<and> b \<le> a + dust"
  using assms
  by (auto simp: checked_close_qty_def res_bind_Inr_iff isfinite_iff split: option.splits if_splits)

lemma process_close_conserves:
  assumes "process_close x u s f d = (Inr r, d')" and "finite_db d" and "wf_signal (CloseSignal s)"
  shows "\<exists>b lost. cr_closed_qty r = Fin b \<and> 0 < b \<and> 0 \<le> lost \<and> lost \<le> dust \<and>
           closed_qty d' (c_position_id s) + open_qty d' (c_position_id s) + lost =
             closed_qty d (c_position_id s) + open_qty d (c_position_id s)"
  using assms(1)
proof (rule process_close_runs)
  fix p cq oq pr m
  assume p: "get_position d (c_position_id s) = Some p" and c: "checked_close_qty s p = Inr (cq, oq)"
    and r: "close_position u (c_position_id s) pr (c_reason s) (c_timestamp s) (Some m) (Some cq) d
      = (Inr (), d')" and q: "cr_closed_qty r = cq"
  obtain a where a: "p_qty p = Some (Fin a)"
    using p assms(2) get_position_Some [OF p] by (auto simp: finite_db_def finite_position_def)
  from checked_close_qty_Fin [OF a c] assms(3) obtain b where b: "cq = Fin b" "0 < b" by auto
  from close_position_conserves [OF r p a] b obtain lost where "0 \<le> lost" "lost \<le> dust"
    "closed_qty d' (c_position_id s) + open_qty d' (c_position_id s) + lost =
       closed_qty d (c_position_id s) + a"
    by auto
  moreover have "open_qty d (c_position_id s) = a" using p a by (simp add: open_qty_def)
  ultimately show ?thesis using b q by (intro exI [of _ b] exI [of _ lost]) simp
qed

lemma process_close_rejects:
  assumes "get_position d (c_position_id s) = Some p" and "checked_close_qty s p = Inl e"
  shows "process_close x u s f d = (Inl e, d)"
  using assms by (simp add: process_close_def)

text \<open>An OPEN of no quantity is accepted, and from then on every CLOSE of it is refused.\<close>

lemma zero_quantity_never_closes:
  assumes "get_position d (c_position_id s) = Some p" and "p_qty p = Some (Fin a)" and "a \<le> 0"
    and "\<And>v. c_qty s = Some v \<Longrightarrow> \<exists>b. v = Fin b \<and> (b \<le> 0 \<or> a + dust < b)"
  shows "\<exists>e. process_close x u s f d = (Inl (ValueError e), d)"
proof -
  have "\<exists>e. checked_close_qty s p = Inl (ValueError e)"
    using assms(2-4) by (cases "c_qty s") (auto simp: checked_close_qty_def)
  with process_close_rejects [OF assms(1)] show ?thesis by blast
qed

end
