(* ===== verification/Worker.thy ===== *)
theory Worker
  imports Lifecycle
begin

text \<open>
  The stream consumer: the counters of \<^verbatim>\<open>worker/app/metrics.py\<close> and, of
  \<^verbatim>\<open>worker/app/main.py\<close>, the choice of the fill service, \<open>process_signal_message\<close> and
  \<open>handle_signal_message\<close>.

  One message is handled at a time.  What the outside decides while it is handled is the
  record \<open>msg_env\<close>: the clock, the random id, the answers of the slippage service, whether the
  database was locked or the COMMIT failed, and whether the final XACK went through.  The
  publication of a position snapshot never raises; the model keeps the list of the alphas it was
  called for.
\<close>

section \<open>WorkerMetrics\<close>

record metrics =
  received_total :: int
  duplicate_skipped_total :: int
  parse_error_total :: int
  process_error_total :: int
  left_pending_total :: int
  xack_total :: int
  committed_by_type :: "(string, int) dict"
  parse_error_by_alpha :: "(string, int) dict"
  process_error_by_alpha :: "(string, int) dict"
  left_pending_by_alpha :: "(string, int) dict"

definition new_metrics :: metrics where
  "new_metrics = \<lparr>received_total = 0, duplicate_skipped_total = 0, parse_error_total = 0,
     process_error_total = 0, left_pending_total = 0, xack_total = 0, committed_by_type = [],
     parse_error_by_alpha = [], process_error_by_alpha = [], left_pending_by_alpha = []\<rparr>"

text \<open>\<open>d[k] = d.get(k, 0) + 1\<close>.\<close>

definition dinc :: "'k \<Rightarrow> ('k, int) dict \<Rightarrow> ('k, int) dict" where
  "dinc k d = dset k (dget d k 0 + 1) d"

datatype counter = Received | DuplicateSkipped | Xack

text \<open>\<open>inc(name, amount)\<close>, for the names the consumer uses.\<close>

fun inc :: "counter \<Rightarrow> int \<Rightarrow> metrics \<Rightarrow> metrics" where
  "inc Received n m = m\<lparr>received_total := received_total m + n\<rparr>"
| "inc DuplicateSkipped n m = m\<lparr>duplicate_skipped_total := duplicate_skipped_total m + n\<rparr>"
| "inc Xack n m = m\<lparr>xack_total := xack_total m + n\<rparr>"

definition inc_committed :: "string \<Rightarrow> metrics \<Rightarrow> metrics" where
  "inc_committed ty m = m\<lparr>committed_by_type := dinc ty (committed_by_type m)\<rparr>"

definition inc_parse_error :: "string \<Rightarrow> metrics \<Rightarrow> metrics" where
  "inc_parse_error a m = m\<lparr>parse_error_total := parse_error_total m + 1,
     parse_error_by_alpha := dinc a (parse_error_by_alpha m)\<rparr>"

definition inc_process_error :: "string \<Rightarrow> metrics \<Rightarrow> metrics" where
  "inc_process_error a m = m\<lparr>process_error_total := process_error_total m + 1,
     process_error_by_alpha := dinc a (process_error_by_alpha m)\<rparr>"

definition inc_left_pending :: "string \<Rightarrow> metrics \<Rightarrow> metrics" where
  "inc_left_pending a m = m\<lparr>left_pending_total := left_pending_total m + 1,
     left_pending_by_alpha := dinc a (left_pending_by_alpha m)\<rparr>"

definition committed_total :: "metrics \<Rightarrow> int" where
  "committed_total m = sum_list (map snd (committed_by_type m))"

definition accounted :: "metrics \<Rightarrow> int" where
  "accounted m = duplicate_skipped_total m + parse_error_total m + process_error_total m
     + committed_total m + left_pending_total m"

definition reconciles :: "metrics \<Rightarrow> bool" where
  "reconciles m \<longleftrightarrow> received_total m = accounted m"

lemma sum_dinc [simp]: "sum_list (map snd (dinc k d)) = sum_list (map snd d) + 1"
proof -
  have "sum_list (map snd (dset k v d)) = sum_list (map snd d) + v - dget d k 0" for v
    by (induction d) (auto simp: dget_def)
  then show ?thesis by (simp add: dinc_def)
qed

lemma accounted_incs [simp]:
  "accounted (inc Received n m) = accounted m"
  "accounted (inc DuplicateSkipped n m) = accounted m + n"
  "accounted (inc Xack n m) = accounted m"
  "accounted (inc_committed ty m) = accounted m + 1"
  "accounted (inc_parse_error a m) = accounted m + 1"
  "accounted (inc_process_error a m) = accounted m + 1"
  "accounted (inc_left_pending a m) = accounted m + 1"
  by (simp_all add: accounted_def committed_total_def inc_committed_def inc_parse_error_def
      inc_process_error_def inc_left_pending_def)

lemma received_incs [simp]:
  "received_total (inc Received n m) = received_total m + n"
  "received_total (inc DuplicateSkipped n m) = received_total m"
  "received_total (inc Xack n m) = received_total m"
  "received_total (inc_committed ty m) = received_total m"
  "received_total (inc_parse_error a m) = received_total m"
  "received_total (inc_process_error a m) = received_total m"
  "received_total (inc_left_pending a m) = received_total m"
  by (simp_all add: inc_committed_def inc_parse_error_def inc_process_error_def
      inc_left_pending_def)

declare inc.simps [simp del]

section \<open>The fill service\<close>

text \<open>
  \<open>run_consumer\<close> builds a \<open>FillService\<close> when the order book is enabled and a \<open>TickFillService\<close>
  on the ticker cache otherwise.  \<open>service_env\<close> is what a call meets: the RPC outcomes and
  clocks of the first, the cache and the clock of the second.
\<close>

datatype fill_service = BookFills breaker_cfg fill_cfg | TickFills pyfloat

record service_env =
  se_book :: fill_env
  se_cache :: ticker_cache
  se_now :: real

fun service_resolve ::
  "fill_service \<Rightarrow> service_env \<Rightarrow> string \<Rightarrow> string \<Rightarrow> string \<Rightarrow> pyfloat \<Rightarrow> pyfloat \<Rightarrow> bool \<Rightarrow> bool
     \<Rightarrow> (client_state, fill_resolution) eff" where
  "service_resolve (BookFills bcfg cfg) env exch smb side qty ref is_close ex =
     resolve bcfg cfg (se_book env) exch side qty ref is_close ex"
| "service_resolve (TickFills slip) env exch smb side qty ref is_close ex =
     ret (tick_resolve (se_now env) (se_cache env) slip smb side qty ref is_close ex)"

text \<open>
  The contract of a fill service, as the consumer and the automatic closes rely on it: in an
  acceptable configuration a fill for a finite reference price is a good one.
\<close>

locale fill_provider =
  fixes provide :: "'s \<Rightarrow> string \<Rightarrow> string \<Rightarrow> string \<Rightarrow> pyfloat \<Rightarrow> pyfloat \<Rightarrow> bool \<Rightarrow> bool
      \<Rightarrow> fill_resolution res"
    and acceptable :: "'s \<Rightarrow> bool"
  assumes provide_good: "acceptable s \<Longrightarrow> isfinite ref \<Longrightarrow>
    provide s exch smb side qty ref is_close ex = Inr f \<Longrightarrow> good_fill side is_close f"
begin

lemma provide_finite:
  "acceptable s \<Longrightarrow> isfinite ref \<Longrightarrow> provide s exch smb side qty ref is_close ex = Inr f \<Longrightarrow>
     finite_fill (Resolved f)"
  using provide_good by (auto simp: finite_fill_def good_fill_def)

lemma provide_adverse:
  assumes "acceptable s" and "isfinite ref"
    and "provide s exch smb side qty ref is_close ex = Inr f"
  shows "adverse_to (order_side_for side is_close) (initial_price f) (final_price f)"
  using provide_good [OF assms] by (auto simp: good_fill_def)

end

definition book_acceptable :: "fill_cfg \<Rightarrow> bool" where
  "book_acceptable cfg \<longleftrightarrow> isfinite (slippage_pct cfg) \<and> isfinite (min_adverse_bps cfg)"

lemma book_resolve_good:
  assumes "book_acceptable cfg" and "isfinite ref"
    and "fst (resolve bcfg cfg env exch side qty ref is_close ex c) = Inr f"
  shows "good_fill side is_close f"
proof -
  obtain c' where "resolve bcfg cfg env exch side qty ref is_close ex c = (Inr f, c')"
    using assms(3) by (metis prod.collapse)
  with assms(1,2) show ?thesis by (auto simp: book_acceptable_def intro: resolve_good)
qed

interpretation book_fills: fill_provider
  "\<lambda>(bcfg, cfg, env, c) exch smb side qty ref is_close ex.
     fst (resolve bcfg cfg env exch side qty ref is_close ex c)"
  "\<lambda>(bcfg, cfg, env, c). book_acceptable cfg"
  by unfold_locales (auto intro: book_resolve_good)

interpretation tick_fills: fill_provider
  "\<lambda>(now, cache, slip) exch smb side qty ref is_close ex.
     Inr (tick_resolve now cache slip smb side qty ref is_close ex)"
  "\<lambda>(now, cache, slip). ticker_finite cache \<and> isfinite slip"
  by unfold_locales (auto intro: tick_resolve_good)

fun service_acceptable :: "fill_service \<Rightarrow> service_env \<Rightarrow> bool" where
  "service_acceptable (BookFills bcfg cfg) env \<longleftrightarrow> book_acceptable cfg"
| "service_acceptable (TickFills slip) env \<longleftrightarrow> ticker_finite (se_cache env) \<and> isfinite slip"

interpretation service: fill_provider
  "\<lambda>(fs, env, c) exch smb side qty ref is_close ex.
     fst (service_resolve fs env exch smb side qty ref is_close ex c)"
  "\<lambda>(fs, env, c). service_acceptable fs env"
proof
  fix s :: "fill_service \<times> service_env \<times> client_state"
    and ref exch smb side qty is_close ex and f :: fill_resolution
  obtain fs env c where s: "s = (fs, env, c)" by (cases s)
  assume "case s of (fs, env, c) \<Rightarrow> service_acceptable fs env" and "isfinite ref"
    and "(case s of (fs, env, c) \<Rightarrow> \<lambda>exch smb side qty ref is_close ex.
           fst (service_resolve fs env exch smb side qty ref is_close ex c))
           exch smb side qty ref is_close ex = Inr f"
  then show "good_fill side is_close f"
    using book_fills.provide_good [of "(bc, cf, se_book env, c)" ref exch smb side qty is_close ex f
        for bc cf]
      tick_fills.provide_good [of "(se_now env, se_cache env, sl)" ref exch smb side qty is_close ex f
        for sl]
    by (cases fs) (auto simp: s)
qed

section \<open>The state of the consumer and what a message meets\<close>

record worker =
  wk_db :: db
  wk_metrics :: metrics
  wk_client :: client_state
  wk_published :: "string list"
  wk_acked :: "string list"

record worker_cfg =
  wc_exec :: exec_cfg
  wc_fills :: "fill_service option"
  wc_orderbook_enabled :: bool
  wc_exchanges :: "string list"
  wc_pre_subscribe :: bool

record msg_env =
  me_now :: isotext
  me_uuid :: string
  me_tx :: tx_outcome
  me_service :: service_env
  me_publish_ok :: bool
  me_wait :: string
  me_xack_ok :: bool

datatype signal_result =
    Opened string pyfloat
  | Modified string
  | Closed close_result
  | ColumnsRegistered string nat

definition upd_metrics :: "(metrics \<Rightarrow> metrics) \<Rightarrow> worker \<Rightarrow> worker" where
  "upd_metrics f w = w\<lparr>wk_metrics := f (wk_metrics w)\<rparr>"

definition on_db :: "(db, 'a) eff \<Rightarrow> (worker, 'a) eff" where
  "on_db m = (\<lambda>w. case m (wk_db w) of (r, d) \<Rightarrow> (r, w\<lparr>wk_db := d\<rparr>))"

text \<open>\<open>async with db.transaction()\<close> around a body that also counts: only the tables roll back.\<close>

definition worker_transaction :: "tx_outcome \<Rightarrow> (worker, 'a) eff \<Rightarrow> (worker, 'a) eff" where
  "worker_transaction tx m = (\<lambda>w.
     if tx = BeginLocked then (Inl (OperationalError ''database is locked''), w)
     else case m w of
         (Inl e, w') \<Rightarrow> (Inl e, w'\<lparr>wk_db := wk_db w\<rparr>)
       | (Inr x, w') \<Rightarrow>
           if tx = CommitFails
           then (Inl (OperationalError ''commit failed''), w'\<lparr>wk_db := wk_db w\<rparr>)
           else (Inr x, w'))"

section \<open>process_signal_message\<close>

definition pre_open :: "worker_cfg \<Rightarrow> msg_env \<Rightarrow> open_signal \<Rightarrow> string" where
  "pre_open cfg env s =
     (if \<not> wc_pre_subscribe cfg \<or> lower (o_exchange s) \<notin> set (wc_exchanges cfg)
      then ''unsupported_exchange''
      else if \<not> me_publish_ok env then ''pre_subscribe_publish_failed''
      else me_wait env)"

definition open_fill ::
  "worker_cfg \<Rightarrow> msg_env \<Rightarrow> fill_service \<Rightarrow> open_signal \<Rightarrow> (client_state, fill_resolution) eff" where
  "open_fill cfg env fs s =
     bind (service_resolve fs (me_service env) (o_exchange s) (o_symbol s) (o_side s) (o_qty s)
             (o_entry s) False False) (\<lambda>f.
     ret (if wc_orderbook_enabled cfg \<and> pre_open cfg env s \<noteq> ''''
          then f\<lparr>pre_subscribe_outcome := Some (pre_open cfg env s)\<rparr> else f))"

definition close_fill_for ::
  "msg_env \<Rightarrow> fill_service \<Rightarrow> close_signal \<Rightarrow> position \<Rightarrow> (client_state, fill_resolution) eff" where
  "close_fill_for env fs s pos =
     bind (lift_res (need (close_ref_price s pos))) (\<lambda>raw_exit.
     bind (lift_res (case c_qty s of
             None \<Rightarrow> need (p_qty pos)
           | Some q \<Rightarrow> if q > Fin 0 then Inr q else need (p_qty pos))) (\<lambda>qty.
     service_resolve fs (me_service env) (p_exchange pos) (p_symbol pos) (p_side pos) qty raw_exit
       True (close_ref_is_executable s)))"

text \<open>
  The fill is resolved outside the transaction.  Any exception on the way means \<open>None\<close>, and the
  executor falls back to the fixed percentage.  (A NULL entry price without an exit price counts
  as such an exception.)
\<close>

definition fill_for ::
  "worker_cfg \<Rightarrow> msg_env \<Rightarrow> signal \<Rightarrow> db \<Rightarrow> client_state \<Rightarrow> fill_arg option \<times> client_state" where
  "fill_for cfg env sig d c =
     (let attempt = (\<lambda>m. case m c of (Inl e, c') \<Rightarrow> (None, c') | (Inr f, c') \<Rightarrow> (Some (Resolved f), c'))
      in case wc_fills cfg of
           None \<Rightarrow> (None, c)
         | Some fs \<Rightarrow> (case sig of
               OpenSignal s \<Rightarrow> attempt (open_fill cfg env fs s)
             | CloseSignal s \<Rightarrow> (case get_position d (c_position_id s) of
                   None \<Rightarrow> (None, c)
                 | Some pos \<Rightarrow> attempt (close_fill_for env fs s pos))
             | _ \<Rightarrow> (None, c)))"

definition resolve_step :: "worker_cfg \<Rightarrow> msg_env \<Rightarrow> signal \<Rightarrow> (worker, fill_arg option) eff" where
  "resolve_step cfg env sig = (\<lambda>w.
     case fill_for cfg env sig (wk_db w) (wk_client w) of (f, c) \<Rightarrow> (Inr f, w\<lparr>wk_client := c\<rparr>))"

text \<open>The call of the executor.\<close>

definition execute ::
  "worker_cfg \<Rightarrow> msg_env \<Rightarrow> signal \<Rightarrow> fill_arg option \<Rightarrow> (db, signal_result) eff" where
  "execute cfg env sig fill = (case sig of
       OpenSignal s \<Rightarrow>
         bind (process_open (wc_exec cfg) (me_now env) (me_uuid env) s fill)
           (\<lambda>(k, p). ret (Opened k p))
     | ModifySignal s \<Rightarrow> bind (process_modify s) (\<lambda>k. ret (Modified k))
     | CloseSignal s \<Rightarrow>
         bind (process_close (wc_exec cfg) (me_uuid env) s fill) (\<lambda>r. ret (Closed r))
     | RegisterColumnsSignal s \<Rightarrow>
         bind (process_register_columns (me_now env) s) (\<lambda>(a, n). ret (ColumnsRegistered a n)))"

definition wire_signal_id :: "wire \<Rightarrow> string" where
  "wire_signal_id data = field_or data ''signal_id'' ''unknown''"

definition wire_alpha_id :: "wire \<Rightarrow> string" where
  "wire_alpha_id data = field_or data ''alpha_id'' ''unknown''"

definition wire_type :: "wire \<Rightarrow> string" where
  "wire_type data = field_or data ''type'' ''unknown''"

definition log_wire :: "msg_env \<Rightarrow> wire \<Rightarrow> (db, unit) eff" where
  "log_wire env data = log_signal (me_now env) (wire_signal_id data) (wire_alpha_id data)
     (wire_type data) data"

text \<open>
  The body of the transaction: an exception of the executor is recorded on the signal and
  swallowed, so that what it wrote before it raised is committed with the record.
\<close>

definition process_body ::
  "worker_cfg \<Rightarrow> msg_env \<Rightarrow> wire \<Rightarrow> signal \<Rightarrow> fill_arg option
     \<Rightarrow> (worker, signal_result option) eff" where
  "process_body cfg env data sig fill =
     then_do (on_db (log_wire env data))
     (catch
       (bind (on_db (execute cfg env sig fill)) (\<lambda>result.
        then_do (on_db (mark_signal_processed (wire_signal_id data) None))
        (then_do (modify (upd_metrics (inc_committed (wire_type data))))
          (ret (Some result)))))
       (\<lambda>e.
        then_do (modify (upd_metrics (inc_process_error (wire_alpha_id data))))
        (then_do (on_db (mark_signal_processed (wire_signal_id data) (Some e)))
          (ret None))))"

definition publish_after_commit :: "string \<Rightarrow> (worker, unit) eff" where
  "publish_after_commit alpha_id = modify (\<lambda>w. w\<lparr>wk_published := wk_published w @ [alpha_id]\<rparr>)"

definition process_signal_message ::
  "worker_cfg \<Rightarrow> msg_env \<Rightarrow> wire \<Rightarrow> (worker, signal_result option) eff" where
  "process_signal_message cfg env data =
     then_do (modify (upd_metrics (inc Received 1)))
     (bind get_state (\<lambda>w.
        if wire_signal_id data \<noteq> ''unknown'' \<and> signal_processed (wk_db w) (wire_signal_id data)
        then then_do (modify (upd_metrics (inc DuplicateSkipped 1))) (ret None)
        else case parse_signal data of
            Inl exc \<Rightarrow>
              then_do (modify (upd_metrics (inc_parse_error (wire_alpha_id data))))
              (worker_transaction (me_tx env)
                (then_do (on_db (log_wire env data))
                (then_do (on_db (mark_signal_processed (wire_signal_id data) (Some exc)))
                  (ret None))))
          | Inr sig \<Rightarrow>
              bind (resolve_step cfg env sig) (\<lambda>fill.
              bind (worker_transaction (me_tx env) (process_body cfg env data sig fill)) (\<lambda>result.
              if result \<noteq> None \<and> signal_type_of sig \<in> {OPEN, MODIFY, CLOSE}
              then then_do (publish_after_commit (signal_alpha sig)) (ret result)
              else ret result))))"

section \<open>handle_signal_message\<close>

definition xack :: "msg_env \<Rightarrow> string \<Rightarrow> (worker, unit) eff" where
  "xack env msg_id = (if me_xack_ok env
     then modify (\<lambda>w. w\<lparr>wk_acked := wk_acked w @ [msg_id]\<rparr>) else throw RedisError)"

text \<open>
  The book subscription published after an OPEN touches nothing of this state and its failures
  are swallowed; it is left out.
\<close>

definition handle_signal_message ::
  "worker_cfg \<Rightarrow> msg_env \<Rightarrow> string \<Rightarrow> wire \<Rightarrow> (worker, unit) eff" where
  "handle_signal_message cfg env msg_id data =
     catch
       (bind (process_signal_message cfg env data) (\<lambda>result.
        then_do (xack env msg_id)
          (modify (upd_metrics (inc Xack 1)))))
       (\<lambda>e. modify (upd_metrics (inc_left_pending (wire_alpha_id data))))"

text \<open>The loop over a batch of messages.\<close>

fun consume :: "worker_cfg \<Rightarrow> (msg_env \<times> string \<times> wire) list \<Rightarrow> (worker, unit) eff" where
  "consume cfg [] = ret ()"
| "consume cfg ((env, msg_id, data) # ms) =
     then_do (handle_signal_message cfg env msg_id data) (consume cfg ms)"

section \<open>One message, by cases\<close>

definition logged :: "msg_env \<Rightarrow> wire \<Rightarrow> db \<Rightarrow> db" where
  "logged env data d = snd (log_wire env data d)"

definition marked :: "wire \<Rightarrow> exn option \<Rightarrow> db \<Rightarrow> db" where
  "marked data err d = snd (mark_signal_processed (wire_signal_id data) err d)"

lemma log_wire_apply: "log_wire env data d = (Inr (), logged env data d)"
  by (simp add: logged_def log_wire_def log_signal_def)

lemma mark_apply: "mark_signal_processed (wire_signal_id data) err d = (Inr (), marked data err d)"
  by (simp add: marked_def mark_signal_processed_def)

lemma on_db_apply: "on_db m w = (fst (m (wk_db w)), w\<lparr>wk_db := snd (m (wk_db w))\<rparr>)"
  by (simp add: on_db_def split: prod.splits)

lemma process_body_apply:
  "process_body cfg env data sig fill w =
     (case execute cfg env sig fill (logged env data (wk_db w)) of
        (Inr r, d) \<Rightarrow> (Inr (Some r), w\<lparr>wk_db := marked data None d,
            wk_metrics := inc_committed (wire_type data) (wk_metrics w)\<rparr>)
      | (Inl e, d) \<Rightarrow> (Inr None, w\<lparr>wk_db := marked data (Some e) d,
            wk_metrics := inc_process_error (wire_alpha_id data) (wk_metrics w)\<rparr>))"
  by (simp add: process_body_def then_do_apply bind_def catch_def on_db_apply log_wire_apply
      mark_apply upd_metrics_def split: prod.splits sum.splits)

text \<open>
  What one call of \<open>process_signal_message\<close> does to the tables and the counters, in the five
  ways it can go: a duplicate, a parse error, a failed transaction, a committed signal and a
  recorded processing error.
\<close>

lemma resolve_step_apply:
  "resolve_step cfg env sig w = (Inr (fst (fill_for cfg env sig (wk_db w) (wk_client w))),
     w\<lparr>wk_client := snd (fill_for cfg env sig (wk_db w) (wk_client w))\<rparr>)"
  by (simp add: resolve_step_def split: prod.splits)

definition seen :: "wire \<Rightarrow> worker \<Rightarrow> bool" where
  "seen data w \<longleftrightarrow>
     wire_signal_id data \<noteq> ''unknown'' \<and> signal_processed (wk_db w) (wire_signal_id data)"

lemma process_message_cases:
  obtains
    (duplicate) w' where "process_signal_message cfg env data w = (Inr None, w')" "seen data w"
      "wk_db w' = wk_db w" "wk_acked w' = wk_acked w"
      "wk_metrics w' = inc DuplicateSkipped 1 (inc Received 1 (wk_metrics w))"
  | (unparsable) exc w' where "process_signal_message cfg env data w = (Inr None, w')"
      "\<not> seen data w" "parse_signal data = Inl exc" "me_tx env = TxOk"
      "wk_db w' = marked data (Some exc) (logged env data (wk_db w))" "wk_acked w' = wk_acked w"
      "wk_metrics w' = inc_parse_error (wire_alpha_id data) (inc Received 1 (wk_metrics w))"
  | (failed) e w' where "process_signal_message cfg env data w = (Inl e, w')"
      "\<not> seen data w" "me_tx env \<noteq> TxOk"
      "wk_db w' = wk_db w" "wk_acked w' = wk_acked w"
      "received_total (wk_metrics w') = received_total (wk_metrics w) + 1"
      "accounted (wk_metrics w') = accounted (wk_metrics w)
         + (if me_tx env = CommitFails \<or> isl (parse_signal data) then 1 else 0)"
  | (committed) sig fill r d w' where "process_signal_message cfg env data w = (Inr (Some r), w')"
      "\<not> seen data w" "parse_signal data = Inr sig" "me_tx env = TxOk"
      "fill = fst (fill_for cfg env sig (wk_db w) (wk_client w))"
      "execute cfg env sig fill (logged env data (wk_db w)) = (Inr r, d)"
      "wk_db w' = marked data None d" "wk_acked w' = wk_acked w"
      "wk_metrics w' = inc_committed (wire_type data) (inc Received 1 (wk_metrics w))"
  | (rejected) sig fill e d w' where "process_signal_message cfg env data w = (Inr None, w')"
      "\<not> seen data w" "parse_signal data = Inr sig" "me_tx env = TxOk"
      "fill = fst (fill_for cfg env sig (wk_db w) (wk_client w))"
      "execute cfg env sig fill (logged env data (wk_db w)) = (Inl e, d)"
      "wk_db w' = marked data (Some e) d" "wk_acked w' = wk_acked w"
      "wk_metrics w' = inc_process_error (wire_alpha_id data) (inc Received 1 (wk_metrics w))"
proof (cases "seen data w")
  case True
  then show thesis
    by (intro duplicate [of "snd (process_signal_message cfg env data w)"])
      (auto simp: process_signal_message_def seen_def upd_metrics_def)
next
  case new: False
  show thesis
  proof (cases "parse_signal data")
    case (Inl exc)
    show thesis
    proof (cases "me_tx env")
      case TxOk
      with new Inl show thesis
        by (intro unparsable [of "snd (process_signal_message cfg env data w)"]) (auto simp: process_signal_message_def seen_def upd_metrics_def
            worker_transaction_def then_do_apply on_db_apply log_wire_apply mark_apply)
    next
      case BeginLocked
      with new Inl show thesis
        by (intro failed [of _ "snd (process_signal_message cfg env data w)"])
          (auto simp: process_signal_message_def seen_def upd_metrics_def worker_transaction_def
            then_do_apply on_db_apply log_wire_apply mark_apply)
    next
      case CommitFails
      with new Inl show thesis
        by (intro failed [of _ "snd (process_signal_message cfg env data w)"])
          (auto simp: process_signal_message_def seen_def upd_metrics_def worker_transaction_def
            then_do_apply on_db_apply log_wire_apply mark_apply)
    qed
  next
    case (Inr sig)
    define fill where "fill = fst (fill_for cfg env sig (wk_db w) (wk_client w))"
    obtain o1 d where ex: "execute cfg env sig fill (logged env data (wk_db w)) = (o1, d)"
      by (cases "execute cfg env sig fill (logged env data (wk_db w))")
    note defs = process_signal_message_def seen_def upd_metrics_def worker_transaction_def
      resolve_step_apply process_body_apply bind_def publish_after_commit_def
    show thesis
    proof (cases "me_tx env")
      case TxOk
      show thesis
      proof (cases o1)
        case e: (Inl e)
        with new Inr TxOk ex show thesis
          by (intro rejected [of "snd (process_signal_message cfg env data w)", OF _ _ Inr _ fill_def]) (auto simp: defs simp flip: fill_def)
      next
        case r: (Inr r)
        with new Inr TxOk ex show thesis
          by (intro committed [of _ "snd (process_signal_message cfg env data w)", OF _ _ Inr _ fill_def]) (auto simp: defs simp flip: fill_def)
      qed
    next
      case BeginLocked
      with new Inr show thesis
        by (intro failed [of _ "snd (process_signal_message cfg env data w)"]) (auto simp: defs)
    next
      case CommitFails
      with new Inr ex show thesis
        by (cases o1; intro failed [of _ "snd (process_signal_message cfg env data w)"])
          (auto simp: defs simp flip: fill_def)
    qed
  qed
qed

section \<open>One message handled: the counters and the acknowledgement\<close>

definition processed_ok :: "msg_env \<Rightarrow> wire \<Rightarrow> worker \<Rightarrow> bool" where
  "processed_ok env data w \<longleftrightarrow> seen data w \<or> me_tx env = TxOk"

text \<open>When one message is counted in two buckets.\<close>

definition double_counted :: "msg_env \<Rightarrow> wire \<Rightarrow> worker \<Rightarrow> bool" where
  "double_counted env data w \<longleftrightarrow>
     (if processed_ok env data w then \<not> me_xack_ok env
      else me_tx env = CommitFails \<or> isl (parse_signal data))"

lemma process_message_ok:
  "(\<exists>r. fst (process_signal_message cfg env data w) = Inr r) \<longleftrightarrow> processed_ok env data w"
  by (cases rule: process_message_cases [of cfg env data w]) (auto simp: processed_ok_def)

lemma process_message_acked: "wk_acked (snd (process_signal_message cfg env data w)) = wk_acked w"
  by (cases rule: process_message_cases [of cfg env data w]) auto

lemma process_message_counts:
  "received_total (wk_metrics (snd (process_signal_message cfg env data w))) =
     received_total (wk_metrics w) + 1"
  "accounted (wk_metrics (snd (process_signal_message cfg env data w))) =
     accounted (wk_metrics w)
     + (if processed_ok env data w \<or> me_tx env = CommitFails \<or> isl (parse_signal data) then 1 else 0)"
  by (cases rule: process_message_cases [of cfg env data w]; auto simp: processed_ok_def)+

text \<open>What the handler adds to what \<open>process_signal_message\<close> did.\<close>

lemma handle_apply:
  "handle_signal_message cfg env msg_id data w =
     (let w1 = snd (process_signal_message cfg env data w)
      in if processed_ok env data w \<and> me_xack_ok env
         then (Inr (), w1\<lparr>wk_acked := wk_acked w1 @ [msg_id],
                 wk_metrics := inc Xack 1 (wk_metrics w1)\<rparr>)
         else (Inr (), w1\<lparr>wk_metrics := inc_left_pending (wire_alpha_id data) (wk_metrics w1)\<rparr>))"
proof -
  obtain r w1 where p: "process_signal_message cfg env data w = (r, w1)"
    by (cases "process_signal_message cfg env data w")
  have "(\<exists>x. r = Inr x) \<longleftrightarrow> processed_ok env data w"
    using process_message_ok [of cfg env data w] p by simp
  then show ?thesis
    by (cases r) (auto simp: handle_signal_message_def catch_def bind_def then_do_apply xack_def
        upd_metrics_def p)
qed

lemma handle_never_raises: "fst (handle_signal_message cfg env msg_id data w) = Inr ()"
  by (simp add: handle_apply Let_def)

lemma handle_db:
  "wk_db (snd (handle_signal_message cfg env msg_id data w)) =
     wk_db (snd (process_signal_message cfg env data w))"
  by (simp add: handle_apply Let_def)

lemma handle_counts:
  "received_total (wk_metrics (snd (handle_signal_message cfg env msg_id data w))) =
     received_total (wk_metrics w) + 1"
  "accounted (wk_metrics (snd (handle_signal_message cfg env msg_id data w))) =
     accounted (wk_metrics w) + 1 + (if double_counted env data w then 1 else 0)"
  by (auto simp: handle_apply Let_def process_message_counts double_counted_def)

lemma handle_acked:
  "wk_acked (snd (handle_signal_message cfg env msg_id data w)) =
     wk_acked w @ (if processed_ok env data w \<and> me_xack_ok env then [msg_id] else [])"
  by (simp add: handle_apply Let_def process_message_acked)

section \<open>The record of a signal\<close>

lemma signal_processed_marked_iff:
  "signal_processed (marked data err d) sid \<longleftrightarrow>
     (\<exists>g \<in> set (signals d). g_signal g = sid \<and> (g_processed g \<or> sid = wire_signal_id data))"
proof -
  let ?f = "\<lambda>g. if g_signal g = wire_signal_id data
    then g\<lparr>g_processed := True, g_error := err\<rparr> else g"
  have "(\<exists>g \<in> ?f ` set (signals d). g_signal g = sid \<and> g_processed g) \<longleftrightarrow>
    (\<exists>g \<in> set (signals d). g_signal (?f g) = sid \<and> g_processed (?f g))"
    by blast
  also have "\<dots> \<longleftrightarrow> (\<exists>g \<in> set (signals d). g_signal g = sid \<and>
      (g_processed g \<or> sid = wire_signal_id data))"
    by (rule bex_cong) auto
  finally show ?thesis
    by (simp add: signal_processed_def marked_def mark_signal_processed_def
        del: if_image_distrib)
qed

lemma signal_processed_marked:
  "signal_processed (marked data err d) (wire_signal_id data)
     \<longleftrightarrow> (\<exists>g \<in> set (signals d). g_signal g = wire_signal_id data)"
  by (simp add: signal_processed_marked_iff)

lemma signal_processed_marked_other:
  assumes "signal_processed d sid"
  shows "signal_processed (marked data err d) sid"
proof -
  obtain g where "g \<in> set (signals d)" "g_signal g = sid" "g_processed g"
    using assms by (auto simp: signal_processed_def)
  then show ?thesis by (subst signal_processed_marked_iff) auto
qed

lemma logged_signal: "\<exists>g \<in> set (signals (logged env data d)). g_signal g = wire_signal_id data"
  by (simp add: logged_def log_wire_def log_signal_def)

lemma logged_signals: "set (signals d) \<subseteq> set (signals (logged env data d))"
  by (auto simp: logged_def log_wire_def log_signal_def)

text \<open>The executor never touches the signal log.\<close>

definition same_log :: "signal_row list \<Rightarrow> db \<Rightarrow> bool" where
  "same_log g d \<longleftrightarrow> signals d = g"

lemma same_log_ops [simp]:
  "keeps (same_log g) (register_alpha now a n)"
  "keeps (same_log g) (insert_position p)"
  "keeps (same_log g) (insert_trade t)"
  "keeps (same_log g) (update_positions k f)"
  "keeps (same_log g) (delete_position k)"
  by (auto simp: keeps_def same_log_def register_alpha_def insert_position_def insert_trade_def
      update_positions_def delete_position_def)

lemmas log_keeps = keeps_intros keeps_case_option keeps_if

lemma create_position_log [simp]:
  "keeps (same_log g) (create_position k a s y sd e q t tp sl l m ex f)"
  unfolding create_position_def by (intro log_keeps) simp_all

lemma modify_position_log [simp]: "keeps (same_log g) (modify_position k tp sl m)"
  unfolding modify_position_def by (intro log_keeps) simp_all

lemma close_position_log [simp]: "keeps (same_log g) (close_position u k x r c m q)"
  unfolding close_position_def
  by (intro log_keeps) (auto intro!: log_keeps split: option.splits)

lemma insert_column_log [simp]: "keeps (same_log g) (insert_column a i c)"
  unfolding insert_column_def by (intro log_keeps) (auto simp: keeps_def same_log_def)

lemma register_alpha_columns_log [simp]: "keeps (same_log g) (register_alpha_columns a cs)"
  unfolding register_alpha_columns_def delete_columns_def
  by (intro log_keeps) (auto simp: same_log_def split: prod.splits)

lemma execute_log: "keeps (same_log g) (execute cfg env sig fill)"
  unfolding execute_def process_open_def process_modify_def process_close_def
    process_register_columns_def
  by (cases sig) (auto intro!: log_keeps simp: Let_def split: sum.splits json.splits)

lemma execute_signals:
  "execute cfg env sig fill d = (r, d') \<Longrightarrow> signals d' = signals d"
  using keepsD [OF execute_log, of "signals d" d cfg env sig fill] by (simp add: same_log_def)

text \<open>A message that was processed is on record as processed; nothing else is forgotten.\<close>

lemma process_message_recorded:
  assumes "processed_ok env data w" and "wire_signal_id data \<noteq> ''unknown''"
  shows "signal_processed (wk_db (snd (process_signal_message cfg env data w))) (wire_signal_id data)"
proof (cases rule: process_message_cases [of cfg env data w])
  case duplicate
  then show ?thesis by (simp add: seen_def)
next
  case unparsable
  then show ?thesis using logged_signal by (simp add: signal_processed_marked)
next
  case failed
  with assms show ?thesis by (simp add: processed_ok_def)
next
  case committed
  then show ?thesis
    using logged_signal execute_signals [OF committed(6)] by (simp add: signal_processed_marked)
next
  case rejected
  then show ?thesis
    using logged_signal execute_signals [OF rejected(6)] by (simp add: signal_processed_marked)
qed

lemma signal_processed_mono:
  "set (signals d) \<subseteq> set (signals d') \<Longrightarrow> signal_processed d sid \<Longrightarrow> signal_processed d' sid"
  by (auto simp: signal_processed_def)

lemma process_message_remembers:
  assumes "signal_processed (wk_db w) sid"
  shows "signal_processed (wk_db (snd (process_signal_message cfg env data w))) sid"
proof -
  have l: "signal_processed (logged env data (wk_db w)) sid"
    by (rule signal_processed_mono [OF logged_signals assms])
  have "signal_processed d sid" if "signals d = signals (logged env data (wk_db w))" for d
    using l that by (simp add: signal_processed_def)
  with l assms show ?thesis
    by (cases rule: process_message_cases [of cfg env data w])
      (auto simp: signal_processed_marked_other dest: execute_signals)
qed

text \<open>A second delivery of a message changes nothing but the counters.\<close>

lemma process_message_duplicate:
  "seen data w \<Longrightarrow> wk_db (snd (process_signal_message cfg env data w)) = wk_db w
     \<and> fst (process_signal_message cfg env data w) = Inr None"
  by (cases rule: process_message_cases [of cfg env data w]) auto

section \<open>The invariants of the tables, over any run of the consumer\<close>

definition acceptable_env :: "worker_cfg \<Rightarrow> msg_env \<Rightarrow> bool" where
  "acceptable_env cfg env \<longleftrightarrow> isfinite (x_slippage_pct (wc_exec cfg)) \<and>
     (case wc_fills cfg of None \<Rightarrow> True | Some fs \<Rightarrow> service_acceptable fs (me_service env))"

lemma fill_for_finite:
  assumes "acceptable_env cfg env" and "wf_signal (OpenSignal s)"
    and "fst (fill_for cfg env (OpenSignal s) d c) = Some g"
  shows "finite_fill g"
proof -
  obtain fs where fs: "wc_fills cfg = Some fs"
    using assms(3) by (cases "wc_fills cfg") (auto simp: fill_for_def)
  let ?r = "service_resolve fs (me_service env) (o_exchange s) (o_symbol s) (o_side s) (o_qty s)
    (o_entry s) False False"
  obtain f where f: "fst (?r c) = Inr f" and g: "fill_value g = final_price f"
    using assms(3) fs
    by (auto simp: fill_for_def open_fill_def bind_def split: prod.splits sum.splits if_splits)
  have "finite_fill (Resolved f)"
    using service.provide_finite [of "(fs, me_service env, c)" "o_entry s"] f assms(1,2) fs
    by (auto simp: acceptable_env_def)
  with g show ?thesis by (simp add: finite_fill_def)
qed

lemma execute_wf [simp]: "keeps wf_db (execute cfg env sig fill)"
  unfolding execute_def by (cases sig) (auto intro!: db_keeps)

lemma register_alpha_columns_finite [simp]: "keeps finite_db (register_alpha_columns a cs)"
proof -
  have "keeps finite_db (insert_column a i c)" for i c
    unfolding insert_column_def by (intro keeps_intros) (auto simp: keeps_def finite_db_def)
  then show ?thesis
    unfolding register_alpha_columns_def delete_columns_def
    by (intro keeps_intros) (auto simp: finite_db_def split: prod.splits)
qed

lemma register_alpha_finite [simp]: "keeps finite_db (register_alpha now a n)"
  by (auto simp: keeps_def finite_db_def)

lemma process_register_columns_finite [simp]: "keeps finite_db (process_register_columns now s)"
  unfolding process_register_columns_def
  by (auto intro!: keeps_intros split: sum.splits json.splits)

lemma snd_bind_ret:
  "snd (bind m (\<lambda>x. ret (f x)) s) = snd (m s)"
  "snd (bind m' (\<lambda>(x, y). ret (g x y)) s) = snd (m' s)"
  by (simp_all add: bind_def split: prod.splits sum.splits)

lemma execute_finite:
  assumes "finite_db d" and "wf_signal sig" and "isfinite (x_slippage_pct (wc_exec cfg))"
    and "\<And>s g. sig = OpenSignal s \<Longrightarrow> fill = Some g \<Longrightarrow> finite_fill g"
  shows "finite_db (snd (execute cfg env sig fill d))"
proof (cases sig)
  case (OpenSignal s)
  with assms process_open_finite [of d s "wc_exec cfg" fill] show ?thesis
    by (simp add: execute_def snd_bind_ret)
next
  case (ModifySignal s)
  then show ?thesis
    using keepsD [OF process_modify_finite assms(1)] by (simp add: execute_def snd_bind_ret)
next
  case (CloseSignal s)
  with assms process_close_finite [of d s] show ?thesis
    by (simp add: execute_def snd_bind_ret)
next
  case (RegisterColumnsSignal s)
  then show ?thesis
    using keepsD [OF process_register_columns_finite assms(1)]
    by (simp add: execute_def snd_bind_ret)
qed

definition db_inv :: "db \<Rightarrow> bool" where
  "db_inv d \<longleftrightarrow> wf_db d \<and> finite_db d"

lemma logged_inv: "db_inv d \<Longrightarrow> db_inv (logged env data d)"
  using keepsD [OF log_signal_wf]
  by (auto simp: db_inv_def logged_def log_wire_def finite_db_def log_signal_def)

lemma marked_inv: "db_inv d \<Longrightarrow> db_inv (marked data err d)"
  using keepsD [OF mark_signal_processed_wf]
  by (auto simp: db_inv_def marked_def finite_db_def mark_signal_processed_def)

lemma execute_inv:
  assumes "db_inv (wk_db w)" and "acceptable_env cfg env" and "parse_signal data = Inr sig"
    and "fill = fst (fill_for cfg env sig (wk_db w) (wk_client w))"
    and "execute cfg env sig fill (logged env data (wk_db w)) = (r, d)"
  shows "db_inv d"
proof -
  have i: "db_inv (logged env data (wk_db w))" using assms(1) by (rule logged_inv)
  have wf: "wf_signal sig" using assms(3) by (rule parse_signal_wf)
  have "finite_fill g" if "sig = OpenSignal s" "fill = Some g" for s g
    using fill_for_finite [OF assms(2)] wf assms(4) that by metis
  then have "finite_db (snd (execute cfg env sig fill (logged env data (wk_db w))))"
    using i wf assms(2) by (intro execute_finite) (auto simp: db_inv_def acceptable_env_def)
  moreover have "wf_db (snd (execute cfg env sig fill (logged env data (wk_db w))))"
    using i by (intro keepsD [OF execute_wf]) (simp add: db_inv_def)
  ultimately show ?thesis using assms(5) by (simp add: db_inv_def)
qed

lemma process_message_inv:
  assumes "db_inv (wk_db w)" and "acceptable_env cfg env"
  shows "db_inv (wk_db (snd (process_signal_message cfg env data w)))"
  using assms
  by (cases rule: process_message_cases [of cfg env data w])
    (auto intro: marked_inv logged_inv dest: execute_inv)

lemma consume_induct:
  assumes "P w" and "\<And>env k data w. (env, k, data) \<in> set ms \<Longrightarrow> P w \<Longrightarrow>
      P (snd (handle_signal_message cfg env k data w))"
  shows "P (snd (consume cfg ms w)) \<and> fst (consume cfg ms w) = Inr ()"
  using assms
proof (induction ms arbitrary: w)
  case Nil
  then show ?case by simp
next
  case (Cons m ms)
  obtain env k data where m: "m = (env, k, data)" by (cases m)
  obtain w1 where h: "handle_signal_message cfg env k data w = (Inr (), w1)"
    using handle_never_raises [of cfg env k data w] by (metis prod.collapse)
  have "P w1"
    using Cons.prems(2) [of env k data w] Cons.prems(1) m h by simp
  from Cons.IH [OF this] Cons.prems(2) show ?case
    by (simp add: m then_do_apply h)
qed

lemma consume_inv:
  assumes "db_inv (wk_db w)" and "\<And>env k data. (env, k, data) \<in> set ms \<Longrightarrow> acceptable_env cfg env"
  shows "db_inv (wk_db (snd (consume cfg ms w)))"
  using consume_induct [of "\<lambda>w. db_inv (wk_db w)" w ms cfg] assms
  by (auto simp: handle_db process_message_inv)

section \<open>One leg per symbol\<close>

lemma register_columns_single_leg [simp]: "keeps single_leg (process_register_columns now s)"
proof -
  have "keeps single_leg (insert_column a i c)" for a i c
    unfolding insert_column_def by (intro keeps_intros) (auto simp: keeps_def single_leg_def)
  moreover have "keeps single_leg (register_alpha now a n)" for a n
    by (auto simp: keeps_def single_leg_def)
  ultimately show ?thesis
    unfolding process_register_columns_def register_alpha_columns_def delete_columns_def
    by (auto intro!: keeps_intros simp: single_leg_def split: sum.splits json.splits prod.splits)
qed

lemma execute_single_leg:
  assumes "single_leg d" and "x_duplicate_policy (wc_exec cfg) = ''reject''"
    and "\<And>s. sig = OpenSignal s \<Longrightarrow> \<not> allows_duplicate_position s"
  shows "single_leg (snd (execute cfg env sig fill d))"
  using assms process_open_single_leg [OF assms(1,2)]
    keepsD [OF process_modify_single_leg assms(1)] keepsD [OF process_close_single_leg assms(1)]
    keepsD [OF register_columns_single_leg assms(1)]
  by (cases sig) (simp_all add: execute_def snd_bind_ret)

lemma single_leg_log [simp]:
  "single_leg (logged env data d) = single_leg d" "single_leg (marked data err d) = single_leg d"
  by (simp_all add: single_leg_def logged_def log_wire_def log_signal_def marked_def
      mark_signal_processed_def)

lemma process_message_single_leg:
  assumes "single_leg (wk_db w)" and "x_duplicate_policy (wc_exec cfg) = ''reject''"
    and "\<And>s. parse_signal data = Inr (OpenSignal s) \<Longrightarrow> \<not> allows_duplicate_position s"
  shows "single_leg (wk_db (snd (process_signal_message cfg env data w)))"
proof -
  have "single_leg d" if "execute cfg env sig f (logged env data (wk_db w)) = (r, d)"
    "parse_signal data = Inr sig" for sig f r d
    using execute_single_leg [of "logged env data (wk_db w)" cfg sig env f] assms that
    by (metis single_leg_log(1) snd_conv)
  then show ?thesis
    using assms(1)
    by (cases rule: process_message_cases [of cfg env data w]) auto
qed

end
