(* ===== verification/Examples.thy ===== *)
theory Examples
  imports Worker
begin

text \<open>
  Concrete messages, configurations and tables on which the properties are evaluated: an alpha
  \<^verbatim>\<open>a\<close> that opens two units of BTC at 100 with a stop at 90, and what happens to that position.
\<close>

definition ex_time :: isotext where
  "ex_time = IsoText \<lparr>wall = 0, utcoff = Some 0\<rparr>"

definition ex_open_wire :: wire where
  "ex_open_wire = \<lparr>w_fields = [(''signal_id'', ''s1''), (''alpha_id'', ''a''), (''type'', ''OPEN''),
     (''symbol'', ''BTC''), (''side'', ''LONG''), (''entry'', ''100''), (''qty'', ''2''),
     (''sl'', ''90''), (''position_id'', ''p1'')], w_json = [], w_time = Some ex_time\<rparr>"

definition ex_open :: open_signal where
  "ex_open = \<lparr>o_alpha_id = ''a'', o_signal_id = ''s1'', o_symbol = ''BTC'', o_side = ''LONG'',
     o_entry = Fin 100, o_qty = Fin 2, o_timestamp = ex_time,
     o_tp = None, o_sl = Some (Fin 90), o_leverage = 1, o_metadata = JText (JObj []),
     o_position_id = ''p1'', o_exchange = ''binance'', o_fee_pct = Fin 0\<rparr>"

lemmas py_float_defs = py_float_def py_decimal_def py_exponent_def split_sign_def strip_def
  is_space_def is_digit_def digits_value_def lower_def lower_char_def Let_def

lemmas parse_defs = parse_signal_def parse_open_def parse_modify_def parse_close_def
  parse_register_columns_def field_def field_or_def dget_def signal_type_value_def
  to_finite_float_def to_float_def to_int_def parse_fee_pct_def json_or_def timestamp_or_def
  or_zero_def py_float_defs

lemma ex_open_parse: "parse_signal ex_open_wire = Inr (OpenSignal ex_open)"
  by (simp add: ex_open_wire_def ex_open_def parse_defs)

definition ex_exec :: exec_cfg where
  "ex_exec = \<lparr>x_slippage_pct = Fin 0, x_duplicate_policy = ''reject''\<rparr>"

definition ex_cfg :: worker_cfg where
  "ex_cfg = \<lparr>wc_exec = ex_exec, wc_fills = None, wc_orderbook_enabled = False,
     wc_exchanges = [''binance''], wc_pre_subscribe = True\<rparr>"

definition ex_rpc :: rpc_env where
  "ex_rpc = \<lparr>check_at = 0, outcome = RpcTimeout, fail_at = 0\<rparr>"

definition ex_service_env :: service_env where
  "ex_service_env = \<lparr>se_book = \<lparr>first_query = ex_rpc, second_query = ex_rpc, first_id = ''r1'',
     second_id = ''r2'', first_ms = Fin 0, second_ms = Fin 0\<rparr>,
     se_cache = new_ticker_cache 5, se_now = 0\<rparr>"

definition ex_env :: "tx_outcome \<Rightarrow> bool \<Rightarrow> msg_env" where
  "ex_env tx ack = \<lparr>me_now = ex_time, me_uuid = ''u1'', me_tx = tx, me_service = ex_service_env,
     me_publish_ok = True, me_wait = ''became_ready'', me_xack_ok = ack\<rparr>"

definition ex_worker :: worker where
  "ex_worker = \<lparr>wk_db = empty_db, wk_metrics = new_metrics, wk_client = new_client,
     wk_published = [], wk_acked = []\<rparr>"

lemma ex_worker_inv: "db_inv (wk_db ex_worker)"
  by (simp add: ex_worker_def db_inv_def finite_db_def empty_db_def wf_db_def)

lemma ex_acceptable: "acceptable_env ex_cfg (ex_env tx ack)"
  by (simp add: acceptable_env_def ex_cfg_def ex_exec_def)

lemma ex_not_seen: "\<not> seen data ex_worker"
  by (simp add: seen_def ex_worker_def empty_db_def signal_processed_def)

section \<open>An open position\<close>

definition ex_position :: position where
  "ex_position = \<lparr>p_id = ''p1'', p_alpha = ''a'', p_signal = ''s1'', p_symbol = ''BTC'',
     p_side = ''LONG'', p_entry = Some (Fin 100), p_qty = Some (Fin 2), p_tp = None,
     p_sl = Some (Fin 90), p_leverage = 1, p_opened = ex_time, p_metadata = Some (JText (JObj [])),
     p_exchange = ''binance'', p_fee_pct = Some (Fin 0)\<rparr>"

definition ex_alpha :: alpha_row where
  "ex_alpha = \<lparr>a_id = ''a'', a_name = ''a'', a_created = ex_time, a_status = ''active''\<rparr>"

definition ex_db :: db where
  "ex_db = empty_db\<lparr>alphas := [ex_alpha], positions := [ex_position]\<rparr>"

lemma ex_db_inv: "wf_db ex_db" "finite_db ex_db"
  by (simp_all add: ex_db_def empty_db_def wf_db_def finite_db_def ex_position_def ex_alpha_def
      finite_position_def)

lemma ex_get_position: "get_position ex_db ''p1'' = Some ex_position"
  by (simp add: get_position_def ex_db_def empty_db_def ex_position_def)

lemma ex_duration: "trade_duration_hours \<lparr>wall = 0, utcoff = Some 0\<rparr> \<lparr>wall = 0, utcoff = Some 0\<rparr>
    ''binance'' = Inr 0"
  by (simp add: trade_duration_hours_def us_between_def lower_def lower_char_def Let_def)

definition ex_close :: "pyfloat option \<Rightarrow> close_signal" where
  "ex_close q = \<lparr>c_alpha_id = ''a'', c_signal_id = ''s2'', c_position_id = ''p1'',
     c_reason = ''SIGNAL'', c_timestamp = ex_time, c_exit_price = Some (Fin 110), c_qty = q,
     c_metadata = JText (JObj [])\<rparr>"

definition ex_modify :: "pyfloat \<Rightarrow> modify_signal" where
  "ex_modify stop = \<lparr>m_alpha_id = ''a'', m_signal_id = ''s3'', m_position_id = ''p1'',
     m_timestamp = ex_time, m_tp = None, m_sl = Some stop, m_metadata = JText (JObj [])\<rparr>"

lemmas close_defs = process_close_def checked_close_qty_def close_fill_def close_ref_price_def
  close_ref_is_executable_def metadata_flag_def apply_slippage_def fixed_pct_fill_def
  close_position_def closing_trade_def close_quantities_def close_figures_of_def
  merge_position_runtime_metadata_def merge_metadata_def fee_or_zero_def or_zero_def
  exchange_or_binance_def insert_trade_def update_positions_def delete_position_def

lemma ex_close_part:
  "fst (process_close ex_exec ''u1'' (ex_close (Some (Fin 1))) None ex_db) =
     Inr \<lparr>cr_position_id = ''p1'', cr_exit_price = Fin 110, cr_closed = False,
          cr_closed_qty = Fin 1, cr_remaining_qty = Fin 1\<rparr>"
  using ex_get_position ex_duration
  by (simp add: close_defs ex_close_def ex_exec_def ex_position_def ex_time_def Let_def
      then_do_apply bind_def ex_db_def empty_db_def dget_def lift_res_def)

text \<open>The position closed at 110, in parts or at once.\<close>

definition ex_close_at :: "string \<Rightarrow> pyfloat option \<Rightarrow> (db, unit) eff" where
  "ex_close_at u q = close_position u ''p1'' (Fin 110) ''SIGNAL'' ex_time None q"

lemma ex_close_first: "fst (ex_close_at ''u1'' (Some (Fin 1)) ex_db) = Inr ()"
  using ex_get_position ex_duration
  by (simp add: ex_close_at_def close_defs ex_position_def ex_time_def Let_def
      then_do_apply bind_def ex_db_def empty_db_def dget_def lift_res_def)

lemma ex_close_full: "fst (ex_close_at ''u3'' None ex_db) = Inr ()"
  using ex_get_position ex_duration
  by (simp add: ex_close_at_def close_defs ex_position_def ex_time_def Let_def
      then_do_apply bind_def ex_db_def empty_db_def dget_def lift_res_def)

lemma ex_close_second:
  "fst (ex_close_at ''u2'' None (snd (ex_close_at ''u1'' (Some (Fin 1)) ex_db))) = Inr ()"
  using ex_get_position ex_duration
  by (simp add: ex_close_at_def close_defs get_position_def ex_position_def ex_time_def Let_def
      then_do_apply bind_def ex_db_def empty_db_def dget_def lift_res_def)

end
