(* ===== verification/PositionProperties.thy ===== *)
theory PositionProperties
  imports Examples
begin

text \<open>
  Properties of the executor's operations on an open position: the trailing stop, the
  take-profit / stop-loss pass, and the corners of CLOSE.
\<close>

section \<open>The trailing stop\<close>

text \<open>
  A MODIFY with a finite stop never loosens the stop of the position it names: for a LONG
  the stored stop does not fall, for a SHORT it does not rise, and the stop stays a number -
  whether the MODIFY is accepted or rejected.
\<close>

theorem modify_tightens_stop:
  assumes "get_position d (m_position_id s) = Some pos" and "p_sl pos = Some (Fin old)"
    and "\<And>y. m_sl s = Some y \<Longrightarrow> isfinite y"
  shows "\<exists>p new. get_position (snd (process_modify s d)) (m_position_id s) = Some p \<and>
           p_sl p = Some (Fin new) \<and> tightened (p_side pos) old new"
  using assms by (rule process_modify_tightens)

theorem modify_tightens_stop_witness:
  "\<exists>p new. get_position (snd (process_modify (ex_modify (Fin 95)) ex_db)) ''p1'' = Some p \<and>
     p_sl p = Some (Fin new) \<and> 90 \<le> new"
  using modify_tightens_stop [of ex_db "ex_modify (Fin 95)" ex_position 90]
  by (auto simp: ex_modify_def ex_get_position ex_position_def tightened_def)

text \<open>
  The guard compares with \<open><\<close> and \<open>>\<close>, which a NaN always passes, and SQLite stores a NaN as
  NULL: a MODIFY whose stop is the text \<^verbatim>\<open>nan\<close> removes the stop of the position.
\<close>

theorem nan_stop_is_removed:
  assumes "get_position d (m_position_id s) = Some pos" and "m_sl s = Some NaN"
    and "fst (process_modify s d) = Inr k"
  shows "\<exists>p. get_position (snd (process_modify s d)) (m_position_id s) = Some p \<and> p_sl p = None"
  using assms(1)
proof (cases rule: process_modify_position)
  case (1 e)
  with assms(3) show ?thesis by simp
next
  case (2 md)
  with assms(2) show ?thesis by simp
qed

theorem nan_stop_is_removed_witness:
  "p_sl (the (get_position ex_db ''p1'')) = Some (Fin 90) \<and>
   p_sl (the (get_position (snd (process_modify (ex_modify NaN) ex_db)) ''p1'')) = None"
proof -
  have r: "fst (process_modify (ex_modify NaN) ex_db) = Inr ''p1''"
    using ex_get_position
    by (simp add: process_modify_def ex_modify_def ex_position_def against_position_def then_do_apply
        bind_def modify_position_def update_positions_def get_state_def)
  have m: "m_position_id (ex_modify NaN) = ''p1''" "m_sl (ex_modify NaN) = Some NaN"
    by (simp_all add: ex_modify_def)
  have "\<exists>p. get_position (snd (process_modify (ex_modify NaN) ex_db)) (m_position_id (ex_modify NaN)) = Some p
      \<and> p_sl p = None"
    by (rule nan_stop_is_removed [OF _ m(2) r]) (simp add: m ex_get_position)
  then show ?thesis by (auto simp: m ex_get_position ex_position_def)
qed

section \<open>The take-profit / stop-loss pass\<close>

text \<open>A level of the position is reached at a price, and when a pass closes a position for it.\<close>

definition level_reached :: "position \<Rightarrow> pyfloat \<Rightarrow> bool" where
  "level_reached p x \<longleftrightarrow>
     (let up = (case (if p_side p = ''LONG'' then p_tp p else p_sl p) of Some l \<Rightarrow> l \<le> x | None \<Rightarrow> False);
          down = (case (if p_side p = ''LONG'' then p_sl p else p_tp p) of Some l \<Rightarrow> x \<le> l | None \<Rightarrow> False)
      in p_side p \<in> {''LONG'', ''SHORT''} \<and> (up \<or> down))"

definition due :: "tpsl_env \<Rightarrow> position \<Rightarrow> bool" where
  "due env p \<longleftrightarrow> (case te_price env (p_symbol p) (p_side p) of
       None \<Rightarrow> False | Some q \<Rightarrow> level_reached p (price q))"

lemma fired_due: "fired env = due env"
  by (rule ext) (auto simp: fired_def due_def level_reached_def tpsl_trigger_def Let_def split: option.splits)

text \<open>
  C33. A pass over the open positions closes exactly the positions whose level was reached at the
  quoted price and whose quantity is positive, and reports exactly the positions whose level was
  reached, in table order: a LONG at or above its take-profit or at or below its stop, a SHORT
  the other way round.
\<close>

theorem tpsl_pass_exact:
  assumes "check_tpsl_hits x env d = (Inr hs, d')" and "wf_db d" and "finite_db d"
  shows "positions d' = filter (\<lambda>p. \<not> (due env p \<and> positive_qty p)) (positions d)
    \<and> map h_position_id hs = map p_id (filter (due env) (positions d))"
  using check_tpsl_exact [OF assms] by (simp add: fired_due)

definition ex_tpsl :: "pyfloat \<Rightarrow> tpsl_env" where
  "ex_tpsl p = \<lparr>te_price = (\<lambda>s side. Some \<lparr>price = p, quote_source = ''t'', is_executable = True\<rparr>),
     te_resolver = None, te_now = (\<lambda>_. ex_time), te_uuid = (\<lambda>_. ''u1'')\<rparr>"

theorem tpsl_pass_exact_witness:
  "\<exists>hs d'. check_tpsl_hits ex_exec (ex_tpsl (Fin 89)) ex_db = (Inr hs, d') \<and> positions d' = [] \<and>
     map h_position_id hs = [''p1'']"
proof -
  have "\<exists>hs d'. check_tpsl_hits ex_exec (ex_tpsl (Fin 89)) ex_db = (Inr hs, d')"
    using ex_get_position ex_duration
    by (simp add: check_tpsl_hits_def get_positions_with_tpsl_def tpsl_step_def tpsl_trigger_def
        ex_tpsl_def close_defs tpsl_fill_def ex_exec_def ex_position_def ex_time_def Let_def
        then_do_apply bind_def ex_db_def empty_db_def dget_def lift_res_def get_state_def)
  then obtain hs d' where r: "check_tpsl_hits ex_exec (ex_tpsl (Fin 89)) ex_db = (Inr hs, d')" by blast
  have "due (ex_tpsl (Fin 89)) ex_position" "positive_qty ex_position"
    by (simp_all add: due_def level_reached_def ex_tpsl_def ex_position_def positive_qty_def Let_def)
  with tpsl_pass_exact [OF r ex_db_inv] r show ?thesis
    by (simp add: ex_db_def empty_db_def ex_position_def)
qed

section \<open>Corners of CLOSE\<close>

text \<open>
  A position whose quantity is not positive - an OPEN with a missing or negative quantity
  stores one - is closed by no CLOSE, whether it names a quantity (above the dust) or not: each
  raises and changes nothing.
\<close>

theorem zero_quantity_wedges:
  assumes "get_position d (c_position_id s) = Some p" and "p_qty p = Some (Fin a)" and "a \<le> 0"
    and "\<And>v. c_qty s = Some v \<Longrightarrow> \<exists>b. v = Fin b \<and> (b \<le> 0 \<or> a + dust < b)"
  shows "\<exists>e. process_close x u s f d = (Inl (ValueError e), d)"
  using assms by (rule zero_quantity_never_closes)

definition ex_empty_position_db :: db where
  "ex_empty_position_db = empty_db\<lparr>alphas := [ex_alpha],
     positions := [ex_position\<lparr>p_qty := Some (Fin 0)\<rparr>]\<rparr>"

theorem zero_quantity_wedges_witness:
  "\<exists>e. process_close ex_exec ''u1'' (ex_close (Some (Fin 2))) None ex_empty_position_db =
     (Inl (ValueError e), ex_empty_position_db)"
proof (rule zero_quantity_wedges)
  show "get_position ex_empty_position_db (c_position_id (ex_close (Some (Fin 2)))) =
      Some (ex_position\<lparr>p_qty := Some (Fin 0)\<rparr>)"
    by (simp add: get_position_def ex_empty_position_db_def empty_db_def ex_position_def ex_close_def)
  show "\<exists>b. v = Fin b \<and> (b \<le> 0 \<or> 0 + dust < b)" if "c_qty (ex_close (Some (Fin 2))) = Some v" for v
    using that by (auto simp: ex_close_def)
qed simp_all

text \<open>
  A partial CLOSE whose metadata cannot be merged into the position's runtime metadata
  raises after its trade was written and before the position was reduced; inside the worker the
  exception is caught and the transaction commits, so the trade stays.
\<close>

theorem partial_close_half_done:
  assumes "get_position d k = Some p" and "closing_trade u p x r c m q = Inr (Some (t, rem))"
    and "t_id t \<notin> t_id ` set (trades d)" and "\<not> rem \<le> Fin dust"
    and "merge_position_runtime_metadata (p_metadata p) m = Inl e"
  shows "close_position u k x r c m q d = (Inl e, d\<lparr>trades := trades d @ [t]\<rparr>)"
  using assms by (intro partial_close_unmerged) (auto simp: image_iff)

definition ex_bad_version :: jtext where
  "ex_bad_version = JText (JObj [(''strategy_runtime'', JObj []), (''strategy_runtime_version'', JStr ''v2'')])"

theorem partial_close_half_done_witness:
  "\<exists>e t. close_position ''u1'' ''p1'' (Fin 110) ''SIGNAL'' ex_time (Some ex_bad_version) (Some (Fin 1)) ex_db =
     (Inl e, ex_db\<lparr>trades := [t]\<rparr>)"
proof -
  have "\<exists>t. closing_trade ''u1'' ex_position (Fin 110) ''SIGNAL'' ex_time (Some ex_bad_version)
      (Some (Fin 1)) = Inr (Some (t, Fin 1))"
    using ex_duration
    by (simp add: closing_trade_def close_quantities_def close_figures_of_def ex_position_def ex_time_def
        fee_or_zero_def or_zero_def exchange_or_binance_def Let_def)
  then obtain t where t: "closing_trade ''u1'' ex_position (Fin 110) ''SIGNAL'' ex_time (Some ex_bad_version)
      (Some (Fin 1)) = Inr (Some (t, Fin 1))" by blast
  have "\<exists>e. merge_position_runtime_metadata (p_metadata ex_position) (Some ex_bad_version) = Inl e"
    by (simp add: merge_position_runtime_metadata_def ex_position_def ex_bad_version_def py_int_str_def
        split_sign_def strip_def is_space_def is_digit_def Let_def dget_def)
  then obtain e where e: "merge_position_runtime_metadata (p_metadata ex_position) (Some ex_bad_version) = Inl e"
    by blast
  have "close_position ''u1'' ''p1'' (Fin 110) ''SIGNAL'' ex_time (Some ex_bad_version) (Some (Fin 1)) ex_db =
      (Inl e, ex_db\<lparr>trades := trades ex_db @ [t]\<rparr>)"
    by (rule partial_close_half_done [OF ex_get_position t _ _ e])
       (simp_all add: ex_db_def empty_db_def)
  then show ?thesis by (auto simp: ex_db_def empty_db_def)
qed

text \<open>
  C40. The trust boundary: whatever the texts of a stream entry are, a parsed OPEN carries a
  finite entry price and quantity, a parsed CLOSE a finite quantity if any, and the parsed
  signal has the type and the alpha the entry names.
\<close>

theorem parsed_signal_is_sane:
  assumes "parse_signal w = Inr s"
  shows "wf_signal s \<and> signal_type_value (field_or w ''type'' '''') = Some (signal_type_of s) \<and>
    field w ''alpha_id'' = Inr (signal_alpha s)"
proof -
  have "field w ''alpha_id'' = Inr (signal_alpha s)"
    using assms
    by (auto simp: parse_signal_def res_bind_Inr_iff parse_open_def parse_modify_def parse_close_def
        parse_register_columns_def split: option.splits signal_type.splits)
  then show ?thesis using parse_signal_wf [OF assms] signal_type_value_cases [OF assms] by simp
qed

theorem parsed_signal_is_sane_witness:
  "wf_signal (OpenSignal ex_open) \<and> field ex_open_wire ''alpha_id'' = Inr ''a''"
  using parsed_signal_is_sane [OF ex_open_parse] by (simp add: ex_open_def)

end
