(* ===== verification/VirtualLedger.thy ===== *)
theory VirtualLedger
  imports Ledger
begin

text \<open>
  The virtual ledger: \<open>Database.apply_virtual_trade_event\<close> of \<^verbatim>\<open>worker/app/db.py\<close> and its consumer,
  \<^verbatim>\<open>worker/app/virtual_trade_ledger.py\<close>.

  An event is a JSON object.  \<open>parse\<close> stands for what \<open>datetime.fromisoformat\<close> makes of a timestamp
  text.  What the consumer group answers to a read is an argument of the consumer.
\<close>

section \<open>Applying one event\<close>

type_synonym event = "(string, json) dict"

definition item :: "event \<Rightarrow> string \<Rightarrow> json res" where
  "item e k = (case map_of e k of None \<Rightarrow> Inl (KeyError k) | Some v \<Rightarrow> Inr v)"

definition event_str :: "event \<Rightarrow> string \<Rightarrow> string res" where
  "event_str e k = res_bind (item e k) (\<lambda>v. Inr (jstr v))"

definition event_float :: "event \<Rightarrow> string \<Rightarrow> pyfloat res" where
  "event_float e k = res_bind (item e k) jfloat"

record ledger_result =
  lr_event :: string
  lr_position :: string
  lr_pnl :: "pyfloat option"

definition event_metadata :: "event \<Rightarrow> jtext" where
  "event_metadata e = (case map_of e ''metadata'' of
       None \<Rightarrow> jdumps (JObj [])
     | Some v \<Rightarrow> jdumps (if json_truthy v then v else JObj []))"

text \<open>The row of a VIRTUAL_OPEN, inserted unless its position id is taken.\<close>

definition virtual_open_row :: "(string \<Rightarrow> isotext) \<Rightarrow> event \<Rightarrow> position res" where
  "virtual_open_row parse e =
     res_bind (event_str e ''event_id'') (\<lambda>event_id.
     res_bind (event_str e ''alpha_id'') (\<lambda>alpha_id.
     res_bind (event_str e ''position_id'') (\<lambda>position_id.
     res_bind (event_str e ''symbol'') (\<lambda>symbol.
     res_bind (event_str e ''side'') (\<lambda>side.
     res_bind (event_float e ''price'') (\<lambda>pr.
     res_bind (event_float e ''qty'') (\<lambda>qty.
     res_bind (event_str e ''timestamp'') (\<lambda>ts.
     Inr \<lparr>p_id = position_id, p_alpha = alpha_id, p_signal = event_id, p_symbol = symbol,
          p_side = side, p_entry = sql_real pr, p_qty = sql_real qty, p_tp = None, p_sl = None,
          p_leverage = 1, p_opened = parse ts, p_metadata = Some (event_metadata e),
          p_exchange = jstr (dget e ''exchange'' (JStr ''binance'')), p_fee_pct = None\<rparr>))))))))"

definition virtual_open :: "(string \<Rightarrow> isotext) \<Rightarrow> event \<Rightarrow> (db, ledger_result) eff" where
  "virtual_open parse e =
     bind (lift_res (virtual_open_row parse e)) (\<lambda>p.
     then_do (modify (\<lambda>d. if \<exists>q \<in> set (virtual_positions d). p_id q = p_id p then d
                          else d\<lparr>virtual_positions := virtual_positions d @ [p]\<rparr>))
       (ret \<lparr>lr_event = ''VIRTUAL_OPEN'', lr_position = p_id p, lr_pnl = None\<rparr>))"

definition virtual_close_metadata :: "event \<Rightarrow> jtext" where
  "virtual_close_metadata e = jdumps (JObj
     [(''virtual'', JBool True), (''ledger_source'', JStr ''shadow_sleeve''),
      (''candle_open_ms'', dget e ''candle_open_ms'' JNull)])"

text \<open>The trade of a VIRTUAL_CLOSE: no leverage, no fee, the whole quantity.\<close>

definition virtual_trade :: "(string \<Rightarrow> isotext) \<Rightarrow> event \<Rightarrow> position \<Rightarrow> (trade \<times> pyfloat) res" where
  "virtual_trade parse e pos =
     res_bind (event_float e ''price'') (\<lambda>exit_price.
     res_bind (need (p_qty pos)) (\<lambda>qty.
     res_bind (need (p_entry pos)) (\<lambda>entry.
     let direction = (if p_side pos = ''LONG'' then Fin 1 else Fin (- 1));
         pnl = (exit_price - entry) * qty * direction;
         capital = entry * qty
     in res_bind (if truthy capital then res_bind (fdiv pnl capital) (\<lambda>x. Inr (x * Fin 100))
                  else Inr (Fin 0)) (\<lambda>pct.
     res_bind (fromisoformat (p_opened pos)) (\<lambda>opened.
     res_bind (event_str e ''timestamp'') (\<lambda>ts.
     res_bind (fromisoformat (parse ts)) (\<lambda>clsd.
     res_bind (trade_duration_hours opened clsd (exchange_or_binance pos)) (\<lambda>hours.
     res_bind (event_str e ''alpha_id'') (\<lambda>alpha_id.
     res_bind (event_str e ''event_id'') (\<lambda>event_id.
     Inr (\<lparr>t_id = p_id pos, t_position = p_id pos, t_alpha = alpha_id, t_signal = event_id,
           t_symbol = p_symbol pos, t_side = p_side pos, t_entry = p_entry pos,
           t_exit = sql_real exit_price, t_qty = p_qty pos, t_pnl = sql_real pnl,
           t_pnl_percent = sql_real pct, t_leverage = 1, t_tp = None, t_sl = None,
           t_reason = jstr (dget e ''reason'' (JStr ''VIRTUAL_REBALANCE'')),
           t_hours = Some (Fin hours), t_opened = p_opened pos, t_closed = parse ts,
           t_metadata = merge_trade_metadata (p_metadata pos) (Some (virtual_close_metadata e)),
           t_fee = Some (Fin 0), t_exchange = exchange_or_binance pos\<rparr>, pnl)))))))))))"

definition insert_virtual_trade :: "trade \<Rightarrow> (db, unit) eff" where
  "insert_virtual_trade t = (\<lambda>d.
     if \<exists>u \<in> set (virtual_trades d). t_id u = t_id t
     then (Inl (IntegrityError ''UNIQUE constraint failed: virtual_trades.trade_id''), d)
     else (Inr (), d\<lparr>virtual_trades := virtual_trades d @ [t]\<rparr>))"

definition virtual_close :: "(string \<Rightarrow> isotext) \<Rightarrow> event \<Rightarrow> (db, ledger_result) eff" where
  "virtual_close parse e =
     bind (lift_res (event_str e ''position_id'')) (\<lambda>position_id.
     bind get_state (\<lambda>d. case find (\<lambda>p. p_id p = position_id) (virtual_positions d) of
         None \<Rightarrow> throw (ValueError ''virtual position not found'')
       | Some pos \<Rightarrow>
           bind (lift_res (virtual_trade parse e pos)) (\<lambda>(t, pnl).
           then_do (insert_virtual_trade t)
           (then_do (modify (\<lambda>d. d\<lparr>virtual_positions :=
                       filter (\<lambda>p. p_id p \<noteq> p_id pos) (virtual_positions d)\<rparr>))
             (ret \<lparr>lr_event = ''VIRTUAL_CLOSE'', lr_position = p_id pos, lr_pnl = Some pnl\<rparr>)))))"

definition insert_virtual_event :: "virtual_event \<Rightarrow> (db, unit) eff" where
  "insert_virtual_event v = (\<lambda>d.
     if \<exists>u \<in> set (virtual_events d). e_id u = e_id v
     then (Inl (IntegrityError ''UNIQUE constraint failed: virtual_trade_events.event_id''), d)
     else (Inr (), d\<lparr>virtual_events := virtual_events d @ [v]\<rparr>))"

definition event_applied :: "db \<Rightarrow> string \<Rightarrow> bool" where
  "event_applied d event_id \<longleftrightarrow> (\<exists>v \<in> set (virtual_events d). e_id v = event_id)"

definition apply_virtual_trade_event ::
  "tx_outcome \<Rightarrow> (string \<Rightarrow> isotext) \<Rightarrow> event \<Rightarrow> (db, ledger_result option) eff" where
  "apply_virtual_trade_event tx parse e =
     bind (lift_res (event_str e ''event_id'')) (\<lambda>event_id.
     bind (lift_res (event_str e ''type'')) (\<lambda>event_type.
     bind (lift_res (event_str e ''alpha_id'')) (\<lambda>alpha_id.
     transaction tx
       (bind get_state (\<lambda>d.
          if event_applied d event_id then ret None
          else
            bind (if event_type = ''VIRTUAL_OPEN'' then virtual_open parse e
                  else if event_type = ''VIRTUAL_CLOSE'' then virtual_close parse e
                  else throw (ValueError ''unsupported virtual ledger event'')) (\<lambda>result.
            then_do (insert_virtual_event
                       \<lparr>e_id = event_id, e_alpha = alpha_id, e_type = event_type,
                        e_payload = JObj e\<rparr>)
              (ret (Some result))))))))"

section \<open>The consumer\<close>

datatype virtual_message = Payload jtext | Bare event

definition required_fields :: "string list" where
  "required_fields = [''type'', ''event_id'', ''position_id'', ''alpha_id'', ''symbol'', ''side'',
     ''price'', ''qty'', ''timestamp'']"

text \<open>\<open>v not in {"..."}\<close>; a list or a dict is not hashable.\<close>

fun in_strings :: "json \<Rightarrow> string list \<Rightarrow> bool res" where
  "in_strings (JStr s) xs = Inr (s \<in> set xs)"
| "in_strings (JArr _) xs = Inl TypeError"
| "in_strings (JObj _) xs = Inl TypeError"
| "in_strings _ xs = Inr False"

definition require :: "bool res \<Rightarrow> string \<Rightarrow> unit res" where
  "require r msg = res_bind r (\<lambda>b. if b then Inr () else Inl (ValueError msg))"

definition check_event :: "event \<Rightarrow> unit res" where
  "check_event e =
     res_bind (require (Inr (map_of e ''ledger_mode'' = Some (JStr ''virtual''))) ''ledger_mode'') (\<lambda>_.
     res_bind (require (Inr (\<forall>k \<in> set required_fields. map_of e k \<noteq> None)) ''missing fields'') (\<lambda>_.
     res_bind (item e ''type'') (\<lambda>ty.
     res_bind (require (in_strings ty [''VIRTUAL_OPEN'', ''VIRTUAL_CLOSE'']) ''type'') (\<lambda>_.
     res_bind (item e ''side'') (\<lambda>side.
     res_bind (require (in_strings side [''LONG'', ''SHORT'']) ''side'') (\<lambda>_.
     res_bind (event_float e ''price'') (\<lambda>pr.
     if pr \<le> Fin 0 then Inl (ValueError ''price and qty must be positive'')
     else res_bind (event_float e ''qty'') (\<lambda>qty.
       if qty \<le> Fin 0 then Inl (ValueError ''price and qty must be positive'')
       else Inr ()))))))))"

definition process_virtual_trade_message ::
  "tx_outcome \<Rightarrow> (string \<Rightarrow> isotext) \<Rightarrow> virtual_message \<Rightarrow> (db, ledger_result option) eff" where
  "process_virtual_trade_message tx parse msg =
     bind (lift_res (case msg of
         Payload t \<Rightarrow> res_bind (jloads t) (\<lambda>j. case j of JObj e \<Rightarrow> Inr e
           | _ \<Rightarrow> Inl (ValueError ''virtual ledger payload must be an object''))
       | Bare e \<Rightarrow> Inr e)) (\<lambda>e.
     then_do (lift_res (check_event e)) (apply_virtual_trade_event tx parse e))"

text \<open>
  One connection of \<open>run_virtual_trade_consumer\<close>: \<open>recover\<close> says that the pending entries of this
  consumer are read first (\<open>XREADGROUP ... 0\<close>), \<open>acked\<close> and \<open>reads\<close> are the ids acknowledged and
  the start ids used so far.  \<open>tx\<close> is the fate of the transaction of a message in an iteration
  and \<open>reply\<close> what the group answers to a read.
\<close>

record consumer_state =
  vc_db :: db
  vc_recover :: bool
  vc_acked :: "string list"
  vc_reads :: "string list"

type_synonym row = "string \<times> virtual_message"

definition consume_row ::
  "(string \<Rightarrow> tx_outcome) \<Rightarrow> (string \<Rightarrow> isotext) \<Rightarrow> row \<Rightarrow> consumer_state \<Rightarrow> consumer_state" where
  "consume_row tx parse r s = (case r of (k, msg) \<Rightarrow>
     (case process_virtual_trade_message (tx k) parse msg (vc_db s) of
        (Inl e, d) \<Rightarrow> s\<lparr>vc_db := d\<rparr>
      | (Inr x, d) \<Rightarrow> s\<lparr>vc_db := d, vc_acked := vc_acked s @ [k]\<rparr>))"

definition consumer_iteration ::
  "(string \<Rightarrow> tx_outcome) \<Rightarrow> (string \<Rightarrow> isotext) \<Rightarrow> (string \<Rightarrow> string list \<Rightarrow> row list)
     \<Rightarrow> consumer_state \<Rightarrow> consumer_state" where
  "consumer_iteration tx parse reply s =
     (let start = (if vc_recover s then ''0'' else ''>'');
          rows = reply start (vc_acked s);
          s = s\<lparr>vc_reads := vc_reads s @ [start]\<rparr>
      in if vc_recover s \<and> rows = [] then s\<lparr>vc_recover := False\<rparr>
         else fold (consume_row tx parse) rows s)"

fun consumer_run ::
  "(nat \<Rightarrow> string \<Rightarrow> tx_outcome) \<Rightarrow> (string \<Rightarrow> isotext) \<Rightarrow> (nat \<Rightarrow> string \<Rightarrow> string list \<Rightarrow> row list)
     \<Rightarrow> nat \<Rightarrow> consumer_state \<Rightarrow> consumer_state" where
  "consumer_run tx parse reply 0 s = s"
| "consumer_run tx parse reply (Suc n) s =
     consumer_iteration (tx n) parse (reply n) (consumer_run tx parse reply n s)"

section \<open>Lemmas\<close>

definition virtual_inv :: "db \<Rightarrow> bool" where
  "virtual_inv d \<longleftrightarrow> distinct (map p_id (virtual_positions d))
     \<and> distinct (map t_id (virtual_trades d)) \<and> distinct (map e_id (virtual_events d))"

lemma virtual_open_inv: "keeps virtual_inv (virtual_open parse e)"
  unfolding virtual_open_def by (intro keeps_intros) (auto simp: virtual_inv_def)

lemma insert_virtual_inv [simp]:
  "keeps virtual_inv (insert_virtual_trade t)" "keeps virtual_inv (insert_virtual_event v)"
  by (auto simp: keeps_def virtual_inv_def insert_virtual_trade_def insert_virtual_event_def)

lemma virtual_close_inv: "keeps virtual_inv (virtual_close parse e)"
  unfolding virtual_close_def
  by (intro keeps_intros keeps_case_option)
    (auto intro!: keeps_intros simp: virtual_inv_def distinct_map_filter split: prod.splits)

lemma apply_event_inv: "keeps virtual_inv (apply_virtual_trade_event tx parse e)"
  unfolding apply_virtual_trade_event_def
  by (intro keeps_intros keeps_transaction keeps_if virtual_open_inv virtual_close_inv) simp_all

text \<open>An event that raises leaves the tables as they were, one that returns is on record.\<close>

lemma apply_event_raises: "apply_virtual_trade_event tx parse e d = (Inl x, d') \<Longrightarrow> d' = d"
  by (auto simp: apply_virtual_trade_event_def bind_def lift_res_def
      dest: transaction_raises_unchanged split: prod.splits sum.splits)

lemma virtual_ops_events:
  "virtual_open parse e d = (r, d') \<Longrightarrow> virtual_events d' = virtual_events d"
  "virtual_close parse e d = (r, d') \<Longrightarrow> virtual_events d' = virtual_events d"
  by (auto simp: virtual_open_def virtual_close_def bind_def then_do_def lift_res_def throw_def
      insert_virtual_trade_def modify_def ret_def get_state_def
      split: prod.splits sum.splits option.splits if_splits)

lemma apply_event_returns:
  assumes "apply_virtual_trade_event tx parse e d = (Inr r, d')" and "event_str e ''event_id'' = Inr k"
  shows "event_applied d' k" and "r = None \<Longrightarrow> d' = d" and "event_applied d k = (r = None)"
proof -
  from assms obtain ty a where i: "event_str e ''type'' = Inr ty" "event_str e ''alpha_id'' = Inr a"
    by (auto simp: apply_virtual_trade_event_def bind_def lift_res_def split: sum.splits)
  have "event_applied d' k \<and> (r = None \<longrightarrow> d' = d) \<and> event_applied d k = (r = None)"
  proof (cases "event_applied d k")
    case True
    with assms i show ?thesis
      by (auto simp: apply_virtual_trade_event_def bind_def lift_res_def transaction_returns)
  next
    case False
    with assms i show ?thesis
      by (auto simp: apply_virtual_trade_event_def bind_def lift_res_def transaction_returns
          then_do_def insert_virtual_event_def ret_def get_state_def event_applied_def
          split: prod.splits sum.splits if_splits)
  qed
  then show "event_applied d' k" and "r = None \<Longrightarrow> d' = d" and "event_applied d k = (r = None)"
    by auto
qed

lemma apply_event_again:
  assumes "event_applied d k" and "event_str e ''event_id'' = Inr k"
  shows "snd (apply_virtual_trade_event tx parse e d) = d"
proof (cases "apply_virtual_trade_event tx parse e d")
  case (Pair r d')
  with assms apply_event_raises [of tx parse e d] apply_event_returns [of tx parse e d _ d' k] show ?thesis
    by (cases r) auto
qed

text \<open>A VIRTUAL_CLOSE moves one position to the trades and realises its price difference.\<close>

lemma virtual_trade_pnl:
  assumes "virtual_trade parse e p = Inr (t, pnl)"
    and "p_entry p = Some (Fin en)" and "p_qty p = Some (Fin q)"
    and "event_float e ''price'' = Inr (Fin x)"
  shows "pnl = Fin ((x - en) * q * (if p_side p = ''LONG'' then 1 else -1))"
    and "t_pnl t = Some pnl" and "t_id t = p_id p" and "t_qty t = Some (Fin q)"
  using assms by (auto simp: virtual_trade_def res_bind_Inr_iff Let_def split: if_splits)

lemma find_SomeD: "find P xs = Some x \<Longrightarrow> x \<in> set xs \<and> P x"
  by (auto simp: find_Some_iff)

lemma virtual_close_apply:
  assumes "virtual_close parse e d = (Inr r, d')"
  obtains p t pnl where "p \<in> set (virtual_positions d)" "event_str e ''position_id'' = Inr (p_id p)"
    "virtual_trade parse e p = Inr (t, pnl)" "r = \<lparr>lr_event = ''VIRTUAL_CLOSE'', lr_position = p_id p, lr_pnl = Some pnl\<rparr>"
    "d' = d\<lparr>virtual_trades := virtual_trades d @ [t],
            virtual_positions := filter (\<lambda>q. p_id q \<noteq> p_id p) (virtual_positions d)\<rparr>"
  using assms
  by (auto simp: virtual_close_def bind_def then_do_def lift_res_def throw_def
      insert_virtual_trade_def modify_def ret_def get_state_def dest!: find_SomeD
      split: prod.splits sum.splits option.splits if_splits)

text \<open>
  The check of the consumer lets a NaN price or quantity through.  Such a position stores NULL,
  and from then on every VIRTUAL_CLOSE of it raises.
\<close>

lemma null_position_never_closes:
  assumes "find (\<lambda>p. p_id p = k) (virtual_positions d) = Some p"
    and "p_entry p = None \<or> p_qty p = None"
    and "event_str e ''position_id'' = Inr k"
  shows "\<exists>x. apply_virtual_trade_event tx parse e d = (Inl x, d) \<or>
             apply_virtual_trade_event tx parse e d = (Inr None, d) \<or>
             event_str e ''type'' = Inr ''VIRTUAL_OPEN''"
proof (cases "apply_virtual_trade_event tx parse e d")
  case (Pair r d')
  show ?thesis
  proof (cases r)
    case (Inl x)
    with Pair apply_event_raises show ?thesis by metis
  next
    case (Inr v)
    have "virtual_trade parse e p \<noteq> Inr y" for y
      using assms(2) by (auto simp: virtual_trade_def res_bind_Inr_iff)
    then obtain z where "virtual_trade parse e p = Inl z" by (cases "virtual_trade parse e p") auto
    then have c: "virtual_close parse e d = (Inl z, d)"
      using assms(1,3) by (simp add: virtual_close_def)
    show ?thesis
    proof (cases v)
      case None
      with Pair Inr apply_event_returns(2) [of tx parse e d None d'] show ?thesis
        by (auto simp: apply_virtual_trade_event_def bind_def lift_res_def
            transaction_returns get_state_def ret_def split: sum.splits prod.splits if_splits)
    next
      case (Some y)
      with Pair Inr c show ?thesis
        by (auto simp: apply_virtual_trade_event_def bind_def lift_res_def throw_def
            transaction_returns get_state_def ret_def split: sum.splits prod.splits if_splits)
    qed
  qed
qed

text \<open>
  The start-up read of the pending entries only gives way to new messages when a read comes
  back empty.  As a group returns an entry until it is acknowledged, one message that always
  fails keeps the consumer on its pending entries for good.
\<close>

definition always_fails :: "(string \<Rightarrow> isotext) \<Rightarrow> virtual_message \<Rightarrow> bool" where
  "always_fails parse msg \<longleftrightarrow> (\<forall>tx d. \<exists>e. fst (process_virtual_trade_message tx parse msg d) = Inl e)"

lemma consume_row_acked:
  "set (vc_acked (consume_row tx parse r s)) \<subseteq> insert (fst r) (set (vc_acked s))"
  "vc_recover (consume_row tx parse r s) = vc_recover s"
  "vc_reads (consume_row tx parse r s) = vc_reads s"
  by (auto simp: consume_row_def split: prod.splits sum.splits)

lemma consume_rows_acked:
  assumes "k \<notin> set (vc_acked s)" and "\<And>msg. (k, msg) \<in> set rows \<Longrightarrow> always_fails parse msg"
  shows "k \<notin> set (vc_acked (fold (consume_row tx parse) rows s)) \<and>
         vc_recover (fold (consume_row tx parse) rows s) = vc_recover s \<and>
         vc_reads (fold (consume_row tx parse) rows s) = vc_reads s"
  using assms
proof (induction rows arbitrary: s)
  case Nil
  then show ?case by simp
next
  case (Cons r rows)
  have "k \<notin> set (vc_acked (consume_row tx parse r s))"
  proof (cases "fst r = k")
    case True
    then have "always_fails parse (snd r)"
      using Cons.prems(2) [of "snd r"] by (cases r) auto
    then obtain e where "fst (process_virtual_trade_message (tx k) parse (snd r) (vc_db s)) = Inl e"
      unfolding always_fails_def by blast
    with True Cons.prems(1) show ?thesis
      by (cases r) (auto simp: consume_row_def split: prod.splits)
  next
    case False
    with Cons.prems(1) consume_row_acked(1) [of tx parse r s] show ?thesis by auto
  qed
  from Cons.IH [OF this] Cons.prems(2) show ?case by (simp add: consume_row_acked)
qed

lemma poison_blocks:
  assumes reply: "\<And>n acked. k \<notin> set acked \<Longrightarrow> \<exists>msg. (k, msg) \<in> set (reply n ''0'' acked)"
    and fails: "\<And>n acked msg. (k, msg) \<in> set (reply n ''0'' acked) \<Longrightarrow> always_fails parse msg"
    and "vc_recover s" and "k \<notin> set (vc_acked s)"
  shows "vc_recover (consumer_run tx parse reply n s) \<and> k \<notin> set (vc_acked (consumer_run tx parse reply n s))
    \<and> vc_reads (consumer_run tx parse reply n s) = vc_reads s @ replicate n ''0''"
proof (induction n)
  case 0
  with assms(3,4) show ?case by simp
next
  case (Suc n)
  let ?s = "consumer_run tx parse reply n s"
  let ?rows = "reply n ''0'' (vc_acked ?s)"
  have "?rows \<noteq> []" using reply [of "vc_acked ?s" n] Suc by (metis list.set(1) empty_iff)
  moreover have "k \<notin> set (vc_acked (fold (consume_row (tx n) parse) ?rows (?s\<lparr>vc_reads := vc_reads ?s @ [''0'']\<rparr>)))
    \<and> vc_recover (fold (consume_row (tx n) parse) ?rows (?s\<lparr>vc_reads := vc_reads ?s @ [''0'']\<rparr>))
    \<and> vc_reads (fold (consume_row (tx n) parse) ?rows (?s\<lparr>vc_reads := vc_reads ?s @ [''0'']\<rparr>))
       = vc_reads ?s @ [''0'']"
    using consume_rows_acked [of k "?s\<lparr>vc_reads := vc_reads ?s @ [''0'']\<rparr>" ?rows parse "tx n"]
      fails Suc by auto
  ultimately show ?case
    using Suc by (simp add: consumer_iteration_def Let_def replicate_append_same [symmetric])
qed

end
