(* ===== verification/Snapshots.thy ===== *)
theory Snapshots
  imports Ledger
begin

text \<open>
  \<^verbatim>\<open>worker/app/position_snapshots.py\<close>, the payload an alpha reads its open positions from, and
  \<^verbatim>\<open>worker/app/position_ownership.py\<close>, the monitor that compares the open positions with what the
  running alphas claim to manage.  The answers of the two Redis servers and the clock are
  arguments; sorted lists are kept as sets.
\<close>

section \<open>PositionSnapshotPublisher\<close>

record snapshot =
  sn_alpha :: string
  sn_revision :: int
  sn_generated :: isotext
  sn_positions :: "(position \<times> json) list"

text \<open>The row with its metadata parsed; a text that does not parse is kept as it is.\<close>

definition snapshot_position :: "position \<Rightarrow> position \<times> json" where
  "snapshot_position p = (p, case jloads (or_empty_obj (p_metadata p)) of
       Inr j \<Rightarrow> j
     | Inl _ \<Rightarrow> JObj [(''legacy_raw'', jopt raw_json (p_metadata p))])"

text \<open>\<open>incr\<close> is the answer of the INCR and \<open>stored\<close> says whether the SET went through.\<close>

definition publish_alpha ::
  "int res \<Rightarrow> bool \<Rightarrow> isotext \<Rightarrow> db \<Rightarrow> string \<Rightarrow> (string \<rightharpoonup> snapshot) \<Rightarrow> snapshot res \<times> (string \<rightharpoonup> snapshot)"
  where
  "publish_alpha incr stored now d alpha_id keyspace = (case incr of
       Inl e \<Rightarrow> (Inl e, keyspace)
     | Inr revision \<Rightarrow>
         (let payload = \<lparr>sn_alpha = alpha_id, sn_revision = revision, sn_generated = now,
                sn_positions = map snapshot_position (get_all_open_positions d (Some alpha_id))\<rparr>
          in if stored then (Inr payload, keyspace(alpha_id \<mapsto> payload))
             else (Inl RedisError, keyspace)))"

text \<open>The alphas \<open>publish_all\<close> goes through; an exception of one of them is swallowed.\<close>

definition published_alphas :: "db \<Rightarrow> string set" where
  "published_alphas d = a_id ` set (alphas d) \<union> p_alpha ` set (get_all_open_positions d None)"

definition publish_all ::
  "(string \<Rightarrow> int res) \<Rightarrow> (string \<Rightarrow> bool) \<Rightarrow> isotext \<Rightarrow> db \<Rightarrow> string list
     \<Rightarrow> (string \<rightharpoonup> snapshot) \<Rightarrow> (string \<rightharpoonup> snapshot)" where
  "publish_all incr stored now d sorted_alphas keyspace =
     fold (\<lambda>a ks. snd (publish_alpha (incr a) (stored a) now d a ks)) sorted_alphas keyspace"

section \<open>PositionOwnershipMonitor\<close>

text \<open>\<open>set(v)\<close> of a parsed JSON value.\<close>

fun hashable :: "json \<Rightarrow> bool" where
  "hashable (JArr _) = False"
| "hashable (JObj _) = False"
| "hashable _ = True"

fun py_set :: "json \<Rightarrow> json set res" where
  "py_set (JArr xs) = (if list_all hashable xs then Inr (set xs) else Inl TypeError)"
| "py_set (JStr s) = Inr ((\<lambda>c. JStr [c]) ` set s)"
| "py_set (JObj d) = Inr ((JStr \<circ> fst) ` set d)"
| "py_set _ = Inl TypeError"

record mismatch =
  mm_alpha :: string
  mm_missing_ids :: "json set"
  mm_extra_ids :: "json set"
  mm_missing_subscriptions :: "json set"
  mm_missing_actual :: "json set"
  mm_mds_error :: "exn option"
  mm_paper_error :: "exn option"
  mm_not_live :: bool

definition has_mismatch :: "mismatch \<Rightarrow> bool" where
  "has_mismatch m \<longleftrightarrow> mm_missing_ids m \<noteq> {} \<or> mm_extra_ids m \<noteq> {}
     \<or> mm_missing_subscriptions m \<noteq> {} \<or> mm_missing_actual m \<noteq> {}
     \<or> mm_mds_error m \<noteq> None \<or> mm_paper_error m \<noteq> None \<or> mm_not_live m"

text \<open>
  The heartbeat of an alpha: a missing or unparsable one is empty, a text that parses to
  something else than an object has no \<open>get\<close>.
\<close>

definition heartbeat_of :: "jtext option \<Rightarrow> (string, json) dict res" where
  "heartbeat_of raw = (case given raw of
       None \<Rightarrow> Inr []
     | Some t \<Rightarrow> (case jloads t of
           Inl _ \<Rightarrow> Inr []
         | Inr (JObj h) \<Rightarrow> Inr h
         | Inr _ \<Rightarrow> Inl AttributeError))"

text \<open>One alpha: \<open>subs\<close> is the union of its subscription sets, or the error of a read.\<close>

definition check_alpha ::
  "string \<Rightarrow> position list \<Rightarrow> jtext option res \<Rightarrow> string set res \<Rightarrow> mismatch res" where
  "check_alpha alpha_id rows reply subs =
     (let raw = (case reply of Inl _ \<Rightarrow> None | Inr r \<Rightarrow> r);
          expected_ids = (JStr \<circ> p_id) ` set rows;
          expected_symbols = (JStr \<circ> p_symbol) ` set rows
      in res_bind (heartbeat_of raw) (\<lambda>h.
         res_bind (py_set (dget h ''managed_position_ids'' (JArr []))) (\<lambda>managed.
         res_bind (py_set (dget h ''desired_price_alert_symbols'' (JArr []))) (\<lambda>desired.
         Inr \<lparr>mm_alpha = alpha_id, mm_missing_ids = expected_ids - managed,
              mm_extra_ids = managed - expected_ids,
              mm_missing_subscriptions = expected_symbols - desired,
              mm_missing_actual = expected_symbols
                - (case subs of Inl _ \<Rightarrow> {} | Inr s \<Rightarrow> JStr ` s),
              mm_mds_error = (case subs of Inl e \<Rightarrow> Some e | Inr _ \<Rightarrow> None),
              mm_paper_error = (case reply of Inl e \<Rightarrow> Some e | Inr _ \<Rightarrow> None),
              mm_not_live = (dget h ''runtime_state'' JNull \<noteq> JStr ''LIVE'')\<rparr>))))"

definition check_details ::
  "(string \<Rightarrow> jtext option res) \<Rightarrow> (string \<Rightarrow> string set res) \<Rightarrow> db \<Rightarrow> string list
     \<Rightarrow> mismatch list res" where
  "check_details reply subs d sorted_alphas =
     res_bind (res_map (\<lambda>a. check_alpha a (filter (\<lambda>p. p_alpha p = a) (positions d)) (reply a) (subs a))
       sorted_alphas) (\<lambda>ms. Inr (filter has_mismatch ms))"

record monitor =
  mo_grace :: real
  mo_since :: "real option"
  mo_healthy :: bool
  mo_count :: nat

text \<open>\<open>self._mismatch_since or now\<close>: a recorded time of zero counts as unset.\<close>

definition monitor_step :: "mismatch list \<Rightarrow> real \<Rightarrow> monitor \<Rightarrow> monitor" where
  "monitor_step details now m =
     (let since = (if details \<noteq> []
            then Some (case mo_since m of None \<Rightarrow> now | Some t \<Rightarrow> if t = 0 then now else t)
            else None);
          degraded = (case since of None \<Rightarrow> False | Some t \<Rightarrow> mo_grace m \<le> now - t)
      in m\<lparr>mo_since := since, mo_healthy := \<not> degraded, mo_count := length details\<rparr>)"

section \<open>Lemmas\<close>

lemma publish_alpha_complete:
  assumes "publish_alpha incr stored now d a ks = (Inr s, ks')" and "a \<noteq> ''''"
  shows "ks' a = Some s" and "map fst (sn_positions s) = filter (\<lambda>p. p_alpha p = a) (positions d)"
    and "\<And>b. b \<noteq> a \<Longrightarrow> ks' b = ks b"
  using assms
  by (auto simp: publish_alpha_def get_all_open_positions_def snapshot_position_def o_def Let_def
      split: sum.splits if_splits)

lemma publish_alpha_fails: "publish_alpha incr stored now d a ks = (Inl e, ks') \<Longrightarrow> ks' = ks"
  by (auto simp: publish_alpha_def Let_def split: sum.splits if_splits)

lemma publish_all_fresh:
  assumes "\<And>a. \<exists>r. incr a = Inr r" and "\<And>a. stored a" and "a \<in> set as" and "a \<noteq> ''''"
  shows "\<exists>s. publish_all incr stored now d as ks a = Some s \<and>
           map fst (sn_positions s) = filter (\<lambda>p. p_alpha p = a) (positions d)"
  using assms(3)
proof (induction as rule: rev_induct)
  case Nil
  then show ?case by simp
next
  case (snoc b as)
  let ?ks = "publish_all incr stored now d as ks"
  obtain r where r: "incr b = Inr r" using assms(1) by blast
  obtain s where s: "publish_alpha (incr b) (stored b) now d b ?ks = (Inr s, ?ks(b \<mapsto> s))"
    using r assms(2) by (simp add: publish_alpha_def Let_def)
  have e: "publish_all incr stored now d (as @ [b]) ks = ?ks(b \<mapsto> s)"
    using s by (simp add: publish_all_def)
  show ?case
  proof (cases "b = a")
    case True
    with e publish_alpha_complete(2) [OF s] assms(4) show ?thesis by auto
  next
    case False
    with e snoc show ?thesis by auto
  qed
qed

text \<open>A run of checks that all find a mismatch, at positive clock readings.\<close>

definition monitor_run :: "(mismatch list \<times> real) list \<Rightarrow> monitor \<Rightarrow> monitor" where
  "monitor_run cs m = fold (\<lambda>(ds, now). monitor_step ds now) cs m"

lemma monitor_run_since:
  assumes "mo_since m = None" and "cs \<noteq> []" and "\<And>ds t. (ds, t) \<in> set cs \<Longrightarrow> ds \<noteq> [] \<and> 0 < t"
  shows "mo_since (monitor_run cs m) = Some (snd (hd cs)) \<and>
         mo_healthy (monitor_run cs m) = (snd (last cs) - snd (hd cs) < mo_grace m) \<and>
         mo_grace (monitor_run cs m) = mo_grace m"
  using assms(2,3)
proof (induction cs rule: rev_nonempty_induct)
  case (single c)
  obtain ds t where c: "c = (ds, t)" by (cases c)
  with single.prems [of ds t] assms(1) show ?case
    by (simp add: monitor_run_def monitor_step_def Let_def not_le)
next
  case (snoc c cs)
  obtain ds t where c: "c = (ds, t)" by (cases c)
  have nz: "snd (hd cs) \<noteq> 0"
    using snoc.prems [of "fst (hd cs)" "snd (hd cs)"] snoc.hyps by (cases cs) auto
  have IH: "mo_since (monitor_run cs m) = Some (snd (hd cs))"
    "mo_grace (monitor_run cs m) = mo_grace m"
    using snoc.IH snoc.prems by auto
  have "monitor_run (cs @ [c]) m = monitor_step ds t (monitor_run cs m)"
    by (simp add: monitor_run_def c)
  moreover have "ds \<noteq> []" using snoc.prems [of ds t] c by simp
  ultimately show ?case
    using IH nz snoc.hyps c by (simp add: monitor_step_def Let_def not_le hd_append)
qed

lemma monitor_recovers: "mo_healthy (monitor_step [] now m) \<and> mo_since (monitor_step [] now m) = None"
  by (simp add: monitor_step_def Let_def)

text \<open>An alpha that is live, manages its positions and is subscribed raises no mismatch.\<close>

lemma check_alpha_clean:
  assumes "map_of h ''managed_position_ids'' = Some (JArr (map (JStr \<circ> p_id) rows))"
    and "map_of h ''desired_price_alert_symbols'' = Some (JArr ds)"
    and "(JStr \<circ> p_symbol) ` set rows \<subseteq> set ds" and "list_all hashable ds"
    and "map_of h ''runtime_state'' = Some (JStr ''LIVE'')" and "p_symbol ` set rows \<subseteq> s"
  shows "\<exists>m. check_alpha a rows (Inr (Some (JText (JObj h)))) (Inr s) = Inr m \<and> \<not> has_mismatch m"
  using assms
  by (auto simp: check_alpha_def heartbeat_of_def dget_def has_mismatch_def list_all_iff Let_def)

end
