(* ===== verification/LedgerProperties.thy ===== *)
theory LedgerProperties
  imports VirtualLedger Snapshots
begin

text \<open>
  Properties of the virtual ledger and its consumer, of the position snapshots and of the
  ownership monitor, with a virtual event and a table to evaluate them on.
\<close>

section \<open>The virtual ledger\<close>

definition ev_time :: "string \<Rightarrow> isotext" where
  "ev_time t = IsoText \<lparr>wall = 0, utcoff = Some 0\<rparr>"

definition ev :: "string \<Rightarrow> string \<Rightarrow> int \<Rightarrow> event" where
  "ev k ty x = [(''type'', JStr ty), (''event_id'', JStr k), (''position_id'', JStr ''v1''),
     (''alpha_id'', JStr ''a''), (''symbol'', JStr ''BTC''), (''side'', JStr ''LONG''),
     (''price'', JInt x), (''qty'', JInt 2), (''timestamp'', JStr ''t'')]"

definition ev_opened :: db where
  "ev_opened = snd (apply_virtual_trade_event TxOk ev_time (ev ''e1'' ''VIRTUAL_OPEN'' 100) empty_db)"

definition ev_position :: position where
  "ev_position = \<lparr>p_id = ''v1'', p_alpha = ''a'', p_signal = ''e1'', p_symbol = ''BTC'',
     p_side = ''LONG'', p_entry = Some (Fin 100), p_qty = Some (Fin 2), p_tp = None, p_sl = None,
     p_leverage = 1, p_opened = ev_time ''t'', p_metadata = Some (JText (JObj [])),
     p_exchange = ''binance'', p_fee_pct = None\<rparr>"

lemmas ev_defs = ev_def event_str_def event_float_def item_def bind_def lift_res_def ret_def
  then_do_def modify_def get_state_def throw_def

lemma ev_opened:
  "apply_virtual_trade_event TxOk ev_time (ev ''e1'' ''VIRTUAL_OPEN'' 100) empty_db =
     (Inr (Some \<lparr>lr_event = ''VIRTUAL_OPEN'', lr_position = ''v1'', lr_pnl = None\<rparr>), ev_opened)"
  "virtual_positions ev_opened = [ev_position]" "virtual_trades ev_opened = []"
  "event_applied ev_opened ''e1''" "\<not> event_applied ev_opened ''e2''"
  by (simp_all add: ev_opened_def apply_virtual_trade_event_def ev_defs transaction_def
      event_applied_def empty_db_def virtual_open_def virtual_open_row_def insert_virtual_event_def
      ev_position_def event_metadata_def jdumps_def dget_def)

text \<open>
  Applying a virtual event is all or nothing and happens at most once: when it raises, the
  tables are as they were; when it returns, the event is on record, and it had been before
  exactly when the result is \<open>None\<close>, in which case nothing changed.
\<close>

theorem virtual_event_atomic:
  assumes "event_str e ''event_id'' = Inr k" and "apply_virtual_trade_event tx parse e d = (r, d')"
  shows "case r of
      Inl x \<Rightarrow> d' = d
    | Inr v \<Rightarrow> event_applied d' k \<and> (v = None \<longleftrightarrow> event_applied d k) \<and> (event_applied d k \<longrightarrow> d' = d)"
proof (cases r)
  case (Inl x)
  with assms(2) apply_event_raises show ?thesis by simp
next
  case (Inr v)
  with assms(2) have "apply_virtual_trade_event tx parse e d = (Inr v, d')" by simp
  from apply_event_returns [OF this assms(1)] Inr show ?thesis by auto
qed

theorem virtual_event_atomic_witness:
  "event_applied ev_opened ''e1'' \<and> \<not> event_applied empty_db ''e1''"
  using virtual_event_atomic [OF _ ev_opened(1), of "''e1''"]
  by (simp add: ev_def event_str_def item_def)

lemma keeps_event_applied:
  "event_applied d k \<Longrightarrow> event_applied (snd (apply_virtual_trade_event tx parse e d)) k"
proof -
  have ops: "keeps (\<lambda>d. event_applied d k) (virtual_open parse e)"
    "keeps (\<lambda>d. event_applied d k) (virtual_close parse e)"
  proof -
    show "keeps (\<lambda>d. event_applied d k) (virtual_open parse e)"
      using virtual_ops_events(1) [of parse e] unfolding keeps_def event_applied_def
      by (metis prod.collapse)
    show "keeps (\<lambda>d. event_applied d k) (virtual_close parse e)"
      using virtual_ops_events(2) [of parse e] unfolding keeps_def event_applied_def
      by (metis prod.collapse)
  qed
  have ins: "keeps (\<lambda>d. event_applied d k) (insert_virtual_event v)" for v
    by (auto simp: keeps_def insert_virtual_event_def event_applied_def)
  have "keeps (\<lambda>d. event_applied d k) (apply_virtual_trade_event tx parse e)"
    unfolding apply_virtual_trade_event_def
    by (intro keeps_intros keeps_transaction keeps_if ops ins) simp_all
  then show "event_applied d k \<Longrightarrow> event_applied (snd (apply_virtual_trade_event tx parse e d)) k"
    by (rule keepsD)
qed

text \<open>
  Redelivery is harmless: once an event was applied, whatever events are applied in between,
  another delivery with the same event id leaves the tables untouched.
\<close>

theorem virtual_redelivery:
  assumes "event_str e ''event_id'' = Inr k" and "apply_virtual_trade_event tx parse e d = (Inr r, d1)"
    and "event_str e' ''event_id'' = Inr k"
    and "d2 = fold (\<lambda>(tx, e) d. snd (apply_virtual_trade_event tx parse e d)) es d1"
  shows "snd (apply_virtual_trade_event tx' parse e' d2) = d2"
proof -
  have "event_applied d1 k" by (rule apply_event_returns(1) [OF assms(2,1)])
  then have "event_applied d2 k"
    unfolding assms(4) by (induction es arbitrary: d1) (auto intro: keeps_event_applied)
  then show ?thesis by (rule apply_event_again [OF _ assms(3)])
qed

theorem virtual_redelivery_witness:
  "let d2 = fold (\<lambda>(tx, e) d. snd (apply_virtual_trade_event tx ev_time e d))
       [(TxOk, ev ''e2'' ''VIRTUAL_CLOSE'' 110)] ev_opened
   in snd (apply_virtual_trade_event TxOk ev_time (ev ''e1'' ''VIRTUAL_OPEN'' 50) d2) = d2"
  unfolding Let_def
  by (rule virtual_redelivery [OF _ ev_opened(1) _ refl])
    (simp_all add: ev_def event_str_def item_def)

text \<open>
  A VIRTUAL_CLOSE that is applied moves exactly the position it names from the open ones to
  the trades, and the trade realises its price difference on its whole quantity.
\<close>

theorem virtual_close_realises:
  assumes "virtual_close parse e d = (Inr r, d')" and "virtual_inv d"
    and "find (\<lambda>p. p_id p = k) (virtual_positions d) = Some p"
    and "event_str e ''position_id'' = Inr k" and "event_float e ''price'' = Inr (Fin x)"
    and "p_entry p = Some (Fin en)" and "p_qty p = Some (Fin q)"
  shows "\<exists>t. virtual_trades d' = virtual_trades d @ [t] \<and> t_position t = k \<and> t_qty t = Some (Fin q) \<and>
           t_pnl t = Some (Fin ((x - en) * q * (if p_side p = ''LONG'' then 1 else -1))) \<and>
           virtual_positions d' = filter (\<lambda>p. p_id p \<noteq> k) (virtual_positions d)"
  using assms(1)
proof (cases rule: virtual_close_apply)
  case (1 p' t pnl)
  have "p_id p' = k" using 1(2) assms(4) by simp
  moreover have "p \<in> set (virtual_positions d)" "p_id p = k" using find_SomeD [OF assms(3)] by simp_all
  ultimately have p': "p' = p"
    using assms(2) 1(1) by (auto simp: virtual_inv_def distinct_map dest: inj_onD)
  note v = virtual_trade_pnl [OF 1(3) _ _ assms(5)]
  have "t_position t = p_id p"
    using 1(3) by (auto simp: p' virtual_trade_def res_bind_Inr_iff Let_def split: if_splits)
  with v [of en q] 1 p' assms(6,7) \<open>p_id p = k\<close> show ?thesis by auto
qed

definition ev_closed :: db where
  "ev_closed = snd (virtual_close ev_time (ev ''e2'' ''VIRTUAL_CLOSE'' 110) ev_opened)"

theorem virtual_close_realises_witness:
  "map t_pnl (virtual_trades ev_closed) = [Some (Fin 20)] \<and> virtual_positions ev_closed = []"
proof -
  let ?e = "ev ''e2'' ''VIRTUAL_CLOSE'' 110"
  have "trade_duration_hours \<lparr>wall = 0, utcoff = Some 0\<rparr> \<lparr>wall = 0, utcoff = Some 0\<rparr> ''binance'' = Inr 0"
    by (simp add: trade_duration_hours_def us_between_def lower_def lower_char_def Let_def)
  then have "\<exists>r d'. virtual_close ev_time ?e ev_opened = (Inr r, d')"
    by (simp add: virtual_close_def ev_opened(2,3) ev_defs ev_position_def virtual_trade_def ev_time_def
        exchange_or_binance_def insert_virtual_trade_def Let_def)
  then obtain r where c: "virtual_close ev_time ?e ev_opened = (Inr r, ev_closed)"
    by (auto simp: ev_closed_def)
  have f: "find (\<lambda>p. p_id p = ''v1'') (virtual_positions ev_opened) = Some ev_position"
    by (simp add: ev_opened ev_position_def)
  have i: "virtual_inv ev_opened"
    using keepsD [OF apply_event_inv, of empty_db TxOk ev_time "ev ''e1'' ''VIRTUAL_OPEN'' 100"]
    by (simp add: ev_opened_def virtual_inv_def empty_db_def)
  from virtual_close_realises [OF c i f, of 110 100 2] show ?thesis
    by (auto simp: ev_def event_str_def event_float_def item_def ev_position_def ev_opened(2,3))
qed

text \<open>
  A position that was opened with a NaN price or quantity is stored with NULL; no
  VIRTUAL_CLOSE ever closes it: each raises, or had been applied before, and changes nothing.
\<close>

theorem null_position_is_stuck:
  assumes "find (\<lambda>p. p_id p = k) (virtual_positions d) = Some p"
    and "p_entry p = None \<or> p_qty p = None"
    and "event_str e ''position_id'' = Inr k" and "event_str e ''type'' = Inr ''VIRTUAL_CLOSE''"
  shows "\<exists>x. apply_virtual_trade_event tx parse e d = (Inl x, d) \<or>
             apply_virtual_trade_event tx parse e d = (Inr None, d)"
  using null_position_never_closes [OF assms(1-3), of tx parse] assms(4) by auto

definition ev_null_db :: db where
  "ev_null_db = empty_db\<lparr>virtual_positions := [ev_position\<lparr>p_entry := None\<rparr>]\<rparr>"

theorem null_position_is_stuck_witness:
  "snd (apply_virtual_trade_event TxOk ev_time (ev ''e2'' ''VIRTUAL_CLOSE'' 110) ev_null_db) = ev_null_db"
proof -
  have "\<exists>x. apply_virtual_trade_event TxOk ev_time (ev ''e2'' ''VIRTUAL_CLOSE'' 110) ev_null_db = (Inl x, ev_null_db) \<or>
      apply_virtual_trade_event TxOk ev_time (ev ''e2'' ''VIRTUAL_CLOSE'' 110) ev_null_db = (Inr None, ev_null_db)"
    by (rule null_position_is_stuck [of "''v1''" _ "ev_position\<lparr>p_entry := None\<rparr>"])
      (simp_all add: ev_null_db_def empty_db_def ev_position_def ev_def event_str_def item_def)
  then show ?thesis by auto
qed

text \<open>
  C38. One pending message that always fails keeps the consumer on its pending entries for good:
  as long as the group returns the unacknowledged entry, every read starts at \<^verbatim>\<open>0\<close> and no new
  message is ever read.
\<close>

theorem poison_message_blocks:
  assumes "\<And>n acked. k \<notin> set acked \<Longrightarrow> \<exists>msg. (k, msg) \<in> set (reply n ''0'' acked)"
    and "\<And>n acked msg. (k, msg) \<in> set (reply n ''0'' acked) \<Longrightarrow> always_fails parse msg"
    and "vc_recover s" and "k \<notin> set (vc_acked s)"
  shows "vc_recover (consumer_run tx parse reply n s) \<and> k \<notin> set (vc_acked (consumer_run tx parse reply n s))
    \<and> vc_reads (consumer_run tx parse reply n s) = vc_reads s @ replicate n ''0''"
  using assms by (rule poison_blocks)

definition ev_reply :: "nat \<Rightarrow> string \<Rightarrow> string list \<Rightarrow> row list" where
  "ev_reply n start acked = (if ''m1'' \<in> set acked then [] else [(''m1'', Bare [])])"

theorem poison_message_blocks_witness:
  "vc_reads (consumer_run (\<lambda>_ _. TxOk) ev_time ev_reply 3
      \<lparr>vc_db = empty_db, vc_recover = True, vc_acked = [], vc_reads = []\<rparr>) = [''0'', ''0'', ''0'']"
proof -
  have "always_fails ev_time (Bare [])"
    by (auto simp: always_fails_def process_virtual_trade_message_def bind_def lift_res_def then_do_def
        check_event_def require_def)
  then have fails: "(''m1'', msg) \<in> set (ev_reply n ''0'' acked) \<Longrightarrow> always_fails ev_time msg" for n acked msg
    by (simp add: ev_reply_def split: if_splits)
  have reply: "''m1'' \<notin> set acked \<Longrightarrow> \<exists>msg. (''m1'', msg) \<in> set (ev_reply n ''0'' acked)" for n acked
    by (simp add: ev_reply_def)
  have "vc_reads (consumer_run (\<lambda>_ _. TxOk) ev_time ev_reply 3
      \<lparr>vc_db = empty_db, vc_recover = True, vc_acked = [], vc_reads = []\<rparr>) = [] @ replicate 3 ''0''"
    using poison_message_blocks [where k = "''m1''" and reply = ev_reply and parse = ev_time and n = 3 and
      s = "\<lparr>vc_db = empty_db, vc_recover = True, vc_acked = [], vc_reads = []\<rparr>" and tx = "\<lambda>_ _. TxOk",
      OF reply fails] by simp
  then show ?thesis by (simp add: numeral_3_eq_3)
qed

section \<open>Snapshots and ownership\<close>

text \<open>
  After a publication of all alphas in which Redis answered, the key of every alpha holds
  exactly its open positions, in table order.
\<close>

theorem snapshot_shows_open_positions:
  assumes "\<And>a. \<exists>r. incr a = Inr r" and "\<And>a. stored a" and "a \<in> set as" and "a \<noteq> ''''"
  shows "\<exists>s. publish_all incr stored now d as ks a = Some s \<and>
           map fst (sn_positions s) = filter (\<lambda>p. p_alpha p = a) (positions d)"
  using assms by (rule publish_all_fresh)

theorem snapshot_shows_open_positions_witness:
  "\<exists>s. publish_all (\<lambda>_. Inr 1) (\<lambda>_. True) (ev_time ''t'') (empty_db\<lparr>positions := [ev_position]\<rparr>)
     [''a''] Map.empty ''a'' = Some s \<and> map fst (sn_positions s) = [ev_position]"
  using snapshot_shows_open_positions [of "\<lambda>_. Inr 1" "\<lambda>_. True" "''a''" "[''a'']" "ev_time ''t''"
      "empty_db\<lparr>positions := [ev_position]\<rparr>" Map.empty]
  by (simp add: ev_position_def)

text \<open>
  The monitor turns unhealthy exactly when mismatches were seen without interruption for the
  grace period, counted from the first of them (at positive times; a time of zero would be taken
  as unset).
\<close>

theorem monitor_grace_period:
  assumes "mo_since m = None" and "cs \<noteq> []" and "\<And>ds t. (ds, t) \<in> set cs \<Longrightarrow> ds \<noteq> [] \<and> 0 < t"
  shows "mo_healthy (monitor_run cs m) = (snd (last cs) - snd (hd cs) < mo_grace m)"
  using monitor_run_since [OF assms] by simp

definition ev_mismatch :: mismatch where
  "ev_mismatch = \<lparr>mm_alpha = ''a'', mm_missing_ids = {JStr ''p1''}, mm_extra_ids = {},
     mm_missing_subscriptions = {}, mm_missing_actual = {}, mm_mds_error = None,
     mm_paper_error = None, mm_not_live = False\<rparr>"

definition ev_monitor :: monitor where
  "ev_monitor = \<lparr>mo_grace = 30, mo_since = None, mo_healthy = True, mo_count = 0\<rparr>"

theorem monitor_grace_period_witness:
  "mo_healthy (monitor_run [([ev_mismatch], 1), ([ev_mismatch], 20)] ev_monitor) \<and>
   \<not> mo_healthy (monitor_run [([ev_mismatch], 1), ([ev_mismatch], 40)] ev_monitor)"
proof -
  have "mo_healthy (monitor_run [([ev_mismatch], 1), ([ev_mismatch], t)] ev_monitor) = (t - 1 < 30)"
    if "1 < t" for t
    using that by (subst monitor_grace_period) (auto simp: ev_monitor_def)
  then show ?thesis by simp
qed

end
