(* ===== verification/MarketProperties.thy ===== *)
theory MarketProperties
  imports PriceCaches TradeClock
begin

text \<open>
  Properties of the prices the worker fills at and of the clock it measures trades with.
\<close>

section \<open>Fills\<close>


definition mk_cfg :: fill_cfg where
  "mk_cfg = \<lparr>slippage_pct = Fin 1, supported_exchanges = [''binance''], latency_model_enabled = True,
     latency_ms = Fin 0, min_adverse_bps = Fin 10\<rparr>"

definition mk_breaker :: breaker_cfg where
  "mk_breaker = \<lparr>failure_threshold = 3, cooldown_sec = 10\<rparr>"

definition mk_rpc :: "real \<Rightarrow> rpc_env" where
  "mk_rpc t = \<lparr>check_at = t, outcome = RpcTimeout, fail_at = t\<rparr>"

definition mk_env :: fill_env where
  "mk_env = \<lparr>first_query = mk_rpc 0, second_query = mk_rpc 0, first_id = ''r1'', second_id = ''r2'',
     first_ms = Fin 0, second_ms = Fin 0\<rparr>"


text \<open>
  The price of a fill lies between the average execution price of the service's answer and
  the fallback price (the reference with the fixed percentage against the order).
\<close>

theorem fill_between_book_and_fallback:
  assumes "valid_resp r" and "isfinite ref" and "isfinite s"
    and "resp_float r ''avg_exec_price'' = Inr (Fin a)"
    and "(if ex then ref else fixed_pct_fill ref side s is_close) = Fin b"
  shows "\<exists>p. resolve_fill_price (Some r) ref side is_close s ex = Inr (Fin p) \<and>
           min a b \<le> p \<and> p \<le> max a b"
  using assms by (rule resolve_fill_price_between)

definition mk_resp :: resp where
  "mk_resp = [(''avg_exec_price'', JInt 101), (''filled_qty'', JInt 1), (''requested_qty'', JInt 2)]"

theorem fill_between_book_and_fallback_witness:
  "\<exists>p. resolve_fill_price (Some mk_resp) (Fin 100) ''LONG'' False (Fin 1) True = Inr (Fin p) \<and>
     100 \<le> p \<and> p \<le> 101"
proof -
  have "valid_resp mk_resp"
    by (simp add: valid_resp_def mk_resp_def nonneg_field_def resp_float_def)
  from fill_between_book_and_fallback [OF this, of "Fin 100" "Fin 1" 101 True "''LONG''" False 100]
  show ?thesis by (simp add: mk_resp_def resp_float_def)
qed

text \<open>
  The circuit breaker opens with the failure that reaches the threshold: until the cooldown
  after that failure is over, every query is answered with nothing, puts no request on the queue
  of the service and leaves the breaker as it is.
\<close>

theorem breaker_trips:
  assumes "enqueues env c" and "fst (query cfg rid env c) = None"
    and "failure_threshold cfg \<le> failures c + 1"
    and "check_at env' < fail_at env + cooldown_sec cfg"
  shows "query cfg rid' env' (snd (query cfg rid env c)) = (None, snd (query cfg rid env c)) \<and>
    \<not> enqueues env' (snd (query cfg rid env c))"
  using query_while_open [OF query_failure_opens [OF assms(1-3)] assms(4)] by simp

theorem breaker_trips_witness:
  "let c = new_client\<lparr>failures := 2\<rparr>; c' = snd (query mk_breaker ''r'' (mk_rpc 5) c)
   in enqueues (mk_rpc 5) c \<and> \<not> enqueues (mk_rpc 9) c'"
proof -
  have "enqueues (mk_rpc 5) (new_client\<lparr>failures := 2\<rparr>)"
    "fst (query mk_breaker ''r'' (mk_rpc 5) (new_client\<lparr>failures := 2\<rparr>)) = None"
    by (simp_all add: enqueues_def breaker_open_def new_client_def mk_rpc_def query_def)
  with breaker_trips [OF this, of "mk_rpc 9"] show ?thesis
    by (simp add: mk_breaker_def new_client_def mk_rpc_def Let_def)
qed

section \<open>Quotes\<close>

text \<open>
  The price a take-profit or stop-loss is checked against is never zero or negative.  It is
  executable exactly when it is a side of a book that is ready; otherwise it is the last ticker
  price, no older than the staleness bound.
\<close>

theorem exit_price_is_fresh:
  assumes "ticker_ok tick" and "exit_price_fn now ob tick s side = Some q"
  shows "\<not> price q \<le> Fin 0 \<and>
    (if is_executable q then side_quote now ob s side ''binance'' = Some q
     else \<exists>ts. ticker_prices tick s = Some (price q, ts) \<and> now - ts \<le> ticker_staleness_sec tick)"
  using exit_src.quote_positive [of "(now, ob, tick)" s side q] assms
  by (auto simp: exit_price_fn_def dest: side_quote_executable get_quote_fresh split: option.splits)

theorem exit_price_is_fresh_witness:
  "\<exists>q. exit_price_fn 3 \<lparr>book = Map.empty, waiters = Map.empty, woken = {}, ob_staleness_sec = 5\<rparr>
     (update_price 1 ''BTC'' (Fin 100) (new_ticker_cache 5)) ''BTC'' ''LONG'' = Some q \<and> \<not> price q \<le> Fin 0"
proof -
  let ?ob = "\<lparr>book = Map.empty, waiters = Map.empty, woken = {}, ob_staleness_sec = 5\<rparr>"
  let ?tick = "update_price 1 ''BTC'' (Fin 100) (new_ticker_cache 5)"
  have "\<exists>q. exit_price_fn 3 ?ob ?tick ''BTC'' ''LONG'' = Some q"
    by (simp add: exit_price_fn_def side_quote_def get_quote_def update_price_def new_ticker_cache_def)
  with exit_price_is_fresh [of ?tick 3 ?ob "''BTC''" "''LONG''"] show ?thesis by auto
qed

text \<open>
  No wake-up is lost: an update after which the book of a symbol is ready wakes every task
  that waits for it, and leaves none registered.
\<close>

theorem no_lost_wakeup:
  assumes "is_ready now' (ob_update now now' s bid ask st ex c) ex s"
    and "waiters c (book_key ex s) = Some ws"
  shows "waiters (ob_update now now' s bid ask st ex c) (book_key ex s) = None \<and>
         ws \<subseteq> woken (ob_update now now' s bid ask st ex c)"
  using assms by (rule ob_update_wakes)

theorem no_lost_wakeup_witness:
  "let c = snd (wait_begin 0 ''binance'' ''BTC'' 7
         \<lparr>book = Map.empty, waiters = Map.empty, woken = {}, ob_staleness_sec = 5\<rparr>)
   in 7 \<in> woken (ob_update 1 1 ''BTC'' (Fin 99) (Fin 100) ''READY'' ''binance'' c)"
proof -
  let ?c = "snd (wait_begin 0 ''binance'' ''BTC'' 7
         \<lparr>book = Map.empty, waiters = Map.empty, woken = {}, ob_staleness_sec = 5\<rparr>)"
  have "is_ready 1 (ob_update 1 1 ''BTC'' (Fin 99) (Fin 100) ''READY'' ''binance'' ?c) ''binance'' ''BTC''"
    "waiters ?c (book_key ''binance'' ''BTC'') = Some {7}"
    by (simp_all add: is_ready_def ob_update_def wait_begin_def Let_def)
  from no_lost_wakeup [OF this] show ?thesis by (simp add: Let_def)
qed

section \<open>Durations\<close>

text \<open>
  The walk over the trading sessions measures exactly the microseconds between the two times
  that lie in a session: a weekday, inside one of the two windows.
\<close>

theorem session_time_is_measured: "active_session_us opened clsd = session_time opened clsd"
  by (rule active_session_spec)

text \<open>
  A trade's duration is never negative and never longer than the time between its two
  timestamps (zero when they are the wrong way round).
\<close>

theorem duration_is_bounded:
  assumes "us_between opened clsd = Inr d" and "trade_duration_hours opened clsd ex = Inr h"
  shows "0 \<le> h \<and> h \<le> max (real_of_int d / 3600000000) 0"
  using trade_duration_bounds [OF assms] by simp

theorem duration_is_bounded_witness:
  "\<exists>h. trade_duration_hours \<lparr>wall = 0, utcoff = None\<rparr> \<lparr>wall = 7200000000, utcoff = None\<rparr> ''binance'' = Inr h
     \<and> 0 \<le> h \<and> h \<le> 2"
proof -
  obtain h where "trade_duration_hours \<lparr>wall = 0, utcoff = None\<rparr> \<lparr>wall = 7200000000, utcoff = None\<rparr>
      ''binance'' = Inr h"
    using trade_duration_raises [of "\<lparr>wall = 0, utcoff = None\<rparr>" "\<lparr>wall = 7200000000, utcoff = None\<rparr>"] by auto
  with duration_is_bounded [OF _ this, of 7200000000] show ?thesis by (auto simp: us_between_def)
qed

end
