(* ===== verification/Streaming.thy ===== *)
theory Streaming
  imports Prelude
begin

text \<open>
  \<^verbatim>\<open>indicators/streaming\<close>: \<open>RollingExtreme\<close>, \<open>DecayLinear\<close>, \<open>RollingMoments\<close>, \<open>Momentum\<close> and \<open>EMA\<close>,
  the incremental operators of the alphas.  Each keeps running sums or a monotone queue so that
  an update costs constant time; the locale \<open>stream_operator\<close> states what they promise: after any
  inputs the value is the one of the batch definition on the observations that are not NaN.

  Window lengths are natural numbers.  An infinite observation is outside the contract: the
  running sums of the code do not recover from it.
\<close>

section \<open>Runs and windows\<close>

fun run :: "('s \<Rightarrow> pyfloat \<Rightarrow> 's res) \<Rightarrow> 's \<Rightarrow> pyfloat list \<Rightarrow> 's res" where
  "run upd s [] = Inr s"
| "run upd s (x # xs) = res_bind (upd s x) (\<lambda>s. run upd s xs)"

definition observations :: "pyfloat list \<Rightarrow> real list" where
  "observations vs = map the_real (filter isfinite vs)"

lemma observations_simps [simp]:
  "observations [] = []"
  "observations (Fin x # vs) = x # observations vs"
  "observations (NaN # vs) = observations vs"
  by (simp_all add: observations_def)

locale stream_operator =
  fixes new :: 's
    and upd :: "'s \<Rightarrow> pyfloat \<Rightarrow> 's res"
    and val :: "'s \<Rightarrow> pyfloat res"
    and represents :: "'s \<Rightarrow> real list \<Rightarrow> bool"
    and batch :: "real list \<Rightarrow> pyfloat"
  assumes new_represents: "represents new []"
    and upd_represents: "represents s xs \<Longrightarrow> \<exists>s'. upd s (Fin x) = Inr s' \<and> represents s' (xs @ [x])"
    and upd_NaN: "upd s NaN = Inr s"
    and val_batch: "represents s xs \<Longrightarrow> val s = Inr (batch xs)"
begin

lemma run_represents:
  assumes "represents s xs" and "\<And>v. v \<in> set vs \<Longrightarrow> isfinite v \<or> v = NaN"
  shows "\<exists>s'. run upd s vs = Inr s' \<and> represents s' (xs @ observations vs)"
  using assms
proof (induction vs arbitrary: s xs)
  case Nil
  then show ?case by simp
next
  case (Cons v vs)
  show ?case
  proof (cases "v = NaN")
    case True
    with Cons show ?thesis by (simp add: upd_NaN)
  next
    case False
    with Cons.prems(2) [of v] obtain x where v: "v = Fin x" by auto
    obtain s1 where "upd s (Fin x) = Inr s1" "represents s1 (xs @ [x])"
      using upd_represents [OF Cons.prems(1)] by blast
    with Cons.IH [of s1 "xs @ [x]"] Cons.prems(2) v show ?thesis by simp
  qed
qed

lemma streaming_is_batch:
  assumes "\<And>v. v \<in> set vs \<Longrightarrow> isfinite v \<or> v = NaN"
  shows "\<exists>s. run upd new vs = Inr s \<and> val s = Inr (batch (observations vs))"
  using run_represents [OF new_represents assms] val_batch by fastforce

lemma NaN_is_skipped:
  assumes "\<And>v. v \<in> set (us @ vs) \<Longrightarrow> isfinite v \<or> v = NaN"
  shows "\<exists>s s'. run upd new (us @ NaN # vs) = Inr s \<and> run upd new (us @ vs) = Inr s' \<and> val s = val s'"
proof -
  have "observations (us @ NaN # vs) = observations (us @ vs)"
    by (simp add: observations_def)
  moreover have "\<And>v. v \<in> set (us @ NaN # vs) \<Longrightarrow> isfinite v \<or> v = NaN"
    using assms by auto
  ultimately show ?thesis
    using streaming_is_batch [of "us @ NaN # vs"] streaming_is_batch [of "us @ vs"] assms
    by fastforce
qed

end

section \<open>RollingExtreme\<close>

record rolling_extreme =
  x_d :: nat
  x_dq :: "(nat \<times> pyfloat) list"
  x_t :: nat
  x_is_max :: bool

definition new_extreme :: "nat \<Rightarrow> bool \<Rightarrow> rolling_extreme" where
  "new_extreme d is_max = \<lparr>x_d = d, x_dq = [], x_t = 0, x_is_max = is_max\<rparr>"

text \<open>The pops on the right are \<open>dropWhile\<close> on the reversed deque.\<close>

definition extreme_update :: "rolling_extreme \<Rightarrow> pyfloat \<Rightarrow> rolling_extreme res" where
  "extreme_update s x =
     (if x = NaN then Inr s
      else
        (let dq = rev (dropWhile (\<lambda>p. if x_is_max s then snd p \<le> x else snd p \<ge> x) (rev (x_dq s)));
             dq = dropWhile (\<lambda>p. fst p + x_d s \<le> x_t s) (dq @ [(x_t s, x)])
         in if dq = [] then Inl IndexError
            else Inr (s\<lparr>x_dq := dq, x_t := x_t s + 1\<rparr>)))"

definition extreme_value :: "rolling_extreme \<Rightarrow> pyfloat res" where
  "extreme_value s =
     (if x_d s \<le> x_t s
      then case x_dq s of [] \<Rightarrow> Inl IndexError | p # _ \<Rightarrow> Inr (snd p)
      else Inr NaN)"

definition extreme_of :: "bool \<Rightarrow> real list \<Rightarrow> real" where
  "extreme_of is_max ws = (if is_max then Max (set ws) else Min (set ws))"

definition batch_extreme :: "nat \<Rightarrow> bool \<Rightarrow> real list \<Rightarrow> pyfloat" where
  "batch_extreme d is_max xs =
     (if length xs < d then NaN else Fin (extreme_of is_max (last_n d xs)))"

text \<open>
  The deque holds the indices of the window that no later observation beats, oldest first.
\<close>

definition beaten_by :: "bool \<Rightarrow> real \<Rightarrow> real \<Rightarrow> bool" where
  "beaten_by is_max a b \<longleftrightarrow> (if is_max then a \<le> b else b \<le> a)"

definition unbeaten :: "bool \<Rightarrow> real list \<Rightarrow> nat \<Rightarrow> bool" where
  "unbeaten m xs i \<longleftrightarrow> (\<forall>j. i < j \<and> j < length xs \<longrightarrow> \<not> beaten_by m (xs ! i) (xs ! j))"

definition window_queue :: "nat \<Rightarrow> bool \<Rightarrow> real list \<Rightarrow> (nat \<times> pyfloat) list" where
  "window_queue d m xs =
     map (\<lambda>i. (i, Fin (xs ! i))) (filter (unbeaten m xs) [length xs - d..<length xs])"

definition extreme_represents :: "nat \<Rightarrow> bool \<Rightarrow> rolling_extreme \<Rightarrow> real list \<Rightarrow> bool" where
  "extreme_represents d m s xs \<longleftrightarrow>
     x_d s = d \<and> x_is_max s = m \<and> x_t s = length xs \<and> x_dq s = window_queue d m xs"

lemma dropWhile_filter:
  "sorted_wrt (\<lambda>a b. P b \<longrightarrow> P a) xs \<Longrightarrow> dropWhile P xs = filter (\<lambda>x. \<not> P x) xs"
  by (induction xs) (auto simp: filter_id_conv)

lemma unbeaten_append:
  assumes "i < length xs"
  shows "unbeaten m (xs @ [x]) i \<longleftrightarrow> unbeaten m xs i \<and> \<not> beaten_by m (xs ! i) x"
  using assms by (auto simp: unbeaten_def nth_append less_Suc_eq)

lemma beaten_by_trans: "beaten_by m a b \<Longrightarrow> beaten_by m b c \<Longrightarrow> beaten_by m a c"
  by (auto simp: beaten_by_def split: if_splits)

lemma beaten_by_linear: "\<not> beaten_by m a b \<Longrightarrow> beaten_by m b a"
  by (auto simp: beaten_by_def split: if_splits)

lemma unbeaten_sorted:
  "sorted_wrt (\<lambda>a b. beaten_by m (xs ! a) x \<longrightarrow> beaten_by m (xs ! b) x)
     (filter (unbeaten m xs) [k..<length xs])"
proof (rule sorted_wrt_mono_rel)
  show "sorted_wrt (<) (filter (unbeaten m xs) [k..<length xs])"
    by (simp add: sorted_wrt_filter)
  fix a b
  assume "a \<in> set (filter (unbeaten m xs) [k..<length xs])"
    and "b \<in> set (filter (unbeaten m xs) [k..<length xs])" and "a < b"
  then have "beaten_by m (xs ! b) (xs ! a)"
    by (auto simp: unbeaten_def intro: beaten_by_linear)
  then show "beaten_by m (xs ! a) x \<longrightarrow> beaten_by m (xs ! b) x"
    by (blast intro: beaten_by_trans)
qed

text \<open>Popping the beaten entries on the right, then the expired ones on the left.\<close>

lemma pop_right:
  "rev (dropWhile (\<lambda>p. if m then snd p \<le> Fin x else snd p \<ge> Fin x) (rev (window_queue d m xs))) =
     map (\<lambda>i. (i, Fin (xs ! i)))
       (filter (\<lambda>i. \<not> beaten_by m (xs ! i) x) (filter (unbeaten m xs) [length xs - d..<length xs]))"
proof -
  let ?P = "\<lambda>p :: nat \<times> pyfloat. if m then snd p \<le> Fin x else snd p \<ge> Fin x"
  let ?q = "window_queue d m xs"
  have "sorted_wrt (\<lambda>a b. ?P a \<longrightarrow> ?P b) ?q"
    using unbeaten_sorted [of m xs x "length xs - d"]
    by (simp add: window_queue_def sorted_wrt_map beaten_by_def cong: if_cong)
  then have "sorted_wrt (\<lambda>a b. ?P b \<longrightarrow> ?P a) (rev ?q)"
    by (simp add: sorted_wrt_rev)
  then have "rev (dropWhile ?P (rev ?q)) = filter (\<lambda>p. \<not> ?P p) ?q"
    by (simp only: dropWhile_filter rev_filter rev_rev_ident)
  also have "\<dots> = map (\<lambda>i. (i, Fin (xs ! i)))
      (filter (\<lambda>i. \<not> beaten_by m (xs ! i) x) (filter (unbeaten m xs) [length xs - d..<length xs]))"
    by (simp add: window_queue_def filter_map o_def beaten_by_def cong: if_cong)
  finally show ?thesis .
qed

lemma pop_left:
  fixes q :: "(nat \<times> pyfloat) list"
  assumes "sorted_wrt (<) (map fst q)"
  shows "dropWhile (\<lambda>p. fst p + d \<le> t) q = filter (\<lambda>p. t < fst p + d) q"
proof -
  have "sorted_wrt (\<lambda>a b. fst b + d \<le> t \<longrightarrow> fst a + d \<le> t) q"
    using assms unfolding sorted_wrt_map by (rule sorted_wrt_mono_rel [rotated]) auto
  then show ?thesis by (simp add: dropWhile_filter not_le)
qed

lemma extreme_update_represents:
  assumes "extreme_represents d m s xs" and "0 < d"
  shows "\<exists>s'. extreme_update s (Fin x) = Inr s' \<and> extreme_represents d m s' (xs @ [x])"
proof -
  let ?n = "length xs"
  let ?is = "filter (\<lambda>i. \<not> beaten_by m (xs ! i) x) (filter (unbeaten m xs) [?n - d..<?n])"
  let ?q = "map (\<lambda>i. (i, Fin (xs ! i))) ?is @ [(?n, Fin x)]"
  have "sorted_wrt (<) (map fst ?q)"
    by (auto simp: sorted_wrt_append o_def sorted_wrt_filter)
  then have "dropWhile (\<lambda>p. fst p + d \<le> ?n) ?q = filter (\<lambda>p. ?n < fst p + d) ?q"
    by (rule pop_left)
  also have "\<dots> = window_queue d m (xs @ [x])"
  proof -
    have "filter (\<lambda>i. ?n < i + d) ?is = filter (unbeaten m (xs @ [x])) [Suc ?n - d..<?n]"
    proof -
      have "filter (\<lambda>i. ?n < i + d) ?is =
          filter (\<lambda>i. unbeaten m (xs @ [x]) i) (filter (\<lambda>i. ?n < i + d) [?n - d..<?n])"
        by (auto simp: unbeaten_append intro!: filter_cong)
      also have "filter (\<lambda>i. ?n < i + d) [?n - d..<?n] = [Suc ?n - d..<?n]"
      proof (cases "d \<le> ?n")
        case True
        then have "[?n - d..<?n] = (?n - d) # [Suc ?n - d..<?n]"
          using assms(2) by (simp add: upt_conv_Cons Suc_diff_le)
        with True show ?thesis by (auto simp: filter_id_conv)
      next
        case False
        then show ?thesis by (auto simp: filter_id_conv)
      qed
      finally show ?thesis .
    qed
    moreover have "unbeaten m (xs @ [x]) ?n" by (auto simp: unbeaten_def)
    moreover have "[Suc ?n - d..<Suc ?n] = [Suc ?n - d..<?n] @ [?n]"
      using assms(2) by simp
    ultimately show ?thesis
      using assms(2) by (simp add: window_queue_def filter_map o_def nth_append)
  qed
  finally have q: "dropWhile (\<lambda>p. fst p + d \<le> ?n) ?q = window_queue d m (xs @ [x])" .
  moreover have "window_queue d m (xs @ [x]) \<noteq> []"
  proof -
    have "unbeaten m (xs @ [x]) ?n" by (auto simp: unbeaten_def)
    with assms(2) show ?thesis by (simp add: window_queue_def)
  qed
  ultimately show ?thesis
    using assms pop_right [of m x d xs]
    by (simp add: extreme_update_def extreme_represents_def Let_def cong: if_cong)
qed

lemma extreme_of_eqI:
  assumes "v \<in> set ws" and "\<And>u. u \<in> set ws \<Longrightarrow> beaten_by m u v"
  shows "extreme_of m ws = v"
  using assms by (auto simp: extreme_of_def beaten_by_def intro!: Max_eqI Min_eqI)

text \<open>The head of the deque is the extreme of the window.\<close>

lemma window_queue_head:
  assumes "0 < d" and "d \<le> length xs"
  shows "\<exists>i q. window_queue d m xs = (i, Fin (extreme_of m (last_n d xs))) # q"
proof -
  let ?n = "length xs"
  let ?w = "[?n - d..<?n]"
  let ?us = "filter (unbeaten m xs) ?w"
  have w: "set (last_n d xs) = (\<lambda>i. xs ! i) ` set ?w"
  proof -
    have "last_n d xs = map (\<lambda>i. xs ! i) ?w"
      using assms by (auto simp: last_n_def intro!: nth_equalityI)
    then show ?thesis by simp
  qed
  have "?n - 1 \<in> set ?us" using assms by (auto simp: unbeaten_def)
  then obtain i rest where us: "?us = i # rest" by (cases ?us) auto
  then have "i \<in> set ?us" by simp
  then have i: "i \<in> set ?w" "unbeaten m xs i" by auto
  have "beaten_by m (xs ! j) (xs ! i)" if "j \<in> set ?w" for j
    using that
  proof (induction "?n - j" arbitrary: j rule: less_induct)
    case less
    show ?case
    proof (cases "unbeaten m xs j")
      case True
      with less.prems have "j \<in> set ?us" by simp
      moreover have "sorted_wrt (<) ?us" by (simp add: sorted_wrt_filter)
      ultimately have "i = j \<or> i < j" using us by auto
      then show ?thesis
      proof
        assume "i < j"
        then have "\<not> beaten_by m (xs ! i) (xs ! j)" using i(2) less.prems by (auto simp: unbeaten_def)
        then show ?thesis by (rule beaten_by_linear)
      qed (simp add: beaten_by_def)
    next
      case False
      then obtain k where k: "j < k" "k < ?n" "beaten_by m (xs ! j) (xs ! k)"
        by (auto simp: unbeaten_def)
      with less.hyps [of k] less.prems have "beaten_by m (xs ! k) (xs ! i)" by simp
      with k(3) show ?thesis by (rule beaten_by_trans)
    qed
  qed
  then have "extreme_of m (last_n d xs) = xs ! i"
    using i(1) by (intro extreme_of_eqI) (auto simp: w)
  with us show ?thesis by (simp add: window_queue_def)
qed

lemma extreme_value_batch:
  assumes "extreme_represents d m s xs" and "0 < d"
  shows "extreme_value s = Inr (batch_extreme d m xs)"
  using assms window_queue_head [OF assms(2), of xs m]
  by (auto simp: extreme_value_def extreme_represents_def batch_extreme_def not_le)

lemma extreme_update_NaN: "extreme_update s NaN = Inr s"
  by (simp add: extreme_update_def)

lemma extreme_represents_new: "extreme_represents d m (new_extreme d m) []"
  by (simp add: extreme_represents_def new_extreme_def window_queue_def)

interpretation extreme: stream_operator "new_extreme (Suc d) m" extreme_update extreme_value
  "extreme_represents (Suc d) m" "batch_extreme (Suc d) m" for d m
  by unfold_locales (simp_all add: extreme_represents_new extreme_value_batch
      extreme_update_represents extreme_update_NaN)

section \<open>DecayLinear\<close>

record decay_linear =
  w_d :: nat
  w_buf :: "pyfloat list"
  w_S :: pyfloat
  w_WS :: pyfloat

definition new_decay :: "nat \<Rightarrow> decay_linear" where
  "new_decay d = \<lparr>w_d = d, w_buf = [], w_S = Fin 0, w_WS = Fin 0\<rparr>"

definition weighted_sum :: "pyfloat list \<Rightarrow> pyfloat" where
  "weighted_sum b =
     foldl (\<lambda>acc j. acc + Fin (real (j + 1)) * b ! j) (Fin 0) [0..<length b]"

definition decay_update :: "decay_linear \<Rightarrow> pyfloat \<Rightarrow> decay_linear res" where
  "decay_update s x =
     (if x = NaN then Inr s
      else if length (w_buf s) = w_d s then
        (case w_buf s of
           [] \<Rightarrow> Inl IndexError
         | old # rest \<Rightarrow> Inr (s\<lparr>w_WS := w_WS s - w_S s + Fin (real (w_d s)) * x,
                                w_S := w_S s - old + x, w_buf := rest @ [x]\<rparr>))
      else (let b = w_buf s @ [x]
            in Inr (s\<lparr>w_buf := b, w_S := w_S s + x,
                      w_WS := (if length b = w_d s then weighted_sum b else w_WS s)\<rparr>)))"

definition decay_value :: "decay_linear \<Rightarrow> pyfloat res" where
  "decay_value s =
     (if length (w_buf s) = w_d s
      then fdiv (w_WS s) (Fin (real (w_d s) * (real (w_d s) + 1) / 2)) else Inr NaN)"

definition wsum :: "real list \<Rightarrow> real" where
  "wsum ws = (\<Sum>j<length ws. real (j + 1) * ws ! j)"

definition batch_decay :: "nat \<Rightarrow> real list \<Rightarrow> pyfloat" where
  "batch_decay d xs =
     (if length xs < d then NaN
      else Fin (wsum (last_n d xs) / (\<Sum>j<d. real (j + 1))))"

lemma wsum_append: "wsum (ws @ [x]) = wsum ws + real (length ws + 1) * x"
  by (simp add: wsum_def nth_append)

lemma wsum_Cons: "wsum (w # ws) = w + sum_list ws + wsum ws"
proof (induction ws rule: rev_induct)
  case Nil
  show ?case by (simp add: wsum_def)
next
  case (snoc x ws)
  have "wsum (w # ws @ [x]) = wsum (w # ws) + real (length ws + 2) * x"
    using wsum_append [of "w # ws" x] by simp
  with snoc show ?case by (simp add: wsum_append algebra_simps)
qed

lemma weighted_sum_Fin: "weighted_sum (map Fin ws) = Fin (wsum ws)"
proof -
  have "foldl (\<lambda>acc j. acc + Fin (real (j + 1)) * map Fin ws ! j) (Fin 0) [0..<n] =
      Fin (\<Sum>j<n. real (j + 1) * ws ! j)" if "n \<le> length ws" for n
    using that by (induction n) simp_all
  then show ?thesis by (simp add: weighted_sum_def wsum_def)
qed

definition decay_represents :: "nat \<Rightarrow> decay_linear \<Rightarrow> real list \<Rightarrow> bool" where
  "decay_represents d s xs \<longleftrightarrow>
     w_d s = d \<and> w_buf s = map Fin (last_n d xs) \<and> w_S s = Fin (sum_list (last_n d xs))
     \<and> (d \<le> length xs \<longrightarrow> w_WS s = Fin (wsum (last_n d xs)))"

lemma decay_update_represents:
  assumes "decay_represents d s xs" and "0 < d"
  shows "\<exists>s'. decay_update s (Fin x) = Inr s' \<and> decay_represents d s' (xs @ [x])"
proof (cases "length xs < d")
  case True
  then have b: "w_buf s @ [Fin x] = map Fin (xs @ [x])" "length (w_buf s) \<noteq> d"
    using assms(1) by (auto simp: decay_represents_def)
  with True assms(1) show ?thesis
    by (simp add: decay_represents_def decay_update_def last_n_append_short Let_def
        weighted_sum_Fin del: map_append)
next
  case False
  then obtain w ws where w: "last_n d xs = w # ws"
    using assms(2) by (cases "last_n d xs") (auto simp: last_n_def)
  have l: "length (w # ws) = d" using False by (simp flip: w)
  have n: "last_n d (xs @ [x]) = ws @ [x]"
    using last_n_append_full [OF assms(2), of xs x] False w by simp
  have "wsum (ws @ [x]) = wsum (w # ws) - sum_list (w # ws) + real d * x"
    using l by (simp add: wsum_append wsum_Cons)
  with False assms(1) w l n show ?thesis
    by (auto simp: decay_represents_def decay_update_def)
qed

lemma decay_value_batch:
  assumes "decay_represents d s xs" and "0 < d"
  shows "decay_value s = Inr (batch_decay d xs)"
proof -
  have eq: "(\<Sum>j<d. 1 + real j) = real d * (real d + 1) / 2"
    by (induction d) (simp_all add: field_simps)
  have "real d * (real d + 1) \<noteq> 0" using assms(2) by simp
  with assms show ?thesis
    by (auto simp: decay_value_def decay_represents_def batch_decay_def eq)
qed

lemma decay_update_NaN: "decay_update s NaN = Inr s"
  by (simp add: decay_update_def)

lemma decay_represents_new: "0 < d \<Longrightarrow> decay_represents d (new_decay d) []"
  by (simp add: decay_represents_def new_decay_def)

interpretation decay: stream_operator "new_decay (Suc d)" decay_update decay_value
  "decay_represents (Suc d)" "batch_decay (Suc d)" for d
  by unfold_locales (simp_all add: decay_represents_new decay_value_batch decay_update_represents
      decay_update_NaN)

section \<open>RollingMoments\<close>

record moments =
  r_d :: nat
  r_buf :: "pyfloat list"
  r_s1 :: pyfloat
  r_s2 :: pyfloat
  r_s3 :: pyfloat

definition new_moments :: "nat \<Rightarrow> moments" where
  "new_moments d = \<lparr>r_d = d, r_buf = [], r_s1 = Fin 0, r_s2 = Fin 0, r_s3 = Fin 0\<rparr>"

definition moments_update :: "moments \<Rightarrow> pyfloat \<Rightarrow> moments res" where
  "moments_update s x =
     (if x = NaN then Inr s
      else
        (let b = r_buf s @ [x]; s1 = r_s1 s + x; s2 = r_s2 s + x * x; s3 = r_s3 s + x * x * x
         in if length b > r_d s
            then let old = hd b
                 in Inr (s\<lparr>r_buf := tl b, r_s1 := s1 - old, r_s2 := s2 - old * old,
                           r_s3 := s3 - old * old * old\<rparr>)
            else Inr (s\<lparr>r_buf := b, r_s1 := s1, r_s2 := s2, r_s3 := s3\<rparr>)))"

text \<open>\<open>x ** 0.5\<close> and \<open>x ** 1.5\<close> of a positive number, and division by a positive count.\<close>

fun pow_pos :: "pyfloat \<Rightarrow> real \<Rightarrow> pyfloat" where
  "pow_pos (Fin x) e = Fin (x powr e)"
| "pow_pos x e = x"

definition over :: "pyfloat \<Rightarrow> nat \<Rightarrow> pyfloat" where
  "over x n = x * Fin (1 / real n)"

definition moments_mean :: "moments \<Rightarrow> pyfloat res" where
  "moments_mean s = (let n = length (r_buf s) in Inr (if n = 0 then NaN else over (r_s1 s) n))"

definition moments_std :: "moments \<Rightarrow> pyfloat res" where
  "moments_std s =
     (let n = length (r_buf s)
      in if n < 2 then Inr NaN
         else let m = over (r_s1 s) n;
                  v = over (r_s2 s - Fin (real n) * m * m) (n - 1)
              in Inr (if v > Fin 0 then pow_pos v (1 / 2) else NaN))"

definition moments_zscore :: "moments \<Rightarrow> pyfloat \<Rightarrow> pyfloat res" where
  "moments_zscore s x =
     res_bind (moments_std s) (\<lambda>sd.
     if sd \<noteq> NaN \<and> sd > Fin 0
     then res_bind (moments_mean s) (\<lambda>m. fdiv (x - m) sd) else Inr NaN)"

definition moments_skew :: "moments \<Rightarrow> pyfloat res" where
  "moments_skew s =
     (let n = length (r_buf s)
      in if n < 3 then Inr NaN
         else let m = over (r_s1 s) n;
                  m2 = over (r_s2 s) n - m * m;
                  m3 = over (r_s3 s) n - Fin 3 * m * over (r_s2 s) n + Fin 2 * m * m * m
              in if m2 > Fin (1 / 10 ^ 12) then fdiv m3 (pow_pos m2 (3 / 2)) else Inr NaN)"

text \<open>The textbook definitions on a window.\<close>

definition mean :: "real list \<Rightarrow> real" where
  "mean ws = sum_list ws / real (length ws)"

definition central_moment :: "nat \<Rightarrow> real list \<Rightarrow> real" where
  "central_moment k ws = (\<Sum>w\<leftarrow>ws. (w - mean ws) ^ k)"

definition batch_mean :: "nat \<Rightarrow> real list \<Rightarrow> pyfloat" where
  "batch_mean d xs = (if xs = [] then NaN else Fin (mean (last_n d xs)))"

definition batch_std :: "nat \<Rightarrow> real list \<Rightarrow> pyfloat" where
  "batch_std d xs =
     (let ws = last_n d xs; v = central_moment 2 ws / (real (length ws) - 1)
      in if length ws < 2 \<or> v \<le> 0 then NaN else Fin (sqrt v))"

definition batch_skew :: "nat \<Rightarrow> real list \<Rightarrow> pyfloat" where
  "batch_skew d xs =
     (let ws = last_n d xs; n = real (length ws); m2 = central_moment 2 ws / n
      in if length ws < 3 \<or> m2 \<le> 1 / 10 ^ 12 then NaN
         else Fin ((central_moment 3 ws / n) / m2 powr (3 / 2)))"

definition moments_represents :: "nat \<Rightarrow> moments \<Rightarrow> real list \<Rightarrow> bool" where
  "moments_represents d s xs \<longleftrightarrow>
     r_d s = d \<and> r_buf s = map Fin (last_n d xs) \<and> r_s1 s = Fin (sum_list (last_n d xs))
     \<and> r_s2 s = Fin (\<Sum>w\<leftarrow>last_n d xs. w * w) \<and> r_s3 s = Fin (\<Sum>w\<leftarrow>last_n d xs. w * w * w)"

lemma moments_represents_new: "moments_represents d (new_moments d) []"
  by (simp add: moments_represents_def new_moments_def)

lemma moments_update_NaN: "moments_update s NaN = Inr s"
  by (simp add: moments_update_def)

lemma moments_update_represents:
  assumes "moments_represents d s xs" and "0 < d"
  shows "\<exists>s'. moments_update s (Fin x) = Inr s' \<and> moments_represents d s' (xs @ [x])"
proof (cases "length xs < d")
  case True
  then show ?thesis
    using assms by (simp add: moments_represents_def moments_update_def last_n_append_short Let_def)
next
  case False
  then obtain w ws where w: "last_n d xs = w # ws"
    using assms(2) by (cases "last_n d xs") (auto simp: last_n_def)
  have l: "length (w # ws) = d" using False by (simp flip: w)
  have "last_n d (xs @ [x]) = ws @ [x]"
    using last_n_append_full [OF assms(2), of xs x] False w by simp
  with assms(1) w l show ?thesis
    by (simp add: moments_represents_def moments_update_def Let_def)
qed

lemma sum_squares_central:
  assumes "ws \<noteq> []"
  shows "central_moment 2 ws = (\<Sum>w\<leftarrow>ws. w * w) - real (length ws) * mean ws * mean ws"
proof -
  have "(\<Sum>w\<leftarrow>vs. (w - m) ^ 2) = (\<Sum>w\<leftarrow>vs. w * w) - 2 * m * sum_list vs + real (length vs) * (m * m)"
    for vs and m :: real
    by (induction vs) (simp_all add: power2_eq_square algebra_simps)
  then have "central_moment 2 ws = (\<Sum>w\<leftarrow>ws. w * w) - 2 * mean ws * sum_list ws
      + real (length ws) * (mean ws * mean ws)"
    by (simp add: central_moment_def)
  moreover have "sum_list ws = real (length ws) * mean ws" using assms by (simp add: mean_def)
  ultimately show ?thesis by (simp add: algebra_simps)
qed

lemma sum_cubes_central:
  assumes "ws \<noteq> []"
  shows "central_moment 3 ws = (\<Sum>w\<leftarrow>ws. w * w * w) - 3 * mean ws * (\<Sum>w\<leftarrow>ws. w * w)
           + 2 * real (length ws) * mean ws * mean ws * mean ws"
proof -
  have "(\<Sum>w\<leftarrow>vs. (w - m) ^ 3) = (\<Sum>w\<leftarrow>vs. w * w * w) - 3 * m * (\<Sum>w\<leftarrow>vs. w * w)
      + 3 * (m * m) * sum_list vs - real (length vs) * (m * m * m)"
    for vs and m :: real
    by (induction vs) (simp_all add: power3_eq_cube algebra_simps)
  then have "central_moment 3 ws = (\<Sum>w\<leftarrow>ws. w * w * w) - 3 * mean ws * (\<Sum>w\<leftarrow>ws. w * w)
      + 3 * (mean ws * mean ws) * sum_list ws - real (length ws) * (mean ws * mean ws * mean ws)"
    by (simp add: central_moment_def)
  moreover have "sum_list ws = real (length ws) * mean ws" using assms by (simp add: mean_def)
  ultimately show ?thesis by (simp add: algebra_simps)
qed

lemma over_Fin [simp]: "over (Fin x) n = Fin (x / real n)"
  by (simp add: over_def)

lemma moments_mean_batch:
  "moments_represents d s xs \<Longrightarrow> 0 < d \<Longrightarrow> moments_mean s = Inr (batch_mean d xs)"
  by (auto simp: moments_mean_def moments_represents_def batch_mean_def mean_def Let_def
      min_def split: if_splits)

lemma moments_std_batch:
  assumes "moments_represents d s xs" and "0 < d"
  shows "moments_std s = Inr (batch_std d xs)"
proof (cases "length (last_n d xs) < 2")
  case True
  with assms show ?thesis
    by (simp add: moments_std_def moments_represents_def batch_std_def Let_def)
next
  case False
  define ws where "ws = last_n d xs"
  have l: "2 \<le> length ws" using False unfolding ws_def by linarith
  then have n: "2 \<le> length ws" "ws \<noteq> []" by auto
  then have c: "(\<Sum>w\<leftarrow>ws. w * w) - real (length ws) * mean ws * mean ws = central_moment 2 ws"
    by (simp add: sum_squares_central)
  have "moments_std s = (let v = Fin (((\<Sum>w\<leftarrow>ws. w * w)
      - real (length ws) * mean ws * mean ws) / (real (length ws) - 1))
      in Inr (if v > Fin 0 then pow_pos v (1 / 2) else NaN))"
    using assms(1) n
    by (simp add: moments_std_def moments_represents_def Let_def mean_def of_nat_diff
        flip: ws_def)
  with n show ?thesis
    unfolding c by (simp add: batch_std_def Let_def not_less powr_half_sqrt flip: ws_def)
qed

lemma moments_skew_batch:
  assumes "moments_represents d s xs" and "0 < d"
  shows "moments_skew s = Inr (batch_skew d xs)"
proof (cases "length (last_n d xs) < 3")
  case True
  with assms show ?thesis
    by (simp add: moments_skew_def moments_represents_def batch_skew_def Let_def)
next
  case False
  define ws where "ws = last_n d xs"
  define n where "n = real (length ws)"
  have l: "3 \<le> length ws" using False unfolding ws_def by linarith
  then have n: "0 < n" "3 \<le> length ws" "ws \<noteq> []" by (auto simp: n_def)
  have m2: "(\<Sum>w\<leftarrow>ws. w * w) / n - mean ws * mean ws = central_moment 2 ws / n"
    using sum_squares_central [OF n(3)] n(1) by (simp add: n_def field_simps)
  have m3: "(\<Sum>w\<leftarrow>ws. w * w * w) / n - 3 * mean ws * ((\<Sum>w\<leftarrow>ws. w * w) / n)
      + 2 * mean ws * mean ws * mean ws = central_moment 3 ws / n"
    using sum_cubes_central [OF n(3)] n(1) by (simp add: n_def field_simps)
  have "moments_skew s =
      (if 1 / 10 ^ 12 < (\<Sum>w\<leftarrow>ws. w * w) / n - mean ws * mean ws
       then fdiv (Fin ((\<Sum>w\<leftarrow>ws. w * w * w) / n - 3 * mean ws * ((\<Sum>w\<leftarrow>ws. w * w) / n)
              + 2 * mean ws * mean ws * mean ws))
            (Fin (((\<Sum>w\<leftarrow>ws. w * w) / n - mean ws * mean ws) powr (3 / 2)))
       else Inr NaN)"
    using assms(1) n(2)
    by (simp add: moments_skew_def moments_represents_def Let_def mean_def n_def flip: ws_def)
  then have s: "moments_skew s =
      (if 1 / 10 ^ 12 < central_moment 2 ws / n
       then fdiv (Fin (central_moment 3 ws / n)) (Fin ((central_moment 2 ws / n) powr (3 / 2)))
       else Inr NaN)"
    unfolding m2 m3 .
  show ?thesis
  proof (cases "1 / 10 ^ 12 < central_moment 2 ws / n")
    case True
    have "(0 :: real) < 1 / 10 ^ 12" by simp
    with True have "0 < central_moment 2 ws / n" by (rule less_trans [rotated])
    then have "(central_moment 2 ws / n) powr (3 / 2) \<noteq> 0" by auto
    with True s n(2) show ?thesis
      by (simp add: batch_skew_def Let_def not_le flip: ws_def n_def)
  next
    case False
    with s n(2) show ?thesis by (simp add: batch_skew_def Let_def not_le flip: ws_def n_def)
  qed
qed

interpretation rolling_mean: stream_operator "new_moments (Suc d)" moments_update moments_mean
  "moments_represents (Suc d)" "batch_mean (Suc d)" for d
  by unfold_locales (simp_all add: moments_represents_new moments_update_NaN
      moments_update_represents moments_mean_batch)

interpretation rolling_std: stream_operator "new_moments (Suc d)" moments_update moments_std
  "moments_represents (Suc d)" "batch_std (Suc d)" for d
  by unfold_locales (simp_all add: moments_represents_new moments_update_NaN
      moments_update_represents moments_std_batch)

interpretation rolling_skew: stream_operator "new_moments (Suc d)" moments_update moments_skew
  "moments_represents (Suc d)" "batch_skew (Suc d)" for d
  by unfold_locales (simp_all add: moments_represents_new moments_update_NaN
      moments_update_represents moments_skew_batch)

section \<open>Momentum\<close>

record momentum =
  mo_d :: nat
  mo_buf :: "pyfloat list"

definition new_momentum :: "nat \<Rightarrow> momentum" where
  "new_momentum d = \<lparr>mo_d = d, mo_buf = []\<rparr>"

text \<open>A \<open>deque(maxlen = d + 1)\<close> drops its oldest entry when it overflows.\<close>

definition momentum_update :: "momentum \<Rightarrow> pyfloat \<Rightarrow> momentum res" where
  "momentum_update s x =
     (if x = NaN then Inr s else Inr (s\<lparr>mo_buf := last_n (mo_d s + 1) (mo_buf s @ [x])\<rparr>))"

definition momentum_value :: "momentum \<Rightarrow> pyfloat res" where
  "momentum_value s =
     (if length (mo_buf s) \<le> mo_d s then Inr NaN
      else let old = hd (mo_buf s)
           in if truthy old then res_bind (fdiv (last (mo_buf s)) old) (\<lambda>q. Inr (q - Fin 1))
              else Inr NaN)"

definition batch_momentum :: "nat \<Rightarrow> real list \<Rightarrow> pyfloat" where
  "batch_momentum d xs =
     (if length xs \<le> d \<or> xs ! (length xs - 1 - d) = 0 then NaN
      else Fin (xs ! (length xs - 1) / xs ! (length xs - 1 - d) - 1))"

definition momentum_represents :: "nat \<Rightarrow> momentum \<Rightarrow> real list \<Rightarrow> bool" where
  "momentum_represents d s xs \<longleftrightarrow> mo_d s = d \<and> mo_buf s = map Fin (last_n (d + 1) xs)"

interpretation momentum: stream_operator "new_momentum d" momentum_update momentum_value
  "momentum_represents d" "batch_momentum d" for d
proof
  fix s :: momentum and xs x
  assume r: "momentum_represents d s xs"
  have "last_n (d + 1) (map Fin (last_n (d + 1) xs) @ [Fin x]) = map Fin (last_n (d + 1) (xs @ [x]))"
    using last_n_last_n_append [of "d + 1" "map Fin xs" "Fin x"] by (simp add: map_last_n)
  with r show "\<exists>s'. momentum_update s (Fin x) = Inr s' \<and> momentum_represents d s' (xs @ [x])"
    by (simp add: momentum_update_def momentum_represents_def)
next
  fix s :: momentum and xs
  assume r: "momentum_represents d s xs"
  show "momentum_value s = Inr (batch_momentum d xs)"
  proof (cases "length xs \<le> d")
    case True
    with r show ?thesis by (simp add: momentum_value_def momentum_represents_def batch_momentum_def)
  next
    case False
    then have "last_n (d + 1) xs \<noteq> []" "hd (last_n (d + 1) xs) = xs ! (length xs - 1 - d)"
      "last (last_n (d + 1) xs) = xs ! (length xs - 1)"
      by (auto simp: last_n_def hd_drop_conv_nth last_conv_nth)
    with False r show ?thesis
      by (auto simp: momentum_value_def momentum_represents_def batch_momentum_def hd_map last_map
          Let_def)
  qed
qed (simp_all add: momentum_represents_def new_momentum_def momentum_update_def)

section \<open>EMA\<close>

record ema =
  e_a :: real
  e_y :: "pyfloat option"
  e_n :: nat
  e_minp :: nat

definition new_ema :: "nat \<Rightarrow> ema" where
  "new_ema sp = \<lparr>e_a = 2 / (real sp + 1), e_y = None, e_n = 0, e_minp = max 1 (sp div 2)\<rparr>"

definition ema_update :: "ema \<Rightarrow> pyfloat \<Rightarrow> ema res" where
  "ema_update s x =
     (if x = NaN then Inr s
      else Inr (s\<lparr>e_y := Some (case e_y s of None \<Rightarrow> x
                     | Some y \<Rightarrow> Fin (e_a s) * x + Fin (1 - e_a s) * y),
                  e_n := e_n s + 1\<rparr>))"

definition ema_value :: "ema \<Rightarrow> pyfloat res" where
  "ema_value s = Inr (if e_minp s \<le> e_n s then case e_y s of None \<Rightarrow> NaN | Some y \<Rightarrow> y else NaN)"

text \<open>The closed form: geometric weights, the first observation carrying what is left.\<close>

definition ema_sum :: "real \<Rightarrow> real list \<Rightarrow> real" where
  "ema_sum a xs = (1 - a) ^ (length xs - 1) * hd xs
     + (\<Sum>i\<in>{1..<length xs}. a * (1 - a) ^ (length xs - 1 - i) * xs ! i)"

definition batch_ema :: "nat \<Rightarrow> real list \<Rightarrow> pyfloat" where
  "batch_ema sp xs =
     (if length xs < max 1 (sp div 2) then NaN else Fin (ema_sum (2 / (real sp + 1)) xs))"

definition ema_represents :: "nat \<Rightarrow> ema \<Rightarrow> real list \<Rightarrow> bool" where
  "ema_represents sp s xs \<longleftrightarrow>
     e_a s = 2 / (real sp + 1) \<and> e_minp s = max 1 (sp div 2) \<and> e_n s = length xs
     \<and> e_y s = (if xs = [] then None else Some (Fin (ema_sum (e_a s) xs)))"

lemma ema_sum_append:
  assumes "xs \<noteq> []"
  shows "ema_sum a (xs @ [x]) = a * x + (1 - a) * ema_sum a xs"
proof -
  let ?n = "length xs"
  have "(\<Sum>i\<in>{1..<?n}. a * (1 - a) ^ (?n - i) * (xs @ [x]) ! i) =
      (\<Sum>i\<in>{1..<?n}. (1 - a) * (a * (1 - a) ^ (?n - 1 - i) * xs ! i))"
  proof (rule sum.cong)
    fix i
    assume "i \<in> {1..<?n}"
    then have "?n - i = Suc (?n - 1 - i)" "i < ?n" by auto
    then show "a * (1 - a) ^ (?n - i) * (xs @ [x]) ! i = (1 - a) * (a * (1 - a) ^ (?n - 1 - i) * xs ! i)"
      by (simp add: nth_append)
  qed simp
  moreover have "{1..<Suc ?n} = insert ?n {1..<?n}" using assms by (cases xs) auto
  moreover have "(1 - a) ^ ?n = (1 - a) * (1 - a) ^ (?n - 1)" using assms by (cases xs) auto
  ultimately have "ema_sum a (xs @ [x]) = (1 - a) * (1 - a) ^ (?n - 1) * hd xs
      + (a * x + (\<Sum>i\<in>{1..<?n}. (1 - a) * (a * (1 - a) ^ (?n - 1 - i) * xs ! i)))"
    using assms by (simp add: ema_sum_def hd_append)
  then show ?thesis
    unfolding sum_distrib_left [symmetric] by (simp add: ema_sum_def distrib_left mult.assoc)
qed

lemma ema_sum_single [simp]: "ema_sum a [x] = x"
  by (simp add: ema_sum_def)

interpretation ema: stream_operator "new_ema sp" ema_update ema_value "ema_represents sp"
  "batch_ema sp" for sp
proof
  fix s :: ema and xs x
  assume "ema_represents sp s xs"
  then show "\<exists>s'. ema_update s (Fin x) = Inr s' \<and> ema_represents sp s' (xs @ [x])"
    by (cases "xs = []") (simp_all add: ema_update_def ema_represents_def ema_sum_append)
next
  fix s :: ema and xs
  assume "ema_represents sp s xs"
  then show "ema_value s = Inr (batch_ema sp xs)"
    by (cases "xs = []") (auto simp: ema_value_def ema_represents_def batch_ema_def)
qed (simp_all add: ema_represents_def new_ema_def ema_update_def)

end
