(* ===== verification/StreamingV5.thy ===== *)
theory StreamingV5
  imports Streaming "HOL-Library.Multiset"
begin

text \<open>
  \<^verbatim>\<open>indicators/streaming/v5.py\<close>: \<open>V5SymbolState.append\<close>, which keeps a moving average, the average
  true range, the median close and the normalised slope of the average of one symbol; and
  \<^verbatim>\<open>indicators/pandas/v5.py\<close>: \<open>compute_v5_tail_indicators\<close>, the same from a whole history.  The
  lemmas show that after any sequence of candles the answer is the one of definitions on the
  whole history (\<open>v5_batch\<close>, a specification), and that those are what the second file computes, but for a
  history of exactly \<open>atr_len\<close> candles.

  The prices of a candle are finite, so they are reals here; the four lengths are positive.
\<close>

record v5_state =
  v_sma_len :: nat
  v_atr_len :: nat
  v_poc_len :: nat
  v_norm_window :: nat
  v_close :: "real list"
  v_high :: "real list"
  v_low :: "real list"
  v_sma_sum :: real
  v_sma_values :: "real option list"
  v_tr_sum :: real
  v_tr_window :: "real list"
  v_poc_sorted :: "real list"
  v_adiff_window :: "real list"
  v_last_acol :: "real option"

record v5_result =
  vr_acol :: real
  vr_acol_prev :: real
  vr_atr :: real
  vr_poc :: real
  vr_close :: real
  vr_high :: real
  vr_low :: real

definition new_v5 :: "nat \<Rightarrow> nat \<Rightarrow> nat \<Rightarrow> nat \<Rightarrow> v5_state" where
  "new_v5 sma_len atr_len poc_len norm_window =
     \<lparr>v_sma_len = sma_len, v_atr_len = atr_len, v_poc_len = poc_len, v_norm_window = norm_window,
      v_close = [], v_high = [], v_low = [], v_sma_sum = 0, v_sma_values = [], v_tr_sum = 0,
      v_tr_window = [], v_poc_sorted = [], v_adiff_window = [], v_last_acol = None\<rparr>"

text \<open>\<open>xs[-k]\<close>.\<close>

definition from_end :: "'a list \<Rightarrow> nat \<Rightarrow> 'a" where
  "from_end xs k = xs ! (length xs - k)"

definition max_abs :: "real list \<Rightarrow> real" where
  "max_abs ds = foldl (\<lambda>m d. max m \<bar>d\<bar>) 0 ds"

definition median_of_sorted :: "nat \<Rightarrow> real list \<Rightarrow> real" where
  "median_of_sorted k xs =
     (let mid = k div 2
      in if even k then (xs ! (mid - 1) + xs ! mid) / 2 else xs ! mid)"

definition true_range :: "real \<Rightarrow> real \<Rightarrow> real \<Rightarrow> real" where
  "true_range prev high low = max (max (high - low) \<bar>high - prev\<bar>) \<bar>low - prev\<bar>"

text \<open>The update of the average and of the slope window.\<close>

definition v5_slope :: "v5_state \<Rightarrow> real option \<Rightarrow> real list \<times> real option" where
  "v5_slope s current_sma =
     (let values = v_sma_values s @ [current_sma]
      in case current_sma of
           None \<Rightarrow> (v_adiff_window s, None)
         | Some sma \<Rightarrow>
             if length values > 5 then
               (case from_end values 6 of
                  None \<Rightarrow> (v_adiff_window s, None)
                | Some prev_sma \<Rightarrow>
                    (let adiff = sma - prev_sma;
                         window = last_n (v_norm_window s) (v_adiff_window s @ [adiff]);
                         m = max_abs window
                     in (window, if m > 1 / 10 ^ 12 then Some (adiff / m) else None)))
             else (v_adiff_window s, None))"

definition v5_append :: "real \<Rightarrow> real \<Rightarrow> real \<Rightarrow> v5_state \<Rightarrow> v5_result option \<times> v5_state" where
  "v5_append close high low s =
     (let prev_close = (if v_close s = [] then close else last (v_close s));
          closes = v_close s @ [close];
          n = length closes;
          sma_sum = v_sma_sum s + close
            - (if n > v_sma_len s then from_end closes (v_sma_len s + 1) else 0);
          current_sma = (if v_sma_len s \<le> n then Some (sma_sum / real (v_sma_len s)) else None);
          (adiff_window, current_acol) = v5_slope s current_sma;
          tr = (if n > 1 then true_range prev_close high low else 0);
          trs = v_tr_window s @ [tr];
          tr_sum = v_tr_sum s + tr - (if length trs > v_atr_len s then hd trs else 0);
          tr_window = (if length trs > v_atr_len s then tl trs else trs);
          poc_sorted = insort close (v_poc_sorted s);
          poc_sorted = (if n > v_poc_len s
            then remove1 (from_end closes (v_poc_len s + 1)) poc_sorted else poc_sorted);
          atr = tr_sum / real (v_atr_len s);
          s' = s\<lparr>v_close := closes, v_high := v_high s @ [high], v_low := v_low s @ [low],
                 v_sma_sum := sma_sum, v_sma_values := v_sma_values s @ [current_sma],
                 v_tr_sum := tr_sum, v_tr_window := tr_window, v_poc_sorted := poc_sorted,
                 v_adiff_window := adiff_window, v_last_acol := current_acol\<rparr>
      in (case (current_acol, v_last_acol s) of
            (Some acol, Some acol_prev) \<Rightarrow>
              if n < v_norm_window s + v_sma_len s + 10 \<or> length tr_window < v_atr_len s
                 \<or> length poc_sorted < v_poc_len s \<or> atr \<le> 0
              then None
              else Some \<lparr>vr_acol = acol, vr_acol_prev = acol_prev, vr_atr = atr,
                         vr_poc = median_of_sorted (v_poc_len s) poc_sorted, vr_close = close,
                         vr_high = high, vr_low = low\<rparr>
          | _ \<Rightarrow> None, s'))"

section \<open>The definitions on the whole history\<close>

type_synonym bar = "real \<times> real \<times> real"

definition closes_of :: "bar list \<Rightarrow> real list" where
  "closes_of cs = map fst cs"

definition sma_at :: "nat \<Rightarrow> real list \<Rightarrow> nat \<Rightarrow> real option" where
  "sma_at k xs t = (if k \<le> t then Some (sum_list (last_n k (take t xs)) / real k) else None)"

definition true_ranges :: "bar list \<Rightarrow> real list" where
  "true_ranges cs = map (\<lambda>t. if t = 0 then 0
     else true_range (fst (cs ! (t - 1))) (fst (snd (cs ! t))) (snd (snd (cs ! t)))) [0..<length cs]"

text \<open>The slope at a time: the average against the one five candles before.\<close>

definition slope_at :: "nat \<Rightarrow> real list \<Rightarrow> nat \<Rightarrow> real option" where
  "slope_at k xs t = (if t \<le> 5 then None else
     case (sma_at k xs t, sma_at k xs (t - 5)) of (Some a, Some b) \<Rightarrow> Some (a - b) | _ \<Rightarrow> None)"

definition slopes :: "nat \<Rightarrow> real list \<Rightarrow> nat \<Rightarrow> real list" where
  "slopes k xs t = List.map_filter (slope_at k xs) [1..<Suc t]"

definition acol_at :: "nat \<Rightarrow> nat \<Rightarrow> real list \<Rightarrow> nat \<Rightarrow> real option" where
  "acol_at k nw xs t = (case slope_at k xs t of
       None \<Rightarrow> None
     | Some a \<Rightarrow> (let m = max_abs (last_n nw (slopes k xs t))
                  in if m > 1 / 10 ^ 12 then Some (a / m) else None))"

definition v5_batch :: "nat \<Rightarrow> nat \<Rightarrow> nat \<Rightarrow> nat \<Rightarrow> bar list \<Rightarrow> v5_result option" where
  "v5_batch sma_len atr_len poc_len nw cs =
     (let xs = closes_of cs; n = length cs;
          atr = sum_list (last_n atr_len (true_ranges cs)) / real atr_len
      in case (acol_at sma_len nw xs n, acol_at sma_len nw xs (n - 1)) of
           (Some acol, Some acol_prev) \<Rightarrow>
             if n < nw + sma_len + 10 \<or> n < atr_len \<or> n < poc_len \<or> atr \<le> 0 then None
             else Some \<lparr>vr_acol = acol, vr_acol_prev = acol_prev, vr_atr = atr,
                        vr_poc = median_of_sorted poc_len (sort (last_n poc_len xs)),
                        vr_close = fst (last cs), vr_high = fst (snd (last cs)),
                        vr_low = snd (snd (last cs))\<rparr>
         | _ \<Rightarrow> None)"

section \<open>Lemmas\<close>

lemma sum_last_n_append:
  fixes xs :: "real list"
  assumes "0 < k"
  shows "sum_list (last_n k (xs @ [x])) = sum_list (last_n k xs) + x
           - (if length xs \<ge> k then from_end (xs @ [x]) (k + 1) else 0)"
proof (cases "length xs < k")
  case True
  then show ?thesis by (simp add: last_n_append_short)
next
  case False
  then have "last_n k xs = xs ! (length xs - k) # tl (last_n k xs)"
    using assms by (auto simp: last_n_def Cons_nth_drop_Suc [symmetric])
  then have "sum_list (last_n k xs) = xs ! (length xs - k) + sum_list (tl (last_n k xs))"
    by (metis sum_list.Cons)
  moreover have "from_end (xs @ [x]) (k + 1) = xs ! (length xs - k)"
    using False assms by (auto simp: from_end_def nth_append)
  ultimately show ?thesis
    using False assms by (simp add: last_n_append_full)
qed

lemma sort_last_n_append:
  fixes xs :: "real list"
  assumes "0 < k"
  shows "sort (last_n k (xs @ [x])) =
    (if length xs \<ge> k then remove1 (from_end (xs @ [x]) (k + 1)) (insort x (sort (last_n k xs)))
     else insort x (sort (last_n k xs)))"
proof (cases "length xs < k")
  case True
  have "sort (xs @ [x]) = insort x (sort xs)"
    by (rule properties_for_sort) (simp_all add: sorted_insort)
  with True show ?thesis by (simp add: last_n_append_short)
next
  case False
  let ?o = "xs ! (length xs - k)"
  have l: "last_n k xs = ?o # tl (last_n k xs)"
    using assms False by (auto simp: last_n_def Cons_nth_drop_Suc [symmetric])
  have o: "from_end (xs @ [x]) (k + 1) = ?o"
    using False assms by (auto simp: from_end_def nth_append)
  have "mset (last_n k xs) = add_mset ?o (mset (tl (last_n k xs)))"
    by (subst l) simp
  then have "mset (remove1 ?o (insort x (sort (last_n k xs)))) = mset (last_n k (xs @ [x]))"
    using False assms by (simp add: last_n_append_full)
  then have "sort (last_n k (xs @ [x])) = remove1 ?o (insort x (sort (last_n k xs)))"
    by (intro properties_for_sort) (simp_all add: sorted_insort sorted_remove1)
  with False o show ?thesis by simp
qed

lemma last_n_drop_first:
  "0 < k \<Longrightarrow> last_n k (xs @ [x]) =
     (if length (last_n k xs @ [x]) > k then tl (last_n k xs @ [x]) else last_n k xs @ [x])"
  by (cases "length xs < k")
    (auto simp: last_n_append_full last_n_append_short tl_append split: list.split
      dest: arg_cong [where f = length])

text \<open>Earlier times do not see a new candle.\<close>

lemma sma_at_append: "t \<le> length xs \<Longrightarrow> sma_at k (xs @ [x]) t = sma_at k xs t"
  by (simp add: sma_at_def)

lemma slope_at_append: "t \<le> length xs \<Longrightarrow> slope_at k (xs @ [x]) t = slope_at k xs t"
  by (simp add: slope_at_def sma_at_append)

lemma map_filter_cong:
  "(\<And>y. y \<in> set ys \<Longrightarrow> f y = g y) \<Longrightarrow> List.map_filter f ys = List.map_filter g ys"
  by (induction ys) (auto simp: List.map_filter_simps split: option.splits)

lemma map_filter_append:
  "List.map_filter f (ys @ zs) = List.map_filter f ys @ List.map_filter f zs"
  by (induction ys) (auto simp: List.map_filter_simps split: option.splits)

lemma slopes_append:
  "slopes k (xs @ [x]) (Suc (length xs)) = slopes k xs (length xs)
     @ (case slope_at k (xs @ [x]) (Suc (length xs)) of None \<Rightarrow> [] | Some a \<Rightarrow> [a])"
proof -
  have "[1..<Suc (Suc (length xs))] = [1..<Suc (length xs)] @ [Suc (length xs)]" by simp
  moreover have "List.map_filter (slope_at k (xs @ [x])) [1..<Suc (length xs)] =
      List.map_filter (slope_at k xs) [1..<Suc (length xs)]"
    by (rule map_filter_cong) (auto simp: slope_at_append)
  ultimately show ?thesis
    by (simp add: slopes_def map_filter_append List.map_filter_simps split: option.splits)
qed

lemma acol_at_append: "t \<le> length xs \<Longrightarrow> acol_at k nw (xs @ [x]) t = acol_at k nw xs t"
proof -
  assume t: "t \<le> length xs"
  have "slopes k (xs @ [x]) t = slopes k xs t"
    unfolding slopes_def by (rule map_filter_cong) (use t in \<open>auto simp: slope_at_append\<close>)
  with t show ?thesis by (simp add: acol_at_def slope_at_append split: option.split)
qed

lemma true_ranges_append:
  "true_ranges (cs @ [(c, h, l)]) = true_ranges cs
     @ [if cs = [] then 0 else true_range (fst (last cs)) h l]"
  by (auto simp: true_ranges_def nth_append last_conv_nth)

definition v5_represents :: "nat \<Rightarrow> nat \<Rightarrow> nat \<Rightarrow> nat \<Rightarrow> v5_state \<Rightarrow> bar list \<Rightarrow> bool" where
  "v5_represents sma_len atr_len poc_len nw s cs \<longleftrightarrow>
     (let xs = closes_of cs
      in v_sma_len s = sma_len \<and> v_atr_len s = atr_len \<and> v_poc_len s = poc_len
         \<and> v_norm_window s = nw \<and> v_close s = xs
         \<and> v_sma_sum s = sum_list (last_n sma_len xs)
         \<and> v_sma_values s = map (sma_at sma_len xs) [1..<Suc (length xs)]
         \<and> v_tr_sum s = sum_list (last_n atr_len (true_ranges cs))
         \<and> v_tr_window s = last_n atr_len (true_ranges cs)
         \<and> v_poc_sorted s = sort (last_n poc_len xs)
         \<and> v_adiff_window s = last_n nw (slopes sma_len xs (length xs))
         \<and> v_last_acol s = acol_at sma_len nw xs (length xs))"

lemma v5_slope_represents:
  assumes "v5_represents sma_len atr_len poc_len nw s cs" and "0 < nw"
    and "closes_of cs = xs" and "n = length xs"
  shows "v5_slope s (sma_at sma_len (xs @ [x]) (Suc n)) =
    (last_n nw (slopes sma_len (xs @ [x]) (Suc n)), acol_at sma_len nw (xs @ [x]) (Suc n))"
proof -
  let ?sma = "sma_at sma_len (xs @ [x])"
  have vals: "v_sma_values s @ [?sma (Suc n)] = map ?sma [1..<Suc (Suc n)]"
    using assms by (auto simp: v5_represents_def Let_def sma_at_append)
  have window: "v_adiff_window s = last_n nw (slopes sma_len xs n)" "v_norm_window s = nw"
    using assms by (simp_all add: v5_represents_def Let_def)
  have "slope_at sma_len (xs @ [x]) (Suc n) = (if Suc n \<le> 5 then None else
     case (?sma (Suc n), ?sma (Suc n - 5)) of (Some a, Some b) \<Rightarrow> Some (a - b) | _ \<Rightarrow> None)"
    by (simp add: slope_at_def)
  moreover have "from_end (map ?sma [1..<Suc (Suc n)]) 6 = ?sma (Suc n - 5)" if "5 < Suc n"
    using that by (simp add: from_end_def nth_append Suc_diff_le [symmetric] del: upt_Suc)
  ultimately show ?thesis
    unfolding v5_slope_def vals window acol_at_def assms(4) [symmetric]
      slopes_append [of sma_len xs x, folded assms(4)]
    using last_n_last_n_append [OF assms(2), of "slopes sma_len xs n"]
    by (auto simp: Let_def not_le split: option.splits)
qed

lemma v5_append_represents:
  assumes rep: "v5_represents sma_len atr_len poc_len nw s cs"
    and pos: "0 < sma_len" "0 < atr_len" "0 < poc_len" "0 < nw"
    and cs'_def: "cs' = cs @ [(c, h, l)]"
  shows "v5_represents sma_len atr_len poc_len nw (snd (v5_append c h l s)) cs'"
    and "fst (v5_append c h l s) = v5_batch sma_len atr_len poc_len nw cs'"
proof -
  define xs where "xs = closes_of cs"
  define n where "n = length xs"
  have xs': "closes_of cs' = xs @ [c]" and len: "length cs = n" "length cs' = Suc n"
    by (simp_all add: cs'_def xs_def n_def closes_of_def)
  note s = rep [unfolded v5_represents_def Let_def, folded xs_def, folded n_def]
  define sma_sum where "sma_sum = sum_list (last_n sma_len (xs @ [c]))"
  have sma_sum: "sum_list (last_n sma_len xs) + c - (if Suc n > sma_len then from_end (xs @ [c]) (sma_len + 1) else 0)
      = sma_sum"
    using sum_last_n_append [OF pos(1), of xs c] s by (simp add: sma_sum_def n_def less_Suc_eq_le)
  have sma: "(if sma_len \<le> Suc n then Some (sma_sum / real sma_len) else None)
      = sma_at sma_len (xs @ [c]) (Suc n)"
    by (simp add: sma_at_def sma_sum_def n_def)
  have slope: "v5_slope s (sma_at sma_len (xs @ [c]) (Suc n)) =
      (last_n nw (slopes sma_len (xs @ [c]) (Suc n)), acol_at sma_len nw (xs @ [c]) (Suc n))"
    using v5_slope_represents [OF rep pos(4), of xs n c] by (simp add: xs_def n_def)
  define tr where "tr = (if Suc n > 1 then true_range (if xs = [] then c else last xs) h l else 0)"
  have trs: "true_ranges cs' = true_ranges cs @ [tr]"
    unfolding cs'_def true_ranges_append
    by (auto simp: tr_def n_def xs_def closes_of_def last_map)
  let ?w = "last_n atr_len (true_ranges cs) @ [tr]"
  have tr_window: "(if length ?w > atr_len then tl ?w else ?w) = last_n atr_len (true_ranges cs')"
    unfolding trs by (rule last_n_drop_first [OF pos(2), symmetric])
  have tr_sum: "sum_list (last_n atr_len (true_ranges cs)) + tr - (if length ?w > atr_len then hd ?w else 0)
      = sum_list (last_n atr_len (true_ranges cs'))"
    unfolding tr_window [symmetric]
    by (cases "last_n atr_len (true_ranges cs)") auto
  have poc: "(if Suc n > poc_len
       then remove1 (from_end (xs @ [c]) (poc_len + 1)) (insort c (sort (last_n poc_len xs)))
       else insort c (sort (last_n poc_len xs))) = sort (last_n poc_len (xs @ [c]))"
    using sort_last_n_append [OF pos(3), of xs c] by (simp add: n_def less_Suc_eq_le)
  have prev: "acol_at sma_len nw xs n = acol_at sma_len nw (xs @ [c]) n"
    by (simp add: acol_at_append n_def)
  have vals: "map (sma_at sma_len xs) [1..<Suc n] @ [sma_at sma_len (xs @ [c]) (Suc n)] =
      map (sma_at sma_len (xs @ [c])) [1..<Suc (Suc n)]"
    by (auto simp: sma_at_append n_def)
  have l: "length (xs @ [c]) = Suc n" by (simp add: n_def)
  have conv: "length (last_n atr_len (true_ranges cs')) < atr_len \<longleftrightarrow> Suc n < atr_len"
    "length (sort (last_n poc_len (xs @ [c]))) < poc_len \<longleftrightarrow> Suc n < poc_len"
    using len by (auto simp: true_ranges_def n_def)
  show "v5_represents sma_len atr_len poc_len nw (snd (v5_append c h l s)) cs'"
    unfolding v5_append_def v5_represents_def xs' Let_def
    by (simp only: s l sma_sum sma slope tr_def [symmetric] tr_window tr_sum poc prod.case snd_conv
        vals) (simp add: s sma_sum_def)
  show "fst (v5_append c h l s) = v5_batch sma_len atr_len poc_len nw cs'"
    unfolding v5_append_def v5_batch_def xs' Let_def
    by (simp only: s l len sma_sum sma slope tr_def [symmetric] tr_window tr_sum poc prod.case fst_conv
        prev conv diff_Suc_1) (simp only: cs'_def last_snoc fst_conv snd_conv)
qed

text \<open>Feeding a history candle by candle: the last answer is the batch answer.\<close>

fun v5_feed :: "bar list \<Rightarrow> v5_state \<Rightarrow> v5_result option \<times> v5_state" where
  "v5_feed [] s = (None, s)"
| "v5_feed ((c, h, l) # cs) s =
     (let (r, s) = v5_append c h l s in if cs = [] then (r, s) else v5_feed cs s)"

lemma v5_represents_new:
  "v5_represents sma_len atr_len poc_len nw (new_v5 sma_len atr_len poc_len nw) []"
  by (simp add: v5_represents_def new_v5_def closes_of_def true_ranges_def slopes_def
      List.map_filter_simps acol_at_def slope_at_def)

lemma v5_feed_batch:
  assumes "v5_represents sma_len atr_len poc_len nw s cs" and "ds \<noteq> []"
    and pos: "0 < sma_len" "0 < atr_len" "0 < poc_len" "0 < nw"
  shows "fst (v5_feed ds s) = v5_batch sma_len atr_len poc_len nw (cs @ ds)"
  using assms(1,2)
proof (induction ds arbitrary: s cs)
  case Nil
  then show ?case by simp
next
  case (Cons d ds)
  obtain c h l where d: "d = (c, h, l)" by (cases d)
  note step = v5_append_represents [OF Cons.prems(1) pos refl, of c h l]
  show ?case
  proof (cases "ds = []")
    case True
    with step(2) show ?thesis by (simp add: d case_prod_beta)
  next
    case False
    from Cons.IH [OF step(1) False] False show ?thesis
      by (simp add: d case_prod_beta)
  qed
qed


section \<open>The computation on the whole history\<close>

text \<open>
  \<^verbatim>\<open>indicators/pandas/v5.py\<close>: the same indicator from the lists of a whole history, with prefix sums
  for the averages.  An index below 0 never reaches a list: the window that would need it starts before it.
\<close>

fun prefix_from :: "real \<Rightarrow> real list \<Rightarrow> real list" where
  "prefix_from acc [] = []"
| "prefix_from acc (v # vs) = (acc + v) # prefix_from (acc + v) vs"

definition v5_prefix :: "real list \<Rightarrow> real list" where
  "v5_prefix vals = 0 # prefix_from 0 vals"

definition window_avg :: "real list \<Rightarrow> int \<Rightarrow> nat \<Rightarrow> real option" where
  "window_avg pre end_index period =
     (let start = end_index - int period + 1
      in if start < 0 then None else Some ((pre ! nat (end_index + 1) - pre ! nat start) / real period))"

definition adiff_at :: "real list \<Rightarrow> int \<Rightarrow> nat \<Rightarrow> real option" where
  "adiff_at pre index sma_len =
     (case (window_avg pre index sma_len, window_avg pre (index - 5) sma_len) of
        (Some avg, Some prev) \<Rightarrow> Some (avg - prev) | _ \<Rightarrow> None)"

definition median_tail :: "real list \<Rightarrow> nat \<Rightarrow> real option" where
  "median_tail vals period =
     (if length vals < period then None else Some (median_of_sorted period (sort (last_n period vals))))"

definition atr_tail :: "real list \<Rightarrow> real list \<Rightarrow> real list \<Rightarrow> nat \<Rightarrow> real option" where
  "atr_tail high low close period =
     (let n = length close
      in if n \<le> period then None
         else Some (sum_list (map (\<lambda>i. true_range (close ! (i - 1)) (high ! i) (low ! i)) [n - period..<n]) / real period))"

definition tail_acol :: "real list \<Rightarrow> nat \<Rightarrow> nat \<Rightarrow> int \<Rightarrow> real option" where
  "tail_acol pre sma_len norm_window target =
     (let ds = List.map_filter (\<lambda>index. adiff_at pre index sma_len) [target - int norm_window + 1..target];
          abs_max = max_abs ds
      in case adiff_at pre target sma_len of
           None \<Rightarrow> None
         | Some current_adiff \<Rightarrow> if abs_max \<le> 1 / 10 ^ 12 then None else Some (current_adiff / abs_max))"

definition compute_v5_tail_indicators ::
  "real list \<Rightarrow> real list \<Rightarrow> real list \<Rightarrow> nat \<Rightarrow> nat \<Rightarrow> nat \<Rightarrow> nat \<Rightarrow> v5_result option" where
  "compute_v5_tail_indicators close high low sma_len atr_len poc_len norm_window =
     (let n = length close; pre = v5_prefix close
      in if n < norm_window + sma_len + 10 then None
         else case (tail_acol pre sma_len norm_window (int n - 1), tail_acol pre sma_len norm_window (int n - 2),
                    atr_tail high low close atr_len, median_tail close poc_len) of
             (Some acol, Some acol_prev, Some atr, Some poc) \<Rightarrow>
               if atr \<le> 0 then None
               else Some \<lparr>vr_acol = acol, vr_acol_prev = acol_prev, vr_atr = atr, vr_poc = poc,
                          vr_close = last close, vr_high = last high, vr_low = last low\<rparr>
           | _ \<Rightarrow> None)"

lemma length_prefix_from [simp]: "length (prefix_from a xs) = length xs"
  by (induction xs arbitrary: a) simp_all

lemma nth_prefix_from: "i < length xs \<Longrightarrow> prefix_from a xs ! i = a + sum_list (take (Suc i) xs)"
  by (induction xs arbitrary: a i) (auto simp: nth_Cons split: nat.splits)

lemma nth_v5_prefix: "t \<le> length xs \<Longrightarrow> v5_prefix xs ! t = sum_list (take t xs)"
  by (cases t) (simp_all add: v5_prefix_def nth_prefix_from)

lemma window_avg_sma:
  assumes "t \<le> length xs" and "0 < k"
  shows "window_avg (v5_prefix xs) (int t - 1) k = sma_at k xs t"
proof (cases "k \<le> t")
  case True
  have "sum_list (take t xs) = sum_list (take (t - k) xs) + sum_list (last_n k (take t xs))"
    using assms(1) by (simp add: last_n_def flip: sum_list_append) (metis append_take_drop_id min.absorb1 diff_le_self take_take)
  moreover have "nat (int t - int k) = t - k" using True by simp
  ultimately show ?thesis using True assms by (simp add: window_avg_def sma_at_def nth_v5_prefix Let_def)
qed (simp add: window_avg_def sma_at_def)

lemma adiff_slope:
  assumes "t \<le> length xs" and "0 < k"
  shows "adiff_at (v5_prefix xs) (int t - 1) k = slope_at k xs t"
proof (cases "t \<le> 5")
  case True
  then have "window_avg (v5_prefix xs) (int t - 1 - 5) k = None" using assms(2) by (simp add: window_avg_def)
  with True show ?thesis by (simp add: adiff_at_def slope_at_def split: option.splits)
next
  case False
  then have "window_avg (v5_prefix xs) (int t - 1 - 5) k = sma_at k xs (t - 5)"
    using window_avg_sma [of "t - 5" xs k] assms by (simp add: of_nat_diff)
  with False assms show ?thesis unfolding adiff_at_def slope_at_def by (simp only: window_avg_sma if_False)
qed

lemma slope_defined: "0 < k \<Longrightarrow> k + 5 \<le> t \<Longrightarrow> slope_at k xs t \<noteq> None"
  by (simp add: slope_at_def sma_at_def)

lemma length_map_filter_all: "(\<And>x. x \<in> set xs \<Longrightarrow> f x \<noteq> None) \<Longrightarrow> length (List.map_filter f xs) = length xs"
  by (induction xs) (auto simp: map_filter_simps split: option.splits)

lemma upto_shift: "a \<le> b \<Longrightarrow> [int a - 1..int b - 1] = map (\<lambda>j. int j - 1) [a..<Suc b]"
proof (induction b rule: dec_induct)
  case (step b)
  have "[int a - 1..int (Suc b) - 1] = [int a - 1..int b - 1] @ [int b]"
    using step.hyps upto_rec2 [of "int a - 1" "int b"] by simp
  with step show ?case by simp
qed simp

lemma tail_acol_at:
  assumes t: "t \<le> length xs" "nw + k + 9 \<le> t" and pos: "0 < k" "0 < nw"
  shows "tail_acol (v5_prefix xs) k nw (int t - 1) = acol_at k nw xs t"
proof -
  let ?a = "t - nw + 1"
  have a: "1 \<le> ?a" "?a \<le> t" "int t - 1 - int nw + 1 = int ?a - 1" "k + 5 \<le> ?a" using t pos by auto
  have split: "[1..<Suc t] = [1..<?a] @ [?a..<Suc t]" using a(1,2) upt_add_eq_append [of 1 ?a "Suc t - ?a"] by simp
  have "length (List.map_filter (slope_at k xs) [?a..<Suc t]) = nw"
    using a pos t slope_defined [OF pos(1), of _ xs] by (subst length_map_filter_all) (simp_all del: upt_Suc not_None_eq)
  then have "last_n nw (slopes k xs t) = List.map_filter (slope_at k xs) [?a..<Suc t]"
    unfolding slopes_def split map_filter_append last_n_def by (simp del: upt_Suc)
  moreover have "List.map_filter (\<lambda>index. adiff_at (v5_prefix xs) index k) [int t - 1 - int nw + 1..int t - 1] =
      List.map_filter (slope_at k xs) [?a..<Suc t]"
  proof -
    have "List.map_filter (\<lambda>index. adiff_at (v5_prefix xs) index k) (map (\<lambda>j. int j - 1) js) = List.map_filter (slope_at k xs) js"
      if "\<forall>j \<in> set js. j \<le> length xs" for js
      using that by (induction js) (simp_all add: map_filter_simps adiff_slope [OF _ pos(1)] split: option.split)
    from this [of "[?a..<Suc t]"] show ?thesis using t(1) unfolding a(3) upto_shift [OF a(2)] by (simp del: upt_Suc)
  qed
  ultimately show ?thesis
    using adiff_slope [OF t(1) pos(1)] by (simp add: tail_acol_def acol_at_def Let_def not_less split: option.splits)
qed

lemma atr_tail_ranges:
  assumes "p < length cs"
  shows "atr_tail (map (fst \<circ> snd) cs) (map (snd \<circ> snd) cs) (closes_of cs) p = Some (sum_list (last_n p (true_ranges cs)) / real p)"
proof -
  let ?n = "length cs"
  have "last_n p (true_ranges cs) = map (\<lambda>t. if t = 0 then 0
     else true_range (fst (cs ! (t - 1))) (fst (snd (cs ! t))) (snd (snd (cs ! t)))) [?n - p..<?n]"
    unfolding true_ranges_def last_n_def by (simp add: drop_map)
  also have "\<dots> = map (\<lambda>i. true_range (closes_of cs ! (i - 1)) (map (fst \<circ> snd) cs ! i) (map (snd \<circ> snd) cs ! i)) [?n - p..<?n]"
    using assms by (intro map_cong) (auto simp: closes_of_def)
  finally show ?thesis using assms by (simp add: atr_tail_def closes_of_def Let_def)
qed

text \<open>The history and the prefix sums agree, but for a history of exactly \<open>atr_len\<close> candles.\<close>

lemma tail_is_batch:
  assumes "0 < sma_len" "0 < nw"
  shows "compute_v5_tail_indicators (closes_of cs) (map (fst \<circ> snd) cs) (map (snd \<circ> snd) cs) sma_len atr_len poc_len nw =
    (if length cs = atr_len then None else v5_batch sma_len atr_len poc_len nw cs)"
proof -
  let ?n = "length cs" and ?xs = "closes_of cs"
  have l: "length ?xs = ?n" by (simp add: closes_of_def)
  consider (short) "?n < nw + sma_len + 10" | (few) "\<not> ?n < nw + sma_len + 10" "?n \<le> atr_len"
    | (long) "\<not> ?n < nw + sma_len + 10" "atr_len < ?n" by linarith
  then show ?thesis
  proof cases
    case short
    then show ?thesis by (simp add: compute_v5_tail_indicators_def v5_batch_def l Let_def split: option.splits)
  next
    case few
    then have "atr_tail (map (fst \<circ> snd) cs) (map (snd \<circ> snd) cs) ?xs atr_len = None" by (simp add: atr_tail_def l)
    moreover have "?n \<noteq> atr_len \<Longrightarrow> ?n < atr_len" using few by simp
    ultimately show ?thesis
      by (auto simp: compute_v5_tail_indicators_def v5_batch_def Let_def split: option.splits)
  next
    case long
    then have cs: "cs \<noteq> []" by auto
    have last: "last ?xs = fst (last cs)" "last (map (fst \<circ> snd) cs) = fst (snd (last cs))"
      "last (map (snd \<circ> snd) cs) = snd (snd (last cs))" using cs by (simp_all add: closes_of_def last_map)
    have "int ?n - 2 = int (?n - 1) - 1" using long by simp
    then have acols: "tail_acol (v5_prefix ?xs) sma_len nw (int ?n - 1) = acol_at sma_len nw ?xs ?n"
      "tail_acol (v5_prefix ?xs) sma_len nw (int ?n - 2) = acol_at sma_len nw ?xs (?n - 1)"
      using tail_acol_at [of ?n ?xs nw sma_len] tail_acol_at [of "?n - 1" ?xs nw sma_len] long assms l by simp_all
    show ?thesis
      using long by (simp add: compute_v5_tail_indicators_def v5_batch_def Let_def l acols [simplified] atr_tail_ranges last
        median_tail_def split: option.splits)
  qed
qed

end
