(* ===== verification/CandleBuffer.thy ===== *)
theory CandleBuffer
  imports Models
begin

text \<open>
  \<open>NumpyCandleBuffer\<close> of \<^verbatim>\<open>alphas/runner/data_layer/cache.py\<close>: a ring buffer of candles over six
  parallel arrays, seen here as one array of slots.  The lemmas show that it implements a list
  (\<open>view\<close>): appending, replacing, inserting and trimming act on the list as one expects, and
  \<open>tail\<close> reads its end.  The locale \<open>bar_buffer\<close> is that contract, which the cache relies on.

  A candle is a dictionary; reading a price may raise, and then the slot has been written up to
  that field.  The slots of a fresh array are zero here; they are never part of the view.
\<close>

section \<open>Slots\<close>

record slot =
  s_time :: int
  s_open :: pyfloat
  s_high :: pyfloat
  s_low :: pyfloat
  s_close :: pyfloat
  s_volume :: pyfloat

type_synonym candle = "(string, json) dict"

definition blank_slot :: slot where
  "blank_slot = \<lparr>s_time = 0, s_open = Fin 0, s_high = Fin 0, s_low = Fin 0, s_close = Fin 0,
     s_volume = Fin 0\<rparr>"

definition candle_float :: "candle \<Rightarrow> string \<Rightarrow> pyfloat res" where
  "candle_float c k = jfloat (dget c k (JNum (Fin 0)))"

text \<open>
  The slot of a candle whose prices can all be read.  The array of times holds 64-bit integers;
  an \<open>int\<close> outside their range raises when it is stored.
\<close>

definition int64 :: "int \<Rightarrow> bool" where
  "int64 t \<longleftrightarrow> - (2 ^ 63) \<le> t \<and> t < 2 ^ 63"

definition slot_of :: "candle \<Rightarrow> int \<Rightarrow> slot res" where
  "slot_of c t =
     res_bind (candle_float c ''open'') (\<lambda>o'.
     res_bind (candle_float c ''high'') (\<lambda>h.
     res_bind (candle_float c ''low'') (\<lambda>l.
     res_bind (candle_float c ''close'') (\<lambda>cl.
     res_bind (candle_float c ''volume'') (\<lambda>v.
     if int64 t
     then Inr \<lparr>s_time = t, s_open = o', s_high = h, s_low = l, s_close = cl, s_volume = v\<rparr>
     else Inl OverflowError)))))"

text \<open>The writes of \<open>_write_physical\<close>, in its order.\<close>

definition put_field ::
  "candle \<Rightarrow> string \<Rightarrow> (pyfloat \<Rightarrow> slot \<Rightarrow> slot) \<Rightarrow> (slot, unit) eff" where
  "put_field c k f = bind (lift_res (candle_float c k)) (\<lambda>x. modify (f x))"

definition write_slot :: "candle \<Rightarrow> int \<Rightarrow> (slot, unit) eff" where
  "write_slot c t =
     then_do (if int64 t then modify (\<lambda>s. s\<lparr>s_time := t\<rparr>) else throw OverflowError)
     (then_do (put_field c ''open'' (\<lambda>x s. s\<lparr>s_open := x\<rparr>))
     (then_do (put_field c ''high'' (\<lambda>x s. s\<lparr>s_high := x\<rparr>))
     (then_do (put_field c ''low'' (\<lambda>x s. s\<lparr>s_low := x\<rparr>))
     (then_do (put_field c ''close'' (\<lambda>x s. s\<lparr>s_close := x\<rparr>))
       (put_field c ''volume'' (\<lambda>x s. s\<lparr>s_volume := x\<rparr>))))))"

lemma write_slot_ok: "slot_of c t = Inr x \<Longrightarrow> write_slot c t s = (Inr (), x)"
  by (auto simp: slot_of_def write_slot_def put_field_def res_bind_Inr_iff then_do_apply bind_def
      lift_res_def split: if_splits)

lemma slot_of_time: "slot_of c t = Inr x \<Longrightarrow> s_time x = t"
  by (auto simp: slot_of_def res_bind_Inr_iff split: if_splits)

lemma slot_of_int64: "slot_of c t = Inr x \<Longrightarrow> int64 t"
  by (auto simp: slot_of_def res_bind_Inr_iff split: if_splits)

text \<open>Whatever a candle holds, the time is the first field to be written.\<close>

lemma write_slot_time: "int64 t \<Longrightarrow> s_time (snd (write_slot c t s)) = t"
  by (simp add: write_slot_def put_field_def then_do_apply bind_def lift_res_def
      split: sum.splits prod.splits)

section \<open>The buffer\<close>

record buffer =
  b_capacity :: nat
  b_start :: nat
  b_size :: nat
  b_slots :: "slot list"

definition max_capacity :: int where
  "max_capacity = 100000"

definition new_buffer :: "int \<Rightarrow> buffer" where
  "new_buffer capacity = (let n = nat (max 1 capacity) in
     \<lparr>b_capacity = n, b_start = 0, b_size = 0, b_slots = replicate n blank_slot\<rparr>)"

text \<open>\<open>tail\<close>: a slice when the bars are contiguous, two slices when they wrap around.\<close>

definition tail :: "int \<Rightarrow> buffer \<Rightarrow> slot list" where
  "tail n b =
     (if b_size b = 0 then []
      else
        (let count = (if n \<le> 0 then b_size b else min (nat n) (b_size b));
             start = (b_start b + (b_size b - count)) mod b_capacity b;
             stop = start + count
         in if stop \<le> b_capacity b then take count (drop start (b_slots b))
            else drop start (b_slots b) @ take (stop mod b_capacity b) (b_slots b)))"

definition latest_time :: "buffer \<Rightarrow> int option" where
  "latest_time b =
     (if b_size b = 0 then None
      else Some (s_time (b_slots b ! ((b_start b + b_size b - 1) mod b_capacity b))))"

definition write_physical :: "nat \<Rightarrow> candle \<Rightarrow> int \<Rightarrow> (buffer, unit) eff" where
  "write_physical i c t = (\<lambda>b. case write_slot c t (b_slots b ! i) of
     (r, s) \<Rightarrow> (r, b\<lparr>b_slots := (b_slots b)[i := s]\<rparr>))"

definition append_bar :: "candle \<Rightarrow> int \<Rightarrow> (buffer, nat) eff" where
  "append_bar c t = (\<lambda>b.
     if b_size b < b_capacity b
     then bind (write_physical ((b_start b + b_size b) mod b_capacity b) c t) (\<lambda>_. ret 0)
            (b\<lparr>b_size := b_size b + 1\<rparr>)
     else bind (write_physical (b_start b) c t) (\<lambda>_. ret 1)
            (b\<lparr>b_start := (b_start b + 1) mod b_capacity b\<rparr>))"

definition replace_bar :: "nat \<Rightarrow> candle \<Rightarrow> int \<Rightarrow> (buffer, unit) eff" where
  "replace_bar i c t = (\<lambda>b. write_physical ((b_start b + i) mod b_capacity b) c t b)"

text \<open>\<open>_reset_from_arrays\<close>.\<close>

definition reset_from :: "slot list \<Rightarrow> buffer \<Rightarrow> buffer" where
  "reset_from xs b = b\<lparr>b_start := 0, b_size := length xs,
     b_slots := xs @ drop (length xs) (b_slots b)\<rparr>"

definition insert_bar :: "nat \<Rightarrow> candle \<Rightarrow> int \<Rightarrow> (buffer, nat) eff" where
  "insert_bar i c t = (\<lambda>b.
     bind (lift_res (slot_of c t)) (\<lambda>x b.
       (let v = tail 0 b; k = min i (b_size b);
            v = take k v @ x # drop k v;
            overflow = length v - b_capacity b
        in (Inr overflow, reset_from (drop overflow v) b))) b)"

definition trim_to :: "int \<Rightarrow> buffer \<Rightarrow> nat \<times> buffer" where
  "trim_to keep b =
     (if keep \<le> 0 \<or> int (b_size b) \<le> keep then (0, b)
      else (let overflow = b_size b - nat keep
            in (overflow, b\<lparr>b_start := (b_start b + overflow) mod b_capacity b,
                            b_size := nat keep\<rparr>)))"

definition ensure_capacity :: "int \<Rightarrow> buffer \<Rightarrow> buffer" where
  "ensure_capacity capacity b =
     (let c = nat (max 1 (min capacity max_capacity))
      in if c \<le> b_capacity b then b
         else (let v = tail 0 b
               in \<lparr>b_capacity = c, b_start = 0, b_size = length v,
                   b_slots = v @ replicate (c - length v) blank_slot\<rparr>))"

text \<open>\<open>np.searchsorted(times, t, side = "left")\<close> on ascending times.\<close>

definition search_time :: "int \<Rightarrow> buffer \<Rightarrow> nat \<times> bool" where
  "search_time t b =
     (let times = map s_time (tail 0 b); i = length (takeWhile (\<lambda>u. u < t) times)
      in (i, i < length times \<and> times ! i = t))"

section \<open>The list a buffer stands for\<close>

definition buffer_inv :: "buffer \<Rightarrow> bool" where
  "buffer_inv b \<longleftrightarrow> 0 < b_capacity b \<and> length (b_slots b) = b_capacity b
     \<and> b_start b < b_capacity b \<and> b_size b \<le> b_capacity b"

definition view :: "buffer \<Rightarrow> slot list" where
  "view b = map (\<lambda>i. b_slots b ! ((b_start b + i) mod b_capacity b)) [0..<b_size b]"

lemma length_view [simp]: "length (view b) = b_size b"
  by (simp add: view_def)

lemma nth_view: "i < b_size b \<Longrightarrow> view b ! i = b_slots b ! ((b_start b + i) mod b_capacity b)"
  by (simp add: view_def)

lemma mod_wrap: "a < c \<Longrightarrow> i < c \<Longrightarrow> (a + i) mod c = (if a + i < c then a + i else a + i - c)"
  for a i c :: nat
  by (simp add: mod_if)

lemma mod_inj: "a < c \<Longrightarrow> i < c \<Longrightarrow> j < c \<Longrightarrow> (a + i) mod c = (a + j) mod c \<longleftrightarrow> i = j"
  for a i j c :: nat
  by (auto simp: mod_wrap split: if_splits)

lemma new_buffer_inv [simp]: "buffer_inv (new_buffer c)" "view (new_buffer c) = []"
  by (simp_all add: buffer_inv_def new_buffer_def view_def Let_def)

text \<open>\<open>tail\<close> reads the end of the list.\<close>

lemma tail_view:
  assumes "buffer_inv b"
  shows "tail n b = (if n \<le> 0 then view b else last_n (nat n) (view b))"
proof -
  define count where "count = (if n \<le> 0 then b_size b else min (nat n) (b_size b))"
  let ?c = "b_capacity b" and ?off = "b_size b - count"
  define start where "start = (b_start b + ?off) mod ?c"
  have inv: "0 < ?c" "length (b_slots b) = ?c" "b_start b < ?c" "b_size b \<le> ?c"
    using assms by (simp_all add: buffer_inv_def)
  then have st: "start < ?c" by (simp add: start_def)
  have cnt: "count \<le> b_size b" by (simp add: count_def)
  let ?t = "if start + count \<le> ?c then take count (drop start (b_slots b))
            else drop start (b_slots b) @ take ((start + count) mod ?c) (b_slots b)"
  have "?t = drop ?off (view b)"
  proof (rule nth_equalityI)
    have "(start + count) mod ?c = start + count - ?c" if "\<not> start + count \<le> ?c"
      using that st cnt inv by (simp add: mod_if)
    then show "length ?t = length (drop ?off (view b))"
      using st cnt inv by (auto simp: min_def)
    fix i
    assume "i < length ?t"
    then have i: "i < count" using \<open>length ?t = length (drop ?off (view b))\<close> cnt by simp
    have "(b_start b + (?off + i)) mod ?c = (start + i) mod ?c"
      by (simp add: start_def mod_add_left_eq add.assoc [symmetric])
    then have "drop ?off (view b) ! i = b_slots b ! ((start + i) mod ?c)"
      using i cnt by (simp add: nth_view)
    also have "(start + i) mod ?c = (if start + i < ?c then start + i else start + i - ?c)"
      using st i cnt inv by (intro mod_wrap) auto
    finally show "?t ! i = drop ?off (view b) ! i"
      using i st cnt inv \<open>\<not> start + count \<le> ?c \<Longrightarrow> (start + count) mod ?c = start + count - ?c\<close>
      by (auto simp: nth_append add.commute)
  qed
  moreover have "tail n b = (if b_size b = 0 then [] else ?t)"
    by (simp add: tail_def Let_def count_def start_def)
  moreover have "view b = []" if "b_size b = 0" using that by (simp add: view_def)
  ultimately have "tail n b = drop ?off (view b)" by auto
  also have "drop ?off (view b) = (if n \<le> 0 then view b else last_n (nat n) (view b))"
    by (auto simp: count_def last_n_def min_def)
  finally show ?thesis .
qed

lemma tail_all [simp]: "buffer_inv b \<Longrightarrow> tail 0 b = view b"
  by (simp add: tail_view)

lemma latest_time_view:
  "buffer_inv b \<Longrightarrow> latest_time b = (if view b = [] then None else Some (s_time (last (view b))))"
proof -
  assume "buffer_inv b"
  have "view b = [] \<longleftrightarrow> b_size b = 0" using length_view [of b] by (metis length_0_conv)
  moreover have "last (view b) = b_slots b ! ((b_start b + b_size b - 1) mod b_capacity b)"
    if "b_size b \<noteq> 0"
    using that by (simp add: last_conv_nth nth_view flip: length_0_conv)
  ultimately show ?thesis by (auto simp: latest_time_def)
qed

text \<open>Writing a slot of the buffer.\<close>

lemma write_physical_ok:
  "slot_of c t = Inr x \<Longrightarrow> write_physical i c t b = (Inr (), b\<lparr>b_slots := (b_slots b)[i := x]\<rparr>)"
  by (simp add: write_physical_def write_slot_ok)

lemma append_bar_view:
  assumes inv: "buffer_inv b" and x: "slot_of c t = Inr x"
  shows "\<exists>b'. append_bar c t b = (Inr (if b_size b < b_capacity b then 0 else 1), b') \<and>
           buffer_inv b' \<and> b_capacity b' = b_capacity b \<and>
           view b' = (if b_size b < b_capacity b then view b else tl (view b)) @ [x]"
proof -
  let ?c = "b_capacity b" and ?s = "b_start b" and ?n = "b_size b"
  note i = inv [unfolded buffer_inv_def]
  show ?thesis
  proof (cases "?n < ?c")
    case True
    let ?b = "b\<lparr>b_size := ?n + 1, b_slots := (b_slots b)[(?s + ?n) mod ?c := x]\<rparr>"
    have "view ?b = view b @ [x]"
    proof (rule nth_equalityI)
      fix j
      assume "j < length (view ?b)"
      then show "view ?b ! j = (view b @ [x]) ! j"
        using i True mod_inj [of ?s ?c ?n j]
        by (auto simp: nth_view nth_append less_Suc_eq)
    qed simp
    with True i x show ?thesis
      by (simp add: append_bar_def bind_def write_physical_ok buffer_inv_def)
  next
    case False
    then have n: "?n = ?c" using i by simp
    let ?b = "b\<lparr>b_start := (?s + 1) mod ?c, b_slots := (b_slots b)[?s := x]\<rparr>"
    have "view ?b = tl (view b) @ [x]"
    proof (rule nth_equalityI)
      fix j
      assume "j < length (view ?b)"
      then have j: "j < ?c" using n by simp
      have e: "((?s + 1) mod ?c + j) mod ?c = (?s + (1 + j)) mod ?c"
        by (simp add: mod_add_left_eq add.assoc)
      show "view ?b ! j = (tl (view b) @ [x]) ! j"
      proof (cases "1 + j < ?c")
        case True
        then have "(?s + (1 + j)) mod ?c \<noteq> ?s"
          using i mod_inj [of ?s ?c "1 + j" 0] by simp
        with True j n e show ?thesis by (simp add: nth_view nth_append nth_tl)
      next
        case False
        then have "1 + j = ?c" using j by simp
        then have "(?s + (1 + j)) mod ?c = ?s" using i by simp
        with False j n e i show ?thesis by (simp add: nth_view nth_append nth_tl)
      qed
    qed (use n i in auto)
    with False n i x show ?thesis
      by (simp add: append_bar_def bind_def write_physical_ok buffer_inv_def)
  qed
qed

lemma replace_bar_view:
  assumes inv: "buffer_inv b" and x: "slot_of c t = Inr x" and k: "k < b_size b"
  shows "\<exists>b'. replace_bar k c t b = (Inr (), b') \<and> buffer_inv b' \<and> b_capacity b' = b_capacity b \<and>
           view b' = (view b)[k := x]"
proof -
  note i = inv [unfolded buffer_inv_def]
  let ?b = "b\<lparr>b_slots := (b_slots b)[(b_start b + k) mod b_capacity b := x]\<rparr>"
  have "view ?b = (view b)[k := x]"
  proof (rule nth_equalityI)
    fix j
    assume "j < length (view ?b)"
    then show "view ?b ! j = (view b)[k := x] ! j"
      using i k mod_inj [of "b_start b" "b_capacity b" k j]
      by (auto simp: nth_view nth_list_update)
  qed simp
  with i x show ?thesis by (simp add: replace_bar_def write_physical_ok buffer_inv_def)
qed

lemma reset_from_view:
  assumes "buffer_inv b" and "length xs \<le> b_capacity b"
  shows "buffer_inv (reset_from xs b)" and "view (reset_from xs b) = xs"
proof -
  note i = assms(1) [unfolded buffer_inv_def]
  show "buffer_inv (reset_from xs b)" using i assms(2) by (simp add: buffer_inv_def reset_from_def)
  show "view (reset_from xs b) = xs"
    using assms(2) by (intro nth_equalityI) (simp_all add: view_def reset_from_def nth_append)
qed

lemma insert_bar_view:
  assumes inv: "buffer_inv b" and x: "slot_of c t = Inr x" and k: "k \<le> b_size b"
  defines "v \<equiv> take k (view b) @ x # drop k (view b)"
  shows "\<exists>b'. insert_bar k c t b = (Inr (length v - b_capacity b), b') \<and> buffer_inv b' \<and>
           b_capacity b' = b_capacity b \<and> view b' = last_n (b_capacity b) v"
proof -
  have "insert_bar k c t b = (Inr (length v - b_capacity b),
      reset_from (drop (length v - b_capacity b) v) b)"
    unfolding insert_bar_def bind_def lift_res_def Let_def v_def
    using x k inv by (simp add: min_absorb1 add.commute)
  moreover have "length (drop (length v - b_capacity b) v) \<le> b_capacity b" by simp
  note reset_from_view [OF inv this]
  ultimately show ?thesis by (simp add: last_n_def reset_from_def)
qed

lemma trim_to_view:
  assumes inv: "buffer_inv b"
  shows "buffer_inv (snd (trim_to keep b)) \<and> b_capacity (snd (trim_to keep b)) = b_capacity b \<and>
    view (snd (trim_to keep b)) = (if keep \<le> 0 then view b else last_n (nat keep) (view b)) \<and>
    fst (trim_to keep b) = b_size b - b_size (snd (trim_to keep b))"
proof (cases "keep \<le> 0 \<or> int (b_size b) \<le> keep")
  case True
  then show ?thesis using inv by (auto simp: trim_to_def)
next
  case False
  note i = inv [unfolded buffer_inv_def]
  let ?off = "b_size b - nat keep"
  let ?b = "b\<lparr>b_start := (b_start b + ?off) mod b_capacity b, b_size := nat keep\<rparr>"
  have "view ?b = last_n (nat keep) (view b)"
  proof (rule nth_equalityI)
    fix j
    assume "j < length (view ?b)"
    then have "j < nat keep" by simp
    then have in_view: "?off + j < b_size b" using False by linarith
    have "view ?b ! j = b_slots b ! (((b_start b + ?off) mod b_capacity b + j) mod b_capacity b)"
      using \<open>j < nat keep\<close> by (simp add: view_def)
    also have "((b_start b + ?off) mod b_capacity b + j) mod b_capacity b =
        (b_start b + (?off + j)) mod b_capacity b"
      by (simp add: mod_add_left_eq add.assoc)
    also have "b_slots b ! \<dots> = view b ! (?off + j)" using nth_view [OF in_view] by simp
    also have "\<dots> = last_n (nat keep) (view b) ! j" using in_view by (simp add: last_n_def)
    finally show "view ?b ! j = last_n (nat keep) (view b) ! j" .
  qed (use False in auto)
  with False i show ?thesis
    by (auto simp: trim_to_def Let_def buffer_inv_def)
qed

lemma ensure_capacity_view:
  assumes inv: "buffer_inv b"
  shows "buffer_inv (ensure_capacity c b) \<and> view (ensure_capacity c b) = view b \<and>
    b_capacity (ensure_capacity c b) =
      max (b_capacity b) (nat (max 1 (min c max_capacity)))"
proof (cases "nat (max 1 (min c max_capacity)) \<le> b_capacity b")
  case True
  with inv show ?thesis by (simp add: ensure_capacity_def Let_def)
next
  case False
  define n where "n = nat (max 1 (min c max_capacity))"
  let ?b = "\<lparr>b_capacity = n, b_start = 0, b_size = b_size b,
    b_slots = view b @ replicate (n - b_size b) blank_slot\<rparr>"
  have n: "b_size b < n" "b_capacity b < n"
    using False inv by (auto simp: n_def buffer_inv_def)
  have "view ?b = view b"
    using n by (intro nth_equalityI) (simp_all add: view_def nth_append)
  moreover have "buffer_inv ?b" using n by (simp add: buffer_inv_def)
  moreover have "ensure_capacity c b = ?b"
    using False inv by (simp add: ensure_capacity_def Let_def flip: n_def)
  ultimately show ?thesis using n by (simp flip: n_def)
qed

section \<open>Raising writes\<close>

text \<open>
  A price that cannot be read raises after the size or the start has moved: the bar is part of
  the buffer, with the time of the candle.
\<close>


lemma write_physical_eq:
  "write_physical i c t b =
     (fst (write_slot c t (b_slots b ! i)),
      b\<lparr>b_slots := (b_slots b)[i := snd (write_slot c t (b_slots b ! i))]\<rparr>)"
  by (simp add: write_physical_def split: prod.splits)

section \<open>The interface of a buffer of bars\<close>

definition ascending :: "slot list \<Rightarrow> bool" where
  "ascending xs \<longleftrightarrow> sorted_wrt (<) (map s_time xs)"

text \<open>The specification of an update: bars stay in the order of their times, one per time.\<close>

fun put_bar :: "slot \<Rightarrow> slot list \<Rightarrow> slot list" where
  "put_bar x [] = [x]"
| "put_bar x (y # ys) =
     (if s_time x < s_time y then x # y # ys
      else if s_time x = s_time y then x # ys
      else y # put_bar x ys)"

lemma set_put_bar: "set (put_bar x xs) \<subseteq> insert x (set xs)" "x \<in> set (put_bar x xs)"
  by (induction xs) auto

lemma put_bar_ascending: "ascending xs \<Longrightarrow> ascending (put_bar x xs)"
proof (induction xs)
  case Nil
  then show ?case by (simp add: ascending_def)
next
  case (Cons y ys)
  then have IH: "ascending (put_bar x ys)" by (simp add: ascending_def)
  have "\<forall>z \<in> set (put_bar x ys). s_time y < s_time z" if "s_time y < s_time x"
    using that Cons.prems set_put_bar(1) [of x ys] by (auto simp: ascending_def)
  with IH Cons.prems show ?case by (auto simp: ascending_def)
qed

lemma put_bar_append: "\<forall>y \<in> set xs. s_time y < s_time x \<Longrightarrow> put_bar x xs = xs @ [x]"
  by (induction xs) auto

lemma put_bar_replace:
  "ascending xs \<Longrightarrow> i < length xs \<Longrightarrow> s_time (xs ! i) = s_time x \<Longrightarrow> put_bar x xs = xs[i := x]"
proof (induction xs arbitrary: i)
  case Nil
  then show ?case by simp
next
  case (Cons y ys)
  then show ?case
  proof (cases i)
    case 0
    with Cons.prems show ?thesis by simp
  next
    case (Suc j)
    with Cons.prems have "ys ! j \<in> set ys" and "s_time (ys ! j) = s_time x" by simp_all
    with Cons.prems(1) have "s_time y < s_time x" by (auto simp: ascending_def)
    with Cons Suc show ?thesis by (simp add: ascending_def)
  qed
qed

lemma put_bar_insert:
  assumes "ascending xs" and "s_time x \<notin> s_time ` set xs"
  shows "put_bar x xs = take (length (takeWhile (\<lambda>u. u < s_time x) (map s_time xs))) xs @ x #
           drop (length (takeWhile (\<lambda>u. u < s_time x) (map s_time xs))) xs"
  using assms by (induction xs) (auto simp: ascending_def)

lemma put_bar_known:
  "s_time x \<in> s_time ` set xs \<Longrightarrow> ascending xs \<Longrightarrow> length (put_bar x xs) = length xs"
  by (induction xs) (auto simp: ascending_def)

lemma put_bar_idem: "put_bar x (put_bar x xs) = put_bar x xs"
  by (induction xs) auto

lemma put_bar_again:
  "s_time x = s_time y \<Longrightarrow> put_bar x (put_bar y xs) = put_bar x xs"
  by (induction xs) auto

lemma put_bar_commute:
  "s_time x \<noteq> s_time y \<Longrightarrow> put_bar x (put_bar y xs) = put_bar y (put_bar x xs)"
  by (induction xs) auto

lemma ascending_last_n: "ascending xs \<Longrightarrow> ascending (last_n n xs)"
  by (simp add: ascending_def last_n_def sorted_wrt_drop flip: drop_map)

text \<open>
  The contract of a buffer: \<open>rep\<close> is the list it stands for, at most \<open>cap\<close> bars long; each
  operation acts on that list, and keeps the end of it that fits.
\<close>

locale bar_buffer =
  fixes ok :: "'b \<Rightarrow> bool" and rep :: "'b \<Rightarrow> slot list" and cap :: "'b \<Rightarrow> nat"
    and push :: "slot \<Rightarrow> 'b \<Rightarrow> 'b" and put :: "nat \<Rightarrow> slot \<Rightarrow> 'b \<Rightarrow> 'b"
    and splice :: "nat \<Rightarrow> slot \<Rightarrow> 'b \<Rightarrow> 'b" and locate :: "int \<Rightarrow> 'b \<Rightarrow> nat \<times> bool"
    and cut :: "int \<Rightarrow> 'b \<Rightarrow> 'b"
  assumes room: "ok b \<Longrightarrow> 0 < cap b \<and> length (rep b) \<le> cap b"
    and push: "ok b \<Longrightarrow> int64 (s_time x) \<Longrightarrow> ok (push x b) \<and> cap (push x b) = cap b \<and>
          rep (push x b) = last_n (cap b) (rep b @ [x])"
    and put: "ok b \<Longrightarrow> int64 (s_time x) \<Longrightarrow> i < length (rep b) \<Longrightarrow>
          ok (put i x b) \<and> cap (put i x b) = cap b \<and> rep (put i x b) = (rep b)[i := x]"
    and splice: "ok b \<Longrightarrow> int64 (s_time x) \<Longrightarrow> i \<le> length (rep b) \<Longrightarrow>
          ok (splice i x b) \<and> cap (splice i x b) = cap b \<and>
          rep (splice i x b) = last_n (cap b) (take i (rep b) @ x # drop i (rep b))"
    and locate: "ok b \<Longrightarrow> locate t b = (let i = length (takeWhile (\<lambda>u. u < t) (map s_time (rep b)))
          in (i, i < length (rep b) \<and> s_time (rep b ! i) = t))"
    and cut: "ok b \<Longrightarrow> ok (cut n b) \<and> cap (cut n b) = cap b \<and>
          rep (cut n b) = (if n \<le> 0 then rep b else last_n (nat n) (rep b))"
begin

text \<open>Each way to store a bar in its place is \<open>put_bar\<close>, up to the capacity.\<close>

lemma push_later:
  assumes "ok b" and "int64 (s_time x)" and "\<forall>y \<in> set (rep b). s_time y < s_time x"
  shows "ok (push x b) \<and> cap (push x b) = cap b \<and> rep (push x b) = last_n (cap b) (put_bar x (rep b))"
  using push [OF assms(1,2)] assms(3) by (simp add: put_bar_append)

lemma put_known:
  assumes "ok b" and "int64 (s_time x)" and "ascending (rep b)"
    and "i < length (rep b)" and "s_time (rep b ! i) = s_time x"
  shows "ok (put i x b) \<and> cap (put i x b) = cap b \<and> rep (put i x b) = put_bar x (rep b)"
  using put [OF assms(1,2,4)] assms by (simp add: put_bar_replace)

lemma locate_known:
  assumes "ok b" and "ascending (rep b)"
  shows "snd (locate t b) \<longleftrightarrow> t \<in> s_time ` set (rep b)"
proof
  assume "snd (locate t b)"
  then show "t \<in> s_time ` set (rep b)"
    using assms(1) by (auto simp: locate Let_def intro!: image_eqI nth_mem)
next
  assume t: "t \<in> s_time ` set (rep b)"
  have "sorted_wrt (<) us \<Longrightarrow> t \<in> set us \<Longrightarrow>
      length (takeWhile (\<lambda>u. u < t) us) < length us \<and> us ! length (takeWhile (\<lambda>u. u < t) us) = t"
    for us :: "int list"
    by (induction us) auto
  from this [of "map s_time (rep b)"] show "snd (locate t b)"
    using t assms by (auto simp: locate Let_def ascending_def)
qed

lemma splice_new:
  assumes "ok b" and "int64 (s_time x)" and "ascending (rep b)"
    and "\<not> snd (locate (s_time x) b)"
  shows "ok (splice (fst (locate (s_time x) b)) x b) \<and>
         cap (splice (fst (locate (s_time x) b)) x b) = cap b \<and>
         rep (splice (fst (locate (s_time x) b)) x b) = last_n (cap b) (put_bar x (rep b))"
proof -
  have new: "s_time x \<notin> s_time ` set (rep b)"
    using assms(1,3,4) by (simp add: locate_known)
  have i: "fst (locate (s_time x) b) = length (takeWhile (\<lambda>u. u < s_time x) (map s_time (rep b)))"
    using assms(1) by (simp add: locate Let_def)
  have "length (takeWhile (\<lambda>u. u < s_time x) (map s_time (rep b))) \<le> length (rep b)"
    using length_takeWhile_le [of "\<lambda>u. u < s_time x" "map s_time (rep b)"] by simp
  from splice [OF assms(1,2) this] show ?thesis
    by (simp only: i put_bar_insert [OF assms(3) new])
qed

end

text \<open>The ring buffer provides it, with the state each operation leaves for a readable candle.\<close>

definition bar_candle :: "slot \<Rightarrow> candle" where
  "bar_candle x = [(''open'', JNum (s_open x)), (''high'', JNum (s_high x)),
     (''low'', JNum (s_low x)), (''close'', JNum (s_close x)), (''volume'', JNum (s_volume x))]"

lemma slot_of_bar_candle [simp]: "int64 (s_time x) \<Longrightarrow> slot_of (bar_candle x) (s_time x) = Inr x"
  by (simp add: slot_of_def candle_float_def bar_candle_def dget_def)

lemma append_bar_last_n:
  assumes inv: "buffer_inv b" and x: "slot_of c t = Inr x"
  shows "fst (append_bar c t b) = Inr (if b_size b < b_capacity b then 0 else 1) \<and>
         buffer_inv (snd (append_bar c t b)) \<and> b_capacity (snd (append_bar c t b)) = b_capacity b \<and>
         view (snd (append_bar c t b)) = last_n (b_capacity b) (view b @ [x])"
proof -
  have "0 < b_capacity b" "b_size b \<le> b_capacity b" using inv by (simp_all add: buffer_inv_def)
  then show ?thesis
    using append_bar_view [OF inv x] by (auto simp: last_n_append_full last_n_append_short split: if_splits)
qed

interpretation ring: bar_buffer buffer_inv view b_capacity
  "\<lambda>x b. snd (append_bar (bar_candle x) (s_time x) b)"
  "\<lambda>i x b. snd (replace_bar i (bar_candle x) (s_time x) b)"
  "\<lambda>i x b. snd (insert_bar i (bar_candle x) (s_time x) b)"
  search_time "\<lambda>n b. snd (trim_to n b)"
proof unfold_locales
  fix b :: buffer and x :: slot and i :: nat
  assume inv: "buffer_inv b"
  then show "0 < b_capacity b \<and> length (view b) \<le> b_capacity b" by (simp add: buffer_inv_def)
  { assume "int64 (s_time x)"
    then have x: "slot_of (bar_candle x) (s_time x) = Inr x" by simp
    show "buffer_inv (snd (append_bar (bar_candle x) (s_time x) b)) \<and>
        b_capacity (snd (append_bar (bar_candle x) (s_time x) b)) = b_capacity b \<and>
        view (snd (append_bar (bar_candle x) (s_time x) b)) = last_n (b_capacity b) (view b @ [x])"
      using append_bar_last_n [OF inv x] by simp
    { assume "i < length (view b)"
      then show "buffer_inv (snd (replace_bar i (bar_candle x) (s_time x) b)) \<and>
          b_capacity (snd (replace_bar i (bar_candle x) (s_time x) b)) = b_capacity b \<and>
          view (snd (replace_bar i (bar_candle x) (s_time x) b)) = (view b)[i := x]"
        using replace_bar_view [OF inv x, of i] by auto }
    { assume "i \<le> length (view b)"
      then show "buffer_inv (snd (insert_bar i (bar_candle x) (s_time x) b)) \<and>
          b_capacity (snd (insert_bar i (bar_candle x) (s_time x) b)) = b_capacity b \<and>
          view (snd (insert_bar i (bar_candle x) (s_time x) b)) =
            last_n (b_capacity b) (take i (view b) @ x # drop i (view b))"
        using insert_bar_view [OF inv x, of i] by auto } }
  fix t :: int
  show "search_time t b = (let i = length (takeWhile (\<lambda>u. u < t) (map s_time (view b)))
      in (i, i < length (view b) \<and> s_time (view b ! i) = t))"
    using inv by (auto simp: search_time_def Let_def)
next
  fix b :: buffer and n :: int
  assume "buffer_inv b"
  then show "buffer_inv (snd (trim_to n b)) \<and> b_capacity (snd (trim_to n b)) = b_capacity b \<and>
      view (snd (trim_to n b)) = (if n \<le> 0 then view b else last_n (nat n) (view b))"
    using trim_to_view by blast
qed

text \<open>
  Whatever the candle holds, an appended or replaced bar is some bar with the time of the candle;
  an insertion that raises changes nothing.
\<close>

lemma append_bar_some:
  assumes "int64 t"
  obtains x where "s_time x = t" and "snd (append_bar c t b) = snd (append_bar (bar_candle x) t b)"
    and "\<And>y. slot_of c t = Inr y \<Longrightarrow> x = y"
proof -
  define i where "i = (if b_size b < b_capacity b then (b_start b + b_size b) mod b_capacity b
    else b_start b)"
  let ?x = "snd (write_slot c t (b_slots b ! i))"
  have t: "s_time ?x = t" using assms by (rule write_slot_time)
  have "write_slot (bar_candle ?x) t s = (Inr (), ?x)" for s
    using assms t write_slot_ok slot_of_bar_candle by metis
  then have "snd (append_bar c t b) = snd (append_bar (bar_candle ?x) t b)"
    by (auto simp: append_bar_def bind_def write_physical_eq i_def split: sum.splits)
  moreover have "?x = y" if "slot_of c t = Inr y" for y
    using write_slot_ok [OF that] by simp
  ultimately show ?thesis using t that by blast
qed

lemma replace_bar_some:
  assumes "int64 t"
  obtains x where "s_time x = t" and "snd (replace_bar k c t b) = snd (replace_bar k (bar_candle x) t b)"
    and "\<And>y. slot_of c t = Inr y \<Longrightarrow> x = y"
proof -
  let ?x = "snd (write_slot c t (b_slots b ! ((b_start b + k) mod b_capacity b)))"
  have t: "s_time ?x = t" using assms by (rule write_slot_time)
  have "write_slot (bar_candle ?x) t s = (Inr (), ?x)" for s
    using assms t write_slot_ok slot_of_bar_candle by metis
  then have "snd (replace_bar k c t b) = snd (replace_bar k (bar_candle ?x) t b)"
    by (simp add: replace_bar_def write_physical_eq)
  moreover have "?x = y" if "slot_of c t = Inr y" for y
    using write_slot_ok [OF that] by simp
  ultimately show ?thesis using t that by blast
qed

lemma insert_bar_raises: "slot_of c t = Inl e \<Longrightarrow> insert_bar i c t b = (Inl e, b)"
  by (simp add: insert_bar_def)

end
