(* ===== verification/CandleCache.thy ===== *)
theory CandleCache
  imports CandleBuffer "HOL-Library.List_Lexorder" "HOL-Library.Char_ord"
begin

text \<open>
  \<open>SharedCandleCache\<close> of \<^verbatim>\<open>alphas/runner/data_layer/cache.py\<close>: one buffer of bars per symbol
  and time frame, the bars each strategy asked for, and the version counters the runner polls.
  The nested dictionaries \<^verbatim>\<open>_data[symbol][tf]\<close> are one dictionary over pairs: an inner
  dictionary is deleted with its last buffer.  The lemmas show that an update is
  \<open>put_bar\<close> on the bars of its key and nothing else, for every sequence of cache calls.
\<close>

section \<open>State\<close>

type_synonym key = "string \<times> string"

record cache =
  c_data :: "(key, buffer) dict"
  c_warmup :: "(key, int) dict"
  c_retain :: "(key, int) dict"
  c_updated :: "(key, pyfloat) dict"
  c_trims :: "(key, nat) dict"
  c_baseline :: "(string, int) dict"
  c_version :: "(string, int) dict"
  c_floor :: int

definition new_cache :: "int \<Rightarrow> cache" where
  "new_cache data_max_candles_floor =
     \<lparr>c_data = [], c_warmup = [], c_retain = [], c_updated = [], c_trims = [], c_baseline = [],
      c_version = [], c_floor = max 0 data_max_candles_floor\<rparr>"

definition required_bars :: "key \<Rightarrow> cache \<Rightarrow> int" where
  "required_bars k c = dget (c_warmup c) k 0"

definition retained_bars :: "key \<Rightarrow> cache \<Rightarrow> int" where
  "retained_bars k c = max (c_floor c) (dget (c_retain c) k (dget (c_warmup c) k 0))"

section \<open>Trimming and requirements\<close>

definition count_trims :: "key \<Rightarrow> nat \<Rightarrow> cache \<Rightarrow> cache" where
  "count_trims k n c =
     (if n = 0 then c else c\<lparr>c_trims := dset k (dget (c_trims c) k 0 + n) (c_trims c)\<rparr>)"

definition put_buffer :: "key \<Rightarrow> buffer \<Rightarrow> cache \<Rightarrow> cache" where
  "put_buffer k b c = c\<lparr>c_data := dset k b (c_data c)\<rparr>"

definition trim_key :: "key \<Rightarrow> cache \<Rightarrow> cache" where
  "trim_key k c = (case map_of (c_data c) k of
       None \<Rightarrow> c
     | Some b \<Rightarrow>
         (let keep = retained_bars k c
          in if keep \<le> 0 then c
             else (let (overflow, b') = trim_to keep b
                   in count_trims k overflow (put_buffer k b' c))))"

definition note_requirement :: "key \<Rightarrow> int \<Rightarrow> int option \<Rightarrow> int \<Rightarrow> cache \<Rightarrow> cache" where
  "note_requirement k warmup_bars retain_bars retain_buffer_bars c =
     (let warmup = max 0 warmup_bars;
          retain = (case retain_bars of None \<Rightarrow> warmup | Some r \<Rightarrow> max 0 r);
          retain = retain + max 0 retain_buffer_bars;
          retain = max retain warmup
      in c\<lparr>c_warmup := dset k (max warmup (dget (c_warmup c) k 0)) (c_warmup c),
           c_retain := dset k (max retain (dget (c_retain c) k 0)) (c_retain c)\<rparr>)"

definition register_data_requirement :: "key \<Rightarrow> int \<Rightarrow> int option \<Rightarrow> int \<Rightarrow> cache \<Rightarrow> cache" where
  "register_data_requirement k warmup_bars retain_bars retain_buffer_bars c =
     (let c = note_requirement k warmup_bars retain_bars retain_buffer_bars c
      in case map_of (c_data c) k of
           None \<Rightarrow> c
         | Some b \<Rightarrow> trim_key k (put_buffer k (ensure_capacity (max 1 (retained_bars k c)) b) c))"

definition register_bars_requirement :: "key \<Rightarrow> int \<Rightarrow> cache \<Rightarrow> cache" where
  "register_bars_requirement k bars = register_data_requirement k bars (Some bars) 0"

section \<open>Updating a bar\<close>

definition get_or_create :: "key \<Rightarrow> cache \<Rightarrow> cache" where
  "get_or_create k c = (case map_of (c_data c) k of
       Some b \<Rightarrow> c
     | None \<Rightarrow> put_buffer k (new_buffer (max 1 (retained_bars k c))) c)"

definition ensure_write_capacity :: "int \<Rightarrow> buffer \<Rightarrow> buffer" where
  "ensure_write_capacity retained b =
     (if 0 < retained then ensure_capacity (min retained max_capacity) b
      else ensure_capacity (min (max 100 (int (b_size b) + 1)) max_capacity) b)"

definition bump_tf_version :: "string \<Rightarrow> cache \<Rightarrow> cache" where
  "bump_tf_version tf c = c\<lparr>c_version := dset tf (dget (c_version c) tf 0 + 1) (c_version c)\<rparr>"

definition touched :: "pyfloat \<Rightarrow> key \<Rightarrow> cache \<Rightarrow> cache" where
  "touched now k c = bump_tf_version (snd k) (c\<lparr>c_updated := dset k now (c_updated c)\<rparr>)"

definition on_buffer :: "key \<Rightarrow> buffer \<Rightarrow> (buffer, 'a) eff \<Rightarrow> (cache, 'a) eff" where
  "on_buffer k b m = (\<lambda>c. case m b of (r, b') \<Rightarrow> (r, put_buffer k b' c))"

text \<open>
  The body of \<open>upsert_candle\<close> once the time of the bar is known: which operation of the buffer
  it calls, and what it does around the call.
\<close>

datatype bar_op = Replace nat | Append | Insert nat

definition choose_op :: "int \<Rightarrow> buffer \<Rightarrow> bar_op" where
  "choose_op t b = (case latest_time b of
       None \<Rightarrow> Insert 0
     | Some latest \<Rightarrow>
         if t = latest then Replace (b_size b - 1)
         else if t > latest then Append
         else (let (index, exists) = search_time t b
               in if exists then Replace index else Insert index))"

definition store_bar :: "pyfloat \<Rightarrow> key \<Rightarrow> candle \<Rightarrow> int \<Rightarrow> (cache, unit) eff" where
  "store_bar now k candle t = (\<lambda>c.
     (let c = get_or_create k c;
          b = ensure_write_capacity (retained_bars k c) (the (map_of (c_data c) k));
          c = put_buffer k b c;
          stored = (\<lambda>m. bind (on_buffer k b m)
                      (\<lambda>dropped. modify (\<lambda>c. touched now k (trim_key k (count_trims k dropped c)))))
      in (case choose_op t b of
            Replace i \<Rightarrow> then_do (on_buffer k b (replace_bar i candle t)) (modify (touched now k))
          | Append \<Rightarrow> stored (append_bar candle t)
          | Insert i \<Rightarrow> stored (insert_bar i candle t)) c))"

definition before_baseline :: "candle \<Rightarrow> int option \<Rightarrow> bool" where
  "before_baseline candle baseline = (case baseline of
       None \<Rightarrow> False
     | Some base \<Rightarrow> (case dget candle ''open_time'' (JInt 0) of
           JInt t \<Rightarrow> t < base
         | JNum x \<Rightarrow> x < Fin (of_int base)
         | JBool v \<Rightarrow> (if v then 1 else 0) < base
         | _ \<Rightarrow> False))"

definition upsert_candle :: "pyfloat \<Rightarrow> string \<Rightarrow> string \<Rightarrow> candle \<Rightarrow> (cache, unit) eff" where
  "upsert_candle now symbol tf candle = (\<lambda>c.
     if before_baseline candle (map_of (c_baseline c) tf) then (Inr (), c)
     else (case py_int (dget candle ''open_time'' (dget candle ''time'' (JInt 0))) of
         Inl TypeError \<Rightarrow> (Inr (), c)
       | Inl (ValueError m) \<Rightarrow> (Inr (), c)
       | Inl e \<Rightarrow> (Inl e, c)
       | Inr t \<Rightarrow>
           if symbol = '''' \<or> tf = '''' \<or> t \<le> 0 then (Inr (), c)
           else store_bar now (symbol, tf) candle t c))"

section \<open>Reading\<close>

definition bars_tail :: "key \<Rightarrow> int \<Rightarrow> cache \<Rightarrow> slot list" where
  "bars_tail k n c = (case map_of (c_data c) k of None \<Rightarrow> [] | Some b \<Rightarrow> tail n b)"

definition get_times :: "key \<Rightarrow> int \<Rightarrow> cache \<Rightarrow> int list" where
  "get_times k n c = map s_time (bars_tail k n c)"

definition get_closes :: "key \<Rightarrow> int \<Rightarrow> cache \<Rightarrow> pyfloat list" where
  "get_closes k n c = map s_close (bars_tail k n c)"

record candle_snapshot =
  sn_opens :: "pyfloat list"
  sn_highs :: "pyfloat list"
  sn_lows :: "pyfloat list"
  sn_closes :: "pyfloat list"
  sn_volumes :: "pyfloat list"
  sn_times :: "int list"

definition candle_snapshot_of :: "key \<Rightarrow> int \<Rightarrow> cache \<Rightarrow> candle_snapshot" where
  "candle_snapshot_of k n c =
     \<lparr>sn_opens = map s_open (bars_tail k n c), sn_highs = map s_high (bars_tail k n c),
      sn_lows = map s_low (bars_tail k n c), sn_closes = get_closes k n c,
      sn_volumes = map s_volume (bars_tail k n c), sn_times = get_times k n c\<rparr>"

definition get_bar_count :: "key \<Rightarrow> cache \<Rightarrow> nat" where
  "get_bar_count k c = (case map_of (c_data c) k of None \<Rightarrow> 0 | Some b \<Rightarrow> b_size b)"

definition has_required_bars :: "key \<Rightarrow> int \<Rightarrow> cache \<Rightarrow> bool" where
  "has_required_bars k bars c \<longleftrightarrow> int (get_bar_count k c) \<ge> bars"

definition has_fresh_data :: "real \<Rightarrow> key \<Rightarrow> int \<Rightarrow> real \<Rightarrow> cache \<Rightarrow> bool" where
  "has_fresh_data now k bars max_age_sec c \<longleftrightarrow>
     (if \<not> has_required_bars k bars c then False
      else (let ts = get_times k 1 c
            in if ts = [] then False
               else now - real_of_int (last ts) / 1000 \<le> max_age_sec))"

definition coverage ::
  "real \<Rightarrow> string list \<Rightarrow> string \<Rightarrow> int \<Rightarrow> real option \<Rightarrow> cache \<Rightarrow> nat \<times> nat \<times> real" where
  "coverage now symbols tf bars max_age c =
     (let ok = (\<lambda>s. has_required_bars (s, tf) bars c \<and>
                 (case max_age of None \<Rightarrow> True | Some a \<Rightarrow> has_fresh_data now (s, tf) bars a c));
          loaded = length (filter ok symbols);
          total = length symbols
      in (loaded, total, if total \<noteq> 0 then real loaded / real total else 0))"

definition get_symbols_with_data :: "string \<Rightarrow> cache \<Rightarrow> string list" where
  "get_symbols_with_data tf c = sort (map fst (filter (\<lambda>k. snd k = tf) (keys (c_data c))))"

definition get_latest_timestamp :: "key \<Rightarrow> cache \<Rightarrow> int option" where
  "get_latest_timestamp k c = (case map_of (c_data c) k of None \<Rightarrow> None | Some b \<Rightarrow> latest_time b)"

definition get_max_timestamp :: "string \<Rightarrow> cache \<Rightarrow> int option" where
  "get_max_timestamp tf c =
     (let m = fold (\<lambda>s m. case get_latest_timestamp (s, tf) c of
                       None \<Rightarrow> m | Some t \<Rightarrow> if t \<noteq> 0 \<and> t > m then t else m)
                (get_symbols_with_data tf c) 0
      in if 0 < m then Some m else None)"

definition get_tf_version :: "string \<Rightarrow> cache \<Rightarrow> int" where
  "get_tf_version tf c = dget (c_version c) tf 0"

definition set_warmup_baseline :: "string \<Rightarrow> int \<Rightarrow> cache \<Rightarrow> cache" where
  "set_warmup_baseline tf ts c = c\<lparr>c_baseline := dset tf ts (c_baseline c)\<rparr>"

definition clear_warmup_baseline :: "string option \<Rightarrow> cache \<Rightarrow> cache" where
  "clear_warmup_baseline tf c = (case tf of
       None \<Rightarrow> c\<lparr>c_baseline := []\<rparr>
     | Some f \<Rightarrow> c\<lparr>c_baseline := ddel f (c_baseline c)\<rparr>)"

definition trim_symbol_tf :: "string \<Rightarrow> bool \<Rightarrow> string \<Rightarrow> cache \<Rightarrow> cache" where
  "trim_symbol_tf tf remove_unrequired s c =
     (if map_of (c_data c) (s, tf) = None then c
      else if retained_bars (s, tf) c \<le> 0 \<and> remove_unrequired
           then c\<lparr>c_data := ddel (s, tf) (c_data c)\<rparr>
           else trim_key (s, tf) c)"

definition trim_tf_to_requirements :: "string \<Rightarrow> bool \<Rightarrow> string list option \<Rightarrow> cache \<Rightarrow> cache" where
  "trim_tf_to_requirements tf remove_unrequired symbols c =
     fold (trim_symbol_tf tf remove_unrequired)
       (case symbols of Some xs \<Rightarrow> xs | None \<Rightarrow> remdups (map fst (keys (c_data c)))) c"

section \<open>Gaps\<close>

record gap_report =
  total_bars :: nat
  gap_count :: nat
  missing_ranges :: "(int \<times> int) list"
  is_clean :: bool

definition infer_tf_ms :: "string \<Rightarrow> int" where
  "infer_tf_ms tf = dget
     [(''1m'', 60000), (''5m'', 300000), (''15m'', 900000), (''30m'', 1800000),
      (''1h'', 3600000), (''4h'', 14400000), (''1d'', 86400000)] tf 60000"

fun missing_between :: "int \<Rightarrow> int list \<Rightarrow> (int \<times> int) list" where
  "missing_between tf_ms (a # b # ts) =
     (if b > a + tf_ms then [(a + tf_ms, b - tf_ms)] else []) @ missing_between tf_ms (b # ts)"
| "missing_between tf_ms _ = []"

definition verify_no_gaps :: "key \<Rightarrow> int option \<Rightarrow> cache \<Rightarrow> gap_report" where
  "verify_no_gaps k expected_tf_ms c =
     (if get_bar_count k c < 2
      then \<lparr>total_bars = get_bar_count k c, gap_count = 0, missing_ranges = [], is_clean = True\<rparr>
      else (let tf_ms = (case expected_tf_ms of Some m \<Rightarrow> m | None \<Rightarrow> infer_tf_ms (snd k));
                ts = get_times k 0 c;
                missing = missing_between tf_ms ts
            in \<lparr>total_bars = length ts, gap_count = length missing, missing_ranges = missing,
                is_clean = (length missing = 0)\<rparr>))"

section \<open>The bars of a key\<close>

definition bars :: "key \<Rightarrow> cache \<Rightarrow> slot list" where
  "bars k c = (case map_of (c_data c) k of None \<Rightarrow> [] | Some b \<Rightarrow> view b)"

definition cache_inv :: "cache \<Rightarrow> bool" where
  "cache_inv c \<longleftrightarrow> (\<forall>k b. map_of (c_data c) k = Some b \<longrightarrow> buffer_inv b \<and> ascending (view b))"

definition known :: "key \<Rightarrow> int \<Rightarrow> cache \<Rightarrow> bool" where
  "known k t c \<longleftrightarrow> t \<in> s_time ` set (bars k c)"

text \<open>The bars a key may keep: the retained ones, or all of them when nothing is required.\<close>

definition kept :: "key \<Rightarrow> cache \<Rightarrow> slot list \<Rightarrow> slot list" where
  "kept k c xs = (if retained_bars k c \<le> 0 then xs else last_n (nat (retained_bars k c)) xs)"

lemma cache_inv_new [simp]: "cache_inv (new_cache n)" and bars_new [simp]: "bars k (new_cache n) = []"
  by (simp_all add: cache_inv_def new_cache_def bars_def)

lemma cache_invD:
  assumes "cache_inv c" and "map_of (c_data c) k = Some b"
  shows "buffer_inv b" "ascending (view b)"
  using assms unfolding cache_inv_def by blast+


lemma ascending_Nil [simp]: "ascending []"
  by (simp add: ascending_def)

lemma bars_ascending: "cache_inv c \<Longrightarrow> ascending (bars k c)"
  by (simp add: bars_def cache_invD split: option.splits)

lemma retained_simps [simp]:
  "retained_bars k (put_buffer k' b c) = retained_bars k c"
  "retained_bars k (count_trims k' n c) = retained_bars k c"
  "retained_bars k (touched now k' c) = retained_bars k c"
  "retained_bars k (get_or_create k' c) = retained_bars k c"
  by (simp_all add: retained_bars_def put_buffer_def count_trims_def touched_def bump_tf_version_def
      get_or_create_def split: option.splits)

lemma data_simps [simp]:
  "c_data (put_buffer k b c) = dset k b (c_data c)"
  "c_data (count_trims k n c) = c_data c"
  "c_data (touched now k c) = c_data c"
  by (simp_all add: put_buffer_def count_trims_def touched_def bump_tf_version_def)

lemma bars_simps [simp]:
  "bars k (put_buffer k' b c) = (if k = k' then view b else bars k c)"
  "bars k (count_trims k' n c) = bars k c"
  "bars k (touched now k' c) = bars k c"
  by (simp_all add: bars_def)

lemma cache_inv_simps [simp]:
  "cache_inv (count_trims k n c) = cache_inv c"
  "cache_inv (touched now k c) = cache_inv c"
  by (simp_all add: cache_inv_def)

lemma cache_inv_put: "cache_inv c \<Longrightarrow> buffer_inv b \<Longrightarrow> ascending (view b) \<Longrightarrow> cache_inv (put_buffer k b c)"
  by (auto simp: cache_inv_def)

lemma trim_key_bars:
  assumes "cache_inv c"
  shows "cache_inv (trim_key k c) \<and> bars k' (trim_key k c) = (if k' = k then kept k c (bars k c) else bars k' c) \<and>
    retained_bars k' (trim_key k c) = retained_bars k' c"
proof (cases "map_of (c_data c) k")
  case None
  then show ?thesis using assms by (simp add: trim_key_def bars_def kept_def)
next
  case (Some b)
  note b = cache_invD [OF assms Some]
  obtain n b' where t: "trim_to (retained_bars k c) b = (n, b')" by fastforce
  with trim_to_view [OF b(1), of "retained_bars k c"]
  have b': "buffer_inv b'" "view b' = kept k c (view b)" by (simp_all add: kept_def)
  have asc: "ascending (view b')" using b b' by (simp add: kept_def ascending_last_n)
  have inv: "cache_inv (put_buffer k b' c)" by (rule cache_inv_put [OF assms b'(1) asc])
  show ?thesis
    using Some assms t inv b'(2) by (simp add: trim_key_def Let_def kept_def bars_def)
qed

lemma ensure_write_capacity_view:
  assumes "buffer_inv b"
  shows "buffer_inv (ensure_write_capacity r b) \<and> view (ensure_write_capacity r b) = view b \<and>
    b_capacity b \<le> b_capacity (ensure_write_capacity r b) \<and>
    (0 < r \<longrightarrow> r \<le> max_capacity \<longrightarrow> nat r \<le> b_capacity (ensure_write_capacity r b)) \<and>
    (r \<le> 0 \<longrightarrow> int (b_size b) < max_capacity \<longrightarrow> b_size b < b_capacity (ensure_write_capacity r b))"
  using ensure_capacity_view [OF assms, of "min r max_capacity"]
    ensure_capacity_view [OF assms, of "min (max 100 (int (b_size b) + 1)) max_capacity"]
  by (auto simp: ensure_write_capacity_def max_capacity_def)

text \<open>The buffer a store starts from.\<close>

definition write_buffer :: "key \<Rightarrow> cache \<Rightarrow> buffer" where
  "write_buffer k c = ensure_write_capacity (retained_bars k c) (the (map_of (c_data (get_or_create k c)) k))"

definition write_cache :: "key \<Rightarrow> cache \<Rightarrow> cache" where
  "write_cache k c = put_buffer k (write_buffer k c) (get_or_create k c)"

lemma write_buffer:
  assumes "cache_inv c"
  shows "buffer_inv (write_buffer k c)" "view (write_buffer k c) = bars k c"
    "ascending (view (write_buffer k c))"
    "0 < retained_bars k c \<Longrightarrow> retained_bars k c \<le> max_capacity \<Longrightarrow>
       nat (retained_bars k c) \<le> b_capacity (write_buffer k c)"
    "retained_bars k c \<le> 0 \<Longrightarrow> int (length (bars k c)) < max_capacity \<Longrightarrow>
       length (bars k c) < b_capacity (write_buffer k c)"
proof -
  define b where "b = the (map_of (c_data (get_or_create k c)) k)"
  have "buffer_inv b \<and> view b = bars k c"
    by (cases "map_of (c_data c) k") (simp_all add: b_def get_or_create_def bars_def cache_invD [OF assms])
  then have b: "buffer_inv b" "view b = bars k c" "b_size b = length (bars k c)"
    using length_view [of b] by auto
  note w = ensure_write_capacity_view [OF b(1), of "retained_bars k c"]
  show "buffer_inv (write_buffer k c)" "view (write_buffer k c) = bars k c"
    using w b by (simp_all add: write_buffer_def flip: b_def)
  then show "ascending (view (write_buffer k c))" using bars_ascending [OF assms] by simp
  show "0 < retained_bars k c \<Longrightarrow> retained_bars k c \<le> max_capacity \<Longrightarrow>
       nat (retained_bars k c) \<le> b_capacity (write_buffer k c)"
    "retained_bars k c \<le> 0 \<Longrightarrow> int (length (bars k c)) < max_capacity \<Longrightarrow>
       length (bars k c) < b_capacity (write_buffer k c)"
    using w b by (simp_all add: write_buffer_def flip: b_def)
qed

lemma write_cache:
  assumes "cache_inv c"
  shows "cache_inv (write_cache k c)" "bars k' (write_cache k c) = bars k' c"
    "retained_bars k' (write_cache k c) = retained_bars k' c"
proof -
  have "cache_inv (get_or_create k c)" "bars k' (get_or_create k c) = bars k' c"
    using assms by (cases "map_of (c_data c) k"; simp add: get_or_create_def bars_def cache_inv_put)+
  then show "cache_inv (write_cache k c)" "bars k' (write_cache k c) = bars k' c"
    "retained_bars k' (write_cache k c) = retained_bars k' c"
    using write_buffer [OF assms, of k] by (simp_all add: write_cache_def cache_inv_put)
qed

section \<open>What a store does\<close>

text \<open>The state after a replacement and after a new bar.\<close>

definition after_replace :: "pyfloat \<Rightarrow> key \<Rightarrow> buffer \<Rightarrow> cache \<Rightarrow> cache" where
  "after_replace now k b c = touched now k (put_buffer k b (write_cache k c))"

definition after_new :: "pyfloat \<Rightarrow> key \<Rightarrow> nat \<Rightarrow> buffer \<Rightarrow> cache \<Rightarrow> cache" where
  "after_new now k n b c =
     touched now k (trim_key k (count_trims k n (put_buffer k b (write_cache k c))))"

lemma after_replace:
  assumes "cache_inv c" "buffer_inv b" "ascending (view b)"
  shows "cache_inv (after_replace now k b c)"
    "bars k' (after_replace now k b c) = (if k' = k then view b else bars k' c)"
  using assms write_cache [OF assms(1)] by (simp_all add: after_replace_def cache_inv_put)

lemma after_new:
  assumes "cache_inv c" "buffer_inv b" "ascending (view b)"
  shows "cache_inv (after_new now k n b c)"
    "bars k' (after_new now k n b c) = (if k' = k then kept k c (view b) else bars k' c)"
proof -
  have "cache_inv (count_trims k n (put_buffer k b (write_cache k c)))"
    using assms write_cache [OF assms(1)] by (simp add: cache_inv_put)
  from trim_key_bars [OF this] show "cache_inv (after_new now k n b c)"
    "bars k' (after_new now k n b c) = (if k' = k then kept k c (view b) else bars k' c)"
    by (simp_all add: after_new_def write_cache [OF assms(1)] kept_def)
qed

text \<open>The store as one operation on the buffer it starts from.\<close>

fun op_of :: "bar_op \<Rightarrow> candle \<Rightarrow> int \<Rightarrow> (buffer, nat) eff" where
  "op_of (Replace i) candle t = bind (replace_bar i candle t) (\<lambda>_. ret 0)"
| "op_of Append candle t = append_bar candle t"
| "op_of (Insert i) candle t = insert_bar i candle t"

fun replaces :: "bar_op \<Rightarrow> bool" where
  "replaces (Replace i) = True"
| "replaces _ = False"

lemma store_bar_op:
  assumes "choose_op t (write_buffer k c) = op" and "op_of op candle t (write_buffer k c) = (r, b)"
  shows "store_bar now k candle t c =
    (case r of Inl e \<Rightarrow> (Inl e, put_buffer k b (write_cache k c))
       | Inr n \<Rightarrow> (Inr (), if replaces op then after_replace now k b c else after_new now k n b c))"
  using assms
  by (cases op)
     (auto simp: store_bar_def Let_def on_buffer_def bind_def then_do_apply after_replace_def after_new_def
       simp flip: write_buffer_def write_cache_def split: prod.splits sum.splits)

text \<open>The operation chosen is the one that keeps the times ascending.\<close>

lemma choose_op_cases:
  assumes inv: "buffer_inv b" and asc: "ascending (view b)"
  obtains (replace) i where "choose_op t b = Replace i" "i < b_size b" "s_time (view b ! i) = t"
  | (append) "choose_op t b = Append" "\<forall>y \<in> set (view b). s_time y < t"
  | (insert) i where "choose_op t b = Insert i" "i = fst (search_time t b)" "i \<le> b_size b"
      "t \<notin> s_time ` set (view b)"
proof (cases "view b = []")
  case True
  then have "b_size b = 0" using length_view [of b] by simp
  then show thesis using True inv
    by (intro insert [of 0]) (auto simp: choose_op_def latest_time_view search_time_def)
next
  case False
  then have n: "0 < b_size b" using length_view [of b] by (metis length_greater_0_conv)
  let ?last = "last (view b)"
  have l: "latest_time b = Some (s_time ?last)" using False inv by (simp add: latest_time_view)
  have last: "view b ! (b_size b - 1) = ?last" using False by (simp add: last_conv_nth)
  have le: "s_time y \<le> s_time ?last" if "y \<in> set (view b)" for y
  proof -
    from that obtain j where j: "j < b_size b" "y = view b ! j" by (auto simp: in_set_conv_nth)
    show ?thesis
    proof (cases "j = b_size b - 1")
      case True
      with j last show ?thesis by simp
    next
      case False
      with j asc have "s_time (view b ! j) < s_time (view b ! (b_size b - 1))"
        by (simp add: ascending_def sorted_wrt_iff_nth_less)
      with j last show ?thesis by simp
    qed
  qed
  consider "t = s_time ?last" | "t > s_time ?last" | "t < s_time ?last" by linarith
  then show thesis
  proof cases
    case 1
    then show thesis using l n last by (intro replace [of "b_size b - 1"]) (simp_all add: choose_op_def)
  next
    case 2
    then show thesis using l le by (intro append) (force simp: choose_op_def)+
  next
    case 3
    obtain i e where s: "search_time t b = (i, e)" by fastforce
    have e: "e \<longleftrightarrow> t \<in> s_time ` set (view b)" using ring.locate_known [OF inv asc, of t] s by simp
    have i: "i = length (takeWhile (\<lambda>u. u < t) (map s_time (view b)))"
        "e \<longleftrightarrow> i < b_size b \<and> s_time (view b ! i) = t"
      using s ring.locate [OF inv, of t] by (auto simp: Let_def)
    have "i \<le> b_size b" using i(1) length_takeWhile_le [of _ "map s_time (view b)"] by simp
    then show thesis using 3 l s e i(2)
      by (cases e) (auto simp: choose_op_def intro: replace [of i] insert [of i])
  qed
qed

text \<open>A readable candle.\<close>

lemma store_bar_readable:
  assumes inv: "cache_inv c" and x: "slot_of candle t = Inr x"
  obtains b n where "buffer_inv b" and "ascending (view b)"
    and "view b = last_n (b_capacity (write_buffer k c)) (put_bar x (bars k c))"
    and "store_bar now k candle t c =
      (Inr (), if known k t c then after_replace now k b c else after_new now k n b c)"
proof -
  define b0 where "b0 = write_buffer k c"
  note b0 = write_buffer(1-3) [OF inv, of k, folded b0_def]
  have cap: "b_size b0 \<le> b_capacity b0" using b0(1) by (simp add: buffer_inv_def)
  have time: "s_time x = t" "int64 (s_time x)" using slot_of_time [OF x] slot_of_int64 [OF x] by simp_all
  have size: "b_size b0 = length (bars k c)" using b0(2) length_view [of b0] by simp
  have asc: "ascending (bars k c)" by (rule bars_ascending [OF inv])
  have "\<exists>b n. op_of (choose_op t b0) candle t b0 = (Inr n, b) \<and> buffer_inv b \<and>
      view b = last_n (b_capacity b0) (put_bar x (bars k c)) \<and>
      replaces (choose_op t b0) = known k t c"
    using b0(1,3)
  proof (cases rule: choose_op_cases [of b0 t])
    case (replace i)
    then have "put_bar x (bars k c) = (bars k c)[i := x]"
      using asc time size b0(2) by (intro put_bar_replace) simp_all
    moreover have "known k t c"
      using replace size b0(2) by (auto simp: known_def intro!: image_eqI nth_mem)
    ultimately show ?thesis
      using replace(1) replace_bar_view [OF b0(1) x replace(2)] b0(2) cap size
      by (auto simp: bind_def)
  next
    case append
    then have "put_bar x (bars k c) = bars k c @ [x]" using time b0(2) by (simp add: put_bar_append)
    moreover have "\<not> known k t c" using append(2) b0(2) by (auto simp: known_def)
    ultimately show ?thesis
      using append(1) append_bar_last_n [OF b0(1) x] b0(2) by (auto simp: prod_eq_iff)
  next
    case (insert i)
    then have "\<not> known k t c" and new: "s_time x \<notin> s_time ` set (bars k c)"
      using b0(2) time by (simp_all add: known_def)
    moreover have "i = length (takeWhile (\<lambda>u. u < s_time x) (map s_time (bars k c)))"
      using insert(2) b0 time by (simp add: ring.locate Let_def)
    with put_bar_insert [OF asc new]
    have "put_bar x (bars k c) = take i (bars k c) @ x # drop i (bars k c)" by simp
    ultimately show ?thesis
      using insert(1) insert_bar_view [OF b0(1) x insert(3)] b0(2) by auto
  qed
  then obtain b n where b: "op_of (choose_op t b0) candle t b0 = (Inr n, b)" "buffer_inv b"
      "view b = last_n (b_capacity b0) (put_bar x (bars k c))" "replaces (choose_op t b0) = known k t c"
    by blast
  have "ascending (view b)" using b(3) asc by (simp add: put_bar_ascending ascending_last_n)
  moreover have "store_bar now k candle t c =
      (Inr (), if known k t c then after_replace now k b c else after_new now k n b c)"
    using store_bar_op [of t k c _ candle "Inr n" b now] b(1,4) by (simp flip: b0_def)
  ultimately show thesis using that b(2,3) by (simp add: b0_def)
qed

text \<open>Any candle whose time fits, readable or not.\<close>

lemma store_bar_inv:
  assumes inv: "cache_inv c" and t: "int64 t"
  shows "cache_inv (snd (store_bar now k candle t c)) \<and>
    (k' \<noteq> k \<longrightarrow> bars k' (snd (store_bar now k candle t c)) = bars k' c)"
proof -
  define b0 where "b0 = write_buffer k c"
  note b0 = write_buffer(1-3) [OF inv, of k, folded b0_def]
  obtain r b where op: "op_of (choose_op t b0) candle t b0 = (r, b)" by fastforce
  have "buffer_inv b \<and> ascending (view b)"
    using b0(1,3)
  proof (cases rule: choose_op_cases [of b0 t])
    case (replace i)
    obtain x where x: "s_time x = t"
        "snd (replace_bar i candle t b0) = snd (replace_bar i (bar_candle x) t b0)"
      using replace_bar_some [OF t] by blast
    have "b = snd (replace_bar i candle t b0)"
      using op replace(1) by (auto simp: bind_def split: prod.splits sum.splits)
    with x ring.put_known [OF b0(1), of x i] show ?thesis
      using t b0(3) replace(2,3) by (simp add: put_bar_ascending)
  next
    case append
    obtain x where x: "s_time x = t"
        "snd (append_bar candle t b0) = snd (append_bar (bar_candle x) t b0)"
      using append_bar_some [OF t] by blast
    have "b = snd (append_bar candle t b0)" using op append(1) by simp
    with x ring.push_later [OF b0(1), of x] show ?thesis
      using t b0(3) append(2) by (simp add: put_bar_ascending ascending_last_n)
  next
    case (insert i)
    show ?thesis
    proof (cases "slot_of candle t")
      case (Inl e)
      then show ?thesis using op insert(1) b0 by (simp add: insert_bar_raises)
    next
      case (Inr x)
      note x = slot_of_time [OF Inr]
      have "slot_of (bar_candle x) t = Inr x" using t x slot_of_bar_candle [of x] by simp
      with Inr have "insert_bar i candle t b0 = insert_bar i (bar_candle x) t b0"
        by (simp add: insert_bar_def)
      with op insert(1) have "b = snd (insert_bar i (bar_candle x) t b0)" by simp
      moreover have "\<not> snd (search_time t b0)" using insert(4) ring.locate_known [OF b0(1,3)] by simp
      ultimately show ?thesis
        using ring.splice_new [OF b0(1), of x] insert(2) x t b0(3)
        by (simp add: put_bar_ascending ascending_last_n)
    qed
  qed
  then have b: "buffer_inv b" "ascending (view b)" by auto
  have "snd (store_bar now k candle t c) \<in>
      {put_buffer k b (write_cache k c), after_replace now k b c, after_new now k (projr r) b c}"
    using store_bar_op [OF refl op [unfolded b0_def], of now] by (auto split: sum.splits)
  then show ?thesis
    using after_replace [OF inv b, where now = now and k = k] after_new [OF inv b, where now = now and k = k]
      cache_inv_put [OF write_cache(1) [OF inv] b, of k k] write_cache(2) [OF inv, of k' k]
    by (elim insertE emptyE) simp_all
qed

lemma upsert_candle_cases:
  obtains (ignored) r where "upsert_candle now s tf candle c = (r, c)"
  | (stored) t where "py_int (dget candle ''open_time'' (dget candle ''time'' (JInt 0))) = Inr t"
      "0 < t" "upsert_candle now s tf candle c = store_bar now (s, tf) candle t c"
proof (cases "before_baseline candle (map_of (c_baseline c) tf)")
  case True
  then show thesis by (auto simp: upsert_candle_def intro: ignored)
next
  case False
  show thesis
  proof (cases "py_int (dget candle ''open_time'' (dget candle ''time'' (JInt 0)))")
    case (Inl e)
    with False show thesis by (cases e) (auto simp: upsert_candle_def intro: ignored)
  next
    case (Inr t)
    with False show thesis
      by (cases "s = '''' \<or> tf = '''' \<or> t \<le> 0") (auto simp: upsert_candle_def intro: ignored stored [of t])
  qed
qed

section \<open>Sequences of calls\<close>

text \<open>
  The calls that change a cache.  A candle carries its time in milliseconds, which fits in 64
  bits.
\<close>

datatype cache_call =
    Register key int "int option" int
  | Upsert pyfloat string string candle
  | SetBaseline string int
  | ClearBaseline "string option"
  | TrimTf string bool "string list option"

fun cache_step :: "cache_call \<Rightarrow> cache \<Rightarrow> cache" where
  "cache_step (Register k w r n) c = register_data_requirement k w r n c"
| "cache_step (Upsert now s tf candle) c = snd (upsert_candle now s tf candle c)"
| "cache_step (SetBaseline tf t) c = set_warmup_baseline tf t c"
| "cache_step (ClearBaseline tf) c = clear_warmup_baseline tf c"
| "cache_step (TrimTf tf remove symbols) c = trim_tf_to_requirements tf remove symbols c"

fun call_ok :: "cache_call \<Rightarrow> bool" where
  "call_ok (Upsert now s tf candle) = (case py_int (dget candle ''open_time'' (dget candle ''time'' (JInt 0))) of
       Inr t \<Rightarrow> t < 2 ^ 63 | Inl e \<Rightarrow> True)"
| "call_ok _ = True"

inductive cache_reachable :: "cache \<Rightarrow> bool" where
  start: "cache_reachable (new_cache n)"
| step: "cache_reachable c \<Longrightarrow> call_ok call \<Longrightarrow> cache_reachable (cache_step call c)"

lemma cache_inv_cong: "c_data c' = c_data c \<Longrightarrow> cache_inv c' = cache_inv c"
  by (simp add: cache_inv_def)

lemma register_inv:
  assumes inv: "cache_inv c"
  shows "cache_inv (register_data_requirement k w r n c)"
proof -
  define c1 where "c1 = note_requirement k w r n c"
  have inv1: "cache_inv c1"
    using inv by (simp add: c1_def note_requirement_def Let_def cache_inv_def)
  show ?thesis
  proof (cases "map_of (c_data c1) k")
    case None
    with inv1 show ?thesis by (simp add: register_data_requirement_def flip: c1_def)
  next
    case (Some b)
    have "cache_inv (put_buffer k (ensure_capacity n b) c1)" for n
      using cache_invD [OF inv1 Some] ensure_capacity_view [of b] inv1 by (simp add: cache_inv_put)
    then show ?thesis using Some trim_key_bars
      by (simp add: register_data_requirement_def flip: c1_def)
  qed
qed

lemma trim_symbol_inv: "cache_inv c \<Longrightarrow> cache_inv (trim_symbol_tf tf rm s c)"
  using trim_key_bars [of c "(s, tf)"] by (auto simp: trim_symbol_tf_def cache_inv_def)

lemma trim_tf_inv: "cache_inv c \<Longrightarrow> cache_inv (fold (trim_symbol_tf tf rm) ss c)"
  by (induction ss arbitrary: c) (simp_all add: trim_symbol_inv)

lemma cache_step_inv: "cache_inv c \<Longrightarrow> call_ok call \<Longrightarrow> cache_inv (cache_step call c)"
proof (induction call)
  case (Upsert now s tf candle)
  show ?case
  proof (cases rule: upsert_candle_cases [of now s tf candle c])
    case (stored t)
    then show ?thesis using Upsert store_bar_inv [OF Upsert.prems(1), of t]
      by (simp add: int64_def)
  qed (use Upsert in simp)
next
  case (SetBaseline tf t)
  then show ?case by (simp add: set_warmup_baseline_def cache_inv_def)
next
  case (ClearBaseline tf)
  then show ?case by (simp add: clear_warmup_baseline_def cache_inv_def split: option.splits)
qed (simp_all add: register_inv trim_tf_to_requirements_def trim_tf_inv)

lemma cache_reachable_inv: "cache_reachable c \<Longrightarrow> cache_inv c"
  by (induction rule: cache_reachable.induct) (simp_all add: cache_step_inv)

section \<open>A feed of candles\<close>

text \<open>What a feed should leave: the bars in the order of their times, the latest word on each.\<close>

lemma put_bar_append_later: "\<forall>a \<in> set as. s_time a < s_time x \<Longrightarrow> put_bar x (as @ bs) = as @ put_bar x bs"
  by (induction as) auto

lemma put_bar_append_earlier: "\<exists>a \<in> set as. s_time x \<le> s_time a \<Longrightarrow> put_bar x (as @ bs) = put_bar x as @ bs"
  by (induction as) auto

lemma last_n_append: "length bs = n \<Longrightarrow> last_n n (as @ bs) = bs"
  by (simp add: last_n_def)

lemma last_n_append_long: "n \<le> length bs \<Longrightarrow> last_n n (as @ bs) = last_n n bs"
  by (simp add: last_n_def)

lemma length_put_bar: "length xs \<le> length (put_bar x xs)"
  by (induction xs) auto

text \<open>Dropping the oldest bars first or last makes no difference.\<close>

lemma last_n_put_bar:
  assumes asc: "ascending xs" and n: "0 < n"
  shows "last_n n (put_bar x (last_n n xs)) = last_n n (put_bar x xs)"
proof (cases "length xs \<le> n")
  case True
  then show ?thesis by simp
next
  case False
  define as bs where "as = take (length xs - n) xs" and "bs = last_n n xs"
  have xs: "xs = as @ bs" by (simp add: as_def bs_def last_n_def)
  have len: "length bs = n" using False by (simp add: bs_def)
  show ?thesis
  proof (cases "\<forall>a \<in> set as. s_time a < s_time x")
    case True
    then have "put_bar x xs = as @ put_bar x bs" by (simp add: xs put_bar_append_later)
    moreover have "n \<le> length (put_bar x bs)" using len length_put_bar [of bs x] by simp
    ultimately show ?thesis by (simp add: last_n_append_long flip: bs_def)
  next
    case False
    then obtain a where a: "a \<in> set as" "s_time x \<le> s_time a" by (auto simp: not_less)
    moreover have "\<forall>b \<in> set bs. s_time a < s_time b"
      using asc a(1) by (auto simp: ascending_def xs sorted_wrt_append)
    ultimately have "\<forall>b \<in> set bs. s_time x < s_time b" by force
    then have "put_bar x bs = x # bs" by (cases bs) auto
    moreover have "put_bar x xs = put_bar x as @ bs"
      unfolding xs using a by (intro put_bar_append_earlier) blast
    ultimately show ?thesis
      using len last_n_append [OF len, of "[x]"] last_n_append [OF len, of "put_bar x as"]
      by (simp flip: bs_def)
  qed
qed

definition reading :: "candle \<Rightarrow> slot option" where
  "reading candle = (case py_int (dget candle ''open_time'' (dget candle ''time'' (JInt 0))) of
       Inl e \<Rightarrow> None
     | Inr t \<Rightarrow> if 0 < t then (case slot_of candle t of Inl e \<Rightarrow> None | Inr x \<Rightarrow> Some x) else None)"

lemma trim_key_baseline [simp]: "c_baseline (trim_key k c) = c_baseline c"
  by (auto simp: trim_key_def Let_def count_trims_def put_buffer_def split: option.splits prod.splits)

lemma after_frame:
  assumes "cache_inv c" "buffer_inv b" "ascending (view b)"
  shows "retained_bars k' (after_replace now k b c) = retained_bars k' c"
    "retained_bars k' (after_new now k n b c) = retained_bars k' c"
    "c_baseline (after_replace now k b c) = c_baseline c"
    "c_baseline (after_new now k n b c) = c_baseline c"
proof -
  have "cache_inv (count_trims k n (put_buffer k b (write_cache k c)))"
    using assms write_cache [OF assms(1)] by (simp add: cache_inv_put)
  from trim_key_bars [OF this] write_cache(3) [OF assms(1)]
  show "retained_bars k' (after_replace now k b c) = retained_bars k' c"
    "retained_bars k' (after_new now k n b c) = retained_bars k' c"
    by (simp_all add: after_replace_def after_new_def)
  have "c_baseline (write_cache k c) = c_baseline c"
    by (auto simp: write_cache_def put_buffer_def get_or_create_def split: option.splits)
  then show "c_baseline (after_replace now k b c) = c_baseline c"
    "c_baseline (after_new now k n b c) = c_baseline c"
    by (simp_all add: after_replace_def after_new_def touched_def bump_tf_version_def count_trims_def
        put_buffer_def)
qed

lemma upsert_reading:
  assumes inv: "cache_inv c" and base: "\<not> before_baseline candle (map_of (c_baseline c) tf)"
    and read: "reading candle = Some x" and names: "s \<noteq> ''''" "tf \<noteq> ''''"
    and room: "0 < retained_bars (s, tf) c" "retained_bars (s, tf) c \<le> max_capacity"
      "int (length (bars (s, tf) c)) \<le> retained_bars (s, tf) c"
  shows "\<exists>c'. upsert_candle now s tf candle c = (Inr (), c') \<and>
    bars (s, tf) c' = last_n (nat (retained_bars (s, tf) c)) (put_bar x (bars (s, tf) c))"
proof -
  obtain t where t: "py_int (dget candle ''open_time'' (dget candle ''time'' (JInt 0))) = Inr t"
      "0 < t" "slot_of candle t = Inr x"
    using read by (auto simp: reading_def split: sum.splits if_splits)
  let ?k = "(s, tf)"
  obtain b n where b: "buffer_inv b" "ascending (view b)"
      "view b = last_n (b_capacity (write_buffer ?k c)) (put_bar x (bars ?k c))"
      "store_bar now ?k candle t c =
        (Inr (), if known ?k t c then after_replace now ?k b c else after_new now ?k n b c)"
    using store_bar_readable [OF inv t(3), where k = ?k and now = now] by blast
  have cap: "nat (retained_bars ?k c) \<le> b_capacity (write_buffer ?k c)"
    using write_buffer(4) [OF inv] room by blast
  have "upsert_candle now s tf candle c = store_bar now ?k candle t c"
    using t names base by (simp add: upsert_candle_def)
  moreover have "bars ?k (snd (store_bar now ?k candle t c)) =
      last_n (nat (retained_bars ?k c)) (put_bar x (bars ?k c))"
  proof (cases "known ?k t c")
    case True
    then have "length (put_bar x (bars ?k c)) = length (bars ?k c)"
      using slot_of_time [OF t(3)] bars_ascending [OF inv] by (intro put_bar_known) (simp_all add: known_def)
    then have "length (put_bar x (bars ?k c)) \<le> nat (retained_bars ?k c)" using room by linarith
    then show ?thesis
      using True b(3,4) cap after_replace(2) [OF inv b(1,2), of ?k now ?k] by simp
  next
    case False
    then show ?thesis
      using b(3,4) cap room after_new(2) [OF inv b(1,2), of ?k now ?k]
      by (simp add: kept_def last_n_last_n min_absorb1)
  qed
  ultimately show ?thesis using b(4) by (auto simp: prod_eq_iff)
qed

lemma upsert_frame_any:
  assumes inv: "cache_inv c" and read: "reading candle = Some x"
  shows "c_baseline (snd (upsert_candle now s tf candle c)) = c_baseline c"
    "retained_bars k (snd (upsert_candle now s tf candle c)) = retained_bars k c"
    "cache_inv (snd (upsert_candle now s tf candle c))"
    "k \<noteq> (s, tf) \<Longrightarrow> bars k (snd (upsert_candle now s tf candle c)) = bars k c"
proof -
  obtain t where t: "py_int (dget candle ''open_time'' (dget candle ''time'' (JInt 0))) = Inr t"
      "0 < t" "slot_of candle t = Inr x"
    using read by (auto simp: reading_def split: sum.splits if_splits)
  obtain b n where b: "buffer_inv b" "ascending (view b)" "store_bar now (s, tf) candle t c =
        (Inr (), if known (s, tf) t c then after_replace now (s, tf) b c else after_new now (s, tf) n b c)"
    using store_bar_readable [OF inv t(3), where k = "(s, tf)" and now = now] by blast
  have "upsert_candle now s tf candle c = (if before_baseline candle (map_of (c_baseline c) tf) \<or> s = '''' \<or> tf = ''''
      then (Inr (), c) else store_bar now (s, tf) candle t c)"
    using t by (simp add: upsert_candle_def)
  with inv after_frame [OF inv b(1,2)] b(3) after_replace [OF inv b(1,2)] after_new [OF inv b(1,2)]
  show "c_baseline (snd (upsert_candle now s tf candle c)) = c_baseline c"
    "retained_bars k (snd (upsert_candle now s tf candle c)) = retained_bars k c"
    "cache_inv (snd (upsert_candle now s tf candle c))"
    "k \<noteq> (s, tf) \<Longrightarrow> bars k (snd (upsert_candle now s tf candle c)) = bars k c"
    by simp_all
qed

lemma upsert_frame:
  assumes "cache_inv c" and "c_baseline c = []" and "reading candle = Some x"
  shows "c_baseline (snd (upsert_candle now s tf candle c)) = []"
    "retained_bars k (snd (upsert_candle now s tf candle c)) = retained_bars k c"
    "cache_inv (snd (upsert_candle now s tf candle c))"
    "k \<noteq> (s, tf) \<Longrightarrow> bars k (snd (upsert_candle now s tf candle c)) = bars k c"
  using upsert_frame_any [OF assms(1,3)] assms(2) by simp_all

type_synonym feed_item = "pyfloat \<times> string \<times> string \<times> candle"

fun upsert_item :: "feed_item \<Rightarrow> cache \<Rightarrow> cache" where
  "upsert_item (now, s, tf, candle) c = snd (upsert_candle now s tf candle c)"

fun readable_item :: "feed_item \<Rightarrow> bool" where
  "readable_item (now, s, tf, candle) \<longleftrightarrow> s \<noteq> '''' \<and> tf \<noteq> '''' \<and> reading candle \<noteq> None"

definition bars_for :: "key \<Rightarrow> feed_item list \<Rightarrow> slot list" where
  "bars_for k feed = map (\<lambda>(now, s, tf, candle). the (reading candle))
     (filter (\<lambda>(now, s, tf, candle). (s, tf) = k) feed)"

lemma feed_frame:
  assumes "cache_inv c" and "c_baseline c = []" and "\<forall>i \<in> set feed. readable_item i"
  shows "cache_inv (fold upsert_item feed c) \<and> c_baseline (fold upsert_item feed c) = [] \<and>
    retained_bars k (fold upsert_item feed c) = retained_bars k c"
  using assms
proof (induction feed arbitrary: c)
  case (Cons i feed)
  obtain now s tf candle where i: "i = (now, s, tf, candle)" by (cases i)
  with Cons.prems obtain x where "reading candle = Some x" by auto
  note f = upsert_frame [OF Cons.prems(1,2) this, where now = now and s = s and tf = tf]
  from Cons.IH [OF f(3,1)] Cons.prems(3) f(2) [of k] show ?case by (simp add: i)
qed simp

text \<open>What the baseline of its time frame lets pass.\<close>

fun admitted :: "cache \<Rightarrow> feed_item \<Rightarrow> bool" where
  "admitted c (now, s, tf, candle) \<longleftrightarrow> \<not> before_baseline candle (map_of (c_baseline c) tf)"

lemma admitted_baseline: "c_baseline c' = c_baseline c \<Longrightarrow> admitted c' = admitted c"
  by (rule ext) auto

lemma admitted_any: "c_baseline c = [] \<Longrightarrow> admitted c i"
  by (cases i) (simp add: before_baseline_def)

lemma feed_bars_from:
  assumes "cache_inv c" and "\<forall>i \<in> set feed. readable_item i"
    and "0 < retained_bars k c" "retained_bars k c \<le> max_capacity"
    and "ascending ys" and "bars k c = last_n (nat (retained_bars k c)) ys"
  shows "bars k (fold upsert_item feed c) =
    last_n (nat (retained_bars k c)) (fold put_bar (bars_for k (filter (admitted c) feed)) ys)"
  using assms
proof (induction feed arbitrary: c ys)
  case Nil
  then show ?case by (simp add: bars_for_def)
next
  case (Cons i feed)
  obtain now s tf candle where i: "i = (now, s, tf, candle)" by (cases i)
  with Cons.prems obtain x where x: "reading candle = Some x" "s \<noteq> ''''" "tf \<noteq> ''''" by auto
  let ?c = "snd (upsert_candle now s tf candle c)"
  note f = upsert_frame_any [OF Cons.prems(1) x(1), where now = now and s = s and tf = tf]
  let ?ys = "if (s, tf) = k \<and> admitted c i then put_bar x ys else ys"
  have "bars k ?c = last_n (nat (retained_bars k c)) ?ys"
  proof (cases "(s, tf) = k")
    case True
    show ?thesis
    proof (cases "admitted c i")
      case ok: True
      then have b: "\<not> before_baseline candle (map_of (c_baseline c) tf)" by (simp add: i)
      have "int (length (bars k c)) \<le> retained_bars k c" using Cons.prems(3,6) by simp
      with upsert_reading [OF Cons.prems(1) b x, of now] True Cons.prems(3,4)
      have "bars k ?c = last_n (nat (retained_bars k c)) (put_bar x (bars k c))" by auto
      with True ok Cons.prems(3,5,6) show ?thesis by (simp add: last_n_put_bar)
    next
      case False
      then have "?c = c" by (simp add: i upsert_candle_def)
      then show ?thesis using False Cons.prems(6) by simp
    qed
  next
    case False
    then show ?thesis using f(4) [of k] Cons.prems(6) by simp
  qed
  then have "bars k (fold upsert_item feed ?c) =
      last_n (nat (retained_bars k ?c)) (fold put_bar (bars_for k (filter (admitted ?c) feed)) ?ys)"
    using Cons.prems f by (intro Cons.IH) (simp_all add: put_bar_ascending)
  then show ?case using f(2) x(1) by (simp add: i bars_for_def admitted_baseline [OF f(1)])
qed

lemma feed_bars:
  assumes "cache_inv c" and "c_baseline c = []" and "\<forall>i \<in> set feed. readable_item i"
    and "0 < retained_bars k c" "retained_bars k c \<le> max_capacity"
    and "ascending ys" and "bars k c = last_n (nat (retained_bars k c)) ys"
  shows "bars k (fold upsert_item feed c) =
    last_n (nat (retained_bars k c)) (fold put_bar (bars_for k feed) ys)"
  using feed_bars_from [OF assms(1,3-7)] assms(2) by (simp add: admitted_any)

section \<open>Gap reports\<close>

definition in_gap :: "int \<Rightarrow> (int \<times> int) list \<Rightarrow> bool" where
  "in_gap g ranges \<longleftrightarrow> (\<exists>(lo, hi) \<in> set ranges. lo \<le> g \<and> g \<le> hi)"

lemma missing_between_start:
  "sorted_wrt (<) (a # ts) \<Longrightarrow> r \<in> set (missing_between m (a # ts)) \<Longrightarrow> a + m \<le> fst r"
  by (induction ts arbitrary: a) fastforce+

text \<open>A point of the grid of bars is missing exactly when a reported range holds it.\<close>

lemma missing_between_exact:
  assumes "sorted_wrt (<) (a # ts)" and "0 < m" and "\<forall>t \<in> set ts. m dvd (t - a)"
    and "m dvd (g - a)" and "a \<le> g" and "g \<le> last (a # ts)"
  shows "g \<notin> set (a # ts) \<longleftrightarrow> in_gap g (missing_between m (a # ts))"
  using assms
proof (induction ts arbitrary: a)
  case Nil
  then show ?case by (simp add: in_gap_def)
next
  case (Cons b ts)
  have b: "a + m \<le> b"
    using Cons.prems(1,2,3) zdvd_imp_le [of m "b - a"] by simp
  show ?case
  proof (cases "g < b")
    case True
    have "\<not> in_gap g (missing_between m (b # ts))"
      using missing_between_start [of b ts _ m] True Cons.prems(1,2) by (fastforce simp: in_gap_def)
    moreover have "a + m \<le> g" if "g \<noteq> a"
      using that Cons.prems(4,5) zdvd_imp_le [of m "g - a"] by simp
    moreover have "m dvd (b - g)"
      using dvd_diff [of m "b - a" "g - a"] Cons.prems(3,4) by simp
    then have "g \<le> b - m" using True zdvd_imp_le [of m "b - g"] by simp
    moreover have "g \<notin> set (b # ts)" using True Cons.prems(1) by auto
    ultimately show ?thesis using b Cons.prems(2,5) by (auto simp: in_gap_def)
  next
    case False
    have "m dvd (x - b)" if "m dvd (x - a)" for x
      using dvd_diff [OF that, of "b - a"] Cons.prems(3) by simp
    then have "g \<notin> set (b # ts) \<longleftrightarrow> in_gap g (missing_between m (b # ts))"
      using Cons.prems False by (intro Cons.IH) auto
    moreover have "g \<noteq> a" using False b Cons.prems(2) by simp
    ultimately show ?thesis using False Cons.prems(2) by (auto simp: in_gap_def)
  qed
qed

lemma missing_between_clean:
  "sorted_wrt (<) ts \<Longrightarrow> missing_between m ts = [] \<longleftrightarrow> (\<forall>i. Suc i < length ts \<longrightarrow> ts ! Suc i \<le> ts ! i + m)"
  by (induction m ts rule: missing_between.induct) (auto simp: nth_Cons split: nat.splits)

lemma get_times_bars: "cache_inv c \<Longrightarrow> get_times k 0 c = map s_time (bars k c)"
  by (auto simp: get_times_def bars_tail_def bars_def cache_invD split: option.splits)

lemma get_bar_count_bars: "get_bar_count k c = length (bars k c)"
  by (simp add: get_bar_count_def bars_def split: option.splits)

end
