(* ===== verification/Rollup.thy ===== *)
theory Rollup
  imports CandleCache
begin

text \<open>
  \<^verbatim>\<open>alphas/runner/data_layer/rollup.py\<close>: bars of a coarser time frame are built in the cache from
  the finest bars that are there.  \<open>roll\<close> is the list of bars the code builds; the lemmas
  characterise it (one bar for each bucket whose parts are all present) and show that rolling up
  in two steps gives the bars of rolling up in one.
\<close>

section \<open>The code\<close>

definition tf_ms_of :: "string \<Rightarrow> int option" where
  "tf_ms_of = map_of
     [(''1m'', 60000), (''5m'', 300000), (''15m'', 900000), (''30m'', 1800000), (''1h'', 3600000),
      (''4h'', 14400000), (''1d'', 86400000)]"

definition tf_order :: "string list" where
  "tf_order = [''1m'', ''5m'', ''15m'', ''30m'', ''1h'', ''4h'', ''1d'']"

text \<open>The coarsest time frame before the target that has bars.\<close>

definition best_source_tf :: "string \<Rightarrow> string \<Rightarrow> cache \<Rightarrow> string option" where
  "best_source_tf target_tf smb c =
     find (\<lambda>tf. 0 < get_bar_count (smb, tf) c) (rev (takeWhile (\<lambda>tf. tf \<noteq> target_tf) tf_order))"

definition bucket_start :: "int \<Rightarrow> int \<Rightarrow> int" where
  "bucket_start tf_ms t = t div tf_ms * tf_ms"

definition add_to_bucket :: "int \<Rightarrow> slot \<Rightarrow> (int, slot list) dict \<Rightarrow> (int, slot list) dict" where
  "add_to_bucket tf_ms x d = (let k = bucket_start tf_ms (s_time x) in dset k (dget d k [] @ [x]) d)"

definition buckets :: "int \<Rightarrow> slot list \<Rightarrow> (int, slot list) dict" where
  "buckets tf_ms xs = fold (add_to_bucket tf_ms) xs []"

definition expected_times :: "int \<Rightarrow> int \<Rightarrow> int \<Rightarrow> int list" where
  "expected_times bar_start source_ms parts = map (\<lambda>i. bar_start + int i * source_ms) [0..<nat parts]"

text \<open>\<open>max(xs)\<close> and \<open>min(xs)\<close> of a non-empty list.\<close>

definition py_max :: "pyfloat list \<Rightarrow> pyfloat" where
  "py_max xs = foldl pymax (hd xs) (tl xs)"

definition py_min :: "pyfloat list \<Rightarrow> pyfloat" where
  "py_min xs = foldl pymin (hd xs) (tl xs)"

definition merged_bar :: "int \<Rightarrow> slot list \<Rightarrow> slot" where
  "merged_bar bar_start parts =
     \<lparr>s_time = bar_start, s_open = s_open (hd parts), s_high = py_max (map s_high parts),
      s_low = py_min (map s_low parts), s_close = s_close (last parts),
      s_volume = fsum (map s_volume parts)\<rparr>"

definition rolled_candle :: "int \<Rightarrow> int \<Rightarrow> slot list \<Rightarrow> candle" where
  "rolled_candle tf_ms bar_start parts = (let b = merged_bar bar_start parts in
     [(''open_time'', JInt bar_start), (''close_time'', JInt (bar_start + tf_ms - 1)),
      (''open'', JNum (s_open b)), (''high'', JNum (s_high b)), (''low'', JNum (s_low b)),
      (''close'', JNum (s_close b)), (''volume'', JNum (s_volume b))])"

text \<open>The loop over the buckets in the order of their start.\<close>

fun roll_buckets ::
  "pyfloat \<Rightarrow> key \<Rightarrow> int \<Rightarrow> int \<Rightarrow> (int, slot list) dict \<Rightarrow> int list \<Rightarrow> (cache, nat) eff" where
  "roll_buckets now k tf_ms source_ms d [] = ret 0"
| "roll_buckets now k tf_ms source_ms d (s # ss) =
     (let parts = dget d s []
      in if map s_time parts \<noteq> expected_times s source_ms (tf_ms div source_ms)
         then roll_buckets now k tf_ms source_ms d ss
         else then_do (upsert_candle now (fst k) (snd k) (rolled_candle tf_ms s parts))
                (bind (roll_buckets now k tf_ms source_ms d ss) (\<lambda>n. ret (n + 1))))"

definition rollup_symbol :: "pyfloat \<Rightarrow> string \<Rightarrow> int \<Rightarrow> string \<Rightarrow> (cache, nat) eff" where
  "rollup_symbol now target_tf tf_ms smb = (\<lambda>c. case best_source_tf target_tf smb c of
       None \<Rightarrow> (Inr 0, c)
     | Some source_tf \<Rightarrow>
         (let d = buckets tf_ms (bars_tail (smb, source_tf) 0 c);
              source_ms = (case tf_ms_of source_tf of None \<Rightarrow> 60000 | Some m \<Rightarrow> m)
          in roll_buckets now (smb, target_tf) tf_ms source_ms d (sort (keys d)) c))"

fun rollup_symbols :: "pyfloat \<Rightarrow> string \<Rightarrow> int \<Rightarrow> string list \<Rightarrow> (cache, nat) eff" where
  "rollup_symbols now target_tf tf_ms [] = ret 0"
| "rollup_symbols now target_tf tf_ms (s # ss) =
     bind (rollup_symbol now target_tf tf_ms s) (\<lambda>n.
     bind (rollup_symbols now target_tf tf_ms ss) (\<lambda>m. ret (n + m)))"

definition rollup_to_tf :: "pyfloat \<Rightarrow> string \<Rightarrow> string list \<Rightarrow> (cache, nat) eff" where
  "rollup_to_tf now target_tf symbols = (case tf_ms_of target_tf of
       None \<Rightarrow> ret 0 | Some tf_ms \<Rightarrow> rollup_symbols now target_tf tf_ms symbols)"

section \<open>The bars it builds\<close>

definition roll :: "int \<Rightarrow> int \<Rightarrow> slot list \<Rightarrow> slot list" where
  "roll tf_ms source_ms xs = (let d = buckets tf_ms xs in
     map (\<lambda>s. merged_bar s (dget d s []))
       (filter (\<lambda>s. map s_time (dget d s []) = expected_times s source_ms (tf_ms div source_ms))
         (sort (keys d))))"

definition part :: "int \<Rightarrow> int \<Rightarrow> slot list \<Rightarrow> slot list" where
  "part s ms xs = filter (\<lambda>x. s \<le> s_time x \<and> s_time x < s + ms) xs"

definition finite_slot :: "slot \<Rightarrow> bool" where
  "finite_slot x \<longleftrightarrow> isfinite (s_open x) \<and> isfinite (s_high x) \<and> isfinite (s_low x)
     \<and> isfinite (s_close x) \<and> isfinite (s_volume x)"

lemma bucket_start_eq:
  assumes "0 < ms"
  shows "bucket_start ms t = s \<longleftrightarrow> ms dvd s \<and> s \<le> t \<and> t < s + ms"
proof
  assume "bucket_start ms t = s"
  moreover have "t = t div ms * ms + t mod ms" by simp
  moreover have "0 \<le> t mod ms" "t mod ms < ms" using assms by simp_all
  ultimately show "ms dvd s \<and> s \<le> t \<and> t < s + ms" unfolding bucket_start_def by auto
next
  assume a: "ms dvd s \<and> s \<le> t \<and> t < s + ms"
  then obtain q where q: "s = ms * q" by auto
  have "t div ms = q" using a q assms by (intro int_div_pos_eq [of _ _ _ "t - s"]) auto
  then show "bucket_start ms t = s" by (simp add: bucket_start_def q)
qed

lemma buckets_dget: "dget (fold (add_to_bucket ms) xs d) s [] =
    dget d s [] @ filter (\<lambda>x. bucket_start ms (s_time x) = s) xs"
proof (induction xs arbitrary: d)
  case (Cons x xs)
  have "dget (add_to_bucket ms x d) s [] = dget d s [] @ (if bucket_start ms (s_time x) = s then [x] else [])"
    by (simp add: add_to_bucket_def Let_def dget_def)
  then show ?case using Cons by simp
qed simp

lemma dget_buckets: "0 < ms \<Longrightarrow> ms dvd s \<Longrightarrow> dget (buckets ms xs) s [] = part s ms xs"
  using buckets_dget [of ms xs "[]" s] by (simp add: buckets_def dget_def part_def bucket_start_eq)

lemma keys_dset [simp]: "set (keys (dset k v d)) = insert k (set (keys d))"
  by (induction d) (auto simp: keys_def)

lemma distinct_keys_dset: "distinct (keys d) \<Longrightarrow> distinct (keys (dset k v d))"
proof (induction d)
  case (Cons p d)
  then show ?case using keys_dset [of k v d] by (auto simp: keys_def)
qed (simp add: keys_def)

lemma set_keys_buckets: "set (keys (buckets ms xs)) = bucket_start ms ` s_time ` set xs"
proof -
  have "set (keys (fold (add_to_bucket ms) xs d)) = set (keys d) \<union> bucket_start ms ` s_time ` set xs" for d
    by (induction xs arbitrary: d) (auto simp: add_to_bucket_def Let_def)
  from this [of "[]"] show ?thesis by (simp add: buckets_def keys_def)
qed

lemma distinct_keys_buckets: "distinct (keys (buckets ms xs))"
proof -
  have "distinct (keys (fold (add_to_bucket ms) xs d))" if "distinct (keys d)" for d
    using that by (induction xs arbitrary: d) (simp_all add: add_to_bucket_def Let_def distinct_keys_dset)
  from this [of "[]"] show ?thesis by (simp add: buckets_def keys_def)
qed

lemma merged_bar_time [simp]: "s_time (merged_bar s ps) = s"
  by (simp add: merged_bar_def)

lemma ascending_roll: "ascending (roll ms src xs)"
proof -
  have "sorted_wrt (<) (sort (keys (buckets ms xs)))"
    using distinct_keys_buckets by (simp add: strict_sorted_iff)
  then have "sorted_wrt (<) (filter P (sort (keys (buckets ms xs))))" for P
    by (rule sorted_wrt_filter)
  then show ?thesis by (simp add: ascending_def roll_def Let_def comp_def)
qed

text \<open>A bar of the result, and its parts.\<close>

lemma in_roll:
  assumes "0 < ms"
  shows "y \<in> set (roll ms src xs) \<longleftrightarrow> (\<exists>s. ms dvd s \<and> part s ms xs \<noteq> [] \<and>
    map s_time (part s ms xs) = expected_times s src (ms div src) \<and> y = merged_bar s (part s ms xs))"
proof -
  have k: "s \<in> set (keys (buckets ms xs)) \<longleftrightarrow> ms dvd s \<and> part s ms xs \<noteq> []" for s
  proof -
    have "s \<in> set (keys (buckets ms xs)) \<longleftrightarrow> (\<exists>x \<in> set xs. bucket_start ms (s_time x) = s)"
      unfolding set_keys_buckets by (auto simp: image_iff)
    also have "\<dots> \<longleftrightarrow> ms dvd s \<and> (\<exists>x \<in> set xs. s \<le> s_time x \<and> s_time x < s + ms)"
      unfolding bucket_start_eq [OF assms] by blast
    finally show ?thesis by (simp add: part_def filter_empty_conv)
  qed
  have "y \<in> set (roll ms src xs) \<longleftrightarrow> (\<exists>s. s \<in> set (keys (buckets ms xs)) \<and>
      map s_time (dget (buckets ms xs) s []) = expected_times s src (ms div src) \<and>
      y = merged_bar s (dget (buckets ms xs) s []))"
    by (auto simp: roll_def Let_def)
  then show ?thesis unfolding k using dget_buckets [OF assms, of _ xs] by metis
qed

section \<open>Merging merged bars\<close>

lemma foldl_pymax: "foldl pymax (Fin a) (map Fin xs) = Fin (foldl max a xs)"
  by (induction xs arbitrary: a) auto

lemma foldl_pymin: "foldl pymin (Fin a) (map Fin xs) = Fin (foldl min a xs)"
  by (induction xs arbitrary: a) auto

lemma foldl_max_append: "foldl max (a :: real) (xs @ b # ys) = max (foldl max a xs) (foldl max b ys)"
proof -
  have "foldl max (max c d) ys = max c (foldl max d ys)" for c d :: real
    by (induction ys arbitrary: d) (simp_all add: max.assoc)
  then show ?thesis by simp
qed

lemma foldl_min_append: "foldl min (a :: real) (xs @ b # ys) = min (foldl min a xs) (foldl min b ys)"
proof -
  have "foldl min (min c d) ys = min c (foldl min d ys)" for c d :: real
    by (induction ys arbitrary: d) (simp_all add: min.assoc)
  then show ?thesis by simp
qed

lemma finite_as_Fin: "list_all isfinite xs \<Longrightarrow> \<exists>ys. xs = map Fin ys"
proof (induction xs)
  case (Cons x xs)
  then obtain y ys where "x = Fin y" "xs = map Fin ys" by (auto elim: isfiniteE)
  then show ?case by (intro exI [of _ "y # ys"]) simp
qed simp

lemma py_extreme_append:
  assumes "list_all isfinite (xs @ ys)" "xs \<noteq> []" "ys \<noteq> []"
  shows "py_max (xs @ ys) = pymax (py_max xs) (py_max ys)" "py_min (xs @ ys) = pymin (py_min xs) (py_min ys)"
proof -
  obtain a as where x: "xs = map Fin (a # as)"
    using finite_as_Fin [of xs] assms by (auto simp: neq_Nil_conv)
  obtain b bs where y: "ys = map Fin (b # bs)"
    using finite_as_Fin [of ys] assms by (auto simp: neq_Nil_conv)
  have "py_max (xs @ ys) = Fin (foldl max a (as @ b # bs))" "py_min (xs @ ys) = Fin (foldl min a (as @ b # bs))"
    using foldl_pymax [of a "as @ b # bs"] foldl_pymin [of a "as @ b # bs"]
    by (simp_all add: py_max_def py_min_def x y)
  then show "py_max (xs @ ys) = pymax (py_max xs) (py_max ys)" "py_min (xs @ ys) = pymin (py_min xs) (py_min ys)"
    unfolding foldl_max_append foldl_min_append by (simp_all add: py_max_def py_min_def x y foldl_pymax foldl_pymin)
qed

lemma py_extreme_single [simp]: "py_max [x] = x" "py_min [x] = x"
  by (simp_all add: py_max_def py_min_def)

lemma py_extreme_finite:
  assumes "list_all isfinite xs" "xs \<noteq> []"
  shows "isfinite (py_max xs)" "isfinite (py_min xs)"
proof -
  obtain a as where "xs = map Fin (a # as)" using finite_as_Fin [OF assms(1)] assms(2) by (auto simp: neq_Nil_conv)
  then show "isfinite (py_max xs)" "isfinite (py_min xs)"
    by (simp_all add: py_max_def py_min_def foldl_pymax foldl_pymin)
qed

lemma fsum_append: "list_all isfinite (xs @ ys) \<Longrightarrow> fsum (xs @ ys) = fsum xs + fsum ys"
  using fsum_finite [of "xs @ ys"] fsum_finite [of xs] fsum_finite [of ys] by (simp add: list_all_iff)

lemma finite_slot_fields:
  assumes "list_all finite_slot ps"
  shows "list_all isfinite (map s_high ps)" "list_all isfinite (map s_low ps)"
    "list_all isfinite (map s_volume ps)"
  using assms by (auto simp: list_all_iff finite_slot_def)

lemma merged_finite:
  assumes "list_all finite_slot ps" "ps \<noteq> []"
  shows "finite_slot (merged_bar s ps)"
proof -
  have "finite_slot (hd ps)" "finite_slot (last ps)" using assms by (simp_all add: list_all_iff)
  moreover have "isfinite (fsum (map s_volume ps))"
    using finite_slot_fields(3) [OF assms(1)] fsum_finite [of "map s_volume ps"] by (simp add: list_all_iff)
  ultimately show ?thesis
    using finite_slot_fields(1,2) [OF assms(1)] assms(2) py_extreme_finite
    by (simp add: merged_bar_def finite_slot_def)
qed

lemma merged_append:
  assumes "list_all finite_slot (ps @ qs)" "ps \<noteq> []" "qs \<noteq> []"
  shows "merged_bar t (ps @ qs) = merged_bar t [merged_bar a ps, merged_bar b qs]"
proof -
  note f = finite_slot_fields [OF assms(1)]
  have "py_max (map s_high (ps @ qs)) = pymax (py_max (map s_high ps)) (py_max (map s_high qs))"
    "py_min (map s_low (ps @ qs)) = pymin (py_min (map s_low ps)) (py_min (map s_low qs))"
    using py_extreme_append [of "map s_high ps" "map s_high qs"] py_extreme_append [of "map s_low ps" "map s_low qs"]
      f assms(2,3) by simp_all
  moreover have "fsum (map s_volume (ps @ qs)) = fsum (map s_volume ps) + fsum (map s_volume qs)"
    using fsum_append f(3) by simp
  moreover obtain v w where "fsum (map s_volume ps) = Fin v" "fsum (map s_volume qs) = Fin w"
    using fsum_finite [of "map s_volume ps"] fsum_finite [of "map s_volume qs"] f(3) by (simp add: list_all_iff)
  ultimately show ?thesis
    using assms(2,3) by (simp add: merged_bar_def py_max_def py_min_def fsum_def)
qed

lemma merged_single: "finite_slot x \<Longrightarrow> merged_bar t [merged_bar s [x]] = merged_bar t [x]"
  by (auto simp: merged_bar_def fsum_def finite_slot_def elim!: isfiniteE)

lemma merged_merged: "list_all finite_slot ps \<Longrightarrow> ps \<noteq> [] \<Longrightarrow> merged_bar t [merged_bar s ps] = merged_bar t ps"
  using fsum_finite [of "map s_volume ps"] finite_slot_fields(3) [of ps]
  by (simp add: merged_bar_def fsum_def list_all_iff)

text \<open>The bar over all parts is the bar over the bars of groups of parts.\<close>

lemma merged_concat:
  assumes "js \<noteq> []" "\<And>i. i \<in> set js \<Longrightarrow> f i \<noteq> [] \<and> list_all finite_slot (f i)"
  shows "merged_bar t (map (\<lambda>i. merged_bar (g i) (f i)) js) = merged_bar t (concat (map f js))"
  using assms
proof (induction js rule: list_nonempty_induct)
  case (single i)
  then show ?case by (simp add: merged_merged)
next
  case (cons i js)
  let ?zs = "map (\<lambda>i. merged_bar (g i) (f i)) js" and ?ps = "concat (map f js)"
  have "finite_slot (merged_bar (g j) (f j))" if "j \<in> set js" for j
    using cons.prems [of j] that by (intro merged_finite) simp_all
  then have zs: "list_all finite_slot ?zs" "?zs \<noteq> []"
    using cons.hyps by (simp_all add: list_all_iff)
  have ps: "list_all finite_slot (f i @ ?ps)" "?ps \<noteq> []" "f i \<noteq> []"
    using cons.hyps cons.prems by (auto simp: list_all_iff)
  have m: "list_all finite_slot [merged_bar (g i) (f i)]" using cons.prems merged_finite by simp
  have "merged_bar t (merged_bar (g i) (f i) # ?zs) =
      merged_bar t [merged_bar t [merged_bar (g i) (f i)], merged_bar t ?zs]"
    using merged_append [of "[merged_bar (g i) (f i)]" ?zs t t t] zs m by simp
  also have "\<dots> = merged_bar t [merged_bar t (f i), merged_bar t ?ps]"
    using merged_merged [of "f i" t "g i"] cons.prems cons.IH by simp
  also have "\<dots> = merged_bar t (f i @ ?ps)"
    using merged_append [OF ps(1) ps(3,2), of t t t] by simp
  finally show ?case by simp
qed

section \<open>Two steps are one\<close>

lemma ascending_filter: "ascending xs \<Longrightarrow> ascending (filter P xs)"
  by (induction xs) (auto simp: ascending_def)

lemma ascending_set_eq:
  assumes "ascending xs" "ascending ys" "set xs = set ys"
  shows "xs = ys"
  using assms
proof (induction xs arbitrary: ys)
  case (Cons x xs)
  then obtain y ys' where ys: "ys = y # ys'" by (cases ys) auto
  have x: "s_time x < s_time z" if "z \<in> set xs" for z using Cons.prems(1) that by (simp add: ascending_def)
  have y: "s_time y < s_time z" if "z \<in> set ys'" for z using Cons.prems(2) that by (simp add: ascending_def ys)
  have "x = y"
  proof (rule ccontr)
    assume "x \<noteq> y"
    with Cons.prems(3) have "x \<in> set ys'" "y \<in> set xs" by (auto simp: ys)
    with x y show False by fastforce
  qed
  moreover have "x \<notin> set xs" "y \<notin> set ys'" using x y by blast+
  ultimately have "set xs = set ys'" using Cons.prems(3) by (auto simp: ys)
  with Cons.IH [of ys'] Cons.prems(1,2) \<open>x = y\<close> show ?case by (simp add: ascending_def ys)
qed simp

lemma part_append:
  assumes "ascending xs" "0 \<le> a" "0 \<le> b"
  shows "part s (a + b) xs = part s a xs @ part (s + a) b xs"
  using assms(1)
proof (induction xs)
  case (Cons x xs)
  then have IH: "part s (a + b) xs = part s a xs @ part (s + a) b xs" by (simp add: ascending_def)
  have "part s a xs = []" if "s + a \<le> s_time x"
    using Cons.prems that by (fastforce simp: part_def filter_empty_conv ascending_def)
  with IH assms(2,3) show ?case by (auto simp: part_def)
qed (simp add: part_def)

lemma part_split:
  assumes "ascending xs" "0 \<le> m"
  shows "part s (int n * m) xs = concat (map (\<lambda>i. part (s + int i * m) m xs) [0..<n])"
proof (induction n)
  case (Suc n)
  have "part s (int (Suc n) * m) xs = part s (int n * m) xs @ part (s + int n * m) m xs"
    using part_append [OF assms(1), of "int n * m" m s] assms(2) by (simp add: ring_distribs add.commute)
  then show ?case using Suc by simp
qed (simp add: part_def filter_empty_conv)

lemma expected_split:
  "expected_times s src (int (n * k)) =
     concat (map (\<lambda>i. expected_times (s + int i * (int k * src)) src (int k)) [0..<n])"
proof (induction n)
  case (Suc n)
  have "[0..<Suc n * k] = [0..<n * k] @ map (\<lambda>j. n * k + j) [0..<k]"
    using upt_add_eq_append [of 0 "n * k" k] by (simp add: add.commute map_add_upt)
  then have "expected_times s src (int (Suc n * k)) =
      expected_times s src (int (n * k)) @ expected_times (s + int n * (int k * src)) src (int k)"
    unfolding expected_times_def nat_int by (simp add: ring_distribs comp_def mult.assoc add.assoc)
  then show ?case using Suc by simp
qed (simp add: expected_times_def)

lemma expected_in_range:
  assumes "0 < src" "t \<in> set (expected_times s src (int k))"
  shows "s \<le> t \<and> t < s + int k * src"
  using assms by (auto simp: expected_times_def)

text \<open>Of a split list, the times in one range are those of one piece.\<close>

lemma filter_piece:
  assumes "0 < src" "0 < k" "i < n"
  shows "filter (\<lambda>t. s + int i * (int k * src) \<le> t \<and> t < s + int i * (int k * src) + int k * src)
      (expected_times s src (int (n * k))) = expected_times (s + int i * (int k * src)) src (int k)"
proof -
  let ?m = "int k * src"
  let ?e = "\<lambda>i. expected_times (s + int i * ?m) src (int k)"
  let ?P = "\<lambda>i t. s + int i * ?m \<le> t \<and> t < s + int i * ?m + ?m"
  have m: "0 < ?m" using assms by simp
  have piece: "filter (?P i) (?e j) = (if j = i then ?e j else [])" for j
  proof (cases "j = i")
    case True
    then show ?thesis using expected_in_range [OF assms(1), of _ "s + int i * ?m" k] by (simp add: filter_id_conv)
  next
    case False
    have "\<not> ?P i t" if "t \<in> set (?e j)" for t
    proof -
      have r: "s + int j * ?m \<le> t" "t < s + int j * ?m + ?m"
        using expected_in_range [OF assms(1) that] by simp_all
      show ?thesis
      proof (cases "j < i")
        case True
        then have "(int j + 1) * ?m \<le> int i * ?m" using m by (intro mult_right_mono) simp_all
        with r show ?thesis by (simp add: ring_distribs)
      next
        case False
        with \<open>j \<noteq> i\<close> have "(int i + 1) * ?m \<le> int j * ?m" using m by (intro mult_right_mono) simp_all
        with r show ?thesis by (simp add: ring_distribs)
      qed
    qed
    with False show ?thesis by (simp add: filter_empty_conv)
  qed
  have "filter (?P i) (concat (map ?e js)) = concat (map (\<lambda>j. if j = i then ?e j else []) js)" for js
    by (induction js) (simp_all add: piece)
  moreover have "concat (map (\<lambda>j. if j = i then ?e j else []) [0..<n]) = ?e i"
    using assms(3)
  proof (induction n)
    case (Suc n)
    have "concat (map (\<lambda>j. if j = i then ?e j else []) [0..<n]) = []" if "i = n" using that by simp
    with Suc show ?case by (cases "i = n") auto
  qed simp
  ultimately show ?thesis unfolding expected_split by simp
qed

text \<open>
  A bucket of the target whose parts are all there, seen in the bars of the middle time frame.
  Here \<open>m = k * src\<close> is the middle and \<open>n * m\<close> the target.
\<close>

lemma middle_part:
  assumes xs: "ascending xs" and pos: "0 < src" "0 < k" and m: "m = int k * src"
    and s: "m dvd s"
    and all: "\<And>i. i < n \<Longrightarrow> map s_time (part (s + int i * m) m xs) = expected_times (s + int i * m) src (int k)"
  shows "part s (int n * m) (roll m src xs) =
    map (\<lambda>i. merged_bar (s + int i * m) (part (s + int i * m) m xs)) [0..<n]" (is "?l = map ?f [0..<n]")
proof (rule ascending_set_eq)
  have m0: "0 < m" using pos m by simp
  have src: "m div src = int k" using pos m by simp
  show "ascending ?l" unfolding part_def by (rule ascending_filter [OF ascending_roll])
  show "ascending (map ?f [0..<n])"
    using m0 by (simp add: ascending_def comp_def sorted_wrt_map sorted_wrt_upt sorted_wrt_iff_nth_less)
  have mem: "?f i \<in> set (roll m src xs)" if "i < n" for i
  proof -
    have "part (s + int i * m) m xs \<noteq> []"
      using all [OF that] pos(2) by (auto simp: expected_times_def dest: arg_cong [of _ _ length])
    then show ?thesis
      using all [OF that] s unfolding in_roll [OF m0] src by (intro exI [of _ "s + int i * m"]) simp
  qed
  have low: "s \<le> s + int i * m" "s + int i * m < s + int n * m" if "i < n" for i
    using m0 that by (simp_all add: mult_strict_right_mono)
  show "set ?l = set (map ?f [0..<n])"
  proof (intro set_eqI iffI)
    fix z assume "z \<in> set (map ?f [0..<n])"
    then obtain i where "i < n" "z = ?f i" by auto
    then show "z \<in> set ?l" using mem low by (simp add: part_def)
  next
    fix z assume "z \<in> set ?l"
    then have z: "z \<in> set (roll m src xs)" "s \<le> s_time z" "s_time z < s + int n * m" by (auto simp: part_def)
    then obtain t where t: "m dvd t" "z = merged_bar t (part t m xs)" by (auto simp: in_roll [OF m0])
    obtain q where q: "t - s = m * q" using dvd_diff [OF t(1) s] by auto
    have "0 \<le> m * q" using z(2) t(2) q by simp
    then have q0: "0 \<le> q" using m0 by (simp add: zero_le_mult_iff)
    have "m * q < m * int n" using z(3) t(2) q by (simp add: mult.commute)
    then have "q < int n" using m0 by simp
    then have "nat q < n" "t = s + int (nat q) * m" using q q0 by (auto simp: mult.commute)
    then show "z \<in> set (map ?f [0..<n])" using t(2) by (intro image_eqI [of _ _ "nat q", THEN image_set [THEN equalityD1, THEN subsetD]]) auto
  qed
qed

lemma roll_roll:
  assumes xs: "ascending xs" "list_all finite_slot xs" and pos: "0 < src" "0 < k" "0 < n"
    and m: "m = int k * src"
  shows "roll (int n * m) m (roll m src xs) = roll (int n * m) src xs"
proof (rule ascending_set_eq)
  let ?t = "int n * m"
  have m0: "0 < m" and t0: "0 < ?t" using pos m by simp_all
  have divs: "m div src = int k" "?t div m = int n" "?t div src = int (n * k)"
    using pos m m0 by (simp_all add: mult.assoc [symmetric])
  let ?full = "\<lambda>s. \<forall>i < n. map s_time (part (s + int i * m) m xs) = expected_times (s + int i * m) src (int k)"
  have up: "m dvd s" if "?t dvd s" for s using that by (rule dvd_mult_right)
  have fine: "map s_time (part s ?t xs) = expected_times s src (int (n * k)) \<longleftrightarrow> ?full s" for s
  proof
    assume e: "map s_time (part s ?t xs) = expected_times s src (int (n * k))"
    show "?full s"
    proof (intro allI impI)
      fix i assume i: "i < n"
      let ?P = "\<lambda>t. s + int i * (int k * src) \<le> t \<and> t < s + int i * (int k * src) + int k * src"
      have up_to: "int i * m + m \<le> ?t"
        using mult_right_mono [of "int i + 1" "int n" m] i m0 by (simp add: ring_distribs)
      have "0 \<le> int i * m" using m0 by simp
      then have "s \<le> y \<and> y < s + ?t" if "s + int i * m \<le> y" "y < s + int i * m + m" for y
        using that up_to by linarith
      then have "part (s + int i * m) m xs = filter (\<lambda>x. ?P (s_time x)) (part s ?t xs)"
        unfolding part_def filter_filter m by (intro filter_cong) blast+
      then have "map s_time (part (s + int i * m) m xs) = filter ?P (map s_time (part s ?t xs))"
        by (simp add: filter_map comp_def)
      with e filter_piece [OF pos(1,2) i] show "map s_time (part (s + int i * m) m xs) =
          expected_times (s + int i * m) src (int k)" by (simp add: m)
    qed
  next
    assume f: "?full s"
    have "map s_time (part s ?t xs) = concat (map (\<lambda>i. map s_time (part (s + int i * m) m xs)) [0..<n])"
      using part_split [OF xs(1), of m s n] m0 by (simp add: map_concat comp_def)
    also have "\<dots> = concat (map (\<lambda>i. expected_times (s + int i * m) src (int k)) [0..<n])"
      using f by (intro arg_cong [where f = concat] map_cong) simp_all
    finally show "map s_time (part s ?t xs) = expected_times s src (int (n * k))"
      unfolding expected_split m .
  qed
  show "ascending (roll ?t m (roll m src xs))" "ascending (roll ?t src xs)" by (rule ascending_roll)+
  have mid: "map s_time (part s ?t (roll m src xs)) = expected_times s m (int n) \<longleftrightarrow> ?full s" if s: "m dvd s" for s
  proof
    assume f: "?full s"
    show "map s_time (part s ?t (roll m src xs)) = expected_times s m (int n)"
      by (subst middle_part [OF xs(1) pos(1,2) m s]) (use f in \<open>simp_all add: expected_times_def comp_def\<close>)
  next
    assume e: "map s_time (part s ?t (roll m src xs)) = expected_times s m (int n)"
    show "?full s"
    proof (intro allI impI)
      fix i assume "i < n"
      then have "s + int i * m \<in> set (map s_time (part s ?t (roll m src xs)))"
        unfolding e by (auto simp: expected_times_def)
      then obtain z where "z \<in> set (roll m src xs)" "s_time z = s + int i * m" by (auto simp: part_def)
      then show "map s_time (part (s + int i * m) m xs) = expected_times (s + int i * m) src (int k)"
        by (auto simp: in_roll [OF m0] divs)
    qed
  qed
  have bar: "merged_bar s (part s ?t (roll m src xs)) = merged_bar s (part s ?t xs)" if s: "m dvd s" "?full s" for s
  proof -
    have p: "part (s + int i * m) m xs \<noteq> [] \<and> list_all finite_slot (part (s + int i * m) m xs)" if "i < n" for i
    proof -
      have "length (part (s + int i * m) m xs) = k"
        using s(2) that length_map [of s_time "part (s + int i * m) m xs"] by (simp add: expected_times_def)
      then show ?thesis using pos(2) xs(2) by (auto simp: part_def list_all_iff)
    qed
    have "merged_bar s (part s ?t (roll m src xs)) =
        merged_bar s (map (\<lambda>i. merged_bar (s + int i * m) (part (s + int i * m) m xs)) [0..<n])"
      by (subst middle_part [OF xs(1) pos(1,2) m s(1)]) (use s(2) in simp_all)
    also have "\<dots> = merged_bar s (concat (map (\<lambda>i. part (s + int i * m) m xs) [0..<n]))"
      using pos(3) p by (intro merged_concat) auto
    also have "\<dots> = merged_bar s (part s ?t xs)"
      using part_split [OF xs(1), of m s n] m0 by simp
    finally show ?thesis .
  qed
  have ne: "part s ?t xs \<noteq> []" "part s ?t (roll m src xs) \<noteq> []" if "m dvd s" "?full s" for s
    using fine [of s] mid [OF that(1)] that(2) pos
    by (auto simp: expected_times_def simp del: of_nat_mult dest: arg_cong [of _ _ length])
  show "set (roll ?t m (roll m src xs)) = set (roll ?t src xs)"
  proof (rule set_eqI)
    fix y
    have "?t dvd s \<and> part s ?t (roll m src xs) \<noteq> [] \<and>
        map s_time (part s ?t (roll m src xs)) = expected_times s m (int n) \<and>
        y = merged_bar s (part s ?t (roll m src xs)) \<longleftrightarrow>
        ?t dvd s \<and> part s ?t xs \<noteq> [] \<and> map s_time (part s ?t xs) = expected_times s src (int (n * k)) \<and>
        y = merged_bar s (part s ?t xs)" for s
      using up [of s] fine [of s] mid [of s] bar [of s] ne [of s] by metis
    then show "y \<in> set (roll ?t m (roll m src xs)) \<longleftrightarrow> y \<in> set (roll ?t src xs)"
      unfolding in_roll [OF t0] divs by simp
  qed
qed

section \<open>What the cache holds afterwards\<close>

lemma bars_tail_bars: "cache_inv c \<Longrightarrow> bars_tail k 0 c = bars k c"
  by (auto simp: bars_tail_def bars_def cache_invD split: option.splits)

lemma reading_rolled:
  assumes "0 < s" "s < 2 ^ 63"
  shows "reading (rolled_candle ms s ps) = Some (merged_bar s ps)"
  using assms
  by (simp add: reading_def rolled_candle_def Let_def dget_def slot_of_def candle_float_def int64_def
      merged_bar_def)

lemma upsert_returns:
  assumes "cache_inv c" "c_baseline c = []" "reading candle = Some x"
  shows "fst (upsert_candle now s tf candle c) = Inr ()"
proof -
  obtain t where t: "py_int (dget candle ''open_time'' (dget candle ''time'' (JInt 0))) = Inr t"
      "0 < t" "slot_of candle t = Inr x"
    using assms(3) by (auto simp: reading_def split: sum.splits if_splits)
  obtain b n where "store_bar now (s, tf) candle t c =
        (Inr (), if known (s, tf) t c then after_replace now (s, tf) b c else after_new now (s, tf) n b c)"
    using store_bar_readable [OF assms(1) t(3), where k = "(s, tf)" and now = now] by blast
  then show ?thesis using t assms(2) by (simp add: upsert_candle_def before_baseline_def)
qed

definition all_parts :: "int \<Rightarrow> int \<Rightarrow> (int, slot list) dict \<Rightarrow> int \<Rightarrow> bool" where
  "all_parts ms src d s \<longleftrightarrow> map s_time (dget d s []) = expected_times s src (ms div src)"

lemma roll_buckets_feed:
  assumes "cache_inv c" "c_baseline c = []" "\<And>s. s \<in> set ss \<Longrightarrow> 0 < s \<and> s < 2 ^ 63"
  shows "roll_buckets now k ms src d ss c = (Inr (length (filter (all_parts ms src d) ss)),
    fold upsert_item (map (\<lambda>s. (now, fst k, snd k, rolled_candle ms s (dget d s [])))
      (filter (all_parts ms src d) ss)) c)"
  using assms
proof (induction ss arbitrary: c)
  case (Cons s ss)
  show ?case
  proof (cases "all_parts ms src d s")
    case False
    then show ?thesis using Cons all_parts_def [of ms src d s] by (simp add: Let_def)
  next
    case True
    let ?candle = "rolled_candle ms s (dget d s [])"
    have r: "reading ?candle = Some (merged_bar s (dget d s []))" using Cons.prems(3) by (intro reading_rolled) auto
    obtain c' where c': "upsert_candle now (fst k) (snd k) ?candle c = (Inr (), c')"
      using upsert_returns [OF Cons.prems(1,2) r, of now "fst k" "snd k"] by (metis prod.collapse)
    note frame = upsert_frame [OF Cons.prems(1,2) r, where now = now and s = "fst k" and tf = "snd k",
      unfolded c' snd_conv]
    have "roll_buckets now k ms src d ss c' = (Inr (length (filter (all_parts ms src d) ss)),
        fold upsert_item (map (\<lambda>s. (now, fst k, snd k, rolled_candle ms s (dget d s [])))
          (filter (all_parts ms src d) ss)) c')"
      using Cons.prems(3) frame by (intro Cons.IH) auto
    with True c' all_parts_def [of ms src d s] show ?thesis by (simp add: Let_def then_do_apply bind_apply)
  qed
qed simp

lemma roll_all_parts:
  "roll ms src xs = map (\<lambda>s. merged_bar s (dget (buckets ms xs) s []))
     (filter (all_parts ms src (buckets ms xs)) (sort (keys (buckets ms xs))))"
  unfolding roll_def Let_def by (intro arg_cong [where f = "map _"] filter_cong) (simp_all add: all_parts_def)

lemma rollup_symbol_bars:
  assumes inv: "cache_inv c" "c_baseline c = []" and names: "smb \<noteq> ''''" "tf \<noteq> ''''" and ms: "0 < ms"
    and source: "best_source_tf tf smb c = Some source_tf" "tf_ms_of source_tf = Some src"
    and times: "\<forall>x \<in> set (bars (smb, source_tf) c). ms \<le> s_time x \<and> s_time x < 2 ^ 63"
    and room: "0 < retained_bars (smb, tf) c" "retained_bars (smb, tf) c \<le> max_capacity"
      "int (length (bars (smb, tf) c)) \<le> retained_bars (smb, tf) c"
  defines "built \<equiv> roll ms src (bars (smb, source_tf) c)"
  shows "fst (rollup_symbol now tf ms smb c) = Inr (length built)"
    and "bars (smb, tf) (snd (rollup_symbol now tf ms smb c)) =
      last_n (nat (retained_bars (smb, tf) c)) (fold put_bar built (bars (smb, tf) c))"
proof -
  let ?xs = "bars (smb, source_tf) c"
  let ?d = "buckets ms ?xs"
  let ?ss = "sort (keys ?d)"
  have ss: "0 < s \<and> s < 2 ^ 63" if s: "s \<in> set ?ss" for s
  proof -
    obtain x where x: "x \<in> set ?xs" "bucket_start ms (s_time x) = s" using s by (auto simp: set_keys_buckets)
    then have d: "ms dvd s" "s \<le> s_time x" "s_time x < s + ms" using bucket_start_eq [OF ms] by blast+
    moreover have "ms \<le> s_time x" "s_time x < 2 ^ 63" using times x(1) by blast+
    moreover have "s \<noteq> 0" using d(3) times x(1) by auto
    ultimately show ?thesis by linarith
  qed
  let ?fs = "filter (all_parts ms src ?d) ?ss"
  let ?feed = "map (\<lambda>s. (now, smb, tf, rolled_candle ms s (dget ?d s []))) ?fs"
  have run: "rollup_symbol now tf ms smb c = (Inr (length ?fs), fold upsert_item ?feed c)"
    using roll_buckets_feed [OF inv ss, of ?ss now "(smb, tf)" ms src ?d] source
    by (simp add: rollup_symbol_def Let_def bars_tail_bars [OF inv(1)])
  have reads: "reading (rolled_candle ms s (dget ?d s [])) = Some (merged_bar s (dget ?d s []))" if "s \<in> set ?fs" for s
    using that ss by (intro reading_rolled) auto
  show "fst (rollup_symbol now tf ms smb c) = Inr (length built)"
    using run by (simp add: built_def roll_all_parts)
  have "bars_for (smb, tf) ?feed = built"
    unfolding bars_for_def built_def roll_all_parts using reads by (simp add: filter_map comp_def)
  moreover have "\<forall>i \<in> set ?feed. readable_item i" using reads names by auto
  ultimately show "bars (smb, tf) (snd (rollup_symbol now tf ms smb c)) =
      last_n (nat (retained_bars (smb, tf) c)) (fold put_bar built (bars (smb, tf) c))"
    using feed_bars [OF inv, of ?feed "(smb, tf)" "bars (smb, tf) c"] room bars_ascending [OF inv(1)] run
    by simp
qed

end
