(* ===== verification/AlphaProperties.thy ===== *)
theory AlphaProperties
  imports StreamingV5 Rollup
begin

text \<open>
  Properties of what the alphas compute with: the streaming operators against their batch
  definitions, and the shared candle cache.
\<close>

section \<open>Streaming operators\<close>

text \<open>
  The monotonic deque of \<open>RollingExtreme\<close> answers the maximum (or minimum) of the last \<open>d\<close>
  observations, and NaN before there are \<open>d\<close>; observations that are NaN are skipped.
\<close>

theorem rolling_extreme_is_window_extreme:
  assumes "list_all (\<lambda>v. isfinite v \<or> v = NaN) vs"
  shows "\<exists>s. run extreme_update (new_extreme (Suc d) m) vs = Inr s \<and>
    extreme_value s = Inr (batch_extreme (Suc d) m (observations vs))"
  using assms by (intro extreme.streaming_is_batch) (simp add: list_all_iff)

theorem rolling_extreme_is_window_extreme_witness:
  "\<exists>s. run extreme_update (new_extreme 2 True) [Fin 3, NaN, Fin 5, Fin 1] = Inr s \<and>
     extreme_value s = Inr (Fin 5)"
  using rolling_extreme_is_window_extreme [of "[Fin 3, NaN, Fin 5, Fin 1]" 1 True]
  by (auto simp: batch_extreme_def extreme_of_def last_n_def numeral_2_eq_2)

text \<open>
  The running sums of \<open>RollingDecayLinear\<close> and \<open>RollingMoments\<close> stay equal to the sums over
  the window: the linearly weighted mean, the mean, the standard deviation and the skewness they
  answer are those of the last \<open>d\<close> observations.
\<close>

theorem rolling_sums_are_window_sums:
  assumes "list_all (\<lambda>v. isfinite v \<or> v = NaN) vs"
  shows "(\<exists>s. run decay_update (new_decay (Suc d)) vs = Inr s \<and>
      decay_value s = Inr (batch_decay (Suc d) (observations vs))) \<and>
    (\<exists>s. run moments_update (new_moments (Suc d)) vs = Inr s \<and>
      moments_mean s = Inr (batch_mean (Suc d) (observations vs)) \<and>
      moments_std s = Inr (batch_std (Suc d) (observations vs)) \<and>
      moments_skew s = Inr (batch_skew (Suc d) (observations vs)))"
proof -
  have vs: "\<And>v. v \<in> set vs \<Longrightarrow> isfinite v \<or> v = NaN" using assms by (simp add: list_all_iff)
  obtain s where "run moments_update (new_moments (Suc d)) vs = Inr s"
      "moments_mean s = Inr (batch_mean (Suc d) (observations vs))"
    using rolling_mean.streaming_is_batch [where vs = vs and d = d, OF vs] by blast
  moreover from this(1) have "moments_std s = Inr (batch_std (Suc d) (observations vs))"
      "moments_skew s = Inr (batch_skew (Suc d) (observations vs))"
    using rolling_std.streaming_is_batch [where vs = vs and d = d, OF vs] rolling_skew.streaming_is_batch [where vs = vs and d = d, OF vs]
    by simp_all
  ultimately show ?thesis using decay.streaming_is_batch [where vs = vs and d = d, OF vs] by blast
qed

theorem rolling_sums_are_window_sums_witness:
  "\<exists>s. run moments_update (new_moments 2) [Fin 9, Fin 3, NaN, Fin 5] = Inr s \<and>
     moments_mean s = Inr (Fin 4)"
  using rolling_sums_are_window_sums [of "[Fin 9, Fin 3, NaN, Fin 5]" 1]
  by (auto simp: batch_mean_def mean_def last_n_def numeral_2_eq_2)

text \<open>
  The recursive operators \<open>EMA\<close> and \<open>Momentum\<close> answer the batch value of all observations so
  far: the exponentially weighted mean started at the first one, and the relative change over
  \<open>d\<close> observations.
\<close>

theorem recursive_operators_are_batch:
  assumes "list_all (\<lambda>v. isfinite v \<or> v = NaN) vs"
  shows "(\<exists>s. run ema_update (new_ema n) vs = Inr s \<and> ema_value s = Inr (batch_ema n (observations vs))) \<and>
    (\<exists>s. run momentum_update (new_momentum d) vs = Inr s \<and>
      momentum_value s = Inr (batch_momentum d (observations vs)))"
proof -
  have vs: "\<And>v. v \<in> set vs \<Longrightarrow> isfinite v \<or> v = NaN" using assms by (simp add: list_all_iff)
  show ?thesis using ema.streaming_is_batch [OF vs] momentum.streaming_is_batch [OF vs] by blast
qed

theorem recursive_operators_are_batch_witness:
  "\<exists>s. run momentum_update (new_momentum 1) [Fin 4, NaN, Fin 5] = Inr s \<and>
     momentum_value s = Inr (Fin (1 / 4))"
  using recursive_operators_are_batch [of "[Fin 4, NaN, Fin 5]" 3 1]
  by (auto simp: batch_momentum_def)


definition v5_history :: "nat \<Rightarrow> bar list" where
  "v5_history n = map (\<lambda>i. (real i, real i + 1, real i)) [0..<n]"


section \<open>The candle cache\<close>

text \<open>
  Whatever requirements, candles (readable or not), baselines and trims a cache has seen, in
  whatever order, every key holds its bars in strictly ascending order of time, in a ring that
  is well formed and never holds more bars than its capacity.
\<close>

theorem cache_bars_ascend:
  assumes "cache_reachable c"
  shows "ascending (bars k c) \<and> get_times k 0 c = map s_time (bars k c) \<and>
    (map_of (c_data c) k = Some b \<longrightarrow> buffer_inv b \<and> length (bars k c) \<le> b_capacity b)"
proof -
  have inv: "cache_inv c" by (rule cache_reachable_inv [OF assms])
  have "length (bars k c) \<le> b_capacity b" if "map_of (c_data c) k = Some b" "buffer_inv b"
    using that by (simp add: bars_def buffer_inv_def)
  then show ?thesis
    using bars_ascending [OF inv, of k] get_times_bars [OF inv, of k] cache_invD(1) [OF inv, of k] by blast
qed

definition bar_at :: "int \<Rightarrow> int \<Rightarrow> candle" where
  "bar_at t x = [(''open_time'', JInt t), (''open'', JInt x), (''high'', JInt x), (''low'', JInt x),
     (''close'', JInt x), (''volume'', JInt 1)]"

theorem cache_bars_ascend_witness:
  "ascending (bars (''BTC'', ''1m'') (cache_step (Upsert (Fin 0) ''BTC'' ''1m'' (bar_at 60000 5)) (new_cache 0)))"
proof -
  have "cache_reachable (cache_step (Upsert (Fin 0) ''BTC'' ''1m'' (bar_at 60000 5)) (new_cache 0))"
    by (rule cache_reachable.step [OF cache_reachable.start]) (simp add: bar_at_def dget_def)
  from cache_bars_ascend [OF this, of "(''BTC'', ''1m'')"] show ?thesis by blast
qed


definition two_bars :: cache where
  "two_bars = set_warmup_baseline ''1m'' 100 (register_bars_requirement (''BTC'', ''1m'') 2 (new_cache 0))"


text \<open>
  The gap report is exact: for bars on the grid of the time frame, a point of the grid
  between the first and the last bar is missing from the key exactly when one of the reported
  ranges holds it.
\<close>

theorem gap_report_is_exact:
  assumes "cache_inv c" and "2 \<le> length (bars k c)" and "0 < m"
    and "get_times k 0 c = a # ts" and "\<forall>t \<in> set ts. m dvd (t - a)"
    and "m dvd (g - a)" and "a \<le> g" and "g \<le> last (a # ts)"
  shows "g \<notin> set (get_times k 0 c) \<longleftrightarrow> in_gap g (missing_ranges (verify_no_gaps k (Some m) c))"
proof -
  have "sorted_wrt (<) (a # ts)"
    using bars_ascending [OF assms(1), of k] get_times_bars [OF assms(1), of k] assms(4)
    by (simp add: ascending_def)
  from missing_between_exact [OF this assms(3,5-8)] show ?thesis
    using assms(2,4) by (simp add: verify_no_gaps_def get_bar_count_bars Let_def)
qed

definition gap_cache :: cache where
  "gap_cache = fold upsert_item [(Fin 0, ''BTC'', ''1m'', bar_at 60 5), (Fin 0, ''BTC'', ''1m'', bar_at 240 7)]
     (register_bars_requirement (''BTC'', ''1m'') 5 (new_cache 0))"

theorem gap_report_is_exact_witness:
  "in_gap 120 (missing_ranges (verify_no_gaps (''BTC'', ''1m'') (Some 60) gap_cache))"
proof -
  let ?c = "register_bars_requirement (''BTC'', ''1m'') 5 (new_cache 0)"
  let ?feed = "[(Fin 0, ''BTC'', ''1m'', bar_at 60 5), (Fin 0, ''BTC'', ''1m'', bar_at 240 7)]"
  have r: "reading (bar_at t x) = Some \<lparr>s_time = t, s_open = Fin x, s_high = Fin x, s_low = Fin x,
      s_close = Fin x, s_volume = Fin 1\<rparr>" if "0 < t" "t < 1000" for t x
    using that by (simp add: reading_def bar_at_def slot_of_def candle_float_def dget_def int64_def)
  have c: "cache_inv ?c" "c_baseline ?c = []" "retained_bars (''BTC'', ''1m'') ?c = 5"
      "bars (''BTC'', ''1m'') ?c = []"
    by (simp_all add: register_bars_requirement_def register_data_requirement_def
        note_requirement_def new_cache_def cache_inv_def retained_bars_def bars_def dget_def Let_def)
  have b: "map s_time (bars (''BTC'', ''1m'') gap_cache) = [60, 240]"
    unfolding gap_cache_def
    by (subst feed_bars [OF c(1,2), where ys = "[]"])
       (simp_all add: c r max_capacity_def bars_for_def last_n_def)
  have inv: "cache_inv gap_cache"
    unfolding gap_cache_def using upsert_frame(1,3) [OF c(1,2) r, of 60] upsert_frame(3) [OF _ _ r, of _ 240]
    by simp
  have "length (bars (''BTC'', ''1m'') gap_cache) = 2" using b by (metis length_map list.size(3,4) numeral_2_eq_2 add_0 Suc_eq_plus1)
  with gap_report_is_exact [OF inv, of "(''BTC'', ''1m'')" 60 60 "[240]" 120] b show ?thesis
    by (simp add: get_times_bars [OF inv])
qed


section \<open>The time frame rollup\<close>

text \<open>
  The rollup of a symbol leaves in the cache the bars it had with one bar put in for every
  bucket whose parts are all there, and for no other: the bar opens with the first part, closes
  with the last, has their extremes and their total volume.  It returns how many it built.
\<close>

theorem rollup_builds_bars:
  assumes "cache_inv c" and "c_baseline c = []" and "smb \<noteq> ''''" and "tf \<noteq> ''''" and "0 < ms"
    and "best_source_tf tf smb c = Some source_tf" and "tf_ms_of source_tf = Some src"
    and "list_all (\<lambda>x. ms \<le> s_time x \<and> s_time x < 2 ^ 63) (bars (smb, source_tf) c)"
    and "0 < retained_bars (smb, tf) c" and "retained_bars (smb, tf) c \<le> max_capacity"
    and "int (length (bars (smb, tf) c)) \<le> retained_bars (smb, tf) c"
  shows "fst (rollup_symbol now tf ms smb c) = Inr (length (roll ms src (bars (smb, source_tf) c))) \<and>
    bars (smb, tf) (snd (rollup_symbol now tf ms smb c)) =
      last_n (nat (retained_bars (smb, tf) c))
        (fold put_bar (roll ms src (bars (smb, source_tf) c)) (bars (smb, tf) c)) \<and>
    (\<forall>y. y \<in> set (roll ms src (bars (smb, source_tf) c)) \<longleftrightarrow>
       (\<exists>s. ms dvd s \<and> part s ms (bars (smb, source_tf) c) \<noteq> [] \<and>
          map s_time (part s ms (bars (smb, source_tf) c)) = expected_times s src (ms div src) \<and>
          y = merged_bar s (part s ms (bars (smb, source_tf) c))))"
proof -
  note built = rollup_symbol_bars [OF assms(1-7) assms(8) [unfolded list_all_iff] assms(9-11)]
  show ?thesis by (intro conjI allI) (rule built in_roll [OF assms(5)])+
qed

definition five_minutes :: cache where
  "five_minutes = fold upsert_item
     (map (\<lambda>i. (Fin 0, ''BTC'', ''1m'', bar_at (300000 + i * 60000) (7 - i))) [0, 1, 2, 3, 4])
     (register_bars_requirement (''BTC'', ''5m'') 2 (register_bars_requirement (''BTC'', ''1m'') 9 (new_cache 0)))"

lemma five_minutes_bars:
  "cache_inv five_minutes" "c_baseline five_minutes = []"
  "retained_bars (''BTC'', ''5m'') five_minutes = 2" "bars (''BTC'', ''5m'') five_minutes = []"
  "bars (''BTC'', ''1m'') five_minutes = map (\<lambda>i. \<lparr>s_time = 300000 + i * 60000, s_open = Fin (of_int (7 - i)),
     s_high = Fin (of_int (7 - i)), s_low = Fin (of_int (7 - i)), s_close = Fin (of_int (7 - i)), s_volume = Fin 1\<rparr>)
     [0, 1, 2, 3, 4]"
proof -
  let ?c = "register_bars_requirement (''BTC'', ''5m'') 2 (register_bars_requirement (''BTC'', ''1m'') 9 (new_cache 0))"
  have r: "reading (bar_at t x) = Some \<lparr>s_time = t, s_open = Fin (of_int x), s_high = Fin (of_int x),
      s_low = Fin (of_int x), s_close = Fin (of_int x), s_volume = Fin 1\<rparr>" if "0 < t" "t < 1000000" for t x
    using that by (simp add: reading_def bar_at_def slot_of_def candle_float_def dget_def int64_def)
  have c: "cache_inv ?c" "c_baseline ?c = []"
      "retained_bars (''BTC'', ''1m'') ?c = 9" "bars (''BTC'', ''1m'') ?c = []"
      "retained_bars (''BTC'', ''5m'') ?c = 2" "bars (''BTC'', ''5m'') ?c = []"
    by (simp_all add: register_bars_requirement_def register_data_requirement_def
        note_requirement_def new_cache_def cache_inv_def retained_bars_def bars_def dget_def Let_def)
  let ?feed = "map (\<lambda>i. (Fin 0, ''BTC'', ''1m'', bar_at (300000 + i * 60000) (7 - i))) [0, 1, 2, 3, 4]"
  have feed: "\<forall>i \<in> set ?feed. readable_item i" by (simp add: r)
  show "cache_inv five_minutes" "c_baseline five_minutes = []" "retained_bars (''BTC'', ''5m'') five_minutes = 2"
    unfolding five_minutes_def using feed_frame [OF c(1,2) feed] by (simp_all only: c(5))
  show "bars (''BTC'', ''5m'') five_minutes = []"
    unfolding five_minutes_def using feed
    by (subst feed_bars [OF c(1,2), where ys = "[]"]) (simp_all add: c max_capacity_def bars_for_def last_n_def)
  show "bars (''BTC'', ''1m'') five_minutes = map (\<lambda>i. \<lparr>s_time = 300000 + i * 60000, s_open = Fin (of_int (7 - i)),
     s_high = Fin (of_int (7 - i)), s_low = Fin (of_int (7 - i)), s_close = Fin (of_int (7 - i)), s_volume = Fin 1\<rparr>)
     [0, 1, 2, 3, 4]"
    unfolding five_minutes_def using feed
    by (subst feed_bars [OF c(1,2), where ys = "[]"]) (simp_all add: c r max_capacity_def bars_for_def last_n_def)
qed

theorem rollup_builds_bars_witness:
  "bars (''BTC'', ''5m'') (snd (rollup_symbol (Fin 9) ''5m'' 300000 ''BTC'' five_minutes)) =
     [\<lparr>s_time = 300000, s_open = Fin 7, s_high = Fin 7, s_low = Fin 3, s_close = Fin 3, s_volume = Fin 5\<rparr>]"
proof -
  note five = five_minutes_bars
  have b: "best_source_tf ''5m'' ''BTC'' five_minutes = Some ''1m''"
    using five(5) by (simp add: best_source_tf_def tf_order_def get_bar_count_bars)
  have t: "tf_ms_of ''1m'' = Some 60000" by (simp add: tf_ms_of_def)
  have "roll 300000 60000 (bars (''BTC'', ''1m'') five_minutes) =
      [\<lparr>s_time = 300000, s_open = Fin 7, s_high = Fin 7, s_low = Fin 3, s_close = Fin 3, s_volume = Fin 5\<rparr>]"
    unfolding five(5)
    by (simp add: roll_def buckets_def add_to_bucket_def bucket_start_def dget_def expected_times_def
        merged_bar_def py_max_def py_min_def keys_def Let_def fsum_def upt_rec)
  with rollup_builds_bars [OF five(1,2) _ _ _ b t, of 300000 "Fin 9"] five(3-5) show ?thesis
    by (simp add: max_capacity_def last_n_def)
qed

text \<open>
  Rolling up in two steps gives the bars of rolling up in one: from the bars of an intermediate
  time frame, which were themselves built from the finest, the same coarse bars are built as from
  the finest directly.
\<close>

theorem rollup_in_two_steps:
  assumes "ascending xs" and "list_all finite_slot xs" and "0 < src" and "0 < k" and "0 < n"
    and "m = int k * src"
  shows "roll (int n * m) m (roll m src xs) = roll (int n * m) src xs"
  using assms by (rule roll_roll)

theorem rollup_in_two_steps_witness:
  "roll (int 3 * 300000) 300000 (roll 300000 60000 (bars (''BTC'', ''1m'') five_minutes)) =
     roll (int 3 * 300000) 60000 (bars (''BTC'', ''1m'') five_minutes)"
  by (rule rollup_in_two_steps [where k = 5])
    (use bars_ascending [OF five_minutes_bars(1), of "(''BTC'', ''1m'')"]
      in \<open>simp_all add: five_minutes_bars(5) finite_slot_def\<close>)

end
