(* ===== verification/PortfolioCore.thy ===== *)
theory PortfolioCore
  imports Models
begin

text \<open>
  The pure part of the portfolio manager, \<^verbatim>\<open>portfolio_manager/core\<close>: target books
  (\<^verbatim>\<open>book.py\<close>), allocators (\<^verbatim>\<open>allocators.py\<close>), overlays (\<^verbatim>\<open>overlays.py\<close>), the blend of the
  sleeves' books (\<^verbatim>\<open>blend.py\<close>), the regime state (\<^verbatim>\<open>regime.py\<close>) and the cycle
  (\<^verbatim>\<open>engine.py\<close>).

  The store is a function from keys to texts, what \<open>redis.get\<close> returned at the time of the
  call.  A clock holds the current time, \<open>datetime.fromisoformat\<close> on texts and the offset of the
  local zone, which \<open>timestamp()\<close> uses for a naive datetime.
\<close>

type_synonym weights = "(string, pyfloat) dict"

section \<open>Target books\<close>

record target_book =
  k_sleeve_id :: string
  k_revision :: int
  k_generated_at :: string
  k_as_of :: int
  k_timeframe :: string
  k_gross :: pyfloat
  k_net :: pyfloat
  k_weights :: weights
  k_schema_version :: int
  k_meta :: "(string, json) dict"

record clock =
  ck_now :: real
  ck_iso :: "string \<Rightarrow> isotext"
  ck_zone :: "int \<Rightarrow> int"

text \<open>\<open>__post_init__\<close>.\<close>

definition valid_weight :: "string \<times> pyfloat \<Rightarrow> bool" where
  "valid_weight p \<longleftrightarrow> fst p \<noteq> '''' \<and> isfinite (snd p)"

definition check_book :: "target_book \<Rightarrow> target_book res" where
  "check_book b =
     (if k_sleeve_id b = '''' then Inl (ValueError ''sleeve_id is required'')
      else if k_revision b < 0 then Inl (ValueError ''revision must be non-negative'')
      else if k_as_of b < 0 then Inl (ValueError ''as_of_candle_ms must be non-negative'')
      else if k_timeframe b = '''' then Inl (ValueError ''timeframe is required'')
      else if \<not> list_all valid_weight (k_weights b) then Inl (ValueError ''invalid weight'')
      else if \<not> isfinite (k_gross b) \<or> k_gross b < Fin 0
           then Inl (ValueError ''gross must be finite and non-negative'')
      else if \<not> isfinite (k_net b) then Inl (ValueError ''net must be finite'')
      else Inr b)"

definition create_book ::
  "string \<Rightarrow> string \<Rightarrow> weights \<Rightarrow> int \<Rightarrow> int \<Rightarrow> string \<Rightarrow> (string, json) dict \<Rightarrow> target_book res" where
  "create_book sleeve_id timeframe ws revision as_of generated_at meta =
     (let clean = filter (\<lambda>(s, w). w \<noteq> Fin 0) ws
      in check_book
           \<lparr>k_sleeve_id = sleeve_id, k_revision = revision, k_generated_at = generated_at,
            k_as_of = as_of, k_timeframe = timeframe, k_gross = fsum (map (fabs \<circ> snd) clean),
            k_net = fsum (map snd clean), k_weights = clean, k_schema_version = 1, k_meta = meta\<rparr>)"

definition book_to_dict :: "target_book \<Rightarrow> (string, json) dict" where
  "book_to_dict b =
     [(''schema_version'', JInt (k_schema_version b)),
      (''sleeve_id'', JStr (k_sleeve_id b)),
      (''revision'', JInt (k_revision b)),
      (''generated_at'', JStr (k_generated_at b)),
      (''as_of_candle_ms'', JInt (k_as_of b)),
      (''timeframe'', JStr (k_timeframe b)),
      (''gross'', JNum (k_gross b)),
      (''net'', JNum (k_net b)),
      (''weights'', JObj (map (\<lambda>(s, w). (s, JNum w)) (k_weights b))),
      (''meta'', JObj (k_meta b))]"

text \<open>
  \<open>json.dumps(..., allow_nan=False)\<close> raises on a float that is not finite.  The keys of the text
  are sorted; two texts of the same object are not told apart here.
\<close>

fun json_finite :: "json \<Rightarrow> bool" where
  "json_finite (JNum x) = isfinite x"
| "json_finite (JArr xs) = list_all json_finite xs"
| "json_finite (JObj d) = list_all (\<lambda>p. json_finite (snd p)) d"
| "json_finite _ = True"

definition book_to_json :: "target_book \<Rightarrow> jtext res" where
  "book_to_json b =
     (let j = JObj (book_to_dict b)
      in if json_finite j then Inr (jdumps j)
         else Inl (ValueError ''Out of range float values are not JSON compliant''))"

text \<open>
  \<open>dict(v)\<close> of a parsed value: an object, or an array of pairs (an array of two elements, or a
  text of two characters).
\<close>

fun json_pair :: "json \<Rightarrow> (string \<times> json) res" where
  "json_pair (JArr [JArr k, v]) = Inl TypeError"
| "json_pair (JArr [JObj k, v]) = Inl TypeError"
| "json_pair (JArr [k, v]) = Inr (jstr k, v)"
| "json_pair (JStr [a, b]) = Inr ([a], JStr [b])"
| "json_pair (JArr xs) = Inl (ValueError ''dictionary update sequence element has wrong length'')"
| "json_pair (JStr s) = Inl (ValueError ''dictionary update sequence element has wrong length'')"
| "json_pair (JObj d) = (case d of
     [(k, v), (k', v')] \<Rightarrow> Inr (k, JStr k')
   | _ \<Rightarrow> Inl (ValueError ''dictionary update sequence element has wrong length''))"
| "json_pair _ = Inl TypeError"

fun json_dict :: "json \<Rightarrow> (string, json) dict res" where
  "json_dict (JObj d) = Inr d"
| "json_dict (JArr xs) = res_bind (res_map json_pair xs) (\<lambda>ps. Inr (dupdate [] ps))"
| "json_dict (JStr s) = (if s = '''' then Inr []
     else Inl (ValueError ''dictionary update sequence element has wrong length''))"
| "json_dict _ = Inl TypeError"

definition book_fields :: "string list" where
  "book_fields =
     [''sleeve_id'', ''revision'', ''generated_at'', ''as_of_candle_ms'', ''timeframe'', ''weights'']"

definition float_items :: "(string, json) dict \<Rightarrow> weights res" where
  "float_items d =
     res_bind (res_map (\<lambda>(s, v). res_bind (jfloat v) (\<lambda>w. Inr (s, w))) d) (\<lambda>ps. Inr (dupdate [] ps))"

definition book_from_dict :: "(string, json) dict \<Rightarrow> target_book res" where
  "book_from_dict raw =
     (if \<not> list_all (\<lambda>f. map_of raw f \<noteq> None) book_fields
      then Inl (ValueError ''target book missing fields'')
      else
        res_bind (res_bind (json_dict (dget raw ''weights'' JNull)) float_items) (\<lambda>ws.
        res_bind (jfloat (dget raw ''gross'' (JNum (fsum (map (fabs \<circ> snd) ws))))) (\<lambda>g.
        res_bind (jfloat (dget raw ''net'' (JNum (fsum (map snd ws))))) (\<lambda>n.
        res_bind (py_int (dget raw ''schema_version'' (JInt 1))) (\<lambda>version.
        res_bind (py_int (dget raw ''revision'' JNull)) (\<lambda>rev.
        res_bind (py_int (dget raw ''as_of_candle_ms'' JNull)) (\<lambda>as_of.
        res_bind (let m = dget raw ''meta'' JNull
                  in if json_truthy m then json_dict m else Inr []) (\<lambda>meta.
          check_book
            \<lparr>k_sleeve_id = jstr (dget raw ''sleeve_id'' JNull), k_revision = rev,
             k_generated_at = jstr (dget raw ''generated_at'' JNull), k_as_of = as_of,
             k_timeframe = jstr (dget raw ''timeframe'' JNull), k_gross = g, k_net = n,
             k_weights = ws, k_schema_version = version, k_meta = meta\<rparr>))))))))"

text \<open>\<open>from_json\<close>; a text that is not an object raises, one way or another.\<close>

definition book_from_json :: "jtext \<Rightarrow> target_book res" where
  "book_from_json t = res_bind (jloads t) (\<lambda>j. case j of
       JObj d \<Rightarrow> book_from_dict d
     | JArr xs \<Rightarrow> if list_all (\<lambda>f. JStr f \<in> set xs) book_fields then Inl TypeError
                  else Inl (ValueError ''target book missing fields'')
     | JStr s \<Rightarrow> Inl (ValueError ''target book missing fields'')
     | _ \<Rightarrow> Inl TypeError)"

definition epoch :: "clock \<Rightarrow> datetime \<Rightarrow> real" where
  "epoch ck d = (real_of_int (wall d) -
     real_of_int (case utcoff d of Some z \<Rightarrow> z | None \<Rightarrow> ck_zone ck (wall d))) / 1000000"

definition age_seconds :: "clock \<Rightarrow> target_book \<Rightarrow> real res" where
  "age_seconds ck b = res_bind (fromisoformat (ck_iso ck (k_generated_at b)))
     (\<lambda>d. Inr (max 0 (ck_now ck - epoch ck d)))"

definition is_stale :: "clock \<Rightarrow> pyfloat \<Rightarrow> target_book \<Rightarrow> bool res" where
  "is_stale ck max_staleness_sec b =
     res_bind (age_seconds ck b) (\<lambda>age. Inr (Fin age > max_staleness_sec))"

definition target_key :: "string \<Rightarrow> string" where
  "target_key sleeve_id = ''book:target:'' @ sleeve_id"

definition read_book :: "(string \<Rightarrow> jtext option) \<Rightarrow> string \<Rightarrow> target_book option res" where
  "read_book store sleeve_id = (case store (target_key sleeve_id) of
       None \<Rightarrow> Inr None
     | Some raw \<Rightarrow> res_bind (book_from_json raw) (\<lambda>b. Inr (Some b)))"

definition write_book :: "target_book \<Rightarrow> (string \<Rightarrow> jtext option) \<Rightarrow> (string \<Rightarrow> jtext option) res" where
  "write_book b store = res_bind (book_to_json b)
     (\<lambda>t. Inr (store(target_key (k_sleeve_id b) := Some t)))"

section \<open>Allocators\<close>

definition fixed_allocator :: "string list \<Rightarrow> weights \<Rightarrow> weights res" where
  "fixed_allocator sleeves configured =
     (if \<not> set (keys configured) \<subseteq> set sleeves
      then Inl (ValueError ''allocation contains unknown sleeves'')
      else
        (let result = map (\<lambda>s. (s, dget configured s (Fin 0))) (remdups sleeves);
             total = fsum (map snd result)
         in if list_ex (\<lambda>p. \<not> isfinite (snd p) \<or> snd p < Fin 0) result
            then Inl (ValueError ''allocation weights must be finite and non-negative'')
            else if \<not> fabs (total - Fin 1) \<le> Fin (1 / 10 ^ 9)
            then Inl (ValueError ''fixed allocation must sum to 1.0'')
            else Inr result))"

definition inverse_vol_allocator :: "weights \<Rightarrow> weights res" where
  "inverse_vol_allocator volatility =
     (let positive = filter (\<lambda>p. snd p > Fin 0) volatility
      in res_bind (res_map (\<lambda>(s, v). res_bind (fdiv (Fin 1) v) (\<lambda>i. Inr (s, i))) positive)
           (\<lambda>inverse.
             (let total = fsum (map snd inverse)
              in if total = Fin 0 then Inr []
                 else res_map (\<lambda>(s, i). res_bind (fdiv i total) (\<lambda>w. Inr (s, w))) inverse)))"

section \<open>Overlays\<close>

definition per_coin_cap :: "weights \<Rightarrow> pyfloat \<Rightarrow> weights res" where
  "per_coin_cap ws cap =
     (if \<not> isfinite cap \<or> cap < Fin 0
      then Inl (ValueError ''cap must be finite and non-negative'')
      else Inr (map (\<lambda>(s, w). (s, pymax (- cap) (pymin cap w))) (filter (\<lambda>(s, w). truthy w) ws)))"

definition gross_target :: "weights \<Rightarrow> pyfloat \<Rightarrow> weights res" where
  "gross_target ws target =
     (if target < Fin 0 \<or> \<not> isfinite target
      then Inl (ValueError ''target gross must be finite and non-negative'')
      else
        (let gross = fsum (map (fabs \<circ> snd) ws)
         in if gross = Fin 0 then Inr []
            else res_bind (fdiv target gross)
                   (\<lambda>factor. Inr (map (\<lambda>(s, w). (s, w * factor)) (filter (\<lambda>(s, w). truthy w) ws)))))"

text \<open>
  \<open>set(weights) | set(previous)\<close> is iterated in an order of Python's choice; here it is the
  order in which the symbols appear.
\<close>

definition ema_smooth :: "weights \<Rightarrow> weights \<Rightarrow> int \<Rightarrow> weights res" where
  "ema_smooth ws previous n =
     (if n < 1 then Inl (ValueError ''EMA span must be positive'')
      else if previous = [] then Inr (filter (\<lambda>(s, w). truthy w) ws)
      else
        (let alpha = Fin (2 / (real_of_int n + 1));
             mixed = (\<lambda>s. alpha * dget ws s (Fin 0) + (Fin 1 - alpha) * dget previous s (Fin 0))
         in Inr (map (\<lambda>s. (s, mixed s))
                  (filter (\<lambda>s. truthy (mixed s)) (remdups (keys ws @ keys previous))))))"

text \<open>The regime state: the empty dictionary, or what \<open>btc_trend_state\<close> returns.\<close>

datatype regime_state = NoSignal | Trend bool bool pyfloat

fun downtrend :: "regime_state \<Rightarrow> bool" where
  "downtrend NoSignal = False"
| "downtrend (Trend ready down r) = down"

definition regime_throttle :: "weights \<Rightarrow> regime_state \<Rightarrow> pyfloat \<Rightarrow> weights res" where
  "regime_throttle ws state downtrend_multiplier =
     (if \<not> (Fin 0 \<le> downtrend_multiplier \<and> downtrend_multiplier \<le> Fin 1)
      then Inl (ValueError ''downtrend_multiplier must be between 0 and 1'')
      else
        (let factor = (if downtrend state then downtrend_multiplier else Fin 1)
         in Inr (map (\<lambda>(s, w). (s, w * factor)) (filter (\<lambda>(s, w). truthy w) ws))))"

definition btc_trend_state :: "pyfloat list \<Rightarrow> int \<Rightarrow> pyfloat \<Rightarrow> regime_state res" where
  "btc_trend_state closes lookback threshold =
     (if lookback < 1 then Inl (ValueError ''lookback must be positive'')
      else if int (length closes) \<le> lookback then Inr (Trend False False (Fin 0))
      else
        (let start = closes ! (length closes - nat lookback - 1); stop = last closes
         in if start \<le> Fin 0 then Inl (ValueError ''BTC close must be positive'')
            else res_bind (fdiv stop start) (\<lambda>q.
              let trend_return = q - Fin 1 in Inr (Trend True (trend_return \<le> threshold) trend_return))))"

section \<open>The blend\<close>

record blend_result =
  baseline :: weights
  candidate :: weights
  active_sleeves :: "string list"
  stale_sleeves :: "string list"

definition add_book :: "pyfloat \<Rightarrow> weights \<Rightarrow> weights \<Rightarrow> weights" where
  "add_book allocation book out =
     fold (\<lambda>(s, w) out. dset s (dget out s (Fin 0) + allocation * w) out) book out"

text \<open>The loop over the sleeves; its state is the output, the active and the stale sleeves.\<close>

fun blend_sleeves ::
  "clock \<Rightarrow> (string, target_book option) dict \<Rightarrow> weights \<Rightarrow> weights \<Rightarrow>
     weights \<times> string list \<times> string list \<Rightarrow> (weights \<times> string list \<times> string list) res" where
  "blend_sleeves ck books max_staleness [] acc = Inr acc"
| "blend_sleeves ck books max_staleness ((sleeve, allocation) # rest) (out, active, stale) =
     (case map_of books sleeve of
        Some (Some book) \<Rightarrow>
          (case map_of max_staleness sleeve of
             None \<Rightarrow> Inl (KeyError sleeve)
           | Some limit \<Rightarrow>
               res_bind (is_stale ck limit book) (\<lambda>old.
                 if old
                 then blend_sleeves ck books max_staleness rest (out, active, stale @ [sleeve])
                 else blend_sleeves ck books max_staleness rest
                        (add_book allocation (k_weights book) out, active @ [sleeve], stale)))
      | _ \<Rightarrow> blend_sleeves ck books max_staleness rest (out, active, stale @ [sleeve]))"

definition blend_books ::
  "clock \<Rightarrow> (string, target_book option) dict \<Rightarrow> weights \<Rightarrow> weights \<Rightarrow>
     (weights \<times> string list \<times> string list) res" where
  "blend_books ck books allocations max_staleness =
     res_bind (fixed_allocator (keys allocations) allocations)
       (\<lambda>fixed. blend_sleeves ck books max_staleness fixed ([], [], []))"

definition build_blend_outputs ::
  "clock \<Rightarrow> (string, target_book option) dict \<Rightarrow> weights \<Rightarrow> weights \<Rightarrow> pyfloat \<Rightarrow> pyfloat \<Rightarrow>
     regime_state option \<Rightarrow> pyfloat \<Rightarrow> weights \<Rightarrow> int option \<Rightarrow> blend_result res" where
  "build_blend_outputs ck books allocations max_staleness cap gross regime multiplier previous ema_span =
     res_bind (blend_books ck books allocations max_staleness) (\<lambda>(blended, active, stale).
     res_bind (res_bind (per_coin_cap blended cap) (\<lambda>capped. gross_target capped gross)) (\<lambda>base.
     res_bind (case ema_span of
                 Some n \<Rightarrow> if base \<noteq> [] \<and> stale = [] then ema_smooth base previous n else Inr base
               | None \<Rightarrow> Inr base) (\<lambda>base.
     res_bind (case regime of
                 None \<Rightarrow> Inr base
               | Some state \<Rightarrow> regime_throttle base state multiplier) (\<lambda>cand.
       Inr \<lparr>baseline = base, candidate = cand, active_sleeves = active, stale_sleeves = stale\<rparr>))))"

section \<open>The engine\<close>

record sleeve_config =
  v_id :: string
  v_weight :: pyfloat
  v_max_staleness :: pyfloat
  v_on_stale :: string

definition sleeve_config_of :: "(string, json) dict \<Rightarrow> sleeve_config res" where
  "sleeve_config_of item =
     (case (map_of item ''id'', map_of item ''weight'', map_of item ''max_staleness_sec'') of
        (None, _, _) \<Rightarrow> Inl (KeyError ''id'')
      | (_, None, _) \<Rightarrow> Inl (KeyError ''weight'')
      | (Some i, Some w, m) \<Rightarrow>
          res_bind (jfloat w) (\<lambda>weight.
          (case m of
             None \<Rightarrow> Inl (KeyError ''max_staleness_sec'')
           | Some m \<Rightarrow> res_bind (jfloat m) (\<lambda>limit.
               (let on_stale = jstr (dget item ''on_stale'' (JStr ''drop_to_flat''))
                in if on_stale = ''drop_to_flat''
                   then Inr \<lparr>v_id = jstr i, v_weight = weight, v_max_staleness = limit,
                             v_on_stale = on_stale\<rparr>
                   else Inl (ValueError ''on_stale is not implemented''))))))"

record engine =
  n_sleeves :: "sleeve_config list"
  n_overlay :: "(string, json) dict"
  n_previous :: weights

definition new_engine :: "(string, json) dict list \<Rightarrow> (string, json) dict \<Rightarrow> engine res" where
  "new_engine sleeves overlay =
     res_bind (res_map sleeve_config_of sleeves)
       (\<lambda>vs. Inr \<lparr>n_sleeves = vs, n_overlay = overlay, n_previous = []\<rparr>)"

text \<open>\<open>{sleeve.sleeve_id: ... for sleeve in sleeves}\<close>: a later sleeve of the same name wins.\<close>

definition by_sleeve :: "(sleeve_config \<Rightarrow> 'a) \<Rightarrow> sleeve_config list \<Rightarrow> (string, 'a) dict" where
  "by_sleeve f vs = dupdate [] (map (\<lambda>v. (v_id v, f v)) vs)"

definition read_books ::
  "(string \<Rightarrow> jtext option) \<Rightarrow> sleeve_config list \<Rightarrow> (string, target_book option) dict res" where
  "read_books store vs =
     res_bind (res_map (\<lambda>v. res_bind (read_book store (v_id v)) (\<lambda>b. Inr (v_id v, b))) vs)
       (\<lambda>ps. Inr (dupdate [] ps))"

definition overlay_float :: "engine \<Rightarrow> string \<Rightarrow> pyfloat res" where
  "overlay_float e k = jfloat (dget (n_overlay e) k (JNum (Fin 1)))"

definition overlay_span :: "engine \<Rightarrow> int option res" where
  "overlay_span e = (case map_of (n_overlay e) ''ema_span'' of
       Some v \<Rightarrow> if json_truthy v then res_bind (py_int v) (\<lambda>n. Inr (Some n)) else Inr None
     | None \<Rightarrow> Inr None)"

definition engine_cycle ::
  "clock \<Rightarrow> (string \<Rightarrow> jtext option) \<Rightarrow> regime_state option \<Rightarrow> (engine, blend_result) eff" where
  "engine_cycle ck store regime = (\<lambda>e.
     bind (lift_res
       (res_bind (read_books store (n_sleeves e)) (\<lambda>books.
        res_bind (overlay_float e ''per_coin_cap'') (\<lambda>cap.
        res_bind (overlay_float e ''gross_target'') (\<lambda>gross.
        res_bind (overlay_float e ''downtrend_multiplier'') (\<lambda>multiplier.
        res_bind (overlay_span e) (\<lambda>ema_span.
          build_blend_outputs ck books (by_sleeve v_weight (n_sleeves e))
            (by_sleeve v_max_staleness (n_sleeves e)) cap gross regime multiplier
            (n_previous e) ema_span)))))))
       (\<lambda>result. bind (modify (\<lambda>e. e\<lparr>n_previous := baseline result\<rparr>)) (\<lambda>_. ret result)) e)"

end
