(* ===== verification/Portfolio.thy ===== *)
theory Portfolio
  imports PortfolioCore
begin

text \<open>
  What the portfolio manager's core computes: the weights each overlay leaves, the blend as a
  sum over the sleeves whose books are fresh, and the gross exposure over any number of cycles.
  \<open>weight_of\<close> reads a book as a function from symbols to real weights, \<open>gross_of\<close> its gross.
\<close>

section \<open>Books as functions\<close>

definition weight_of :: "weights \<Rightarrow> string \<Rightarrow> real" where
  "weight_of ws s = the_real (dget ws s (Fin 0))"

definition gross_of :: "weights \<Rightarrow> real" where
  "gross_of ws = (\<Sum>p \<leftarrow> ws. \<bar>the_real (snd p)\<bar>)"

definition finite_ws :: "weights \<Rightarrow> bool" where
  "finite_ws ws \<longleftrightarrow> dict_ok ws \<and> (\<forall>p \<in> set ws. isfinite (snd p))"

lemma finite_ws_Nil [simp]: "finite_ws []" and gross_Nil [simp]: "gross_of [] = 0"
  and weight_Nil [simp]: "weight_of [] s = 0"
  by (simp_all add: finite_ws_def gross_of_def weight_of_def dget_def)

lemma gross_nonneg [simp]: "0 \<le> gross_of ws"
  by (auto simp: gross_of_def intro!: sum_list_nonneg)

lemma Fin_the_real [simp]: "isfinite x \<Longrightarrow> Fin (the_real x) = x"
  by auto

lemma finite_map_of: "finite_ws ws \<Longrightarrow> map_of ws s = Some w \<Longrightarrow> w = Fin (weight_of ws s)"
  by (auto simp: finite_ws_def weight_of_def dget_def dest!: map_of_SomeD bspec)

lemma finite_dget: "finite_ws ws \<Longrightarrow> dget ws s (Fin 0) = Fin (weight_of ws s)"
  using finite_map_of [of ws s] by (cases "map_of ws s") (auto simp: dget_def weight_of_def)

lemma fsum_net: "finite_ws ws \<Longrightarrow> fsum (map snd ws) = Fin (\<Sum>p \<leftarrow> ws. the_real (snd p))"
  by (subst fsum_finite) (auto simp: finite_ws_def comp_def)

lemma fsum_gross: "finite_ws ws \<Longrightarrow> fsum (map (fabs \<circ> snd) ws) = Fin (gross_of ws)"
proof -
  assume ws: "finite_ws ws"
  then have "map (fabs \<circ> snd) ws = map (\<lambda>p. Fin \<bar>the_real (snd p)\<bar>) ws"
    by (auto simp: finite_ws_def isfinite_iff dest!: bspec)
  then have "fsum (map (fabs \<circ> snd) ws) = fsum (map (\<lambda>p. Fin \<bar>the_real (snd p)\<bar>) ws)" by (rule arg_cong)
  also have "\<dots> = Fin (gross_of ws)"
    by (subst fsum_finite) (auto simp: gross_of_def comp_def)
  finally show ?thesis .
qed

lemma gross_of_sum:
  assumes "finite_ws ws" and "finite S" and "fst ` set ws \<subseteq> S"
  shows "gross_of ws = (\<Sum>s \<in> S. \<bar>weight_of ws s\<bar>)"
proof -
  have d: "distinct (map fst ws)" using assms(1) by (simp add: finite_ws_def)
  have "gross_of ws = (\<Sum>p \<in> set ws. \<bar>the_real (snd p)\<bar>)"
    unfolding gross_of_def using d by (simp add: sum_list_distinct_conv_sum_set distinct_map)
  also have "\<dots> = (\<Sum>p \<in> set ws. \<bar>weight_of ws (fst p)\<bar>)"
    using d by (intro sum.cong) (auto simp: weight_of_def dget_def)
  also have "\<dots> = (\<Sum>s \<in> fst ` set ws. \<bar>weight_of ws s\<bar>)"
    using d by (subst sum.reindex) (auto simp: distinct_map)
  also have "\<dots> = (\<Sum>s \<in> S. \<bar>weight_of ws s\<bar>)"
    using assms by (intro sum.mono_neutral_left)
      (auto simp: weight_of_def dget_def map_of_eq_None_iff [THEN iffD2])
  finally show ?thesis .
qed

text \<open>An overlay that rescales each weight that is not zero.\<close>

definition rescale :: "(pyfloat \<Rightarrow> pyfloat) \<Rightarrow> weights \<Rightarrow> weights" where
  "rescale f ws = map (\<lambda>(s, w). (s, f w)) (filter (\<lambda>(s, w). truthy w) ws)"

lemma map_of_filter_snd:
  "dict_ok d \<Longrightarrow> map_of (filter (\<lambda>(s, w). P w) d) s =
     (case map_of d s of None \<Rightarrow> None | Some w \<Rightarrow> if P w then Some w else None)"
  by (induction d) (auto split: option.splits simp: map_of_eq_None_iff image_iff)

lemma rescale:
  assumes ws: "finite_ws ws" and f: "\<And>a. f (Fin a) = Fin (g a)"
  shows "finite_ws (rescale f ws)"
    and "weight_of (rescale f ws) s = (if weight_of ws s = 0 then 0 else g (weight_of ws s))"
proof -
  have d: "dict_ok ws" using ws by (simp add: finite_ws_def)
  have "map fst (rescale f ws) = map fst (filter (\<lambda>(s, w). truthy w) ws)"
    by (induction ws) (auto simp: rescale_def)
  moreover have "\<forall>p \<in> set (rescale f ws). isfinite (snd p)"
    using ws f by (fastforce simp: rescale_def finite_ws_def)
  ultimately show "finite_ws (rescale f ws)" using d by (simp add: finite_ws_def distinct_map_filter)
  have "map_of (rescale f ws) s = map_option f (map_of (filter (\<lambda>(s, w). truthy w) ws) s)"
    by (simp add: rescale_def map_of_map)
  also have "map_of (filter (\<lambda>(s, w). truthy w) ws) s =
      (case map_of ws s of None \<Rightarrow> None | Some w \<Rightarrow> if truthy w then Some w else None)"
    by (rule map_of_filter_snd [OF d])
  finally show "weight_of (rescale f ws) s = (if weight_of ws s = 0 then 0 else g (weight_of ws s))"
  proof (cases "map_of ws s")
    case (Some w)
    from finite_map_of [OF ws Some] obtain a where "w = Fin a" by blast
    with Some f show ?thesis
      using \<open>map_of (rescale f ws) s = _\<close> map_of_filter_snd [OF d, of truthy s]
      by (simp add: weight_of_def dget_def)
  qed (simp add: weight_of_def dget_def)
qed

lemma rescale_gross: "finite_ws ws \<Longrightarrow> gross_of (rescale (\<lambda>w. w * Fin c) ws) = \<bar>c\<bar> * gross_of ws"
proof -
  assume ws: "finite_ws ws"
  let ?S = "fst ` set ws"
  have "gross_of (rescale (\<lambda>w. w * Fin c) ws) = (\<Sum>s \<in> ?S. \<bar>weight_of (rescale (\<lambda>w. w * Fin c) ws) s\<bar>)"
    by (rule gross_of_sum [OF rescale(1) [OF ws]]) (force simp: rescale_def)+
  also have "\<dots> = (\<Sum>s \<in> ?S. \<bar>c\<bar> * \<bar>weight_of ws s\<bar>)"
    using rescale(2) [OF ws, of "\<lambda>w. w * Fin c" "\<lambda>a. a * c"] by (intro sum.cong) (auto simp: abs_mult)
  also have "\<dots> = \<bar>c\<bar> * gross_of ws"
    using gross_of_sum [OF ws, of ?S] by (simp add: sum_distrib_left)
  finally show ?thesis .
qed

section \<open>The overlays\<close>

lemma per_coin_cap:
  assumes "per_coin_cap ws cap = Inr out" and "finite_ws ws"
  obtains c where "cap = Fin c" "0 \<le> c" "finite_ws out"
    "\<And>s. weight_of out s = max (- c) (min c (weight_of ws s))" "out = [] \<longleftrightarrow> (\<forall>s. weight_of ws s = 0)"
proof -
  from assms(1) obtain c where c: "cap = Fin c" "0 \<le> c"
    and out: "out = rescale (\<lambda>w. pymax (- cap) (pymin cap w)) ws"
    by (auto simp: per_coin_cap_def rescale_def isfinite_iff split: if_splits)
  have f: "pymax (- cap) (pymin cap (Fin a)) = Fin (max (- c) (min c a))" for a
    by (simp add: c)
  have "weight_of out s = max (- c) (min c (weight_of ws s))" for s
    using rescale(2) [OF assms(2), of "\<lambda>w. pymax (- cap) (pymin cap w)" "\<lambda>a. max (- c) (min c a)" s] f c(2)
    by (auto simp: out)
  moreover have "out = [] \<longleftrightarrow> (\<forall>s. weight_of ws s = 0)"
  proof -
    have "out = [] \<longleftrightarrow> (\<forall>p \<in> set ws. \<not> truthy (snd p))"
      by (auto simp: out rescale_def filter_empty_conv)
    also have "\<dots> \<longleftrightarrow> (\<forall>s. weight_of ws s = 0)"
      using assms(2) by (auto simp: finite_ws_def weight_of_def dget_def truthy_def
          dest!: map_of_SomeD split: option.splits) (metis map_of_is_SomeI fst_conv snd_conv the_real.simps(1) isfinite_iff)+
    finally show ?thesis .
  qed
  ultimately show thesis
    using that c rescale(1) [OF assms(2), of "\<lambda>w. pymax (- cap) (pymin cap w)" "\<lambda>a. max (- c) (min c a)"] f
    by (simp add: out)
qed

lemma gross_target:
  assumes "gross_target ws target = Inr out" and "finite_ws ws"
  obtains t where "target = Fin t" "0 \<le> t" "finite_ws out"
    "gross_of ws = 0 \<Longrightarrow> out = []"
    "gross_of ws \<noteq> 0 \<Longrightarrow> gross_of out = t"
    "\<And>s. gross_of ws \<noteq> 0 \<Longrightarrow> weight_of out s = weight_of ws s * (t / gross_of ws)"
proof -
  from assms(1) obtain t where t: "target = Fin t" "0 \<le> t"
    by (auto simp: gross_target_def isfinite_iff split: if_splits)
  have out: "out = (if gross_of ws = 0 then [] else rescale (\<lambda>w. w * Fin (t / gross_of ws)) ws)"
    using assms t by (auto simp: gross_target_def fsum_gross rescale_def Let_def split: if_splits)
  show thesis
  proof (rule that [OF t])
    show "finite_ws out"
      using rescale(1) [OF assms(2), of "\<lambda>w. w * Fin (t / gross_of ws)" "\<lambda>a. a * (t / gross_of ws)"]
      by (simp add: out)
    show "gross_of out = t" if "gross_of ws \<noteq> 0"
      using rescale_gross [OF assms(2)] that t(2) by (simp add: out)
    show "weight_of out s = weight_of ws s * (t / gross_of ws)" if "gross_of ws \<noteq> 0" for s
      using rescale(2) [OF assms(2), of "\<lambda>w. w * Fin (t / gross_of ws)" "\<lambda>a. a * (t / gross_of ws)"] that
      by (simp add: out)
  qed (simp add: out)
qed

lemma regime_throttle:
  assumes "regime_throttle ws state m = Inr out" and "finite_ws ws"
  obtains c where "m = Fin c" "0 \<le> c" "c \<le> 1" "finite_ws out"
    "\<And>s. weight_of out s = weight_of ws s * (if downtrend state then c else 1)"
    "gross_of out = (if downtrend state then c else 1) * gross_of ws"
proof -
  from assms(1) obtain c where c: "m = Fin c" "0 \<le> c" "c \<le> 1"
    by (cases m) (auto simp: regime_throttle_def split: if_splits)
  let ?c = "if downtrend state then c else 1"
  have out: "out = rescale (\<lambda>w. w * Fin ?c) ws"
    using assms(1) c by (cases "downtrend state") (auto simp: regime_throttle_def rescale_def)
  show thesis
    using that [OF c] rescale [OF assms(2), of "\<lambda>w. w * Fin ?c" "\<lambda>a. a * ?c"]
      rescale_gross [OF assms(2), of ?c] c(2) by (auto simp: out)
qed

lemma ema_smooth:
  assumes "ema_smooth ws previous n = Inr out" and "finite_ws ws" "finite_ws previous" "previous \<noteq> []"
  shows "finite_ws out" "1 \<le> n"
    "weight_of out s = 2 / (n + 1) * weight_of ws s + (1 - 2 / (n + 1)) * weight_of previous s"
proof -
  let ?a = "2 / (real_of_int n + 1)"
  let ?m = "\<lambda>s. ?a * weight_of ws s + (1 - ?a) * weight_of previous s"
  from assms(1) show "1 \<le> n" by (auto simp: ema_smooth_def split: if_splits)
  have out: "out = map (\<lambda>s. (s, Fin (?m s))) (filter (\<lambda>s. ?m s \<noteq> 0) (remdups (keys ws @ keys previous)))"
    using assms by (auto simp: ema_smooth_def finite_dget Let_def split: if_splits)
  show "finite_ws out" by (auto simp: out finite_ws_def comp_def)
  show "weight_of out s = ?m s"
  proof (cases "?m s = 0 \<or> s \<notin> set (keys ws @ keys previous)")
    case True
    then have "map_of out s = None" by (auto simp: out map_of_eq_None_iff)
    moreover have "?m s = 0"
      using True by (auto simp: keys_def weight_of_def dget_def map_of_eq_None_iff [THEN iffD2])
    ultimately show ?thesis by (simp add: weight_of_def dget_def)
  next
    case False
    then have "map_of out s = Some (Fin (?m s))"
      by (simp add: out map_of_map_restrict restrict_map_def)
    then show ?thesis by (simp add: weight_of_def dget_def)
  qed
qed

section \<open>Books in the store\<close>

lemma dupdate_append: "dict_ok (d @ e) \<Longrightarrow> dupdate d e = d @ e"
proof (induction e arbitrary: d)
  case (Cons p e)
  obtain k v where p: "p = (k, v)" by fastforce
  with Cons.prems have "dset k v d = d @ [(k, v)]" by (intro dset_fresh) (auto simp: keys_def)
  with p Cons.IH [of "d @ [(k, v)]"] Cons.prems show ?case by simp
qed simp

lemma check_book_Inr: "check_book b = Inr b' \<Longrightarrow> b' = b \<and> list_all valid_weight (k_weights b)"
  by (auto simp: check_book_def split: if_splits)

lemma float_items_ok: "float_items d = Inr ws \<Longrightarrow> dict_ok ws"
  by (auto simp: float_items_def res_bind_Inr_iff)

text \<open>Whatever the store holds, a book that is read has finite weights.\<close>

lemma book_from_json_finite:
  assumes "book_from_json t = Inr b"
  shows "finite_ws (k_weights b)"
proof -
  from assms obtain j where "jloads t = Inr j" by (auto simp: book_from_json_def res_bind_Inr_iff)
  with assms obtain d where "book_from_dict d = Inr b"
    by (cases j) (auto simp: book_from_json_def split: if_splits)
  then have "dict_ok (k_weights b) \<and> list_all valid_weight (k_weights b)"
    by (auto simp: book_from_dict_def res_bind_Inr_iff split: if_splits
        dest!: check_book_Inr float_items_ok)
  then show ?thesis by (auto simp: finite_ws_def list_all_iff valid_weight_def)
qed

lemma read_book_finite: "read_book store s = Inr (Some b) \<Longrightarrow> finite_ws (k_weights b)"
  by (auto simp: read_book_def res_bind_Inr_iff split: option.splits intro: book_from_json_finite)

lemma res_map_floats: "res_map (\<lambda>(s, v). res_bind (jfloat v) (\<lambda>w. Inr (s, w))) (map (\<lambda>(s, w). (s, JNum w)) ws) = Inr ws"
  by (induction ws) auto

text \<open>A valid book survives the store.\<close>

lemma book_roundtrip:
  assumes "check_book b = Inr b" and "dict_ok (k_weights b)"
    and "list_all (\<lambda>p. json_finite (snd p)) (k_meta b)"
  shows "\<exists>t. book_to_json b = Inr t \<and> book_from_json t = Inr b"
proof -
  have fin: "list_all valid_weight (k_weights b)" "isfinite (k_gross b)" "isfinite (k_net b)"
    using assms(1) by (auto simp: check_book_def split: if_splits)
  then have "json_finite (JObj (book_to_dict b))"
    using assms(3) by (auto simp: book_to_dict_def list_all_iff valid_weight_def)
  then have written: "book_to_json b = Inr (jdumps (JObj (book_to_dict b)))"
    by (simp add: book_to_json_def Let_def del: json_finite.simps)
  have "float_items (map (\<lambda>(s, w). (s, JNum w)) (k_weights b)) = Inr (k_weights b)"
    using assms(2) dupdate_append [of "[]" "k_weights b"] by (simp add: float_items_def res_map_floats)
  moreover have "\<lparr>k_sleeve_id = k_sleeve_id b, k_revision = k_revision b,
      k_generated_at = k_generated_at b, k_as_of = k_as_of b, k_timeframe = k_timeframe b,
      k_gross = k_gross b, k_net = k_net b, k_weights = k_weights b,
      k_schema_version = k_schema_version b, k_meta = k_meta b\<rparr> = b" by simp
  with assms(1) have "check_book \<lparr>k_sleeve_id = k_sleeve_id b, k_revision = k_revision b,
      k_generated_at = k_generated_at b, k_as_of = k_as_of b, k_timeframe = k_timeframe b,
      k_gross = k_gross b, k_net = k_net b, k_weights = k_weights b,
      k_schema_version = k_schema_version b, k_meta = k_meta b\<rparr> = Inr b" by presburger
  moreover have "(if json_truthy (JObj m) then json_dict (JObj m) else Inr []) = Inr m" for m by simp
  ultimately have "book_from_dict (book_to_dict b) = Inr b"
    by (simp add: book_from_dict_def book_to_dict_def book_fields_def dget_def)
  then have "book_from_json (jdumps (JObj (book_to_dict b))) = Inr b"
    by (simp add: book_from_json_def)
  with written show ?thesis by blast
qed

section \<open>The blend\<close>

lemma add_book:
  assumes "finite_ws book" and "finite_ws out"
  shows "finite_ws (add_book (Fin a) book out)"
    and "weight_of (add_book (Fin a) book out) s = weight_of out s + a * weight_of book s"
proof -
  have "finite_ws (add_book (Fin a) book out) \<and>
      weight_of (add_book (Fin a) book out) s = weight_of out s + a * weight_of book s"
    using assms
  proof (induction book arbitrary: out)
    case Nil
    then show ?case by (simp add: add_book_def)
  next
    case (Cons p book)
    obtain k w where p: "p = (k, Fin w)" using Cons.prems(1) by (cases p) (auto simp: finite_ws_def)
    let ?out = "dset k (Fin (weight_of out k + a * w)) out"
    have fin: "finite_ws book" using Cons.prems(1) by (simp add: finite_ws_def)
    have "set (dset k v d) \<subseteq> insert (k, v) (set d)" for v and d :: weights
      by (induction d) (auto split: if_splits)
    then have out: "finite_ws ?out"
      using Cons.prems(2) by (fastforce simp: finite_ws_def)
    have "weight_of ?out s = (if s = k then weight_of out k + a * w else weight_of out s)"
      by (simp add: weight_of_def dget_def)
    moreover have "weight_of (p # book) s = (if s = k then w else weight_of book s)"
      by (simp add: weight_of_def dget_def p)
    moreover have "weight_of book k = 0"
      using Cons.prems(1) by (simp add: p finite_ws_def weight_of_def dget_def map_of_eq_None_iff [THEN iffD2])
    moreover have "add_book (Fin a) (p # book) out = add_book (Fin a) book ?out"
      by (simp add: add_book_def p finite_dget [OF Cons.prems(2)])
    ultimately show ?case using Cons.IH [OF fin out] by auto
  qed
  then show "finite_ws (add_book (Fin a) book out)"
    "weight_of (add_book (Fin a) book out) s = weight_of out s + a * weight_of book s" by blast+
qed

text \<open>A sleeve takes part in the blend when its book is there and is not older than its limit.\<close>

definition fresh :: "clock \<Rightarrow> (string, target_book option) dict \<Rightarrow> weights \<Rightarrow> string \<Rightarrow> bool" where
  "fresh ck books max_staleness sleeve = (case map_of books sleeve of
       Some (Some book) \<Rightarrow> (case map_of max_staleness sleeve of
           Some limit \<Rightarrow> is_stale ck limit book = Inr False | None \<Rightarrow> False)
     | _ \<Rightarrow> False)"

definition book_weight :: "(string, target_book option) dict \<Rightarrow> string \<Rightarrow> string \<Rightarrow> real" where
  "book_weight books sleeve s = (case map_of books sleeve of
       Some (Some book) \<Rightarrow> weight_of (k_weights book) s | _ \<Rightarrow> 0)"

definition books_finite :: "(string, target_book option) dict \<Rightarrow> bool" where
  "books_finite books \<longleftrightarrow> (\<forall>s b. map_of books s = Some (Some b) \<longrightarrow> finite_ws (k_weights b))"

lemma blend_sleeves:
  assumes "blend_sleeves ck books limits fixed (out, active, stale) = Inr (out', active', stale')"
    and "books_finite books" and "\<forall>p \<in> set fixed. isfinite (snd p)" and "finite_ws out"
  shows "finite_ws out' \<and>
    active' = active @ filter (fresh ck books limits) (map fst fixed) \<and>
    stale' = stale @ filter (\<lambda>s. \<not> fresh ck books limits s) (map fst fixed) \<and>
    weight_of out' x = weight_of out x +
      (\<Sum>(s, a) \<leftarrow> filter (\<lambda>p. fresh ck books limits (fst p)) fixed. the_real a * book_weight books s x)"
  using assms
proof (induction fixed arbitrary: out active stale)
  case Nil
  then show ?case by simp
next
  case (Cons p fixed)
  obtain s a where p: "p = (s, Fin a)" using Cons.prems(3) by (cases p) auto
  have fixed: "\<forall>p \<in> set fixed. isfinite (snd p)" using Cons.prems(3) by simp
  show ?case
  proof (cases "fresh ck books limits s")
    case True
    then obtain b limit where b: "map_of books s = Some (Some b)" "map_of limits s = Some limit"
        "is_stale ck limit b = Inr False" by (auto simp: fresh_def split: option.splits)
    then have fin: "finite_ws (k_weights b)" using Cons.prems(2) by (simp add: books_finite_def)
    have "blend_sleeves ck books limits fixed
        (add_book (Fin a) (k_weights b) out, active @ [s], stale) = Inr (out', active', stale')"
      using Cons.prems(1) b by (simp add: p)
    from Cons.IH [OF this Cons.prems(2) fixed add_book(1) [OF fin Cons.prems(4)]]
    show ?thesis
      using True b add_book(2) [OF fin Cons.prems(4), of a x] by (simp add: p book_weight_def)
  next
    case False
    have "blend_sleeves ck books limits fixed (out, active, stale @ [s]) = Inr (out', active', stale')"
      using Cons.prems(1) False
      by (auto simp: p fresh_def res_bind_Inr_iff split: option.splits if_splits)
    from Cons.IH [OF this Cons.prems(2) fixed Cons.prems(4)] False show ?thesis by (simp add: p)
  qed
qed

lemma fixed_allocator_keys:
  assumes "fixed_allocator (keys ws) ws = Inr out" and "dict_ok ws"
  shows "out = ws" "\<forall>p \<in> set ws. isfinite (snd p) \<and> \<not> snd p < Fin 0"
    "fabs (fsum (map snd ws) - Fin 1) \<le> Fin (1 / 10 ^ 9)"
proof -
  have "map (\<lambda>s. (s, dget ws s (Fin 0))) (remdups (keys ws)) = ws"
    using assms(2) by (auto simp: keys_def distinct_remdups_id dget_def intro!: map_idI)
  then show "out = ws" "\<forall>p \<in> set ws. isfinite (snd p) \<and> \<not> snd p < Fin 0"
    "fabs (fsum (map snd ws) - Fin 1) \<le> Fin (1 / 10 ^ 9)"
    using assms(1) by (auto simp: fixed_allocator_def Let_def list_ex_iff split: if_splits)
qed

lemma blend_books:
  assumes "blend_books ck books allocs limits = Inr (out, active, stale)"
    and "books_finite books" and "dict_ok allocs"
  shows "finite_ws out"
    and "active = filter (fresh ck books limits) (keys allocs)"
    and "stale = filter (\<lambda>s. \<not> fresh ck books limits s) (keys allocs)"
    and "weight_of out x = (\<Sum>s \<leftarrow> active. weight_of allocs s * book_weight books s x)"
proof -
  from assms obtain fixed where f: "fixed_allocator (keys allocs) allocs = Inr fixed"
    and b: "blend_sleeves ck books limits fixed ([], [], []) = Inr (out, active, stale)"
    by (auto simp: blend_books_def res_bind_Inr_iff)
  note f = fixed_allocator_keys [OF f assms(3)]
  have r: "finite_ws out \<and> active = filter (fresh ck books limits) (map fst allocs) \<and>
    stale = filter (\<lambda>s. \<not> fresh ck books limits s) (map fst allocs) \<and>
    weight_of out x =
      (\<Sum>(s, a) \<leftarrow> filter (\<lambda>p. fresh ck books limits (fst p)) allocs. the_real a * book_weight books s x)"
    using blend_sleeves [OF b assms(2), of x] f(1,2) by simp
  then show "finite_ws out" "active = filter (fresh ck books limits) (keys allocs)"
    "stale = filter (\<lambda>s. \<not> fresh ck books limits s) (keys allocs)"
    by (simp_all add: keys_def)
  have eq: "map (\<lambda>(s, a). the_real a * book_weight books s x)
          (filter (\<lambda>p. fresh ck books limits (fst p)) allocs) =
        map (\<lambda>s. weight_of allocs s * book_weight books s x)
          (map fst (filter (\<lambda>p. fresh ck books limits (fst p)) allocs))"
    using assms(3) by (auto simp: weight_of_def dget_def)
  have active: "active = map fst (filter (\<lambda>p. fresh ck books limits (fst p)) allocs)"
    using r by (simp add: filter_map comp_def)
  show "weight_of out x = (\<Sum>s \<leftarrow> active. weight_of allocs s * book_weight books s x)"
    unfolding active using r eq by presburger
qed

section \<open>The outputs of a cycle\<close>

text \<open>Smoothing mixes two books of at most the target gross into one of at most the target gross.\<close>

lemma ema_gross:
  assumes "ema_smooth ws previous n = Inr out" and "finite_ws ws" "finite_ws previous"
    and "gross_of ws \<le> g" "gross_of previous \<le> g"
  shows "finite_ws out \<and> gross_of out \<le> g"
proof (cases "previous = []")
  case True
  then have "out = rescale (\<lambda>w. w * Fin 1) ws" if "finite_ws ws"
    using assms(1) that
    by (force simp: ema_smooth_def rescale_def finite_ws_def isfinite_iff intro!: map_idI [symmetric] split: if_splits)
  then show ?thesis
    using assms(2,4) rescale(1) [OF assms(2), of "\<lambda>w. w * Fin 1" "\<lambda>a. a * 1"]
      rescale_gross [OF assms(2), of 1] by simp
next
  case False
  note e = ema_smooth [OF assms(1-3) False]
  let ?a = "2 / (real_of_int n + 1)"
  let ?S = "fst ` set ws \<union> fst ` set previous \<union> fst ` set out"
  have a: "0 \<le> ?a" "?a \<le> 1" using e(2) by (simp_all add: divide_le_eq)
  have "gross_of out = (\<Sum>s \<in> ?S. \<bar>weight_of out s\<bar>)"
    by (rule gross_of_sum [OF e(1)]) auto
  also have "\<dots> \<le> (\<Sum>s \<in> ?S. ?a * \<bar>weight_of ws s\<bar> + (1 - ?a) * \<bar>weight_of previous s\<bar>)"
  proof (rule sum_mono)
    fix s
    have "\<bar>weight_of out s\<bar> \<le> \<bar>?a * weight_of ws s\<bar> + \<bar>(1 - ?a) * weight_of previous s\<bar>"
      by (simp only: e(3) abs_triangle_ineq)
    also have "\<dots> = ?a * \<bar>weight_of ws s\<bar> + (1 - ?a) * \<bar>weight_of previous s\<bar>"
      using a by (simp only: abs_mult abs_of_nonneg diff_ge_0_iff_ge)
    finally show "\<bar>weight_of out s\<bar> \<le> ?a * \<bar>weight_of ws s\<bar> + (1 - ?a) * \<bar>weight_of previous s\<bar>" .
  qed
  also have "\<dots> = ?a * gross_of ws + (1 - ?a) * gross_of previous"
  proof -
    have "fst ` set ws \<subseteq> ?S" "fst ` set previous \<subseteq> ?S" by auto
    with gross_of_sum [OF assms(2), of ?S] gross_of_sum [OF assms(3), of ?S] show ?thesis
      by (simp only: sum.distrib sum_distrib_left finite_Un finite_imageI finite_set simp_thms)
  qed
  also have "\<dots> \<le> ?a * g + (1 - ?a) * g"
    using a assms(4,5) by (intro add_mono mult_left_mono) auto
  also have "\<dots> = g" by (simp add: left_diff_distrib)
  finally show ?thesis using e(1) by simp
qed

lemma build_blend_outputs:
  assumes "build_blend_outputs ck books allocs limits cap (Fin g) regime m previous n = Inr r"
    and "books_finite books" and "dict_ok allocs"
    and "finite_ws previous" and "gross_of previous \<le> g"
  shows "finite_ws (baseline r)" "gross_of (baseline r) \<le> g"
    "finite_ws (candidate r)" "gross_of (candidate r) \<le> gross_of (baseline r)"
    "n = None \<or> stale_sleeves r \<noteq> [] \<Longrightarrow> baseline r = [] \<or> gross_of (baseline r) = g"
proof -
  obtain blended active stale capped base base' cand where
      b: "blend_books ck books allocs limits = Inr (blended, active, stale)"
    and c: "per_coin_cap blended cap = Inr capped" and t: "gross_target capped (Fin g) = Inr base"
    and e: "(case n of Some n \<Rightarrow> if base \<noteq> [] \<and> stale = [] then ema_smooth base previous n else Inr base
               | None \<Rightarrow> Inr base) = Inr base'"
    and k: "(case regime of None \<Rightarrow> Inr base' | Some state \<Rightarrow> regime_throttle base' state m) = Inr cand"
    and r: "r = \<lparr>baseline = base', candidate = cand, active_sleeves = active, stale_sleeves = stale\<rparr>"
    using assms(1) by (auto simp: build_blend_outputs_def res_bind_Inr_iff)
  have "finite_ws blended" by (rule blend_books(1) [OF b assms(2,3)])
  with c have "finite_ws capped" by (auto elim: per_coin_cap)
  with t have base: "finite_ws base" "gross_of base \<le> g" "base = [] \<or> gross_of base = g"
    by (auto elim!: gross_target)
  have base': "finite_ws base' \<and> gross_of base' \<le> g"
    using e base ema_gross [OF _ base(1) assms(4) base(2) assms(5)]
    by (auto split: option.splits if_splits)
  show "finite_ws (baseline r)" "gross_of (baseline r) \<le> g" using base' by (simp_all add: r)
  show "n = None \<or> stale_sleeves r \<noteq> [] \<Longrightarrow> baseline r = [] \<or> gross_of (baseline r) = g"
    using e base(3) by (auto simp: r split: option.splits if_splits)
  have "finite_ws cand \<and> gross_of cand \<le> gross_of base'"
  proof (cases regime)
    case None
    with k base' show ?thesis by simp
  next
    case (Some state)
    with k have "regime_throttle base' state m = Inr cand" by simp
    then obtain q where "0 \<le> q" "q \<le> 1" "finite_ws cand"
        "gross_of cand = (if downtrend state then q else 1) * gross_of base'"
      using regime_throttle base' by metis
    then show ?thesis by (auto simp: mult_left_le_one_le)
  qed
  then show "finite_ws (candidate r)" "gross_of (candidate r) \<le> gross_of (baseline r)"
    by (simp_all add: r)
qed

text \<open>
  The cap is applied before the gross target, which scales every weight by the same factor.  A
  book of one symbol ends at the target gross, whatever the cap.
\<close>

lemma capped_then_scaled:
  assumes "finite_ws ws" and "per_coin_cap ws (Fin c) = Inr capped"
    and "gross_target capped (Fin g) = Inr out" and "gross_of capped \<noteq> 0"
  shows "weight_of out s = max (- c) (min c (weight_of ws s)) * (g / gross_of capped)"
proof -
  have capped: "finite_ws capped" "weight_of capped s = max (- c) (min c (weight_of ws s))"
    using assms(1,2) by (auto elim: per_coin_cap)
  with assms(3,4) show ?thesis by (auto elim: gross_target)
qed

section \<open>Any number of cycles\<close>

lemma read_books_finite:
  assumes "read_books store vs = Inr books"
  shows "books_finite books"
proof -
  from assms obtain ps where
    ps: "res_map (\<lambda>v. res_bind (read_book store (v_id v)) (\<lambda>b. Inr (v_id v, b))) vs = Inr ps"
    and books: "books = dupdate [] ps" by (auto simp: read_books_def res_bind_Inr_iff)
  have "\<forall>(s, b) \<in> set ps. read_book store s = Inr b"
    using ps by (induction vs arbitrary: ps) (auto simp: res_bind_Inr_iff)
  moreover have "set (dupdate d e) \<subseteq> set d \<union> set e" for d e :: "(string, target_book option) dict"
  proof (induction e arbitrary: d)
    case (Cons p e)
    obtain k v where "p = (k, v)" by fastforce
    moreover have "set (dset k v d) \<subseteq> insert (k, v) (set d)" by (induction d) (auto split: if_splits)
    ultimately show ?case using Cons.IH [of "dset k v d"] by auto
  qed simp
  ultimately have "\<forall>(s, b) \<in> set books. read_book store s = Inr b" unfolding books by fastforce
  then show ?thesis
    by (auto simp: books_finite_def dest!: map_of_SomeD intro: read_book_finite)
qed

lemma dict_ok_by_sleeve [simp]: "dict_ok (by_sleeve f vs)"
  by (simp add: by_sleeve_def)

definition engine_inv :: "real \<Rightarrow> engine \<Rightarrow> bool" where
  "engine_inv g e \<longleftrightarrow> overlay_float e ''gross_target'' = Inr (Fin g) \<and>
     finite_ws (n_previous e) \<and> gross_of (n_previous e) \<le> g"

lemma engine_cycle_inv:
  assumes inv: "engine_inv g e" and c: "engine_cycle ck store regime e = (r, e')"
  shows "engine_inv g e'"
    and "r = Inr out \<Longrightarrow> finite_ws (baseline out) \<and> finite_ws (candidate out) \<and>
      gross_of (candidate out) \<le> gross_of (baseline out) \<and> gross_of (baseline out) \<le> g"
proof -
  have "engine_inv g e' \<and> (\<forall>out. r = Inr out \<longrightarrow> finite_ws (baseline out) \<and> finite_ws (candidate out) \<and>
      gross_of (candidate out) \<le> gross_of (baseline out) \<and> gross_of (baseline out) \<le> g)"
  proof (cases r)
    case (Inl x)
    with c have "e' = e" by (auto simp: engine_cycle_def bind_def split: sum.splits)
    with inv Inl show ?thesis by simp
  next
    case (Inr out)
    with c obtain books cap m n where
        b: "read_books store (n_sleeves e) = Inr books"
      and o': "build_blend_outputs ck books (by_sleeve v_weight (n_sleeves e))
            (by_sleeve v_max_staleness (n_sleeves e)) cap (Fin g) regime m (n_previous e) n = Inr out"
      and e': "e' = e\<lparr>n_previous := baseline out\<rparr>"
      using inv by (auto simp: engine_cycle_def bind_def res_bind_Inr_iff engine_inv_def split: sum.splits)
    have prev: "finite_ws (n_previous e)" "gross_of (n_previous e) \<le> g"
      using inv by (simp_all add: engine_inv_def)
    note out = build_blend_outputs [OF o' read_books_finite [OF b] dict_ok_by_sleeve prev]
    then show ?thesis
      using Inr inv e' by (simp add: engine_inv_def overlay_float_def)
  qed
  then show "engine_inv g e'" "r = Inr out \<Longrightarrow> finite_ws (baseline out) \<and> finite_ws (candidate out) \<and>
      gross_of (candidate out) \<le> gross_of (baseline out) \<and> gross_of (baseline out) \<le> g" by blast+
qed

text \<open>The results of a sequence of cycles, each with its own clock, store and regime.\<close>

type_synonym cycle_input = "clock \<times> (string \<Rightarrow> jtext option) \<times> regime_state option"

fun run_cycles :: "cycle_input list \<Rightarrow> engine \<Rightarrow> blend_result list \<times> engine" where
  "run_cycles [] e = ([], e)"
| "run_cycles ((ck, store, regime) # is) e =
     (case engine_cycle ck store regime e of
        (Inl x, e') \<Rightarrow> run_cycles is e'
      | (Inr out, e') \<Rightarrow> (let (outs, e'') = run_cycles is e' in (out # outs, e'')))"

lemma run_cycles_gross:
  assumes "engine_inv g e"
  shows "\<forall>out \<in> set (fst (run_cycles is e)).
    gross_of (candidate out) \<le> gross_of (baseline out) \<and> gross_of (baseline out) \<le> g"
  using assms
proof (induction "is" e rule: run_cycles.induct)
  case (2 ck store regime "is" e)
  obtain r e' where c: "engine_cycle ck store regime e = (r, e')" by fastforce
  note inv = engine_cycle_inv [OF 2(3) c]
  show ?case
  proof (cases r)
    case (Inl x)
    then show ?thesis using 2(1) [OF c [symmetric] Inl inv(1)] c by simp
  next
    case (Inr out)
    then show ?thesis using 2(2) [OF c [symmetric] Inr inv(1)] c inv(2) [OF Inr]
      by (auto simp: Let_def split: prod.splits)
  qed
qed simp

lemma new_engine_inv:
  assumes "new_engine sleeves overlay = Inr e" and "jfloat (dget overlay ''gross_target'' (JNum (Fin 1))) = Inr (Fin g)"
    and "0 \<le> g"
  shows "engine_inv g e"
  using assms by (auto simp: new_engine_def res_bind_Inr_iff engine_inv_def overlay_float_def)

section \<open>The regime\<close>

text \<open>The trend reads two closes: the last one, and the one \<open>lookback\<close> bars before.\<close>

lemma btc_trend_causal:
  assumes "int (length closes) > lookback" and "1 \<le> lookback"
  shows "btc_trend_state (earlier @ closes) lookback t = btc_trend_state closes lookback t"
proof -
  have "(earlier @ closes) ! (length (earlier @ closes) - nat lookback - 1) =
      closes ! (length closes - nat lookback - 1)"
    using assms by (subst nth_append) (auto intro: arg_cong [where f = "(!) closes"])
  moreover have "last (earlier @ closes) = last closes"
    using assms by (cases closes) auto
  ultimately show ?thesis using assms by (simp add: btc_trend_state_def Let_def)
qed

end
