(* ===== verification/PortfolioService.thy ===== *)
theory PortfolioService
  imports Portfolio
begin

text \<open>
  \<^verbatim>\<open>portfolio_manager/app/service.py\<close>: one cycle of the service blends the sleeves' books,
  compares the target with the positions the worker published and sends the CLOSE and OPEN
  signals that turn one into the other.

  The signals sent so far are the state; \<open>publish n\<close> tells whether sending the signal number \<open>n\<close>
  raises, \<open>uuid n\<close> is the identifier drawn for it.  A position is the JSON object of the
  snapshot.  \<open>str_text\<close> is \<open>str(v)\<close> of a parsed value, seen as a text for \<open>json.loads\<close>: the
  representation of a Python dictionary quotes its keys with single quotes (unless a key holds
  one), which is not JSON; \<open>other\<close> gives the remaining cases.
\<close>

section \<open>Reading the snapshot\<close>

type_synonym position_obj = "(string, json) dict"

definition only_objects :: "json list \<Rightarrow> position_obj list" where
  "only_objects xs = concat (map (\<lambda>j. case j of JObj d \<Rightarrow> [d] | _ \<Rightarrow> []) xs)"

definition read_snapshot :: "jtext option \<Rightarrow> position_obj list res" where
  "read_snapshot raw = (case raw of
       None \<Rightarrow> Inr []
     | Some t \<Rightarrow> res_bind (jloads t) (\<lambda>parsed.
         case (case parsed of JObj d \<Rightarrow> dget d ''positions'' (JArr []) | _ \<Rightarrow> parsed) of
           JArr xs \<Rightarrow> Inr (only_objects xs)
         | JObj d \<Rightarrow> Inr []
         | JStr s \<Rightarrow> Inr []
         | _ \<Rightarrow> Inl TypeError))"

definition single_quoted :: "string \<Rightarrow> bool" where
  "single_quoted k \<longleftrightarrow> CHR 0x27 \<notin> set k \<or> CHR 0x22 \<in> set k"

fun str_text :: "(json \<Rightarrow> jtext) \<Rightarrow> json \<Rightarrow> jtext" where
  "str_text other (JObj []) = JText (JObj [])"
| "str_text other (JObj ((k, v) # d)) =
     (if single_quoted k then Raw (''{'' @ [CHR 0x27] @ k) else other (JObj ((k, v) # d)))"
| "str_text other v = other v"

text \<open>\<open>float(str(v))\<close>, with the errors the code catches as \<open>None\<close>.\<close>

definition float_of_str :: "json \<Rightarrow> pyfloat option" where
  "float_of_str v = (case v of
       JNum x \<Rightarrow> Some x
     | JInt i \<Rightarrow> Some (Fin (of_int i))
     | JStr s \<Rightarrow> (case py_float s of Inr x \<Rightarrow> Some x | Inl e \<Rightarrow> None)
     | _ \<Rightarrow> None)"

definition metadata_weight :: "(json \<Rightarrow> jtext) \<Rightarrow> position_obj \<Rightarrow> pyfloat option" where
  "metadata_weight other p =
     (case jloads (case map_of p ''metadata'' of None \<Rightarrow> JText (JObj []) | Some v \<Rightarrow> str_text other v) of
        Inr (JObj m) \<Rightarrow> (case dget m ''weight'' JNull of JNull \<Rightarrow> None | v \<Rightarrow> float_of_str v)
      | _ \<Rightarrow> None)"

definition position_weight :: "(json \<Rightarrow> jtext) \<Rightarrow> position_obj \<Rightarrow> pyfloat option" where
  "position_weight other p = (case dget p ''weight'' JNull of
       JNull \<Rightarrow> metadata_weight other p
     | raw \<Rightarrow> (case jfloat raw of Inr x \<Rightarrow> Some x | Inl e \<Rightarrow> metadata_weight other p))"

section \<open>The signals\<close>

record pm_open =
  po_symbol :: string
  po_side :: string
  po_entry :: pyfloat
  po_qty :: pyfloat
  po_position_id :: string
  po_exchange :: string
  po_fee_pct :: pyfloat
  po_weight :: pyfloat
  po_alpha_id :: string

datatype pm_signal = PmClose string json | PmOpen pm_open

definition send :: "(nat \<Rightarrow> exn option) \<Rightarrow> pm_signal \<Rightarrow> (pm_signal list, unit) eff" where
  "send publish s = (\<lambda>sent. case publish (length sent) of
       Some e \<Rightarrow> (Inl e, sent) | None \<Rightarrow> (Inr (), sent @ [s]))"

record pm_config =
  pm_alpha_id :: string
  pm_capital :: pyfloat
  pm_sleeves :: "string list"
  pm_exchange :: string
  pm_fee_bps :: json
  pm_regime_enabled :: bool
  pm_execution_enabled :: bool

section \<open>Reconciliation\<close>

definition side_of :: "pyfloat \<Rightarrow> string" where
  "side_of w = (if w > Fin 0 then ''LONG'' else if w < Fin 0 then ''SHORT'' else ''FLAT'')"

definition current_by_symbol :: "position_obj list \<Rightarrow> (string, position_obj) dict" where
  "current_by_symbol current = dupdate []
     (map (\<lambda>p. (jstr (dget p ''symbol'' JNull), p))
       (filter (\<lambda>p. json_truthy (dget p ''symbol'' JNull)) current))"

definition current_side :: "position_obj \<Rightarrow> string" where
  "current_side p = jstr (dget p ''side'' (JStr ''''))"

definition weight_tolerance :: real where
  "weight_tolerance = 1 / 10 ^ 9"

definition must_close :: "(json \<Rightarrow> jtext) \<Rightarrow> weights \<Rightarrow> string \<times> position_obj \<Rightarrow> bool" where
  "must_close other target = (\<lambda>(symbol, p).
     (let target_weight = dget target symbol (Fin 0);
          target_side = side_of target_weight;
          resized = (target_side = current_side p \<and>
            (case position_weight other p of
               None \<Rightarrow> False
             | Some w \<Rightarrow> fabs (w - target_weight) > Fin weight_tolerance))
      in target_side \<noteq> current_side p \<or> resized))"

definition close_positions ::
  "(nat \<Rightarrow> exn option) \<Rightarrow> (json \<Rightarrow> jtext) \<Rightarrow> weights \<Rightarrow> (string, position_obj) dict \<Rightarrow>
     (pm_signal list, unit) eff" where
  "close_positions publish other target current =
     for_each (\<lambda>(symbol, p). send publish (PmClose symbol (dget p ''position_id'' JNull)))
       (filter (must_close other target) current)"

definition unchanged ::
  "string list \<Rightarrow> (string, position_obj) dict \<Rightarrow> string \<Rightarrow> pyfloat \<Rightarrow> bool" where
  "unchanged shut current symbol w = (case map_of current symbol of
       None \<Rightarrow> False
     | Some p \<Rightarrow> symbol \<notin> set shut \<and>
         jstr (dget p ''side'' JNull) = (if w > Fin 0 then ''LONG'' else ''SHORT''))"

definition open_position ::
  "(nat \<Rightarrow> exn option) \<Rightarrow> (nat \<Rightarrow> string) \<Rightarrow> pm_config \<Rightarrow> pyfloat \<Rightarrow> string \<Rightarrow> pyfloat \<Rightarrow>
     (pm_signal list, unit) eff" where
  "open_position publish uuid cfg price symbol w = (\<lambda>sent.
     bind (lift_res
       (res_bind (fdiv (pm_capital cfg * fabs w) price) (\<lambda>qty.
        res_bind (res_bind (jfloat (pm_fee_bps cfg)) (\<lambda>bps. fdiv bps (Fin 10000))) (\<lambda>fee.
          Inr (PmOpen \<lparr>po_symbol = symbol, po_side = (if w > Fin 0 then ''LONG'' else ''SHORT''),
            po_entry = price, po_qty = qty, po_position_id = uuid (length sent),
            po_exchange = pm_exchange cfg, po_fee_pct = fee, po_weight = w,
            po_alpha_id = pm_alpha_id cfg\<rparr>)))))
       (send publish) sent)"

definition open_target ::
  "(nat \<Rightarrow> exn option) \<Rightarrow> (nat \<Rightarrow> string) \<Rightarrow> pm_config \<Rightarrow> weights \<Rightarrow> string list \<Rightarrow>
     (string, position_obj) dict \<Rightarrow> string \<times> pyfloat \<Rightarrow> (pm_signal list, unit) eff" where
  "open_target publish uuid cfg prices shut current = (\<lambda>(symbol, w).
     if \<not> truthy w then ret ()
     else if unchanged shut current symbol w then ret ()
     else (let price = dget prices symbol (Fin 0)
           in if price \<le> Fin 0 then ret () else open_position publish uuid cfg price symbol w))"

definition reconcile_and_publish ::
  "(nat \<Rightarrow> exn option) \<Rightarrow> (nat \<Rightarrow> string) \<Rightarrow> (json \<Rightarrow> jtext) \<Rightarrow> pm_config \<Rightarrow> jtext option \<Rightarrow>
     weights \<Rightarrow> weights \<Rightarrow> (pm_signal list, nat) eff" where
  "reconcile_and_publish publish uuid other cfg raw target prices = (\<lambda>sent.
     bind (lift_res (read_snapshot raw)) (\<lambda>current.
       (let current = current_by_symbol current;
            shut = map fst (filter (must_close other target) current)
        in then_do (close_positions publish other target current)
           (then_do (for_each (open_target publish uuid cfg prices shut current) target)
             (bind get_state (\<lambda>sent'. ret (length sent' - length sent)))))) sent)"

section \<open>A cycle\<close>

definition add_prices :: "(string, json) dict \<Rightarrow> weights \<Rightarrow> weights" where
  "add_prices meta prices = (case dget meta ''prices'' (JObj []) of
       JObj d \<Rightarrow> fold (\<lambda>(s, v) prices. case float_of_str v of
           None \<Rightarrow> prices
         | Some p \<Rightarrow> if p > Fin 0 \<and> map_of prices s = None then prices @ [(s, p)] else prices) d prices
     | _ \<Rightarrow> prices)"

fun prices_from_books :: "(string \<Rightarrow> jtext option) \<Rightarrow> string list \<Rightarrow> weights \<Rightarrow> weights res" where
  "prices_from_books store [] prices = Inr prices"
| "prices_from_books store (s # ss) prices =
     res_bind (read_book store s) (\<lambda>book. prices_from_books store ss
       (case book of None \<Rightarrow> prices | Some b \<Rightarrow> add_prices (k_meta b) prices))"

record pm_state =
  pm_engine :: engine
  pm_sent :: "pm_signal list"

definition run_cycle ::
  "(nat \<Rightarrow> exn option) \<Rightarrow> (nat \<Rightarrow> string) \<Rightarrow> (json \<Rightarrow> jtext) \<Rightarrow> pm_config \<Rightarrow> clock \<Rightarrow>
     (string \<Rightarrow> jtext option) \<Rightarrow> regime_state \<Rightarrow> (pm_state, weights \<times> nat) eff" where
  "run_cycle publish uuid other cfg ck store regime = (\<lambda>st.
     (case engine_cycle ck store (Some regime) (pm_engine st) of
        (Inl e, eng) \<Rightarrow> (Inl e, st\<lparr>pm_engine := eng\<rparr>)
      | (Inr result, eng) \<Rightarrow>
          (let st = st\<lparr>pm_engine := eng\<rparr>;
               selected = (if pm_regime_enabled cfg then candidate result else baseline result)
           in case prices_from_books store (pm_sleeves cfg) [] of
                Inl e \<Rightarrow> (Inl e, st)
              | Inr prices \<Rightarrow>
                  if pm_execution_enabled cfg
                  then (case reconcile_and_publish publish uuid other cfg
                               (store (''paper:positions:snapshot:'' @ pm_alpha_id cfg))
                               selected prices (pm_sent st) of
                          (Inl e, sent) \<Rightarrow> (Inl e, st\<lparr>pm_sent := sent\<rparr>)
                        | (Inr n, sent) \<Rightarrow> (Inr (selected, n), st\<lparr>pm_sent := sent\<rparr>))
                  else (Inr (selected, 0), st))))"

section \<open>The signals a cycle sends\<close>

definition shut_symbols :: "(json \<Rightarrow> jtext) \<Rightarrow> weights \<Rightarrow> (string, position_obj) dict \<Rightarrow> string list" where
  "shut_symbols other target current = map fst (filter (must_close other target) current)"

definition close_signals ::
  "(json \<Rightarrow> jtext) \<Rightarrow> weights \<Rightarrow> (string, position_obj) dict \<Rightarrow> pm_signal list" where
  "close_signals other target current =
     map (\<lambda>(s, p). PmClose s (dget p ''position_id'' JNull)) (filter (must_close other target) current)"

definition wanted :: "string list \<Rightarrow> (string, position_obj) dict \<Rightarrow> weights \<Rightarrow> string \<times> pyfloat \<Rightarrow> bool" where
  "wanted shut current prices =
     (\<lambda>(s, w). truthy w \<and> \<not> unchanged shut current s w \<and> \<not> dget prices s (Fin 0) \<le> Fin 0)"

text \<open>The OPEN for a weight, with the n-th identifier drawn.\<close>

definition open_for :: "pm_config \<Rightarrow> weights \<Rightarrow> pyfloat \<Rightarrow> (nat \<Rightarrow> string) \<Rightarrow> nat \<Rightarrow> string \<times> pyfloat \<Rightarrow> pm_open" where
  "open_for cfg prices fee uuid n = (\<lambda>(s, w).
     \<lparr>po_symbol = s, po_side = (if w > Fin 0 then ''LONG'' else ''SHORT''), po_entry = dget prices s (Fin 0),
      po_qty = projr (fdiv (pm_capital cfg * fabs w) (dget prices s (Fin 0))), po_position_id = uuid n,
      po_exchange = pm_exchange cfg, po_fee_pct = fee, po_weight = w, po_alpha_id = pm_alpha_id cfg\<rparr>)"

definition opens_for :: "pm_config \<Rightarrow> weights \<Rightarrow> pyfloat \<Rightarrow> (nat \<Rightarrow> string) \<Rightarrow> nat \<Rightarrow> weights \<Rightarrow> pm_open list" where
  "opens_for cfg prices fee uuid n ts = map (\<lambda>(i, t). open_for cfg prices fee uuid i t) (enumerate n ts)"

abbreviation reliable :: "nat \<Rightarrow> exn option" where
  "reliable \<equiv> \<lambda>_. None"

lemma for_each_send:
  "for_each (\<lambda>x. send reliable (f x)) xs sent = (Inr (), sent @ map f xs)"
  by (induction xs arbitrary: sent) (simp_all add: send_def then_do_apply)

lemma close_positions_sent:
  "close_positions reliable other target current sent =
     (Inr (), sent @ close_signals other target current)"
  using for_each_send [of "\<lambda>(s, p). PmClose s (dget p ''position_id'' JNull)"
      "filter (must_close other target) current" sent]
  by (simp add: close_positions_def close_signals_def case_prod_unfold)

lemma open_targets_sent:
  assumes fee: "jfloat (pm_fee_bps cfg) = Inr b" "fdiv b (Fin 10000) = Inr fee"
  shows "for_each (open_target reliable uuid cfg prices shut current) target sent =
    (Inr (), sent @ map PmOpen (opens_for cfg prices fee uuid (length sent) (filter (wanted shut current prices) target)))"
proof (induction target arbitrary: sent)
  case Nil
  then show ?case by (simp add: opens_for_def)
next
  case (Cons t target)
  obtain s w where t: "t = (s, w)" by fastforce
  let ?price = "dget prices s (Fin 0)"
  show ?case
  proof (cases "wanted shut current prices (s, w)")
    case True
    then have "?price \<noteq> Fin 0" by (auto simp: wanted_def)
    then obtain qty where "fdiv (pm_capital cfg * fabs w) ?price = Inr qty" by (simp add: fdiv_def)
    then have "open_position reliable uuid cfg ?price s w sent =
        (Inr (), sent @ [PmOpen (open_for cfg prices fee uuid (length sent) (s, w))])"
      using fee by (simp add: open_position_def send_def open_for_def)
    moreover have "open_target reliable uuid cfg prices shut current t =
        open_position reliable uuid cfg ?price s w"
      using True by (auto simp: open_target_def t wanted_def Let_def)
    ultimately show ?thesis
      using True Cons.IH by (simp add: then_do_apply t opens_for_def)
  next
    case False
    then have "open_target reliable uuid cfg prices shut current t = ret ()"
      by (auto simp: open_target_def t wanted_def Let_def)
    with False Cons.IH show ?thesis by (simp add: then_do_apply t)
  qed
qed

lemma dict_ok_current [simp]: "dict_ok (current_by_symbol xs)"
  by (simp add: current_by_symbol_def)

text \<open>A cycle that can publish sends the CLOSE signals first, then the OPEN signals.\<close>

lemma reconcile_sends:
  assumes "read_snapshot raw = Inr xs" and "jfloat (pm_fee_bps cfg) = Inr b" and "fdiv b (Fin 10000) = Inr fee"
    and "current = current_by_symbol xs" and "closes = close_signals other target current"
    and "opens = opens_for cfg prices fee uuid (length sent + length closes)
      (filter (wanted (shut_symbols other target current) current prices) target)"
  shows "reconcile_and_publish reliable uuid other cfg raw target prices sent =
      (Inr (length closes + length opens), sent @ closes @ map PmOpen opens)"
  using assms(1) open_targets_sent [OF assms(2,3), of uuid prices "shut_symbols other target current" current target "sent @ closes"]
  by (simp add: reconcile_and_publish_def Let_def then_do_apply bind_apply close_positions_sent
    shut_symbols_def assms(5,6) flip: assms(4))

lemma not_shut_same_side:
  assumes "map_of current s = Some p" and "s \<notin> set (shut_symbols other target current)"
  shows "side_of (dget target s (Fin 0)) = current_side p"
    and "position_weight other p = Some w \<Longrightarrow>
      \<not> fabs (w - dget target s (Fin 0)) > Fin weight_tolerance"
proof -
  have "(s, p) \<in> set current" using assms(1) by (rule map_of_SomeD)
  then have "\<not> must_close other target (s, p)" using assms(2) by (force simp: shut_symbols_def)
  then show "side_of (dget target s (Fin 0)) = current_side p"
    "position_weight other p = Some w \<Longrightarrow>
      \<not> fabs (w - dget target s (Fin 0)) > Fin weight_tolerance"
    by (auto simp: must_close_def Let_def)
qed

definition has_price :: "weights \<Rightarrow> string \<Rightarrow> bool" where
  "has_price prices s \<longleftrightarrow> \<not> dget prices s (Fin 0) \<le> Fin 0"

definition sides_ok :: "(string, position_obj) dict \<Rightarrow> bool" where
  "sides_ok current \<longleftrightarrow> (\<forall>(s, p) \<in> set current. current_side p \<noteq> ''FLAT'')"

lemma unchanged_iff:
  assumes "weight_of target s \<noteq> 0" and "finite_ws target" and "dict_ok current"
  shows "unchanged (shut_symbols other target current) current s (dget target s (Fin 0)) \<longleftrightarrow>
    map_of current s \<noteq> None \<and> s \<notin> set (shut_symbols other target current)"
proof (cases "map_of current s")
  case (Some p)
  show ?thesis
  proof (cases "s \<in> set (shut_symbols other target current)")
    case False
    from not_shut_same_side(1) [OF Some False]
    have "current_side p = (if dget target s (Fin 0) > Fin 0 then ''LONG'' else ''SHORT'')"
      using assms(1,2) by (auto simp: side_of_def finite_dget)
    then have "jstr (dget p ''side'' JNull) = (if dget target s (Fin 0) > Fin 0 then ''LONG'' else ''SHORT'')"
      by (cases "map_of p ''side''") (auto simp: current_side_def dget_def split: if_splits)
    with Some False show ?thesis by (simp add: unchanged_def)
  qed (simp add: unchanged_def Some)
qed (simp add: unchanged_def)

text \<open>A book that already meets the target: nothing is sent.\<close>

lemma reconcile_settled:
  assumes "read_snapshot raw = Inr xs" and "jfloat (pm_fee_bps cfg) = Inr b" and "finite_ws target"
    and "\<forall>x \<in> set (current_by_symbol xs). \<not> must_close other target x"
    and "\<And>s. weight_of target s \<noteq> 0 \<Longrightarrow> map_of (current_by_symbol xs) s \<noteq> None"
  shows "reconcile_and_publish reliable uuid other cfg raw target prices sent = (Inr 0, sent)"
proof -
  let ?current = "current_by_symbol xs"
  have none: "filter (must_close other target) ?current = []" using assms(4) by (simp add: filter_empty_conv)
  then have shut: "shut_symbols other target ?current = []" "close_signals other target ?current = []"
    by (simp_all add: shut_symbols_def close_signals_def)
  have "\<not> wanted [] ?current prices x" if x: "x \<in> set target" for x
  proof -
    obtain s w where sw: "x = (s, w)" by fastforce
    with x assms(3) have m: "map_of target s = Some w" by (simp add: finite_ws_def)
    with finite_map_of [OF assms(3)] have w: "w = Fin (weight_of target s)" "dget target s (Fin 0) = w"
      by (auto simp: dget_def)
    show ?thesis
    proof (cases "weight_of target s = 0")
      case False
      with unchanged_iff [OF False assms(3), of ?current other] assms(5) [OF False] w shut
      show ?thesis by (simp add: wanted_def sw)
    qed (simp add: wanted_def sw w)
  qed
  then have "filter (wanted [] ?current prices) target = []" by (simp add: filter_empty_conv)
  moreover obtain fee where "fdiv b (Fin 10000) = Inr fee" by (simp add: fdiv_def)
  ultimately show ?thesis
    using reconcile_sends [OF assms(1,2) _ refl refl refl, of fee uuid other target prices sent] shut by (simp add: opens_for_def)
qed

text \<open>
  A position of the worker's snapshot: the row has no weight of its own and its metadata is the
  parsed object, not a text.
\<close>

definition from_worker :: "position_obj \<Rightarrow> bool" where
  "from_worker p \<longleftrightarrow> map_of p ''weight'' = None \<and>
     (case map_of p ''metadata'' of Some (JObj (x # d)) \<Rightarrow> single_quoted (fst x) | _ \<Rightarrow> False)"

lemma from_worker_weight: "from_worker p \<Longrightarrow> position_weight other p = None"
  by (auto simp: from_worker_def position_weight_def metadata_weight_def dget_def
      split: option.splits json.splits list.splits)

lemma same_sides_settled:
  assumes "\<forall>(s, p) \<in> set current. from_worker p \<and> current_side p = side_of (dget target s (Fin 0))"
  shows "\<forall>x \<in> set current. \<not> must_close other target x"
  using assms by (auto simp: must_close_def from_worker_weight Let_def)

end
