(* ===== verification/PortfolioWorker.thy ===== *)
theory PortfolioWorker
  imports PortfolioService Lifecycle
begin

text \<open>
  What the worker does with the signals of the portfolio manager: \<open>worker_takes\<close> turns a signal into the one
  the worker parses (\<^verbatim>\<open>alphas/base/signal_push.py\<close> leaves out a field that is \<open>None\<close>) and hands it to the
  executor's \<open>process_close\<close> or \<open>process_open\<close>.  The lemmas follow the CLOSEs and then the
  OPENs of a reconciliation through the tables of the database.
\<close>

section \<open>The signals at the worker\<close>

text \<open>What surrounds a signal: its id and time, the worker's clock, a random id, and the resolved fill.\<close>

record delivery =
  dl_signal_id :: string
  dl_at :: isotext
  dl_now :: isotext
  dl_uuid :: string
  dl_fill :: "fill_arg option"

definition pm_close_of :: "string \<Rightarrow> delivery \<Rightarrow> json \<Rightarrow> close_signal" where
  "pm_close_of alpha e i = \<lparr>c_alpha_id = alpha, c_signal_id = dl_signal_id e,
     c_position_id = (if i = JNull then '''' else jstr i), c_reason = ''PM_RECONCILE'', c_timestamp = dl_at e,
     c_exit_price = None, c_qty = None, c_metadata = JText (JObj [])\<rparr>"

definition pm_open_of :: "delivery \<Rightarrow> pm_open \<Rightarrow> open_signal" where
  "pm_open_of e q = \<lparr>o_alpha_id = po_alpha_id q, o_signal_id = dl_signal_id e, o_symbol = po_symbol q, o_side = po_side q,
     o_entry = po_entry q, o_qty = po_qty q, o_timestamp = dl_at e, o_tp = None, o_sl = None, o_leverage = 1,
     o_metadata = jdumps (JObj [(''weight'', JNum (po_weight q)), (''pm_alpha_id'', JStr (po_alpha_id q))]),
     o_position_id = po_position_id q, o_exchange = po_exchange q, o_fee_pct = po_fee_pct q\<rparr>"

fun worker_takes :: "exec_cfg \<Rightarrow> string \<Rightarrow> delivery \<times> pm_signal \<Rightarrow> (db, unit) eff" where
  "worker_takes x alpha (e, PmClose symbol i) =
     then_do (process_close x (dl_uuid e) (pm_close_of alpha e i) (dl_fill e)) (ret ())"
| "worker_takes x alpha (e, PmOpen q) =
     (if isfinite (po_entry q) \<and> isfinite (po_qty q)
      then then_do (process_open x (dl_now e) (dl_uuid e) (pm_open_of e q) (dl_fill e)) (ret ())
      else throw (ValueError ''non-finite''))"

definition delivered :: "(nat \<Rightarrow> delivery) \<Rightarrow> nat \<Rightarrow> pm_signal list \<Rightarrow> (delivery \<times> pm_signal) list" where
  "delivered es n gs = map (\<lambda>(i, g). (es i, g)) (enumerate n gs)"

lemma delivered_simps [simp]:
  "delivered es n [] = []" "delivered es n (g # gs) = (es n, g) # delivered es (Suc n) gs"
  "delivered es n (gs @ hs) = delivered es n gs @ delivered es (n + length gs) hs"
  by (simp_all add: delivered_def enumerate_append_eq)

text \<open>A time with an offset, and a row that a CLOSE can close.\<close>

definition timed :: "isotext \<Rightarrow> bool" where
  "timed t \<longleftrightarrow> (\<exists>o'. fromisoformat t = Inr o' \<and> utcoff o' \<noteq> None)"

definition closable_row :: "position \<Rightarrow> bool" where
  "closable_row p \<longleftrightarrow> (\<exists>q. p_qty p = Some (Fin q) \<and> 0 < q) \<and> p_entry p \<noteq> None \<and> timed (p_opened p)"

definition unsettled :: "db \<Rightarrow> bool" where
  "unsettled d \<longleftrightarrow> p_id ` set (positions d) \<inter> t_id ` set (trades d) = {}"

lemma fdiv_returns: "truthy b \<Longrightarrow> \<exists>z. fdiv a b = Inr z"
  by (auto simp: fdiv_def)

lemma full_close:
  assumes "closable_row p" and "timed ct"
  shows "\<exists>t q. p_qty p = Some (Fin q) \<and> 0 < q \<and> closing_trade u p px r ct m (Some (Fin q)) = Inr (Some (t, Fin 0)) \<and> t_id t = p_id p"
proof -
  obtain q e o1 o2 where a: "p_qty p = Some (Fin q)" "0 < q" "p_entry p = Some e"
    "fromisoformat (p_opened p) = Inr o1" "fromisoformat ct = Inr o2" "utcoff o1 \<noteq> None" "utcoff o2 \<noteq> None"
    using assms by (auto simp: closable_row_def timed_def)
  from a(6,7) have "\<exists>h. trade_duration_hours o1 o2 (exchange_or_binance p) = Inr h" by (auto simp: trade_duration_raises)
  then obtain h where h: "trade_duration_hours o1 o2 (exchange_or_binance p) = Inr h" by blast
  have "\<exists>f. close_figures_of (p_side p) e px (Fin q) (fee_or_zero p) = Inr f"
  proof (cases "truthy (e * Fin q)")
    case True
    then obtain z where "fdiv ((px - e) * Fin q * (if p_side p = ''LONG'' then Fin 1 else Fin (- 1)) - (e + px) * Fin q * fee_or_zero p)
        (e * Fin q) = Inr z" using fdiv_returns by blast
    with True show ?thesis by (simp add: close_figures_of_def Let_def)
  qed (simp add: close_figures_of_def Let_def)
  then obtain f where f: "close_figures_of (p_side p) e px (Fin q) (fee_or_zero p) = Inr f" by blast
  show ?thesis using a h f
    by (simp add: closing_trade_def need_def close_quantities_Fin)
qed

lemma close_takes:
  assumes d: "wf_db d" "unsettled d" and p: "p \<in> set (positions d)" "closable_row p" "p_id p \<noteq> ''''" and tm: "timed (dl_at e)"
  shows "\<exists>t. t_id t = p_id p \<and> worker_takes x a (e, PmClose s (JStr (p_id p))) d =
    (Inr (), d\<lparr>trades := trades d @ [t], positions := filter (\<lambda>r. p_id r \<noteq> p_id p) (positions d)\<rparr>)"
proof -
  have g: "get_position d (p_id p) = Some p" using d(1) p(1) by (simp add: get_position_iff)
  have fresh: "t_id v \<noteq> p_id p" if "v \<in> set (trades d)" for v using d(2) p(1) that by (auto simp: unsettled_def)
  let ?s = "pm_close_of a e (JStr (p_id p))"
  have s: "c_position_id ?s = p_id p" "c_qty ?s = None" "c_timestamp ?s = dl_at e" by (simp_all add: pm_close_of_def)
  obtain y where "p_entry p = Some y" using p(2) by (auto simp: closable_row_def)
  then have "\<exists>fill. close_fill x ?s p (dl_fill e) = Inr fill"
    by (cases "dl_fill e") (simp_all add: close_fill_def close_ref_price_def need_def pm_close_of_def)
  then obtain fill where fill: "close_fill x ?s p (dl_fill e) = Inr fill" by blast
  define m where "m = merge_metadata (Some (c_metadata ?s)) ([(''decision_price'', jopt JNum (close_ref_price ?s p)),
      (''recorded_fill_price'', JNum (fill_value fill)), (''fill_price'', JNum (fill_value fill))] @ execution_metadata fill)"
  from full_close [OF p(2) tm, of "dl_uuid e" "fill_value fill" "c_reason ?s" "Some m"] obtain t q where
    t: "p_qty p = Some (Fin q)" "0 < q" "t_id t = p_id p"
    "closing_trade (dl_uuid e) p (fill_value fill) (c_reason ?s) (dl_at e) (Some m) (Some (Fin q)) = Inr (Some (t, Fin 0))" by blast
  have "close_position (dl_uuid e) (p_id p) (fill_value fill) (c_reason ?s) (dl_at e) (Some m) (Some (Fin q)) d =
      (Inr (), d\<lparr>trades := trades d @ [t], positions := filter (\<lambda>r. p_id r \<noteq> p_id p) (positions d)\<rparr>)"
    using close_position_unfold [OF g t(4)] fresh t(3) by simp
  moreover have "checked_close_qty ?s p = Inr (Fin q, Fin q)" using t(1,2) by (simp add: checked_close_qty_def s need_def)
  ultimately show ?thesis
    using t(3) g fill by (intro exI [of _ t]) (simp add: process_close_def s bind_apply then_do_apply Let_def m_def lift_res_def)
qed


section \<open>The CLOSEs\<close>

lemma wf_filter: "wf_db d \<Longrightarrow> t_id t \<notin> t_id ` set (trades d) \<Longrightarrow>
    wf_db (d\<lparr>trades := trades d @ [t], positions := filter P (positions d)\<rparr>)"
  by (auto simp: wf_db_def distinct_map_filter)

lemma closes_taken:
  assumes "wf_db d" "unsettled d" and "\<And>n. timed (dl_at (es n))"
    and "distinct pids" and "set pids \<subseteq> p_id ` {p \<in> set (positions d). closable_row p \<and> p_id p \<noteq> ''''}"
    and "map (\<lambda>g. case g of PmClose s i \<Rightarrow> i | PmOpen q \<Rightarrow> JNull) gs = map JStr pids"
  shows "\<exists>d'. for_each (worker_takes x a) (delivered es n gs) d = (Inr (), d') \<and> wf_db d' \<and>
    positions d' = filter (\<lambda>r. p_id r \<notin> set pids) (positions d)"
  using assms(1,2,4-)
proof (induction gs arbitrary: d n pids)
  case Nil
  then show ?case by simp
next
  case (Cons g gs)
  obtain pid pids' where pids: "pids = pid # pids'" using Cons.prems(5) by (cases pids) auto
  obtain s where g: "g = PmClose s (JStr pid)" using Cons.prems(5) pids by (cases g) auto
  obtain p where p: "p \<in> set (positions d)" "closable_row p" "p_id p \<noteq> ''''" "p_id p = pid"
    using Cons.prems(4) pids by auto
  from close_takes [OF Cons.prems(1,2) p(1-3) assms(3), where x = x and a = a and s = s, of n] obtain t where
    t: "t_id t = pid" "worker_takes x a (es n, g) d =
      (Inr (), d\<lparr>trades := trades d @ [t], positions := filter (\<lambda>r. p_id r \<noteq> pid) (positions d)\<rparr>)"
    unfolding g p(4) by blast
  define d1 where "d1 = d\<lparr>trades := trades d @ [t], positions := filter (\<lambda>r. p_id r \<noteq> pid) (positions d)\<rparr>"
  have "pid \<notin> t_id ` set (trades d)" using Cons.prems(2) p(1,4) by (auto simp: unsettled_def)
  then have "wf_db d1" unfolding d1_def using wf_filter [OF Cons.prems(1)] t(1) by simp
  moreover have "unsettled d1" using Cons.prems(2) t(1) by (auto simp: unsettled_def d1_def)
  moreover have "set pids' \<subseteq> p_id ` {p \<in> set (positions d1). closable_row p \<and> p_id p \<noteq> ''''}"
  proof
    fix i assume i: "i \<in> set pids'"
    then obtain r where "r \<in> set (positions d)" "closable_row r" "p_id r \<noteq> ''''" "p_id r = i"
      using Cons.prems(4) pids by auto
    moreover have "i \<noteq> pid" using i Cons.prems(3) pids by auto
    ultimately show "i \<in> p_id ` {p \<in> set (positions d1). closable_row p \<and> p_id p \<noteq> ''''}" by (auto simp: d1_def)
  qed
  moreover have "distinct pids'"
    "map (\<lambda>g. case g of PmClose s i \<Rightarrow> i | PmOpen q \<Rightarrow> JNull) gs = map JStr pids'"
    using Cons.prems(3,5) pids by simp_all
  ultimately obtain d' where "for_each (worker_takes x a) (delivered es (Suc n) gs) d1 = (Inr (), d')" "wf_db d'"
    "positions d' = filter (\<lambda>r. p_id r \<notin> set pids') (positions d1)" using Cons.IH by blast
  then show ?case using t(2) by (intro exI [of _ d'])
      (auto simp: then_do_apply pids d1_def intro: filter_cong)
qed

lemma for_each_both:
  "for_each f xs d = (Inr (), d1) \<Longrightarrow> for_each f (xs @ ys) d = for_each f ys d1"
  by (induction xs arbitrary: d) (auto simp: then_do_apply split: prod.splits sum.splits)

section \<open>The OPENs\<close>

definition row_for :: "pm_open \<Rightarrow> position \<Rightarrow> bool" where
  "row_for q p \<longleftrightarrow> p_id p = po_position_id q \<and> p_alpha p = po_alpha_id q \<and> p_symbol p = po_symbol q \<and> p_side p = po_side q \<and>
     p_qty p = Some (po_qty q)"

lemma open_takes:
  assumes "isfinite (po_entry q)" "isfinite (po_qty q)" and "po_position_id q \<noteq> ''''"
    and "po_position_id q \<notin> p_id ` set (positions d)" and "(po_alpha_id q, po_symbol q) \<notin> leg ` set (positions d)"
  shows "\<exists>p d'. worker_takes x a (e, PmOpen q) d = (Inr (), d') \<and> positions d' = positions d @ [p] \<and> row_for q p"
proof -
  let ?s = "pm_open_of e q" and ?run = "process_open x (dl_now e) (dl_uuid e) (pm_open_of e q) (dl_fill e) d"
  have id: "open_id (dl_uuid e) ?s = po_position_id q" using assms(3) by (simp add: open_id_def pm_open_of_def)
  have "get_open_position_by_alpha_symbol d (po_alpha_id q) (po_symbol q) = None"
    using assms(5) by (simp add: get_open_position_None)
  then have "\<exists>r. fst ?run = Inr r"
    using assms(3,4) by (auto simp: process_open_def then_do_apply register_alpha_def bind_def get_open_position_by_alpha_symbol_def
      pm_open_of_def create_position_def sql_int_def insert_position_def Let_def image_iff)
  then obtain p where p: "fst ?run = Inr (po_position_id q, open_price x ?s (dl_fill e))"
    "positions (snd ?run) = positions d @ [p]" "opened_row ?s (po_position_id q) (open_price x ?s (dl_fill e)) p"
    by (cases rule: process_open_cases [of x "dl_now e" "dl_uuid e" ?s "dl_fill e" d]) (auto simp: id)
  obtain y where "po_qty q = Fin y" using assms(2) by (auto elim: isfiniteE)
  then have "row_for q p" using p(3) by (simp add: opened_row_def row_for_def pm_open_of_def)
  moreover have "worker_takes x a (e, PmOpen q) d = (Inr (), snd ?run)"
    using p(1) assms(1,2) by (cases ?run) (simp add: then_do_apply)
  ultimately show ?thesis using p(2) by blast
qed

lemma opens_taken:
  assumes "\<forall>q \<in> set qs. isfinite (po_entry q) \<and> isfinite (po_qty q) \<and> po_position_id q \<noteq> '''' \<and> po_alpha_id q = al"
    and "distinct (map po_position_id qs)" "distinct (map po_symbol qs)"
    and "po_position_id ` set qs \<inter> p_id ` set (positions d) = {}"
    and "\<forall>q \<in> set qs. (al, po_symbol q) \<notin> leg ` set (positions d)"
  shows "\<exists>d' ps. for_each (worker_takes x a) (delivered es n (map PmOpen qs)) d = (Inr (), d') \<and>
    positions d' = positions d @ ps \<and> list_all2 row_for qs ps"
  using assms
proof (induction qs arbitrary: d n)
  case Nil
  then show ?case by (intro exI [of _ d] exI [of _ "[]"]) simp
next
  case (Cons q qs)
  from open_takes [of q d x a "es n"] Cons.prems obtain p d1 where
    1: "worker_takes x a (es n, PmOpen q) d = (Inr (), d1)" "positions d1 = positions d @ [p]" "row_for q p" by auto
  have "\<exists>d' ps. for_each (worker_takes x a) (delivered es (Suc n) (map PmOpen qs)) d1 = (Inr (), d') \<and>
    positions d' = positions d1 @ ps \<and> list_all2 row_for qs ps"
  proof (rule Cons.IH)
    have "po_position_id q' \<noteq> p_id p \<and> (al, po_symbol q') \<noteq> leg p" if "q' \<in> set qs" for q'
    proof -
      have "po_position_id q' \<in> po_position_id ` set qs" "po_symbol q' \<in> po_symbol ` set qs" using that by simp_all
      then show ?thesis using Cons.prems(2,3) 1(3) by (auto simp: row_for_def leg_def)
    qed
    then show "po_position_id ` set qs \<inter> p_id ` set (positions d1) = {}" "\<forall>q \<in> set qs. (al, po_symbol q) \<notin> leg ` set (positions d1)"
      using Cons.prems(4,5) unfolding 1(2) by (auto; metis)+
  qed (use Cons.prems in auto)
  then obtain d' ps where "for_each (worker_takes x a) (delivered es (Suc n) (map PmOpen qs)) d1 = (Inr (), d')"
    "positions d' = positions d1 @ ps" "list_all2 row_for qs ps" by blast
  with 1 show ?case by (intro exI [of _ d'] exI [of _ "p # ps"]) (simp add: then_do_apply)
qed


section \<open>The whole reconciliation\<close>

text \<open>
  The snapshot is the worker's: it tells of every position of the alpha, with its id and side, and of no other.
\<close>

definition told :: "position \<Rightarrow> position_obj \<Rightarrow> bool" where
  "told p j \<longleftrightarrow> dget j ''position_id'' JNull = JStr (p_id p) \<and> current_side j = p_side p"

definition book_matches :: "string \<Rightarrow> (string, position_obj) dict \<Rightarrow> db \<Rightarrow> bool" where
  "book_matches alpha current d \<longleftrightarrow>
     (\<forall>p \<in> set (positions d). p_alpha p = alpha \<longrightarrow> (\<exists>j. map_of current (p_symbol p) = Some j \<and> told p j)) \<and>
     (\<forall>(s, j) \<in> set current. \<exists>p \<in> set (positions d). p_alpha p = alpha \<and> p_symbol p = s \<and> told p j)"

definition rows_of :: "string \<Rightarrow> string \<Rightarrow> db \<Rightarrow> position list" where
  "rows_of alpha s d = filter (\<lambda>p. p_alpha p = alpha \<and> p_symbol p = s) (positions d)"

definition sizable_row :: "string \<Rightarrow> position \<Rightarrow> bool" where
  "sizable_row alpha p \<longleftrightarrow> (p_alpha p = alpha \<longrightarrow> closable_row p \<and> p_id p \<noteq> '''' \<and> p_side p \<noteq> ''FLAT'')"

text \<open>
  The book of the worker after a reconciliation: no row where the target has no weight, else one row on its side,
  which is an old one whose weight, where the snapshot tells it, is within the tolerance, or a new one of the size the weight
  asks for; and nothing happens to other alphas.
\<close>

definition open_size :: "pm_config \<Rightarrow> weights \<Rightarrow> weights \<Rightarrow> string \<Rightarrow> pyfloat" where
  "open_size cfg target prices s = projr (fdiv (pm_capital cfg * fabs (dget target s (Fin 0))) (dget prices s (Fin 0)))"

definition reached ::
  "(json \<Rightarrow> jtext) \<Rightarrow> pm_config \<Rightarrow> weights \<Rightarrow> weights \<Rightarrow> (string, position_obj) dict \<Rightarrow> db \<Rightarrow> db \<Rightarrow> bool" where
  "reached other cfg target prices current d d' \<longleftrightarrow>
     (\<forall>s. if weight_of target s = 0 then rows_of (pm_alpha_id cfg) s d' = []
        else (\<exists>p. rows_of (pm_alpha_id cfg) s d' = [p] \<and> p_side p = side_of (dget target s (Fin 0)) \<and>
          (p \<in> set (positions d) \<and> (case position_weight other (the (map_of current s)) of
               None \<Rightarrow> True | Some w \<Rightarrow> \<not> fabs (w - dget target s (Fin 0)) > Fin weight_tolerance)
           \<or> p_qty p = Some (open_size cfg target prices s)))) \<and>
     filter (\<lambda>p. p_alpha p \<noteq> pm_alpha_id cfg) (positions d') = filter (\<lambda>p. p_alpha p \<noteq> pm_alpha_id cfg) (positions d)"

lemma single_element: "distinct xs \<Longrightarrow> set xs = {x} \<Longrightarrow> xs = [x]"
  by (cases xs; cases "tl xs") auto

lemma same_row: "wf_db d \<Longrightarrow> p \<in> set (positions d) \<Longrightarrow> r \<in> set (positions d) \<Longrightarrow> p_id p = p_id r \<Longrightarrow> p = r"
  by (auto simp: wf_db_def distinct_map dest: inj_onD)

lemma closes_reached:
  assumes d: "wf_db d" "unsettled d" "list_all (sizable_row alpha) (positions d)" and m: "book_matches alpha current d" "dict_ok current"
    and tm: "\<And>n. timed (dl_at (es n))"
  shows "\<exists>d'. for_each (worker_takes x alpha) (delivered es n (close_signals other target current)) d = (Inr (), d') \<and> wf_db d' \<and>
    positions d' = filter (\<lambda>p. \<not> (p_alpha p = alpha \<and> p_symbol p \<in> set (shut_symbols other target current))) (positions d)"
proof -
  let ?cs = "filter (must_close other target) current"
  define pid where "pid = (\<lambda>j :: position_obj. case dget j ''position_id'' JNull of JStr i \<Rightarrow> i | _ \<Rightarrow> '''')"
  define pids where "pids = map (pid \<circ> snd) ?cs"
  have row: "\<exists>p \<in> set (positions d). p_alpha p = alpha \<and> p_symbol p = s \<and> dget j ''position_id'' JNull = JStr (p_id p) \<and> pid j = p_id p"
    if "(s, j) \<in> set current" for s j
    using m(1) that by (force simp: book_matches_def told_def pid_def)
  have inj: "inj_on (pid \<circ> snd) (set current)"
  proof (rule inj_onI)
    fix u v assume u: "u \<in> set current" "v \<in> set current" "(pid \<circ> snd) u = (pid \<circ> snd) v"
    obtain s j s' j' where uv: "u = (s, j)" "v = (s', j')" by (metis prod.collapse)
    with row [of s j] row [of s' j'] u same_row [OF d(1)] have "s = s'" by force
    then show "u = v" using u uv m(2) by (auto dest: eq_key_imp_eq_value)
  qed
  have "distinct current" using m(2) by (simp add: distinct_map)
  then have "distinct pids" unfolding pids_def distinct_map
    using inj inj_on_subset by (metis distinct_filter filter_is_subset)
  moreover have "set pids \<subseteq> p_id ` {p \<in> set (positions d). closable_row p \<and> p_id p \<noteq> ''''}"
    using row d(3) by (fastforce simp: pids_def list_all_iff sizable_row_def)
  moreover have "map (\<lambda>g. case g of PmClose s i \<Rightarrow> i | PmOpen q \<Rightarrow> JNull) (close_signals other target current) = map JStr pids"
    using row by (fastforce simp: close_signals_def pids_def comp_def)
  ultimately obtain d' where d': "for_each (worker_takes x alpha) (delivered es n (close_signals other target current)) d = (Inr (), d')"
    "wf_db d'" "positions d' = filter (\<lambda>r. p_id r \<notin> set pids) (positions d)"
    using closes_taken [where es = es, OF d(1,2) tm] by blast
  have "p_id p \<in> set pids \<longleftrightarrow> p_alpha p = alpha \<and> p_symbol p \<in> set (shut_symbols other target current)" if p: "p \<in> set (positions d)" for p
  proof
    assume "p_id p \<in> set pids"
    then obtain s j where j: "(s, j) \<in> set ?cs" "pid j = p_id p" by (auto simp: pids_def)
    then obtain r where "r \<in> set (positions d)" "p_alpha r = alpha" "p_symbol r = s" "p_id r = p_id p" using row [of s j] by force
    with same_row [OF d(1) p] j(1) show "p_alpha p = alpha \<and> p_symbol p \<in> set (shut_symbols other target current)"
      by (force simp: shut_symbols_def)
  next
    assume a: "p_alpha p = alpha \<and> p_symbol p \<in> set (shut_symbols other target current)"
    then obtain j where j: "(p_symbol p, j) \<in> set ?cs" by (force simp: shut_symbols_def)
    moreover obtain j' where "map_of current (p_symbol p) = Some j'" "told p j'" using m(1) a p by (force simp: book_matches_def)
    moreover have "map_of current (p_symbol p) = Some j" using j m(2) by simp
    ultimately have "pid j = p_id p" by (simp add: told_def pid_def)
    with j show "p_id p \<in> set pids" by (force simp: pids_def)
  qed
  then have "positions d' = filter (\<lambda>p. \<not> (p_alpha p = alpha \<and> p_symbol p \<in> set (shut_symbols other target current))) (positions d)"
    unfolding d'(3) by (intro filter_cong) auto
  with d'(1,2) show ?thesis by blast
qed


text \<open>What a weight that is opened means for the snapshot.\<close>

lemma wanted_iff:
  assumes "finite_ws target" "dict_ok current" and "\<And>s. weight_of target s \<noteq> 0 \<Longrightarrow> \<exists>px. dget prices s (Fin 0) = Fin px \<and> 0 < px"
    and "(s, w) \<in> set target"
  shows "wanted (shut_symbols other target current) current prices (s, w) \<longleftrightarrow>
    weight_of target s \<noteq> 0 \<and> (map_of current s = None \<or> s \<in> set (shut_symbols other target current))"
proof -
  have dict: "dict_ok target" using assms(1) by (simp add: finite_ws_def)
  with assms(4) have "map_of target s = Some w" by simp
  then have w: "dget target s (Fin 0) = w" "w = Fin (weight_of target s)"
    using finite_map_of [OF assms(1)] by (auto simp: dget_def)
  show ?thesis
  proof (cases "weight_of target s = 0")
    case True
    then show ?thesis using w(2) by (simp add: wanted_def)
  next
    case False
    from assms(3) [OF this] have "\<not> dget prices s (Fin 0) \<le> Fin 0" by auto
    with unchanged_iff [OF False assms(1,2), of other] w False show ?thesis by (auto simp: wanted_def)
  qed
qed

lemma opens_for_fields:
  "map po_symbol (opens_for cfg prices fee uuid n ts) = map fst ts"
  "map po_position_id (opens_for cfg prices fee uuid n ts) = map uuid [n..<n + length ts]"
  "q \<in> set (opens_for cfg prices fee uuid n ts) \<Longrightarrow> \<exists>s w i. (s, w) \<in> set ts \<and> q = open_for cfg prices fee uuid i (s, w)"
proof -
  show "map po_symbol (opens_for cfg prices fee uuid n ts) = map fst ts"
    by (induction ts arbitrary: n) (simp_all add: opens_for_def open_for_def split: prod.splits)
  show "map po_position_id (opens_for cfg prices fee uuid n ts) = map uuid [n..<n + length ts]"
    by (induction ts arbitrary: n) (simp_all add: opens_for_def open_for_def upt_conv_Cons split: prod.splits del: upt_Suc)
  assume "q \<in> set (opens_for cfg prices fee uuid n ts)"
  then obtain i t where "(i, t) \<in> set (enumerate n ts)" "q = open_for cfg prices fee uuid i t" by (auto simp: opens_for_def)
  then show "\<exists>s w i. (s, w) \<in> set ts \<and> q = open_for cfg prices fee uuid i (s, w)"
    by (metis in_set_enumerate_eq nth_mem prod.collapse fst_conv snd_conv le_add_diff_inverse less_diff_conv2 add.commute)
qed

lemma finite_size:
  assumes "pm_capital cfg = Fin c" "w = Fin v" "dget prices s (Fin 0) = Fin px" "0 < px"
  shows "isfinite (projr (fdiv (pm_capital cfg * fabs w) (dget prices s (Fin 0))))"
  using assms by (simp add: fdiv_def)

lemma opens_reached:
  assumes t: "finite_ws target" "dict_ok current" "pm_capital cfg = Fin c"
    and px: "\<And>s. weight_of target s \<noteq> 0 \<Longrightarrow> \<exists>px. dget prices s (Fin 0) = Fin px \<and> 0 < px"
    and ids: "inj uuid" "'''' \<notin> range uuid" "range uuid \<inter> p_id ` set (positions d) = {}"
    and free: "\<And>s w. (s, w) \<in> set (filter (wanted (shut_symbols other target current) current prices) target) \<Longrightarrow> rows_of (pm_alpha_id cfg) s d = []"
  defines "ts \<equiv> filter (wanted (shut_symbols other target current) current prices) target"
  shows "\<exists>d' ps. for_each (worker_takes x alpha) (delivered es n (map PmOpen (opens_for cfg prices fee uuid m ts))) d = (Inr (), d') \<and>
    positions d' = positions d @ ps \<and> list_all2 row_for (opens_for cfg prices fee uuid m ts) ps"
proof -
  let ?qs = "opens_for cfg prices fee uuid m ts"
  have dict: "dict_ok target" using t(1) by (simp add: finite_ws_def)
  have q: "isfinite (po_entry q) \<and> isfinite (po_qty q) \<and> po_position_id q \<noteq> '''' \<and> po_alpha_id q = pm_alpha_id cfg \<and>
      po_position_id q \<notin> p_id ` set (positions d) \<and> (pm_alpha_id cfg, po_symbol q) \<notin> leg ` set (positions d)"
    if "q \<in> set ?qs" for q
  proof -
    from opens_for_fields(3) [OF that] obtain s w i where i: "(s, w) \<in> set ts" "q = open_for cfg prices fee uuid i (s, w)" by blast
    then have w: "(s, w) \<in> set target" "weight_of target s \<noteq> 0" using wanted_iff [OF t(1,2) px] by (auto simp: ts_def)
    from px [OF w(2)] obtain y where y: "dget prices s (Fin 0) = Fin y" "0 < y" by blast
    obtain v where "w = Fin v" using w(1) t(1) by (force simp: finite_ws_def elim: isfiniteE)
    from finite_size [OF t(3) this y] have "isfinite (po_entry q) \<and> isfinite (po_qty q)" using y i(2) by (simp add: open_for_def)
    moreover have "po_position_id q = uuid i" "po_symbol q = s" "po_alpha_id q = pm_alpha_id cfg" using i(2) by (simp_all add: open_for_def)
    moreover have "(pm_alpha_id cfg, s) \<notin> leg ` set (positions d)"
      using free [of s w] i(1) unfolding ts_def by (auto simp: rows_of_def filter_empty_conv leg_def)
    ultimately show ?thesis using ids(2,3) by (metis IntI empty_iff rangeI)
  qed
  have "distinct (map po_position_id ?qs)" using ids(1) by (simp add: opens_for_fields(2) distinct_map inj_on_subset [of _ UNIV])
  moreover have "distinct (map po_symbol ?qs)" unfolding opens_for_fields(1) ts_def using dict by (rule distinct_map_filter)
  moreover have "po_position_id ` set ?qs \<inter> p_id ` set (positions d) = {}" using q by blast
  ultimately show ?thesis using opens_taken [of ?qs "pm_alpha_id cfg" d x alpha es n] q by blast
qed


text \<open>The rows of a symbol before, between and after the two groups of signals.\<close>

lemma distinct_rows: "wf_db d \<Longrightarrow> distinct (rows_of alpha s d)"
  by (simp add: wf_db_def rows_of_def distinct_map)

lemma row_of_known:
  assumes "wf_db d" "book_matches alpha current d"
  shows "map_of current s = None \<Longrightarrow> rows_of alpha s d = []"
    and "map_of current s = Some j \<Longrightarrow> \<exists>p. rows_of alpha s d = [p] \<and> p \<in> set (positions d) \<and> told p j"
proof -
  show "map_of current s = None \<Longrightarrow> rows_of alpha s d = []"
    using assms(2) by (force simp: book_matches_def rows_of_def filter_empty_conv)
  assume j: "map_of current s = Some j"
  then have "(s, j) \<in> set current" by (rule map_of_SomeD)
  then obtain p where p: "p \<in> set (positions d)" "p_alpha p = alpha" "p_symbol p = s" "told p j"
    using assms(2) by (force simp: book_matches_def)
  have "r = p" if "r \<in> set (rows_of alpha s d)" for r
  proof -
    have r: "r \<in> set (positions d)" "p_alpha r = alpha" "p_symbol r = s" using that by (simp_all add: rows_of_def)
    with assms(2) j have "told r j" by (force simp: book_matches_def)
    with p(4) have "p_id r = p_id p" by (simp add: told_def)
    with same_row [OF assms(1) r(1) p(1)] show ?thesis .
  qed
  moreover have "p \<in> set (rows_of alpha s d)" using p by (simp add: rows_of_def)
  ultimately have "set (rows_of alpha s d) = {p}" by blast
  with distinct_rows [OF assms(1)] have "rows_of alpha s d = [p]" by (rule single_element)
  with p(1,4) show "\<exists>p. rows_of alpha s d = [p] \<and> p \<in> set (positions d) \<and> told p j" by (intro exI [of _ p]) simp
qed

lemma rows_between:
  assumes "positions d1 = filter (\<lambda>p. \<not> (p_alpha p = alpha \<and> p_symbol p \<in> S)) (positions d)"
  shows "rows_of alpha s d1 = (if s \<in> S then [] else rows_of alpha s d)"
    "filter (\<lambda>p. p_alpha p \<noteq> alpha) (positions d1) = filter (\<lambda>p. p_alpha p \<noteq> alpha) (positions d)"
  by (auto simp: rows_of_def assms filter_empty_conv intro: filter_cong)

lemma rows_opened:
  assumes "list_all2 row_for qs ps" and "distinct (map po_symbol qs)" and "\<forall>q \<in> set qs. po_alpha_id q = alpha"
  shows "filter (\<lambda>p. p_alpha p \<noteq> alpha) ps = []"
    and "s \<notin> po_symbol ` set qs \<Longrightarrow> filter (\<lambda>p. p_alpha p = alpha \<and> p_symbol p = s) ps = []"
    and "q \<in> set qs \<Longrightarrow> \<exists>p. filter (\<lambda>p. p_alpha p = alpha \<and> p_symbol p = po_symbol q) ps = [p] \<and> row_for q p"
proof -
  have syms: "map p_symbol ps = map po_symbol qs"
    using assms(1) by (induction rule: list_all2_induct) (simp_all add: row_for_def)
  have al: "p_alpha p = alpha" if "p \<in> set ps" for p
    using assms(1,3) that by (induction rule: list_all2_induct) (auto simp: row_for_def)
  show "filter (\<lambda>p. p_alpha p \<noteq> alpha) ps = []" using al by (simp add: filter_empty_conv)
  show "filter (\<lambda>p. p_alpha p = alpha \<and> p_symbol p = s) ps = []" if "s \<notin> po_symbol ` set qs"
    using that arg_cong [OF syms, of set] by (force simp: filter_empty_conv)
  assume q: "q \<in> set qs"
  then obtain p where p: "p \<in> set ps" "row_for q p" using assms(1) by (auto simp: list_all2_conv_all_nth in_set_conv_nth) metis
  have d: "distinct (map p_symbol ps)" using assms(2) by (simp add: syms)
  have "filter (\<lambda>p. p_alpha p = alpha \<and> p_symbol p = po_symbol q) ps = [p]"
  proof (rule single_element)
    show "distinct (filter (\<lambda>p. p_alpha p = alpha \<and> p_symbol p = po_symbol q) ps)" using d by (simp add: distinct_map)
    show "set (filter (\<lambda>p. p_alpha p = alpha \<and> p_symbol p = po_symbol q) ps) = {p}"
    proof -
      have "r = p" if "r \<in> set ps" "p_symbol r = po_symbol q" for r
      proof (rule inj_onD [of p_symbol "set ps"])
        show "inj_on p_symbol (set ps)" using d by (simp add: distinct_map)
      qed (use p that in \<open>simp_all add: row_for_def\<close>)
      moreover have "p_alpha p = alpha" "p_symbol p = po_symbol q" using p al by (simp_all add: row_for_def)
      ultimately show ?thesis using p(1) unfolding set_filter by blast
    qed
  qed
  with p(2) show "\<exists>p. filter (\<lambda>p. p_alpha p = alpha \<and> p_symbol p = po_symbol q) ps = [p] \<and> row_for q p" by blast
qed

lemma in_fst_image: "x \<in> fst ` A \<longleftrightarrow> (\<exists>w. (x, w) \<in> A)"
  by force

lemma both_groups_reach:
  fixes d1 :: db
  assumes d: "wf_db d" "list_all (sizable_row (pm_alpha_id cfg)) (positions d)" "book_matches (pm_alpha_id cfg) current d"
    and t: "finite_ws target" "dict_ok current"
    and px: "\<And>s. weight_of target s \<noteq> 0 \<Longrightarrow> \<exists>px. dget prices s (Fin 0) = Fin px \<and> 0 < px"
    and closes: "positions d1 = filter (\<lambda>p. \<not> (p_alpha p = pm_alpha_id cfg \<and> p_symbol p \<in> set (shut_symbols other target current))) (positions d)"
    and qs: "qs = opens_for cfg prices fee uuid m (filter (wanted (shut_symbols other target current) current prices) target)"
    and opens: "positions d' = positions d1 @ ps" "list_all2 row_for qs ps"
  shows "reached other cfg target prices current d d'"
proof -
  let ?a = "pm_alpha_id cfg" and ?shut = "set (shut_symbols other target current)"
  let ?ts = "filter (wanted (shut_symbols other target current) current prices) target"
  have dict: "dict_ok target" using t(1) by (simp add: finite_ws_def)
  have syms: "map po_symbol qs = map fst ?ts" by (simp add: qs opens_for_fields(1))
  have dq: "distinct (map po_symbol qs)" unfolding syms using dict by (rule distinct_map_filter)
  have al: "\<forall>q \<in> set qs. po_alpha_id q = ?a" unfolding qs by (auto dest!: opens_for_fields(3) simp: open_for_def)
  note new = rows_opened [OF opens(2) dq al]
  have rows: "rows_of ?a s d' = (if s \<in> ?shut then [] else rows_of ?a s d) @ filter (\<lambda>p. p_alpha p = ?a \<and> p_symbol p = s) ps" for s
    using rows_between(1) [OF closes, of s] by (simp add: rows_of_def opens(1))
  have asked: "s \<in> po_symbol ` set qs \<longleftrightarrow> weight_of target s \<noteq> 0 \<and> (map_of current s = None \<or> s \<in> ?shut)" for s
  proof -
    have "po_symbol ` set qs = fst ` set ?ts" using arg_cong [OF syms, of set] unfolding set_map .
    then have "s \<in> po_symbol ` set qs \<longleftrightarrow> (\<exists>w. (s, w) \<in> set ?ts)" by (simp only: in_fst_image)
    also have "\<dots> \<longleftrightarrow> (\<exists>w. (s, w) \<in> set target) \<and> weight_of target s \<noteq> 0 \<and> (map_of current s = None \<or> s \<in> ?shut)"
    proof -
      have "(s, w) \<in> set ?ts \<longleftrightarrow> (s, w) \<in> set target \<and> weight_of target s \<noteq> 0 \<and> (map_of current s = None \<or> s \<in> ?shut)" for w
        using wanted_iff [OF t px, of s w other] by (cases "(s, w) \<in> set target") simp_all
      then show ?thesis by blast
    qed
    also have "\<dots> \<longleftrightarrow> weight_of target s \<noteq> 0 \<and> (map_of current s = None \<or> s \<in> ?shut)"
    proof -
      have "\<exists>w. (s, w) \<in> set target" if "weight_of target s \<noteq> 0"
        using that by (cases "map_of target s") (auto simp: weight_of_def dget_def dest: map_of_SomeD)
      then show ?thesis by blast
    qed
    finally show ?thesis .
  qed
  have "if weight_of target s = 0 then rows_of ?a s d' = []
        else (\<exists>p. rows_of ?a s d' = [p] \<and> p_side p = side_of (dget target s (Fin 0)) \<and>
          (p \<in> set (positions d) \<and> (case position_weight other (the (map_of current s)) of
               None \<Rightarrow> True | Some w \<Rightarrow> \<not> fabs (w - dget target s (Fin 0)) > Fin weight_tolerance)
           \<or> p_qty p = Some (open_size cfg target prices s)))" for s
  proof -
    have w: "dget target s (Fin 0) = Fin (weight_of target s)" by (rule finite_dget [OF t(1)])
    consider (zero) "weight_of target s = 0"
      | (kept) j where "weight_of target s \<noteq> 0" "map_of current s = Some j" "s \<notin> ?shut"
      | (opened) "weight_of target s \<noteq> 0" "map_of current s = None \<or> s \<in> ?shut" by (cases "map_of current s") auto
    then show ?thesis
    proof cases
      case zero
      have "rows_of ?a s d = []" if "s \<notin> ?shut"
      proof (cases "map_of current s")
        case (Some j)
        from row_of_known(2) [OF d(1,3) Some] obtain p where p: "rows_of ?a s d = [p]" "p \<in> set (positions d)" "told p j" by blast
        have "p \<in> set (rows_of ?a s d)" using p(1) by simp
        then have "p_side p \<noteq> ''FLAT''" using d(2) by (auto simp: list_all_iff sizable_row_def rows_of_def)
        moreover have "p_side p = side_of (dget target s (Fin 0))"
          using not_shut_same_side(1) [OF Some that] p(3) by (simp add: told_def)
        moreover have "side_of (dget target s (Fin 0)) = ''FLAT''" using zero w by (simp add: side_of_def)
        ultimately show ?thesis by simp
      qed (rule row_of_known(1) [OF d(1,3)])
      with zero asked [of s] new(2) [of s] show ?thesis by (simp add: rows)
    next
      case kept
      from row_of_known(2) [OF d(1,3) kept(2)] obtain p where p: "rows_of ?a s d = [p]" "p \<in> set (positions d)" "told p j" by blast
      note side = not_shut_same_side [OF kept(2,3)]
      have "rows_of ?a s d' = [p]" using kept p(1) asked [of s] new(2) [of s] by (simp add: rows)
      moreover have "p_side p = side_of (dget target s (Fin 0))" using side(1) p(3) by (simp add: told_def)
      ultimately show ?thesis using kept p(2) side(2) by (simp split: option.split)
    next
      case opened
      then obtain q where q: "q \<in> set qs" "po_symbol q = s" using asked [of s] by auto
      from new(3) [OF q(1)] obtain p where p: "filter (\<lambda>p. p_alpha p = ?a \<and> p_symbol p = s) ps = [p]" "row_for q p"
        unfolding q(2) by blast
      obtain w' i where o': "(s, w') \<in> set ?ts" "q = open_for cfg prices fee uuid i (s, w')"
        using opens_for_fields(3) [OF q(1) [unfolded qs]] q(2) by (auto simp: open_for_def)
      have w': "w' = dget target s (Fin 0)" using o'(1) dict by (auto simp: dget_def dest: map_of_is_SomeI)
      have "rows_of ?a s d' = [p]" using opened(2) p(1) row_of_known(1) [OF d(1,3), of s] by (auto simp: rows)
      moreover have "p_side p = side_of (dget target s (Fin 0))" "p_qty p = Some (open_size cfg target prices s)"
        using p(2) o'(2) opened(1) w by (simp_all add: row_for_def open_for_def w' side_of_def open_size_def)
      ultimately show ?thesis using opened(1) by simp
    qed
  qed
  moreover have "filter (\<lambda>p. p_alpha p \<noteq> ?a) (positions d') = filter (\<lambda>p. p_alpha p \<noteq> ?a) (positions d)"
    using rows_between(2) [OF closes] new(1) by (simp add: opens(1))
  ultimately show ?thesis unfolding reached_def by blast
qed

end
