(* ===== verification/PortfolioProperties.thy ===== *)
theory PortfolioProperties
  imports PortfolioWorker
begin

text \<open>
  Properties of the portfolio manager: the books in the store, the blend and its overlays, the
  exposure over many cycles, and the signals of a reconciliation.
\<close>

section \<open>Books and the blend\<close>

text \<open>
  A valid target book whose metadata is finite is written to the store and read back as it
  was; reading refuses every book with a missing field, a weight that is not finite, or an empty
  symbol.
\<close>

theorem book_survives_store:
  assumes "check_book b = Inr b" and "dict_ok (k_weights b)"
    and "list_all (\<lambda>p. json_finite (snd p)) (k_meta b)"
  shows "\<exists>store'. write_book b store = Inr store' \<and> read_book store' (k_sleeve_id b) = Inr (Some b)"
  using book_roundtrip [OF assms] by (auto simp: write_book_def read_book_def)

definition pf_book :: "string \<Rightarrow> weights \<Rightarrow> target_book" where
  "pf_book sleeve ws = \<lparr>k_sleeve_id = sleeve, k_revision = 1, k_generated_at = ''t'', k_as_of = 0,
     k_timeframe = ''1d'', k_gross = Fin 1, k_net = Fin 1, k_weights = ws, k_schema_version = 1,
     k_meta = [(''prices'', JObj [(''BTC'', JInt 100)])]\<rparr>"

theorem book_survives_store_witness:
  "\<exists>store'. write_book (pf_book ''s'' [(''BTC'', Fin 1)]) Map.empty = Inr store' \<and>
     read_book store' ''s'' = Inr (Some (pf_book ''s'' [(''BTC'', Fin 1)]))"
  using book_survives_store [of "pf_book ''s'' [(''BTC'', Fin 1)]" Map.empty]
  by (simp add: pf_book_def check_book_def valid_weight_def)

text \<open>
  The blend is the allocation-weighted sum of the books of the sleeves that are present and
  not stale; every other sleeve is reported as stale and contributes nothing.
\<close>

theorem blend_is_weighted_sum:
  assumes "blend_books ck books allocs limits = Inr (out, active, stale)"
    and "books_finite books" and "dict_ok allocs"
  shows "active = filter (fresh ck books limits) (keys allocs) \<and>
    stale = filter (\<lambda>s. \<not> fresh ck books limits s) (keys allocs) \<and>
    (\<forall>x. weight_of out x = (\<Sum>s \<leftarrow> active. weight_of allocs s * book_weight books s x))"
  using blend_books [OF assms] by simp

definition pf_clock :: clock where
  "pf_clock = \<lparr>ck_now = 50, ck_iso = (\<lambda>t. IsoText \<lparr>wall = 0, utcoff = Some 0\<rparr>), ck_zone = (\<lambda>_. 0)\<rparr>"

definition pf_books :: "(string, target_book option) dict" where
  "pf_books = [(''s'', Some (pf_book ''s'' [(''BTC'', Fin 1)])), (''r'', None)]"

definition pf_allocs :: weights where
  "pf_allocs = [(''s'', Fin (1 / 4)), (''r'', Fin (3 / 4))]"

theorem blend_is_weighted_sum_witness:
  "\<exists>out stale. blend_books pf_clock pf_books pf_allocs [(''s'', Fin 60), (''r'', Fin 60)] = Inr (out, [''s''], stale)
     \<and> weight_of out ''BTC'' = 1 / 4"
proof -
  let ?limits = "[(''s'', Fin 60), (''r'', Fin 60)]"
  have "\<exists>out active stale. blend_books pf_clock pf_books pf_allocs ?limits = Inr (out, active, stale)"
    by (simp add: blend_books_def fixed_allocator_def pf_allocs_def pf_books_def keys_def dget_def fsum_def
        is_stale_def age_seconds_def pf_clock_def epoch_def)
  then obtain out active stale where
    b: "blend_books pf_clock pf_books pf_allocs ?limits = Inr (out, active, stale)" by blast
  have "books_finite pf_books"
    by (auto simp: books_finite_def pf_books_def finite_ws_def pf_book_def)
  from blend_is_weighted_sum [OF b this] b show ?thesis
    by (auto simp: pf_allocs_def keys_def fresh_def pf_books_def is_stale_def age_seconds_def pf_clock_def
        epoch_def weight_of_def book_weight_def pf_book_def dget_def)
qed

section \<open>Exposure\<close>

text \<open>
  C36. Over any number of cycles, with any books in the store, any clock and any regime, an
  engine never puts out more gross exposure than its target, and the regime overlay only ever
  reduces it.
\<close>

theorem exposure_is_bounded:
  assumes "new_engine sleeves overlay = Inr e" and "0 \<le> g"
    and "jfloat (dget overlay ''gross_target'' (JNum (Fin 1))) = Inr (Fin g)"
  shows "\<forall>out \<in> set (fst (run_cycles is e)).
    gross_of (candidate out) \<le> gross_of (baseline out) \<and> gross_of (baseline out) \<le> g"
  using run_cycles_gross [OF new_engine_inv [OF assms(1,3,2)]] .

definition pf_sleeve :: "(string, json) dict" where
  "pf_sleeve = [(''id'', JStr ''s''), (''weight'', JInt 1), (''max_staleness_sec'', JInt 60)]"

definition pf_engine :: engine where
  "pf_engine = projr (new_engine [pf_sleeve] [(''gross_target'', JInt 2)])"

lemma pf_engine: "new_engine [pf_sleeve] [(''gross_target'', JInt 2)] = Inr pf_engine"
  by (simp add: pf_engine_def new_engine_def pf_sleeve_def sleeve_config_of_def dget_def)

theorem exposure_is_bounded_witness:
  "list_all (\<lambda>out. gross_of (baseline out) \<le> 2)
     (fst (run_cycles [(pf_clock, Map.empty, Some NoSignal), (pf_clock, Map.empty, None)] pf_engine))"
  using exposure_is_bounded [OF pf_engine, of 2
      "[(pf_clock, Map.empty, Some NoSignal), (pf_clock, Map.empty, None)]"]
  by (auto simp: dget_def list_all_iff)

text \<open>
  The per-coin cap is applied before the gross target, which undoes it: a book whose only
  symbol has a weight ends at the target gross in that symbol, whatever the cap is.
\<close>

theorem cap_is_rescaled_away:
  assumes "finite_ws ws" and "per_coin_cap ws (Fin c) = Inr capped" and "0 < c"
    and "gross_target capped (Fin g) = Inr out"
    and "weight_of ws s \<noteq> 0" and "\<forall>x. x \<noteq> s \<longrightarrow> weight_of ws x = 0"
  shows "\<bar>weight_of out s\<bar> = g"
proof -
  have capped: "finite_ws capped" "\<And>x. weight_of capped x = max (- c) (min c (weight_of ws x))"
    using assms(1,2) by (auto elim: per_coin_cap)
  have zero: "weight_of capped x = 0" if "x \<noteq> s" for x
    using capped(2) assms(3,6) that by simp
  have "gross_of capped = (\<Sum>x \<in> insert s (fst ` set capped). \<bar>weight_of capped x\<bar>)"
    by (rule gross_of_sum [OF capped(1)]) auto
  also have "\<dots> = (\<Sum>x \<in> {s}. \<bar>weight_of capped x\<bar>)"
    using zero by (intro sum.mono_neutral_right) auto
  finally have gross: "gross_of capped = \<bar>weight_of capped s\<bar>" by simp
  have nz: "weight_of capped s \<noteq> 0"
    using capped(2) [of s] assms(3,5) by (auto simp: min_def max_def split: if_splits)
  have "0 \<le> g" using assms(4) by (auto simp: gross_target_def split: if_splits)
  then show ?thesis
    using capped_then_scaled [OF assms(1,2,4), of s] gross nz capped(2) [of s]
    by (simp add: abs_mult)
qed

theorem cap_is_rescaled_away_witness:
  "\<exists>capped out. per_coin_cap [(''BTC'', Fin (1 / 2))] (Fin (1 / 10)) = Inr capped \<and>
     gross_target capped (Fin 1) = Inr out \<and> \<bar>weight_of out ''BTC''\<bar> = 1"
proof -
  let ?ws = "[(''BTC'', Fin (1 / 2))]"
  obtain capped where c: "per_coin_cap ?ws (Fin (1 / 10)) = Inr capped" "capped = [(''BTC'', Fin (1 / 10))]"
    by (simp add: per_coin_cap_def)
  have "\<exists>out. gross_target capped (Fin 1) = Inr out"
    by (simp add: gross_target_def c(2) fsum_def Let_def)
  then obtain out where g: "gross_target capped (Fin 1) = Inr out" by blast
  from cap_is_rescaled_away [OF _ c(1) _ g, of "''BTC''"] c(1) g show ?thesis
    by (auto simp: finite_ws_def weight_of_def dget_def)
qed

section \<open>Reconciliation\<close>

text \<open>
  C37. A reconciliation brings the worker's book to the target.  The signals a cycle sends, taken in order by the worker - its
  \<open>process_close\<close>, which looks a position up by its id, and its \<open>process_open\<close>, which refuses a second position of a symbol and a known id -
  are all accepted, whatever fills they are given.  Afterwards the portfolio has no row where the target has no weight, else exactly one on the side
  of the weight: an old one, whose weight is within the tolerance where the snapshot tells it, or a new one whose quantity is
  capital times weight over price.  The rows of other alphas are untouched.
  This needs: a stream that accepts the signals; a readable snapshot that tells of every row the portfolio has, with id and side, and of no
  other; rows with an id, a side other than FLAT, an entry, a finite positive quantity and a time with an offset, none already recorded as a
  trade; a finite capital, fee and target, and a finite positive price for every weight; fresh identifiers, and times with an offset.
\<close>

theorem reconcile_reaches_target:
  assumes "read_snapshot raw = Inr xs" and "jfloat (pm_fee_bps cfg) = Inr b" and "finite_ws target" and "pm_capital cfg = Fin c"
    and "\<And>s. weight_of target s \<noteq> 0 \<Longrightarrow> \<exists>px. dget prices s (Fin 0) = Fin px \<and> 0 < px"
    and "wf_db d" "unsettled d" "list_all (sizable_row (pm_alpha_id cfg)) (positions d)"
    and "book_matches (pm_alpha_id cfg) (current_by_symbol xs) d"
    and "inj uuid" "[] \<notin> range uuid" "range uuid \<inter> p_id ` set (positions d) = {}" and "\<And>n. timed (dl_at (es n))"
  shows "\<exists>gs d'. reconcile_and_publish reliable uuid other cfg raw target prices sent = (Inr (length gs), sent @ gs) \<and>
      for_each (worker_takes x (pm_alpha_id cfg)) (delivered es 0 gs) d = (Inr (), d') \<and>
      reached other cfg target prices (current_by_symbol xs) d d'"
proof -
  obtain fee where fee: "fdiv b (Fin 10000) = Inr fee" by (simp add: fdiv_def)
  define current where "current = current_by_symbol xs"
  define closes where "closes = close_signals other target current"
  define m where "m = length sent + length closes"
  define qs where "qs = opens_for cfg prices fee uuid m (filter (wanted (shut_symbols other target current) current prices) target)"
  have cur: "dict_ok current" "book_matches (pm_alpha_id cfg) current d" using assms(9) by (simp_all add: current_def)
  have sent: "reconcile_and_publish reliable uuid other cfg raw target prices sent =
      (Inr (length (closes @ map PmOpen qs)), sent @ closes @ map PmOpen qs)"
    using reconcile_sends [OF assms(1,2) fee current_def closes_def qs_def [unfolded m_def]] by simp
  obtain d1 where d1: "for_each (worker_takes x (pm_alpha_id cfg)) (delivered es 0 closes) d = (Inr (), d1)" "wf_db d1"
    "positions d1 = filter (\<lambda>p. \<not> (p_alpha p = pm_alpha_id cfg \<and> p_symbol p \<in> set (shut_symbols other target current))) (positions d)"
    using closes_reached [where es = es, OF assms(6-8) cur(2,1) assms(13)] unfolding closes_def by blast
  have free: "rows_of (pm_alpha_id cfg) s d1 = []"
    if "(s, w) \<in> set (filter (wanted (shut_symbols other target current) current prices) target)" for s w
    using that wanted_iff [OF assms(3) cur(1) assms(5), of s w other] rows_between(1) [OF d1(3), of s]
      row_of_known(1) [OF assms(6) cur(2), of s] by auto
  have ids: "range uuid \<inter> p_id ` set (positions d1) = {}" using assms(12) by (auto simp: d1(3))
  have "\<exists>d' ps. for_each (worker_takes x (pm_alpha_id cfg)) (delivered es (length closes) (map PmOpen qs)) d1 = (Inr (), d') \<and>
    positions d' = positions d1 @ ps \<and> list_all2 row_for qs ps"
    unfolding qs_def by (rule opens_reached [OF assms(3) cur(1) assms(4) _ assms(10,11) ids]) (rule assms(5), assumption, rule free)
  then obtain d' ps where d': "for_each (worker_takes x (pm_alpha_id cfg)) (delivered es (length closes) (map PmOpen qs)) d1 = (Inr (), d')"
    "positions d' = positions d1 @ ps" "list_all2 row_for qs ps" by blast
  have "for_each (worker_takes x (pm_alpha_id cfg)) (delivered es 0 (closes @ map PmOpen qs)) d = (Inr (), d')"
    using for_each_both [OF d1(1)] d'(1) by simp
  moreover have "reached other cfg target prices current d d'"
    by (rule both_groups_reach [OF assms(6,8) cur(2) assms(3) cur(1) assms(5) d1(3) qs_def d'(2,3)])
  ultimately show ?thesis using sent unfolding current_def by blast
qed

definition pf_config :: pm_config where
  "pf_config = \<lparr>pm_alpha_id = ''pm'', pm_capital = Fin 1000, pm_sleeves = [''s''], pm_exchange = ''binance'',
     pm_fee_bps = JInt 7, pm_regime_enabled = False, pm_execution_enabled = True\<rparr>"

definition pf_snapshot :: "jtext option" where
  "pf_snapshot = Some (JText (JObj [(''positions'', JArr [JObj [(''symbol'', JStr ''BTC''),
     (''side'', JStr ''LONG''), (''position_id'', JStr ''p1''), (''weight'', JNum (Fin (1 / 2)))]])]))"

definition pf_row :: position where
  "pf_row = \<lparr>p_id = ''p1'', p_alpha = ''pm'', p_signal = ''g'', p_symbol = ''BTC'', p_side = ''LONG'', p_entry = Some (Fin 90),
     p_qty = Some (Fin 5), p_tp = None, p_sl = None, p_leverage = 1, p_opened = IsoText \<lparr>wall = 0, utcoff = Some 0\<rparr>,
     p_metadata = None, p_exchange = ''binance'', p_fee_pct = Some (Fin 0)\<rparr>"

definition pf_db :: db where
  "pf_db = empty_db\<lparr>positions := [pf_row], alphas := [\<lparr>a_id = ''pm'', a_name = ''pm'', a_created = p_opened pf_row, a_status = ''active''\<rparr>]\<rparr>"

definition pf_delivery :: "nat \<Rightarrow> delivery" where
  "pf_delivery n = \<lparr>dl_signal_id = ''g'', dl_at = IsoText \<lparr>wall = 1, utcoff = Some 0\<rparr>, dl_now = NotIso '''', dl_uuid = ''v'', dl_fill = None\<rparr>"

text \<open>A long of half the capital, unknown to the target, becomes a short of all of it.\<close>

theorem reconcile_reaches_target_witness:
  "\<exists>gs d' p. reconcile_and_publish reliable (\<lambda>n. replicate (Suc n) CHR ''u'') (\<lambda>_. Raw '''') pf_config pf_snapshot
     [(''BTC'', Fin (- 1))] [(''BTC'', Fin 100)] [] = (Inr (length gs), gs) \<and>
   for_each (worker_takes \<lparr>x_slippage_pct = Fin 1, x_duplicate_policy = ''reject''\<rparr> ''pm'') (delivered pf_delivery 0 gs) pf_db = (Inr (), d') \<and>
   rows_of ''pm'' ''BTC'' d' = [p] \<and> p_side p = ''SHORT'' \<and> p_qty p = Some (Fin 10)"
proof -
  let ?p = "[(''symbol'', JStr ''BTC''), (''side'', JStr ''LONG''), (''position_id'', JStr ''p1''),
    (''weight'', JNum (Fin (1 / 2)))]"
  let ?t = "[(''BTC'', Fin (- 1))]" and ?px = "[(''BTC'', Fin 100)]" and ?u = "\<lambda>n. replicate (Suc n) CHR ''u''"
  have x: "read_snapshot pf_snapshot = Inr [?p]"
    by (simp add: read_snapshot_def pf_snapshot_def dget_def only_objects_def)
  have c: "current_by_symbol [?p] = [(''BTC'', ?p)]" by (simp add: current_by_symbol_def dget_def)
  have cfg: "jfloat (pm_fee_bps pf_config) = Inr (Fin 7)" "pm_capital pf_config = Fin 1000" "pm_alpha_id pf_config = ''pm''"
    by (simp_all add: pf_config_def)
  have t: "finite_ws ?t" by (simp add: finite_ws_def)
  have px: "\<exists>px. dget ?px s (Fin 0) = Fin px \<and> 0 < px" if "weight_of ?t s \<noteq> 0" for s
    using that by (auto simp: weight_of_def dget_def split: if_splits)
  have d: "wf_db pf_db" "unsettled pf_db" "positions pf_db = [pf_row]"
    by (simp_all add: pf_db_def empty_db_def wf_db_def unsettled_def pf_row_def)
  have rows: "list_all (sizable_row ''pm'') (positions pf_db)"
    unfolding d(3) by (simp add: sizable_row_def closable_row_def timed_def pf_row_def)
  have "book_matches ''pm'' (current_by_symbol [?p]) pf_db"
    unfolding c by (simp add: book_matches_def d(3) told_def pf_row_def current_side_def dget_def)
  note start = d(1,2) rows [folded cfg(3)] this [folded cfg(3)]
  have u: "inj ?u" by (rule injI) (metis Suc_inject length_replicate)
  have u': "[] \<notin> range ?u" "range ?u \<inter> p_id ` set (positions pf_db) = {}" by (auto simp: d(3) pf_row_def)
  have tm: "timed (dl_at (pf_delivery n))" for n by (simp add: timed_def pf_delivery_def)
  have "\<exists>gs d'. reconcile_and_publish reliable ?u (\<lambda>_. Raw '''') pf_config pf_snapshot ?t ?px [] = (Inr (length gs), [] @ gs) \<and>
    for_each (worker_takes \<lparr>x_slippage_pct = Fin 1, x_duplicate_policy = ''reject''\<rparr> (pm_alpha_id pf_config)) (delivered pf_delivery 0 gs) pf_db = (Inr (), d') \<and>
    reached (\<lambda>_. Raw '''') pf_config ?t ?px (current_by_symbol [?p]) pf_db d'"
    by (rule reconcile_reaches_target [OF x cfg(1) t cfg(2) _ start u u' tm]) (rule px)
  then obtain gs d' where r: "reconcile_and_publish reliable ?u (\<lambda>_. Raw '''') pf_config pf_snapshot ?t ?px [] = (Inr (length gs), [] @ gs)"
    "for_each (worker_takes \<lparr>x_slippage_pct = Fin 1, x_duplicate_policy = ''reject''\<rparr> (pm_alpha_id pf_config)) (delivered pf_delivery 0 gs) pf_db = (Inr (), d')"
    "reached (\<lambda>_. Raw '''') pf_config ?t ?px (current_by_symbol [?p]) pf_db d'" by (elim exE conjE)
  have w: "weight_of ?t ''BTC'' \<noteq> 0" "side_of (dget ?t ''BTC'' (Fin 0)) = ''SHORT''" "open_size pf_config ?t ?px ''BTC'' = Fin 10"
    by (simp_all add: weight_of_def dget_def side_of_def open_size_def cfg fdiv_def)
  from r(3) w obtain p where "rows_of ''pm'' ''BTC'' d' = [p]" "p_side p = ''SHORT''"
    "p = pf_row \<or> p_qty p = Some (Fin 10)"
    unfolding reached_def cfg(3) by (auto simp: d(3) split: if_splits)
  then show ?thesis using r(1,2) unfolding cfg(3) by (intro exI [of _ gs] exI [of _ d'] exI [of _ p]) (auto simp: pf_row_def)
qed

text \<open>
  The worker publishes the metadata of a position as a parsed object, and the service reads
  it back with \<open>json.loads(str(...))\<close>, which fails on the representation of a dictionary: for the
  worker's own snapshots the weight of a position is never known.  So when the sides agree, a
  cycle sends nothing, however much the weights have changed.
\<close>

theorem weight_changes_are_not_seen:
  assumes "read_snapshot raw = Inr xs" and "jfloat (pm_fee_bps cfg) = Inr b" and "finite_ws target"
    and "list_all (\<lambda>(s, p). from_worker p \<and> current_side p = side_of (dget target s (Fin 0)))
      (current_by_symbol xs)"
    and "\<And>s. weight_of target s \<noteq> 0 \<Longrightarrow> map_of (current_by_symbol xs) s \<noteq> None"
  shows "reconcile_and_publish reliable uuid other cfg raw target prices sent = (Inr 0, sent)"
proof (rule reconcile_settled [OF assms(1-3) same_sides_settled assms(5)])
  show "\<forall>(s, p) \<in> set (current_by_symbol xs). from_worker p \<and> current_side p = side_of (dget target s (Fin 0))"
    using assms(4) by (auto simp: list_all_iff)
qed

definition pf_worker_snapshot :: "jtext option" where
  "pf_worker_snapshot = Some (JText (JObj [(''positions'', JArr [JObj [(''symbol'', JStr ''BTC''),
     (''side'', JStr ''LONG''), (''position_id'', JStr ''p1''),
     (''metadata'', JObj [(''pm_alpha_id'', JStr ''pm''), (''weight'', JNum (Fin (1 / 10)))])]])]))"

theorem weight_changes_are_not_seen_witness:
  "reconcile_and_publish reliable (\<lambda>_. ''u'') (\<lambda>_. Raw '''') pf_config pf_worker_snapshot
     [(''BTC'', Fin 1)] [(''BTC'', Fin 100)] [] = (Inr 0, [])"
proof -
  let ?p = "[(''symbol'', JStr ''BTC''), (''side'', JStr ''LONG''), (''position_id'', JStr ''p1''),
    (''metadata'', JObj [(''pm_alpha_id'', JStr ''pm''), (''weight'', JNum (Fin (1 / 10)))])]"
  have x: "read_snapshot pf_worker_snapshot = Inr [?p]"
    by (simp add: read_snapshot_def pf_worker_snapshot_def dget_def only_objects_def)
  have c: "current_by_symbol [?p] = [(''BTC'', ?p)]" by (simp add: current_by_symbol_def dget_def)
  have f: "jfloat (pm_fee_bps pf_config) = Inr (Fin 7)" by (simp add: pf_config_def)
  show ?thesis
    by (rule weight_changes_are_not_seen [OF x f])
       (auto simp: c finite_ws_def from_worker_def single_quoted_def current_side_def side_of_def dget_def
         weight_of_def split: if_splits)
qed

end
