(* ===== verification/Leases.thy ===== *)
theory Leases
  imports Models
begin

text \<open>
  \<^verbatim>\<open>alphas/runner/lease.py\<close>, the lease a runner holds on an alpha, and the renewal loop of
  \<^verbatim>\<open>alphas/runner/main.py\<close>.  A lease is a key of a Redis server with a time to live.

  The server is outside of the program: it is a record of operations, each with the time it
  runs at, and the locale \<open>key_server\<close> states what is documented of them (SET NX EX, GET,
  EXPIRE, DEL and the expiry of keys).  Everything the runners do is sent through \<open>command\<close>,
  which also models what happens meanwhile: time passes, the other runners act, and a request
  or its reply may be lost.
\<close>

section \<open>The server\<close>

record 's redis =
  r_set_nx :: "real \<Rightarrow> string \<Rightarrow> string \<Rightarrow> int \<Rightarrow> 's \<Rightarrow> bool \<times> 's"
  r_get :: "real \<Rightarrow> string \<Rightarrow> 's \<Rightarrow> string option"
  r_expire :: "real \<Rightarrow> string \<Rightarrow> int \<Rightarrow> 's \<Rightarrow> bool \<times> 's"
  r_del :: "real \<Rightarrow> string \<Rightarrow> 's \<Rightarrow> bool \<times> 's"
  r_has_eval :: bool

locale key_server =
  fixes ops :: "'s redis"
  assumes set_nx: "t \<le> t' \<Longrightarrow> 0 < n \<Longrightarrow> r_set_nx ops t k v n s = (b, s') \<Longrightarrow>
      b = (r_get ops t k s = None) \<and>
      r_get ops t' j s' = (if b \<and> j = k then (if t' < t + of_int n then Some v else None)
                           else r_get ops t' j s)"
    and expire: "t \<le> t' \<Longrightarrow> 0 < n \<Longrightarrow> r_expire ops t k n s = (b, s') \<Longrightarrow>
      b = (r_get ops t k s \<noteq> None) \<and>
      r_get ops t' j s' = (if b \<and> j = k then (if t' < t + of_int n then r_get ops t k s else None)
                           else r_get ops t' j s)"
    and del: "t \<le> t' \<Longrightarrow> r_del ops t k s = (b, s') \<Longrightarrow>
      b = (r_get ops t k s \<noteq> None) \<and>
      r_get ops t' j s' = (if j = k then None else r_get ops t' j s)"
    and no_comeback: "t \<le> t' \<Longrightarrow> r_get ops t' k s = Some v \<Longrightarrow> r_get ops t k s = Some v"

text \<open>A server in memory: a value and the instant it expires at.\<close>

type_synonym memory = "string \<Rightarrow> (string \<times> real) option"

definition memory_get :: "real \<Rightarrow> string \<Rightarrow> memory \<Rightarrow> string option" where
  "memory_get t k s = (case s k of None \<Rightarrow> None | Some (v, d) \<Rightarrow> if t < d then Some v else None)"

definition memory_redis :: "memory redis" where
  "memory_redis =
     \<lparr>r_set_nx = (\<lambda>t k v n s. if memory_get t k s = None then (True, s(k \<mapsto> (v, t + of_int n))) else (False, s)),
      r_get = memory_get,
      r_expire = (\<lambda>t k n s. case memory_get t k s of
          None \<Rightarrow> (False, s) | Some v \<Rightarrow> (True, s(k \<mapsto> (v, t + of_int n)))),
      r_del = (\<lambda>t k s. (memory_get t k s \<noteq> None, s(k := None))),
      r_has_eval = True\<rparr>"

interpretation memory: key_server memory_redis
  by unfold_locales
    (auto simp: memory_redis_def memory_get_def split: if_splits option.splits)

section \<open>LeaseManager\<close>

record lease_manager =
  lm_runner :: string
  lm_ttl :: int

definition lease_key :: "string \<Rightarrow> string" where
  "lease_key alpha_id = ''runner:alpha:lease:'' @ alpha_id"

text \<open>The two Lua scripts: the server runs each of them as one command.\<close>

definition renew_script :: "'s redis \<Rightarrow> string \<Rightarrow> string \<Rightarrow> int \<Rightarrow> real \<Rightarrow> 's \<Rightarrow> bool \<times> 's" where
  "renew_script ops k v n t s = (if r_get ops t k s = Some v then r_expire ops t k n s else (False, s))"

definition release_script :: "'s redis \<Rightarrow> string \<Rightarrow> string \<Rightarrow> real \<Rightarrow> 's \<Rightarrow> bool \<times> 's" where
  "release_script ops k v t s = (if r_get ops t k s = Some v then r_del ops t k s else (False, s))"

text \<open>What the other runners send: each of these is one command of the server.\<close>

datatype foreign = TakeLease lease_manager string | RenewLease lease_manager string
  | DropLease lease_manager string

fun foreign_runner :: "foreign \<Rightarrow> string" where
  "foreign_runner (TakeLease lm a) = lm_runner lm"
| "foreign_runner (RenewLease lm a) = lm_runner lm"
| "foreign_runner (DropLease lm a) = lm_runner lm"

fun foreign_ttl :: "foreign \<Rightarrow> int" where
  "foreign_ttl (TakeLease lm a) = lm_ttl lm"
| "foreign_ttl (RenewLease lm a) = lm_ttl lm"
| "foreign_ttl (DropLease lm a) = lm_ttl lm"

fun foreign_alpha :: "foreign \<Rightarrow> string" where
  "foreign_alpha (TakeLease lm a) = a"
| "foreign_alpha (RenewLease lm a) = a"
| "foreign_alpha (DropLease lm a) = a"

fun foreign_act :: "'s redis \<Rightarrow> foreign \<Rightarrow> real \<Rightarrow> 's \<Rightarrow> 's" where
  "foreign_act ops (TakeLease lm a) t s =
     snd (r_set_nx ops t (lease_key a) (lm_runner lm) (lm_ttl lm) s)"
| "foreign_act ops (RenewLease lm a) t s =
     snd (renew_script ops (lease_key a) (lm_runner lm) (lm_ttl lm) t s)"
| "foreign_act ops (DropLease lm a) t s = snd (release_script ops (lease_key a) (lm_runner lm) t s)"

text \<open>
  What one command meets: how long it takes to get to the server, the commands that run before
  it, and whether its request or its reply is lost.
\<close>

datatype delivery = Answered | LostRequest | LostReply

record meeting =
  mt_delay :: real
  mt_before :: "(real \<times> foreign) list"
  mt_delivery :: delivery

record 's world =
  wd_store :: 's
  wd_now :: real
  wd_meetings :: "meeting list"

definition next_meeting :: "'s world \<Rightarrow> meeting" where
  "next_meeting w = (case wd_meetings w of
       [] \<Rightarrow> \<lparr>mt_delay = 0, mt_before = [], mt_delivery = Answered\<rparr> | m # _ \<Rightarrow> m)"

text \<open>The commands of the others run at offsets from the last command, at most the delay.\<close>

definition interfere :: "'s redis \<Rightarrow> meeting \<Rightarrow> real \<Rightarrow> 's \<Rightarrow> 's" where
  "interfere ops m now s = fold (\<lambda>(dt, f) s. foreign_act ops f (now + dt) s) (mt_before m) s"

definition arrive :: "'s redis \<Rightarrow> 's world \<Rightarrow> 's world" where
  "arrive ops w = (let m = next_meeting w
     in w\<lparr>wd_store := interfere ops m (wd_now w) (wd_store w), wd_now := wd_now w + mt_delay m,
          wd_meetings := tl (wd_meetings w)\<rparr>)"

definition command :: "'s redis \<Rightarrow> (real \<Rightarrow> 's \<Rightarrow> 'a \<times> 's) \<Rightarrow> ('s world, 'a) eff" where
  "command ops c = (\<lambda>w.
     (let w' = arrive ops w; (x, s) = c (wd_now w') (wd_store w')
      in case mt_delivery (next_meeting w) of
           Answered \<Rightarrow> (Inr x, w'\<lparr>wd_store := s\<rparr>)
         | LostRequest \<Rightarrow> (Inl RedisError, w')
         | LostReply \<Rightarrow> (Inl RedisError, w'\<lparr>wd_store := s\<rparr>)))"

definition send_set_nx :: "'s redis \<Rightarrow> string \<Rightarrow> string \<Rightarrow> int \<Rightarrow> ('s world, bool) eff" where
  "send_set_nx ops k v n = command ops (\<lambda>t. r_set_nx ops t k v n)"

definition send_get :: "'s redis \<Rightarrow> string \<Rightarrow> ('s world, string option) eff" where
  "send_get ops k = command ops (\<lambda>t s. (r_get ops t k s, s))"

definition send_expire :: "'s redis \<Rightarrow> string \<Rightarrow> int \<Rightarrow> ('s world, bool) eff" where
  "send_expire ops k n = command ops (\<lambda>t. r_expire ops t k n)"

definition send_del :: "'s redis \<Rightarrow> string \<Rightarrow> ('s world, bool) eff" where
  "send_del ops k = command ops (\<lambda>t. r_del ops t k)"

definition lease_acquire :: "'s redis \<Rightarrow> lease_manager \<Rightarrow> string \<Rightarrow> ('s world, bool) eff" where
  "lease_acquire ops lm alpha_id = send_set_nx ops (lease_key alpha_id) (lm_runner lm) (lm_ttl lm)"

definition lease_is_valid :: "'s redis \<Rightarrow> lease_manager \<Rightarrow> string \<Rightarrow> ('s world, bool) eff" where
  "lease_is_valid ops lm alpha_id =
     bind (send_get ops (lease_key alpha_id)) (\<lambda>v. ret (v = Some (lm_runner lm)))"

definition lease_renew :: "'s redis \<Rightarrow> lease_manager \<Rightarrow> string \<Rightarrow> ('s world, bool) eff" where
  "lease_renew ops lm alpha_id =
     (if r_has_eval ops
      then command ops (renew_script ops (lease_key alpha_id) (lm_runner lm) (lm_ttl lm))
      else bind (send_get ops (lease_key alpha_id)) (\<lambda>v.
           if v \<noteq> Some (lm_runner lm) then ret False
           else send_expire ops (lease_key alpha_id) (lm_ttl lm)))"

definition lease_release :: "'s redis \<Rightarrow> lease_manager \<Rightarrow> string \<Rightarrow> ('s world, bool) eff" where
  "lease_release ops lm alpha_id =
     (if r_has_eval ops
      then command ops (release_script ops (lease_key alpha_id) (lm_runner lm))
      else bind (send_get ops (lease_key alpha_id)) (\<lambda>v.
           if v \<noteq> Some (lm_runner lm) then ret False
           else send_del ops (lease_key alpha_id)))"

section \<open>The renewal loop\<close>

text \<open>
  One round of \<open>renew_strategy_leases\<close> over the alphas of the runner: the flag each strategy is
  left with.  An exception counts as a lease that is gone.
\<close>

definition renew_one :: "'s redis \<Rightarrow> lease_manager \<Rightarrow> string \<Rightarrow> ('s world, bool) eff" where
  "renew_one ops lm alpha_id =
     catch
       (bind (lease_is_valid ops lm alpha_id) (\<lambda>valid.
          if valid then lease_renew ops lm alpha_id else lease_acquire ops lm alpha_id))
       (\<lambda>_. ret False)"

fun renew_round :: "'s redis \<Rightarrow> lease_manager \<Rightarrow> string list \<Rightarrow> ('s world, (string \<times> bool) list) eff" where
  "renew_round ops lm [] = ret []"
| "renew_round ops lm (a # as) =
     bind (renew_one ops lm a) (\<lambda>ok. bind (renew_round ops lm as) (\<lambda>flags. ret ((a, ok) # flags)))"

text \<open>The loop gives up when no lease is left.\<close>

definition keeps_renewing :: "(string \<times> bool) list \<Rightarrow> bool" where
  "keeps_renewing flags \<longleftrightarrow> flags = [] \<or> (\<exists>(a, ok) \<in> set flags. ok)"

section \<open>What is held and until when\<close>

text \<open>
  \<open>held_until ops now d k v s\<close>: if nobody but the clock acts, the key holds \<open>v\<close> from now on
  until \<open>d\<close>.  \<open>never_held\<close>: it will not hold \<open>v\<close>.
\<close>

definition held_until :: "'s redis \<Rightarrow> real \<Rightarrow> real \<Rightarrow> string \<Rightarrow> string \<Rightarrow> 's \<Rightarrow> bool" where
  "held_until ops now d k v s \<longleftrightarrow> (\<forall>t. now \<le> t \<longrightarrow> t < d \<longrightarrow> r_get ops t k s = Some v)"

definition never_held :: "'s redis \<Rightarrow> real \<Rightarrow> string \<Rightarrow> string \<Rightarrow> 's \<Rightarrow> bool" where
  "never_held ops now k v s \<longleftrightarrow> (\<forall>t. now \<le> t \<longrightarrow> r_get ops t k s \<noteq> Some v)"

text \<open>A meeting in which only other runners than \<open>r\<close> act, in the order of their times.\<close>

definition well_met :: "string \<Rightarrow> meeting \<Rightarrow> bool" where
  "well_met r m \<longleftrightarrow> 0 \<le> mt_delay m \<and> sorted (map fst (mt_before m)) \<and>
     (\<forall>(dt, f) \<in> set (mt_before m). 0 \<le> dt \<and> dt \<le> mt_delay m \<and> foreign_runner f \<noteq> r \<and> 0 < foreign_ttl f)"

definition good_world :: "string \<Rightarrow> 's world \<Rightarrow> bool" where
  "good_world r w \<longleftrightarrow> (\<forall>m \<in> set (wd_meetings w). well_met r m)"

lemma lease_key_inject [simp]: "lease_key a = lease_key b \<longleftrightarrow> a = b"
  by (simp add: lease_key_def)

lemma held_until_later: "held_until ops now d k v s \<Longrightarrow> now \<le> now' \<Longrightarrow> held_until ops now' d k v s"
  by (auto simp: held_until_def)

lemma never_held_later: "never_held ops now k v s \<Longrightarrow> now \<le> now' \<Longrightarrow> never_held ops now' k v s"
  by (auto simp: never_held_def)

lemma well_met_next: "good_world r w \<Longrightarrow> well_met r (next_meeting w)"
  by (cases "wd_meetings w") (auto simp: good_world_def next_meeting_def well_met_def)

lemma arrive_simps [simp]:
  "wd_now (arrive ops w) = wd_now w + mt_delay (next_meeting w)"
  "wd_meetings (arrive ops w) = tl (wd_meetings w)"
  "wd_store (arrive ops w) = interfere ops (next_meeting w) (wd_now w) (wd_store w)"
  by (simp_all add: arrive_def Let_def)

lemma command_world:
  assumes "good_world r w"
  shows "good_world r (snd (command ops c w))" "wd_now w \<le> wd_now (snd (command ops c w))"
proof -
  have "0 \<le> mt_delay (next_meeting w)" using well_met_next [OF assms] by (simp add: well_met_def)
  then show "wd_now w \<le> wd_now (snd (command ops c w))"
    by (auto simp: command_def Let_def split: prod.splits delivery.splits)
  show "good_world r (snd (command ops c w))"
    using assms list.set_sel(2) [of "wd_meetings w"]
    by (cases "wd_meetings w")
      (auto simp: good_world_def command_def Let_def split: prod.splits delivery.splits)
qed

lemma command_Answered:
  assumes "command ops c w = (Inr x, w')"
  shows "c (wd_now w') (wd_store (arrive ops w)) = (x, wd_store w')"
    "wd_now w' = wd_now (arrive ops w)" "wd_meetings w' = tl (wd_meetings w)"
  using assms by (auto simp: command_def Let_def split: prod.splits delivery.splits)

lemma command_Lost:
  assumes "command ops c w = (Inl e, w')"
  shows "wd_now w' = wd_now (arrive ops w)" "wd_meetings w' = tl (wd_meetings w)"
    "wd_store w' = wd_store (arrive ops w) \<or> wd_store w' = snd (c (wd_now w') (wd_store (arrive ops w)))"
  using assms by (auto simp: command_def Let_def split: prod.splits delivery.splits)

context key_server
begin

lemma foreign_keeps:
  assumes "now \<le> t0" "foreign_runner f \<noteq> v" "0 < foreign_ttl f"
  shows "held_until ops now d (lease_key a) v s \<Longrightarrow>
           held_until ops t0 d (lease_key a) v (foreign_act ops f t0 s)"
    and "never_held ops now (lease_key a) v s \<Longrightarrow>
           never_held ops t0 (lease_key a) v (foreign_act ops f t0 s)"
proof -
  have step: "r_get ops t (lease_key a) (foreign_act ops f t0 s) = r_get ops t (lease_key a) s \<or>
      (r_get ops t0 (lease_key a) s \<noteq> Some v \<and>
       r_get ops t (lease_key a) (foreign_act ops f t0 s) \<noteq> Some v)" if "t0 \<le> t" for t
  proof (cases f)
    case (TakeLease lm b)
    obtain z s' where r: "r_set_nx ops t0 (lease_key b) (lm_runner lm) (lm_ttl lm) s = (z, s')" by fastforce
    show ?thesis using set_nx [OF that _ r, of "lease_key a"] assms TakeLease r by auto
  next
    case (RenewLease lm b)
    obtain z s' where r: "r_expire ops t0 (lease_key b) (lm_ttl lm) s = (z, s')" by fastforce
    show ?thesis
      using expire [OF that _ r, of "lease_key a"] assms RenewLease r by (auto simp: renew_script_def)
  next
    case (DropLease lm b)
    obtain z s' where r: "r_del ops t0 (lease_key b) s = (z, s')" by fastforce
    show ?thesis
      using del [OF that r, of "lease_key a"] assms DropLease r by (auto simp: release_script_def)
  qed
  show "held_until ops t0 d (lease_key a) v (foreign_act ops f t0 s)"
    if h: "held_until ops now d (lease_key a) v s"
    unfolding held_until_def
  proof (intro allI impI)
    fix t assume t: "t0 \<le> t" "t < d"
    have "r_get ops t (lease_key a) s = Some v" "r_get ops t0 (lease_key a) s = Some v"
      using h t assms(1) by (auto simp: held_until_def)
    with step [OF t(1)] show "r_get ops t (lease_key a) (foreign_act ops f t0 s) = Some v" by simp
  qed
  show "never_held ops t0 (lease_key a) v (foreign_act ops f t0 s)"
    if "never_held ops now (lease_key a) v s"
    unfolding never_held_def
  proof (intro allI impI)
    fix t assume t: "t0 \<le> t"
    have "r_get ops t (lease_key a) s \<noteq> Some v" using that t assms(1) by (simp add: never_held_def)
    with step [OF t] show "r_get ops t (lease_key a) (foreign_act ops f t0 s) \<noteq> Some v" by metis
  qed
qed

text \<open>A run of the others, in the order of time.\<close>

lemma foreigners_keep:
  assumes "sorted (map fst fs)"
    and "\<And>t f. (t, f) \<in> set fs \<Longrightarrow> now \<le> t \<and> t \<le> t1 \<and> foreign_runner f \<noteq> v \<and> 0 < foreign_ttl f"
    and "now \<le> t1"
  shows "held_until ops now d (lease_key a) v s \<Longrightarrow>
           held_until ops t1 d (lease_key a) v (fold (\<lambda>(t, f). foreign_act ops f t) fs s)"
    and "never_held ops now (lease_key a) v s \<Longrightarrow>
           never_held ops t1 (lease_key a) v (fold (\<lambda>(t, f). foreign_act ops f t) fs s)"
  using assms
proof (induction fs arbitrary: now s)
  case Nil
  { case 1 then show ?case by (simp add: held_until_later) }
  { case 2 then show ?case by (simp add: never_held_later) }
next
  case (Cons p fs)
  obtain t0 f where p: "p = (t0, f)" by (cases p)
  { case 1
    have h: "now \<le> t0" "t0 \<le> t1" "foreign_runner f \<noteq> v" "0 < foreign_ttl f" using 1(3) [of t0 f] by (auto simp: p)
    from Cons.IH(1) [OF foreign_keeps(1) [OF h(1,3,4) 1(1)] _ _ h(2)] 1 show ?case by (fastforce simp: p) }
  { case 2
    have h: "now \<le> t0" "t0 \<le> t1" "foreign_runner f \<noteq> v" "0 < foreign_ttl f" using 2(3) [of t0 f] by (auto simp: p)
    from Cons.IH(2) [OF foreign_keeps(2) [OF h(1,3,4) 2(1)] _ _ h(2)] 2 show ?case by (fastforce simp: p) }
qed

lemma interfere_keeps:
  assumes "well_met v m"
  shows "held_until ops now d (lease_key a) v s \<Longrightarrow>
           held_until ops (now + mt_delay m) d (lease_key a) v (interfere ops m now s)"
    and "never_held ops now (lease_key a) v s \<Longrightarrow>
           never_held ops (now + mt_delay m) (lease_key a) v (interfere ops m now s)"
proof -
  let ?fs = "map (\<lambda>(dt, f). (now + dt, f)) (mt_before m)"
  have eq: "interfere ops m now s = fold (\<lambda>(t, f). foreign_act ops f t) ?fs s"
    by (simp add: interfere_def fold_map comp_def split_def)
  have "sorted (map fst ?fs)"
  proof -
    have "sorted (map fst (map (\<lambda>(dt, f). (now + dt, f)) xs))" if "sorted (map fst xs)" for xs :: "(real \<times> foreign) list"
      using that by (induction xs) auto
    then show ?thesis using assms by (simp add: well_met_def)
  qed
  moreover have "now \<le> t \<and> t \<le> now + mt_delay m \<and> foreign_runner f \<noteq> v \<and> 0 < foreign_ttl f"
    if "(t, f) \<in> set ?fs" for t f
    using that assms by (auto simp: well_met_def)
  moreover have "now \<le> now + mt_delay m" using assms by (simp add: well_met_def)
  ultimately show "held_until ops now d (lease_key a) v s \<Longrightarrow>
      held_until ops (now + mt_delay m) d (lease_key a) v (interfere ops m now s)"
    and "never_held ops now (lease_key a) v s \<Longrightarrow>
      never_held ops (now + mt_delay m) (lease_key a) v (interfere ops m now s)"
    unfolding eq using foreigners_keep [of ?fs now "now + mt_delay m" v] by blast+
qed

end

section \<open>Commands of the runner itself\<close>

text \<open>A command that, from the time it runs at, changes nothing but the key \<open>k\<close>.\<close>

definition only_touches :: "'s redis \<Rightarrow> string \<Rightarrow> (real \<Rightarrow> 's \<Rightarrow> 'a \<times> 's) \<Rightarrow> bool" where
  "only_touches ops k c \<longleftrightarrow>
     (\<forall>t s t' j. t \<le> t' \<longrightarrow> j \<noteq> k \<longrightarrow> r_get ops t' j (snd (c t s)) = r_get ops t' j s)"

lemma only_touches_held:
  assumes "only_touches ops k c" "j \<noteq> k"
  shows "held_until ops t d j v s \<Longrightarrow> held_until ops t d j v (snd (c t s))"
    and "never_held ops t j v s \<Longrightarrow> never_held ops t j v (snd (c t s))"
  using assms by (auto simp: only_touches_def held_until_def never_held_def)

context key_server
begin

lemma script_touches:
  assumes "0 < n"
  shows "only_touches ops k (\<lambda>t. r_set_nx ops t k v n)" "only_touches ops k (\<lambda>t. r_expire ops t k n)"
    "only_touches ops k (\<lambda>t. r_del ops t k)" "only_touches ops k (renew_script ops k v n)"
    "only_touches ops k (release_script ops k v)" "only_touches ops k (\<lambda>t s. (r_get ops t k s, s))"
proof -
  have e: "r_get ops t' j (snd (r_expire ops t k n s)) = r_get ops t' j s" if "t \<le> t'" "j \<noteq> k" for t t' j s
    using expire [OF that(1) assms, of k s _ _ j] that(2) by (metis prod.collapse)
  have d: "r_get ops t' j (snd (r_del ops t k s)) = r_get ops t' j s" if "t \<le> t'" "j \<noteq> k" for t t' j s
    using del [OF that(1), of k s _ _ j] that(2) by (metis prod.collapse)
  show "only_touches ops k (\<lambda>t. r_set_nx ops t k v n)"
    unfolding only_touches_def using set_nx [OF _ assms] by (metis prod.collapse)
  show "only_touches ops k (\<lambda>t. r_expire ops t k n)" "only_touches ops k (\<lambda>t. r_del ops t k)"
    "only_touches ops k (renew_script ops k v n)" "only_touches ops k (release_script ops k v)"
    "only_touches ops k (\<lambda>t s. (r_get ops t k s, s))"
    using e d by (simp_all add: only_touches_def renew_script_def release_script_def)
qed

lemma arrive_keeps:
  assumes "good_world v w"
  shows "held_until ops (wd_now w) d (lease_key a) v (wd_store w) \<Longrightarrow>
      held_until ops (wd_now (arrive ops w)) d (lease_key a) v (wd_store (arrive ops w))"
    and "never_held ops (wd_now w) (lease_key a) v (wd_store w) \<Longrightarrow>
      never_held ops (wd_now (arrive ops w)) (lease_key a) v (wd_store (arrive ops w))"
  using interfere_keeps [OF well_met_next [OF assms]] by simp_all

lemma command_elsewhere:
  assumes "good_world v w" "only_touches ops k c" "lease_key a \<noteq> k" "command ops c w = (r, w')"
  shows "held_until ops (wd_now w) d (lease_key a) v (wd_store w) \<Longrightarrow>
      held_until ops (wd_now w') d (lease_key a) v (wd_store w')"
    and "never_held ops (wd_now w) (lease_key a) v (wd_store w) \<Longrightarrow>
      never_held ops (wd_now w') (lease_key a) v (wd_store w')"
proof -
  have "wd_now w' = wd_now (arrive ops w)"
    "wd_store w' = wd_store (arrive ops w) \<or> wd_store w' = snd (c (wd_now w') (wd_store (arrive ops w)))"
    using command_Answered(1,2) [of ops c w _ w'] command_Lost [of ops c w _ w'] assms(4)
    by (cases r; fastforce)+
  then show "held_until ops (wd_now w) d (lease_key a) v (wd_store w) \<Longrightarrow>
      held_until ops (wd_now w') d (lease_key a) v (wd_store w')"
    and "never_held ops (wd_now w) (lease_key a) v (wd_store w) \<Longrightarrow>
      never_held ops (wd_now w') (lease_key a) v (wd_store w')"
    using only_touches_held [OF assms(2,3)] arrive_keeps [OF assms(1)] by auto
qed

lemma set_nx_taken:
  assumes "0 < n" "send_set_nx ops k v n w = (Inr True, w')"
  shows "held_until ops (wd_now w') (wd_now w' + of_int n) k v (wd_store w')"
  using command_Answered(1) [OF assms(2) [unfolded send_set_nx_def]] set_nx [OF _ assms(1)]
  by (fastforce simp: held_until_def)

lemma renew_script_taken:
  assumes "0 < n" "renew_script ops k v n t s = (True, s')"
  shows "held_until ops t (t + of_int n) k v s'"
proof -
  have "r_get ops t k s = Some v" "r_expire ops t k n s = (True, s')"
    using assms(2) by (auto simp: renew_script_def split: if_splits)
  then show ?thesis using expire [OF _ assms(1)] by (fastforce simp: held_until_def)
qed

lemma renew_taken:
  assumes "0 < lm_ttl lm" "r_has_eval ops" "lease_renew ops lm a w = (Inr True, w')"
  shows "held_until ops (wd_now w') (wd_now w' + of_int (lm_ttl lm)) (lease_key a) (lm_runner lm) (wd_store w')"
  using renew_script_taken [OF assms(1) command_Answered(1)] assms(2,3)
  by (simp add: lease_renew_def)

text \<open>A flag that is set after a round of renewals stands for a full time to live.\<close>

lemma renew_one_taken:
  assumes "0 < lm_ttl lm" "r_has_eval ops" "renew_one ops lm a w = (Inr True, w')"
  shows "held_until ops (wd_now w') (wd_now w' + of_int (lm_ttl lm)) (lease_key a) (lm_runner lm) (wd_store w')"
  using assms(3) renew_taken [OF assms(1,2)] set_nx_taken [OF assms(1)]
  by (auto simp: renew_one_def catch_def bind_def lease_acquire_def
      split: prod.splits sum.splits if_splits)

end

section \<open>At most one runner\<close>

text \<open>
  All runners and the server together: \<open>ls_since r a\<close> is the time of the last answer that told
  the runner \<open>r\<close> it holds the lease of \<open>a\<close>, \<open>None\<close> when the last answer said otherwise or did
  not arrive.  A step is one command of one runner, or time that passes.
\<close>

record 's lease_system =
  ls_store :: 's
  ls_now :: real
  ls_since :: "string \<Rightarrow> string \<Rightarrow> real option"

definition note_answer :: "string \<Rightarrow> string \<Rightarrow> real option \<Rightarrow> 's lease_system \<Rightarrow> 's lease_system" where
  "note_answer r a v ls = ls\<lparr>ls_since := (ls_since ls)(r := (ls_since ls r)(a := v))\<rparr>"

text \<open>
  A call that takes or renews a lease, with its fate: a request that is lost changes nothing, a
  reply that is lost leaves the runner in the belief that it has no lease.
\<close>

definition lease_call ::
  "(real \<Rightarrow> 's \<Rightarrow> bool \<times> 's) \<Rightarrow> delivery \<Rightarrow> string \<Rightarrow> string \<Rightarrow> 's lease_system \<Rightarrow> 's lease_system" where
  "lease_call c dl r a ls = (let (ok, s) = c (ls_now ls) (ls_store ls) in case dl of
       Answered \<Rightarrow> note_answer r a (if ok then Some (ls_now ls) else None) (ls\<lparr>ls_store := s\<rparr>)
     | LostRequest \<Rightarrow> note_answer r a None ls
     | LostReply \<Rightarrow> note_answer r a None (ls\<lparr>ls_store := s\<rparr>))"

text \<open>
  A call of \<open>LeaseManager\<close> in the system: the world it runs in is the server now, with one command that
  meets the fate \<open>dl\<close>; the runner believes a call that returns \<open>True\<close>, from the time its command ran at.
\<close>

definition lease_world :: "delivery \<Rightarrow> 's lease_system \<Rightarrow> 's world" where
  "lease_world dl ls = \<lparr>wd_store = ls_store ls, wd_now = ls_now ls,
     wd_meetings = [\<lparr>mt_delay = 0, mt_before = [], mt_delivery = dl\<rparr>]\<rparr>"

definition lease_step ::
  "('s world, bool) eff \<Rightarrow> delivery \<Rightarrow> string \<Rightarrow> string \<Rightarrow> 's lease_system \<Rightarrow> 's lease_system" where
  "lease_step m dl r a ls = (let (x, w) = m (lease_world dl ls)
     in note_answer r a (if x = Inr True then Some (wd_now w) else None) (ls\<lparr>ls_store := wd_store w, ls_now := wd_now w\<rparr>))"

text \<open>A runner that gives a lease back no longer counts on it, whatever the call returns.\<close>

inductive lease_reachable :: "'s redis \<Rightarrow> (string \<Rightarrow> int) \<Rightarrow> 's lease_system \<Rightarrow> bool"
  for ops :: "'s redis" and ttl :: "string \<Rightarrow> int" where
  start: "lease_reachable ops ttl \<lparr>ls_store = s, ls_now = t, ls_since = (\<lambda>_ _. None)\<rparr>"
| wait: "lease_reachable ops ttl ls \<Longrightarrow> 0 \<le> dt \<Longrightarrow>
    lease_reachable ops ttl (ls\<lparr>ls_now := ls_now ls + dt\<rparr>)"
| acquire: "lease_reachable ops ttl ls \<Longrightarrow>
    lease_reachable ops ttl (lease_step (lease_acquire ops \<lparr>lm_runner = r, lm_ttl = ttl r\<rparr> a) dl r a ls)"
| renew: "lease_reachable ops ttl ls \<Longrightarrow>
    lease_reachable ops ttl (lease_step (lease_renew ops \<lparr>lm_runner = r, lm_ttl = ttl r\<rparr> a) dl r a ls)"
| release: "lease_reachable ops ttl ls \<Longrightarrow>
    lease_reachable ops ttl (note_answer r a None
      (lease_step (lease_release ops \<lparr>lm_runner = r, lm_ttl = ttl r\<rparr> a) dl r a ls))"

text \<open>Each of them is one command of the server.\<close>

lemma lease_step_command: "lease_step (command ops c) dl r a ls = lease_call c dl r a ls"
  by (cases dl)
    (auto simp: lease_step_def lease_world_def lease_call_def command_def arrive_def next_meeting_def interfere_def
      note_answer_def Let_def split: prod.splits)

lemma lease_step_acquire:
  "lease_step (lease_acquire ops \<lparr>lm_runner = r, lm_ttl = n\<rparr> a) dl r a ls = lease_call (\<lambda>t. r_set_nx ops t (lease_key a) r n) dl r a ls"
  by (simp add: lease_acquire_def send_set_nx_def lease_step_command)

lemma lease_step_renew:
  "r_has_eval ops \<Longrightarrow>
   lease_step (lease_renew ops \<lparr>lm_runner = r, lm_ttl = n\<rparr> a) dl r a ls = lease_call (renew_script ops (lease_key a) r n) dl r a ls"
  by (simp add: lease_renew_def lease_step_command)

lemma lease_step_release:
  "r_has_eval ops \<Longrightarrow>
   lease_step (lease_release ops \<lparr>lm_runner = r, lm_ttl = n\<rparr> a) dl r a ls = lease_call (release_script ops (lease_key a) r) dl r a ls"
  by (simp add: lease_release_def lease_step_command)

lemma note_answer_lease_call:
  "note_answer r a None (lease_call c dl r a ls) =
   note_answer r a None (lease_call (\<lambda>t s. (False, snd (c t s))) dl r a ls)"
  by (cases dl) (simp_all add: lease_call_def note_answer_def Let_def split: prod.splits)

definition beliefs_held :: "'s redis \<Rightarrow> (string \<Rightarrow> int) \<Rightarrow> 's lease_system \<Rightarrow> bool" where
  "beliefs_held ops ttl ls \<longleftrightarrow> (\<forall>r a t. ls_since ls r a = Some t \<longrightarrow>
     held_until ops (ls_now ls) (t + of_int (ttl r)) (lease_key a) r (ls_store ls))"

lemma note_answer_None:
  "beliefs_held ops ttl ls \<Longrightarrow> beliefs_held ops ttl (note_answer r a None ls)"
  by (auto simp: beliefs_held_def note_answer_def)

context key_server
begin

text \<open>
  A command about the lease of \<open>a\<close> that \<open>r\<close> sends keeps every belief but possibly that of \<open>r\<close>
  about \<open>a\<close>.
\<close>

lemma call_keeps_beliefs:
  assumes inv: "beliefs_held ops ttl ls" and touch: "only_touches ops (lease_key a) c"
    and other: "\<And>v d. v \<noteq> r \<Longrightarrow> held_until ops (ls_now ls) d (lease_key a) v (ls_store ls) \<Longrightarrow>
        held_until ops (ls_now ls) d (lease_key a) v (snd (c (ls_now ls) (ls_store ls)))"
    and own: "\<And>s'. c (ls_now ls) (ls_store ls) = (True, s') \<Longrightarrow>
        held_until ops (ls_now ls) (ls_now ls + of_int (ttl r)) (lease_key a) r s'"
  shows "beliefs_held ops ttl (lease_call c dl r a ls)"
proof -
  obtain ok s where c: "c (ls_now ls) (ls_store ls) = (ok, s)" by fastforce
  have keep: "beliefs_held ops ttl (note_answer r a None (ls\<lparr>ls_store := s\<rparr>))"
    unfolding beliefs_held_def
  proof (intro allI impI)
    fix r' a' t assume "ls_since (note_answer r a None (ls\<lparr>ls_store := s\<rparr>)) r' a' = Some t"
    then have b: "ls_since ls r' a' = Some t" "r' \<noteq> r \<or> a' \<noteq> a"
      by (auto simp: note_answer_def split: if_splits)
    then have h: "held_until ops (ls_now ls) (t + of_int (ttl r')) (lease_key a') r' (ls_store ls)"
      using inv by (simp add: beliefs_held_def)
    have "held_until ops (ls_now ls) (t + of_int (ttl r')) (lease_key a') r' s"
    proof (cases "a' = a")
      case True
      with b(2) have "r' \<noteq> r" by simp
      from other [OF this] h True c show ?thesis by simp
    next
      case False
      then show ?thesis using only_touches_held(1) [OF touch _ h] c by simp
    qed
    then show "held_until ops (ls_now (note_answer r a None (ls\<lparr>ls_store := s\<rparr>))) (t + of_int (ttl r'))
        (lease_key a') r' (ls_store (note_answer r a None (ls\<lparr>ls_store := s\<rparr>)))"
      by (simp add: note_answer_def)
  qed
  show ?thesis
  proof (cases "dl = Answered \<and> ok")
    case True
    with own c have "held_until ops (ls_now ls) (ls_now ls + of_int (ttl r)) (lease_key a) r s" by simp
    with keep True c show ?thesis
      by (auto simp: lease_call_def beliefs_held_def note_answer_def)
  next
    case False
    with keep c note_answer_None [OF inv] show ?thesis by (cases dl) (auto simp: lease_call_def)
  qed
qed

lemma release_touches: "only_touches ops k (\<lambda>t s. (False, snd (release_script ops k v t s)))"
  using script_touches(5) [of 1 k v] by (simp add: only_touches_def)

lemma beliefs_heldD:
  "beliefs_held ops ttl ls \<Longrightarrow> ls_since ls r a = Some t \<Longrightarrow>
     held_until ops (ls_now ls) (t + of_int (ttl r)) (lease_key a) r (ls_store ls)"
  by (simp add: beliefs_held_def)

lemma reachable_beliefs:
  assumes "lease_reachable ops ttl ls" and ttl: "\<And>r. 0 < ttl r" and eval: "r_has_eval ops"
  shows "beliefs_held ops ttl ls"
  using assms(1)
proof (induction rule: lease_reachable.induct)
  case (start s t)
  then show ?case by (simp add: beliefs_held_def)
next
  case (wait ls dt)
  show ?case
    unfolding beliefs_held_def
    using held_until_later [OF beliefs_heldD [OF wait.IH], of _ _ _ "ls_now ls + dt"] wait.hyps by auto
next
  case (acquire ls r a dl)
  show ?case unfolding lease_step_acquire
  proof (rule call_keeps_beliefs [OF acquire.IH script_touches(1) [OF ttl]])
    fix v d assume "v \<noteq> r" "held_until ops (ls_now ls) d (lease_key a) v (ls_store ls)"
    then show "held_until ops (ls_now ls) d (lease_key a) v
        (snd (r_set_nx ops (ls_now ls) (lease_key a) r (ttl r) (ls_store ls)))"
      using foreign_keeps(1) [of "ls_now ls" "ls_now ls" "TakeLease \<lparr>lm_runner = r, lm_ttl = ttl r\<rparr> a" v d a] ttl
      by simp
  next
    fix s' assume "r_set_nx ops (ls_now ls) (lease_key a) r (ttl r) (ls_store ls) = (True, s')"
    then show "held_until ops (ls_now ls) (ls_now ls + of_int (ttl r)) (lease_key a) r s'"
      using set_nx [OF _ ttl] by (fastforce simp: held_until_def)
  qed
next
  case (renew ls r a dl)
  show ?case unfolding lease_step_renew [OF eval]
  proof (rule call_keeps_beliefs [OF renew.IH script_touches(4) [OF ttl]])
    fix v d assume "v \<noteq> r" "held_until ops (ls_now ls) d (lease_key a) v (ls_store ls)"
    then show "held_until ops (ls_now ls) d (lease_key a) v
        (snd (renew_script ops (lease_key a) r (ttl r) (ls_now ls) (ls_store ls)))"
      using foreign_keeps(1) [of "ls_now ls" "ls_now ls" "RenewLease \<lparr>lm_runner = r, lm_ttl = ttl r\<rparr> a" v d a] ttl
      by simp
  next
    fix s' assume "renew_script ops (lease_key a) r (ttl r) (ls_now ls) (ls_store ls) = (True, s')"
    then show "held_until ops (ls_now ls) (ls_now ls + of_int (ttl r)) (lease_key a) r s'"
      by (rule renew_script_taken [OF ttl])
  qed
next
  case (release ls r a dl)
  show ?case unfolding lease_step_release [OF eval] note_answer_lease_call [of r a "release_script ops (lease_key a) r"]
  proof (rule note_answer_None, rule call_keeps_beliefs [OF release.IH release_touches])
    fix v d assume "v \<noteq> r" "held_until ops (ls_now ls) d (lease_key a) v (ls_store ls)"
    then show "held_until ops (ls_now ls) d (lease_key a) v
        (snd (False, snd (release_script ops (lease_key a) r (ls_now ls) (ls_store ls))))"
      using foreign_keeps(1) [of "ls_now ls" "ls_now ls" "DropLease \<lparr>lm_runner = r, lm_ttl = ttl r\<rparr> a" v d a] ttl
      by simp
  qed simp
qed

lemma at_most_one:
  assumes "lease_reachable ops ttl ls" and "\<And>r. 0 < ttl r" and "r_has_eval ops"
    and "ls_since ls r a = Some t" "ls_now ls < t + of_int (ttl r)"
    and "ls_since ls r' a = Some t'" "ls_now ls < t' + of_int (ttl r')"
  shows "r = r'"
proof -
  note b = beliefs_heldD [OF reachable_beliefs [OF assms(1,2,3)]]
  have "r_get ops (ls_now ls) (lease_key a) (ls_store ls) = Some r"
    using b [OF assms(4)] assms(5) by (simp add: held_until_def)
  moreover have "r_get ops (ls_now ls) (lease_key a) (ls_store ls) = Some r'"
    using b [OF assms(6)] assms(7) by (simp add: held_until_def)
  ultimately show ?thesis by simp
qed

end

end
