(* ===== verification/Claims.thy ===== *)
theory Claims
  imports Leases "HOL-Library.List_Lexorder" "HOL-Library.Char_ord" "HOL-Library.Multiset"
begin

text \<open>
  \<^verbatim>\<open>alphas/runner/alpha_claim.py\<close> and \<^verbatim>\<open>alphas/runner/periodic_claim.py\<close>: how a runner picks the
  alphas it will run.  Configurations are grouped by the time frames they need, a group is
  claimed lease by lease, and a group that cannot be claimed as a whole is given back.  The
  commands go through \<open>command\<close>, so other runners may act between any two of them.
\<close>

section \<open>Grouping\<close>

text \<open>
  A configuration, by the fields this code reads; \<open>cf_tf_set\<close> is \<open>None\<close> when the key is missing.
\<close>

record alpha_config =
  cf_alpha_id :: string
  cf_tf_set :: "string list option"
  cf_enabled :: bool

record alpha_group =
  ag_tf_key :: string
  ag_tf_set :: "string list"
  ag_alpha_ids :: "string list"
  ag_configs :: "alpha_config list"

definition tf_set_of :: "alpha_config \<Rightarrow> string list" where
  "tf_set_of cfg = sort (case cf_tf_set cfg of None \<Rightarrow> [''1m''] | Some tfs \<Rightarrow> tfs)"

text \<open>\<open>",".join(xs)\<close>.\<close>

fun join_comma :: "string list \<Rightarrow> string" where
  "join_comma [] = ''''"
| "join_comma [x] = x"
| "join_comma (x # y # xs) = x @ '','' @ join_comma (y # xs)"

text \<open>\<open>by_tf.setdefault(tf_key, []).append(cfg)\<close>.\<close>

definition add_by_tf ::
  "alpha_config \<Rightarrow> (string, alpha_config list) dict \<Rightarrow> (string, alpha_config list) dict" where
  "add_by_tf cfg d = (let k = join_comma (tf_set_of cfg) in dset k (dget d k [] @ [cfg]) d)"

text \<open>The slices \<open>xs[i : i + n]\<close> for \<open>i\<close> in \<open>range(0, len(xs), n)\<close>.\<close>

function chunks :: "nat \<Rightarrow> 'a list \<Rightarrow> 'a list list" where
  "chunks n xs = (if xs = [] \<or> n = 0 then [] else take n xs # chunks n (drop n xs))"
  by pat_completeness auto
termination by (relation "measure (\<lambda>(n, xs). length xs)") auto

declare chunks.simps [simp del]

definition groups_of :: "nat \<Rightarrow> string \<times> alpha_config list \<Rightarrow> alpha_group list" where
  "groups_of n p = map (\<lambda>chunk. \<lparr>ag_tf_key = fst p, ag_tf_set = tf_set_of (hd (snd p)),
       ag_alpha_ids = map cf_alpha_id chunk, ag_configs = chunk\<rparr>) (chunks n (snd p))"

text \<open>
  \<open>range(0, n, 0)\<close> raises; with a negative step it is empty.  The sort is stable, also with
  \<open>reverse=True\<close>.
\<close>

definition group_alphas_by_tf_set :: "alpha_config list \<Rightarrow> int \<Rightarrow> alpha_group list res" where
  "group_alphas_by_tf_set configs max_alphas_per_runner =
     (let by_tf = fold add_by_tf configs []
      in if max_alphas_per_runner = 0 \<and> by_tf \<noteq> []
         then Inl (ValueError ''range() arg 3 must not be zero'')
         else Inr (sort_key (\<lambda>g. - int (length (ag_alpha_ids g)))
                (concat (map (groups_of (nat max_alphas_per_runner)) by_tf))))"

section \<open>Claiming one group\<close>

text \<open>
  \<open>_release_lease\<close>: compare-and-delete in one script; if the script cannot be run, read and
  delete in two commands.
\<close>

definition release_claimed :: "'s redis \<Rightarrow> string \<Rightarrow> string \<Rightarrow> ('s world, unit) eff" where
  "release_claimed ops runner_id alpha_id =
     catch (then_do (command ops (release_script ops (lease_key alpha_id) runner_id)) (ret ()))
       (\<lambda>_. bind (send_get ops (lease_key alpha_id)) (\<lambda>existing.
          if existing = Some runner_id
          then then_do (send_del ops (lease_key alpha_id)) (ret ()) else ret ()))"

fun claim_each ::
  "'s redis \<Rightarrow> string \<Rightarrow> int \<Rightarrow> string list \<Rightarrow> string list \<Rightarrow> ('s world, bool) eff" where
  "claim_each ops runner_id ttl [] acquired = ret True"
| "claim_each ops runner_id ttl (a # as) acquired =
     bind (send_set_nx ops (lease_key a) runner_id ttl) (\<lambda>ok.
     if ok then claim_each ops runner_id ttl as (acquired @ [a])
     else bind (send_get ops (lease_key a)) (\<lambda>owner.
          if owner = Some runner_id
          then then_do (send_expire ops (lease_key a) ttl)
                 (claim_each ops runner_id ttl as (acquired @ [a]))
          else then_do (for_each (release_claimed ops runner_id) acquired) (ret False)))"

definition claim_alpha_group :: "'s redis \<Rightarrow> string \<Rightarrow> int \<Rightarrow> alpha_group \<Rightarrow> ('s world, bool) eff" where
  "claim_alpha_group ops runner_id ttl g = claim_each ops runner_id ttl (ag_alpha_ids g) []"

section \<open>Claiming up to the capacity\<close>

definition shorten :: "nat \<Rightarrow> alpha_group \<Rightarrow> alpha_group" where
  "shorten slots g = (if slots < length (ag_configs g)
     then g\<lparr>ag_alpha_ids := take slots (ag_alpha_ids g), ag_configs := take slots (ag_configs g)\<rparr>
     else g)"

fun claim_groups ::
  "'s redis \<Rightarrow> string \<Rightarrow> int \<Rightarrow> int \<Rightarrow> alpha_group list \<Rightarrow> alpha_config list
     \<Rightarrow> ('s world, alpha_config list) eff" where
  "claim_groups ops runner_id ttl remaining [] claimed = ret claimed"
| "claim_groups ops runner_id ttl remaining (g # gs) claimed =
     (let slots = remaining - int (length claimed)
      in if slots \<le> 0 then ret claimed
         else bind (claim_alpha_group ops runner_id ttl (shorten (nat slots) g)) (\<lambda>ok.
              claim_groups ops runner_id ttl remaining gs
                (if ok then claimed @ ag_configs (shorten (nat slots) g) else claimed)))"

definition claim_alpha_groups ::
  "'s redis \<Rightarrow> string \<Rightarrow> alpha_config list \<Rightarrow> int \<Rightarrow> int \<Rightarrow> int \<Rightarrow> ('s world, alpha_config list) eff" where
  "claim_alpha_groups ops runner_id configs max_alphas_per_runner ttl already_owned =
     (let remaining = max 0 (max_alphas_per_runner - already_owned)
      in if remaining \<le> 0 then ret []
         else bind (lift_res (group_alphas_by_tf_set configs max_alphas_per_runner)) (\<lambda>groups.
              claim_groups ops runner_id ttl remaining groups []))"

section \<open>The periodic claim\<close>

text \<open>
  What the scan for stored configurations yields: \<open>None\<close> for a key that is gone when it is read,
  an error for a text that does not parse.
\<close>

fun unclaimed_among ::
  "'s redis \<Rightarrow> string list option \<Rightarrow> alpha_config res option list \<Rightarrow> ('s world, alpha_config list) eff" where
  "unclaimed_among ops allowed [] = ret []"
| "unclaimed_among ops allowed (None # es) = unclaimed_among ops allowed es"
| "unclaimed_among ops allowed (Some (Inl e) # es) = throw e"
| "unclaimed_among ops allowed (Some (Inr cfg) # es) =
     (if \<not> cf_enabled cfg \<or> (allowed \<noteq> None \<and> cf_alpha_id cfg \<notin> set (the allowed))
      then unclaimed_among ops allowed es
      else bind (send_get ops (lease_key (cf_alpha_id cfg))) (\<lambda>owner.
           bind (unclaimed_among ops allowed es) (\<lambda>cs.
           ret (if owner = None then cfg # cs else cs))))"

definition claim_unclaimed ::
  "'s redis \<Rightarrow> string \<Rightarrow> string list option \<Rightarrow> alpha_config res option list \<Rightarrow> int \<Rightarrow> int \<Rightarrow> int
     \<Rightarrow> ('s world, alpha_config list) eff" where
  "claim_unclaimed ops runner_id allowed stored max_alphas_per_runner ttl already_owned =
     bind (unclaimed_among ops allowed stored) (\<lambda>unclaimed.
     if unclaimed = [] then ret []
     else claim_alpha_groups ops runner_id unclaimed max_alphas_per_runner ttl already_owned)"

section \<open>Groups are a partition of the configurations\<close>

lemma concat_chunks [simp]: "0 < n \<Longrightarrow> concat (chunks n xs) = xs"
proof (induction n xs rule: chunks.induct)
  case (1 n xs)
  then show ?case by (subst chunks.simps) simp
qed

lemma chunks_bounded: "c \<in> set (chunks n xs) \<Longrightarrow> c \<noteq> [] \<and> length c \<le> n"
proof (induction n xs rule: chunks.induct)
  case (1 n xs)
  then show ?case by (subst (asm) (2) chunks.simps) (auto split: if_splits)
qed

lemma chunk_subset: "c \<in> set (chunks n xs) \<Longrightarrow> set c \<subseteq> set xs"
proof (induction n xs rule: chunks.induct)
  case (1 n xs)
  then show ?case
    by (subst (asm) (2) chunks.simps) (auto split: if_splits dest: in_set_takeD in_set_dropD)
qed

text \<open>The configurations in a dictionary of groups.\<close>

definition grouped :: "(string, alpha_config list) dict \<Rightarrow> alpha_config multiset" where
  "grouped d = (\<Sum>p\<leftarrow>d. mset (snd p))"

definition keyed :: "(string, alpha_config list) dict \<Rightarrow> bool" where
  "keyed d \<longleftrightarrow> (\<forall>(k, cs) \<in> set d. \<forall>c \<in> set cs. join_comma (tf_set_of c) = k)"

lemma grouped_dset: "grouped (dset k (dget d k [] @ [c]) d) = add_mset c (grouped d)"
  by (induction d) (auto simp: grouped_def dget_def)

lemma keyed_simps [simp]:
  "keyed []" "keyed (p # d) \<longleftrightarrow> (\<forall>c \<in> set (snd p). join_comma (tf_set_of c) = fst p) \<and> keyed d"
  by (auto simp: keyed_def)

lemma keyed_dset: "keyed d \<Longrightarrow> \<forall>c \<in> set cs. join_comma (tf_set_of c) = k \<Longrightarrow> keyed (dset k cs d)"
  by (induction d) auto

lemma keyed_dget: "keyed d \<Longrightarrow> c \<in> set (dget d k []) \<Longrightarrow> join_comma (tf_set_of c) = k"
  by (induction d) (auto simp: dget_def split: if_splits)

lemma by_tf_partition:
  "grouped (fold add_by_tf configs d) = mset configs + grouped d"
  "keyed d \<Longrightarrow> keyed (fold add_by_tf configs d)"
proof (induction configs arbitrary: d)
  case (Cons c configs)
  { case 1 then show ?case using Cons.IH(1) by (simp add: add_by_tf_def grouped_dset Let_def) }
  { case 2
    then have "keyed (add_by_tf c d)"
      unfolding add_by_tf_def Let_def by (intro keyed_dset) (auto dest: keyed_dget)
    then show ?case using Cons.IH(2) by simp }
qed simp_all

lemma groups_of_configs: "0 < n \<Longrightarrow> concat (map ag_configs (groups_of n p)) = snd p"
  by (simp add: groups_of_def comp_def)

lemma concat_groups_of:
  "0 < n \<Longrightarrow> mset (concat (map ag_configs (concat (map (groups_of n) d)))) = grouped d"
  by (induction d) (simp_all add: grouped_def groups_of_configs)

lemma groups_partition:
  assumes "group_alphas_by_tf_set configs m = Inr gs" "0 < m"
  shows "mset (concat (map ag_configs gs)) = mset configs"
    and "g \<in> set gs \<Longrightarrow> ag_configs g \<noteq> [] \<and> int (length (ag_configs g)) \<le> m \<and>
           ag_alpha_ids g = map cf_alpha_id (ag_configs g) \<and>
           (\<forall>c \<in> set (ag_configs g). join_comma (tf_set_of c) = ag_tf_key g)"
    and "sorted (map (\<lambda>g. - int (length (ag_alpha_ids g))) gs)"
proof -
  let ?d = "fold add_by_tf configs []"
  let ?all = "concat (map (groups_of (nat m)) ?d)"
  have gs: "gs = sort_key (\<lambda>g. - int (length (ag_alpha_ids g))) ?all"
    using assms by (simp add: group_alphas_by_tf_set_def Let_def)
  show "sorted (map (\<lambda>g. - int (length (ag_alpha_ids g))) gs)" unfolding gs by (rule sorted_sort_key)
  have m: "0 < nat m" using assms(2) by simp
  have "mset gs = mset ?all" by (simp add: gs)
  then have "mset (concat (map ag_configs gs)) = mset (concat (map ag_configs ?all))"
    by (simp add: mset_concat mset_map flip: sum_mset_sum_list)
  also have "\<dots> = mset configs"
    using concat_groups_of [OF m] by_tf_partition(1) [of configs "[]"] by (simp add: grouped_def)
  finally show "mset (concat (map ag_configs gs)) = mset configs" .
  assume "g \<in> set gs"
  then obtain k cs where p: "(k, cs) \<in> set ?d" "g \<in> set (groups_of (nat m) (k, cs))" by (auto simp: gs)
  then obtain chunk where c: "chunk \<in> set (chunks (nat m) cs)"
    "g = \<lparr>ag_tf_key = k, ag_tf_set = tf_set_of (hd cs), ag_alpha_ids = map cf_alpha_id chunk, ag_configs = chunk\<rparr>"
    by (auto simp: groups_of_def)
  have "keyed ?d" by (rule by_tf_partition(2)) simp
  then have "\<forall>c \<in> set cs. join_comma (tf_set_of c) = k" using p(1) by (auto simp: keyed_def)
  then show "ag_configs g \<noteq> [] \<and> int (length (ag_configs g)) \<le> m \<and>
      ag_alpha_ids g = map cf_alpha_id (ag_configs g) \<and>
      (\<forall>c \<in> set (ag_configs g). join_comma (tf_set_of c) = ag_tf_key g)"
    using chunks_bounded [OF c(1)] chunk_subset [OF c(1)] assms(2) by (auto simp: c(2))
qed

section \<open>The capacity\<close>

lemma claim_groups_bounded:
  assumes "claim_groups ops r ttl remaining gs claimed w = (Inr cs, w')"
    and "int (length claimed) \<le> remaining"
  shows "int (length cs) \<le> remaining \<and>
    (\<exists>rest. cs = claimed @ rest \<and> mset rest \<subseteq># mset (concat (map ag_configs gs)))"
  using assms
proof (induction gs arbitrary: claimed w)
  case Nil
  then show ?case by simp
next
  case (Cons g gs)
  let ?slots = "remaining - int (length claimed)"
  show ?case
  proof (cases "?slots \<le> 0")
    case True
    then show ?thesis using Cons.prems by (simp add: Let_def)
  next
    case False
    let ?g = "shorten (nat ?slots) g"
    from Cons.prems False obtain ok w1 where
      ok: "claim_alpha_group ops r ttl ?g w = (Inr ok, w1)"
        "claim_groups ops r ttl remaining gs (if ok then claimed @ ag_configs ?g else claimed) w1 = (Inr cs, w')"
      by (auto simp: Let_def bind_def split: prod.splits sum.splits)
    have g: "int (length (ag_configs ?g)) \<le> ?slots" "mset (ag_configs ?g) \<subseteq># mset (ag_configs g)"
      using False by (auto simp: shorten_def mset_subset_eqI)
        (metis append_take_drop_id mset_append mset_subset_eq_add_left)+
    let ?claimed = "if ok then claimed @ ag_configs ?g else claimed"
    have "int (length ?claimed) \<le> remaining" using g(1) Cons.prems(2) by simp
    from Cons.IH [OF ok(2) this] obtain rest where
      r: "int (length cs) \<le> remaining" "cs = ?claimed @ rest" "mset rest \<subseteq># mset (concat (map ag_configs gs))"
      by blast
    have "cs = claimed @ ((if ok then ag_configs ?g else []) @ rest)" using r(2) by simp
    moreover have "mset ((if ok then ag_configs ?g else []) @ rest) \<subseteq># mset (concat (map ag_configs (g # gs)))"
      using g(2) r(3) by (auto intro: subset_mset.add_mono subset_mset.add_increasing)
    ultimately show ?thesis using r(1) by blast
  qed
qed

section \<open>A group is claimed as a whole\<close>

lemma sent_world:
  assumes "good_world r w" "command ops c w = (x, w')"
  shows "good_world r w'" "wd_now w \<le> wd_now w'"
  using command_world [OF assms(1), of ops c] assms(2) by simp_all

lemma bind_InrE:
  assumes "bind m k s = (Inr y, s')"
  obtains x s1 where "m s = (Inr x, s1)" "k x s1 = (Inr y, s')"
  using assms by (auto simp: bind_def split: prod.splits sum.splits)

lemma unclaimed_among_enabled:
  assumes "unclaimed_among ops allowed es w = (Inr cs, w')"
  shows "\<forall>c \<in> set cs. Some (Inr c) \<in> set es \<and> cf_enabled c \<and>
    (allowed \<noteq> None \<longrightarrow> cf_alpha_id c \<in> set (the allowed))"
  using assms
proof (induction ops allowed es arbitrary: w cs rule: unclaimed_among.induct)
  case (4 ops allowed cfg es)
  show ?case
  proof (cases "\<not> cf_enabled cfg \<or> (allowed \<noteq> None \<and> cf_alpha_id cfg \<notin> set (the allowed))")
    case True
    then have "unclaimed_among ops allowed es w = (Inr cs, w')"
      using "4.prems" by (simp only: unclaimed_among.simps if_True)
    from "4.IH"(1) [OF True this] show ?thesis by simp
  next
    case False
    then have "bind (send_get ops (lease_key (cf_alpha_id cfg))) (\<lambda>v. bind (unclaimed_among ops allowed es)
        (\<lambda>cs. ret (if v = None then cfg # cs else cs))) w = (Inr cs, w')"
      using "4.prems" by (simp only: unclaimed_among.simps if_False)
    then obtain v w1 where "send_get ops (lease_key (cf_alpha_id cfg)) w = (Inr v, w1)"
      "bind (unclaimed_among ops allowed es) (\<lambda>cs. ret (if v = None then cfg # cs else cs)) w1 = (Inr cs, w')"
      by (rule bind_InrE)
    note this(2)
    then obtain rest w2 where "unclaimed_among ops allowed es w1 = (Inr rest, w2)"
      "ret (if v = None then cfg # rest else rest) w2 = (Inr cs, w')" by (rule bind_InrE)
    then have "unclaimed_among ops allowed es w1 = (Inr rest, w')" "cs = (if v = None then cfg # rest else rest)"
      by simp_all
    then show ?thesis using "4.IH"(2) [OF False] False by (cases allowed) (simp_all split: if_splits)
  qed
qed simp_all

lemmas sends = send_set_nx_def send_get_def send_expire_def send_del_def

context key_server
begin

text \<open>A SET NX that is refused, or any command that does not write, keeps what is not held.\<close>

lemma refused_never_held:
  assumes "good_world v w" "0 < n" "send_set_nx ops (lease_key a) u n w = (Inr False, w')"
    and "never_held ops (wd_now w) (lease_key a) v (wd_store w)"
  shows "never_held ops (wd_now w') (lease_key a) v (wd_store w')"
proof -
  note c = command_Answered [OF assms(3) [unfolded send_set_nx_def]]
  have "never_held ops (wd_now w') (lease_key a) v (wd_store (arrive ops w))"
    using arrive_keeps(2) [OF assms(1,4)] c(2) by simp
  then show ?thesis using set_nx [OF _ assms(2) c(1)] by (simp add: never_held_def)
qed

lemma get_never_held:
  assumes "good_world v w" "send_get ops (lease_key a) w = (Inr x, w')"
    and "never_held ops (wd_now w) (lease_key a) v (wd_store w)"
  shows "x \<noteq> Some v"
proof -
  note c = command_Answered [OF assms(2) [unfolded send_get_def]]
  have "never_held ops (wd_now w') (lease_key a) v (wd_store (arrive ops w))"
    using arrive_keeps(2) [OF assms(1,3)] c(2) by simp
  then show ?thesis using c(1) by (auto simp: never_held_def)
qed

text \<open>
  What \<open>claim_each\<close> relies on: the leases taken so far last until \<open>d\<close>, the ones still to be
  taken are not the runner's.
\<close>

lemma claim_each_all:
  assumes "claim_each ops r n as acquired w = (Inr ok, w')" "0 < n" "good_world r w"
    and "distinct (acquired @ as)"
    and "\<And>a. a \<in> set acquired \<Longrightarrow> held_until ops (wd_now w) d (lease_key a) r (wd_store w)"
    and "\<And>a. a \<in> set as \<Longrightarrow> never_held ops (wd_now w) (lease_key a) r (wd_store w)"
    and "d \<le> wd_now w + of_int n" and ok
    and "a \<in> set (acquired @ as)"
  shows "held_until ops (wd_now w') d (lease_key a) r (wd_store w')"
  using assms
proof (induction as arbitrary: acquired w)
  case Nil
  then show ?case by simp
next
  case (Cons b as)
  from Cons.prems(1) obtain z w1 where z: "send_set_nx ops (lease_key b) r n w = (Inr z, w1)"
    unfolding claim_each.simps by (rule bind_InrE)
  have bz: "bind (send_set_nx ops (lease_key b) r n) k w = k z w1" for k
    by (simp add: bind_def z)
  note g = sent_world [OF Cons.prems(3) z [unfolded send_set_nx_def]]
  show ?case
  proof (cases z)
    case True
    then have rest: "claim_each ops r n as (acquired @ [b]) w1 = (Inr ok, w')"
      using Cons.prems(1) by (simp add: bz)
    note elsewhere = command_elsewhere [OF Cons.prems(3) script_touches(1) [OF Cons.prems(2)] _
        z [unfolded send_set_nx_def]]
    show ?thesis
    proof (rule Cons.IH [OF rest Cons.prems(2) g(1)])
      show "distinct ((acquired @ [b]) @ as)" using Cons.prems(4) by auto
      show "held_until ops (wd_now w1) d (lease_key c) r (wd_store w1)" if c: "c \<in> set (acquired @ [b])" for c
      proof (cases "c = b")
        case True
        have "held_until ops (wd_now w1) (wd_now w1 + of_int n) (lease_key b) r (wd_store w1)"
          using z \<open>z\<close> by (intro set_nx_taken [OF Cons.prems(2)]) simp
        then show ?thesis using g(2) Cons.prems(7) True by (simp add: held_until_def)
      next
        case False
        with c have "c \<in> set acquired" by simp
        from elsewhere(1) [OF _ Cons.prems(5) [OF this]] False show ?thesis by simp
      qed
      show "never_held ops (wd_now w1) (lease_key c) r (wd_store w1)" if c: "c \<in> set as" for c
      proof -
        have "c \<noteq> b" "c \<in> set (b # as)" using c Cons.prems(4) by auto
        from elsewhere(2) [OF _ Cons.prems(6) [OF this(2)]] this(1) show ?thesis by simp
      qed
      show "d \<le> wd_now w1 + of_int n" using g(2) Cons.prems(7) by simp
    qed (use Cons.prems in auto)
  next
    case False
    have nh: "never_held ops (wd_now w1) (lease_key b) r (wd_store w1)"
      using refused_never_held [OF Cons.prems(3,2)] z False Cons.prems(6) by simp
    have "bind (send_get ops (lease_key b)) (\<lambda>owner.
        if owner = Some r
        then then_do (send_expire ops (lease_key b) n) (claim_each ops r n as (acquired @ [b]))
        else then_do (for_each (release_claimed ops r) acquired) (ret False)) w1 = (Inr ok, w')"
      using Cons.prems(1) False by (simp add: bz)
    then obtain x w2 where x: "send_get ops (lease_key b) w1 = (Inr x, w2)" by (rule bind_InrE)
    have "x \<noteq> Some r" by (rule get_never_held [OF g(1) x nh])
    with Cons.prems(1) False have "then_do (for_each (release_claimed ops r) acquired) (ret False) w2 = (Inr ok, w')"
      by (simp add: bz) (simp add: bind_def x)
    then have "\<not> ok"
      by (cases "for_each (release_claimed ops r) acquired w2"; cases "fst (for_each (release_claimed ops r) acquired w2)")
        (auto simp: then_do_apply)
    with Cons.prems(8) show ?thesis by contradiction
  qed
qed

end

section \<open>A failed claim gives everything back\<close>

definition answered :: "'s world \<Rightarrow> bool" where
  "answered w \<longleftrightarrow> (\<forall>m \<in> set (wd_meetings w). mt_delivery m = Answered)"

lemma answered_command:
  assumes "answered w"
  shows "\<exists>x. fst (command ops c w) = Inr x" "answered (snd (command ops c w))"
proof -
  have d: "mt_delivery (next_meeting w) = Answered"
    using assms by (cases "wd_meetings w") (auto simp: answered_def next_meeting_def)
  then show "\<exists>x. fst (command ops c w) = Inr x" by (simp add: command_def Let_def split: prod.splits)
  have "set (tl (wd_meetings w)) \<subseteq> set (wd_meetings w)" by (cases "wd_meetings w") auto
  then show "answered (snd (command ops c w))"
    using assms d by (auto simp: answered_def command_def Let_def split: prod.splits)
qed

context key_server
begin

lemma release_script_never_held: "never_held ops t k v (snd (release_script ops k v t s))"
proof (cases "r_get ops t k s = Some v")
  case True
  obtain b s' where d: "r_del ops t k s = (b, s')" by fastforce
  then show ?thesis using True del [OF _ d] by (simp add: never_held_def release_script_def)
next
  case False
  then show ?thesis using no_comeback by (auto simp: never_held_def release_script_def)
qed

lemma release_claimed_gone:
  assumes "good_world r w" "answered w" "release_claimed ops r a w = (x, w')"
  shows "x = Inr () \<and> good_world r w' \<and> answered w' \<and>
    never_held ops (wd_now w') (lease_key a) r (wd_store w') \<and>
    (\<forall>b. never_held ops (wd_now w) (lease_key b) r (wd_store w) \<longrightarrow>
         never_held ops (wd_now w') (lease_key b) r (wd_store w'))"
proof -
  let ?c = "release_script ops (lease_key a) r"
  obtain y w1 where c: "command ops ?c w = (Inr y, w1)"
    using answered_command(1) [OF assms(2)] by (metis prod.collapse)
  then have w1: "w1 = w'" "x = Inr ()"
    using assms(3) by (auto simp: release_claimed_def catch_def then_do_apply)
  have "never_held ops (wd_now w') (lease_key a) r (wd_store w')"
    using command_Answered(1) [OF c] release_script_never_held w1(1) by (metis snd_conv)
  moreover have "never_held ops (wd_now w') (lease_key b) r (wd_store w')"
    if "b \<noteq> a" "never_held ops (wd_now w) (lease_key b) r (wd_store w)" for b
    using command_elsewhere(2) [OF assms(1) script_touches(5) [of 1] _ c that(2)] that(1) w1(1) by simp
  moreover have "good_world r w'" "answered w'"
    using sent_world(1) [OF assms(1) c] answered_command(2) [OF assms(2), of ops ?c] c w1(1) by simp_all
  ultimately show ?thesis using w1(2) by (metis (no_types, lifting))
qed

lemma release_all_gone:
  assumes "good_world r w" "answered w" "for_each (release_claimed ops r) as w = (x, w')"
  shows "x = Inr () \<and> (\<forall>a \<in> set as. never_held ops (wd_now w') (lease_key a) r (wd_store w')) \<and>
    (\<forall>b. never_held ops (wd_now w) (lease_key b) r (wd_store w) \<longrightarrow>
         never_held ops (wd_now w') (lease_key b) r (wd_store w'))"
  using assms
proof (induction as arbitrary: w)
  case Nil
  then show ?case by auto
next
  case (Cons a as)
  obtain y w1 where y: "release_claimed ops r a w = (y, w1)" by fastforce
  note one = release_claimed_gone [OF Cons.prems(1,2) y]
  then have "for_each (release_claimed ops r) as w1 = (x, w')"
    using Cons.prems(3) y by (simp add: then_do_apply)
  from Cons.IH [OF _ _ this] one show ?case by simp
qed

lemma claim_each_none:
  assumes "claim_each ops r n as acquired w = (Inr False, w')" "0 < n" "good_world r w" "answered w"
  shows "\<exists>taken b later. as = taken @ b # later \<and>
    (\<forall>a \<in> set (acquired @ taken). never_held ops (wd_now w') (lease_key a) r (wd_store w')) \<and>
    never_held ops (wd_now w') (lease_key b) r (wd_store w')"
  using assms
proof (induction as arbitrary: acquired w)
  case Nil
  then show ?case by simp
next
  case (Cons b as)
  have more: ?case if g: "good_world r w1" "answered w1"
      and rest: "claim_each ops r n as (acquired @ [b]) w1 = (Inr False, w')" for w1
  proof -
    from Cons.IH [OF rest Cons.prems(2) g] obtain taken c later where
      "as = taken @ c # later"
      "\<forall>a \<in> set ((acquired @ [b]) @ taken). never_held ops (wd_now w') (lease_key a) r (wd_store w')"
      "never_held ops (wd_now w') (lease_key c) r (wd_store w')" by blast
    then show ?thesis by (intro exI [of _ "b # taken"] exI [of _ c] exI [of _ later]) auto
  qed
  from Cons.prems(1) obtain z w1 where z: "send_set_nx ops (lease_key b) r n w = (Inr z, w1)"
    unfolding claim_each.simps by (rule bind_InrE)
  have bz: "bind (send_set_nx ops (lease_key b) r n) k w = k z w1" for k
    by (simp add: bind_def z)
  note g1 = sent_world [OF Cons.prems(3) z [unfolded sends]]
    answered_command(2) [OF Cons.prems(4), of ops "\<lambda>t. r_set_nx ops t (lease_key b) r n",
      folded send_set_nx_def, unfolded z snd_conv]
  show ?case
  proof (cases z)
    case True
    with Cons.prems(1) show ?thesis by (intro more [OF g1(1,3)]) (simp add: bz)
  next
    case False
    have "bind (send_get ops (lease_key b)) (\<lambda>owner.
        if owner = Some r
        then then_do (send_expire ops (lease_key b) n) (claim_each ops r n as (acquired @ [b]))
        else then_do (for_each (release_claimed ops r) acquired) (ret False)) w1 = (Inr False, w')"
      using Cons.prems(1) False by (simp add: bz)
    then obtain x w2 where x: "send_get ops (lease_key b) w1 = (Inr x, w2)"
      and rest: "(if x = Some r
        then then_do (send_expire ops (lease_key b) n) (claim_each ops r n as (acquired @ [b]))
        else then_do (for_each (release_claimed ops r) acquired) (ret False)) w2 = (Inr False, w')"
      by (rule bind_InrE)
    note g2 = sent_world [OF g1(1) x [unfolded sends]]
      answered_command(2) [OF g1(3), of ops "\<lambda>t s. (r_get ops t (lease_key b) s, s)",
        folded send_get_def, unfolded x snd_conv]
    show ?thesis
    proof (cases "x = Some r")
      case True
      with rest obtain e w3 where e: "send_expire ops (lease_key b) n w2 = (Inr e, w3)"
        and rest3: "claim_each ops r n as (acquired @ [b]) w3 = (Inr False, w')"
        by (auto simp: then_do_def elim: bind_InrE)
      note g3 = sent_world [OF g2(1) e [unfolded sends]]
        answered_command(2) [OF g2(3), of ops "\<lambda>t. r_expire ops t (lease_key b) n",
          folded send_expire_def, unfolded e snd_conv]
      show ?thesis by (rule more [OF g3(1,3) rest3])
    next
      case False
      obtain y w3 where y: "for_each (release_claimed ops r) acquired w2 = (y, w3)" by fastforce
      note gone = release_all_gone [OF g2(1,3) y]
      have w': "w' = w3" using rest False y gone by (simp add: then_do_apply)
      have "r_get ops (wd_now w2) (lease_key b) (wd_store w2) \<noteq> Some r"
        using command_Answered(1) [OF x [unfolded send_get_def]] False by (simp del: arrive_simps) (metis prod.inject)
      then have "never_held ops (wd_now w2) (lease_key b) r (wd_store w2)"
        using no_comeback by (auto simp: never_held_def)
      then show ?thesis
        using gone w' by (intro exI [of _ "[]"] exI [of _ b] exI [of _ as]) auto
    qed
  qed
qed

end

end
