(* ===== verification/Dispatcher.thy ===== *)
theory Dispatcher
  imports Models
begin

text \<open>
  \<^verbatim>\<open>alphas/runner/signal/dispatcher.py\<close>: the only way a strategy sends a signal.  A signal goes out
  when the lease of the alpha is valid and its id is not among the ids sent lately.  The id is a
  digest of the logical fields, the recent ids are also kept in a Redis list, from which a
  restarted runner restores them.

  The digest (SHA-256) and \<open>str\<close> on the values a strategy may pass are parameters
  (\<open>text_codec\<close>).  The list commands of Redis are outside of the program; the locale
  \<open>list_server\<close> states what is documented of LPUSH, LTRIM and LRANGE.
\<close>

section \<open>The list server\<close>

record 'l lists =
  l_push :: "string \<Rightarrow> 'l \<Rightarrow> 'l"
  l_trim :: "int \<Rightarrow> int \<Rightarrow> 'l \<Rightarrow> 'l"
  l_range :: "int \<Rightarrow> int \<Rightarrow> 'l \<Rightarrow> string list"

locale list_server =
  fixes srv :: "'l lists"
  assumes push: "0 \<le> j \<Longrightarrow> l_range srv 0 j (l_push srv x l) = take (nat j + 1) (x # l_range srv 0 j l)"
    and trim: "0 \<le> i \<Longrightarrow> 0 \<le> j \<Longrightarrow>
      l_range srv 0 j (l_trim srv 0 i l) = take (nat i + 1) (l_range srv 0 j l)"

definition memory_lists :: "string list lists" where
  "memory_lists = \<lparr>l_push = (#), l_trim = (\<lambda>i j xs. take (nat (j + 1)) xs),
     l_range = (\<lambda>i j xs. take (nat (j + 1)) xs)\<rparr>"

interpretation memory_lists: list_server memory_lists
  by unfold_locales (simp_all add: memory_lists_def nat_add_distrib take_Cons' min.commute)

section \<open>SignalDispatcher\<close>

type_synonym fields = "(string, json) dict"

record text_codec =
  tc_digest :: "json \<Rightarrow> string"
  tc_str :: "json \<Rightarrow> string"

record dispatch_metrics =
  signal_dispatched :: nat
  signal_lease_dropped :: nat
  signal_dedup_skipped :: nat
  signal_published :: nat

record 'l dispatcher =
  dp_seen :: "string list"
  dp_stored :: 'l
  dp_stream :: "fields list"
  dp_lease_flag :: bool
  dp_metrics :: dispatch_metrics

text \<open>
  What a call meets: the answer of \<open>lease_manager.is_valid\<close>, the current time, what becomes of
  the pipeline that stores the id (it is not a transaction: the push may go through alone) and of
  the XADD.
\<close>

datatype pipe = Executed | PushOnly | NotExecuted

record dispatch_env =
  de_lease :: "bool res"
  de_now :: json
  de_pipe :: pipe
  de_xadd :: "unit res"

definition move_to_end :: "string \<Rightarrow> string list \<Rightarrow> string list" where
  "move_to_end x xs = removeAll x xs @ [x]"

text \<open>\<open>while len(seen) > max_seen: seen.popitem(last=False)\<close>; on an empty dictionary it raises.\<close>

definition evict :: "int \<Rightarrow> string list \<Rightarrow> string list res" where
  "evict max_seen xs =
     (if max_seen < 0 then Inl (KeyError ''dictionary is empty'') else Inr (last_n (nat max_seen) xs))"

definition store_id :: "'l lists \<Rightarrow> int \<Rightarrow> pipe \<Rightarrow> string \<Rightarrow> 'l \<Rightarrow> 'l" where
  "store_id srv max_seen p sid l = (case p of
       Executed \<Rightarrow> l_trim srv 0 (max_seen - 1) (l_push srv sid l)
     | PushOnly \<Rightarrow> l_push srv sid l
     | NotExecuted \<Rightarrow> l)"

definition remember :: "'l lists \<Rightarrow> int \<Rightarrow> pipe \<Rightarrow> string \<Rightarrow> ('l dispatcher, unit) eff" where
  "remember srv max_seen p sid = (\<lambda>d.
     case evict max_seen (move_to_end sid (dp_seen d)) of
       Inl e \<Rightarrow> (Inl e, d\<lparr>dp_seen := []\<rparr>)
     | Inr seen \<Rightarrow> (Inr (), d\<lparr>dp_seen := seen, dp_stored := store_id srv max_seen p sid (dp_stored d)\<rparr>))"

definition logical_fields :: "string list" where
  "logical_fields = [''symbol'', ''tf'', ''side'', ''position_id'', ''signal_candle_open_ms'', ''reason'']"

definition signal_id :: "text_codec \<Rightarrow> string \<Rightarrow> string \<Rightarrow> string \<Rightarrow> fields \<Rightarrow> string" where
  "signal_id tc alpha_id version signal_type fs = tc_digest tc (JObj (
     [(''alpha_id'', JStr alpha_id), (''version'', JStr version), (''type'', JStr signal_type)]
     @ map (\<lambda>k. (k, dget fs k (JStr ''''))) logical_fields))"

definition add_field :: "text_codec \<Rightarrow> string \<times> json \<Rightarrow> fields \<Rightarrow> fields" where
  "add_field tc p payload = (case snd p of
       JNull \<Rightarrow> payload
     | JStr s \<Rightarrow> dset (fst p) (JStr s) payload
     | v \<Rightarrow> dset (fst p) (JStr (tc_str tc v)) payload)"

definition payload_of :: "text_codec \<Rightarrow> json \<Rightarrow> string \<Rightarrow> string \<Rightarrow> string \<Rightarrow> fields \<Rightarrow> fields" where
  "payload_of tc now alpha_id sid signal_type fs =
     fold (add_field tc) (ddel ''timestamp'' fs)
       [(''type'', JStr signal_type), (''alpha_id'', JStr alpha_id), (''signal_id'', JStr sid),
        (''timestamp'', dget fs ''timestamp'' now)]"

definition count_signal :: "(dispatch_metrics \<Rightarrow> dispatch_metrics) \<Rightarrow> ('l dispatcher, unit) eff" where
  "count_signal f = modify (\<lambda>d. d\<lparr>dp_metrics := f (dp_metrics d)\<rparr>)"

definition dispatch ::
  "'l lists \<Rightarrow> text_codec \<Rightarrow> int \<Rightarrow> dispatch_env \<Rightarrow> string \<Rightarrow> string \<Rightarrow> string \<Rightarrow> fields
     \<Rightarrow> ('l dispatcher, string option) eff" where
  "dispatch srv tc max_seen env alpha_id version signal_type fs =
     then_do (count_signal (\<lambda>m. m\<lparr>signal_dispatched := signal_dispatched m + 1\<rparr>))
     (bind (lift_res (de_lease env)) (\<lambda>valid.
      if \<not> valid
      then then_do (modify (\<lambda>d. d\<lparr>dp_lease_flag := False\<rparr>))
           (then_do (count_signal (\<lambda>m. m\<lparr>signal_lease_dropped := signal_lease_dropped m + 1\<rparr>))
             (ret None))
      else bind get_state (\<lambda>d.
        let sid = signal_id tc alpha_id version signal_type fs
        in if sid \<in> set (dp_seen d)
           then then_do (count_signal (\<lambda>m. m\<lparr>signal_dedup_skipped := signal_dedup_skipped m + 1\<rparr>))
                  (ret None)
           else then_do (remember srv max_seen (de_pipe env) sid)
               (then_do (lift_res (de_xadd env))
               (then_do (modify (\<lambda>d. d\<lparr>dp_stream := dp_stream d
                            @ [payload_of tc (de_now env) alpha_id sid signal_type fs]\<rparr>))
               (then_do (count_signal (\<lambda>m. m\<lparr>signal_published := signal_published m + 1\<rparr>))
                 (ret (Some sid))))))))"

text \<open>\<open>_restore_seen\<close>: the stored ids, oldest first; assigning an id again keeps its place.\<close>

definition restore_seen :: "'l lists \<Rightarrow> int \<Rightarrow> 'l \<Rightarrow> string list" where
  "restore_seen srv max_seen l = fold (\<lambda>sid seen. if sid \<in> set seen then seen else seen @ [sid])
     (rev (l_range srv 0 (max_seen - 1) l)) []"

section \<open>The window of recent ids\<close>

lemma signal_id_logical:
  assumes "\<And>k. k \<in> set logical_fields \<Longrightarrow> dget fs k (JStr '''') = dget fs' k (JStr '''')"
  shows "signal_id tc a v ty fs = signal_id tc a v ty fs'"
  using assms by (simp add: signal_id_def cong: map_cong)

text \<open>The fields are written over the four of the dispatcher; one called \<open>signal_id\<close> replaces the id.\<close>

lemma payload_signal_id:
  assumes "map_of fs ''signal_id'' = None"
  shows "map_of (payload_of tc now a sid ty fs) ''signal_id'' = Some (JStr sid)"
proof -
  have keep: "map_of (fold (add_field tc) gs payload) k = map_of payload k" if "k \<notin> fst ` set gs" for gs payload k
    using that by (induction gs arbitrary: payload) (auto simp: add_field_def split: json.split)
  have "''signal_id'' \<notin> fst ` set (ddel ''timestamp'' fs)"
    using assms by (simp add: map_of_eq_None_iff)
  then show ?thesis by (simp add: payload_of_def keep)
qed

lemma remember_simps:
  assumes "0 \<le> max_seen"
  shows "remember srv max_seen p sid d = (Inr (), d\<lparr>dp_seen := last_n (nat max_seen) (move_to_end sid (dp_seen d)),
    dp_stored := store_id srv max_seen p sid (dp_stored d)\<rparr>)"
  using assms by (simp add: remember_def evict_def)

text \<open>What one call does to the ids it remembers and to the stream.\<close>

lemma dispatch_cases:
  assumes "0 \<le> max_seen" "dispatch srv tc max_seen env a v ty fs d = (r, d')"
  defines "sid \<equiv> signal_id tc a v ty fs"
  shows "(dp_seen d' = dp_seen d \<and> dp_stored d' = dp_stored d \<and> dp_stream d' = dp_stream d \<and>
           (r = Inr None \<or> (\<exists>e. r = Inl e)) \<and> (sid \<in> set (dp_seen d) \<or> de_lease env \<noteq> Inr True))
       \<or> (sid \<notin> set (dp_seen d) \<and> de_lease env = Inr True \<and>
          dp_seen d' = last_n (nat max_seen) (dp_seen d @ [sid]) \<and>
          dp_stored d' = store_id srv max_seen (de_pipe env) sid (dp_stored d) \<and>
          ((de_xadd env = Inr () \<and> r = Inr (Some sid) \<and>
            dp_stream d' = dp_stream d @ [payload_of tc (de_now env) a sid ty fs])
           \<or> (\<exists>e. de_xadd env = Inl e \<and> r = Inl e \<and> dp_stream d' = dp_stream d)))"
  using assms(2)
  by (cases "de_lease env"; cases "de_xadd env")
    (auto simp: dispatch_def count_signal_def bind_def then_do_apply remember_simps [OF assms(1)] Let_def
      move_to_end_def sid_def split: if_splits)

type_synonym call = "dispatch_env \<times> string \<times> string \<times> string \<times> fields"

fun dispatch_all ::
  "'l lists \<Rightarrow> text_codec \<Rightarrow> int \<Rightarrow> call list \<Rightarrow> 'l dispatcher \<Rightarrow> 'l dispatcher" where
  "dispatch_all srv tc max_seen [] d = d"
| "dispatch_all srv tc max_seen ((env, a, v, ty, fs) # cs) d =
     dispatch_all srv tc max_seen cs (snd (dispatch srv tc max_seen env a v ty fs d))"

lemma seen_after:
  assumes "0 \<le> max_seen" "dispatch srv tc max_seen env a v ty fs d = (r, d')"
  shows "dp_seen d' = dp_seen d \<or> (\<exists>sid. sid \<notin> set (dp_seen d) \<and>
    dp_seen d' = last_n (nat max_seen) (dp_seen d @ [sid]) \<and>
    dp_stored d' = store_id srv max_seen (de_pipe env) sid (dp_stored d))"
  using dispatch_cases [OF assms] by blast

text \<open>An id that was remembered stays known for the next \<open>max_seen - 1\<close> calls.\<close>

lemma dispatch_all_recent:
  assumes "x \<in> set (last_n n (dp_seen d))" "n + length cs \<le> nat max_seen"
  shows "x \<in> set (last_n (n + length cs) (dp_seen (dispatch_all srv tc max_seen cs d)))"
  using assms
proof (induction cs arbitrary: n d)
  case (Cons c cs)
  obtain env a v ty fs where c: "c = (env, a, v, ty, fs)" by (cases c)
  obtain r d' where d': "dispatch srv tc max_seen env a v ty fs d = (r, d')" by fastforce
  have m: "0 \<le> max_seen" "Suc n \<le> nat max_seen" using Cons.prems(2) by simp_all
  have "x \<in> set (last_n (Suc n) (dp_seen d'))"
  proof (cases "dp_seen d' = dp_seen d")
    case True
    have "set (last_n n xs) \<subseteq> set (last_n (Suc n) xs)" for xs :: "string list"
      unfolding last_n_def by (rule set_drop_subset_set_drop) simp
    then show ?thesis using Cons.prems(1) True by auto
  next
    case False
    then obtain sid where "dp_seen d' = last_n (nat max_seen) (dp_seen d @ [sid])"
      using seen_after [OF m(1) d'] by blast
    then have "last_n (Suc n) (dp_seen d') = last_n n (dp_seen d) @ [sid]"
      using m(2) by (simp add: last_n_last_n min_absorb1) (simp add: last_n_def)
    then show ?thesis using Cons.prems(1) by simp
  qed
  from Cons.IH [OF this] Cons.prems(2) show ?case by (simp add: c d')
qed simp

lemma published_is_recent:
  assumes "0 < max_seen" "dispatch srv tc max_seen env a v ty fs d = (Inr (Some x), d')"
  shows "x = signal_id tc a v ty fs" "x \<in> set (last_n 1 (dp_seen d'))"
  using dispatch_cases [OF _ assms(2)] assms(1) by (auto simp: last_n_def)

section \<open>Restarting\<close>

text \<open>The stored list mirrors the ids in memory.\<close>

definition mirrored :: "'l lists \<Rightarrow> int \<Rightarrow> 'l dispatcher \<Rightarrow> bool" where
  "mirrored srv max_seen d \<longleftrightarrow> distinct (dp_seen d) \<and>
     l_range srv 0 (max_seen - 1) (dp_stored d) = rev (dp_seen d) \<and> int (length (dp_seen d)) \<le> max_seen"

lemma restore_mirrored:
  assumes "mirrored srv max_seen d"
  shows "restore_seen srv max_seen (dp_stored d) = dp_seen d"
proof -
  have "fold (\<lambda>sid seen. if sid \<in> set seen then seen else seen @ [sid]) xs ys = ys @ xs"
    if "distinct (ys @ xs)" for xs ys :: "string list"
    using that by (induction xs arbitrary: ys) auto
  from this [of "[]"] assms show ?thesis by (simp add: restore_seen_def mirrored_def)
qed

context list_server
begin

lemma store_id_range:
  assumes "0 < max_seen" "p \<noteq> NotExecuted"
  shows "l_range srv 0 (max_seen - 1) (store_id srv max_seen p sid l) =
    take (nat max_seen) (sid # l_range srv 0 (max_seen - 1) l)"
proof -
  have "0 \<le> max_seen - 1" "nat max_seen = Suc (nat (max_seen - 1))" using assms(1) by simp_all
  then show ?thesis using assms(2) push trim by (cases p) (simp_all add: store_id_def)
qed

lemma dispatch_mirrored:
  assumes "mirrored srv max_seen d" "0 < max_seen" "de_pipe env \<noteq> NotExecuted"
  shows "mirrored srv max_seen (snd (dispatch srv tc max_seen env a v ty fs d))"
proof -
  obtain r d' where d': "dispatch srv tc max_seen env a v ty fs d = (r, d')" by fastforce
  have m: "0 \<le> max_seen" using assms(2) by simp
  have "mirrored srv max_seen d'"
  proof (cases "dp_seen d' = dp_seen d \<and> dp_stored d' = dp_stored d")
    case True
    then show ?thesis using assms(1) by (simp add: mirrored_def)
  next
    case False
    then obtain sid where s: "sid \<notin> set (dp_seen d)"
      "dp_seen d' = last_n (nat max_seen) (dp_seen d @ [sid])"
      "dp_stored d' = store_id srv max_seen (de_pipe env) sid (dp_stored d)"
      using dispatch_cases [OF m d'] by blast
    have "last_n (nat max_seen) (dp_seen d @ [sid]) = rev (take (nat max_seen) (sid # rev (dp_seen d)))"
      by (simp add: last_n_def rev_take)
    moreover have "distinct (last_n (nat max_seen) (dp_seen d @ [sid]))"
      unfolding last_n_def using assms(1) s(1) by (intro distinct_drop) (simp add: mirrored_def)
    ultimately show ?thesis
      using assms(1,2) s(2,3) store_id_range [OF assms(2,3)] by (simp add: mirrored_def)
  qed
  then show ?thesis using d' by simp
qed

lemma dispatch_all_mirrored:
  assumes "mirrored srv max_seen d" "0 < max_seen"
    and "\<And>c. c \<in> set cs \<Longrightarrow> de_pipe (fst c) \<noteq> NotExecuted"
  shows "mirrored srv max_seen (dispatch_all srv tc max_seen cs d)"
  using assms(1,3)
proof (induction cs arbitrary: d)
  case (Cons c cs)
  obtain env a v ty fs where c: "c = (env, a, v, ty, fs)" by (cases c)
  have "de_pipe env \<noteq> NotExecuted" using Cons.prems(2) [of c] by (simp add: c)
  from Cons.IH [OF dispatch_mirrored [OF Cons.prems(1) assms(2) this]] Cons.prems(2)
  show ?case by (simp add: c)
qed simp

end

end
