(* ===== verification/RunnerProperties.thy ===== *)
theory RunnerProperties
  imports Claims Dispatcher
begin

text \<open>
  Properties of the runner: who holds the lease of an alpha, what a claim of a group leaves
  behind, which signals go out and which are kept back.
\<close>

section \<open>Leases\<close>


definition two_calls :: "memory lease_system" where
  "two_calls = lease_step (lease_acquire memory_redis \<lparr>lm_runner = ''r2'', lm_ttl = 20\<rparr> ''a'') Answered ''r2'' ''a''
     (lease_step (lease_acquire memory_redis \<lparr>lm_runner = ''r1'', lm_ttl = 20\<rparr> ''a'') Answered ''r1'' ''a''
       \<lparr>ls_store = Map.empty, ls_now = 0, ls_since = (\<lambda>_ _. None)\<rparr>)"


text \<open>
  A runner whose renewal was answered with success holds the lease for a full time to live
  from then on, whatever the other runners send meanwhile: they can neither take nor drop it.
\<close>

theorem renewed_lease_holds:
  assumes "key_server ops" and "r_has_eval ops" and "0 < lm_ttl lm"
    and "renew_one ops lm a w = (Inr True, w')"
    and "sorted (map fst fs)"
    and "\<And>t f. (t, f) \<in> set fs \<Longrightarrow>
        wd_now w' \<le> t \<and> t \<le> t1 \<and> foreign_runner f \<noteq> lm_runner lm \<and> 0 < foreign_ttl f"
    and "wd_now w' \<le> t1" and "t1 < wd_now w' + of_int (lm_ttl lm)"
  shows "r_get ops t1 (lease_key a) (fold (\<lambda>(t, f). foreign_act ops f t) fs (wd_store w')) = Some (lm_runner lm)"
  using key_server.foreigners_keep(1) [OF assms(1,5,6,7) key_server.renew_one_taken [OF assms(1,3,2,4)]]
    assms(8) by (auto simp: held_until_def)

definition lm1 :: lease_manager where
  "lm1 = \<lparr>lm_runner = ''r1'', lm_ttl = 20\<rparr>"

definition lm2 :: lease_manager where
  "lm2 = \<lparr>lm_runner = ''r2'', lm_ttl = 20\<rparr>"

definition quiet :: "memory \<Rightarrow> memory world" where
  "quiet s = \<lparr>wd_store = s, wd_now = 0, wd_meetings = []\<rparr>"

lemma renew_quiet: "\<exists>s. renew_one memory_redis lm1 ''a'' (quiet Map.empty) = (Inr True, quiet s)"
  by (simp add: renew_one_def catch_def bind_def lease_is_valid_def lease_acquire_def send_get_def
      send_set_nx_def command_def arrive_def next_meeting_def interfere_def quiet_def memory_redis_def
      memory_get_def lm1_def Let_def)

theorem renewed_lease_holds_witness:
  "\<exists>s. renew_one memory_redis lm1 ''a'' (quiet Map.empty) = (Inr True, quiet s) \<and>
     memory_get 19 (lease_key ''a'')
       (fold (\<lambda>(t, f). foreign_act memory_redis f t) [(1, DropLease lm2 ''a''), (2, TakeLease lm2 ''a'')] s)
     = Some ''r1''"
proof -
  obtain s where s: "renew_one memory_redis lm1 ''a'' (quiet Map.empty) = (Inr True, quiet s)"
    using renew_quiet by blast
  have m: "r_has_eval memory_redis" "r_get memory_redis = memory_get" "0 < lm_ttl lm1"
    by (simp_all add: memory_redis_def lm1_def)
  have "r_get memory_redis 19 (lease_key ''a'') (fold (\<lambda>(t, f). foreign_act memory_redis f t)
      [(1, DropLease lm2 ''a''), (2, TakeLease lm2 ''a'')] (wd_store (quiet s))) = Some (lm_runner lm1)"
    by (rule renewed_lease_holds [OF memory.key_server_axioms m(1,3) s])
      (auto simp: quiet_def lm1_def lm2_def)
  then show ?thesis using s unfolding m(2) by (intro exI [of _ s]) (simp add: quiet_def lm1_def)
qed

section \<open>Claims\<close>

text \<open>
  The claim of a group is all or nothing.  When it returns \<open>True\<close> for alphas none of which
  the runner had, it holds them all, for as long as a time to live counted from the start of the
  claim.  When it returns \<open>False\<close> (and no command was lost) some alpha of the group is not the
  runner's, and neither is any of those before it: they were given back.
\<close>

theorem group_claim_is_all_or_nothing:
  assumes "key_server ops" and "0 < ttl" and "good_world r w"
    and "claim_alpha_group ops r ttl g w = (Inr ok, w')"
    and "distinct (ag_alpha_ids g)"
    and "\<forall>a \<in> set (ag_alpha_ids g). never_held ops (wd_now w) (lease_key a) r (wd_store w)"
  shows "(ok \<longrightarrow> (\<forall>a \<in> set (ag_alpha_ids g).
            held_until ops (wd_now w') (wd_now w + of_int ttl) (lease_key a) r (wd_store w'))) \<and>
         (\<not> ok \<longrightarrow> answered w \<longrightarrow> (\<exists>taken b later. ag_alpha_ids g = taken @ b # later \<and>
            (\<forall>a \<in> set (taken @ [b]). never_held ops (wd_now w') (lease_key a) r (wd_store w'))))"
proof (intro conjI impI ballI)
  fix a assume "ok" "a \<in> set (ag_alpha_ids g)"
  then show "held_until ops (wd_now w') (wd_now w + of_int ttl) (lease_key a) r (wd_store w')"
    using key_server.claim_each_all [OF assms(1) assms(4) [unfolded claim_alpha_group_def] assms(2,3)] assms(5,6)
    by simp
next
  assume "\<not> ok" "answered w"
  then have "claim_each ops r ttl (ag_alpha_ids g) [] w = (Inr False, w')"
    using assms(4) by (simp add: claim_alpha_group_def)
  from key_server.claim_each_none [OF assms(1) this assms(2,3) \<open>answered w\<close>]
  show "\<exists>taken b later. ag_alpha_ids g = taken @ b # later \<and>
      (\<forall>a \<in> set (taken @ [b]). never_held ops (wd_now w') (lease_key a) r (wd_store w'))" by auto
qed

definition pair_group :: alpha_group where
  "pair_group = \<lparr>ag_tf_key = ''1m'', ag_tf_set = [''1m''], ag_alpha_ids = [''a'', ''b''], ag_configs = []\<rparr>"

definition taken_b :: memory where
  "taken_b = [lease_key ''b'' \<mapsto> (''r2'', 30)]"

lemma claim_pair_fails: "fst (claim_alpha_group memory_redis ''r1'' 20 pair_group (quiet taken_b)) = Inr False"
  by (simp add: claim_alpha_group_def pair_group_def catch_def bind_def then_do_apply release_claimed_def
      release_script_def send_get_def send_set_nx_def command_def arrive_def next_meeting_def
      interfere_def quiet_def memory_redis_def memory_get_def taken_b_def Let_def)

theorem group_claim_is_all_or_nothing_witness:
  "never_held memory_redis 0 (lease_key ''a'') ''r1''
     (wd_store (snd (claim_alpha_group memory_redis ''r1'' 20 pair_group (quiet taken_b))))"
proof -
  obtain w' where w': "claim_alpha_group memory_redis ''r1'' 20 pair_group (quiet taken_b) = (Inr False, w')"
    using claim_pair_fails by (metis prod.collapse)
  have q: "good_world ''r1'' (quiet taken_b)" "answered (quiet taken_b)"
    by (simp_all add: good_world_def answered_def quiet_def)
  have n: "\<forall>a \<in> set (ag_alpha_ids pair_group). never_held memory_redis (wd_now (quiet taken_b)) (lease_key a) ''r1''
      (wd_store (quiet taken_b))"
    by (simp add: never_held_def quiet_def taken_b_def memory_redis_def memory_get_def pair_group_def)
  have "distinct (ag_alpha_ids pair_group)" by (simp add: pair_group_def)
  note gone = group_claim_is_all_or_nothing [OF memory.key_server_axioms _ q(1) w' this n]
  have "wd_now w' = 0"
    using w' by (auto simp: claim_alpha_group_def pair_group_def catch_def bind_def then_do_apply release_claimed_def
      release_script_def send_get_def send_set_nx_def command_def arrive_def next_meeting_def
      interfere_def quiet_def memory_redis_def memory_get_def taken_b_def Let_def)
  with gone q(2) w' show ?thesis
    by (auto simp: pair_group_def Cons_eq_append_conv)
qed

text \<open>
  The groups are a partition of the configurations: every configuration is in exactly one
  group, with the others that need the same time frames, no group is larger than a runner can
  take, and the largest groups come first.
\<close>

theorem groups_are_a_partition:
  assumes "group_alphas_by_tf_set configs m = Inr gs" and "0 < m"
  shows "mset (concat (map ag_configs gs)) = mset configs \<and>
    (\<forall>g \<in> set gs. ag_configs g \<noteq> [] \<and> int (length (ag_configs g)) \<le> m \<and>
       ag_alpha_ids g = map cf_alpha_id (ag_configs g) \<and>
       (\<forall>c \<in> set (ag_configs g). join_comma (tf_set_of c) = ag_tf_key g)) \<and>
    sorted (map (\<lambda>g. - int (length (ag_alpha_ids g))) gs)"
  using groups_partition [OF assms] by blast

definition minute_alpha :: "string \<Rightarrow> alpha_config" where
  "minute_alpha a = \<lparr>cf_alpha_id = a, cf_tf_set = None, cf_enabled = True\<rparr>"

theorem groups_are_a_partition_witness:
  "\<exists>gs. group_alphas_by_tf_set (map minute_alpha [''a'', ''b'', ''c'']) 2 = Inr gs \<and>
     size (mset (concat (map ag_configs gs))) = 3"
proof -
  obtain gs where g: "group_alphas_by_tf_set (map minute_alpha [''a'', ''b'', ''c'']) 2 = Inr gs"
    by (auto simp: group_alphas_by_tf_set_def Let_def)
  have "mset (concat (map ag_configs gs)) = mset (map minute_alpha [''a'', ''b'', ''c''])"
    using groups_are_a_partition [OF g] by simp
  then have "size (mset (concat (map ag_configs gs))) = 3" by (simp add: size_mset)
  with g show ?thesis by blast
qed

text \<open>
  The periodic claim takes no more alphas than the runner has room for, and only stored
  configurations that are enabled and allowed.
\<close>

theorem periodic_claim_is_bounded:
  assumes "claim_unclaimed ops r allowed stored m ttl owned w = (Inr cs, w')"
  shows "int (length cs) \<le> max 0 (m - owned) \<and>
    (\<forall>c \<in> set cs. Some (Inr c) \<in> set stored \<and> cf_enabled c \<and>
       (allowed \<noteq> None \<longrightarrow> cf_alpha_id c \<in> set (the allowed)))"
proof -
  obtain us w1 where us: "unclaimed_among ops allowed stored w = (Inr us, w1)"
    and rest: "(if us = [] then ret [] else claim_alpha_groups ops r us m ttl owned) w1 = (Inr cs, w')"
    using assms unfolding claim_unclaimed_def by (rule bind_InrE)
  have "int (length cs) \<le> max 0 (m - owned) \<and> mset cs \<subseteq># mset us"
  proof (cases "us = [] \<or> m - owned \<le> 0")
    case True
    with rest show ?thesis by (auto simp: claim_alpha_groups_def split: if_splits)
  next
    case False
    with rest obtain gs where gs: "group_alphas_by_tf_set us m = Inr gs"
      "claim_groups ops r ttl (m - owned) gs [] w1 = (Inr cs, w')"
      by (auto simp: claim_alpha_groups_def bind_def split: sum.splits)
    have "mset (concat (map ag_configs gs)) \<subseteq># mset us"
    proof (cases "0 < m")
      case True
      then show ?thesis using groups_partition(1) [OF gs(1)] by simp
    next
      case False
      have "groups_of 0 = (\<lambda>_. [])" by (rule ext) (simp add: groups_of_def chunks.simps)
      with False have "gs = []"
        using gs(1) by (auto simp: group_alphas_by_tf_set_def Let_def concat_eq_Nil_conv [THEN iffD2] split: if_splits)
      then show ?thesis by simp
    qed
    then show ?thesis
      using claim_groups_bounded [OF gs(2)] False by (auto intro: subset_mset.order_trans)
  qed
  moreover have "set cs \<subseteq> set us" using calculation set_mset_mono by fastforce
  ultimately show ?thesis using unclaimed_among_enabled [OF us] by (simp add: subset_iff)
qed

theorem periodic_claim_is_bounded_witness:
  "\<exists>cs w'. claim_unclaimed memory_redis ''r1'' (Some [''a'']) [Some (Inr (minute_alpha ''a'')), None,
       Some (Inr (minute_alpha ''b''))] 2 20 1 (quiet Map.empty) = (Inr cs, w') \<and> length cs \<le> 1"
proof -
  let ?c = "claim_unclaimed memory_redis ''r1'' (Some [''a'']) [Some (Inr (minute_alpha ''a'')), None,
       Some (Inr (minute_alpha ''b''))] 2 20 1 (quiet Map.empty)"
  have "\<exists>cs. fst ?c = Inr cs"
    by (simp add: claim_unclaimed_def minute_alpha_def bind_def claim_alpha_groups_def
        group_alphas_by_tf_set_def add_by_tf_def groups_of_def chunks.simps claim_alpha_group_def shorten_def
        send_get_def send_set_nx_def command_def arrive_def next_meeting_def interfere_def quiet_def
        memory_redis_def memory_get_def Let_def dget_def)
  then obtain cs w' where c: "?c = (Inr cs, w')" by (metis prod.collapse)
  from periodic_claim_is_bounded [OF c] c show ?thesis by auto
qed

definition expiring :: "memory world" where
  "expiring = \<lparr>wd_store = [lease_key ''a'' \<mapsto> (''r1'', 10)], wd_now = 0,
     wd_meetings = [\<lparr>mt_delay = 9, mt_before = [], mt_delivery = Answered\<rparr>,
       \<lparr>mt_delay = 0, mt_before = [], mt_delivery = Answered\<rparr>,
       \<lparr>mt_delay = 2, mt_before = [(3 / 2, TakeLease lm2 ''a'')], mt_delivery = Answered\<rparr>]\<rparr>"

definition single_group :: alpha_group where
  "single_group = \<lparr>ag_tf_key = ''1m'', ag_tf_set = [''1m''], ag_alpha_ids = [''a''], ag_configs = []\<rparr>"

text \<open>
  Reclaiming a lease the runner already had reads the owner and extends the lease in two
  commands.  If the lease runs out in between and another runner takes it, the claim extends
  that runner's lease and reports success for an alpha it does not hold.
\<close>

theorem claim_can_be_lost:
  "fst (claim_alpha_group memory_redis ''r1'' 20 single_group expiring) = Inr True \<and>
   memory_get 11 (lease_key ''a'') (wd_store (snd (claim_alpha_group memory_redis ''r1'' 20 single_group expiring)))
     = Some ''r2''"
  by (simp add: claim_alpha_group_def single_group_def catch_def bind_def then_do_apply
      send_get_def send_set_nx_def send_expire_def command_def arrive_def next_meeting_def
      interfere_def expiring_def memory_redis_def memory_get_def lm2_def Let_def)


section \<open>Dispatching\<close>

text \<open>
  A signal that was published is not published again while it is in the window: as long as
  fewer than \<^verbatim>\<open>max_seen\<close> other calls lie in between, a call with the same logical fields, whatever
  else it carries and whatever goes wrong, leaves the stream as it is and answers \<^verbatim>\<open>None\<close> or an
  exception.
\<close>

theorem dedup_window:
  assumes "dispatch srv tc max_seen env a v ty fs d = (Inr (Some sid), d1)"
    and "int (length cs) < max_seen"
    and "list_all (\<lambda>k. dget fs' k (JStr '''') = dget fs k (JStr '''')) logical_fields"
    and "d2 = dispatch_all srv tc max_seen cs d1"
    and "dispatch srv tc max_seen env' a v ty fs' d2 = (r, d3)"
  shows "dp_stream d3 = dp_stream d2 \<and> dp_seen d3 = dp_seen d2 \<and> (r = Inr None \<or> (\<exists>e. r = Inl e))"
proof -
  have m: "0 < max_seen" "0 \<le> max_seen" using assms(2) by simp_all
  note recent = published_is_recent [OF m(1) assms(1)]
  have "sid \<in> set (last_n (1 + length cs) (dp_seen d2))"
    unfolding assms(4) using assms(2) by (intro dispatch_all_recent [OF recent(2)]) simp
  then have "sid \<in> set (dp_seen d2)" unfolding last_n_def by (rule in_set_dropD)
  moreover have "signal_id tc a v ty fs' = sid"
    unfolding recent(1) using assms(3) by (intro signal_id_logical) (simp add: list_all_iff)
  ultimately show ?thesis using dispatch_cases [OF m(2) assms(5)] by auto
qed

definition plain_codec :: text_codec where
  "plain_codec = \<lparr>tc_digest = (\<lambda>j. case j of JObj ((_, JStr a) # _ # (_, JStr ty) # (_, JStr smb) # _) \<Rightarrow>
     a @ ''/'' @ ty @ ''/'' @ smb | _ \<Rightarrow> ''''), tc_str = (\<lambda>_. ''?'')\<rparr>"

definition fresh_dispatcher :: "string list dispatcher" where
  "fresh_dispatcher = \<lparr>dp_seen = [], dp_stored = [], dp_stream = [], dp_lease_flag = True,
     dp_metrics = \<lparr>signal_dispatched = 0, signal_lease_dropped = 0, signal_dedup_skipped = 0,
       signal_published = 0\<rparr>\<rparr>"

definition calm :: dispatch_env where
  "calm = \<lparr>de_lease = Inr True, de_now = JInt 0, de_pipe = Executed, de_xadd = Inr ()\<rparr>"

definition publish :: "dispatch_env \<Rightarrow> string \<Rightarrow> string list dispatcher
    \<Rightarrow> string option res \<times> string list dispatcher" where
  "publish env smb = dispatch memory_lists plain_codec 2 env ''a'' ''v1'' ''OPEN'' [(''symbol'', JStr smb)]"

lemmas publish_simps = publish_def dispatch_def count_signal_def bind_def then_do_apply remember_def
  evict_def move_to_end_def store_id_def Let_def memory_lists_def last_n_def signal_id_def
  plain_codec_def logical_fields_def dget_def calm_def fresh_dispatcher_def

theorem dedup_window_witness:
  "let d1 = snd (publish calm ''BTC'' fresh_dispatcher);
       d2 = snd (publish calm ''ETH'' d1)
   in dp_stream (snd (publish calm ''BTC'' d2)) = dp_stream d2"
proof -
  let ?f = "\<lambda>s. [(''symbol'', JStr s)] :: fields"
  obtain d1 where d1: "publish calm ''BTC'' fresh_dispatcher = (Inr (Some ''a/OPEN/BTC''), d1)"
    by (simp add: publish_simps)
  let ?cs = "[(calm, ''a'', ''v1'', ''OPEN'', ?f ''ETH'')]"
  obtain d2 where e: "d2 = snd (publish calm ''ETH'' d1)" by simp
  then have d2: "d2 = dispatch_all memory_lists plain_codec 2 ?cs d1" by (simp add: publish_def)
  obtain r d3 where d3: "publish calm ''BTC'' d2 = (r, d3)" by fastforce
  from dedup_window [OF d1 [unfolded publish_def] _ _ d2 d3 [unfolded publish_def]] d1 d3 e
  show ?thesis by (simp add: list_all_iff)
qed

text \<open>
  A restart loses nothing: if no pipeline was lost altogether, what a new runner restores from
  the stored list is exactly what the old one remembered, in the same order, so that it keeps
  back the same signals.
\<close>

theorem restart_remembers:
  assumes "list_server srv" and "mirrored srv max_seen d" and "0 < max_seen"
    and "list_all (\<lambda>c. de_pipe (fst c) \<noteq> NotExecuted) cs"
  shows "restore_seen srv max_seen (dp_stored (dispatch_all srv tc max_seen cs d)) =
    dp_seen (dispatch_all srv tc max_seen cs d)"
  using assms(4)
  by (intro restore_mirrored list_server.dispatch_all_mirrored [OF assms(1-3)]) (simp add: list_all_iff)

theorem restart_remembers_witness:
  "restore_seen memory_lists 2 (dp_stored (snd (publish (calm\<lparr>de_pipe := PushOnly\<rparr>) ''BTC'' fresh_dispatcher)))
     = dp_seen (snd (publish (calm\<lparr>de_pipe := PushOnly\<rparr>) ''BTC'' fresh_dispatcher))"
proof -
  let ?cs = "[(calm\<lparr>de_pipe := PushOnly\<rparr>, ''a'', ''v1'', ''OPEN'', [(''symbol'', JStr ''BTC'')])]"
  have "mirrored memory_lists 2 fresh_dispatcher"
    by (simp add: mirrored_def fresh_dispatcher_def memory_lists_def)
  from restart_remembers [OF memory_lists.list_server_axioms this, of ?cs plain_codec]
  show ?thesis by (simp add: publish_def calm_def)
qed

text \<open>
  The id is remembered before the signal is sent.  When the XADD fails the call raises, and a
  second attempt with the same fields is then taken for a duplicate: the signal is never sent.
\<close>

theorem failed_publish_is_lost:
  assumes "0 < max_seen" and "de_lease env = Inr True" and "de_xadd env = Inl e"
    and "signal_id tc a v ty fs \<notin> set (dp_seen d)"
    and "dispatch srv tc max_seen env a v ty fs d = (r, d1)"
    and "de_lease env' = Inr True"
    and "dispatch srv tc max_seen env' a v ty fs d1 = (r', d2)"
  shows "r = Inl e \<and> r' = Inr None \<and> dp_stream d2 = dp_stream d"
proof -
  have m: "0 \<le> max_seen" using assms(1) by simp
  have first: "r = Inl e" "dp_stream d1 = dp_stream d"
      "dp_seen d1 = last_n (nat max_seen) (dp_seen d @ [signal_id tc a v ty fs])"
    using dispatch_cases [OF m assms(5)] assms(2-4) by auto
  moreover have "signal_id tc a v ty fs \<in> set (dp_seen d1)"
    unfolding first(3) using assms(1) by (simp add: last_n_def)
  moreover from this have "r' = Inr None"
    using assms(6,7) by (simp add: dispatch_def count_signal_def bind_def then_do_apply Let_def)
  ultimately show ?thesis using dispatch_cases [OF m assms(7)] by auto
qed

theorem failed_publish_is_lost_witness:
  "let (r, d1) = publish (calm\<lparr>de_xadd := Inl RedisError\<rparr>) ''BTC'' fresh_dispatcher;
       (r', d2) = publish calm ''BTC'' d1
   in r = Inl RedisError \<and> r' = Inr None \<and> dp_stream d2 = []"
proof -
  let ?f = "[(''symbol'', JStr ''BTC'')] :: fields"
  obtain r d1 where d1: "publish (calm\<lparr>de_xadd := Inl RedisError\<rparr>) ''BTC'' fresh_dispatcher = (r, d1)" by fastforce
  obtain r' d2 where d2: "publish calm ''BTC'' d1 = (r', d2)" by fastforce
  from failed_publish_is_lost [OF _ _ _ _ d1 [unfolded publish_def] _ d2 [unfolded publish_def], of RedisError] d1 d2
  show ?thesis by (simp add: fresh_dispatcher_def calm_def)
qed

end
