(* ===== verification/AlphaFeed.thy ===== *)
theory AlphaFeed
  imports CandleCache "HOL-Library.Sublist"
begin

text \<open>
  The market data of a stand-alone alpha, the data half of \<open>BaseEngine\<close> in
  \<^verbatim>\<open>alphas/base/engine.py\<close>: the symbol filters, the candle lists of \<^verbatim>\<open>alphas/base/models.py\<close>, the
  kline and warm-up messages that fill them, the channels it listens to and the question whether
  the candles are fresh enough to skip a warm-up.

  The candles of a symbol are six parallel lists; \<open>of_bars\<close> is what they are for a list of bars.
  \<open>upsert_symbol\<close> on such lists is \<open>put_bar\<close>, the operation that also describes the shared cache
  of the runner.  \<open>symbol_data\<close>, a dictionary of dictionaries, is keyed by symbol and time frame.
  The clock is read once per message; \<open>last_kline_at\<close> and \<open>last_warmup_ok_at\<close> are never read by
  the program and are left out.
\<close>

section \<open>Configuration\<close>

record alpha_cfg =
  ac_id :: string
  ac_exchange :: string
  ac_tf :: string
  ac_max_candles :: int
  ac_warmup_bars :: int
  ac_min_coverage :: real
  ac_manage_interval :: real
  ac_alert_stale :: real
  ac_skip_if_fresh :: real
  ac_snapshot_max_age :: real
  ac_no_position_is_ok :: bool
  ac_stale_suspends :: bool
  ac_data_stale_suspends :: bool
  ac_sync_suspends :: bool
  ac_blacklist :: "string set"
  ac_whitelist :: "string set"

definition mds_exchange :: "alpha_cfg \<Rightarrow> string" where
  "mds_exchange cfg = strip (ac_exchange cfg)"


section \<open>Symbol filters\<close>

text \<open>\<open>s.split(",")\<close>.\<close>

fun split_comma :: "string \<Rightarrow> string list" where
  "split_comma [] = [[]]"
| "split_comma (c # cs) =
     (if c = CHR '','' then [] # split_comma cs
      else (case split_comma cs of [] \<Rightarrow> [[c]] | w # ws \<Rightarrow> (c # w) # ws))"

definition names_of_csv :: "string \<Rightarrow> string set" where
  "names_of_csv csv = set (map (\<lambda>s. upper (strip s)) (filter (\<lambda>s. strip s \<noteq> '''') (split_comma csv)))"

text \<open>\<open>_load_whitelist_file\<close> and \<open>_load_blacklist_file\<close>: \<open>None\<close> is no path or no such file.\<close>

definition names_of_lines :: "string list \<Rightarrow> string set" where
  "names_of_lines lines = set (map upper
     (filter (\<lambda>line. line \<noteq> '''' \<and> hd line \<noteq> CHR ''#'') (map strip lines)))"

text \<open>What \<open>__init__\<close> makes of the setting and the file.\<close>

definition load_names :: "string \<Rightarrow> string list option \<Rightarrow> string set" where
  "load_names csv file = names_of_csv csv \<union> (case file of None \<Rightarrow> {} | Some lines \<Rightarrow> names_of_lines lines)"

definition is_blacklisted :: "alpha_cfg \<Rightarrow> string \<Rightarrow> bool" where
  "is_blacklisted cfg smb \<longleftrightarrow> upper smb \<in> ac_blacklist cfg"

definition is_whitelisted :: "alpha_cfg \<Rightarrow> string \<Rightarrow> bool" where
  "is_whitelisted cfg smb \<longleftrightarrow> ac_whitelist cfg = {} \<or> upper smb \<in> ac_whitelist cfg"

definition allowed_symbol :: "alpha_cfg \<Rightarrow> string \<Rightarrow> bool" where
  "allowed_symbol cfg smb \<longleftrightarrow> \<not> is_blacklisted cfg smb \<and> is_whitelisted cfg smb"

section \<open>The candles of one symbol\<close>

record symbol_data =
  sd_price :: "pyfloat list"
  sd_volume :: "pyfloat list"
  sd_high :: "pyfloat list"
  sd_low :: "pyfloat list"
  sd_open :: "pyfloat list"
  sd_time :: "int list"

definition new_symbol_data :: symbol_data where
  "new_symbol_data = \<lparr>sd_price = [], sd_volume = [], sd_high = [], sd_low = [], sd_open = [], sd_time = []\<rparr>"

text \<open>The five prices, in the order in which every operation goes through them.\<close>

type_synonym price_field = "string \<times> (symbol_data \<Rightarrow> pyfloat list)
    \<times> ((pyfloat list \<Rightarrow> pyfloat list) \<Rightarrow> symbol_data \<Rightarrow> symbol_data)"

definition price_fields :: "price_field list" where
  "price_fields = [(''open'', sd_open, sd_open_update), (''high'', sd_high, sd_high_update),
     (''low'', sd_low, sd_low_update), (''close'', sd_price, sd_price_update),
     (''volume'', sd_volume, sd_volume_update)]"

text \<open>\<open>xs.insert(i, x)\<close>; beyond the end it appends.\<close>

definition py_insert :: "nat \<Rightarrow> 'a \<Rightarrow> 'a list \<Rightarrow> 'a list" where
  "py_insert i x xs = take i xs @ x # drop i xs"

definition replace_field :: "nat \<Rightarrow> candle \<Rightarrow> price_field \<Rightarrow> (symbol_data, unit) eff" where
  "replace_field i msg p = (case p of (k, get, upd) \<Rightarrow>
     bind (lift_res (candle_float msg k)) (\<lambda>x.
     bind get_state (\<lambda>sd.
     if i < length (get sd) then modify (upd (\<lambda>xs. xs[i := x])) else throw IndexError)))"

definition change_field ::
  "(pyfloat \<Rightarrow> pyfloat list \<Rightarrow> pyfloat list) \<Rightarrow> candle \<Rightarrow> price_field \<Rightarrow> (symbol_data, unit) eff" where
  "change_field f msg p = (case p of (k, get, upd) \<Rightarrow>
     bind (lift_res (candle_float msg k)) (\<lambda>x. modify (upd (f x))))"

definition replace_candle :: "nat \<Rightarrow> candle \<Rightarrow> (symbol_data, unit) eff" where
  "replace_candle i msg = for_each (replace_field i msg) price_fields"

definition append_candle :: "int \<Rightarrow> candle \<Rightarrow> (symbol_data, unit) eff" where
  "append_candle t msg = then_do (modify (sd_time_update (\<lambda>ts. ts @ [t])))
     (for_each (change_field (\<lambda>x xs. xs @ [x]) msg) price_fields)"

definition insert_candle :: "nat \<Rightarrow> int \<Rightarrow> candle \<Rightarrow> (symbol_data, unit) eff" where
  "insert_candle i t msg = then_do (modify (sd_time_update (py_insert i t)))
     (for_each (change_field (py_insert i) msg) price_fields)"

text \<open>\<open>bisect_left\<close> on a sorted list; the times are always sorted.\<close>

definition bisect_left :: "int list \<Rightarrow> int \<Rightarrow> nat" where
  "bisect_left ts t = length (takeWhile (\<lambda>u. u < t) ts)"

definition upsert_symbol :: "candle \<Rightarrow> int \<Rightarrow> (symbol_data, unit) eff" where
  "upsert_symbol msg t = bind get_state (\<lambda>sd.
     let ts = sd_time sd; i = bisect_left ts t
     in if ts \<noteq> [] \<and> t = List.last ts then replace_candle (length ts - 1) msg
        else if ts \<noteq> [] \<and> t > List.last ts then append_candle t msg
        else if ts \<noteq> [] \<and> i < length ts \<and> ts ! i = t then replace_candle i msg
        else insert_candle (if ts = [] then 0 else i) t msg)"

definition trim_symbol_data :: "int \<Rightarrow> symbol_data \<Rightarrow> symbol_data" where
  "trim_symbol_data max_candles sd =
     (let overflow = int (length (sd_time sd)) - max_candles
      in if overflow \<le> 0 then sd
         else sd\<lparr>sd_time := drop (nat overflow) (sd_time sd), sd_open := drop (nat overflow) (sd_open sd),
                sd_high := drop (nat overflow) (sd_high sd), sd_low := drop (nat overflow) (sd_low sd),
                sd_price := drop (nat overflow) (sd_price sd), sd_volume := drop (nat overflow) (sd_volume sd)\<rparr>)"

section \<open>Messages\<close>

record feed =
  fd_data :: "(key, symbol_data) dict"
  fd_last_message :: real
  fd_universe :: "string list"

text \<open>The symbol's lists, created empty when they are missing; what a raising call wrote stays.\<close>

definition on_symbol :: "key \<Rightarrow> (symbol_data, 'a) eff \<Rightarrow> ('z feed_scheme, 'a) eff" where
  "on_symbol k m = (\<lambda>f. case m (dget (fd_data f) k new_symbol_data) of
     (r, sd) \<Rightarrow> (r, f\<lparr>fd_data := dset k sd (fd_data f)\<rparr>))"

text \<open>\<open>except (TypeError, ValueError)\<close>.\<close>

fun type_or_value_error :: "exn \<Rightarrow> bool" where
  "type_or_value_error TypeError = True"
| "type_or_value_error (ValueError s) = True"
| "type_or_value_error e = False"

fun symbol_text :: "json \<Rightarrow> string res" where
  "symbol_text (JStr s) = Inr s"
| "symbol_text _ = Inl AttributeError"

text \<open>A time frame that is not a text; as a number it would be a key of its own, which is left out.\<close>

fun tf_text :: "json \<Rightarrow> string res" where
  "tf_text (JStr s) = Inr s"
| "tf_text _ = Inl TypeError"

definition store_candle :: "alpha_cfg \<Rightarrow> real \<Rightarrow> key \<Rightarrow> candle \<Rightarrow> int \<Rightarrow> ('z feed_scheme, unit) eff" where
  "store_candle cfg now k msg t =
     then_do (on_symbol k (upsert_symbol msg t))
     (then_do (modify (\<lambda>f. f\<lparr>fd_last_message := now\<rparr>))
       (on_symbol k (modify (trim_symbol_data (ac_max_candles cfg)))))"

definition on_kline_message :: "alpha_cfg \<Rightarrow> real \<Rightarrow> candle \<Rightarrow> ('z feed_scheme, unit) eff" where
  "on_kline_message cfg now msg =
     (let smb = dget msg ''symbol'' (JStr ''''); tf = dget msg ''tf'' (JStr '''');
          raw_exchange = dget msg ''exchange'' (JStr '''');
          msg_exchange = (if json_truthy raw_exchange then jstr raw_exchange else '''')
      in if mds_exchange cfg \<noteq> '''' \<and> msg_exchange \<noteq> '''' \<and> msg_exchange \<noteq> mds_exchange cfg then ret ()
         else if \<not> json_truthy smb \<or> \<not> json_truthy tf then ret ()
         else case py_int (dget msg ''open_time'' (JInt 0)) of
             Inl e \<Rightarrow> if type_or_value_error e then ret () else throw e
           | Inr t \<Rightarrow>
               if t \<le> 0 then ret ()
               else bind (lift_res (symbol_text smb)) (\<lambda>smb.
                    if \<not> allowed_symbol cfg smb then ret ()
                    else bind (lift_res (tf_text tf)) (\<lambda>tf. store_candle cfg now (smb, tf) msg t)))"

text \<open>A warm-up answer: the fields of a stream entry.\<close>

record warmup_msg =
  wm_symbol :: string
  wm_tf :: string
  wm_candles :: jtext

definition load_candle :: "key \<Rightarrow> json \<Rightarrow> ('z feed_scheme, unit) eff" where
  "load_candle k j = (case j of
       JObj c \<Rightarrow> (case py_int (dget c ''open_time'' (JInt 0)) of
           Inl e \<Rightarrow> if type_or_value_error e then ret () else throw e
         | Inr t \<Rightarrow> if t \<le> 0 then ret () else on_symbol k (upsert_symbol c t))
     | _ \<Rightarrow> throw AttributeError)"

text \<open>Iterating over the parsed value: the keys of an object and the characters of a text have no \<open>get\<close>.\<close>

fun elements :: "json \<Rightarrow> json list res" where
  "elements (JArr xs) = Inr xs"
| "elements (JObj d) = Inr (map (JStr \<circ> fst) d)"
| "elements (JStr s) = Inr (map (\<lambda>c. JStr [c]) s)"
| "elements _ = Inl TypeError"

definition load_warmup_candles :: "alpha_cfg \<Rightarrow> warmup_msg \<Rightarrow> ('z feed_scheme, bool) eff" where
  "load_warmup_candles cfg data =
     (let k = (wm_symbol data, wm_tf data)
      in if wm_symbol data = '''' \<or> wm_tf data = '''' \<or> \<not> allowed_symbol cfg (wm_symbol data) then ret False
         else bind (lift_res (jloads (wm_candles data))) (\<lambda>candles.
              if \<not> json_truthy candles then ret False
              else then_do (on_symbol k (ret ()))
                  (bind (lift_res (elements candles)) (\<lambda>xs.
                   then_do (for_each (load_candle k) xs)
                  (then_do (on_symbol k (modify (trim_symbol_data (ac_max_candles cfg))))
                  (bind get_state (\<lambda>f. ret (sd_time (dget (fd_data f) k new_symbol_data) \<noteq> []))))))))"

text \<open>The universe the market data service publishes, for a later warm-up.\<close>

definition on_symbol_universe_message :: "alpha_cfg \<Rightarrow> candle \<Rightarrow> ('z feed_scheme, unit) eff" where
  "on_symbol_universe_message cfg msg =
     (let symbols = dget msg ''symbols'' (JArr [])
      in if \<not> json_truthy symbols then ret ()
         else bind (lift_res (res_bind (elements symbols) (res_map symbol_text))) (\<lambda>names.
              modify (\<lambda>f. f\<lparr>fd_universe := filter (allowed_symbol cfg) names\<rparr>)))"

section \<open>Time frames and channels\<close>

definition minute_ms :: int where
  "minute_ms = 60000"

definition tf_to_ms :: "string \<Rightarrow> int res" where
  "tf_to_ms tf =
     (if suffix ''m'' tf then res_bind (py_int_str (butlast tf)) (\<lambda>n. Inr (n * minute_ms))
      else if suffix ''h'' tf then res_bind (py_int_str (butlast tf)) (\<lambda>n. Inr (n * (60 * minute_ms)))
      else if suffix ''d'' tf then res_bind (py_int_str (butlast tf)) (\<lambda>n. Inr (n * (1440 * minute_ms)))
      else Inr minute_ms)"

definition tf_to_seconds :: "string \<Rightarrow> real res" where
  "tf_to_seconds tf = res_bind (tf_to_ms tf) (\<lambda>ms. Inr (of_int ms / 1000))"

text \<open>The second conversion never raises: it falls back to the configured freshness.\<close>

definition tf_seconds :: "alpha_cfg \<Rightarrow> string \<Rightarrow> real" where
  "tf_seconds cfg tf = (case py_int_str (butlast tf) of
       Inl e \<Rightarrow> ac_skip_if_fresh cfg
     | Inr n \<Rightarrow> if suffix ''m'' tf then of_int n * 60
               else if suffix ''h'' tf then of_int n * 3600
               else if suffix ''d'' tf then of_int n * 86400 else ac_skip_if_fresh cfg)"

text \<open>\<open>ch.rsplit(":", 1)[-1]\<close>.\<close>

definition after_colon :: "string \<Rightarrow> string" where
  "after_colon ch = rev (takeWhile (\<lambda>c. c \<noteq> CHR '':'') (rev ch))"

definition kline_channel :: "alpha_cfg \<Rightarrow> string \<Rightarrow> string" where
  "kline_channel cfg tf = (if mds_exchange cfg = '''' then ''kline:'' @ tf
     else ''kline:'' @ mds_exchange cfg @ '':'' @ tf)"

definition build_channels :: "alpha_cfg \<Rightarrow> string list \<Rightarrow> string list" where
  "build_channels cfg required =
     (let channels = map (\<lambda>ch. if prefix ''kline:'' ch then kline_channel cfg (after_colon ch) else ch) required;
          universe = ''symbols:'' @ mds_exchange cfg
      in if mds_exchange cfg \<noteq> ''''
         then (if universe \<in> set channels then channels else channels @ [universe])
         else if 0 < ac_manage_interval cfg \<and> kline_channel cfg ''1m'' \<notin> set channels
         then channels @ [kline_channel cfg ''1m''] else channels)"

definition max_kline_interval :: "alpha_cfg \<Rightarrow> string list \<Rightarrow> real res" where
  "max_kline_interval cfg required =
     res_bind (res_map (tf_to_seconds \<circ> after_colon) (filter (prefix ''kline:'') (build_channels cfg required)))
       (\<lambda>xs. Inr (if xs = [] then 0 else Max (set xs)))"

definition stale_threshold :: "alpha_cfg \<Rightarrow> string list \<Rightarrow> real res" where
  "stale_threshold cfg required = res_bind (max_kline_interval cfg required) (\<lambda>k.
     Inr (max 120 (max (ac_alert_stale cfg * 8) (k * (5 / 2)))))"

section \<open>Warm-up\<close>

text \<open>The number of symbols that must be ready: a share of the universe, given as such or in percent.\<close>

definition required_symbols :: "real \<Rightarrow> nat \<Rightarrow> int" where
  "required_symbols min_share n =
     (let share = (if min_share > 1 then min_share / 100 else min_share)
      in max 1 \<lceil>of_nat n * max 0 (min 1 share)\<rceil>)"

definition warmup_coverage :: "alpha_cfg \<Rightarrow> nat \<Rightarrow> nat \<Rightarrow> bool" where
  "warmup_coverage cfg ready n \<longleftrightarrow> int ready \<ge> required_symbols (ac_min_coverage cfg) n"

definition symbol_data_ready :: "key \<Rightarrow> 'z feed_scheme \<Rightarrow> bool" where
  "symbol_data_ready k f \<longleftrightarrow> (case map_of (fd_data f) k of None \<Rightarrow> False | Some sd \<Rightarrow> sd_price sd \<noteq> [])"

definition reconnect_freshness :: "alpha_cfg \<Rightarrow> string \<Rightarrow> real" where
  "reconnect_freshness cfg tf = (if ac_skip_if_fresh cfg \<le> 0 then 0
     else max (ac_skip_if_fresh cfg) (tf_seconds cfg tf * 2))"

definition fresh_symbol :: "real \<Rightarrow> real \<Rightarrow> string \<Rightarrow> 'z feed_scheme \<Rightarrow> string \<Rightarrow> bool" where
  "fresh_symbol now max_age tf f smb = (case map_of (fd_data f) (smb, tf) of
       None \<Rightarrow> False
     | Some sd \<Rightarrow> sd_time sd \<noteq> [] \<and> now - of_int (List.last (sd_time sd)) / 1000 \<le> max_age)"

definition should_skip_reconnect_warmup ::
  "alpha_cfg \<Rightarrow> string list \<Rightarrow> string list \<Rightarrow> real \<Rightarrow> string \<Rightarrow> 'z feed_scheme \<Rightarrow> bool res" where
  "should_skip_reconnect_warmup cfg required symbols now tf f =
     (let max_age = reconnect_freshness cfg tf
      in if max_age \<le> 0 \<or> symbols = [] then Inr False
         else if int (length (filter (fresh_symbol now max_age tf f) symbols))
             < required_symbols (ac_min_coverage cfg) (length symbols) then Inr False
         else if fd_last_message f > 0 then
           res_bind (stale_threshold cfg required) (\<lambda>s. Inr (now - fd_last_message f \<le> max max_age s))
         else Inr True)"

text \<open>\<open>xs[-n:]\<close>.\<close>

definition from_last :: "int \<Rightarrow> 'a list \<Rightarrow> 'a list" where
  "from_last n xs = (if n > 0 then last_n (nat n) xs else drop (nat (- n)) xs)"

definition parsed :: "jtext list \<Rightarrow> json list" where
  "parsed ts = concat (map (\<lambda>t. case jloads t of Inl e \<Rightarrow> [] | Inr j \<Rightarrow> [j]) ts)"

definition candle_time :: "json \<Rightarrow> int res" where
  "candle_time j = (case j of JObj c \<Rightarrow> py_int (dget c ''open_time'' (JInt 0)) | _ \<Rightarrow> Inl AttributeError)"

text \<open>
  One symbol of the snapshot fast path.  \<open>recent\<close> and \<open>legacy\<close> are the stored texts, empty when
  Redis raises; the second are read when the first do not suffice.
\<close>

definition snapshot_symbol ::
  "alpha_cfg \<Rightarrow> int \<Rightarrow> string \<Rightarrow> int \<Rightarrow> int \<Rightarrow> jtext list \<Rightarrow> jtext list \<Rightarrow> string \<Rightarrow> ('z feed_scheme, bool) eff" where
  "snapshot_symbol cfg now_ms tf candle_ms want recent legacy smb =
     (let candles = parsed recent;
          candles = (if int (length candles) < want then candles @ parsed legacy else candles)
      in if int (length candles) < want then ret False
         else bind (lift_res (res_map candle_time candles)) (\<lambda>times.
              let ordered = sort_key fst (zip times candles)
              in if ordered = [] then throw IndexError
                 else if now_ms - fst (List.last ordered) > candle_ms * 2 then ret False
                 else load_warmup_candles cfg \<lparr>wm_symbol = smb, wm_tf = tf,
                        wm_candles = JText (JArr (from_last want (map snd ordered)))\<rparr>))"

fun snapshot_warmup ::
  "alpha_cfg \<Rightarrow> int \<Rightarrow> string \<Rightarrow> int \<Rightarrow> int \<Rightarrow> (string \<Rightarrow> jtext list) \<Rightarrow> (string \<Rightarrow> jtext list) \<Rightarrow> string list
     \<Rightarrow> ('z feed_scheme, string list) eff" where
  "snapshot_warmup cfg now_ms tf candle_ms want recent legacy [] = ret []"
| "snapshot_warmup cfg now_ms tf candle_ms want recent legacy (smb # smbs) =
     bind (snapshot_symbol cfg now_ms tf candle_ms want (recent smb) (legacy smb) smb) (\<lambda>ok.
     bind (snapshot_warmup cfg now_ms tf candle_ms want recent legacy smbs) (\<lambda>loaded.
     ret (if ok then smb # loaded else loaded)))"

text \<open>
  The stream of answers: the batches that arrive before the deadline, each read as a whole; the
  loop stops when every expected symbol has been answered, with or without candles.
\<close>

fun stream_batch ::
  "alpha_cfg \<Rightarrow> warmup_msg list \<Rightarrow> string set \<Rightarrow> ('z feed_scheme, string set) eff" where
  "stream_batch cfg [] received = ret received"
| "stream_batch cfg (m # ms) received =
     bind (load_warmup_candles cfg m) (\<lambda>loaded.
     stream_batch cfg ms (if wm_symbol m = '''' then received else insert (wm_symbol m) received))"

fun stream_warmup ::
  "alpha_cfg \<Rightarrow> string set \<Rightarrow> warmup_msg list list \<Rightarrow> string set \<Rightarrow> ('z feed_scheme, string set) eff" where
  "stream_warmup cfg expected [] received = ret received"
| "stream_warmup cfg expected (b # bs) received =
     (if expected \<subseteq> received then ret received
      else bind (stream_batch cfg b received) (stream_warmup cfg expected bs))"

text \<open>
  What a warm-up meets: the symbols of the alpha, those found by scanning the snapshot keys, the
  stored snapshots, the clock and the answers of the stream.
\<close>

record warmup_env =
  we_symbols :: "string list"
  we_discovered :: "string list"
  we_recent :: "string \<Rightarrow> jtext list"
  we_legacy :: "string \<Rightarrow> jtext list"
  we_now_ms :: int
  we_answers :: "warmup_msg list list"

definition warmup_symbols :: "alpha_cfg \<Rightarrow> warmup_env \<Rightarrow> 'z feed_scheme \<Rightarrow> string list \<times> bool" where
  "warmup_symbols cfg env f =
     (let own = filter (allowed_symbol cfg) (we_symbols env)
      in if own \<noteq> [] then (own, False)
         else if fd_universe f \<noteq> [] then (fd_universe f, True)
         else if mds_exchange cfg \<noteq> ''''
         then (sorted_list_of_set (set (filter (\<lambda>s. s \<noteq> '''' \<and> allowed_symbol cfg s) (we_discovered env))), True)
         else ([], False))"

definition request_warmup :: "alpha_cfg \<Rightarrow> warmup_env \<Rightarrow> ('z feed_scheme, bool) eff" where
  "request_warmup cfg env = bind get_state (\<lambda>f.
     let (smbs, snapshot_only) = warmup_symbols cfg env f; tf = ac_tf cfg
     in if smbs = [] then ret False
        else bind (if mds_exchange cfg = '''' then ret []
                   else bind (lift_res (tf_to_ms tf)) (\<lambda>candle_ms.
                        snapshot_warmup cfg (we_now_ms env) tf candle_ms (ac_warmup_bars cfg) (we_recent env)
                          (we_legacy env) smbs)) (\<lambda>loaded.
          let received = set loaded;
              pending = (if snapshot_only then [] else filter (\<lambda>s. s \<notin> received) smbs);
              pending = (if real (card received) / real (length smbs) \<ge> 6 / 10 then [] else pending)
          in then_do (if pending = [] then ret () else then_do (stream_warmup cfg (set pending) (we_answers env) received) (ret ()))
            (bind get_state (\<lambda>f.
              ret (warmup_coverage cfg (card {s \<in> set smbs. symbol_data_ready (s, tf) f}) (length smbs))))))"

section \<open>The lists of a list of bars\<close>

definition of_bars :: "slot list \<Rightarrow> symbol_data" where
  "of_bars xs = \<lparr>sd_price = map s_close xs, sd_volume = map s_volume xs, sd_high = map s_high xs,
     sd_low = map s_low xs, sd_open = map s_open xs, sd_time = map s_time xs\<rparr>"

text \<open>The bar of a readable candle.  A Python list holds integers of any size.\<close>

definition bar_of :: "candle \<Rightarrow> int \<Rightarrow> slot res" where
  "bar_of c t =
     res_bind (candle_float c ''open'') (\<lambda>o'.
     res_bind (candle_float c ''high'') (\<lambda>h.
     res_bind (candle_float c ''low'') (\<lambda>l.
     res_bind (candle_float c ''close'') (\<lambda>cl.
     res_bind (candle_float c ''volume'') (\<lambda>v.
     Inr \<lparr>s_time = t, s_open = o', s_high = h, s_low = l, s_close = cl, s_volume = v\<rparr>)))))"

lemma slot_of_bar_of: "int64 t \<Longrightarrow> slot_of c t = bar_of c t"
  by (simp add: slot_of_def bar_of_def)

lemma bar_of_time: "bar_of c t = Inr x \<Longrightarrow> s_time x = t"
  by (auto simp: bar_of_def res_bind_Inr_iff)

lemma bar_of_fields:
  assumes "bar_of c t = Inr x"
  shows "candle_float c ''open'' = Inr (s_open x)" "candle_float c ''high'' = Inr (s_high x)"
    "candle_float c ''low'' = Inr (s_low x)" "candle_float c ''close'' = Inr (s_close x)"
    "candle_float c ''volume'' = Inr (s_volume x)"
  using assms by (auto simp: bar_of_def res_bind_Inr_iff)

lemma replace_candle_bars:
  assumes "bar_of msg t = Inr x" "i < length xs" "s_time (xs ! i) = t"
  shows "replace_candle i msg (of_bars xs) = (Inr (), of_bars (xs[i := x]))"
proof -
  have "(map s_time xs)[i := s_time x] = map s_time xs"
    using assms(2,3) bar_of_time [OF assms(1)] by (metis list_update_id nth_map)
  then show ?thesis
    using assms(2) bar_of_fields [OF assms(1)]
    by (simp add: replace_candle_def price_fields_def replace_field_def then_do_apply of_bars_def map_update)
qed

lemma append_candle_bars:
  "bar_of msg t = Inr x \<Longrightarrow> append_candle t msg (of_bars xs) = (Inr (), of_bars (xs @ [x]))"
  using bar_of_fields [of msg t x] bar_of_time [of msg t x]
  by (simp add: append_candle_def price_fields_def change_field_def then_do_apply of_bars_def)

lemma insert_candle_bars:
  "bar_of msg t = Inr x \<Longrightarrow> insert_candle i t msg (of_bars xs) = (Inr (), of_bars (py_insert i x xs))"
  using bar_of_fields [of msg t x] bar_of_time [of msg t x]
  by (simp add: insert_candle_def price_fields_def change_field_def then_do_apply of_bars_def py_insert_def
      take_map drop_map)


lemma of_bars_times [simp]: "sd_time (of_bars xs) = map s_time xs"
  by (simp add: of_bars_def)

lemma new_symbol_data_bars: "new_symbol_data = of_bars []"
  by (simp add: new_symbol_data_def of_bars_def)

lemma upsert_symbol_bars:
  assumes asc: "ascending xs" and x: "bar_of msg t = Inr x"
  shows "upsert_symbol msg t (of_bars xs) = (Inr (), of_bars (put_bar x xs))"
proof (cases "xs = []")
  case True
  then show ?thesis
    using insert_candle_bars [OF x, of 0 "[]"] by (simp add: upsert_symbol_def py_insert_def Let_def)
next
  case False
  have t: "s_time x = t" using bar_of_time [OF x] .
  let ?i = "bisect_left (map s_time xs) t"
  have last: "List.last (map s_time xs) = s_time (List.last xs)" using False by (simp add: last_map)
  have nth: "s_time (List.last xs) = s_time (xs ! (length xs - 1))" using False by (simp add: last_conv_nth)
  have sorted: "sorted_wrt (<) (map s_time xs)" using asc by (simp add: ascending_def)
  consider "t = s_time (List.last xs)" | "t > s_time (List.last xs)"
    | "t < s_time (List.last xs)" "?i < length xs" "s_time (xs ! ?i) = t"
    | "t < s_time (List.last xs)" "\<not> (?i < length xs \<and> s_time (xs ! ?i) = t)" by linarith
  then show ?thesis
  proof cases
    case 1
    then have "replace_candle (length xs - 1) msg (of_bars xs) = (Inr (), of_bars (put_bar x xs))"
      using False t nth put_bar_replace [OF asc, of "length xs - 1" x]
      by (subst replace_candle_bars [OF x]) simp_all
    then show ?thesis using False 1 by (simp add: upsert_symbol_def last Let_def)
  next
    case 2
    have "\<forall>y \<in> set xs. s_time y < s_time x"
    proof
      fix y assume "y \<in> set xs"
      then obtain i where i: "i < length xs" "y = xs ! i" by (auto simp: in_set_conv_nth)
      then have "i = length xs - 1 \<or> i < length xs - 1" by linarith
      then have "s_time y \<le> s_time (xs ! (length xs - 1))"
        using sorted_wrt_nth_less [OF sorted, of i "length xs - 1"] i False by auto
      then show "s_time y < s_time x" using 2 t nth by linarith
    qed
    then have "append_candle t msg (of_bars xs) = (Inr (), of_bars (put_bar x xs))"
      using append_candle_bars [OF x, of xs] by (simp add: put_bar_append)
    then show ?thesis using False 2 by (simp add: upsert_symbol_def last Let_def)
  next
    case 3
    then have "replace_candle ?i msg (of_bars xs) = (Inr (), of_bars (put_bar x xs))"
      using t put_bar_replace [OF asc, of ?i x] by (subst replace_candle_bars [OF x]) simp_all
    then show ?thesis using False 3 by (simp add: upsert_symbol_def last Let_def)
  next
    case 4
    have "s_time x \<notin> s_time ` set xs"
    proof
      assume "s_time x \<in> s_time ` set xs"
      moreover have "sorted_wrt (<) us \<Longrightarrow> t \<in> set us \<Longrightarrow>
          length (takeWhile (\<lambda>u. u < t) us) < length us \<and> us ! length (takeWhile (\<lambda>u. u < t) us) = t"
        for us :: "int list" by (induction us) auto
      from this [OF sorted] calculation have "?i < length xs \<and> map s_time xs ! ?i = t"
        by (simp add: bisect_left_def t)
      then show False using 4(2) by (metis nth_map)
    qed
    with put_bar_insert [OF asc] have "put_bar x xs = py_insert ?i x xs"
      by (simp add: py_insert_def bisect_left_def t)
    then have "insert_candle ?i t msg (of_bars xs) = (Inr (), of_bars (put_bar x xs))"
      using insert_candle_bars [OF x, of ?i xs] by simp
    then show ?thesis using False 4 by (auto simp: upsert_symbol_def last Let_def)
  qed
qed

lemma trim_symbol_bars: "trim_symbol_data n (of_bars xs) = of_bars (last_n (nat n) xs)"
proof (cases "int (length xs) \<le> n")
  case False
  then have "nat (int (length xs) - n) = length xs - nat n \<or> n < 0" by linarith
  then show ?thesis
    using False by (auto simp: trim_symbol_data_def Let_def of_bars_def last_n_def drop_map)
qed (simp add: trim_symbol_data_def Let_def)

section \<open>The candles of a feed\<close>

definition bars_of :: "symbol_data \<Rightarrow> slot list" where
  "bars_of sd = map (\<lambda>i. \<lparr>s_time = sd_time sd ! i, s_open = sd_open sd ! i, s_high = sd_high sd ! i,
     s_low = sd_low sd ! i, s_close = sd_price sd ! i, s_volume = sd_volume sd ! i\<rparr>) [0..<length (sd_time sd)]"

definition candles :: "key \<Rightarrow> 'z feed_scheme \<Rightarrow> slot list" where
  "candles k f = bars_of (dget (fd_data f) k new_symbol_data)"

text \<open>The six lists of every key are aligned and in ascending order of time.\<close>

definition aligned :: "'z feed_scheme \<Rightarrow> bool" where
  "aligned f \<longleftrightarrow> (\<forall>k. ascending (candles k f) \<and>
     dget (fd_data f) k new_symbol_data = of_bars (candles k f))"

lemma alignedD:
  assumes "aligned f"
  shows "ascending (candles k f)" "dget (fd_data f) k new_symbol_data = of_bars (candles k f)"
  using assms unfolding aligned_def by blast+

lemma bars_of_of_bars [simp]: "bars_of (of_bars xs) = xs"
  by (rule nth_equalityI) (simp_all add: bars_of_def of_bars_def)

lemma on_symbol_bars:
  assumes "aligned f" and "m (of_bars (candles k f)) = (r, of_bars ys)" and "ascending ys"
  shows "fst (on_symbol k m f) = r \<and> aligned (snd (on_symbol k m f)) \<and>
    fd_last_message (snd (on_symbol k m f)) = fd_last_message f \<and>
    candles j (snd (on_symbol k m f)) = (if j = k then ys else candles j f)"
proof -
  let ?f = "f\<lparr>fd_data := dset k (of_bars ys) (fd_data f)\<rparr>"
  have m: "on_symbol k m f = (r, ?f)" using assms(2) by (simp add: on_symbol_def alignedD(2) [OF assms(1)])
  have d: "dget (dset k (of_bars ys) (fd_data f)) j' new_symbol_data
      = (if j' = k then of_bars ys else dget (fd_data f) j' new_symbol_data)" for j'
    by (auto simp: dget_def)
  have "candles j' ?f = (if j' = k then ys else candles j' f)" for j'
    by (simp add: candles_def d)
  then show ?thesis using alignedD [OF assms(1)] assms(3) unfolding m aligned_def by (simp add: d)
qed

text \<open>What a kline message says: nothing, a bar for a key, or an exception.\<close>

definition kline_reading :: "alpha_cfg \<Rightarrow> candle \<Rightarrow> (key \<times> slot) option res" where
  "kline_reading cfg msg =
     (let smb = dget msg ''symbol'' (JStr ''''); tf = dget msg ''tf'' (JStr '''');
          raw_exchange = dget msg ''exchange'' (JStr '''');
          msg_exchange = (if json_truthy raw_exchange then jstr raw_exchange else '''')
      in if (mds_exchange cfg \<noteq> '''' \<and> msg_exchange \<noteq> '''' \<and> msg_exchange \<noteq> mds_exchange cfg)
            \<or> \<not> json_truthy smb \<or> \<not> json_truthy tf then Inr None
         else case py_int (dget msg ''open_time'' (JInt 0)) of
             Inl e \<Rightarrow> if type_or_value_error e then Inr None else Inl e
           | Inr t \<Rightarrow> if t \<le> 0 then Inr None
               else res_bind (symbol_text smb) (\<lambda>smb.
                    if \<not> allowed_symbol cfg smb then Inr None
                    else res_bind (tf_text tf) (\<lambda>tf. res_bind (bar_of msg t) (\<lambda>x. Inr (Some ((smb, tf), x))))))"

lemma store_candle_bars:
  assumes f: "aligned f" and x: "bar_of msg t = Inr x"
  shows "fst (store_candle cfg now k msg t f) = Inr () \<and> aligned (snd (store_candle cfg now k msg t f)) \<and>
    fd_last_message (snd (store_candle cfg now k msg t f)) = now \<and>
    candles j (snd (store_candle cfg now k msg t f)) =
      (if j = k then last_n (nat (ac_max_candles cfg)) (put_bar x (candles k f)) else candles j f)"
proof -
  have asc: "ascending (put_bar x (candles k f))" by (intro put_bar_ascending alignedD(1) [OF f])
  have "upsert_symbol msg t (of_bars (candles k f)) = (Inr (), of_bars (put_bar x (candles k f)))"
    by (intro upsert_symbol_bars alignedD(1) [OF f] x)
  note up = on_symbol_bars [where m = "upsert_symbol msg t" and k = k, OF f this asc]
  let ?f1 = "snd (on_symbol k (upsert_symbol msg t) f)" let ?f2 = "?f1\<lparr>fd_last_message := now\<rparr>"
  have f2: "candles i ?f2 = candles i ?f1" "aligned ?f2 = aligned ?f1" for i
    by (simp_all add: aligned_def candles_def)
  then have al: "aligned ?f2" using up by blast
  have "modify (trim_symbol_data (ac_max_candles cfg)) (of_bars (candles k ?f2))
      = (Inr (), of_bars (last_n (nat (ac_max_candles cfg)) (put_bar x (candles k f))))"
    using up [of k] f2(1) by (simp add: trim_symbol_bars)
  note tr = on_symbol_bars [where m = "modify (trim_symbol_data (ac_max_candles cfg))" and k = k,
      OF al this ascending_last_n [OF asc]]
  have s: "store_candle cfg now k msg t f =
      (Inr (), snd (on_symbol k (modify (trim_symbol_data (ac_max_candles cfg))) ?f2))"
  proof -
    obtain f1 where f1: "on_symbol k (upsert_symbol msg t) f = (Inr (), f1)" using conjunct1 [OF up] by (metis prod.collapse)
    obtain f2 where "on_symbol k (modify (trim_symbol_data (ac_max_candles cfg))) (f1\<lparr>fd_last_message := now\<rparr>) = (Inr (), f2)"
      using conjunct1 [OF tr] f1 by (metis prod.collapse snd_conv)
    with f1 show ?thesis by (simp add: store_candle_def then_do_apply)
  qed
  show ?thesis unfolding s using tr [of j] up [of j] f2(1) [of j] by simp
qed

lemma on_kline_reading:
  assumes "aligned f" and "kline_reading cfg msg = Inr o'"
  shows "fst (on_kline_message cfg now msg f) = Inr () \<and> aligned (snd (on_kline_message cfg now msg f)) \<and>
    candles j (snd (on_kline_message cfg now msg f)) = (case o' of
        Some (k, x) \<Rightarrow> if j = k then last_n (nat (ac_max_candles cfg)) (put_bar x (candles k f)) else candles j f
      | None \<Rightarrow> candles j f)"
proof -
  have either: "on_kline_message cfg now msg f = (Inr (), f) \<and> o' = None \<or>
      (\<exists>k x t. on_kline_message cfg now msg f = store_candle cfg now k msg t f \<and> o' = Some (k, x) \<and> bar_of msg t = Inr x)"
  proof (cases "py_int (dget msg ''open_time'' (JInt 0))")
    case (Inl e)
    then show ?thesis
      using assms(2) by (cases "type_or_value_error e")
        (auto simp: kline_reading_def on_kline_message_def Let_def split: if_splits)
  next
    case (Inr t)
    then show ?thesis
      using assms(2)
      by (cases "symbol_text (dget msg ''symbol'' (JStr ''''))"; cases "tf_text (dget msg ''tf'' (JStr ''''))")
        (auto simp: kline_reading_def on_kline_message_def Let_def res_bind_Inr_iff split: if_splits)
  qed
  then show ?thesis
  proof
    assume "on_kline_message cfg now msg f = (Inr (), f) \<and> o' = None"
    then show ?thesis using assms(1) by simp
  next
    assume "\<exists>k x t. on_kline_message cfg now msg f = store_candle cfg now k msg t f \<and> o' = Some (k, x) \<and> bar_of msg t = Inr x"
    then obtain k x t where "on_kline_message cfg now msg f = store_candle cfg now k msg t f" "o' = Some (k, x)"
      "bar_of msg t = Inr x" by blast
    then show ?thesis using store_candle_bars [OF assms(1), of msg t x] by simp
  qed
qed


section \<open>A sequence of messages\<close>

definition klines :: "alpha_cfg \<Rightarrow> (real \<times> candle) list \<Rightarrow> ('z feed_scheme, unit) eff" where
  "klines cfg = for_each (\<lambda>(now, msg). on_kline_message cfg now msg)"

definition kline_bars :: "alpha_cfg \<Rightarrow> key \<Rightarrow> candle list \<Rightarrow> slot list" where
  "kline_bars cfg k msgs = concat (map (\<lambda>msg. case kline_reading cfg msg of
       Inr (Some (k', x)) \<Rightarrow> if k' = k then [x] else [] | _ \<Rightarrow> []) msgs)"

lemma klines_latest:
  assumes "aligned f" and "\<forall>m \<in> set ms. \<exists>o'. kline_reading cfg (snd m) = Inr o'"
    and "0 < ac_max_candles cfg" and "ascending ys"
    and "candles k f = last_n (nat (ac_max_candles cfg)) ys"
  shows "fst (klines cfg ms f) = Inr () \<and> aligned (snd (klines cfg ms f)) \<and>
    candles k (snd (klines cfg ms f)) =
      last_n (nat (ac_max_candles cfg)) (fold put_bar (kline_bars cfg k (map snd ms)) ys)"
  using assms
proof (induction ms arbitrary: f ys)
  case Nil
  then show ?case by (simp add: klines_def kline_bars_def)
next
  case (Cons m ms)
  obtain now msg where m: "m = (now, msg)" by (cases m)
  from Cons.prems(2) m obtain r where r: "kline_reading cfg msg = Inr r" by auto
  let ?f = "snd (on_kline_message cfg now msg f)"
  let ?n = "nat (ac_max_candles cfg)"
  note one = on_kline_reading [OF Cons.prems(1) r, of now]
  obtain ys' where ys': "ascending ys'" "candles k ?f = last_n ?n ys'"
    "fold put_bar (kline_bars cfg k (map snd (m # ms))) ys = fold put_bar (kline_bars cfg k (map snd ms)) ys'"
  proof (cases "\<exists>x. r = Some (k, x)")
    case True
    then obtain x where x: "r = Some (k, x)" by blast
    have "candles k ?f = last_n ?n (put_bar x ys)"
      using one [of k] x Cons.prems(3,4,5) by (simp add: last_n_put_bar)
    then show ?thesis
      using x r m Cons.prems(4) by (intro that [of "put_bar x ys"]) (simp_all add: kline_bars_def put_bar_ascending)
  next
    case False
    then have "candles k ?f = last_n ?n ys"
      using one [of k] Cons.prems(5) by (auto split: option.splits)
    then show ?thesis
      using False r m Cons.prems(4) by (intro that [of ys]) (auto simp: kline_bars_def split: option.splits)
  qed
  obtain f' where f': "on_kline_message cfg now msg f = (Inr (), f')"
    using one by (metis prod.collapse)
  have "klines cfg (m # ms) f = klines cfg ms f'" by (simp add: klines_def m then_do_apply f')
  then show ?case
    using Cons.IH [of f' ys'] Cons.prems(2,3) ys' one f' by simp
qed

text \<open>A message that is a bar for the alpha is the same bar for the shared cache of the runner.\<close>

lemma kline_reading_is_reading:
  assumes "kline_reading cfg msg = Inr (Some ((smb, tf), x))" and "int64 (s_time x)"
  shows "smb \<noteq> ''''" "tf \<noteq> ''''" "reading msg = Some x"
proof -
  obtain t where t: "py_int (dget msg ''open_time'' (JInt 0)) = Inr t" "0 < t" "bar_of msg t = Inr x"
    and n: "json_truthy (dget msg ''symbol'' (JStr ''''))" "symbol_text (dget msg ''symbol'' (JStr '''')) = Inr smb"
      "json_truthy (dget msg ''tf'' (JStr ''''))" "tf_text (dget msg ''tf'' (JStr '''')) = Inr tf"
    using assms(1) by (auto simp: kline_reading_def Let_def res_bind_Inr_iff split: if_splits sum.splits)
  show "smb \<noteq> ''''" using n(1,2) by (cases "dget msg ''symbol'' (JStr '''')") auto
  show "tf \<noteq> ''''" using n(3,4) by (cases "dget msg ''tf'' (JStr '''')") auto
  have "py_int (dget msg ''open_time'' (dget msg ''time'' (JInt 0))) = Inr t"
    using t(1,2) by (cases "map_of msg ''open_time''") (auto simp: dget_def)
  then show "reading msg = Some x"
    using t(2,3) assms(2) bar_of_time [OF t(3)] by (simp add: reading_def slot_of_bar_of)
qed

section \<open>A candle that cannot be read\<close>

text \<open>
  The lists of a symbol one of whose appended candles had a price that cannot be read: the time
  was appended before the exception, the close and the volume were not.
\<close>

lemma unreadable_close:
  assumes "candle_float msg ''open'' = Inr o'" "candle_float msg ''high'' = Inr h"
    "candle_float msg ''low'' = Inr l" "candle_float msg ''close'' = Inl e"
    and "xs \<noteq> []" and "s_time (List.last xs) < t"
  shows "upsert_symbol msg t (of_bars xs) = (Inl e, (of_bars xs)\<lparr>sd_time := map s_time xs @ [t],
    sd_open := map s_open xs @ [o'], sd_high := map s_high xs @ [h], sd_low := map s_low xs @ [l]\<rparr>)"
proof -
  have "List.last (map s_time xs) = s_time (List.last xs)" using assms(5) by (simp add: last_map)
  then show ?thesis
    using assms by (simp add: upsert_symbol_def append_candle_def price_fields_def change_field_def
        then_do_apply bind_def of_bars_def Let_def)
qed

lemma later_candle_shifted:
  assumes "bar_of msg t = Inr x" and "sd_time sd \<noteq> []" and "List.last (sd_time sd) < t"
  shows "fst (upsert_symbol msg t sd) = Inr ()"
    "sd_time (snd (upsert_symbol msg t sd)) = sd_time sd @ [t]"
    "sd_price (snd (upsert_symbol msg t sd)) = sd_price sd @ [s_close x]"
  using assms bar_of_fields [OF assms(1)]
  by (simp_all add: upsert_symbol_def append_candle_def price_fields_def change_field_def
      then_do_apply bind_def Let_def)

end
