(* ===== verification/AlphaEngine.thy ===== *)
theory AlphaEngine
  imports AlphaFeed Snapshots "HOL-Library.List_Lexorder" "HOL-Library.Char_ord"
begin

text \<open>
  The other half of \<open>BaseEngine\<close> in \<^verbatim>\<open>alphas/base/engine.py\<close>, with \<^verbatim>\<open>alphas/base/position_reconcile.py\<close>:
  the positions a stand-alone alpha manages, their reconciliation with the snapshot of the worker,
  the heartbeat it publishes, and the flags that decide whether it may open new trades.

  A position is the dictionary the alpha keeps.  What Redis answers and whether a heartbeat can be
  stored are arguments, as is the clock; \<open>read_time\<close> reads a JSON value as a time text
  (\<^verbatim>\<open>str(v).replace("Z", "+00:00")\<close>).  The hooks a strategy may override are the ones of the base
  class, and \<open>_has_open_positions\<close> is what every strategy makes it, the truth of its dictionary.
\<close>

section \<open>The state\<close>

datatype runtime_state = STARTING | WARMING_UP | LIVE | STALE | RECOVERING | SHUTTING_DOWN

fun state_name :: "runtime_state \<Rightarrow> string" where
  "state_name STARTING = ''STARTING''"
| "state_name WARMING_UP = ''WARMING_UP''"
| "state_name LIVE = ''LIVE''"
| "state_name STALE = ''STALE''"
| "state_name RECOVERING = ''RECOVERING''"
| "state_name SHUTTING_DOWN = ''SHUTTING_DOWN''"

type_synonym obj = "(string, json) dict"

record alpha_state = feed +
  en_state :: runtime_state
  en_data_stale :: bool
  en_reconcile_stale :: bool
  en_sync_stale :: bool
  en_positions :: "(string, obj) dict option"
  en_revision :: "int option"
  en_authoritative :: "string set"
  en_snapshot_age :: pyfloat
  en_heartbeat_ok :: bool
  en_heartbeat :: "obj option"
  en_positions_changed :: bool
  en_alert_at :: "(string, real) dict"
  en_subscribed :: "string set"

definition new_alpha :: alpha_state where
  "new_alpha = \<lparr>fd_data = [], fd_last_message = 0, fd_universe = [], en_state = STARTING,
     en_data_stale = False, en_reconcile_stale = False, en_sync_stale = False, en_positions = Some [],
     en_revision = None, en_authoritative = {}, en_snapshot_age = PInf, en_heartbeat_ok = False,
     en_heartbeat = None, en_positions_changed = False, en_alert_at = [], en_subscribed = {}\<rparr>"

definition can_open_new_trades :: "alpha_state \<Rightarrow> bool" where
  "can_open_new_trades e \<longleftrightarrow> en_state e = LIVE \<and> \<not> en_data_stale e \<and> \<not> en_reconcile_stale e \<and> \<not> en_sync_stale e"

section \<open>Reading a snapshot\<close>

text \<open>\<open>if not raw\<close>: no text, or an empty one.\<close>

definition parse_snapshot :: "jtext option \<Rightarrow> obj option" where
  "parse_snapshot raw = (case raw of
       None \<Rightarrow> None
     | Some t \<Rightarrow> (case jloads t of
           Inr (JObj payload) \<Rightarrow> (case dget payload ''positions'' JNull of JArr ps \<Rightarrow> Some payload | _ \<Rightarrow> None)
         | _ \<Rightarrow> None))"

definition snapshot_age :: "(json \<Rightarrow> isotext) \<Rightarrow> int \<Rightarrow> obj \<Rightarrow> pyfloat" where
  "snapshot_age read_time now snap = (case map_of snap ''generated_at'' of
       None \<Rightarrow> PInf
     | Some v \<Rightarrow> (case read_time v of
           NotIso s \<Rightarrow> PInf
         | IsoText d \<Rightarrow> (case utcoff d of
               None \<Rightarrow> PInf
             | Some off \<Rightarrow> Fin (max 0 (of_int (now - (wall d - off)) / 10 ^ 6)))))"

definition obj_item :: "obj \<Rightarrow> string \<Rightarrow> json res" where
  "obj_item p k = (case map_of p k of None \<Rightarrow> Inl (KeyError k) | Some v \<Rightarrow> Inr v)"

definition setdefault :: "string \<Rightarrow> json \<Rightarrow> obj \<Rightarrow> obj" where
  "setdefault k v d = (if map_of d k = None then dset k v d else d)"

text \<open>Arithmetic on the values of the dictionary.\<close>

fun number :: "json \<Rightarrow> pyfloat res" where
  "number (JNum x) = Inr x"
| "number (JInt i) = Inr (Fin (of_int i))"
| "number (JBool b) = Inr (Fin (if b then 1 else 0))"
| "number _ = Inl TypeError"

definition float_or_none :: "json \<Rightarrow> json res" where
  "float_or_none j = (if j = JNull then Inr JNull else res_bind (jfloat j) (\<lambda>x. Inr (JNum x)))"

definition object_or_empty :: "json \<Rightarrow> obj" where
  "object_or_empty j = (case j of JObj d \<Rightarrow> d | _ \<Rightarrow> [])"

definition authoritative_fields :: "obj \<Rightarrow> obj res" where
  "authoritative_fields p =
     res_bind (obj_item p ''position_id'') (\<lambda>pid.
     res_bind (obj_item p ''symbol'') (\<lambda>smb.
     res_bind (obj_item p ''side'') (\<lambda>side.
     res_bind (res_bind (obj_item p ''entry_price'') jfloat) (\<lambda>entry.
     res_bind (res_bind (obj_item p ''qty'') jfloat) (\<lambda>qty.
     res_bind (float_or_none (dget p ''tp'' JNull)) (\<lambda>tp.
     res_bind (float_or_none (dget p ''sl'' JNull)) (\<lambda>sl.
     res_bind (if json_truthy (dget p ''leverage'' JNull) then py_int (dget p ''leverage'' JNull) else Inr 1) (\<lambda>leverage.
     Inr [(''position_id'', JStr (jstr pid)), (''alpha_id'', JStr (jstr (dget p ''alpha_id'' (JStr '''')))),
          (''symbol'', JStr (jstr smb)), (''side'', JStr (upper (jstr side))), (''entry'', JNum entry),
          (''entry_price'', JNum entry), (''qty'', JNum qty), (''tp'', tp), (''sl'', sl),
          (''leverage'', JInt leverage), (''opened_at'', dget p ''opened_at'' JNull),
          (''exchange'', if json_truthy (dget p ''exchange'' JNull) then dget p ''exchange'' JNull
             else JStr ''binance''),
          (''metadata'', JObj (object_or_empty (dget p ''metadata'' JNull)))]))))))))"

text \<open>The trailing stop's extremes, derived from the stop when they are missing.\<close>

definition with_trail :: "obj \<Rightarrow> obj \<Rightarrow> obj res" where
  "with_trail metadata r =
     (let trail = dget r ''trail_distance'' (dget metadata ''trail_distance'' JNull);
          stop = (\<lambda>r. let sl = dget r ''sl'' JNull in number (if json_truthy sl then sl else dget r ''entry'' JNull))
      in if trail = JNull then Inr r
         else res_bind (jfloat trail) (\<lambda>d.
              let r = dset ''trail_distance'' (JNum d) r; entry = dget r ''entry'' JNull
              in res_bind (stop r) (\<lambda>s.
                 Inr (if dget r ''side'' JNull = JStr ''LONG''
                   then setdefault ''lse'' entry (setdefault ''hse'' (JNum (s + d)) r)
                   else setdefault ''lse'' (JNum (s - d)) (setdefault ''hse'' entry r)))))"

definition with_defaults :: "bool \<Rightarrow> obj \<Rightarrow> obj" where
  "with_defaults has_runtime r =
     (let r = setdefault ''initial_qty'' (dget r ''qty'' JNull) r;
          r = setdefault ''remaining_qty'' (dget r ''qty'' JNull) r;
          r = setdefault ''tp_hits'' (JInt (if has_runtime then 0 else 2)) r;
          r = setdefault ''be_active'' (JBool False) r;
          r = setdefault ''last_tp_signal_bar_time'' JNull r;
          r = setdefault ''entry_candle_open_ms'' (JInt 0) r;
          r = setdefault ''signal_candle_close_ms'' (JInt 0) r;
          r = setdefault ''last_managed_ms'' (dget r ''signal_candle_close_ms'' JNull) r;
          r = setdefault ''post_hold_sl'' (dget r ''sl'' JNull) r;
          r = setdefault ''post_hold_tp'' (dget r ''tp'' JNull) r;
          r = setdefault ''post_hold_tpsl_activated'' (JBool True) r;
          r = setdefault ''bar_count'' (JInt 0) r
      in setdefault ''be_activated'' (JBool False) r)"

definition runtime_of :: "obj \<Rightarrow> obj option" where
  "runtime_of metadata = (case dget metadata ''strategy_runtime'' JNull of JObj r \<Rightarrow> Some r | _ \<Rightarrow> None)"

definition normalize_position :: "obj \<Rightarrow> obj res" where
  "normalize_position p =
     (let metadata = object_or_empty (dget p ''metadata'' JNull); runtime = runtime_of metadata
      in res_bind (authoritative_fields p) (\<lambda>r.
         res_bind (with_trail metadata (dupdate r (case runtime of None \<Rightarrow> [] | Some rt \<Rightarrow> rt))) (\<lambda>r.
         res_bind (number (dget r ''entry'' JNull)) (\<lambda>entry.
         res_bind (number (dget r ''qty'' JNull)) (\<lambda>qty.
         res_bind (jfloat (dget metadata ''trade_size'' (JNum (entry * qty)))) (\<lambda>size.
         Inr (with_defaults (runtime \<noteq> None) (setdefault ''size'' (JNum size) r))))))))"

section \<open>What an alpha stores of its positions\<close>

definition worker_owned :: "string list" where
  "worker_owned = [''position_id'', ''alpha_id'', ''symbol'', ''side'', ''entry'', ''entry_price'', ''qty'',
     ''tp'', ''sl'', ''leverage'', ''opened_at'', ''exchange'', ''metadata'']"

fun scalar :: "json \<Rightarrow> bool" where
  "scalar (JArr xs) = False"
| "scalar (JObj d) = False"
| "scalar _ = True"

definition serialize_position_runtime :: "obj \<Rightarrow> obj" where
  "serialize_position_runtime p = filter (\<lambda>(k, v). k \<notin> set worker_owned \<and> scalar v) p"

text \<open>The metadata \<open>push_signal\<close> sends; \<open>None\<close> when the caller gave none and there is none to add.\<close>

definition signal_metadata :: "alpha_state \<Rightarrow> string \<Rightarrow> json \<Rightarrow> jtext option \<Rightarrow> jtext option" where
  "signal_metadata e ty position_id metadata =
     (if ty \<notin> {''OPEN'', ''MODIFY'', ''CLOSE''} then metadata
      else case find (\<lambda>p. dget p ''position_id'' JNull = position_id)
                  (map snd (case en_positions e of None \<Rightarrow> [] | Some ps \<Rightarrow> ps)) of
          None \<Rightarrow> metadata
        | Some p \<Rightarrow>
            (let m = (case metadata of None \<Rightarrow> [] | Some t \<Rightarrow> (case jloads t of Inr (JObj d) \<Rightarrow> d | _ \<Rightarrow> []))
             in Some (jdumps (JObj (dset ''strategy_runtime'' (JObj (serialize_position_runtime p))
                  (dset ''strategy_runtime_version'' (JInt 1) m))))))"


section \<open>Reconciliation\<close>

definition open_positions :: "alpha_state \<Rightarrow> (string, obj) dict" where
  "open_positions e = (case en_positions e of None \<Rightarrow> [] | Some ps \<Rightarrow> ps)"

definition local_positions_by_id :: "alpha_state \<Rightarrow> (string, string) dict" where
  "local_positions_by_id e = dupdate []
     (map (\<lambda>(smb, p). (jstr (dget p ''position_id'' JNull), smb))
       (filter (\<lambda>(smb, p). json_truthy (dget p ''position_id'' JNull)) (open_positions e)))"

definition active_symbols :: "alpha_state \<Rightarrow> string set" where
  "active_symbols e = set (filter (\<lambda>s. s \<noteq> '''') (keys (open_positions e)))"

definition sorted_texts :: "string set \<Rightarrow> json" where
  "sorted_texts xs = JArr (map JStr (sorted_list_of_set xs))"

definition heartbeat_payload :: "alpha_cfg \<Rightarrow> json \<Rightarrow> alpha_state \<Rightarrow> obj" where
  "heartbeat_payload cfg now_text e =
     [(''alpha_id'', JStr (ac_id cfg)), (''authoritative_revision'', jopt JInt (en_revision e)),
      (''managed_position_ids'', sorted_texts (set (keys (local_positions_by_id e)))),
      (''managed_symbols'', sorted_texts (active_symbols e)),
      (''desired_price_alert_symbols'', sorted_texts (active_symbols e)),
      (''runtime_state'', JStr (state_name (en_state e))), (''reconciled_at'', now_text)]"

definition publish_runtime_heartbeat :: "alpha_cfg \<Rightarrow> json \<Rightarrow> unit res \<Rightarrow> (alpha_state, unit) eff" where
  "publish_runtime_heartbeat cfg now_text stored = (\<lambda>e. case stored of
       Inl exc \<Rightarrow> (Inl exc, e\<lparr>en_heartbeat_ok := False\<rparr>)
     | Inr u \<Rightarrow> (Inr (), e\<lparr>en_heartbeat := Some (heartbeat_payload cfg now_text e), en_heartbeat_ok := True\<rparr>))"

record reconcile_env =
  re_raw :: "jtext option res"
  re_read_time :: "json \<Rightarrow> isotext"
  re_now :: int
  re_now_text :: json
  re_stored :: "unit res"

definition accept_empty :: "alpha_cfg \<Rightarrow> reconcile_env \<Rightarrow> int \<Rightarrow> pyfloat \<Rightarrow> (alpha_state, bool) eff" where
  "accept_empty cfg env revision age =
     then_do (modify (\<lambda>e. e\<lparr>en_snapshot_age := age, en_revision := Some revision, en_authoritative := {},
        en_reconcile_stale := False, en_positions_changed := True\<rparr>))
     (then_do (publish_runtime_heartbeat cfg (re_now_text env) (re_stored env)) (ret True))"

text \<open>The positions of a snapshot by their id; the last of two with one id counts.\<close>

definition authoritative :: "obj \<Rightarrow> (string, obj) dict" where
  "authoritative snap = (case dget snap ''positions'' JNull of
       JArr ps \<Rightarrow> dupdate [] (concat (map (\<lambda>p. case p of
           JObj d \<Rightarrow> if json_truthy (dget d ''position_id'' JNull)
             then [(jstr (dget d ''position_id'' JNull), d)] else []
         | _ \<Rightarrow> []) ps))
     | _ \<Rightarrow> [])"

text \<open>\<open>open_positions[restored["symbol"]] = restored\<close>.\<close>

definition restore_one :: "obj \<Rightarrow> (alpha_state, unit) eff" where
  "restore_one raw =
     bind (lift_res (normalize_position raw)) (\<lambda>restored.
     bind (lift_res (obj_item restored ''symbol'')) (\<lambda>smb.
     modify (\<lambda>e. e\<lparr>en_positions := Some (dset (jstr smb) restored (open_positions e))\<rparr>)))"

definition drop_unknown :: "(string, obj) dict \<Rightarrow> alpha_state \<Rightarrow> alpha_state" where
  "drop_unknown auth e = e\<lparr>en_positions := Some (fold (\<lambda>(pid, smb) ps.
       if pid \<in> set (keys auth) then ps else ddel smb ps) (local_positions_by_id e) (open_positions e))\<rparr>"

definition reconcile_positions :: "alpha_cfg \<Rightarrow> reconcile_env \<Rightarrow> (alpha_state, bool) eff" where
  "reconcile_positions cfg env =
     bind (lift_res (re_raw env)) (\<lambda>raw.
     case parse_snapshot raw of
       None \<Rightarrow> bind get_state (\<lambda>e.
         if ac_no_position_is_ok cfg \<and> open_positions e = [] then accept_empty cfg env 0 (Fin 0)
         else then_do (modify (\<lambda>e. e\<lparr>en_reconcile_stale := True\<rparr>)) (ret False))
     | Some snap \<Rightarrow>
         (let age = snapshot_age (re_read_time env) (re_now env) snap; auth = authoritative snap
          in then_do (modify (\<lambda>e. e\<lparr>en_snapshot_age := age\<rparr>))
            (bind (lift_res (py_int (dget snap ''revision'' (JInt 0)))) (\<lambda>revision.
             bind get_state (\<lambda>e.
             if auth = [] then
               then_do (modify (\<lambda>e. e\<lparr>en_positions := map_option (\<lambda>_. []) (en_positions e)\<rparr>))
                 (accept_empty cfg env revision age)
             else then_do (modify (\<lambda>e. e\<lparr>en_reconcile_stale :=
                     age > Fin (ac_snapshot_max_age cfg) \<and> ac_stale_suspends cfg\<rparr>))
               (if en_positions e = None
                then then_do (modify (\<lambda>e. e\<lparr>en_reconcile_stale := True\<rparr>)) (ret False)
                else then_do (modify (drop_unknown auth))
                    (then_do (for_each (\<lambda>(pid, raw). restore_one raw) auth)
                    (then_do (modify (\<lambda>e. e\<lparr>en_revision := Some revision, en_authoritative := set (keys auth),
                        en_positions_changed := True\<rparr>))
                    (then_do (publish_runtime_heartbeat cfg (re_now_text env) (re_stored env)) (ret True)))))))))) "

text \<open>One turn of \<open>_position_reconcile_loop\<close>.\<close>

definition reconcile_turn :: "alpha_cfg \<Rightarrow> reconcile_env \<Rightarrow> alpha_state \<Rightarrow> alpha_state" where
  "reconcile_turn cfg env e = (case reconcile_positions cfg env e of
       (Inr True, e') \<Rightarrow> e' | (_, e') \<Rightarrow> e'\<lparr>en_reconcile_stale := True\<rparr>)"

definition ownership_healthy :: "alpha_cfg \<Rightarrow> alpha_state \<Rightarrow> bool" where
  "ownership_healthy cfg e \<longleftrightarrow> en_state e = LIVE \<and> en_snapshot_age e \<le> Fin (ac_snapshot_max_age cfg)
     \<and> set (keys (local_positions_by_id e)) = en_authoritative e \<and> en_heartbeat_ok e
     \<and> active_symbols e \<subseteq> en_subscribed e"

section \<open>Candles and ticks of a position\<close>

text \<open>\<open>int(d.get(k, default) or 0)\<close>.\<close>

definition int_or_zero :: "json \<Rightarrow> int res" where
  "int_or_zero j = (if json_truthy j then py_int j else Inr 0)"

definition claim_position_candle :: "json \<Rightarrow> (obj, bool) eff" where
  "claim_position_candle candle = (\<lambda>p.
     case res_bind (py_int candle) (\<lambda>t.
          res_bind (int_or_zero (dget p ''entry_candle_open_ms'' (JInt 0))) (\<lambda>entry_open.
          res_bind (int_or_zero (dget p ''signal_candle_close_ms'' (JInt 0))) (\<lambda>entry_close.
          res_bind (int_or_zero (dget p ''last_strategy_candle_ms''
              (JInt (if entry_open > 0 then entry_open else entry_close - 1)))) (\<lambda>last_processed.
          Inr (t, entry_open, entry_close, last_processed))))) of
       Inl e \<Rightarrow> (if type_or_value_error e then Inr False else Inl e, p)
     | Inr (t, entry_open, entry_close, last_processed) \<Rightarrow>
         if t \<le> 0 \<or> (entry_close > 0 \<and> t < entry_close)
            \<or> (entry_close \<le> 0 \<and> entry_open > 0 \<and> t \<le> entry_open) \<or> t \<le> last_processed
         then (Inr False, p)
         else (Inr True, dset ''last_strategy_candle_ms'' (JInt t) p))"

text \<open>The first usable price of a tick on the side that closes the position.\<close>

fun first_price :: "obj \<Rightarrow> string list \<Rightarrow> pyfloat option res" where
  "first_price tick [] = Inr None"
| "first_price tick (k # ks) = (case dget tick k JNull of
       JNull \<Rightarrow> first_price tick ks
     | v \<Rightarrow> (case jfloat v of
           Inl e \<Rightarrow> if type_or_value_error e then first_price tick ks else Inl e
         | Inr x \<Rightarrow> if x > Fin 0 then Inr (Some x) else first_price tick ks))"

definition trigger_price :: "string \<Rightarrow> obj \<Rightarrow> pyfloat option res" where
  "trigger_price side tick = first_price tick
     (if upper side = ''LONG'' then [''bid'', ''last'', ''price''] else [''ask'', ''last'', ''price''])"

section \<open>What decides whether the alpha may trade\<close>

text \<open>\<open>limit\<close> is \<open>_stale_threshold_seconds()\<close>, which the configuration fixes.\<close>

definition check_data_stale_recovery :: "real \<Rightarrow> real \<Rightarrow> alpha_state \<Rightarrow> alpha_state" where
  "check_data_stale_recovery limit now e =
     (if \<not> en_data_stale e \<or> fd_last_message e \<le> 0 then e
      else if now - fd_last_message e < limit
      then e\<lparr>en_data_stale := False,
             en_state := (if en_state e = STALE \<and> \<not> en_reconcile_stale e \<and> \<not> en_sync_stale e
                          then LIVE else en_state e)\<rparr>
      else e)"

definition stale_monitor_turn :: "alpha_cfg \<Rightarrow> real \<Rightarrow> real \<Rightarrow> alpha_state \<Rightarrow> alpha_state" where
  "stale_monitor_turn cfg limit now e =
     (if fd_last_message e \<le> 0 then e
      else if now - fd_last_message e > limit
      then (if en_state e = LIVE \<or> \<not> en_data_stale e
            then e\<lparr>en_data_stale := ac_data_stale_suspends cfg, en_state := STALE\<rparr> else e)
      else check_data_stale_recovery limit now e)"

text \<open>A tick of a position's price.\<close>

definition handle_price_alert :: "alpha_cfg \<Rightarrow> real \<Rightarrow> obj \<Rightarrow> alpha_state \<Rightarrow> alpha_state" where
  "handle_price_alert cfg now data e =
     (let text = (\<lambda>k. let v = dget data k (JStr '''') in if json_truthy v then jstr v else '''')
      in if text ''symbol'' = '''' \<or> (mds_exchange cfg \<noteq> '''' \<and> text ''exchange'' \<noteq> ''''
            \<and> text ''exchange'' \<noteq> mds_exchange cfg)
         then e else e\<lparr>en_alert_at := dset (text ''symbol'') now (en_alert_at e)\<rparr>)"

definition is_position_price_ready :: "alpha_cfg \<Rightarrow> real \<Rightarrow> alpha_state \<Rightarrow> string \<Rightarrow> bool" where
  "is_position_price_ready cfg now e smb \<longleftrightarrow>
     mds_exchange cfg = '''' \<or> now - dget (en_alert_at e) smb 0 < ac_alert_stale cfg"

datatype market_msg = Kline candle | PriceAlert obj | Universe candle | OtherMessage

text \<open>A message of the listener; an exception ends the connection and leaves the flags alone.\<close>

definition listen_message :: "alpha_cfg \<Rightarrow> real \<Rightarrow> real \<Rightarrow> market_msg \<Rightarrow> (alpha_state, unit) eff" where
  "listen_message cfg limit now m =
     then_do (modify (\<lambda>e. check_data_stale_recovery limit now (e\<lparr>fd_last_message := now\<rparr>)))
       (case m of
          Kline msg \<Rightarrow> on_kline_message cfg now msg
        | PriceAlert data \<Rightarrow> modify (handle_price_alert cfg now data)
        | Universe msg \<Rightarrow> on_symbol_universe_message cfg msg
        | OtherMessage \<Rightarrow> ret ())"

definition mark_price_alert_sync_failed :: "alpha_cfg \<Rightarrow> alpha_state \<Rightarrow> alpha_state" where
  "mark_price_alert_sync_failed cfg e = (if ac_sync_suspends cfg then e\<lparr>en_sync_stale := True\<rparr> else e)"

definition mark_price_alert_sync_recovered :: "alpha_state \<Rightarrow> alpha_state" where
  "mark_price_alert_sync_recovered e = e\<lparr>en_sync_stale := False\<rparr>"

text \<open>The subscriptions follow the open positions.\<close>

definition refresh_price_alert_subscriptions :: "alpha_state \<Rightarrow> alpha_state" where
  "refresh_price_alert_subscriptions e = e\<lparr>en_subscribed := active_symbols e, en_positions_changed := False\<rparr>"

text \<open>\<open>None\<close>: the warm-up was skipped because the candles are fresh.\<close>

definition after_rewarmup :: "bool res option \<Rightarrow> alpha_state \<Rightarrow> alpha_state" where
  "after_rewarmup outcome e =
     (let e = (if outcome \<in> {None, Some (Inr True)} then e else e\<lparr>en_data_stale := True\<rparr>)
      in e\<lparr>en_state := (if \<not> en_data_stale e \<and> \<not> en_reconcile_stale e \<and> \<not> en_sync_stale e then LIVE else STALE)\<rparr>)"

text \<open>The beginning of \<open>run\<close>: the warm-up, then the reconciliation of the start.\<close>

definition start_up :: "bool res \<Rightarrow> bool \<Rightarrow> alpha_state \<Rightarrow> alpha_state" where
  "start_up warmup reconciled e =
     (let e = e\<lparr>en_data_stale := warmup \<noteq> Inr True, en_state := (if warmup = Inr True then LIVE else STALE)\<rparr>
      in if reconciled then e else e\<lparr>en_reconcile_stale := True, en_state := STALE\<rparr>)"


section \<open>What normalisation keeps\<close>

lemma map_of_setdefault: "map_of (setdefault k v d) j = (if j = k \<and> map_of d k = None then Some v else map_of d j)"
  by (simp add: setdefault_def)

lemma show_nat_nonempty: "show_nat n \<noteq> []"
  by (simp add: show_nat.simps [of n])

lemma jstr_nonempty: "json_truthy j \<Longrightarrow> jstr j \<noteq> ''''"
  by (cases j) (auto simp: show_int_def show_nat_nonempty)

lemma setdefault_keeps: "map_of d k = Some v \<Longrightarrow> map_of (setdefault j w d) k = Some v"
  by (auto simp: map_of_setdefault)

lemma res_bind_InrE:
  assumes "res_bind m k = Inr y"
  obtains x where "m = Inr x" "k x = Inr y"
  using assms by (cases m) auto

lemma obj_item_dget: "obj_item p k = Inr v \<Longrightarrow> dget p k JNull = v"
  by (simp add: obj_item_def dget_def split: option.splits)

lemma authoritative_fields_id:
  assumes "authoritative_fields p = Inr r"
  shows "map_of r ''position_id'' = Some (JStr (jstr (dget p ''position_id'' JNull)))"
    "map_of r ''symbol'' = Some (JStr (jstr (dget p ''symbol'' JNull)))" "keys r = worker_owned"
proof -
  have "map_of r ''position_id'' = Some (JStr (jstr (dget p ''position_id'' JNull))) \<and>
      map_of r ''symbol'' = Some (JStr (jstr (dget p ''symbol'' JNull))) \<and> keys r = worker_owned"
    using assms unfolding authoritative_fields_def
    by (elim res_bind_InrE) (clarsimp simp: keys_def worker_owned_def obj_item_dget)
  then show "map_of r ''position_id'' = Some (JStr (jstr (dget p ''position_id'' JNull)))"
    "map_of r ''symbol'' = Some (JStr (jstr (dget p ''symbol'' JNull)))" "keys r = worker_owned" by blast+
qed

lemma with_trail_keeps:
  assumes "with_trail m r = Inr r'" and "map_of r k = Some v" and "k \<noteq> ''trail_distance''"
  shows "map_of r' k = Some v"
  using assms by (auto simp: with_trail_def Let_def res_bind_Inr_iff map_of_setdefault split: if_splits)

lemma with_defaults_keeps: "map_of r k = Some v \<Longrightarrow> map_of (with_defaults b r) k = Some v"
  unfolding with_defaults_def Let_def by (intro setdefault_keeps)

text \<open>Whatever normalisation adds, it keeps the fields of the worker and the runtime it finds.\<close>

lemma normalize_keeps:
  assumes "normalize_position p = Inr r" and "k \<noteq> ''trail_distance''"
    and "runtime_of (object_or_empty (dget p ''metadata'' JNull)) = rt"
  shows "map_of (case rt of None \<Rightarrow> [] | Some d \<Rightarrow> d) k = None \<Longrightarrow> authoritative_fields p = Inr a \<Longrightarrow>
      map_of a k = Some v \<Longrightarrow> map_of r k = Some v"
    and "rt = Some d \<Longrightarrow> dict_ok d \<Longrightarrow> map_of d k = Some v \<Longrightarrow> map_of r k = Some v"
proof -
  obtain a0 r1 size where a0: "authoritative_fields p = Inr a0"
    "with_trail (object_or_empty (dget p ''metadata'' JNull)) (dupdate a0 (case rt of None \<Rightarrow> [] | Some d \<Rightarrow> d)) = Inr r1"
    "r = with_defaults (rt \<noteq> None) (setdefault ''size'' (JNum size) r1)"
    using assms(1,3) by (auto simp: normalize_position_def Let_def res_bind_Inr_iff)
  have final: "map_of r k = Some v" if "map_of (dupdate a0 (case rt of None \<Rightarrow> [] | Some d \<Rightarrow> d)) k = Some v"
    unfolding a0(3) using with_trail_keeps [OF a0(2) that assms(2)]
    by (intro with_defaults_keeps setdefault_keeps)
  have untouched: "map_of (dupdate a0 d) k = map_of a0 k" if "map_of d k = None" for d
  proof -
    have "k \<notin> fst ` set d" using that by (simp add: map_of_eq_None_iff)
    then show ?thesis by (induction d arbitrary: a0) auto
  qed
  { assume "map_of (case rt of None \<Rightarrow> [] | Some d \<Rightarrow> d) k = None" "authoritative_fields p = Inr a" "map_of a k = Some v"
    then show "map_of r k = Some v" using a0(1) untouched by (intro final) simp }
  { assume "rt = Some d" "dict_ok d" "map_of d k = Some v"
    then show "map_of r k = Some v" by (intro final) (simp add: map_of_dupdate) }
qed

text \<open>A snapshot row whose stored runtime does not claim the worker's fields.\<close>

definition clean_row :: "obj \<Rightarrow> bool" where
  "clean_row p \<longleftrightarrow> (case runtime_of (object_or_empty (dget p ''metadata'' JNull)) of
       None \<Rightarrow> True | Some d \<Rightarrow> list_all (\<lambda>k. k \<notin> set worker_owned) (keys d))"

lemma normalize_id:
  assumes "normalize_position p = Inr r" and "clean_row p"
  shows "map_of r ''position_id'' = Some (JStr (jstr (dget p ''position_id'' JNull)))"
    "map_of r ''symbol'' = Some (JStr (jstr (dget p ''symbol'' JNull)))"
proof -
  obtain a where a: "authoritative_fields p = Inr a"
    using assms(1) by (auto simp: normalize_position_def Let_def res_bind_Inr_iff)
  let ?rt = "runtime_of (object_or_empty (dget p ''metadata'' JNull))"
  have none: "map_of (case ?rt of None \<Rightarrow> [] | Some d \<Rightarrow> d) k = None" if "k \<in> set worker_owned" for k
    using assms(2) that by (auto simp: clean_row_def list_all_iff keys_def map_of_eq_None_iff split: option.splits)
  show "map_of r ''position_id'' = Some (JStr (jstr (dget p ''position_id'' JNull)))"
    "map_of r ''symbol'' = Some (JStr (jstr (dget p ''symbol'' JNull)))"
    using normalize_keeps(1) [OF assms(1) _ refl none a] authoritative_fields_id(1,2) [OF a]
    by (simp_all add: worker_owned_def)
qed


section \<open>After a reconciliation\<close>

definition has_id :: "obj \<Rightarrow> bool" where
  "has_id p \<longleftrightarrow> json_truthy (dget p ''position_id'' JNull)"

definition id_of :: "obj \<Rightarrow> string" where
  "id_of p = jstr (dget p ''position_id'' JNull)"

definition symbol_of :: "obj \<Rightarrow> string" where
  "symbol_of p = jstr (dget p ''symbol'' JNull)"

text \<open>The local dictionary holds no position twice.\<close>

definition one_entry_each :: "(string, obj) dict \<Rightarrow> bool" where
  "one_entry_each ps \<longleftrightarrow> dict_ok ps \<and> distinct (map (id_of \<circ> snd) (filter (has_id \<circ> snd) ps))"

lemma set_keys_dupdate: "set (keys (dupdate d e)) = set (keys d) \<union> set (keys e)"
proof (induction e arbitrary: d)
  case (Cons p e)
  obtain k v where p: "p = (k, v)" by (cases p)
  have "set (keys (dupdate d (p # e))) = set (keys (dset k v d)) \<union> set (keys e)"
    unfolding p dupdate_simps by (rule Cons)
  then show ?case by (simp add: keys_def p)
qed (simp add: keys_def)


lemma set_dupdate_subset: "set (dupdate d e) \<subseteq> set d \<union> set e"
proof (induction e arbitrary: d)
  case (Cons p e)
  then show ?case using set_dset_subset by (cases p) fastforce
qed simp

lemma local_ids: "set (keys (local_positions_by_id e)) = (id_of \<circ> snd) ` {q \<in> set (open_positions e). has_id (snd q)}"
  unfolding local_positions_by_id_def set_keys_dupdate by (force simp: keys_def id_of_def has_id_def)

lemma authoritative_rows:
  assumes "(pid, raw) \<in> set (authoritative snap)"
  shows "pid = id_of raw" "has_id raw" "pid \<noteq> ''''" "dict_ok (authoritative snap)"
proof -
  have "pid = id_of raw \<and> has_id raw"
    using assms set_dupdate_subset [of "[]"]
    by (fastforce simp: authoritative_def id_of_def has_id_def split: json.splits if_splits)
  then show "pid = id_of raw" "has_id raw" "pid \<noteq> ''''" by (auto simp: id_of_def has_id_def jstr_nonempty)
  show "dict_ok (authoritative snap)" by (simp add: authoritative_def split: json.split)
qed

lemma restore_one_apply:
  assumes "restore_one raw e = (Inr u, e')" and "clean_row raw"
  obtains r where "normalize_position raw = Inr r" "id_of r = id_of raw" "has_id raw \<Longrightarrow> has_id r"
    "e' = e\<lparr>en_positions := Some (dset (symbol_of raw) r (open_positions e))\<rparr>"
proof -
  obtain r where r: "normalize_position raw = Inr r"
    using assms(1) by (cases "normalize_position raw") (simp_all add: restore_one_def)
  note n = normalize_id [OF r assms(2)]
  have "obj_item r ''symbol'' = Inr (JStr (symbol_of raw))" using n(2) by (simp add: obj_item_def symbol_of_def)
  then have "e' = e\<lparr>en_positions := Some (dset (symbol_of raw) r (open_positions e))\<rparr>"
    using assms(1) r by (simp add: restore_one_def)
  then show thesis
    using n(1) r by (intro that [of r]) (auto simp: id_of_def has_id_def dget_def jstr_nonempty)
qed

lemma restore_all:
  assumes "for_each (\<lambda>(pid, raw). restore_one raw) rows e = (Inr (), e')"
    and "list_all (\<lambda>(pid, raw). clean_row raw) rows" and "distinct (map (symbol_of \<circ> snd) rows)"
    and "en_positions e \<noteq> None" and "dict_ok (open_positions e)"
  shows "\<exists>ps. e' = e\<lparr>en_positions := Some ps\<rparr> \<and> dict_ok ps \<and>
    (\<forall>s. s \<notin> (symbol_of \<circ> snd) ` set rows \<longrightarrow> map_of ps s = map_of (open_positions e) s) \<and>
    (\<forall>(pid, raw) \<in> set rows. \<exists>r. map_of ps (symbol_of raw) = Some r \<and> id_of r = id_of raw \<and> (has_id raw \<longrightarrow> has_id r))"
  using assms
proof (induction rows arbitrary: e)
  case Nil
  then show ?case by (intro exI [of _ "open_positions e"]) (auto simp: open_positions_def)
next
  case (Cons row rows)
  obtain pid raw where row: "row = (pid, raw)" by (cases row)
  from Cons.prems(1) row obtain u e1 where one: "restore_one raw e = (Inr u, e1)"
    and rest: "for_each (\<lambda>(pid, raw). restore_one raw) rows e1 = (Inr (), e')"
    by (auto simp: then_do_apply split: prod.splits sum.splits)
  have "clean_row raw" using Cons.prems(2) row by simp
  from restore_one_apply [OF one this] obtain r where r: "id_of r = id_of raw" "has_id raw \<longrightarrow> has_id r"
    "e1 = e\<lparr>en_positions := Some (dset (symbol_of raw) r (open_positions e))\<rparr>" by blast
  then have e1: "en_positions e1 \<noteq> None" "open_positions e1 = dset (symbol_of raw) r (open_positions e)"
    by (simp_all add: open_positions_def)
  then have "dict_ok (open_positions e1)" using Cons.prems(5) by simp
  from Cons.IH [OF rest _ _ e1(1) this] Cons.prems(2,3) obtain ps where
    ps: "e' = e1\<lparr>en_positions := Some ps\<rparr>" "dict_ok ps"
      "\<forall>s. s \<notin> (symbol_of \<circ> snd) ` set rows \<longrightarrow> map_of ps s = map_of (open_positions e1) s"
      "\<forall>(pid, raw) \<in> set rows. \<exists>r. map_of ps (symbol_of raw) = Some r \<and> id_of r = id_of raw \<and> (has_id raw \<longrightarrow> has_id r)"
    by auto
  have "symbol_of raw \<notin> (symbol_of \<circ> snd) ` set rows" using Cons.prems(3) row by simp
  then have "map_of ps (symbol_of raw) = Some r" using ps(3) e1(2) by simp
  moreover have "map_of ps s = map_of (open_positions e) s" if "s \<notin> (symbol_of \<circ> snd) ` set (row # rows)" for s
    using that ps(3) e1(2) row by auto
  ultimately show ?case using ps(1,2,4) r row by (intro exI [of _ ps]) auto
qed

lemma drop_unknown_keeps:
  assumes "one_entry_each (open_positions e)"
  shows "dict_ok (open_positions (drop_unknown auth e))" "en_positions (drop_unknown auth e) \<noteq> None"
    "map_of (open_positions (drop_unknown auth e)) s = Some p \<Longrightarrow> has_id p \<Longrightarrow> id_of p \<in> set (keys auth)"
proof -
  let ?del = "\<lambda>(pid, smb) ps. if pid \<in> set (keys auth) then ps else ddel smb ps"
  have ok: "dict_ok (fold ?del xs ps)" if "dict_ok ps" for xs and ps :: "(string, obj) dict"
    using that by (induction xs arbitrary: ps) auto
  have sub: "map_of (fold ?del xs ps) s = Some p \<Longrightarrow> map_of ps s = Some p" for xs and ps :: "(string, obj) dict" and s p
  proof (induction xs arbitrary: ps)
    case (Cons x xs)
    obtain k t where x: "x = (k, t)" by (cases x)
    show ?case
    proof (cases "k \<in> set (keys auth)")
      case True
      then show ?thesis using Cons x by simp
    next
      case False
      then have "map_of (ddel t ps) s = Some p" using Cons x by (simp del: map_of_ddel)
      then show ?thesis by (simp split: if_splits)
    qed
  qed simp
  have gone: "map_of (fold ?del xs ps) s = None" if "(k, s) \<in> set xs" "k \<notin> set (keys auth)"
    for xs and ps :: "(string, obj) dict" and k s
    using that
  proof (induction xs arbitrary: ps)
    case (Cons x xs)
    show ?case
    proof (cases "x = (k, s)")
      case True
      have "map_of (fold ?del xs (ddel s ps)) s = None"
      proof (cases "map_of (fold ?del xs (ddel s ps)) s")
        case (Some p)
        from sub [OF this] show ?thesis by simp
      qed
      then show ?thesis using True Cons.prems(2) by simp
    next
      case False
      then show ?thesis using Cons by simp
    qed
  qed simp
  have ps: "open_positions (drop_unknown auth e) = fold ?del (local_positions_by_id e) (open_positions e)"
    by (simp add: drop_unknown_def open_positions_def)
  show "dict_ok (open_positions (drop_unknown auth e))"
    unfolding ps using assms by (intro ok) (simp add: one_entry_each_def)
  show "en_positions (drop_unknown auth e) \<noteq> None" by (simp add: drop_unknown_def)
  assume p: "map_of (open_positions (drop_unknown auth e)) s = Some p" "has_id p"
  show "id_of p \<in> set (keys auth)"
  proof (rule ccontr)
    assume n: "id_of p \<notin> set (keys auth)"
    have here: "(s, p) \<in> set (open_positions e)" using p(1) sub unfolding ps by (blast intro: map_of_SomeD)
    let ?entries = "map (\<lambda>(smb, p). (id_of p, smb)) (filter (\<lambda>(smb, p). has_id p) (open_positions e))"
    have "dict_ok ?entries" using assms by (simp add: one_entry_each_def comp_def case_prod_unfold)
    then have "map_of (dupdate [] ?entries) (id_of p) = map_of ?entries (id_of p)" by (simp add: map_of_dupdate)
    also have "\<dots> = Some s"
      using \<open>dict_ok ?entries\<close> here p(2) by (intro map_of_is_SomeI) force+
    finally have "(id_of p, s) \<in> set (local_positions_by_id e)"
      by (intro map_of_SomeD) (simp add: local_positions_by_id_def id_of_def has_id_def)
    from gone [OF this n] p(1) show False unfolding ps by simp
  qed
qed


lemma reconciled:
  assumes run: "reconcile_positions cfg env e = (Inr True, e')"
    and snap: "re_raw env = Inr raw" "parse_snapshot raw = Some snap"
    and here: "en_positions e \<noteq> None" "one_entry_each (open_positions e)"
    and rows: "list_all (\<lambda>(pid, row). clean_row row) (authoritative snap)"
      "distinct (map (symbol_of \<circ> snd) (authoritative snap))"
  shows "set (keys (local_positions_by_id e')) = set (keys (authoritative snap))"
    "en_authoritative e' = set (keys (authoritative snap))"
    "(symbol_of \<circ> snd) ` set (authoritative snap) - {''''} \<subseteq> active_symbols e'"
    "en_heartbeat e' = Some (heartbeat_payload cfg (re_now_text env) e')" "en_heartbeat_ok e'"
    "en_state e' = en_state e"
proof -
  let ?auth = "authoritative snap"
  let ?age = "snapshot_age (re_read_time env) (re_now env) snap"
  have stored: "re_stored env = Inr ()"
    if "publish_runtime_heartbeat cfg (re_now_text env) (re_stored env) w = (Inr (), w')" for w w'
    using that by (cases "re_stored env") (simp_all add: publish_runtime_heartbeat_def)
  have final: "set (keys (local_positions_by_id e')) = set (keys ?auth) \<and> en_authoritative e' = set (keys ?auth) \<and>
      (symbol_of \<circ> snd) ` set ?auth - {''''} \<subseteq> active_symbols e' \<and>
      en_heartbeat e' = Some (heartbeat_payload cfg (re_now_text env) e') \<and> en_heartbeat_ok e' \<and> en_state e' = en_state e"
  proof (cases "?auth = []")
    case True
    then show ?thesis
      using run snap
      by (auto simp: reconcile_positions_def accept_empty_def publish_runtime_heartbeat_def Let_def then_do_apply
          bind_def local_ids open_positions_def keys_def heartbeat_payload_def active_symbols_def
          local_positions_by_id_def split: sum.splits option.splits)
  next
    case False
    let ?e1 = "e\<lparr>en_snapshot_age := ?age, en_reconcile_stale := ?age > Fin (ac_snapshot_max_age cfg) \<and> ac_stale_suspends cfg\<rparr>"
    have e1: "open_positions ?e1 = open_positions e" by (simp add: open_positions_def)
    obtain revision e2 where e2: "for_each (\<lambda>(pid, row). restore_one row) ?auth (drop_unknown ?auth ?e1) = (Inr (), e2)"
      and e': "publish_runtime_heartbeat cfg (re_now_text env) (re_stored env)
          (e2\<lparr>en_revision := Some revision, en_authoritative := set (keys ?auth), en_positions_changed := True\<rparr>) = (Inr (), e')"
      using run snap False here(1)
      by (auto simp: reconcile_positions_def Let_def then_do_apply bind_def split: sum.splits prod.splits)
    note drop = drop_unknown_keeps [of ?e1 ?auth, unfolded e1, OF here(2)]
    from restore_all [OF e2 rows drop(2,1)] obtain ps where ps: "e2 = (drop_unknown ?auth ?e1)\<lparr>en_positions := Some ps\<rparr>"
      "dict_ok ps"
      "\<forall>s. s \<notin> (symbol_of \<circ> snd) ` set ?auth \<longrightarrow> map_of ps s = map_of (open_positions (drop_unknown ?auth ?e1)) s"
      "\<forall>(pid, row) \<in> set ?auth. \<exists>r. map_of ps (symbol_of row) = Some r \<and> id_of r = id_of row \<and> (has_id row \<longrightarrow> has_id r)"
      by blast
    have fin: "e' = e2\<lparr>en_revision := Some revision, en_authoritative := set (keys ?auth), en_positions_changed := True,
        en_heartbeat := en_heartbeat e', en_heartbeat_ok := True\<rparr>"
      "en_heartbeat e' = Some (heartbeat_payload cfg (re_now_text env) e')"
      using e' stored [OF e'] by (auto simp: publish_runtime_heartbeat_def heartbeat_payload_def
          local_positions_by_id_def active_symbols_def open_positions_def)
    have p': "open_positions e' = ps" by (subst fin(1)) (simp add: ps(1) open_positions_def)
    have old: "id_of p \<in> set (keys ?auth)" if "map_of ps s = Some p" "has_id p" for s p
    proof (cases "s \<in> (symbol_of \<circ> snd) ` set ?auth")
      case True
      then obtain pid row where row: "(pid, row) \<in> set ?auth" "symbol_of row = s" by auto
      with ps(4) that(1) have "id_of p = id_of row" by fastforce
      with authoritative_rows(1) [OF row(1)] row(1) show ?thesis by (force simp: keys_def)
    next
      case False
      then have "map_of (open_positions (drop_unknown ?auth ?e1)) s = Some p" using ps(3) that(1) by simp
      from drop(3) [OF this that(2)] show ?thesis .
    qed
    have "set (keys (local_positions_by_id e')) = set (keys ?auth)"
    proof (intro subset_antisym subsetI)
      fix k assume "k \<in> set (keys (local_positions_by_id e'))"
      then obtain s p where "(s, p) \<in> set ps" "has_id p" "k = id_of p" unfolding local_ids p' by auto
      with old ps(2) show "k \<in> set (keys ?auth)" by auto
    next
      fix k assume "k \<in> set (keys ?auth)"
      then obtain row where row: "(k, row) \<in> set ?auth" by (auto simp: keys_def)
      with ps(4) obtain r where "map_of ps (symbol_of row) = Some r" "id_of r = id_of row" "has_id row \<longrightarrow> has_id r"
        by fastforce
      with authoritative_rows(1,2) [OF row] show "k \<in> set (keys (local_positions_by_id e'))"
        unfolding local_ids p' by (force dest: map_of_SomeD)
    qed
    moreover have "(symbol_of \<circ> snd) ` set ?auth - {''''} \<subseteq> active_symbols e'"
    proof
      fix s assume "s \<in> (symbol_of \<circ> snd) ` set ?auth - {''''}"
      then obtain pid row where row: "(pid, row) \<in> set ?auth" "symbol_of row = s" "s \<noteq> ''''" by auto
      with ps(4) obtain r where "map_of ps s = Some r" by fastforce
      then show "s \<in> active_symbols e'"
        using row(3) p' by (auto simp: active_symbols_def keys_def dest: map_of_SomeD intro!: image_eqI [of _ fst])
    qed
    moreover have "en_authoritative e' = set (keys ?auth) \<and> en_heartbeat_ok e' \<and> en_state e' = en_state e"
      by (subst fin(1), subst fin(1), subst (2) fin(1)) (simp add: ps(1) drop_unknown_def)
    ultimately show ?thesis using fin(2) by blast
  qed
  then show "set (keys (local_positions_by_id e')) = set (keys ?auth)" "en_authoritative e' = set (keys ?auth)"
    "(symbol_of \<circ> snd) ` set ?auth - {''''} \<subseteq> active_symbols e'"
    "en_heartbeat e' = Some (heartbeat_payload cfg (re_now_text env) e')" "en_heartbeat_ok e'"
    "en_state e' = en_state e" by blast+
qed


section \<open>The life of the flags\<close>

text \<open>
  What happens to a running alpha: messages, turns of its loops, connections that break and are
  made again.  Between the beginning and the end of a reconnection the other loops go on.
\<close>

datatype alpha_event =
    Message real market_msg
  | MonitorTurn real
  | ReconcileTurn reconcile_env
  | SyncFailed
  | SyncSent
  | ConnectionLost
  | Reconnecting
  | Reconnected "bool res option"
  | Subscribed

fun engine_event :: "alpha_cfg \<Rightarrow> real \<Rightarrow> alpha_event \<Rightarrow> alpha_state \<Rightarrow> alpha_state" where
  "engine_event cfg limit (Message now m) e = snd (listen_message cfg limit now m e)"
| "engine_event cfg limit (MonitorTurn now) e = stale_monitor_turn cfg limit now e"
| "engine_event cfg limit (ReconcileTurn env) e = reconcile_turn cfg env e"
| "engine_event cfg limit SyncFailed e = mark_price_alert_sync_failed cfg e"
| "engine_event cfg limit SyncSent e = mark_price_alert_sync_recovered e"
| "engine_event cfg limit ConnectionLost e = e\<lparr>en_state := STALE\<rparr>"
| "engine_event cfg limit Reconnecting e = e\<lparr>en_state := RECOVERING\<rparr>"
| "engine_event cfg limit (Reconnected outcome) e = after_rewarmup outcome e"
| "engine_event cfg limit Subscribed e = refresh_price_alert_subscriptions e"

inductive engine_reachable :: "alpha_cfg \<Rightarrow> real \<Rightarrow> alpha_state \<Rightarrow> bool" for cfg limit where
  start: "engine_reachable cfg limit (start_up warmup reconciled new_alpha)"
| step: "engine_reachable cfg limit e \<Longrightarrow> engine_reachable cfg limit (engine_event cfg limit ev e)"

lemma keeps_flags_on_symbol:
  assumes "\<And>(e :: alpha_state) f. P (e\<lparr>fd_data := f\<rparr>) = P e"
  shows "keeps P (on_symbol k m)"
  using assms by (auto simp: keeps_def on_symbol_def split: prod.splits)

lemma keeps_kline:
  assumes "\<And>(e :: alpha_state) f. P (e\<lparr>fd_data := f\<rparr>) = P e" "\<And>e t. P (e\<lparr>fd_last_message := t\<rparr>) = P e"
  shows "keeps P (on_kline_message cfg now msg)"
proof -
  have store: "keeps P (store_candle cfg now k c t)" for k c t
    unfolding store_candle_def using assms
    by (intro keeps_then_do keeps_flags_on_symbol keeps_modify) auto
  have lift: "keeps P m \<Longrightarrow> keeps P (bind (lift_res r) (\<lambda>_. m))" for r and m :: "(alpha_state, unit) eff"
    by (intro keeps_bind) simp_all
  show ?thesis
    unfolding on_kline_message_def Let_def
    by (auto intro!: keeps_bind store split: sum.splits)
qed

lemma keeps_listen:
  assumes "\<And>(e :: alpha_state) f. P (e\<lparr>fd_data := f\<rparr>) = P e" "\<And>e t. P (e\<lparr>fd_last_message := t\<rparr>) = P e"
    and "\<And>e u. P (e\<lparr>fd_universe := u\<rparr>) = P e" "\<And>e u. P (e\<lparr>en_alert_at := u\<rparr>) = P e"
    and "\<And>e t. P e \<Longrightarrow> P (check_data_stale_recovery limit t e)"
  shows "keeps P (listen_message cfg limit now m)"
proof -
  have "keeps P (on_symbol_universe_message cfg msg)" for msg
    unfolding on_symbol_universe_message_def Let_def using assms(3)
    by (auto intro!: keeps_bind keeps_modify)
  moreover have "keeps P (modify (handle_price_alert cfg now data))" for data
    using assms(4) by (intro keeps_modify) (simp add: handle_price_alert_def Let_def)
  ultimately show ?thesis
    unfolding listen_message_def using assms(2,5) keeps_kline [OF assms(1,2)]
    by (intro keeps_then_do keeps_modify) (auto split: market_msg.splits)
qed

lemma keeps_reconcile:
  assumes "\<And>(e :: alpha_state) f. P (e\<lparr>en_positions := f\<rparr>) = P e" "\<And>e f. P (e\<lparr>en_reconcile_stale := f\<rparr>) = P e"
    "\<And>e f. P (e\<lparr>en_snapshot_age := f\<rparr>) = P e" "\<And>e f. P (e\<lparr>en_revision := f\<rparr>) = P e"
    "\<And>e f. P (e\<lparr>en_authoritative := f\<rparr>) = P e" "\<And>e f. P (e\<lparr>en_positions_changed := f\<rparr>) = P e"
    "\<And>e f. P (e\<lparr>en_heartbeat := f\<rparr>) = P e" "\<And>e f. P (e\<lparr>en_heartbeat_ok := f\<rparr>) = P e"
  shows "keeps P (reconcile_positions cfg env)"
proof -
  have heartbeat: "keeps P (publish_runtime_heartbeat cfg t s)" for t s
    unfolding publish_runtime_heartbeat_def keeps_def using assms(7,8) by (auto split: sum.splits)
  have empty: "keeps P (accept_empty cfg env r a)" for r a
    unfolding accept_empty_def using assms by (auto intro!: keeps_then_do keeps_modify heartbeat)
  have "keeps P (restore_one row)" for row
    unfolding restore_one_def using assms(1) by (auto intro!: keeps_bind keeps_modify)
  then have all: "keeps P (for_each (\<lambda>(pid, row). restore_one row) rows)" for rows :: "(string, obj) dict"
    by (intro keeps_for_each) auto
  have drop: "keeps P (modify (drop_unknown auth))" for auth
    using assms(1) by (intro keeps_modify) (simp add: drop_unknown_def)
  show ?thesis
    unfolding reconcile_positions_def Let_def
    by (auto intro!: keeps_bind keeps_then_do keeps_modify empty all drop heartbeat split: option.splits simp: assms)
qed

text \<open>An alpha that is live has fresh data.\<close>

definition live_is_fresh :: "alpha_state \<Rightarrow> bool" where
  "live_is_fresh e \<longleftrightarrow> (en_state e = LIVE \<longrightarrow> \<not> en_data_stale e)"

lemma recovery_live: "live_is_fresh e \<Longrightarrow> live_is_fresh (check_data_stale_recovery limit t e)"
  by (auto simp: live_is_fresh_def check_data_stale_recovery_def)

lemma reconcile_turn_keeps:
  assumes "keeps P (reconcile_positions cfg env)" "\<And>e f. P (e\<lparr>en_reconcile_stale := f\<rparr>) = P e" "P e"
  shows "P (reconcile_turn cfg env e)"
  using keepsD [OF assms(1,3)] assms(2)
  by (auto simp: reconcile_turn_def split: prod.splits sum.splits bool.splits)

lemma event_live:
  assumes "live_is_fresh e"
  shows "live_is_fresh (engine_event cfg limit ev e)"
proof (cases ev)
  case (Message now m)
  have "keeps live_is_fresh (listen_message cfg limit now m)"
    by (rule keeps_listen) (simp_all add: live_is_fresh_def recovery_live [unfolded live_is_fresh_def])
  from keepsD [OF this assms] show ?thesis by (simp add: Message)
next
  case (ReconcileTurn env)
  have "keeps live_is_fresh (reconcile_positions cfg env)"
    by (rule keeps_reconcile) (simp_all add: live_is_fresh_def)
  from reconcile_turn_keeps [OF this _ assms] show ?thesis by (simp add: ReconcileTurn live_is_fresh_def)
next
  case (MonitorTurn now)
  then show ?thesis
    using assms recovery_live [OF assms] by (simp add: stale_monitor_turn_def) (simp add: live_is_fresh_def)
next
  case (Reconnected outcome)
  then show ?thesis by (simp add: after_rewarmup_def live_is_fresh_def Let_def)
qed (use assms in \<open>simp_all add: live_is_fresh_def mark_price_alert_sync_failed_def
    mark_price_alert_sync_recovered_def refresh_price_alert_subscriptions_def\<close>)

lemma reachable_live: "engine_reachable cfg limit e \<Longrightarrow> live_is_fresh e"
proof (induction rule: engine_reachable.induct)
  case (start warmup reconciled)
  then show ?case by (simp add: start_up_def live_is_fresh_def Let_def)
next
  case (step e ev)
  from event_live [OF step.IH] show ?case .
qed

end
