(* ===== verification/EngineProperties.thy ===== *)
theory EngineProperties
  imports AlphaEngine
begin

text \<open>
  The properties of a stand-alone alpha (\<^verbatim>\<open>alphas/base/engine.py\<close>): the flags that let it open
  trades, the candles it hands to the management of a position, and the candles it keeps.
\<close>

section \<open>The flags\<close>

definition engine_run :: "alpha_cfg \<Rightarrow> real \<Rightarrow> alpha_event list \<Rightarrow> alpha_state \<Rightarrow> alpha_state" where
  "engine_run cfg limit evs e = fold (engine_event cfg limit) evs e"

lemma engine_run_invariant:
  assumes "\<And>ev e. Q ev \<Longrightarrow> P e \<Longrightarrow> P (engine_event cfg limit ev e)" and "list_all Q evs" and "P e"
  shows "P (engine_run cfg limit evs e)"
  using assms(2,3) by (induction evs arbitrary: e) (simp_all add: engine_run_def assms(1))

text \<open>Events that bring no data: the gap the monitor sees stays at or above the limit.\<close>

fun silent :: "real \<Rightarrow> real \<Rightarrow> alpha_event \<Rightarrow> bool" where
  "silent limit last_message (Message now m) = False"
| "silent limit last_message (MonitorTurn now) = (limit \<le> now - last_message)"
| "silent limit last_message (Reconnected outcome) = False"
| "silent limit last_message ev = True"

lemma silent_keeps:
  assumes "silent limit t ev" and "en_data_stale e \<and> fd_last_message e = t" and "ac_data_stale_suspends cfg"
  shows "en_data_stale (engine_event cfg limit ev e) \<and> fd_last_message (engine_event cfg limit ev e) = t"
proof (cases ev)
  case (MonitorTurn now)
  then show ?thesis
    using assms by (auto simp: stale_monitor_turn_def check_data_stale_recovery_def)
next
  case (ReconcileTurn env)
  let ?P = "\<lambda>e :: alpha_state. en_data_stale e \<and> fd_last_message e = t"
  have "keeps ?P (reconcile_positions cfg env)" by (rule keeps_reconcile) simp_all
  from reconcile_turn_keeps [OF this _ assms(2)] show ?thesis by (simp add: ReconcileTurn)
qed (use assms in \<open>simp_all add: mark_price_alert_sync_failed_def mark_price_alert_sync_recovered_def
    refresh_price_alert_subscriptions_def\<close>)

text \<open>
  When no message has come for longer than the limit, the monitor suspends new trades, and they
  stay suspended, whatever the other loops do, until a message comes or the connection has been
  made again; the first message then makes the alpha live, unless another flag holds it back.
\<close>

theorem silence_suspends_until_data:
  assumes "ac_data_stale_suspends cfg" and "0 < limit" and "0 < fd_last_message e"
    and "limit < now - fd_last_message e" and "en_state e = LIVE"
    and "list_all (silent limit (fd_last_message e)) evs"
    and "e' = engine_run cfg limit (MonitorTurn now # evs) e"
  shows "\<not> can_open_new_trades e' \<and> (en_state e' = STALE \<and> \<not> en_reconcile_stale e' \<and> \<not> en_sync_stale e' \<and> 0 < t \<longrightarrow>
      can_open_new_trades (engine_run cfg limit [Message t OtherMessage] e'))"
proof -
  let ?P = "\<lambda>e1. en_data_stale e1 \<and> fd_last_message e1 = fd_last_message e"
  have "?P (engine_event cfg limit (MonitorTurn now) e)"
    using assms(1-5) by (simp add: stale_monitor_turn_def)
  from engine_run_invariant [where P = ?P and Q = "silent limit (fd_last_message e)", OF silent_keeps [OF _ _ assms(1)] assms(6) this]
  have stale: "en_data_stale e'" by (simp add: assms(7) engine_run_def)
  then show ?thesis
    using assms(2)
    by (simp add: engine_run_def listen_message_def check_data_stale_recovery_def can_open_new_trades_def)
qed

definition demo_cfg :: alpha_cfg where
  "demo_cfg = \<lparr>ac_id = ''a1'', ac_exchange = ''binance'', ac_tf = ''5m'', ac_max_candles = 2, ac_warmup_bars = 2,
     ac_min_coverage = 9 / 10, ac_manage_interval = 5, ac_alert_stale = 15, ac_skip_if_fresh = 120,
     ac_snapshot_max_age = 30, ac_no_position_is_ok = True, ac_stale_suspends = True,
     ac_data_stale_suspends = True, ac_sync_suspends = True, ac_blacklist = {}, ac_whitelist = {}\<rparr>"


text \<open>An alpha that was warmed up and reconciled, with its last message at 1000.\<close>

definition live_engine :: alpha_state where
  "live_engine = (start_up (Inr True) True new_alpha)\<lparr>fd_last_message := 1000\<rparr>"

lemma live_engine_fields: "en_state live_engine = LIVE" "fd_last_message live_engine = 1000"
  "\<not> en_data_stale live_engine" "\<not> en_reconcile_stale live_engine" "\<not> en_sync_stale live_engine"
  by (simp_all add: live_engine_def start_up_def new_alpha_def)

theorem silence_suspends_until_data_witness:
  "can_open_new_trades live_engine \<and>
   \<not> can_open_new_trades (engine_run demo_cfg 120 [MonitorTurn 1200, SyncSent, MonitorTurn 1230] live_engine) \<and>
   can_open_new_trades (engine_run demo_cfg 120 [Message 1240 OtherMessage]
     (engine_run demo_cfg 120 [MonitorTurn 1200, SyncSent, MonitorTurn 1230] live_engine))"
proof -
  let ?e = "engine_run demo_cfg 120 [MonitorTurn 1200, SyncSent, MonitorTurn 1230] live_engine"
  have c: "ac_data_stale_suspends demo_cfg" by (simp add: demo_cfg_def)
  note all = silence_suspends_until_data [OF c, of 120 live_engine 1200 "[SyncSent, MonitorTurn 1230]" ?e]
  have e: "en_state ?e = STALE" "\<not> en_reconcile_stale ?e" "\<not> en_sync_stale ?e"
    by (simp_all add: engine_run_def stale_monitor_turn_def mark_price_alert_sync_recovered_def live_engine_fields c)
  show ?thesis
    using all [of 1240] e by (simp add: live_engine_fields) (simp add: can_open_new_trades_def live_engine_fields)
qed

text \<open>Everything but a reconnection and a monitor that suspends.\<close>

fun no_reconnect :: "alpha_cfg \<Rightarrow> alpha_event \<Rightarrow> bool" where
  "no_reconnect cfg (MonitorTurn now) = (\<not> ac_data_stale_suspends cfg)"
| "no_reconnect cfg Reconnecting = False"
| "no_reconnect cfg (Reconnected outcome) = False"
| "no_reconnect cfg ev = True"

definition wedged :: "alpha_state \<Rightarrow> bool" where
  "wedged e \<longleftrightarrow> en_state e = STALE \<and> \<not> en_data_stale e"

lemma wedged_keeps:
  assumes "no_reconnect cfg ev" and "wedged e"
  shows "wedged (engine_event cfg limit ev e)"
proof (cases ev)
  case (Message now m)
  have "keeps wedged (listen_message cfg limit now m)"
    by (rule keeps_listen) (simp_all add: wedged_def check_data_stale_recovery_def)
  from keepsD [OF this assms(2)] show ?thesis by (simp add: Message)
next
  case (ReconcileTurn env)
  have "keeps wedged (reconcile_positions cfg env)" by (rule keeps_reconcile) (simp_all add: wedged_def)
  from reconcile_turn_keeps [OF this _ assms(2)] show ?thesis by (simp add: ReconcileTurn wedged_def)
qed (use assms in \<open>simp_all add: wedged_def stale_monitor_turn_def check_data_stale_recovery_def
    mark_price_alert_sync_failed_def mark_price_alert_sync_recovered_def refresh_price_alert_subscriptions_def\<close>)

text \<open>
  The other side of the same flags.  An alpha that is STALE while its data flag is clear - after a
  failed reconciliation at the start, a lost connection, or a monitor that may not suspend - never
  becomes LIVE by itself: neither messages nor successful reconciliations bring it back, as only
  the clearing of the data flag and a reconnection set the state.
\<close>

theorem stale_without_flag_is_stuck:
  assumes "en_state e = STALE" and "\<not> en_data_stale e" and "list_all (no_reconnect cfg) evs"
  shows "\<not> can_open_new_trades (engine_run cfg limit evs e) \<and> en_state (engine_run cfg limit evs e) = STALE"
proof -
  have "wedged (engine_run cfg limit evs e)"
    using engine_run_invariant [where P = wedged, OF wedged_keeps assms(3)] assms(1,2) by (simp add: wedged_def)
  then show ?thesis by (simp add: wedged_def can_open_new_trades_def)
qed

definition no_snapshot :: reconcile_env where
  "no_snapshot = \<lparr>re_raw = Inr None, re_read_time = (\<lambda>_. NotIso ''''), re_now = 0, re_now_text = JNull, re_stored = Inr ()\<rparr>"

theorem stale_without_flag_is_stuck_witness:
  "\<not> en_reconcile_stale (engine_run demo_cfg 120 [ReconcileTurn no_snapshot, Message 5 OtherMessage]
      (start_up (Inr True) False new_alpha)) \<and>
   \<not> can_open_new_trades (engine_run demo_cfg 120 [ReconcileTurn no_snapshot, Message 5 OtherMessage]
      (start_up (Inr True) False new_alpha))"
proof -
  let ?e = "start_up (Inr True) False new_alpha"
  have e: "en_state ?e = STALE" "\<not> en_data_stale ?e" by (simp_all add: start_up_def)
  have "\<not> en_reconcile_stale (engine_run demo_cfg 120 [ReconcileTurn no_snapshot, Message 5 OtherMessage] ?e)"
    by (simp add: engine_run_def reconcile_turn_def reconcile_positions_def no_snapshot_def parse_snapshot_def
        demo_cfg_def start_up_def new_alpha_def open_positions_def accept_empty_def publish_runtime_heartbeat_def
        listen_message_def check_data_stale_recovery_def then_do_apply)
  with stale_without_flag_is_stuck [OF e, of demo_cfg "[ReconcileTurn no_snapshot, Message 5 OtherMessage]" 120]
  show ?thesis by simp
qed

text \<open>An alpha that says it is LIVE has fresh data, in every state its loops can reach.\<close>

theorem live_means_fresh:
  assumes "engine_reachable cfg limit e" and "en_state e = LIVE"
  shows "\<not> en_data_stale e"
  using reachable_live [OF assms(1)] assms(2) by (simp add: live_is_fresh_def)

theorem live_means_fresh_witness: "\<not> en_data_stale (start_up (Inr True) True new_alpha)"
  by (rule live_means_fresh [OF engine_reachable.start [of demo_cfg 120]]) (simp add: start_up_def)

section \<open>The candles a position is managed on\<close>

text \<open>The candles, of a sequence of scans, that are handed to the management of a position.\<close>

fun claimed :: "int list \<Rightarrow> obj \<Rightarrow> int list" where
  "claimed [] p = []"
| "claimed (t # ts) p = (case claim_position_candle (JInt t) p of
       (Inr True, p') \<Rightarrow> t # claimed ts p'
     | (_, p') \<Rightarrow> claimed ts p')"

text \<open>The elements that exceed \<open>m\<close> and everything before them.\<close>

fun new_maxima :: "int \<Rightarrow> int list \<Rightarrow> int list" where
  "new_maxima m [] = []"
| "new_maxima m (t # ts) = (if m < t then t # new_maxima t ts else new_maxima m ts)"

lemma new_maxima_ascending: "sorted_wrt (<) (new_maxima m ts) \<and> (\<forall>t \<in> set (new_maxima m ts). m < t)"
proof (induction ts arbitrary: m)
  case (Cons t ts)
  then show ?case using Cons.IH [of t] Cons.IH [of m] by (auto dest: bspec [of _ "(<) t"] intro: less_trans)
qed simp


text \<open>The last candle before the position, and the one it was managed on last.\<close>

definition entry_candle :: "int \<Rightarrow> int \<Rightarrow> int" where
  "entry_candle opened ended = (if ended > 0 then ended - 1 else max 0 opened)"

definition position_fields :: "int \<Rightarrow> int \<Rightarrow> int option \<Rightarrow> obj \<Rightarrow> bool" where
  "position_fields opened ended last_claimed p \<longleftrightarrow>
     map_of p ''entry_candle_open_ms'' = Some (JInt opened) \<and>
     map_of p ''signal_candle_close_ms'' = Some (JInt ended) \<and>
     map_of p ''last_strategy_candle_ms'' = map_option JInt last_claimed"

definition last_managed :: "int \<Rightarrow> int \<Rightarrow> int option \<Rightarrow> int" where
  "last_managed opened ended last_claimed = max (entry_candle opened ended)
     (case last_claimed of Some t \<Rightarrow> t | None \<Rightarrow> if opened > 0 then opened else ended - 1)"

lemma claim_one:
  assumes "position_fields opened ended c p" and "0 \<le> last_managed opened ended c"
  shows "claim_position_candle (JInt t) p =
    (if last_managed opened ended c < t then (Inr True, dset ''last_strategy_candle_ms'' (JInt t) p) else (Inr False, p))"
proof -
  have int: "int_or_zero (JInt n) = Inr n" for n by (simp add: int_or_zero_def)
  have last: "dget p ''last_strategy_candle_ms'' (JInt (if opened > 0 then opened else ended - 1))
      = JInt (case c of Some t \<Rightarrow> t | None \<Rightarrow> if opened > 0 then opened else ended - 1)"
    using assms(1) by (simp add: position_fields_def dget_def split: option.splits)
  have "dget p ''entry_candle_open_ms'' (JInt 0) = JInt opened" "dget p ''signal_candle_close_ms'' (JInt 0) = JInt ended"
    using assms(1) by (simp_all add: position_fields_def dget_def)
  then show ?thesis
    using assms(2) unfolding claim_position_candle_def
    by (simp add: int last ) (auto simp: last_managed_def entry_candle_def split: option.splits)
qed

text \<open>
  The candles handed to the management of a position are exactly those that open after the entry
  candle and after every candle before them: no candle twice, none of before the entry, none that
  arrives late, and no other is left out.
\<close>

theorem each_candle_claimed_once:
  assumes "position_fields opened ended c p" and "0 \<le> last_managed opened ended c"
  shows "claimed ts p = new_maxima (last_managed opened ended c) ts \<and> sorted_wrt (<) (claimed ts p) \<and>
    list_all (\<lambda>t. entry_candle opened ended < t) (claimed ts p)"
proof -
  have "claimed ts p = new_maxima (last_managed opened ended c) ts"
    using assms
  proof (induction ts arbitrary: c p)
    case (Cons t ts)
    let ?p = "dset ''last_strategy_candle_ms'' (JInt t) p"
    have next_one: "position_fields opened ended (Some t) ?p"
      using Cons.prems(1) by (simp add: position_fields_def)
    show ?case
    proof (cases "last_managed opened ended c < t")
      case True
      then have "last_managed opened ended (Some t) = t"
        by (auto simp: last_managed_def split: option.splits)
      then show ?thesis
        using Cons.IH [OF next_one] Cons.prems True claim_one [OF Cons.prems] by simp
    next
      case False
      then show ?thesis using Cons claim_one [OF Cons.prems] by simp
    qed
  qed simp
  moreover have "entry_candle opened ended \<le> last_managed opened ended c" by (simp add: last_managed_def)
  ultimately show ?thesis
    using new_maxima_ascending [of "last_managed opened ended c" ts] by (auto simp: list_all_iff)
qed

theorem each_candle_claimed_once_witness:
  "claimed [600, 300, 900, 900, 600, 1200]
     [(''entry_candle_open_ms'', JInt 300), (''signal_candle_close_ms'', JInt 600)] = [600, 900, 1200]"
proof -
  let ?p = "[(''entry_candle_open_ms'', JInt 300), (''signal_candle_close_ms'', JInt 600)]"
  have p: "position_fields 300 600 None ?p" by (simp add: position_fields_def)
  have n: "last_managed 300 600 None = 599" by (simp add: last_managed_def entry_candle_def)
  show ?thesis using each_candle_claimed_once [OF p, of "[600, 300, 900, 900, 600, 1200]"] n by simp
qed

section \<open>The candles\<close>

text \<open>The messages as the runner hands them to its shared cache.\<close>

definition runner_feed :: "alpha_cfg \<Rightarrow> (real \<times> candle) list \<Rightarrow> feed_item list" where
  "runner_feed cfg ms = concat (map (\<lambda>(now, msg). case kline_reading cfg msg of
       Inr (Some ((smb, tf), x)) \<Rightarrow> [(Fin now, smb, tf, msg)] | _ \<Rightarrow> []) ms)"

definition wide_reading :: "alpha_cfg \<Rightarrow> candle \<Rightarrow> bool" where
  "wide_reading cfg msg \<longleftrightarrow> (case kline_reading cfg msg of
       Inl e \<Rightarrow> False | Inr None \<Rightarrow> True | Inr (Some (k, x)) \<Rightarrow> int64 (s_time x))"

lemma runner_feed_bars:
  assumes "list_all (\<lambda>m. wide_reading cfg (snd m)) ms"
  shows "bars_for k (runner_feed cfg ms) = kline_bars cfg k (map snd ms)" "\<forall>i \<in> set (runner_feed cfg ms). readable_item i"
proof -
  have "bars_for k (runner_feed cfg ms) = kline_bars cfg k (map snd ms) \<and> (\<forall>i \<in> set (runner_feed cfg ms). readable_item i)"
    using assms
  proof (induction ms)
    case (Cons m ms)
    obtain now msg where m: "m = (now, msg)" by (cases m)
    have IH: "bars_for k (runner_feed cfg ms) = kline_bars cfg k (map snd ms)" "\<forall>i \<in> set (runner_feed cfg ms). readable_item i"
      using Cons by simp_all
    from Cons.prems m have w: "wide_reading cfg msg" by simp
    show ?case
    proof (cases "kline_reading cfg msg")
      case (Inr r)
      show ?thesis
      proof (cases r)
        case None
        then show ?thesis using IH Inr m by (simp add: runner_feed_def kline_bars_def)
      next
        case (Some kx)
        obtain smb tf x where kx: "kx = ((smb, tf), x)" by (metis prod.exhaust)
        with w Inr Some have "int64 (s_time x)" by (simp add: wide_reading_def)
        from kline_reading_is_reading [OF Inr [unfolded Some kx] this] IH Inr Some kx m
        show ?thesis by (simp add: runner_feed_def kline_bars_def bars_for_def)
      qed
    qed (use w in \<open>simp add: wide_reading_def\<close>)
  qed (simp add: runner_feed_def kline_bars_def bars_for_def)
  then show "bars_for k (runner_feed cfg ms) = kline_bars cfg k (map snd ms)"
    "\<forall>i \<in> set (runner_feed cfg ms). readable_item i" by blast+
qed


definition kline_at :: "int \<Rightarrow> int \<Rightarrow> candle" where
  "kline_at t x = [(''symbol'', JStr ''BTC''), (''tf'', JStr ''1m''), (''open_time'', JInt t), (''open'', JInt x),
     (''high'', JInt x), (''low'', JInt x), (''close'', JInt x), (''volume'', JInt 1)]"

lemma kline_at_reading:
  "0 < t \<Longrightarrow> kline_reading demo_cfg (kline_at t x) = Inr (Some ((''BTC'', ''1m''), \<lparr>s_time = t, s_open = Fin x,
     s_high = Fin x, s_low = Fin x, s_close = Fin x, s_volume = Fin 1\<rparr>))"
  by (simp add: kline_reading_def kline_at_def demo_cfg_def mds_exchange_def allowed_symbol_def is_blacklisted_def
      is_whitelisted_def bar_of_def candle_float_def dget_def)

definition empty_feed :: feed where
  "empty_feed = \<lparr>fd_data = [], fd_last_message = 0, fd_universe = []\<rparr>"


text \<open>
  A candle with a close that is not a number costs more than itself.  Its time, open, high and low
  are appended before the exception, so from then on the lists of closes and volumes are one
  shorter than the list of times, and the next candle's close stands at the time of the broken one.
\<close>

theorem malformed_candle_misaligns:
  assumes "xs \<noteq> []" and "s_time (List.last xs) < t" and "t < t'"
    and "candle_float msg ''open'' = Inr o'" and "candle_float msg ''high'' = Inr h"
    and "candle_float msg ''low'' = Inr l" and "candle_float msg ''close'' = Inl e"
    and "bar_of msg' t' = Inr x"
    and "sd = snd (then_do (catch (upsert_symbol msg t) (\<lambda>_. ret ())) (upsert_symbol msg' t') (of_bars xs))"
  shows "sd_time sd ! length xs = t \<and> sd_price sd ! length xs = s_close x \<and>
    length (sd_price sd) + 1 = length (sd_time sd)"
proof -
  let ?sd = "(of_bars xs)\<lparr>sd_time := map s_time xs @ [t], sd_open := map s_open xs @ [o'],
      sd_high := map s_high xs @ [h], sd_low := map s_low xs @ [l]\<rparr>"
  have one: "upsert_symbol msg t (of_bars xs) = (Inl e, ?sd)" by (rule unreadable_close [OF assms(4-7,1,2)])
  have sd: "sd = snd (upsert_symbol msg' t' ?sd)" using assms(9) one by (simp add: then_do_apply catch_def)
  have "sd_time ?sd \<noteq> []" "List.last (sd_time ?sd) < t'" using assms(3) by simp_all
  from later_candle_shifted [OF assms(8) this] show ?thesis
    unfolding sd by (simp add: nth_append of_bars_def)
qed

theorem malformed_candle_misaligns_witness:
  "sd_time (snd (then_do (catch (upsert_symbol (dset ''close'' (JNull) (kline_at 120 7)) 120) (\<lambda>_. ret ()))
      (upsert_symbol (kline_at 180 9) 180) (of_bars [\<lparr>s_time = 60, s_open = Fin 5, s_high = Fin 5, s_low = Fin 5,
        s_close = Fin 5, s_volume = Fin 1\<rparr>]))) ! 1 = 120 \<and>
   sd_price (snd (then_do (catch (upsert_symbol (dset ''close'' (JNull) (kline_at 120 7)) 120) (\<lambda>_. ret ()))
      (upsert_symbol (kline_at 180 9) 180) (of_bars [\<lparr>s_time = 60, s_open = Fin 5, s_high = Fin 5, s_low = Fin 5,
        s_close = Fin 5, s_volume = Fin 1\<rparr>]))) ! 1 = Fin 9"
proof -
  let ?bar = "\<lambda>t x. \<lparr>s_time = t, s_open = Fin x, s_high = Fin x, s_low = Fin x, s_close = Fin x, s_volume = Fin 1\<rparr>"
  let ?bad = "dset ''close'' (JNull) (kline_at 120 7)"
  have "\<exists>e. candle_float ?bad ''close'' = Inl e"
    by (simp add: candle_float_def kline_at_def dget_def)
  then obtain e where e: "candle_float ?bad ''close'' = Inl e" by blast
  have b: "candle_float ?bad ''open'' = Inr (Fin 7)" "candle_float ?bad ''high'' = Inr (Fin 7)"
    "candle_float ?bad ''low'' = Inr (Fin 7)" "bar_of (kline_at 180 9) 180 = Inr (?bar 180 9)"
    by (simp_all add: candle_float_def kline_at_def dget_def bar_of_def)
  from malformed_candle_misaligns [OF _ _ _ b(1-3) e b(4) refl, of "[?bar 60 5]"]
  show ?thesis by simp
qed

end
