(* ===== verification/AlphaWorker.thy ===== *)
theory AlphaWorker
  imports EngineProperties Examples
begin

text \<open>
  The worker and a stand-alone alpha together: the text the worker stores for an alpha
  (\<^verbatim>\<open>worker/app/position_snapshots.py\<close>), what the alpha makes of it at the next reconciliation, and
  what the ownership monitor of the worker then reads in the alpha's heartbeat.

  \<open>show_time\<close> is the text of a stored time.
\<close>

section \<open>The text of a snapshot\<close>

definition row_json :: "(isotext \<Rightarrow> string) \<Rightarrow> position \<times> json \<Rightarrow> obj" where
  "row_json show_time = (\<lambda>(p, metadata).
     [(''alpha_id'', JStr (p_alpha p)), (''entry_price'', jopt JNum (p_entry p)),
      (''exchange'', JStr (p_exchange p)), (''fee_pct'', jopt JNum (p_fee_pct p)),
      (''leverage'', JInt (p_leverage p)), (''metadata'', metadata),
      (''opened_at'', JStr (show_time (p_opened p))), (''position_id'', JStr (p_id p)),
      (''qty'', jopt JNum (p_qty p)), (''side'', JStr (p_side p)), (''signal_id'', JStr (p_signal p)),
      (''sl'', jopt JNum (p_sl p)), (''symbol'', JStr (p_symbol p)), (''tp'', jopt JNum (p_tp p))])"

definition snapshot_json :: "(isotext \<Rightarrow> string) \<Rightarrow> snapshot \<Rightarrow> obj" where
  "snapshot_json show_time s = [(''alpha_id'', JStr (sn_alpha s)),
     (''generated_at'', JStr (show_time (sn_generated s))),
     (''positions'', JArr (map (\<lambda>row. JObj (row_json show_time row)) (sn_positions s))),
     (''revision'', JInt (sn_revision s))]"

section \<open>Rows that can be restored\<close>

definition readable :: "json \<Rightarrow> bool" where
  "readable j = (case jfloat j of Inl e \<Rightarrow> False | Inr x \<Rightarrow> True)"

text \<open>
  Metadata an alpha can restore a position from: its trail distance and trade size are numbers
  when they are there, and the stored runtime does not claim a field of the worker.
\<close>

definition readable_metadata :: "obj \<Rightarrow> bool" where
  "readable_metadata md \<longleftrightarrow>
     (let rt = (case runtime_of md of None \<Rightarrow> [] | Some d \<Rightarrow> d);
          trail = dget rt ''trail_distance'' (dget md ''trail_distance'' JNull)
      in dict_ok rt \<and> list_all (\<lambda>k. k \<notin> set worker_owned) (keys rt) \<and>
         (trail = JNull \<or> readable trail) \<and>
         (map_of md ''trade_size'' = None \<or> readable (dget md ''trade_size'' JNull)))"

definition restorable :: "position \<Rightarrow> bool" where
  "restorable p \<longleftrightarrow> p_id p \<noteq> '''' \<and> p_symbol p \<noteq> '''' \<and> p_entry p \<noteq> None \<and> p_qty p \<noteq> None \<and>
     (case snd (snapshot_position p) of JObj md \<Rightarrow> readable_metadata md | _ \<Rightarrow> False)"

lemma map_of_dupdate_other: "k \<notin> set (keys e) \<Longrightarrow> map_of (dupdate d e) k = map_of d k"
  by (induction e arbitrary: d) (auto simp: keys_def)

lemma row_json_fields:
  assumes "p_entry p = Some x" and "p_qty p = Some q"
  obtains a where "authoritative_fields (row_json sh (p, JObj md)) = Inr a"
    "map_of a ''entry'' = Some (JNum x)" "map_of a ''qty'' = Some (JNum q)" "map_of a ''sl'' = Some (jopt JNum (p_sl p))"
    "keys a = worker_owned"
proof -
  have "float_or_none (jopt JNum y) = Inr (jopt JNum y)" for y
    by (simp add: float_or_none_def jopt_def split: option.split)
  moreover have "jfloat (jopt JNum (Some y)) = Inr y" for y by (simp add: jopt_def)
  moreover have "(if n = 0 then Inr 1 else Inr n) = Inr (if n = 0 then 1 else n :: int)" for n by simp
  ultimately have "\<exists>a. authoritative_fields (row_json sh (p, JObj md)) = Inr a \<and>
      map_of a ''entry'' = Some (JNum x) \<and> map_of a ''qty'' = Some (JNum q) \<and>
      map_of a ''sl'' = Some (jopt JNum (p_sl p)) \<and> keys a = worker_owned"
    using assms by (cases "p_leverage p = 0")
      (simp_all add: authoritative_fields_def row_json_def obj_item_def dget_def worker_owned_def keys_def)
  then show thesis using that by blast
qed

lemma with_trail_succeeds:
  assumes "trail = dget r ''trail_distance'' (dget md ''trail_distance'' JNull)" "trail = JNull \<or> readable trail"
    and "map_of r ''entry'' = Some (JNum x)" "map_of r ''sl'' = Some (jopt JNum sl)"
  shows "\<exists>r'. with_trail md r = Inr r'"
proof -
  have "\<exists>y. number (let s = dget (dset ''trail_distance'' v r) ''sl'' JNull in if json_truthy s then s
      else dget (dset ''trail_distance'' v r) ''entry'' JNull) = Inr y" for v
    using assms(3,4) by (cases sl) (auto simp: dget_def jopt_def Let_def)
  then show ?thesis
    using assms(1,2) by (fastforce simp: with_trail_def Let_def readable_def split: sum.splits)
qed

lemma normalize_row:
  assumes "p_entry p \<noteq> None" and "p_qty p \<noteq> None" and "readable_metadata md"
  shows "\<exists>r. normalize_position (row_json sh (p, JObj md)) = Inr r"
proof -
  obtain x q where xq: "p_entry p = Some x" "p_qty p = Some q" using assms(1,2) by blast
  from row_json_fields [OF this] obtain a where a: "authoritative_fields (row_json sh (p, JObj md)) = Inr a"
    "map_of a ''entry'' = Some (JNum x)" "map_of a ''qty'' = Some (JNum q)" "map_of a ''sl'' = Some (jopt JNum (p_sl p))"
    "keys a = worker_owned" .
  define rt where "rt = (case runtime_of md of None \<Rightarrow> [] | Some d \<Rightarrow> d)"
  have rt: "dict_ok rt" "k \<in> set worker_owned \<Longrightarrow> k \<notin> set (keys rt)"
    "dget rt ''trail_distance'' (dget md ''trail_distance'' JNull) = JNull \<or>
      readable (dget rt ''trail_distance'' (dget md ''trail_distance'' JNull))"
    "map_of md ''trade_size'' = None \<or> readable (dget md ''trade_size'' JNull)" for k
    using assms(3) by (auto simp: readable_metadata_def Let_def rt_def [symmetric] list_all_iff)
  have m: "object_or_empty (dget (row_json sh (p, JObj md)) ''metadata'' JNull) = md"
    by (simp add: row_json_def dget_def object_or_empty_def)
  have own: "map_of (dupdate a rt) k = map_of a k" if "k \<in> set worker_owned" for k
    using rt(2) [OF that] by (rule map_of_dupdate_other)
  have "''trail_distance'' \<notin> set (keys a)" by (simp add: a(5) worker_owned_def)
  then have "map_of a ''trail_distance'' = None" by (simp add: keys_def map_of_eq_None_iff)
  then have t: "dget (dupdate a rt) ''trail_distance'' v = dget rt ''trail_distance'' v" for v
    using rt(1) by (simp add: dget_def map_of_dupdate map_add_def split: option.split)
  obtain r1 where r1: "with_trail md (dupdate a rt) = Inr r1"
    using with_trail_succeeds [OF refl _ _ _, of "dupdate a rt" md x "p_sl p"] rt(3) a(2,4) own
    by (auto simp: t worker_owned_def)
  have "map_of r1 ''entry'' = Some (JNum x)" "map_of r1 ''qty'' = Some (JNum q)"
    using with_trail_keeps [OF r1] own a(2,3) by (simp_all add: worker_owned_def)
  then have e: "number (dget r1 ''entry'' JNull) = Inr x" "number (dget r1 ''qty'' JNull) = Inr q"
    by (simp_all add: dget_def)
  have "\<exists>s. jfloat (dget md ''trade_size'' (JNum (x * q))) = Inr s"
    using rt(4) by (auto simp: dget_def readable_def split: option.splits sum.splits)
  then show ?thesis
    using a(1) r1 e by (auto simp: normalize_position_def m Let_def rt_def [symmetric])
qed

lemma clean_row_json: "readable_metadata md \<Longrightarrow> clean_row (row_json sh (p, JObj md))"
  by (auto simp: clean_row_def row_json_def dget_def object_or_empty_def readable_metadata_def Let_def split: option.splits)

section \<open>A reconciliation that succeeds\<close>

lemma restore_all_succeeds:
  assumes "list_all (\<lambda>(pid, raw). clean_row raw \<and> (\<exists>r. normalize_position raw = Inr r)) rows"
  shows "\<exists>e'. for_each (\<lambda>(pid, raw). restore_one raw) rows e = (Inr (), e')"
  using assms
proof (induction rows arbitrary: e)
  case (Cons row rows)
  obtain pid raw where row: "row = (pid, raw)" by (cases row)
  with Cons.prems obtain r where r: "normalize_position raw = Inr r" "clean_row raw" by auto
  have "obj_item r ''symbol'' = Inr (JStr (symbol_of raw))"
    using normalize_id(2) [OF r] by (simp add: obj_item_def symbol_of_def)
  with r(1) have "\<exists>e1. restore_one raw e = (Inr (), e1)" by (simp add: restore_one_def)
  then obtain e1 where "restore_one raw e = (Inr (), e1)" by blast
  moreover obtain e' where "for_each (\<lambda>(pid, raw). restore_one raw) rows e1 = (Inr (), e')"
    using Cons.IH [of e1] Cons.prems by auto
  ultimately show ?case by (simp add: row then_do_apply)
qed simp

lemma reconcile_succeeds:
  assumes "re_raw env = Inr raw" and "parse_snapshot raw = Some snap" and "re_stored env = Inr ()"
    and "py_int (dget snap ''revision'' (JInt 0)) = Inr revision" and "en_positions e \<noteq> None"
    and "list_all (\<lambda>(pid, raw). clean_row raw \<and> (\<exists>r. normalize_position raw = Inr r)) (authoritative snap)"
  shows "\<exists>e'. reconcile_positions cfg env e = (Inr True, e')"
proof (cases "authoritative snap = []")
  case True
  then show ?thesis
    using assms(1-4)
    by (simp add: reconcile_positions_def accept_empty_def publish_runtime_heartbeat_def Let_def then_do_apply bind_def)
next
  case False
  let ?e = "drop_unknown (authoritative snap) (e\<lparr>en_snapshot_age := snapshot_age (re_read_time env) (re_now env) snap,
      en_reconcile_stale := snapshot_age (re_read_time env) (re_now env) snap > Fin (ac_snapshot_max_age cfg)
        \<and> ac_stale_suspends cfg\<rparr>)"
  obtain e2 where "for_each (\<lambda>(pid, raw). restore_one raw) (authoritative snap) ?e = (Inr (), e2)"
    using restore_all_succeeds [OF assms(6)] by blast
  then show ?thesis
    using assms(1-5) False
    by (auto simp: reconcile_positions_def publish_runtime_heartbeat_def Let_def then_do_apply bind_def)
qed

section \<open>The snapshot as the alpha sees it\<close>

lemma dupdate_new: "dict_ok (d @ e) \<Longrightarrow> dupdate d e = d @ e"
proof (induction e arbitrary: d)
  case (Cons p e)
  obtain k v where p: "p = (k, v)" by (cases p)
  have "k \<notin> set (keys d)" using Cons.prems by (auto simp: p keys_def)
  then show ?case using Cons.IH [of "d @ [p]"] Cons.prems by (simp add: p dset_fresh)
qed simp

definition authoritative_rows_of :: "(isotext \<Rightarrow> string) \<Rightarrow> position list \<Rightarrow> (string, obj) dict" where
  "authoritative_rows_of sh rows = map (\<lambda>p. (p_id p, row_json sh (snapshot_position p))) rows"

lemma row_json_ids:
  "dget (row_json sh (p, m)) ''position_id'' JNull = JStr (p_id p)" "symbol_of (row_json sh (p, m)) = p_symbol p"
  by (simp_all add: row_json_def symbol_of_def dget_def)

lemma snapshot_position_eq: "snapshot_position p = (p, snd (snapshot_position p))"
  by (simp add: snapshot_position_def)

lemma authoritative_snapshot:
  assumes "sn_positions s = map snapshot_position rows" and "distinct (map p_id rows)" and "list_all restorable rows"
  shows "authoritative (snapshot_json sh s) = authoritative_rows_of sh rows"
    "parse_snapshot (Some (JText (JObj (snapshot_json sh s)))) = Some (snapshot_json sh s)"
    "py_int (dget (snapshot_json sh s) ''revision'' (JInt 0)) = Inr (sn_revision s)"
proof -
  have p: "dget (snapshot_json sh s) ''positions'' JNull = JArr (map (\<lambda>p. JObj (row_json sh (snapshot_position p))) rows)"
    by (simp add: snapshot_json_def dget_def assms(1))
  have "concat (map (\<lambda>p. case p of JObj d \<Rightarrow> if json_truthy (dget d ''position_id'' JNull)
           then [(jstr (dget d ''position_id'' JNull), d)] else [] | _ \<Rightarrow> [])
         (map (\<lambda>p. JObj (row_json sh (snapshot_position p))) rows)) = authoritative_rows_of sh rows"
    using assms(3)
  proof (induction rows)
    case (Cons q rows)
    have "dget (row_json sh (snapshot_position q)) ''position_id'' JNull = JStr (p_id q)"
      by (subst snapshot_position_eq) (rule row_json_ids)
    with Cons show ?case by (simp add: authoritative_rows_of_def restorable_def)
  qed (simp add: authoritative_rows_of_def)
  moreover have "dict_ok (authoritative_rows_of sh rows)"
    using assms(2) by (simp add: authoritative_rows_of_def comp_def)
  ultimately show "authoritative (snapshot_json sh s) = authoritative_rows_of sh rows"
    using dupdate_new [of "[]" "authoritative_rows_of sh rows"] unfolding authoritative_def p by simp
  show "parse_snapshot (Some (JText (JObj (snapshot_json sh s)))) = Some (snapshot_json sh s)"
    by (simp add: parse_snapshot_def p)
  show "py_int (dget (snapshot_json sh s) ''revision'' (JInt 0)) = Inr (sn_revision s)"
    by (simp add: snapshot_json_def dget_def)
qed

lemma restorable_row:
  assumes "restorable p"
  shows "clean_row (row_json sh (snapshot_position p))" "\<exists>r. normalize_position (row_json sh (snapshot_position p)) = Inr r"
proof -
  obtain md where "snd (snapshot_position p) = JObj md" "readable_metadata md" "p_entry p \<noteq> None" "p_qty p \<noteq> None"
    using assms by (auto simp: restorable_def split: json.splits)
  then show "clean_row (row_json sh (snapshot_position p))" "\<exists>r. normalize_position (row_json sh (snapshot_position p)) = Inr r"
    using clean_row_json [of md sh p] normalize_row [of p md sh] snapshot_position_eq [of p] by simp_all
qed

lemma py_set_sorted_texts: "finite xs \<Longrightarrow> py_set (sorted_texts xs) = Inr (JStr ` xs)"
  by (simp add: sorted_texts_def list_all_iff)


definition restart_cfg :: alpha_cfg where
  "restart_cfg = demo_cfg\<lparr>ac_id := ''a''\<rparr>"

definition restart_snapshot :: snapshot where
  "restart_snapshot = \<lparr>sn_alpha = ''a'', sn_revision = 5, sn_generated = ex_time,
     sn_positions = [(ex_position, JObj [])]\<rparr>"

definition restart_env :: reconcile_env where
  "restart_env = \<lparr>re_raw = Inr (Some (JText (JObj (snapshot_json (\<lambda>t. ''t'') restart_snapshot)))),
     re_read_time = (\<lambda>_. ex_time), re_now = 0, re_now_text = JStr ''t'', re_stored = Inr ()\<rparr>"


section \<open>The runtime of a position over a restart\<close>

text \<open>What the alpha sends with the signal of one of its positions, by what it was asked to send.\<close>

definition given_metadata :: "jtext option \<Rightarrow> obj" where
  "given_metadata m = (case m of None \<Rightarrow> [] | Some t \<Rightarrow> (case jloads t of Inr (JObj d) \<Rightarrow> d | _ \<Rightarrow> []))"

lemma signal_metadata_runtime:
  assumes "find (\<lambda>p. dget p ''position_id'' JNull = pid) (map snd (open_positions e)) = Some p"
  shows "signal_metadata e ''OPEN'' pid metadata = Some (jdumps (JObj
    (dset ''strategy_runtime'' (JObj (serialize_position_runtime p))
      (dset ''strategy_runtime_version'' (JInt 1) (given_metadata metadata)))))"
  using assms by (simp add: signal_metadata_def open_positions_def given_metadata_def)

lemma serialized:
  assumes "dict_ok p"
  shows "dict_ok (serialize_position_runtime p)"
    "map_of (serialize_position_runtime p) k = (case map_of p k of
       None \<Rightarrow> None | Some v \<Rightarrow> if k \<notin> set worker_owned \<and> scalar v then Some v else None)"
    "list_all (\<lambda>k. k \<notin> set worker_owned) (keys (serialize_position_runtime p))"
proof -
  show "dict_ok (serialize_position_runtime p)"
    using assms by (simp add: serialize_position_runtime_def distinct_map_filter)
  show "map_of (serialize_position_runtime p) k = (case map_of p k of
       None \<Rightarrow> None | Some v \<Rightarrow> if k \<notin> set worker_owned \<and> scalar v then Some v else None)"
    using assms unfolding serialize_position_runtime_def
    by (induction p) (auto simp: map_of_eq_None_iff split: option.splits)
  show "list_all (\<lambda>k. k \<notin> set worker_owned) (keys (serialize_position_runtime p))"
    by (auto simp: list_all_iff keys_def serialize_position_runtime_def)
qed

text \<open>Metadata and a position whose numbers can be read back.\<close>

definition sendable :: "obj \<Rightarrow> obj \<Rightarrow> bool" where
  "sendable m p \<longleftrightarrow> map_of m ''trail_distance'' = None \<and>
     (map_of m ''trade_size'' = None \<or> readable (dget m ''trade_size'' JNull)) \<and>
     (map_of p ''trail_distance'' = None \<or> readable (dget p ''trail_distance'' JNull))"

lemma authoritative_row:
  assumes "authoritative_fields (row_json sh (p, JObj md)) = Inr a" "p_entry p = Some x" "p_qty p = Some q"
  shows "map_of a ''side'' = Some (JStr (upper (p_side p)))" "map_of a ''entry'' = Some (JNum x)" "map_of a ''qty'' = Some (JNum q)"
    "map_of a ''tp'' = Some (jopt JNum (p_tp p))" "map_of a ''sl'' = Some (jopt JNum (p_sl p))"
proof -
  have f: "map_of (row_json sh (p, JObj md)) ''position_id'' = Some (JStr (p_id p))"
    "map_of (row_json sh (p, JObj md)) ''symbol'' = Some (JStr (p_symbol p))"
    "map_of (row_json sh (p, JObj md)) ''side'' = Some (JStr (p_side p))"
    "map_of (row_json sh (p, JObj md)) ''entry_price'' = Some (JNum x)" "map_of (row_json sh (p, JObj md)) ''qty'' = Some (JNum q)"
    "dget (row_json sh (p, JObj md)) ''tp'' JNull = jopt JNum (p_tp p)" "dget (row_json sh (p, JObj md)) ''sl'' JNull = jopt JNum (p_sl p)"
    using assms(2,3) by (simp_all add: row_json_def dget_def jopt_def)
  have opt: "float_or_none (jopt JNum v) = Inr (jopt JNum v)" for v by (cases v) (simp_all add: float_or_none_def jopt_def)
  show "map_of a ''side'' = Some (JStr (upper (p_side p)))" "map_of a ''entry'' = Some (JNum x)" "map_of a ''qty'' = Some (JNum q)"
    "map_of a ''tp'' = Some (jopt JNum (p_tp p))" "map_of a ''sl'' = Some (jopt JNum (p_sl p))"
    using assms(1) by (auto simp: authoritative_fields_def obj_item_def f opt res_bind_Inr_iff)
qed


definition managed_position :: obj where
  "managed_position = [(''position_id'', JStr ''p1''), (''symbol'', JStr ''BTC''), (''tp_hits'', JInt 1),
     (''hse'', JNum (Fin 104)), (''trail_distance'', JNum (Fin 3))]"


end
