(* ===== verification/ShadowLedger.thy ===== *)
theory ShadowLedger
  imports VirtualLedger "HOL-Library.List_Lexorder" "HOL-Library.Char_ord"
begin

text \<open>
  \<^verbatim>\<open>alphas/runner/virtual_trade_ledger.py\<close>: how the runner turns the rebalances of a strategy that
  only publishes a book into virtual trades.  The events go to the stream that \<open>VirtualLedger\<close>
  consumes in the worker; the set of virtual positions is kept in memory and, for a restart, in
  one Redis key.

  A position is the dictionary the code keeps; the order of the keys in the texts is not modelled.
  \<open>uuid5\<close> is \<^verbatim>\<open>uuid.uuid5\<close> in the fixed namespace
  and a time is its text.  What the pipeline and the reads of Redis answer are arguments.
\<close>

section \<open>The publisher\<close>

fun join_colon :: "string list \<Rightarrow> string" where
  "join_colon [] = ''''"
| "join_colon [x] = x"
| "join_colon (x # y # xs) = x @ '':'' @ join_colon (y # xs)"

definition stable_id :: "(string \<Rightarrow> string) \<Rightarrow> string list \<Rightarrow> string" where
  "stable_id uuid5 parts = uuid5 (join_colon parts)"

type_synonym book = "(string, event) dict"

record ledger_cfg =
  lc_alpha :: string
  lc_capital :: pyfloat
  lc_exchange :: string

record publisher =
  pb_positions :: book
  pb_stored :: "jtext option"
  pb_stream :: "event list"

text \<open>The arguments of \<open>rebalance\<close>.\<close>

record rebalance =
  rb_weights :: "(string, pyfloat) dict"
  rb_prices :: "(string, pyfloat) dict"
  rb_candle :: int
  rb_tf :: string
  rb_metadata :: "(string, event) dict"
  rb_at :: string
  rb_reason :: string

section \<open>The events of a rebalance\<close>

definition close_event ::
  "(string \<Rightarrow> string) \<Rightarrow> ledger_cfg \<Rightarrow> rebalance \<Rightarrow> string \<Rightarrow> pyfloat \<Rightarrow> event \<Rightarrow> event res" where
  "close_event uuid5 cfg rb smb exit_price pos =
     res_bind (item pos ''position_id'') (\<lambda>pid.
     res_bind (item pos ''side'') (\<lambda>side.
     res_bind (event_float pos ''qty'') (\<lambda>qty.
     res_bind (event_float pos ''weight'') (\<lambda>weight.
     Inr [(''ledger_mode'', JStr ''virtual''), (''type'', JStr ''VIRTUAL_CLOSE''),
          (''event_id'', JStr (stable_id uuid5 [''close'', jstr pid, show_int (rb_candle rb)])),
          (''position_id'', pid), (''alpha_id'', JStr (lc_alpha cfg)), (''symbol'', JStr smb),
          (''side'', side), (''price'', JNum exit_price), (''qty'', JNum qty), (''weight'', JNum weight),
          (''exchange'', JStr (lc_exchange cfg)), (''timeframe'', JStr (rb_tf rb)),
          (''timestamp'', JStr (rb_at rb)), (''candle_open_ms'', JInt (rb_candle rb)),
          (''reason'', JStr (rb_reason rb)),
          (''metadata'', JObj [(''virtual'', JBool True), (''ledger_source'', JStr ''shadow_sleeve'')])]))))"

text \<open>The events that close the positions, and the positions that are kept for want of a price.\<close>

fun close_book ::
  "(string \<Rightarrow> string) \<Rightarrow> ledger_cfg \<Rightarrow> rebalance \<Rightarrow> book \<Rightarrow> (event list \<times> book) res" where
  "close_book uuid5 cfg rb [] = Inr ([], [])"
| "close_book uuid5 cfg rb ((smb, pos) # ps) =
     (let exit_price = dget (rb_prices rb) smb (Fin 0)
      in if exit_price \<le> Fin 0
         then res_bind (close_book uuid5 cfg rb ps) (\<lambda>(events, kept). Inr (events, (smb, pos) # kept))
         else res_bind (close_event uuid5 cfg rb smb exit_price pos) (\<lambda>e.
              res_bind (close_book uuid5 cfg rb ps) (\<lambda>(events, kept). Inr (e # events, kept))))"

definition open_metadata :: "rebalance \<Rightarrow> string \<Rightarrow> pyfloat \<Rightarrow> event" where
  "open_metadata rb smb weight = dset ''weight'' (JNum weight)
     (dset ''ledger_source'' (JStr ''shadow_sleeve'') (dset ''virtual'' (JBool True) (dget (rb_metadata rb) smb [])))"

definition new_position ::
  "(string \<Rightarrow> string) \<Rightarrow> ledger_cfg \<Rightarrow> rebalance \<Rightarrow> string \<Rightarrow> pyfloat \<Rightarrow> pyfloat \<Rightarrow> pyfloat \<Rightarrow> event" where
  "new_position uuid5 cfg rb smb weight entry_price qty =
     [(''position_id'', JStr (stable_id uuid5 [''position'', lc_alpha cfg, smb, show_int (rb_candle rb)])),
      (''alpha_id'', JStr (lc_alpha cfg)), (''symbol'', JStr smb),
      (''side'', JStr (if weight > Fin 0 then ''LONG'' else ''SHORT'')), (''entry_price'', JNum entry_price),
      (''qty'', JNum qty), (''weight'', JNum weight), (''exchange'', JStr (lc_exchange cfg)),
      (''timeframe'', JStr (rb_tf rb)), (''opened_at'', JStr (rb_at rb)),
      (''entry_candle_open_ms'', JInt (rb_candle rb)), (''metadata'', JObj (open_metadata rb smb weight))]"

definition open_event ::
  "(string \<Rightarrow> string) \<Rightarrow> ledger_cfg \<Rightarrow> rebalance \<Rightarrow> string \<Rightarrow> pyfloat \<Rightarrow> pyfloat \<Rightarrow> pyfloat \<Rightarrow> event" where
  "open_event uuid5 cfg rb smb weight entry_price qty =
     (let pid = stable_id uuid5 [''position'', lc_alpha cfg, smb, show_int (rb_candle rb)]
      in [(''ledger_mode'', JStr ''virtual''), (''type'', JStr ''VIRTUAL_OPEN''),
          (''event_id'', JStr (stable_id uuid5 [''open'', pid])), (''position_id'', JStr pid),
          (''alpha_id'', JStr (lc_alpha cfg)), (''symbol'', JStr smb),
          (''side'', JStr (if weight > Fin 0 then ''LONG'' else ''SHORT'')), (''price'', JNum entry_price),
          (''qty'', JNum qty), (''weight'', JNum weight), (''exchange'', JStr (lc_exchange cfg)),
          (''timeframe'', JStr (rb_tf rb)), (''timestamp'', JStr (rb_at rb)),
          (''candle_open_ms'', JInt (rb_candle rb)), (''metadata'', JObj (open_metadata rb smb weight))])"

definition skip_open :: "rebalance \<Rightarrow> book \<Rightarrow> string \<Rightarrow> pyfloat \<Rightarrow> bool" where
  "skip_open rb next_positions smb weight \<longleftrightarrow>
     weight = Fin 0 \<or> dget (rb_prices rb) smb (Fin 0) \<le> Fin 0 \<or> smb \<in> set (keys next_positions)"

fun open_book ::
  "(string \<Rightarrow> string) \<Rightarrow> ledger_cfg \<Rightarrow> rebalance \<Rightarrow> (string, pyfloat) dict \<Rightarrow> book \<Rightarrow> (event list \<times> book) res" where
  "open_book uuid5 cfg rb [] next_positions = Inr ([], next_positions)"
| "open_book uuid5 cfg rb ((smb, weight) # ws) next_positions =
     (if skip_open rb next_positions smb weight then open_book uuid5 cfg rb ws next_positions
      else let entry_price = dget (rb_prices rb) smb (Fin 0)
           in res_bind (fdiv (lc_capital cfg * fabs weight) entry_price) (\<lambda>qty.
              res_bind (open_book uuid5 cfg rb ws
                  (dset smb (new_position uuid5 cfg rb smb weight entry_price qty) next_positions)) (\<lambda>(events, book).
              Inr (open_event uuid5 cfg rb smb weight entry_price qty # events, book))))"

definition rebalance_plan ::
  "(string \<Rightarrow> string) \<Rightarrow> ledger_cfg \<Rightarrow> rebalance \<Rightarrow> book \<Rightarrow> (event list \<times> book) res" where
  "rebalance_plan uuid5 cfg rb held =
     res_bind (close_book uuid5 cfg rb (sort_key fst held)) (\<lambda>(closes, kept).
     res_bind (open_book uuid5 cfg rb (sort_key fst (rb_weights rb)) kept) (\<lambda>(opens, book).
     Inr (closes @ opens, book)))"

text \<open>What becomes of the transaction: it may be lost, and so may its answer.\<close>

datatype pipe_outcome = Executed | NotExecuted | AnswerLost

definition book_json :: "book \<Rightarrow> json" where
  "book_json book = JObj (map (\<lambda>(smb, pos). (smb, JObj pos)) book)"

definition rebalance_ledger ::
  "(string \<Rightarrow> string) \<Rightarrow> ledger_cfg \<Rightarrow> pipe_outcome \<Rightarrow> rebalance \<Rightarrow> (publisher, unit) eff" where
  "rebalance_ledger uuid5 cfg outcome rb = (\<lambda>s.
     case rebalance_plan uuid5 cfg rb (pb_positions s) of
       Inl e \<Rightarrow> (Inl e, s)
     | Inr (events, book) \<Rightarrow>
         (let sent = s\<lparr>pb_stream := pb_stream s @ events, pb_stored := Some (jdumps (book_json book))\<rparr>
          in case outcome of
               Executed \<Rightarrow> (Inr (), sent\<lparr>pb_positions := book\<rparr>)
             | NotExecuted \<Rightarrow> (Inl RedisError, s)
             | AnswerLost \<Rightarrow> (Inl RedisError, sent)))"

section \<open>Start\<close>

text \<open>\<open>_load_positions\<close>: the second component says whether there is a stored state.\<close>

definition load_book :: "jtext option res \<Rightarrow> book \<times> bool" where
  "load_book reply = (case reply of
       Inl e \<Rightarrow> ([], False)
     | Inr None \<Rightarrow> ([], False)
     | Inr (Some t) \<Rightarrow> (case jloads (or_empty_obj (Some t)) of
           Inr (JObj d) \<Rightarrow> (concat (map (\<lambda>(smb, v). case v of JObj pos \<Rightarrow> [(smb, pos)] | _ \<Rightarrow> []) d), True)
         | _ \<Rightarrow> ([], False)))"

text \<open>\<open>float(v)\<close> of every value of an object.\<close>

definition float_dict :: "json \<Rightarrow> (string, pyfloat) dict res" where
  "float_dict j = (case j of
       JObj d \<Rightarrow> res_map (\<lambda>(k, v). res_bind (jfloat v) (\<lambda>x. Inr (k, x))) d
     | _ \<Rightarrow> Inl AttributeError)"

text \<open>The rebalance that seeds the ledger from the target book; \<open>None\<close> when there is nothing to seed.\<close>

definition bootstrap_rebalance :: "jtext option \<Rightarrow> rebalance option res" where
  "bootstrap_rebalance raw = (case given raw of
       None \<Rightarrow> Inr None
     | Some t \<Rightarrow> res_bind (jloads t) (\<lambda>j. case j of
         JObj book \<Rightarrow>
           (let weights = dget book ''weights'' JNull; meta = dget book ''meta'' JNull
            in (case (if json_truthy meta then meta else JObj []) of
              JObj m \<Rightarrow>
                (let prices = dget m ''prices'' JNull
                 in (case (weights, prices) of
                   (JObj ws, JObj ps) \<Rightarrow>
                     (let common = (case dget m ''diagnostics'' JNull of JObj d \<Rightarrow> d | _ \<Rightarrow> [])
                      in res_bind (float_dict weights) (\<lambda>w.
                         res_bind (float_dict prices) (\<lambda>p.
                         res_bind (res_bind (item book ''as_of_candle_ms'') py_int) (\<lambda>candle.
                         res_bind (event_str book ''timeframe'') (\<lambda>tf.
                         res_bind (event_str book ''generated_at'') (\<lambda>generated.
                         Inr (Some \<lparr>rb_weights = w, rb_prices = p, rb_candle = candle, rb_tf = tf,
                           rb_metadata = map (\<lambda>(smb, v). (smb, dset ''bootstrap_source'' (JStr ''target_book'') common)) ws,
                           rb_at = generated, rb_reason = ''VIRTUAL_REBALANCE''\<rparr>)))))))
                 | _ \<Rightarrow> Inr None))
            | _ \<Rightarrow> Inl AttributeError))
       | _ \<Rightarrow> Inl AttributeError))"

text \<open>\<open>__init__\<close>: an exception of the seeding is swallowed.\<close>

definition start_publisher ::
  "(string \<Rightarrow> string) \<Rightarrow> ledger_cfg \<Rightarrow> jtext option res \<Rightarrow> jtext option res \<Rightarrow> pipe_outcome \<Rightarrow> publisher \<Rightarrow> publisher" where
  "start_publisher uuid5 cfg reply target_book outcome s =
     (let (book, exists) = load_book reply; s = s\<lparr>pb_positions := book\<rparr>
      in if exists then s
         else case res_bind target_book bootstrap_rebalance of
             Inl e \<Rightarrow> s
           | Inr None \<Rightarrow> s
           | Inr (Some rb) \<Rightarrow> snd (rebalance_ledger uuid5 cfg outcome rb s))"

end
