(* ===== verification/ShadowMirror.thy ===== *)
theory ShadowMirror
  imports ShadowLedger
begin

text \<open>
  The ledger of the runner and the ledger of the worker: what the worker's tables hold after it
  has consumed the events the publishers have sent.
\<close>

section \<open>The ids\<close>

lemma digits_value_snoc: "digits_value (ds @ [c]) = digits_value ds * 10 + (of_char c - 48)"
  by (simp add: digits_value_def)

lemma digits_value_show: "digits_value (show_nat n) = n"
proof (induction n rule: show_nat.induct)
  case (1 n)
  show ?case
  proof (cases "n < 10")
    case True
    then show ?thesis by (simp add: show_nat.simps [of n] digits_value_def)
  next
    case False
    then show ?thesis using 1 by (simp add: show_nat.simps [of n] digits_value_snoc)
  qed
qed

lemma show_nat_digits: "\<forall>c \<in> set (show_nat n). is_digit c"
proof (induction n rule: show_nat.induct)
  case (1 n)
  have d: "k < 10 \<Longrightarrow> is_digit (char_of (48 + k))" for k :: nat by (simp add: is_digit_def)
  show ?case
    using 1 d [of n] d [of "n mod 10"] by (simp add: show_nat.simps [of n])
qed

lemma not_in_show_nat: "CHR '':'' \<notin> set (show_nat n)" "CHR ''-'' \<notin> set (show_nat n)"
  using show_nat_digits [of n] by (force simp: is_digit_def)+

lemma show_int_chars: "CHR '':'' \<notin> set (show_int i)"
  by (simp add: show_int_def not_in_show_nat)

lemma show_int_inject: "show_int i = show_int j \<longleftrightarrow> i = j"
proof
  assume e: "show_int i = show_int j"
  have "show_nat n \<noteq> CHR ''-'' # s" for n s using not_in_show_nat(2) [of n] by auto
  note this this [symmetric]
  then have "(i < 0) = (j < 0)" using e by (auto simp: show_int_def split: if_splits)
  moreover have "show_nat n = show_nat k \<Longrightarrow> n = k" for n k by (metis digits_value_show)
  ultimately have "nat \<bar>i\<bar> = nat \<bar>j\<bar> \<and> (i < 0) = (j < 0)"
    using e by (auto simp: show_int_def split: if_splits)
  then show "i = j" by linarith
qed simp

text \<open>Splitting a text at its first and at its last colon.\<close>

lemma first_colon:
  assumes "a @ CHR '':'' # b = a' @ CHR '':'' # b'" and "CHR '':'' \<notin> set a" and "CHR '':'' \<notin> set a'"
  shows "a = a' \<and> b = b'"
proof -
  have t: "CHR '':'' \<notin> set x \<Longrightarrow> takeWhile (\<lambda>c. c \<noteq> CHR '':'') (x @ CHR '':'' # y) = x" for x y
    by (induction x) auto
  from t [OF assms(2), of b] t [OF assms(3), of b'] assms(1) have "a = a'" by simp
  with assms(1) show ?thesis by simp
qed

lemma last_colon:
  assumes "b @ CHR '':'' # a = b' @ CHR '':'' # a'" and "CHR '':'' \<notin> set a" and "CHR '':'' \<notin> set a'"
  shows "a = a' \<and> b = b'"
proof -
  from assms(1) have "rev a @ CHR '':'' # rev b = rev a' @ CHR '':'' # rev b'"
    by (metis append.assoc append_Cons append_Nil rev.simps(2) rev_append rev_rev_ident)
  from first_colon [OF this] assms(2,3) show ?thesis by simp
qed

definition position_id_of :: "(string \<Rightarrow> string) \<Rightarrow> string \<Rightarrow> string \<Rightarrow> int \<Rightarrow> string" where
  "position_id_of uuid5 a s m = stable_id uuid5 [''position'', a, s, show_int m]"

definition open_id_of :: "(string \<Rightarrow> string) \<Rightarrow> string \<Rightarrow> string" where
  "open_id_of uuid5 p = stable_id uuid5 [''open'', p]"

definition close_id_of :: "(string \<Rightarrow> string) \<Rightarrow> string \<Rightarrow> int \<Rightarrow> string" where
  "close_id_of uuid5 p m = stable_id uuid5 [''close'', p, show_int m]"

definition colonless :: "string \<Rightarrow> bool" where
  "colonless a \<longleftrightarrow> CHR '':'' \<notin> set a"

text \<open>The ids collide only where their parts agree; that is all that is used of \<open>uuid5\<close>.\<close>

lemma position_id_inject:
  assumes "inj uuid5" and "colonless a" and "colonless a'"
  shows "position_id_of uuid5 a s m = position_id_of uuid5 a' s' m' \<longleftrightarrow> a = a' \<and> s = s' \<and> m = m'"
proof
  assume "position_id_of uuid5 a s m = position_id_of uuid5 a' s' m'"
  then have e: "a @ CHR '':'' # (s @ CHR '':'' # show_int m) = a' @ CHR '':'' # (s' @ CHR '':'' # show_int m')"
    using assms(1) by (simp add: position_id_of_def stable_id_def inj_eq)
  from first_colon [OF e] assms(2,3) have a: "a = a'" "s @ CHR '':'' # show_int m = s' @ CHR '':'' # show_int m'"
    by (simp_all add: colonless_def)
  from last_colon [OF a(2)] show "a = a' \<and> s = s' \<and> m = m'"
    using a(1) by (simp add: show_int_chars show_int_inject)
qed simp

lemma event_ids_inject:
  assumes "inj uuid5"
  shows "open_id_of uuid5 p = open_id_of uuid5 p' \<longleftrightarrow> p = p'"
    "close_id_of uuid5 p m = close_id_of uuid5 p' m' \<longleftrightarrow> p = p' \<and> m = m'"
    "open_id_of uuid5 p \<noteq> close_id_of uuid5 p' m" "close_id_of uuid5 p' m \<noteq> open_id_of uuid5 p"
proof -
  show "open_id_of uuid5 p = open_id_of uuid5 p' \<longleftrightarrow> p = p'"
    using assms by (simp add: open_id_of_def stable_id_def inj_eq)
  show "close_id_of uuid5 p m = close_id_of uuid5 p' m' \<longleftrightarrow> p = p' \<and> m = m'"
  proof
    assume "close_id_of uuid5 p m = close_id_of uuid5 p' m'"
    then have "p @ CHR '':'' # show_int m = p' @ CHR '':'' # show_int m'"
      using assms by (simp add: close_id_of_def stable_id_def inj_eq)
    from last_colon [OF this] show "p = p' \<and> m = m'" by (simp add: show_int_chars show_int_inject)
  qed simp
  show "open_id_of uuid5 p \<noteq> close_id_of uuid5 p' m" "close_id_of uuid5 p' m \<noteq> open_id_of uuid5 p"
    using assms by (simp_all add: open_id_of_def close_id_of_def stable_id_def inj_eq)
qed

section \<open>When the worker mirrors the runner\<close>

definition aware :: "isotext \<Rightarrow> bool" where
  "aware t \<longleftrightarrow> (case t of IsoText d \<Rightarrow> utcoff d \<noteq> None | NotIso s \<Rightarrow> False)"

text \<open>An entry of the runner's book and a row of the worker's table that are the same position.\<close>

definition mirrored_row :: "string \<Rightarrow> string \<times> event \<Rightarrow> position \<Rightarrow> bool" where
  "mirrored_row a entry p \<longleftrightarrow> p_alpha p = a \<and> p_symbol p = fst entry \<and>
     map_of (snd entry) ''position_id'' = Some (JStr (p_id p)) \<and>
     map_of (snd entry) ''side'' = Some (JStr (p_side p)) \<and> p_side p \<in> {''LONG'', ''SHORT''} \<and>
     (\<exists>x. map_of (snd entry) ''entry_price'' = Some (JNum (Fin x)) \<and> p_entry p = Some (Fin x)) \<and>
     (\<exists>q. map_of (snd entry) ''qty'' = Some (JNum (Fin q)) \<and> p_qty p = Some (Fin q) \<and> 0 < q) \<and>
     (\<exists>w. map_of (snd entry) ''weight'' = Some (JNum (Fin w))) \<and> aware (p_opened p)"

text \<open>All entries of all books against the whole table.\<close>

text \<open>Ids are used once: a closed position's id is the id of a trade, and an applied event has left
  its position in one of the two tables.  \<open>V\<close> are the alphas, symbols and candles used so far.\<close>

definition ids_inv :: "(string \<Rightarrow> string) \<Rightarrow> (string \<times> string \<times> int) set \<Rightarrow> db \<Rightarrow> bool" where
  "ids_inv uuid5 V d \<longleftrightarrow>
     p_id ` set (virtual_positions d) \<inter> t_id ` set (virtual_trades d) = {} \<and>
     (\<forall>k m. close_id_of uuid5 k m \<in> e_id ` set (virtual_events d) \<longrightarrow> k \<in> t_id ` set (virtual_trades d)) \<and>
     (\<forall>k. open_id_of uuid5 k \<in> e_id ` set (virtual_events d) \<longrightarrow>
        k \<in> p_id ` set (virtual_positions d) \<union> t_id ` set (virtual_trades d)) \<and>
     p_id ` set (virtual_positions d) \<union> t_id ` set (virtual_trades d)
       \<subseteq> (\<lambda>(a, s, m). position_id_of uuid5 a s m) ` V \<and>
     (\<forall>(a, s, m) \<in> V. colonless a)"

definition in_step :: "(string \<times> string \<times> event) set \<Rightarrow> db \<Rightarrow> bool" where
  "in_step E d \<longleftrightarrow> virtual_inv d \<and>
     (\<forall>(a, en) \<in> E. \<exists>p \<in> set (virtual_positions d). mirrored_row a en p) \<and>
     (\<forall>p \<in> set (virtual_positions d). \<exists>en. (p_alpha p, en) \<in> E \<and> mirrored_row (p_alpha p) en p) \<and>
     (\<forall>a s pos pos'. (a, s, pos) \<in> E \<longrightarrow> (a, s, pos') \<in> E \<longrightarrow> pos = pos')"

lemma ids_invD:
  assumes "ids_inv uuid5 V d"
  shows "p_id ` set (virtual_positions d) \<inter> t_id ` set (virtual_trades d) = {}"
    "\<forall>k m. close_id_of uuid5 k m \<in> e_id ` set (virtual_events d) \<longrightarrow> k \<in> t_id ` set (virtual_trades d)"
    "\<forall>k. open_id_of uuid5 k \<in> e_id ` set (virtual_events d) \<longrightarrow>
        k \<in> p_id ` set (virtual_positions d) \<union> t_id ` set (virtual_trades d)"
    "p_id ` set (virtual_positions d) \<union> t_id ` set (virtual_trades d)
       \<subseteq> (\<lambda>(a, s, m). position_id_of uuid5 a s m) ` V"
    "\<forall>(a, s, m) \<in> V. colonless a"
  using assms unfolding ids_inv_def by fast+

lemma ids_inv_used:
  assumes "ids_inv uuid5 V d" and "k \<in> p_id ` set (virtual_positions d) \<union> t_id ` set (virtual_trades d)"
  shows "\<exists>a s m. (a, s, m) \<in> V \<and> k = position_id_of uuid5 a s m \<and> colonless a"
proof -
  from subsetD [OF ids_invD(4) [OF assms(1)] assms(2)]
  obtain a s m where "(a, s, m) \<in> V" "k = position_id_of uuid5 a s m" by auto
  with ids_invD(5) [OF assms(1)] show ?thesis by blast
qed

text \<open>The consumer applies an event as a message of the stream.\<close>

definition consume_event :: "(string \<Rightarrow> isotext) \<Rightarrow> event \<Rightarrow> (db, ledger_result option) eff" where
  "consume_event parse e = process_virtual_trade_message TxOk parse (Payload (jdumps (JObj e)))"

lemma consume_event_apply:
  assumes "check_event e = Inr ()"
  shows "consume_event parse e d = apply_virtual_trade_event TxOk parse e d"
  using assms by (simp add: consume_event_def process_virtual_trade_message_def jdumps_def then_do_apply)

lemma not_image: "k \<notin> f ` A \<Longrightarrow> \<not> (\<exists>u \<in> A. f u = k)"
  by blast

lemma same_position: "virtual_inv d \<Longrightarrow> p \<in> set (virtual_positions d) \<Longrightarrow> p' \<in> set (virtual_positions d) \<Longrightarrow>
    p_id p = p_id p' \<Longrightarrow> p = p'"
  by (simp add: virtual_inv_def distinct_map inj_on_def)

lemma mirrored_names: "mirrored_row a en p \<Longrightarrow> a = p_alpha p \<and> fst en = p_symbol p \<and>
    map_of (snd en) ''position_id'' = Some (JStr (p_id p))"
  by (simp add: mirrored_row_def)

lemma in_stepD:
  assumes "in_step E d"
  shows "virtual_inv d" "(a, en) \<in> E \<Longrightarrow> \<exists>p \<in> set (virtual_positions d). mirrored_row a en p"
    "p \<in> set (virtual_positions d) \<Longrightarrow> \<exists>en. (p_alpha p, en) \<in> E \<and> mirrored_row (p_alpha p) en p"
    "(a, s, pos) \<in> E \<Longrightarrow> (a, s, pos') \<in> E \<Longrightarrow> pos = pos'"
  using assms unfolding in_step_def by blast+

lemma consume_event_inv: "virtual_inv d \<Longrightarrow> consume_event parse e d = (r, d') \<Longrightarrow> virtual_inv d'"
proof -
  have "keeps virtual_inv (consume_event parse e)"
    unfolding consume_event_def process_virtual_trade_message_def by (intro keeps_intros apply_event_inv) simp_all
  from keepsD [OF this, of d] show "virtual_inv d \<Longrightarrow> consume_event parse e d = (r, d') \<Longrightarrow> virtual_inv d'" by simp
qed

lemma event_checks:
  assumes "map_of e ''ledger_mode'' = Some (JStr ''virtual'')" "list_all (\<lambda>k. map_of e k \<noteq> None) required_fields"
    "map_of e ''type'' = Some (JStr ty)" "ty \<in> {''VIRTUAL_OPEN'', ''VIRTUAL_CLOSE''}"
    "map_of e ''side'' = Some (JStr sd)" "sd \<in> {''LONG'', ''SHORT''}"
    "map_of e ''price'' = Some (JNum (Fin x))" "0 < x" "map_of e ''qty'' = Some (JNum (Fin q))" "0 < q"
  shows "check_event e = Inr ()"
  using assms by (auto simp: check_event_def require_def item_def event_float_def list_all_iff)

lemma close_step:
  assumes mir: "in_step E d" and entry: "(a, s, pos) \<in> E" and ids: "ids_inv uuid5 V d" and inj: "inj uuid5"
    and x: "0 < x" and cfg: "lc_alpha cfg = a" and at: "aware (parse (rb_at rb))"
  shows "\<exists>e r d'. close_event uuid5 cfg rb s (Fin x) pos = Inr e \<and> consume_event parse e d = (Inr (Some r), d') \<and>
    in_step (E - {(a, s, pos)}) d' \<and> ids_inv uuid5 V d'"
proof -
  from in_stepD(2) [OF mir entry] obtain p where p: "p \<in> set (virtual_positions d)" "mirrored_row a (s, pos) p" by blast
  define k where "k = p_id p"
  have k: "p_id p = k" by (simp add: k_def)
  from p(2) k have pid: "map_of pos ''position_id'' = Some (JStr k)" by (simp add: mirrored_row_def)
  from p(2) obtain en q w where m: "p_alpha p = a" "p_symbol p = s" "map_of pos ''side'' = Some (JStr (p_side p))"
    "p_side p \<in> {''LONG'', ''SHORT''}" "p_entry p = Some (Fin en)" "map_of pos ''qty'' = Some (JNum (Fin q))"
    "p_qty p = Some (Fin q)" "0 < q" "map_of pos ''weight'' = Some (JNum (Fin w))" "aware (p_opened p)"
    by (auto simp: mirrored_row_def)
  have fresh: "close_id_of uuid5 k (rb_candle rb) \<notin> e_id ` set (virtual_events d)" "k \<notin> t_id ` set (virtual_trades d)"
  proof -
    have n: "k \<notin> t_id ` set (virtual_trades d)"
      using ids p(1) k unfolding ids_inv_def by (metis disjoint_iff imageI)
    then show "k \<notin> t_id ` set (virtual_trades d)" .
    have "close_id_of uuid5 k (rb_candle rb) \<in> e_id ` set (virtual_events d) \<Longrightarrow> k \<in> t_id ` set (virtual_trades d)"
      using ids by (simp only: ids_inv_def)
    with n show "close_id_of uuid5 k (rb_candle rb) \<notin> e_id ` set (virtual_events d)" by blast
  qed
  obtain e where e: "close_event uuid5 cfg rb s (Fin x) pos = Inr e"
    using pid m by (simp add: close_event_def item_def event_float_def)
  have inv: "virtual_inv d" using mir by (simp add: in_step_def)
  have f: "find (\<lambda>p. p_id p = k) (virtual_positions d) = Some p"
  proof -
    have "\<exists>p'. find (\<lambda>p. p_id p = k) (virtual_positions d) = Some p'"
      using p(1) k by (cases "find (\<lambda>p. p_id p = k) (virtual_positions d)") (auto simp: find_None_iff)
    then obtain p' where p': "find (\<lambda>p. p_id p = k) (virtual_positions d) = Some p'" by blast
    from find_SomeD [OF this] k p(1) same_position [OF inv] have "p' = p" by simp
    with p' show ?thesis by simp
  qed
  note ev = e [unfolded close_event_def, simplified item_def event_float_def pid m, simplified]
  have i: "event_str e ''event_id'' = Inr (close_id_of uuid5 k (rb_candle rb))" "event_str e ''type'' = Inr ''VIRTUAL_CLOSE''"
    "event_str e ''alpha_id'' = Inr a" "event_str e ''position_id'' = Inr k" "event_float e ''price'' = Inr (Fin x)"
    "event_str e ''timestamp'' = Inr (rb_at rb)"
    using ev cfg by (auto simp: event_str_def event_float_def item_def close_id_of_def)
  have check: "check_event e = Inr ()"
    using ev x m(4,8) by (intro event_checks [of _ "''VIRTUAL_CLOSE''" "p_side p" x q]) (auto simp: required_fields_def)
  obtain o1 where o1: "p_opened p = IsoText o1" "utcoff o1 \<noteq> None" using m(10) by (cases "p_opened p") (auto simp: aware_def)
  obtain o2 where o2: "parse (rb_at rb) = IsoText o2" "utcoff o2 \<noteq> None" using at by (cases "parse (rb_at rb)") (auto simp: aware_def)
  obtain h where h: "trade_duration_hours o1 o2 (exchange_or_binance p) = Inr h"
    using trade_duration_raises [of o1 o2 "exchange_or_binance p"] o1 o2 by auto
  have "\<exists>t pnl. virtual_trade parse e p = Inr (t, pnl) \<and> t_id t = k"
    using i h o1 o2 m k by (simp add: virtual_trade_def need_def Let_def)
  then obtain t pnl where t: "virtual_trade parse e p = Inr (t, pnl)" "t_id t = k" by blast
  let ?d = "d\<lparr>virtual_trades := virtual_trades d @ [t],
      virtual_positions := filter (\<lambda>q. p_id q \<noteq> k) (virtual_positions d),
      virtual_events := virtual_events d @ [\<lparr>e_id = close_id_of uuid5 k (rb_candle rb), e_alpha = a,
        e_type = ''VIRTUAL_CLOSE'', e_payload = JObj e\<rparr>]\<rparr>"
  note nt = not_image [OF fresh(2)] and ne = not_image [OF fresh(1)]
  have close: "virtual_close parse e d = (Inr \<lparr>lr_event = ''VIRTUAL_CLOSE'', lr_position = k, lr_pnl = Some pnl\<rparr>,
      ?d\<lparr>virtual_events := virtual_events d\<rparr>)"
    using nt by (simp add: virtual_close_def i f t k insert_virtual_trade_def then_do_apply)
  have run: "\<exists>r. consume_event parse e d = (Inr (Some r), ?d)"
    using ne by (simp add: consume_event_apply [OF check] apply_virtual_trade_event_def i transaction_def
        event_applied_def bind_def close insert_virtual_event_def then_do_apply)
  moreover have "in_step (E - {(a, s, pos)}) ?d"
  proof -
    have "virtual_inv ?d" using run consume_event_inv [OF inv] by blast
    moreover have "\<exists>p' \<in> set (virtual_positions ?d). mirrored_row b en' p'" if "(b, en') \<in> E - {(a, s, pos)}" for b en'
    proof -
      from that in_stepD(2) [OF mir] obtain p' where p': "p' \<in> set (virtual_positions d)" "mirrored_row b en' p'" by blast
      have "p_id p' \<noteq> k"
      proof
        assume "p_id p' = k"
        with same_position [OF inv p'(1) p(1)] k have "p' = p" by simp
        with mirrored_names [OF p'(2)] m(1,2) have n: "b = a" "fst en' = s" by simp_all
        with that have "(a, s, snd en') \<in> E" by (cases en') simp
        from in_stepD(4) [OF mir this entry] n that show False by (cases en') simp
      qed
      with p' show ?thesis by (intro bexI [of _ p']) simp_all
    qed
    moreover have "\<exists>en'. (p_alpha p', en') \<in> E - {(a, s, pos)} \<and> mirrored_row (p_alpha p') en' p'"
      if "p' \<in> set (virtual_positions ?d)" for p'
    proof -
      from that have "p' \<in> set (virtual_positions d)" and nk: "p_id p' \<noteq> k" by simp_all
      from in_stepD(3) [OF mir this(1)] obtain en' where
        en': "(p_alpha p', en') \<in> E" "mirrored_row (p_alpha p') en' p'" by blast
      have "en' \<noteq> (s, pos)" using mirrored_names [OF en'(2)] pid nk by (cases en') auto
      with en' have "(p_alpha p', en') \<in> E - {(a, s, pos)}" by blast
      with en' show ?thesis by blast
    qed
    moreover have "q = q'" if "(b, u, q) \<in> E - {(a, s, pos)}" "(b, u, q') \<in> E - {(a, s, pos)}" for b u q q'
      using that in_stepD(4) [OF mir] by blast
    ultimately show ?thesis unfolding in_step_def by blast
  qed
  moreover have "ids_inv uuid5 V ?d"
  proof -
    have P: "p_id ` set (virtual_positions ?d) = p_id ` set (virtual_positions d) - {k}" by auto
    have T: "t_id ` set (virtual_trades ?d) = insert k (t_id ` set (virtual_trades d))" using t(2) by simp
    have V: "e_id ` set (virtual_events ?d) = insert (close_id_of uuid5 k (rb_candle rb)) (e_id ` set (virtual_events d))"
      by simp
    have "k \<in> p_id ` set (virtual_positions d)" using p(1) k by blast
    with ids event_ids_inject [OF inj] show ?thesis unfolding ids_inv_def P T V by auto
  qed
  ultimately show ?thesis using e by blast
qed

lemma open_step:
  assumes mir: "in_step E d" and none: "\<And>pos. (a, s, pos) \<notin> E" and ids: "ids_inv uuid5 V d" and inj: "inj uuid5"
    and x: "0 < x" and q: "0 < q" and cfg: "lc_alpha cfg = a" "colonless a" and at: "aware (parse (rb_at rb))"
    and new: "(a, s, rb_candle rb) \<notin> V"
  shows "\<exists>r d'. consume_event parse (open_event uuid5 cfg rb s (Fin w) (Fin x) (Fin q)) d = (Inr (Some r), d') \<and>
    in_step (insert (a, s, new_position uuid5 cfg rb s (Fin w) (Fin x) (Fin q)) E) d' \<and>
    ids_inv uuid5 (insert (a, s, rb_candle rb) V) d'"
proof -
  let ?e = "open_event uuid5 cfg rb s (Fin w) (Fin x) (Fin q)"
  let ?n = "new_position uuid5 cfg rb s (Fin w) (Fin x) (Fin q)"
  define k where "k = position_id_of uuid5 a s (rb_candle rb)"
  define sd where "sd = (if Fin w > Fin 0 then ''LONG'' else ''SHORT'')"
  have sd: "sd \<in> {''LONG'', ''SHORT''}" by (simp add: sd_def)
  have inv: "virtual_inv d" using mir by (rule in_stepD)
  have kn: "k \<notin> p_id ` set (virtual_positions d) \<union> t_id ` set (virtual_trades d)"
  proof
    assume "k \<in> p_id ` set (virtual_positions d) \<union> t_id ` set (virtual_trades d)"
    with ids_inv_used [OF ids]
    obtain a' s' m' where v: "(a', s', m') \<in> V" "k = position_id_of uuid5 a' s' m'" "colonless a'" by blast
    with position_id_inject [OF inj cfg(2) v(3)] have "(a', s', m') = (a, s, rb_candle rb)" by (simp add: k_def)
    with v new show False by simp
  qed
  have on: "open_id_of uuid5 k \<notin> e_id ` set (virtual_events d)"
  proof -
    have "open_id_of uuid5 k \<in> e_id ` set (virtual_events d) \<Longrightarrow>
        k \<in> p_id ` set (virtual_positions d) \<union> t_id ` set (virtual_trades d)"
      using ids by (simp only: ids_inv_def)
    with kn show ?thesis by blast
  qed
  have nf: "\<not> (\<exists>u \<in> set (virtual_positions d). p_id u = k)" using not_image [of k p_id "set (virtual_positions d)"] kn by blast
  note ne = not_image [OF on]
  have fields: "map_of ?e ''ledger_mode'' = Some (JStr ''virtual'')" "list_all (\<lambda>f. map_of ?e f \<noteq> None) required_fields"
    "map_of ?e ''type'' = Some (JStr ''VIRTUAL_OPEN'')" "map_of ?e ''side'' = Some (JStr sd)"
    "map_of ?e ''price'' = Some (JNum (Fin x))" "map_of ?e ''qty'' = Some (JNum (Fin q))"
    by (simp_all add: open_event_def Let_def required_fields_def sd_def)
  have check: "check_event ?e = Inr ()"
    by (rule event_checks [OF fields(1,2,3) _ fields(4) sd fields(5) x fields(6) q]) simp
  have i: "event_str ?e ''event_id'' = Inr (open_id_of uuid5 k)" "event_str ?e ''type'' = Inr ''VIRTUAL_OPEN''"
    "event_str ?e ''alpha_id'' = Inr a"
    using cfg by (simp_all add: open_event_def Let_def event_str_def item_def k_def position_id_of_def open_id_of_def)
  obtain p where p: "virtual_open_row parse ?e = Inr p" "p_id p = k" "p_alpha p = a" "p_symbol p = s" "p_side p = sd"
    "p_entry p = Some (Fin x)" "p_qty p = Some (Fin q)" "p_opened p = parse (rb_at rb)"
    using cfg by (simp add: virtual_open_row_def open_event_def Let_def event_str_def event_float_def item_def
        k_def position_id_of_def sd_def)
  let ?d = "d\<lparr>virtual_positions := virtual_positions d @ [p],
      virtual_events := virtual_events d @ [\<lparr>e_id = open_id_of uuid5 k, e_alpha = a, e_type = ''VIRTUAL_OPEN'',
        e_payload = JObj ?e\<rparr>]\<rparr>"
  have opn: "virtual_open parse ?e d = (Inr \<lparr>lr_event = ''VIRTUAL_OPEN'', lr_position = k, lr_pnl = None\<rparr>,
      d\<lparr>virtual_positions := virtual_positions d @ [p]\<rparr>)"
    using nf p by (simp add: virtual_open_def then_do_apply)
  have run: "\<exists>r. consume_event parse ?e d = (Inr (Some r), ?d)"
    using ne by (simp add: consume_event_apply [OF check] apply_virtual_trade_event_def i transaction_def
        event_applied_def bind_def opn insert_virtual_event_def then_do_apply)
  have mp: "mirrored_row a (s, ?n) p"
    using p sd q at cfg by (simp add: mirrored_row_def new_position_def k_def position_id_of_def sd_def)
  have "in_step (insert (a, s, ?n) E) ?d"
    unfolding in_step_def
  proof (intro conjI)
    show "virtual_inv ?d" using run consume_event_inv [OF inv] by blast
    show "\<forall>(b, en) \<in> insert (a, s, ?n) E. \<exists>p \<in> set (virtual_positions ?d). mirrored_row b en p"
      using mp in_stepD(2) [OF mir] by fastforce
    show "\<forall>p' \<in> set (virtual_positions ?d). \<exists>en. (p_alpha p', en) \<in> insert (a, s, ?n) E \<and> mirrored_row (p_alpha p') en p'"
    proof
      fix p' assume "p' \<in> set (virtual_positions ?d)"
      then consider "p' = p" | "p' \<in> set (virtual_positions d)" by auto
      then show "\<exists>en. (p_alpha p', en) \<in> insert (a, s, ?n) E \<and> mirrored_row (p_alpha p') en p'"
      proof cases
        case 1
        with mp p(3) show ?thesis by blast
      next
        case 2
        from in_stepD(3) [OF mir this] show ?thesis by blast
      qed
    qed
    show "\<forall>b u pos pos'. (b, u, pos) \<in> insert (a, s, ?n) E \<longrightarrow> (b, u, pos') \<in> insert (a, s, ?n) E \<longrightarrow> pos = pos'"
      using none in_stepD(4) [OF mir] by blast
  qed
  moreover have "ids_inv uuid5 (insert (a, s, rb_candle rb) V) ?d"
  proof -
    have P: "p_id ` set (virtual_positions ?d) = insert k (p_id ` set (virtual_positions d))" using p(2) by simp
    have T: "t_id ` set (virtual_trades ?d) = t_id ` set (virtual_trades d)" by simp
    have V: "e_id ` set (virtual_events ?d) = insert (open_id_of uuid5 k) (e_id ` set (virtual_events d))" by simp
    note I = ids_invD [OF ids] and J = event_ids_inject [OF inj]
    show ?thesis unfolding ids_inv_def P T V
    proof (intro conjI)
      show "insert k (p_id ` set (virtual_positions d)) \<inter> t_id ` set (virtual_trades d) = {}" using I(1) kn by blast
      show "\<forall>k' m. close_id_of uuid5 k' m \<in> insert (open_id_of uuid5 k) (e_id ` set (virtual_events d)) \<longrightarrow>
          k' \<in> t_id ` set (virtual_trades d)" using I(2) J(4) by blast
      show "\<forall>k'. open_id_of uuid5 k' \<in> insert (open_id_of uuid5 k) (e_id ` set (virtual_events d)) \<longrightarrow>
          k' \<in> insert k (p_id ` set (virtual_positions d)) \<union> t_id ` set (virtual_trades d)" using I(3) J(1) by blast
      show "insert k (p_id ` set (virtual_positions d)) \<union> t_id ` set (virtual_trades d)
          \<subseteq> (\<lambda>(a, s, m). position_id_of uuid5 a s m) ` insert (a, s, rb_candle rb) V" using I(4) by (auto simp: k_def)
      show "\<forall>(a, s, m) \<in> insert (a, s, rb_candle rb) V. colonless a" using I(5) cfg(2) by blast
    qed
  qed
  ultimately show ?thesis using run by blast
qed

section \<open>A whole rebalance\<close>

text \<open>The worker consumes the events in the order of the stream; every one must be applied.\<close>

fun consume_all :: "(string \<Rightarrow> isotext) \<Rightarrow> event list \<Rightarrow> db \<Rightarrow> db option" where
  "consume_all parse [] d = Some d"
| "consume_all parse (e # es) d = (case consume_event parse e d of
       (Inr (Some r), d') \<Rightarrow> consume_all parse es d'
     | _ \<Rightarrow> None)"

lemma consume_all_append: "consume_all parse (es @ es') d =
    (case consume_all parse es d of None \<Rightarrow> None | Some d' \<Rightarrow> consume_all parse es' d')"
  by (induction es arbitrary: d) (auto split: prod.splits sum.splits option.splits)

definition priced :: "rebalance \<Rightarrow> string \<Rightarrow> bool" where
  "priced rb s \<longleftrightarrow> \<not> dget (rb_prices rb) s (Fin 0) \<le> Fin 0"

definition finite_prices :: "rebalance \<Rightarrow> bool" where
  "finite_prices rb \<longleftrightarrow> list_all (\<lambda>(s, x). isfinite x) (rb_prices rb)"

lemma finite_price:
  assumes "finite_prices rb"
  obtains x where "dget (rb_prices rb) s (Fin 0) = Fin x"
proof -
  have "isfinite (dget (rb_prices rb) s (Fin 0))"
    using assms by (auto simp: finite_prices_def dget_def list_all_iff dest: map_of_SomeD split: option.splits)
  with that show thesis by (cases "dget (rb_prices rb) s (Fin 0)") auto
qed

lemma closes_step:
  assumes "in_step E d" and "ids_inv uuid5 V d" and "inj uuid5" and "lc_alpha cfg = a" and "aware (parse (rb_at rb))"
    and "finite_prices rb" and "distinct (map fst ps)" and "Pair a ` set ps \<subseteq> E"
  shows "\<exists>es d'. close_book uuid5 cfg rb ps = Inr (es, filter (\<lambda>en. \<not> priced rb (fst en)) ps) \<and>
    consume_all parse es d = Some d' \<and>
    in_step (E - Pair a ` set (filter (\<lambda>en. priced rb (fst en)) ps)) d' \<and> ids_inv uuid5 V d'"
  using assms(1,2,7,8)
proof (induction ps arbitrary: E d)
  case Nil
  then show ?case by simp
next
  case (Cons en ps)
  obtain s pos where en: "en = (s, pos)" by (cases en)
  obtain x where x: "dget (rb_prices rb) s (Fin 0) = Fin x" using finite_price [OF assms(6)] .
  show ?case
  proof (cases "0 < x")
    case False
    from Cons.IH [OF Cons.prems(1,2)] Cons.prems(3,4) False x en show ?thesis
      by (auto simp: priced_def)
  next
    case True
    from Cons.prems(4) en have "(a, s, pos) \<in> E" by simp
    from close_step [where cfg = cfg and rb = rb and parse = parse and E = E and a = a and s = s and pos = pos,
        OF Cons.prems(1) this Cons.prems(2) assms(3) True assms(4,5)]
    obtain e r d1 where 1: "close_event uuid5 cfg rb s (Fin x) pos = Inr e" "consume_event parse e d = (Inr (Some r), d1)"
      "in_step (E - {(a, s, pos)}) d1" "ids_inv uuid5 V d1" by blast
    have "Pair a ` set ps \<subseteq> E - {(a, s, pos)}" "distinct (map fst ps)" using Cons.prems(3,4) en by (auto simp: image_iff)
    from Cons.IH [OF 1(3,4) this(2,1)] obtain es d' where
      2: "close_book uuid5 cfg rb ps = Inr (es, filter (\<lambda>en. \<not> priced rb (fst en)) ps)" "consume_all parse es d1 = Some d'"
      "in_step (E - {(a, s, pos)} - Pair a ` set (filter (\<lambda>en. priced rb (fst en)) ps)) d'" "ids_inv uuid5 V d'" by blast
    have "E - {(a, s, pos)} - Pair a ` set (filter (\<lambda>en. priced rb (fst en)) ps)
        = E - Pair a ` set (filter (\<lambda>en. priced rb (fst en)) (en # ps))"
      using True x en by (auto simp: priced_def)
    with 1 2 x True en show ?thesis by (simp add: priced_def)
  qed
qed

lemma opens_step:
  assumes "in_step E d" and "ids_inv uuid5 V d" and "inj uuid5" and "lc_alpha cfg = a" "colonless a"
    and "aware (parse (rb_at rb))" and "finite_prices rb" and "lc_capital cfg = Fin c" "0 < c"
    and "list_all (\<lambda>(s, w). isfinite w) ws" and "distinct (map fst ws)"
    and "{en. (a, en) \<in> E} = set held" and "distinct (keys held)"
    and "\<And>s. s \<in> set (map fst ws) \<Longrightarrow> s \<notin> set (keys held) \<Longrightarrow> (a, s, rb_candle rb) \<notin> V"
  shows "\<exists>es book d' V'. open_book uuid5 cfg rb ws held = Inr (es, book) \<and> consume_all parse es d = Some d' \<and>
    in_step ({x \<in> E. fst x \<noteq> a} \<union> Pair a ` set book) d' \<and> ids_inv uuid5 V' d' \<and>
    V' \<subseteq> V \<union> (\<lambda>s. (a, s, rb_candle rb)) ` fst ` set ws \<and> distinct (keys book)"
  using assms(1,2,10-)
proof (induction ws arbitrary: E d V held)
  case Nil
  have "{x \<in> E. fst x \<noteq> a} \<union> Pair a ` set held = E" using Nil.prems(5) by force
  with Nil.prems show ?case
    by (intro exI [of _ "[]"] exI [of _ held] exI [of _ d] exI [of _ V] conjI) simp_all
next
  case (Cons en ws)
  obtain s w0 where en: "en = (s, w0)" by (cases en)
  obtain w where w: "w0 = Fin w" using Cons.prems(3) en by (cases w0) auto
  obtain x where x: "dget (rb_prices rb) s (Fin 0) = Fin x" using finite_price [OF assms(7)] .
  show ?case
  proof (cases "skip_open rb held s w0")
    case True
    have "\<exists>es book d' V'. open_book uuid5 cfg rb ws held = Inr (es, book) \<and> consume_all parse es d = Some d' \<and>
        in_step ({x \<in> E. fst x \<noteq> a} \<union> Pair a ` set book) d' \<and> ids_inv uuid5 V' d' \<and>
        V' \<subseteq> V \<union> (\<lambda>s. (a, s, rb_candle rb)) ` fst ` set ws \<and> distinct (keys book)"
      using Cons.prems by (intro Cons.IH) auto
    then obtain es book d' V' where 1: "open_book uuid5 cfg rb ws held = Inr (es, book)" "consume_all parse es d = Some d'"
      "in_step ({x \<in> E. fst x \<noteq> a} \<union> Pair a ` set book) d'" "ids_inv uuid5 V' d'"
      "V' \<subseteq> V \<union> (\<lambda>s. (a, s, rb_candle rb)) ` fst ` set ws" "distinct (keys book)" by blast
    from 1(5) have "V' \<subseteq> V \<union> (\<lambda>s. (a, s, rb_candle rb)) ` fst ` set (en # ws)" by auto
    with 1 True en show ?thesis
      by (intro exI [of _ es] exI [of _ book] exI [of _ d'] exI [of _ V'] conjI) simp_all
  next
    case False
    then have f: "w \<noteq> 0" "0 < x" "s \<notin> set (keys held)" using x w by (auto simp: skip_open_def)
    define q where "q = c * \<bar>w\<bar> / x"
    have q: "fdiv (lc_capital cfg * fabs w0) (Fin x) = Inr (Fin q)" "0 < q"
      using f assms(8,9) w by (simp_all add: q_def fdiv_def)
    have none: "(a, s, pos) \<notin> E" for pos
    proof
      assume "(a, s, pos) \<in> E"
      with Cons.prems(5) have "(s, pos) \<in> set held" by blast
      with f(3) show False by (auto simp: keys_def image_iff)
    qed
    have new: "(a, s, rb_candle rb) \<notin> V" using Cons.prems(7) [of s] f(3) en by simp
    let ?n = "new_position uuid5 cfg rb s (Fin w) (Fin x) (Fin q)"
    from open_step [where cfg = cfg and rb = rb and w = w and parse = parse and E = E and a = a and s = s and V = V, OF Cons.prems(1) none Cons.prems(2) assms(3) f(2) q(2) assms(4,5,6) new]
    obtain r d1 where 1: "consume_event parse (open_event uuid5 cfg rb s (Fin w) (Fin x) (Fin q)) d = (Inr (Some r), d1)"
      "in_step (insert (a, s, ?n) E) d1" "ids_inv uuid5 (insert (a, s, rb_candle rb) V) d1" by blast
    have nx: "dset s ?n held = held @ [(s, ?n)]" using f(3) by (rule dset_fresh)
    have "\<exists>es book d' V'. open_book uuid5 cfg rb ws (dset s ?n held) = Inr (es, book) \<and> consume_all parse es d1 = Some d' \<and>
        in_step ({x \<in> insert (a, s, ?n) E. fst x \<noteq> a} \<union> Pair a ` set book) d' \<and> ids_inv uuid5 V' d' \<and>
        V' \<subseteq> insert (a, s, rb_candle rb) V \<union> (\<lambda>s. (a, s, rb_candle rb)) ` fst ` set ws \<and> distinct (keys book)"
    proof (rule Cons.IH [OF 1(2,3)])
      show "list_all (\<lambda>(s, w). isfinite w) ws" "distinct (map fst ws)" using Cons.prems(3,4) by simp_all
      show "{en. (a, en) \<in> insert (a, s, ?n) E} = set (dset s ?n held)" using Cons.prems(5) nx by auto
      show "distinct (keys (dset s ?n held))" using Cons.prems(6) f(3) nx by (simp add: keys_def)
      show "(a, t, rb_candle rb) \<notin> insert (a, s, rb_candle rb) V"
        if "t \<in> set (map fst ws)" "t \<notin> set (keys (dset s ?n held))" for t
        using that Cons.prems(4) Cons.prems(7) [of t] en nx by (auto simp: keys_def)
    qed
    then obtain es book d' V' where 2: "open_book uuid5 cfg rb ws (dset s ?n held) = Inr (es, book)"
      "consume_all parse es d1 = Some d'" "in_step ({x \<in> insert (a, s, ?n) E. fst x \<noteq> a} \<union> Pair a ` set book) d'"
      "ids_inv uuid5 V' d'" "distinct (keys book)"
      "V' \<subseteq> insert (a, s, rb_candle rb) V \<union> (\<lambda>s. (a, s, rb_candle rb)) ` fst ` set ws" by blast
    have "{x \<in> insert (a, s, ?n) E. fst x \<noteq> a} = {x \<in> E. fst x \<noteq> a}" by auto
    with 1 2 False en w x q show ?thesis by auto
  qed
qed

definition sound_rebalance :: "(string \<Rightarrow> isotext) \<Rightarrow> rebalance \<Rightarrow> bool" where
  "sound_rebalance parse rb \<longleftrightarrow> finite_prices rb \<and> list_all (\<lambda>(s, w). isfinite w) (rb_weights rb) \<and>
     distinct (keys (rb_weights rb)) \<and> aware (parse (rb_at rb))"

definition sound_cfg :: "ledger_cfg \<Rightarrow> bool" where
  "sound_cfg cfg \<longleftrightarrow> colonless (lc_alpha cfg) \<and> isfinite (lc_capital cfg) \<and> Fin 0 < lc_capital cfg"

lemma rebalance_step:
  assumes mir: "in_step E d" and ids: "ids_inv uuid5 V d" and inj: "inj uuid5" and cfg: "sound_cfg cfg" "lc_alpha cfg = a"
    and rb: "sound_rebalance parse rb" and held: "{en. (a, en) \<in> E} = set held" "distinct (keys held)"
    and new: "\<And>s. (a, s, rb_candle rb) \<notin> V"
  shows "\<exists>es book d' V'. rebalance_plan uuid5 cfg rb held = Inr (es, book) \<and> consume_all parse es d = Some d' \<and>
    in_step ({x \<in> E. fst x \<noteq> a} \<union> Pair a ` set book) d' \<and> ids_inv uuid5 V' d' \<and>
    V' \<subseteq> V \<union> range (\<lambda>s. (a, s, rb_candle rb)) \<and> distinct (keys book)"
proof -
  obtain c where c: "lc_capital cfg = Fin c" "0 < c" using cfg by (cases "lc_capital cfg") (auto simp: sound_cfg_def)
  have col: "colonless a" using cfg by (simp add: sound_cfg_def)
  have fin: "finite_prices rb" "list_all (\<lambda>(s, w). isfinite w) (sort_key fst (rb_weights rb))"
    "distinct (map fst (sort_key fst (rb_weights rb)))" "aware (parse (rb_at rb))"
    using rb by (simp_all add: sound_rebalance_def list_all_iff keys_def distinct_map)
  let ?ps = "sort_key fst held"
  let ?kept = "filter (\<lambda>en. \<not> priced rb (fst en)) ?ps"
  have "Pair a ` set ?ps \<subseteq> E" using held(1) by auto
  moreover have "distinct (map fst ?ps)" using held(2) by (simp add: keys_def distinct_map)
  ultimately obtain es d1 where 1: "close_book uuid5 cfg rb ?ps = Inr (es, ?kept)" "consume_all parse es d = Some d1"
    "in_step (E - Pair a ` set (filter (\<lambda>en. priced rb (fst en)) ?ps)) d1" "ids_inv uuid5 V d1"
    using closes_step [where ps = ?ps and E = E and a = a and parse = parse and d = d and V = V, OF mir ids inj cfg(2) fin(4,1)]
    by blast
  let ?E1 = "E - Pair a ` set (filter (\<lambda>en. priced rb (fst en)) ?ps)"
  have "{en. (a, en) \<in> ?E1} = set ?kept" using held(1) by auto
  moreover have "distinct (keys ?kept)" using held(2) by (simp add: keys_def distinct_map inj_on_def)
  ultimately obtain es' book d' V' where 2: "open_book uuid5 cfg rb (sort_key fst (rb_weights rb)) ?kept = Inr (es', book)"
    "consume_all parse es' d1 = Some d'" "in_step ({x \<in> ?E1. fst x \<noteq> a} \<union> Pair a ` set book) d'" "ids_inv uuid5 V' d'"
    "V' \<subseteq> V \<union> (\<lambda>s. (a, s, rb_candle rb)) ` fst ` set (sort_key fst (rb_weights rb))" "distinct (keys book)"
    using opens_step [where ws = "sort_key fst (rb_weights rb)" and held = ?kept and E = ?E1 and V = V and a = a and parse = parse,
        OF 1(3,4) inj cfg(2) col fin(4,1) c fin(2,3)] new by blast
  have "{x \<in> ?E1. fst x \<noteq> a} = {x \<in> E. fst x \<noteq> a}" by auto
  with 1 2 show ?thesis by (auto simp: rebalance_plan_def consume_all_append intro!: exI [of _ V'])
qed

section \<open>The run of several alphas on one stream\<close>

text \<open>
  Each alpha has its publisher and all of them write the one stream; every pipeline is executed.
\<close>

fun shadow_run ::
  "(string \<Rightarrow> string) \<Rightarrow> (string \<Rightarrow> ledger_cfg) \<Rightarrow> (string \<times> rebalance) list
     \<Rightarrow> (string \<Rightarrow> book) \<times> event list \<Rightarrow> ((string \<Rightarrow> book) \<times> event list) res" where
  "shadow_run uuid5 cfg [] s = Inr s"
| "shadow_run uuid5 cfg ((a, rb) # rbs) (books, stream) =
     (case rebalance_ledger uuid5 (cfg a) Executed rb
             \<lparr>pb_positions = books a, pb_stored = None, pb_stream = stream\<rparr> of
        (Inl e, p) \<Rightarrow> Inl e
      | (Inr _, p) \<Rightarrow> shadow_run uuid5 cfg rbs (books(a := pb_positions p), pb_stream p))"

text \<open>The entries of all books.\<close>

definition entries :: "(string \<Rightarrow> book) \<Rightarrow> (string \<times> string \<times> event) set" where
  "entries books = {(a, en). en \<in> set (books a)}"

lemma entries_upd: "{x \<in> entries books. fst x \<noteq> a} \<union> Pair a ` set b = entries (books(a := b))"
  by (auto simp: entries_def split: if_splits)

lemma shadow_run_step:
  assumes "inj uuid5" and "\<And>a. a \<in> fst ` set rbs \<Longrightarrow> sound_cfg (cfg a) \<and> lc_alpha (cfg a) = a"
    and "\<And>a rb. (a, rb) \<in> set rbs \<Longrightarrow> sound_rebalance parse rb"
    and "distinct (map (\<lambda>(a, rb). (a, rb_candle rb)) rbs)"
    and "consume_all parse stream d0 = Some d" "in_step (entries books) d" "ids_inv uuid5 V d" "\<And>a. distinct (keys (books a))"
    and "\<And>a rb s. (a, rb) \<in> set rbs \<Longrightarrow> (a, s, rb_candle rb) \<notin> V"
  shows "\<exists>books' stream' d'. shadow_run uuid5 cfg rbs (books, stream) = Inr (books', stream') \<and>
    consume_all parse stream' d0 = Some d' \<and> in_step (entries books') d'"
  using assms(2-)
proof (induction rbs arbitrary: books stream d V)
  case Nil
  then show ?case by auto
next
  case (Cons x rbs)
  obtain a rb where x: "x = (a, rb)" by (cases x)
  have cfg: "sound_cfg (cfg a)" "lc_alpha (cfg a) = a" and rb: "sound_rebalance parse rb"
    using Cons.prems(1) [of a] Cons.prems(2) [of a rb] x by auto
  have held: "{en. (a, en) \<in> entries books} = set (books a)" by (simp add: entries_def)
  have new: "(a, s, rb_candle rb) \<notin> V" for s using Cons.prems(8) [of a rb] x by simp
  from rebalance_step [where E = "entries books" and V = V, OF Cons.prems(5,6) assms(1) cfg rb held Cons.prems(7) new]
  obtain es book d1 V' where 1: "rebalance_plan uuid5 (cfg a) rb (books a) = Inr (es, book)" "consume_all parse es d = Some d1"
    "in_step (entries (books(a := book))) d1" "ids_inv uuid5 V' d1"
    "V' \<subseteq> V \<union> range (\<lambda>s. (a, s, rb_candle rb))" "distinct (keys book)"
    unfolding entries_upd by blast
  have "\<exists>books' stream' d'. shadow_run uuid5 cfg rbs (books(a := book), stream @ es) = Inr (books', stream') \<and>
      consume_all parse stream' d0 = Some d' \<and> in_step (entries books') d'"
  proof (rule Cons.IH [OF _ _ _ _ 1(3,4)])
    show "consume_all parse (stream @ es) d0 = Some d1" using Cons.prems(4) 1(2) by (simp add: consume_all_append)
    show "distinct (keys ((books(a := book)) b))" for b using Cons.prems(7) [of b] 1(6) by simp
    show "(b, u, rb_candle rb') \<notin> V'" if "(b, rb') \<in> set rbs" for b rb' u
    proof
      assume "(b, u, rb_candle rb') \<in> V'"
      with 1(5) consider "(b, u, rb_candle rb') \<in> V" | "(b, rb_candle rb') = (a, rb_candle rb)" by auto
      then show False
      proof cases
        case 1
        with Cons.prems(8) [of b rb' u] that show False by simp
      next
        case 2
        from that have "(b, rb_candle rb') \<in> set (map (\<lambda>(a, rb). (a, rb_candle rb)) rbs)" by force
        with 2 Cons.prems(3) x show False by simp
      qed
    qed
  qed (use Cons.prems x in auto)
  with 1(1) x show ?case by (simp add: rebalance_ledger_def Let_def)
qed

section \<open>Deliveries\<close>

text \<open>What the tables hold when the consumer has taken the messages, raised on or not.\<close>

definition deliver :: "(string \<Rightarrow> isotext) \<Rightarrow> event list \<Rightarrow> db \<Rightarrow> db" where
  "deliver parse es d = fold (\<lambda>e d. snd (consume_event parse e d)) es d"

lemma deliver_append: "deliver parse (es @ es') d = deliver parse es' (deliver parse es d)"
  by (simp add: deliver_def)

lemma consume_all_deliver: "consume_all parse es d = Some d' \<Longrightarrow> deliver parse es d = d'"
  by (induction es arbitrary: d) (auto simp: deliver_def split: prod.splits sum.splits option.splits)

text \<open>An event that is on record is a no-op.\<close>

definition on_record :: "event \<Rightarrow> db \<Rightarrow> bool" where
  "on_record e d \<longleftrightarrow> check_event e = Inr () \<and> (\<exists>k. event_str e ''event_id'' = Inr k \<and> event_applied d k)"

lemma on_record_noop:
  assumes "on_record e d"
  shows "snd (consume_event parse e d) = d"
  using assms apply_event_again by (auto simp: on_record_def consume_event_apply)

lemma consume_check:
  assumes "consume_event parse e d = (Inr r, d')"
  shows "check_event e = Inr ()"
  using assms by (auto simp: consume_event_def process_virtual_trade_message_def jdumps_def then_do_def bind_def
      lift_res_def split: sum.splits prod.splits)

lemma consume_event_records:
  assumes "consume_event parse e d = (Inr r, d')"
  shows "on_record e d'"
proof -
  note c = consume_check [OF assms]
  with assms have a: "apply_virtual_trade_event TxOk parse e d = (Inr r, d')" by (simp add: consume_event_apply)
  then obtain k where k: "event_str e ''event_id'' = Inr k"
    by (auto simp: apply_virtual_trade_event_def bind_def lift_res_def split: sum.splits)
  with c apply_event_returns(1) [OF a k] show ?thesis by (simp add: on_record_def)
qed

lemma consume_event_keeps_record:
  assumes "on_record f d" and "consume_event parse e d = (Inr r, d')"
  shows "on_record f d'"
proof -
  have o: "virtual_events (snd (virtual_open parse e s)) = virtual_events s"
    "virtual_events (snd (virtual_close parse e s)) = virtual_events s" for s
    by (rule virtual_ops_events [OF surjective_pairing])+
  have "keeps (\<lambda>d. event_applied d k) (apply_virtual_trade_event TxOk parse e)" for k
    unfolding apply_virtual_trade_event_def
    by (intro keeps_intros keeps_transaction keeps_if)
      (auto simp: keeps_def event_applied_def insert_virtual_event_def o split: prod.splits)
  then have keep: "event_applied d k \<Longrightarrow> event_applied (snd (apply_virtual_trade_event TxOk parse e d)) k" for k
    by (rule keepsD)
  have "apply_virtual_trade_event TxOk parse e d = (Inr r, d')"
    using assms(2) consume_check [OF assms(2)] by (simp add: consume_event_apply)
  with keep assms(1) show ?thesis by (auto simp: on_record_def)
qed

lemma consume_all_records:
  assumes "consume_all parse es d = Some d'" and "on_record f d \<or> f \<in> set es"
  shows "on_record f d'"
  using assms
proof (induction es arbitrary: d)
  case (Cons e es)
  from Cons.prems(1) obtain r d1 where 1: "consume_event parse e d = (Inr (Some r), d1)" "consume_all parse es d1 = Some d'"
    by (auto split: prod.splits sum.splits option.splits)
  have "on_record f d1 \<or> f \<in> set es"
    using Cons.prems(2) consume_event_records [OF 1(1)] consume_event_keeps_record [OF _ 1(1), of f] by auto
  with Cons.IH [OF 1(2)] show ?case by blast
qed simp

lemma deliver_again: "(\<And>e. e \<in> set es \<Longrightarrow> on_record e d) \<Longrightarrow> deliver parse es d = d"
  by (induction es) (auto simp: deliver_def on_record_noop)

lemma empty_in_step: "in_step {} empty_db" "ids_inv uuid5 {} empty_db"
  by (simp_all add: in_step_def ids_inv_def virtual_inv_def empty_db_def)

text \<open>Only symbols with a price are opened.\<close>

lemma open_book_priced:
  assumes "open_book uuid5 cfg rb ws held = Inr (es, bk)" and "\<forall>en \<in> set held. priced rb (fst en)"
  shows "\<forall>en \<in> set bk. priced rb (fst en)"
  using assms
proof (induction ws arbitrary: held es)
  case (Cons en ws)
  obtain s w where en: "en = (s, w)" by (cases en)
  show ?case
  proof (cases "skip_open rb held s w")
    case True
    with Cons en show ?thesis by simp
  next
    case False
    then have "priced rb s" and new: "s \<notin> set (keys held)" by (simp_all add: skip_open_def priced_def)
    then have "\<forall>en \<in> set (dset s n held). priced rb (fst en)" for n using Cons.prems(2) by (simp add: dset_fresh)
    moreover obtain n es' where "open_book uuid5 cfg rb ws (dset s n held) = Inr (es', bk)"
      using Cons.prems(1) False en by (auto simp: Let_def res_bind_Inr_iff split: prod.splits)
    ultimately show ?thesis using Cons.IH by blast
  qed
qed simp

text \<open>A second rebalance at the candle of the first, from an empty ledger.\<close>

lemma same_candle_twice:
  assumes "inj uuid5" and cfg: "sound_cfg cfg" "lc_alpha cfg = a" and rb: "sound_rebalance parse rb"
  shows "\<exists>es bk cs d1. rebalance_plan uuid5 cfg rb [] = Inr (es, bk) \<and> consume_all parse es empty_db = Some d1 \<and>
    in_step (Pair a ` set bk) d1 \<and> rebalance_plan uuid5 cfg rb bk = Inr (cs @ es, bk) \<and>
    virtual_positions (deliver parse (es @ cs @ es) empty_db) = []"
proof -
  from rebalance_step [where E = "{}" and V = "{}" and held = "[]" and ?uuid5.0 = uuid5, OF empty_in_step assms]
  obtain es bk d1 V where 1: "rebalance_plan uuid5 cfg rb [] = Inr (es, bk)" "consume_all parse es empty_db = Some d1"
    "in_step (Pair a ` set bk) d1" "ids_inv uuid5 V d1" "dict_ok bk"
    by (auto simp: keys_def)
  from 1(1) have opn: "open_book uuid5 cfg rb (sort_key fst (rb_weights rb)) [] = Inr (es, bk)"
    by (auto simp: rebalance_plan_def res_bind_Inr_iff)
  then have pr: "\<forall>en \<in> set bk. priced rb (fst en)" by (rule open_book_priced) simp
  have rb': "aware (parse (rb_at rb))" "finite_prices rb" using rb by (simp_all add: sound_rebalance_def)
  have kept: "filter (\<lambda>en. \<not> priced rb (fst en)) (sort_key fst bk) = []"
    "filter (\<lambda>en. priced rb (fst en)) (sort_key fst bk) = sort_key fst bk"
    using pr by (simp_all add: filter_empty_conv)
  from closes_step [where ps = "sort_key fst bk" and a = a and E = "Pair a ` set bk" and cfg = cfg and rb = rb
        and parse = parse and d = d1, OF 1(3,4) assms(1) cfg(2) rb'] 1(5) kept
  obtain cs d2 where 2: "close_book uuid5 cfg rb (sort_key fst bk) = Inr (cs, [])" "consume_all parse cs d1 = Some d2"
    "in_step {} d2" by (auto simp: distinct_map)
  have "rebalance_plan uuid5 cfg rb bk = Inr (cs @ es, bk)" using 2(1) opn by (simp add: rebalance_plan_def)
  moreover have "deliver parse (es @ cs @ es) empty_db = d2"
  proof -
    have all: "consume_all parse (es @ cs) empty_db = Some d2" using 1(2) 2(2) by (simp add: consume_all_append)
    then have "deliver parse es d2 = d2" by (intro deliver_again consume_all_records [OF all]) simp
    with all show ?thesis using consume_all_deliver [OF all] by (simp add: deliver_append)
  qed
  moreover have "virtual_positions d2 = []" using in_stepD(3) [OF 2(3)] by (cases "virtual_positions d2") auto
  ultimately show ?thesis using 1(1-3) by blast
qed

text \<open>A publisher that starts on what the last rebalance has stored.\<close>

lemma restart_restores:
  "start_publisher uuid5 cfg (Inr (Some (jdumps (book_json bk)))) target out p = p\<lparr>pb_positions := bk\<rparr>"
proof -
  have "concat (map (\<lambda>(smb, v). case v of JObj pos \<Rightarrow> [(smb, pos)] | _ \<Rightarrow> []) (map (\<lambda>(smb, pos). (smb, JObj pos)) b)) = b"
    for b :: book by (induction b) auto
  then show ?thesis by (simp add: start_publisher_def load_book_def book_json_def or_empty_obj_def jdumps_def)
qed

end
