(* ===== verification/ShadowProperties.thy ===== *)
theory ShadowProperties
  imports ShadowMirror Examples
begin

text \<open>
  The properties of the runner's virtual ledger, from its publisher to the tables of the worker.
\<close>

section \<open>A small stream\<close>

definition demo_ledger :: "string \<Rightarrow> ledger_cfg" where
  "demo_ledger a = \<lparr>lc_alpha = a, lc_capital = Fin 1000, lc_exchange = ''binance''\<rparr>"

definition demo_clock :: "string \<Rightarrow> isotext" where
  "demo_clock t = IsoText \<lparr>wall = 0, utcoff = Some 0\<rparr>"

definition demo_rebalance :: "int \<Rightarrow> rebalance" where
  "demo_rebalance m = \<lparr>rb_weights = [(''x'', Fin (1 / 2))], rb_prices = [(''x'', Fin 10)],
     rb_candle = m, rb_tf = ''1h'', rb_metadata = [], rb_at = ''t'', rb_reason = ''VIRTUAL_REBALANCE''\<rparr>"

definition demo_publisher :: publisher where
  "demo_publisher = \<lparr>pb_positions = [], pb_stored = None, pb_stream = []\<rparr>"

lemma demo_sound: "sound_rebalance demo_clock (demo_rebalance m)" "sound_cfg (demo_ledger ''a'')"
  by (simp_all add: sound_rebalance_def demo_rebalance_def finite_prices_def aware_def demo_clock_def keys_def
      sound_cfg_def demo_ledger_def colonless_def)

section \<open>The properties\<close>

text \<open>
  C9. Refinement across the two programs.  Several alphas publish any number of rebalances on the
  one stream, in any interleaving, each alpha at most once per candle, with finite weights and
  prices (missing and non-positive ones included), a positive capital and time zones in the
  timestamps; the ids of \<open>uuid5\<close> do not collide.  Then no publisher raises, the worker applies
  every event of the stream without an error, and its virtual positions are exactly the positions
  of the publishers' books.
\<close>

theorem shadow_books_mirrored:
  assumes "inj uuid5" and "list_all (\<lambda>(a, rb). sound_cfg (cfg a) \<and> lc_alpha (cfg a) = a \<and> sound_rebalance parse rb) rbs"
    and "distinct (map (\<lambda>(a, rb). (a, rb_candle rb)) rbs)"
  shows "\<exists>books stream d. shadow_run uuid5 cfg rbs (\<lambda>a. [], []) = Inr (books, stream) \<and>
    consume_all parse stream empty_db = Some d \<and> in_step (entries books) d"
  by (rule shadow_run_step [where V = "{}" and d = empty_db])
    (use assms empty_in_step in \<open>auto simp: list_all_iff entries_def keys_def\<close>)

theorem shadow_books_mirrored_witness:
  "\<exists>books stream d. shadow_run (\<lambda>s. s) demo_ledger [(''a'', demo_rebalance 1), (''b'', demo_rebalance 1),
      (''a'', demo_rebalance 2)] (\<lambda>a. [], []) = Inr (books, stream) \<and>
    consume_all demo_clock stream empty_db = Some d \<and> in_step (entries books) d"
  by (rule shadow_books_mirrored)
    (simp_all add: demo_sound sound_cfg_def demo_ledger_def colonless_def demo_rebalance_def [THEN arg_cong [of _ _ rb_candle]])

text \<open>
  A retry is idempotent.  When the transaction is executed but its answer is lost, \<open>rebalance\<close>
  raises; trying the same rebalance again sends the same events a second time, the worker skips
  all of them, and the publisher has the book it would have had.
\<close>

theorem shadow_retry_is_idempotent:
  assumes "rebalance_plan uuid5 cfg rb (pb_positions s) = Inr (es, bk)"
    and "consume_all parse (pb_stream s @ es) empty_db = Some d"
    and "rebalance_ledger uuid5 cfg AnswerLost rb s = (r1, s1)" and "rebalance_ledger uuid5 cfg Executed rb s1 = (r2, s2)"
  shows "r1 = Inl RedisError \<and> r2 = Inr () \<and> pb_stream s2 = pb_stream s @ es @ es \<and>
    deliver parse (pb_stream s2) empty_db = d \<and> pb_positions s2 = bk"
proof -
  have "on_record e d" if "e \<in> set es" for e using consume_all_records [OF assms(2), of e] that by simp
  then have "deliver parse es (deliver parse (pb_stream s @ es) empty_db) = d"
    using consume_all_deliver [OF assms(2)] deliver_again by simp
  with assms show ?thesis by (auto simp: rebalance_ledger_def Let_def deliver_append)
qed

text \<open>
  A publisher that starts on the state its last executed rebalance has stored has the book
  of that rebalance, and sends nothing.
\<close>

theorem shadow_restart_restores:
  assumes "rebalance_ledger uuid5 cfg Executed rb s = (Inr (), s')"
  shows "start_publisher uuid5 cfg (Inr (pb_stored s')) target out (s'\<lparr>pb_positions := []\<rparr>) = s'"
  using assms restart_restores
  by (auto simp: rebalance_ledger_def Let_def split: sum.splits prod.splits)

section \<open>Where the two ledgers part\<close>

lemma demo_plan_empty: "rebalance_plan (\<lambda>s. s) (demo_ledger ''a'') (demo_rebalance 1) [] =
    Inr ([open_event (\<lambda>s. s) (demo_ledger ''a'') (demo_rebalance 1) ''x'' (Fin (1 / 2)) (Fin 10) (Fin 50)],
      [(''x'', new_position (\<lambda>s. s) (demo_ledger ''a'') (demo_rebalance 1) ''x'' (Fin (1 / 2)) (Fin 10) (Fin 50))])"
  by (simp add: rebalance_plan_def skip_open_def fdiv_def keys_def Let_def dget_def)
    (simp add: demo_rebalance_def demo_ledger_def skip_open_def fdiv_def keys_def Let_def dget_def)

theorem shadow_retry_is_idempotent_witness:
  "deliver demo_clock (pb_stream (snd (rebalance_ledger (\<lambda>s. s) (demo_ledger ''a'') Executed (demo_rebalance 1)
      (snd (rebalance_ledger (\<lambda>s. s) (demo_ledger ''a'') AnswerLost (demo_rebalance 1) demo_publisher))))) empty_db
    \<noteq> empty_db"
proof -
  let ?e = "open_event (\<lambda>s. s) (demo_ledger ''a'') (demo_rebalance 1) ''x'' (Fin (1 / 2)) (Fin 10) (Fin 50)"
  have "lc_alpha (demo_ledger ''a'') = ''a''" "aware (demo_clock (rb_at (demo_rebalance 1)))"
    by (simp_all add: demo_ledger_def aware_def demo_clock_def)
  from open_step [where ?uuid5.0 = "\<lambda>s. s" and parse = demo_clock and rb = "demo_rebalance 1" and s = "''x''" and w = "1 / 2"
      and x = 10 and q = 50, OF empty_in_step(1) _ empty_in_step(2) _ _ _ this(1) _ this(2)]
  obtain r d where 1: "consume_event demo_clock ?e empty_db = (Inr (Some r), d)"
    "in_step {(''a'', ''x'', new_position (\<lambda>s. s) (demo_ledger ''a'') (demo_rebalance 1) ''x'' (Fin (1 / 2)) (Fin 10) (Fin 50))} d"
    by (auto simp: colonless_def inj_def)
  then have "consume_all demo_clock (pb_stream demo_publisher @ [?e]) empty_db = Some d" by (simp add: demo_publisher_def)
  moreover have "rebalance_plan (\<lambda>s. s) (demo_ledger ''a'') (demo_rebalance 1) (pb_positions demo_publisher) = Inr ([?e],
      [(''x'', new_position (\<lambda>s. s) (demo_ledger ''a'') (demo_rebalance 1) ''x'' (Fin (1 / 2)) (Fin 10) (Fin 50))])"
    by (simp add: demo_publisher_def demo_plan_empty)
  ultimately have "deliver demo_clock (pb_stream (snd (rebalance_ledger (\<lambda>s. s) (demo_ledger ''a'') Executed (demo_rebalance 1)
      (snd (rebalance_ledger (\<lambda>s. s) (demo_ledger ''a'') AnswerLost (demo_rebalance 1) demo_publisher))))) empty_db = d"
    using shadow_retry_is_idempotent [where s = demo_publisher, OF _ _ prod.collapse [symmetric] prod.collapse [symmetric]]
    by blast
  moreover have "d \<noteq> empty_db"
    using in_stepD(2) [OF 1(2), of "''a''" "(''x'', new_position (\<lambda>s. s) (demo_ledger ''a'') (demo_rebalance 1) ''x'' (Fin (1 / 2)) (Fin 10) (Fin 50))"]
    by (auto simp: empty_db_def)
  ultimately show ?thesis by simp
qed

theorem shadow_restart_restores_witness:
  "let s' = snd (rebalance_ledger (\<lambda>s. s) (demo_ledger ''a'') Executed (demo_rebalance 1) demo_publisher)
   in pb_positions s' \<noteq> [] \<and>
     start_publisher (\<lambda>s. s) (demo_ledger ''a'') (Inr (pb_stored s')) (Inr None) Executed (s'\<lparr>pb_positions := []\<rparr>) = s'"
proof -
  have "rebalance_ledger (\<lambda>s. s) (demo_ledger ''a'') Executed (demo_rebalance 1) demo_publisher =
      (Inr (), snd (rebalance_ledger (\<lambda>s. s) (demo_ledger ''a'') Executed (demo_rebalance 1) demo_publisher))"
    by (simp add: rebalance_ledger_def demo_publisher_def demo_plan_empty Let_def)
  from shadow_restart_restores [OF this] show ?thesis
    by (simp add: rebalance_ledger_def demo_publisher_def demo_plan_empty Let_def)
qed

text \<open>
  One candle, one rebalance.  An alpha that rebalances a second time at the candle at which its
  positions were opened loses them in the worker: the closes are applied, the opens carry ids that
  are on record and are skipped.  Its book still holds the position.
\<close>

theorem shadow_same_candle_diverges:
  assumes "inj uuid5" and cfg: "sound_cfg (cfg a)" "lc_alpha (cfg a) = a" and rb: "sound_rebalance parse rb"
  shows "\<exists>books once twice. shadow_run uuid5 cfg [(a, rb)] (\<lambda>a. [], []) = Inr (books, once) \<and>
    shadow_run uuid5 cfg [(a, rb), (a, rb)] (\<lambda>a. [], []) = Inr (books, twice) \<and>
    in_step (entries books) (deliver parse once empty_db) \<and>
    virtual_positions (deliver parse twice empty_db) = []"
proof -
  from same_candle_twice [OF assms] obtain es bk cs d1 where 1: "rebalance_plan uuid5 (cfg a) rb [] = Inr (es, bk)"
    "consume_all parse es empty_db = Some d1" "in_step (Pair a ` set bk) d1"
    "rebalance_plan uuid5 (cfg a) rb bk = Inr (cs @ es, bk)"
    "virtual_positions (deliver parse (es @ cs @ es) empty_db) = []" by blast
  have "entries ((\<lambda>a. [])(a := bk)) = Pair a ` set bk" by (auto simp: entries_def split: if_splits)
  with 1 consume_all_deliver [OF 1(2)] show ?thesis by (simp add: rebalance_ledger_def Let_def)
qed

theorem shadow_same_candle_diverges_witness:
  "\<exists>books once twice. shadow_run (\<lambda>s. s) demo_ledger [(''a'', demo_rebalance 1)] (\<lambda>a. [], []) = Inr (books, once) \<and>
    shadow_run (\<lambda>s. s) demo_ledger [(''a'', demo_rebalance 1), (''a'', demo_rebalance 1)] (\<lambda>a. [], []) = Inr (books, twice) \<and>
    in_step (entries books) (deliver demo_clock once empty_db) \<and>
    virtual_positions (deliver demo_clock twice empty_db) = []"
  by (rule shadow_same_candle_diverges) (simp_all add: demo_sound, simp add: demo_ledger_def)

end
