(* ===== verification/Schedule.thy ===== *)
theory Schedule
  imports Prelude
begin

text \<open>
  \<^verbatim>\<open>alphas/cross_alpha/schedule.py\<close>: when a cross-sectional strategy may rebalance.  Times are
  milliseconds; \<open>//\<close> and \<open>%\<close> of Python's unbounded integers are \<open>div\<close> and \<open>mod\<close> of \<open>int\<close> and raise
  for a divisor 0.
\<close>

definition day_ms :: int where
  "day_ms = 86400000"

definition py_mod :: "int \<Rightarrow> int \<Rightarrow> int res" where
  "py_mod a b = (if b = 0 then Inl ZeroDivisionError else Inr (a mod b))"

definition py_floordiv :: "int \<Rightarrow> int \<Rightarrow> int res" where
  "py_floordiv a b = (if b = 0 then Inl ZeroDivisionError else Inr (a div b))"

definition is_midnight_close_utc :: "int \<Rightarrow> int \<Rightarrow> bool" where
  "is_midnight_close_utc candle tf_ms \<longleftrightarrow> (candle + tf_ms) mod day_ms = 0"

definition is_close_aligned_rebalance :: "int \<Rightarrow> int \<Rightarrow> int \<Rightarrow> bool res" where
  "is_close_aligned_rebalance candle tf_ms rebalance_bars =
     res_bind (py_floordiv (candle + tf_ms) tf_ms) (\<lambda>k.
     res_bind (py_mod k rebalance_bars) (\<lambda>r. Inr (r = 0)))"

definition is_rebalance_due :: "int \<Rightarrow> int \<Rightarrow> int \<Rightarrow> bool \<Rightarrow> bool \<Rightarrow> bool res" where
  "is_rebalance_due candle tf_ms rebalance_bars at_midnight on_close =
     (if at_midnight \<and> \<not> is_midnight_close_utc candle tf_ms then Inr False
      else if at_midnight \<or> on_close then is_close_aligned_rebalance candle tf_ms rebalance_bars
      else res_bind (py_floordiv candle tf_ms) (\<lambda>k.
           res_bind (py_mod k rebalance_bars) (\<lambda>r. Inr (r = 0))))"

section \<open>Lemmas\<close>

text \<open>For candles on the grid of their time frame the schedule is a congruence of the close time.\<close>

lemma aligned_due:
  assumes "0 < tf_ms" and "0 < n" and "tf_ms dvd candle"
  shows "is_close_aligned_rebalance candle tf_ms n = Inr ((candle + tf_ms) mod (n * tf_ms) = 0)"
proof -
  obtain k where k: "candle = tf_ms * k" using assms(3) by blast
  have "(tf_ms * k + tf_ms) div tf_ms = k + 1" using assms(1) by simp
  moreover have "(tf_ms * k + tf_ms) mod (n * tf_ms) = tf_ms * ((k + 1) mod n)"
    using mult_mod_right [of tf_ms "k + 1" n] by (simp add: algebra_simps)
  ultimately show ?thesis
    using assms(1,2) by (simp add: is_close_aligned_rebalance_def py_floordiv_def py_mod_def k)
qed

lemma open_due:
  assumes "0 < tf_ms" and "0 < n" and "tf_ms dvd candle"
  shows "is_rebalance_due candle tf_ms n False False = Inr (candle mod (n * tf_ms) = 0)"
proof -
  obtain k where k: "candle = tf_ms * k" using assms(3) by blast
  have "(tf_ms * k) div tf_ms = k" using assms(1) by simp
  moreover have "(tf_ms * k) mod (n * tf_ms) = tf_ms * (k mod n)"
    using mult_mod_right [of tf_ms k n] by (simp add: algebra_simps)
  ultimately show ?thesis
    using assms(1,2) by (simp add: is_rebalance_due_def py_floordiv_def py_mod_def k)
qed

text \<open>What combining the cadence with the midnight gate amounts to.\<close>

lemma midnight_due:
  assumes "0 < tf_ms" and "0 < n" and "tf_ms dvd candle"
  shows "is_rebalance_due candle tf_ms n True on_close = Inr (lcm (n * tf_ms) day_ms dvd candle + tf_ms)"
  using aligned_due [OF assms]
  by (auto simp: is_rebalance_due_def is_midnight_close_utc_def mod_eq_0_iff_dvd lcm_least_iff)

lemma on_close_due:
  assumes "0 < tf_ms" and "0 < n" and "tf_ms dvd candle"
  shows "is_rebalance_due candle tf_ms n False True = Inr (n * tf_ms dvd candle + tf_ms)"
  using aligned_due [OF assms] by (simp add: is_rebalance_due_def mod_eq_0_iff_dvd)

text \<open>The n-th candle from one that is due is due, and none between them is.\<close>

lemma next_multiple:
  fixes p :: int
  assumes "0 < p" and "p dvd c" and "c < d" and "p dvd d"
  shows "c + p \<le> d"
  using zdvd_imp_le [of p "d - c"] assms by simp

end
