(* ===== verification/Selection.thy ===== *)
theory Selection
  imports PortfolioCore "HOL-Library.List_Lexorder" "HOL-Library.Char_ord" "HOL-Library.Product_Lexorder"
begin

text \<open>
  From the scores of the latest candle to the weights of a book: \<open>select_positions\<close> of
  \<^verbatim>\<open>alphas/cross_alpha/strategy.py\<close> and the overlays of \<^verbatim>\<open>overlay.py\<close>.

  The panels and the signals are computed with the package pandas, which is not part of the
  repository; what they give for the latest candle (a score per symbol, the two sets of symbols a
  condition holds for, liquidity, volatility, beta) is an argument.  A series is the list of its
  entries; \<open>NaN\<close> marks a missing one.  The documented behaviour of the methods of a series the code
  calls on that row is written out (\<open>dropna\<close>, \<open>mean\<close>, \<open>std\<close>, \<open>clip\<close>, \<open>nlargest\<close>, \<open>nsmallest\<close>,
  \<open>rank\<close>); entries that tie keep their order.
\<close>

section \<open>Series\<close>

type_synonym series = "(string, pyfloat) dict"

definition dropna :: "series \<Rightarrow> series" where
  "dropna s = filter (\<lambda>(k, v). v \<noteq> NaN) s"

text \<open>Division of a series never raises; the code divides by zero nowhere.\<close>

definition quot :: "pyfloat \<Rightarrow> pyfloat \<Rightarrow> pyfloat" where
  "quot x y = (case fdiv x y of Inr z \<Rightarrow> z | Inl e \<Rightarrow> NaN)"

fun fsqrt :: "pyfloat \<Rightarrow> pyfloat" where
  "fsqrt (Fin x) = Fin (sqrt x)"
| "fsqrt PInf = PInf"
| "fsqrt _ = NaN"

definition mean_of :: "pyfloat list \<Rightarrow> pyfloat" where
  "mean_of xs = quot (fsum xs) (Fin (real (length xs)))"

text \<open>The sample standard deviation; there is none for fewer than two entries.\<close>

definition std_of :: "pyfloat list \<Rightarrow> pyfloat" where
  "std_of xs =
     (if length xs \<le> 1 then NaN
      else let m = mean_of xs
           in fsqrt (quot (fsum (map (\<lambda>x. (x - m) * (x - m)) xs)) (Fin (real (length xs - 1)))))"

definition clip :: "pyfloat \<Rightarrow> pyfloat \<Rightarrow> pyfloat" where
  "clip k v = (if v < - k then - k else if v > k then k else v)"

text \<open>The order of the floats, as a key for sorting: below all, the finite ones, above all, NaN.\<close>

fun fkey :: "pyfloat \<Rightarrow> int \<times> real" where
  "fkey NInf = (0, 0)"
| "fkey (Fin x) = (1, x)"
| "fkey PInf = (2, 0)"
| "fkey NaN = (3, 0)"

definition nlargest :: "int \<Rightarrow> series \<Rightarrow> series" where
  "nlargest n s = take (nat n) (sort_key (\<lambda>(k, v). fkey (- v)) s)"

definition nsmallest :: "int \<Rightarrow> series \<Rightarrow> series" where
  "nsmallest n s = take (nat n) (sort_key (\<lambda>(k, v). fkey v) s)"

text \<open>\<open>rank(pct=True)\<close> and \<open>rank(ascending=False)\<close>; entries that tie share their average rank.\<close>

definition tied_rank :: "(pyfloat \<Rightarrow> bool) \<Rightarrow> series \<Rightarrow> pyfloat \<Rightarrow> real" where
  "tied_rank before s v =
     real (length (filter (\<lambda>(k, w). before w) s)) + (real (length (filter (\<lambda>(k, w). w = v) s)) + 1) / 2"

definition rank_pct :: "series \<Rightarrow> series" where
  "rank_pct s = map (\<lambda>(k, v). (k, Fin (tied_rank (\<lambda>w. w < v) s v / real (length s)))) s"

definition top_ranked :: "int \<Rightarrow> series \<Rightarrow> string list" where
  "top_ranked n s =
     (let d = dropna s in map fst (filter (\<lambda>(k, v). tied_rank (\<lambda>w. w > v) d v \<le> real_of_int n) d))"

text \<open>\<open>round(x)\<close> of Python: to the nearest integer, halves to the even one.\<close>

definition py_round :: "real \<Rightarrow> int" where
  "py_round x =
     (let f = \<lfloor>x\<rfloor>; d = x - of_int f
      in if d < 1 / 2 then f else if d > 1 / 2 then f + 1 else if even f then f else f + 1)"

section \<open>The overlays of an ensemble\<close>

text \<open>\<open>vol\<close> is the latest realised volatility of the symbols that have returns.\<close>

definition gross_abs :: "series \<Rightarrow> pyfloat" where
  "gross_abs s = fsum (map (fabs \<circ> snd) s)"

definition risk_parity :: "series \<Rightarrow> series \<Rightarrow> series" where
  "risk_parity vol signal =
     (let tilted = dropna (map (\<lambda>(k, v). (k, case map_of vol k of
              None \<Rightarrow> NaN
            | Some x \<Rightarrow> if x = Fin 0 then NaN else quot v x)) signal);
          gross = gross_abs tilted
      in if gross \<le> Fin 0 then map (\<lambda>(k, v). (k, v * Fin 0)) tilted
         else map (\<lambda>(k, v). (k, quot v gross)) tilted)"

text \<open>\<open>beta\<close> is \<open>None\<close> where the market proxy has no symbol or no variance.\<close>

definition beta_neutralize :: "series option \<Rightarrow> series \<Rightarrow> series" where
  "beta_neutralize beta ws = (case beta of
       None \<Rightarrow> ws
     | Some bs \<Rightarrow>
         (let b = (\<lambda>k. case map_of bs k of None \<Rightarrow> Fin 0 | Some x \<Rightarrow> if x = NaN then Fin 0 else x);
              portfolio_beta = fsum (map (\<lambda>(k, w). w * b k) ws);
              beta_sq_sum = fsum (map (\<lambda>(k, w). b k * b k) ws)
          in if beta_sq_sum = Fin 0 then ws
             else map (\<lambda>(k, w). (k, w - b k * quot portfolio_beta beta_sq_sum)) ws))"

definition overlay_cap :: "pyfloat \<Rightarrow> series \<Rightarrow> series" where
  "overlay_cap cap ws = map (\<lambda>(k, w). (k, clip (fabs cap) w)) ws"

definition drawdown_throttle :: "pyfloat \<Rightarrow> pyfloat \<Rightarrow> pyfloat \<Rightarrow> series \<Rightarrow> series" where
  "drawdown_throttle drawdown floor_dd factor ws =
     (if drawdown < floor_dd then map (\<lambda>(k, w). (k, w * factor)) ws else ws)"

text \<open>The overlays that are configured, in the order of the code.\<close>

record overlay_cfg =
  oc_risk_parity :: "series option"
  oc_beta :: "series option option"
  oc_cap :: "pyfloat option"
  oc_throttle :: "(pyfloat \<times> pyfloat) option"

definition apply_overlays :: "overlay_cfg \<Rightarrow> pyfloat \<Rightarrow> series \<Rightarrow> series" where
  "apply_overlays oc drawdown s =
     (let w = (case oc_risk_parity oc of None \<Rightarrow> s | Some vol \<Rightarrow> risk_parity vol s);
          w = (case oc_beta oc of None \<Rightarrow> w | Some beta \<Rightarrow> beta_neutralize beta w);
          w = (case oc_cap oc of None \<Rightarrow> w | Some cap \<Rightarrow> overlay_cap cap w)
      in case oc_throttle oc of None \<Rightarrow> w
         | Some (floor_dd, factor) \<Rightarrow> drawdown_throttle drawdown floor_dd factor w)"

section \<open>Construction\<close>

record select_spec =
  ss_construction :: string
  ss_winsor_k :: pyfloat
  ss_top_k :: "int option"
  ss_power :: real
  ss_long_threshold :: "real option"
  ss_short_threshold :: "real option"
  ss_top_universe :: bool
  ss_universe_size :: int
  ss_balanced :: bool

text \<open>The z-scores of the latest row, clipped.\<close>

definition winsorized :: "pyfloat \<Rightarrow> series \<Rightarrow> series" where
  "winsorized k latest =
     (let xs = map snd latest; m = mean_of xs; sd = (if std_of xs = Fin 0 then NaN else std_of xs)
      in map (\<lambda>(s, v). (s, clip k (quot (v - m) sd))) latest)"

fun fpow :: "pyfloat \<Rightarrow> real \<Rightarrow> pyfloat" where
  "fpow (Fin x) p = Fin (x powr p)"
| "fpow PInf p = (if p > 0 then PInf else if p = 0 then Fin 1 else Fin 0)"
| "fpow _ p = NaN"

definition scale_gross :: "series \<Rightarrow> series" where
  "scale_gross s = (if gross_abs s > Fin 0 then map (\<lambda>(k, v). (k, quot v (gross_abs s))) s else s)"

definition top_k_sized :: "int \<Rightarrow> real \<Rightarrow> series \<Rightarrow> series" where
  "top_k_sized k p z =
     (let eligible = dropna z;
          long_pool = nlargest k (filter (\<lambda>(s, v). v > Fin 0) eligible);
          short_pool = nsmallest k (filter (\<lambda>(s, v). v < Fin 0) eligible)
      in sort_key fst (map (\<lambda>(s, v). (s, fpow (fabs v) p)) long_pool
           @ map (\<lambda>(s, v). (s, Fin 0 - fpow (fabs v) p)) short_pool))"

definition winsor_weights :: "select_spec \<Rightarrow> series \<Rightarrow> weights" where
  "winsor_weights sp latest =
     (let z = winsorized (ss_winsor_k sp) latest
      in filter (\<lambda>(s, w). w \<noteq> Fin 0) (scale_gross (case ss_top_k sp of
           Some k \<Rightarrow> top_k_sized k (ss_power sp) z
         | None \<Rightarrow> z)))"

text \<open>
  \<open>winsorized.abs().sum()\<close> skips missing entries, and where one entry of the row is missing all
  are: then the sum is 0 and the row is not scaled.
\<close>

definition long_symbols :: "weights \<Rightarrow> string list" where
  "long_symbols ws = sort (map fst (filter (\<lambda>(s, w). w > Fin 0) ws))"

definition short_symbols :: "weights \<Rightarrow> string list" where
  "short_symbols ws = sort (map fst (filter (\<lambda>(s, w). w < Fin 0) ws))"

text \<open>What has to go for as many longs as shorts: the weakest of the larger side.\<close>

definition weakest :: "weights \<Rightarrow> string list \<Rightarrow> nat \<Rightarrow> string list" where
  "weakest ws side n = take (length side - n) (sort_key (\<lambda>s. fkey (fabs (dget ws s (Fin 0)))) side)"

definition balance_drop :: "weights \<Rightarrow> string list" where
  "balance_drop ws =
     (let longs = long_symbols ws; shorts = short_symbols ws; target = min (length longs) (length shorts)
      in if longs \<noteq> [] \<and> shorts \<noteq> [] \<and> length longs \<noteq> length shorts
         then if length longs > target then weakest ws longs target else weakest ws shorts target
         else [])"

definition without :: "string list \<Rightarrow> weights \<Rightarrow> weights" where
  "without drops ws = filter (\<lambda>(s, w). s \<notin> set drops) ws"

definition balanced_weights :: "weights \<Rightarrow> weights" where
  "balanced_weights ws = (if balance_drop ws = [] then ws else scale_gross (without (balance_drop ws) ws))"

text \<open>The rank construction: the two tails, as many symbols in each.\<close>

definition threshold :: "real option \<Rightarrow> real res" where
  "threshold t = (case t of None \<Rightarrow> Inl TypeError | Some x \<Rightarrow> Inr x)"

definition rank_tails :: "select_spec \<Rightarrow> series \<Rightarrow> (string list \<times> string list) res" where
  "rank_tails sp latest =
     res_bind (threshold (ss_long_threshold sp)) (\<lambda>lt.
     res_bind (threshold (ss_short_threshold sp)) (\<lambda>st.
     let n = real (length latest);
         n_long = max 1 (py_round (n * (1 - lt)));
         n_short = max 1 (py_round (n * st));
         k = min n_long n_short
     in Inr (map fst (nlargest k latest), map fst (nsmallest k latest))))"

definition equal_weights :: "(string \<Rightarrow> bool) \<Rightarrow> string list \<Rightarrow> string list \<Rightarrow> string list \<times> string list \<times> weights" where
  "equal_weights eligible longs shorts =
     (let l = filter eligible (sort (remdups (filter (\<lambda>s. s \<notin> set shorts) longs)));
          s = filter eligible (sort (remdups (filter (\<lambda>s. s \<notin> set longs) shorts)));
          k = min (length l) (length s);
          l = take k l; s = take k s
      in (l, s, if l \<noteq> [] \<and> s \<noteq> []
                then map (\<lambda>x. (x, Fin (1 / 2 / real (length l)))) l @ map (\<lambda>x. (x, Fin (- 1 / 2 / real (length s)))) s
                else []))"

section \<open>The selection\<close>

text \<open>What the signal gives for the latest candle.\<close>

datatype score_row =
    Score series
  | Conditions "string list" "string list"
  | Ensemble overlay_cfg series

record indicator =
  in_score :: "pyfloat option"
  in_rank :: "pyfloat option"
  in_decision :: string
  in_weight :: pyfloat

record selection =
  se_longs :: "string list"
  se_shorts :: "string list"
  se_scores :: series
  se_ranks :: series
  se_weights :: weights
  se_indicators :: "(string, indicator) dict"
  se_gross :: pyfloat
  se_net :: pyfloat

definition audit_value :: "pyfloat option \<Rightarrow> pyfloat option" where
  "audit_value v = (case v of Some x \<Rightarrow> if isfinite x then Some x else None | None \<Rightarrow> None)"

definition mk_selection :: "string list \<Rightarrow> string list \<Rightarrow> string list \<Rightarrow> series \<Rightarrow> series \<Rightarrow> weights \<Rightarrow> selection" where
  "mk_selection symbols longs shorts scores ranks ws =
     \<lparr>se_longs = longs, se_shorts = shorts, se_scores = scores, se_ranks = ranks, se_weights = ws,
      se_indicators = map (\<lambda>s. (s,
        \<lparr>in_score = audit_value (map_of scores s), in_rank = audit_value (map_of ranks s),
         in_decision = (if s \<in> set longs then ''LONG'' else if s \<in> set shorts then ''SHORT'' else ''FLAT''),
         in_weight = dget ws s (Fin 0)\<rparr>)) (sort (remdups symbols)),
      se_gross = gross_abs ws, se_net = fsum (map snd ws)\<rparr>"

text \<open>\<open>symbols\<close> are the columns of the panel and \<open>liquidity\<close> their traded value over 30 candles.\<close>

definition select_positions ::
  "select_spec \<Rightarrow> string list \<Rightarrow> series \<Rightarrow> pyfloat \<Rightarrow> score_row \<Rightarrow> selection res" where
  "select_positions sp symbols liquidity drawdown row =
     (let eligible = (\<lambda>s. \<not> ss_top_universe sp \<or> s \<in> set (top_ranked (ss_universe_size sp) liquidity));
          winsor = (\<lambda>scores ranks ws.
             let ws = filter (\<lambda>(s, w). eligible s) ws;
                 ws = (if ss_balanced sp then balanced_weights ws else ws)
             in mk_selection symbols (long_symbols ws) (short_symbols ws) scores ranks ws);
          equal = (\<lambda>scores ranks (longs, shorts).
             let (l, s, ws) = equal_weights eligible longs shorts
             in mk_selection symbols l s scores ranks ws)
      in case row of
           Ensemble oc score \<Rightarrow>
             (let latest = dropna score;
                  ws = filter (\<lambda>(s, w). w \<noteq> Fin 0) (apply_overlays oc drawdown latest)
              in Inr (mk_selection symbols (long_symbols ws) (short_symbols ws) latest (rank_pct latest) ws))
         | Score score \<Rightarrow>
             (let latest = dropna score
              in if ss_construction sp = ''winsor_cont''
                 then Inr (winsor latest (rank_pct latest) (winsor_weights sp latest))
                 else res_bind (rank_tails sp latest) (\<lambda>tails. Inr (equal latest (rank_pct latest) tails)))
         | Conditions longs shorts \<Rightarrow>
             (if ss_construction sp = ''winsor_cont'' then Inr (winsor [] [] [])
              else Inr (equal [] [] (longs, shorts))))"

end
