(* ===== verification/StrategyContext.thy ===== *)
theory StrategyContext
  imports AlphaEngine CandleCache
begin

text \<open>
  What every strategy of the runner shares: \<^verbatim>\<open>alphas/runner/reconcile/state.py\<close>,
  \<^verbatim>\<open>alphas/runner/strategy/context.py\<close> and the reconciliation at start-up of
  \<^verbatim>\<open>alphas/runner/strategy/base.py\<close>.

  What Redis answers to a read is an argument (\<open>Inl\<close>: the call raises); a write that fails leaves
  the key as it was.
\<close>

section \<open>The runtime state\<close>

record runtime_flags =
  rf_data_stale :: bool
  rf_reconcile_stale :: bool
  rf_price_alert_stale :: bool
  rf_lease_valid :: bool
  rf_ready :: bool
  rf_dropped_events :: nat

definition flags_can_open :: "runtime_flags \<Rightarrow> bool" where
  "flags_can_open f \<longleftrightarrow> rf_ready f \<and> rf_lease_valid f \<and> \<not> rf_data_stale f \<and> \<not> rf_reconcile_stale f
     \<and> \<not> rf_price_alert_stale f"

definition flags_can_manage :: "runtime_flags \<Rightarrow> bool" where
  "flags_can_manage f \<longleftrightarrow> rf_ready f \<and> rf_lease_valid f"

definition mark_stale_snapshot :: "bool \<Rightarrow> runtime_flags \<Rightarrow> runtime_flags" where
  "mark_stale_snapshot has_positions f = f\<lparr>rf_reconcile_stale := has_positions\<rparr>"

definition mark_redis_error :: "runtime_flags \<Rightarrow> runtime_flags" where
  "mark_redis_error f = f\<lparr>rf_reconcile_stale := True\<rparr>"

definition mark_reconcile_ok :: "runtime_flags \<Rightarrow> runtime_flags" where
  "mark_reconcile_ok f = f\<lparr>rf_reconcile_stale := False\<rparr>"

text \<open>\<open>int(len(symbols) * share + 0.999999)\<close>; the share is not negative.\<close>

definition update_readiness ::
  "real \<Rightarrow> real \<Rightarrow> string list \<Rightarrow> string \<Rightarrow> int \<Rightarrow> real option \<Rightarrow> cache \<Rightarrow> runtime_flags \<Rightarrow> runtime_flags" where
  "update_readiness now share symbols tf n max_age c f =
     (let (loaded, total, pct) = coverage now symbols tf n max_age c;
          required = max 1 \<lfloor>real (length symbols) * share + 0.999999\<rfloor>
      in f\<lparr>rf_ready := int loaded \<ge> required\<rparr>)"

section \<open>The price alerts\<close>

record alert_proxy =
  pa_symbols :: "string set"
  pa_alpha :: string
  pa_exchange :: string

definition active_prefixed_channels :: "alert_proxy \<Rightarrow> string set" where
  "active_prefixed_channels p =
     (if pa_exchange p = '''' then {} else (\<lambda>s. ''price_alert:'' @ pa_exchange p @ '':'' @ s) ` pa_symbols p)"

text \<open>\<open>sync\<close>: the registration that is published, where there is a client (\<open>sort\<close> renders the set).\<close>

definition alert_sync ::
  "bool \<Rightarrow> string list \<Rightarrow> alert_proxy \<Rightarrow> alert_proxy \<times> (string \<times> json) option" where
  "alert_sync client symbols p =
     (p\<lparr>pa_symbols := set symbols\<rparr>,
      if \<not> client \<or> pa_exchange p = '''' then None
      else Some (''price_alert:subscribe:'' @ pa_exchange p,
        JObj [(''consumer_id'', JStr (pa_alpha p)), (''action'', JStr ''sync''),
              (''symbols'', JArr (map JStr (sort (remdups symbols))))]))"

section \<open>The stored positions\<close>

text \<open>The positions of a runner, by their symbol.\<close>

type_synonym held = "(string, obj) dict"

definition held_json :: "held \<Rightarrow> json" where
  "held_json ps = JObj (map (\<lambda>(s, p). (s, JObj p)) ps)"

text \<open>\<open>save_positions\<close> writes nothing for an empty book.\<close>

definition save_positions :: "bool \<Rightarrow> held \<Rightarrow> jtext option \<Rightarrow> jtext option" where
  "save_positions written ps stored =
     (if ps = [] \<or> \<not> written then stored else Some (jdumps (held_json ps)))"

definition load_positions :: "jtext option res \<Rightarrow> json" where
  "load_positions reply = (case reply of
       Inr (Some t) \<Rightarrow> (case jloads t of Inr j \<Rightarrow> j | Inl e \<Rightarrow> JObj [])
     | _ \<Rightarrow> JObj [])"

definition clear_positions :: "bool \<Rightarrow> jtext option \<Rightarrow> jtext option" where
  "clear_positions written stored = (if written then None else stored)"

section \<open>The positions of the worker\<close>

definition authoritative_item :: "json \<Rightarrow> (string \<times> obj) list" where
  "authoritative_item j = (case j of
       JObj d \<Rightarrow>
         (if json_truthy (dget d ''position_id'' JNull)
          then case res_bind (normalize_position d) (\<lambda>n. res_bind (obj_item n ''position_id'') (\<lambda>pid. Inr (jstr pid, n))) of
                 Inr x \<Rightarrow> [x]
               | Inl e \<Rightarrow> []
          else [])
     | _ \<Rightarrow> [])"

definition load_authoritative_positions :: "jtext option res \<Rightarrow> (string, obj) dict option" where
  "load_authoritative_positions reply = (case reply of
       Inl e \<Rightarrow> None
     | Inr raw \<Rightarrow> (case parse_snapshot raw of
           None \<Rightarrow> None
         | Some snap \<Rightarrow> Some (dupdate [] (concat (map authoritative_item
             (case dget snap ''positions'' (JArr []) of JArr ps \<Rightarrow> ps | _ \<Rightarrow> []))))))"

text \<open>The entries of the runner's own store that carry an id, by the id; the last of two counts.\<close>

definition runner_by_id :: "json \<Rightarrow> (string, string \<times> obj) dict" where
  "runner_by_id j = dupdate [] (concat (map (\<lambda>(smb, v). case v of
       JObj pos \<Rightarrow> if json_truthy (dget pos ''position_id'' JNull)
         then [(jstr (dget pos ''position_id'' JNull), (smb, pos))] else []
     | _ \<Rightarrow> []) (case j of JObj store \<Rightarrow> store | _ \<Rightarrow> [])))"

record merged =
  mg_reconciled :: held
  mg_adopted :: "string list"
  mg_dropped :: "string list"

text \<open>A symbol that is the key of a dictionary; the worker's rows carry a text there.\<close>

definition merge_one :: "(string, string \<times> obj) dict \<Rightarrow> string \<times> obj \<Rightarrow> held \<times> string list \<Rightarrow> held \<times> string list" where
  "merge_one by_id = (\<lambda>(pid, n) (reconciled, adopted). case map_of by_id pid of
       Some (smb, pos) \<Rightarrow> (dset smb pos reconciled, adopted)
     | None \<Rightarrow> (let smb = dget n ''symbol'' JNull
                in if json_truthy smb then (dset (jstr smb) n reconciled, adopted @ [pid])
                   else (reconciled, adopted)))"

definition merge_authoritative_positions :: "json \<Rightarrow> (string, obj) dict \<Rightarrow> merged" where
  "merge_authoritative_positions store auth =
     (let by_id = runner_by_id store; (reconciled, adopted) = fold (merge_one by_id) auth ([], [])
      in \<lparr>mg_reconciled = reconciled, mg_adopted = adopted,
          mg_dropped = filter (\<lambda>pid. pid \<notin> set (keys auth)) (keys by_id)\<rparr>)"

text \<open>Without the worker's view the runner keeps its own store, whatever its values are.\<close>

definition reconcile_open_positions :: "jtext option res \<Rightarrow> jtext option res \<Rightarrow> held" where
  "reconcile_open_positions store_reply snapshot_reply =
     (let store = load_positions store_reply
      in case load_authoritative_positions snapshot_reply of
           None \<Rightarrow> (case store of JObj d \<Rightarrow> map (\<lambda>(s, v). (s, object_or_empty v)) d | _ \<Rightarrow> [])
         | Some auth \<Rightarrow> mg_reconciled (merge_authoritative_positions store auth))"

end
