(* ===== verification/CrossSectional.thy ===== *)
theory CrossSectional
  imports Schedule Selection StrategyContext ShadowLedger
begin

text \<open>
  The cross-sectional strategy of the runner,
  \<^verbatim>\<open>alphas/runner/strategies/cross_sectional/strategy.py\<close>: it marks its book to market on every
  candle and rebalances on the candles its schedule allows, either by signals to the worker or, for
  a strategy that only publishes a book, by a target book and the virtual ledger.

  The answers of Redis, of the dispatcher and of the worker, and what pandas makes of the candles,
  are arguments of the step that uses them.  A position is the dictionary the code keeps.
\<close>

section \<open>Configuration and state\<close>

record xs_cfg =
  xc_alpha :: string
  xc_exchange :: string
  xc_capital :: pyfloat
  xc_book_only :: bool
  xc_symbols :: "string list"
  xc_min_coverage :: real
  xc_timeframe :: string
  xc_rebalance_bars :: int
  xc_at_midnight :: bool
  xc_on_close :: bool
  xc_reverse :: bool
  xc_vol_lookback :: nat
  xc_ppy :: nat
  xc_target_vol :: pyfloat
  xc_max_leverage :: pyfloat
  xc_fee_bps :: pyfloat
  xc_select :: select_spec

text \<open>The signals a rebalance hands to the dispatcher.\<close>

datatype xs_signal =
    XsClose (xg_symbol: string) (xg_position: json) (xg_price: pyfloat) (xg_candle: int)
  | XsOpen (xg_symbol: string) (xg_side: string) (xg_price: pyfloat) (xg_qty: pyfloat) (xg_id: string)
      (xg_fee: pyfloat) (xg_metadata: json) (xg_candle: int)

record xs_state =
  xs_last_candle :: int
  xs_warm :: bool
  xs_open :: held
  xs_returns :: "pyfloat list"
  xs_equity :: pyfloat
  xs_peak :: pyfloat
  xs_shadow :: pyfloat
  xs_last_prices :: "(string, pyfloat) dict"
  xs_base :: weights
  xs_pending :: pyfloat
  xs_leverage :: pyfloat
  xs_revision :: int
  xs_sent :: "xs_signal list"
  xs_stored :: "jtext option"
  xs_pnl :: "jtext option"
  xs_books :: "string \<Rightarrow> jtext option"
  xs_ledger :: publisher
  xs_alerts :: "alert_proxy option"
  xs_registered :: "(string \<times> json) list"
  xs_pnl_at :: "(string, real) dict"
  xs_pnl_sent :: "json list"

section \<open>The universe\<close>

text \<open>The lines of a symbol file; \<open>None\<close> is a file that is not there.\<close>

definition symbol_lines :: "string list \<Rightarrow> string list" where
  "symbol_lines lines = filter (\<lambda>line. line \<noteq> '''' \<and> hd line \<noteq> CHR ''#'') (map strip lines)"

definition load_universe :: "string list option \<Rightarrow> string list option \<Rightarrow> string list res" where
  "load_universe whitelist blacklist = (case whitelist of
       None \<Rightarrow> Inl (ValueError ''no whitelist'')
     | Some lines \<Rightarrow>
         (let black = (case blacklist of None \<Rightarrow> {} | Some ls \<Rightarrow> set (map upper (symbol_lines ls)));
              clean = filter (\<lambda>s. s \<noteq> '''' \<and> s \<notin> black) (map (upper \<circ> strip) (symbol_lines lines))
          in if clean = [] then Inl (ValueError ''no symbols'') else Inr clean))"

section \<open>Time frames\<close>

definition strategy_tf_ms :: "string \<Rightarrow> int res" where
  "strategy_tf_ms tf =
     (if tf = '''' then Inl IndexError
      else res_bind (py_int_str (butlast tf)) (\<lambda>v.
        if last tf = CHR ''m'' then Inr (v * 60000)
        else if last tf = CHR ''h'' then Inr (v * 3600000)
        else if last tf = CHR ''d'' then Inr (v * 86400000)
        else Inl (ValueError ''unsupported timeframe'')))"

section \<open>Marking the book to market\<close>

text \<open>\<open>if before and after and before > 0\<close>; a missing price is \<open>None\<close>.\<close>

definition price_return :: "pyfloat option \<Rightarrow> pyfloat option \<Rightarrow> pyfloat \<Rightarrow> pyfloat option" where
  "price_return before after w = (case (before, after) of
       (Some b, Some a) \<Rightarrow>
         (if truthy b \<and> truthy a \<and> b > Fin 0 then Some (w * (quot a b - Fin 1)) else None)
     | _ \<Rightarrow> None)"

definition book_return :: "(string, pyfloat) dict \<Rightarrow> (string, pyfloat) dict \<Rightarrow> weights \<Rightarrow> pyfloat" where
  "book_return before after ws =
     foldl (\<lambda>gross (s, w). case price_return (map_of before s) (map_of after s) w of
       None \<Rightarrow> gross | Some r \<Rightarrow> gross + r) (Fin 0) ws"

definition shadow_pnl_json :: "xs_cfg \<Rightarrow> real \<Rightarrow> pyfloat \<Rightarrow> (string, pyfloat) dict \<Rightarrow> xs_state \<Rightarrow> json" where
  "shadow_pnl_json cfg now rt prices s = JObj
     [(''alpha_id'', JStr (xc_alpha cfg)), (''timestamp'', JNum (Fin now)), (''return'', JNum rt),
      (''equity'', JNum (xs_shadow s)), (''peak_equity'', JNum (xs_peak s)), (''capital'', JNum (xc_capital cfg)),
      (''standalone'', JBool True), (''basis'', JStr ''gross-1-standalone''),
      (''prices'', JObj (map (\<lambda>(k, p). (k, JNum p)) prices))]"

text \<open>\<open>written\<close>: whether the write of \<open>shadow:pnl\<close> succeeds.\<close>

definition publish_shadow_pnl ::
  "xs_cfg \<Rightarrow> real \<Rightarrow> bool \<Rightarrow> pyfloat \<Rightarrow> (string, pyfloat) dict \<Rightarrow> xs_state \<Rightarrow> xs_state" where
  "publish_shadow_pnl cfg now written rt prices s =
     (if written then s\<lparr>xs_pnl := Some (jdumps (shadow_pnl_json cfg now rt prices s))\<rparr> else s)"

definition record_portfolio_return ::
  "xs_cfg \<Rightarrow> real \<Rightarrow> bool \<Rightarrow> (string, pyfloat) dict \<Rightarrow> xs_state \<Rightarrow> xs_state" where
  "record_portfolio_return cfg now written prices s =
     (if xs_last_prices s = [] \<or> xs_base s = [] then s
      else
        (let rt = book_return (xs_last_prices s) prices (xs_base s) - xs_pending s;
             equity = xs_equity s * (Fin 1 + rt);
             s = s\<lparr>xs_returns := last_n (max (xc_vol_lookback cfg * 2) 10) (xs_returns s @ [rt]),
                   xs_pending := Fin 0, xs_equity := equity,
                   xs_peak := (if equity > xs_peak s then equity else xs_peak s)\<rparr>
         in if xc_book_only cfg
            then publish_shadow_pnl cfg now written rt prices (s\<lparr>xs_shadow := xs_shadow s * (Fin 1 + rt)\<rparr>)
            else s))"

definition current_drawdown :: "xs_state \<Rightarrow> pyfloat" where
  "current_drawdown s = (if xs_peak s \<le> Fin 0 then Fin 0 else quot (xs_equity s - xs_peak s) (xs_peak s))"

text \<open>\<open>values[-vol_lookback:]\<close> is the whole list for 0.\<close>

definition vol_target_leverage :: "xs_cfg \<Rightarrow> xs_state \<Rightarrow> pyfloat" where
  "vol_target_leverage cfg s =
     (let minimum = max 2 (xc_vol_lookback cfg div 2);
          xs = (if xc_vol_lookback cfg = 0 then xs_returns s else last_n (xc_vol_lookback cfg) (xs_returns s))
      in if length xs < minimum then xs_leverage s
         else let mean = quot (fsum xs) (Fin (real (length xs)));
                  variance = quot (fsum (map (\<lambda>x. (x - mean) * (x - mean)) xs)) (Fin (real (length xs - 1)));
                  rv = fsqrt variance * Fin (sqrt (real (xc_ppy cfg)))
              in if rv \<le> Fin 0 then Fin 0 else pymin (xc_max_leverage cfg) (quot (xc_target_vol cfg) rv))"

text \<open>\<open>_restore_shadow_state\<close>: what an exception interrupts stays as far as it got.\<close>

definition restore_equity :: "jtext option res \<Rightarrow> xs_state \<Rightarrow> xs_state" where
  "restore_equity reply s = (case reply of
       Inr (Some t) \<Rightarrow> (case jloads t of
           Inr (JObj payload) \<Rightarrow> (case jfloat (dget payload ''equity'' (JNum (Fin 0))) of
               Inl e \<Rightarrow> s
             | Inr equity \<Rightarrow>
                 (if \<not> equity > Fin 0 then s
                  else let s = s\<lparr>xs_shadow := equity, xs_equity := equity\<rparr>
                       in case jfloat (dget payload ''peak_equity'' (JNum equity)) of
                            Inl e \<Rightarrow> s
                          | Inr peak \<Rightarrow>
                              (let s = s\<lparr>xs_peak := pymax equity peak\<rparr>
                               in case float_dict (dget payload ''prices'' JNull) of
                                    Inr (p # ps) \<Rightarrow> s\<lparr>xs_last_prices := p # ps\<rparr>
                                  | _ \<Rightarrow> s)))
         | _ \<Rightarrow> s)
     | _ \<Rightarrow> s)"

definition restore_base :: "target_book option res \<Rightarrow> xs_state \<Rightarrow> xs_state" where
  "restore_base reply s = (case reply of
       Inr (Some b) \<Rightarrow> if k_weights b \<noteq> [] then s\<lparr>xs_base := k_weights b\<rparr> else s
     | _ \<Rightarrow> s)"

definition restore_shadow_state :: "jtext option res \<Rightarrow> target_book option res \<Rightarrow> xs_state \<Rightarrow> xs_state" where
  "restore_shadow_state pnl bk s = restore_base bk (restore_equity pnl s)"

section \<open>The price of a close\<close>

text \<open>\<open>pos.get("entry") or pos.get("entry_price")\<close>.\<close>

definition entry_of :: "obj \<Rightarrow> json" where
  "entry_of pos =
     (if json_truthy (dget pos ''entry'' JNull) then dget pos ''entry'' JNull else dget pos ''entry_price'' JNull)"

definition last_cached_close :: "cache \<Rightarrow> string \<Rightarrow> string \<Rightarrow> pyfloat option" where
  "last_cached_close c smb tf =
     (let closes = get_closes (smb, tf) 1 c
      in if closes = [] then None else if last closes > Fin 0 then Some (last closes) else None)"

definition closest_exit_price ::
  "(string, pyfloat) dict \<Rightarrow> (string, pyfloat) dict \<Rightarrow> pyfloat option \<Rightarrow> string \<Rightarrow> obj \<Rightarrow> pyfloat res" where
  "closest_exit_price prices last_prices cached smb pos =
     (let entry = (case entry_of pos of JNull \<Rightarrow> None
                   | j \<Rightarrow> (case jfloat j of Inr x \<Rightarrow> Some x | Inl e \<Rightarrow> None));
          positive = (\<lambda>v. case v of Some x \<Rightarrow> x > Fin 0 | None \<Rightarrow> False)
      in if positive (map_of prices smb) then Inr (the (map_of prices smb))
         else if positive cached then Inr (the cached)
         else if positive (map_of last_prices smb) then Inr (the (map_of last_prices smb))
         else if positive entry then Inr (the entry)
         else jfloat (if json_truthy (entry_of pos) then entry_of pos else JNum (Fin 0)))"

section \<open>Price alerts\<close>

text \<open>\<open>round(x, 6)\<close>.\<close>

fun round6 :: "pyfloat \<Rightarrow> pyfloat" where
  "round6 (Fin x) = Fin (of_int (py_round (x * 10 ^ 6)) / 10 ^ 6)"
| "round6 x = x"

definition side_pnl :: "string \<Rightarrow> pyfloat \<Rightarrow> pyfloat \<Rightarrow> pyfloat option" where
  "side_pnl side entry price =
     (if side = ''LONG'' then Some (quot (price - entry) entry)
      else if side = ''SHORT'' then Some (quot (entry - price) entry) else None)"

definition pnl_json :: "xs_cfg \<Rightarrow> real \<Rightarrow> string \<Rightarrow> string \<Rightarrow> pyfloat \<Rightarrow> pyfloat \<Rightarrow> pyfloat \<Rightarrow> pyfloat \<Rightarrow> json" where
  "pnl_json cfg now smb side entry price pct weight = JObj
     [(''alpha_id'', JStr (xc_alpha cfg)), (''symbol'', JStr smb), (''side'', JStr side), (''entry_price'', JNum entry),
      (''current_price'', JNum price), (''pnl_pct'', JNum (round6 pct)), (''weight'', JNum weight),
      (''timestamp'', JInt \<lfloor>now * 1000\<rfloor>)]"

text \<open>\<open>published\<close>: there is a client and the publication succeeds.\<close>

definition on_price_alert :: "xs_cfg \<Rightarrow> real \<Rightarrow> bool \<Rightarrow> string \<Rightarrow> pyfloat \<Rightarrow> (xs_state, unit) eff" where
  "on_price_alert cfg now published smb price =
     bind get_state (\<lambda>s. case map_of (xs_open s) smb of
         None \<Rightarrow> ret ()
       | Some pos \<Rightarrow>
           if price \<le> Fin 0 \<or> now - dget (xs_pnl_at s) smb 0 < 1 / 2 then ret ()
           else bind (lift_res (jfloat (dget pos ''entry'' (JNum (Fin 0))))) (\<lambda>entry.
             let side = jstr (dget pos ''side'' (JStr ''''))
             in if entry \<le> Fin 0 then ret ()
                else case side_pnl side entry price of
                    None \<Rightarrow> ret ()
                  | Some pct \<Rightarrow>
                      bind (lift_res (jfloat (dget pos ''weight'' (JNum (Fin 0))))) (\<lambda>weight.
                      modify (\<lambda>s. s\<lparr>xs_pnl_at := dset smb now (xs_pnl_at s),
                        xs_pnl_sent := xs_pnl_sent s @
                          (if published then [pnl_json cfg now smb side entry price pct weight] else [])\<rparr>))))"

text \<open>\<open>_sync_price_alerts\<close>; a failed publication is logged.\<close>

definition sync_alerts :: "bool \<Rightarrow> xs_state \<Rightarrow> xs_state" where
  "sync_alerts client s = (case xs_alerts s of
       None \<Rightarrow> s
     | Some p \<Rightarrow> (let (p, msg) = alert_sync client (keys (xs_open s)) p
         in s\<lparr>xs_alerts := Some p, xs_registered := xs_registered s @ (case msg of None \<Rightarrow> [] | Some m \<Rightarrow> [m])\<rparr>))"

section \<open>Applying a selection\<close>

text \<open>
  What one rebalance meets: the answers of the worker's snapshot and of the dispatcher to each
  signal (\<open>Inr True\<close>: published; \<open>Inr False\<close>: it returned \<open>None\<close>), the tradable symbols that were
  broadcast, the flags of the runtime, the ids of \<open>uuid4\<close> and the outcomes of the writes.
\<close>

record xs_env =
  xe_snapshot :: "jtext option res"
  xe_emit :: "xs_signal \<Rightarrow> bool res"
  xe_tradable :: "string list option"
  xe_flags :: runtime_flags
  xe_uuid4 :: "string \<Rightarrow> string"
  xe_uuid5 :: "string \<Rightarrow> string"
  xe_written :: bool
  xe_pipe :: pipe_outcome
  xe_now :: real
  xe_iso_now :: string
  xe_cache :: cache
  xe_alert_client :: bool

definition emit_signal :: "xs_env \<Rightarrow> xs_signal \<Rightarrow> (xs_state, bool) eff" where
  "emit_signal env g = (\<lambda>s. case xe_emit env g of
       Inl e \<Rightarrow> (Inl e, s)
     | Inr b \<Rightarrow> (Inr b, if b then s\<lparr>xs_sent := xs_sent s @ [g]\<rparr> else s))"

definition diagnostics_json :: "selection \<Rightarrow> obj" where
  "diagnostics_json sel =
     [(''gross'', JNum (se_gross sel)), (''net'', JNum (se_net sel)),
      (''vwap_source'', JStr ''typical_price_proxy''), (''liquidity_source'', JStr ''close_x_base_volume_proxy'')]"

definition score_and_rank :: "selection \<Rightarrow> string \<Rightarrow> obj" where
  "score_and_rank sel s =
     [(''score'', jopt JNum (map_of (se_scores sel) s)), (''rank'', jopt JNum (map_of (se_ranks sel) s))]"

text \<open>The target book of a strategy that only publishes.\<close>

definition target_meta :: "xs_cfg \<Rightarrow> selection \<Rightarrow> (string, pyfloat) dict \<Rightarrow> obj" where
  "target_meta cfg sel prices =
     [(''n_long'', JInt (int (length (se_longs sel)))), (''n_short'', JInt (int (length (se_shorts sel)))),
      (''book_only'', JBool True), (''capital'', JNum (xc_capital cfg)), (''exchange'', JStr (xc_exchange cfg)),
      (''prices'', JObj (concat (map (\<lambda>(s, w). case map_of prices s of None \<Rightarrow> [] | Some p \<Rightarrow> [(s, JNum p)])
         (se_weights sel)))),
      (''diagnostics'', JObj (diagnostics_json sel))]"

definition publish_target_book ::
  "xs_cfg \<Rightarrow> xs_env \<Rightarrow> selection \<Rightarrow> (string, pyfloat) dict \<Rightarrow> int \<Rightarrow> (xs_state, unit) eff" where
  "publish_target_book cfg env sel prices candle =
     then_do (modify (\<lambda>s. s\<lparr>xs_revision := xs_revision s + 1\<rparr>))
     (bind get_state (\<lambda>s.
      bind (lift_res (create_book (xc_alpha cfg) (xc_timeframe cfg) (se_weights sel) (xs_revision s) candle
        (xe_iso_now env) (target_meta cfg sel prices))) (\<lambda>b.
      bind (lift_res (if xe_written env then write_book b (xs_books s) else Inl RedisError)) (\<lambda>store.
      modify (\<lambda>s. s\<lparr>xs_books := store\<rparr>)))))"

definition ledger_cfg_of :: "xs_cfg \<Rightarrow> ledger_cfg" where
  "ledger_cfg_of cfg = \<lparr>lc_alpha = xc_alpha cfg, lc_capital = xc_capital cfg, lc_exchange = xc_exchange cfg\<rparr>"

definition ledger_rebalance :: "xs_cfg \<Rightarrow> xs_env \<Rightarrow> selection \<Rightarrow> (string, pyfloat) dict \<Rightarrow> int \<Rightarrow> rebalance" where
  "ledger_rebalance cfg env sel prices candle =
     \<lparr>rb_weights = se_weights sel, rb_prices = prices, rb_candle = candle, rb_tf = xc_timeframe cfg,
      rb_metadata = map (\<lambda>(s, w). (s, dupdate (score_and_rank sel s) (diagnostics_json sel))) (se_weights sel),
      rb_at = xe_iso_now env, rb_reason = ''VIRTUAL_REBALANCE''\<rparr>"

definition apply_book_only ::
  "xs_cfg \<Rightarrow> xs_env \<Rightarrow> selection \<Rightarrow> (string, pyfloat) dict \<Rightarrow> int \<Rightarrow> (xs_state, unit) eff" where
  "apply_book_only cfg env sel prices candle =
     then_do (modify (\<lambda>s. s\<lparr>xs_base := se_weights sel\<rparr>))
     (then_do (publish_target_book cfg env sel prices candle)
     (modify (\<lambda>s. sync_alerts (xe_alert_client env) (s\<lparr>
        xs_ledger := snd (rebalance_ledger (xe_uuid5 env) (ledger_cfg_of cfg) (xe_pipe env)
          (ledger_rebalance cfg env sel prices candle) (xs_ledger s)),
        xs_stored := clear_positions (xe_written env) (xs_stored s)\<rparr>))))"

text \<open>Positions the worker still owns and the runner has lost are adopted, so that they are closed.\<close>

definition adopt_orphans :: "(string, obj) dict option \<Rightarrow> held \<Rightarrow> held" where
  "adopt_orphans auth ps = fold (\<lambda>(pid, pos) ps.
     let smb = jstr (dget pos ''symbol'' (JStr ''''))
     in if smb = '''' \<or> smb \<in> set (keys ps) then ps else dset smb pos ps) (case auth of None \<Rightarrow> [] | Some a \<Rightarrow> a) ps"

definition close_held ::
  "xs_cfg \<Rightarrow> xs_env \<Rightarrow> (string, pyfloat) dict \<Rightarrow> int \<Rightarrow> string \<times> obj \<Rightarrow> (xs_state, unit) eff" where
  "close_held cfg env prices candle = (\<lambda>(smb, pos).
     bind get_state (\<lambda>s.
     bind (lift_res (obj_item pos ''position_id'')) (\<lambda>pid.
     bind (lift_res (closest_exit_price prices (xs_last_prices s)
        (last_cached_close (xe_cache env) smb (xc_timeframe cfg)) smb pos)) (\<lambda>px.
     then_do (emit_signal env (XsClose smb pid px candle)) (ret ())))))"

definition turnover :: "weights \<Rightarrow> weights \<Rightarrow> pyfloat" where
  "turnover old new =
     fsum (map (\<lambda>s. fabs (dget new s (Fin 0) - dget old s (Fin 0))) (remdups (keys old @ keys new)))"

text \<open>The weights that can be opened, and as many longs as shorts of them.\<close>

definition openable :: "string list option \<Rightarrow> (string, pyfloat) dict \<Rightarrow> string \<Rightarrow> bool" where
  "openable tradable prices s \<longleftrightarrow>
     (case map_of prices s of None \<Rightarrow> False | Some p \<Rightarrow> truthy p \<and> \<not> p \<le> Fin 0)
     \<and> (case tradable of None \<Rightarrow> True | Some ts \<Rightarrow> s \<in> set ts)"

definition opening_weights :: "string list option \<Rightarrow> (string, pyfloat) dict \<Rightarrow> weights \<Rightarrow> weights" where
  "opening_weights tradable prices ws =
     (let ws = filter (\<lambda>(s, w). openable tradable prices s) ws in without (balance_drop ws) ws)"

definition new_held :: "xs_cfg \<Rightarrow> xs_env \<Rightarrow> int \<Rightarrow> pyfloat \<Rightarrow> string \<Rightarrow> pyfloat \<Rightarrow> pyfloat \<Rightarrow> obj" where
  "new_held cfg env candle lev smb w px =
     [(''position_id'', JStr (xe_uuid4 env smb)), (''symbol'', JStr smb),
      (''side'', JStr (if w > Fin 0 then ''LONG'' else ''SHORT'')), (''entry'', JNum px),
      (''qty'', JNum (quot (xc_capital cfg * fabs w * lev) px)), (''weight'', JNum w),
      (''strategy_leverage'', JNum lev), (''entry_candle_open_ms'', JInt candle)]"

definition open_signal_of :: "xs_cfg \<Rightarrow> xs_env \<Rightarrow> selection \<Rightarrow> int \<Rightarrow> pyfloat \<Rightarrow> string \<Rightarrow> pyfloat \<Rightarrow> pyfloat \<Rightarrow> xs_signal" where
  "open_signal_of cfg env sel candle lev smb w px =
     XsOpen smb (if w > Fin 0 then ''LONG'' else ''SHORT'') px (quot (xc_capital cfg * fabs w * lev) px)
       (xe_uuid4 env smb) (quot (xc_fee_bps cfg) (Fin 10000))
       (JObj (dupdate (score_and_rank sel smb @ [(''weight'', JNum w), (''strategy_leverage'', JNum lev)])
          (diagnostics_json sel))) candle"

definition open_one ::
  "xs_cfg \<Rightarrow> xs_env \<Rightarrow> selection \<Rightarrow> (string, pyfloat) dict \<Rightarrow> int \<Rightarrow> string \<times> pyfloat \<Rightarrow> (xs_state, unit) eff" where
  "open_one cfg env sel prices candle = (\<lambda>(smb, w).
     bind get_state (\<lambda>s.
     let px = dget prices smb NaN; lev = xs_leverage s
     in then_do (modify (\<lambda>s. s\<lparr>xs_open := dset smb (new_held cfg env candle lev smb w px) (xs_open s)\<rparr>))
        (bind (emit_signal env (open_signal_of cfg env sel candle lev smb w px)) (\<lambda>published.
         modify (\<lambda>s. if \<not> published \<and> \<not> rf_lease_valid (xe_flags env)
                     then s\<lparr>xs_open := ddel smb (xs_open s)\<rparr> else s)))))"

definition save_held :: "xs_env \<Rightarrow> (xs_state, unit) eff" where
  "save_held env = modify (\<lambda>s. sync_alerts (xe_alert_client env)
     (s\<lparr>xs_stored := save_positions (xe_written env) (xs_open s) (xs_stored s)\<rparr>))"

definition apply_trading ::
  "xs_cfg \<Rightarrow> xs_env \<Rightarrow> selection \<Rightarrow> (string, pyfloat) dict \<Rightarrow> int \<Rightarrow> (xs_state, unit) eff" where
  "apply_trading cfg env sel prices candle =
     then_do (modify (\<lambda>s. s\<lparr>xs_open := adopt_orphans (load_authoritative_positions (xe_snapshot env)) (xs_open s)\<rparr>))
     (then_do (bind get_state (\<lambda>s. for_each (close_held cfg env prices candle) (xs_open s)))
     (then_do (modify (\<lambda>s. s\<lparr>xs_open := [],
        xs_pending := quot (turnover (xs_base s) (se_weights sel) * xc_fee_bps cfg) (Fin 10000),
        xs_leverage := vol_target_leverage cfg s, xs_base := se_weights sel\<rparr>))
     (bind get_state (\<lambda>s.
        if xs_leverage s \<le> Fin 0 \<or> \<not> flags_can_open (xe_flags env) then save_held env
        else then_do (for_each (open_one cfg env sel prices candle)
               (opening_weights (xe_tradable env) prices (se_weights sel)))
             (save_held env)))))"

definition apply_selection ::
  "xs_cfg \<Rightarrow> xs_env \<Rightarrow> selection \<Rightarrow> (string, pyfloat) dict \<Rightarrow> int \<Rightarrow> (xs_state, unit) eff" where
  "apply_selection cfg env sel prices candle =
     (if xc_book_only cfg then apply_book_only cfg env sel prices candle
      else apply_trading cfg env sel prices candle)"

section \<open>When to scan\<close>

definition candle_coverage :: "xs_cfg \<Rightarrow> cache \<Rightarrow> int \<Rightarrow> real" where
  "candle_coverage cfg c candle =
     (if xc_symbols cfg = [] then 0
      else real (length (filter (\<lambda>s. case get_latest_timestamp (s, xc_timeframe cfg) c of
             None \<Rightarrow> False | Some t \<Rightarrow> t \<ge> candle) (xc_symbols cfg))) / real (length (xc_symbols cfg)))"

definition latest_cached_timestamp :: "xs_cfg \<Rightarrow> cache \<Rightarrow> int" where
  "latest_cached_timestamp cfg c =
     fold (\<lambda>s m. case get_latest_timestamp (s, xc_timeframe cfg) c of
        None \<Rightarrow> m | Some t \<Rightarrow> if t > m then t else m) (xc_symbols cfg) 0"

definition warmup_gap_reset :: int where
  "warmup_gap_reset = 5"

definition should_scan_after_event ::
  "xs_cfg \<Rightarrow> cache \<Rightarrow> string \<Rightarrow> string \<Rightarrow> string \<Rightarrow> (xs_state, bool) eff" where
  "should_scan_after_event cfg c kind smb tf =
     bind get_state (\<lambda>s.
     if kind \<noteq> ''kline'' \<or> tf \<noteq> xc_timeframe cfg \<or> smb = '''' \<or> smb \<notin> set (xc_symbols cfg) then ret False
     else case get_latest_timestamp (smb, xc_timeframe cfg) c of
         None \<Rightarrow> ret False
       | Some t \<Rightarrow>
           if t \<le> xs_last_candle s then ret False
           else then_do
             (if xs_warm s
              then bind (lift_res (res_bind (strategy_tf_ms (xc_timeframe cfg)) (py_floordiv (t - xs_last_candle s))))
                (\<lambda>gap. modify (\<lambda>s. if gap > warmup_gap_reset then s\<lparr>xs_warm := False\<rparr> else s))
              else ret ())
             (if xs_open s = [] \<and> candle_coverage cfg c t < xc_min_coverage cfg then ret False
              else then_do (modify (\<lambda>s. s\<lparr>xs_warm := True\<rparr>)) (ret True)))"

section \<open>A scan\<close>

definition flip_decision :: "string \<Rightarrow> string" where
  "flip_decision d = (if d = ''SHORT'' then ''LONG'' else if d = ''LONG'' then ''SHORT'' else ''FLAT'')"

definition reversed :: "selection \<Rightarrow> selection" where
  "reversed sel = sel\<lparr>se_longs := se_shorts sel, se_shorts := se_longs sel,
     se_weights := map (\<lambda>(s, w). (s, - w)) (se_weights sel),
     se_indicators := map (\<lambda>(s, d). (s, d\<lparr>in_decision := flip_decision (in_decision d), in_weight := - in_weight d\<rparr>))
       (se_indicators sel)\<rparr>"

text \<open>
  What the panel gives: its newest candle, the closes carried forward, and, should a selection be
  computed, the traded values and the row of the signal (or the exception its computation raises).
\<close>

record panel_view =
  bu_latest :: int
  bu_prices :: "(string, pyfloat) dict"
  bu_liquidity :: series
  bu_row :: "score_row res"

definition compute_selection :: "xs_cfg \<Rightarrow> panel_view \<Rightarrow> pyfloat \<Rightarrow> selection res" where
  "compute_selection cfg bu drawdown =
     res_bind (bu_row bu) (\<lambda>row.
     res_bind (select_positions (xc_select cfg) (xc_symbols cfg) (bu_liquidity bu) drawdown row) (\<lambda>sel.
     Inr (if xc_reverse cfg then reversed sel else sel)))"

text \<open>
  The audit line is written with \<open>allow_nan=False\<close>: it raises where the sampled symbol's weight is
  not finite.
\<close>

definition audit :: "selection \<Rightarrow> unit res" where
  "audit sel = (case se_indicators sel of
       [] \<Rightarrow> Inr ()
     | (s, d) # _ \<Rightarrow> if isfinite (in_weight d) then Inr () else Inl (ValueError ''Out of range float values''))"

definition newest_candle :: "int \<Rightarrow> int \<Rightarrow> int \<Rightarrow> int" where
  "newest_candle tf_ms latest cached = (if latest < cached \<and> cached \<le> latest + 2 * tf_ms then cached else latest)"

definition finish_candle :: "(string, pyfloat) dict \<Rightarrow> int \<Rightarrow> (xs_state, unit) eff" where
  "finish_candle prices latest = modify (\<lambda>s. s\<lparr>xs_last_prices := prices, xs_last_candle := latest\<rparr>)"

definition scan_candle ::
  "xs_cfg \<Rightarrow> xs_env \<Rightarrow> panel_view \<Rightarrow> int \<Rightarrow> int \<Rightarrow> (xs_state, unit) eff" where
  "scan_candle cfg env bu tf_ms latest =
     then_do (modify (record_portfolio_return cfg (xe_now env) (xe_written env) (bu_prices bu)))
     (if xc_at_midnight cfg \<and> \<not> is_midnight_close_utc latest tf_ms then finish_candle (bu_prices bu) latest
      else
        bind (lift_res (is_rebalance_due latest tf_ms (xc_rebalance_bars cfg) (xc_at_midnight cfg) (xc_on_close cfg)))
        (\<lambda>due. bind get_state (\<lambda>s.
        if \<not> due \<and> (xs_open s \<noteq> [] \<or> xc_book_only cfg) then finish_candle (bu_prices bu) latest
        else
          bind (lift_res (compute_selection cfg bu (current_drawdown s))) (\<lambda>sel.
          then_do (lift_res (audit sel))
          (then_do (apply_selection cfg env sel (bu_prices bu) latest)
          (finish_candle (bu_prices bu) latest))))))"

definition scan :: "xs_cfg \<Rightarrow> xs_env \<Rightarrow> panel_view option \<Rightarrow> (xs_state, unit) eff" where
  "scan cfg env panel =
     bind get_state (\<lambda>s.
     if \<not> rf_ready (xe_flags env) \<and> xs_open s = [] then ret ()
     else case panel of
         None \<Rightarrow> ret ()
       | Some bu \<Rightarrow>
           bind (lift_res (strategy_tf_ms (xc_timeframe cfg))) (\<lambda>tf_ms.
           let latest = newest_candle tf_ms (bu_latest bu) (latest_cached_timestamp cfg (xe_cache env))
           in if latest \<le> xs_last_candle s then ret () else scan_candle cfg env bu tf_ms latest))"

section \<open>Start\<close>

definition new_strategy :: "held \<Rightarrow> pyfloat \<Rightarrow> (string \<Rightarrow> jtext option) \<Rightarrow> jtext option \<Rightarrow> jtext option \<Rightarrow> publisher \<Rightarrow>
    alert_proxy option \<Rightarrow> xs_state" where
  "new_strategy ps leverage books stored pnl ledger alerts =
     \<lparr>xs_last_candle = 0, xs_warm = False, xs_open = ps, xs_returns = [], xs_equity = Fin 1, xs_peak = Fin 1,
      xs_shadow = Fin 1, xs_last_prices = [], xs_base = [], xs_pending = Fin 0, xs_leverage = leverage,
      xs_revision = 0, xs_sent = [], xs_stored = stored, xs_pnl = pnl, xs_books = books, xs_ledger = ledger,
      xs_alerts = alerts, xs_registered = [], xs_pnl_at = [], xs_pnl_sent = []\<rparr>"

text \<open>
  \<open>__init__\<close> over what the last process has left: the stored positions and the worker's snapshot,
  and for a strategy that only publishes its ledger, the marks and the target book.  All reads are
  answered here (a failed one is covered by the functions that take it).
\<close>

definition start_strategy ::
  "xs_cfg \<Rightarrow> xs_env \<Rightarrow> pyfloat \<Rightarrow> xs_state \<Rightarrow> xs_state" where
  "start_strategy cfg env leverage old =
     (let ps = reconcile_open_positions (Inr (xs_stored old)) (xe_snapshot env);
          s = sync_alerts (xe_alert_client env)
            (new_strategy ps leverage (xs_books old) (xs_stored old) (xs_pnl old) (xs_ledger old) (xs_alerts old))
      in if xc_book_only cfg
         then restore_shadow_state (Inr (xs_pnl old)) (read_book (xs_books old) (xc_alpha cfg))
           (s\<lparr>xs_ledger := start_publisher (xe_uuid5 env) (ledger_cfg_of cfg) (Inr (pb_stored (xs_ledger old)))
              (Inr (xs_books old (target_key (xc_alpha cfg)))) (xe_pipe env) ((xs_ledger old)\<lparr>pb_positions := []\<rparr>)\<rparr>)
         else s)"

text \<open>
  What \<^verbatim>\<open>runner/main.py\<close> does to a strategy that is ready after the first warm-up: the newest bar of
  the panel counts as processed.  A strategy claimed later is not touched by this.
\<close>

definition synced_start :: "panel_view option \<Rightarrow> xs_state \<Rightarrow> xs_state" where
  "synced_start panel s = (case panel of
       None \<Rightarrow> s
     | Some bu \<Rightarrow> s\<lparr>xs_last_candle := bu_latest bu\<rparr>)\<lparr>xs_warm := True\<rparr>"

section \<open>What the registration of alerts leaves alone\<close>

lemma sync_alerts_fields [simp]:
  "xs_last_candle (sync_alerts c s) = xs_last_candle s" "xs_warm (sync_alerts c s) = xs_warm s"
  "xs_open (sync_alerts c s) = xs_open s" "xs_returns (sync_alerts c s) = xs_returns s"
  "xs_equity (sync_alerts c s) = xs_equity s" "xs_peak (sync_alerts c s) = xs_peak s"
  "xs_shadow (sync_alerts c s) = xs_shadow s" "xs_last_prices (sync_alerts c s) = xs_last_prices s"
  "xs_base (sync_alerts c s) = xs_base s" "xs_pending (sync_alerts c s) = xs_pending s"
  "xs_leverage (sync_alerts c s) = xs_leverage s" "xs_revision (sync_alerts c s) = xs_revision s"
  "xs_sent (sync_alerts c s) = xs_sent s" "xs_stored (sync_alerts c s) = xs_stored s"
  "xs_pnl (sync_alerts c s) = xs_pnl s" "xs_books (sync_alerts c s) = xs_books s"
  "xs_ledger (sync_alerts c s) = xs_ledger s"
  by (simp_all add: sync_alerts_def split: option.splits prod.splits)

text \<open>The alerts registered are those of the positions held.\<close>

lemma sync_alerts_open: "xs_alerts s = Some p \<Longrightarrow> \<exists>q. xs_alerts (sync_alerts c s) = Some q \<and> pa_symbols q = set (keys (xs_open s))"
  by (simp add: sync_alerts_def alert_sync_def)

end
