(* ===== verification/SelectionProperties.thy ===== *)
theory SelectionProperties
  imports Selection Portfolio
begin

text \<open>
  What a selection gives: books that are balanced and scaled, from the strongest symbols, and where
  the scores have no spread, books without a number in them.
\<close>

section \<open>Sides of a book\<close>

lemma set_long_symbols: "dict_ok ws \<Longrightarrow> set (long_symbols ws) = {s. \<exists>w. map_of ws s = Some w \<and> w > Fin 0}"
  by (force simp: long_symbols_def)

lemma set_short_symbols: "dict_ok ws \<Longrightarrow> set (short_symbols ws) = {s. \<exists>w. map_of ws s = Some w \<and> w < Fin 0}"
  by (force simp: short_symbols_def)

lemma distinct_filter_keys: "dict_ok ws \<Longrightarrow> distinct (map fst (filter P ws))"
  by (simp add: distinct_map_filter)

lemma distinct_sides: "dict_ok ws \<Longrightarrow> distinct (long_symbols ws)" "dict_ok ws \<Longrightarrow> distinct (short_symbols ws)"
  by (simp_all add: long_symbols_def short_symbols_def distinct_filter_keys)

lemma float_asym: "w > Fin 0 \<Longrightarrow> \<not> w < Fin 0" for w :: pyfloat
  by (cases w) auto

lemma sides_disjoint:
  assumes "dict_ok ws"
  shows "set (long_symbols ws) \<inter> set (short_symbols ws) = {}"
  unfolding set_long_symbols [OF assms] set_short_symbols [OF assms] using float_asym by fastforce

lemma dict_ok_without [simp]: "dict_ok ws \<Longrightarrow> dict_ok (without drops ws)"
  by (simp add: without_def distinct_filter_keys)

lemma filter_keys: "map fst (filter (\<lambda>(s, w). P w) (filter (\<lambda>(s, w). Q s) ws)) = filter Q (map fst (filter (\<lambda>(s, w). P w) ws))"
  by (induction ws) auto

lemma long_symbols_without: "long_symbols (without drops ws) = filter (\<lambda>s. s \<notin> set drops) (long_symbols ws)"
  by (simp only: long_symbols_def without_def filter_keys filter_sort)

lemma short_symbols_without: "short_symbols (without drops ws) = filter (\<lambda>s. s \<notin> set drops) (short_symbols ws)"
  by (simp only: short_symbols_def without_def filter_keys filter_sort)

lemma length_drop_some:
  assumes "distinct xs" and "distinct ys" and "set ys \<subseteq> set xs"
  shows "length (filter (\<lambda>x. x \<notin> set ys) xs) = length xs - length ys"
proof -
  have "set (filter (\<lambda>x. x \<notin> set ys) xs) = set xs - set ys" by auto
  then have "length (filter (\<lambda>x. x \<notin> set ys) xs) = card (set xs - set ys)"
    using assms(1) by (metis distinct_card distinct_filter)
  also have "\<dots> = length xs - length ys"
    using assms by (simp add: card_Diff_subset distinct_card)
  finally show ?thesis .
qed

text \<open>The weakest of a side.\<close>

lemma weakest_part:
  assumes "distinct side"
  shows "set (weakest ws side n) \<subseteq> set side" and "distinct (weakest ws side n)"
    and "length (weakest ws side n) = length side - n"
  using assms by (auto simp: weakest_def dest: in_set_takeD)

lemma take_sort_key_least:
  assumes "x \<in> set (take n (sort_key f xs))" and "y \<in> set xs" and "y \<notin> set (take n (sort_key f xs))"
  shows "f x \<le> f y"
proof -
  have "y \<in> set (take n (sort_key f xs)) \<union> set (drop n (sort_key f xs))"
    using assms(2) by (metis append_take_drop_id set_append set_sort)
  then have y: "y \<in> set (drop n (sort_key f xs))" using assms(3) by simp
  have "sorted (map f (take n (sort_key f xs)) @ map f (drop n (sort_key f xs)))"
    by (simp flip: map_append)
  then show ?thesis using assms(1) y by (auto simp: sorted_append)
qed

lemma fkey_le: "fkey (Fin a) \<le> fkey (Fin b) \<longleftrightarrow> a \<le> b"
  by simp

text \<open>The trimmed book has as many longs as shorts.\<close>

lemma balance_drop_counts:
  assumes "dict_ok ws" and "long_symbols ws \<noteq> []" and "short_symbols ws \<noteq> []"
  defines "m \<equiv> min (length (long_symbols ws)) (length (short_symbols ws))"
  shows "length (long_symbols (without (balance_drop ws) ws)) = m"
    and "length (short_symbols (without (balance_drop ws) ws)) = m"
proof -
  have keep: "length (filter (\<lambda>s. s \<notin> set (weakest ws side m)) side) = min m (length side)"
    if "distinct side" for side
    using length_drop_some [OF that weakest_part(2,1) [OF that]] weakest_part(3) [OF that] by simp
  have other: "filter (\<lambda>s. s \<notin> set (weakest ws side m)) side' = side'"
    if "distinct side" "set side \<inter> set side' = {}" for side side'
    using weakest_part(1) [OF that(1), of ws m] that(2) by (intro filter_True) auto
  note d = distinct_sides [OF assms(1)] sides_disjoint [OF assms(1)]
  have d': "set (short_symbols ws) \<inter> set (long_symbols ws) = {}" using d(3) by blast
  consider "balance_drop ws = weakest ws (long_symbols ws) m" "length (short_symbols ws) = m"
    | "balance_drop ws = weakest ws (short_symbols ws) m" "length (long_symbols ws) = m"
    | "balance_drop ws = []" "length (long_symbols ws) = m" "length (short_symbols ws) = m"
  proof (cases "length (long_symbols ws)" "length (short_symbols ws)" rule: linorder_cases)
    case less
    with assms(2,3) show thesis by (intro that(2)) (simp_all add: balance_drop_def Let_def m_def)
  next
    case equal
    then show thesis by (intro that(3)) (simp_all add: balance_drop_def Let_def m_def)
  next
    case greater
    with assms(2,3) show thesis by (intro that(1)) (simp_all add: balance_drop_def Let_def m_def)
  qed
  note split = this
  have ml: "m \<le> length (long_symbols ws)" "m \<le> length (short_symbols ws)" by (simp_all add: m_def)
  have "length (long_symbols (without (balance_drop ws) ws)) = m \<and> length (short_symbols (without (balance_drop ws) ws)) = m"
  proof (rule split)
    assume 1: "balance_drop ws = weakest ws (long_symbols ws) m" "length (short_symbols ws) = m"
    show ?thesis unfolding 1(1) long_symbols_without short_symbols_without keep [OF d(1)] other [OF d(1,3)] 1(2) using ml by simp
  next
    assume 2: "balance_drop ws = weakest ws (short_symbols ws) m" "length (long_symbols ws) = m"
    show ?thesis unfolding 2(1) long_symbols_without short_symbols_without keep [OF d(2)] other [OF d(2) d'] 2(2) using ml by simp
  next
    assume 3: "balance_drop ws = []" "length (long_symbols ws) = m" "length (short_symbols ws) = m"
    show ?thesis unfolding 3(1) long_symbols_without short_symbols_without using 3(2,3) by simp
  qed
  then show "length (long_symbols (without (balance_drop ws) ws)) = m"
    "length (short_symbols (without (balance_drop ws) ws)) = m" by simp_all
qed

section \<open>Scaling\<close>

lemma gross_abs_finite: "finite_ws ws \<Longrightarrow> gross_abs ws = Fin (gross_of ws)"
  by (simp add: gross_abs_def fsum_gross)

lemma scale_gross_finite:
  assumes "finite_ws ws" and "0 < gross_of ws"
  shows "scale_gross ws = map (\<lambda>(s, w). (s, Fin (the_real w / gross_of ws))) ws"
  using assms by (auto simp: scale_gross_def gross_abs_finite quot_def finite_ws_def elim!: isfiniteE dest!: bspec)

lemma scale_gross_one:
  assumes "finite_ws ws" and "0 < gross_of ws"
  shows "finite_ws (scale_gross ws)" and "gross_of (scale_gross ws) = 1"
proof -
  show "finite_ws (scale_gross ws)"
    using assms by (auto simp: scale_gross_finite finite_ws_def comp_def split_def)
  have "gross_of (scale_gross ws) = (\<Sum>p \<leftarrow> ws. \<bar>the_real (snd p)\<bar> / gross_of ws)"
    using assms by (simp add: scale_gross_finite gross_of_def comp_def split_def abs_divide)
  also have "\<dots> = gross_of ws / gross_of ws"
    unfolding gross_of_def divide_inverse by (rule sum_list_mult_const)
  finally show "gross_of (scale_gross ws) = 1" using assms(2) by simp
qed

lemma sides_scaled:
  assumes "finite_ws ws" and "0 < gross_of ws"
  shows "long_symbols (scale_gross ws) = long_symbols ws" and "short_symbols (scale_gross ws) = short_symbols ws"
proof -
  have s: "map fst (filter (\<lambda>(s, w). P w) (map (\<lambda>(s, w). (s, g w)) ws)) = map fst (filter (\<lambda>(s, w). P w) ws)"
    if "\<And>s w. (s, w) \<in> set ws \<Longrightarrow> P (g w) = P w" for P and g :: "pyfloat \<Rightarrow> pyfloat"
    using that by (induction ws) auto
  have f: "isfinite w" if "(s, w) \<in> set ws" for s w using assms(1) that by (force simp: finite_ws_def)
  show "long_symbols (scale_gross ws) = long_symbols ws" "short_symbols (scale_gross ws) = short_symbols ws"
    using assms(2) f by (auto simp: scale_gross_finite [OF assms] long_symbols_def short_symbols_def
        zero_less_divide_iff divide_less_0_iff intro!: arg_cong [where f = sort] s elim!: isfiniteE dest!: f)
qed

section \<open>Equal weights\<close>

lemma equal_weights_neutral:
  assumes "equal_weights eligible longs shorts = (l, s, ws)"
  shows "length l = length s" "set l \<inter> set s = {}" "distinct l" "distinct s"
    "ws = [] \<or> gross_abs ws = Fin 1 \<and> fsum (map snd ws) = Fin 0"
proof -
  define L where "L = filter eligible (sort (remdups (filter (\<lambda>s. s \<notin> set shorts) longs)))"
  define S where "S = filter eligible (sort (remdups (filter (\<lambda>s. s \<notin> set longs) shorts)))"
  define k where "k = min (length L) (length S)"
  have ls: "l = take k L" "s = take k S" using assms by (simp_all add: equal_weights_def Let_def L_def S_def k_def)
  have ws: "ws = (if l \<noteq> [] \<and> s \<noteq> []
      then map (\<lambda>x. (x, Fin (1 / 2 / real (length l)))) l @ map (\<lambda>x. (x, Fin (- 1 / 2 / real (length s)))) s else [])"
  proof -
    have "equal_weights eligible longs shorts = (take k L, take k S, if take k L \<noteq> [] \<and> take k S \<noteq> []
        then map (\<lambda>x. (x, Fin (1 / 2 / real (length (take k L))))) (take k L)
          @ map (\<lambda>x. (x, Fin (- 1 / 2 / real (length (take k S))))) (take k S) else [])"
      by (simp only: equal_weights_def Let_def L_def S_def k_def)
    with assms show ?thesis unfolding ls by simp
  qed
  show len: "length l = length s" by (simp add: ls k_def)
  have "set L \<inter> set S = {}" by (auto simp: L_def S_def)
  then show "set l \<inter> set s = {}" unfolding ls by (meson disjoint_iff in_set_takeD)
  show "distinct l" "distinct s" by (simp_all add: ls L_def S_def)
  show "ws = [] \<or> gross_abs ws = Fin 1 \<and> fsum (map snd ws) = Fin 0"
  proof (cases "l = []")
    case False
    then have n: "0 < length l" "s \<noteq> []" using len by auto
    have c: "sum_list (map (\<lambda>x. c) xs) = real (length xs) * c" for c and xs :: "string list"
      by (simp add: sum_list_triv)
    have "fsum (map snd ws) = Fin 0"
      using n len by (subst fsum_finite) (auto simp: ws comp_def c)
    moreover have "gross_abs ws = Fin 1"
      unfolding gross_abs_def using n len by (subst fsum_finite) (auto simp: ws comp_def c)
    ultimately show ?thesis by simp
  qed (simp add: ws)
qed

fun plain_row :: "score_row \<Rightarrow> bool" where
  "plain_row (Ensemble oc s) = False"
| "plain_row _ = True"

text \<open>
  Neutrality of the equal-weight construction.  Whatever the scores, thresholds, conditions and
  universe are, the selection has as many longs as shorts, no symbol on both sides or twice on one,
  and is either empty or has gross exposure 1 and net exposure 0.
\<close>

theorem equal_selection_neutral:
  assumes "select_positions sp symbols liquidity dd row = Inr sel"
    and "plain_row row" and "ss_construction sp \<noteq> ''winsor_cont''"
  shows "length (se_longs sel) = length (se_shorts sel) \<and> set (se_longs sel) \<inter> set (se_shorts sel) = {} \<and>
    distinct (se_longs sel) \<and> distinct (se_shorts sel) \<and>
    (se_weights sel = [] \<or> se_gross sel = Fin 1 \<and> se_net sel = Fin 0)"
proof -
  obtain eligible scores ranks tails
    where sel: "sel = (\<lambda>(l, s, ws). mk_selection symbols l s scores ranks ws) (equal_weights eligible (fst tails) (snd tails))"
    using assms by (cases row) (auto simp: select_positions_def Let_def res_bind_Inr_iff case_prod_unfold)
  obtain l s ws where e: "equal_weights eligible (fst tails) (snd tails) = (l, s, ws)" by (metis prod_cases3)
  from equal_weights_neutral [OF e] show ?thesis by (simp add: sel e mk_selection_def)
qed

definition demo_select :: select_spec where
  "demo_select = \<lparr>ss_construction = ''rank'', ss_winsor_k = Fin 3, ss_top_k = None, ss_power = 1,
     ss_long_threshold = Some (1 / 2), ss_short_threshold = Some (1 / 2), ss_top_universe = False,
     ss_universe_size = 0, ss_balanced = True\<rparr>"

theorem equal_selection_neutral_witness:
  "\<exists>sel. select_positions demo_select [''a''] [] (Fin 0) (Conditions [''a''] [''c'']) = Inr sel \<and>
    length (se_longs sel) = length (se_shorts sel) \<and> se_weights sel \<noteq> []"
proof -
  obtain sel where s: "select_positions demo_select [''a''] [] (Fin 0) (Conditions [''a''] [''c'']) = Inr sel"
    "se_weights sel \<noteq> []"
    by (simp add: select_positions_def demo_select_def Let_def mk_selection_def equal_weights_def)
  from equal_selection_neutral [OF s(1)] s show ?thesis by (simp add: demo_select_def)
qed

section \<open>The trimmed side\<close>

text \<open>
  A book that is balanced loses its weakest symbols: of two symbols on the same side, one
  dropped and one kept, the kept one has at least the weight of the dropped one.
\<close>

theorem trim_drops_weakest:
  assumes "finite_ws ws" and "s \<in> set (balance_drop ws)" and "t \<notin> set (balance_drop ws)"
    and "0 < weight_of ws s * weight_of ws t"
  shows "\<bar>weight_of ws s\<bar> \<le> \<bar>weight_of ws t\<bar>"
proof -
  have ok: "dict_ok ws" using assms(1) by (simp add: finite_ws_def)
  have w: "map_of ws x = Some (Fin (weight_of ws x))" if "weight_of ws x \<noteq> 0" for x
    using that finite_map_of [OF assms(1), of x] by (cases "map_of ws x") (auto simp: weight_of_def dget_def)
  have nz: "weight_of ws s \<noteq> 0" "weight_of ws t \<noteq> 0" using assms(4) by auto
  obtain side n where d: "balance_drop ws = weakest ws side n" "side = long_symbols ws \<or> side = short_symbols ws"
  proof -
    have "balance_drop ws \<in> (let m = min (length (long_symbols ws)) (length (short_symbols ws))
        in {weakest ws (long_symbols ws) m, weakest ws (short_symbols ws) m, []})"
      by (simp add: balance_drop_def Let_def)
    with assms(2) that show thesis by (auto simp: Let_def)
  qed
  have "s \<in> set side" using assms(2) weakest_part(1) [of side ws n] distinct_sides [OF ok] d by auto
  then have "t \<in> set side"
    using d(2) w [OF nz(1)] w [OF nz(2)] assms(4) by (auto simp: set_long_symbols [OF ok] set_short_symbols [OF ok] zero_less_mult_iff)
  then have "fkey (fabs (dget ws s (Fin 0))) \<le> fkey (fabs (dget ws t (Fin 0)))"
    using assms(2,3) unfolding d(1) weakest_def by (intro take_sort_key_least [where n = "length side - n" and xs = side]) auto
  then show ?thesis by (simp add: finite_dget [OF assms(1)])
qed

definition demo_weights :: weights where
  "demo_weights = [(''a'', Fin (1 / 2)), (''b'', Fin (1 / 4)), (''c'', Fin (- 1 / 4))]"

theorem trim_drops_weakest_witness: "\<bar>weight_of demo_weights ''b''\<bar> \<le> \<bar>weight_of demo_weights ''a''\<bar>"
proof (rule trim_drops_weakest)
  show "finite_ws demo_weights" by (simp add: demo_weights_def finite_ws_def)
  have "balance_drop demo_weights = [''b'']"
    by (simp add: demo_weights_def balance_drop_def long_symbols_def short_symbols_def weakest_def Let_def dget_def)
  then show "''b'' \<in> set (balance_drop demo_weights)" "''a'' \<notin> set (balance_drop demo_weights)" by simp_all
  show "0 < weight_of demo_weights ''b'' * weight_of demo_weights ''a''"
    by (simp add: demo_weights_def weight_of_def dget_def)
qed

section \<open>The winsorized construction\<close>

definition finite_series :: "series \<Rightarrow> bool" where
  "finite_series s \<longleftrightarrow> finite_ws s"

lemma dropna_finite: "finite_ws s \<Longrightarrow> dropna s = s"
  by (auto simp: dropna_def finite_ws_def intro!: filter_True)

lemma mean_of_finite:
  assumes "\<forall>x \<in> set xs. isfinite x" and "xs \<noteq> []"
  shows "isfinite (mean_of xs)"
  using assms by (simp add: mean_of_def fsum_finite quot_def)

lemma std_of_finite:
  assumes "\<forall>x \<in> set xs. isfinite x" and "2 \<le> length xs"
  shows "isfinite (std_of xs)"
proof -
  have m: "isfinite (mean_of xs)" using assms by (intro mean_of_finite) auto
  have "isfinite (fsum (map (\<lambda>x. (x - mean_of xs) * (x - mean_of xs)) xs))"
    using assms(1) m by (subst fsum_finite) auto
  then show ?thesis using assms(2) by (auto simp: std_of_def Let_def quot_def elim!: isfiniteE)
qed

lemma winsorized_finite:
  assumes "finite_ws latest" and "2 \<le> length latest" and "std_of (map snd latest) \<noteq> Fin 0" and "isfinite k"
  shows "finite_ws (winsorized k latest)"
proof -
  have f: "\<forall>x \<in> set (map snd latest). isfinite x" using assms(1) by (auto simp: finite_ws_def)
  obtain sd where sd: "std_of (map snd latest) = Fin sd" "sd \<noteq> 0"
    using std_of_finite [OF f] assms(2,3) by (auto elim!: isfiniteE)
  have "map snd latest \<noteq> []" using assms(2) by auto
  with mean_of_finite [OF f] obtain m where m: "mean_of (map snd latest) = Fin m" by blast
  obtain c where c: "k = Fin c" using assms(4) by blast
  have "isfinite (clip k (quot (v - mean_of (map snd latest)) (std_of (map snd latest))))" if "isfinite v" for v
    using that sd m c by (auto simp: clip_def quot_def elim!: isfiniteE)
  then show ?thesis
    using assms(1) sd by (auto simp: winsorized_def Let_def finite_ws_def comp_def split_def)
qed

lemma set_take_sort: "set (take n (sort_key f xs)) \<subseteq> set xs"
  by (auto dest: in_set_takeD)

lemma dict_ok_take_sort: "dict_ok xs \<Longrightarrow> dict_ok (take n (sort_key f xs))"
  by (simp add: take_map [symmetric] distinct_map inj_on_subset)

lemma top_k_finite:
  assumes "finite_ws z"
  shows "finite_ws (top_k_sized k p z)"
proof -
  let ?l = "nlargest k (filter (\<lambda>(s, v). v > Fin 0) z)" and ?s = "nsmallest k (filter (\<lambda>(s, v). v < Fin 0) z)"
  have ok: "dict_ok z" and fin: "\<And>s v. (s, v) \<in> set z \<Longrightarrow> isfinite v" using assms by (auto simp: finite_ws_def)
  have l: "set ?l \<subseteq> {(s, v) \<in> set z. v > Fin 0}" and s: "set ?s \<subseteq> {(s, v) \<in> set z. v < Fin 0}"
    unfolding nlargest_def nsmallest_def using set_take_sort by fastforce+
  have d: "dict_ok ?l" "dict_ok ?s"
    unfolding nlargest_def nsmallest_def using distinct_filter_keys [OF ok] by (auto intro!: dict_ok_take_sort)
  have pw: "isfinite (fpow (fabs v) p)" if "isfinite v" for v using that by auto
  have "fst ` set ?l \<inter> fst ` set ?s = {}"
  proof -
    have False if "(x, v) \<in> set ?l" "(x, w) \<in> set ?s" for x v w
    proof -
      from that l s have "(x, v) \<in> set z" "(x, w) \<in> set z" "v > Fin 0" "w < Fin 0" by auto
      with ok float_asym show False by (metis eq_key_imp_eq_value)
    qed
    then show ?thesis by auto
  qed
  define R where "R = map (\<lambda>(s, v). (s, fpow (fabs v) p)) ?l @ map (\<lambda>(s, v). (s, Fin 0 - fpow (fabs v) p)) ?s"
  have R: "top_k_sized k p z = sort_key fst R"
    by (simp add: top_k_sized_def Let_def dropna_finite [OF assms] R_def)
  have "map fst R = map fst ?l @ map fst ?s" by (simp add: R_def comp_def split_def)
  with d \<open>fst ` set ?l \<inter> fst ` set ?s = {}\<close> have "dict_ok R" by simp
  moreover have "isfinite v" if "(x, v) \<in> set R" for x v
  proof -
    from that l s obtain v' where "(x, v') \<in> set z" "v = fpow (fabs v') p \<or> v = Fin 0 - fpow (fabs v') p"
      by (auto simp: R_def)
    with fin pw show ?thesis by auto
  qed
  ultimately show ?thesis unfolding R by (auto simp: finite_ws_def distinct_map)
qed

lemma gross_zero: "finite_ws z \<Longrightarrow> gross_of z = 0 \<Longrightarrow> filter (\<lambda>(s, w). w \<noteq> Fin 0) z = []"
proof (rule ccontr)
  assume z: "finite_ws z" "gross_of z = 0" and "filter (\<lambda>(s, w). w \<noteq> Fin 0) z \<noteq> []"
  then obtain s w where sw: "(s, w) \<in> set z" "w \<noteq> Fin 0" by (auto simp: filter_empty_conv)
  have "\<forall>x \<in> set (map (\<lambda>p. \<bar>the_real (snd p)\<bar>) z). x = 0"
    using z(2) unfolding gross_of_def by (subst sum_list_nonneg_eq_0_iff [symmetric]) auto
  with sw z(1) show False by (force simp: finite_ws_def elim!: isfiniteE)
qed

lemma gross_nonzero_part: "gross_of (filter (\<lambda>(s, w). w \<noteq> Fin 0) z) = gross_of z"
  by (induction z) (auto simp: gross_of_def)

lemma finite_ws_filter: "finite_ws z \<Longrightarrow> finite_ws (filter P z)"
  by (auto simp: finite_ws_def distinct_filter_keys)

lemma sized_weights:
  assumes "finite_ws z"
  defines "W \<equiv> filter (\<lambda>(s, w). w \<noteq> Fin 0) (scale_gross z)"
  shows "finite_ws W" and "W = [] \<or> gross_of W = 1"
proof -
  consider "gross_of z = 0" | "0 < gross_of z" using gross_nonneg [of z] by linarith
  then have "finite_ws W \<and> (W = [] \<or> gross_of W = 1)"
  proof cases
    case 1
    then have "scale_gross z = z" using assms(1) by (simp add: scale_gross_def gross_abs_finite)
    with 1 gross_zero [OF assms(1)] show ?thesis by (simp add: W_def)
  next
    case 2
    from scale_gross_one [OF assms(1) this] show ?thesis by (simp add: W_def gross_nonzero_part finite_ws_filter)
  qed
  then show "finite_ws W" "W = [] \<or> gross_of W = 1" by simp_all
qed

lemma long_gross:
  assumes "finite_ws ws" and "long_symbols ws \<noteq> []"
  shows "0 < gross_of ws"
proof (rule ccontr)
  assume "\<not> 0 < gross_of ws"
  then have "gross_of ws = 0" using gross_nonneg [of ws] by linarith
  from gross_zero [OF assms(1) this] have "\<forall>(s, w) \<in> set ws. w = Fin 0" by (auto simp: filter_empty_conv)
  then have "filter (\<lambda>(s, w). w > Fin 0) ws = []" by (auto simp: filter_empty_conv)
  with assms(2) show False by (simp add: long_symbols_def)
qed

lemma balanced_weights_paired:
  assumes W: "finite_ws W" "gross_of W = 1"
    and "long_symbols (balanced_weights W) \<noteq> []" and "short_symbols (balanced_weights W) \<noteq> []"
  shows "length (long_symbols (balanced_weights W)) = length (short_symbols (balanced_weights W))"
    and "finite_ws (balanced_weights W)" and "gross_of (balanced_weights W) = 1"
proof -
  have ok: "dict_ok W" using W by (simp add: finite_ws_def)
  have "length (long_symbols (balanced_weights W)) = length (short_symbols (balanced_weights W))
    \<and> finite_ws (balanced_weights W) \<and> gross_of (balanced_weights W) = 1"
  proof (cases "balance_drop W = []")
    case True
    then have b: "balanced_weights W = W" "without (balance_drop W) W = W" by (simp_all add: balanced_weights_def without_def)
    from balance_drop_counts [OF ok] assms(3,4) W show ?thesis by (simp add: b)
  next
    case False
    then have ne: "long_symbols W \<noteq> []" "short_symbols W \<noteq> []" by (auto simp: balance_drop_def Let_def split: if_splits)
    let ?T = "without (balance_drop W) W"
    note c = balance_drop_counts [OF ok ne]
    have T: "finite_ws ?T" using W by (simp add: without_def finite_ws_filter)
    have "0 < length (long_symbols ?T)" using c(1) ne by simp
    then have g: "0 < gross_of ?T" using long_gross [OF T] by simp
    have b: "balanced_weights W = scale_gross ?T" using False by (simp add: balanced_weights_def)
    show ?thesis using c scale_gross_one [OF T g] sides_scaled [OF T g] by (simp add: b)
  qed
  then show "length (long_symbols (balanced_weights W)) = length (short_symbols (balanced_weights W))"
    "finite_ws (balanced_weights W)" "gross_of (balanced_weights W) = 1" by simp_all
qed

text \<open>
  The winsorized construction over the whole universe.  Where the scores are finite and not
  all equal, a balanced selection that has both longs and shorts has as many of each, and its
  weights are finite with gross exposure 1, with and without the limit of k symbols a side.
\<close>

theorem winsor_selection_paired:
  assumes "select_positions sp symbols liquidity dd (Score score) = Inr sel"
    and "ss_construction sp = ''winsor_cont''" and "ss_balanced sp" and "\<not> ss_top_universe sp" and "isfinite (ss_winsor_k sp)"
    and "finite_ws score" and "2 \<le> length score" and "std_of (map snd score) \<noteq> Fin 0"
    and "se_longs sel \<noteq> []" and "se_shorts sel \<noteq> []"
  shows "length (se_longs sel) = length (se_shorts sel) \<and> finite_ws (se_weights sel) \<and> se_gross sel = Fin 1"
proof -
  let ?W = "winsor_weights sp score"
  have sel: "sel = mk_selection symbols (long_symbols (balanced_weights ?W)) (short_symbols (balanced_weights ?W)) score
      (rank_pct score) (balanced_weights ?W)"
    using assms(1-4) by (simp add: select_positions_def Let_def dropna_finite [OF assms(6)])
  have z: "finite_ws (winsorized (ss_winsor_k sp) score)" by (rule winsorized_finite [OF assms(6-8,5)])
  have "finite_ws (case ss_top_k sp of Some k \<Rightarrow> top_k_sized k (ss_power sp) (winsorized (ss_winsor_k sp) score)
      | None \<Rightarrow> winsorized (ss_winsor_k sp) score)"
    using z top_k_finite [OF z] by (cases "ss_top_k sp") simp_all
  from sized_weights [OF this] have W: "finite_ws ?W" "?W = [] \<or> gross_of ?W = 1"
    by (simp_all add: winsor_weights_def Let_def)
  have ne: "long_symbols (balanced_weights ?W) \<noteq> []" "short_symbols (balanced_weights ?W) \<noteq> []"
    using assms(9,10) by (simp_all add: sel mk_selection_def)
  have "?W \<noteq> []" using ne(1) by (auto simp: balanced_weights_def balance_drop_def long_symbols_def)
  with W have "gross_of ?W = 1" by simp
  from balanced_weights_paired [OF W(1) this ne] show ?thesis
    by (simp add: sel mk_selection_def gross_abs_finite)
qed

text \<open>
  Scores without spread have no weights that are numbers.  Where all scores of the candle are
  equal (one symbol alone included), the full winsorized construction selects nobody, but its
  weights hold a NaN for every symbol: the division by the missing deviation survives the test
  \<open>w != 0\<close>.
\<close>

theorem no_spread_gives_nan:
  assumes "score \<noteq> []" and "list_all (\<lambda>(s, v). v = Fin c) score"
    and "ss_construction sp = ''winsor_cont''" and "ss_top_k sp = None" and "\<not> ss_top_universe sp" and "isfinite (ss_winsor_k sp)"
  shows "\<exists>sel. select_positions sp symbols liquidity dd (Score score) = Inr sel \<and> se_longs sel = [] \<and> se_shorts sel = [] \<and>
    se_weights sel = map (\<lambda>(s, v). (s, NaN)) score"
proof -
  have eq: "map snd score = replicate (length score) (Fin c)"
    using assms(2) by (induction score) auto
  have drp: "dropna score = score" using assms(2) by (auto simp: dropna_def list_all_iff intro!: filter_True)
  have sum: "fsum (replicate n (Fin x)) = Fin (real n * x)" for n x
    by (subst fsum_finite) (auto simp: sum_list_replicate)
  have m: "mean_of (map snd score) = Fin c" using assms(1) by (simp add: mean_of_def eq sum quot_def)
  have "std_of (map snd score) = NaN \<or> std_of (map snd score) = Fin 0"
    using m by (auto simp: std_of_def eq sum quot_def)
  then have "(if std_of (map snd score) = Fin 0 then NaN else std_of (map snd score)) = NaN" by auto
  moreover have "quot x NaN = NaN" "clip k NaN = NaN" for x k
    by (cases x) (simp_all add: quot_def fdiv_def clip_def)
  ultimately have "winsorized (ss_winsor_k sp) score = map (\<lambda>(s, v). (s, NaN)) score"
    unfolding winsorized_def Let_def by simp
  moreover have "gross_abs (map (\<lambda>(s, v). (s, NaN)) score) = NaN"
  proof -
    have "foldl (+) NaN (map (\<lambda>(s, v). NaN) xs) = NaN" for xs :: series by (induction xs) auto
    then show ?thesis using assms(1) by (cases score) (auto simp: gross_abs_def fsum_def fabs_def comp_def split_def)
  qed
  moreover have f: "filter (\<lambda>(s, w). w \<noteq> Fin 0) (map (\<lambda>(s, v). (s, NaN)) xs) = map (\<lambda>(s, v). (s, NaN)) xs"
    "filter (\<lambda>(s, w). w > Fin 0) (map (\<lambda>(s, v). (s, NaN)) xs) = []"
    "filter (\<lambda>(s, w). w < Fin 0) (map (\<lambda>(s, v). (s, NaN)) xs) = []" for xs :: series by (induction xs) auto
  ultimately have W: "winsor_weights sp score = map (\<lambda>(s, v). (s, NaN)) score"
    using assms(4) by (simp add: winsor_weights_def scale_gross_def)
  have s: "long_symbols (map (\<lambda>(s, v). (s, NaN)) score) = []" "short_symbols (map (\<lambda>(s, v). (s, NaN)) score) = []"
    by (simp_all add: long_symbols_def short_symbols_def f)
  then have "balanced_weights (map (\<lambda>(s, v). (s, NaN)) score) = map (\<lambda>(s, v). (s, NaN)) score"
    by (simp add: balanced_weights_def balance_drop_def)
  with W s assms(3,5) drp show ?thesis by (simp add: select_positions_def Let_def mk_selection_def)
qed

definition demo_winsor :: "int option \<Rightarrow> select_spec" where
  "demo_winsor k = demo_select\<lparr>ss_construction := ''winsor_cont'', ss_top_k := k\<rparr>"

theorem no_spread_gives_nan_witness:
  "\<exists>sel. select_positions (demo_winsor None) [''a''] [] (Fin 0) (Score [(''a'', Fin 1), (''b'', Fin 1)]) = Inr sel \<and>
    se_longs sel = [] \<and> se_shorts sel = [] \<and> se_weights sel = [(''a'', NaN), (''b'', NaN)]"
  using no_spread_gives_nan [of "[(''a'', Fin 1), (''b'', Fin 1)]" 1 "demo_winsor None"]
  by (simp add: demo_winsor_def demo_select_def)

lemma demo_scores:
  "finite_ws [(''a'', Fin 1), (''b'', Fin (- 1))]" "std_of [Fin 1, Fin (- 1)] = Fin (sqrt 2)"
  by (simp_all add: finite_ws_def std_of_def mean_of_def quot_def fsum_def)

theorem winsor_selection_paired_witness:
  "\<exists>sel. select_positions (demo_winsor None) [] [] (Fin 0) (Score [(''a'', Fin 1), (''b'', Fin (- 1))]) = Inr sel \<and>
    length (se_longs sel) = length (se_shorts sel) \<and> finite_ws (se_weights sel) \<and> se_gross sel = Fin 1"
proof -
  have a: "1 < sqrt (2::real)" by simp
  have "1 < 3 * sqrt (2::real)" using a by linarith
  then have s: "0 < sqrt (2::real)" "1 / sqrt 2 < (3::real)" by (simp_all add: divide_less_eq)
  have "0 < 1 / sqrt (2::real)" by simp
  then have s': "\<not> (3::real) < - (1 / sqrt 2)" by linarith
  have W: "winsor_weights (demo_winsor None) [(''a'', Fin 1), (''b'', Fin (- 1))] = [(''a'', Fin (1 / 2)), (''b'', Fin (- 1 / 2))]"
    using s s' by (simp add: winsor_weights_def demo_winsor_def demo_select_def winsorized_def Let_def demo_scores mean_of_def
        fsum_def quot_def clip_def scale_gross_def gross_abs_def)
  have b: "balanced_weights [(''a'', Fin (1 / 2)), (''b'', Fin (- 1 / 2))] = [(''a'', Fin (1 / 2)), (''b'', Fin (- 1 / 2))]"
    by (simp add: balanced_weights_def balance_drop_def long_symbols_def short_symbols_def Let_def)
  obtain sel where sel: "select_positions (demo_winsor None) [] [] (Fin 0) (Score [(''a'', Fin 1), (''b'', Fin (- 1))]) = Inr sel"
    "se_longs sel = [''a'']" "se_shorts sel = [''b'']"
    using W b by (simp add: select_positions_def Let_def dropna_def mk_selection_def)
      (simp add: demo_winsor_def demo_select_def long_symbols_def short_symbols_def)
  from winsor_selection_paired [OF sel(1)] sel show ?thesis
    by (simp add: demo_scores) (simp add: demo_winsor_def demo_select_def)
qed

section \<open>The overlays\<close>

text \<open>
  Beta neutrality.  Where the market has variance and some held symbol has a beta, the adjusted
  weights have portfolio beta 0.
\<close>

theorem beta_is_neutralized:
  assumes "finite_ws ws" and "finite_ws betas" and "(\<Sum>p \<leftarrow> ws. (weight_of betas (fst p))\<^sup>2) \<noteq> 0"
  shows "(\<Sum>p \<leftarrow> beta_neutralize (Some betas) ws. the_real (snd p) * weight_of betas (fst p)) = 0"
proof -
  let ?b = "weight_of betas"
  have b: "(case map_of betas k of None \<Rightarrow> Fin 0 | Some x \<Rightarrow> if x = NaN then Fin 0 else x) = Fin (?b k)" for k
    using finite_map_of [OF assms(2), of k] by (auto simp: weight_of_def dget_def split: option.splits)
  have w: "isfinite w" if "(k, w) \<in> set ws" for k w using assms(1) that by (force simp: finite_ws_def)
  have "fsum (map (\<lambda>(k, w). w * Fin (?b k)) ws) = Fin (\<Sum>p \<leftarrow> ws. the_real (snd p) * ?b (fst p))" (is "_ = Fin ?P")
  proof -
    have "map (\<lambda>(k, w). w * Fin (?b k)) ws = map (\<lambda>p. Fin (the_real (snd p) * ?b (fst p))) ws"
      using w by (intro map_cong refl) (auto elim!: isfiniteE dest!: w)
    then have "fsum (map (\<lambda>(k, w). w * Fin (?b k)) ws) = fsum (map (\<lambda>p. Fin (the_real (snd p) * ?b (fst p))) ws)"
      by (rule arg_cong)
    also have "\<dots> = Fin ?P" by (subst fsum_finite) (auto simp: comp_def)
    finally show ?thesis .
  qed
  moreover have "fsum (map (\<lambda>(k, w). Fin (?b k) * Fin (?b k)) ws) = Fin (\<Sum>p \<leftarrow> ws. (?b (fst p))\<^sup>2)" (is "_ = Fin ?S")
    by (subst fsum_finite) (auto simp: comp_def split_def power2_eq_square)
  ultimately have "beta_neutralize (Some betas) ws = map (\<lambda>(k, w). (k, w - Fin (?b k) * Fin (?P / ?S))) ws"
    using assms(3) by (simp add: beta_neutralize_def Let_def b quot_def)
  also have "\<dots> = map (\<lambda>p. (fst p, Fin (the_real (snd p) - ?b (fst p) * (?P / ?S)))) ws"
    using w by (intro map_cong refl) (auto elim!: isfiniteE dest!: w)
  finally have "(\<Sum>p \<leftarrow> beta_neutralize (Some betas) ws. the_real (snd p) * ?b (fst p)) =
      (\<Sum>p \<leftarrow> ws. (the_real (snd p) - ?b (fst p) * (?P / ?S)) * ?b (fst p))" by (simp add: comp_def)
  also have "\<dots> = (\<Sum>p \<leftarrow> ws. the_real (snd p) * ?b (fst p) - (?b (fst p))\<^sup>2 * (?P / ?S))"
  proof -
    have "(x - b * c) * b = x * b - b\<^sup>2 * c" for x b c :: real by (simp add: algebra_simps power2_eq_square)
    then show ?thesis by (simp only:)
  qed
  also have "\<dots> = ?P - (\<Sum>p \<leftarrow> ws. (?b (fst p))\<^sup>2 * (?P / ?S))" by (rule sum_list_subtractf)
  also have "\<dots> = ?P - ?S * (?P / ?S)" by (simp only: sum_list_mult_const)
  also have "\<dots> = 0" using assms(3) by simp
  finally show ?thesis .
qed

theorem beta_is_neutralized_witness:
  "(\<Sum>p \<leftarrow> beta_neutralize (Some [(''a'', Fin 2)]) [(''a'', Fin 1)]. the_real (snd p) * weight_of [(''a'', Fin 2)] (fst p)) = 0"
  by (rule beta_is_neutralized) (simp_all add: finite_ws_def weight_of_def dget_def)

end
