(* ===== verification/CrossProperties.thy ===== *)
theory CrossProperties
  imports CrossSectional SelectionProperties ShadowProperties
begin

text \<open>
  The cross-sectional strategy of the runner: what a rebalance sends, how the book is marked to
  market, and what a failure or a restart in between does to both.
\<close>

section \<open>Marking to market\<close>

definition finite_prices_of :: "(string, pyfloat) dict \<Rightarrow> bool" where
  "finite_prices_of ps \<longleftrightarrow> list_all (\<lambda>(s, x). isfinite x) ps"

lemma finite_price_of: "finite_prices_of ps \<Longrightarrow> map_of ps s = Some x \<Longrightarrow> isfinite x"
  by (auto simp: finite_prices_of_def list_all_iff dest: map_of_SomeD)

lemma quot_finite: "isfinite x \<Longrightarrow> isfinite y \<Longrightarrow> y \<noteq> Fin 0 \<Longrightarrow> isfinite (quot x y)"
  by (auto simp: quot_def fdiv_def elim!: isfiniteE)

lemma price_return_finite:
  assumes "finite_prices_of before" and "finite_prices_of after" and "isfinite w"
    and "price_return (map_of before s) (map_of after s) w = Some r"
  shows "isfinite r"
proof -
  from assms(4) obtain b a where ba: "map_of before s = Some b" "map_of after s = Some a" "b \<noteq> Fin 0"
    "r = w * (quot a b - Fin 1)"
    by (auto simp: price_return_def truthy_def split: option.splits if_splits)
  have "isfinite b" "isfinite a" using ba assms finite_price_of by blast+
  then show ?thesis using ba assms(3) quot_finite by simp
qed

lemma book_return_finite:
  assumes "finite_prices_of before" and "finite_prices_of after" and "finite_ws ws"
  shows "isfinite (book_return before after ws)"
proof -
  have "isfinite (foldl (\<lambda>gross (s, w). case price_return (map_of before s) (map_of after s) w of
       None \<Rightarrow> gross | Some r \<Rightarrow> gross + r) g ws)" if "isfinite g" "\<forall>p \<in> set ws. isfinite (snd p)" for g
    using that price_return_finite [OF assms(1,2)] by (induction ws arbitrary: g) (auto split: option.splits)
  with assms(3) show ?thesis by (simp add: book_return_def finite_ws_def)
qed

text \<open>The marks of a strategy: all numbers, and the peak above the equity.\<close>

definition marks_ok :: "xs_state \<Rightarrow> bool" where
  "marks_ok s \<longleftrightarrow> isfinite (xs_equity s) \<and> isfinite (xs_peak s) \<and> isfinite (xs_shadow s) \<and> isfinite (xs_pending s) \<and>
     xs_equity s \<le> xs_peak s \<and> finite_prices_of (xs_last_prices s) \<and> finite_ws (xs_base s) \<and>
     (\<forall>x \<in> set (xs_returns s). isfinite x)"

lemma marks_of_publish [simp]:
  "marks_ok (publish_shadow_pnl cfg now written rt prices s) = marks_ok s"
  by (simp add: publish_shadow_pnl_def marks_ok_def)

lemma set_last_n: "set (last_n n xs) \<subseteq> set xs"
  by (auto simp: last_n_def dest: in_set_dropD)

lemma record_keeps_marks:
  assumes "marks_ok s" and "finite_prices_of prices"
  shows "marks_ok (record_portfolio_return cfg now written prices s)"
proof (cases "xs_last_prices s = [] \<or> xs_base s = []")
  case False
  define rt where "rt = book_return (xs_last_prices s) prices (xs_base s) - xs_pending s"
  have rt: "isfinite rt" using assms book_return_finite by (simp add: marks_ok_def rt_def)
  then obtain e p w where e: "xs_equity s * (Fin 1 + rt) = Fin e" "xs_peak s = Fin p" "xs_shadow s * (Fin 1 + rt) = Fin w"
    using assms(1) by (auto simp: marks_ok_def elim!: isfiniteE)
  have "\<forall>x \<in> set (last_n n (xs_returns s @ [rt])). isfinite x" for n
    using rt assms(1) set_last_n [of n "xs_returns s @ [rt]"] by (auto simp: marks_ok_def)
  then show ?thesis
    using False assms e by (simp add: record_portfolio_return_def Let_def rt_def [symmetric]) (simp add: marks_ok_def)
qed (use assms in \<open>simp add: record_portfolio_return_def\<close>)

lemma drawdown_nonpos:
  assumes "marks_ok s"
  shows "isfinite (current_drawdown s) \<and> current_drawdown s \<le> Fin 0"
proof -
  obtain e p where e: "xs_equity s = Fin e" "xs_peak s = Fin p" "e \<le> p"
    using assms by (auto simp: marks_ok_def elim!: isfiniteE)
  then show ?thesis by (auto simp: current_drawdown_def quot_def divide_nonpos_pos)
qed

text \<open>
  The marks are an invariant.  From a state whose marks are numbers with the peak above the
  equity, any number of candles with finite prices leads to such a state again, and the drawdown the
  throttle reads is a number that is at most 0.
\<close>

theorem marks_stay_sound:
  assumes "marks_ok s" and "list_all finite_prices_of marks"
  shows "marks_ok (fold (record_portfolio_return cfg now written) marks s) \<and>
    isfinite (current_drawdown (fold (record_portfolio_return cfg now written) marks s)) \<and>
    current_drawdown (fold (record_portfolio_return cfg now written) marks s) \<le> Fin 0"
proof -
  have "marks_ok (fold (record_portfolio_return cfg now written) marks s)"
    using assms by (induction marks arbitrary: s) (simp_all add: record_keeps_marks)
  with drawdown_nonpos show ?thesis by simp
qed

text \<open>What is read back from the last mark.\<close>

lemma float_dict_numbers: "float_dict (JObj (map (\<lambda>(k, p). (k, JNum p)) ps)) = Inr ps"
proof -
  have "res_map (\<lambda>(k, v). res_bind (jfloat v) (\<lambda>x. Inr (k, x))) (map (\<lambda>(k, p). (k, JNum p)) ps) = Inr ps"
    by (induction ps) auto
  then show ?thesis by (simp add: float_dict_def)
qed

lemma restore_published:
  assumes "xs_shadow s = Fin q" and "0 < q" and "xs_peak s = Fin p" and "q \<le> p" and "ps \<noteq> []"
  shows "restore_equity (Inr (Some (jdumps (shadow_pnl_json cfg now rt ps s)))) s0 =
    s0\<lparr>xs_shadow := Fin q, xs_equity := Fin q, xs_peak := Fin p, xs_last_prices := ps\<rparr>"
proof -
  obtain x xs where ps: "ps = x # xs" using assms(5) by (cases ps) auto
  have "max q p = p" using assms(4) by simp
  then show ?thesis
    using assms(1-4) float_dict_numbers [of ps] unfolding ps
    by (simp add: restore_equity_def shadow_pnl_json_def jdumps_def dget_def Let_def)
qed

text \<open>
  The equity curve of a strategy that only publishes survives a restart.  After a mark whose
  write succeeded, a new process reads back the equity, its peak, the marked prices and, where the
  target book is the base of the marks, the weights; so the next candle gives the equity it would
  have given without the restart.
\<close>

theorem shadow_curve_survives_restart:
  assumes "xc_book_only cfg" and "marks_ok s" and "finite_prices_of prices" and "prices \<noteq> []"
    and "xs_last_prices s \<noteq> []" and "xs_base s \<noteq> []" and "xs_shadow s = xs_equity s"
    and "Fin 0 < xs_equity (record_portfolio_return cfg now True prices s)"
    and "read_book (xs_books s) (xc_alpha cfg) = Inr (Some b)" and "k_weights b = xs_base s"
  shows "let s1 = (record_portfolio_return cfg now True prices s)\<lparr>xs_last_prices := prices\<rparr>;
             s2 = start_strategy cfg env leverage s1
         in xs_equity s2 = xs_equity s1 \<and> xs_shadow s2 = xs_shadow s1 \<and> xs_peak s2 = xs_peak s1 \<and>
            xs_base s2 = xs_base s1 \<and> xs_last_prices s2 = prices \<and>
            xs_equity (record_portfolio_return cfg now' w later s2) = xs_equity (record_portfolio_return cfg now' w later s1)"
proof -
  define rt where "rt = book_return (xs_last_prices s) prices (xs_base s) - xs_pending s"
  define r where "r = s\<lparr>xs_returns := last_n (max (xc_vol_lookback cfg * 2) 10) (xs_returns s @ [rt]),
      xs_pending := Fin 0, xs_equity := xs_equity s * (Fin 1 + rt),
      xs_peak := (if xs_equity s * (Fin 1 + rt) > xs_peak s then xs_equity s * (Fin 1 + rt) else xs_peak s),
      xs_shadow := xs_shadow s * (Fin 1 + rt)\<rparr>"
  have rec: "record_portfolio_return cfg now True prices s = r\<lparr>xs_pnl := Some (jdumps (shadow_pnl_json cfg now rt prices r))\<rparr>"
    using assms(1,5,6) by (simp add: record_portfolio_return_def Let_def rt_def [symmetric] r_def publish_shadow_pnl_def)
  have ok: "marks_ok (record_portfolio_return cfg now True prices s)" by (rule record_keeps_marks [OF assms(2,3)])
  obtain q p where q: "xs_equity r = Fin q" "xs_peak r = Fin p" "q \<le> p" "0 < q"
    using ok assms(8) by (auto simp: rec marks_ok_def elim!: isfiniteE)
  have sh: "xs_shadow r = Fin q" using q(1) assms(7) by (simp add: r_def)
  have books: "xs_books r = xs_books s" and base: "xs_base r = xs_base s" by (simp_all add: r_def)
  define s1 where "s1 = (record_portfolio_return cfg now True prices s)\<lparr>xs_last_prices := prices\<rparr>"
  define s2 where "s2 = start_strategy cfg env leverage s1"
  have s1: "xs_equity s1 = Fin q" "xs_shadow s1 = Fin q" "xs_peak s1 = Fin p" "xs_base s1 = xs_base s"
    "xs_last_prices s1 = prices" "xs_pending s1 = Fin 0" "xs_pnl s1 = Some (jdumps (shadow_pnl_json cfg now rt prices r))"
    "xs_books s1 = xs_books s"
    using q sh books base by (simp_all add: s1_def rec) (simp add: r_def)
  have s2: "xs_equity s2 = Fin q" "xs_shadow s2 = Fin q" "xs_peak s2 = Fin p" "xs_base s2 = xs_base s"
    "xs_last_prices s2 = prices" "xs_pending s2 = Fin 0"
    using assms(1,6,9,10) restore_published [OF sh q(4,2,3) assms(4)]
    by (simp_all add: s2_def start_strategy_def Let_def restore_shadow_state_def restore_base_def s1 new_strategy_def)
  have "xs_equity (record_portfolio_return cfg now' w later x) =
      (if prices = [] \<or> xs_base s = [] then Fin q else Fin q * (Fin 1 + (book_return prices later (xs_base s) - Fin 0)))"
    if "xs_equity x = Fin q" "xs_base x = xs_base s" "xs_last_prices x = prices" "xs_pending x = Fin 0" for x
    using that by (simp add: record_portfolio_return_def Let_def publish_shadow_pnl_def)
  then show ?thesis using s1 s2 by (simp add: Let_def flip: s1_def s2_def)
qed

section \<open>A scan that fails\<close>

lemma record_fields [simp]:
  "xs_last_candle (record_portfolio_return cfg now w ps s) = xs_last_candle s"
  "xs_last_prices (record_portfolio_return cfg now w ps s) = xs_last_prices s"
  "xs_base (record_portfolio_return cfg now w ps s) = xs_base s"
  "xs_open (record_portfolio_return cfg now w ps s) = xs_open s"
  "xs_sent (record_portfolio_return cfg now w ps s) = xs_sent s"
  "xs_ledger (record_portfolio_return cfg now w ps s) = xs_ledger s"
  "xs_stored (record_portfolio_return cfg now w ps s) = xs_stored s"
  "xs_revision (record_portfolio_return cfg now w ps s) = xs_revision s"
  by (simp_all add: record_portfolio_return_def Let_def publish_shadow_pnl_def)

text \<open>A candle on which the strategy rebalances.\<close>

definition rebalances_at :: "xs_cfg \<Rightarrow> xs_env \<Rightarrow> panel_view \<Rightarrow> int \<Rightarrow> bool" where
  "rebalances_at cfg env bu candle \<longleftrightarrow>
     (\<exists>ms. strategy_tf_ms (xc_timeframe cfg) = Inr ms \<and>
       newest_candle ms (bu_latest bu) (latest_cached_timestamp cfg (xe_cache env)) = candle \<and>
       (xc_at_midnight cfg \<longrightarrow> is_midnight_close_utc candle ms) \<and>
       is_rebalance_due candle ms (xc_rebalance_bars cfg) (xc_at_midnight cfg) (xc_on_close cfg) = Inr True)"

lemma scan_rebalance:
  assumes "rebalances_at cfg env bu candle" and "rf_ready (xe_flags env)" and "xs_last_candle s < candle"
  shows "scan cfg env (Some bu) s =
    (let s1 = record_portfolio_return cfg (xe_now env) (xe_written env) (bu_prices bu) s
     in bind (lift_res (compute_selection cfg bu (current_drawdown s1))) (\<lambda>sel.
        then_do (lift_res (audit sel))
        (then_do (apply_selection cfg env sel (bu_prices bu) candle) (finish_candle (bu_prices bu) candle))) s1)"
  using assms by (auto simp: rebalances_at_def scan_def scan_candle_def Let_def)

text \<open>
  A failure in the middle of a rebalance counts the return of the candle again.  The scan marks
  the book before it computes the selection and only ends the candle at the end, so while the
  computation raises, n scans of the one candle multiply the equity by the n-th power of its return.
\<close>

theorem failed_scan_compounds:
  assumes "rebalances_at cfg env bu candle" and "rf_ready (xe_flags env)" and "xs_last_candle s < candle"
    and "bu_row bu = Inl e" and "xs_last_prices s \<noteq> []" and "xs_base s \<noteq> []" and "xs_pending s = Fin 0"
    and "xs_equity s = Fin q" and "book_return (xs_last_prices s) (bu_prices bu) (xs_base s) = Fin r"
  shows "xs_equity (((\<lambda>s. snd (scan cfg env (Some bu) s)) ^^ n) s) = Fin (q * (1 + r) ^ n) \<and>
    xs_last_candle (((\<lambda>s. snd (scan cfg env (Some bu) s)) ^^ n) s) < candle"
proof -
  let ?P = "\<lambda>n t. xs_equity t = Fin (q * (1 + r) ^ n) \<and> xs_last_candle t < candle \<and> xs_last_prices t = xs_last_prices s \<and>
      xs_base t = xs_base s \<and> xs_pending t = Fin 0"
  have "?P n (((\<lambda>s. snd (scan cfg env (Some bu) s)) ^^ n) s)"
  proof (induction n)
    case 0
    with assms show ?case by simp
  next
    case (Suc n)
    define t where "t = ((\<lambda>s. snd (scan cfg env (Some bu) s)) ^^ n) s"
    have t: "?P n t" using Suc by (simp add: t_def)
    have "snd (scan cfg env (Some bu) t) = record_portfolio_return cfg (xe_now env) (xe_written env) (bu_prices bu) t"
      using t assms(4) by (subst scan_rebalance [OF assms(1,2)]) (simp_all add: compute_selection_def Let_def)
    moreover have "?P (Suc n) (record_portfolio_return cfg (xe_now env) (xe_written env) (bu_prices bu) t)"
      using t assms(5,6,9) by (simp add: record_portfolio_return_def Let_def publish_shadow_pnl_def)
    ultimately show ?case by (simp add: t_def)
  qed
  then show ?thesis by simp
qed

section \<open>The signals of a rebalance\<close>

text \<open>A position that can be closed: it has an id and a positive entry price.\<close>

definition closable :: "obj \<Rightarrow> bool" where
  "closable pos \<longleftrightarrow> map_of pos ''position_id'' \<noteq> None \<and>
     (case map_of pos ''entry'' of Some (JNum (Fin x)) \<Rightarrow> 0 < x | _ \<Rightarrow> False)"

definition position_id_json :: "obj \<Rightarrow> json" where
  "position_id_json pos = dget pos ''position_id'' JNull"

definition publishes :: "xs_env \<Rightarrow> bool" where
  "publishes env \<longleftrightarrow> xe_emit env = (\<lambda>g. Inr True)"

lemma closable_exit:
  assumes "closable pos"
  shows "\<exists>px. closest_exit_price prices last_prices cached smb pos = Inr px \<and> Fin 0 < px"
proof -
  define pos_opt where "pos_opt = (\<lambda>v. case v of Some x \<Rightarrow> x > Fin 0 | None \<Rightarrow> False)"
  have the: "pos_opt v \<Longrightarrow> Fin 0 < the v" for v by (cases v) (simp_all add: pos_opt_def)
  obtain j where j: "map_of pos ''entry'' = Some j"
    using assms by (cases "map_of pos ''entry''") (simp_all add: closable_def)
  obtain y where y: "j = JNum y" using assms j by (cases j) (simp_all add: closable_def)
  obtain x where "map_of pos ''entry'' = Some (JNum (Fin x))" "0 < x"
    using assms j y by (cases y) (simp_all add: closable_def)
  then have e: "entry_of pos = JNum (Fin x)" by (simp add: entry_of_def dget_def)
  have "closest_exit_price prices last_prices cached smb pos = (if pos_opt (map_of prices smb) then Inr (the (map_of prices smb))
      else if pos_opt cached then Inr (the cached)
      else if pos_opt (map_of last_prices smb) then Inr (the (map_of last_prices smb)) else Inr (Fin x))"
    using \<open>0 < x\<close> by (simp add: closest_exit_price_def e pos_opt_def)
  then show ?thesis using the \<open>0 < x\<close> by simp
qed

lemma emit_published: "publishes env \<Longrightarrow> emit_signal env g s = (Inr True, s\<lparr>xs_sent := xs_sent s @ [g]\<rparr>)"
  by (simp add: publishes_def emit_signal_def)

lemma close_loop:
  assumes "publishes env" and "list_all (closable \<circ> snd) ps"
  shows "\<exists>closes. for_each (close_held cfg env prices candle) ps s = (Inr (), s\<lparr>xs_sent := xs_sent s @ closes\<rparr>) \<and>
    map xg_symbol closes = keys ps \<and> map xg_position closes = map (position_id_json \<circ> snd) ps \<and>
    list_all (\<lambda>g. is_XsClose g \<and> Fin 0 < xg_price g \<and> xg_candle g = candle) closes"
  using assms(2)
proof (induction ps arbitrary: s)
  case Nil
  then show ?case by (intro exI [of _ "[]"]) (simp add: keys_def)
next
  case (Cons p ps)
  obtain smb pos where p: "p = (smb, pos)" by (cases p)
  have c: "closable pos" using Cons.prems by (simp add: p)
  then obtain j where j: "map_of pos ''position_id'' = Some j" by (auto simp: closable_def)
  obtain px where px: "closest_exit_price prices (xs_last_prices s) (last_cached_close (xe_cache env) smb (xc_timeframe cfg)) smb pos = Inr px"
    "Fin 0 < px" using closable_exit [OF c] by blast
  let ?g = "XsClose smb j px candle"
  have one: "close_held cfg env prices candle p s = (Inr (), s\<lparr>xs_sent := xs_sent s @ [?g]\<rparr>)"
    using j px by (simp add: close_held_def p obj_item_def emit_published [OF assms(1)] then_do_apply)
  have "list_all (closable \<circ> snd) ps" using Cons.prems by (simp add: comp_def)
  from Cons.IH [OF this, of "s\<lparr>xs_sent := xs_sent s @ [?g]\<rparr>"] obtain closes where
    "for_each (close_held cfg env prices candle) ps (s\<lparr>xs_sent := xs_sent s @ [?g]\<rparr>) =
      (Inr (), s\<lparr>xs_sent := xs_sent s @ ?g # closes\<rparr>)"
    "map xg_symbol closes = keys ps" "map xg_position closes = map (position_id_json \<circ> snd) ps"
    "list_all (\<lambda>g. is_XsClose g \<and> Fin 0 < xg_price g \<and> xg_candle g = candle) closes" by auto
  with one px j show ?case
    by (intro exI [of _ "?g # closes"]) (simp add: p keys_def then_do_apply position_id_json_def dget_def)
qed

lemma open_loop:
  assumes "publishes env" and "dict_ok ws" and "keys (xs_open s) = ks" and "set ks \<inter> set (keys ws) = {}"
  shows "\<exists>ps. for_each (open_one cfg env sel prices candle) ws s = (Inr (), s\<lparr>xs_open := ps,
      xs_sent := xs_sent s @ map (\<lambda>(smb, w). open_signal_of cfg env sel candle (xs_leverage s) smb w (dget prices smb NaN)) ws\<rparr>) \<and>
    keys ps = ks @ keys ws"
  using assms(2-)
proof (induction ws arbitrary: s ks)
  case Nil
  then show ?case by (intro exI [of _ "xs_open s"]) (simp add: keys_def)
next
  case (Cons p ws)
  obtain smb w where p: "p = (smb, w)" by (cases p)
  let ?g = "open_signal_of cfg env sel candle (xs_leverage s) smb w (dget prices smb NaN)"
  let ?h = "new_held cfg env candle (xs_leverage s) smb w (dget prices smb NaN)"
  let ?s = "s\<lparr>xs_open := dset smb ?h (xs_open s), xs_sent := xs_sent s @ [?g]\<rparr>"
  have one: "open_one cfg env sel prices candle p s = (Inr (), ?s)"
    by (simp add: open_one_def p Let_def then_do_apply bind_def emit_published [OF assms(1)])
  have "smb \<notin> set ks" using Cons.prems(3) p by (auto simp: keys_def)
  then have fresh: "dset smb ?h (xs_open s) = xs_open s @ [(smb, ?h)]" using Cons.prems(2) by (intro dset_fresh) simp
  have "\<exists>ps. for_each (open_one cfg env sel prices candle) ws ?s = (Inr (), ?s\<lparr>xs_open := ps,
      xs_sent := xs_sent ?s @ map (\<lambda>(smb, w). open_signal_of cfg env sel candle (xs_leverage ?s) smb w (dget prices smb NaN)) ws\<rparr>) \<and>
    keys ps = (ks @ [smb]) @ keys ws"
  proof (rule Cons.IH)
    show "dict_ok ws" using Cons.prems(1) by simp
    show "keys (xs_open ?s) = ks @ [smb]" using fresh Cons.prems(2) by (simp add: keys_def)
    show "set (ks @ [smb]) \<inter> set (keys ws) = {}" using Cons.prems(1,3) p by (auto simp: keys_def)
  qed
  then show ?case using one by (auto simp: p keys_def then_do_apply)
qed

text \<open>The weights a rebalance may open, none where it opens nothing.\<close>

definition opened_weights :: "xs_cfg \<Rightarrow> xs_env \<Rightarrow> selection \<Rightarrow> (string, pyfloat) dict \<Rightarrow> xs_state \<Rightarrow> weights" where
  "opened_weights cfg env sel prices s =
     (if vol_target_leverage cfg s \<le> Fin 0 \<or> \<not> flags_can_open (xe_flags env) then []
      else opening_weights (xe_tradable env) prices (se_weights sel))"

lemma dict_ok_opening: "dict_ok ws \<Longrightarrow> dict_ok (opening_weights tradable prices ws)"
  by (simp add: opening_weights_def Let_def distinct_filter_keys)

definition held_before :: "xs_env \<Rightarrow> xs_state \<Rightarrow> held" where
  "held_before env s = adopt_orphans (load_authoritative_positions (xe_snapshot env)) (xs_open s)"

lemma vol_target_sent [simp]:
  "vol_target_leverage cfg (s\<lparr>xs_open := a\<rparr>) = vol_target_leverage cfg s"
  "vol_target_leverage cfg (s\<lparr>xs_sent := b\<rparr>) = vol_target_leverage cfg s"
  by (simp_all add: vol_target_leverage_def cong: if_cong)

lemma rebalance_run:
  assumes "\<not> xc_book_only cfg" and "publishes env" and "dict_ok (se_weights sel)"
    and "list_all (closable \<circ> snd) (held_before env s)"
  shows "\<exists>closes s'. apply_selection cfg env sel prices candle s = (Inr (), s') \<and>
    xs_sent s' = xs_sent s @ closes @ map (\<lambda>(smb, w). open_signal_of cfg env sel candle (vol_target_leverage cfg s) smb w (dget prices smb NaN))
      (opened_weights cfg env sel prices s) \<and>
    map xg_symbol closes = keys (held_before env s) \<and>
    map xg_position closes = map (position_id_json \<circ> snd) (held_before env s) \<and>
    list_all (\<lambda>g. is_XsClose g \<and> Fin 0 < xg_price g) closes \<and>
    keys (xs_open s') = keys (opened_weights cfg env sel prices s) \<and> xs_base s' = se_weights sel"
proof -
  let ?s0 = "s\<lparr>xs_open := held_before env s\<rparr>"
  from close_loop [OF assms(2,4), of cfg prices candle ?s0] obtain closes where
    1: "for_each (close_held cfg env prices candle) (held_before env s) ?s0 = (Inr (), ?s0\<lparr>xs_sent := xs_sent s @ closes\<rparr>)"
    "map xg_symbol closes = keys (held_before env s)" "map xg_position closes = map (position_id_json \<circ> snd) (held_before env s)"
    "list_all (\<lambda>g. is_XsClose g \<and> Fin 0 < xg_price g \<and> xg_candle g = candle) closes" by auto
  let ?s1 = "?s0\<lparr>xs_sent := xs_sent s @ closes, xs_open := [],
        xs_pending := quot (turnover (xs_base s) (se_weights sel) * xc_fee_bps cfg) (Fin 10000),
        xs_leverage := vol_target_leverage cfg s, xs_base := se_weights sel\<rparr>"
  have close_part: "list_all (\<lambda>g. is_XsClose g \<and> Fin 0 < xg_price g) closes" using 1(4) by (auto simp: list_all_iff)
  show ?thesis
  proof (cases "vol_target_leverage cfg s \<le> Fin 0 \<or> \<not> flags_can_open (xe_flags env)")
    case True
    have "\<exists>s'. apply_selection cfg env sel prices candle s = (Inr (), s') \<and> xs_open s' = [] \<and> xs_base s' = se_weights sel \<and>
        xs_sent s' = xs_sent s @ closes"
      using assms(1) 1(1) True by (simp add: apply_selection_def apply_trading_def save_held_def then_do_apply
          held_before_def [symmetric])
    with 1(2,3) close_part True show ?thesis by (auto simp: opened_weights_def keys_def)
  next
    case False
    let ?ws = "opening_weights (xe_tradable env) prices (se_weights sel)"
    from open_loop [OF assms(2) dict_ok_opening [OF assms(3)], of ?s1 "[]" "xe_tradable env" prices cfg sel prices candle]
    obtain ps where 2: "for_each (open_one cfg env sel prices candle) ?ws ?s1 = (Inr (), ?s1\<lparr>xs_open := ps,
        xs_sent := xs_sent ?s1 @ map (\<lambda>(smb, w). open_signal_of cfg env sel candle (vol_target_leverage cfg s) smb w (dget prices smb NaN)) ?ws\<rparr>)"
      "keys ps = keys ?ws" by (auto simp: keys_def)
    have "\<exists>s'. apply_selection cfg env sel prices candle s = (Inr (), s') \<and> xs_open s' = ps \<and> xs_base s' = se_weights sel \<and>
        xs_sent s' = xs_sent s @ closes @ map (\<lambda>(smb, w). open_signal_of cfg env sel candle (vol_target_leverage cfg s) smb w (dget prices smb NaN)) ?ws"
      using assms(1) 1(1) 2(1) False by (simp add: apply_selection_def apply_trading_def save_held_def then_do_apply
          held_before_def [symmetric])
    with 1(2,3) close_part 2(2) False show ?thesis by (auto simp: opened_weights_def)
  qed
qed

text \<open>
  C22. What a rebalance does when all its signals are published.  It returns, and it has sent a
  CLOSE at a positive price for every position it held or adopted from the worker's snapshot, in
  that order, and then an OPEN for every weight it may open; the positions it holds afterwards are
  exactly the symbols opened.
\<close>

theorem rebalance_closes_then_opens:
  assumes "\<not> xc_book_only cfg" and "publishes env" and "dict_ok (se_weights sel)"
    and "list_all (closable \<circ> snd) (held_before env s)"
  shows "\<exists>closes s'. apply_selection cfg env sel prices candle s = (Inr (), s') \<and>
    xs_sent s' = xs_sent s @ closes @ map (\<lambda>(smb, w). open_signal_of cfg env sel candle (vol_target_leverage cfg s) smb w (dget prices smb NaN))
      (opened_weights cfg env sel prices s) \<and>
    map xg_symbol closes = keys (held_before env s) \<and>
    map xg_position closes = map (position_id_json \<circ> snd) (held_before env s) \<and>
    list_all (\<lambda>g. is_XsClose g \<and> Fin 0 < xg_price g) closes \<and>
    keys (xs_open s') = keys (opened_weights cfg env sel prices s) \<and> xs_base s' = se_weights sel"
  by (rule rebalance_run [OF assms])

section \<open>Orphans\<close>

definition held_symbol :: "obj \<Rightarrow> string" where
  "held_symbol pos = jstr (dget pos ''symbol'' (JStr ''''))"

lemma adopt_step:
  defines "f \<equiv> \<lambda>(pid :: string, pos) ps. let smb = held_symbol pos
     in if smb = '''' \<or> smb \<in> set (keys ps) then ps else dset smb pos ps"
  shows "set ps \<subseteq> set (fold f auth ps)"
    and "(pid, pos) \<in> set auth \<Longrightarrow> held_symbol pos \<noteq> '''' \<Longrightarrow> distinct (map (held_symbol \<circ> snd) auth) \<Longrightarrow>
      held_symbol pos \<notin> set (keys ps) \<Longrightarrow> (held_symbol pos, pos) \<in> set (fold f auth ps)"
proof -
  have keep: "set ps \<subseteq> set (fold f auth ps)" for auth ps
  proof (induction auth arbitrary: ps)
    case (Cons x auth)
    have "set ps \<subseteq> set (f x ps)" by (auto simp: f_def Let_def dset_fresh split: prod.splits)
    with Cons [of "f x ps"] show ?case by simp
  qed simp
  show "set ps \<subseteq> set (fold f auth ps)" by (rule keep)
  show "(pid, pos) \<in> set auth \<Longrightarrow> held_symbol pos \<noteq> '''' \<Longrightarrow> distinct (map (held_symbol \<circ> snd) auth) \<Longrightarrow>
      held_symbol pos \<notin> set (keys ps) \<Longrightarrow> (held_symbol pos, pos) \<in> set (fold f auth ps)"
  proof (induction auth arbitrary: ps)
    case (Cons x auth)
    show ?case
    proof (cases "x = (pid, pos)")
      case True
      then have "(held_symbol pos, pos) \<in> set (f x ps)" using Cons.prems by (simp add: f_def Let_def dset_fresh)
      with keep [of "f x ps" auth] show ?thesis by auto
    next
      case False
      with Cons.prems(1) have i: "(pid, pos) \<in> set auth" by simp
      then have "held_symbol (snd x) \<noteq> held_symbol pos" using Cons.prems(3) by force
      then have "held_symbol pos \<notin> set (keys (f x ps))" using Cons.prems(4)
        by (auto simp: f_def Let_def dset_fresh keys_def split: prod.splits)
      with Cons.IH [OF i Cons.prems(2)] Cons.prems(3) show ?thesis by simp
    qed
  qed simp
qed

lemma held_before_fold:
  "held_before env s = fold (\<lambda>(pid, pos) ps. let smb = held_symbol pos
     in if smb = '''' \<or> smb \<in> set (keys ps) then ps else dset smb pos ps)
     (case load_authoritative_positions (xe_snapshot env) of None \<Rightarrow> [] | Some a \<Rightarrow> a) (xs_open s)"
  by (simp add: held_before_def adopt_orphans_def held_symbol_def)

text \<open>
  The positions of the worker's snapshot against those of the runner: one position a symbol, its id
  where the runner looks for it, and the runner's own position of the symbol, if it has one, is the
  worker's.
\<close>

definition agrees :: "(string, obj) dict \<Rightarrow> held \<Rightarrow> bool" where
  "agrees auth ps \<longleftrightarrow> distinct (map (held_symbol \<circ> snd) auth) \<and>
     list_all (\<lambda>(pid, pos). held_symbol pos \<noteq> '''' \<and> position_id_json pos = JStr pid \<and>
       (case map_of ps (held_symbol pos) of None \<Rightarrow> True | Some own \<Rightarrow> position_id_json own = JStr pid)) auth"


section \<open>The book that is opened\<close>

text \<open>
  A pair for every position.  Of the weights a selection gives, only those are opened whose
  symbol has a positive price and is tradable, at their weight; and where both sides have such a
  symbol, as many longs are opened as shorts.
\<close>

theorem opened_book_is_paired:
  assumes "dict_ok ws" and "filter (\<lambda>(s, w). openable tradable prices s) ws = candidates"
    and "long_symbols candidates \<noteq> []" and "short_symbols candidates \<noteq> []"
  shows "length (long_symbols (opening_weights tradable prices ws)) = length (short_symbols (opening_weights tradable prices ws)) \<and>
    list_all (\<lambda>(s, w). openable tradable prices s \<and> map_of ws s = Some w) (opening_weights tradable prices ws)"
proof -
  have o: "opening_weights tradable prices ws = without (balance_drop candidates) candidates"
    using assms(2) by (simp add: opening_weights_def Let_def)
  have "dict_ok candidates" using assms(1,2) distinct_filter_keys by blast
  from balance_drop_counts [OF this assms(3,4)]
  have "length (long_symbols (opening_weights tradable prices ws)) = length (short_symbols (opening_weights tradable prices ws))"
    by (simp add: o)
  moreover have "set (opening_weights tradable prices ws) \<subseteq> set (filter (\<lambda>(s, w). openable tradable prices s) ws)"
    by (auto simp: o assms(2) without_def)
  ultimately show ?thesis using assms(1) by (auto simp: list_all_iff)
qed

theorem opened_book_is_paired_witness:
  "length (long_symbols (opening_weights None [(''a'', Fin 1), (''c'', Fin 1)] demo_weights)) =
   length (short_symbols (opening_weights None [(''a'', Fin 1), (''c'', Fin 1)] demo_weights))"
  using opened_book_is_paired [of demo_weights None "[(''a'', Fin 1), (''c'', Fin 1)]" "[(''a'', Fin (1 / 2)), (''c'', Fin (- 1 / 4))]"]
  by (simp add: demo_weights_def openable_def long_symbols_def short_symbols_def)

lemma sum_list_squares: "0 \<le> (\<Sum>x \<leftarrow> xs. (f x)\<^sup>2)" for f :: "'a \<Rightarrow> real"
  by (induction xs) auto

lemma gross_filter: "gross_of (filter P ws) \<le> gross_of ws"
  by (induction ws) (auto simp: gross_of_def)

text \<open>The leverage is a number between 0 and its maximum.\<close>

lemma leverage_bounds:
  assumes "\<forall>x \<in> set (xs_returns s). isfinite x" and "xc_max_leverage cfg = Fin M" "0 \<le> M"
    and "xc_target_vol cfg = Fin v" "0 \<le> v" and "xs_leverage s = Fin l0" "0 \<le> l0" "l0 \<le> M"
  shows "\<exists>l. vol_target_leverage cfg s = Fin l \<and> 0 \<le> l \<and> l \<le> M"
proof -
  define xs where "xs = (if xc_vol_lookback cfg = 0 then xs_returns s else last_n (xc_vol_lookback cfg) (xs_returns s))"
  have fin: "\<forall>x \<in> set xs. isfinite x"
    using assms(1) set_last_n [of "xc_vol_lookback cfg" "xs_returns s"] by (auto simp: xs_def)
  show ?thesis
  proof (cases "length xs < max 2 (xc_vol_lookback cfg div 2)")
    case True
    then show ?thesis using assms(6-8) by (simp add: vol_target_leverage_def xs_def [symmetric])
  next
    case False
    then have len: "2 \<le> length xs" "xs \<noteq> []" by auto
    obtain m where m: "quot (fsum xs) (Fin (real (length xs))) = Fin m"
      using fin len by (simp add: fsum_finite quot_def)
    have "fsum (map (\<lambda>x. (x - Fin m) * (x - Fin m)) xs) = Fin (\<Sum>x \<leftarrow> xs. (the_real x - m)\<^sup>2)"
    proof -
      have "map (\<lambda>x. (x - Fin m) * (x - Fin m)) xs = map (\<lambda>x. Fin ((the_real x - m)\<^sup>2)) xs"
        using fin by (intro map_cong refl) (auto simp: power2_eq_square elim!: isfiniteE dest!: bspec)
      then have "fsum (map (\<lambda>x. (x - Fin m) * (x - Fin m)) xs) = fsum (map (\<lambda>x. Fin ((the_real x - m)\<^sup>2)) xs)"
        by (rule arg_cong)
      also have "\<dots> = Fin (\<Sum>x \<leftarrow> xs. (the_real x - m)\<^sup>2)" by (subst fsum_finite) (auto simp: comp_def)
      finally show ?thesis .
    qed
    moreover define rv where "rv = sqrt ((\<Sum>x \<leftarrow> xs. (the_real x - m)\<^sup>2) / real (length xs - 1)) * sqrt (real (xc_ppy cfg))"
    ultimately have lev: "vol_target_leverage cfg s =
        (if rv \<le> 0 then Fin 0 else pymin (Fin M) (quot (Fin v) (Fin rv)))"
      using False len m assms(2,4) by (simp add: vol_target_leverage_def xs_def [symmetric] Let_def quot_def)
    show ?thesis using assms(3,5) by (simp add: lev quot_def)
  qed
qed

definition open_notional :: "xs_signal list \<Rightarrow> real" where
  "open_notional gs = (\<Sum>g \<leftarrow> filter (\<lambda>g. \<not> is_XsClose g) gs. the_real (xg_price g) * the_real (xg_qty g))"

text \<open>
  Exposure.  The market value of what a rebalance opens is at most the capital times the
  maximal leverage times the gross weight of the selection.
\<close>

theorem opened_exposure_is_bounded:
  assumes "\<not> xc_book_only cfg" and "publishes env" and "list_all (closable \<circ> snd) (held_before env s)"
    and "finite_ws (se_weights sel)" and "finite_prices_of prices" and "marks_ok s"
    and "xc_capital cfg = Fin c" "0 \<le> c" and "xc_max_leverage cfg = Fin M" and "xc_target_vol cfg = Fin v" "0 \<le> v"
    and "xs_leverage s = Fin l0" "0 \<le> l0" "l0 \<le> M"
  shows "\<exists>s'. apply_selection cfg env sel prices candle s = (Inr (), s') \<and>
    open_notional (drop (length (xs_sent s)) (xs_sent s')) \<le> c * M * gross_of (se_weights sel)"
proof -
  have ok: "dict_ok (se_weights sel)" using assms(4) by (simp add: finite_ws_def)
  let ?ow = "opened_weights cfg env sel prices s"
  let ?f = "\<lambda>(smb, w). open_signal_of cfg env sel candle (vol_target_leverage cfg s) smb w (dget prices smb NaN)"
  obtain closes s' where 1: "apply_selection cfg env sel prices candle s = (Inr (), s')"
    "xs_sent s' = xs_sent s @ closes @ map ?f ?ow" "list_all (\<lambda>g. is_XsClose g \<and> Fin 0 < xg_price g) closes"
    using rebalance_run [OF assms(1,2) ok assms(3), of prices candle] by blast
  have "0 \<le> M" using assms(13,14) by linarith
  then obtain l where l: "vol_target_leverage cfg s = Fin l" "0 \<le> l" "l \<le> M"
    using leverage_bounds [of s cfg M v l0] assms by (auto simp: marks_ok_def)
  have sub: "set ?ow \<subseteq> {p \<in> set (se_weights sel). openable (xe_tradable env) prices (fst p)}"
    by (auto simp: opened_weights_def opening_weights_def Let_def without_def)
  have "filter (\<lambda>g. \<not> is_XsClose g) closes = []" using 1(3) by (auto simp: filter_empty_conv list_all_iff)
  moreover have "filter (\<lambda>g. \<not> is_XsClose g) (map ?f xs) = map ?f xs" for xs by (induction xs) (auto simp: open_signal_of_def)
  ultimately have "open_notional (drop (length (xs_sent s)) (xs_sent s')) =
      (\<Sum>p \<leftarrow> ?ow. the_real (xg_price (?f p)) * the_real (xg_qty (?f p)))"
    by (simp add: 1(2) open_notional_def comp_def split_def)
  also have "\<dots> = (\<Sum>p \<leftarrow> ?ow. c * l * \<bar>the_real (snd p)\<bar>)"
  proof (intro arg_cong [where f = sum_list] map_cong refl)
    fix p assume p: "p \<in> set ?ow"
    obtain x w where xw: "p = (x, w)" by (cases p)
    obtain wr where w: "w = Fin wr" using p sub assms(4) xw by (fastforce simp: finite_ws_def elim!: isfiniteE)
    obtain px where px: "map_of prices x = Some (Fin px)" "0 < px"
    proof -
      have "openable (xe_tradable env) prices x" using subsetD [OF sub p] xw by simp
      then obtain y where y: "map_of prices x = Some y" "\<not> y \<le> Fin 0"
        by (cases "map_of prices x") (simp_all add: openable_def)
      with finite_price_of [OF assms(5) y(1)] that show thesis by (auto elim!: isfiniteE)
    qed
    show "the_real (xg_price (?f p)) * the_real (xg_qty (?f p)) = c * l * \<bar>the_real (snd p)\<bar>"
      using px by (simp add: xw w open_signal_of_def assms(7) l(1) dget_def quot_def)
  qed
  also have "\<dots> = c * l * gross_of ?ow" by (simp add: gross_of_def sum_list_const_mult)
  also have "\<dots> \<le> c * M * gross_of (se_weights sel)"
  proof -
    have "gross_of ?ow \<le> gross_of (se_weights sel)" unfolding opened_weights_def opening_weights_def Let_def without_def
      by (simp add: gross_filter)
    then show ?thesis using l assms(8) gross_nonneg by (intro mult_mono) auto
  qed
  finally show ?thesis using 1(1) by blast
qed

section \<open>Two scans of one candle\<close>

text \<open>
  The calendar of a run.  On a candle that is not due, a strategy that holds positions or only
  publishes sends nothing and keeps its book, its base weights and its ledger; and a candle that is
  not newer than the last one changes nothing at all.
\<close>

theorem scan_respects_schedule:
  assumes "strategy_tf_ms (xc_timeframe cfg) = Inr ms"
    and "newest_candle ms (bu_latest bu) (latest_cached_timestamp cfg (xe_cache env)) = candle"
    and "is_rebalance_due candle ms (xc_rebalance_bars cfg) (xc_at_midnight cfg) (xc_on_close cfg) = Inr False"
    and "xs_open s \<noteq> [] \<or> xc_book_only cfg" and "scan cfg env (Some bu) s = (r, s')"
  shows "r = Inr () \<and> xs_sent s' = xs_sent s \<and> xs_open s' = xs_open s \<and> xs_base s' = xs_base s \<and>
    xs_ledger s' = xs_ledger s \<and> xs_last_candle s \<le> xs_last_candle s' \<and>
    (candle \<le> xs_last_candle s \<longrightarrow> s' = s)"
  using assms by (auto simp: scan_def scan_candle_def finish_candle_def Let_def then_do_apply split: if_splits)

lemma plain_select: "plain_row row \<Longrightarrow> select_positions sp symbols liquidity dd row = select_positions sp symbols liquidity dd' row"
  by (cases row) (simp_all add: select_positions_def)

text \<open>Whether a target book can be published does not depend on its revision.\<close>

lemma create_other_revision:
  "create_book a tf ws n c g m = Inr b \<Longrightarrow> 0 \<le> n' \<Longrightarrow> create_book a tf ws n' c g m = Inr (b\<lparr>k_revision := n'\<rparr>)"
  by (auto simp: create_book_def check_book_def Let_def split: if_splits)

lemma write_other_revision:
  "write_book b store = Inr st \<Longrightarrow> \<exists>st'. write_book (b\<lparr>k_revision := n\<rparr>) store' = Inr st'"
  by (simp add: write_book_def book_to_json_def book_to_dict_def res_bind_Inr_iff Let_def split: if_splits)

lemma publish_other_revision:
  assumes "publish_target_book cfg env sel prices candle s = (Inr (), s')" and "0 \<le> xs_revision t"
  shows "\<exists>bs. publish_target_book cfg env sel prices candle t =
    (Inr (), t\<lparr>xs_revision := xs_revision t + 1, xs_books := bs\<rparr>)"
proof -
  obtain b st where b: "create_book (xc_alpha cfg) (xc_timeframe cfg) (se_weights sel) (xs_revision s + 1) candle (xe_iso_now env)
      (target_meta cfg sel prices) = Inr b" "xe_written env" "write_book b (xs_books s) = Inr st"
    using assms(1) by (auto simp: publish_target_book_def bind_def split: sum.splits if_splits)
  have "0 \<le> xs_revision t + 1" using assms(2) by simp
  note c = create_other_revision [OF b(1) this]
  obtain st' where "write_book (b\<lparr>k_revision := xs_revision t + 1\<rparr>) (xs_books t) = Inr st'"
    using write_other_revision [OF b(3)] by blast
  with b(2) c show ?thesis by (intro exI [of _ st']) (simp add: publish_target_book_def)
qed

lemma publish_fields:
  assumes "publish_target_book cfg env sel prices candle s = (r, s')"
  shows "xs_ledger s' = xs_ledger s" "xs_last_candle s' = xs_last_candle s" "0 \<le> xs_revision s \<Longrightarrow> 0 \<le> xs_revision s'"
  using assms
  by (auto simp: publish_target_book_def then_do_apply bind_def Let_def split: sum.splits if_splits prod.splits)

lemma scan_book_only:
  assumes "xc_book_only cfg" and "rebalances_at cfg env bu candle" and "rf_ready (xe_flags env)" and "xs_last_candle s < candle"
    and "bu_row bu = Inr row" and "plain_row row" and "compute_selection cfg bu dd = Inr sel"
    and "scan cfg env (Some bu) t = (Inr (), t')" and "xs_last_candle t < candle" and "0 \<le> xs_revision s"
    and "xe_pipe env = Executed" and "rebalance_plan (xe_uuid5 env) (ledger_cfg_of cfg)
      (ledger_rebalance cfg env sel (bu_prices bu) candle) (pb_positions (xs_ledger s)) = Inr (es, bk)"
  shows "\<exists>s'. scan cfg env (Some bu) s = (Inr (), s') \<and> xs_last_candle s' = candle \<and> 0 \<le> xs_revision s' \<and>
    xs_ledger s' = (xs_ledger s)\<lparr>pb_positions := bk, pb_stored := Some (jdumps (book_json bk)),
      pb_stream := pb_stream (xs_ledger s) @ es\<rparr>"
proof -
  have sel: "compute_selection cfg bu d = Inr sel" for d
    using assms(7) plain_select [OF assms(6)] assms(5) by (simp add: compute_selection_def) metis
  let ?p = "\<lambda>s. record_portfolio_return cfg (xe_now env) (xe_written env) (bu_prices bu) s"
  have au: "audit sel = Inr ()" and pub: "\<exists>q q'. publish_target_book cfg env sel (bu_prices bu) candle q = (Inr (), q')"
    using assms(8) unfolding scan_rebalance [OF assms(2,3,9)]
    by (auto simp: Let_def sel apply_selection_def apply_book_only_def assms(1) then_do_def bind_def split: sum.splits prod.splits)
  then obtain q q' where q: "publish_target_book cfg env sel (bu_prices bu) candle q = (Inr (), q')" by blast
  have rev: "xs_revision (?p s) = xs_revision s" by simp
  let ?t = "(?p s)\<lparr>xs_base := se_weights sel\<rparr>"
  from publish_other_revision [OF q, of ?t] assms(10) rev obtain bs where
    "publish_target_book cfg env sel (bu_prices bu) candle ?t = (Inr (), ?t\<lparr>xs_revision := xs_revision ?t + 1, xs_books := bs\<rparr>)"
    by auto
  with au assms(1,10-12) rev show ?thesis unfolding scan_rebalance [OF assms(2,3,4)]
    by (simp add: Let_def sel apply_selection_def apply_book_only_def then_do_apply finish_candle_def rebalance_ledger_def)
qed



section \<open>A small strategy\<close>

definition demo_xs :: "bool \<Rightarrow> xs_cfg" where
  "demo_xs book_only = \<lparr>xc_alpha = ''xs'', xc_exchange = ''binance'', xc_capital = Fin 1000, xc_book_only = book_only,
     xc_symbols = [''a'', ''c''], xc_min_coverage = 1 / 2, xc_timeframe = ''1d'', xc_rebalance_bars = 2,
     xc_at_midnight = False, xc_on_close = False, xc_reverse = False, xc_vol_lookback = 4, xc_ppy = 365,
     xc_target_vol = Fin 1, xc_max_leverage = Fin 2, xc_fee_bps = Fin 10, xc_select = demo_select\<rparr>"

definition demo_xs_env :: "jtext option \<Rightarrow> xs_env" where
  "demo_xs_env snap = \<lparr>xe_snapshot = Inr snap, xe_emit = (\<lambda>g. Inr True), xe_tradable = None,
     xe_flags = \<lparr>rf_data_stale = False, rf_reconcile_stale = False, rf_price_alert_stale = False,
       rf_lease_valid = True, rf_ready = True, rf_dropped_events = 0\<rparr>,
     xe_uuid4 = (\<lambda>s. s), xe_uuid5 = (\<lambda>s. s), xe_written = True, xe_pipe = Executed, xe_now = 0,
     xe_iso_now = ''t'', xe_cache = new_cache 0, xe_alert_client = False\<rparr>"

definition demo_prices :: "(string, pyfloat) dict" where
  "demo_prices = [(''a'', Fin 10), (''c'', Fin 20)]"

definition demo_sides :: weights where
  "demo_sides = [(''a'', Fin (1 / 2)), (''c'', Fin (- 1 / 2))]"

definition demo_view :: "score_row res \<Rightarrow> int \<Rightarrow> panel_view" where
  "demo_view row candle = \<lparr>bu_latest = candle, bu_prices = demo_prices, bu_liquidity = [], bu_row = row\<rparr>"

definition demo_held :: obj where
  "demo_held = [(''position_id'', JStr ''p1''), (''symbol'', JStr ''a''), (''side'', JStr ''LONG''), (''entry'', JNum (Fin 9)),
     (''qty'', JNum (Fin 1))]"

definition demo_marked :: xs_state where
  "demo_marked = (new_strategy [(''a'', demo_held)] (Fin 1) (\<lambda>k. None) None None demo_publisher None)
     \<lparr>xs_last_prices := [(''a'', Fin 8), (''c'', Fin 20)], xs_base := demo_sides\<rparr>"

definition demo_selection :: selection where
  "demo_selection = mk_selection [''a'', ''c''] [''a''] [''c''] [] [] demo_sides"

lemma demo_marks: "marks_ok demo_marked"
  by (simp add: demo_marked_def marks_ok_def new_strategy_def demo_sides_def finite_ws_def finite_prices_of_def)

lemma demo_finite: "finite_ws demo_sides" "finite_prices_of demo_prices"
  by (simp_all add: demo_sides_def demo_prices_def finite_ws_def finite_prices_of_def)

lemma demo_tf: "strategy_tf_ms ''1d'' = Inr 86400000"
  by code_simp

lemma demo_rebalances: "rebalances_at (demo_xs bo) (demo_xs_env snap) (demo_view row (2 * day_ms)) (2 * day_ms)"
  by (simp add: rebalances_at_def demo_xs_def demo_tf demo_view_def demo_xs_env_def newest_candle_def
      latest_cached_timestamp_def get_latest_timestamp_def new_cache_def is_rebalance_due_def py_floordiv_def py_mod_def day_ms_def)

theorem marks_stay_sound_witness:
  "marks_ok (fold (record_portfolio_return (demo_xs False) 0 True) [demo_prices, demo_prices] demo_marked) \<and>
   current_drawdown (fold (record_portfolio_return (demo_xs False) 0 True) [demo_prices, demo_prices] demo_marked) \<le> Fin 0"
  using marks_stay_sound [OF demo_marks, of "[demo_prices, demo_prices]"] by (simp add: demo_finite)

theorem failed_scan_compounds_witness:
  "xs_equity (((\<lambda>s. snd (scan (demo_xs False) (demo_xs_env None) (Some (demo_view (Inl ZeroDivisionError) (2 * day_ms))) s)) ^^ 2) demo_marked)
     = Fin ((9 / 8) ^ 2)"
proof -
  have "book_return (xs_last_prices demo_marked) (bu_prices (demo_view (Inl ZeroDivisionError) (2 * day_ms))) (xs_base demo_marked) = Fin (1 / 8)"
    by (simp add: book_return_def price_return_def demo_marked_def new_strategy_def demo_view_def demo_prices_def demo_sides_def
        quot_def truthy_def)
  from failed_scan_compounds [OF demo_rebalances [of _ None] _ _ _ _ _ _ _ this, where n = 2 and q = 1 and e = ZeroDivisionError] show ?thesis
    by (simp add: demo_xs_env_def demo_marked_def new_strategy_def demo_view_def demo_sides_def day_ms_def)
qed


lemma demo_apply:
  "publishes (demo_xs_env snap)" "dict_ok (se_weights demo_selection)" "\<not> xc_book_only (demo_xs False)"
  "xc_book_only (demo_xs True)"
  by (simp_all add: publishes_def demo_xs_env_def demo_selection_def mk_selection_def demo_sides_def demo_xs_def)

lemma demo_closable: "list_all (closable \<circ> snd) (held_before (demo_xs_env None) demo_marked)"
  by (simp add: held_before_def adopt_orphans_def load_authoritative_positions_def demo_xs_env_def parse_snapshot_def
      demo_marked_def new_strategy_def closable_def demo_held_def)

theorem rebalance_closes_then_opens_witness:
  "\<exists>closes s'. apply_selection (demo_xs False) (demo_xs_env None) demo_selection demo_prices day_ms demo_marked = (Inr (), s') \<and>
    map xg_symbol closes = [''a''] \<and> keys (xs_open s') = [''a'', ''c'']"
proof -
  have "held_before (demo_xs_env None) demo_marked = [(''a'', demo_held)]"
    by (simp add: held_before_def adopt_orphans_def load_authoritative_positions_def demo_xs_env_def parse_snapshot_def
      demo_marked_def new_strategy_def)
  moreover have "vol_target_leverage (demo_xs False) demo_marked = Fin 1"
    by (simp add: vol_target_leverage_def demo_xs_def demo_marked_def new_strategy_def)
  then have "opened_weights (demo_xs False) (demo_xs_env None) demo_selection demo_prices demo_marked = demo_sides"
    by (simp add: opened_weights_def flags_can_open_def opening_weights_def demo_xs_env_def demo_selection_def mk_selection_def demo_sides_def
        demo_prices_def openable_def truthy_def balance_drop_def long_symbols_def short_symbols_def without_def)
  ultimately show ?thesis
    using rebalance_closes_then_opens [OF demo_apply(3,1,2) demo_closable, of demo_prices day_ms]
    by (fastforce simp: keys_def demo_sides_def)
qed

theorem opened_exposure_is_bounded_witness:
  "\<exists>s'. apply_selection (demo_xs False) (demo_xs_env None) demo_selection demo_prices day_ms demo_marked = (Inr (), s') \<and>
    open_notional (drop (length (xs_sent demo_marked)) (xs_sent s')) \<le> 2000"
proof -
  have "gross_of (se_weights demo_selection) = 1"
    by (simp add: demo_selection_def mk_selection_def demo_sides_def gross_of_def)
  moreover have "finite_ws (se_weights demo_selection)" by (simp add: demo_selection_def mk_selection_def demo_finite)
  moreover have "xs_leverage demo_marked = Fin 1" by (simp add: demo_marked_def new_strategy_def)
  moreover have "xc_capital (demo_xs False) = Fin 1000" "xc_max_leverage (demo_xs False) = Fin 2" "xc_target_vol (demo_xs False) = Fin 1"
    by (simp_all add: demo_xs_def)
  ultimately show ?thesis
    using opened_exposure_is_bounded [OF demo_apply(3,1) demo_closable _ demo_finite(2) demo_marks, of demo_selection 1000 2 1 1 day_ms] by simp
qed

text \<open>The worker also holds a position the runner has lost.\<close>

definition demo_row :: "string \<Rightarrow> string \<Rightarrow> obj" where
  "demo_row pid smb = [(''position_id'', JStr pid), (''symbol'', JStr smb), (''side'', JStr ''LONG''),
     (''entry_price'', JNum (Fin 9)), (''qty'', JNum (Fin 1))]"

definition demo_snap :: "jtext option" where
  "demo_snap = Some (jdumps (JObj [(''positions'', JArr [JObj (demo_row ''p1'' ''a''), JObj (demo_row ''p2'' ''d'')])]))"

lemma demo_row_normal:
  "\<exists>r. normalize_position (demo_row pid smb) = Inr r \<and> map_of r ''position_id'' = Some (JStr pid) \<and>
    map_of r ''symbol'' = Some (JStr smb) \<and> map_of r ''entry'' = Some (JNum (Fin 9))"
proof -
  obtain f where f: "authoritative_fields (demo_row pid smb) = Inr f" "map_of f ''position_id'' = Some (JStr pid)"
    "map_of f ''symbol'' = Some (JStr smb)" "map_of f ''entry'' = Some (JNum (Fin 9))" "map_of f ''qty'' = Some (JNum (Fin 1))"
    "map_of f ''trail_distance'' = None"
    by (simp add: demo_row_def authoritative_fields_def obj_item_def float_or_none_def dget_def)
  have "dget (demo_row pid smb) ''metadata'' JNull = JNull" by (simp add: demo_row_def dget_def)
  then have "normalize_position (demo_row pid smb) = Inr (with_defaults False (setdefault ''size'' (JNum (Fin 9)) f))"
    using f by (simp add: normalize_position_def object_or_empty_def runtime_of_def with_trail_def dget_def)
  with f show ?thesis using with_defaults_keeps setdefault_keeps by fastforce
qed

lemma demo_auth: "\<exists>p q. load_authoritative_positions (Inr demo_snap) = Some [(''p1'', p), (''p2'', q)] \<and>
    map_of p ''symbol'' = Some (JStr ''a'') \<and> map_of q ''symbol'' = Some (JStr ''d'') \<and>
    held_symbol p = ''a'' \<and> held_symbol q = ''d'' \<and> position_id_json p = JStr ''p1'' \<and> position_id_json q = JStr ''p2'' \<and>
    closable p \<and> closable q"
proof -
  obtain p q where n: "normalize_position (demo_row ''p1'' ''a'') = Inr p" "map_of p ''position_id'' = Some (JStr ''p1'')"
    "map_of p ''symbol'' = Some (JStr ''a'')" "map_of p ''entry'' = Some (JNum (Fin 9))"
    "normalize_position (demo_row ''p2'' ''d'') = Inr q" "map_of q ''position_id'' = Some (JStr ''p2'')"
    "map_of q ''symbol'' = Some (JStr ''d'')" "map_of q ''entry'' = Some (JNum (Fin 9))"
    using demo_row_normal by metis
  have id: "dget (demo_row pid smb) ''position_id'' JNull = JStr pid" for pid smb by (simp add: demo_row_def dget_def)
  have "load_authoritative_positions (Inr demo_snap) = Some [(''p1'', p), (''p2'', q)]"
    using n by (simp add: load_authoritative_positions_def demo_snap_def parse_snapshot_def jdumps_def dget_def [of "[_]"]
        authoritative_item_def id obj_item_def)
  then show ?thesis using n by (simp add: held_symbol_def position_id_json_def closable_def dget_def)
qed



definition demo_scan :: panel_view where
  "demo_scan = demo_view (Inr (Conditions [''a''] [''c''])) (2 * day_ms)"

lemma demo_selected: "\<exists>sel. compute_selection (demo_xs True) demo_scan dd = Inr sel \<and> se_weights sel = demo_sides \<and>
    audit sel = Inr () \<and> se_longs sel = [''a''] \<and> se_shorts sel = [''c''] \<and> isfinite (se_gross sel) \<and> isfinite (se_net sel)"
  by (simp add: compute_selection_def demo_xs_def demo_scan_def demo_view_def select_positions_def demo_select_def Let_def
      equal_weights_def mk_selection_def demo_sides_def audit_def dget_def gross_abs_def fsum_def)

lemma demo_any_drawdown: "compute_selection (demo_xs True) demo_scan dd = compute_selection (demo_xs True) demo_scan (Fin 0)"
  by (simp add: compute_selection_def demo_scan_def demo_view_def plain_select [of _ _ _ _ dd "Fin 0"])



section \<open>What a start adopts\<close>

text \<open>The symbol under which a position of the worker ends up: the runner's, where it knows the id.\<close>

definition landing :: "json \<Rightarrow> string \<times> obj \<Rightarrow> string" where
  "landing store = (\<lambda>(pid, n). case map_of (runner_by_id store) pid of
     Some (smb, pos) \<Rightarrow> smb | None \<Rightarrow> jstr (dget n ''symbol'' JNull))"

definition position_id_text :: "obj \<Rightarrow> string" where
  "position_id_text pos = jstr (dget pos ''position_id'' JNull)"

lemma runner_by_id_text:
  assumes "map_of (runner_by_id j) pid = Some (smb, pos)"
  shows "position_id_text pos = pid"
proof -
  have "\<exists>e. runner_by_id j = dupdate [] e \<and> (\<forall>x \<in> set e. position_id_text (snd (snd x)) = fst x)"
    unfolding runner_by_id_def
    by (rule exI, rule conjI, rule refl) (auto simp: position_id_text_def split: json.splits if_splits)
  then obtain e where e: "runner_by_id j = dupdate [] e" "\<forall>x \<in> set e. position_id_text (snd (snd x)) = fst x" by blast
  have "(pid, smb, pos) \<in> set (runner_by_id j)" using assms by (rule map_of_SomeD)
  then show ?thesis using e set_dupdate_subset [of "[]" e] by force
qed

lemma authoritative_text:
  assumes "load_authoritative_positions reply = Some auth" and "(pid, n) \<in> set auth"
  shows "position_id_text n = pid"
proof -
  obtain js where "auth = dupdate [] (concat (map authoritative_item js))"
    using assms(1) by (auto simp: load_authoritative_positions_def split: sum.splits option.splits)
  then have "(pid, n) \<in> set (concat (map authoritative_item js))"
    using assms(2) subsetD [OF set_dupdate_subset [of "[]" "concat (map authoritative_item js)"]] by simp
  then obtain j where j: "(pid, n) \<in> set (authoritative_item j)" by auto
  have "authoritative_item j = []" if "\<nexists>d. j = JObj d" using that by (cases j) (auto simp: authoritative_item_def)
  with j obtain d where d: "(pid, n) \<in> set (authoritative_item (JObj d))" by (cases "\<exists>d. j = JObj d") auto
  let ?r = "res_bind (normalize_position d) (\<lambda>n. res_bind (obj_item n ''position_id'') (\<lambda>k. Inr (jstr k, n)))"
  have "authoritative_item (JObj d) = [] \<or> (\<exists>x. ?r = Inr x \<and> authoritative_item (JObj d) = [x])"
    by (cases ?r) (simp_all add: authoritative_item_def)
  with d have "?r = Inr (pid, n)" by auto
  then obtain k where "map_of n ''position_id'' = Some k" "pid = jstr k"
    by (auto simp: res_bind_Inr_iff obj_item_def split: option.splits)
  then show ?thesis by (simp add: position_id_text_def dget_def)
qed

text \<open>An entry of the result: the runner's, where it knows the id, else the worker's.\<close>

definition rightful :: "json \<Rightarrow> (string, obj) dict \<Rightarrow> string \<times> obj \<Rightarrow> bool" where
  "rightful store auth = (\<lambda>(smb, pos). case map_of (runner_by_id store) (position_id_text pos) of
     Some own \<Rightarrow> own = (smb, pos) | None \<Rightarrow> (position_id_text pos, pos) \<in> set auth)"

definition adoptable :: "string \<times> obj \<Rightarrow> bool" where
  "adoptable = (\<lambda>(pid, n). position_id_text n = pid \<and> json_truthy (dget n ''symbol'' JNull))"

lemma merge_step:
  assumes "adoptable x" and "landing store x \<notin> set (keys rc)" and "x \<in> set all"
  shows "\<exists>pos ad. merge_one (runner_by_id store) x (rc, ad0) = (rc @ [(landing store x, pos)], ad) \<and>
    position_id_text pos = fst x \<and> rightful store all (landing store x, pos)"
proof -
  obtain pid n where x: "x = (pid, n)" by (cases x)
  show ?thesis
  proof (cases "map_of (runner_by_id store) pid")
    case None
    with assms show ?thesis by (auto simp: x adoptable_def merge_one_def landing_def rightful_def Let_def dset_fresh)
  next
    case (Some y)
    obtain smb pos where y: "y = (smb, pos)" by (cases y)
    with Some assms runner_by_id_text [of store pid smb pos] show ?thesis
      by (auto simp: x merge_one_def landing_def rightful_def dset_fresh)
  qed
qed

lemma merge_fold:
  assumes "list_all adoptable auth" and "distinct (keys rc @ map (landing store) auth)" and "set auth \<subseteq> set all"
  shows "\<exists>ps ad. fold (merge_one (runner_by_id store)) auth (rc, ad0) = (rc @ ps, ad) \<and>
    keys ps = map (landing store) auth \<and> map (\<lambda>p. position_id_text (snd p)) ps = keys auth \<and> list_all (rightful store all) ps"
  using assms
proof (induction auth arbitrary: rc ad0)
  case (Cons x auth)
  from Cons.prems obtain pos ad1 where one: "merge_one (runner_by_id store) x (rc, ad0) = (rc @ [(landing store x, pos)], ad1)"
    "position_id_text pos = fst x" "rightful store all (landing store x, pos)"
    using merge_step [of x store rc all ad0] by auto
  have "distinct (keys (rc @ [(landing store x, pos)]) @ map (landing store) auth)"
    using Cons.prems(2) by (auto simp: keys_def)
  with Cons.IH [of "rc @ [(landing store x, pos)]" ad1] Cons.prems(1,3) obtain ps ad where
    "fold (merge_one (runner_by_id store)) auth (rc @ [(landing store x, pos)], ad1) = (rc @ (landing store x, pos) # ps, ad)"
    "keys ps = map (landing store) auth" "map (\<lambda>p. position_id_text (snd p)) ps = keys auth" "list_all (rightful store all) ps"
    by auto
  with one show ?case by (intro exI [of _ "(landing store x, pos) # ps"]) (simp add: keys_def)
qed (simp add: keys_def)

text \<open>
  The worker decides what is open.  Where its snapshot can be read and no two of its positions
  end up under one symbol, a starting strategy holds exactly the positions of the snapshot, whatever
  the runner's own store holds: phantoms are dropped, orphans adopted, and the runner's entry is
  kept where the id is known.
\<close>

theorem start_adopts_worker_view:
  assumes "load_authoritative_positions snap = Some auth"
    and "distinct (map (landing (load_positions stored)) auth)"
    and "list_all (\<lambda>(pid, n). json_truthy (dget n ''symbol'' JNull)) auth"
  shows "map (\<lambda>p. position_id_text (snd p)) (reconcile_open_positions stored snap) = keys auth \<and>
    keys (reconcile_open_positions stored snap) = map (landing (load_positions stored)) auth \<and>
    list_all (rightful (load_positions stored) auth) (reconcile_open_positions stored snap)"
proof -
  have "list_all adoptable auth"
    using assms(3) authoritative_text [OF assms(1)] by (auto simp: list_all_iff adoptable_def)
  from merge_fold [OF this, of "[]" "load_positions stored" auth "[]"] assms(1,2) show ?thesis
    by (auto simp: reconcile_open_positions_def merge_authoritative_positions_def Let_def keys_def)
qed

theorem start_adopts_worker_view_witness:
  "map (\<lambda>p. position_id_text (snd p)) (reconcile_open_positions (Inr None) (Inr demo_snap)) = [''p1'', ''p2'']"
proof -
  obtain p q where a: "load_authoritative_positions (Inr demo_snap) = Some [(''p1'', p), (''p2'', q)]"
    "map_of p ''symbol'' = Some (JStr ''a'')" "map_of q ''symbol'' = Some (JStr ''d'')" using demo_auth by blast
  have "landing (load_positions (Inr None)) (pid, n) = jstr (dget n ''symbol'' JNull)" for pid n
    by (simp add: landing_def load_positions_def runner_by_id_def)
  moreover have "jstr (dget p ''symbol'' JNull) = ''a''" "jstr (dget q ''symbol'' JNull) = ''d''"
    "json_truthy (dget p ''symbol'' JNull)" "json_truthy (dget q ''symbol'' JNull)"
    using a(2,3) by (simp_all add: dget_def)
  ultimately show ?thesis using start_adopts_worker_view [OF a(1), of "Inr None"] by (simp add: keys_def)
qed

end
