(* ===== verification/SnapshotReader.thy ===== *)
theory SnapshotReader
  imports AlphaFeed
begin

text \<open>
  What the runner reads from the market data service before it starts:
  \<^verbatim>\<open>alphas/runner/data_layer/snapshot.py\<close>, the stored candles of a symbol, and
  \<^verbatim>\<open>alphas/runner/data_layer/mds_ready.py\<close>, the signals by which the service says that its own
  warm-up is over.  The replies of Redis are arguments.
\<close>

section \<open>Stored candles\<close>

definition snapshot_tf_seconds :: "string \<Rightarrow> int" where
  "snapshot_tf_seconds tf =
     (let v = lower (strip tf)
      in if v = '''' then 60
         else case py_int_str (butlast v) of
             Inl e \<Rightarrow> 60
           | Inr amount \<Rightarrow>
               if last v = CHR ''m'' then amount * 60
               else if last v = CHR ''h'' then amount * 60 * 60
               else if last v = CHR ''d'' then amount * 24 * 60 * 60
               else if last v = CHR ''w'' then amount * 7 * 24 * 60 * 60
               else max amount 1)"

definition candle_open_time :: "candle \<Rightarrow> int res" where
  "candle_open_time c = py_int (dget c ''open_time'' (dget c ''time'' (JInt 0)))"

text \<open>The last of two candles of one time counts; \<open>int\<close> of an infinite time is not caught.\<close>

fun by_open_time :: "candle list \<Rightarrow> (int, candle) dict \<Rightarrow> (int, candle) dict res" where
  "by_open_time [] d = Inr d"
| "by_open_time (c # cs) d = (case candle_open_time c of
       Inl e \<Rightarrow> if type_or_value_error e then by_open_time cs d else Inl e
     | Inr t \<Rightarrow> by_open_time cs (if t > 0 then dset t c d else d))"

definition dedupe_sort :: "candle list \<Rightarrow> candle list res" where
  "dedupe_sort cs = res_bind (by_open_time cs []) (\<lambda>d. Inr (map (\<lambda>t. the (map_of d t)) (sort (keys d))))"

fun decode_candles :: "jtext list \<Rightarrow> candle list option" where
  "decode_candles [] = Some []"
| "decode_candles (raw # raws) = (case jloads raw of
       Inl e \<Rightarrow> None
     | Inr (JObj c) \<Rightarrow> map_option (\<lambda>cs. c # cs) (decode_candles raws)
     | Inr j \<Rightarrow> decode_candles raws)"

definition max_stale :: "(string, real) dict \<Rightarrow> string \<Rightarrow> real" where
  "max_stale by_tf tf = dget by_tf tf (real_of_int (max (3 * snapshot_tf_seconds tf) 600))"

definition snapshot_stale :: "real \<Rightarrow> (string, real) dict \<Rightarrow> candle \<Rightarrow> string \<Rightarrow> bool res" where
  "snapshot_stale now by_tf c tf = (case candle_open_time c of
       Inl e \<Rightarrow> if type_or_value_error e then Inr True else Inl e
     | Inr t \<Rightarrow> Inr (now - real_of_int t / 1000 > max_stale by_tf tf))"

definition decode_validate ::
  "real \<Rightarrow> (string, real) dict \<Rightarrow> jtext list \<Rightarrow> string \<Rightarrow> int \<Rightarrow> candle list option res" where
  "decode_validate now by_tf raws tf nbars = (case decode_candles raws of
       None \<Rightarrow> Inr None
     | Some cs \<Rightarrow> res_bind (dedupe_sort cs) (\<lambda>cs.
         if int (length cs) < nbars then Inr None
         else let cs = last_n (nat nbars) cs
              in res_bind (snapshot_stale now by_tf (last cs) tf) (\<lambda>stale. Inr (if stale then None else Some cs))))"

text \<open>\<open>v2\<close> answers the LRANGE of the current key, \<open>legacy\<close> the HGETALL of the old one.\<close>

definition load_snapshot ::
  "real \<Rightarrow> (string, real) dict \<Rightarrow> jtext list res \<Rightarrow> jtext list res \<Rightarrow> string \<Rightarrow> int \<Rightarrow> candle list option res" where
  "load_snapshot now by_tf v2 legacy tf nbars =
     (if nbars \<le> 0 then Inr (Some [])
      else case v2 of
          Inl e \<Rightarrow> Inr None
        | Inr raws \<Rightarrow>
            if raws \<noteq> [] then decode_validate now by_tf raws tf nbars
            else case legacy of
                Inl e \<Rightarrow> Inr None
              | Inr raws \<Rightarrow> if raws = [] then Inr None else decode_validate now by_tf raws tf nbars)"

text \<open>What is loaded has one candle per time, in the order of the times.\<close>

lemma by_open_time_inv:
  assumes "by_open_time cs d = Inr d'" and "dict_ok d"
    and "\<forall>(t, c) \<in> set d. candle_open_time c = Inr t \<and> 0 < t"
  shows "dict_ok d' \<and> (\<forall>(t, c) \<in> set d'. candle_open_time c = Inr t \<and> 0 < t)"
  using assms
proof (induction cs arbitrary: d)
  case (Cons c cs)
  show ?case
  proof (cases "candle_open_time c")
    case (Inl e)
    with Cons show ?thesis by (simp split: if_splits)
  next
    case (Inr t)
    let ?d = "if t > 0 then dset t c d else d"
    have "\<forall>(t, c) \<in> set ?d. candle_open_time c = Inr t \<and> 0 < t"
    proof (cases "t > 0")
      case True
      then have "set ?d \<subseteq> insert (t, c) (set d)" using set_dset_subset by simp
      with Cons.prems(3) Inr True show ?thesis by (auto dest!: subsetD)
    qed (use Cons.prems(3) in simp)
    with Cons.IH [of ?d] Cons.prems Inr show ?thesis by simp
  qed
qed simp

lemma dedupe_sorted:
  assumes "dedupe_sort cs = Inr xs"
  shows "\<exists>ts. map candle_open_time xs = map Inr ts \<and> sorted_wrt (<) ts \<and> (\<forall>t \<in> set ts. 0 < t)"
proof -
  obtain d where d: "by_open_time cs [] = Inr d" "xs = map (\<lambda>t. the (map_of d t)) (sort (keys d))"
    using assms by (auto simp: dedupe_sort_def res_bind_Inr_iff)
  from by_open_time_inv [OF d(1)] have i: "dict_ok d" "\<forall>(t, c) \<in> set d. candle_open_time c = Inr t \<and> 0 < t" by simp_all
  have t: "candle_open_time (the (map_of d t)) = Inr t \<and> 0 < t" if "t \<in> set (keys d)" for t
  proof -
    have "t \<in> fst ` set d" using that by (simp add: keys_def)
    then obtain c where "(t, c) \<in> set d" by auto
    with i show ?thesis by auto
  qed
  then have "map candle_open_time xs = map Inr (sort (keys d))" by (simp add: d(2))
  moreover have "sorted_wrt (<) (sort (keys d))" using i(1) by (simp add: strict_sorted_iff keys_def)
  ultimately show ?thesis using t by (intro exI [of _ "sort (keys d)"]) simp
qed

lemma sorted_last_n: "sorted_wrt P xs \<Longrightarrow> sorted_wrt P (last_n n xs)"
  by (simp add: last_n_def sorted_wrt_drop)

lemma load_snapshot_sound:
  assumes "load_snapshot now by_tf v2 legacy tf nbars = Inr (Some cs)" and "0 < nbars"
  shows "int (length cs) = nbars \<and> (\<exists>ts. map candle_open_time cs = map Inr ts \<and> sorted_wrt (<) ts \<and>
    now - real_of_int (last ts) / 1000 \<le> max_stale by_tf tf)"
proof -
  obtain raws ds xs where x: "decode_candles raws = Some ds" "dedupe_sort ds = Inr xs" "nbars \<le> int (length xs)"
    "cs = last_n (nat nbars) xs" "snapshot_stale now by_tf (last cs) tf = Inr False"
    using assms
    by (auto simp: load_snapshot_def decode_validate_def res_bind_Inr_iff Let_def split: sum.splits if_splits option.splits)
  obtain ts where ts: "map candle_open_time xs = map Inr ts" "sorted_wrt (<) ts" using dedupe_sorted [OF x(2)] by blast
  have len: "length ts = length xs" using ts(1) by (metis length_map)
  have cs: "map candle_open_time cs = map Inr (last_n (nat nbars) ts)"
    using ts(1) by (simp add: x(4) map_last_n)
  have "cs \<noteq> []" using x(3,4) assms(2) by (auto simp: last_n_def)
  moreover have "last_n (nat nbars) ts \<noteq> []" using len x(3) assms(2) by (auto simp: last_n_def)
  ultimately have "candle_open_time (last cs) = Inr (last (last_n (nat nbars) ts))"
    using cs by (metis last_map)
  with x(5) have "now - real_of_int (last (last_n (nat nbars) ts)) / 1000 \<le> max_stale by_tf tf"
    by (simp add: snapshot_stale_def)
  moreover have "int (length cs) = nbars" using x(3,4) assms(2) by (simp add: last_n_def)
  ultimately show ?thesis using cs sorted_last_n [OF ts(2)] by blast
qed


section \<open>The signals of the service\<close>

text \<open>The fields as they come, whatever their types.\<close>

record ready_signal =
  rs_tf :: json
  rs_exchange :: json
  rs_timestamp :: json
  rs_complete :: json
  rs_partial_count :: json
  rs_insufficient_count :: json
  rs_partial :: json
  rs_insufficient :: json

definition ready_signal_of :: "json \<Rightarrow> ready_signal res" where
  "ready_signal_of j = (case j of
       JObj d \<Rightarrow> Inr \<lparr>rs_tf = dget d ''tf'' (JStr ''''), rs_exchange = dget d ''exchange'' (JStr ''''),
         rs_timestamp = dget d ''timestamp'' (JInt 0), rs_complete = dget d ''complete_count'' (JInt 0),
         rs_partial_count = dget d ''partial_count'' (JInt 0),
         rs_insufficient_count = dget d ''insufficient_count'' (JInt 0),
         rs_partial = dget d ''partial_symbols'' (JObj []), rs_insufficient = dget d ''insufficient_symbols'' (JArr [])\<rparr>
     | _ \<Rightarrow> Inl AttributeError)"

text \<open>One round over the time frames still awaited; a failed read is an absent signal.\<close>

fun poll_tfs ::
  "(string \<Rightarrow> jtext option) \<Rightarrow> string list \<Rightarrow> (string, ready_signal) dict \<Rightarrow> (string list \<times> (string, ready_signal) dict) res" where
  "poll_tfs reply [] sigs = Inr ([], sigs)"
| "poll_tfs reply (tf # tfs) sigs = (case reply tf of
       Some t \<Rightarrow>
         if t = Raw '''' then res_bind (poll_tfs reply tfs sigs) (\<lambda>(rest, sigs). Inr (tf # rest, sigs))
         else res_bind (jloads t) (\<lambda>j. res_bind (ready_signal_of j) (\<lambda>sig. poll_tfs reply tfs (dset tf sig sigs)))
     | None \<Rightarrow> res_bind (poll_tfs reply tfs sigs) (\<lambda>(rest, sigs). Inr (tf # rest, sigs)))"

text \<open>
  The loop of \<open>wait_for_ready\<close>: \<open>clock i\<close> is the reading of the clock before the i-th round, which
  is after a sleep of at least two seconds.  Whether it ends depends on the clock.
\<close>

partial_function (option) poll_loop ::
  "(nat \<Rightarrow> real) \<Rightarrow> (nat \<Rightarrow> string \<Rightarrow> jtext option) \<Rightarrow> real \<Rightarrow> nat \<Rightarrow> string list \<Rightarrow> (string, ready_signal) dict \<Rightarrow>
    (string, ready_signal) dict res option" where
  "poll_loop clock replies deadline i waiting sigs =
     (if waiting = [] \<or> \<not> clock i < deadline then Some (Inr sigs)
      else case poll_tfs (replies (Suc i)) waiting sigs of
          Inl e \<Rightarrow> Some (Inl e)
        | Inr p \<Rightarrow> poll_loop clock replies deadline (Suc i) (fst p) (snd p))"

definition wait_for_ready ::
  "(nat \<Rightarrow> real) \<Rightarrow> (nat \<Rightarrow> string \<Rightarrow> jtext option) \<Rightarrow> string list \<Rightarrow> real \<Rightarrow> (string, ready_signal) dict \<Rightarrow>
    (string, ready_signal) dict res option" where
  "wait_for_ready clock replies required timeout sigs =
     (case poll_tfs (replies 0) (remdups required) sigs of
        Inl e \<Rightarrow> Some (Inl e)
      | Inr p \<Rightarrow> poll_loop clock replies (clock 0 + timeout) 0 (fst p) (snd p))"

end
