(* ===== verification/Warmup.thy ===== *)
theory Warmup
  imports SnapshotReader Claims AlphaEngine "HOL-Library.Product_Lexorder"
begin

text \<open>
  \<^verbatim>\<open>alphas/runner/data_layer/warmup.py\<close>: how the runner fills the candle cache before its strategies
  trade.  Requirements that the cache does not meet are read from the snapshots, what is still
  missing is requested from the market data service in batches under a limit of requests a minute,
  and the newest time of each time frame becomes its baseline.

  The snapshot reader, the service, the clocks and the digest are arguments.  Batches are sent one
  after another here: the code runs some of them at once, and cancels the rest when enough is ready.
\<close>

section \<open>Requirements\<close>

definition warmup_tf_ms :: "string \<Rightarrow> int" where
  "warmup_tf_ms tf = dget
     [(''1m'', 1), (''5m'', 5), (''15m'', 15), (''30m'', 30), (''1h'', 60), (''4h'', 240), (''1d'', 1440)] tf 1 * 60 * 1000"

datatype requirement = Requirement (rq_symbol: string) (rq_tf: string) (rq_bars: int)

text \<open>\<open>@dataclass(order=True)\<close>: the order of the fields.\<close>

instantiation requirement :: linorder
begin

definition less_eq_requirement :: "requirement \<Rightarrow> requirement \<Rightarrow> bool" where
  "a \<le> b \<longleftrightarrow> (rq_symbol a, rq_tf a, rq_bars a) \<le> (rq_symbol b, rq_tf b, rq_bars b)"

definition less_requirement :: "requirement \<Rightarrow> requirement \<Rightarrow> bool" where
  "a < b \<longleftrightarrow> (rq_symbol a, rq_tf a, rq_bars a) < (rq_symbol b, rq_tf b, rq_bars b)"

instance
  by standard (auto simp: less_eq_requirement_def less_requirement_def intro: requirement.expand)

end

abbreviation rq_key :: "requirement \<Rightarrow> key" where
  "rq_key r \<equiv> (rq_symbol r, rq_tf r)"

definition bars_bucket :: "int \<Rightarrow> string" where
  "bars_bucket n = (if n \<le> 500 then ''le_500'' else if n \<le> 2000 then ''le_2000'' else ''gt_2000'')"

text \<open>\<open>sha\<close> is \<open>hashlib.sha1(...).hexdigest\<close>, \<open>str\<close> writes an integer.\<close>

definition request_key :: "(string \<Rightarrow> string) \<Rightarrow> (int \<Rightarrow> string) \<Rightarrow> string \<Rightarrow> string \<Rightarrow> int \<Rightarrow> string list \<Rightarrow> string" where
  "request_key sha str exchange tf n symbols =
     exchange @ ''|'' @ tf @ ''|'' @ str n @ ''|'' @ sha (join_comma (sort (remdups symbols)))"

definition most_bars :: "requirement list \<Rightarrow> int" where
  "most_bars rs = Max (rq_bars ` set rs)"

definition batch_symbols :: "requirement list \<Rightarrow> string list" where
  "batch_symbols rs = sort (remdups (map rq_symbol rs))"

text \<open>\<open>build_request\<close>: the stream, the fields and the stream of the answers.\<close>

definition build_request ::
  "(string \<Rightarrow> string) \<Rightarrow> (int \<Rightarrow> string) \<Rightarrow> string \<Rightarrow> string \<Rightarrow> requirement list \<Rightarrow>
    string \<times> (string, json) dict \<times> string \<times> string list" where
  "build_request sha str exchange runner rs =
     (let tf = rq_tf (hd rs); n = most_bars rs; symbols = batch_symbols rs;
          req_id = runner @ '':warmup:'' @ sha (request_key sha str exchange tf n symbols);
          response = ''warmup:response:'' @ req_id
      in (''warmup:request:'' @ exchange,
          [(''alpha_id'', JStr req_id), (''request_id'', JStr req_id), (''response_stream'', JStr response),
           (''exchange'', JStr exchange), (''tf'', JStr tf), (''bars'', JStr (str n)),
           (''symbols'', JStr (join_comma symbols)), (''symbols_json'', JArr (map JStr symbols))],
          response, symbols))"

section \<open>The answer of the service\<close>

text \<open>An entry of the answer stream: its id, its symbol, the candles and the time frame it names.\<close>

record answer_entry =
  ae_id :: string
  ae_symbol :: string
  ae_candles :: "jtext option"
  ae_tf :: string

text \<open>What a blocking read gives: it times out in the client, or it returns entries.\<close>

datatype read_outcome = ReadTimeout | Entries "answer_entry list"

record answer_state =
  as_last_id :: string
  as_expected :: "string set"
  as_collected :: "(key, json) dict"

definition take_entry :: "string \<Rightarrow> answer_entry \<Rightarrow> answer_state \<Rightarrow> answer_state" where
  "take_entry tf x s =
     (let s = s\<lparr>as_last_id := ae_id x\<rparr>
      in if ae_symbol x = '''' then s
         else let js = (case ae_candles x of None \<Rightarrow> JArr []
                | Some t \<Rightarrow> (case jloads t of Inr j \<Rightarrow> j | Inl e \<Rightarrow> JArr []))
              in s\<lparr>as_collected := dset (ae_symbol x, if ae_tf x = '''' then tf else ae_tf x) js (as_collected s),
                   as_expected := as_expected s - {ae_symbol x}\<rparr>)"

text \<open>
  The loop of \<open>_read_response\<close> over the readings of the clock and the reads they lead to; \<open>None\<close>
  when the readings end before the loop does.
\<close>

fun read_response :: "string \<Rightarrow> real \<Rightarrow> (real \<times> read_outcome) list \<Rightarrow> answer_state \<Rightarrow> answer_state option" where
  "read_response tf deadline [] s = (if as_expected s = {} then Some s else None)"
| "read_response tf deadline ((now, out) # reads) s =
     (if as_expected s = {} \<or> deadline - now \<le> 0 then Some s
      else case out of
          ReadTimeout \<Rightarrow> read_response tf deadline reads s
        | Entries xs \<Rightarrow> read_response tf deadline reads (fold (take_entry tf) xs s))"

section \<open>The limit of requests\<close>

text \<open>
  \<open>asyncio.sleep\<close> sleeps at least as long as it is told: \<open>over\<close> is what it adds at a reading of the
  clock.  The list keeps the times of the requests of the last minute.
\<close>

function wait_for_rate_limit :: "nat \<Rightarrow> (real \<Rightarrow> real) \<Rightarrow> real \<Rightarrow> real list \<Rightarrow> real \<times> real list" where
  "wait_for_rate_limit per_minute over now ts =
     (let ts = filter (\<lambda>t. now - t < 60) ts
      in if length ts < max 1 per_minute then (now, ts @ [now])
         else wait_for_rate_limit per_minute over (now + max 0 (60 - (now - hd ts)) + \<bar>over now\<bar>) ts)"
  by pat_completeness auto
termination
proof (relation "measure (\<lambda>(per_minute, over, now, ts). length (filter (\<lambda>t. now - t < 60) ts))", goal_cases)
  case (2 per_minute over now ts x)
  let ?ts = "filter (\<lambda>t. now - t < 60) ts"
  let ?now = "now + max 0 (60 - (now - hd ?ts)) + \<bar>over now\<bar>"
  have ne: "?ts \<noteq> []" using 2 by auto
  have "hd ?ts \<in> set ?ts" using ne by (rule hd_in_set)
  moreover have "\<not> ?now - hd ?ts < 60" by simp
  ultimately have "length (filter (\<lambda>t. ?now - t < 60) ?ts) < length ?ts" by (rule length_filter_less)
  then show ?case using 2(1) by simp
qed simp

declare wait_for_rate_limit.simps [simp del]


section \<open>The manager\<close>

record warm_cfg =
  uc_exchange :: string
  uc_skip_gaps :: bool
  uc_ttl :: real
  uc_per_minute :: nat
  uc_per_request :: nat

record warm_metrics =
  um_cache_hits :: nat
  um_snapshot_hits :: nat
  um_requests :: nat
  um_symbols :: nat
  um_timeouts :: nat
  um_partial :: nat
  um_coverage :: "(string, real) dict"

text \<open>What a strategy says of its needs.\<close>

record warm_client =
  wl_alpha :: string
  wl_symbols :: "string list"
  wl_tfs :: "string list"
  wl_bars :: "string \<Rightarrow> int"
  wl_retain :: "string \<Rightarrow> int"
  wl_retain_buffer :: "string \<Rightarrow> int"

record warmup =
  up_cache :: cache
  up_metrics :: warm_metrics
  up_clients :: "warm_client list option"
  up_responses :: "(string, real) dict"
  up_times :: "real list"
  up_clock :: real
  up_excluded :: "json list"
  up_requirements :: "(key, int) dict"
  up_baseline :: "(string, int) dict"

text \<open>
  What the service answers to a batch; a back end may give the set of loaded keys or the candles by
  key or by symbol.
\<close>

datatype backend_result = KeySet "key list" | ByKey "(key \<times> json) list" | BySymbol "(string \<times> json) list" | NoRows

datatype backend_outcome = TimedOut | Failed | Answer backend_result

record warm_env =
  ue_now :: real
  ue_reader :: "(string \<Rightarrow> string \<Rightarrow> int \<Rightarrow> candle list option res) option"
  ue_backend :: "real \<Rightarrow> requirement list \<Rightarrow> backend_outcome \<times> real"
  ue_over :: "real \<Rightarrow> real"
  ue_sha :: "string \<Rightarrow> string"
  ue_str :: "int \<Rightarrow> string"

definition on_cache :: "(cache, 'a) eff \<Rightarrow> (warmup, 'a) eff" where
  "on_cache m = (\<lambda>w. case m (up_cache w) of (r, c) \<Rightarrow> (r, w\<lparr>up_cache := c\<rparr>))"

definition tally :: "(warm_metrics \<Rightarrow> warm_metrics) \<Rightarrow> (warmup, unit) eff" where
  "tally f = modify (\<lambda>w. w\<lparr>up_metrics := f (up_metrics w)\<rparr>)"

definition is_excluded :: "warmup \<Rightarrow> string \<Rightarrow> bool" where
  "is_excluded w s \<longleftrightarrow> JStr s \<in> set (up_excluded w)"

definition cache_satisfies :: "warm_cfg \<Rightarrow> real \<Rightarrow> key \<Rightarrow> int \<Rightarrow> real option \<Rightarrow> cache \<Rightarrow> bool" where
  "cache_satisfies cfg now k n max_age c \<longleftrightarrow>
     has_required_bars k n c \<and>
     (case max_age of None \<Rightarrow> True | Some a \<Rightarrow> has_fresh_data now k n a c) \<and>
     (uc_skip_gaps cfg \<or> is_clean (verify_no_gaps k None c))"

definition satisfied :: "warm_cfg \<Rightarrow> real \<Rightarrow> real option \<Rightarrow> warmup \<Rightarrow> requirement \<Rightarrow> bool" where
  "satisfied cfg now max_age w r = cache_satisfies cfg now (rq_key r) (rq_bars r) max_age (up_cache w)"

text \<open>\<open>collect_requirements\<close>: the most bars a strategy asks for tally, and the cache is told.\<close>

definition collect_one :: "warm_client \<Rightarrow> string \<Rightarrow> string \<Rightarrow> (key, int) dict \<times> cache \<Rightarrow> (key, int) dict \<times> cache" where
  "collect_one cl tf s = (\<lambda>(rs, c).
     (dset (s, tf) (max (dget rs (s, tf) 0) (wl_bars cl tf)) rs,
      register_data_requirement (s, tf) (wl_bars cl tf) (Some (wl_retain cl tf)) (wl_retain_buffer cl tf) c))"

definition collect_requirements :: "warm_client list \<Rightarrow> warmup \<Rightarrow> warmup" where
  "collect_requirements cls w =
     (let (rs, c) = fold (\<lambda>cl. fold (\<lambda>tf. fold (collect_one cl tf) (wl_symbols cl)) (wl_tfs cl)) cls ([], up_cache w)
      in w\<lparr>up_clients := Some cls, up_requirements := rs, up_cache := c\<rparr>)"

definition set_coverage :: "string \<Rightarrow> real \<Rightarrow> warmup \<Rightarrow> warmup" where
  "set_coverage alpha x w =
     (if alpha = '''' then w
      else w\<lparr>up_metrics := (up_metrics w)\<lparr>um_coverage := dset alpha x (um_coverage (up_metrics w))\<rparr>\<rparr>)"

definition strategy_ready :: "warm_cfg \<Rightarrow> real \<Rightarrow> warm_client \<Rightarrow> real \<Rightarrow> real option \<Rightarrow> warmup \<Rightarrow> bool \<times> warmup" where
  "strategy_ready cfg now cl min_coverage max_age w =
     (let symbols = filter (\<lambda>s. \<not> is_excluded w s) (wl_symbols cl)
      in if symbols = [] then (True, set_coverage (wl_alpha cl) 1 w)
         else let loaded = (\<lambda>tf. length (filter (\<lambda>s. cache_satisfies cfg now (s, tf) (wl_bars cl tf) max_age (up_cache w)) symbols));
                  pct = (\<lambda>tf. real (loaded tf) / real (length symbols));
                  required = max 1 \<lfloor>real (length symbols) * min_coverage + 0.999999\<rfloor>
              in (list_all (\<lambda>tf. int (loaded tf) \<ge> required \<and> pct tf \<ge> min_coverage) (wl_tfs cl),
                  set_coverage (wl_alpha cl) (if wl_tfs cl = [] then 1 else Min (pct ` set (wl_tfs cl))) w))"

fun all_ready :: "warm_cfg \<Rightarrow> real \<Rightarrow> real \<Rightarrow> real option \<Rightarrow> warm_client list \<Rightarrow> warmup \<Rightarrow> bool \<times> warmup" where
  "all_ready cfg now m max_age [] w = (True, w)"
| "all_ready cfg now m max_age (cl # cls) w =
     (let (b, w) = strategy_ready cfg now cl m max_age w in if b then all_ready cfg now m max_age cls w else (False, w))"

definition all_strategies_ready :: "warm_cfg \<Rightarrow> real \<Rightarrow> real option \<Rightarrow> real option \<Rightarrow> (warmup, bool) eff" where
  "all_strategies_ready cfg now min_coverage max_age = (\<lambda>w. case (min_coverage, up_clients w) of
       (Some m, Some (cl # cls)) \<Rightarrow> (case all_ready cfg now m max_age (cl # cls) w of (b, w) \<Rightarrow> (Inr b, w))
     | _ \<Rightarrow> (Inr False, w))"

definition missing_requirements ::
  "warm_cfg \<Rightarrow> real \<Rightarrow> (key, int) dict \<Rightarrow> real option \<Rightarrow> (warmup, requirement list) eff" where
  "missing_requirements cfg now rs max_age =
     bind get_state (\<lambda>w.
     let wanted = filter (\<lambda>((s, tf), n). \<not> is_excluded w s) rs;
         ok = (\<lambda>(k, n). cache_satisfies cfg now k n max_age (up_cache w))
     in then_do (tally (\<lambda>m. m\<lparr>um_cache_hits := um_cache_hits m + length (filter ok wanted)\<rparr>))
        (ret (sort (map (\<lambda>((s, tf), n). Requirement s tf n) (filter (\<lambda>p. \<not> ok p) wanted)))))"

section \<open>Batches\<close>

text \<open>\<open>groups.setdefault(...)\<close>: of two requirements for one key the one with more bars counts.\<close>

definition add_requirement ::
  "requirement \<Rightarrow> (key, (key, requirement) dict) dict \<Rightarrow> (key, (key, requirement) dict) dict" where
  "add_requirement r groups =
     (let g = (rq_tf r, bars_bucket (rq_bars r)); members = dget groups g []
      in dset g (case map_of members (rq_key r) of
           None \<Rightarrow> dset (rq_key r) r members
         | Some old \<Rightarrow> if rq_bars r > rq_bars old then dset (rq_key r) r members else members) groups)"

definition group_missing_by_bucket :: "requirement list \<Rightarrow> (key, requirement list) dict" where
  "group_missing_by_bucket rs =
     map (\<lambda>(g, members). (g, sort (map snd members))) (sort_key fst (fold add_requirement rs []))"

definition chunk_requirements :: "nat \<Rightarrow> requirement list \<Rightarrow> requirement list list" where
  "chunk_requirements per_request rs =
     (if length rs \<le> max 1 per_request then [rs] else chunks (max 1 per_request) rs)"

definition all_chunks :: "nat \<Rightarrow> requirement list \<Rightarrow> requirement list list" where
  "all_chunks per_request rs = concat (map (chunk_requirements per_request \<circ> snd) (group_missing_by_bucket rs))"

section \<open>Loading\<close>

definition upsert_all :: "real \<Rightarrow> key \<Rightarrow> candle list \<Rightarrow> (warmup, unit) eff" where
  "upsert_all now k cs = on_cache (for_each (upsert_candle (Fin now) (fst k) (snd k)) cs)"

fun load_from_snapshots ::
  "warm_cfg \<Rightarrow> warm_env \<Rightarrow> (string \<Rightarrow> string \<Rightarrow> int \<Rightarrow> candle list option res) \<Rightarrow> requirement list \<Rightarrow> real option \<Rightarrow>
    key list \<Rightarrow> (warmup, key list) eff" where
  "load_from_snapshots cfg env reader [] max_age loaded = ret loaded"
| "load_from_snapshots cfg env reader (r # rs) max_age loaded =
     bind get_state (\<lambda>w.
     if satisfied cfg (ue_now env) max_age w r then load_from_snapshots cfg env reader rs max_age loaded
     else bind (lift_res (reader (rq_symbol r) (rq_tf r) (rq_bars r))) (\<lambda>cs.
       case cs of None \<Rightarrow> load_from_snapshots cfg env reader rs max_age loaded
       | Some [] \<Rightarrow> load_from_snapshots cfg env reader rs max_age loaded
       | Some cs \<Rightarrow>
           then_do (upsert_all (ue_now env) (rq_key r) cs)
           (bind get_state (\<lambda>w.
            if satisfied cfg (ue_now env) max_age w r
            then then_do (tally (\<lambda>m. m\<lparr>um_snapshot_hits := um_snapshot_hits m + 1\<rparr>))
              (load_from_snapshots cfg env reader rs max_age (rq_key r # loaded))
            else load_from_snapshots cfg env reader rs max_age loaded))))"

definition object_of :: "json \<Rightarrow> candle list" where
  "object_of j = (case j of JObj c \<Rightarrow> [c] | _ \<Rightarrow> [])"

text \<open>The rows of an answer; freshness is not asked of what the service has just sent.\<close>

fun apply_rows ::
  "warm_cfg \<Rightarrow> real \<Rightarrow> requirement list \<Rightarrow> (key \<times> json) list \<Rightarrow> key list \<Rightarrow> (warmup, key list) eff" where
  "apply_rows cfg now rs [] loaded = ret loaded"
| "apply_rows cfg now rs ((k, js) # rows) loaded = (case js of
       JArr xs \<Rightarrow>
         then_do (upsert_all now k (concat (map object_of xs)))
         (bind get_state (\<lambda>w. apply_rows cfg now rs rows
           (case find (\<lambda>r. rq_key r = k) (rev rs) of
              Some r \<Rightarrow> if satisfied cfg now None w r then k # loaded else loaded
            | None \<Rightarrow> loaded)))
     | _ \<Rightarrow> apply_rows cfg now rs rows loaded)"

definition apply_backend_result ::
  "warm_cfg \<Rightarrow> real \<Rightarrow> requirement list \<Rightarrow> backend_result \<Rightarrow> (warmup, key list) eff" where
  "apply_backend_result cfg now rs res = (case res of
       KeySet ks \<Rightarrow> ret ks
     | ByKey rows \<Rightarrow> apply_rows cfg now rs rows []
     | BySymbol rows \<Rightarrow> apply_rows cfg now rs (map (\<lambda>(s, j). ((s, rq_tf (hd rs)), j)) rows) []
     | NoRows \<Rightarrow> ret [])"

definition send_batch :: "warm_cfg \<Rightarrow> warm_env \<Rightarrow> string \<Rightarrow> requirement list \<Rightarrow> (warmup, key list) eff" where
  "send_batch cfg env rk rs =
     bind get_state (\<lambda>w.
     let (t, ts) = wait_for_rate_limit (uc_per_minute cfg) (ue_over env) (up_clock w) (up_times w);
         (out, t') = ue_backend env t rs
     in then_do (modify (\<lambda>w. w\<lparr>up_times := ts, up_clock := t'\<rparr>))
        (then_do (tally (\<lambda>m. m\<lparr>um_requests := um_requests m + 1, um_symbols := um_symbols m + length rs\<rparr>))
        (case out of
           TimedOut \<Rightarrow> then_do (tally (\<lambda>m. m\<lparr>um_timeouts := um_timeouts m + 1\<rparr>)) (ret [])
         | Failed \<Rightarrow> ret []
         | Answer res \<Rightarrow>
             bind (apply_backend_result cfg (ue_now env) rs res) (\<lambda>loaded.
             then_do (modify (\<lambda>w. if loaded = [] then w else w\<lparr>up_responses := dset rk (up_clock w + uc_ttl cfg) (up_responses w)\<rparr>))
             (then_do (tally (\<lambda>m.
                if loaded = [] then m\<lparr>um_timeouts := um_timeouts m + 1\<rparr>
                else if set loaded \<noteq> rq_key ` set rs
                then m\<lparr>um_partial := um_partial m + 1, um_timeouts := um_timeouts m + 1\<rparr> else m))
             (ret loaded))))))"

definition response_cache_valid ::
  "warm_cfg \<Rightarrow> real \<Rightarrow> string \<Rightarrow> requirement list \<Rightarrow> real option \<Rightarrow> (warmup, bool) eff" where
  "response_cache_valid cfg now rk rs max_age =
     bind get_state (\<lambda>w. case map_of (up_responses w) rk of
         Some expires \<Rightarrow>
           if expires \<le> up_clock w
           then then_do (modify (\<lambda>w. w\<lparr>up_responses := ddel rk (up_responses w)\<rparr>)) (ret False)
           else ret (list_all (satisfied cfg now max_age w) rs)
       | None \<Rightarrow> ret False)"

definition ensure_batch ::
  "warm_cfg \<Rightarrow> warm_env \<Rightarrow> requirement list \<Rightarrow> real option \<Rightarrow> (warmup, key list) eff" where
  "ensure_batch cfg env rs max_age =
     (if rs = [] then ret []
      else let rk = request_key (ue_sha env) (ue_str env) (uc_exchange cfg) (rq_tf (hd rs)) (most_bars rs) (batch_symbols rs)
      in bind (response_cache_valid cfg (ue_now env) rk rs max_age) (\<lambda>valid.
         if valid
         then then_do (tally (\<lambda>m. m\<lparr>um_cache_hits := um_cache_hits m + length rs\<rparr>))
           (bind get_state (\<lambda>w. ret (map rq_key (filter (satisfied cfg (ue_now env) max_age w) rs))))
         else bind (send_batch cfg env rk rs) (\<lambda>loaded. bind get_state (\<lambda>w.
           ret (map rq_key (filter (\<lambda>r. rq_key r \<in> set loaded \<or> satisfied cfg (ue_now env) max_age w r) rs))))))"

fun send_chunks ::
  "warm_cfg \<Rightarrow> warm_env \<Rightarrow> real option \<Rightarrow> real option \<Rightarrow> requirement list list \<Rightarrow> key list \<Rightarrow> (warmup, key list) eff" where
  "send_chunks cfg env max_age stop [] loaded = ret loaded"
| "send_chunks cfg env max_age stop (ch # chs) loaded =
     bind (ensure_batch cfg env ch max_age) (\<lambda>ks.
     bind (all_strategies_ready cfg (ue_now env) stop max_age) (\<lambda>ready.
     if ready then ret (loaded @ ks) else send_chunks cfg env max_age stop chs (loaded @ ks)))"

definition manager_request_warmup ::
  "warm_cfg \<Rightarrow> warm_env \<Rightarrow> (key, int) dict \<Rightarrow> real option \<Rightarrow> real option \<Rightarrow> (warmup, key list) eff" where
  "manager_request_warmup cfg env rs max_age stop =
     then_do (modify (\<lambda>w. w\<lparr>up_cache := fold (\<lambda>(k, n). register_data_requirement k n (Some n) 0) rs (up_cache w)\<rparr>))
     (bind (missing_requirements cfg (ue_now env) rs max_age) (\<lambda>missing.
      if missing = [] then ret []
      else bind (case ue_reader env of None \<Rightarrow> ret [] | Some reader \<Rightarrow>
             load_from_snapshots cfg env reader missing max_age []) (\<lambda>loaded.
        bind (all_strategies_ready cfg (ue_now env) stop max_age) (\<lambda>ready.
        if ready then ret loaded
        else bind get_state (\<lambda>w.
          let remaining = filter (\<lambda>r. rq_key r \<notin> set loaded \<and> \<not> satisfied cfg (ue_now env) max_age w r) missing
          in if remaining = [] then ret loaded
             else send_chunks cfg env max_age stop (all_chunks (uc_per_request cfg) remaining) loaded)))))"


section \<open>Symbols that are left out\<close>

definition exclude :: "json \<Rightarrow> (warmup, unit) eff" where
  "exclude j = (if hashable j then modify (\<lambda>w. w\<lparr>up_excluded := j # up_excluded w\<rparr>) else throw TypeError)"

definition classify_signal :: "real \<Rightarrow> ready_signal \<Rightarrow> (warmup, unit) eff" where
  "classify_signal min_coverage sig =
     then_do (bind (lift_res (elements (rs_insufficient sig))) (for_each exclude))
     (case rs_partial sig of
        JObj d \<Rightarrow> for_each (\<lambda>(s, pct). bind (lift_res (number pct)) (\<lambda>x.
          if x \<ge> Fin min_coverage then ret () else exclude (JStr s))) d
      | _ \<Rightarrow> throw AttributeError)"

definition classify_symbols :: "real \<Rightarrow> (string, ready_signal) dict \<Rightarrow> (warmup, unit) eff" where
  "classify_symbols min_coverage sigs = for_each (classify_signal min_coverage \<circ> snd) sigs"

section \<open>Times in step\<close>

definition required_tfs :: "warmup \<Rightarrow> string list" where
  "required_tfs w = sort (remdups (map (snd \<circ> fst) (up_requirements w)))"

definition latest_timestamps :: "string \<Rightarrow> warmup \<Rightarrow> (string, int) dict" where
  "latest_timestamps tf w = List.map_filter
     (\<lambda>s. if is_excluded w s then None else map_option (Pair s) (get_latest_timestamp (s, tf) (up_cache w)))
     (get_symbols_with_data tf (up_cache w))"

text \<open>The symbols more than \<open>tol\<close> behind, where the times are too far apart.\<close>

definition lagging :: "int \<Rightarrow> string \<Rightarrow> warmup \<Rightarrow> string list option" where
  "lagging tol tf w =
     (let ts = latest_timestamps tf w; newest = Max (snd ` set ts); oldest = Min (snd ` set ts); ms = warmup_tf_ms tf * tol
      in if ts = [] \<or> newest - oldest \<le> ms then None
         else Some (map fst (filter (\<lambda>(s, t). newest - t > ms) ts)))"

definition reread ::
  "warm_env \<Rightarrow> (string \<Rightarrow> string \<Rightarrow> int \<Rightarrow> candle list option res) \<Rightarrow> string \<Rightarrow> string \<Rightarrow> (warmup, unit) eff" where
  "reread env reader tf s =
     bind get_state (\<lambda>w.
     bind (lift_res (reader s tf (dget (up_requirements w) (s, tf) 0))) (\<lambda>cs.
     upsert_all (ue_now env) (s, tf) (case cs of None \<Rightarrow> [] | Some xs \<Rightarrow> xs)))"

function verify_timestamp_sync :: "warm_env \<Rightarrow> int \<Rightarrow> nat \<Rightarrow> (warmup, bool) eff" where
  "verify_timestamp_sync env tol depth =
     (if depth > 2 then ret False
      else bind get_state (\<lambda>w. case find (\<lambda>tf. lagging tol tf w \<noteq> None) (required_tfs w) of
          None \<Rightarrow> ret True
        | Some tf \<Rightarrow>
            then_do (case ue_reader env of
                None \<Rightarrow> ret ()
              | Some reader \<Rightarrow> for_each (reread env reader tf) (case lagging tol tf w of None \<Rightarrow> [] | Some ss \<Rightarrow> ss))
            (verify_timestamp_sync env tol (Suc depth))))"
  by pat_completeness auto
termination by (relation "measure (\<lambda>(env, tol, depth). 3 - depth)") auto

declare verify_timestamp_sync.simps [simp del]

section \<open>The synchronised warm-up\<close>

definition newest_time :: "string \<Rightarrow> warmup \<Rightarrow> int" where
  "newest_time tf w = fold (\<lambda>(s, t) m. if t > m then t else m) (latest_timestamps tf w) 0"

definition put_baseline :: "string \<Rightarrow> warmup \<Rightarrow> warmup" where
  "put_baseline tf w =
     (let t = newest_time tf w
      in if t > 0 then w\<lparr>up_cache := set_warmup_baseline tf t (up_cache w), up_baseline := dset tf t (up_baseline w)\<rparr>
         else w)"

definition run_synced_warmup ::
  "warm_cfg \<Rightarrow> warm_env \<Rightarrow> (string, ready_signal) dict option \<Rightarrow> real \<Rightarrow> int \<Rightarrow> real option \<Rightarrow> (warmup, bool) eff" where
  "run_synced_warmup cfg env sigs min_coverage tol max_staleness =
     bind get_state (\<lambda>w0.
     let tfs = required_tfs w0
     in then_do (case sigs of
            None \<Rightarrow> ret ()
          | Some d \<Rightarrow> if tfs = [] \<or> length d < length tfs then ret () else classify_symbols min_coverage d)
        (bind get_state (\<lambda>w.
         then_do (manager_request_warmup cfg env (filter (\<lambda>((s, tf), n). \<not> is_excluded w s) (up_requirements w))
           max_staleness (Some min_coverage))
        (then_do (verify_timestamp_sync env tol 0)
        (then_do (modify (fold put_baseline tfs))
        (ret True))))))"

end
