(* ===== verification/WarmupProperties.thy ===== *)
theory WarmupProperties
  imports Warmup
begin

text \<open>
  The warm-up of the runner: its waits end, its requests respect their limit and cover what is
  missing, and what it stores is in order.
\<close>

section \<open>Waiting for the service\<close>

lemma poll_loop_ends:
  assumes "\<And>i. clock i + 2 \<le> clock (Suc i)" and "deadline \<le> clock i + 2 * real n"
  shows "\<exists>r. poll_loop clock replies deadline i waiting sigs = Some r"
  using assms(2)
proof (induction n arbitrary: i waiting sigs)
  case 0
  then show ?case by (subst poll_loop.simps) simp
next
  case (Suc n)
  have "deadline \<le> clock (Suc i) + 2 * real n" using Suc.prems assms(1) [of i] by simp
  note IH = Suc.IH [OF this]
  show ?case
  proof (cases "poll_tfs (replies (Suc i)) waiting sigs")
    case (Inr p)
    with IH show ?thesis by (subst poll_loop.simps) auto
  qed (subst poll_loop.simps, auto)
qed

lemma poll_tfs_keys:
  assumes "poll_tfs reply tfs sigs = Inr (rest, sigs')"
  shows "set rest \<subseteq> set tfs" "set (keys sigs) \<union> set tfs = set (keys sigs') \<union> set rest" "set (keys sigs) \<subseteq> set (keys sigs')"
    "\<forall>tf \<in> set rest. reply tf \<in> {None, Some (Raw '''')}"
proof -
  have "set rest \<subseteq> set tfs \<and> set (keys sigs) \<union> set tfs = set (keys sigs') \<union> set rest \<and> set (keys sigs) \<subseteq> set (keys sigs') \<and>
      (\<forall>tf \<in> set rest. reply tf \<in> {None, Some (Raw '''')})"
    using assms
  proof (induction tfs arbitrary: sigs rest)
    case (Cons tf tfs)
    show ?case
    proof (cases "reply tf \<in> {None, Some (Raw '''')}")
      case True
      then obtain rest' where "poll_tfs reply tfs sigs = Inr (rest', sigs')" "rest = tf # rest'"
        using Cons.prems by (auto simp: res_bind_Inr_iff)
      with Cons.IH [of sigs rest'] True show ?thesis by auto
    next
      case False
      then obtain sig where "poll_tfs reply tfs (dset tf sig sigs) = Inr (rest, sigs')"
        using Cons.prems by (auto simp: res_bind_Inr_iff split: option.splits if_splits)
      from Cons.IH [OF this] show ?thesis by (auto simp: keys_def fst_set_dset)
    qed
  qed (simp)
  then show "set rest \<subseteq> set tfs" "set (keys sigs) \<union> set tfs = set (keys sigs') \<union> set rest" "set (keys sigs) \<subseteq> set (keys sigs')"
    "\<forall>tf \<in> set rest. reply tf \<in> {None, Some (Raw '''')}" by auto
qed

lemma poll_loop_keys:
  assumes "poll_loop clock replies deadline i waiting sigs = Some r"
  shows "\<forall>d. r = Inr d \<longrightarrow> set (keys sigs) \<subseteq> set (keys d) \<and> set (keys d) \<subseteq> set (keys sigs) \<union> set waiting"
proof (rule poll_loop.raw_induct [where P = "\<lambda>clock replies deadline i waiting sigs r. \<forall>d. r = Inr d \<longrightarrow>
      set (keys sigs) \<subseteq> set (keys d) \<and> set (keys d) \<subseteq> set (keys sigs) \<union> set waiting", OF _ assms])
  fix f clock replies deadline i waiting sigs r
  assume IH: "\<And>a b c d waiting sigs r. f a b c d waiting sigs = Some r \<Longrightarrow> \<forall>d. r = Inr d \<longrightarrow>
      set (keys sigs) \<subseteq> set (keys d) \<and> set (keys d) \<subseteq> set (keys sigs) \<union> set waiting"
    and eq: "(if waiting = [] \<or> \<not> clock i < deadline then Some (Inr sigs)
      else case poll_tfs (replies (Suc i)) waiting sigs of
          Inl e \<Rightarrow> Some (Inl e)
        | Inr p \<Rightarrow> f clock replies deadline (Suc i) (fst p) (snd p)) = Some r"
  show "\<forall>d. r = Inr d \<longrightarrow> set (keys sigs) \<subseteq> set (keys d) \<and> set (keys d) \<subseteq> set (keys sigs) \<union> set waiting"
  proof (cases "waiting = [] \<or> \<not> clock i < deadline")
    case True
    with eq show ?thesis by auto
  next
    case False
    show ?thesis
    proof (cases "poll_tfs (replies (Suc i)) waiting sigs")
      case (Inl e)
      with eq False show ?thesis by auto
    next
      case (Inr p)
      with eq False have "f clock replies deadline (Suc i) (fst p) (snd p) = Some r" by simp
      from IH [OF this] poll_tfs_keys(2,3) [of "replies (Suc i)" waiting sigs "fst p" "snd p"] Inr show ?thesis
        by simp blast
    qed
  qed
qed

text \<open>A reply that is there but is no signal: no JSON, or JSON that is no object.\<close>

definition malformed_signal :: "jtext option \<Rightarrow> bool" where
  "malformed_signal reply \<longleftrightarrow> (case reply of
       None \<Rightarrow> False
     | Some t \<Rightarrow> t \<noteq> Raw '''' \<and> \<not> (\<exists>d. jloads t = Inr (JObj d)))"

lemma poll_tfs_raises: "poll_tfs reply tfs sigs = Inl e \<Longrightarrow> \<exists>tf \<in> set tfs. malformed_signal (reply tf)"
proof (induction tfs arbitrary: sigs)
  case (Cons tf tfs)
  show ?case
  proof (cases "malformed_signal (reply tf)")
    case False
    show ?thesis
    proof (cases "reply tf \<in> {None, Some (Raw '''')}")
      case True
      then have "poll_tfs reply tfs sigs = Inl e"
        using Cons.prems by (cases "poll_tfs reply tfs sigs") auto
      from Cons.IH [OF this] show ?thesis by simp
    next
      case signal: False
      then obtain t d where t: "reply tf = Some t" "t \<noteq> Raw ''''" "jloads t = Inr (JObj d)"
        using False by (auto simp: malformed_signal_def)
      then obtain sig where "poll_tfs reply tfs (dset tf sig sigs) = Inl e"
        using Cons.prems by (simp add: ready_signal_of_def)
      from Cons.IH [OF this] show ?thesis by simp
    qed
  qed simp
qed simp

lemma poll_loop_raises:
  assumes "poll_loop clock replies deadline i waiting sigs = Some r"
  shows "\<forall>e. r = Inl e \<longrightarrow> (\<exists>j. \<exists>tf \<in> set waiting. malformed_signal (replies j tf))"
proof (rule poll_loop.raw_induct [where P = "\<lambda>clock replies deadline i waiting sigs r. \<forall>e. r = Inl e \<longrightarrow>
      (\<exists>j. \<exists>tf \<in> set waiting. malformed_signal (replies j tf))", OF _ assms])
  fix f clock replies deadline i waiting sigs r
  assume IH: "\<And>a replies c d waiting sigs r. f a replies c d waiting sigs = Some r \<Longrightarrow> \<forall>e. r = Inl e \<longrightarrow>
      (\<exists>j. \<exists>tf \<in> set waiting. malformed_signal (replies j tf))"
    and eq: "(if waiting = [] \<or> \<not> clock i < deadline then Some (Inr sigs)
      else case poll_tfs (replies (Suc i)) waiting sigs of
          Inl e \<Rightarrow> Some (Inl e)
        | Inr p \<Rightarrow> f clock replies deadline (Suc i) (fst p) (snd p)) = Some r"
  show "\<forall>e. r = Inl e \<longrightarrow> (\<exists>j. \<exists>tf \<in> set waiting. malformed_signal (replies j tf))"
  proof (cases "waiting = [] \<or> \<not> clock i < deadline")
    case False
    show ?thesis
    proof (cases "poll_tfs (replies (Suc i)) waiting sigs")
      case (Inl e)
      from poll_tfs_raises [OF this] show ?thesis by blast
    next
      case (Inr p)
      with eq False have "f clock replies deadline (Suc i) (fst p) (snd p) = Some r" by simp
      from IH [OF this] poll_tfs_keys(1) [of "replies (Suc i)" waiting sigs "fst p" "snd p"] Inr show ?thesis
        by simp blast
    qed
  qed (use eq in auto)
qed



section \<open>The limit of requests\<close>

lemma filter_suffix:
  fixes now :: real
  assumes "sorted ts"
  shows "\<exists>k. filter (\<lambda>t. now - t < 60) ts = drop k ts \<and> (\<forall>x \<in> set (take k ts). 60 \<le> now - x)"
  using assms
proof (induction ts)
  case (Cons t ts)
  show ?case
  proof (cases "now - t < 60")
    case True
    then have "filter (\<lambda>t. now - t < 60) (t # ts) = t # ts" using Cons.prems by (auto intro!: filter_True)
    then show ?thesis by (intro exI [of _ 0]) simp
  next
    case False
    with Cons obtain k where "filter (\<lambda>t. now - t < 60) ts = drop k ts" "\<forall>x \<in> set (take k ts). 60 \<le> now - x" by auto
    with False show ?thesis by (intro exI [of _ "Suc k"]) auto
  qed
qed simp

lemma wait_result:
  assumes "sorted ts" and "wait_for_rate_limit per_minute over now ts = (t, ts')"
  shows "now \<le> t \<and> length ts' \<le> max 1 per_minute \<and> (\<exists>k. ts' = drop k ts @ [t] \<and> (\<forall>x \<in> set (take k ts). 60 \<le> t - x))"
  using assms
proof (induction per_minute over now ts rule: wait_for_rate_limit.induct)
  case (1 per_minute over now ts)
  obtain k where k: "filter (\<lambda>t. now - t < 60) ts = drop k ts" "\<forall>x \<in> set (take k ts). 60 \<le> now - x"
    using filter_suffix [OF "1.prems"(1)] by blast
  show ?case
  proof (cases "length (drop k ts) < max 1 per_minute")
    case True
    with "1.prems"(2) k show ?thesis by (subst (asm) wait_for_rate_limit.simps) auto
  next
    case False
    let ?now = "now + max 0 (60 - (now - hd (drop k ts))) + \<bar>over now\<bar>"
    have "wait_for_rate_limit per_minute over ?now (drop k ts) = (t, ts')"
      using "1.prems"(2) False k(1) by (subst (asm) wait_for_rate_limit.simps) (simp add: Let_def)
    from "1.IH" [OF k(1) [symmetric] False sorted_wrt_drop [OF "1.prems"(1)] this] obtain j where
      j: "?now \<le> t" "length ts' \<le> max 1 per_minute" "ts' = drop j (drop k ts) @ [t]" "\<forall>x \<in> set (take j (drop k ts)). 60 \<le> t - x"
      by auto
    have "now \<le> t" using j(1) by linarith
    moreover have "\<forall>x \<in> set (take (k + j) ts). 60 \<le> t - x"
      using j(4) k(2) \<open>now \<le> t\<close> by (fastforce simp: take_add)
    ultimately show ?thesis using j(2,3) by (auto simp: add.commute intro!: exI [of _ "k + j"])
  qed
qed

text \<open>The requests of a run: the clock never goes back between two of them.\<close>

inductive request_log :: "nat \<Rightarrow> (real \<Rightarrow> real) \<Rightarrow> real \<Rightarrow> real list \<Rightarrow> real list \<Rightarrow> bool" for per_minute over where
  start: "request_log per_minute over clock [] []"
| grant: "request_log per_minute over clock ts hist \<Longrightarrow> clock \<le> now \<Longrightarrow>
    wait_for_rate_limit per_minute over now ts = (t, ts') \<Longrightarrow> request_log per_minute over t ts' (hist @ [t])"

lemma request_log_window:
  assumes "request_log per_minute over clock ts hist"
  shows "sorted hist \<and> (\<forall>x \<in> set hist. x \<le> clock) \<and> length ts \<le> max 1 per_minute \<and>
    (\<exists>k. ts = drop k hist \<and> (\<forall>x \<in> set (take k hist). 60 \<le> clock - x))"
  using assms
proof (induction rule: request_log.induct)
  case (grant clock ts hist now t ts')
  then obtain k where k: "sorted hist" "\<forall>x \<in> set hist. x \<le> clock" "ts = drop k hist" "\<forall>x \<in> set (take k hist). 60 \<le> clock - x"
    by auto
  have "sorted ts" using k(1,3) by (simp add: sorted_wrt_drop)
  from wait_result [OF this grant.hyps(3)] obtain j where j: "now \<le> t" "length ts' \<le> max 1 per_minute"
    "ts' = drop j ts @ [t]" "\<forall>x \<in> set (take j ts). 60 \<le> t - x" by blast
  have ct: "clock \<le> t" using grant.hyps(2) j(1) by simp
  let ?i = "min (length hist) (k + j)"
  have "ts' = drop ?i (hist @ [t])" using j(3) k(3) by (simp add: add.commute min_def)
  moreover have "\<forall>x \<in> set (take ?i (hist @ [t])). 60 \<le> t - x"
  proof
    fix x assume "x \<in> set (take ?i (hist @ [t]))"
    moreover have "set hist = set (take k hist) \<union> set (drop k hist)" by (metis append_take_drop_id set_append)
    ultimately have "x \<in> set (take k hist) \<union> set (take j (drop k hist))" by (auto simp: take_add min_def split: if_splits)
    with j(4) k(3,4) ct show "60 \<le> t - x" by fastforce
  qed
  moreover have "sorted (hist @ [t])" "\<forall>x \<in> set (hist @ [t]). x \<le> t" using k(1,2) ct by (auto simp: sorted_append)
  ultimately show ?case using j(2) by blast
qed simp

text \<open>
  C10. The limit of requests.  However the requests come, no minute has more of them than the limit:
  of two requests as many apart as the limit, the later comes at least 60 seconds after the earlier.
\<close>

theorem rate_limit_holds:
  assumes "request_log per_minute over clock ts hist" and "i + max 1 per_minute < length hist"
  shows "60 \<le> hist ! (i + max 1 per_minute) - hist ! i"
  using assms
proof (induction rule: request_log.induct)
  case (grant clock ts hist now t ts')
  show ?case
  proof (cases "i + max 1 per_minute < length hist")
    case True
    with grant.IH show ?thesis by (simp add: nth_append)
  next
    case False
    with grant.prems have i: "i + max 1 per_minute = length hist" by simp
    from request_log_window [OF request_log.grant [OF grant.hyps]] obtain k where
      k: "length ts' \<le> max 1 per_minute" "ts' = drop k (hist @ [t])" "\<forall>x \<in> set (take k (hist @ [t])). 60 \<le> t - x" by blast
    have "i < k" using k(1,2) i by simp
    moreover have "i < length hist" using i by (cases per_minute) simp_all
    ultimately have "hist ! i \<in> set (take k (hist @ [t]))"
      by (force simp: in_set_conv_nth nth_append intro: exI [of _ i])
    with k(3) i \<open>i < length hist\<close> show ?thesis by (simp add: nth_append)
  qed
qed simp

theorem rate_limit_holds_witness:
  "60 \<le> snd (wait_for_rate_limit 1 (\<lambda>t. 0) 5 [0]) ! 0 - (0 :: real)"
proof -
  have w: "wait_for_rate_limit 1 (\<lambda>t. 0) 0 [] = (0, [0])" "wait_for_rate_limit 1 (\<lambda>t. 0) 5 [0] = (60, [60])"
    by (simp_all add: wait_for_rate_limit.simps)
  have "request_log 1 (\<lambda>t. 0) 0 [0] [0]" using request_log.grant [OF request_log.start [of 1 "\<lambda>t. 0" 0] _ w(1)] by simp
  from request_log.grant [OF this _ w(2)] have "request_log 1 (\<lambda>t. 0) 60 [60] [0, 60]" by simp
  from rate_limit_holds [OF this, of 0] w(2) show ?thesis by simp
qed

section \<open>The batches\<close>

text \<open>What the groups hold at every moment, of the requirements added so far.\<close>

definition members :: "(key, (key, requirement) dict) dict \<Rightarrow> requirement list" where
  "members groups = concat (map (map snd \<circ> snd) groups)"

definition group_ok :: "key \<Rightarrow> (key, requirement) dict \<Rightarrow> bool" where
  "group_ok g ms \<longleftrightarrow> ms \<noteq> [] \<and> (\<forall>p \<in> set ms. fst p = rq_key (snd p) \<and> g = (rq_tf (snd p), bars_bucket (rq_bars (snd p))))"

definition well_grouped :: "(key, (key, requirement) dict) dict \<Rightarrow> bool" where
  "well_grouped groups \<longleftrightarrow> dict_ok groups \<and> (\<forall>p \<in> set groups. group_ok (fst p) (snd p))"

lemma well_grouped_member:
  assumes "well_grouped groups" and "map_of groups g = Some ms" and "p \<in> set ms"
  shows "fst p = rq_key (snd p)" "g = (rq_tf (snd p), bars_bucket (rq_bars (snd p)))" "snd p \<in> set (members groups)"
proof -
  have m: "(g, ms) \<in> set groups" using assms(2) by (rule map_of_SomeD)
  then have "group_ok g ms" using assms(1) by (auto simp: well_grouped_def)
  with assms(3) show "fst p = rq_key (snd p)" "g = (rq_tf (snd p), bars_bucket (rq_bars (snd p)))"
    unfolding group_ok_def by blast+
  show "snd p \<in> set (members groups)" using m assms(3) by (force simp: members_def)
qed

lemma mset_members_dset:
  "dict_ok groups \<Longrightarrow> mset (members (dset g ms groups)) + mset (map snd (dget groups g [])) =
    mset (members groups) + mset (map snd ms)"
proof (induction groups)
  case (Cons p groups)
  then show ?case by (cases p) (auto simp: members_def dget_def dest: map_of_SomeD split: option.splits)
qed (simp add: members_def dget_def)

lemma add_requirement_step:
  assumes "well_grouped groups" and "rq_key r \<notin> rq_key ` set (members groups)"
  shows "well_grouped (add_requirement r groups) \<and> mset (members (add_requirement r groups)) = add_mset r (mset (members groups))"
proof -
  let ?g = "(rq_tf r, bars_bucket (rq_bars r))" and ?ms = "dget groups (rq_tf r, bars_bucket (rq_bars r)) []"
  have ok: "dict_ok groups" using assms(1) by (simp add: well_grouped_def)
  have ms: "fst p = rq_key (snd p) \<and> ?g = (rq_tf (snd p), bars_bucket (rq_bars (snd p))) \<and> snd p \<in> set (members groups)"
    if "p \<in> set ?ms" for p
  proof (cases "map_of groups ?g")
    case None
    with that show ?thesis by (simp add: dget_def)
  next
    case (Some ms)
    with that have "p \<in> set ms" by (simp add: dget_def)
    from well_grouped_member [OF assms(1) Some this] show ?thesis by blast
  qed
  have new: "rq_key r \<notin> fst ` set ?ms"
  proof
    assume "rq_key r \<in> fst ` set ?ms"
    then obtain p where p: "p \<in> set ?ms" "fst p = rq_key r" by (metis imageE)
    with ms [OF p(1)] have "rq_key r = rq_key (snd p)" "snd p \<in> set (members groups)" by simp_all
    with assms(2) show False by blast
  qed
  then have none: "map_of ?ms (rq_key r) = None" by (simp add: map_of_eq_None_iff)
  have add: "add_requirement r groups = dset ?g (?ms @ [(rq_key r, r)]) groups"
    using none new by (simp add: add_requirement_def Let_def dset_fresh keys_def)
  have "mset (members (add_requirement r groups)) = add_mset r (mset (members groups))"
    using mset_members_dset [OF ok, of ?g "?ms @ [(rq_key r, r)]"] unfolding add by simp
  moreover have "well_grouped (add_requirement r groups)"
  proof -
    have "group_ok ?g (?ms @ [(rq_key r, r)])" unfolding group_ok_def using ms by auto
    moreover have "set (add_requirement r groups) \<subseteq> insert (?g, ?ms @ [(rq_key r, r)]) (set groups)"
      unfolding add by (rule set_dset_subset)
    moreover have "dict_ok (add_requirement r groups)" unfolding add using ok by simp
    ultimately show ?thesis using assms(1) unfolding well_grouped_def by fastforce
  qed
  ultimately show ?thesis by simp
qed

lemma fold_add_requirement:
  assumes "well_grouped groups" and "distinct (map rq_key rs)" and "rq_key ` set rs \<inter> rq_key ` set (members groups) = {}"
  shows "well_grouped (fold add_requirement rs groups) \<and>
    mset (members (fold add_requirement rs groups)) = mset rs + mset (members groups)"
  using assms
proof (induction rs arbitrary: groups)
  case (Cons r rs)
  have s: "well_grouped (add_requirement r groups)" "mset (members (add_requirement r groups)) = add_mset r (mset (members groups))"
    using add_requirement_step [of groups r] Cons.prems by auto
  have "set (members (add_requirement r groups)) = insert r (set (members groups))"
    using arg_cong [OF s(2), of set_mset] by simp
  with Cons.IH [OF s(1)] Cons.prems s(2) show ?case by auto
qed simp

lemma chunk_requirements_parts:
  "concat (chunk_requirements n rs) = rs"
  "rs \<noteq> [] \<Longrightarrow> ch \<in> set (chunk_requirements n rs) \<Longrightarrow> ch \<noteq> [] \<and> length ch \<le> max 1 n \<and> set ch \<subseteq> set rs"
proof -
  show c: "concat (chunk_requirements n rs) = rs" by (simp add: chunk_requirements_def)
  assume "rs \<noteq> []" and ch: "ch \<in> set (chunk_requirements n rs)"
  then have "ch \<noteq> [] \<and> length ch \<le> max 1 n"
    using chunks_bounded [of ch "max 1 n" rs] by (auto simp: chunk_requirements_def split: if_splits)
  moreover have "set ch \<subseteq> set (concat (chunk_requirements n rs))" using ch by auto
  ultimately show "ch \<noteq> [] \<and> length ch \<le> max 1 n \<and> set ch \<subseteq> set rs" unfolding c by simp
qed

lemma members_sort: "mset (members (sort_key fst ps)) = mset (members ps)"
proof -
  have sum: "mset (members qs) = sum_mset (image_mset (mset \<circ> (map snd \<circ> snd)) (mset qs))" for qs
    unfolding members_def by (induction qs) simp_all
  show ?thesis unfolding sum mset_sort ..
qed

text \<open>
  The batches cover what is missing.  Every requirement that is missing is in exactly one batch,
  a batch has at least one and at most as many as allowed, and all of a batch are for one time frame
  and one bucket of lengths, so the length that is requested is the most of its bucket.
\<close>

theorem batches_cover_missing:
  assumes "distinct (map rq_key rs)"
  shows "mset (concat (all_chunks n rs)) = mset rs \<and>
    list_all (\<lambda>ch. ch \<noteq> [] \<and> length ch \<le> max 1 n \<and>
      list_all (\<lambda>r. rq_tf r = rq_tf (hd ch) \<and> bars_bucket (rq_bars r) = bars_bucket (rq_bars (hd ch))) ch) (all_chunks n rs)"
proof -
  let ?gs = "fold add_requirement rs []"
  have w: "well_grouped ?gs" "mset (members ?gs) = mset rs"
    using fold_add_requirement [of "[]" rs] assms by (simp_all add: well_grouped_def members_def)
  have flat: "concat (concat (map (chunk_requirements n \<circ> snd) ps)) = concat (map snd ps)"
    for ps :: "(key, requirement list) dict"
    by (induction ps) (simp_all add: chunk_requirements_parts)
  have m: "mset (concat (map snd (map (\<lambda>(g, ms). (g, sort (map snd ms))) ps))) = mset (members ps)"
    for ps :: "(key, (key, requirement) dict) dict"
    by (induction ps) (auto simp: members_def)
  have m': "mset (concat (map snd (map (\<lambda>(g, ms). (g, sort (map snd ms))) (sort_key fst ?gs)))) = mset rs"
    unfolding m members_sort w(2) ..
  have "mset (concat (all_chunks n rs)) = mset rs"
    unfolding all_chunks_def group_missing_by_bucket_def flat m' ..
  moreover have "ch \<noteq> [] \<and> length ch \<le> max 1 n \<and>
      list_all (\<lambda>r. rq_tf r = rq_tf (hd ch) \<and> bars_bucket (rq_bars r) = bars_bucket (rq_bars (hd ch))) ch"
    if ch: "ch \<in> set (all_chunks n rs)" for ch
  proof -
    obtain g ms where g: "(g, ms) \<in> set ?gs" "ch \<in> set (chunk_requirements n (sort (map snd ms)))"
      using ch by (auto simp: all_chunks_def group_missing_by_bucket_def)
    with w(1) have ms: "group_ok g ms" unfolding well_grouped_def by fastforce
    then have ne: "sort (map snd ms) \<noteq> []" by (metis group_ok_def Nil_is_map_conv set_empty set_sort)
    from chunk_requirements_parts(2) [OF this g(2)] have c: "ch \<noteq> []" "length ch \<le> max 1 n" "set ch \<subseteq> snd ` set ms" by auto
    have "g = (rq_tf r, bars_bucket (rq_bars r))" if r: "r \<in> set ch" for r
    proof -
      obtain p where "p \<in> set ms" "r = snd p" using c(3) r by blast
      with ms show ?thesis unfolding group_ok_def by blast
    qed
    then have same: "(rq_tf r, bars_bucket (rq_bars r)) = (rq_tf (hd ch), bars_bucket (rq_bars (hd ch)))" if "r \<in> set ch" for r
      using that hd_in_set [OF c(1)] by metis
    have "rq_tf r = rq_tf (hd ch) \<and> bars_bucket (rq_bars r) = bars_bucket (rq_bars (hd ch))" if "r \<in> set ch" for r
      using same [OF that] by (rule Pair_inject) (rule conjI)
    then show ?thesis using c(1,2) unfolding list_all_iff by blast
  qed
  ultimately show ?thesis unfolding list_all_iff [of _ "all_chunks n rs"] by blast
qed

theorem batches_cover_missing_witness:
  "mset (concat (all_chunks 1 [Requirement ''a'' ''1m'' 9, Requirement ''b'' ''1m'' 9])) =
    {#Requirement ''a'' ''1m'' 9, Requirement ''b'' ''1m'' 9#}"
  using batches_cover_missing [of "[Requirement ''a'' ''1m'' 9, Requirement ''b'' ''1m'' 9]" 1] by simp

section \<open>After the warm-up\<close>

lemma newest_time_bound:
  "0 \<le> newest_time tf w" "(s, t) \<in> set (latest_timestamps tf w) \<Longrightarrow> t \<le> newest_time tf w"
proof -
  have "x \<le> fold (\<lambda>(s, t) m. if t > m then t else m) ps x \<and>
      (\<forall>p \<in> set ps. snd p \<le> fold (\<lambda>(s, t) m. if t > m then t else m) ps x)"
    for ps :: "(string \<times> int) list" and x :: int
  proof (induction ps arbitrary: x)
    case (Cons p ps)
    show ?case using Cons.IH [of "if snd p > x then snd p else x"] by (cases p) fastforce
  qed simp
  from this [of 0 "latest_timestamps tf w"]
  show "0 \<le> newest_time tf w" "(s, t) \<in> set (latest_timestamps tf w) \<Longrightarrow> t \<le> newest_time tf w"
    unfolding newest_time_def by force+
qed

lemma newest_time_cong:
  "c_data (up_cache v) = c_data (up_cache w) \<Longrightarrow> up_excluded v = up_excluded w \<Longrightarrow> newest_time tf v = newest_time tf w"
  unfolding newest_time_def latest_timestamps_def is_excluded_def get_symbols_with_data_def get_latest_timestamp_def
  by (simp only:)

lemma put_baseline_parts:
  "c_data (up_cache (put_baseline f w)) = c_data (up_cache w)" "up_excluded (put_baseline f w) = up_excluded w"
  "map_of (c_baseline (up_cache (put_baseline f w))) g =
    (if g = f \<and> 0 < newest_time f w then Some (newest_time f w) else map_of (c_baseline (up_cache w)) g)"
  by (simp_all add: put_baseline_def Let_def set_warmup_baseline_def)

lemma newest_time_fold [simp]: "newest_time tf (fold put_baseline tfs w) = newest_time tf w"
proof (induction tfs arbitrary: w)
  case (Cons f tfs)
  then show ?case by (simp add: newest_time_cong [OF put_baseline_parts(1,2)])
qed simp

lemma baseline_after_put:
  "tf \<in> set tfs \<Longrightarrow> 0 < newest_time tf w \<Longrightarrow>
    map_of (c_baseline (up_cache (fold put_baseline tfs w))) tf = Some (newest_time tf w)"
  by (induction tfs rule: rev_induct) (auto simp: put_baseline_parts)

text \<open>
  C11. After the warm-up a late history is not taken.  Once \<open>run_synced_warmup\<close> has returned, a bar
  older than the newest bar of its time frame, whatever its symbol, is dropped by the cache without a
  word: the baseline of the time frame stays until \<open>clear_warmup_baseline\<close>, which the runner never
  calls.  A symbol whose history was late or failed cannot be filled any more.
\<close>

theorem late_history_rejected:
  assumes "run_synced_warmup cfg env sigs min_coverage tol max_staleness w = (Inr b, w')" and "tf \<in> set (required_tfs w)"
    and "list_all (\<lambda>candle. \<exists>t. map_of candle ''open_time'' = Some (JInt t) \<and> t < newest_time tf w') history"
  shows "upsert_all now (s, tf) history w' = (Inr (), w')"
proof -
  obtain w2 where w': "w' = fold put_baseline (required_tfs w) w2"
    using assms(1) by (auto simp: run_synced_warmup_def bind_def Let_def then_do_def get_state_def modify_def ret_def
        split: prod.splits sum.splits)
  have n: "newest_time tf w' = newest_time tf w2" unfolding w' by simp
  have one: "upsert_candle (Fin now) s tf candle (up_cache w') = (Inr (), up_cache w')"
    if t: "map_of candle ''open_time'' = Some (JInt t)" "t < newest_time tf w'" for candle t
  proof (cases "before_baseline candle (map_of (c_baseline (up_cache w')) tf)")
    case False
    have "t \<le> 0"
    proof (rule ccontr)
      assume "\<not> t \<le> 0"
      with t(2) n have "0 < newest_time tf w2" by simp
      from baseline_after_put [OF assms(2) this] w' n t False show False by (simp add: before_baseline_def dget_def)
    qed
    with False t(1) show ?thesis by (simp add: upsert_candle_def dget_def)
  qed (simp add: upsert_candle_def)
  have "for_each (upsert_candle (Fin now) s tf) history (up_cache w') = (Inr (), up_cache w')"
    using assms(3) by (induction history) (auto simp: one then_do_def bind_def ret_def)
  then show ?thesis by (simp add: upsert_all_def on_cache_def)
qed


text \<open>One bar of BTC is there, and one is all that is asked for.\<close>

definition ex_warm_cfg :: warm_cfg where
  "ex_warm_cfg = \<lparr>uc_exchange = ''binance'', uc_skip_gaps = False, uc_ttl = 60, uc_per_minute = 10, uc_per_request = 50\<rparr>"

definition ex_warm_env :: warm_env where
  "ex_warm_env = \<lparr>ue_now = 0, ue_reader = None, ue_backend = \<lambda>t rs. (TimedOut, t), ue_over = \<lambda>t. 0, ue_sha = id,
     ue_str = \<lambda>n. []\<rparr>"

definition ex_warmup :: warmup where
  "ex_warmup = \<lparr>up_cache = snd (upsert_candle (Fin 0) ''BTC'' ''1m'' [(''open_time'', JInt 120000)] (new_cache 1)),
     up_metrics = \<lparr>um_cache_hits = 0, um_snapshot_hits = 0, um_requests = 0, um_symbols = 0, um_timeouts = 0,
       um_partial = 0, um_coverage = []\<rparr>,
     up_clients = None, up_responses = [], up_times = [], up_clock = 0, up_excluded = [],
     up_requirements = [((''BTC'', ''1m''), 1)], up_baseline = []\<rparr>"

theorem late_history_rejected_witness:
  "let w' = snd (run_synced_warmup ex_warm_cfg ex_warm_env None (1 / 2) 2 None ex_warmup)
   in upsert_all 0 (''ETH'', ''1m'') [[(''open_time'', JInt 60000)]] w' = (Inr (), w')"
proof -
  let ?run = "run_synced_warmup ex_warm_cfg ex_warm_env None (1 / 2) 2 None ex_warmup"
  have t: "required_tfs ex_warmup = [''1m'']" by code_simp
  have r: "fst ?run = Inr True" by code_simp
  have n: "newest_time ''1m'' (snd ?run) = 120000" by code_simp
  show ?thesis unfolding Let_def
    by (rule late_history_rejected [OF prod.collapse [of ?run, symmetric, unfolded r]]) (simp_all add: t n)
qed

end
