(* ===== verification/PubSub.thy ===== *)
theory PubSub
  imports Warmup
begin

text \<open>
  \<^verbatim>\<open>alphas/runner/data_layer/pubsub.py\<close>: one subscription at Redis for all strategies of a runner.
  A message becomes an event in the queue of every strategy that asked for its channel, and a
  silent stream makes the manager of the warm-up look for stale data.

  The state is the hub with the warm-up's manager, whose cache is the shared one.  A set of names is a list
  without repetitions.  What a call to Redis does (it succeeds, or raises) is an argument, and so are
  the clocks.
\<close>

section \<open>Events\<close>

record data_event =
  dv_channel :: string
  dv_kind :: string
  dv_symbol :: string
  dv_tf :: string
  dv_payload :: obj
  dv_received :: real

definition text_of :: "obj \<Rightarrow> string \<Rightarrow> string" where
  "text_of d k = (let v = dget d k (JStr '''') in if json_truthy v then jstr v else '''')"

definition event_from_payload :: "real \<Rightarrow> string \<Rightarrow> obj \<Rightarrow> data_event" where
  "event_from_payload now ch d =
     (let blank = \<lparr>dv_channel = ch, dv_kind = ''message'', dv_symbol = '''', dv_tf = '''', dv_payload = d, dv_received = now\<rparr>
      in if prefix ''kline:'' ch
         then blank\<lparr>dv_kind := ''kline'', dv_symbol := text_of d ''symbol'',
                dv_tf := if text_of d ''tf'' = '''' then after_colon ch else text_of d ''tf''\<rparr>
         else if prefix ''price_alert:'' ch then blank\<lparr>dv_kind := ''price_alert'', dv_symbol := text_of d ''symbol''\<rparr>
         else if prefix ''symbols:'' ch then blank\<lparr>dv_kind := ''symbols''\<rparr>
         else blank)"

section \<open>The state\<close>

record hub =
  hb_warm :: warmup
  hb_subs :: "(string, string list) dict"
  hb_chans :: "(string, string list) dict"
  hb_queues :: "(string, data_event list) dict"
  hb_dropped :: "(string, nat) dict"
  hb_evicted :: "(string, nat) dict"
  hb_remote :: "string list"
  hb_limit :: nat
  hb_handler :: "int option"
  hb_last_message :: real
  hb_last_check :: real
  hb_counts :: "(string, nat) dict"

definition new_hub :: "nat \<Rightarrow> warmup \<Rightarrow> hub" where
  "new_hub limit w = \<lparr>hb_warm = w, hb_subs = [], hb_chans = [], hb_queues = [], hb_dropped = [], hb_evicted = [],
     hb_remote = [], hb_limit = limit, hb_handler = None, hb_last_message = 0, hb_last_check = 0, hb_counts = []\<rparr>"

definition set_reconnect_handler :: "int \<Rightarrow> hub \<Rightarrow> hub" where
  "set_reconnect_handler lag h = h\<lparr>hb_handler := Some lag\<rparr>"

definition insert_name :: "string \<Rightarrow> string list \<Rightarrow> string list" where
  "insert_name x xs = (if x \<in> set xs then xs else xs @ [x])"

definition count_up :: "string \<Rightarrow> hub \<Rightarrow> hub" where
  "count_up k h = h\<lparr>hb_counts := dset k (dget (hb_counts h) k 0 + 1) (hb_counts h)\<rparr>"

definition on_warm :: "(warmup, 'a) eff \<Rightarrow> (hub, 'a) eff" where
  "on_warm m = (\<lambda>h. case m (hb_warm h) of (r, w) \<Rightarrow> (r, h\<lparr>hb_warm := w\<rparr>))"

definition hub_cache :: "hub \<Rightarrow> cache" where
  "hub_cache h = up_cache (hb_warm h)"

section \<open>Subscriptions\<close>

text \<open>Reading a missing entry of \<open>_subscribers\<close>, a \<open>defaultdict\<close>, makes it.\<close>

definition touch_channel :: "string \<Rightarrow> hub \<Rightarrow> hub" where
  "touch_channel ch h = h\<lparr>hb_subs := dset ch (dget (hb_subs h) ch []) (hb_subs h)\<rparr>"

definition remote_subscribe :: "bool \<Rightarrow> string \<Rightarrow> (hub, unit) eff" where
  "remote_subscribe ok ch = (if ok then modify (\<lambda>h. h\<lparr>hb_remote := insert_name ch (hb_remote h)\<rparr>) else throw RedisError)"

definition remote_unsubscribe :: "bool \<Rightarrow> string \<Rightarrow> (hub, unit) eff" where
  "remote_unsubscribe ok ch = (if ok then modify (\<lambda>h. h\<lparr>hb_remote := removeAll ch (hb_remote h)\<rparr>) else throw RedisError)"

definition hub_subscribe :: "bool \<Rightarrow> string \<Rightarrow> string \<Rightarrow> (hub, unit) eff" where
  "hub_subscribe ok ch sid =
     then_do (modify (\<lambda>h. h\<lparr>hb_queues := dset sid (dget (hb_queues h) sid []) (hb_queues h)\<rparr>))
     (bind get_state (\<lambda>h.
      then_do (modify (touch_channel ch))
      (then_do (if dget (hb_subs h) ch [] = [] then remote_subscribe ok ch else ret ())
      (modify (\<lambda>h. h\<lparr>hb_subs := dset ch (insert_name sid (dget (hb_subs h) ch [])) (hb_subs h),
         hb_chans := dset sid (insert_name ch (dget (hb_chans h) sid [])) (hb_chans h)\<rparr>)))))"

definition drop_empty_strategy :: "string \<Rightarrow> hub \<Rightarrow> hub" where
  "drop_empty_strategy sid h =
     (if dget (hb_chans h) sid [] = [] then h\<lparr>hb_chans := ddel sid (hb_chans h), hb_queues := ddel sid (hb_queues h)\<rparr> else h)"

definition hub_unsubscribe :: "bool \<Rightarrow> string \<Rightarrow> string \<Rightarrow> (hub, unit) eff" where
  "hub_unsubscribe ok ch sid =
     then_do (modify (\<lambda>h. h\<lparr>hb_subs := dset ch (removeAll sid (dget (hb_subs h) ch [])) (hb_subs h),
        hb_chans := dset sid (removeAll ch (dget (hb_chans h) sid [])) (hb_chans h)\<rparr>))
     (bind get_state (\<lambda>h.
      then_do (if dget (hb_subs h) ch [] = []
               then then_do (remote_unsubscribe ok ch) (modify (\<lambda>h. h\<lparr>hb_subs := ddel ch (hb_subs h)\<rparr>))
               else ret ())
      (modify (drop_empty_strategy sid))))"

definition hub_unsubscribe_strategy :: "(string \<Rightarrow> bool) \<Rightarrow> string \<Rightarrow> (hub, unit) eff" where
  "hub_unsubscribe_strategy ok sid =
     bind get_state (\<lambda>h. for_each (\<lambda>ch. hub_unsubscribe (ok ch) ch sid) (dget (hb_chans h) sid []))"

text \<open>
  \<open>_reset_pubsub\<close>: a new connection on which the channels are subscribed again, in their order;
  only the first \<open>n\<close> calls succeed, and a failure is logged.
\<close>

definition hub_reset :: "nat \<Rightarrow> hub \<Rightarrow> hub" where
  "hub_reset n h = h\<lparr>hb_remote := take n (keys (hb_subs h))\<rparr>"

section \<open>A message\<close>

definition is_full :: "nat \<Rightarrow> 'a list \<Rightarrow> bool" where
  "is_full limit q \<longleftrightarrow> 0 < limit \<and> limit \<le> length q"

definition put_event :: "data_event \<Rightarrow> string \<Rightarrow> (hub, unit) eff" where
  "put_event e sid = (\<lambda>h. case map_of (hb_queues h) sid of
       None \<Rightarrow> (Inl (KeyError sid), h)
     | Some q \<Rightarrow>
         (Inr (),
          if \<not> is_full (hb_limit h) q then h\<lparr>hb_queues := dset sid (q @ [e]) (hb_queues h)\<rparr>
          else if dv_kind e = ''kline''
          then h\<lparr>hb_queues := dset sid (tl q @ [e]) (hb_queues h),
                 hb_evicted := dset sid (dget (hb_evicted h) sid 0 + 1) (hb_evicted h)\<rparr>
          else h\<lparr>hb_dropped := dset sid (dget (hb_dropped h) sid 0 + 1) (hb_dropped h)\<rparr>))"

definition cache_event :: "pyfloat \<Rightarrow> data_event \<Rightarrow> (hub, unit) eff" where
  "cache_event now e =
     (if dv_kind e = ''kline'' \<and> dv_symbol e \<noteq> '''' \<and> dv_tf e \<noteq> ''''
      then on_warm (on_cache (upsert_candle now (dv_symbol e) (dv_tf e) (dv_payload e))) else ret ())"

definition payload_dict :: "jtext \<Rightarrow> obj res" where
  "payload_dict t = res_bind (jloads t) (\<lambda>j. case j of JObj d \<Rightarrow> Inr d | _ \<Rightarrow> Inl AttributeError)"

definition handle_message :: "pyfloat \<Rightarrow> real \<Rightarrow> string \<Rightarrow> jtext \<Rightarrow> (hub, data_event) eff" where
  "handle_message wnow now ch t =
     bind (lift_res (payload_dict t)) (\<lambda>d.
     let e = event_from_payload now ch d
     in then_do (cache_event wnow e)
        (then_do (bind get_state (\<lambda>h. for_each (put_event e) (dget (hb_subs h) ch [])))
        (ret e)))"

text \<open>\<open>queue.get\<close> of the loop of a strategy: the oldest event.\<close>

definition take_event :: "string \<Rightarrow> hub \<Rightarrow> data_event option \<times> hub" where
  "take_event sid h = (case dget (hb_queues h) sid [] of
       [] \<Rightarrow> (None, h)
     | e # q \<Rightarrow> (Some e, h\<lparr>hb_queues := dset sid q (hb_queues h)\<rparr>))"

section \<open>Stale data\<close>

definition pubsub_tf_ms :: "string \<Rightarrow> int" where
  "pubsub_tf_ms tf = dget
     [(''1m'', 1), (''5m'', 5), (''15m'', 15), (''30m'', 30), (''1h'', 60), (''4h'', 240), (''1d'', 1440)] tf 1 * 60 * 1000"

definition silence_threshold :: "string list \<Rightarrow> int \<Rightarrow> real" where
  "silence_threshold tfs lag =
     (if tfs = [] then 60 else max 60 (of_int (Min (pubsub_tf_ms ` set tfs)) / 1000 * of_int lag))"

definition is_data_stale :: "real \<Rightarrow> int \<Rightarrow> int \<Rightarrow> hub \<Rightarrow> bool" where
  "is_data_stale now now_ms lag h =
     (let tfs = required_tfs (hb_warm h)
      in now - hb_last_message h > silence_threshold tfs lag \<or>
         list_ex (\<lambda>tf. now_ms - (case get_max_timestamp tf (hub_cache h) of None \<Rightarrow> 0 | Some t \<Rightarrow> t) > pubsub_tf_ms tf * lag) tfs)"

definition find_stale_symbols :: "int \<Rightarrow> int \<Rightarrow> hub \<Rightarrow> key list" where
  "find_stale_symbols now_ms lag h =
     concat (map (\<lambda>tf. map (\<lambda>s. (s, tf))
       (filter (\<lambda>s. \<not> is_excluded (hb_warm h) s \<and>
          (case get_latest_timestamp (s, tf) (hub_cache h) of
             None \<Rightarrow> True | Some t \<Rightarrow> now_ms - t > pubsub_tf_ms tf * lag))
        (get_symbols_with_data tf (hub_cache h)))) (required_tfs (hb_warm h)))"

definition reread_snapshot ::
  "warm_env \<Rightarrow> (string \<Rightarrow> string \<Rightarrow> int \<Rightarrow> candle list option res) \<Rightarrow> key \<Rightarrow> (hub, unit) eff" where
  "reread_snapshot env reader k =
     bind get_state (\<lambda>h.
     bind (lift_res (reader (fst k) (snd k) (dget (up_requirements (hb_warm h)) k 0))) (\<lambda>cs. case cs of
         None \<Rightarrow> ret ()
       | Some [] \<Rightarrow> ret ()
       | Some xs \<Rightarrow> then_do (modify (count_up ''reconnect_snapshot_hit_total'')) (on_warm (upsert_all (ue_now env) k xs))))"

text \<open>
  \<open>_on_reconnect\<close>, with the two readings of the monotonic clock; the warm-up runs with the defaults
  of \<open>run_synced_warmup\<close>: no wait for the service, 60\%, one candle, any age.
\<close>

definition on_reconnect :: "warm_cfg \<Rightarrow> warm_env \<Rightarrow> bool \<Rightarrow> real \<Rightarrow> int \<Rightarrow> (hub, unit) eff" where
  "on_reconnect cfg env outside now now_ms =
     bind get_state (\<lambda>h. case (outside, hb_handler h) of
         (True, _) \<Rightarrow> ret ()
       | (False, None) \<Rightarrow> ret ()
       | (False, Some lag) \<Rightarrow>
           (let ks = find_stale_symbols now_ms lag h
            in if ks = [] then ret ()
               else then_do (modify (count_up ''stale_detected_total''))
                 (then_do (case ue_reader env of None \<Rightarrow> ret () | Some reader \<Rightarrow> for_each (reread_snapshot env reader) ks)
                 (bind get_state (\<lambda>h.
                  if is_data_stale now now_ms lag h
                  then then_do (modify (count_up ''reconnect_full_warmup_total''))
                    (bind (on_warm (run_synced_warmup cfg env None (6 / 10) 1 None)) (\<lambda>b. ret ()))
                  else ret ())))))"

section \<open>A turn of the loop\<close>

text \<open>
  What \<open>_get_message\<close> gives: it raises a connection error, nothing came, the connection was lost and reset (nothing
  came then either), a message that is no data, or data.
\<close>

datatype poll = PollFails | Silence | Lost nat | Control | Data string jtext

definition silence_turn :: "warm_cfg \<Rightarrow> warm_env \<Rightarrow> bool \<Rightarrow> real \<Rightarrow> int \<Rightarrow> hub \<Rightarrow> hub" where
  "silence_turn cfg env outside now now_ms h = (case hb_handler h of
       None \<Rightarrow> h
     | Some lag \<Rightarrow>
         (if now - hb_last_check h < 30 then h
          else let h = count_up ''stale_check_total'' (h\<lparr>hb_last_check := now\<rparr>)
            in if outside \<or> \<not> is_data_stale now now_ms lag h then h
               else snd (on_reconnect cfg env outside now now_ms h)))"

definition hub_turn :: "warm_cfg \<Rightarrow> warm_env \<Rightarrow> bool \<Rightarrow> real \<Rightarrow> int \<Rightarrow> poll \<Rightarrow> hub \<Rightarrow> hub" where
  "hub_turn cfg env outside now now_ms p h = (case p of
       PollFails \<Rightarrow> count_up ''pubsub_connection_error_total'' h
     | Control \<Rightarrow> h
     | Silence \<Rightarrow> silence_turn cfg env outside now now_ms h
     | Lost n \<Rightarrow> silence_turn cfg env outside now now_ms (hub_reset n h)
     | Data ch t \<Rightarrow> snd (handle_message (Fin (ue_now env)) now ch t (h\<lparr>hb_last_message := now\<rparr>)))"

end
