(* ===== verification/PubSubProperties.thy ===== *)
theory PubSubProperties
  imports PubSub WarmupProperties
begin

text \<open>
  What the hub of the runner's subscriptions keeps: who asked for a channel gets its events, bounded
  and in order; and what a reconnection can and cannot do about stale data.
\<close>

section \<open>The books of the hub\<close>

definition hub_ok :: "hub \<Rightarrow> bool" where
  "hub_ok h \<longleftrightarrow>
     (\<forall>ch sid. sid \<in> set (dget (hb_subs h) ch []) \<longleftrightarrow> ch \<in> set (dget (hb_chans h) sid [])) \<and>
     (\<forall>ch. distinct (dget (hb_subs h) ch [])) \<and>
     (\<forall>sid. dget (hb_chans h) sid [] \<noteq> [] \<longrightarrow> map_of (hb_queues h) sid \<noteq> None) \<and>
     (\<forall>sid q. map_of (hb_queues h) sid = Some q \<longrightarrow> 0 < hb_limit h \<longrightarrow> length q \<le> hb_limit h)"

definition heard :: "hub \<Rightarrow> bool" where
  "heard h \<longleftrightarrow> (\<forall>ch. dget (hb_subs h) ch [] \<noteq> [] \<longrightarrow> ch \<in> set (hb_remote h))"

lemma hub_okD:
  assumes "hub_ok h"
  shows "sid \<in> set (dget (hb_subs h) ch []) \<longleftrightarrow> ch \<in> set (dget (hb_chans h) sid [])" "distinct (dget (hb_subs h) ch [])"
    "dget (hb_chans h) sid [] \<noteq> [] \<Longrightarrow> \<exists>q. map_of (hb_queues h) sid = Some q"
    "map_of (hb_queues h) sid = Some q \<Longrightarrow> 0 < hb_limit h \<Longrightarrow> length q \<le> hb_limit h"
  using assms unfolding hub_ok_def by blast+

lemma hub_ok_cong:
  assumes "hb_subs h' = hb_subs h" "hb_chans h' = hb_chans h" "hb_queues h' = hb_queues h" "hb_limit h' = hb_limit h"
  shows "hub_ok h' = hub_ok h"
  unfolding hub_ok_def assms ..

lemma set_insert_name [simp]: "set (insert_name x xs) = insert x (set xs)"
  by (auto simp: insert_name_def)

lemma distinct_insert_name [simp]: "distinct xs \<Longrightarrow> distinct (insert_name x xs)"
  by (simp add: insert_name_def)

lemma insert_name_nonempty [simp]: "insert_name x xs \<noteq> []"
  by (auto simp: insert_name_def)

lemma dget_dset [simp]: "dget (dset k v d) k' x = (if k' = k then v else dget d k' x)"
  and dget_ddel [simp]: "dget (ddel k d) k' x = (if k' = k then x else dget d k' x)"
  by (simp_all add: dget_def)

lemma keeps_subscribe: "keeps hub_ok (hub_subscribe ok ch sid)"
proof
  fix h assume h: "hub_ok h"
  let ?h1 = "h\<lparr>hb_queues := dset sid (dget (hb_queues h) sid []) (hb_queues h)\<rparr>"
  have h1: "hub_ok ?h1"
    using h unfolding hub_ok_def by (auto simp: dget_def split: option.splits)
  have h2: "hub_ok (touch_channel ch ?h1)"
    using h1 unfolding hub_ok_def touch_channel_def by simp
  have h3: "hub_ok (touch_channel ch ?h1\<lparr>hb_remote := r\<rparr>)" for r
    using h2 by (subst hub_ok_cong) simp_all
  have full: "hub_ok (g\<lparr>hb_subs := dset ch (insert_name sid (dget (hb_subs g) ch [])) (hb_subs g),
      hb_chans := dset sid (insert_name ch (dget (hb_chans g) sid [])) (hb_chans g)\<rparr>)"
    if g: "hub_ok g" "map_of (hb_queues g) sid \<noteq> None" for g
    using g unfolding hub_ok_def by simp
  have q: "map_of (hb_queues (touch_channel ch ?h1)) sid \<noteq> None" "map_of (hb_queues (touch_channel ch ?h1\<lparr>hb_remote := r\<rparr>)) sid \<noteq> None" for r
    by (simp_all add: touch_channel_def)
  show "hub_ok (snd (hub_subscribe ok ch sid h))"
    using h2 full [OF h2 q(1)] full [OF h3 q(2)]
    by (cases ok) (simp_all add: hub_subscribe_def remote_subscribe_def then_do_apply throw_def modify_def)
qed

lemma removeAll_nonempty: "removeAll x xs \<noteq> [] \<Longrightarrow> xs \<noteq> []"
  by auto

lemma keeps_unsubscribe: "keeps hub_ok (hub_unsubscribe ok ch sid)"
proof
  fix h assume h: "hub_ok h"
  let ?h1 = "h\<lparr>hb_subs := dset ch (removeAll sid (dget (hb_subs h) ch [])) (hb_subs h),
        hb_chans := dset sid (removeAll ch (dget (hb_chans h) sid [])) (hb_chans h)\<rparr>"
  have h1: "hub_ok ?h1"
    using h unfolding hub_ok_def by (auto simp: distinct_removeAll dest: removeAll_nonempty)
  have drop: "hub_ok (drop_empty_strategy sid g)" if "hub_ok g" for g
    using that unfolding hub_ok_def drop_empty_strategy_def by auto
  have gone: "hub_ok (g\<lparr>hb_remote := r, hb_subs := ddel ch (hb_subs g)\<rparr>)" if "hub_ok g" "dget (hb_subs g) ch [] = []" for g r
    using that unfolding hub_ok_def by (auto; metis empty_iff list.set(1))
  define g where "g = ?h1"
  have "hub_unsubscribe ok ch sid h =
      then_do (if dget (hb_subs g) ch [] = []
               then then_do (remote_unsubscribe ok ch) (modify (\<lambda>h. h\<lparr>hb_subs := ddel ch (hb_subs h)\<rparr>))
               else ret ()) (modify (drop_empty_strategy sid)) g"
    by (simp add: hub_unsubscribe_def g_def)
  moreover have "hub_ok g" unfolding g_def by (rule h1)
  ultimately show "hub_ok (snd (hub_unsubscribe ok ch sid h))"
    using drop drop [OF gone]
    by (cases ok) (simp_all add: remote_unsubscribe_def then_do_apply throw_def modify_def)
qed

lemma hub_ok_queue:
  "hub_ok h \<Longrightarrow> 0 < hb_limit h \<longrightarrow> length q \<le> hb_limit h \<Longrightarrow> hub_ok (h\<lparr>hb_queues := dset sid q (hb_queues h)\<rparr>)"
  unfolding hub_ok_def by auto

lemma keeps_put_event: "keeps hub_ok (put_event e sid)"
proof
  fix h assume h: "hub_ok h"
  show "hub_ok (snd (put_event e sid h))"
  proof (cases "map_of (hb_queues h) sid")
    case (Some q)
    have "hub_ok (g\<lparr>hb_evicted := v\<rparr>) = hub_ok g" "hub_ok (g\<lparr>hb_dropped := v\<rparr>) = hub_ok g" for g v
      by (rule hub_ok_cong; simp)+
    then show ?thesis using hub_ok_queue [OF h] h hub_okD(4) [OF h Some] Some
      by (auto simp: put_event_def is_full_def)
  qed (simp add: put_event_def h)
qed

lemma hub_ok_warm [simp]: "hub_ok (h\<lparr>hb_warm := w\<rparr>) = hub_ok h"
  by (rule hub_ok_cong) simp_all

lemma keeps_on_warm: "keeps hub_ok (on_warm m)"
  by (rule keepsI) (simp add: on_warm_def split: prod.splits)

lemma keeps_handle_message: "keeps hub_ok (handle_message wnow now ch t)"
  unfolding handle_message_def Let_def cache_event_def
  by (intro keeps_bind keeps_then_do keeps_for_each keeps_put_event) (simp_all add: keeps_on_warm)


section \<open>Every sequence of calls\<close>

text \<open>
  What a turn of the loop keeps, with the check for stale data and the warm-up it may start: whatever
  does not look at the warm-up, the counters and the clock readings of the hub.
\<close>

lemma keeps_warm: "(\<And>h w. P (h\<lparr>hb_warm := w\<rparr>) = P h) \<Longrightarrow> keeps P (on_warm m)"
  by (rule keepsI) (simp add: on_warm_def split: prod.splits)

lemma keeps_count: "(\<And>h k. P (count_up k h) = P h) \<Longrightarrow> keeps P (modify (count_up k))"
  by (rule keepsI) (simp add: modify_def)

lemma keeps_reread:
  assumes "\<And>h w. P (h\<lparr>hb_warm := w\<rparr>) = P h" and "\<And>h k. P (count_up k h) = P h"
  shows "keeps P (reread_snapshot env reader y)"
  unfolding reread_snapshot_def
  by (intro keeps_bind) (auto intro!: keeps_bind keeps_then_do keeps_warm [OF assms(1)] keeps_count [OF assms(2)]
    split: option.splits list.splits)

lemma keeps_reconnect:
  assumes "\<And>h w. P (h\<lparr>hb_warm := w\<rparr>) = P h" and "\<And>h k. P (count_up k h) = P h"
  shows "keeps P (on_reconnect cfg env outside now now_ms)"
proof -
  note r = keeps_reread [where P = P, OF assms] keeps_warm [where P = P, OF assms(1)] keeps_count [where P = P, OF assms(2)]
  show ?thesis
    unfolding on_reconnect_def Let_def
    by (intro keeps_bind) (auto intro!: keeps_bind keeps_then_do keeps_for_each r split: option.splits bool.splits)
qed

lemma keeps_turn:
  assumes P: "\<And>h w. P (h\<lparr>hb_warm := w\<rparr>) = P h" "\<And>h k. P (count_up k h) = P h" "\<And>h x. P (h\<lparr>hb_last_check := x\<rparr>) = P h"
      "\<And>h x. P (h\<lparr>hb_last_message := x\<rparr>) = P h" "\<And>ch t. keeps P (handle_message (Fin (ue_now env)) now ch t)"
    and reset: "\<And>n. p = Lost n \<Longrightarrow> P (hub_reset n h)" and h: "P h"
  shows "P (hub_turn cfg env outside now now_ms p h)"
proof -
  have silence: "P (silence_turn cfg env outside now now_ms g)" if "P g" for g
    using that keepsD [OF keeps_reconnect [where P = P, OF P(1,2)]]
    by (simp add: silence_turn_def Let_def P split: option.splits)
  show ?thesis
    using h silence keepsD [OF P(5)] reset by (cases p) (simp_all add: hub_turn_def P)
qed

datatype hub_call =
    Ask bool string string
  | Leave bool string string
  | LeaveAll "string \<Rightarrow> bool" string
  | Receive pyfloat real string jtext
  | Fetch string
  | ConnectionReset nat
  | Turn warm_cfg warm_env bool real int poll

fun hub_step :: "hub_call \<Rightarrow> hub \<Rightarrow> hub" where
  "hub_step (Ask ok ch sid) h = snd (hub_subscribe ok ch sid h)"
| "hub_step (Leave ok ch sid) h = snd (hub_unsubscribe ok ch sid h)"
| "hub_step (LeaveAll ok sid) h = snd (hub_unsubscribe_strategy ok sid h)"
| "hub_step (Receive wnow now ch t) h = snd (handle_message wnow now ch t h)"
| "hub_step (Fetch sid) h = snd (take_event sid h)"
| "hub_step (ConnectionReset n) h = hub_reset n h"
| "hub_step (Turn cfg env outside now now_ms p) h = hub_turn cfg env outside now now_ms p h"

lemma hub_ok_take: "hub_ok h \<Longrightarrow> hub_ok (snd (take_event sid h))"
proof (cases "dget (hb_queues h) sid []")
  case (Cons e q)
  assume h: "hub_ok h"
  have "map_of (hb_queues h) sid = Some (e # q)" using Cons by (simp add: dget_def split: option.splits)
  from hub_okD(4) [OF h this] have "0 < hb_limit h \<longrightarrow> length q \<le> hb_limit h" by fastforce
  from hub_ok_queue [OF h this] show ?thesis using Cons by (simp add: take_event_def)
qed (simp add: take_event_def)

lemma hub_ok_simps [simp]:
  "hub_ok (count_up k h) = hub_ok h" "hub_ok (h\<lparr>hb_last_check := x\<rparr>) = hub_ok h"
  "hub_ok (h\<lparr>hb_last_message := x\<rparr>) = hub_ok h" "hub_ok (hub_reset n h) = hub_ok h"
  by (rule hub_ok_cong; simp add: count_up_def hub_reset_def)+

lemma hub_step_ok: "hub_ok h \<Longrightarrow> hub_ok (hub_step call h)"
proof (cases call)
  case (Turn cfg env outside now now_ms p)
  assume "hub_ok h"
  then show ?thesis using Turn by (auto intro!: keeps_turn [where P = hub_ok] keeps_handle_message)
next
  case (LeaveAll ok sid)
  have "keeps hub_ok (hub_unsubscribe_strategy ok sid)"
    unfolding hub_unsubscribe_strategy_def by (intro keeps_bind keeps_for_each keeps_unsubscribe) simp
  then show "hub_ok h \<Longrightarrow> ?thesis" using LeaveAll by (simp add: keeps_def)
qed (simp_all add: hub_ok_take keepsD [OF keeps_subscribe] keepsD [OF keeps_unsubscribe] keepsD [OF keeps_handle_message])

lemma hub_ok_new: "hub_ok (new_hub limit w)"
  by (simp add: hub_ok_def new_hub_def dget_def)

lemma hub_calls_ok: "hub_ok (fold hub_step calls (new_hub limit w))"
proof -
  have "hub_ok h \<Longrightarrow> hub_ok (fold hub_step calls h)" for h
    by (induction calls arbitrary: h) (simp_all add: hub_step_ok)
  then show ?thesis using hub_ok_new by simp
qed

section \<open>Delivery\<close>

lemma put_event_frame:
  "hb_subs (snd (put_event e sid h)) = hb_subs h" "hb_chans (snd (put_event e sid h)) = hb_chans h"
  "hb_warm (snd (put_event e sid h)) = hb_warm h" "hb_limit (snd (put_event e sid h)) = hb_limit h"
  by (simp_all add: put_event_def split: option.splits)

text \<open>What the queue of a strategy is after a kline event.\<close>

definition pushed :: "nat \<Rightarrow> data_event \<Rightarrow> data_event list \<Rightarrow> data_event list" where
  "pushed limit e q = (if is_full limit q then tl q else q) @ [e]"

lemma put_kline:
  assumes "dv_kind e = ''kline''" and "map_of (hb_queues h) sid = Some q"
  shows "fst (put_event e sid h) = Inr ()"
    "map_of (hb_queues (snd (put_event e sid h))) = (map_of (hb_queues h))(sid \<mapsto> pushed (hb_limit h) e q)"
  using assms by (auto simp: put_event_def pushed_def)

lemma put_klines:
  assumes "dv_kind e = ''kline''" and "distinct sids" and "\<forall>sid \<in> set sids. map_of (hb_queues h) sid \<noteq> None"
  shows "\<exists>h'. for_each (put_event e) sids h = (Inr (), h') \<and> hb_warm h' = hb_warm h \<and> hb_limit h' = hb_limit h \<and>
    (\<forall>sid. map_of (hb_queues h') sid =
       (if sid \<in> set sids then map_option (pushed (hb_limit h) e) (map_of (hb_queues h) sid) else map_of (hb_queues h) sid))"
  using assms(2,3)
proof (induction sids arbitrary: h)
  case Nil
  then show ?case by (simp add: ret_def)
next
  case (Cons s sids)
  then obtain q where q: "map_of (hb_queues h) s = Some q" by auto
  let ?g = "snd (put_event e s h)"
  note g = put_kline [OF assms(1) q]
  have "\<forall>sid \<in> set sids. map_of (hb_queues ?g) sid \<noteq> None" using Cons.prems g(2) by simp
  with Cons obtain h' where h': "for_each (put_event e) sids ?g = (Inr (), h')" "hb_warm h' = hb_warm ?g" "hb_limit h' = hb_limit ?g"
    "\<forall>sid. map_of (hb_queues h') sid =
       (if sid \<in> set sids then map_option (pushed (hb_limit ?g) e) (map_of (hb_queues ?g) sid) else map_of (hb_queues ?g) sid)"
    by (metis distinct.simps(2))
  have "for_each (put_event e) (s # sids) h = (Inr (), h')"
  proof -
    have "put_event e s h = (Inr (), ?g)" using g(1) by (metis prod.collapse)
    then have "then_do (put_event e s) (for_each (put_event e) sids) h = for_each (put_event e) sids ?g"
      unfolding then_do_def by (simp only: bind_Inr)
    then show ?thesis using h'(1) by simp
  qed
  moreover have "map_of (hb_queues h') sid = (if sid \<in> set (s # sids) then map_option (pushed (hb_limit h) e) (map_of (hb_queues h) sid)
      else map_of (hb_queues h) sid)" for sid
    using h'(4) [rule_format, of sid] g(2) Cons.prems(1) q by (simp add: put_event_frame)
  ultimately show ?case using h'(2,3) by (intro exI [of _ h']) (simp add: put_event_frame)
qed

text \<open>
  C13. A kline reaches every strategy that asked for its channel.  After any calls, among them
  subscriptions and departures that failed, a kline whose bar the cache takes becomes the newest event
  in the queue of every strategy that is subscribed to its channel, and in no other; no queue is ever
  longer than its limit.  A full queue loses its oldest event for it, which may be a kline too.
\<close>

theorem kline_reaches_every_queue:
  assumes "h = fold hub_step calls (new_hub limit w)" and "prefix ''kline:'' ch" and "payload_dict t = Inr d"
    and "cache_event wnow (event_from_payload now ch d) h = (Inr (), h1)"
  shows "\<exists>h'. handle_message wnow now ch t h = (Inr (event_from_payload now ch d), h') \<and> hub_cache h' = hub_cache h1 \<and>
    (\<forall>sid. ch \<in> set (dget (hb_chans h) sid []) \<longrightarrow> (\<exists>q. map_of (hb_queues h) sid = Some q \<and>
       map_of (hb_queues h') sid = Some (pushed (hb_limit h) (event_from_payload now ch d) q) \<and>
       (0 < hb_limit h \<longrightarrow> length (pushed (hb_limit h) (event_from_payload now ch d) q) \<le> hb_limit h))) \<and>
    (\<forall>sid. ch \<notin> set (dget (hb_chans h) sid []) \<longrightarrow> map_of (hb_queues h') sid = map_of (hb_queues h) sid)"
proof -
  let ?e = "event_from_payload now ch d"
  have ok: "hub_ok h" unfolding assms(1) by (rule hub_calls_ok)
  have k: "dv_kind ?e = ''kline''" using assms(2) by (simp add: event_from_payload_def Let_def)
  have f: "hb_subs h1 = hb_subs h" "hb_queues h1 = hb_queues h" "hb_limit h1 = hb_limit h"
    using assms(4) by (auto simp: cache_event_def on_warm_def ret_def split: if_splits prod.splits)
  have "\<forall>sid \<in> set (dget (hb_subs h1) ch []). map_of (hb_queues h1) sid \<noteq> None"
    unfolding f using hub_okD(1,3) [OF ok] by (metis empty_iff list.set(1) option.distinct(1))
  moreover have "distinct (dget (hb_subs h1) ch [])" unfolding f using hub_okD(2) [OF ok] .
  ultimately obtain h' where h': "for_each (put_event ?e) (dget (hb_subs h1) ch []) h1 = (Inr (), h')" "hb_warm h' = hb_warm h1"
    "\<And>sid. map_of (hb_queues h') sid = (if ch \<in> set (dget (hb_chans h) sid []) then map_option (pushed (hb_limit h) ?e) (map_of (hb_queues h) sid)
       else map_of (hb_queues h) sid)"
    using put_klines [OF k, of "dget (hb_subs h1) ch []" h1] hub_okD(1) [OF ok] unfolding f by auto
  have run: "handle_message wnow now ch t h = (Inr ?e, h')"
    using assms(3,4) h'(1) by (simp add: handle_message_def Let_def then_do_apply)
  have q: "\<exists>q. map_of (hb_queues h) sid = Some q \<and> map_of (hb_queues h') sid = Some (pushed (hb_limit h) ?e q) \<and>
      (0 < hb_limit h \<longrightarrow> length (pushed (hb_limit h) ?e q) \<le> hb_limit h)" if s: "ch \<in> set (dget (hb_chans h) sid [])" for sid
  proof -
    obtain q where q: "map_of (hb_queues h) sid = Some q" using hub_okD(3) [OF ok] s by (metis empty_iff list.set(1))
    have "length q \<le> hb_limit h" if "0 < hb_limit h" using hub_okD(4) [OF ok q that] .
    then show ?thesis using q s h'(3) by (auto simp: pushed_def is_full_def)
  qed
  show ?thesis using run h'(2,3) q by (auto simp: hub_cache_def)
qed


section \<open>A reconnection that fails half way\<close>

fun stays :: "string \<Rightarrow> hub_call \<Rightarrow> bool" where
  "stays sid (Leave ok ch s) = (s \<noteq> sid)"
| "stays sid (LeaveAll ok s) = (s \<noteq> sid)"
| "stays sid (ConnectionReset n) = False"
| "stays sid (Turn cfg env outside now now_ms p) = (case p of Lost n \<Rightarrow> False | _ \<Rightarrow> True)"
| "stays sid _ = True"

definition unheard :: "string \<Rightarrow> string \<Rightarrow> hub \<Rightarrow> bool" where
  "unheard ch sid h \<longleftrightarrow> sid \<in> set (dget (hb_subs h) ch []) \<and> ch \<notin> set (hb_remote h)"

lemma unheard_cong: "hb_subs h' = hb_subs h \<Longrightarrow> hb_remote h' = hb_remote h \<Longrightarrow> unheard ch sid h' = unheard ch sid h"
  by (simp add: unheard_def)

lemma keeps_unheard_subscribe: "keeps (unheard ch sid) (hub_subscribe ok c s)"
  by (rule keepsI, cases ok) (auto simp: unheard_def hub_subscribe_def remote_subscribe_def touch_channel_def then_do_apply
      throw_def modify_def ret_def)

lemma removeAll_emptyD: "removeAll s xs = [] \<Longrightarrow> x \<in> set xs \<Longrightarrow> x = s"
  using set_removeAll [of s xs] by auto

lemma keeps_unheard_unsubscribe: "s \<noteq> sid \<Longrightarrow> keeps (unheard ch sid) (hub_unsubscribe ok c s)"
  by (rule keepsI, cases ok) (auto simp: unheard_def hub_unsubscribe_def remote_unsubscribe_def drop_empty_strategy_def then_do_apply
      throw_def modify_def ret_def dest: removeAll_emptyD)

lemma keeps_unheard_message: "keeps (unheard ch sid) (handle_message wnow now c t)"
proof -
  have "keeps (unheard ch sid) (on_warm m)" for m :: "(warmup, unit) eff"
    by (rule keepsI) (simp add: on_warm_def unheard_def split: prod.splits)
  moreover have "keeps (unheard ch sid) (put_event e s)" for e s
    by (rule keepsI) (simp add: put_event_def unheard_def split: option.splits)
  ultimately show ?thesis unfolding handle_message_def Let_def cache_event_def
    by (intro keeps_bind keeps_then_do keeps_for_each) simp_all
qed

lemma unheard_simps [simp]:
  "unheard ch sid (h\<lparr>hb_warm := w\<rparr>) = unheard ch sid h" "unheard ch sid (count_up k h) = unheard ch sid h"
  "unheard ch sid (h\<lparr>hb_last_check := x\<rparr>) = unheard ch sid h" "unheard ch sid (h\<lparr>hb_last_message := x\<rparr>) = unheard ch sid h"
  by (simp_all add: unheard_def count_up_def)

lemma unheard_step: "unheard ch sid h \<Longrightarrow> stays sid call \<Longrightarrow> unheard ch sid (hub_step call h)"
proof (cases call)
  case (Turn cfg env outside now now_ms p)
  assume "unheard ch sid h" "stays sid call"
  then show ?thesis
    using Turn by (auto intro!: keeps_turn [where P = "unheard ch sid"] keeps_unheard_message)
next
  case (LeaveAll ok s)
  assume s: "stays sid call" and h: "unheard ch sid h"
  have "keeps (unheard ch sid) (hub_unsubscribe_strategy ok s)"
    unfolding hub_unsubscribe_strategy_def using s LeaveAll
    by (intro keeps_bind keeps_for_each keeps_unheard_unsubscribe) simp_all
  then show ?thesis using LeaveAll h by (simp add: keeps_def)
next
  case (Fetch s)
  then show "unheard ch sid h \<Longrightarrow> ?thesis" by (simp add: take_event_def unheard_def split: list.splits)
qed (simp_all add: keepsD [OF keeps_unheard_subscribe] keepsD [OF keeps_unheard_unsubscribe] keepsD [OF keeps_unheard_message])

text \<open>
  C14. A channel that a reconnection loses stays lost.  When subscribing again fails half way, the
  channels that were not reached are heard no more, though the books of the hub go on listing them: as
  long as the strategy stays and the connection is not reset again, nothing subscribes them - no call of a
  strategy, no message, and no turn of the loop, not even one that finds the data stale and warms up again.
\<close>

theorem lost_channel_stays_lost:
  assumes "h = fold hub_step before (new_hub limit w)" and "ch \<in> set (dget (hb_chans h) sid [])"
    and "ch \<notin> set (take n (keys (hb_subs h)))" and "list_all (stays sid) after"
  shows "ch \<notin> set (hb_remote (fold hub_step after (hub_reset n h))) \<and>
    ch \<in> set (dget (hb_chans (fold hub_step after (hub_reset n h))) sid [])"
proof -
  have "unheard ch sid (hub_reset n h)"
    using assms(2,3) hub_okD(1) [OF hub_calls_ok, of sid before limit w ch] unfolding assms(1) by (simp add: unheard_def hub_reset_def)
  then have "unheard ch sid (fold hub_step after (hub_reset n h))"
    using assms(4) by (induction after arbitrary: n h rule: rev_induct) (simp_all add: unheard_step)
  moreover have "hub_ok (fold hub_step (before @ ConnectionReset n # after) (new_hub limit w))" by (rule hub_calls_ok)
  then have "hub_ok (fold hub_step after (hub_reset n h))" unfolding assms(1) by simp
  ultimately show ?thesis using hub_okD(1) by (auto simp: unheard_def)
qed

definition two_channels :: "hub_call list" where
  "two_channels = [Ask True ''kline:x:1m'' ''a'', Ask True ''kline:x:1h'' ''a'', Ask True ''symbols:x'' ''a'']"

theorem lost_channel_stays_lost_witness:
  "''kline:x:1h'' \<notin> set (hb_remote (fold hub_step [Ask True ''kline:x:1h'' ''b'']
     (hub_reset 1 (fold hub_step two_channels (new_hub 5 ex_warmup)))))"
proof -
  have "''kline:x:1h'' \<in> set (dget (hb_chans (fold hub_step two_channels (new_hub 5 ex_warmup))) ''a'' [])"
    "''kline:x:1h'' \<notin> set (take 1 (keys (hb_subs (fold hub_step two_channels (new_hub 5 ex_warmup)))))"
    by code_simp+
  from lost_channel_stays_lost [OF refl this, of "[Ask True ''kline:x:1h'' ''b'']"] show ?thesis by simp
qed


definition ex_bar :: obj where
  "ex_bar = [(''symbol'', JStr ''BTC''), (''tf'', JStr ''1m''), (''open_time'', JInt 180000)]"

theorem kline_reaches_every_queue_witness:
  "let h = fold hub_step two_channels (new_hub 5 ex_warmup); e = event_from_payload 1 ''kline:x:1m'' ex_bar
   in \<exists>h'. handle_message (Fin 0) 1 ''kline:x:1m'' (JText (JObj ex_bar)) h = (Inr e, h') \<and>
      (\<exists>q. map_of (hb_queues h') ''a'' = Some (q @ [e]))"
proof -
  let ?h = "fold hub_step two_channels (new_hub 5 ex_warmup)" and ?e = "event_from_payload 1 ''kline:x:1m'' ex_bar"
  have c: "fst (cache_event (Fin 0) ?e ?h) = Inr ()" by code_simp
  have a: "''kline:x:1m'' \<in> set (dget (hb_chans ?h) ''a'' [])" by code_simp
  have p: "payload_dict (JText (JObj ex_bar)) = Inr ex_bar" by (simp add: payload_dict_def)
  have "prefix ''kline:'' ''kline:x:1m''" by simp
  from kline_reaches_every_queue [OF refl this p prod.collapse [symmetric, of "cache_event (Fin 0) ?e ?h", unfolded c]] a
  show ?thesis unfolding Let_def pushed_def by blast
qed

section \<open>Stale data after a silence\<close>

lemma kept_satisfies:
  assumes "cache_inv c" and "cache_inv c'" and "bars k c' = last_n (nat m) (bars k c)" and "n \<le> m"
    and "cache_satisfies cfg now k n None c"
  shows "cache_satisfies cfg now k n None c'"
proof -
  have clean: "missing_between f (last_n j ts) = []" if "sorted_wrt (<) ts" "missing_between f ts = []" for f j and ts :: "int list"
  proof -
    have s: "sorted_wrt (<) (last_n j ts)" using that(1) by (simp add: last_n_def sorted_wrt_drop)
    have "last_n j ts ! Suc i \<le> last_n j ts ! i + f" if "Suc i < length (last_n j ts)" for i
      using that \<open>missing_between f ts = []\<close> missing_between_clean [OF \<open>sorted_wrt (<) ts\<close>] by (simp add: last_n_def)
    with missing_between_clean [OF s] show ?thesis by blast
  qed
  let ?x = "bars k c"
  have sorted: "sorted_wrt (<) (map s_time ?x)"
    using bars_ascending [OF assms(1)] by (simp add: ascending_def sorted_wrt_map)
  have t: "map s_time (bars k c') = last_n (nat m) (map s_time ?x)" by (simp add: assms(3) last_n_def drop_map)
  have n: "n \<le> int (length ?x)" using assms(5) by (simp add: cache_satisfies_def has_required_bars_def get_bar_count_bars)
  then have "n \<le> int (length (bars k c'))" using assms(3,4) by (simp add: last_n_def)
  moreover have "uc_skip_gaps cfg \<or> is_clean (verify_no_gaps k None c')"
  proof (cases "uc_skip_gaps cfg \<or> length (bars k c') < 2")
    case True
    then show ?thesis by (auto simp: verify_no_gaps_def get_bar_count_bars)
  next
    case False
    then have long: "\<not> length ?x < 2" using assms(3) by (auto simp: last_n_def)
    have "is_clean (verify_no_gaps k None c)" using assms(5) False by (simp add: cache_satisfies_def)
    with long have "missing_between (infer_tf_ms (snd k)) (map s_time ?x) = []"
      by (simp add: verify_no_gaps_def get_bar_count_bars get_times_bars [OF assms(1)] Let_def)
    from clean [OF sorted this, of "nat m"] False show ?thesis
      by (simp add: verify_no_gaps_def get_bar_count_bars get_times_bars [OF assms(2)] Let_def t)
  qed
  ultimately show ?thesis by (simp add: cache_satisfies_def has_required_bars_def get_bar_count_bars)
qed


lemma register_bars:
  assumes "cache_inv c"
  shows "\<exists>m \<ge> n. bars k (register_data_requirement k n (Some n) 0 c) = last_n (nat m) (bars k c)"
    "k' \<noteq> k \<Longrightarrow> bars k' (register_data_requirement k n (Some n) 0 c) = bars k' c"
proof -
  define c1 where "c1 = note_requirement k n (Some n) 0 c"
  have c1: "cache_inv c1" "bars j c1 = bars j c" for j
    using assms by (simp_all add: c1_def note_requirement_def Let_def cache_inv_def bars_def)
  have n: "n \<le> retained_bars k c1" by (simp add: c1_def note_requirement_def Let_def retained_bars_def)
  have whole: "\<exists>m \<ge> n. xs = last_n (nat m) xs" for xs :: "slot list"
    by (rule exI [of _ "max n (int (length xs))"]) (simp add: last_n_def)
  have "(\<exists>m \<ge> n. bars k (register_data_requirement k n (Some n) 0 c) = last_n (nat m) (bars k c)) \<and>
      (k' \<noteq> k \<longrightarrow> bars k' (register_data_requirement k n (Some n) 0 c) = bars k' c)"
  proof (cases "map_of (c_data c1) k")
    case None
    with whole show ?thesis by (simp add: register_data_requirement_def c1(2) flip: c1_def)
  next
    case (Some b)
    let ?c2 = "put_buffer k (ensure_capacity (max 1 (retained_bars k c1)) b) c1"
    have v: "view (ensure_capacity (max 1 (retained_bars k c1)) b) = bars k c1"
      using ensure_capacity_view [OF cache_invD(1) [OF c1(1) Some]] Some by (simp add: bars_def)
    have inv: "cache_inv ?c2"
      using cache_invD [OF c1(1) Some] ensure_capacity_view [of b] c1(1) by (simp add: cache_inv_put)
    have r: "register_data_requirement k n (Some n) 0 c = trim_key k ?c2"
      using Some by (simp add: register_data_requirement_def flip: c1_def)
    have "bars k (trim_key k ?c2) = kept k ?c2 (bars k c)" "k' \<noteq> k \<Longrightarrow> bars k' (trim_key k ?c2) = bars k' c"
      using trim_key_bars [OF inv, of k] v c1(2) by simp_all
    moreover have "\<exists>m \<ge> n. kept k ?c2 (bars k c) = last_n (nat m) (bars k c)"
      using whole n by (auto simp: kept_def)
    ultimately show ?thesis unfolding r by simp
  qed
  then show "\<exists>m \<ge> n. bars k (register_data_requirement k n (Some n) 0 c) = last_n (nat m) (bars k c)"
    "k' \<noteq> k \<Longrightarrow> bars k' (register_data_requirement k n (Some n) 0 c) = bars k' c" by blast+
qed

lemma registered_satisfies:
  assumes "cache_inv c" and "distinct (map fst rs)" and "(k, n) \<in> set rs" and "cache_satisfies cfg now k n None c"
  shows "cache_satisfies cfg now k n None (fold (\<lambda>(k, n). register_data_requirement k n (Some n) 0) rs c)"
  using assms
proof (induction rs arbitrary: c)
  case (Cons p rs)
  obtain j m where p: "p = (j, m)" by (cases p)
  let ?c = "register_data_requirement j m (Some m) 0 c"
  have inv: "cache_inv ?c" using Cons.prems(1) by (rule register_inv)
  have same: "cache_satisfies cfg now k n None d" if "cache_inv d" "bars k d = bars k c" for d
    using that Cons.prems(1,4) by (intro kept_satisfies [of c d k "max n (int (length (bars k c)))"]) (auto simp: last_n_def)
  show ?case
  proof (cases "j = k")
    case True
    then have m: "m = n" "k \<notin> set (map fst rs)"
      using Cons.prems(2,3) p by (force simp: rev_image_eqI)+
    have "cache_satisfies cfg now k n None ?c"
      using register_bars(1) [OF Cons.prems(1), of m j] kept_satisfies [OF Cons.prems(1) inv] Cons.prems(4) True m(1) by blast
    moreover have "cache_satisfies cfg now k n None (fold (\<lambda>(k, n). register_data_requirement k n (Some n) 0) rs d)"
      if "cache_satisfies cfg now k n None d" "cache_inv d" "k \<notin> set (map fst rs)" for d
      using that
    proof (induction rs arbitrary: d)
      case (Cons q rs)
      obtain i l where q: "q = (i, l)" by (cases q)
      let ?d = "register_data_requirement i l (Some l) 0 d"
      have b: "bars k ?d = bars k d" using register_bars(2) [OF Cons.prems(2)] Cons.prems(3) q by simp
      have "cache_satisfies cfg now k n None ?d"
        using kept_satisfies [OF Cons.prems(2) register_inv [OF Cons.prems(2)], of k i l _ 0 "max n (int (length (bars k d)))"] b Cons.prems(1)
        by (auto simp: last_n_def)
      with Cons.IH [of ?d] Cons.prems q show ?case by (simp add: register_inv)
    qed simp
    ultimately show ?thesis using inv m(2) p by simp
  next
    case False
    have "cache_satisfies cfg now k n None ?c" using same [OF inv] register_bars(2) [OF Cons.prems(1)] False by simp
    with Cons.IH [OF inv] Cons.prems False p show ?thesis by simp
  qed
qed simp


text \<open>The service is the one part of the environment that a warm-up need not ask.\<close>

abbreviation with_service :: "warm_env \<Rightarrow> (real \<Rightarrow> requirement list \<Rightarrow> backend_outcome \<times> real) \<Rightarrow> warm_env" where
  "with_service env b \<equiv> env\<lparr>ue_backend := b\<rparr>"

lemma verify_sync_service: "verify_timestamp_sync (with_service env b) tol depth = verify_timestamp_sync env tol depth"
proof (induction env tol depth rule: verify_timestamp_sync.induct)
  case (1 env tol depth)
  have r: "reread (with_service env b) reader tf = reread env reader tf" for reader tf by (intro ext) (simp add: reread_def)
  show ?case
  proof (cases "depth > 2")
    case True
    then show ?thesis by (simp add: verify_timestamp_sync.simps)
  next
    case False
    show ?thesis
      unfolding verify_timestamp_sync.simps [of "with_service env b" tol depth] verify_timestamp_sync.simps [of env tol depth] if_not_P [OF False]
    proof (rule arg_cong [where f = "bind get_state"], rule ext)
      fix w
      show "(case find (\<lambda>tf. lagging tol tf w \<noteq> None) (required_tfs w) of
          None \<Rightarrow> ret True
        | Some tf \<Rightarrow> then_do (case ue_reader (with_service env b) of None \<Rightarrow> ret ()
              | Some reader \<Rightarrow> for_each (reread (with_service env b) reader tf) (case lagging tol tf w of None \<Rightarrow> [] | Some ss \<Rightarrow> ss))
            (verify_timestamp_sync (with_service env b) tol (Suc depth))) =
        (case find (\<lambda>tf. lagging tol tf w \<noteq> None) (required_tfs w) of
          None \<Rightarrow> ret True
        | Some tf \<Rightarrow> then_do (case ue_reader env of None \<Rightarrow> ret ()
              | Some reader \<Rightarrow> for_each (reread env reader tf) (case lagging tol tf w of None \<Rightarrow> [] | Some ss \<Rightarrow> ss))
            (verify_timestamp_sync env tol (Suc depth)))"
      proof (cases "find (\<lambda>tf. lagging tol tf w \<noteq> None) (required_tfs w)")
        case (Some tf)
        show ?thesis unfolding Some option.case "1.IH" [OF False Some] by (cases "ue_reader env") (simp_all add: r)
      qed simp
    qed
  qed
qed

lemma keeps_metrics_upsert: "keeps (\<lambda>w. up_metrics w = m) (upsert_all now k cs)"
  by (rule keepsI) (simp add: upsert_all_def on_cache_def split: prod.splits)

lemma keeps_metrics_verify: "keeps (\<lambda>w. up_metrics w = m) (verify_timestamp_sync env tol depth)"
proof (induction env tol depth rule: verify_timestamp_sync.induct)
  case (1 env tol depth)
  have r: "keeps (\<lambda>w. up_metrics w = m) (reread env reader tf s)" for reader tf s
    unfolding reread_def by (intro keeps_bind keeps_metrics_upsert) simp_all
  show ?case
  proof (cases "depth > 2")
    case True
    then show ?thesis by (simp add: verify_timestamp_sync.simps keeps_def)
  next
    case False
    show ?thesis
    proof (subst verify_timestamp_sync.simps, simp only: False if_False, intro keeps_bind, simp)
      fix w
      show "keeps (\<lambda>w. up_metrics w = m) (case find (\<lambda>tf. lagging tol tf w \<noteq> None) (required_tfs w) of
          None \<Rightarrow> ret True
        | Some tf \<Rightarrow> then_do (case ue_reader env of None \<Rightarrow> ret ()
              | Some reader \<Rightarrow> for_each (reread env reader tf) (case lagging tol tf w of None \<Rightarrow> [] | Some ss \<Rightarrow> ss))
            (verify_timestamp_sync env tol (Suc depth)))"
      proof (cases "find (\<lambda>tf. lagging tol tf w \<noteq> None) (required_tfs w)")
        case (Some tf)
        show ?thesis unfolding Some option.case
          by (intro keeps_then_do "1.IH" [OF False Some]) (auto split: option.split intro!: keeps_for_each r)
      qed simp
    qed
  qed
qed

lemma put_baseline_metrics: "up_metrics (fold put_baseline tfs w) = up_metrics w"
  by (induction tfs arbitrary: w) (simp_all add: put_baseline_def Let_def)

definition enough :: "warm_cfg \<Rightarrow> real \<Rightarrow> warmup \<Rightarrow> bool" where
  "enough cfg now w \<longleftrightarrow> cache_inv (up_cache w) \<and> dict_ok (up_requirements w) \<and>
     list_all (\<lambda>(k, n). cache_satisfies cfg now k n None (up_cache w)) (up_requirements w)"

text \<open>Where there is enough, whatever its age, nothing is missing.\<close>

lemma nothing_missing:
  assumes "enough cfg (ue_now env) w"
  defines "rs \<equiv> filter (\<lambda>((s, tf), n). \<not> is_excluded w s) (up_requirements w)"
  shows "\<exists>w'. \<forall>b. manager_request_warmup cfg (with_service env b) rs None stop w = (Inr [], w') \<and>
    um_requests (up_metrics w') = um_requests (up_metrics w)"
proof -
  let ?w = "w\<lparr>up_cache := fold (\<lambda>(k, n). register_data_requirement k n (Some n) 0) rs (up_cache w)\<rparr>"
  have d: "distinct (map fst rs)" using assms(1) by (simp add: enough_def rs_def distinct_map_filter)
  have sat: "cache_satisfies cfg (ue_now env) k n None (up_cache ?w)" if "(k, n) \<in> set rs" for k n
  proof -
    have "cache_satisfies cfg (ue_now env) k n None (up_cache w)"
      using assms(1) that by (fastforce simp: enough_def rs_def list_all_iff)
    from registered_satisfies [OF _ d that this] assms(1) show ?thesis by (simp add: enough_def)
  qed
  have none: "filter (\<lambda>p. \<not> (case p of (k, n) \<Rightarrow> cache_satisfies cfg (ue_now env) k n None (up_cache ?w)))
      (filter (\<lambda>((s, tf), n). \<not> is_excluded ?w s) rs) = []"
    using sat by (auto simp: filter_empty_conv)
  let ?m = "\<lambda>m. m\<lparr>um_cache_hits := um_cache_hits m + length (filter (\<lambda>(k, n). cache_satisfies cfg (ue_now env) k n None (up_cache ?w))
      (filter (\<lambda>((s, tf), n). \<not> is_excluded ?w s) rs))\<rparr>"
  have "missing_requirements cfg (ue_now env) rs None ?w = (Inr [], ?w\<lparr>up_metrics := ?m (up_metrics ?w)\<rparr>)"
    unfolding missing_requirements_def tally_def Let_def bind_get_state_apply then_modify_apply none by (simp add: ret_def)
  then have "manager_request_warmup cfg (with_service env b) rs None stop w = (Inr [], ?w\<lparr>up_metrics := ?m (up_metrics ?w)\<rparr>)" for b
    unfolding manager_request_warmup_def then_modify_apply by (simp add: bind_def ret_def)
  then show ?thesis by (intro exI [of _ "?w\<lparr>up_metrics := ?m (up_metrics ?w)\<rparr>"]) simp
qed


lemma synced_asks_nothing:
  assumes "enough cfg (ue_now env) w"
  shows "\<exists>r w'. \<forall>b. run_synced_warmup cfg (with_service env b) None share tol None w = (r, w') \<and>
    um_requests (up_metrics w') = um_requests (up_metrics w)"
proof -
  let ?rs = "filter (\<lambda>((s, tf), n). \<not> is_excluded w s) (up_requirements w)"
  obtain w1 where w1: "\<And>b. manager_request_warmup cfg (with_service env b) ?rs None (Some share) w = (Inr [], w1)"
    "um_requests (up_metrics w1) = um_requests (up_metrics w)"
    using nothing_missing [OF assms, of "Some share"] by blast
  let ?rest = "then_do (verify_timestamp_sync env tol 0) (then_do (modify (fold put_baseline (required_tfs w))) (ret True))"
  have run: "run_synced_warmup cfg (with_service env b) None share tol None w = ?rest w1" for b
    by (simp add: run_synced_warmup_def Let_def then_do_apply w1(1) verify_sync_service)
  have "up_metrics (snd (?rest w1)) = up_metrics w1"
    using keepsD [OF keeps_metrics_verify, of w1 "up_metrics w1" env tol 0]
    by (auto simp: then_do_apply modify_def ret_def put_baseline_metrics split: prod.splits sum.splits)
  then show ?thesis using run w1(2) by (intro exI [of _ "fst (?rest w1)"] exI [of _ "snd (?rest w1)"]) simp
qed

lemma reread_nothing:
  assumes "list_all (\<lambda>k. reader (fst k) (snd k) (dget (up_requirements (hb_warm h)) k 0) = Inr None) ks"
  shows "for_each (reread_snapshot env reader) ks h = (Inr (), h)"
  using assms by (induction ks) (simp_all add: ret_def then_do_apply reread_snapshot_def)

lemma count_up_simps [simp]:
  "hb_warm (count_up k h) = hb_warm h" "hb_handler (count_up k h) = hb_handler h" "hub_cache (count_up k h) = hub_cache h"
  "hb_last_message (count_up k h) = hb_last_message h"
  "dget (hb_counts (count_up k h)) k' 0 = (if k' = k then dget (hb_counts h) k 0 + 1 else dget (hb_counts h) k' 0)"
  by (simp_all add: count_up_def hub_cache_def)

lemma staleness_cong:
  "hb_warm g = hb_warm h \<Longrightarrow> hb_last_message g = hb_last_message h \<Longrightarrow> is_data_stale now now_ms lag g = is_data_stale now now_ms lag h"
  "hb_warm g = hb_warm h \<Longrightarrow> find_stale_symbols now_ms lag g = find_stale_symbols now_ms lag h"
  by (simp_all add: is_data_stale_def find_stale_symbols_def hub_cache_def)

text \<open>The snapshots have nothing for the keys that are read again.\<close>

definition snapshots_empty :: "warm_env \<Rightarrow> hub \<Rightarrow> key list \<Rightarrow> bool" where
  "snapshots_empty env h ks = (case ue_reader env of None \<Rightarrow> True
     | Some reader \<Rightarrow> list_all (\<lambda>k. reader (fst k) (snd k) (dget (up_requirements (hb_warm h)) k 0) = Inr None) ks)"

text \<open>
  C15. The full warm-up after a silence asks for nothing.  The hub has been silent, its data is stale,
  and the snapshots do not help.  It then runs the full warm-up, and counts it; but the warm-up looks
  at how many bars there are and not at their age.  Where there are enough, gap-free, the market
  data service is sent no request: whatever it would answer, the state of the runner is the same.
\<close>

theorem reconnect_asks_for_nothing:
  assumes "enough cfg (ue_now env) (hb_warm h)" and "hb_handler h = Some lag" and "30 \<le> now - hb_last_check h"
    and "is_data_stale now now_ms lag h" and "find_stale_symbols now_ms lag h \<noteq> []"
    and "snapshots_empty env h (find_stale_symbols now_ms lag h)"
  shows "silence_turn cfg (with_service env b) False now now_ms h = silence_turn cfg env False now now_ms h \<and>
    um_requests (up_metrics (hb_warm (silence_turn cfg env False now now_ms h))) = um_requests (up_metrics (hb_warm h)) \<and>
    dget (hb_counts (silence_turn cfg env False now now_ms h)) ''reconnect_full_warmup_total'' 0 =
      dget (hb_counts h) ''reconnect_full_warmup_total'' 0 + 1"
proof -
  let ?h1 = "count_up ''stale_check_total'' (h\<lparr>hb_last_check := now\<rparr>)"
  let ?h2 = "count_up ''stale_detected_total'' ?h1"
  let ?h3 = "count_up ''reconnect_full_warmup_total'' ?h2"
  have ks: "find_stale_symbols now_ms lag ?h1 = find_stale_symbols now_ms lag h" by (rule staleness_cong) simp
  have stale: "is_data_stale now now_ms lag ?h1" "is_data_stale now now_ms lag ?h2"
    using assms(4) staleness_cong(1) [of ?h1 h] staleness_cong(1) [of ?h2 h] by simp_all
  obtain r w' where w': "\<And>b. run_synced_warmup cfg (with_service env b) None (6 / 10) 1 None (hb_warm h) = (r, w')"
    "um_requests (up_metrics w') = um_requests (up_metrics (hb_warm h))"
    using synced_asks_nothing [OF assms(1)] by blast
  have reread: "(case ue_reader env of None \<Rightarrow> ret () | Some reader \<Rightarrow>
      for_each (reread_snapshot (with_service env b) reader) (find_stale_symbols now_ms lag h)) ?h2 = (Inr (), ?h2)" for b
    using assms(6) reread_nothing [of _ ?h2] by (auto simp: snapshots_empty_def ret_def split: option.splits)
  have turn: "silence_turn cfg (with_service env b) False now now_ms h = ?h3\<lparr>hb_warm := w'\<rparr>" for b
  proof -
    have run: "on_reconnect cfg (with_service env b) False now now_ms ?h1 =
        bind (on_warm (run_synced_warmup cfg (with_service env b) None (6 / 10) 1 None)) (\<lambda>b. ret ()) ?h3"
      using assms(2,5) reread stale(2) by (simp add: on_reconnect_def ks then_do_def bind_Inr del: count_up_simps(5))
    have res: "snd (bind (on_warm (run_synced_warmup cfg (with_service env b) None (6 / 10) 1 None)) (\<lambda>b. ret ()) ?h3) = ?h3\<lparr>hb_warm := w'\<rparr>"
      using w'(1) [of b] by (simp add: on_warm_def bind_def ret_def split: sum.splits)
    have "silence_turn cfg (with_service env b) False now now_ms h = snd (on_reconnect cfg (with_service env b) False now now_ms ?h1)"
      using assms(2,3) stale(1) by (simp add: silence_turn_def Let_def)
    then show ?thesis unfolding run res .
  qed
  moreover have "with_service env (ue_backend env) = env" by simp
  ultimately have "silence_turn cfg env False now now_ms h = ?h3\<lparr>hb_warm := w'\<rparr>" by metis
  with turn w'(2) show ?thesis by (simp add: count_up_def)
qed

text \<open>One bar of BTC, an hour old: the warm-up of the runner has it, and the stream is silent.\<close>

definition silent_hub :: hub where
  "silent_hub = set_reconnect_handler 5 (new_hub 5 ex_warmup)"

theorem reconnect_asks_for_nothing_witness:
  "um_requests (up_metrics (hb_warm (silence_turn ex_warm_cfg ex_warm_env False 3600 3720000 silent_hub))) = 0 \<and>
   dget (hb_counts (silence_turn ex_warm_cfg ex_warm_env False 3600 3720000 silent_hub)) ''reconnect_full_warmup_total'' 0 = 1"
proof -
  have w: "hb_warm silent_hub = ex_warmup" "hb_handler silent_hub = Some 5" "hb_last_check silent_hub = 0" "hb_counts silent_hub = []"
    by (simp_all add: silent_hub_def set_reconnect_handler_def new_hub_def)
  have inv: "cache_inv (up_cache ex_warmup)"
    using cache_step_inv [of "new_cache 1" "Upsert (Fin 0) ''BTC'' ''1m'' [(''open_time'', JInt 120000)]"]
    by (simp add: ex_warmup_def dget_def)
  have "list_all (\<lambda>(k, n). cache_satisfies ex_warm_cfg 0 k n None (up_cache ex_warmup)) (up_requirements ex_warmup)"
    by code_simp
  then have e: "enough ex_warm_cfg (ue_now ex_warm_env) (hb_warm silent_hub)"
    using inv by (simp add: enough_def w ex_warm_env_def) (simp add: ex_warmup_def)
  have st: "is_data_stale 3600 3720000 5 silent_hub" by code_simp
  have ks: "find_stale_symbols 3720000 5 silent_hub \<noteq> []" by code_simp
  have "snapshots_empty ex_warm_env silent_hub (find_stale_symbols 3720000 5 silent_hub)"
    by (simp add: snapshots_empty_def ex_warm_env_def)
  from reconnect_asks_for_nothing [OF e w(2) _ st ks this] show ?thesis by (simp add: w) (simp add: ex_warmup_def dget_def)
qed

end
