(* ===== verification/RunnerLoop.thy ===== *)
theory RunnerLoop
  imports PubSub StrategyContext
begin

text \<open>
  The loops of \<^verbatim>\<open>alphas/runner/main.py\<close> that feed the strategies, with the counters of
  \<^verbatim>\<open>alphas/runner/metrics.py\<close> and \<^verbatim>\<open>alphas/runner/perf_metrics.py\<close>.

  A strategy is what the loop calls: a record of operations on its state.  The pool that admits the
  events of all strategies is a step relation: an event waits for a permit, is handled, and ends
  in one of the ways the loop knows.
\<close>

section \<open>Latencies\<close>

record latency_window =
  lw_max :: nat
  lw_samples :: "real list"
  lw_count :: nat

definition new_window :: "nat \<Rightarrow> latency_window" where
  "new_window n = \<lparr>lw_max = n, lw_samples = [], lw_count = 0\<rparr>"

definition lw_observe :: "real \<Rightarrow> latency_window \<Rightarrow> latency_window" where
  "lw_observe x l = l\<lparr>lw_samples := last_n (lw_max l) (lw_samples l @ [max 0 x]), lw_count := lw_count l + 1\<rparr>"

text \<open>The nearest rank.\<close>

definition quantile :: "real list \<Rightarrow> real \<Rightarrow> real" where
  "quantile ordered q = ordered ! nat (max 0 (\<lceil>q * real (length ordered)\<rceil> - 1))"

record latency_snapshot =
  ls_count :: nat
  ls_samples :: nat
  ls_avg :: real
  ls_max :: real
  ls_p50 :: real
  ls_p95 :: real
  ls_p99 :: real

definition lw_snapshot :: "latency_window \<Rightarrow> latency_snapshot" where
  "lw_snapshot l =
     (let xs = sort (lw_samples l)
      in if xs = [] then \<lparr>ls_count = lw_count l, ls_samples = 0, ls_avg = 0, ls_max = 0, ls_p50 = 0, ls_p95 = 0, ls_p99 = 0\<rparr>
         else \<lparr>ls_count = lw_count l, ls_samples = length xs, ls_avg = sum_list xs / real (length xs), ls_max = last xs,
               ls_p50 = quantile xs (50 / 100), ls_p95 = quantile xs (95 / 100), ls_p99 = quantile xs (99 / 100)\<rparr>)"

record labeled_windows =
  lb_labels :: nat
  lb_samples :: nat
  lb_windows :: "(string, latency_window) dict"

text \<open>A label that is seen moves to the end; a new one may push the first out.\<close>

definition lb_observe :: "string \<Rightarrow> real \<Rightarrow> labeled_windows \<Rightarrow> labeled_windows" where
  "lb_observe label x l = (case map_of (lb_windows l) label of
       None \<Rightarrow> l\<lparr>lb_windows := last_n (lb_labels l) (lb_windows l @ [(label, lw_observe x (new_window (lb_samples l)))])\<rparr>
     | Some v \<Rightarrow> l\<lparr>lb_windows := ddel label (lb_windows l) @ [(label, lw_observe x v)]\<rparr>)"

section \<open>Counters\<close>

record runner_metrics =
  rm_counters :: "(string, int) dict"
  rm_durations :: "real list"
  rm_coverage :: "(string, real) dict"
  rm_timeouts :: "(string, nat) dict"
  rm_last_event :: "(string, real) dict"
  rm_dispatched :: nat
  rm_published :: nat
  rm_dedup :: nat
  rm_dedup_by :: "(string, nat) dict"
  rm_lease_dropped :: nat
  rm_lease_dropped_by :: "(string, nat) dict"
  rm_events :: nat
  rm_scans :: nat
  rm_by_kind :: "(string, nat) dict"
  rm_waiters :: int
  rm_waiters_max :: int
  rm_queue_wait :: latency_window
  rm_admission_wait :: latency_window
  rm_scan_time :: latency_window
  rm_event_time :: latency_window

definition new_runner_metrics :: runner_metrics where
  "new_runner_metrics = \<lparr>rm_counters = [], rm_durations = [], rm_coverage = [], rm_timeouts = [], rm_last_event = [],
     rm_dispatched = 0, rm_published = 0, rm_dedup = 0, rm_dedup_by = [], rm_lease_dropped = 0, rm_lease_dropped_by = [],
     rm_events = 0, rm_scans = 0, rm_by_kind = [], rm_waiters = 0, rm_waiters_max = 0, rm_queue_wait = new_window 2048,
     rm_admission_wait = new_window 2048, rm_scan_time = new_window 2048, rm_event_time = new_window 2048\<rparr>"

definition bump :: "string \<Rightarrow> (string, nat) dict \<Rightarrow> (string, nat) dict" where
  "bump k d = dset k (dget d k 0 + 1) d"

definition metrics_inc :: "string \<Rightarrow> int \<Rightarrow> runner_metrics \<Rightarrow> runner_metrics" where
  "metrics_inc name amount m = m\<lparr>rm_counters := dset name (dget (rm_counters m) name 0 + amount) (rm_counters m)\<rparr>"

definition observe_duration :: "real \<Rightarrow> runner_metrics \<Rightarrow> runner_metrics" where
  "observe_duration x m = m\<lparr>rm_durations := rm_durations m @ [x]\<rparr>"

definition set_strategy_coverage :: "string \<Rightarrow> real \<Rightarrow> runner_metrics \<Rightarrow> runner_metrics" where
  "set_strategy_coverage alpha x m = m\<lparr>rm_coverage := dset alpha x (rm_coverage m)\<rparr>"

definition inc_scan_timeout :: "string \<Rightarrow> runner_metrics \<Rightarrow> runner_metrics" where
  "inc_scan_timeout alpha m = m\<lparr>rm_timeouts := bump alpha (rm_timeouts m)\<rparr>"

definition inc_signal_dispatched :: "runner_metrics \<Rightarrow> runner_metrics" where
  "inc_signal_dispatched m = m\<lparr>rm_dispatched := rm_dispatched m + 1\<rparr>"

definition inc_signal_published :: "runner_metrics \<Rightarrow> runner_metrics" where
  "inc_signal_published m = m\<lparr>rm_published := rm_published m + 1\<rparr>"

definition inc_signal_dedup_skipped :: "string \<Rightarrow> runner_metrics \<Rightarrow> runner_metrics" where
  "inc_signal_dedup_skipped alpha m = m\<lparr>rm_dedup := rm_dedup m + 1, rm_dedup_by := bump alpha (rm_dedup_by m)\<rparr>"

definition inc_signal_lease_dropped :: "string \<Rightarrow> runner_metrics \<Rightarrow> runner_metrics" where
  "inc_signal_lease_dropped alpha m =
     m\<lparr>rm_lease_dropped := rm_lease_dropped m + 1, rm_lease_dropped_by := bump alpha (rm_lease_dropped_by m)\<rparr>"

definition mark_event_processed :: "string \<Rightarrow> real \<Rightarrow> runner_metrics \<Rightarrow> runner_metrics" where
  "mark_event_processed alpha now m = m\<lparr>rm_last_event := dset alpha now (rm_last_event m)\<rparr>"

definition reset_alpha_event :: "string \<Rightarrow> runner_metrics \<Rightarrow> runner_metrics" where
  "reset_alpha_event alpha m = m\<lparr>rm_last_event := ddel alpha (rm_last_event m)\<rparr>"

definition scan_wait_started :: "runner_metrics \<Rightarrow> runner_metrics" where
  "scan_wait_started m = m\<lparr>rm_waiters := rm_waiters m + 1, rm_waiters_max := max (rm_waiters_max m) (rm_waiters m + 1)\<rparr>"

definition scan_wait_finished :: "runner_metrics \<Rightarrow> runner_metrics" where
  "scan_wait_finished m = m\<lparr>rm_waiters := max 0 (rm_waiters m - 1)\<rparr>"

text \<open>The times of an event: in the queue, waiting for a permit, scanning, in all.\<close>

record event_times =
  et_queue :: real
  et_admission :: real
  et_scan :: real
  et_total :: real

definition observe_event :: "string \<Rightarrow> event_times \<Rightarrow> bool \<Rightarrow> runner_metrics \<Rightarrow> runner_metrics" where
  "observe_event kind t scanned m =
     (let m = m\<lparr>rm_events := rm_events m + 1, rm_by_kind := bump kind (rm_by_kind m)\<rparr>;
          m = if scanned then m\<lparr>rm_scans := rm_scans m + 1, rm_scan_time := lw_observe (et_scan t) (rm_scan_time m)\<rparr> else m
      in m\<lparr>rm_queue_wait := lw_observe (et_queue t) (rm_queue_wait m),
           rm_admission_wait := lw_observe (et_admission t) (rm_admission_wait m),
           rm_event_time := lw_observe (et_total t) (rm_event_time m)\<rparr>)"

section \<open>Silent strategies\<close>

definition stale_tf_ms :: "string \<Rightarrow> int" where
  "stale_tf_ms tf = dget
     [(''1m'', 60000), (''5m'', 300000), (''15m'', 900000), (''30m'', 1800000),
      (''1h'', 3600000), (''4h'', 14400000), (''1d'', 86400000)] tf 60000"

definition alpha_stale_threshold :: "string list \<Rightarrow> real" where
  "alpha_stale_threshold tfs =
     max 60 (of_int (if tfs = [] then 60000 else Min (stale_tf_ms ` set tfs)) / 1000 * 2)"

definition is_alpha_stale :: "string \<Rightarrow> string list \<Rightarrow> runner_metrics \<Rightarrow> real \<Rightarrow> bool" where
  "is_alpha_stale alpha tfs m now = (case map_of (rm_last_event m) alpha of
       None \<Rightarrow> False | Some t \<Rightarrow> now - t > alpha_stale_threshold tfs)"


section \<open>What the loop needs of a strategy\<close>

record 's strategy_ops =
  so_alpha :: string
  so_timeframe :: "string option"
  so_symbols :: "string list"
  so_tfs :: "string list"
  so_bars :: "string \<Rightarrow> int"
  so_share :: real
  so_flags :: "'s \<Rightarrow> runtime_flags"
  so_set_flags :: "runtime_flags \<Rightarrow> 's \<Rightarrow> 's"
  so_set_tradable :: "json list \<Rightarrow> 's \<Rightarrow> 's"
  so_on_candle :: "string \<Rightarrow> string \<Rightarrow> ('s, unit) eff"
  so_should_scan :: "string \<Rightarrow> string \<Rightarrow> string option \<Rightarrow> ('s, bool) eff"
  so_scan :: "('s, unit) eff"
  so_on_price_alert :: "string \<Rightarrow> pyfloat \<Rightarrow> string \<Rightarrow> ('s, unit) eff"

text \<open>\<open>refresh_strategy_readiness\<close>: every time frame counts.\<close>

definition readiness_round ::
  "real \<Rightarrow> real option \<Rightarrow> cache \<Rightarrow> 's strategy_ops \<Rightarrow> string \<Rightarrow> bool \<times> runtime_flags \<Rightarrow> bool \<times> runtime_flags" where
  "readiness_round now max_age c ops tf = (\<lambda>(ready, f).
     let f = update_readiness now (so_share ops) (so_symbols ops) tf (so_bars ops tf) max_age c f in (rf_ready f \<and> ready, f))"

definition refresh_flags :: "real \<Rightarrow> real option \<Rightarrow> cache \<Rightarrow> 's strategy_ops \<Rightarrow> runtime_flags \<Rightarrow> runtime_flags" where
  "refresh_flags now max_age c ops f =
     (if so_symbols ops = [] then f\<lparr>rf_ready := True\<rparr>
      else (let (ready, f) = fold (readiness_round now max_age c ops) (so_tfs ops) (True, f) in f\<lparr>rf_ready := ready\<rparr>))"

definition refresh_strategy_readiness :: "real \<Rightarrow> real option \<Rightarrow> cache \<Rightarrow> 's strategy_ops \<Rightarrow> 's \<Rightarrow> 's" where
  "refresh_strategy_readiness now max_age c ops s = so_set_flags ops (refresh_flags now max_age c ops (so_flags ops s)) s"

section \<open>An event\<close>

definition event_timeout :: "data_event \<Rightarrow> real" where
  "event_timeout e = dget [(''1d'', 300), (''4h'', 120), (''1h'', 90), (''15m'', 60)] (dv_tf e) 60"

definition scan_if :: "'s strategy_ops \<Rightarrow> bool \<Rightarrow> ('s, bool) eff" where
  "scan_if ops b = (if b then then_do (so_scan ops) (ret True) else ret False)"

definition alert_price :: "obj \<Rightarrow> pyfloat res" where
  "alert_price d =
     (let v = dget d ''price'' (dget d ''bid'' (dget d ''ask'' (JNum (Fin 0))))
      in if json_truthy v then jfloat v else Inr (Fin 0))"

definition tradable_names :: "obj \<Rightarrow> json list res" where
  "tradable_names d =
     (let v = dget d ''symbols'' JNull
      in if \<not> json_truthy v then Inr []
         else res_bind (elements v) (\<lambda>xs. if list_all hashable xs then Inr xs else Inl TypeError))"

text \<open>\<open>handle_strategy_event\<close>; the answer is whether there was a scan.\<close>

definition handle_strategy_event :: "real \<Rightarrow> cache \<Rightarrow> 's strategy_ops \<Rightarrow> data_event \<Rightarrow> ('s, bool) eff" where
  "handle_strategy_event now c ops e =
     (if dv_kind e = ''kline'' \<and> dv_symbol e \<noteq> '''' \<and> dv_tf e \<noteq> ''''
      then then_do (modify (refresh_strategy_readiness now None c ops))
        (then_do (so_on_candle ops (dv_symbol e) (dv_tf e))
        (bind (so_should_scan ops (dv_kind e) (dv_symbol e) (Some (dv_tf e))) (scan_if ops)))
      else if dv_kind e = ''price_alert'' \<and> dv_symbol e \<noteq> ''''
      then bind (lift_res (alert_price (dv_payload e))) (\<lambda>price.
        then_do (so_on_price_alert ops (dv_symbol e) price (jstr (dget (dv_payload e) ''side'' (JStr ''''))))
        (bind (so_should_scan ops (dv_kind e) (dv_symbol e) None) (scan_if ops)))
      else if dv_kind e = ''symbols''
      then bind (lift_res (tradable_names (dv_payload e))) (\<lambda>names.
        then_do (modify (so_set_tradable ops names)) (scan_if ops True))
      else ret False)"

section \<open>Admission\<close>

text \<open>A kline of the strategy's own time frame is its trigger.\<close>

definition critical_event :: "'s strategy_ops \<Rightarrow> data_event \<Rightarrow> bool" where
  "critical_event ops e \<longleftrightarrow> dv_kind e = ''kline'' \<and> dv_tf e \<noteq> '''' \<and> so_timeframe ops = Some (dv_tf e)"

text \<open>The pool of the runner: free permits, who waits for one, and who runs with or without one.\<close>

record pool =
  po_permits :: nat
  po_waiting :: "string list"
  po_running :: "(string \<times> bool) list"
  po_metrics :: runner_metrics
  po_done :: "string list"

definition new_pool :: "nat \<Rightarrow> pool" where
  "new_pool workers = \<lparr>po_permits = max 1 workers, po_waiting = [], po_running = [], po_metrics = new_runner_metrics, po_done = []\<rparr>"

definition on_metrics :: "(runner_metrics \<Rightarrow> runner_metrics) \<Rightarrow> pool \<Rightarrow> pool" where
  "on_metrics f p = p\<lparr>po_metrics := f (po_metrics p)\<rparr>"

definition begin_event :: "string \<Rightarrow> pool \<Rightarrow> pool" where
  "begin_event alpha p = on_metrics scan_wait_started (p\<lparr>po_waiting := alpha # po_waiting p\<rparr>)"

definition end_event :: "string \<Rightarrow> pool \<Rightarrow> pool" where
  "end_event alpha p = p\<lparr>po_done := alpha # po_done p\<rparr>"

definition admit_event :: "string \<Rightarrow> pool \<Rightarrow> pool" where
  "admit_event alpha p = on_metrics scan_wait_finished
     (p\<lparr>po_permits := po_permits p - 1, po_waiting := remove1 alpha (po_waiting p), po_running := (alpha, True) # po_running p\<rparr>)"

text \<open>The wait for a permit timed out: a critical event goes on without one, another is abandoned.\<close>

definition admission_timeout :: "string \<Rightarrow> bool \<Rightarrow> pool \<Rightarrow> pool" where
  "admission_timeout alpha critical p =
     (let p = on_metrics scan_wait_finished (p\<lparr>po_waiting := remove1 alpha (po_waiting p)\<rparr>)
      in if critical then p\<lparr>po_running := (alpha, False) # po_running p\<rparr>
         else end_event alpha (on_metrics (inc_scan_timeout alpha) p))"

datatype event_end = Handled real string event_times bool | HandlerTimeout | HandlerRaised

definition finish_event :: "string \<Rightarrow> bool \<Rightarrow> event_end \<Rightarrow> pool \<Rightarrow> pool" where
  "finish_event alpha held out p =
     (let p = p\<lparr>po_running := remove1 (alpha, held) (po_running p), po_permits := po_permits p + (if held then 1 else 0)\<rparr>
      in end_event alpha (case out of
           Handled now kind t scanned \<Rightarrow> on_metrics (observe_event kind t scanned \<circ> mark_event_processed alpha now) p
         | HandlerTimeout \<Rightarrow> on_metrics (inc_scan_timeout alpha) p
         | HandlerRaised \<Rightarrow> p))"

text \<open>The events of all loops, in any order; the loop of a strategy handles one at a time.\<close>

definition idle :: "string \<Rightarrow> pool \<Rightarrow> bool" where
  "idle alpha p \<longleftrightarrow> alpha \<notin> set (po_waiting p) \<and> alpha \<notin> fst ` set (po_running p)"

inductive pool_step :: "pool \<Rightarrow> pool \<Rightarrow> bool" where
  arrives: "idle alpha p \<Longrightarrow> pool_step p (begin_event alpha p)"
| admitted: "alpha \<in> set (po_waiting p) \<Longrightarrow> 0 < po_permits p \<Longrightarrow> pool_step p (admit_event alpha p)"
| saturated: "alpha \<in> set (po_waiting p) \<Longrightarrow> pool_step p (admission_timeout alpha critical p)"
| finished: "(alpha, held) \<in> set (po_running p) \<Longrightarrow> pool_step p (finish_event alpha held out p)"

inductive_cases pool_stepE: "pool_step p p'"

section \<open>One turn of a strategy's loop\<close>

datatype admission = Admitted | Saturated

text \<open>
  The event of one turn, from the queue to the state of the strategy.  When the handler is cut off
  by its time limit, it leaves the state it has reached.
\<close>

definition strategy_turn ::
  "real \<Rightarrow> cache \<Rightarrow> 's strategy_ops \<Rightarrow> admission \<Rightarrow> 's option \<Rightarrow> data_event \<Rightarrow> 's \<Rightarrow> 's" where
  "strategy_turn now c ops adm cutoff e s =
     (if adm = Saturated \<and> \<not> critical_event ops e then s
      else case cutoff of Some s' \<Rightarrow> s' | None \<Rightarrow> snd (handle_strategy_event now c ops e s))"

section \<open>Price alerts\<close>

text \<open>
  A round of \<open>run_price_alert_reconcile_loop\<close> for one strategy: the channels it holds positions on
  are subscribed, the others left; \<open>current\<close> is what the loop has subscribed before.
\<close>

definition alert_round ::
  "(string \<Rightarrow> bool) \<Rightarrow> string \<Rightarrow> string list \<Rightarrow> string list \<Rightarrow> (hub, string list) eff" where
  "alert_round ok alpha desired current =
     then_do (for_each (\<lambda>ch. hub_subscribe (ok ch) ch alpha) (filter (\<lambda>ch. ch \<notin> set current) desired))
     (then_do (for_each (\<lambda>ch. hub_unsubscribe (ok ch) ch alpha) (filter (\<lambda>ch. ch \<notin> set desired) current))
     (ret desired))"

section \<open>Channels and the restore plan\<close>

definition translate_channel :: "string \<Rightarrow> string \<Rightarrow> string" where
  "translate_channel exchange ch =
     (if prefix ''kline:'' ch \<and> CHR '':'' \<notin> set (drop 6 ch) then ''kline:'' @ exchange @ '':'' @ drop 6 ch else ch)"

definition translate_channels :: "string list \<Rightarrow> string \<Rightarrow> string list" where
  "translate_channels chs exchange = map (translate_channel exchange) chs"

definition tf_to_1m_multiplier :: "string \<Rightarrow> int res" where
  "tf_to_1m_multiplier tf =
     (if tf = '''' then Inl IndexError
      else res_bind (py_int_str (butlast tf)) (\<lambda>v.
        Inr (if last tf = CHR ''m'' then v else if last tf = CHR ''h'' then v * 60 else if last tf = CHR ''d'' then v * 1440 else 1)))"

definition restore_rows :: "string \<Rightarrow> int \<Rightarrow> int" where
  "restore_rows tf n = (let m = (case tf_to_1m_multiplier tf of Inr m \<Rightarrow> m | Inl e \<Rightarrow> 1) in n * m + max (m * 2) 10)"

definition parquet_restore_plan :: "(key, int) dict \<Rightarrow> (string, int) dict" where
  "parquet_restore_plan rs =
     fold (\<lambda>((s, tf), n) d. dset s (max (dget d s 0) (restore_rows tf n)) d) rs []"

end
