(* ===== verification/RunnerLoopProperties.thy ===== *)
theory RunnerLoopProperties
  imports RunnerLoop CrossProperties
begin

text \<open>
  The loops of the runner: permits are never lost, latencies are nearest ranks, and a strategy whose
  data is not there does not trade.
\<close>

section \<open>Admission\<close>

definition pool_ok :: "nat \<Rightarrow> pool \<Rightarrow> bool" where
  "pool_ok n p \<longleftrightarrow> po_permits p + length (filter snd (po_running p)) = n \<and>
     rm_waiters (po_metrics p) = int (length (po_waiting p)) \<and> distinct (po_waiting p @ map fst (po_running p))"

lemma on_metrics_simps [simp]:
  "po_permits (on_metrics f p) = po_permits p" "po_waiting (on_metrics f p) = po_waiting p"
  "po_running (on_metrics f p) = po_running p" "po_metrics (on_metrics f p) = f (po_metrics p)"
  by (simp_all add: on_metrics_def)

lemma waiters_simps [simp]:
  "rm_waiters (scan_wait_started m) = rm_waiters m + 1" "rm_waiters (scan_wait_finished m) = max 0 (rm_waiters m - 1)"
  "rm_waiters (inc_scan_timeout a m) = rm_waiters m" "rm_waiters (observe_event k t b m) = rm_waiters m"
  "rm_waiters (mark_event_processed a now m) = rm_waiters m"
  by (simp_all add: scan_wait_started_def scan_wait_finished_def inc_scan_timeout_def observe_event_def mark_event_processed_def Let_def)

lemma distinct_filter_remove1:
  "x \<in> set xs \<Longrightarrow> P x \<Longrightarrow> Suc (length (filter P (remove1 x xs))) = length (filter P xs)"
  "\<not> P x \<Longrightarrow> filter P (remove1 x xs) = filter P xs"
  by (induction xs) auto

lemma distinct_map_remove1: "distinct (map f xs) \<Longrightarrow> distinct (map f (remove1 x xs))"
  by (induction xs) (auto dest: notin_set_remove1 set_remove1_subset [THEN subsetD])

lemma pool_step_ok: "pool_step p p' \<Longrightarrow> pool_ok n p \<Longrightarrow> pool_ok n p'"
proof (induction rule: pool_step.induct)
  case (arrives alpha p)
  then show ?case by (auto simp: pool_ok_def begin_event_def idle_def)
next
  case (admitted alpha p)
  then have "1 \<le> length (po_waiting p)" by (cases "po_waiting p") simp_all
  with admitted show ?case by (auto simp: pool_ok_def admit_event_def length_remove1)
next
  case (saturated alpha p critical)
  then have "1 \<le> length (po_waiting p)" by (cases "po_waiting p") simp_all
  with saturated show ?case
    by (auto simp: pool_ok_def admission_timeout_def end_event_def length_remove1 Let_def dest: notin_set_remove1 set_remove1_subset [THEN subsetD])
next
  case (finished alpha held p out)
  have s: "set (map fst (remove1 (alpha, held) (po_running p))) \<subseteq> set (map fst (po_running p))"
    using set_remove1_subset [of "(alpha, held)" "po_running p"] by auto
  have d: "distinct (po_waiting p @ map fst (remove1 (alpha, held) (po_running p)))"
  proof -
    have "distinct (po_waiting p)" "distinct (map fst (po_running p))" "set (po_waiting p) \<inter> set (map fst (po_running p)) = {}"
      using finished.prems unfolding pool_ok_def distinct_append by blast+
    with s distinct_map_remove1 [of fst "po_running p" "(alpha, held)"] show ?thesis unfolding distinct_append by blast
  qed
  have l: "length (filter snd (remove1 (alpha, held) (po_running p))) + (if held then 1 else 0) = length (filter snd (po_running p))"
    using distinct_filter_remove1(1) [OF finished.hyps, of snd] distinct_filter_remove1(2) [of snd "(alpha, held)" "po_running p"] by auto
  show ?case using finished.prems d l by (cases out) (auto simp: pool_ok_def finish_event_def end_event_def Let_def)
qed

text \<open>
  C16. No permit is ever lost.  Whatever the loops of all strategies do, and however their events end -
  handled, abandoned while waiting, cut off, or with an exception - the free permits and the
  running events that hold one add up to the size of the pool; the gauge of waiting events
  is their number, and no strategy is in the pool twice.
\<close>

theorem permits_never_leak:
  assumes "pool_step\<^sup>*\<^sup>* (new_pool workers) p"
  shows "po_permits p + length (filter snd (po_running p)) = max 1 workers \<and>
    rm_waiters (po_metrics p) = int (length (po_waiting p)) \<and> distinct (po_waiting p @ map fst (po_running p))"
proof -
  have "pool_ok (max 1 workers) (new_pool workers)" by (simp add: pool_ok_def new_pool_def new_runner_metrics_def)
  with assms have "pool_ok (max 1 workers) p" by (induction rule: rtranclp_induct) (blast intro: pool_step_ok)+
  then show ?thesis by (simp add: pool_ok_def)
qed

theorem permits_never_leak_witness:
  "let p = finish_event ''a'' True HandlerTimeout (admit_event ''a'' (begin_event ''a'' (new_pool 1)))
   in po_permits p + length (filter snd (po_running p)) = 1"
proof -
  let ?p1 = "begin_event ''a'' (new_pool 1)"
  have 1: "pool_step (new_pool 1) ?p1" by (rule arrives) (simp add: idle_def new_pool_def)
  have 2: "pool_step ?p1 (admit_event ''a'' ?p1)" by (rule admitted) (simp_all add: begin_event_def new_pool_def)
  have 3: "pool_step (admit_event ''a'' ?p1) (finish_event ''a'' True HandlerTimeout (admit_event ''a'' ?p1))"
    by (rule finished) (simp add: admit_event_def)
  have "pool_step\<^sup>*\<^sup>* (new_pool 1) (finish_event ''a'' True HandlerTimeout (admit_event ''a'' ?p1))"
    using 1 2 3 by (meson rtranclp.rtrancl_into_rtrancl rtranclp.rtrancl_refl)
  from permits_never_leak [OF this] show ?thesis by (simp add: Let_def)
qed


section \<open>Quantiles\<close>

lemma sorted_filter_le:
  assumes "sorted xs" and "i < length xs"
  shows "Suc i \<le> length (filter (\<lambda>x. x \<le> xs ! i) xs)" "length (filter (\<lambda>x. x < xs ! i) xs) \<le> i"
proof -
  have split: "length (filter P xs) = length (filter P (take (Suc i) xs)) + length (filter P (drop (Suc i) xs))" for P
    by (metis append_take_drop_id filter_append length_append)
  have "filter (\<lambda>x. x \<le> xs ! i) (take (Suc i) xs) = take (Suc i) xs"
    using assms by (auto simp: filter_id_conv in_set_conv_nth sorted_iff_nth_mono)
  then show "Suc i \<le> length (filter (\<lambda>x. x \<le> xs ! i) xs)" using split [of "\<lambda>x. x \<le> xs ! i"] assms(2) by simp
  have split': "length (filter P xs) = length (filter P (take i xs)) + length (filter P (drop i xs))" for P
    by (metis append_take_drop_id filter_append length_append)
  have "filter (\<lambda>x. x < xs ! i) (drop i xs) = []"
    using assms by (auto simp: filter_empty_conv in_set_conv_nth sorted_iff_nth_mono not_less)
  moreover have "length (filter P (take i xs)) \<le> i" for P by (rule order_trans [OF length_filter_le]) simp
  ultimately show "length (filter (\<lambda>x. x < xs ! i) xs) \<le> i" using split' [of "\<lambda>x. x < xs ! i"] by simp
qed

text \<open>
  A quantile is a nearest rank.  For a share \<open>q\<close> of at most 1, \<open>quantile\<close> over the samples in
  order gives one of the samples; at least the share \<open>q\<close> of them is not above it, and fewer than that
  are below it.
\<close>

theorem quantile_is_nearest_rank:
  assumes "xs \<noteq> []" and "0 < q" and "q \<le> 1"
  shows "quantile (sort xs) q \<in> set xs \<and>
    q * real (length xs) \<le> real (length (filter (\<lambda>x. x \<le> quantile (sort xs) q) xs)) \<and>
    real (length (filter (\<lambda>x. x < quantile (sort xs) q) xs)) < q * real (length xs)"
proof -
  let ?n = "real (length xs)"
  define r where "r = \<lceil>q * ?n\<rceil>"
  have n: "0 < ?n" using assms(1) by simp
  have r: "1 \<le> r" "real_of_int r < q * ?n + 1" "q * ?n \<le> real_of_int r"
    using assms(2) n unfolding r_def by (simp_all add: ceiling_correct less_ceiling_iff le_of_int_ceiling) linarith+
  have "q * ?n \<le> ?n" using assms(3) n by (simp add: mult_left_le_one_le assms(2) less_imp_le)
  then have "r \<le> int (length xs)" unfolding r_def by (simp add: ceiling_le_iff)
  then have i: "nat (r - 1) < length (sort xs)" using r(1) by simp
  have q: "quantile (sort xs) q = sort xs ! nat (r - 1)" using r(1) by (simp add: quantile_def r_def max_def)
  have f: "length (filter P (sort xs)) = length (filter P xs)" for P by (metis mset_filter mset_sort size_mset)
  note b = sorted_filter_le [OF sorted_sort i, unfolded f]
  have "sort xs ! nat (r - 1) \<in> set xs" using nth_mem [OF i] by simp
  moreover have "real_of_int r \<le> real (length (filter (\<lambda>x. x \<le> sort xs ! nat (r - 1)) xs))" using b(1) r(1) by linarith
  moreover have "real (length (filter (\<lambda>x. x < sort xs ! nat (r - 1)) xs)) \<le> real_of_int r - 1" using b(2) r(1) by linarith
  ultimately show ?thesis unfolding q using r(2,3) by linarith
qed

theorem quantile_is_nearest_rank_witness:
  "quantile (sort [3, 1, 2]) (1 / 2) \<in> {1, 2, 3 :: real}"
  using quantile_is_nearest_rank [of "[3, 1, 2]" "1 / 2"] by auto


section \<open>The interface of a strategy\<close>

text \<open>
  What the loop may rely on: the flags of a strategy are what was stored last, and none of its
  operations changes them.
\<close>

locale runner_strategy =
  fixes ops :: "'s strategy_ops"
  assumes flags_set: "so_flags ops (so_set_flags ops f s) = f"
    and flags_candle: "keeps (\<lambda>s. so_flags ops s = f) (so_on_candle ops smb tf)"
    and flags_should_scan: "keeps (\<lambda>s. so_flags ops s = f) (so_should_scan ops kind smb tf')"
    and flags_scan: "keeps (\<lambda>s. so_flags ops s = f) (so_scan ops)"
begin

lemma flags_after_kline:
  assumes "dv_kind e = ''kline''" and "dv_symbol e \<noteq> ''''" and "dv_tf e \<noteq> ''''"
  shows "so_flags ops (snd (handle_strategy_event now c ops e s)) = refresh_flags now None c ops (so_flags ops s)"
proof -
  let ?f = "refresh_flags now None c ops (so_flags ops s)"
  have "keeps (\<lambda>s. so_flags ops s = ?f) (scan_if ops b)" for b
    unfolding scan_if_def by (simp add: keeps_then_do flags_scan)
  then have "keeps (\<lambda>s. so_flags ops s = ?f) (then_do (so_on_candle ops (dv_symbol e) (dv_tf e))
      (bind (so_should_scan ops (dv_kind e) (dv_symbol e) (Some (dv_tf e))) (scan_if ops)))"
    by (intro keeps_then_do keeps_bind flags_candle flags_should_scan)
  from keepsD [OF this, of "refresh_strategy_readiness now None c ops s"] assms show ?thesis
    by (simp add: handle_strategy_event_def refresh_strategy_readiness_def flags_set)
qed

end

lemma refresh_flags_ready:
  assumes "so_symbols ops \<noteq> []"
  shows "rf_ready (refresh_flags now max_age c ops f) \<longleftrightarrow>
    (\<forall>tf \<in> set (so_tfs ops). int (fst (coverage now (so_symbols ops) tf (so_bars ops tf) max_age c)) \<ge>
       max 1 \<lfloor>real (length (so_symbols ops)) * so_share ops + 0.999999\<rfloor>)"
proof -
  have "fst (fold (readiness_round now max_age c ops) tfs (b, f)) \<longleftrightarrow> b \<and>
      (\<forall>tf \<in> set tfs. int (fst (coverage now (so_symbols ops) tf (so_bars ops tf) max_age c)) \<ge>
       max 1 \<lfloor>real (length (so_symbols ops)) * so_share ops + 0.999999\<rfloor>)" for tfs b f
    by (induction tfs arbitrary: b f) (auto simp: readiness_round_def update_readiness_def Let_def split: prod.splits)
  note fold = this [of "so_tfs ops" True f]
  obtain r g where "fold (readiness_round now max_age c ops) (so_tfs ops) (True, f) = (r, g)" by fastforce
  with fold assms show ?thesis unfolding refresh_flags_def Let_def by simp
qed

lemma refresh_flags_frame: "refresh_flags now max_age c ops f = f\<lparr>rf_ready := rf_ready (refresh_flags now max_age c ops f)\<rparr>"
proof -
  have "\<exists>b. snd (fold (readiness_round now max_age c ops) tfs (r, f)) = f\<lparr>rf_ready := b\<rparr>" for tfs r
  proof (induction tfs rule: rev_induct)
    case Nil
    show ?case by (simp, rule exI [of _ "rf_ready f"]) simp
  next
    case (snoc tf tfs)
    then show ?case by (auto simp: readiness_round_def update_readiness_def Let_def split: prod.splits)
  qed
  then obtain b where "snd (fold (readiness_round now max_age c ops) (so_tfs ops) (True, f)) = f\<lparr>rf_ready := b\<rparr>" by blast
  moreover obtain r g where "fold (readiness_round now max_age c ops) (so_tfs ops) (True, f) = (r, g)" by fastforce
  ultimately show ?thesis unfolding refresh_flags_def Let_def by simp
qed

section \<open>The cross-sectional strategy in the loop\<close>

text \<open>Its state in the loop: its own, the flags of its context and the symbols that can be traded.\<close>

type_synonym xs_loop = "xs_state \<times> runtime_flags \<times> string list option"

definition own_state :: "(xs_state, 'a) eff \<Rightarrow> (xs_loop, 'a) eff" where
  "own_state m = (\<lambda>(s, x). case m s of (r, s') \<Rightarrow> (r, (s', x)))"

definition json_names :: "json list \<Rightarrow> string list" where
  "json_names js = List.map_filter (\<lambda>j. case j of JStr s \<Rightarrow> Some s | _ \<Rightarrow> None) js"

definition xs_ops :: "xs_cfg \<Rightarrow> xs_env \<Rightarrow> panel_view option \<Rightarrow> int \<Rightarrow> real \<Rightarrow> bool \<Rightarrow> xs_loop strategy_ops" where
  "xs_ops cfg env panel n share published =
     \<lparr>so_alpha = xc_alpha cfg, so_timeframe = Some (xc_timeframe cfg), so_symbols = xc_symbols cfg, so_tfs = [xc_timeframe cfg],
      so_bars = (\<lambda>tf. n), so_share = share, so_flags = (\<lambda>(s, f, tr). f), so_set_flags = (\<lambda>f (s, _, tr). (s, f, tr)),
      so_set_tradable = (\<lambda>names (s, f, _). (s, f, Some (json_names names))), so_on_candle = (\<lambda>smb tf. ret ()),
      so_should_scan = (\<lambda>kind smb tf. own_state (should_scan_after_event cfg (xe_cache env) kind smb
         (case tf of None \<Rightarrow> '''' | Some t \<Rightarrow> t))),
      so_scan = (\<lambda>(s, f, tr). own_state (scan cfg (env\<lparr>xe_flags := f, xe_tradable := tr\<rparr>) panel) (s, f, tr)),
      so_on_price_alert = (\<lambda>smb price side. own_state (on_price_alert cfg (xe_now env) published smb price))\<rparr>"

interpretation xsl: runner_strategy "xs_ops cfg env panel n share published"
  by unfold_locales (auto simp: xs_ops_def own_state_def keeps_def split: prod.splits)

text \<open>
  C17. Without data there is no trading.  When a kline comes and fewer of its symbols than required
  have the bars a cross-sectional strategy needs, the loop marks the strategy not ready; with no
  position open it then sends nothing and changes nothing but its warm-up mark, whatever it was
  before and whatever the panel holds.
\<close>

theorem unready_strategy_waits:
  assumes "dv_kind e = ''kline''" and "dv_symbol e \<noteq> ''''" and "dv_tf e \<noteq> ''''" and "xc_symbols cfg \<noteq> []" and "xs_open s = []"
    and "int (fst (coverage now (xc_symbols cfg) (xc_timeframe cfg) n None c)) < max 1 \<lfloor>real (length (xc_symbols cfg)) * share + 0.999999\<rfloor>"
  shows "\<exists>warm. snd (handle_strategy_event now c (xs_ops cfg env panel n share published) e (s, f, tr)) =
    (s\<lparr>xs_warm := warm\<rparr>, f\<lparr>rf_ready := False\<rparr>, tr)"
proof -
  let ?ops = "xs_ops cfg env panel n share published"
  let ?f = "refresh_flags now None c ?ops f"
  have ops: "so_symbols ?ops = xc_symbols cfg" "so_tfs ?ops = [xc_timeframe cfg]" "so_bars ?ops tf = n" "so_share ?ops = share" for tf
    by (simp_all add: xs_ops_def)
  have "\<not> rf_ready ?f" using refresh_flags_ready [of ?ops now None c f] assms(4,6) unfolding ops by (metis list.set_intros(1) not_le)
  then have f: "?f = f\<lparr>rf_ready := False\<rparr>" using refresh_flags_frame [of now None c ?ops f] by simp
  have should: "\<exists>r warm. should_scan_after_event cfg (xe_cache env) kind smb tf s = (r, s\<lparr>xs_warm := warm\<rparr>)" for kind smb tf
  proof -
    have "keeps (\<lambda>t. \<exists>warm. t = s\<lparr>xs_warm := warm\<rparr>) (should_scan_after_event cfg (xe_cache env) kind smb tf)"
      unfolding should_scan_after_event_def Let_def
      by (intro keeps_bind keeps_then_do keeps_modify allI conjI impI
          | simp | (auto split: option.split intro!: keeps_bind keeps_then_do keeps_modify))+
    moreover have "\<exists>warm. s = s\<lparr>xs_warm := warm\<rparr>" by (rule exI [of _ "xs_warm s"]) simp
    ultimately show ?thesis unfolding keeps_def by (metis prod.collapse)
  qed
  have scan: "scan cfg (env\<lparr>xe_flags := f\<lparr>rf_ready := False\<rparr>, xe_tradable := tr\<rparr>) panel (s\<lparr>xs_warm := warm\<rparr>) = (Inr (), s\<lparr>xs_warm := warm\<rparr>)" for warm
    using assms(5) by (simp add: scan_def ret_def)
  obtain r warm where s: "should_scan_after_event cfg (xe_cache env) (dv_kind e) (dv_symbol e) (dv_tf e) s = (r, s\<lparr>xs_warm := warm\<rparr>)"
    using should by blast
  have "handle_strategy_event now c ?ops e (s, f, tr) =
      bind (so_should_scan ?ops (dv_kind e) (dv_symbol e) (Some (dv_tf e))) (scan_if ?ops) (s, f\<lparr>rf_ready := False\<rparr>, tr)"
    using assms(1-3) f by (simp add: handle_strategy_event_def refresh_strategy_readiness_def then_do_apply ret_def)
      (simp add: xs_ops_def ret_def)
  moreover have "so_should_scan ?ops (dv_kind e) (dv_symbol e) (Some (dv_tf e)) (s, f\<lparr>rf_ready := False\<rparr>, tr) =
      (r, s\<lparr>xs_warm := warm\<rparr>, f\<lparr>rf_ready := False\<rparr>, tr)"
    using s by (simp add: xs_ops_def own_state_def)
  moreover have "snd (scan_if ?ops b (s\<lparr>xs_warm := warm\<rparr>, f\<lparr>rf_ready := False\<rparr>, tr)) = (s\<lparr>xs_warm := warm\<rparr>, f\<lparr>rf_ready := False\<rparr>, tr)" for b
    using scan by (simp add: scan_if_def then_do_apply ret_def) (simp add: xs_ops_def own_state_def)
  ultimately show ?thesis by (cases r) (auto simp: bind_def)
qed


definition demo_kline :: data_event where
  "demo_kline = \<lparr>dv_channel = ''kline:binance:1d'', dv_kind = ''kline'', dv_symbol = ''a'', dv_tf = ''1d'', dv_payload = [],
     dv_received = 0\<rparr>"

theorem unready_strategy_waits_witness:
  "\<exists>warm. snd (handle_strategy_event 0 (new_cache 0) (xs_ops (demo_xs True) (demo_xs_env None) (Some demo_scan) 5 (9 / 10) True)
      demo_kline (demo_marked\<lparr>xs_open := []\<rparr>, xe_flags (demo_xs_env None), None)) =
    (demo_marked\<lparr>xs_open := []\<rparr>\<lparr>xs_warm := warm\<rparr>, (xe_flags (demo_xs_env None))\<lparr>rf_ready := False\<rparr>, None)"
proof (rule unready_strategy_waits)
  show "int (fst (coverage 0 (xc_symbols (demo_xs True)) (xc_timeframe (demo_xs True)) 5 None (new_cache 0))) <
      max 1 \<lfloor>real (length (xc_symbols (demo_xs True))) * (9 / 10) + 0.999999\<rfloor>"
    by (simp add: coverage_def demo_xs_def has_required_bars_def get_bar_count_def new_cache_def)
qed (simp_all add: demo_kline_def demo_xs_def)

end
