(* ===== verification/ConfigSync.thy ===== *)
theory ConfigSync
  imports Claims RunnerLoop
begin

text \<open>
  The stored configurations of the alphas: \<^verbatim>\<open>alphas/runner/config_sync.py\<close> writes and reads them,
  \<^verbatim>\<open>alphas/runner/config_listener.py\<close> acts when they have changed, and the two closures of
  \<^verbatim>\<open>alphas/runner/main.py\<close> stop and start strategies.

  The store is a dictionary of texts.  What the registry makes of a strategy's name, and whether a
  call to the hub's Redis succeeds, are arguments.  \<open>\d\<close> stands for the ASCII digits.
\<close>

section \<open>Writing\<close>

definition config_prefix :: string where
  "config_prefix = ''runner:alpha:config:''"

definition config_key :: "string \<Rightarrow> string" where
  "config_key alpha = config_prefix @ alpha"

type_synonym config_store = "(string, jtext) dict"

text \<open>\<open>re.search\<close> for digits and a unit: the first run of digits that a unit follows.\<close>

fun find_tf :: "string \<Rightarrow> string option" where
  "find_tf [] = None"
| "find_tf (c # cs) =
     (let run = takeWhile is_digit (c # cs); rest = dropWhile is_digit (c # cs)
      in if run \<noteq> [] \<and> rest \<noteq> [] \<and> hd rest \<in> set ''mhd'' then Some (run @ [hd rest]) else find_tf cs)"

definition derive_tf_set :: "string list \<Rightarrow> string list" where
  "derive_tf_set channels = sort (remdups (List.map_filter find_tf channels))"

record yaml_alpha =
  ya_id :: string
  ya_strategy :: string
  ya_version :: string
  ya_enabled :: bool
  ya_params :: json

text \<open>\<open>registry.get_class\<close>, with the \<open>get_required_channels\<close> of the class.\<close>

type_synonym registry = "string \<Rightarrow> (json \<Rightarrow> string list res) res"

definition channels_of :: "registry \<Rightarrow> yaml_alpha \<Rightarrow> string list option" where
  "channels_of reg a = (case res_bind (reg (ya_strategy a)) (\<lambda>f. f (ya_params a)) of
       Inl e \<Rightarrow> None | Inr chs \<Rightarrow> Some chs)"

definition config_blob :: "yaml_alpha \<Rightarrow> string list \<Rightarrow> obj" where
  "config_blob a chs =
     [(''alpha_id'', JStr (ya_id a)), (''strategy'', JStr (ya_strategy a)), (''version'', JStr (ya_version a)),
      (''enabled'', JBool (ya_enabled a)), (''params'', ya_params a), (''required_channels'', JArr (map JStr chs)),
      (''tf_set'', JArr (map JStr (derive_tf_set chs)))]"

text \<open>The store, the keys that are in use, and how many were written.\<close>

definition sync_one :: "registry \<Rightarrow> yaml_alpha \<Rightarrow> config_store \<times> string list \<times> nat \<Rightarrow> config_store \<times> string list \<times> nat" where
  "sync_one reg a = (\<lambda>(store, active, written).
     if \<not> ya_enabled a then (ddel (config_key (ya_id a)) store, active, written)
     else case channels_of reg a of
         None \<Rightarrow> (store, active, written)
       | Some chs \<Rightarrow> (dset (config_key (ya_id a)) (jdumps (JObj (config_blob a chs))) store, config_key (ya_id a) # active, written + 1))"

definition prune_store :: "string list \<Rightarrow> config_store \<Rightarrow> config_store" where
  "prune_store active store = filter (\<lambda>(k, t). \<not> prefix config_prefix k \<or> k \<in> set active) store"

definition sync_config_to_redis :: "registry \<Rightarrow> yaml_alpha list \<Rightarrow> bool \<Rightarrow> config_store \<Rightarrow> config_store \<times> nat" where
  "sync_config_to_redis reg yaml prune store =
     (let (store, active, written) = fold (sync_one reg) yaml (store, [], 0)
      in (if prune then prune_store active store else store, written))"

section \<open>Reading\<close>

definition readable_config :: "jtext \<Rightarrow> obj list" where
  "readable_config t = (case jloads t of
       Inr (JObj d) \<Rightarrow> (if json_truthy (dget d ''enabled'' (JBool True)) then [d] else [])
     | _ \<Rightarrow> [])"

definition read_alpha_configs :: "config_store \<Rightarrow> obj list" where
  "read_alpha_configs store = concat (map (\<lambda>(k, t). if prefix config_prefix k then readable_config t else []) store)"

section \<open>Changes\<close>

fun find_newly_disabled :: "config_store \<Rightarrow> string list \<Rightarrow> string list res" where
  "find_newly_disabled store [] = Inr []"
| "find_newly_disabled store (a # as) = (case map_of store (config_key a) of
       None \<Rightarrow> res_bind (find_newly_disabled store as) (\<lambda>ds. Inr (a # ds))
     | Some t \<Rightarrow> res_bind (jloads t) (\<lambda>j. case j of
           JObj d \<Rightarrow> res_bind (find_newly_disabled store as) (\<lambda>ds.
             Inr (if json_truthy (dget d ''enabled'' (JBool True)) then ds else a # ds))
         | _ \<Rightarrow> Inl AttributeError))"

definition config_tf_set :: "obj \<Rightarrow> string list option res" where
  "config_tf_set d = (case map_of d ''tf_set'' of
       None \<Rightarrow> Inr None
     | Some (JArr xs) \<Rightarrow> Inr (Some (map jstr xs))
     | Some _ \<Rightarrow> Inl TypeError)"

definition config_of :: "obj \<Rightarrow> alpha_config res" where
  "config_of d = (case map_of d ''alpha_id'' of
       None \<Rightarrow> Inl (KeyError ''alpha_id'')
     | Some j \<Rightarrow> res_bind (config_tf_set d) (\<lambda>tfs.
         Inr \<lparr>cf_alpha_id = jstr j, cf_tf_set = tfs, cf_enabled = True\<rparr>))"

fun find_newly_enabled :: "'s redis \<Rightarrow> string list \<Rightarrow> string list option \<Rightarrow> obj list \<Rightarrow> ('s world, alpha_config list) eff" where
  "find_newly_enabled ops owned allowed [] = ret []"
| "find_newly_enabled ops owned allowed (d # ds) =
     bind (lift_res (config_of d)) (\<lambda>cfg.
     if allowed \<noteq> None \<and> cf_alpha_id cfg \<notin> set (the allowed) \<or> cf_alpha_id cfg \<in> set owned
     then find_newly_enabled ops owned allowed ds
     else bind (send_get ops (lease_key (cf_alpha_id cfg))) (\<lambda>owner.
          bind (find_newly_enabled ops owned allowed ds) (\<lambda>cs. ret (if owner = None then cfg # cs else cs))))"

section \<open>Stopping and starting strategies\<close>

record 's runner =
  rn_world :: "'s world"
  rn_hub :: hub
  rn_owned :: "string list"
  rn_strategies :: "string list"
  rn_started :: "string list"
  rn_metrics :: runner_metrics

definition on_world :: "('s world, 'a) eff \<Rightarrow> ('s runner, 'a) eff" where
  "on_world m = (\<lambda>r. case m (rn_world r) of (x, w) \<Rightarrow> (x, r\<lparr>rn_world := w\<rparr>))"

definition on_hub :: "(hub, 'a) eff \<Rightarrow> ('s runner, 'a) eff" where
  "on_hub m = (\<lambda>r. case m (rn_hub r) of (x, h) \<Rightarrow> (x, r\<lparr>rn_hub := h\<rparr>))"

definition disable_alpha :: "'s redis \<Rightarrow> lease_manager \<Rightarrow> (string \<Rightarrow> bool) \<Rightarrow> string \<Rightarrow> ('s runner, unit) eff" where
  "disable_alpha ops lm ok alpha =
     then_do (on_world (lease_release ops lm alpha))
     (then_do (modify (\<lambda>r. r\<lparr>rn_owned := remove1 alpha (rn_owned r)\<rparr>))
     (bind get_state (\<lambda>r.
      if alpha \<notin> set (rn_strategies r) then ret ()
      else then_do (modify (\<lambda>r. r\<lparr>rn_strategies := remove1 alpha (rn_strategies r)\<rparr>))
        (on_hub (hub_unsubscribe_strategy ok alpha)))))"

definition on_disabled :: "'s redis \<Rightarrow> lease_manager \<Rightarrow> (string \<Rightarrow> bool) \<Rightarrow> string list \<Rightarrow> ('s runner, unit) eff" where
  "on_disabled ops lm ok ids = for_each (disable_alpha ops lm ok) ids"

text \<open>
  \<open>registry.create\<close> and the channels of the new strategy.  What the start does to the state of the
  strategy itself, the first look at its readiness, is not part of this state.
\<close>

definition start_alpha :: "(alpha_config \<Rightarrow> string list res) \<Rightarrow> (string \<Rightarrow> bool) \<Rightarrow> alpha_config \<Rightarrow> ('s runner, unit) eff" where
  "start_alpha create ok cfg =
     bind (lift_res (create cfg)) (\<lambda>chs.
     let a = cf_alpha_id cfg
     in then_do (modify (\<lambda>r. r\<lparr>rn_strategies := rn_strategies r @ [a], rn_started := rn_started r @ [a], rn_owned := rn_owned r @ [a],
           rn_metrics := reset_alpha_event a (rn_metrics r)\<rparr>))
        (on_hub (for_each (\<lambda>ch. hub_subscribe (ok ch) ch a) chs)))"

definition on_new_alphas :: "(alpha_config \<Rightarrow> string list res) \<Rightarrow> (string \<Rightarrow> bool) \<Rightarrow> alpha_config list \<Rightarrow> ('s runner, unit) eff" where
  "on_new_alphas create ok cfgs =
     bind get_state (\<lambda>r. for_each (start_alpha create ok) (filter (\<lambda>cfg. cf_alpha_id cfg \<notin> set (rn_owned r)) cfgs))"

section \<open>A message of the channel of updates\<close>

record update_cfg =
  ud_lease :: lease_manager
  ud_max :: int
  ud_ttl :: int
  ud_allowed :: "string list option"

definition config_update ::
  "'s redis \<Rightarrow> update_cfg \<Rightarrow> (alpha_config \<Rightarrow> string list res) \<Rightarrow> (string \<Rightarrow> bool) \<Rightarrow> config_store \<Rightarrow> ('s runner, unit) eff" where
  "config_update ops u create ok store =
     catch
       (bind get_state (\<lambda>r.
        let owned = rn_owned r
        in bind (lift_res (find_newly_disabled store owned)) (\<lambda>disabled.
           then_do (on_disabled ops (ud_lease u) ok disabled)
           (bind (on_world (find_newly_enabled ops owned (ud_allowed u) (read_alpha_configs store))) (\<lambda>enabled.
            if enabled = [] then ret ()
            else bind (on_world (claim_alpha_groups ops (lm_runner (ud_lease u)) enabled (ud_max u) (ud_ttl u) (int (length owned))))
              (\<lambda>claimed. if claimed = [] then ret () else on_new_alphas create ok claimed))))))
       (\<lambda>e. ret ())"

end
