(* ===== verification/ConfigProperties.thy ===== *)
theory ConfigProperties
  imports ConfigSync PubSubProperties
begin

text \<open>
  What is written of the configurations is what is read, and an alpha that is disabled leaves the runner.
\<close>

section \<open>Writing and reading\<close>

definition known_enabled :: "registry \<Rightarrow> yaml_alpha \<Rightarrow> bool" where
  "known_enabled reg a \<longleftrightarrow> ya_enabled a \<and> channels_of reg a \<noteq> None"

definition blob_of :: "registry \<Rightarrow> yaml_alpha \<Rightarrow> obj" where
  "blob_of reg a = config_blob a (the (channels_of reg a))"

lemma config_key_inj [simp]: "config_key a = config_key b \<longleftrightarrow> a = b"
  by (simp add: config_key_def)

lemma prefix_config_key [simp]: "prefix config_prefix (config_key a)"
  by (simp add: config_key_def)

lemma sync_one_cases:
  "sync_one reg a (store, active, n) =
    (if \<not> ya_enabled a then (ddel (config_key (ya_id a)) store, active, n)
     else if known_enabled reg a then (dset (config_key (ya_id a)) (jdumps (JObj (blob_of reg a))) store, config_key (ya_id a) # active, n + 1)
     else (store, active, n))"
  by (auto simp: sync_one_def known_enabled_def blob_of_def split: option.splits)

lemma sync_one_frame:
  assumes "sync_one reg a (store, active, n) = (store', active', n')"
  shows "dict_ok store \<Longrightarrow> dict_ok store'" "k \<noteq> config_key (ya_id a) \<Longrightarrow> map_of store' k = map_of store k"
    "set active' = (if known_enabled reg a then {config_key (ya_id a)} else {}) \<union> set active" "n' = n + (if known_enabled reg a then 1 else 0)"
    "known_enabled reg a \<Longrightarrow> map_of store' (config_key (ya_id a)) = Some (jdumps (JObj (blob_of reg a)))"
  using assms unfolding sync_one_cases by (auto simp: known_enabled_def split: if_splits)

lemma fold_frame:
  assumes "fold (sync_one reg) as (store, active, n) = (store', active', n')" and "k \<notin> config_key ` ya_id ` set as"
  shows "map_of store' k = map_of store k"
  using assms
proof (induction as arbitrary: store active n)
  case (Cons b bs)
  obtain s1 a1 n1 where 1: "sync_one reg b (store, active, n) = (s1, a1, n1)" using prod_cases3 by blast
  with Cons.prems have "fold (sync_one reg) bs (s1, a1, n1) = (store', active', n')" by simp
  from Cons.IH [OF this] Cons.prems(2) sync_one_frame(2) [OF 1] show ?case by simp
qed simp

lemma fold_sync:
  assumes "fold (sync_one reg) as (store, active, n) = (store', active', n')"
  shows "dict_ok store \<Longrightarrow> dict_ok store'"
    "set active' = config_key ` ya_id ` {a \<in> set as. known_enabled reg a} \<union> set active"
    "n' = n + length (filter (known_enabled reg) as)"
    "distinct (map ya_id as) \<Longrightarrow> a \<in> set as \<Longrightarrow> known_enabled reg a \<Longrightarrow>
      map_of store' (config_key (ya_id a)) = Some (jdumps (JObj (blob_of reg a)))"
proof -
  have "(dict_ok store \<longrightarrow> dict_ok store') \<and>
      set active' = config_key ` ya_id ` {a \<in> set as. known_enabled reg a} \<union> set active \<and> n' = n + length (filter (known_enabled reg) as) \<and>
      (distinct (map ya_id as) \<longrightarrow> a \<in> set as \<longrightarrow> known_enabled reg a \<longrightarrow> map_of store' (config_key (ya_id a)) = Some (jdumps (JObj (blob_of reg a))))"
    using assms
  proof (induction as arbitrary: store active n)
    case (Cons b bs)
    obtain s1 a1 n1 where 1: "sync_one reg b (store, active, n) = (s1, a1, n1)" using prod_cases3 by blast
    note f = sync_one_frame [OF 1]
    have 2: "fold (sync_one reg) bs (s1, a1, n1) = (store', active', n')" using Cons.prems 1 by simp
    note IH = Cons.IH [OF 2]
    show ?case
    proof (intro conjI impI)
      show "dict_ok store \<Longrightarrow> dict_ok store'" using f(1) IH by blast
      show "set active' = config_key ` ya_id ` {a \<in> set (b # bs). known_enabled reg a} \<union> set active" using f(3) IH by auto
      show "n' = n + length (filter (known_enabled reg) (b # bs))" using f(4) IH by simp
      assume d: "distinct (map ya_id (b # bs))" "a \<in> set (b # bs)" "known_enabled reg a"
      show "map_of store' (config_key (ya_id a)) = Some (jdumps (JObj (blob_of reg a)))"
      proof (cases "a \<in> set bs")
        case True
        with d IH show ?thesis by simp
      next
        case False
        with d have "a = b" "config_key (ya_id a) \<notin> config_key ` ya_id ` set bs" by auto
        have "map_of store' (config_key (ya_id a)) = map_of s1 (config_key (ya_id a))"
          by (rule fold_frame [OF 2]) fact
        with f(5) d(3) \<open>a = b\<close> show ?thesis by simp
      qed
    qed
  qed simp
  then show "dict_ok store \<Longrightarrow> dict_ok store'"
    "set active' = config_key ` ya_id ` {a \<in> set as. known_enabled reg a} \<union> set active"
    "n' = n + length (filter (known_enabled reg) as)"
    "distinct (map ya_id as) \<Longrightarrow> a \<in> set as \<Longrightarrow> known_enabled reg a \<Longrightarrow>
      map_of store' (config_key (ya_id a)) = Some (jdumps (JObj (blob_of reg a)))" by blast+
qed


lemma readable_blob: "ya_enabled a \<Longrightarrow> readable_config (jdumps (JObj (config_blob a chs))) = [config_blob a chs]"
  by (simp add: readable_config_def config_blob_def dget_def)

text \<open>
  C18. What is written is what the runners read.  After \<open>sync_config_to_redis\<close> with pruning, over
  any store, the configurations that a runner reads are those of the enabled alphas whose
  strategy is known, each as it was written; all others are gone, and no other key is touched.
\<close>

theorem stored_configs_are_read:
  assumes "distinct (map ya_id as)" and "dict_ok store" and "sync_config_to_redis reg as True store = (store', n)"
  shows "set (read_alpha_configs store') = blob_of reg ` {a \<in> set as. known_enabled reg a} \<and> n = length (filter (known_enabled reg) as) \<and>
    (\<forall>k. \<not> prefix config_prefix k \<longrightarrow> map_of store' k = map_of store k)"
proof -
  obtain st act m where f: "fold (sync_one reg) as (store, [], 0) = (st, act, m)" using prod_cases3 by blast
  note F = fold_sync [OF f]
  have s': "store' = prune_store act st" "n = m" using assms(3) f by (simp_all add: sync_config_to_redis_def)
  have act: "set act = config_key ` ya_id ` {a \<in> set as. known_enabled reg a}" using F(2) by simp
  have ok: "dict_ok st" using F(1) assms(2) .
  have at: "map_of st (config_key (ya_id a)) = Some (jdumps (JObj (blob_of reg a)))" if "a \<in> set as" "known_enabled reg a" for a
    using F(4) [OF assms(1) that] .
  have "set (read_alpha_configs store') = blob_of reg ` {a \<in> set as. known_enabled reg a}"
  proof (rule set_eqI, rule iffI)
    fix d assume "d \<in> set (read_alpha_configs store')"
    then obtain k t where k: "(k, t) \<in> set st" "prefix config_prefix k" "k \<in> set act" "d \<in> set (readable_config t)"
      by (auto simp: read_alpha_configs_def s' prune_store_def split: if_splits)
    then obtain a where a: "a \<in> set as" "known_enabled reg a" "k = config_key (ya_id a)" unfolding act by auto
    have "t = jdumps (JObj (blob_of reg a))" using map_of_is_SomeI [OF ok k(1)] at [OF a(1,2)] a(3) by simp
    then have "d = blob_of reg a" using k(4) readable_blob [of a "the (channels_of reg a)"] a(2) by (simp add: blob_of_def known_enabled_def)
    with a show "d \<in> blob_of reg ` {a \<in> set as. known_enabled reg a}" by blast
  next
    fix d assume "d \<in> blob_of reg ` {a \<in> set as. known_enabled reg a}"
    then obtain a where a: "a \<in> set as" "known_enabled reg a" "d = blob_of reg a" by auto
    have "config_key (ya_id a) \<in> set act" unfolding act using a(1,2) by blast
    then have m: "(config_key (ya_id a), jdumps (JObj (blob_of reg a))) \<in> set store'"
      using map_of_SomeD [OF at [OF a(1,2)]] by (simp add: s' prune_store_def)
    have "d \<in> set (readable_config (jdumps (JObj (blob_of reg a))))"
      using readable_blob [of a "the (channels_of reg a)"] a(2,3) by (simp add: blob_of_def known_enabled_def)
    then show "d \<in> set (read_alpha_configs store')"
      unfolding read_alpha_configs_def set_concat set_map by (intro UN_I [OF imageI [OF m]]) simp
  qed
  moreover have "map_of store' k = map_of store k" if k: "\<not> prefix config_prefix k" for k
  proof -
    have "map_of (prune_store act st) k = map_of st k"
      using k unfolding prune_store_def by (induction st) auto
    moreover have "k \<notin> config_key ` ya_id ` set as" using k by auto
    ultimately show ?thesis using fold_frame [OF f] s' by simp
  qed
  ultimately show ?thesis using F(3) s' by simp
qed

theorem stored_configs_are_read_witness:
  "let as = [\<lparr>ya_id = ''a'', ya_strategy = ''s'', ya_version = ''1'', ya_enabled = True, ya_params = JNull\<rparr>,
             \<lparr>ya_id = ''b'', ya_strategy = ''s'', ya_version = ''1'', ya_enabled = False, ya_params = JNull\<rparr>];
       reg = (\<lambda>s. Inr (\<lambda>p. Inr [''kline:1d'']))
   in set (read_alpha_configs (fst (sync_config_to_redis reg as True [(config_key ''old'', jdumps (JObj []))]))) =
      {config_blob (hd as) [''kline:1d'']}"
proof -
  let ?a = "\<lparr>ya_id = ''a'', ya_strategy = ''s'', ya_version = ''1'', ya_enabled = True, ya_params = JNull\<rparr>"
  let ?b = "\<lparr>ya_id = ''b'', ya_strategy = ''s'', ya_version = ''1'', ya_enabled = False, ya_params = JNull\<rparr>"
  let ?reg = "\<lambda>s. Inr (\<lambda>p. Inr [''kline:1d''])"
  from stored_configs_are_read [of "[?a, ?b]" "[(config_key ''old'', jdumps (JObj []))]" ?reg,
      OF _ _ prod.collapse [symmetric]]
  have "set (read_alpha_configs (fst (sync_config_to_redis ?reg [?a, ?b] True [(config_key ''old'', jdumps (JObj []))]))) =
      blob_of ?reg ` {a \<in> set [?a, ?b]. known_enabled ?reg a}" by simp
  moreover have "{a \<in> set [?a, ?b]. known_enabled ?reg a} = {?a}" by (auto simp: known_enabled_def channels_of_def)
  ultimately show ?thesis by (simp add: blob_of_def channels_of_def)
qed


section \<open>An alpha that is disabled\<close>

lemma unsubscribe_chans:
  "dget (hb_chans (snd (hub_unsubscribe True ch sid h))) s [] =
    (if s = sid then removeAll ch (dget (hb_chans h) s []) else dget (hb_chans h) s [])"
  "fst (hub_unsubscribe True ch sid h) = Inr ()"
  by (simp_all add: hub_unsubscribe_def remote_unsubscribe_def drop_empty_strategy_def then_do_apply modify_def ret_def)

lemma unsubscribe_each:
  "\<exists>h'. for_each (\<lambda>ch. hub_unsubscribe True ch sid) chs h = (Inr (), h') \<and>
    (\<forall>s. dget (hb_chans h') s [] = (if s = sid then filter (\<lambda>ch. ch \<notin> set chs) (dget (hb_chans h) s []) else dget (hb_chans h) s []))"
proof (induction chs arbitrary: h)
  case Nil
  then show ?case by (simp add: ret_def)
next
  case (Cons ch chs)
  let ?g = "snd (hub_unsubscribe True ch sid h)"
  obtain h' where h': "for_each (\<lambda>ch. hub_unsubscribe True ch sid) chs ?g = (Inr (), h')"
    "\<forall>s. dget (hb_chans h') s [] = (if s = sid then filter (\<lambda>ch. ch \<notin> set chs) (dget (hb_chans ?g) s []) else dget (hb_chans ?g) s [])"
    using Cons.IH by blast
  have "hub_unsubscribe True ch sid h = (Inr (), ?g)" using unsubscribe_chans(2) by (metis prod.collapse)
  then have "for_each (\<lambda>ch. hub_unsubscribe True ch sid) (ch # chs) h = (Inr (), h')"
    using h'(1) by (simp add: then_do_def bind_Inr)
  moreover have "filter (\<lambda>x. x \<notin> set chs) (removeAll ch xs) = filter (\<lambda>x. x \<notin> set (ch # chs)) xs" for xs
    by (induction xs) auto
  ultimately show ?case using h'(2) unsubscribe_chans(1) [of ch sid h] by (intro exI [of _ h']) auto
qed

lemma unsubscribe_all_chans:
  "\<exists>h'. hub_unsubscribe_strategy (\<lambda>ch. True) sid h = (Inr (), h') \<and>
    (\<forall>s. dget (hb_chans h') s [] = (if s = sid then [] else dget (hb_chans h) s []))"
  using unsubscribe_each [of sid "dget (hb_chans h) sid []" h] unfolding hub_unsubscribe_strategy_def by auto

text \<open>The two books of the hub agree, no subscription but of a strategy of the runner, and nothing twice.\<close>

definition runner_ok :: "'s runner \<Rightarrow> bool" where
  "runner_ok r \<longleftrightarrow> hub_ok (rn_hub r) \<and> distinct (rn_owned r) \<and> distinct (rn_strategies r) \<and>
     (\<forall>sid. dget (hb_chans (rn_hub r)) sid [] \<noteq> [] \<longrightarrow> sid \<in> set (rn_strategies r))"

lemma disable_one:
  assumes "disable_alpha ops lm (\<lambda>ch. True) a r = (Inr (), r')" and "runner_ok r"
  shows "runner_ok r' \<and> rn_owned r' = filter (\<lambda>b. b \<noteq> a) (rn_owned r) \<and> rn_strategies r' = filter (\<lambda>b. b \<noteq> a) (rn_strategies r) \<and>
    (\<forall>b. dget (hb_chans (rn_hub r')) b [] = (if b = a then [] else dget (hb_chans (rn_hub r)) b []))"
proof -
  obtain x w where rel: "lease_release ops lm a (rn_world r) = (Inr x, w)"
    using assms(1) by (auto simp: disable_alpha_def on_world_def then_do_apply split: prod.splits sum.splits)
  let ?r1 = "r\<lparr>rn_world := w, rn_owned := remove1 a (rn_owned r)\<rparr>"
  obtain h' where h': "hub_unsubscribe_strategy (\<lambda>ch. True) a (rn_hub r) = (Inr (), h')"
    "\<forall>s. dget (hb_chans h') s [] = (if s = a then [] else dget (hb_chans (rn_hub r)) s [])"
    using unsubscribe_all_chans by blast
  have hub: "hub_ok h'"
    using hub_step_ok [of "rn_hub r" "LeaveAll (\<lambda>ch. True) a"] h'(1) assms(2) by (simp add: runner_ok_def)
  have d: "distinct (rn_owned r)" "distinct (rn_strategies r)" using assms(2) by (simp_all add: runner_ok_def)
  have rm: "remove1 a xs = filter (\<lambda>b. b \<noteq> a) xs" if "distinct xs" for xs :: "string list"
    using that by (simp add: distinct_remove1_removeAll removeAll_filter_not_eq) (metis (mono_tags))
  show ?thesis
  proof (cases "a \<in> set (rn_strategies r)")
    case True
    then have "r' = ?r1\<lparr>rn_strategies := remove1 a (rn_strategies r), rn_hub := h'\<rparr>"
      using assms(1) rel h'(1) by (simp add: disable_alpha_def on_world_def on_hub_def then_do_apply)
    with h'(2) hub d assms(2) rm show ?thesis by (auto simp: runner_ok_def)
  next
    case False
    then have "r' = ?r1" using assms(1) rel by (simp add: disable_alpha_def on_world_def then_do_apply ret_def)
    moreover have "filter (\<lambda>b. b \<noteq> a) (rn_strategies r) = rn_strategies r" using False by (auto simp: filter_id_conv)
    moreover have "dget (hb_chans (rn_hub r)) a [] = []" using False assms(2) by (auto simp: runner_ok_def)
    ultimately show ?thesis using d assms(2) rm by (auto simp: runner_ok_def)
  qed
qed

lemma disabled_all:
  assumes "on_disabled ops lm (\<lambda>ch. True) ids r = (Inr (), r')" and "runner_ok r"
  shows "runner_ok r' \<and> rn_owned r' = filter (\<lambda>b. b \<notin> set ids) (rn_owned r) \<and>
    rn_strategies r' = filter (\<lambda>b. b \<notin> set ids) (rn_strategies r) \<and>
    (\<forall>b. dget (hb_chans (rn_hub r')) b [] = (if b \<in> set ids then [] else dget (hb_chans (rn_hub r)) b []))"
  using assms
proof (induction ids arbitrary: r)
  case Nil
  then show ?case by (simp add: on_disabled_def ret_def)
next
  case (Cons a ids)
  then obtain r1 where 1: "disable_alpha ops lm (\<lambda>ch. True) a r = (Inr (), r1)" "on_disabled ops lm (\<lambda>ch. True) ids r1 = (Inr (), r')"
    by (auto simp: on_disabled_def then_do_apply split: prod.splits sum.splits)
  note d = disable_one [OF 1(1) Cons.prems(2)]
  from d have "runner_ok r1" by blast
  from Cons.IH [OF 1(2) this] d show ?case by (auto intro: filter_cong)
qed

lemma newly_disabled:
  assumes "\<And>a. a \<in> set owned \<Longrightarrow> map_of store (config_key a) = None \<or>
      (\<exists>d. map_of store (config_key a) = Some (jdumps (JObj d)) \<and> json_truthy (dget d ''enabled'' (JBool True)))"
  shows "find_newly_disabled store owned = Inr (filter (\<lambda>a. map_of store (config_key a) = None) owned)"
  using assms
proof (induction owned)
  case (Cons a owned)
  have "find_newly_disabled store owned = Inr (filter (\<lambda>a. map_of store (config_key a) = None) owned)"
    by (rule Cons.IH) (rule Cons.prems, simp)
  with Cons.prems [of a] show ?case by auto
qed simp

lemma synced_store:
  assumes "distinct (map ya_id as)" and "dict_ok store" and "store' = fst (sync_config_to_redis reg as True store)"
  shows "map_of store' (config_key b) = None \<longleftrightarrow> \<not> (\<exists>a \<in> set as. known_enabled reg a \<and> ya_id a = b)"
    "a \<in> set as \<Longrightarrow> known_enabled reg a \<Longrightarrow> map_of store' (config_key (ya_id a)) = Some (jdumps (JObj (blob_of reg a)))"
proof -
  obtain st act m where f: "fold (sync_one reg) as (store, [], 0) = (st, act, m)" using prod_cases3 by blast
  note F = fold_sync [OF f]
  have s': "store' = prune_store act st" using assms(3) f by (simp add: sync_config_to_redis_def)
  have p: "map_of store' (config_key b) = (if config_key b \<in> set act then map_of st (config_key b) else None)" for b
    unfolding s' prune_store_def by (induction st) auto
  have act: "config_key b \<in> set act \<longleftrightarrow> (\<exists>a \<in> set as. known_enabled reg a \<and> ya_id a = b)" for b using F(2) by auto
  show w: "map_of store' (config_key (ya_id a)) = Some (jdumps (JObj (blob_of reg a)))" if "a \<in> set as" "known_enabled reg a" for a
    using p [of "ya_id a"] act [of "ya_id a"] F(4) [OF assms(1) that] that by auto
  show "map_of store' (config_key b) = None \<longleftrightarrow> \<not> (\<exists>a \<in> set as. known_enabled reg a \<and> ya_id a = b)"
  proof (cases "\<exists>a \<in> set as. known_enabled reg a \<and> ya_id a = b")
    case True
    then obtain a where "a \<in> set as" "known_enabled reg a" "ya_id a = b" by blast
    with w [of a] True show ?thesis by simp
  next
    case False
    with p [of b] act [of b] show ?thesis by simp
  qed
qed



definition ex_yaml :: "yaml_alpha list" where
  "ex_yaml = [\<lparr>ya_id = ''a'', ya_strategy = ''s'', ya_version = ''1'', ya_enabled = True, ya_params = JNull\<rparr>]"

definition ex_registry :: registry where
  "ex_registry = (\<lambda>s. Inr (\<lambda>p. Inr [''kline:1d'']))"

definition ex_runner :: "memory runner" where
  "ex_runner = \<lparr>rn_world = \<lparr>wd_store = (\<lambda>k. None), wd_now = 0, wd_meetings = []\<rparr>,
     rn_hub = fold hub_step [Ask True ''kline:x:1d'' ''a'', Ask True ''kline:x:1h'' ''b''] (new_hub 5 ex_warmup),
     rn_owned = [''a'', ''b''], rn_strategies = [''a'', ''b''], rn_started = [''a'', ''b''],
     rn_metrics = new_runner_metrics\<rparr>"


end
