(* ===== verification/EquitySnapshots.thy ===== *)
theory EquitySnapshots
  imports Database PriceCaches "HOL-Library.List_Lexorder" "HOL-Library.Char_ord"
begin

text \<open>
  \<^verbatim>\<open>worker/app/equity_snapshots.py\<close>: every minute the worker marks all open positions to market and
  writes a row of equity per alpha, with one for their total, to a database of its own.

  The state is the collector with two views of that database: what is committed and what its
  connection sees, which is more while a transaction is open.  The prices of one snapshot are read at
  one time.  The order of the positions only enters sums, so \<open>ORDER BY\<close> is left out.
\<close>

section \<open>Capitals\<close>

definition parse_env_line :: "string \<Rightarrow> (string, string) dict \<Rightarrow> (string, string) dict" where
  "parse_env_line line d =
     (let t = strip line; k = takeWhile (\<lambda>c. c \<noteq> CHR ''='') t; v = drop (length k + 1) t
      in if t = '''' \<or> hd t = CHR ''#'' \<or> length k = length t then d
         else dset (strip k) (strip (takeWhile (\<lambda>c. c \<noteq> CHR ''#'') v)) d)"

definition parse_env_file :: "string list option \<Rightarrow> (string, string) dict" where
  "parse_env_file lines = (case lines of None \<Rightarrow> [] | Some ls \<Rightarrow> fold parse_env_line ls [])"

text \<open>
  A directory entry with its \<^verbatim>\<open>.env\<close>: there is none, or one that cannot be read, or its lines.
\<close>

type_synonym alphas_dir = "(string \<times> string list option option) list"

definition capital_of :: "string \<Rightarrow> pyfloat" where
  "capital_of s = (case py_float s of Inr x \<Rightarrow> x | Inl e \<Rightarrow> Fin 10000)"

definition load_alpha_capital :: "string \<times> string list option option \<Rightarrow> (string, pyfloat) dict \<Rightarrow> (string, pyfloat) dict" where
  "load_alpha_capital entry d = (case entry of
       (name, None) \<Rightarrow> d
     | (name, Some lines) \<Rightarrow>
         (let p = parse_env_file lines
          in dset (dget p ''ALPHA_ID'' name) (capital_of (dget p ''CAPITAL'' ''10000.0'')) d))"

definition load_alpha_capitals :: "alphas_dir option \<Rightarrow> (string, pyfloat) dict" where
  "load_alpha_capitals dir = (case dir of None \<Rightarrow> [] | Some entries \<Rightarrow> fold load_alpha_capital entries [])"

section \<open>The state\<close>

record equity_row =
  es_time :: isotext
  es_alpha :: string
  es_balance :: pyfloat
  es_unrealized :: "pyfloat option"
  es_realized :: "pyfloat option"

record snap_db =
  sd_rows :: "equity_row list"
  sd_marks :: "(string, pyfloat \<times> isotext) dict"

record collector =
  ec_last :: "(string, pyfloat) dict"
  ec_persisted :: "(string, pyfloat) dict"
  ec_dirty :: "string list"
  ec_disk :: snap_db
  ec_view :: snap_db

definition last_price_update :: "string \<Rightarrow> pyfloat \<Rightarrow> (string, pyfloat) dict \<Rightarrow> (string, pyfloat) dict" where
  "last_price_update s p d = (if p > Fin 0 then dset s p d else d)"

text \<open>\<open>init\<close> on the database that is there: the marks become the last prices.\<close>

definition load_mark :: "string \<times> pyfloat \<times> isotext \<Rightarrow> collector \<Rightarrow> collector" where
  "load_mark m c = (case m of (s, p, t) \<Rightarrow>
     c\<lparr>ec_last := last_price_update s p (ec_last c), ec_persisted := dset s p (ec_persisted c)\<rparr>)"

definition start_collector :: "snap_db \<Rightarrow> collector" where
  "start_collector d =
     fold load_mark (sd_marks d) \<lparr>ec_last = [], ec_persisted = [], ec_dirty = [], ec_disk = d, ec_view = d\<rparr>"

section \<open>Marking positions\<close>

definition has_finite_qty_entry :: "position \<Rightarrow> bool" where
  "has_finite_qty_entry p \<longleftrightarrow> (case (p_qty p, p_entry p) of (Some q, Some e) \<Rightarrow> isfinite q \<and> isfinite e | _ \<Rightarrow> False)"

definition live_price :: "real \<Rightarrow> ticker_cache \<Rightarrow> string \<Rightarrow> pyfloat option" where
  "live_price now t s = (case get_price now t s of None \<Rightarrow> get_last_price t s | Some p \<Rightarrow> Some p)"

definition equity_price :: "real \<Rightarrow> ticker_cache \<Rightarrow> string \<Rightarrow> collector \<Rightarrow> pyfloat option \<times> collector" where
  "equity_price now t s c = (case live_price now t s of
       Some p \<Rightarrow> (Some p, c\<lparr>ec_last := last_price_update s p (ec_last c),
         ec_dirty := if map_of (ec_persisted c) s = Some p \<and> p \<noteq> NaN then ec_dirty c
                     else if s \<in> set (ec_dirty c) then ec_dirty c else ec_dirty c @ [s]\<rparr>)
     | None \<Rightarrow> (map_of (ec_last c) s, c))"

definition compute_position_pnl :: "position \<Rightarrow> pyfloat \<Rightarrow> pyfloat" where
  "compute_position_pnl p current = (case (p_qty p, p_entry p) of
       (Some q, Some e) \<Rightarrow>
         (if isfinite q \<and> isfinite e
          then (current - e) * q * Fin (if p_side p = ''LONG'' then 1 else -1) -
            (e + current) * q * (case p_fee_pct p of None \<Rightarrow> Fin 0 | Some f \<Rightarrow> f)
          else Fin 0)
     | _ \<Rightarrow> Fin 0)"

definition mark_position ::
  "real \<Rightarrow> ticker_cache \<Rightarrow> position \<Rightarrow> (string, pyfloat) dict \<times> collector \<Rightarrow> (string, pyfloat) dict \<times> collector" where
  "mark_position now t p = (\<lambda>(unrealized, c).
     if \<not> has_finite_qty_entry p then (unrealized, c)
     else case equity_price now t (p_symbol p) c of
         (None, c) \<Rightarrow> (unrealized, c)
       | (Some m, c) \<Rightarrow> (dset (p_alpha p) (dget unrealized (p_alpha p) (Fin 0) + compute_position_pnl p m) unrealized, c))"

definition mark_positions :: "real \<Rightarrow> ticker_cache \<Rightarrow> position list \<Rightarrow> collector \<Rightarrow> (string, pyfloat) dict \<times> collector" where
  "mark_positions now t ps c = fold (mark_position now t) ps ([], c)"

text \<open>\<open>COALESCE(SUM(pnl), 0)\<close> by alpha: NULL is left out, and NaN read back is NULL.\<close>

definition realized_pnl_by_alpha :: "trade list \<Rightarrow> (string, pyfloat) dict" where
  "realized_pnl_by_alpha ts =
     map (\<lambda>a. (a, case sql_real (fsum (List.map_filter t_pnl (filter (\<lambda>t. t_alpha t = a) ts))) of None \<Rightarrow> Fin 0 | Some x \<Rightarrow> x))
       (remdups (map t_alpha ts))"

section \<open>Shadow sleeves\<close>

record shadow_value =
  sv_balance :: pyfloat
  sv_capital :: pyfloat
  sv_prices :: "(string, pyfloat) dict"

definition anchor_prices :: "json \<Rightarrow> (string, pyfloat) dict res" where
  "anchor_prices j = (case j of
       JObj d \<Rightarrow> Inr (fold (\<lambda>(s, v) ps. case jfloat v of Inr x \<Rightarrow> if x > Fin 0 then dset s x ps else ps | Inl e \<Rightarrow> ps) d [])
     | _ \<Rightarrow> Inr [])"

definition key_suffix :: "string \<Rightarrow> string" where
  "key_suffix k = rev (takeWhile (\<lambda>c. c \<noteq> CHR '':'') (rev k))"

definition shadow_entry :: "string \<Rightarrow> jtext \<Rightarrow> (string \<times> shadow_value) option res" where
  "shadow_entry k t = res_bind (jloads t) (\<lambda>j. case j of
       JObj d \<Rightarrow>
         (let a = dget d ''alpha_id'' JNull; a = if json_truthy a then jstr a else key_suffix k
          in res_bind (jfloat (dget d ''equity'' (JNum (Fin 1)))) (\<lambda>equity.
             res_bind (jfloat (dget d ''capital'' (JNum (Fin 10000)))) (\<lambda>capital.
             res_bind (anchor_prices (dget d ''prices'' JNull)) (\<lambda>ps.
             Inr (if equity > Fin 0 \<and> capital > Fin 0
                  then Some (a, \<lparr>sv_balance = capital * equity, sv_capital = capital, sv_prices = ps\<rparr>) else None)))))
     | _ \<Rightarrow> Inl AttributeError)"

text \<open>The keys of the scan with the answers; the first failure ends it and keeps what was read.\<close>

fun shadow_pnl_by_alpha :: "(string \<times> jtext option res) list \<Rightarrow> (string, shadow_value) dict \<Rightarrow> (string, shadow_value) dict" where
  "shadow_pnl_by_alpha [] d = d"
| "shadow_pnl_by_alpha ((k, Inl e) # ks) d = d"
| "shadow_pnl_by_alpha ((k, Inr t) # ks) d = (case given t of
       None \<Rightarrow> shadow_pnl_by_alpha ks d
     | Some t \<Rightarrow> (case shadow_entry k t of
           Inl e \<Rightarrow> d
         | Inr None \<Rightarrow> shadow_pnl_by_alpha ks d
         | Inr (Some (a, v)) \<Rightarrow> shadow_pnl_by_alpha ks (dset a v d)))"

definition mark_shadow_position ::
  "real \<Rightarrow> ticker_cache \<Rightarrow> (string, pyfloat) dict \<Rightarrow> position \<Rightarrow> pyfloat \<times> collector \<Rightarrow> pyfloat \<times> collector" where
  "mark_shadow_position now t anchors p = (\<lambda>(delta, c).
     if \<not> has_finite_qty_entry p then (delta, c)
     else case equity_price now t (p_symbol p) c of (m, c) \<Rightarrow>
       (case (map_of anchors (p_symbol p), m) of
          (Some anchor, Some m) \<Rightarrow> (delta + (compute_position_pnl p m - compute_position_pnl p anchor), c)
        | _ \<Rightarrow> (delta, c)))"

definition mark_shadow_balance :: "real \<Rightarrow> ticker_cache \<Rightarrow> shadow_value \<Rightarrow> position list \<Rightarrow> collector \<Rightarrow> pyfloat \<times> collector" where
  "mark_shadow_balance now t v ps c =
     (if ps = [] then (sv_balance v, c)
      else case fold (mark_shadow_position now t (sv_prices v)) ps (Fin 0, c) of (delta, c) \<Rightarrow> (sv_balance v + delta, c))"

section \<open>A snapshot\<close>

text \<open>\<open>balance\<close> and \<open>price\<close> are NOT NULL, and NaN is NULL.\<close>

definition insert_equity :: "isotext \<Rightarrow> string \<Rightarrow> pyfloat \<Rightarrow> pyfloat \<Rightarrow> pyfloat \<Rightarrow> (collector, unit) eff" where
  "insert_equity ts a balance unreal rlz =
     (if balance = NaN then throw (IntegrityError ''equity_snapshots.balance'')
      else modify (\<lambda>c. c\<lparr>ec_view := (ec_view c)\<lparr>sd_rows := sd_rows (ec_view c) @
        [\<lparr>es_time = ts, es_alpha = a, es_balance = balance, es_unrealized = sql_real unreal, es_realized = sql_real rlz\<rparr>]\<rparr>\<rparr>))"

definition write_mark :: "isotext \<Rightarrow> string \<Rightarrow> (collector, unit) eff" where
  "write_mark ts s =
     bind get_state (\<lambda>c. case map_of (ec_last c) s of
         None \<Rightarrow> ret ()
       | Some p \<Rightarrow>
           (if p = NaN then throw (IntegrityError ''last_mark_prices.price'')
            else modify (\<lambda>c. c\<lparr>ec_view := (ec_view c)\<lparr>sd_marks := dset s (p, ts) (sd_marks (ec_view c))\<rparr>,
              ec_persisted := dset s p (ec_persisted c)\<rparr>)))"

definition write_marks :: "isotext \<Rightarrow> (collector, unit) eff" where
  "write_marks ts =
     bind get_state (\<lambda>c.
       then_do (for_each (write_mark ts) (sort (ec_dirty c))) (modify (\<lambda>c. c\<lparr>ec_dirty := []\<rparr>)))"

definition commit_snapshot :: "bool \<Rightarrow> (collector, unit) eff" where
  "commit_snapshot ok = (if ok then modify (\<lambda>c. c\<lparr>ec_disk := ec_view c\<rparr>) else throw (OperationalError ''commit failed''))"

definition equity_figures ::
  "(string, pyfloat) dict \<Rightarrow> (string, pyfloat) dict \<Rightarrow> (string, pyfloat) dict \<Rightarrow> string \<Rightarrow> pyfloat \<times> pyfloat \<times> pyfloat" where
  "equity_figures capitals realized unrealized a =
     (let rlz = dget realized a (Fin 0); unreal = dget unrealized a (Fin 0)
      in (dget capitals a (Fin 10000) + rlz + unreal, unreal, rlz))"

definition total_key :: string where
  "total_key = ''__TOTAL__''"

definition shadow_row ::
  "real \<Rightarrow> ticker_cache \<Rightarrow> isotext \<Rightarrow> db \<Rightarrow> string \<times> shadow_value \<Rightarrow> (collector, unit) eff" where
  "shadow_row now t ts d av =
     bind (\<lambda>c. case mark_shadow_balance now t (snd av) (filter (\<lambda>p. p_alpha p = fst av) (virtual_positions d)) c of (b, c) \<Rightarrow> (Inr b, c))
       (\<lambda>balance.
        let rlz = dget (realized_pnl_by_alpha (virtual_trades d)) (fst av) (Fin 0)
        in insert_equity ts (fst av) balance (balance - sv_capital (snd av) - rlz) rlz)"

definition equity_alphas :: "db \<Rightarrow> (string, pyfloat) dict \<Rightarrow> (string, pyfloat) dict \<Rightarrow> (string, shadow_value) dict \<Rightarrow> string list" where
  "equity_alphas d realized unrealized shadow =
     sort (filter (\<lambda>a. a \<notin> set (keys shadow)) (remdups (map a_id (alphas d) @ keys realized @ keys unrealized)))"

record snapshot_env =
  se_clock :: real
  se_ticker :: ticker_cache
  se_time :: isotext
  se_mark_time :: isotext
  se_shadow :: "(string \<times> jtext option res) list"
  se_dir :: "alphas_dir option"
  se_commits :: bool

definition snapshot_once :: "snapshot_env \<Rightarrow> db \<Rightarrow> (collector, unit) eff" where
  "snapshot_once env d =
     bind (\<lambda>c. case mark_positions (se_clock env) (se_ticker env) (get_all_open_positions d None) c of (u, c) \<Rightarrow> (Inr u, c)) (\<lambda>unrealized.
     let realized = realized_pnl_by_alpha (trades d);
         shadow = shadow_pnl_by_alpha (se_shadow env) [];
         ids = equity_alphas d realized unrealized shadow;
         figures = equity_figures (load_alpha_capitals (se_dir env)) realized unrealized
     in then_do (for_each (\<lambda>a. case figures a of (b, u, r) \<Rightarrow> insert_equity (se_time env) a b u r) ids)
        (then_do (for_each (shadow_row (se_clock env) (se_ticker env) (se_time env) d) (sort_key fst shadow))
        (then_do (insert_equity (se_time env) total_key (fsum (map (fst \<circ> figures) ids))
            (fsum (map (fst \<circ> snd \<circ> figures) ids)) (fsum (map (snd \<circ> snd \<circ> figures) ids)))
        (then_do (write_marks (se_mark_time env))
        (commit_snapshot (se_commits env))))))"

text \<open>The loop: an exception is logged and the next snapshot follows.\<close>

definition run_snapshots :: "(snapshot_env \<times> db) list \<Rightarrow> collector \<Rightarrow> collector" where
  "run_snapshots xs c = fold (\<lambda>(env, d) c. snd (snapshot_once env d c)) xs c"

end
