(* ===== verification/EquityProperties.thy ===== *)
theory EquityProperties
  imports EquitySnapshots
begin

text \<open>
  What a snapshot of equity writes, in terms of the tables, and what a restart of the worker knows of
  the prices.
\<close>

section \<open>The price a position is marked at\<close>

definition mark_of :: "real \<Rightarrow> ticker_cache \<Rightarrow> collector \<Rightarrow> string \<Rightarrow> pyfloat option" where
  "mark_of now t c s = (case live_price now t s of Some p \<Rightarrow> Some p | None \<Rightarrow> map_of (ec_last c) s)"

lemma equity_price_mark:
  "fst (equity_price now t s c) = mark_of now t c s"
  "mark_of now t (snd (equity_price now t s c)) s' = mark_of now t c s'"
  "ec_view (snd (equity_price now t s c)) = ec_view c" "ec_disk (snd (equity_price now t s c)) = ec_disk c"
  by (auto simp: equity_price_def mark_of_def last_price_update_def split: option.splits)

text \<open>The profit of the positions of an alpha that can be marked.\<close>

definition markable :: "real \<Rightarrow> ticker_cache \<Rightarrow> collector \<Rightarrow> position \<Rightarrow> bool" where
  "markable now t c p \<longleftrightarrow> has_finite_qty_entry p \<and> mark_of now t c (p_symbol p) \<noteq> None"

definition marked_pnl :: "real \<Rightarrow> ticker_cache \<Rightarrow> collector \<Rightarrow> position \<Rightarrow> pyfloat" where
  "marked_pnl now t c p = compute_position_pnl p (the (mark_of now t c (p_symbol p)))"

definition unrealized_of :: "real \<Rightarrow> ticker_cache \<Rightarrow> collector \<Rightarrow> position list \<Rightarrow> string \<Rightarrow> pyfloat" where
  "unrealized_of now t c ps a = fsum (map (marked_pnl now t c) (filter (\<lambda>p. p_alpha p = a \<and> markable now t c p) ps))"

lemma mark_position_cases:
  "mark_position now t p (u, c) =
    (if markable now t c p
     then (dset (p_alpha p) (dget u (p_alpha p) (Fin 0) + marked_pnl now t c p) u, snd (equity_price now t (p_symbol p) c))
     else (u, if has_finite_qty_entry p then snd (equity_price now t (p_symbol p) c) else c))"
  using equity_price_mark(1) [of now t "p_symbol p" c]
  by (cases "equity_price now t (p_symbol p) c") (auto simp: mark_position_def markable_def marked_pnl_def split: option.splits)

lemma same_marks:
  assumes "\<And>s. mark_of now t c' s = mark_of now t c s"
  shows "markable now t c' = markable now t c" "marked_pnl now t c' = marked_pnl now t c"
  by (simp_all add: fun_eq_iff markable_def marked_pnl_def assms)

lemma mark_fold:
  assumes "fold (mark_position now t) ps (u, c) = (u', c')"
  shows "dget u' a (Fin 0) = foldl (+) (dget u a (Fin 0)) (map (marked_pnl now t c) (filter (\<lambda>p. p_alpha p = a \<and> markable now t c p) ps))"
    "set (keys u') = set (keys u) \<union> p_alpha ` {p \<in> set ps. markable now t c p}"
    "mark_of now t c' s = mark_of now t c s" "ec_view c' = ec_view c" "ec_disk c' = ec_disk c"
proof -
  have "dget u' a (Fin 0) = foldl (+) (dget u a (Fin 0)) (map (marked_pnl now t c) (filter (\<lambda>p. p_alpha p = a \<and> markable now t c p) ps)) \<and>
      set (keys u') = set (keys u) \<union> p_alpha ` {p \<in> set ps. markable now t c p} \<and>
      (\<forall>s. mark_of now t c' s = mark_of now t c s) \<and> ec_view c' = ec_view c \<and> ec_disk c' = ec_disk c"
    using assms
  proof (induction ps arbitrary: u c)
    case (Cons p ps)
    obtain u1 c1 where 1: "mark_position now t p (u, c) = (u1, c1)" by fastforce
    then have c1: "mark_of now t c1 s = mark_of now t c s" "ec_view c1 = ec_view c" "ec_disk c1 = ec_disk c" for s
      by (auto simp: mark_position_cases equity_price_mark split: if_splits)
    have u1: "u1 = (if markable now t c p then dset (p_alpha p) (dget u (p_alpha p) (Fin 0) + marked_pnl now t c p) u else u)"
      using 1 by (simp add: mark_position_cases split: if_splits)
    have "fold (mark_position now t) ps (u1, c1) = (u', c')" using Cons.prems 1 by simp
    note IH = Cons.IH [OF this, unfolded same_marks [OF c1(1)] c1]
    show ?case
      using IH by (auto simp: u1 keys_def dget_def)
  qed simp
  then show "dget u' a (Fin 0) = foldl (+) (dget u a (Fin 0)) (map (marked_pnl now t c) (filter (\<lambda>p. p_alpha p = a \<and> markable now t c p) ps))"
    "set (keys u') = set (keys u) \<union> p_alpha ` {p \<in> set ps. markable now t c p}"
    "mark_of now t c' s = mark_of now t c s" "ec_view c' = ec_view c" "ec_disk c' = ec_disk c" by blast+
qed

lemma mark_positions_marks:
  assumes "mark_positions now t ps c = (u, c')"
  shows "dget u a (Fin 0) = unrealized_of now t c ps a"
    "set (keys u) = p_alpha ` {p \<in> set ps. markable now t c p}"
    "mark_of now t c' s = mark_of now t c s" "ec_view c' = ec_view c" "ec_disk c' = ec_disk c"
  using mark_fold [OF assms [unfolded mark_positions_def]]
  by (simp_all add: unrealized_of_def fsum_def dget_def keys_def)

definition realized_of :: "trade list \<Rightarrow> string \<Rightarrow> pyfloat" where
  "realized_of ts a = (let x = fsum (List.map_filter t_pnl (filter (\<lambda>t. t_alpha t = a) ts)) in if x = NaN then Fin 0 else x)"

lemma coalesced: "(case sql_real x of None \<Rightarrow> Fin 0 | Some y \<Rightarrow> y) = (if x = NaN then Fin 0 else x)"
  by (cases x) simp_all

lemma map_of_graph: "map_of (map (\<lambda>a. (a, f a)) as) a = (if a \<in> set as then Some (f a) else None)"
  by (induction as) auto

lemma realized_dget: "dget (realized_pnl_by_alpha ts) a (Fin 0) = realized_of ts a"
proof (cases "a \<in> t_alpha ` set ts")
  case True
  then show ?thesis by (simp add: realized_pnl_by_alpha_def realized_of_def dget_def Let_def map_of_graph coalesced)
next
  case False
  then have "filter (\<lambda>t. t_alpha t = a) ts = []" by (auto simp: filter_empty_conv)
  with False show ?thesis
    by (simp add: realized_pnl_by_alpha_def realized_of_def dget_def map_of_graph fsum_def map_filter_simps)
qed

lemma realized_keys: "set (keys (realized_pnl_by_alpha ts)) = t_alpha ` set ts"
  by (simp add: realized_pnl_by_alpha_def keys_def o_def)

section \<open>What a snapshot writes\<close>

lemma insert_equity_row:
  assumes "insert_equity ts a b u r c = (Inr (), c')"
  shows "sd_rows (ec_view c') = sd_rows (ec_view c) @
      [\<lparr>es_time = ts, es_alpha = a, es_balance = b, es_unrealized = sql_real u, es_realized = sql_real r\<rparr>]"
  using assms by (auto simp: insert_equity_def split: if_splits)

lemma insert_each:
  assumes "for_each (\<lambda>a. case f a of (b, u, r) \<Rightarrow> insert_equity ts a b u r) as c = (Inr (), c')"
  shows "sd_rows (ec_view c') = sd_rows (ec_view c) @ map (\<lambda>a. case f a of (b, u, r) \<Rightarrow>
      \<lparr>es_time = ts, es_alpha = a, es_balance = b, es_unrealized = sql_real u, es_realized = sql_real r\<rparr>) as"
  using assms
proof (induction as arbitrary: c)
  case (Cons a as)
  obtain b u r where f: "f a = (b, u, r)" by (cases "f a")
  from Cons.prems obtain c1 where 1: "insert_equity ts a b u r c = (Inr (), c1)"
    "for_each (\<lambda>a. case f a of (b, u, r) \<Rightarrow> insert_equity ts a b u r) as c1 = (Inr (), c')"
    by (auto simp: then_do_apply f split: prod.splits sum.splits)
  from Cons.IH [OF 1(2)] insert_equity_row [OF 1(1)] show ?case by (simp add: f)
qed (simp add: ret_def)

lemma shadow_position_view:
  "mark_shadow_position now t anchors p (x, c) = (x', c') \<Longrightarrow> ec_view c' = ec_view c"
  using equity_price_mark(3) [of now t "p_symbol p" c]
  by (auto simp: mark_shadow_position_def split: if_splits prod.splits option.splits)

lemma shadow_fold_view:
  "fold (mark_shadow_position now t anchors) ps (x, c) = (x', c') \<Longrightarrow> ec_view c' = ec_view c"
proof (induction ps arbitrary: x c)
  case (Cons p ps)
  obtain x1 c1 where "mark_shadow_position now t anchors p (x, c) = (x1, c1)" by fastforce
  with Cons shadow_position_view [OF this] show ?case by simp
qed simp

lemma shadow_balance_view: "mark_shadow_balance now t v ps c = (b, c') \<Longrightarrow> ec_view c' = ec_view c"
  by (auto simp: mark_shadow_balance_def shadow_fold_view split: if_splits prod.splits)

lemma shadow_row_view:
  assumes "shadow_row now t ts d av c = (Inr (), c')"
  shows "\<exists>r. sd_rows (ec_view c') = sd_rows (ec_view c) @ [r] \<and> es_alpha r = fst av"
proof -
  obtain b c1 where b: "mark_shadow_balance now t (snd av) (filter (\<lambda>p. p_alpha p = fst av) (virtual_positions d)) c = (b, c1)"
    by fastforce
  with assms have "\<exists>u r. insert_equity ts (fst av) b u r c1 = (Inr (), c')"
    by (auto simp: shadow_row_def bind_apply Let_def)
  then show ?thesis using insert_equity_row shadow_balance_view [OF b] by fastforce
qed

lemma shadow_rows_view:
  assumes "for_each (shadow_row now t ts d) avs c = (Inr (), c')"
  shows "\<exists>rs. sd_rows (ec_view c') = sd_rows (ec_view c) @ rs \<and> map es_alpha rs = map fst avs"
  using assms
proof (induction avs arbitrary: c)
  case (Cons av avs)
  then obtain c1 where 1: "shadow_row now t ts d av c = (Inr (), c1)" "for_each (shadow_row now t ts d) avs c1 = (Inr (), c')"
    by (auto simp: then_do_apply split: prod.splits sum.splits)
  from shadow_row_view [OF 1(1)] obtain r where r: "sd_rows (ec_view c1) = sd_rows (ec_view c) @ [r]" "es_alpha r = fst av" by blast
  from Cons.IH [OF 1(2)] obtain rs where rs: "sd_rows (ec_view c') = sd_rows (ec_view c1) @ rs" "map es_alpha rs = map fst avs" by blast
  from r rs show ?case by (intro exI [of _ "r # rs"]) simp
qed (simp add: ret_def)

lemma write_mark_rows: "write_mark ts s c = (x, c') \<Longrightarrow> sd_rows (ec_view c') = sd_rows (ec_view c)"
  by (auto simp: write_mark_def split: option.splits if_splits)

lemma write_each_rows: "for_each (write_mark ts) ss c = (Inr (), c') \<Longrightarrow> sd_rows (ec_view c') = sd_rows (ec_view c)"
proof (induction ss arbitrary: c)
  case (Cons s ss)
  then obtain c1 where "write_mark ts s c = (Inr (), c1)" "for_each (write_mark ts) ss c1 = (Inr (), c')"
    by (auto simp: then_do_apply split: prod.splits sum.splits)
  with Cons.IH write_mark_rows show ?case by metis
qed (simp add: ret_def)

lemma write_marks_rows:
  assumes "write_marks ts c = (Inr (), c')"
  shows "sd_rows (ec_view c') = sd_rows (ec_view c)"
proof -
  from assms obtain c1 where "for_each (write_mark ts) (sort (ec_dirty c)) c = (Inr (), c1)" "c' = c1\<lparr>ec_dirty := []\<rparr>"
    by (auto simp: write_marks_def then_do_apply split: prod.splits sum.splits)
  with write_each_rows show ?thesis by fastforce
qed

text \<open>The stages of a snapshot that succeeds.\<close>

lemma snapshot_stages:
  assumes "snapshot_once env d c = (Inr (), c')"
    and "mark_positions (se_clock env) (se_ticker env) (get_all_open_positions d None) c = (u, c1)"
    and "shadow = shadow_pnl_by_alpha (se_shadow env) []" and "ids = equity_alphas d (realized_pnl_by_alpha (trades d)) u shadow"
    and "figures = equity_figures (load_alpha_capitals (se_dir env)) (realized_pnl_by_alpha (trades d)) u"
  obtains c2 c3 c4 c5 where
    "for_each (\<lambda>a. case figures a of (b, u, r) \<Rightarrow> insert_equity (se_time env) a b u r) ids c1 = (Inr (), c2)"
    "for_each (shadow_row (se_clock env) (se_ticker env) (se_time env) d) (sort_key fst shadow) c2 = (Inr (), c3)"
    "insert_equity (se_time env) total_key (fsum (map (fst \<circ> figures) ids)) (fsum (map (fst \<circ> snd \<circ> figures) ids))
       (fsum (map (snd \<circ> snd \<circ> figures) ids)) c3 = (Inr (), c4)"
    "write_marks (se_mark_time env) c4 = (Inr (), c5)" "c' = c5\<lparr>ec_disk := ec_view c5\<rparr>"
  using assms(1) unfolding snapshot_once_def assms(3-5)
  by (auto simp: bind_apply then_do_apply assms(2) Let_def commit_snapshot_def split: prod.splits sum.splits if_splits)

text \<open>The alphas that get a row, and what they are worth.\<close>

definition counted_alphas :: "snapshot_env \<Rightarrow> db \<Rightarrow> collector \<Rightarrow> string set" where
  "counted_alphas env d c =
     (a_id ` set (alphas d) \<union> t_alpha ` set (trades d) \<union>
      p_alpha ` {p \<in> set (positions d). markable (se_clock env) (se_ticker env) c p}) -
     set (keys (shadow_pnl_by_alpha (se_shadow env) []))"

definition equity_of :: "snapshot_env \<Rightarrow> db \<Rightarrow> collector \<Rightarrow> string \<Rightarrow> pyfloat" where
  "equity_of env d c a = dget (load_alpha_capitals (se_dir env)) a (Fin 10000) + realized_of (trades d) a +
     unrealized_of (se_clock env) (se_ticker env) c (positions d) a"

text \<open>
  C20. The equity of an alpha is its capital, the profit of its closed trades and the profit of its
  open positions, each at the price of now or, when there is none, at the last one known;
  positions without a price or a finite size count nothing.  A snapshot that succeeds adds to what
  the connection already holds one such row per alpha, in the order of their names, a row per
  shadow sleeve, and a total that is the sum of the rows of the alphas alone.
\<close>

theorem equity_rows_are_marked:
  assumes "snapshot_once env d c = (Inr (), c')"
  shows "\<exists>rows shadows t. sd_rows (ec_disk c') = sd_rows (ec_view c) @ rows @ shadows @ [t] \<and>
    map es_alpha rows = sorted_list_of_set (counted_alphas env d c) \<and>
    map es_balance rows = map (equity_of env d c) (map es_alpha rows) \<and>
    set (map es_alpha shadows) = set (keys (shadow_pnl_by_alpha (se_shadow env) [])) \<and>
    es_alpha t = total_key \<and> es_balance t = fsum (map es_balance rows)"
proof -
  obtain u c1 where m: "mark_positions (se_clock env) (se_ticker env) (get_all_open_positions d None) c = (u, c1)" by fastforce
  define shadow where "shadow = shadow_pnl_by_alpha (se_shadow env) []"
  define ids where "ids = equity_alphas d (realized_pnl_by_alpha (trades d)) u shadow"
  define figures where "figures = equity_figures (load_alpha_capitals (se_dir env)) (realized_pnl_by_alpha (trades d)) u"
  obtain c2 c3 c4 c5 where s:
    "for_each (\<lambda>a. case figures a of (b, u, r) \<Rightarrow> insert_equity (se_time env) a b u r) ids c1 = (Inr (), c2)"
    "for_each (shadow_row (se_clock env) (se_ticker env) (se_time env) d) (sort_key fst shadow) c2 = (Inr (), c3)"
    "insert_equity (se_time env) total_key (fsum (map (fst \<circ> figures) ids)) (fsum (map (fst \<circ> snd \<circ> figures) ids))
       (fsum (map (snd \<circ> snd \<circ> figures) ids)) c3 = (Inr (), c4)"
    "write_marks (se_mark_time env) c4 = (Inr (), c5)" "c' = c5\<lparr>ec_disk := ec_view c5\<rparr>"
    by (rule snapshot_stages [OF assms m shadow_def ids_def figures_def])
  have mk: "mark_positions (se_clock env) (se_ticker env) (positions d) c = (u, c1)"
    using m by (simp add: get_all_open_positions_def)
  note mp = mark_positions_marks [OF mk]
  have fig: "fst (figures a) = equity_of env d c a" for a
    by (simp add: figures_def equity_figures_def equity_of_def mp(1) realized_dget Let_def)
  have ids: "ids = sorted_list_of_set (counted_alphas env d c)"
  proof (rule sorted_distinct_set_unique)
    have "finite (counted_alphas env d c)" by (simp add: counted_alphas_def)
    moreover have "set ids = counted_alphas env d c"
      by (simp add: ids_def equity_alphas_def counted_alphas_def mp(2) realized_keys shadow_def) blast
    ultimately show "set ids = set (sorted_list_of_set (counted_alphas env d c))" by simp
  qed (simp_all add: ids_def equity_alphas_def)
  let ?row = "\<lambda>a. case figures a of (b, u, r) \<Rightarrow>
      \<lparr>es_time = se_time env, es_alpha = a, es_balance = b, es_unrealized = sql_real u, es_realized = sql_real r\<rparr>"
  have row: "es_alpha (?row a) = a" "es_balance (?row a) = equity_of env d c a" for a
    using fig [of a] by (cases "figures a"; simp)+
  obtain rs where rs: "sd_rows (ec_view c3) = sd_rows (ec_view c2) @ rs" "map es_alpha rs = map fst (sort_key fst shadow)"
    using shadow_rows_view [OF s(2)] by blast
  obtain t where t: "sd_rows (ec_view c4) = sd_rows (ec_view c3) @ [t]" "es_alpha t = total_key"
    "es_balance t = fsum (map (fst \<circ> figures) ids)"
    using insert_equity_row [OF s(3)] by (auto intro: that)
  have names: "map es_alpha (map ?row ids) = ids" by (simp add: row(1) o_def)
  have worth: "map es_balance (map ?row ids) = map (equity_of env d c) ids" by (simp add: row(2) o_def)
  show ?thesis
  proof (intro exI conjI)
    show "sd_rows (ec_disk c') = sd_rows (ec_view c) @ map ?row ids @ rs @ [t]"
      using insert_each [OF s(1)] rs(1) t(1) write_marks_rows [OF s(4)] mp(4) by (simp add: s(5))
    show "map es_alpha (map ?row ids) = sorted_list_of_set (counted_alphas env d c)" unfolding names by (rule ids)
    show "map es_balance (map ?row ids) = map (equity_of env d c) (map es_alpha (map ?row ids))" unfolding names by (rule worth)
    show "set (map es_alpha rs) = set (keys (shadow_pnl_by_alpha (se_shadow env) []))"
      unfolding rs(2) keys_def shadow_def by simp
    show "es_alpha t = total_key" by (rule t(2))
    show "es_balance t = fsum (map es_balance (map ?row ids))" unfolding worth using t(3) by (simp add: fig cong: map_cong)
  qed
qed

definition ex_equity_db :: db where
  "ex_equity_db = empty_db
     \<lparr>alphas := [\<lparr>a_id = ''a'', a_name = ''a'', a_created = NotIso '''', a_status = ''ACTIVE''\<rparr>],
      positions := [\<lparr>p_id = ''p'', p_alpha = ''a'', p_signal = ''s'', p_symbol = ''BTC'', p_side = ''LONG'',
        p_entry = Some (Fin 100), p_qty = Some (Fin 2), p_tp = None, p_sl = None, p_leverage = 1, p_opened = NotIso '''',
        p_metadata = None, p_exchange = ''binance'', p_fee_pct = None\<rparr>]\<rparr>"

definition ex_snapshot :: "bool \<Rightarrow> snapshot_env" where
  "ex_snapshot ok = \<lparr>se_clock = 0, se_ticker = update_price 0 ''BTC'' (Fin 110) (new_ticker_cache 60),
     se_time = NotIso '''', se_mark_time = NotIso '''', se_shadow = [], se_dir = None, se_commits = ok\<rparr>"

abbreviation ex_disk :: snap_db where
  "ex_disk \<equiv> \<lparr>sd_rows = [], sd_marks = []\<rparr>"

theorem equity_rows_are_marked_witness:
  "es_balance (last (sd_rows (ec_disk (snd (snapshot_once (ex_snapshot True) ex_equity_db (start_collector ex_disk)))))) = Fin 10020"
proof -
  let ?c = "start_collector ex_disk"
  let ?run = "snapshot_once (ex_snapshot True) ex_equity_db ?c"
  have ok: "fst ?run = Inr ()" by code_simp
  have live: "mark_of 0 (se_ticker (ex_snapshot True)) ?c ''BTC'' = Some (Fin 110)"
    by (simp add: mark_of_def ex_snapshot_def live_price_def get_price_def get_quote_def update_price_def new_ticker_cache_def)
  have "counted_alphas (ex_snapshot True) ex_equity_db ?c = {''a''}"
    by (auto simp: counted_alphas_def ex_equity_db_def empty_db_def ex_snapshot_def keys_def)
  moreover have "equity_of (ex_snapshot True) ex_equity_db ?c ''a'' = Fin 10020"
    using live by (simp add: equity_of_def ex_equity_db_def empty_db_def ex_snapshot_def load_alpha_capitals_def dget_def
        realized_of_def fsum_def map_filter_simps unrealized_of_def markable_def has_finite_qty_entry_def marked_pnl_def compute_position_pnl_def)
  moreover obtain rows shadows t where
    "sd_rows (ec_disk (snd ?run)) = sd_rows (ec_view ?c) @ rows @ shadows @ [t]"
    "map es_alpha rows = sorted_list_of_set (counted_alphas (ex_snapshot True) ex_equity_db ?c)"
    "map es_balance rows = map (equity_of (ex_snapshot True) ex_equity_db ?c) (map es_alpha rows)"
    "es_balance t = fsum (map es_balance rows)"
    using equity_rows_are_marked [OF prod.collapse [of ?run, symmetric, unfolded ok]] by blast
  ultimately show ?thesis by (simp add: fsum_def)
qed

section \<open>A restart\<close>

text \<open>
  What every operation keeps: a last price is positive and on record or to be recorded, and the
  collector knows what is on record.
\<close>

definition marks_kept :: "collector \<Rightarrow> bool" where
  "marks_kept c \<longleftrightarrow> dict_ok (sd_marks (ec_view c)) \<and>
     (\<forall>s p. map_of (ec_last c) s = Some p \<longrightarrow> p > Fin 0 \<and> (s \<in> set (ec_dirty c) \<or> map_of (ec_persisted c) s = Some p)) \<and>
     (\<forall>s p. map_of (ec_persisted c) s = Some p \<longrightarrow> p > Fin 0 \<longrightarrow> map_of (ec_last c) s \<noteq> None) \<and>
     (\<forall>s. map_of (ec_persisted c) s = map_option fst (map_of (sd_marks (ec_view c)) s))"

lemma marks_okD:
  assumes "marks_kept c"
  shows "map_of (ec_last c) s = Some p \<Longrightarrow> p > Fin 0" "map_of (ec_last c) s = Some p \<Longrightarrow> p \<noteq> NaN"
    "map_of (ec_last c) s = Some p \<Longrightarrow> s \<notin> set (ec_dirty c) \<Longrightarrow> map_of (ec_persisted c) s = Some p"
    "map_of (ec_persisted c) s = Some p \<Longrightarrow> p > Fin 0 \<Longrightarrow> map_of (ec_last c) s \<noteq> None"
    "map_of (ec_persisted c) s = map_option fst (map_of (sd_marks (ec_view c)) s)" "dict_ok (sd_marks (ec_view c))"
  using assms pyfloat_NaN(9) unfolding marks_kept_def by blast+

lemma marks_kept_cong:
  assumes "ec_last c' = ec_last c" "ec_dirty c' = ec_dirty c" "ec_persisted c' = ec_persisted c"
    "sd_marks (ec_view c') = sd_marks (ec_view c)"
  shows "marks_kept c' = marks_kept c"
  unfolding marks_kept_def assms by (rule refl)

lemma load_marks:
  assumes "dict_ok ms" and "fold load_mark ms c = c'"
  shows "map_of (ec_last c') s = (case map_of ms s of Some (p, t) \<Rightarrow> if p > Fin 0 then Some p else map_of (ec_last c) s | None \<Rightarrow> map_of (ec_last c) s)"
    "map_of (ec_persisted c') s = (case map_of ms s of Some (p, t) \<Rightarrow> Some p | None \<Rightarrow> map_of (ec_persisted c) s)"
    "ec_dirty c' = ec_dirty c" "ec_view c' = ec_view c" "ec_disk c' = ec_disk c"
proof -
  have "map_of (ec_last c') s = (case map_of ms s of Some (p, t) \<Rightarrow> if p > Fin 0 then Some p else map_of (ec_last c) s | None \<Rightarrow> map_of (ec_last c) s) \<and>
      map_of (ec_persisted c') s = (case map_of ms s of Some (p, t) \<Rightarrow> Some p | None \<Rightarrow> map_of (ec_persisted c) s) \<and>
      ec_dirty c' = ec_dirty c \<and> ec_view c' = ec_view c \<and> ec_disk c' = ec_disk c"
    using assms
  proof (induction ms arbitrary: c)
    case (Cons m ms)
    obtain k p t where m: "m = (k, p, t)" by (cases m)
    have k: "map_of ms k = None" using Cons.prems(1) m by (simp add: map_of_eq_None_iff)
    from Cons.prems have "dict_ok ms" "fold load_mark ms (load_mark m c) = c'" by simp_all
    note IH = Cons.IH [OF this]
    have rest: "ec_dirty (load_mark m c) = ec_dirty c" "ec_view (load_mark m c) = ec_view c" "ec_disk (load_mark m c) = ec_disk c"
      by (simp_all add: m load_mark_def)
    show ?case
    proof (cases "s = k")
      case True
      with IH k rest show ?thesis by (simp add: m load_mark_def last_price_update_def)
    next
      case False
      then have same: "map_of (ec_last (load_mark m c)) s = map_of (ec_last c) s"
        "map_of (ec_persisted (load_mark m c)) s = map_of (ec_persisted c) s" "map_of (m # ms) s = map_of ms s"
        by (simp_all add: m load_mark_def last_price_update_def)
      show ?thesis using IH unfolding same rest .
    qed
  qed simp
  then show "map_of (ec_last c') s = (case map_of ms s of Some (p, t) \<Rightarrow> if p > Fin 0 then Some p else map_of (ec_last c) s | None \<Rightarrow> map_of (ec_last c) s)"
    "map_of (ec_persisted c') s = (case map_of ms s of Some (p, t) \<Rightarrow> Some p | None \<Rightarrow> map_of (ec_persisted c) s)"
    "ec_dirty c' = ec_dirty c" "ec_view c' = ec_view c" "ec_disk c' = ec_disk c" by blast+
qed

lemma start_collector_lookup:
  assumes "dict_ok (sd_marks d)"
  shows "map_of (ec_last (start_collector d)) s = (case map_of (sd_marks d) s of Some (p, t) \<Rightarrow> if p > Fin 0 then Some p else None | None \<Rightarrow> None)"
    "map_of (ec_persisted (start_collector d)) s = map_option fst (map_of (sd_marks d) s)"
    "ec_dirty (start_collector d) = []" "ec_view (start_collector d) = d" "ec_disk (start_collector d) = d"
  using load_marks [OF assms refl, of "\<lparr>ec_last = [], ec_persisted = [], ec_dirty = [], ec_disk = d, ec_view = d\<rparr>"]
  by (auto simp: start_collector_def split: option.splits)

lemma start_marks_kept:
  assumes "dict_ok (sd_marks d)"
  shows "marks_kept (start_collector d)"
proof -
  note l = start_collector_lookup [OF assms]
  have "p > Fin 0 \<and> map_of (ec_persisted (start_collector d)) s = Some p" if "map_of (ec_last (start_collector d)) s = Some p" for s p
    using that by (cases "map_of (sd_marks d) s") (auto simp only: l option.case prod.case split_paired_all split: if_splits, simp_all)
  moreover have "map_of (ec_last (start_collector d)) s \<noteq> None"
    if "map_of (ec_persisted (start_collector d)) s = Some p" "p > Fin 0" for s p
    using that by (cases "map_of (sd_marks d) s") (auto simp only: l option.case prod.case split_paired_all, simp_all)
  ultimately show ?thesis unfolding marks_kept_def l(3,4) using assms l(2) by blast
qed

lemma equity_price_ok: "marks_kept c \<Longrightarrow> marks_kept (snd (equity_price now t s c))"
proof (cases "live_price now t s")
  case (Some p)
  assume ok: "marks_kept c"
  let ?c = "snd (equity_price now t s c)"
  have c: "ec_view ?c = ec_view c" "ec_persisted ?c = ec_persisted c" "ec_last ?c = last_price_update s p (ec_last c)"
    "set (ec_dirty c) \<subseteq> set (ec_dirty ?c)" "map_of (ec_persisted c) s = Some p \<or> s \<in> set (ec_dirty ?c)"
    by (auto simp: equity_price_def Some)
  have "q > Fin 0 \<and> (k \<in> set (ec_dirty ?c) \<or> map_of (ec_persisted c) k = Some q)" if "map_of (ec_last ?c) k = Some q" for k q
  proof (cases "k = s \<and> p > Fin 0")
    case True
    with that c(5) show ?thesis by (auto simp: c(3) last_price_update_def)
  next
    case False
    with that have "map_of (ec_last c) k = Some q" by (auto simp: c(3) last_price_update_def split: if_splits)
    with marks_okD(1,3) [OF ok] c(4) show ?thesis by blast
  qed
  moreover have "map_of (ec_last ?c) k \<noteq> None" if "map_of (ec_persisted ?c) k = Some q" "q > Fin 0" for k q
    using marks_okD(4) [OF ok that [unfolded c(2)]] by (auto simp: c(3) last_price_update_def)
  moreover have "map_of (ec_persisted ?c) k = map_option fst (map_of (sd_marks (ec_view ?c)) k)" for k
    using marks_okD(5) [OF ok] by (simp add: c(1,2))
  moreover have "dict_ok (sd_marks (ec_view ?c))" using marks_okD(6) [OF ok] by (simp add: c(1))
  ultimately show ?thesis unfolding marks_kept_def c(2) by blast
qed (simp add: equity_price_def)

lemma mark_fold_ok: "marks_kept c \<Longrightarrow> fold (mark_position now t) ps (u, c) = (u', c') \<Longrightarrow> marks_kept c'"
proof (induction ps arbitrary: u c)
  case (Cons p ps)
  obtain u1 c1 where 1: "mark_position now t p (u, c) = (u1, c1)" by fastforce
  then have "marks_kept c1" using Cons.prems(1) equity_price_ok [of c now t "p_symbol p"] by (auto simp: mark_position_cases split: if_splits)
  with Cons 1 show ?case by simp
qed simp

lemma shadow_fold_ok: "marks_kept c \<Longrightarrow> fold (mark_shadow_position now t anchors) ps (x, c) = (x', c') \<Longrightarrow> marks_kept c'"
proof (induction ps arbitrary: x c)
  case (Cons p ps)
  obtain x1 c1 where 1: "mark_shadow_position now t anchors p (x, c) = (x1, c1)" by fastforce
  then have "c1 = c \<or> c1 = snd (equity_price now t (p_symbol p) c)"
    by (auto simp: mark_shadow_position_def split: if_splits prod.splits option.splits)
  then have "marks_kept c1" using Cons.prems(1) equity_price_ok by blast
  with Cons 1 show ?case by simp
qed simp

lemma insert_equity_ok: "marks_kept c \<Longrightarrow> marks_kept (snd (insert_equity ts a b u r c))"
  using marks_kept_cong [of "snd (insert_equity ts a b u r c)" c] by (simp add: insert_equity_def)

lemma shadow_row_ok: "keeps marks_kept (shadow_row now t ts d av)"
  unfolding shadow_row_def Let_def
proof (intro keeps_bind keepsI insert_equity_ok)
  fix c assume "marks_kept c"
  then show "marks_kept (snd (case mark_shadow_balance now t (snd av) (filter (\<lambda>p. p_alpha p = fst av) (virtual_positions d)) c of
      (b, c) \<Rightarrow> (Inr b, c)))"
    by (auto simp: mark_shadow_balance_def shadow_fold_ok split: prod.splits)
qed

lemma write_mark_ok: "marks_kept c \<Longrightarrow> marks_kept (snd (write_mark ts s c))"
proof (cases "map_of (ec_last c) s")
  case (Some p)
  assume ok: "marks_kept c"
  note p = marks_okD(1,2) [OF ok Some]
  let ?c = "c\<lparr>ec_view := (ec_view c)\<lparr>sd_marks := dset s (p, ts) (sd_marks (ec_view c))\<rparr>, ec_persisted := dset s p (ec_persisted c)\<rparr>"
  have c: "map_of (ec_persisted ?c) k = (if k = s then Some p else map_of (ec_persisted c) k)" for k by simp
  have "map_of (ec_persisted ?c) k = map_option fst (map_of (sd_marks (ec_view ?c)) k)" for k
    using marks_okD(5) [OF ok, of k] by simp
  moreover have "k \<in> set (ec_dirty ?c) \<or> map_of (ec_persisted ?c) k = Some q" if "map_of (ec_last ?c) k = Some q" for k q
    using that Some marks_okD(3) [OF ok, of k q] unfolding c by auto
  moreover have "map_of (ec_last ?c) k \<noteq> None" if "map_of (ec_persisted ?c) k = Some q" "q > Fin 0" for k q
    using that Some marks_okD(4) [OF ok, of k q] unfolding c by (cases "k = s") simp_all
  moreover have "dict_ok (sd_marks (ec_view ?c))" using marks_okD(6) [OF ok] by simp
  moreover have "q > Fin 0" if "map_of (ec_last ?c) k = Some q" for k q using that marks_okD(1) [OF ok] by simp
  ultimately have "marks_kept ?c" unfolding marks_kept_def by blast
  then show ?thesis using p(2) by (simp add: write_mark_def Some)
qed (simp add: write_mark_def)

text \<open>After the marks are written every last price is on record.\<close>

lemma write_each:
  assumes "for_each (write_mark ts) ss c = (Inr (), c')"
  shows "ec_last c' = ec_last c" "ec_dirty c' = ec_dirty c"
    "map_of (ec_last c) s = Some p \<Longrightarrow> s \<in> set ss \<or> map_of (ec_persisted c) s = Some p \<Longrightarrow> map_of (ec_persisted c') s = Some p"
proof -
  have "ec_last c' = ec_last c \<and> ec_dirty c' = ec_dirty c \<and>
      (map_of (ec_last c) s = Some p \<longrightarrow> s \<in> set ss \<or> map_of (ec_persisted c) s = Some p \<longrightarrow> map_of (ec_persisted c') s = Some p)"
    using assms
  proof (induction ss arbitrary: c)
    case (Cons k ss)
    then obtain c1 where 1: "write_mark ts k c = (Inr (), c1)" "for_each (write_mark ts) ss c1 = (Inr (), c')"
      by (auto simp: then_do_apply split: prod.splits sum.splits)
    have c1: "ec_last c1 = ec_last c" "ec_dirty c1 = ec_dirty c"
      "map_of (ec_last c) s = Some p \<Longrightarrow> s = k \<or> map_of (ec_persisted c) s = Some p \<Longrightarrow> map_of (ec_persisted c1) s = Some p"
      using 1(1) by (auto simp: write_mark_def split: option.splits if_splits)
    from Cons.IH [OF 1(2)] c1 show ?case by auto
  qed (simp add: ret_def)
  then show "ec_last c' = ec_last c" "ec_dirty c' = ec_dirty c"
    "map_of (ec_last c) s = Some p \<Longrightarrow> s \<in> set ss \<or> map_of (ec_persisted c) s = Some p \<Longrightarrow> map_of (ec_persisted c') s = Some p"
    by blast+
qed

lemma snapshot_result:
  assumes "marks_kept c" and "snapshot_once env d c = (x, c')"
  shows "marks_kept c'" "x = Inr () \<Longrightarrow> ec_dirty c' = [] \<and> ec_disk c' = ec_view c'"
proof -
  have first: "keeps marks_kept (\<lambda>c. case mark_positions n t ps c of (u, c) \<Rightarrow> (Inr u, c))" for n t ps
    by (rule keepsI) (auto simp: mark_positions_def mark_fold_ok split: prod.splits)
  have rows: "keeps marks_kept (for_each (\<lambda>a. case f a of (b, u, r) \<Rightarrow> insert_equity ts a b u r) as)" for f ts as
    by (intro keeps_for_each keepsI) (simp add: insert_equity_ok split: prod.splits)
  have empty: "marks_kept (c\<lparr>ec_dirty := []\<rparr>)" if "marks_kept c" "\<And>s p. map_of (ec_last c) s = Some p \<Longrightarrow> map_of (ec_persisted c) s = Some p" for c
  proof -
    let ?c = "c\<lparr>ec_dirty := []\<rparr>"
    note ok = marks_okD [OF that(1)]
    have "q > Fin 0 \<and> (k \<in> set (ec_dirty ?c) \<or> map_of (ec_persisted ?c) k = Some q)" if "map_of (ec_last ?c) k = Some q" for k q
      using that ok(1) \<open>\<And>s p. map_of (ec_last c) s = Some p \<Longrightarrow> map_of (ec_persisted c) s = Some p\<close> by simp
    moreover have "map_of (ec_last ?c) k \<noteq> None" if "map_of (ec_persisted ?c) k = Some q" "q > Fin 0" for k q
      using that ok(4) by simp
    moreover have "map_of (ec_persisted ?c) k = map_option fst (map_of (sd_marks (ec_view ?c)) k)" for k using ok(5) by simp
    moreover have "dict_ok (sd_marks (ec_view ?c))" using ok(6) by simp
    ultimately show ?thesis unfolding marks_kept_def by blast
  qed
  have marks: "keeps marks_kept (write_marks ts)" for ts
  proof (rule keepsI)
    fix c assume ok: "marks_kept c"
    obtain y c1 where w: "for_each (write_mark ts) (sort (ec_dirty c)) c = (y, c1)" by fastforce
    have "keeps marks_kept (for_each (write_mark ts) (sort (ec_dirty c)))"
      by (intro keeps_for_each keepsI write_mark_ok)
    from keepsD [OF this ok] have 1: "marks_kept c1" by (simp add: w)
    show "marks_kept (snd (write_marks ts c))"
    proof (cases y)
      case (Inl e)
      with 1 w show ?thesis by (simp add: write_marks_def then_do_apply)
    next
      case (Inr u)
      with w have w: "for_each (write_mark ts) (sort (ec_dirty c)) c = (Inr (), c1)" by simp
      note e = write_each [OF w]
      have "map_of (ec_persisted c1) s = Some p" if "map_of (ec_last c1) s = Some p" for s p
        using e(3) [of s p] that marks_okD(3) [OF ok, of s p] unfolding e(1) by auto
      from empty [OF 1 this] w show ?thesis by (simp add: write_marks_def then_do_apply)
    qed
  qed
  have inserts: "keeps marks_kept (insert_equity ts a b u r)" for ts a b u r by (rule keepsI) (rule insert_equity_ok)
  have shadows: "keeps marks_kept (for_each (shadow_row n t ts d) avs)" for n t ts avs by (intro keeps_for_each shadow_row_ok)
  have commit: "keeps marks_kept (commit_snapshot b)" for b
  proof (rule keepsI)
    fix c assume "marks_kept c"
    moreover have "marks_kept (snd (commit_snapshot b c)) = marks_kept c" by (rule marks_kept_cong) (simp_all add: commit_snapshot_def)
    ultimately show "marks_kept (snd (commit_snapshot b c))" by simp
  qed
  have "keeps marks_kept (snapshot_once env d)"
    unfolding snapshot_once_def Let_def
    apply (rule keeps_bind [OF first])
    apply (rule keeps_then_do, rule rows)
    apply (rule keeps_then_do, rule shadows)
    apply (rule keeps_then_do, rule inserts)
    apply (rule keeps_then_do, rule marks)
    apply (rule commit)
    done
  from keepsD [OF this assms(1)] assms(2) show "marks_kept c'" by simp
  assume "x = Inr ()"
  then have s: "snapshot_once env d c = (Inr (), c')" using assms(2) by simp
  obtain u c1 where m: "mark_positions (se_clock env) (se_ticker env) (get_all_open_positions d None) c = (u, c1)" by fastforce
  obtain c4 c5 where "write_marks (se_mark_time env) c4 = (Inr (), c5)" "c' = c5\<lparr>ec_disk := ec_view c5\<rparr>"
    by (rule snapshot_stages [OF s m refl refl refl])
  then show "ec_dirty c' = [] \<and> ec_disk c' = ec_view c'"
    by (auto simp: write_marks_def then_do_apply split: prod.splits sum.splits)
qed

lemma run_marks_kept: "marks_kept c \<Longrightarrow> marks_kept (run_snapshots xs c)"
proof (induction xs arbitrary: c)
  case (Cons x xs)
  obtain env d where x: "x = (env, d)" by (cases x)
  obtain y c1 where s: "snapshot_once env d c = (y, c1)" by fastforce
  from snapshot_result(1) [OF Cons.prems s] Cons.IH show ?case by (simp add: run_snapshots_def x s)
qed (simp add: run_snapshots_def)

text \<open>
  C21. A restart after a snapshot loses no price.  Whatever snapshots a collector made since it was
  started, failed ones among them, when the last of them succeeds and the worker is started again on
  the database that is left, every position is marked at the same price as it would have been
  without the restart, however cold the ticker is.
\<close>

theorem marks_survive_restart:
  assumes "dict_ok (sd_marks disk)" and "snapshot_once env d (run_snapshots xs (start_collector disk)) = (Inr (), c)"
  shows "fst (equity_price now ticker s (start_collector (ec_disk c))) = fst (equity_price now ticker s c)"
proof -
  have "marks_kept (run_snapshots xs (start_collector disk))" by (rule run_marks_kept) (rule start_marks_kept, fact)
  note r = snapshot_result [OF this assms(2)]
  have d: "ec_dirty c = []" "ec_disk c = ec_view c" using r(2) by simp_all
  note ok = marks_okD [OF r(1)]
  note l = start_collector_lookup(1) [OF ok(6), of s]
  have "map_of (ec_last (start_collector (ec_disk c))) s = map_of (ec_last c) s"
  proof (cases "map_of (ec_last c) s")
    case (Some p)
    then have "map_of (ec_persisted c) s = Some p" "p > Fin 0" using ok(1,3) d(1) by simp_all
    with ok(5) obtain t where "map_of (sd_marks (ec_view c)) s = Some (p, t)" by (cases "map_of (sd_marks (ec_view c)) s") auto
    with \<open>p > Fin 0\<close> show ?thesis unfolding d(2) l Some by simp
  next
    case None
    have "\<not> q > Fin 0" if "map_of (sd_marks (ec_view c)) s = Some (q, t)" for q t
      using that ok(4) [of s q] None ok(5) [of s] by auto
    then show ?thesis unfolding d(2) l None by (cases "map_of (sd_marks (ec_view c)) s") auto
  qed
  note same = this
  show ?thesis unfolding equity_price_mark(1) mark_of_def same by (rule refl)
qed

theorem marks_survive_restart_witness:
  "fst (equity_price 500 (new_ticker_cache 60) ''BTC'' (start_collector (ec_disk (snd (snapshot_once (ex_snapshot True) ex_equity_db
     (run_snapshots [(ex_snapshot False, ex_equity_db)] (start_collector ex_disk))))))) = Some (Fin 110)"
proof -
  let ?run = "snapshot_once (ex_snapshot True) ex_equity_db (run_snapshots [(ex_snapshot False, ex_equity_db)] (start_collector ex_disk))"
  have ok: "fst ?run = Inr ()" by code_simp
  have "dict_ok (sd_marks ex_disk)" by simp
  from marks_survive_restart [OF this prod.collapse [of ?run, symmetric, unfolded ok], of 500 "new_ticker_cache 60" "''BTC''"]
  have "fst (equity_price 500 (new_ticker_cache 60) ''BTC'' (start_collector (ec_disk (snd ?run)))) =
      fst (equity_price 500 (new_ticker_cache 60) ''BTC'' (snd ?run))" .
  also have "\<dots> = Some (Fin 110)" by code_simp
  finally show ?thesis .
qed

end
