(* ===== verification/SoloStrategy.thy ===== *)
theory SoloStrategy
  imports StrategyContext
begin

text \<open>
  What the strategies that trade a single symbol have in common
  (\<^verbatim>\<open>alphas/runner/strategies/supertrend_xau_v2\<close>, \<^verbatim>\<open>xau_m30\<close> and their siblings): the time of a bar, the
  positions that are theirs, the signals they send and what they store.

  A position is the dictionary the code keeps.  What the dispatcher answers to a signal, whether a
  write to Redis succeeds, and \<open>uuid5\<close> are arguments.
\<close>

section \<open>The state and what it meets_stop\<close>

record solo_signal =
  om_type :: string
  om_fields :: obj
  om_metadata :: obj

record solo =
  sl_positions :: held
  sl_sent :: "solo_signal list"
  sl_stored :: "jtext option"
  sl_alerts :: "alert_proxy option"
  sl_registered :: "(string \<times> json) list"

text \<open>
  \<open>sv_emit\<close>: the dispatcher raises, publishes the signal, or drops it and returns \<open>None\<close>.
\<close>

record solo_env =
  sv_emit :: "solo_signal \<Rightarrow> bool res"
  sv_written :: bool
  sv_client :: bool
  sv_cache :: cache
  sv_flags :: runtime_flags
  sv_uuid :: "string \<Rightarrow> string"

record solo_id =
  si_alpha :: string
  si_version :: string
  si_preset :: int
  si_symbol :: string
  si_exchange :: string

section \<open>Bars\<close>

record candle_series =
  cs_opens :: "pyfloat list"
  cs_highs :: "pyfloat list"
  cs_lows :: "pyfloat list"
  cs_closes :: "pyfloat list"
  cs_times :: "int list"

definition m1_ms :: int where "m1_ms = 60 * 1000"

definition m15_ms :: int where "m15_ms = 15 * 60 * 1000"

definition timestamp_ms :: "int \<Rightarrow> int" where
  "timestamp_ms v = (if \<bar>v\<bar> < 1000000000000 then v * 1000 else v)"

text \<open>With close semantics a time is the end of its bar, or a millisecond before it.\<close>

definition bar_open_ms :: "bool \<Rightarrow> int \<Rightarrow> int \<Rightarrow> int" where
  "bar_open_ms close_stamps v tf_ms =
     (let t = timestamp_ms v
      in if close_stamps then (if t mod 1000 = 999 then t + 1 else t) - tf_ms else t)"

section \<open>Smoothed averages\<close>

text \<open>\<open>later_ranges\<close>: the true ranges of bars (high, low, close) after one that closed at \<open>c0\<close>.\<close>

fun later_ranges :: "pyfloat \<Rightarrow> (pyfloat \<times> pyfloat \<times> pyfloat) list \<Rightarrow> pyfloat list" where
  "later_ranges c0 [] = []"
| "later_ranges c0 ((h, l, c) # bs) = pymax (pymax (h - l) (fabs (h - c0))) (fabs (l - c0)) # later_ranges c bs"

fun range_list :: "(pyfloat \<times> pyfloat \<times> pyfloat) list \<Rightarrow> pyfloat list" where
  "range_list [] = []"
| "range_list ((h, l, c) # bs) = (h - l) # later_ranges c bs"

fun smooth :: "pyfloat \<Rightarrow> pyfloat \<Rightarrow> pyfloat list \<Rightarrow> pyfloat list" where
  "smooth a y [] = []"
| "smooth a y (x # xs) = (let z = a * x + (Fin 1 - a) * y in z # smooth a z xs)"

fun smoothed :: "pyfloat \<Rightarrow> pyfloat list \<Rightarrow> pyfloat list" where
  "smoothed a [] = []"
| "smoothed a (x # xs) = x # smooth a x xs"

definition atr_rma :: "int \<Rightarrow> (pyfloat \<times> pyfloat \<times> pyfloat) list \<Rightarrow> pyfloat list res" where
  "atr_rma period bs =
     (if bs = [] then Inr [] else res_bind (fdiv (Fin 1) (Fin (of_int period))) (\<lambda>a. Inr (smoothed a (range_list bs))))"

lemma length_later_ranges [simp]: "length (later_ranges c bs) = length bs"
  by (induction c bs rule: later_ranges.induct) auto

lemma length_range_list [simp]: "length (range_list bs) = length bs"
  by (cases bs) auto

lemma length_smooth [simp]: "length (smooth a y xs) = length xs"
  by (induction xs arbitrary: y) (auto simp: Let_def)

lemma length_smoothed [simp]: "length (smoothed a xs) = length xs"
  by (cases xs) auto

section \<open>Own positions\<close>

text \<open>\<open>value.get(k) or runtime.get(k)\<close>, then \<open>str(... or "")\<close>.\<close>

definition owner_field :: "obj \<Rightarrow> string \<Rightarrow> string" where
  "owner_field d k =
     (let v = dget d k JNull;
          w = if json_truthy v then v else dget (object_or_empty (dget d ''strategy_runtime'' (JObj []))) k JNull
      in if json_truthy w then jstr w else '''')"

definition owned_by :: "solo_id \<Rightarrow> obj \<Rightarrow> bool" where
  "owned_by i d \<longleftrightarrow> upper (jstr (dget d ''symbol'' (JStr ''''))) = si_symbol i \<and> owner_field d ''alpha_id'' = si_alpha i \<and>
     owner_field d ''version'' = si_version i \<and> owner_field d ''preset'' = show_int (si_preset i)"

definition add_owned :: "solo_id \<Rightarrow> string \<times> json \<Rightarrow> held \<Rightarrow> held" where
  "add_owned i kv ps = (case snd kv of
       JObj d \<Rightarrow>
         (if owned_by i d
          then (let v = dget d ''position_id'' JNull; pid = if json_truthy v then jstr v else fst kv
                in dset pid (dset ''position_id'' (JStr pid) d) ps)
          else ps)
     | _ \<Rightarrow> ps)"

text \<open>
  \<open>_load_positions\<close>: the worker's view when there is one, else the own store; the answers of Redis
  to both reads are arguments.
\<close>

definition load_owned :: "solo_id \<Rightarrow> jtext option res \<Rightarrow> jtext option res \<Rightarrow> held" where
  "load_owned i snapshot_reply store_reply =
     (case load_authoritative_positions snapshot_reply of
        Some auth \<Rightarrow> fold (add_owned i) (map (\<lambda>(k, d). (k, JObj d)) auth) []
      | None \<Rightarrow> (case load_positions store_reply of JObj d \<Rightarrow> fold (add_owned i) d [] | _ \<Rightarrow> []))"

section \<open>Signals and the store\<close>

definition emit_solo :: "solo_env \<Rightarrow> solo_signal \<Rightarrow> ('a solo_scheme, unit) eff" where
  "emit_solo env g = (\<lambda>s. case sv_emit env g of
       Inl e \<Rightarrow> (Inl e, s)
     | Inr b \<Rightarrow> (Inr (), if b then s\<lparr>sl_sent := sl_sent s @ [g]\<rparr> else s))"

definition sync_solo_alerts :: "solo_env \<Rightarrow> solo_id \<Rightarrow> 'a solo_scheme \<Rightarrow> 'a solo_scheme" where
  "sync_solo_alerts env i s = (case sl_alerts s of
       None \<Rightarrow> s
     | Some p \<Rightarrow> (let (p, msg) = alert_sync (sv_client env) (if sl_positions s = [] then [] else [si_symbol i]) p
         in s\<lparr>sl_alerts := Some p, sl_registered := sl_registered s @ (case msg of None \<Rightarrow> [] | Some m \<Rightarrow> [m])\<rparr>))"

definition persist_solo :: "solo_env \<Rightarrow> solo_id \<Rightarrow> 'a solo_scheme \<Rightarrow> 'a solo_scheme" where
  "persist_solo env i s = sync_solo_alerts env i
     (s\<lparr>sl_stored := if sl_positions s = [] then clear_positions (sv_written env) (sl_stored s)
                    else save_positions (sv_written env) (sl_positions s) (sl_stored s)\<rparr>)"

definition existing_position :: "'a solo_scheme \<Rightarrow> (string \<times> obj) option" where
  "existing_position s = (case sl_positions s of [] \<Rightarrow> None | p # ps \<Rightarrow> Some p)"

text \<open>The dictionary of a position is changed in place.\<close>

definition set_field :: "string \<Rightarrow> string \<Rightarrow> json \<Rightarrow> 'a solo_scheme \<Rightarrow> 'a solo_scheme" where
  "set_field pid k v s = s\<lparr>sl_positions := map (\<lambda>(q, d). if q = pid then (q, dset k v d) else (q, d)) (sl_positions s)\<rparr>"

text \<open>\<open>math.floor(x * 1000) / 1000\<close>.\<close>

definition floor3 :: "pyfloat \<Rightarrow> pyfloat res" where
  "floor3 x = (case x * Fin 1000 of
       Fin r \<Rightarrow> Inr (Fin (of_int \<lfloor>r\<rfloor> / 1000))
     | NaN \<Rightarrow> Inl (ValueError ''cannot convert float NaN to integer'')
     | _ \<Rightarrow> Inl OverflowError)"

text \<open>A field of a position as a float: \<open>float(position[k])\<close> and \<open>float(position.get(k, v))\<close>.\<close>

definition float_item :: "obj \<Rightarrow> string \<Rightarrow> pyfloat res" where
  "float_item d k = res_bind (obj_item d k) jfloat"

definition float_get :: "obj \<Rightarrow> string \<Rightarrow> json \<Rightarrow> pyfloat res" where
  "float_get d k v = jfloat (dget d k v)"

end
