(* ===== verification/SuperTrend.thy ===== *)
theory SuperTrend
  imports SoloStrategy
begin

text \<open>
  \<^verbatim>\<open>alphas/runner/strategies/supertrend_xau_v2/strategy.py\<close>: it enters when the Supertrend of the
  15-minute bars flips and leaves when the next flip comes or a trailing stop, which every minute
  moves with the best price, is met.
\<close>

section \<open>The Supertrend\<close>

definition down_trend :: int where "down_trend = 1"

definition up_trend :: int where "up_trend = -1"

definition ref_slippage :: pyfloat where "ref_slippage = Fin (1 / 10000)"

text \<open>The bands of a bar (high, low, close, average range).\<close>

definition basic_bands :: "pyfloat \<Rightarrow> pyfloat \<times> pyfloat \<times> pyfloat \<times> pyfloat \<Rightarrow> pyfloat \<times> pyfloat" where
  "basic_bands factor = (\<lambda>(h, l, c, a). let mid = (h + l) * Fin (1 / 2) in (mid + factor * a, mid - factor * a))"

text \<open>The bands, the direction and the close of the bar before; then those of this bar.\<close>

definition trend_step ::
  "pyfloat \<Rightarrow> pyfloat \<times> pyfloat \<times> pyfloat \<times> pyfloat \<Rightarrow> pyfloat \<times> pyfloat \<times> int \<times> pyfloat \<Rightarrow> pyfloat \<times> pyfloat \<times> int \<times> pyfloat" where
  "trend_step factor b = (\<lambda>(ub, lb, d, c0). let (h, l, c, a) = b; (bu, bl) = basic_bands factor b;
       ub' = (if bu < ub \<or> c0 > ub then bu else ub);
       lb' = (if bl > lb \<or> c0 < lb then bl else lb);
       d' = (if d = 1 then if c > ub' then -1 else 1 else if c < lb' then 1 else -1)
     in (ub', lb', d', c))"

fun trend_walk ::
  "pyfloat \<Rightarrow> pyfloat \<times> pyfloat \<times> int \<times> pyfloat \<Rightarrow> (pyfloat \<times> pyfloat \<times> pyfloat \<times> pyfloat) list \<Rightarrow> int list" where
  "trend_walk factor st [] = []"
| "trend_walk factor st (b # bs) = (let st = trend_step factor b st in fst (snd (snd st)) # trend_walk factor st bs)"

fun directions_of :: "pyfloat \<Rightarrow> (pyfloat \<times> pyfloat \<times> pyfloat \<times> pyfloat) list \<Rightarrow> int list" where
  "directions_of factor [] = []"
| "directions_of factor (b # bs) =
     (let (h, l, c, a) = b; (bu, bl) = basic_bands factor b in 1 # trend_walk factor (bu, bl, 1, c) bs)"

definition compute_supertrend_directions :: "pyfloat \<Rightarrow> int \<Rightarrow> candle_series \<Rightarrow> int list res" where
  "compute_supertrend_directions factor period s =
     (let bs = zip (cs_highs s) (zip (cs_lows s) (cs_closes s))
      in res_bind (atr_rma period bs) (\<lambda>atr.
         Inr (directions_of factor (map (\<lambda>((h, l, c), a). (h, l, c, a)) (zip bs atr)))))"

section \<open>The trailing stop of a minute\<close>

text \<open>Whether it is met, at what price, the best price, and the next stop.\<close>

type_synonym minute_result = "bool \<times> pyfloat option \<times> pyfloat \<times> pyfloat option"

definition process_long_minute ::
  "pyfloat \<Rightarrow> pyfloat \<Rightarrow> pyfloat \<Rightarrow> pyfloat \<Rightarrow> pyfloat \<Rightarrow> pyfloat \<Rightarrow> pyfloat \<Rightarrow> pyfloat option \<Rightarrow> minute_result" where
  "process_long_minute slip retrace o' h l entry best active =
     (let moved = (let best' = pymax best h; profit = best' - entry
                   in if profit \<le> Fin 0 then (False, None, best', active)
                      else (let stop = entry + profit * (Fin 1 - retrace)
                            in (False, None, best', Some (case active of None \<Rightarrow> stop | Some a \<Rightarrow> pymax a stop))))
      in case active of
           None \<Rightarrow> moved
         | Some a \<Rightarrow>
             (if o' \<le> a then (True, Some (o' * (Fin 1 - slip)), best, None)
              else if l \<le> a then (True, Some (a * (Fin 1 - slip)), best, None)
              else moved))"

definition process_short_minute ::
  "pyfloat \<Rightarrow> pyfloat \<Rightarrow> pyfloat \<Rightarrow> pyfloat \<Rightarrow> pyfloat \<Rightarrow> pyfloat \<Rightarrow> pyfloat \<Rightarrow> pyfloat option \<Rightarrow> minute_result" where
  "process_short_minute slip retrace o' h l entry best active =
     (let moved = (let best' = pymin best l; profit = entry - best'
                   in if profit \<le> Fin 0 then (False, None, best', active)
                      else (let stop = entry - profit * (Fin 1 - retrace)
                            in (False, None, best', Some (case active of None \<Rightarrow> stop | Some a \<Rightarrow> pymin a stop))))
      in case active of
           None \<Rightarrow> moved
         | Some a \<Rightarrow>
             (if a \<le> o' then (True, Some (o' * (Fin 1 + slip)), best, None)
              else if a \<le> h then (True, Some (a * (Fin 1 + slip)), best, None)
              else moved))"

section \<open>Configuration and state\<close>

record trend_cfg =
  tc_id :: solo_id
  tc_retrace :: pyfloat
  tc_factor :: pyfloat
  tc_atr_period :: int
  tc_capital :: pyfloat
  tc_leverage :: pyfloat
  tc_fraction :: pyfloat
  tc_fee :: pyfloat
  tc_m15_bars :: int
  tc_m1_bars :: int
  tc_retain :: int
  tc_min_m15 :: int
  tc_close_stamps :: bool

definition param_float :: "obj \<Rightarrow> string \<Rightarrow> pyfloat \<Rightarrow> pyfloat res" where
  "param_float d k v = jfloat (dget d k (JNum v))"

definition param_int :: "obj \<Rightarrow> string \<Rightarrow> int \<Rightarrow> int res" where
  "param_int d k v = py_int (dget d k (JInt v))"

definition trend_cfg_of :: "string \<Rightarrow> string \<Rightarrow> obj \<Rightarrow> trend_cfg res" where
  "trend_cfg_of alpha version d =
     res_bind (param_int d ''preset'' 5) (\<lambda>preset.
     if preset \<notin> {5, 10} then Inl (ValueError ''preset'') else
     res_bind (param_float d ''retrace_pct'' (Fin (of_int preset / 100))) (\<lambda>retrace.
     res_bind (param_float d ''factor'' (Fin 3)) (\<lambda>factor.
     res_bind (param_int d ''atr_period'' 10) (\<lambda>period.
     res_bind (param_float d ''capital'' (Fin 10000)) (\<lambda>capital.
     res_bind (param_float d ''leverage'' (Fin 10)) (\<lambda>leverage.
     res_bind (param_float d ''position_fraction'' (Fin 1)) (\<lambda>fraction.
     res_bind (param_float d ''fee_pct'' (Fin (5 / 10000))) (\<lambda>fee.
     res_bind (param_int d ''warmup_bars'' 320) (\<lambda>m15.
     res_bind (param_int d ''m1_warmup_bars'' 60) (\<lambda>m1.
     res_bind (param_int d ''retain_bars'' m15) (\<lambda>retain.
     res_bind (param_int d ''min_m15_bars'' 80) (\<lambda>min_m15.
     let stamps = lower (jstr (dget d ''timestamp_semantics'' (JStr ''open'')))
     in if stamps \<notin> {''open'', ''close''} then Inl (ValueError ''timestamp_semantics'')
        else Inr \<lparr>tc_id = \<lparr>si_alpha = alpha, si_version = version, si_preset = preset,
               si_symbol = upper (jstr (dget d ''symbol'' (JStr ''XAUUSDT''))),
               si_exchange = jstr (dget d ''exchange'' (JStr ''binance''))\<rparr>,
             tc_retrace = retrace, tc_factor = factor, tc_atr_period = period, tc_capital = capital, tc_leverage = leverage,
             tc_fraction = fraction, tc_fee = fee, tc_m15_bars = m15, tc_m1_bars = m1, tc_retain = retain,
             tc_min_m15 = min_m15, tc_close_stamps = (stamps = ''close'')\<rparr>))))))))))))"

record trend = solo +
  td_dir :: int
  td_15m :: "int option"
  td_1m :: "int option"
  td_pending_15m :: "int option"
  td_pending_1m :: "int option"

definition start_trend ::
  "trend_cfg \<Rightarrow> jtext option res \<Rightarrow> jtext option res \<Rightarrow> jtext option \<Rightarrow> alert_proxy option \<Rightarrow> trend" where
  "start_trend cfg snapshot_reply store_reply stored alerts =
     \<lparr>sl_positions = load_owned (tc_id cfg) snapshot_reply store_reply, sl_sent = [], sl_stored = stored, sl_alerts = alerts,
      sl_registered = [], td_dir = 0, td_15m = None, td_1m = None, td_pending_15m = None, td_pending_1m = None\<rparr>"

section \<open>Events\<close>

definition trend_warmup_bars :: "trend_cfg \<Rightarrow> string \<Rightarrow> int" where
  "trend_warmup_bars cfg tf = (if tf = ''1m'' then tc_m1_bars cfg else tc_m15_bars cfg)"

definition trend_retain_bars :: "trend_cfg \<Rightarrow> string \<Rightarrow> int" where
  "trend_retain_bars cfg tf = max (trend_warmup_bars cfg tf) (tc_retain cfg)"

definition trend_should_scan :: "trend_cfg \<Rightarrow> solo_env \<Rightarrow> string \<Rightarrow> string \<Rightarrow> string option \<Rightarrow> (trend, bool) eff" where
  "trend_should_scan cfg env kind smb tf =
     (if kind \<noteq> ''kline'' \<or> smb \<noteq> si_symbol (tc_id cfg) \<or> \<not> rf_ready (sv_flags env) then ret False
      else case tf of
          None \<Rightarrow> ret False
        | Some tf \<Rightarrow> (case get_latest_timestamp (si_symbol (tc_id cfg), tf) (sv_cache env) of
            None \<Rightarrow> ret False
          | Some latest \<Rightarrow>
             (if tf = ''15m'' then
                bind get_state (\<lambda>s. let t = bar_open_ms (tc_close_stamps cfg) latest m15_ms
                in if td_15m s \<noteq> None \<and> t \<le> the (td_15m s) then ret False
                   else then_do (modify (\<lambda>s. s\<lparr>td_pending_15m := Some t\<rparr>)) (ret True))
              else if tf = ''1m'' then
                bind get_state (\<lambda>s. let t = bar_open_ms (tc_close_stamps cfg) latest m1_ms
                in if td_1m s \<noteq> None \<and> t \<le> the (td_1m s) then ret False
                   else then_do (modify (\<lambda>s. s\<lparr>td_pending_1m := Some t\<rparr>)) (ret True))
              else ret False)))"

definition trend_series :: "trend_cfg \<Rightarrow> solo_env \<Rightarrow> string \<Rightarrow> candle_series" where
  "trend_series cfg env tf =
     (let v = candle_snapshot_of (si_symbol (tc_id cfg), tf) (trend_retain_bars cfg tf) (sv_cache env)
      in \<lparr>cs_opens = sn_opens v, cs_highs = sn_highs v, cs_lows = sn_lows v, cs_closes = sn_closes v,
          cs_times = map (\<lambda>t. bar_open_ms (tc_close_stamps cfg) t (if tf = ''1m'' then m1_ms else m15_ms)) (sn_times v)\<rparr>)"

section \<open>Opening and closing\<close>

definition position_text :: "solo_id \<Rightarrow> int \<Rightarrow> string \<Rightarrow> string" where
  "position_text i candle side =
     si_alpha i @ ''|'' @ si_version i @ ''|'' @ show_int (si_preset i) @ ''|'' @ show_int candle @ ''|'' @ side"

definition trend_position :: "trend_cfg \<Rightarrow> string \<Rightarrow> string \<Rightarrow> pyfloat \<Rightarrow> pyfloat \<Rightarrow> int \<Rightarrow> obj" where
  "trend_position cfg pid side entry qty candle =
     [(''position_id'', JStr pid), (''symbol'', JStr (si_symbol (tc_id cfg))), (''alpha_id'', JStr (si_alpha (tc_id cfg))),
      (''version'', JStr (si_version (tc_id cfg))), (''preset'', JInt (si_preset (tc_id cfg))), (''side'', JStr side),
      (''entry'', JNum entry), (''qty'', JNum qty), (''tp'', JNull), (''sl'', JNull), (''entry_candle_open_ms'', JInt candle),
      (''last_trend_dir'', JInt (if side = ''LONG'' then up_trend else down_trend)),
      (''best_high'', JNum (if side = ''LONG'' then entry else Fin 0)),
      (''best_low'', JNum (if side = ''SHORT'' then entry else Fin 0)), (''active_trailing'', JNull)]"

definition trend_open_signal :: "trend_cfg \<Rightarrow> obj \<Rightarrow> solo_signal" where
  "trend_open_signal cfg p =
     \<lparr>om_type = ''OPEN'',
      om_fields = map (\<lambda>k. (k, dget p k JNull)) [''position_id'', ''symbol'', ''side'', ''entry'', ''qty'', ''tp'', ''sl''] @
        [(''leverage'', JNum (tc_leverage cfg)), (''exchange'', JStr (si_exchange (tc_id cfg))), (''fee_pct'', JNum (tc_fee cfg)),
         (''tf'', JStr ''15m''), (''signal_candle_open_ms'', dget p ''entry_candle_open_ms'' JNull)],
      om_metadata = [(''preset'', JInt (si_preset (tc_id cfg))), (''retrace_pct'', JNum (tc_retrace cfg)),
        (''strategy_runtime'', JObj p), (''allow_duplicate_position'', JBool False)]\<rparr>"

definition open_trend :: "trend_cfg \<Rightarrow> solo_env \<Rightarrow> string \<Rightarrow> pyfloat \<Rightarrow> int \<Rightarrow> (trend, unit) eff" where
  "open_trend cfg env side entry candle =
     bind get_state (\<lambda>s. if existing_position s \<noteq> None then ret ()
     else bind (lift_res (res_bind (fdiv (tc_capital cfg * tc_fraction cfg * tc_leverage cfg) entry) floor3)) (\<lambda>qty.
       if qty < Fin (1 / 1000) then ret ()
       else (let pid = sv_uuid env (position_text (tc_id cfg) candle side); p = trend_position cfg pid side entry qty candle
         in then_do (emit_solo env (trend_open_signal cfg p))
            (modify (\<lambda>s. s\<lparr>sl_positions := dset pid p (sl_positions s)\<rparr>)))))"

definition trend_close_signal :: "trend_cfg \<Rightarrow> json \<Rightarrow> string \<Rightarrow> pyfloat option \<Rightarrow> int \<Rightarrow> solo_signal" where
  "trend_close_signal cfg pid reason px candle =
     \<lparr>om_type = ''CLOSE'',
      om_fields = [(''position_id'', pid), (''symbol'', JStr (si_symbol (tc_id cfg))), (''reason'', JStr reason), (''exit_price'', jopt JNum px)],
      om_metadata = [(''preset'', JInt (si_preset (tc_id cfg))), (''source'', JStr ''supertrend_xau_v2''),
        (''ref_is_executable'', JBool True), (''signal_candle_open_ms'', JInt candle)]\<rparr>"

definition close_trend :: "trend_cfg \<Rightarrow> solo_env \<Rightarrow> obj \<Rightarrow> string \<Rightarrow> pyfloat option \<Rightarrow> int \<Rightarrow> (trend, unit) eff" where
  "close_trend cfg env p reason px candle =
     bind (lift_res (obj_item p ''position_id'')) (\<lambda>pid.
     then_do (emit_solo env (trend_close_signal cfg pid reason px candle))
     (modify (\<lambda>s. s\<lparr>sl_positions := ddel (jstr pid) (sl_positions s)\<rparr>)))"

section \<open>A 15-minute bar\<close>

definition adopt_trend :: "trend_cfg \<Rightarrow> candle_series \<Rightarrow> (trend, unit) eff" where
  "adopt_trend cfg series =
     bind get_state (\<lambda>s. case existing_position s of
         Some (pid, p) \<Rightarrow>
           bind (lift_res (obj_item p ''side'')) (\<lambda>side.
           let d = (if side = JStr ''LONG'' then up_trend else down_trend)
           in modify (\<lambda>s. set_field pid ''last_trend_dir'' (JInt d) s\<lparr>td_dir := d\<rparr>))
       | None \<Rightarrow>
           bind (lift_res (compute_supertrend_directions (tc_factor cfg) (tc_atr_period cfg) series)) (\<lambda>ds.
           modify (\<lambda>s. s\<lparr>td_dir := if ds = [] then 0 else last ds\<rparr>)))"

definition flip_trend :: "trend_cfg \<Rightarrow> solo_env \<Rightarrow> int \<Rightarrow> pyfloat \<Rightarrow> int \<Rightarrow> (trend, unit) eff" where
  "flip_trend cfg env d px candle =
     bind get_state (\<lambda>s. case existing_position s of
         None \<Rightarrow> open_trend cfg env (if d = down_trend then ''SHORT'' else ''LONG'') px candle
       | Some (pid, p) \<Rightarrow>
           bind (lift_res (obj_item p ''side'')) (\<lambda>side.
           if side = JStr ''LONG'' \<and> d = down_trend \<or> side = JStr ''SHORT'' \<and> d = up_trend
           then then_do (close_trend cfg env p ''TREND_FLIP'' (Some px) candle)
             (open_trend cfg env (if d = down_trend then ''SHORT'' else ''LONG'') px candle)
           else ret ()))"

definition scan_15m :: "trend_cfg \<Rightarrow> solo_env \<Rightarrow> int \<Rightarrow> (trend, unit) eff" where
  "scan_15m cfg env candle =
     (let series = trend_series cfg env ''15m''
      in if int (length (cs_closes series)) < tc_min_m15 cfg \<or> cs_times series = [] \<or> last (cs_times series) \<noteq> candle then ret ()
         else bind get_state (\<lambda>s.
           then_do (modify (\<lambda>s. s\<lparr>td_15m := Some candle\<rparr>))
           (if td_15m s = None then adopt_trend cfg series
            else bind (lift_res (compute_supertrend_directions (tc_factor cfg) (tc_atr_period cfg) series)) (\<lambda>ds.
              if ds = [] then throw IndexError
              else if last ds = td_dir s then ret ()
              else then_do (modify (\<lambda>s. s\<lparr>td_dir := last ds\<rparr>)) (flip_trend cfg env (last ds) (last (cs_closes series)) candle)))))"

section \<open>A minute\<close>

definition minute_of :: "trend_cfg \<Rightarrow> candle_series \<Rightarrow> bool \<Rightarrow> obj \<Rightarrow> minute_result res" where
  "minute_of cfg series long p =
     res_bind (float_item p ''entry'') (\<lambda>entry.
     res_bind (float_get p (if long then ''best_high'' else ''best_low'') (JNum entry)) (\<lambda>best.
     res_bind (float_or_none (dget p ''active_trailing'' JNull)) (\<lambda>active.
     let a = (case active of JNum x \<Rightarrow> Some x | _ \<Rightarrow> None); minute = (if long then process_long_minute else process_short_minute)
     in Inr (minute ref_slippage (tc_retrace cfg) (last (cs_opens series)) (last (cs_highs series)) (last (cs_lows series)) entry best a))))"

definition manage_minute :: "trend_cfg \<Rightarrow> solo_env \<Rightarrow> candle_series \<Rightarrow> int \<Rightarrow> string \<times> obj \<Rightarrow> (trend, unit) eff" where
  "manage_minute cfg env series candle = (\<lambda>(pid, p).
     bind (lift_res (obj_item p ''side'')) (\<lambda>side.
     let long = (jstr side = ''LONG'')
     in bind (lift_res (minute_of cfg series long p)) (\<lambda>(exited, px, best, next).
        then_do (modify (set_field pid (if long then ''best_high'' else ''best_low'') (JNum best)))
        (if exited
         then close_trend cfg env (dset (if long then ''best_high'' else ''best_low'') (JNum best) p) ''TRAILING_TP'' px candle
         else modify (\<lambda>s. set_field pid ''tp'' (jopt JNum next) (set_field pid ''active_trailing'' (jopt JNum next) s))))))"

definition scan_1m :: "trend_cfg \<Rightarrow> solo_env \<Rightarrow> int \<Rightarrow> (trend, unit) eff" where
  "scan_1m cfg env candle =
     (let series = trend_series cfg env ''1m''
      in if cs_times series = [] \<or> last (cs_times series) \<noteq> candle then ret ()
         else then_do (modify (\<lambda>s. s\<lparr>td_1m := Some candle\<rparr>))
           (bind get_state (\<lambda>s. case existing_position s of
              None \<Rightarrow> ret () | Some kp \<Rightarrow> manage_minute cfg env series candle kp)))"

section \<open>A scan\<close>

definition trend_scan :: "trend_cfg \<Rightarrow> solo_env \<Rightarrow> (trend, unit) eff" where
  "trend_scan cfg env =
     bind get_state (\<lambda>s.
     then_do (case td_pending_15m s of None \<Rightarrow> ret ()
        | Some t \<Rightarrow> then_do (scan_15m cfg env t) (modify (\<lambda>s. s\<lparr>td_pending_15m := None\<rparr>)))
     (bind get_state (\<lambda>s.
      then_do (case td_pending_1m s of None \<Rightarrow> ret ()
        | Some t \<Rightarrow> then_do (scan_1m cfg env t) (modify (\<lambda>s. s\<lparr>td_pending_1m := None\<rparr>)))
      (modify (persist_solo env (tc_id cfg))))))"

end
