(* ===== verification/SuperTrendProperties.thy ===== *)
theory SuperTrendProperties
  imports SuperTrend AlphaWorker
begin

text \<open>
  The trailing stop of the Supertrend strategy against a definition without state, and what a restart
  of the runner keeps of it.
\<close>

section \<open>The stop of a long position\<close>

text \<open>The minutes (open, high, low) from a best price and a stop: when and at what price it is met.\<close>

fun long_minutes ::
  "pyfloat \<Rightarrow> pyfloat \<Rightarrow> pyfloat \<Rightarrow> nat \<Rightarrow> (real \<times> real \<times> real) list \<Rightarrow> pyfloat \<times> pyfloat option \<Rightarrow> (nat \<times> pyfloat option) option" where
  "long_minutes slip r e k [] st = None"
| "long_minutes slip r e k ((o', h, l) # ms) (best, active) =
     (case process_long_minute slip r (Fin o') (Fin h) (Fin l) e best active of
        (True, px, _, _) \<Rightarrow> Some (k, px)
      | (False, _, best, active) \<Rightarrow> long_minutes slip r e (Suc k) ms (best, active))"

definition peak :: "real \<Rightarrow> real list \<Rightarrow> real" where
  "peak e hs = foldl max e hs"

definition stop_of :: "real \<Rightarrow> real \<Rightarrow> real list \<Rightarrow> real option" where
  "stop_of r e hs = (if peak e hs > e then Some (e + (peak e hs - e) * (1 - r)) else None)"

definition high_of :: "real \<times> real \<times> real \<Rightarrow> real" where "high_of m = fst (snd m)"

definition low_of :: "real \<times> real \<times> real \<Rightarrow> real" where "low_of m = snd (snd m)"

text \<open>Minute \<open>k\<close> meets the stop the minutes before it have set.\<close>

definition meets_stop :: "real \<Rightarrow> real \<Rightarrow> (real \<times> real \<times> real) list \<Rightarrow> nat \<Rightarrow> bool" where
  "meets_stop r e ms k \<longleftrightarrow> (case stop_of r e (map high_of (take k ms)) of None \<Rightarrow> False | Some a \<Rightarrow> low_of (ms ! k) \<le> a)"

lemma peak_snoc [simp]: "peak e (hs @ [h]) = max (peak e hs) h"
  by (simp add: peak_def)

lemma peak_least: "e \<le> peak e hs"
  by (induction hs rule: rev_induct) (auto simp: peak_def)

lemma stop_grows: "0 \<le> r \<Longrightarrow> r \<le> 1 \<Longrightarrow> stop_of r e hs = Some a \<Longrightarrow> stop_of r e (hs @ [h]) = Some b \<Longrightarrow> a \<le> b"
  by (auto simp: stop_of_def max_def intro!: mult_right_mono split: if_splits)

lemma long_minute_ref:
  assumes "0 \<le> r" "r \<le> 1" "l \<le> o'"
  shows "process_long_minute (Fin slip) (Fin r) (Fin o') (Fin h) (Fin l) (Fin e) (Fin (peak e hs)) (map_option Fin (stop_of r e hs)) =
    (case stop_of r e hs of
       Some a \<Rightarrow> if l \<le> a then (True, Some (Fin (min o' a * (1 - slip))), Fin (peak e hs), None)
                 else (False, None, Fin (peak e (hs @ [h])), map_option Fin (stop_of r e (hs @ [h])))
     | None \<Rightarrow> (False, None, Fin (peak e (hs @ [h])), map_option Fin (stop_of r e (hs @ [h]))))"
proof (cases "stop_of r e hs")
  case None
  then have "peak e hs = e" using peak_least [of e hs] by (simp add: stop_of_def split: if_splits)
  with None show ?thesis by (simp add: process_long_minute_def stop_of_def max_def)
next
  case (Some a)
  then have p: "peak e hs > e" by (simp add: stop_of_def split: if_splits)
  then have q: "max (peak e hs) h > e" by (simp add: max_def)
  then obtain b where b: "stop_of r e (hs @ [h]) = Some b" "b = e + (max (peak e hs) h - e) * (1 - r)" by (simp add: stop_of_def)
  have "a \<le> b" by (rule stop_grows) fact+
  with Some q b assms(3) show ?thesis by (auto simp: process_long_minute_def Let_def min_def max_def)
qed

lemma long_minutes_ref:
  assumes "0 \<le> r" "r \<le> 1" "list_all (\<lambda>(o', h, l). l \<le> o') ms"
  shows "long_minutes (Fin slip) (Fin r) (Fin e) (length ns) ms (Fin (peak e (map high_of ns)), map_option Fin (stop_of r e (map high_of ns))) =
    Some (k, px) \<longleftrightarrow> length ns \<le> k \<and> k < length (ns @ ms) \<and> meets_stop r e (ns @ ms) k \<and>
      (\<forall>j. length ns \<le> j \<longrightarrow> j < k \<longrightarrow> \<not> meets_stop r e (ns @ ms) j) \<and>
      px = Some (Fin (min (fst ((ns @ ms) ! k)) (the (stop_of r e (map high_of (take k (ns @ ms))))) * (1 - slip)))"
  using assms(3)
proof (induction ms arbitrary: ns)
  case Nil
  then show ?case by simp
next
  case (Cons m ms)
  obtain o' h l where m: "m = (o', h, l)" by (cases m)
  have lo: "l \<le> o'" and rest: "list_all (\<lambda>(o', h, l). l \<le> o') ms" using Cons.prems m by simp_all
  let ?hs = "map high_of ns"
  have at: "meets_stop r e (ns @ m # ms) (length ns) \<longleftrightarrow> (case stop_of r e ?hs of None \<Rightarrow> False | Some a \<Rightarrow> l \<le> a)"
    by (cases "stop_of r e ?hs") (simp_all add: meets_stop_def m low_of_def)
  note step = long_minute_ref [OF assms(1,2) lo, of slip h e ?hs]
  show ?case
  proof (cases "meets_stop r e (ns @ m # ms) (length ns)")
    case True
    then obtain a where a: "stop_of r e ?hs = Some a" "l \<le> a" using at by (cases "stop_of r e ?hs") auto
    then have "long_minutes (Fin slip) (Fin r) (Fin e) (length ns) (m # ms) (Fin (peak e ?hs), map_option Fin (stop_of r e ?hs)) =
        Some (length ns, Some (Fin (min o' a * (1 - slip))))" using step by (simp add: m)
    moreover have "fst ((ns @ m # ms) ! length ns) = o'" by (simp add: m)
    ultimately show ?thesis using True a by (auto simp: not_less le_less)
  next
    case False
    have "long_minutes (Fin slip) (Fin r) (Fin e) (length ns) (m # ms) (Fin (peak e ?hs), map_option Fin (stop_of r e ?hs)) =
        long_minutes (Fin slip) (Fin r) (Fin e) (length (ns @ [m])) ms
          (Fin (peak e (map high_of (ns @ [m]))), map_option Fin (stop_of r e (map high_of (ns @ [m]))))"
    proof (cases "stop_of r e ?hs")
      case None
      with step show ?thesis by (simp add: m high_of_def)
    next
      case (Some a)
      with False at have "\<not> l \<le> a" by simp
      with Some step show ?thesis by (simp add: m high_of_def)
    qed
    note eq = this
    show ?thesis unfolding eq Cons.IH [OF rest, of "ns @ [m]"] using False
      by (auto simp: Suc_le_eq) (metis le_neq_implies_less not_less_eq_eq Suc_leI)+
  qed
qed

text \<open>
  C28. The trailing stop has no memory but the peak.  From the entry on, a long position is closed in
  the first minute whose low reaches the level the minutes before it have set - a fixed share of the
  way from the entry to the highest high so far, once that is above the entry - at that level or at the
  open if the minute opens below it, less the slippage; and in no other minute.
\<close>

theorem trailing_stop_is_retrace:
  assumes "0 \<le> r" and "r \<le> 1" and "list_all (\<lambda>(o', h, l). l \<le> o') ms"
  shows "long_minutes (Fin slip) (Fin r) (Fin e) 0 ms (Fin e, None) = Some (k, px) \<longleftrightarrow>
    k < length ms \<and> meets_stop r e ms k \<and> (\<forall>j < k. \<not> meets_stop r e ms j) \<and>
    px = Some (Fin (min (fst (ms ! k)) (the (stop_of r e (map high_of (take k ms)))) * (1 - slip)))"
  using long_minutes_ref [OF assms, of slip e "[]" k px] by (simp add: stop_of_def peak_def)

theorem trailing_stop_is_retrace_witness:
  "long_minutes (Fin 0) (Fin (1 / 2)) (Fin 100) 0 [(100, 110, 100), (108, 109, 104)] (Fin 100, None) = Some (1, Some (Fin 105))"
proof -
  let ?ms = "[(100, 110, 100), (108, 109, 104)] :: (real \<times> real \<times> real) list"
  have s: "stop_of (1 / 2) 100 [] = None" "stop_of (1 / 2) 100 [110] = Some 105" by (simp_all add: stop_of_def peak_def)
  have "meets_stop (1 / 2) 100 ?ms 1" "\<not> meets_stop (1 / 2) 100 ?ms 0" by (simp_all add: meets_stop_def s high_of_def low_of_def)
  then have "(Suc 0) < length ?ms \<and> meets_stop (1 / 2) 100 ?ms (Suc 0) \<and> (\<forall>j < Suc 0. \<not> meets_stop (1 / 2) 100 ?ms j) \<and>
      Some (Fin 105) = Some (Fin (min (fst (?ms ! Suc 0)) (the (stop_of (1 / 2) 100 (map high_of (take (Suc 0) ?ms)))) * (1 - 0)))"
    by (simp add: s high_of_def)
  with trailing_stop_is_retrace [of "1 / 2" ?ms 0 100 "Suc 0" "Some (Fin 105)"] show ?thesis by simp
qed

section \<open>Shorts mirror longs\<close>

lemma neg_neg: "- (- x) = x" for x :: pyfloat
  by (cases x) (simp_all add: uminus_pyfloat_def)

lemma neg_plus: "- (x + y) = - x + - y" for x y :: pyfloat
  by (cases x; cases y) (simp_all add: uminus_pyfloat_def plus_pyfloat_def)

lemma minus_plus: "x - y = x + - y" for x y :: pyfloat
  unfolding minus_pyfloat_def plus_pyfloat_def uminus_pyfloat_def by (rule refl)

lemma neg_times: "- x * y = - (x * y)" for x y :: pyfloat
  by (cases x; cases y) (simp_all add: uminus_pyfloat_def times_pyfloat_def sgn_minus)

lemma neg_less: "- x < - y \<longleftrightarrow> y < x" for x y :: pyfloat
  by (cases x; cases y) (simp_all add: less_pyfloat_def uminus_pyfloat_def)

lemma neg_le: "- x \<le> - y \<longleftrightarrow> y \<le> x" for x y :: pyfloat
  by (cases x; cases y) (auto simp: less_eq_pyfloat_def uminus_pyfloat_def fle_def)

lemmas pyfloat_neg_order = neg_less neg_le

lemma pyfloat_add_commute: "x + y = y + x" for x y :: pyfloat
  by (cases x; cases y) (simp_all add: plus_pyfloat_def)

lemma pymin_neg: "pymin x y = - pymax (- x) (- y)"
  by (simp add: pymin_def pymax_def pyfloat_neg_order neg_neg)

definition mirrored_minute :: "minute_result \<Rightarrow> minute_result" where
  "mirrored_minute = (\<lambda>(met, px, best, active). (met, map_option uminus px, - best, map_option uminus active))"

text \<open>
  C29. The stop of a short position is that of a long one seen in a mirror.  For every minute and every
  state, also with infinite prices or NaN, \<open>process_short_minute\<close> is \<open>process_long_minute\<close> on the negated
  prices, with high and low exchanged and the slippage to the other side.
\<close>

theorem short_minute_mirrors_long:
  "process_short_minute slip r o' h l e best active =
    mirrored_minute (process_long_minute (- slip) r (- o') (- l) (- h) (- e) (- best) (map_option uminus active))"
proof -
  have profit: "e - pymin best l = pymax (- best) (- l) - - e"
    by (simp add: pymin_neg minus_plus neg_neg pyfloat_add_commute)
  have stop: "e - p * q = - (- e + p * q)" for p q by (simp add: minus_plus neg_plus neg_neg)
  have slips: "Fin 1 + slip = Fin 1 - - slip" by (simp add: minus_plus neg_neg)
  have times: "- (- x * y) = x * y" for x y :: pyfloat by (simp add: neg_times neg_neg)
  show ?thesis
    unfolding process_short_minute_def process_long_minute_def Let_def mirrored_minute_def profit
    by (cases active) (simp_all add: pyfloat_neg_order stop slips pymin_neg times neg_neg)
qed

section \<open>A restart\<close>

lemma map_of_setdefault_kept: "map_of d k = Some v \<Longrightarrow> map_of (setdefault k' w d) k = Some v"
  by (auto simp: setdefault_def)

lemma map_of_with_defaults: "map_of r k = Some v \<Longrightarrow> map_of (with_defaults b r) k = Some v"
  by (simp add: with_defaults_def Let_def map_of_setdefault_kept)

lemma owned_fields:
  assumes "map_of n ''symbol'' = Some (JStr (si_symbol i))" "map_of n ''alpha_id'' = Some (JStr (si_alpha i))"
    "map_of n ''version'' = Some (JStr (si_version i))" "map_of n ''preset'' = Some (JInt (si_preset i))"
    and "upper (si_symbol i) = si_symbol i" "si_alpha i \<noteq> ''''" "si_version i \<noteq> ''''" "si_preset i \<noteq> 0"
  shows "owned_by i n"
  using assms by (simp add: owned_by_def owner_field_def dget_def Let_def)

text \<open>What a row of the worker becomes whose metadata holds the dictionary \<open>p\<close> as runtime.\<close>

lemma normalize_runtime_row:
  assumes "dget md ''strategy_runtime'' JNull = JObj p" "map_of md ''trail_distance'' = None" "map_of md ''trade_size'' = None"
    and "dict_ok p" "map_of p ''trail_distance'' = None" "map_of p ''entry'' = Some (JNum e)" "map_of p ''qty'' = Some (JNum q)"
    and "p_entry pos = Some e'" "p_qty pos = Some q'"
  obtains n where "normalize_position (row_json sh (pos, JObj md)) = Inr n" "\<And>k v. map_of p k = Some v \<Longrightarrow> map_of n k = Some v"
proof -
  let ?d = "row_json sh (pos, JObj md)"
  have f: "map_of ?d ''position_id'' = Some (JStr (p_id pos))" "map_of ?d ''symbol'' = Some (JStr (p_symbol pos))"
    "map_of ?d ''side'' = Some (JStr (p_side pos))" "map_of ?d ''entry_price'' = Some (JNum e')" "map_of ?d ''qty'' = Some (JNum q')"
    "dget ?d ''metadata'' JNull = JObj md" "dget ?d ''leverage'' JNull = JInt (p_leverage pos)"
    "dget ?d ''tp'' JNull = jopt JNum (p_tp pos)" "dget ?d ''sl'' JNull = jopt JNum (p_sl pos)"
    using assms(8,9) by (simp_all add: row_json_def dget_def jopt_def)
  have opt: "\<exists>j. float_or_none (jopt JNum v) = Inr j" for v by (cases v) (simp_all add: float_or_none_def jopt_def)
  obtain tp sl where ts: "float_or_none (jopt JNum (p_tp pos)) = Inr tp" "float_or_none (jopt JNum (p_sl pos)) = Inr sl" using opt by metis
  have "\<exists>r. authoritative_fields ?d = Inr r \<and> map_of r ''trail_distance'' = None"
    using ts by (simp add: authoritative_fields_def obj_item_def f)
  then obtain r where r: "authoritative_fields ?d = Inr r" "map_of r ''trail_distance'' = None" by blast
  let ?r = "dupdate r p"
  have m: "map_of ?r = map_of r ++ map_of p" using assms(4) by (rule map_of_dupdate)
  have at: "map_of p k = Some v \<Longrightarrow> map_of ?r k = Some v" for k v by (simp add: m)
  have trail: "with_trail md ?r = Inr ?r"
    using r(2) assms(2,5) by (simp add: with_trail_def Let_def dget_def m map_add_def)
  have eq: "number (dget ?r ''entry'' JNull) = Inr e" "number (dget ?r ''qty'' JNull) = Inr q"
    using at [OF assms(6)] at [OF assms(7)] by (simp_all add: dget_def)
  have "normalize_position ?d = Inr (with_defaults True (setdefault ''size'' (JNum (e * q)) ?r))"
    using assms(1,3) r(1) trail eq by (simp add: normalize_position_def f object_or_empty_def runtime_of_def dget_def [of md "''trade_size''"])
  then show thesis by (rule that) (simp add: map_of_with_defaults map_of_setdefault_kept at)
qed

text \<open>
  C30. A restart forgets the trailing stop.  The worker holds the position with the metadata of its OPEN;
  a runner that is started again takes the position from the worker's snapshot, whatever it has
  stored itself, and with it no stop and a best price that is the entry: the peak and the stop of
  all minutes since the entry are lost, though they are in its own store.
\<close>

theorem restart_forgets_trailing:
  assumes "p = trend_position cfg pid side entry qty candle" and "side = ''LONG'' \<or> side = ''SHORT''" and "pid \<noteq> ''''"
    and "upper (si_symbol (tc_id cfg)) = si_symbol (tc_id cfg)" "si_alpha (tc_id cfg) \<noteq> ''''" "si_version (tc_id cfg) \<noteq> ''''"
      "si_preset (tc_id cfg) \<noteq> 0"
    and "p_metadata pos = Some (jdumps (JObj md))" "dget md ''strategy_runtime'' JNull = JObj p"
      "map_of md ''trail_distance'' = None" "map_of md ''trade_size'' = None"
    and "p_id pos = pid" "p_entry pos = Some e'" "p_qty pos = Some q'" and "sn_positions s = [snapshot_position pos]"
    and "s' = start_trend cfg (Inr (Some (jdumps (JObj (snapshot_json sh s))))) store stored alerts"
  shows "\<exists>n. sl_positions s' = [(pid, n)] \<and> dget n ''active_trailing'' JNull = JNull \<and>
    dget n (if side = ''LONG'' then ''best_high'' else ''best_low'') JNull = JNum entry"
proof -
  have p: "dict_ok p" "map_of p ''trail_distance'' = None" "map_of p ''entry'' = Some (JNum entry)" "map_of p ''qty'' = Some (JNum qty)"
    "map_of p ''position_id'' = Some (JStr pid)" "map_of p ''active_trailing'' = Some JNull"
    "map_of p (if side = ''LONG'' then ''best_high'' else ''best_low'') = Some (JNum entry)"
    "map_of p ''symbol'' = Some (JStr (si_symbol (tc_id cfg)))" "map_of p ''alpha_id'' = Some (JStr (si_alpha (tc_id cfg)))"
    "map_of p ''version'' = Some (JStr (si_version (tc_id cfg)))" "map_of p ''preset'' = Some (JInt (si_preset (tc_id cfg)))"
    using assms(2) by (auto simp: assms(1) trend_position_def)
  obtain n where n: "normalize_position (row_json sh (pos, JObj md)) = Inr n" "\<And>k v. map_of p k = Some v \<Longrightarrow> map_of n k = Some v"
    by (rule normalize_runtime_row [OF assms(9-11) p(1-4) assms(13,14), of sh], rule that)
  have row: "snapshot_position pos = (pos, JObj md)" using assms(8) by (simp add: snapshot_position_def)
  have "authoritative_item (JObj (row_json sh (pos, JObj md))) = [(pid, n)]"
    using n(1) n(2) [OF p(5)] assms(3,12) by (simp add: authoritative_item_def obj_item_def) (simp add: row_json_def dget_def)
  then have "load_authoritative_positions (Inr (Some (jdumps (JObj (snapshot_json sh s))))) = Some [(pid, n)]"
    using assms(15) row by (simp add: load_authoritative_positions_def parse_snapshot_def snapshot_json_def dget_def)
  moreover have "owned_by (tc_id cfg) n" by (rule owned_fields) (use n(2) p assms(4-7) in simp_all)
  ultimately have "sl_positions s' = [(pid, dset ''position_id'' (JStr pid) n)]"
    using n(2) [OF p(5)] assms(3,16) by (simp add: start_trend_def load_owned_def add_owned_def dget_def Let_def)
  moreover have "dget (dset ''position_id'' (JStr pid) n) ''active_trailing'' JNull = JNull"
    using n(2) [OF p(6)] by (simp add: dget_def)
  moreover have "dget (dset ''position_id'' (JStr pid) n) (if side = ''LONG'' then ''best_high'' else ''best_low'') JNull = JNum entry"
    using n(2) [OF p(7)] by (auto simp: dget_def split: if_splits)
  ultimately show ?thesis by blast
qed

definition demo_trend_cfg :: trend_cfg where
  "demo_trend_cfg = \<lparr>tc_id = \<lparr>si_alpha = ''a'', si_version = ''1'', si_preset = 5, si_symbol = ''XAU'', si_exchange = ''x''\<rparr>,
     tc_retrace = Fin (1 / 20), tc_factor = Fin 3, tc_atr_period = 10, tc_capital = Fin 10000, tc_leverage = Fin 10,
     tc_fraction = Fin 1, tc_fee = Fin 0, tc_m15_bars = 320, tc_m1_bars = 60, tc_retain = 320, tc_min_m15 = 1,
     tc_close_stamps = False\<rparr>"

definition demo_trend_position :: obj where
  "demo_trend_position = trend_position demo_trend_cfg ''p'' ''LONG'' (Fin 2000) (Fin 50) 0"

text \<open>The row of the worker for that position.\<close>

definition demo_trend_row :: position where
  "demo_trend_row = \<lparr>p_id = ''p'', p_alpha = ''a'', p_signal = ''s'', p_symbol = ''XAU'', p_side = ''LONG'',
     p_entry = Some (Fin 2000), p_qty = Some (Fin 50), p_tp = None, p_sl = None, p_leverage = 10, p_opened = NotIso '''',
     p_metadata = Some (jdumps (JObj (om_metadata (trend_open_signal demo_trend_cfg demo_trend_position)))), p_exchange = ''x'',
     p_fee_pct = None\<rparr>"

definition demo_trend_snapshot :: snapshot where
  "demo_trend_snapshot = \<lparr>sn_alpha = ''a'', sn_revision = 1, sn_generated = NotIso '''', sn_positions = [snapshot_position demo_trend_row]\<rparr>"

text \<open>The runner's own store knows a stop of 2095.\<close>

definition demo_trend_store :: jtext where
  "demo_trend_store = jdumps (held_json [(''p'', dset ''active_trailing'' (JNum (Fin 2095)) (dset ''best_high'' (JNum (Fin 2100)) demo_trend_position))])"

theorem restart_forgets_trailing_witness:
  "\<exists>n. sl_positions (start_trend demo_trend_cfg (Inr (Some (jdumps (JObj (snapshot_json (\<lambda>t. ''t'') demo_trend_snapshot)))))
      (Inr (Some demo_trend_store)) (Some demo_trend_store) None) = [(''p'', n)] \<and>
    dget n ''active_trailing'' JNull = JNull \<and> dget n ''best_high'' JNull = JNum (Fin 2000)"
  using restart_forgets_trailing [of demo_trend_position demo_trend_cfg "''p''" "''LONG''" "Fin 2000" "Fin 50" 0 demo_trend_row
      "om_metadata (trend_open_signal demo_trend_cfg demo_trend_position)" "Fin 2000" "Fin 50" demo_trend_snapshot _ "\<lambda>t. ''t''",
      OF demo_trend_position_def]
  by (simp add: demo_trend_cfg_def demo_trend_row_def demo_trend_snapshot_def trend_open_signal_def upper_def upper_char_def dget_def)

section \<open>One position at a time\<close>

definition single :: "trend \<Rightarrow> bool" where
  "single s \<longleftrightarrow> length (sl_positions s) \<le> 1"

lemma single_frame [simp]:
  "single (set_field pid k v s) = single s" "single (s\<lparr>td_dir := d\<rparr>) = single s" "single (s\<lparr>td_15m := t\<rparr>) = single s"
  "single (s\<lparr>td_1m := t\<rparr>) = single s" "single (s\<lparr>td_pending_15m := t\<rparr>) = single s" "single (s\<lparr>td_pending_1m := t\<rparr>) = single s"
  by (simp_all add: single_def set_field_def)

lemma single_persist [simp]: "single (persist_solo env i s) = single s"
  by (simp add: single_def persist_solo_def sync_solo_alerts_def Let_def split: option.splits prod.splits)

lemma single_emit: "keeps single (emit_solo env g)"
  by (rule keepsI) (simp add: emit_solo_def single_def split: sum.splits)

lemma single_open: "keeps single (open_trend cfg env side px candle)"
proof (rule keepsI)
  fix s assume s: "single s"
  show "single (snd (open_trend cfg env side px candle s))"
  proof (cases "sl_positions s")
    case Nil
    let ?open = "\<lambda>qty. let pid = sv_uuid env (position_text (tc_id cfg) candle side); p = trend_position cfg pid side px qty candle
         in then_do (emit_solo env (trend_open_signal cfg p)) (modify (\<lambda>s. s\<lparr>sl_positions := dset pid p (sl_positions s)\<rparr>))"
    have "single (snd (?open qty s))" for qty
      using Nil by (cases "sv_emit env (trend_open_signal cfg (trend_position cfg (sv_uuid env (position_text (tc_id cfg) candle side)) side px qty candle))")
        (simp_all add: Let_def then_do_apply emit_solo_def single_def)
    then show ?thesis using Nil s
      by (simp add: open_trend_def existing_position_def bind_apply split: sum.splits)
  next
    case (Cons p ps)
    with s show ?thesis by (simp add: open_trend_def existing_position_def)
  qed
qed

lemma single_close: "keeps single (close_trend cfg env p reason px candle)"
proof -
  have "single (s\<lparr>sl_positions := ddel k (sl_positions s)\<rparr>)" if "single s" for s k
    using that by (auto simp: single_def ddel_def intro: le_trans [OF length_filter_le])
  then show ?thesis unfolding close_trend_def by (intro keeps_bind keeps_then_do single_emit keeps_modify) simp_all
qed

lemma keeps_get_bind: "(\<And>s. keeps P (k s)) \<Longrightarrow> keeps P (bind get_state k)"
  by (rule keeps_bind) simp_all

lemma single_flip: "keeps single (flip_trend cfg env d px candle)"
  unfolding flip_trend_def
  by (intro keeps_get_bind) (auto intro!: keeps_bind keeps_then_do single_open single_close split: option.split)

lemma single_adopt: "keeps single (adopt_trend cfg series)"
  unfolding adopt_trend_def
  by (intro keeps_get_bind) (auto simp: Let_def intro!: keeps_bind keeps_modify split: option.split)

lemma single_15m: "keeps single (scan_15m cfg env candle)"
  unfolding scan_15m_def Let_def
  by (auto intro!: keeps_get_bind keeps_then_do keeps_modify keeps_bind single_adopt single_flip)

lemma single_minute: "keeps single (manage_minute cfg env series candle kp)"
  unfolding manage_minute_def
  by (cases kp) (auto simp: Let_def intro!: keeps_bind keeps_then_do keeps_modify single_close split: prod.split)

lemma single_1m: "keeps single (scan_1m cfg env candle)"
  unfolding scan_1m_def Let_def
  by (auto intro!: keeps_get_bind keeps_then_do keeps_modify keeps_bind single_minute split: option.split)

lemma single_scan: "keeps single (trend_scan cfg env)"
  unfolding trend_scan_def
  by (intro keeps_get_bind keeps_then_do) (auto intro!: keeps_then_do keeps_modify single_15m single_1m split: option.split)

text \<open>
  A signal that is dropped leaves a phantom.  Whatever the flags of the runtime say - the lease
  lost, the data stale - a flip of the trend opens a position in the runner's book even if the
  dispatcher drops the OPEN; nothing is sent, and as long as the phantom is held no other position is
  opened.
\<close>

theorem dropped_open_is_held:
  assumes "sl_positions s = []" and "fdiv (tc_capital cfg * tc_fraction cfg * tc_leverage cfg) px = Inr x" and "floor3 x = Inr qty"
    and "\<not> qty < Fin (1 / 1000)" and "\<And>g. sv_emit env g = Inr False"
    and "flip_trend cfg env d px candle s = (r, s')"
  shows "r = Inr () \<and> sl_sent s' = sl_sent s \<and> length (sl_positions s') = 1 \<and>
    open_trend cfg env' side' px' candle' s' = (Inr (), s')"
proof -
  let ?side = "if d = down_trend then ''SHORT'' else ''LONG''"
  let ?pid = "sv_uuid env (position_text (tc_id cfg) candle ?side)"
  have "flip_trend cfg env d px candle s = (Inr (), s\<lparr>sl_positions := [(?pid, trend_position cfg ?pid ?side px qty candle)]\<rparr>)"
    using assms(1-5) by (simp add: flip_trend_def existing_position_def open_trend_def Let_def then_do_apply emit_solo_def)
  with assms(6) show ?thesis by (auto simp: open_trend_def existing_position_def)
qed

theorem dropped_open_is_held_witness:
  "let env = \<lparr>sv_emit = (\<lambda>g. Inr False), sv_written = True, sv_client = False, sv_cache = new_cache 0,
         sv_flags = \<lparr>rf_data_stale = True, rf_reconcile_stale = False, rf_price_alert_stale = False, rf_lease_valid = False,
           rf_ready = True, rf_dropped_events = 0\<rparr>, sv_uuid = (\<lambda>s. s)\<rparr>;
       s = start_trend demo_trend_cfg (Inl RedisError) (Inl RedisError) None None
   in length (sl_positions (snd (flip_trend demo_trend_cfg env up_trend (Fin 2000) 0 s))) = 1"
  unfolding Let_def
proof (rule dropped_open_is_held [THEN conjunct2, THEN conjunct2, THEN conjunct1, OF _ _ _ _ _ prod.collapse [symmetric]])
  show "fdiv (tc_capital demo_trend_cfg * tc_fraction demo_trend_cfg * tc_leverage demo_trend_cfg) (Fin 2000) = Inr (Fin 50)"
    by (simp add: demo_trend_cfg_def)
  show "floor3 (Fin 50) = Inr (Fin 50)" by (simp add: floor3_def)
qed (simp_all add: start_trend_def load_owned_def load_authoritative_positions_def load_positions_def)

end
