(* ===== verification/XauM30.thy ===== *)
theory XauM30
  imports SoloStrategy Selection
begin

text \<open>
  \<^verbatim>\<open>alphas/runner/strategies/xau_m30/strategy.py\<close>: six presets of one strategy on half-hour bars, which
  it builds itself from pairs of quarter-hour bars.  It sizes a position by its risk, moves the stop to
  the entry, and watches take-profit and stop on every price alert.

  The wall clock of a time zone (weekday and hour of a time in milliseconds) is an argument.
\<close>

section \<open>Presets\<close>

definition m30_ms :: int where "m30_ms = 30 * 60 * 1000"

definition h4_ms :: int where "h4_ms = 4 * 60 * 60 * 1000"

record preset =
  pr_number :: int
  pr_max :: nat
  pr_rr :: real
  pr_pure_atr :: bool
  pr_session :: bool
  pr_macro :: bool
  pr_long_only :: bool
  pr_start :: int
  pr_end :: int

definition preset_of :: "int \<Rightarrow> preset option" where
  "preset_of n =
     (if n = 4 then Some \<lparr>pr_number = 4, pr_max = 3, pr_rr = 2, pr_pure_atr = False, pr_session = True, pr_macro = True,
        pr_long_only = False, pr_start = 7, pr_end = 18\<rparr>
      else if n = 5 then Some \<lparr>pr_number = 5, pr_max = 1, pr_rr = 18 / 10, pr_pure_atr = False, pr_session = True, pr_macro = True,
        pr_long_only = False, pr_start = 7, pr_end = 18\<rparr>
      else if n = 6 then Some \<lparr>pr_number = 6, pr_max = 1, pr_rr = 2, pr_pure_atr = False, pr_session = True, pr_macro = True,
        pr_long_only = False, pr_start = 7, pr_end = 18\<rparr>
      else if n = 10 then Some \<lparr>pr_number = 10, pr_max = 2, pr_rr = 25 / 10, pr_pure_atr = True, pr_session = False, pr_macro = False,
        pr_long_only = True, pr_start = 7, pr_end = 18\<rparr>
      else if n = 11 then Some \<lparr>pr_number = 11, pr_max = 1, pr_rr = 22 / 10, pr_pure_atr = True, pr_session = True, pr_macro = True,
        pr_long_only = False, pr_start = 7, pr_end = 15\<rparr>
      else if n = 12 then Some \<lparr>pr_number = 12, pr_max = 1, pr_rr = 26 / 10, pr_pure_atr = True, pr_session = True, pr_macro = True,
        pr_long_only = False, pr_start = 7, pr_end = 15\<rparr>
      else None)"

record m30_cfg =
  mc_id :: solo_id
  mc_preset :: preset
  mc_capital :: pyfloat
  mc_risk :: pyfloat
  mc_fee :: pyfloat
  mc_leverage :: pyfloat
  mc_m15_bars :: int
  mc_h4_bars :: int
  mc_retain :: int
  mc_close_stamps :: bool
  mc_weekends :: bool

definition m30_cfg_of :: "string \<Rightarrow> string \<Rightarrow> obj \<Rightarrow> m30_cfg res" where
  "m30_cfg_of alpha version d =
     res_bind (py_int (dget d ''preset'' (JInt 0))) (\<lambda>n. case preset_of n of
       None \<Rightarrow> Inl (ValueError ''preset'')
     | Some p \<Rightarrow>
     res_bind (jfloat (dget d ''capital'' (JNum (Fin 10000)))) (\<lambda>capital.
     res_bind (jfloat (dget d ''risk_pct'' (JNum (Fin (1 / 100))))) (\<lambda>risk.
     res_bind (jfloat (dget d ''fee_pct'' (JNum (Fin (5 / 10000))))) (\<lambda>fee.
     res_bind (jfloat (dget d ''leverage'' (JNum (Fin 10)))) (\<lambda>leverage.
     res_bind (py_int (dget d ''warmup_bars'' (JInt 320))) (\<lambda>m15.
     res_bind (py_int (dget d ''h4_warmup_bars'' (JInt 80))) (\<lambda>h4.
     res_bind (py_int (dget d ''retain_bars'' (JInt m15))) (\<lambda>retain.
     let stamps = lower (jstr (dget d ''timestamp_semantics'' (JStr ''open'')))
     in if stamps \<notin> {''open'', ''close''} then Inl (ValueError ''timestamp_semantics'')
        else Inr \<lparr>mc_id = \<lparr>si_alpha = alpha, si_version = version, si_preset = pr_number p,
               si_symbol = upper (jstr (dget d ''symbol'' (JStr ''XAUUSDT''))),
               si_exchange = jstr (dget d ''exchange'' (JStr ''binance''))\<rparr>,
             mc_preset = p, mc_capital = capital, mc_risk = risk, mc_fee = fee, mc_leverage = leverage, mc_m15_bars = m15,
             mc_h4_bars = h4, mc_retain = retain, mc_close_stamps = (stamps = ''close''),
             mc_weekends = json_truthy (dget d ''trade_weekends'' (JBool (\<not> pr_session p)))\<rparr>))))))))"

section \<open>Indicators\<close>

definition ema :: "nat \<Rightarrow> pyfloat list \<Rightarrow> pyfloat list" where
  "ema period xs = smoothed (Fin (2 / (real period + 1))) xs"

text \<open>The losses are never negative, so neither division is by zero.\<close>

definition rsi_value :: "pyfloat \<Rightarrow> pyfloat \<Rightarrow> pyfloat" where
  "rsi_value g l =
     (if l = Fin 0 \<and> g > Fin 0 then Fin 100 else if l = Fin 0 then Fin 50
      else Fin 100 - quot (Fin 100) (Fin 1 + quot g l))"

fun rsi_walk :: "pyfloat \<Rightarrow> pyfloat \<Rightarrow> pyfloat \<Rightarrow> (pyfloat \<times> pyfloat) list \<Rightarrow> pyfloat list" where
  "rsi_walk a g l [] = []"
| "rsi_walk a g l ((x, y) # xs) =
     (let g = a * x + (Fin 1 - a) * g; l = a * y + (Fin 1 - a) * l in rsi_value g l # rsi_walk a g l xs)"

fun moves :: "pyfloat list \<Rightarrow> (pyfloat \<times> pyfloat) list" where
  "moves (x # y # xs) = (pymax (y - x) (Fin 0), pymax (- (y - x)) (Fin 0)) # moves (y # xs)"
| "moves _ = []"

definition rsi14 :: "pyfloat list \<Rightarrow> pyfloat list" where
  "rsi14 xs = (if length xs < 2 then map (\<lambda>x. Fin 50) xs
     else rsi_walk (Fin (1 / 14)) (Fin 0) (Fin 0) ((Fin 0, Fin 0) # moves xs))"

definition atr14 :: "candle_series \<Rightarrow> pyfloat list" where
  "atr14 s = smoothed (Fin (1 / 14)) (range_list (zip (cs_highs s) (zip (cs_lows s) (cs_closes s))))"

text \<open>The entry \<open>k\<close> before the last, and the \<open>n\<close> entries before the last.\<close>

definition bar_from_end :: "nat \<Rightarrow> 'a list \<Rightarrow> 'a" where
  "bar_from_end k xs = xs ! (length xs - 1 - k)"

definition slice_before :: "nat \<Rightarrow> 'a list \<Rightarrow> 'a list" where
  "slice_before n xs = last_n n (butlast xs)"

definition max_of :: "pyfloat list \<Rightarrow> pyfloat" where
  "max_of xs = foldl pymax (hd xs) (tl xs)"

definition min_of :: "pyfloat list \<Rightarrow> pyfloat" where
  "min_of xs = foldl pymin (hd xs) (tl xs)"

definition median :: "pyfloat list \<Rightarrow> pyfloat" where
  "median xs = (let ys = sort_key fkey xs; n = length ys
     in if n mod 2 = 1 then ys ! (n div 2) else (ys ! (n div 2 - 1) + ys ! (n div 2)) * Fin (1 / 2))"

section \<open>Bars\<close>

type_synonym ohlc = "pyfloat \<times> pyfloat \<times> pyfloat \<times> pyfloat"

definition series_of :: "(int \<times> ohlc) list \<Rightarrow> candle_series" where
  "series_of rows =
     \<lparr>cs_opens = map (\<lambda>(t, op, h, l, c). op) rows, cs_highs = map (\<lambda>(t, op, h, l, c). h) rows,
      cs_lows = map (\<lambda>(t, op, h, l, c). l) rows, cs_closes = map (\<lambda>(t, op, h, l, c). c) rows, cs_times = map fst rows\<rparr>"

definition snapshot_rows :: "bool \<Rightarrow> int \<Rightarrow> candle_snapshot \<Rightarrow> (int \<times> ohlc) list" where
  "snapshot_rows close_stamps tf_ms v =
     map (\<lambda>(t, b). (bar_open_ms close_stamps t tf_ms, b)) (zip (sn_times v) (zip (sn_opens v) (zip (sn_highs v) (zip (sn_lows v) (sn_closes v)))))"

definition join_bars :: "ohlc \<Rightarrow> ohlc \<Rightarrow> ohlc" where
  "join_bars a b = (case (a, b) of ((o1, h1, l1, c1), (o2, h2, l2, c2)) \<Rightarrow> (o1, pymax h1 h2, pymin l1 l2, c2))"

definition m30_row :: "(int, ohlc) dict \<Rightarrow> int \<Rightarrow> (int \<times> ohlc) option" where
  "m30_row quarters start = (case (map_of quarters start, map_of quarters (start + m15_ms)) of
       (Some a, Some b) \<Rightarrow> if start mod m30_ms = 0 then Some (start, join_bars a b) else None
     | _ \<Rightarrow> None)"

definition m30_rows :: "(int \<times> ohlc) list \<Rightarrow> (int \<times> ohlc) list" where
  "m30_rows rows = (let quarters = dupdate [] rows in List.map_filter (m30_row quarters) (sort (keys quarters)))"

definition m30_warmup_bars :: "m30_cfg \<Rightarrow> string \<Rightarrow> int" where
  "m30_warmup_bars cfg tf = (if tf = ''4h'' then mc_h4_bars cfg else mc_m15_bars cfg)"

definition m30_retain_bars :: "m30_cfg \<Rightarrow> string \<Rightarrow> int" where
  "m30_retain_bars cfg tf = max (m30_warmup_bars cfg tf) (mc_retain cfg)"

definition m30_series :: "m30_cfg \<Rightarrow> cache \<Rightarrow> candle_series" where
  "m30_series cfg c = series_of (m30_rows (snapshot_rows (mc_close_stamps cfg) m15_ms
     (candle_snapshot_of (si_symbol (mc_id cfg), ''15m'') (m30_retain_bars cfg ''15m'') c)))"

definition completed_h4 :: "m30_cfg \<Rightarrow> cache \<Rightarrow> int \<Rightarrow> candle_series" where
  "completed_h4 cfg c m30_close = series_of (filter (\<lambda>(t, b). t + h4_ms \<le> m30_close)
     (snapshot_rows (mc_close_stamps cfg) h4_ms (candle_snapshot_of (si_symbol (mc_id cfg), ''4h'') (m30_retain_bars cfg ''4h'') c)))"

definition is_trade_time :: "m30_cfg \<Rightarrow> (int \<Rightarrow> int \<times> int) \<Rightarrow> int \<Rightarrow> bool" where
  "is_trade_time cfg local candle =
     (let (weekday, hour) = local (candle + m30_ms); p = mc_preset cfg
      in (mc_weekends cfg \<or> weekday < 5) \<and> (\<not> pr_session p \<or> pr_start p \<le> hour \<and> hour \<le> pr_end p))"

section \<open>Entries\<close>

text \<open>Above and below, for a long and a short position.\<close>

definition beyond :: "bool \<Rightarrow> pyfloat \<Rightarrow> pyfloat \<Rightarrow> bool" where
  "beyond bullish x y = (if bullish then x > y else x < y)"

definition macro_side :: "candle_series \<Rightarrow> string option" where
  "macro_side h4 =
     (if length (cs_closes h4) < 54 then None
      else let e9 = ema 9 (cs_closes h4); e21 = ema 21 (cs_closes h4); e50 = ema 50 (cs_closes h4);
        trend = (\<lambda>up. beyond up (bar_from_end 0 e9) (bar_from_end 0 e21) \<and> beyond up (bar_from_end 0 e21) (bar_from_end 0 e50) \<and>
                 beyond up (bar_from_end 0 (cs_closes h4)) (bar_from_end 0 e50) \<and> beyond up (bar_from_end 0 e50) (bar_from_end 3 e50))
      in if trend True then Some ''LONG'' else if trend False then Some ''SHORT'' else None)"

record indicators =
  in_e9 :: "pyfloat list"
  in_e21 :: "pyfloat list"
  in_e50 :: "pyfloat list"
  in_rsi :: "pyfloat list"
  in_atr :: "pyfloat list"

definition indicators_of :: "candle_series \<Rightarrow> indicators" where
  "indicators_of s = \<lparr>in_e9 = ema 9 (cs_closes s), in_e21 = ema 21 (cs_closes s), in_e50 = ema 50 (cs_closes s),
     in_rsi = rsi14 (cs_closes s), in_atr = atr14 s\<rparr>"

definition in_range :: "real \<Rightarrow> pyfloat \<Rightarrow> real \<Rightarrow> bool" where
  "in_range a x b \<longleftrightarrow> Fin a \<le> x \<and> x \<le> Fin b"

definition rising :: "bool \<Rightarrow> pyfloat list \<Rightarrow> bool" where
  "rising up xs = beyond up (bar_from_end 0 xs) (bar_from_end 3 xs)"

definition matches12 :: "bool \<Rightarrow> candle_series \<Rightarrow> indicators \<Rightarrow> bool res" where
  "matches12 up s i =
     (if length (cs_closes s) < 42 then Inr False
      else res_bind (fdiv (bar_from_end 0 (in_atr i)) (median (slice_before 40 (in_atr i)))) (\<lambda>volatility.
        let c = bar_from_end 0 (cs_closes s);
            breakout = (if up then c > max_of (slice_before 20 (cs_highs s)) else c < min_of (slice_before 20 (cs_lows s)));
            impulse = Fin (75 / 100) * bar_from_end 0 (in_atr i) \<le> bar_from_end 0 (cs_highs s) - bar_from_end 0 (cs_lows s);
            direction = beyond up c (bar_from_end 0 (cs_opens s));
            trend = beyond up (bar_from_end 0 (in_e21 i)) (bar_from_end 0 (in_e50 i)) \<and> rising up (in_e21 i) \<and> rising up (in_e50 i)
        in Inr (trend \<and> in_range (90 / 100) volatility (250 / 100) \<and> breakout \<and> impulse \<and> direction)))"

definition matches11 :: "bool \<Rightarrow> candle_series \<Rightarrow> indicators \<Rightarrow> bool res" where
  "matches11 up s i =
     (if length (cs_closes s) < 50 then Inr False
      else res_bind (fdiv (bar_from_end 0 (in_atr i)) (median (slice_before 48 (in_atr i)))) (\<lambda>volatility.
        let c = bar_from_end 0 (cs_closes s);
            touched = (if up then bar_from_end 0 (cs_lows s) \<le> bar_from_end 0 (in_e21 i) \<or> bar_from_end 1 (cs_lows s) \<le> bar_from_end 1 (in_e21 i)
                       else bar_from_end 0 (in_e21 i) \<le> bar_from_end 0 (cs_highs s) \<or> bar_from_end 1 (in_e21 i) \<le> bar_from_end 1 (cs_highs s));
            reclaim = beyond up c (bar_from_end 0 (in_e9 i)) \<and> beyond up c (bar_from_end 1 (if up then cs_highs s else cs_lows s));
            rsi_ok = (if up then in_range 42 (bar_from_end 0 (in_rsi i)) 63 else in_range 37 (bar_from_end 0 (in_rsi i)) 58);
            trend = beyond up (bar_from_end 0 (in_e9 i)) (bar_from_end 0 (in_e21 i)) \<and> beyond up (bar_from_end 0 (in_e21 i)) (bar_from_end 0 (in_e50 i)) \<and>
              rising up (in_e21 i) \<and> rising up (in_e50 i)
        in Inr (trend \<and> in_range (70 / 100) volatility (220 / 100) \<and> touched \<and> reclaim \<and> rsi_ok)))"

definition base_trend :: "int \<Rightarrow> bool \<Rightarrow> candle_series \<Rightarrow> indicators \<Rightarrow> bool" where
  "base_trend n up s i \<longleftrightarrow>
     beyond up (bar_from_end 0 (in_e9 i)) (bar_from_end 0 (in_e21 i)) \<and> beyond up (bar_from_end 0 (in_e21 i)) (bar_from_end 0 (in_e50 i)) \<and>
     beyond up (bar_from_end 0 (cs_closes s)) (bar_from_end 0 (in_e50 i)) \<and>
     (if n \<in> {5, 6} then rising up (in_e21 i) \<and> rising up (in_e50 i) else n \<in> {4, 10} \<longrightarrow> rising up (in_e50 i))"

definition rsi_zone :: "int \<Rightarrow> bool \<Rightarrow> real \<times> real" where
  "rsi_zone n up = (if n = 5 \<and> up then (35, 55) else if n = 5 then (45, 65) else (45, 55))"

definition matches_pullback :: "int \<Rightarrow> bool \<Rightarrow> candle_series \<Rightarrow> indicators \<Rightarrow> bool" where
  "matches_pullback n up s i =
     (let c = bar_from_end 0 (cs_closes s); e9 = bar_from_end 0 (in_e9 i); e21 = bar_from_end 0 (in_e21 i); rsi = (\<lambda>k. bar_from_end k (in_rsi i));
          touched = (if up then bar_from_end 0 (cs_lows s) \<le> pymax e9 e21 else pymin e9 e21 \<le> bar_from_end 0 (cs_highs s));
          green = beyond up c (bar_from_end 0 (cs_opens s)) \<and> beyond up c e9;
          (a, b) = rsi_zone n up;
          turned = beyond up (rsi 0) (rsi 1) \<and> (in_range a (rsi 1) b \<or> in_range a (rsi 2) b)
      in base_trend n up s i \<and> touched \<and> green \<and> (if n = 10 then in_range 40 (rsi 0) 60 else turned))"

definition matches :: "int \<Rightarrow> bool \<Rightarrow> candle_series \<Rightarrow> indicators \<Rightarrow> bool res" where
  "matches n up s i =
     (if n = 6 then Inr (base_trend n up s i \<and> beyond up (bar_from_end 0 (cs_closes s)) (bar_from_end 1 (if up then cs_highs s else cs_lows s)) \<and>
        beyond up (bar_from_end 0 (cs_closes s)) (bar_from_end 0 (in_e9 i)))
      else if n = 12 then matches12 up s i
      else if n = 11 then matches11 up s i
      else Inr (matches_pullback n up s i))"

fun first_match :: "(string \<Rightarrow> bool res) \<Rightarrow> string list \<Rightarrow> string option res" where
  "first_match f [] = Inr None"
| "first_match f (x # xs) = res_bind (f x) (\<lambda>b. if b then Inr (Some x) else first_match f xs)"

definition entry_side :: "m30_cfg \<Rightarrow> candle_series \<Rightarrow> candle_series \<Rightarrow> string option res" where
  "entry_side cfg s h4 =
     (let i = indicators_of s; p = mc_preset cfg; macro = (if pr_macro p then macro_side h4 else None)
      in if bar_from_end 0 (in_atr i) \<le> Fin 0 then Inr None
         else if pr_macro p \<and> macro = None then Inr None
         else first_match (\<lambda>side. if pr_macro p \<and> Some side \<noteq> macro then Inr False else matches (pr_number p) (side = ''LONG'') s i)
           (if pr_long_only p then [''LONG''] else [''LONG'', ''SHORT'']))"

section \<open>State and events\<close>

record m30 = solo +
  mt_last :: "int option"
  mt_pending :: "int option"

definition start_m30 :: "m30_cfg \<Rightarrow> jtext option res \<Rightarrow> jtext option res \<Rightarrow> jtext option \<Rightarrow> alert_proxy option \<Rightarrow> m30" where
  "start_m30 cfg snapshot_reply store_reply stored alerts =
     \<lparr>sl_positions = load_owned (mc_id cfg) snapshot_reply store_reply, sl_sent = [], sl_stored = stored, sl_alerts = alerts,
      sl_registered = [], mt_last = None, mt_pending = None\<rparr>"

definition m30_should_scan :: "m30_cfg \<Rightarrow> solo_env \<Rightarrow> string \<Rightarrow> string \<Rightarrow> string option \<Rightarrow> (m30, bool) eff" where
  "m30_should_scan cfg env kind smb tf =
     (if kind \<noteq> ''kline'' \<or> smb \<noteq> si_symbol (mc_id cfg) \<or> tf \<noteq> Some ''15m'' \<or> \<not> rf_ready (sv_flags env) then ret False
      else case get_latest_timestamp (si_symbol (mc_id cfg), ''15m'') (sv_cache env) of
          None \<Rightarrow> ret False
        | Some latest \<Rightarrow>
            (let t = bar_open_ms (mc_close_stamps cfg) latest m15_ms; start = t - m15_ms
             in if t mod m30_ms \<noteq> m15_ms then ret False
                else bind get_state (\<lambda>s. if mt_last s \<noteq> None \<and> start \<le> the (mt_last s) then ret False
                  else then_do (modify (\<lambda>s. s\<lparr>mt_pending := Some start\<rparr>)) (ret True))))"

section \<open>Managing positions on a bar\<close>

definition m30_close_signal :: "m30_cfg \<Rightarrow> string \<Rightarrow> string \<Rightarrow> pyfloat \<Rightarrow> bool \<Rightarrow> string \<Rightarrow> solo_signal" where
  "m30_close_signal cfg pid reason px executable source =
     \<lparr>om_type = ''CLOSE'',
      om_fields = [(''position_id'', JStr pid), (''symbol'', JStr (si_symbol (mc_id cfg))), (''reason'', JStr reason), (''exit_price'', JNum px)],
      om_metadata = [(''ref_is_executable'', JBool executable), (''source'', JStr source)]\<rparr>"

definition breakeven_signal :: "m30_cfg \<Rightarrow> string \<Rightarrow> pyfloat \<Rightarrow> solo_signal" where
  "breakeven_signal cfg pid entry =
     \<lparr>om_type = ''MODIFY'',
      om_fields = [(''position_id'', JStr pid), (''symbol'', JStr (si_symbol (mc_id cfg))), (''sl'', JNum entry)],
      om_metadata = [(''reason'', JStr ''BREAKEVEN_0_8R'')]\<rparr>"

definition drop_position :: "string \<Rightarrow> 'a solo_scheme \<Rightarrow> 'a solo_scheme" where
  "drop_position pid s = s\<lparr>sl_positions := ddel pid (sl_positions s)\<rparr>"

definition manage_one :: "m30_cfg \<Rightarrow> solo_env \<Rightarrow> pyfloat \<Rightarrow> pyfloat \<Rightarrow> string \<times> obj \<Rightarrow> (m30, unit) eff" where
  "manage_one cfg env e50 px = (\<lambda>(pid, p).
     bind (lift_res (obj_item p ''side'')) (\<lambda>side.
     let side = jstr side
     in if side = ''LONG'' \<and> px < e50 \<or> side = ''SHORT'' \<and> px > e50
        then then_do (emit_solo env (m30_close_signal cfg pid ''EMA50_REVERSAL'' px False ''xau_m30_bar'')) (modify (drop_position pid))
        else bind (lift_res (float_item p ''entry'')) (\<lambda>entry.
          bind (lift_res (res_bind (obj_item p ''sl'') (float_get p ''initial_sl''))) (\<lambda>initial.
          let risk = fabs (entry - initial);
              reached = Fin (8 / 10) * risk \<le> (if side = ''LONG'' then px - entry else entry - px)
          in if risk > Fin 0 \<and> reached \<and> \<not> json_truthy (dget p ''breakeven'' JNull)
             then then_do (emit_solo env (breakeven_signal cfg pid entry))
               (modify (\<lambda>s. set_field pid ''breakeven'' (JBool True) (set_field pid ''sl'' (JNum entry) s)))
             else ret ()))))"

definition manage_on_bar :: "m30_cfg \<Rightarrow> solo_env \<Rightarrow> candle_series \<Rightarrow> (m30, unit) eff" where
  "manage_on_bar cfg env series =
     (if pr_number (mc_preset cfg) \<notin> {4, 5, 6} then ret ()
      else bind get_state (\<lambda>s. for_each (manage_one cfg env (last (ema 50 (cs_closes series))) (last (cs_closes series))) (sl_positions s)))"

section \<open>Opening\<close>

definition stop_price :: "m30_cfg \<Rightarrow> string \<Rightarrow> pyfloat \<Rightarrow> candle_series \<Rightarrow> pyfloat \<Rightarrow> pyfloat" where
  "stop_price cfg side entry series atr =
     (let long = (side = ''LONG''); away = (\<lambda>d. if long then entry - d else entry + d)
      in if pr_pure_atr (mc_preset cfg)
         then away (Fin (if pr_number (mc_preset cfg) = 10 then 12 / 10 else if pr_number (mc_preset cfg) = 11 then 16 / 10 else 135 / 100) * atr)
         else (let e50 = last (ema 50 (cs_closes series)); buffer = Fin (15 / 10) * atr;
                   raw = (if long then pymin (min_of (last_n 11 (cs_lows series))) e50 - buffer
                          else pymax (max_of (last_n 11 (cs_highs series))) e50 + buffer)
               in if fabs (entry - raw) \<le> pymax (Fin (5 / 10)) (Fin (5 / 10) * atr) then away (Fin 2 * atr) else raw))"

text \<open>\<open>any\<close> over a test that may raise.\<close>

fun any_res :: "('a \<Rightarrow> bool res) \<Rightarrow> 'a list \<Rightarrow> bool res" where
  "any_res f [] = Inr False"
| "any_res f (x # xs) = res_bind (f x) (\<lambda>b. if b then Inr True else any_res f xs)"

definition too_close :: "pyfloat \<Rightarrow> pyfloat \<Rightarrow> obj \<Rightarrow> bool res" where
  "too_close entry atr p = res_bind (float_item p ''entry'') (\<lambda>e. Inr (fabs (entry - e) < Fin (5 / 10) * atr))"

definition worse_entry :: "string \<Rightarrow> pyfloat \<Rightarrow> obj \<Rightarrow> bool res" where
  "worse_entry side entry p = res_bind (float_item p ''entry'') (\<lambda>e. Inr (if side = ''LONG'' then entry < e else entry > e))"

definition position_size :: "m30_cfg \<Rightarrow> pyfloat \<Rightarrow> pyfloat \<Rightarrow> pyfloat res" where
  "position_size cfg entry risk =
     res_bind (res_bind (fdiv (mc_capital cfg * mc_risk cfg) risk) floor3) (\<lambda>q.
     res_bind (res_bind (fdiv (mc_capital cfg * mc_leverage cfg) entry) floor3) (\<lambda>most. Inr (pymin q most)))"

definition m30_position :: "m30_cfg \<Rightarrow> string \<Rightarrow> string \<Rightarrow> pyfloat \<Rightarrow> pyfloat \<Rightarrow> pyfloat \<Rightarrow> pyfloat \<Rightarrow> obj" where
  "m30_position cfg pid side entry qty tp sl =
     [(''position_id'', JStr pid), (''symbol'', JStr (si_symbol (mc_id cfg))), (''alpha_id'', JStr (si_alpha (mc_id cfg))),
      (''version'', JStr (si_version (mc_id cfg))), (''preset'', JInt (si_preset (mc_id cfg))), (''side'', JStr side),
      (''entry'', JNum entry), (''qty'', JNum qty), (''tp'', JNum tp), (''sl'', JNum sl), (''initial_sl'', JNum sl),
      (''breakeven'', JBool False)]"

definition m30_open_signal :: "m30_cfg \<Rightarrow> obj \<Rightarrow> int \<Rightarrow> solo_signal" where
  "m30_open_signal cfg p candle =
     \<lparr>om_type = ''OPEN'',
      om_fields = map (\<lambda>k. (k, dget p k JNull)) [''position_id'', ''symbol'', ''side'', ''entry'', ''qty'', ''tp'', ''sl''] @
        [(''leverage'', JNum (mc_leverage cfg)), (''exchange'', JStr (si_exchange (mc_id cfg))), (''fee_pct'', JNum (mc_fee cfg)),
         (''tf'', JStr ''30m''), (''signal_candle_open_ms'', JInt candle)],
      om_metadata = [(''preset'', JInt (si_preset (mc_id cfg))), (''strategy_runtime'', JObj p),
        (''allow_duplicate_position'', JBool (pr_max (mc_preset cfg) > 1))]\<rparr>"

definition m30_position_text :: "solo_id \<Rightarrow> int \<Rightarrow> string \<Rightarrow> nat \<Rightarrow> string" where
  "m30_position_text i candle side n =
     si_alpha i @ ''|'' @ si_version i @ ''|'' @ show_int candle @ ''|'' @ side @ ''|'' @ show_nat n"

text \<open>The position a bar opens, if any.\<close>

definition m30_entry :: "m30_cfg \<Rightarrow> solo_env \<Rightarrow> string \<Rightarrow> candle_series \<Rightarrow> held \<Rightarrow> (string \<times> obj) option res" where
  "m30_entry cfg env side series ps =
     (let same = filter (\<lambda>p. dget p ''side'' JNull = JStr side) (map snd ps); atr = last (atr14 series); entry = last (cs_closes series)
      in if pr_max (mc_preset cfg) \<le> length ps then Inr None
         else res_bind (any_res (too_close entry atr) same) (\<lambda>near.
           if near then Inr None
           else res_bind (if pr_number (mc_preset cfg) = 4 then any_res (worse_entry side entry) same else Inr False) (\<lambda>worse.
             if worse then Inr None
             else (let sl = stop_price cfg side entry series atr; risk = fabs (entry - sl)
               in if risk \<le> Fin 0 then Inr None
                  else res_bind (position_size cfg entry risk) (\<lambda>qty.
                    if qty < Fin (1 / 1000) then Inr None
                    else (let reward = Fin (pr_rr (mc_preset cfg)) * risk; tp = (if side = ''LONG'' then entry + reward else entry - reward);
                           pid = sv_uuid env (m30_position_text (mc_id cfg) (last (cs_times series)) side (length same))
                          in Inr (Some (pid, m30_position cfg pid side entry qty tp sl))))))))"

definition open_m30 :: "m30_cfg \<Rightarrow> solo_env \<Rightarrow> string \<Rightarrow> candle_series \<Rightarrow> (m30, unit) eff" where
  "open_m30 cfg env side series =
     bind get_state (\<lambda>s. bind (lift_res (m30_entry cfg env side series (sl_positions s))) (\<lambda>e. case e of
         None \<Rightarrow> ret ()
       | Some (pid, p) \<Rightarrow>
           then_do (emit_solo env (m30_open_signal cfg p (last (cs_times series))))
           (modify (\<lambda>s. s\<lparr>sl_positions := dset pid p (sl_positions s)\<rparr>))))"

section \<open>A scan\<close>

definition m30_scan :: "m30_cfg \<Rightarrow> solo_env \<Rightarrow> (int \<Rightarrow> int \<times> int) \<Rightarrow> (m30, unit) eff" where
  "m30_scan cfg env local =
     bind get_state (\<lambda>s. case mt_pending s of
       None \<Rightarrow> ret ()
     | Some start \<Rightarrow>
       (let bars30 = m30_series cfg (sv_cache env); h4 = completed_h4 cfg (sv_cache env) (last (cs_times bars30) + m30_ms)
        in if length (cs_closes bars30) < 80 \<or> last (cs_times bars30) \<noteq> start then ret ()
           else if pr_macro (mc_preset cfg) \<and> length (cs_closes h4) < 55 then ret ()
           else then_do (modify (\<lambda>s. s\<lparr>mt_last := Some start, mt_pending := None\<rparr>))
             (then_do (manage_on_bar cfg env bars30)
             (then_do (if \<not> flags_can_open (sv_flags env) \<or> \<not> is_trade_time cfg local start then ret ()
               else bind (lift_res (entry_side cfg bars30 h4)) (\<lambda>side. case side of
                   None \<Rightarrow> ret () | Some side \<Rightarrow> open_m30 cfg env side bars30))
             (modify (persist_solo env (mc_id cfg)))))))"

section \<open>A price alert\<close>

definition reaches :: "bool \<Rightarrow> pyfloat \<Rightarrow> obj \<Rightarrow> string \<Rightarrow> bool res" where
  "reaches profit px p k =
     res_bind (obj_item p ''side'') (\<lambda>side.
       if jstr side = ''LONG'' then res_bind (float_item p k) (\<lambda>x. Inr (if profit then x \<le> px else px \<le> x))
       else if jstr side = ''SHORT'' then res_bind (float_item p k) (\<lambda>x. Inr (if profit then px \<le> x else x \<le> px))
       else Inr False)"

definition alert_one :: "m30_cfg \<Rightarrow> solo_env \<Rightarrow> pyfloat \<Rightarrow> string \<times> obj \<Rightarrow> (m30, unit) eff" where
  "alert_one cfg env px = (\<lambda>(pid, p).
     bind (lift_res (reaches True px p ''tp'')) (\<lambda>hit_tp.
     bind (lift_res (reaches False px p ''sl'')) (\<lambda>hit_sl.
     if \<not> hit_tp \<and> \<not> hit_sl then ret ()
     else then_do (emit_solo env (m30_close_signal cfg pid (if hit_tp then ''TP_HIT'' else ''SL_HIT'') px True ''xau_m30_price_alert''))
       (modify (drop_position pid)))))"

definition m30_price_alert :: "m30_cfg \<Rightarrow> solo_env \<Rightarrow> string \<Rightarrow> pyfloat \<Rightarrow> (m30, unit) eff" where
  "m30_price_alert cfg env smb px =
     (if smb \<noteq> si_symbol (mc_id cfg) then ret ()
      else then_do (bind get_state (\<lambda>s. for_each (alert_one cfg env px) (sl_positions s)))
        (modify (persist_solo env (mc_id cfg))))"

end
