(* ===== verification/XauM30Properties.thy ===== *)
theory XauM30Properties
  imports XauM30 SuperTrendProperties
begin

text \<open>
  The half-hour strategies: which bars they see, how large a position is, how many they hold, and what
  a price alert closes.
\<close>

section \<open>Half-hour bars\<close>

lemma map_filter_Some: "x \<in> set (List.map_filter f xs) \<longleftrightarrow> (\<exists>y \<in> set xs. f y = Some x)"
  by (force simp: map_filter_def)

lemma m30_row_Some:
  "m30_row q t = Some r \<longleftrightarrow> t mod m30_ms = 0 \<and>
     (\<exists>a b. map_of q t = Some a \<and> map_of q (t + m15_ms) = Some b \<and> r = (t, join_bars a b))"
  by (auto simp: m30_row_def split: option.splits)

lemma m30_row_at: "m30_row q x = Some (t, bar) \<Longrightarrow> x = t \<and> t \<in> set (keys q)"
  by (drule m30_row_Some [THEN iffD1], elim conjE exE, drule map_of_SomeD) (force simp: keys_def)

lemma map_filter_fst_sorted:
  "sorted_wrt (<) xs \<Longrightarrow> (\<And>x r. f x = Some r \<Longrightarrow> fst r = x) \<Longrightarrow> sorted_wrt (<) (map fst (List.map_filter f xs))"
  for xs :: "int list"
proof (induction xs)
  case (Cons x xs)
  have "x < fst r" if "r \<in> set (List.map_filter f xs)" for r
  proof -
    from that obtain y where "y \<in> set xs" "f y = Some r" by (auto simp: map_filter_Some)
    with Cons.prems(1) Cons.prems(2) [of y r] show ?thesis by auto
  qed
  with Cons show ?case by (auto simp: List.map_filter_simps split: option.splits)
qed (simp add: List.map_filter_simps)

text \<open>
  The half-hour bars are in the order of time and no time appears twice; there is one at \<open>t\<close> just
  if \<open>t\<close> starts a half hour and the cache holds both its quarters, and it is the two put together.
\<close>

theorem m30_bars_are_complete:
  "let quarters = dupdate [] rows
   in sorted_wrt (<) (map fst (m30_rows rows)) \<and>
      ((t, bar) \<in> set (m30_rows rows) \<longleftrightarrow> t mod m30_ms = 0 \<and>
        (\<exists>a b. map_of quarters t = Some a \<and> map_of quarters (t + m15_ms) = Some b \<and> bar = join_bars a b))"
proof -
  let ?q = "dupdate [] rows :: (int, ohlc) dict"
  have "distinct (keys ?q)" unfolding keys_def by simp
  then have "sorted_wrt (<) (sort (keys ?q))" by (simp add: strict_sorted_iff)
  then have "sorted_wrt (<) (map fst (m30_rows rows))"
    unfolding m30_rows_def Let_def by (rule map_filter_fst_sorted) (auto simp: m30_row_Some)
  moreover have "(t, bar) \<in> set (m30_rows rows) \<longleftrightarrow> (\<exists>x \<in> set (keys ?q). m30_row ?q x = Some (t, bar))"
    by (simp add: m30_rows_def Let_def map_filter_Some)
  moreover have "\<dots> \<longleftrightarrow> m30_row ?q t = Some (t, bar)"
    using m30_row_at [of ?q] by blast
  ultimately show ?thesis unfolding Let_def by (simp only: m30_row_Some prod.inject simp_thms)
qed

section \<open>The size of a position\<close>

lemma floor3_le: "floor3 (Fin r) = Inr (Fin (of_int \<lfloor>r * 1000\<rfloor> / 1000))" "of_int \<lfloor>r * 1000\<rfloor> / 1000 \<le> r"
  using of_int_floor_le [of "r * 1000"] by (simp_all add: floor3_def)

lemma floor3_Fin: "floor3 x = Inr y \<Longrightarrow> \<exists>r. y = Fin r"
  by (auto simp: floor3_def split: pyfloat.splits)

lemma pymin_le: "pymin (Fin a) (Fin b) = Fin (min a b)"
  by (simp add: pymin_def min_def)

lemma position_size_bounds:
  assumes "mc_capital cfg = Fin c" "mc_risk cfg = Fin r" "mc_leverage cfg = Fin l" "0 < e" "\<not> risk \<le> Fin 0"
    and "position_size cfg (Fin e) risk = Inr q" "\<not> q < Fin (1 / 1000)"
  obtains k n where "q = Fin n" "risk = Fin k" "1 / 1000 \<le> n" "n * k \<le> c * r" "n * e \<le> c * l"
proof (cases risk)
  case (Fin k)
  with assms(5) have k: "0 < k" by simp
  have q: "q = Fin (min (of_int \<lfloor>c * r / k * 1000\<rfloor> / 1000) (of_int \<lfloor>c * l / e * 1000\<rfloor> / 1000))" (is "q = Fin ?n")
    using assms(1-4,6) Fin k by (auto simp: position_size_def floor3_le fdiv_def pymin_le)
  have "?n \<le> c * r / k" "?n \<le> c * l / e" using floor3_le(2) by (auto intro: min.coboundedI1 min.coboundedI2)
  then have "?n * k \<le> c * r" "?n * e \<le> c * l" using k assms(4) by (simp_all add: pos_le_divide_eq)
  moreover from q assms(7) have "1 / 1000 \<le> ?n" by (simp only: pyfloat_Fin not_less)
  ultimately show ?thesis using q Fin that by blast
next
  case NaN
  with assms show ?thesis by (simp add: position_size_def fdiv_def floor3_def)
next
  case PInf
  then have "q = pymin (Fin 0) (Fin (of_int \<lfloor>c * l / e * 1000\<rfloor> / 1000))"
    using assms by (auto simp: position_size_def floor3_le fdiv_def)
  with assms(7) show ?thesis by (simp add: pymin_le min_def split: if_splits)
next
  case NInf
  with assms(5) show ?thesis by simp
qed

text \<open>
  C26. A position risks at most the share of the capital the configuration allows, and never needs more
  than the capital times the leverage; there was room for it.
\<close>

theorem m30_entry_is_sized:
  assumes "m30_entry cfg env side series ps = Inr (Some (pid, p))"
    and "mc_capital cfg = Fin c" "mc_risk cfg = Fin r" "mc_leverage cfg = Fin l" "last (cs_closes series) = Fin e" "0 < e"
  shows "\<exists>n sl. map_of p ''qty'' = Some (JNum (Fin n)) \<and> map_of p ''entry'' = Some (JNum (Fin e)) \<and> map_of p ''sl'' = Some (JNum (Fin sl)) \<and>
    1 / 1000 \<le> n \<and> n * \<bar>e - sl\<bar> \<le> c * r \<and> n * e \<le> c * l \<and> length ps < pr_max (mc_preset cfg)"
proof -
  define sl where "sl = stop_price cfg side (Fin e) series (last (atr14 series))"
  let ?risk = "fabs (Fin e - sl)"
  have "\<exists>q tp. \<not> ?risk \<le> Fin 0 \<and> position_size cfg (Fin e) ?risk = Inr q \<and> \<not> q < Fin (1 / 1000) \<and>
      p = m30_position cfg pid side (Fin e) q tp sl \<and> length ps < pr_max (mc_preset cfg)"
    using assms(1) unfolding m30_entry_def Let_def assms(5) sl_def [symmetric]
    by (simp only: res_bind_Inr_iff sum.inject option.inject option.distinct prod.inject if_distrib not_le
        split: if_splits) blast+
  then obtain q tp where q: "\<not> ?risk \<le> Fin 0" "position_size cfg (Fin e) ?risk = Inr q" "\<not> q < Fin (1 / 1000)"
    and p: "p = m30_position cfg pid side (Fin e) q tp sl" and room: "length ps < pr_max (mc_preset cfg)"
    by blast
  from q obtain k n where n: "q = Fin n" "?risk = Fin k" "1 / 1000 \<le> n" "n * k \<le> c * r" "n * e \<le> c * l"
    using position_size_bounds [OF assms(2-4,6)] by metis
  from n(2) obtain x where "sl = Fin x" "k = \<bar>e - x\<bar>" by (cases sl) (auto simp: fabs_def minus_pyfloat_def uminus_pyfloat_def split: if_splits)
  with n p room show ?thesis by (simp add: m30_position_def)
qed

definition demo_m30_cfg :: m30_cfg where
  "demo_m30_cfg = \<lparr>mc_id = \<lparr>si_alpha = ''a10'', si_version = ''1'', si_preset = 10, si_symbol = ''X'', si_exchange = ''binance''\<rparr>,
     mc_preset = the (preset_of 10), mc_capital = Fin 10000, mc_risk = Fin (1 / 100), mc_fee = Fin 0, mc_leverage = Fin 10,
     mc_m15_bars = 320, mc_h4_bars = 80, mc_retain = 320, mc_close_stamps = False, mc_weekends = True\<rparr>"

definition demo_m30_env :: solo_env where
  "demo_m30_env = \<lparr>sv_emit = (\<lambda>g. Inr True), sv_written = True, sv_client = False, sv_cache = new_cache 0,
     sv_flags = \<lparr>rf_data_stale = False, rf_reconcile_stale = False, rf_price_alert_stale = False, rf_lease_valid = True,
       rf_ready = True, rf_dropped_events = 0\<rparr>, sv_uuid = (\<lambda>s. ''u'')\<rparr>"

definition demo_m30_series :: candle_series where
  "demo_m30_series = series_of [(0, Fin 2000, Fin 2010, Fin 1990, Fin 2000)]"

theorem m30_entry_is_sized_witness:
  "\<exists>n sl. map_of (snd (the (projr (m30_entry demo_m30_cfg demo_m30_env ''LONG'' demo_m30_series [])))) ''qty'' = Some (JNum (Fin n)) \<and>
    map_of (snd (the (projr (m30_entry demo_m30_cfg demo_m30_env ''LONG'' demo_m30_series [])))) ''entry'' = Some (JNum (Fin 2000)) \<and>
    map_of (snd (the (projr (m30_entry demo_m30_cfg demo_m30_env ''LONG'' demo_m30_series [])))) ''sl'' = Some (JNum (Fin sl)) \<and>
    1 / 1000 \<le> n \<and> n * \<bar>2000 - sl\<bar> \<le> 10000 * (1 / 100) \<and> n * 2000 \<le> 10000 * 10 \<and>
    length ([] :: held) < pr_max (mc_preset demo_m30_cfg)"
proof (rule m30_entry_is_sized)
  have "m30_entry demo_m30_cfg demo_m30_env ''LONG'' demo_m30_series [] = Inr (Some
      (''u'', m30_position demo_m30_cfg ''u'' ''LONG'' (Fin 2000) (Fin (4166 / 1000)) (Fin 2060) (Fin 1976)))"
    by (simp add: m30_entry_def demo_m30_cfg_def demo_m30_env_def demo_m30_series_def series_of_def preset_of_def atr14_def stop_price_def
        position_size_def floor3_def fdiv_def pymin_def m30_position_text_def Let_def show_int_def)
  then show "m30_entry demo_m30_cfg demo_m30_env ''LONG'' demo_m30_series [] = Inr (Some
      (fst (the (projr (m30_entry demo_m30_cfg demo_m30_env ''LONG'' demo_m30_series []))),
       snd (the (projr (m30_entry demo_m30_cfg demo_m30_env ''LONG'' demo_m30_series [])))))"
    by simp
qed (simp_all add: demo_m30_cfg_def demo_m30_series_def series_of_def)

section \<open>The relative strength index\<close>

lemma rsi_value_bounds:
  assumes "0 \<le> g" "0 \<le> l"
  shows "\<exists>r. rsi_value (Fin g) (Fin l) = Fin r \<and> 0 \<le> r \<and> r \<le> 100"
proof (cases "l = 0")
  case True
  then show ?thesis using assms by (auto simp: rsi_value_def)
next
  case False
  with assms have l: "0 < l" and "0 \<le> g / l" by simp_all
  then have "0 \<le> 100 / (1 + g / l)" "100 / (1 + g / l) \<le> 100" by (simp_all add: divide_le_eq)
  moreover have "rsi_value (Fin g) (Fin l) = Fin (100 - 100 / (1 + g / l))"
    using l \<open>0 \<le> g / l\<close> by (simp add: rsi_value_def quot_def fdiv_def)
  ultimately show ?thesis by simp
qed

definition percent :: "pyfloat \<Rightarrow> bool" where
  "percent x \<longleftrightarrow> (\<exists>r. x = Fin r \<and> 0 \<le> r \<and> r \<le> 100)"

lemma rsi_walk_bounds:
  "0 \<le> a \<Longrightarrow> a \<le> 1 \<Longrightarrow> 0 \<le> g \<Longrightarrow> 0 \<le> l \<Longrightarrow> list_all (\<lambda>(x, y). 0 \<le> x \<and> 0 \<le> y) ms \<Longrightarrow>
   list_all percent (rsi_walk (Fin a) (Fin g) (Fin l) (map (\<lambda>(x, y). (Fin x, Fin y)) ms))"
proof (induction ms arbitrary: g l)
  case (Cons m ms)
  obtain x y where m: "m = (x, y)" by force
  with Cons.prems have "0 \<le> a * x + (1 - a) * g" "0 \<le> a * y + (1 - a) * l" by simp_all
  with Cons m show ?case by (simp add: Let_def percent_def rsi_value_bounds)
qed simp

lemma moves_Fin: "moves (map Fin xs) = map (\<lambda>(x, y). (Fin x, Fin y)) (map (\<lambda>d. (max d 0, max (- d) 0)) (map2 (\<lambda>x y. y - x) xs (tl xs)))"
proof (induction xs rule: induct_list012)
  case (3 x y zs)
  then show ?case by (simp add: pymax_def max_def)
qed simp_all

text \<open>
  Whatever the closes, every value of the relative strength index is a number from 0 to 100: no
  division is by zero.
\<close>

theorem rsi14_is_percent: "list_all percent (rsi14 (map Fin xs))"
proof -
  have "list_all percent (rsi_walk (Fin (1 / 14)) (Fin 0) (Fin 0) (map (\<lambda>(x, y). (Fin x, Fin y))
      ((0, 0) # map (\<lambda>d. (max d 0, max (- d) 0)) (map2 (\<lambda>x y. y - x) xs (tl xs)))))"
    by (rule rsi_walk_bounds) (simp_all add: list_all_iff)
  then show ?thesis
    unfolding rsi14_def moves_Fin by (auto simp: list_all_iff percent_def)
qed

section \<open>Price alerts\<close>

text \<open>A position with a side, a take-profit and a stop, and whether a price meets one of them.\<close>

definition well_formed :: "obj \<Rightarrow> bool" where
  "well_formed p \<longleftrightarrow> (\<exists>side tp sl. map_of p ''side'' = Some (JStr side) \<and> side \<in> {''LONG'', ''SHORT''} \<and>
     map_of p ''tp'' = Some (JNum (Fin tp)) \<and> map_of p ''sl'' = Some (JNum (Fin sl)))"

definition level :: "obj \<Rightarrow> string \<Rightarrow> real" where
  "level p k = (case dget p k JNull of JNum (Fin x) \<Rightarrow> x | _ \<Rightarrow> 0)"

definition long_side :: "obj \<Rightarrow> bool" where
  "long_side p \<longleftrightarrow> dget p ''side'' JNull = JStr ''LONG''"

definition hit_profit :: "real \<Rightarrow> obj \<Rightarrow> bool" where
  "hit_profit x p \<longleftrightarrow> (if long_side p then level p ''tp'' \<le> x else x \<le> level p ''tp'')"

definition hit_stop :: "real \<Rightarrow> obj \<Rightarrow> bool" where
  "hit_stop x p \<longleftrightarrow> (if long_side p then x \<le> level p ''sl'' else level p ''sl'' \<le> x)"

definition alert_close :: "m30_cfg \<Rightarrow> real \<Rightarrow> string \<times> obj \<Rightarrow> solo_signal" where
  "alert_close cfg x = (\<lambda>(pid, p).
     m30_close_signal cfg pid (if hit_profit x p then ''TP_HIT'' else ''SL_HIT'') (Fin x) True ''xau_m30_price_alert'')"

definition hit :: "real \<Rightarrow> string \<times> obj \<Rightarrow> bool" where
  "hit x kp \<longleftrightarrow> hit_profit x (snd kp) \<or> hit_stop x (snd kp)"

lemma reaches_level:
  "well_formed p \<Longrightarrow> reaches True (Fin x) p ''tp'' = Inr (hit_profit x p)"
  "well_formed p \<Longrightarrow> reaches False (Fin x) p ''sl'' = Inr (hit_stop x p)"
  by (auto simp: well_formed_def reaches_def obj_item_def float_item_def hit_profit_def hit_stop_def long_side_def level_def dget_def)

lemma alert_one_run:
  assumes "well_formed p" and "\<And>g. sv_emit env g = Inr (pub g)"
  shows "alert_one cfg env (Fin x) (pid, p) s = (Inr (),
     if hit x (pid, p) then s\<lparr>sl_sent := sl_sent s @ filter pub [alert_close cfg x (pid, p)],
       sl_positions := ddel pid (sl_positions s)\<rparr> else s)"
  using assms by (simp add: alert_one_def reaches_level hit_def alert_close_def then_do_apply emit_solo_def drop_position_def)

lemma alerts_run:
  assumes "\<And>g. sv_emit env g = Inr (pub g)" and "list_all (\<lambda>kp. well_formed (snd kp)) ps"
  shows "for_each (alert_one cfg env (Fin x)) ps s = (Inr (),
     s\<lparr>sl_sent := sl_sent s @ filter pub (map (alert_close cfg x) (filter (hit x) ps)),
       sl_positions := fold ddel (map fst (filter (hit x) ps)) (sl_positions s)\<rparr>)"
  using assms(2)
proof (induction ps arbitrary: s)
  case (Cons kp ps)
  obtain pid p where kp: "kp = (pid, p)" by force
  with Cons show ?case by (auto simp: then_do_apply alert_one_run [where pub = pub, OF _ assms(1)])
qed simp

lemma fold_ddel: "fold ddel ks d = filter (\<lambda>(k, v). k \<notin> set ks) d"
  by (induction ks arbitrary: d) (auto simp: ddel_def intro!: filter_cong)

lemma ddel_hits: "dict_ok ps \<Longrightarrow> fold ddel (map fst (filter P ps)) ps = filter (\<lambda>kp. \<not> P kp) ps"
  unfolding fold_ddel by (rule filter_cong) (auto dest: eq_key_imp_eq_value intro: rev_image_eqI)


definition demo_m30_held :: held where
  "demo_m30_held = [(''u'', m30_position demo_m30_cfg ''u'' ''LONG'' (Fin 2000) (Fin 4) (Fin 2060) (Fin 1976)),
     (''v'', m30_position demo_m30_cfg ''v'' ''LONG'' (Fin 1990) (Fin 4) (Fin 2050) (Fin 1966))]"


section \<open>How many positions\<close>

definition at_most :: "nat \<Rightarrow> m30 \<Rightarrow> bool" where
  "at_most n s \<longleftrightarrow> length (sl_positions s) \<le> n"

lemma at_most_frame [simp]:
  "at_most n (set_field pid k v s) = at_most n s" "at_most n (s\<lparr>mt_last := a, mt_pending := b\<rparr>) = at_most n s"
  "at_most n (s\<lparr>mt_pending := b\<rparr>) = at_most n s" "at_most n (s\<lparr>mt_last := a\<rparr>) = at_most n s"
  by (simp_all add: at_most_def set_field_def)

lemma at_most_persist [simp]: "at_most n (persist_solo env i s) = at_most n s"
  by (simp add: at_most_def persist_solo_def sync_solo_alerts_def Let_def split: option.splits prod.splits)

lemma at_most_drop: "at_most n s \<Longrightarrow> at_most n (drop_position pid s)"
  by (auto simp: at_most_def drop_position_def ddel_def intro: le_trans [OF length_filter_le])

lemma at_most_emit: "keeps (at_most n) (emit_solo env g)"
  by (rule keepsI) (simp add: emit_solo_def at_most_def split: sum.splits)

lemmas at_most_intros = keeps_intros keeps_get_bind at_most_emit at_most_drop

lemma at_most_manage_one: "keeps (at_most n) (manage_one cfg env e50 px kp)"
  by (cases kp) (auto simp: manage_one_def Let_def intro!: at_most_intros)

lemma at_most_manage: "keeps (at_most n) (manage_on_bar cfg env series)"
  by (auto simp: manage_on_bar_def intro!: at_most_intros at_most_manage_one)

lemma at_most_alert: "keeps (at_most n) (m30_price_alert cfg env smb px)"
proof -
  have "keeps (at_most n) (alert_one cfg env px kp)" for kp
    by (cases kp) (auto simp: alert_one_def intro!: at_most_intros)
  then show ?thesis by (auto simp: m30_price_alert_def intro!: at_most_intros)
qed

lemma m30_entry_room: "m30_entry cfg env side series ps = Inr (Some e) \<Longrightarrow> length ps < pr_max (mc_preset cfg)"
  unfolding m30_entry_def Let_def by (cases "pr_max (mc_preset cfg) \<le> length ps") simp_all

lemma length_dset_le: "length (dset k v d) \<le> Suc (length d)"
  by (induction d) auto

lemma at_most_open: "keeps (at_most (pr_max (mc_preset cfg))) (open_m30 cfg env side series)"
proof (rule keepsI)
  fix s assume s: "at_most (pr_max (mc_preset cfg)) s"
  let ?N = "pr_max (mc_preset cfg)"
  show "at_most ?N (snd (open_m30 cfg env side series s))"
  proof (cases "m30_entry cfg env side series (sl_positions s)")
    case (Inr e)
    show ?thesis
    proof (cases e)
      case (Some kp)
      obtain pid p where kp: "kp = (pid, p)" by force
      from Inr Some m30_entry_room have "length (sl_positions s) < ?N" by metis
      then have "length (dset pid p (sl_positions s)) \<le> ?N" using length_dset_le [of pid p "sl_positions s"] by linarith
      with s Inr Some kp show ?thesis
        by (cases "sv_emit env (m30_open_signal cfg p (last (cs_times series)))")
          (simp_all add: open_m30_def then_do_apply emit_solo_def at_most_def)
    qed (use s Inr in \<open>simp add: open_m30_def\<close>)
  qed (use s in \<open>simp add: open_m30_def\<close>)
qed

text \<open>
  A strategy that holds at most the positions of its preset keeps it that way, through every scan
  and every price alert, whatever the dispatcher answers and wherever a step raises.
\<close>

theorem preset_limits_positions:
  "keeps (\<lambda>s. length (sl_positions s) \<le> pr_max (mc_preset cfg)) (m30_scan cfg env local) \<and>
   keeps (\<lambda>s. length (sl_positions s) \<le> pr_max (mc_preset cfg)) (m30_price_alert cfg env smb px)"
proof -
  have "keeps (at_most (pr_max (mc_preset cfg))) (m30_scan cfg env local)"
    unfolding m30_scan_def Let_def
    by (auto intro!: at_most_intros at_most_manage at_most_open split: option.split)
  then show ?thesis using at_most_alert [of "pr_max (mc_preset cfg)" cfg env smb px]
    by (simp add: at_most_def [abs_def])
qed

section \<open>Each bar once\<close>

text \<open>The bar a scan waits for is later than the last one evaluated.\<close>

definition bar_order :: "m30 \<Rightarrow> bool" where
  "bar_order s \<longleftrightarrow> (case (mt_last s, mt_pending s) of (Some l, Some p) \<Rightarrow> l < p | _ \<Rightarrow> True)"

definition bar_marks :: "m30 \<Rightarrow> int option \<times> int option" where
  "bar_marks s = (mt_last s, mt_pending s)"

lemma bars_frame [simp]:
  "bar_marks (set_field pid k v s) = bar_marks s" "bar_marks (drop_position pid s) = bar_marks s"
  "bar_marks (s\<lparr>sl_positions := ps\<rparr>) = bar_marks s"
  "bar_marks (persist_solo env i s) = bar_marks s"
  by (simp_all add: bar_marks_def set_field_def drop_position_def persist_solo_def sync_solo_alerts_def Let_def split: option.splits prod.splits)

lemma bars_emit: "keeps (\<lambda>s. bar_marks s = b) (emit_solo env g)"
  by (rule keepsI) (simp add: emit_solo_def bar_marks_def split: sum.splits)

lemmas bars_intros = keeps_intros keeps_get_bind bars_emit

lemma bars_manage: "keeps (\<lambda>s. bar_marks s = b) (manage_on_bar cfg env series)"
proof -
  have "keeps (\<lambda>s. bar_marks s = b) (manage_one cfg env e50 px kp)" for e50 px kp
    by (cases kp) (auto simp: manage_one_def Let_def intro!: bars_intros)
  then show ?thesis by (auto simp: manage_on_bar_def intro!: bars_intros)
qed

lemma bars_open: "keeps (\<lambda>s. bar_marks s = b) (open_m30 cfg env side series)"
  by (auto simp: open_m30_def intro!: bars_intros split: option.split)

lemma scan_bars:
  "bar_marks (snd (m30_scan cfg env local s)) \<in> {bar_marks s, (mt_pending s, None)}"
proof (cases "mt_pending s")
  case (Some start)
  define t where "t = s\<lparr>mt_last := Some start, mt_pending := None\<rparr>"
  let ?rest = "\<lambda>bars30 h4. then_do (manage_on_bar cfg env bars30)
       (then_do (if \<not> flags_can_open (sv_flags env) \<or> \<not> is_trade_time cfg local start then ret ()
         else bind (lift_res (entry_side cfg bars30 h4)) (\<lambda>side. case side of None \<Rightarrow> ret () | Some side \<Rightarrow> open_m30 cfg env side bars30))
       (modify (persist_solo env (mc_id cfg))))"
  have "keeps (\<lambda>s. bar_marks s = (Some start, None)) (?rest bars30 h4)" for bars30 h4
    by (auto intro!: bars_intros bars_manage bars_open split: option.split)
  then have "bar_marks (snd (?rest bars30 h4 t)) = (Some start, None)" for bars30 h4
    by (rule keepsD) (simp add: t_def bar_marks_def)
  with Some show ?thesis by (simp add: m30_scan_def Let_def t_def)
qed (simp add: m30_scan_def)

definition seen_upto :: "int \<Rightarrow> m30 \<Rightarrow> bool" where
  "seen_upto l s \<longleftrightarrow> bar_order s \<and> (\<exists>l'. mt_last s = Some l' \<and> l \<le> l')"

lemma scan_order:
  assumes "bar_order s" shows "bar_order (snd (m30_scan cfg env local s))"
    and "mt_last s = Some l \<Longrightarrow> \<exists>l'. mt_last (snd (m30_scan cfg env local s)) = Some l' \<and> l \<le> l'"
proof -
  have same: "snd (m30_scan cfg env local s) = s" if "mt_pending s = None" using that by (simp add: m30_scan_def)
  note b = scan_bars [of cfg env local s]
  show "bar_order (snd (m30_scan cfg env local s))"
    using b assms by (auto simp: bar_order_def bar_marks_def split: option.splits)
  show "\<exists>l'. mt_last (snd (m30_scan cfg env local s)) = Some l' \<and> l \<le> l'" if "mt_last s = Some l"
    using b assms that same by (cases "mt_pending s") (auto simp: bar_order_def bar_marks_def)
qed

text \<open>
  C27. A half hour is evaluated at most once, and never after a later one: a bar is only waited for when
  it is later than the last one evaluated, and the time of the last one never goes back.
\<close>

theorem m30_bar_once:
  "keeps bar_order (m30_should_scan cfg env kind smb tf) \<and> keeps bar_order (m30_scan cfg env local) \<and>
   keeps (seen_upto l) (m30_should_scan cfg env kind smb tf) \<and> keeps (seen_upto l) (m30_scan cfg env local)"
proof (intro conjI)
  show a: "keeps bar_order (m30_should_scan cfg env kind smb tf)"
    by (rule keepsI) (auto simp: m30_should_scan_def Let_def bar_order_def split: option.splits)
  have "mt_last (snd (m30_should_scan cfg env kind smb tf s)) = mt_last s" for s
    by (auto simp: m30_should_scan_def Let_def split: option.splits)
  then show "keeps (seen_upto l) (m30_should_scan cfg env kind smb tf)"
    using keepsD [OF a] by (auto simp: seen_upto_def)
  show "keeps bar_order (m30_scan cfg env local)" by (rule keepsI) (rule scan_order)
  show "keeps (seen_upto l) (m30_scan cfg env local)"
  proof (rule keepsI)
    fix s assume "seen_upto l s"
    then obtain l' where s: "bar_order s" "mt_last s = Some l'" "l \<le> l'" by (auto simp: seen_upto_def)
    from scan_order(2) [OF s(1,2)] obtain l'' where "mt_last (snd (m30_scan cfg env local s)) = Some l''" "l' \<le> l''" by blast
    with s(3) scan_order(1) [OF s(1)] show "seen_upto l (snd (m30_scan cfg env local s))" by (auto simp: seen_upto_def)
  qed
qed

end
