(* ===== verification/Spec2Isabelle.thy ===== *)
theory Spec2Isabelle
  imports PositionProperties LedgerProperties MarketProperties AlphaProperties PortfolioProperties
    RunnerProperties EngineProperties AlphaWorker ShadowProperties CrossProperties WarmupProperties PubSubProperties
    RunnerLoopProperties ConfigProperties EquityProperties SuperTrendProperties XauM30Properties
begin

text \<open>
  The paper-trade system runs trading strategies against live market data without placing real
  orders.  Its programs talk through Redis streams and keys:

  \<^item> the \<^emph>\<open>runner\<close> (\<^verbatim>\<open>src/alphas/runner\<close>) holds a lease on each strategy it executes, keeps their
    candles in one shared cache and dispatches their signals to a stream;
  \<^item> the \<^emph>\<open>portfolio manager\<close> (\<^verbatim>\<open>src/portfolio_manager\<close>) blends the target books of several
    strategies into one portfolio and sends the signals that lead to it;
  \<^item> the \<^emph>\<open>worker\<close> (\<^verbatim>\<open>src/worker/app\<close>) consumes the signals, fills them at prices it takes from the
    market data service, and keeps positions, trades and signals in SQLite; it publishes
    snapshots of the open positions, which the runner and the portfolio manager read back.

  \<^bold>\<open>The theories.\<close>  Every theory but the last group models a part of the code, in the order of the
  code, and proves what that part keeps; \<open>X\<close>\<^verbatim>\<open>Properties\<close> hold the properties of a group, this theory
  those that span components.

  \<^item> \<^verbatim>\<open>Prelude\<close>: Python values (floats with NaN and the infinities, JSON, dictionaries as
    association lists in insertion order), exceptions as values, and the state-passing computations
    \<open>('s, 'a) eff\<close>, which return \<open>Inl\<close> an exception or \<open>Inr\<close> a result together with the state that is
    left - so that what was written before an exception stays written.
  \<^item> \<^verbatim>\<open>Models\<close>: \<^verbatim>\<open>worker/app/models.py\<close>.  \<open>wire\<close> is a stream entry, \<open>parse_signal\<close> its parser.
  \<^item> \<^verbatim>\<open>TradeClock\<close>, \<^verbatim>\<open>Database\<close>, \<^verbatim>\<open>Ledger\<close>: \<^verbatim>\<open>worker/app/db.py\<close>.  A table is the list of its rows, \<open>db\<close> the
    record of the tables; \<open>transaction\<close> rolls back on an exception, a locked database or a failed
    COMMIT.  \<open>wf_db\<close> (unique keys, positions of registered alphas) and \<open>finite_db\<close> are its
    invariants.  \<open>active_session_us\<close> walks over the trading sessions.
  \<^item> \<^verbatim>\<open>Fill\<close>, \<^verbatim>\<open>SlippageClient\<close>, \<^verbatim>\<open>PriceCaches\<close>: \<^verbatim>\<open>fill.py\<close>, \<^verbatim>\<open>execution_model.py\<close>, \<^verbatim>\<open>slippage_client.py\<close> with its
    circuit breaker, \<^verbatim>\<open>ob_exec.py\<close> and the ticker cache of \<^verbatim>\<open>main.py\<close>.
  \<^item> \<^verbatim>\<open>Executor\<close>, \<^verbatim>\<open>Lifecycle\<close>: \<^verbatim>\<open>executor.py\<close>, OPEN, MODIFY, CLOSE, REGISTER_COLUMNS and the automatic
    take-profit / stop-loss pass, and what they guarantee of a position over its life.
  \<^item> \<^verbatim>\<open>Worker\<close>, \<^verbatim>\<open>Examples\<close>: \<^verbatim>\<open>metrics.py\<close> and the consumer of \<^verbatim>\<open>main.py\<close>.  \<open>worker\<close> is its state,
    \<open>msg_env\<close> what the outside decides while a message is handled.  The locale \<open>fill_provider\<close> is
    what the consumer relies on in a fill service; both services of the code are instances.
  \<^item> \<^verbatim>\<open>VirtualLedger\<close>, \<^verbatim>\<open>Snapshots\<close>: \<^verbatim>\<open>virtual_trade_ledger.py\<close>, \<^verbatim>\<open>position_snapshots.py\<close> and
    \<^verbatim>\<open>position_ownership.py\<close>.
  \<^item> \<^verbatim>\<open>EquitySnapshots\<close>: \<^verbatim>\<open>equity_snapshots.py\<close>.  \<open>collector\<close> holds the last prices and two views of its
    database, the committed one and the one its open transaction sees.
  \<^item> \<^verbatim>\<open>Streaming\<close>, \<^verbatim>\<open>StreamingV5\<close>: \<^verbatim>\<open>indicators/streaming\<close>.  The locale \<open>stream_operator\<close> relates an
    incremental operator to its batch definition; every operator is an instance.  The V5 indicator is also modelled as
    \<^verbatim>\<open>indicators/pandas/v5.py\<close> computes it from a whole history, and compared with that.
  \<^item> \<^verbatim>\<open>CandleBuffer\<close>, \<^verbatim>\<open>CandleCache\<close>, \<^verbatim>\<open>Rollup\<close>: \<^verbatim>\<open>alphas/runner/data_layer/cache.py\<close> and \<^verbatim>\<open>rollup.py\<close>.  The ring
    buffer refines a list of bars (\<open>view\<close>), the cache a map from keys to such lists (\<open>bars\<close>).
  \<^item> \<^verbatim>\<open>PortfolioCore\<close>, \<^verbatim>\<open>Portfolio\<close>, \<^verbatim>\<open>PortfolioService\<close>, \<^verbatim>\<open>PortfolioWorker\<close>: \<^verbatim>\<open>portfolio_manager/core\<close> and
    \<^verbatim>\<open>portfolio_manager/app/service.py\<close>; the last follows the signals of a cycle through the executor of the worker.
  \<^item> \<^verbatim>\<open>Leases\<close>, \<^verbatim>\<open>Claims\<close>: \<^verbatim>\<open>alphas/runner/lease.py\<close>, the renewal loop of \<^verbatim>\<open>alphas/runner/main.py\<close>,
    \<^verbatim>\<open>alpha_claim.py\<close> and \<^verbatim>\<open>periodic_claim.py\<close>, against any server that has the documented Redis
    commands (locale \<open>key_server\<close>), interleaved with the other runners (\<open>world\<close>, \<open>lease_reachable\<close>, whose
    steps are the calls of \<open>lease.py\<close> on a server that has scripts).
  \<^item> \<^verbatim>\<open>Dispatcher\<close>: \<^verbatim>\<open>alphas/runner/signal/dispatcher.py\<close>, against any server of lists (\<open>list_server\<close>).
  \<^item> \<^verbatim>\<open>AlphaFeed\<close>, \<^verbatim>\<open>AlphaEngine\<close>, \<^verbatim>\<open>EngineProperties\<close>, \<^verbatim>\<open>AlphaWorker\<close>: \<^verbatim>\<open>alphas/base\<close>, the base of the
    alphas that run on their own: their candles (locale \<open>bar_buffer\<close> with the one of the runner), the
    flags and the loops that suspend trading, and the reconciliation with the worker.
  \<^item> \<^verbatim>\<open>ShadowLedger\<close>, \<^verbatim>\<open>ShadowMirror\<close>, \<^verbatim>\<open>ShadowProperties\<close>: \<^verbatim>\<open>alphas/runner/virtual_trade_ledger.py\<close>, the
    book of a strategy that is only simulated, and its mirror in the tables of the worker.
  \<^item> \<^verbatim>\<open>Schedule\<close>, \<^verbatim>\<open>Selection\<close>, \<^verbatim>\<open>SelectionProperties\<close>: \<^verbatim>\<open>alphas/cross_alpha\<close>, when to rebalance, and the
    weights of a row of scores.
  \<^item> \<^verbatim>\<open>StrategyContext\<close>, \<^verbatim>\<open>CrossSectional\<close>, \<^verbatim>\<open>CrossProperties\<close>: \<^verbatim>\<open>alphas/runner/strategy\<close> and the strategy of
    \<^verbatim>\<open>strategies/cross_sectional\<close>.
  \<^item> \<^verbatim>\<open>SnapshotReader\<close>, \<^verbatim>\<open>Warmup\<close>, \<^verbatim>\<open>WarmupProperties\<close>: how the runner asks for the candles it lacks
    (\<^verbatim>\<open>snapshot.py\<close>, \<^verbatim>\<open>mds_ready.py\<close>, \<^verbatim>\<open>warmup.py\<close> of \<^verbatim>\<open>data_layer\<close>).
  \<^item> \<^verbatim>\<open>PubSub\<close>, \<^verbatim>\<open>RunnerLoop\<close>, \<^verbatim>\<open>ConfigSync\<close> with their properties: \<^verbatim>\<open>pubsub.py\<close>, the loops of
    \<^verbatim>\<open>alphas/runner/main.py\<close> with the metrics, and \<^verbatim>\<open>config_sync.py\<close> with \<^verbatim>\<open>config_listener.py\<close>.  A strategy
    is a record of operations (\<open>strategy_ops\<close>) with its contract in the locale \<open>runner_strategy\<close>, which
    the cross-sectional strategy meets; the pool that admits events is the step relation \<open>pool_step\<close>.
  \<^item> \<^verbatim>\<open>SoloStrategy\<close>, \<^verbatim>\<open>SuperTrend\<close>, \<^verbatim>\<open>XauM30\<close> with their properties: the single-symbol strategies
    \<^verbatim>\<open>supertrend_xau_v2\<close> and \<^verbatim>\<open>xau_m30\<close> of \<^verbatim>\<open>alphas/runner/strategies\<close>.  \<open>solo\<close> holds the positions as the
    dictionaries the code keeps, what was sent and what is stored; the clock of a time zone is an argument.

  \<^bold>\<open>How the parts meet.\<close>  A signal that leaves \<open>dispatch\<close> is what \<open>process_signal_message\<close> reads
  (\<open>received_as\<close>); the two duplicate checks, the runner's window of recent ids and the worker's table
  of signals, rest on the same id.  The consumer calls the executor inside \<open>worker_transaction\<close>, the
  executor the tables; the fill service is called before the transaction.  \<open>publish_alpha\<close> turns the
  tables into the snapshot that \<open>read_snapshot\<close> of the portfolio manager parses; what it sends back is taken by
  \<open>process_close\<close> and \<open>process_open\<close> (\<open>worker_takes\<close>).  The start of an alpha or of a strategy merges that snapshot with what it
  stored itself.  A message of the market data goes through \<open>handle_message\<close> into the shared cache and
  the queues, and from there by \<open>handle_strategy_event\<close> to the scan of a strategy, whose rebalance ends
  in \<open>dispatch\<close> or, simulated, in the events \<open>apply_virtual_trade_event\<close> reads.

  \<^bold>\<open>Idealisations.\<close>  Floats are exact reals with NaN and the infinities, propagated as IEEE does;
  rounding and overflow are not modelled (the V5 indicator and the windows of the streaming
  operators take finite prices only).  JSON and ISO time texts are replaced by what they parse to.
  Candle times are kept in 64 bits where the code keeps them in a numpy array.  SQLite REAL columns
  are \<open>pyfloat option\<close>, with NaN stored as NULL.  The steps of a strategy are atomic, the batches of a
  warm-up are sent one after the other, and a cancelled wait for a permit never holds one.

  \<^bold>\<open>Parameters.\<close>  Clocks, \<open>uuid4\<close>, the outcomes of Redis and RPC calls, SHA-256 and \<open>str\<close> are arguments.
  Redis' key and list commands are records of operations, with their documented laws as locales,
  both interpreted by a server in memory.

  \<^bold>\<open>Loops.\<close>  Batches, passes over tables and buckets are structural recursions; the walk over the
  trading sessions, the wait for the market data and the slicing of a list into chunks are proved to terminate
  by a measure.
  The endless service loops are modelled by one turn and by lists or reachability over turns.

  \<^bold>\<open>Not modelled.\<close>  Start-up, shutdown, logging, health files and subscriber loops, which only wait
  for input; the dashboard, the benchmarks and the recovery scripts; the restore from parquet files
  and everything that is an expression over \<^verbatim>\<open>pandas\<close>, a package that is not part of the repository:
  the other batch indicators and the signals of the alphas; and the remaining runner strategies.
\<close>

section \<open>The signal consumer\<close>

text \<open>
  C1. Whatever messages arrive, parsable or not, in whatever order, with locked databases and
  failed commits in between, the tables keep their invariant: primary keys stay unique, every
  open position belongs to a registered alpha and stores a finite entry price and quantity.  The configured
  slippage and the prices of the ticker cache are finite.
\<close>

theorem consume_keeps_tables:
  assumes "db_inv (wk_db w)"
    and "\<And>env k data. (env, k, data) \<in> set ms \<Longrightarrow> acceptable_env cfg env"
  shows "db_inv (wk_db (snd (consume cfg ms w)))"
  using assms by (rule consume_inv)

theorem consume_keeps_tables_witness:
  "db_inv (wk_db (snd (consume ex_cfg [(ex_env TxOk True, ''m1'', ex_open_wire)] ex_worker)))"
  by (rule consume_keeps_tables [OF ex_worker_inv]) (auto intro: ex_acceptable)

text \<open>
  \<open>handle_signal_message\<close> never raises, counts every message once as received and once in
  one of the five buckets, except in the cases \<open>double_counted\<close> spells out: an XACK that fails
  after the message was accounted, a COMMIT that fails after the result was counted, and a
  locked database after a parse error was counted.
\<close>

theorem message_accounting:
  "fst (handle_signal_message cfg env k data w) = Inr () \<and>
   received_total (wk_metrics (snd (handle_signal_message cfg env k data w))) =
     received_total (wk_metrics w) + 1 \<and>
   accounted (wk_metrics (snd (handle_signal_message cfg env k data w))) =
     accounted (wk_metrics w) + 1 + (if double_counted env data w then 1 else 0)"
  by (intro conjI) (rule handle_never_raises handle_counts)+

text \<open>
  The documented invariant of \<open>WorkerMetrics\<close> survives a message exactly when the message is
  not counted twice; in particular it breaks when the XACK of a committed signal fails.
\<close>

theorem reconciliation_survives_iff:
  assumes "reconciles (wk_metrics w)"
  shows "reconciles (wk_metrics (snd (handle_signal_message cfg env k data w)))
           \<longleftrightarrow> \<not> double_counted env data w"
  using assms by (simp add: reconciles_def handle_counts)

theorem reconciliation_survives_iff_witness:
  "reconciles (wk_metrics (snd (handle_signal_message ex_cfg (ex_env TxOk True) ''m1''
      ex_open_wire ex_worker))) \<and>
   \<not> reconciles (wk_metrics (snd (handle_signal_message ex_cfg (ex_env TxOk False) ''m1''
      ex_open_wire ex_worker)))"
proof -
  have "reconciles (wk_metrics ex_worker)"
    by (simp add: reconciles_def ex_worker_def new_metrics_def accounted_def committed_total_def)
  note r = reconciliation_survives_iff [OF this, of ex_cfg _ "''m1''" ex_open_wire]
  show ?thesis by (simp add: r) (simp add: double_counted_def processed_ok_def ex_env_def)
qed

text \<open>
  C2. A message is only acknowledged once its signal is durably on record as processed; a
  transaction that could not begin or commit leaves the tables as they were and the message
  unacknowledged.
\<close>

theorem acknowledged_is_recorded:
  fixes w :: worker
  assumes "wire_signal_id data \<noteq> ''unknown''"
    and "snd (handle_signal_message cfg env k data w) = w'"
  shows "(wk_acked w' \<noteq> wk_acked w \<longrightarrow>
            wk_acked w' = wk_acked w @ [k] \<and> signal_processed (wk_db w') (wire_signal_id data)) \<and>
         (\<not> processed_ok env data w \<longrightarrow> wk_db w' = wk_db w \<and> wk_acked w' = wk_acked w)"
proof (intro conjI impI)
  note w' = assms(2) [symmetric]
  assume "wk_acked w' \<noteq> wk_acked w"
  then show "wk_acked w' = wk_acked w @ [k]" "signal_processed (wk_db w') (wire_signal_id data)"
    using process_message_recorded [OF _ assms(1)]
    by (auto simp: w' handle_acked handle_db split: if_splits)
next
  note w' = assms(2) [symmetric]
  assume "\<not> processed_ok env data w"
  then show "wk_db w' = wk_db w" "wk_acked w' = wk_acked w"
    by (cases rule: process_message_cases [of cfg env data w],
        auto simp: w' handle_acked handle_db processed_ok_def)+
qed

theorem acknowledged_is_recorded_witness:
  "signal_processed (wk_db (snd (handle_signal_message ex_cfg (ex_env TxOk True) ''m1'' ex_open_wire
      ex_worker))) ''s1'' \<and>
   wk_db (snd (handle_signal_message ex_cfg (ex_env BeginLocked True) ''m1'' ex_open_wire
      ex_worker)) = wk_db ex_worker"
proof -
  have s: "wire_signal_id ex_open_wire = ''s1''"
    by (simp add: wire_signal_id_def field_or_def ex_open_wire_def dget_def)
  have n: "\<not> processed_ok (ex_env BeginLocked True) ex_open_wire ex_worker"
    using ex_not_seen by (simp add: processed_ok_def ex_env_def)
  have a: "wk_acked (snd (handle_signal_message ex_cfg (ex_env TxOk True) ''m1'' ex_open_wire
      ex_worker)) \<noteq> wk_acked ex_worker"
    by (simp add: handle_acked processed_ok_def ex_env_def)
  show ?thesis
    using acknowledged_is_recorded [OF _ refl, of ex_open_wire ex_cfg "ex_env TxOk True" "''m1''" ex_worker]
      acknowledged_is_recorded [OF _ refl, of ex_open_wire ex_cfg "ex_env BeginLocked True" "''m1''" ex_worker]
      a n s by simp
qed

lemma processed_once:
  fixes w :: worker
  assumes "processed_ok env data w" and "wire_signal_id data \<noteq> ''unknown''"
    and "wire_signal_id data' = wire_signal_id data"
    and w1: "w1 = snd (consume cfg ms (snd (handle_signal_message cfg env k data w)))"
  shows "wk_db (snd (handle_signal_message cfg' env' k' data' w1)) = wk_db w1"
proof -
  let ?P = "\<lambda>w. signal_processed (wk_db w) (wire_signal_id data)"
  have "?P (snd (handle_signal_message cfg env k data w))"
    using process_message_recorded [OF assms(1,2)] by (simp add: handle_db)
  then have "?P w1"
    unfolding w1 by (rule conjunct1 [OF consume_induct])
      (simp add: handle_db process_message_remembers)
  then show ?thesis
    using process_message_duplicate [of data' w1] assms(2,3) by (simp add: handle_db seen_def)
qed

text \<open>
  C3. Processing is idempotent in the signal id: once a message was processed, whatever is
  consumed in between, a later delivery of a message with the same signal id leaves the tables
  untouched.
\<close>

theorem redelivery_changes_nothing:
  fixes w :: worker
  assumes "processed_ok env data w" and "wire_signal_id data \<noteq> ''unknown''"
    and "wire_signal_id data' = wire_signal_id data"
    and w1: "w1 = snd (consume cfg ms (snd (handle_signal_message cfg env k data w)))"
  shows "wk_db (snd (handle_signal_message cfg' env' k' data' w1)) = wk_db w1"
  using assms by (rule processed_once)

theorem redelivery_changes_nothing_witness:
  "let w1 = snd (consume ex_cfg [] (snd (handle_signal_message ex_cfg (ex_env TxOk True) ''m1''
              ex_open_wire ex_worker)))
   in wk_db (snd (handle_signal_message ex_cfg (ex_env TxOk True) ''m2'' ex_open_wire w1)) = wk_db w1"
  unfolding Let_def
  by (rule redelivery_changes_nothing [OF _ _ refl refl])
    (simp_all add: processed_ok_def ex_env_def wire_signal_id_def field_or_def ex_open_wire_def
      dget_def)

section \<open>From the runner to the tables\<close>

text \<open>What the consumer reads from the stream: the texts of an entry, as the runner sent them.\<close>

definition received_as :: "fields \<Rightarrow> wire \<Rightarrow> bool" where
  "received_as payload data \<longleftrightarrow> list_all (\<lambda>(k, v). case v of
       JStr s \<Rightarrow> map_of (w_fields data) k = Some s | _ \<Rightarrow> True) payload"

lemma received_signal_id:
  assumes "received_as (payload_of tc now a sid ty fs) data" and "map_of fs ''signal_id'' = None"
  shows "wire_signal_id data = sid"
  using assms(1) map_of_SomeD [OF payload_signal_id [OF assms(2), of tc now a sid ty]]
  by (auto simp: received_as_def list_all_iff wire_signal_id_def field_or_def dget_def)

lemma published_signal_id:
  assumes "0 \<le> n" and "dispatch srv tc n env a v ty fs d = (Inr (Some sid), d')"
    and "received_as (last (dp_stream d')) data" and "map_of fs ''signal_id'' = None"
  shows "sid = signal_id tc a v ty fs" "wire_signal_id data = sid"
  using dispatch_cases [OF assms(1,2)] assms(3) by (auto dest: received_signal_id [OF _ assms(4)])

text \<open>
  C4. A failover applies a signal once.  Two runners that hold an alpha one after the other may
  both publish the signal of a candle, each with its own recent ids and its own prices and
  timestamps; they give it the same id, and the consumer, having processed the message of the
  first, leaves the tables untouched by the message of the second.
\<close>

theorem failover_applies_once:
  fixes w :: worker
  assumes "dispatch srv tc n env a v ty fs d = (Inr (Some sid), d1)" and "0 \<le> n"
    and "dispatch srv' tc n' env' a v ty fs' d' = (Inr (Some sid'), d1')" and "0 \<le> n'"
    and "list_all (\<lambda>k. dget fs' k (JStr '''') = dget fs k (JStr '''')) logical_fields"
    and "map_of fs ''signal_id'' = None" and "map_of fs' ''signal_id'' = None"
    and "received_as (last (dp_stream d1)) data" and "received_as (last (dp_stream d1')) data'"
    and "sid \<noteq> ''unknown''" and "processed_ok wenv data w"
    and "w1 = snd (consume cfg ms (snd (handle_signal_message cfg wenv k data w)))"
  shows "sid' = sid \<and> wk_db (snd (handle_signal_message cfg' wenv' k' data' w1)) = wk_db w1"
proof -
  note one = published_signal_id [OF assms(2,1,8,6)] and two = published_signal_id [OF assms(4,3,9,7)]
  have "sid' = sid"
    unfolding one(1) two(1) using assms(5) by (intro signal_id_logical) (simp add: list_all_iff)
  then show ?thesis
    using processed_once [OF assms(11) _ _ assms(12)] one(2) two(2) assms(10) by simp
qed

definition published_open :: "string \<Rightarrow> string option res \<times> string list dispatcher" where
  "published_open entry = dispatch memory_lists plain_codec 2 calm ''a'' ''v1'' ''OPEN''
     [(''symbol'', JStr ''BTC''), (''entry'', JStr entry)] fresh_dispatcher"

definition received_open :: "string \<Rightarrow> wire" where
  "received_open entry = \<lparr>w_fields = map (\<lambda>(k, v). (k, case v of JStr s \<Rightarrow> s | _ \<Rightarrow> ''''))
     (last (dp_stream (snd (published_open entry)))), w_json = [], w_time = Some ex_time\<rparr>"

theorem failover_applies_once_witness:
  "let w1 = snd (handle_signal_message ex_cfg (ex_env TxOk True) ''m1'' (received_open ''100'') ex_worker)
   in wk_db (snd (handle_signal_message ex_cfg (ex_env TxOk True) ''m2'' (received_open ''101'') w1)) = wk_db w1"
proof -
  have pub: "\<exists>d. published_open e = (Inr (Some ''a/OPEN/BTC''), d) \<and>
      received_as (last (dp_stream d)) (received_open e)" for e
    by (simp add: published_open_def received_open_def received_as_def payload_of_def add_field_def
        ddel_def publish_simps)
  obtain d1 where d1: "published_open ''100'' = (Inr (Some ''a/OPEN/BTC''), d1)"
    "received_as (last (dp_stream d1)) (received_open ''100'')" using pub by blast
  obtain d2 where d2: "published_open ''101'' = (Inr (Some ''a/OPEN/BTC''), d2)"
    "received_as (last (dp_stream d2)) (received_open ''101'')" using pub by blast
  let ?w1 = "snd (consume ex_cfg [] (snd (handle_signal_message ex_cfg (ex_env TxOk True) ''m1''
      (received_open ''100'') ex_worker)))"
  have "processed_ok (ex_env TxOk True) (received_open ''100'') ex_worker"
    by (simp add: processed_ok_def ex_env_def)
  from failover_applies_once [OF d1(1) [unfolded published_open_def] _ d2(1) [unfolded published_open_def]
      _ _ _ _ d1(2) d2(2) _ this, of ?w1 ex_cfg "[]" "''m1''"]
  show ?thesis by (simp add: logical_fields_def dget_def)
qed

section \<open>The life of a position\<close>

definition no_duplicate_permission :: "wire \<Rightarrow> bool" where
  "no_duplicate_permission data \<longleftrightarrow> (case parse_signal data of
       Inr (OpenSignal s) \<Rightarrow> \<not> allows_duplicate_position s | _ \<Rightarrow> True)"

text \<open>
  C32. Under the policy \<^verbatim>\<open>reject\<close> an alpha never holds two open positions in one symbol, whatever
  is consumed, as long as no OPEN carries the explicit permission.
\<close>

theorem one_leg_per_symbol:
  assumes "single_leg (wk_db w)" and "x_duplicate_policy (wc_exec cfg) = ''reject''"
    and "\<And>env k data. (env, k, data) \<in> set ms \<Longrightarrow> no_duplicate_permission data"
  shows "single_leg (wk_db (snd (consume cfg ms w)))"
proof (rule conjunct1 [OF consume_induct])
  fix env k data and w :: worker
  assume m: "(env, k, data) \<in> set ms" and s: "single_leg (wk_db w)"
  have "no_duplicate_permission data" using m by (rule assms(3))
  with s assms(2) show "single_leg (wk_db (snd (handle_signal_message cfg env k data w)))"
    unfolding handle_db
    by (intro process_message_single_leg) (simp_all add: no_duplicate_permission_def)
qed (rule assms(1))

theorem one_leg_per_symbol_witness:
  "single_leg (wk_db (snd (consume ex_cfg [(ex_env TxOk True, ''m1'', ex_open_wire),
      (ex_env TxOk True, ''m2'', ex_open_wire)] ex_worker)))"
proof (rule one_leg_per_symbol)
  show "single_leg (wk_db ex_worker)" by (simp add: ex_worker_def empty_db_def single_leg_def)
  show "x_duplicate_policy (wc_exec ex_cfg) = ''reject''" by (simp add: ex_cfg_def ex_exec_def)
  have "no_duplicate_permission ex_open_wire"
    by (simp add: no_duplicate_permission_def ex_open_parse allows_duplicate_position_def
        ex_open_def metadata_flag_def dget_def)
  then show "no_duplicate_permission data"
    if "(env, k, data) \<in> set [(ex_env TxOk True, ''m1'', ex_open_wire),
      (ex_env TxOk True, ''m2'', ex_open_wire)]" for env k data
    using that by auto
qed

text \<open>
  C31. A CLOSE that returns neither loses nor invents quantity: what its trades closed and what
  stays open add up to what was open before, but for at most the \<open>10 ^ -12\<close> the code drops.
\<close>

theorem close_conserves_quantity:
  assumes "process_close x u s f d = (Inr r, d')" and "finite_db d" and "wf_signal (CloseSignal s)"
  shows "\<exists>b lost. cr_closed_qty r = Fin b \<and> 0 < b \<and> 0 \<le> lost \<and> lost \<le> dust \<and>
           closed_qty d' (c_position_id s) + open_qty d' (c_position_id s) + lost =
             closed_qty d (c_position_id s) + open_qty d (c_position_id s)"
  using assms by (rule process_close_conserves)

theorem close_conserves_quantity_witness:
  "\<exists>d' lost. lost \<le> dust \<and> closed_qty d' ''p1'' + open_qty d' ''p1'' + lost =
     closed_qty ex_db ''p1'' + 2"
proof -
  obtain d' r where r: "process_close ex_exec ''u1'' (ex_close (Some (Fin 1))) None ex_db = (Inr r, d')"
    using ex_close_part by (metis prod.collapse)
  have "wf_signal (CloseSignal (ex_close (Some (Fin 1))))" by (simp add: ex_close_def)
  from close_conserves_quantity [OF r ex_db_inv(2) this] show ?thesis
    by (auto simp: ex_close_def open_qty_def ex_get_position ex_position_def)
qed

text \<open>
  What a position realises does not depend on how its close is split: closing part of it
  and then the rest at the same price realises the profit, net of fees, of one full close.
\<close>

theorem realised_pnl_is_additive:
  assumes "close_position u k (Fin x) r c m (Some (Fin b)) d = (Inr (), d1)"
    and "close_position u2 k (Fin x) r2 c2 m2 None d1 = (Inr (), d2)"
    and "close_position u3 k (Fin x) r3 c3 m3 None d = (Inr (), d3)"
    and "get_position d k = Some p" and "p_qty p = Some (Fin a)"
    and "p_entry p = Some (Fin e)" and "fee_or_zero p = Fin f"
    and "0 < b" and "b + dust < a"
  shows "realised_pnl d2 k = realised_pnl d3 k \<and>
         realised_pnl d2 k = realised_pnl d k + (x - e) * a * (if p_side p = ''LONG'' then 1 else -1)
           - (e + x) * a * f"
proof (rule conjI)
  have "0 < a" using assms(8,9) by simp
  then have "close_quantities (Fin a) None = Some (Fin a, Fin 0)"
    by (simp add: close_quantities_Fin)
  from close_position_realises [OF assms(3-7) _ this]
  show "realised_pnl d2 k = realised_pnl d3 k"
    using close_in_two_realises [OF assms(1,2,4-9)] by simp
  show "realised_pnl d2 k = realised_pnl d k + (x - e) * a * (if p_side p = ''LONG'' then 1 else -1)
           - (e + x) * a * f"
    using close_in_two_realises [OF assms(1,2,4-9)] by (simp add: pnl_of_def)
qed

theorem realised_pnl_is_additive_witness:
  "\<exists>d2 d3. realised_pnl d2 ''p1'' = realised_pnl d3 ''p1'' \<and>
     realised_pnl d2 ''p1'' = realised_pnl ex_db ''p1'' + 20"
proof -
  obtain d1 where d1: "ex_close_at ''u1'' (Some (Fin 1)) ex_db = (Inr (), d1)"
    using ex_close_first by (metis prod.collapse)
  obtain d2 where d2: "ex_close_at ''u2'' None d1 = (Inr (), d2)"
    using ex_close_second d1 by (metis prod.collapse snd_conv)
  obtain d3 where d3: "ex_close_at ''u3'' None ex_db = (Inr (), d3)"
    using ex_close_full by (metis prod.collapse)
  show ?thesis
    using realised_pnl_is_additive [OF d1 [unfolded ex_close_at_def] d2 [unfolded ex_close_at_def]
      d3 [unfolded ex_close_at_def] ex_get_position, of 2 100 0]
    by (auto simp: ex_position_def fee_or_zero_def or_zero_def)
qed

end
